(* ===== verification/Prelude.thy ===== *)
theory Prelude
  imports Complex_Main "HOL-Library.AList" "HOL-Library.List_Lexorder" "HOL-Library.Char_ord"
    "HOL-Library.Log_Nat"
begin

text \<open>
  What every component of the development shares: thrown errors as values and the loops that
  stop at the first one, the decimal rendering of integers in template literals, JavaScript's
  insertion-ordered maps and sets, string splitting, and JavaScript numbers as far as the
  sources compare and parse them.

  JavaScript strings are compared by code unit. They are modelled as \<^typ>\<open>string\<close>, one
  character per code unit, ordered lexicographically (\<open>List_Lexorder\<close> over \<open>Char_ord\<close>);
  the identifiers, timestamps and messages of the modelled code stay below code unit 256.
\<close>

section \<open>Collections of facts\<close>

named_theorems js_simps \<open>rewrite rules for the JavaScript containers of the model\<close>
named_theorems run_intros \<open>introduction rules for computations that do not throw\<close>

section \<open>Thrown errors as values\<close>

text \<open>
  A function of the source that can throw returns \<open>js_error + 'a\<close>. The model names each
  kind of error: reading a property of \<open>undefined\<close>, an explicit \<open>throw new Error\<close> with its
  message, and exhausting the call stack. \<open>Out_of_fuel\<close> is not an error of the program: it is the
  value of a loop of the model whose fuel ran out, and no entry point returns it.
\<close>

datatype js_error = TypeError | Thrown string | RangeError | Out_of_fuel

type_synonym 'a res = "js_error + 'a"

definition rbind :: "'a res \<Rightarrow> ('a \<Rightarrow> 'b res) \<Rightarrow> 'b res" where
  "rbind m f = (case m of Inl e \<Rightarrow> Inl e | Inr x \<Rightarrow> f x)"

fun rfold :: "('a \<Rightarrow> 's \<Rightarrow> 's res) \<Rightarrow> 'a list \<Rightarrow> 's \<Rightarrow> 's res" where
  "rfold f [] s = Inr s"
| "rfold f (x # xs) s = rbind (f x s) (rfold f xs)"

lemma rbind_simps [simp]:
  "rbind (Inl e) f = Inl e"
  "rbind (Inr x) f = f x"
  by (simp_all add: rbind_def)

lemma rbind_eq_Inr: "rbind m f = Inr y \<longleftrightarrow> (\<exists>x. m = Inr x \<and> f x = Inr y)"
  by (cases m) auto

lemma rbind_InrE [elim]:
  assumes "rbind m f = Inr y"
  obtains x where "m = Inr x" "f x = Inr y"
  using assms by (auto simp: rbind_eq_Inr)

lemma rfold_append: "rfold f (xs @ ys) s = rbind (rfold f xs s) (rfold f ys)"
  by (induction xs arbitrary: s) (auto simp: rbind_def split: sum.splits)

text \<open>
  The contract of a loop body: whenever it returns from a state that satisfies the invariant, the
  two states are related by a preorder that keeps the invariant. Then the same holds of the loop.
\<close>

locale guarded_step =
  fixes inv :: "'s \<Rightarrow> bool"
    and step :: "'a \<Rightarrow> 's \<Rightarrow> 's res"
    and rel :: "'s \<Rightarrow> 's \<Rightarrow> bool"
  assumes step_rel: "inv s \<Longrightarrow> step x s = Inr s' \<Longrightarrow> rel s s'"
    and rel_inv: "inv s \<Longrightarrow> rel s s' \<Longrightarrow> inv s'"
    and rel_refl: "rel s s"
    and rel_trans: "rel s t \<Longrightarrow> rel t u \<Longrightarrow> rel s u"
begin

lemma fold_rel: "inv s \<Longrightarrow> rfold step xs s = Inr s' \<Longrightarrow> rel s s'"
proof (induction xs arbitrary: s)
  case Nil
  then show ?case by (simp add: rel_refl)
next
  case (Cons x xs)
  then obtain s1 where s1: "step x s = Inr s1" and rest: "rfold step xs s1 = Inr s'"
    by (auto elim!: rbind_InrE)
  with Cons.prems have "rel s s1" by (auto intro: step_rel)
  with Cons.IH Cons.prems rest show ?case by (auto intro: rel_trans rel_inv)
qed

lemma fold_inv: "inv s \<Longrightarrow> rfold step xs s = Inr s' \<Longrightarrow> inv s'"
  using fold_rel rel_inv by blast

end

text \<open>
  The contract of a loop body that does not throw: on every element that is acceptable in the
  current state it returns, and acceptable elements stay acceptable. Then the whole loop returns.
\<close>

locale safe_step = guarded_step inv step rel
  for inv :: "'s \<Rightarrow> bool" and step :: "'a \<Rightarrow> 's \<Rightarrow> 's res" and rel :: "'s \<Rightarrow> 's \<Rightarrow> bool" +
  fixes elem :: "'s \<Rightarrow> 'a \<Rightarrow> bool"
  assumes step_safe: "inv s \<Longrightarrow> elem s x \<Longrightarrow> \<exists>s'. step x s = Inr s'"
    and elem_rel: "inv s \<Longrightarrow> elem s x \<Longrightarrow> rel s s' \<Longrightarrow> elem s' x"
begin

lemma fold_safe: "inv s \<Longrightarrow> \<forall>x \<in> set xs. elem s x \<Longrightarrow> \<exists>s'. rfold step xs s = Inr s'"
proof (induction xs arbitrary: s)
  case Nil
  then show ?case by simp
next
  case (Cons x xs)
  then obtain s1 where s1: "step x s = Inr s1" using step_safe by fastforce
  with Cons.prems have "rel s s1" by (auto intro: step_rel)
  with Cons.prems have "inv s1" "\<forall>x \<in> set xs. elem s1 x" by (auto intro: rel_inv elem_rel)
  with Cons.IH s1 show ?case by auto
qed

end

section \<open>Rendering integers\<close>

text \<open>The digits JavaScript prints for a non-negative integer in a template literal.\<close>

fun show_nat :: "nat \<Rightarrow> string" where
  "show_nat n = (if n < 10 then [char_of (48 + n)]
                 else show_nat (n div 10) @ [char_of (48 + n mod 10)])"

declare show_nat.simps [simp del]

fun read_nat :: "string \<Rightarrow> nat \<Rightarrow> nat" where
  "read_nat [] acc = acc"
| "read_nat (c # cs) acc = read_nat cs (acc * 10 + (of_char c - 48))"

lemma read_nat_append: "read_nat (xs @ ys) acc = read_nat ys (read_nat xs acc)"
  by (induction xs arbitrary: acc) auto

lemma of_char_digit: "d < 10 \<Longrightarrow> (of_char (char_of (48 + d)) :: nat) = 48 + d"
  by simp

lemma read_show_nat: "read_nat (show_nat n) 0 = n"
proof (induction n rule: show_nat.induct)
  case (1 n)
  show ?case
  proof (cases "n < 10")
    case True
    then show ?thesis by (simp add: show_nat.simps [of n])
  next
    case False
    have "n mod 10 < 10" by simp
    then have "(of_char (char_of (48 + n mod 10)) :: nat) - 48 = n mod 10"
      by (subst of_char_digit) auto
    with False "1.IH" show ?thesis
      by (simp add: show_nat.simps [of n] read_nat_append)
  qed
qed

lemma show_nat_inject [simp]: "show_nat m = show_nat n \<longleftrightarrow> m = n"
  by (metis read_show_nat)

definition is_digit :: "char \<Rightarrow> bool" where
  "is_digit c \<longleftrightarrow> CHR ''0'' \<le> c \<and> c \<le> CHR ''9''"

lemma is_digit_of_char: "is_digit c \<longleftrightarrow> 48 \<le> (of_char c :: nat) \<and> (of_char c :: nat) \<le> 57"
  by (simp add: is_digit_def less_eq_char_def)

lemma show_nat_digits: "c \<in> set (show_nat n) \<Longrightarrow> is_digit c"
proof (induction n rule: show_nat.induct)
  case (1 n)
  show ?case
  proof (cases "n < 10")
    case True
    with "1.prems" show ?thesis
      by (simp add: show_nat.simps [of n] is_digit_of_char)
  next
    case False
    with "1.prems" consider "c \<in> set (show_nat (n div 10))" | "c = char_of (48 + n mod 10)"
      by (auto simp: show_nat.simps [of n])
    then show ?thesis
    proof cases
      case 1
      with False "1.IH" show ?thesis by blast
    next
      case 2
      have "n mod 10 < 10" by simp
      with 2 show ?thesis by (simp add: is_digit_of_char)
    qed
  qed
qed

lemma show_nat_no_colon: "CHR '':'' \<notin> set (show_nat n)"
  using show_nat_digits [of "CHR '':''" n] by (auto simp: is_digit_of_char)

text \<open>A key \<open>prefix:number\<close> determines the prefix and the number.\<close>

lemma colon_suffix_inject:
  assumes "xs @ '':'' @ us = ys @ '':'' @ vs" "CHR '':'' \<notin> set us" "CHR '':'' \<notin> set vs"
  shows "xs = ys \<and> us = vs"
proof -
  have "rev us @ CHR '':'' # rev xs = rev vs @ CHR '':'' # rev ys"
    using assms(1) by (metis append_Cons append_Nil append_assoc rev.simps rev_append)
  moreover have "takeWhile (\<lambda>c. c \<noteq> CHR '':'') (rev us @ CHR '':'' # rev xs) = rev us"
    "takeWhile (\<lambda>c. c \<noteq> CHR '':'') (rev vs @ CHR '':'' # rev ys) = rev vs"
    using assms(2,3) by (subst takeWhile_append2; auto)+
  ultimately have "rev us = rev vs" by argo
  with assms(1) show ?thesis by simp
qed

section \<open>Insertion-ordered maps and sets\<close>

text \<open>
  A JavaScript \<open>Map\<close> iterates in insertion order, and \<open>set\<close> on a present key keeps the
  key's place. The interface the components use of it, with the laws they rely on:
\<close>

locale key_map =
  fixes get :: "'m \<Rightarrow> 'k \<Rightarrow> 'v option"
    and put :: "'k \<Rightarrow> 'v \<Rightarrow> 'm \<Rightarrow> 'm"
    and keys :: "'m \<Rightarrow> 'k list"
  assumes get_put: "get (put k v m) = (get m)(k \<mapsto> v)"
    and keys_put: "keys (put k v m) = (if k \<in> set (keys m) then keys m else keys m @ [k])"
    and keys_get: "k \<in> set (keys m) \<longleftrightarrow> get m k \<noteq> None"
begin

lemma keys_put_present: "get m k = Some u \<Longrightarrow> keys (put k v m) = keys m"
  by (simp add: keys_put keys_get)

lemma distinct_keys_put: "distinct (keys m) \<Longrightarrow> distinct (keys (put k v m))"
  by (simp add: keys_put)

text \<open>Building a map from entries: the last entry of a key wins.\<close>

lemma get_put_all:
  "get (fold (\<lambda>(k, v). put k v) kvs m) k = (case map_of (rev kvs) k of None \<Rightarrow> get m k | Some v \<Rightarrow> Some v)"
proof (induction kvs arbitrary: m)
  case Nil
  then show ?case by simp
next
  case (Cons kv kvs)
  then show ?case
    by (cases kv) (auto simp: get_put map_add_def split: option.splits)
qed

lemma set_keys_put_all: "set (keys (fold (\<lambda>(k, v). put k v) kvs m)) = set (keys m) \<union> fst ` set kvs"
  by (induction kvs arbitrary: m) (auto simp: keys_put split: if_splits)

lemma distinct_keys_put_all:
  "distinct (keys m) \<Longrightarrow> distinct (keys (fold (\<lambda>(k, v). put k v) kvs m))"
  by (induction kvs arbitrary: m) (auto simp: distinct_keys_put)

end

text \<open>The model's maps are association lists; \<^const>\<open>AList.update\<close> replaces in place or appends.\<close>

type_synonym ('k, 'v) jsmap = "('k \<times> 'v) list"

definition js_map_of :: "('k \<times> 'v) list \<Rightarrow> ('k, 'v) jsmap" where
  "js_map_of kvs = fold (\<lambda>(k, v). AList.update k v) kvs []"

lemma keys_alist_update:
  "map fst (AList.update k v m) = (if k \<in> set (map fst m) then map fst m else map fst m @ [k])"
  by (induction m) auto

interpretation jm: key_map "map_of :: ('k \<times> 'v) list \<Rightarrow> 'k \<Rightarrow> 'v option" AList.update "map fst"
proof unfold_locales
  show "map_of (AList.update k v m) = (map_of m)(k \<mapsto> v)" for k :: 'k and v :: 'v and m
    by (rule update_conv')
  show "map fst (AList.update k v m) =
      (if k \<in> set (map fst m) then map fst m else map fst m @ [k])" for k :: 'k and v :: 'v and m
    by (rule keys_alist_update)
  show "k \<in> set (map fst m) \<longleftrightarrow> map_of m k \<noteq> None" for k :: 'k and m :: "('k \<times> 'v) list"
    by (simp add: map_of_eq_None_iff)
qed

declare jm.get_put [js_simps]

lemma get_js_map_of [js_simps]: "map_of (js_map_of kvs) k = map_of (rev kvs) k"
  by (simp add: js_map_of_def jm.get_put_all split: option.splits)

lemma keys_js_map_of: "set (map fst (js_map_of kvs)) = fst ` set kvs"
  unfolding js_map_of_def by (subst jm.set_keys_put_all) simp

lemma distinct_js_map_of: "distinct (map fst (js_map_of kvs))"
  unfolding js_map_of_def by (rule jm.distinct_keys_put_all) simp

lemma js_map_of_distinct: "distinct (map fst kvs) \<Longrightarrow> js_map_of kvs = kvs"
proof -
  have "fold (\<lambda>(k, v). AList.update k v) kvs m = m @ kvs"
    if "distinct (map fst (m @ kvs))" for m :: "('k \<times> 'v) list" and kvs
    using that
  proof (induction kvs arbitrary: m)
    case (Cons kv kvs)
    then have "AList.update (fst kv) (snd kv) m = m @ [kv]"
      by (cases kv) (induction m; auto)
    with Cons show ?case by (cases kv) auto
  qed simp
  from this [of "[]" kvs] show "distinct (map fst kvs) \<Longrightarrow> js_map_of kvs = kvs"
    by (simp add: js_map_of_def)
qed

lemma update_values:
  "distinct (map fst m) \<Longrightarrow> map_of m k = Some u \<Longrightarrow>
   AList.update k v m = map (\<lambda>(k', w). if k' = k then (k, v) else (k', w)) m"
proof (induction m)
  case (Cons p m)
  then show ?case
    by (cases p) (auto intro!: map_idI [symmetric] simp: rev_image_eqI split: if_splits)
qed simp

text \<open>A JavaScript \<open>Set\<close> keeps the first insertion of each element.\<close>

definition js_add :: "'a \<Rightarrow> 'a list \<Rightarrow> 'a list" where
  "js_add x xs = (if x \<in> set xs then xs else xs @ [x])"

definition js_set_of :: "'a list \<Rightarrow> 'a list" where
  "js_set_of xs = fold js_add xs []"

lemma set_js_add [js_simps, simp]: "set (js_add x xs) = insert x (set xs)"
  by (auto simp: js_add_def)

lemma distinct_js_add [simp]: "distinct xs \<Longrightarrow> distinct (js_add x xs)"
  by (simp add: js_add_def)

lemma set_fold_js_add: "set (fold js_add xs ys) = set xs \<union> set ys"
  by (induction xs arbitrary: ys) auto

lemma distinct_fold_js_add: "distinct ys \<Longrightarrow> distinct (fold js_add xs ys)"
  by (induction xs arbitrary: ys) auto

lemma set_js_set_of [js_simps, simp]: "set (js_set_of xs) = set xs"
  by (simp add: js_set_of_def set_fold_js_add)

lemma distinct_js_set_of [simp]: "distinct (js_set_of xs)"
  by (simp add: js_set_of_def distinct_fold_js_add)

section \<open>Strings\<close>

text \<open>\<open>s.split("->")\<close>: the text before the first arrow, and what follows it if there is one.\<close>

fun cut_arrow :: "string \<Rightarrow> string \<times> string option" where
  "cut_arrow [] = ([], None)"
| "cut_arrow [a] = ([a], None)"
| "cut_arrow (a # b # cs) =
     (if a = CHR ''-'' \<and> b = CHR ''>'' then ([], Some cs)
      else (let (p, r) = cut_arrow (b # cs) in (a # p, r)))"

definition second_piece :: "string \<Rightarrow> string option" where
  "second_piece s = map_option (\<lambda>r. fst (cut_arrow r)) (snd (cut_arrow s))"

fun join_with :: "string \<Rightarrow> string list \<Rightarrow> string" where
  "join_with sep [] = []"
| "join_with sep [x] = x"
| "join_with sep (x # y # ys) = x @ sep @ join_with sep (y # ys)"

section \<open>Sorting\<close>

text \<open>
  \<open>Array.prototype.sort\<close> is stable, so with a comparator by key it is \<^const>\<open>sort_key\<close>.
\<close>

lemma sorted_keys_distinct:
  "distinct (map f xs) \<Longrightarrow> sorted_wrt (<) (map f (sort_key f xs))"
proof -
  assume "distinct (map f xs)"
  then have "card (set (map f (sort_key f xs))) = length (map f (sort_key f xs))"
    by (metis distinct_card image_set length_map length_sort set_sort)
  then have "distinct (map f (sort_key f xs))" by (rule card_distinct)
  then show ?thesis by (simp add: strict_sorted_iff)
qed

end
