(* ===== verification/Js_Number.thy ===== *)
theory Js_Number
  imports Prelude
begin

text \<open>
  JavaScript numbers, as far as the condition language and the context-pressure policy use
  them: IEEE binary64 values with \<open>Number(text)\<close> on decimal literals, \<open>Object.is\<close>,
  \<open>Number.isFinite\<close> and the ordering. A finite value is its exact rational; negative zero is
  kept apart because \<open>Object.is\<close> tells it from zero.
\<close>

datatype js_number = NaN | Infinity bool | NegZero | Fin rat

definition num_value :: "js_number \<Rightarrow> rat" where
  "num_value x = (case x of Fin q \<Rightarrow> q | _ \<Rightarrow> 0)"

definition is_finite_num :: "js_number \<Rightarrow> bool" where
  "is_finite_num x \<longleftrightarrow> (case x of NaN \<Rightarrow> False | Infinity _ \<Rightarrow> False | _ \<Rightarrow> True)"

text \<open>\<open>Object.is\<close> on numbers is equality of the constructors above: NaN is itself, zeros differ.\<close>

definition num_less :: "js_number \<Rightarrow> js_number \<Rightarrow> bool" where
  "num_less x y =
     (case (x, y) of
        (NaN, _) \<Rightarrow> False | (_, NaN) \<Rightarrow> False
      | (Infinity a, Infinity b) \<Rightarrow> a \<and> \<not> b
      | (Infinity a, _) \<Rightarrow> a
      | (_, Infinity b) \<Rightarrow> \<not> b
      | _ \<Rightarrow> num_value x < num_value y)"

definition num_le :: "js_number \<Rightarrow> js_number \<Rightarrow> bool" where
  "num_le x y =
     (case (x, y) of
        (NaN, _) \<Rightarrow> False | (_, NaN) \<Rightarrow> False
      | _ \<Rightarrow> \<not> num_less y x)"

text \<open>
  Rounding \<open>n / d\<close> to the nearest binary64, ties to even. With \<open>e\<close> the exponent for
  which \<open>n / d\<close> lies between \<open>2 ^ (e + 52)\<close> and \<open>2 ^ (e + 53)\<close> (never below
  the subnormal exponent \<open>- 1074\<close>), the significand is \<open>n / d / 2 ^ e\<close> rounded.
\<close>

definition scale_num :: "int \<Rightarrow> int \<Rightarrow> int" where
  "scale_num n e = (if e < 0 then n * 2 ^ nat (- e) else n)"

definition scale_den :: "int \<Rightarrow> int \<Rightarrow> int" where
  "scale_den d e = (if e < 0 then d else d * 2 ^ nat e)"

definition round_half_even :: "int \<Rightarrow> int \<Rightarrow> int" where
  "round_half_even a b =
     (let q = a div b; r = a mod b
      in if 2 * r < b then q else if b < 2 * r then q + 1 else if even q then q else q + 1)"

definition double_exponent :: "int \<Rightarrow> int \<Rightarrow> int" where
  "double_exponent n d =
     (let e0 = bitlen n - bitlen d - 53;
          e1 = (if 9007199254740992 * scale_den d e0 \<le> scale_num n e0 then e0 + 1 else e0)
      in max e1 (- 1074))"

definition round_double :: "bool \<Rightarrow> int \<Rightarrow> int \<Rightarrow> js_number" where
  "round_double neg n d =
     (let e = double_exponent n d;
          m = round_half_even (scale_num n e) (scale_den d e);
          q = (if e < 0 then of_int m / of_int (2 ^ nat (- e)) else of_int (m * 2 ^ nat e) :: rat)
      in if m = 0 then (if neg then NegZero else Fin 0)
         else if 0 \<le> e \<and> bitlen m + e > 1024 then Infinity neg
         else Fin (if neg then - q else q))"

text \<open>\<open>Number(text)\<close> on an optional sign, digits, and an optional fraction.\<close>

fun read_digits :: "string \<Rightarrow> int \<Rightarrow> int" where
  "read_digits [] acc = acc"
| "read_digits (c # cs) acc = read_digits cs (acc * 10 + (of_char c - 48))"

definition number_of_decimal :: "string \<Rightarrow> js_number" where
  "number_of_decimal text =
     (let neg = (take 1 text = ''-'');
          body = (if neg then drop 1 text else text);
          whole = takeWhile (\<lambda>c. c \<noteq> CHR ''.'') body;
          frac = drop 1 (dropWhile (\<lambda>c. c \<noteq> CHR ''.'') body)
      in round_double neg (read_digits (whole @ frac) 0) (10 ^ length frac))"

lemma round_double_not_nan: "round_double neg n d \<noteq> NaN"
  by (simp add: round_double_def Let_def)

lemma number_of_decimal_not_nan [simp]: "number_of_decimal t \<noteq> NaN"
  by (simp add: number_of_decimal_def Let_def round_double_not_nan)

lemma num_le_total: "x \<noteq> NaN \<Longrightarrow> y \<noteq> NaN \<Longrightarrow> num_le x y \<or> num_less y x"
  by (auto simp: num_le_def split: js_number.splits)

lemma num_less_irrefl [simp]: "\<not> num_less x x"
  by (cases x) (simp_all add: num_less_def)

lemma num_less_trans: "num_less x y \<Longrightarrow> num_less y z \<Longrightarrow> num_less x z"
  by (cases x; cases y; cases z) (auto simp: num_less_def num_value_def)

lemma num_le_less_trans: "num_le x y \<Longrightarrow> num_less y z \<Longrightarrow> num_less x z"
  by (cases x; cases y; cases z) (auto simp: num_le_def num_less_def num_value_def)

lemma num_le_finite [simp]: "num_le (Fin a) (Fin b) \<longleftrightarrow> a \<le> b"
  by (auto simp: num_le_def num_less_def num_value_def)

lemma num_less_finite [simp]: "num_less (Fin a) (Fin b) \<longleftrightarrow> a < b"
  by (auto simp: num_less_def num_value_def)

end
