(* ===== verification/Json.thy ===== *)
theory Json
  imports Js_Number
begin

text \<open>
  JSON values and the canonical text the recovery policy hashes
  (\<open>packages/pipeline/src/recovery/signature.ts\<close>, \<open>canonicalStringify\<close>). Objects are
  association lists in property order. The rendering of a number (\<open>Number::toString\<close>) is the
  platform argument \<open>number_text\<close>: no modelled caller
  renders one. The lemmas show that quoted strings
  are self-delimiting, which is what makes canonical texts of different payloads differ.
\<close>

datatype json = JNull | JBool bool | JNum js_number | JStr string
  | JArr "json list" | JObj "(string \<times> json) list"

text \<open>The platform functions the sources call and do not define.\<close>

record platform =
  sha256 :: "string \<Rightarrow> string"
  number_text :: "js_number \<Rightarrow> string"

section \<open>JSON string literals\<close>

text \<open>The escapes of \<open>JSON.stringify\<close> for code units below 256.\<close>

definition hex_digit :: "nat \<Rightarrow> char" where
  "hex_digit n = (if n < 10 then char_of (48 + n) else char_of (87 + n))"

definition escape_char :: "char \<Rightarrow> string" where
  "escape_char c =
     (if c = CHR 0x22 then [CHR 0x5C, CHR 0x22]
      else if c = CHR 0x5C then [CHR 0x5C, CHR 0x5C]
      else if c = CHR 0x08 then [CHR 0x5C, CHR ''b'']
      else if c = CHR 0x0C then [CHR 0x5C, CHR ''f'']
      else if c = CHR 0x0A then [CHR 0x5C, CHR ''n'']
      else if c = CHR 0x0D then [CHR 0x5C, CHR ''r'']
      else if c = CHR 0x09 then [CHR 0x5C, CHR ''t'']
      else if (of_char c :: nat) < 32 then
        [CHR 0x5C, CHR ''u'', CHR ''0'', CHR ''0'', hex_digit (of_char c div 16), hex_digit (of_char c mod 16)]
      else [c])"

definition json_quote :: "string \<Rightarrow> string" where
  "json_quote s = [CHR 0x22] @ concat (map escape_char s) @ [CHR 0x22]"

fun canonicalStringify :: "platform \<Rightarrow> json \<Rightarrow> string" where
  "canonicalStringify pl JNull = ''null''"
| "canonicalStringify pl (JBool b) = (if b then ''true'' else ''false'')"
| "canonicalStringify pl (JNum n) = number_text pl n"
| "canonicalStringify pl (JStr s) = json_quote s"
| "canonicalStringify pl (JArr vs) =
     ''['' @ join_with '','' (map (canonicalStringify pl) vs) @ '']''"
| "canonicalStringify pl (JObj kvs) =
     CHR 0x7B # join_with '',''
       (map snd (sort_key fst
         (map (\<lambda>(k, v). (k, json_quote k @ '':'' @ canonicalStringify pl v)) kvs)))
     @ [CHR 0x7D]"

text \<open>\<open>JSON.stringify\<close>: members in property order, and numbers that are not finite as \<open>null\<close>.\<close>

fun json_stringify :: "platform \<Rightarrow> json \<Rightarrow> string" where
  "json_stringify pl JNull = ''null''"
| "json_stringify pl (JBool b) = (if b then ''true'' else ''false'')"
| "json_stringify pl (JNum n) =
     (case n of NaN \<Rightarrow> ''null'' | Infinity _ \<Rightarrow> ''null'' | _ \<Rightarrow> number_text pl n)"
| "json_stringify pl (JStr s) = json_quote s"
| "json_stringify pl (JArr vs) = ''['' @ join_with '','' (map (json_stringify pl) vs) @ '']''"
| "json_stringify pl (JObj kvs) =
     CHR 0x7B # join_with '','' (map (\<lambda>(k, v). json_quote k @ '':'' @ json_stringify pl v) kvs) @ [CHR 0x7D]"

section \<open>Quoted strings are self-delimiting\<close>

text \<open>Reading one escaped code unit back is how the literals are shown to be uniquely readable.\<close>

definition hex_val :: "char \<Rightarrow> nat" where
  "hex_val c = (if (of_char c :: nat) < 58 then of_char c - 48 else of_char c - 87)"

fun read_short_escape :: "char \<Rightarrow> char option" where
  "read_short_escape k =
     (if k = CHR 0x22 then Some (CHR 0x22) else if k = CHR 0x5C then Some (CHR 0x5C)
      else if k = CHR ''b'' then Some (CHR 0x08) else if k = CHR ''f'' then Some (CHR 0x0C)
      else if k = CHR ''n'' then Some (CHR 0x0A) else if k = CHR ''r'' then Some (CHR 0x0D)
      else if k = CHR ''t'' then Some (CHR 0x09) else None)"

fun read_char :: "string \<Rightarrow> (char \<times> string) option" where
  "read_char [] = None"
| "read_char (b # r) =
     (if b \<noteq> CHR 0x5C then Some (b, r)
      else case r of [] \<Rightarrow> None
        | k # r' \<Rightarrow> (case read_short_escape k of Some c \<Rightarrow> Some (c, r')
            | None \<Rightarrow> (case r' of _ # _ # h # l # r'' \<Rightarrow> Some (char_of (16 * hex_val h + hex_val l), r'')
                      | _ \<Rightarrow> None)))"

lemma hex_val_digit: "n < 16 \<Longrightarrow> hex_val (hex_digit n) = n"
  by (cases "n < 10") (simp_all add: hex_val_def hex_digit_def)

lemma read_unicode_escape:
  "read_char ([CHR 0x5C, CHR ''u'', a, b, h, l] @ u) = Some (char_of (16 * hex_val h + hex_val l), u)"
  by simp

lemma read_plain: "c \<noteq> CHR 0x5C \<Longrightarrow> read_char ([c] @ u) = Some (c, u)"
  by simp

definition short_escape :: "char \<Rightarrow> bool" where
  "short_escape c \<longleftrightarrow> c \<in> {CHR 0x22, CHR 0x5C, CHR 0x08, CHR 0x0C, CHR 0x0A, CHR 0x0D, CHR 0x09}"

lemma read_escape_char: "read_char (escape_char c @ u) = Some (c, u)"
proof (cases "short_escape c")
  case True
  then show ?thesis by (auto simp: short_escape_def escape_char_def)
next
  case long: False
  show ?thesis
  proof (cases "(of_char c :: nat) < 32")
    case True
    have "(of_char c div 16 :: nat) < 16" using True by linarith
    then have val: "16 * hex_val (hex_digit (of_char c div 16)) + hex_val (hex_digit (of_char c mod 16)) = (of_char c :: nat)"
      using hex_val_digit [of "of_char c div 16"] hex_val_digit [of "of_char c mod 16"]
      by (metis mod_less_divisor mult_div_mod_eq zero_less_numeral)
    have "escape_char c = [CHR 0x5C, CHR ''u'', CHR ''0'', CHR ''0'', hex_digit (of_char c div 16), hex_digit (of_char c mod 16)]"
      using long True unfolding escape_char_def short_escape_def by simp
    then have "read_char (escape_char c @ u) = Some (char_of (of_char c :: nat), u)"
      by (simp only: read_unicode_escape val)
    then show ?thesis by simp
  next
    case False
    with long have "escape_char c = [c]" "c \<noteq> CHR 0x5C"
      by (simp_all add: escape_char_def short_escape_def)
    then show ?thesis by (simp only: read_plain simp_thms)
  qed
qed

lemma escape_char_prefix_free:
  assumes "escape_char c @ u = escape_char d @ v"
  shows "c = d \<and> u = v"
proof -
  from assms have "read_char (escape_char c @ u) = read_char (escape_char d @ v)" by (rule arg_cong)
  then show ?thesis unfolding read_escape_char by simp
qed

lemma escape_char_starts:
  obtains e es where "escape_char c = e # es" "e \<noteq> CHR 0x22"
proof -
  have "escape_char c \<noteq> [] \<and> hd (escape_char c) \<noteq> CHR 0x22"
    by (simp add: escape_char_def)
  with that show ?thesis by (cases "escape_char c") auto
qed

lemma escaped_inject:
  "concat (map escape_char s) @ CHR 0x22 # u = concat (map escape_char t) @ CHR 0x22 # v \<Longrightarrow>
   s = t \<and> u = v"
proof (induction s arbitrary: t)
  case Nil
  show ?case
  proof (cases t)
    case (Cons d t')
    obtain e es where "escape_char d = e # es" "e \<noteq> CHR 0x22" by (rule escape_char_starts)
    with Nil.prems Cons show ?thesis by simp
  qed (use Nil.prems in simp)
next
  case (Cons c s)
  show ?case
  proof (cases t)
    case Nil
    obtain e es where "escape_char c = e # es" "e \<noteq> CHR 0x22" by (rule escape_char_starts)
    with Cons.prems Nil show ?thesis by simp
  next
    case t: (Cons d t')
    have "escape_char c @ (concat (map escape_char s) @ CHR 0x22 # u) =
        escape_char d @ (concat (map escape_char t') @ CHR 0x22 # v)"
      using Cons.prems t by simp
    then have "c = d \<and> concat (map escape_char s) @ CHR 0x22 # u =
        concat (map escape_char t') @ CHR 0x22 # v"
      by (rule escape_char_prefix_free)
    with Cons.IH t show ?thesis by blast
  qed
qed

lemma json_quote_inject: "json_quote s @ u = json_quote t @ v \<Longrightarrow> s = t \<and> u = v"
  by (rule escaped_inject) (simp add: json_quote_def)

lemma json_quote_starts: "json_quote s = CHR 0x22 # concat (map escape_char s) @ [CHR 0x22]"
  by (simp add: json_quote_def)

lemma quoted_list_inject:
  assumes "join_with '','' (map json_quote xs) @ '']'' @ u = join_with '','' (map json_quote ys) @ '']'' @ v"
  shows "xs = ys \<and> u = v"
  using assms
proof (induction xs arbitrary: ys)
  case Nil
  then show ?case
    by (cases ys rule: remdups_adj.cases) (auto simp: json_quote_starts)
next
  case (Cons x xs)
  show ?case
  proof (cases ys)
    case Nil
    with Cons.prems show ?thesis
      by (cases xs) (auto simp: json_quote_starts)
  next
    case ys: (Cons y ys')
    obtain xr where xr: "join_with '','' (map json_quote (x # xs)) @ '']'' @ u = json_quote x @ xr"
      and xr_def: "xr = (if xs = [] then '']'' @ u else '','' @ join_with '','' (map json_quote xs) @ '']'' @ u)"
      by (cases xs) auto
    obtain yr where yr: "join_with '','' (map json_quote (y # ys')) @ '']'' @ v = json_quote y @ yr"
      and yr_def: "yr = (if ys' = [] then '']'' @ v else '','' @ join_with '','' (map json_quote ys') @ '']'' @ v)"
      by (cases ys') auto
    from Cons.prems ys xr yr have "x = y \<and> xr = yr" by (metis json_quote_inject)
    moreover from this xr_def yr_def Cons.IH [of ys'] have "xs = ys' \<and> u = v"
      by (auto split: if_splits)
    ultimately show ?thesis using ys by simp
  qed
qed

end
