(* ===== verification/Expression_Lex.thy ===== *)
theory Expression_Lex
  imports Json
begin

text \<open>
  The tokenizer of the condition language of pipeline edges
  (\<open>packages/pipeline/src/expression/lex.ts\<close>). Error messages of the tokenizer and of the
  compiler (\<open>Expression_Parse\<close>) are the constructors of \<open>expr_message\<close>, one per message of
  the source with the values it interpolates.
\<close>

section \<open>Errors and tokens\<close>

datatype expr_message =
    E_too_long | E_use_double char | E_single_equals | E_escape char char | E_unterminated
  | E_arithmetic char | E_fraction | E_unexpected_char char
  | E_depth | E_unsupported_comparison string | E_chained | E_missing_rparen | E_not_finite string
  | E_incomplete | E_unexpected string | E_path_segment | E_path_long | E_unmatched_rparen
  | E_unexpected_after string | E_too_many_nodes

record expr_error =
  ee_message :: expr_message
  ee_offset :: nat

definition expr_error_at :: "expr_message \<Rightarrow> nat \<Rightarrow> expr_error" where
  "expr_error_at m n = \<lparr>ee_message = m, ee_offset = n\<rparr>"

datatype token_kind = TK_identifier | TK_number | TK_string | TK_true | TK_false | TK_null | TK_dot
  | TK_operator | TK_and | TK_or | TK_not | TK_lparen | TK_rparen | TK_end

record token =
  tk_kind :: token_kind
  tk_offset :: nat
  tk_text :: string

definition tok :: "token_kind \<Rightarrow> nat \<Rightarrow> string \<Rightarrow> token" where
  "tok k n s = \<lparr>tk_kind = k, tk_offset = n, tk_text = s\<rparr>"

section \<open>The tokenizer\<close>

definition MAX_EXPRESSION_LENGTH :: nat where
  "MAX_EXPRESSION_LENGTH = 1000"

definition COMPARISON_OPERATORS :: "string list" where
  "COMPARISON_OPERATORS = [''=='', ''!='', ''<'', ''<='', ''>'', ''>='']"

definition ARITHMETIC_CHARACTERS :: "char list" where
  "ARITHMETIC_CHARACTERS = ''+-*/%''"

definition VALUE_END_KINDS :: "token_kind list" where
  "VALUE_END_KINDS = [TK_identifier, TK_number, TK_string, TK_true, TK_false, TK_null, TK_rparen]"

definition endsValue :: "token list \<Rightarrow> bool" where
  "endsValue tokens \<longleftrightarrow> tokens \<noteq> [] \<and> tk_kind (last tokens) \<in> set VALUE_END_KINDS"

definition isIdentifierStart :: "char \<Rightarrow> bool" where
  "isIdentifierStart c \<longleftrightarrow>
     CHR ''A'' \<le> c \<and> c \<le> CHR ''Z'' \<or> CHR ''a'' \<le> c \<and> c \<le> CHR ''z'' \<or> c = CHR ''_''"

definition isIdentifierPart :: "char \<Rightarrow> bool" where
  "isIdentifierPart c \<longleftrightarrow> isIdentifierStart c \<or> is_digit c"

definition is_space :: "char \<Rightarrow> bool" where
  "is_space c \<longleftrightarrow> c = CHR '' '' \<or> c = CHR 0x09 \<or> c = CHR 0x0A \<or> c = CHR 0x0D"

text \<open>The scan of a string literal after its opening quote: the decoded value, the rest, and its index.\<close>

fun lex_string :: "char \<Rightarrow> nat \<Rightarrow> string \<Rightarrow> nat \<Rightarrow> string \<Rightarrow> expr_error + (string \<times> string \<times> nat)" where
  "lex_string quote start [] index val = Inl (expr_error_at E_unterminated start)"
| "lex_string quote start (inner # rest) index val =
     (if inner = CHR 0x5C then
        (case rest of
           [] \<Rightarrow> Inl (expr_error_at E_unterminated start)
         | escaped # rest' \<Rightarrow>
             if escaped \<noteq> quote \<and> escaped \<noteq> CHR 0x5C then Inl (expr_error_at (E_escape escaped quote) index)
             else lex_string quote start rest' (index + 2) (val @ [escaped]))
      else if inner = quote then Inr (val, rest, index + 1)
      else if inner = CHR 0x0A \<or> inner = CHR 0x0D then Inl (expr_error_at E_unterminated start)
      else lex_string quote start rest (index + 1) (val @ [inner]))"

text \<open>The scan of a number: its text and the rest, or the error of a dot without a digit.\<close>

fun lex_fraction :: "nat \<Rightarrow> string \<Rightarrow> string \<Rightarrow> expr_error + (string \<times> string)" where
  "lex_fraction index text [] = Inr (text, [])"
| "lex_fraction index text (c # rest) =
     (if c = CHR ''.'' then
        (case rest of
           [] \<Rightarrow> Inl (expr_error_at E_fraction index)
         | d # rest' \<Rightarrow>
             if is_digit d
             then Inr (text @ CHR ''.'' # takeWhile is_digit (d # rest'), dropWhile is_digit (d # rest'))
             else Inl (expr_error_at E_fraction index))
      else Inr (text, c # rest))"

definition number_sign :: "string \<Rightarrow> string" where
  "number_sign cs = (if take 1 cs = ''-'' then ''-'' else [])"

definition lex_number :: "nat \<Rightarrow> string \<Rightarrow> expr_error + (string \<times> string)" where
  "lex_number start cs =
     (let sign = number_sign cs;
          body = drop (length sign) cs;
          text = sign @ takeWhile is_digit body
      in lex_fraction (start + length text) text (dropWhile is_digit body))"

definition keyword_kind :: "string \<Rightarrow> token_kind" where
  "keyword_kind text =
     (if text = ''true'' then TK_true else if text = ''false'' then TK_false
      else if text = ''null'' then TK_null else TK_identifier)"

lemma lex_string_shorter:
  "lex_string quote start cs index val = Inr (v, rest, n) \<Longrightarrow> length rest < length cs"
  by (induction quote start cs index val rule: lex_string.induct) (fastforce split: if_splits list.splits)+

lemma dropWhile_shorter: "length (dropWhile P xs) < Suc (length xs)"
  using length_dropWhile_le [of P xs] by simp

lemma lex_fraction_rest: "lex_fraction index text rest = Inr (t, r) \<Longrightarrow> length r \<le> length rest"
  using length_dropWhile_le [of is_digit "tl rest"]
  by (cases rest) (auto split: if_splits list.splits)

lemma lex_number_shorter:
  assumes "lex_number start (c # cs) = Inr (text, rest)" "is_digit c \<or> c = CHR ''-''"
  shows "length rest < Suc (length cs)"
proof -
  from assms(1) have "length rest \<le> length (dropWhile is_digit (drop (length (number_sign (c # cs))) (c # cs)))"
    unfolding lex_number_def Let_def by (rule lex_fraction_rest)
  with assms(2) length_dropWhile_le [of is_digit cs] show ?thesis
    by (auto simp: number_sign_def split: if_splits)
qed

lemma lex_string_pair_shorter:
  "lex_string quote start cs index val = Inr b \<Longrightarrow> (x, y) = b \<Longrightarrow> (xa, ya) = y \<Longrightarrow> length xa < Suc (length cs)"
  by (auto dest: lex_string_shorter)

lemma lex_number_pair_shorter:
  "lex_number start (c # cs) = Inr b \<Longrightarrow> (x, y) = b \<Longrightarrow> is_digit c \<or> c = CHR ''-'' \<Longrightarrow> length y < Suc (length cs)"
  by (auto dest: lex_number_shorter)

text \<open>
  The loop of \<open>lexExpression\<close> over the characters that are left, their index, and the tokens
  found so far, in the order of the source's tests; \<open>len\<close> is the length of the whole source.
\<close>

function lex_loop :: "nat \<Rightarrow> string \<Rightarrow> nat \<Rightarrow> token list \<Rightarrow> expr_error + token list" where
  "lex_loop len [] index tokens = Inr (tokens @ [tok TK_end len []])"
| "lex_loop len (c # rest) index tokens =
     (if is_space c then lex_loop len rest (index + 1) tokens
      else if c = CHR ''('' then lex_loop len rest (index + 1) (tokens @ [tok TK_lparen index [c]])
      else if c = CHR '')'' then lex_loop len rest (index + 1) (tokens @ [tok TK_rparen index [c]])
      else if c = CHR ''.'' then lex_loop len rest (index + 1) (tokens @ [tok TK_dot index [c]])
      else if c = CHR ''&'' \<or> c = CHR ''|'' then
        (let pair = c # take 1 rest in
         if pair = ''&&'' \<or> pair = ''||''
         then lex_loop len (drop 1 rest) (index + 2)
                (tokens @ [tok (if pair = ''&&'' then TK_and else TK_or) index pair])
         else Inl (expr_error_at (E_use_double c) index))
      else if c = CHR ''='' \<or> c = CHR ''!'' \<or> c = CHR ''<'' \<or> c = CHR ''>'' then
        (let pair = c # take 1 rest in
         if pair \<in> set COMPARISON_OPERATORS
         then lex_loop len (drop 1 rest) (index + 2) (tokens @ [tok TK_operator index pair])
         else if c = CHR ''!'' then lex_loop len rest (index + 1) (tokens @ [tok TK_not index [c]])
         else if c = CHR ''='' then Inl (expr_error_at E_single_equals index)
         else lex_loop len rest (index + 1) (tokens @ [tok TK_operator index [c]]))
      else if c = CHR 0x22 \<or> c = CHR 0x27 then
        (case lex_string c index rest (index + 1) [] of
           Inl e \<Rightarrow> Inl e
         | Inr (v, rest', index') \<Rightarrow> lex_loop len rest' index' (tokens @ [tok TK_string index v]))
      else if c \<in> set ARITHMETIC_CHARACTERS \<and>
              \<not> (c = CHR ''-'' \<and> (case rest of d # _ \<Rightarrow> is_digit d | [] \<Rightarrow> False) \<and> \<not> endsValue tokens)
      then Inl (expr_error_at (E_arithmetic c) index)
      else if is_digit c \<or> c = CHR ''-'' then
        (case lex_number index (c # rest) of
           Inl e \<Rightarrow> Inl e
         | Inr (text, rest') \<Rightarrow> lex_loop len rest' (index + length text) (tokens @ [tok TK_number index text]))
      else if isIdentifierStart c then
        (let text = c # takeWhile isIdentifierPart rest
         in lex_loop len (dropWhile isIdentifierPart rest) (index + length text)
              (tokens @ [tok (keyword_kind text) index text]))
      else Inl (expr_error_at (E_unexpected_char c) index))"
  by pat_completeness auto

termination
proof (relation "measure (\<lambda>(len, cs, index, tokens). length cs)")
qed (simp_all add: dropWhile_shorter lex_string_pair_shorter lex_number_pair_shorter)

declare lex_loop.simps [simp del]

definition lexExpression :: "string \<Rightarrow> expr_error + token list" where
  "lexExpression source =
     (if MAX_EXPRESSION_LENGTH < length source
      then Inl (expr_error_at E_too_long MAX_EXPRESSION_LENGTH)
      else lex_loop (length source) source 0 [])"

end
