(* ===== verification/Expression_Parse.thy ===== *)
theory Expression_Parse
  imports Expression_Lex "HOL-Library.Sublist"
begin

text \<open>
  The compiler of the condition language (\<open>packages/pipeline/src/expression/parse.ts\<close>): a
  recursive descent over the tokens that emits a flat array of nodes. The parser object is the
  record \<open>parser\<close> (the tokens from the current position on, and the nodes emitted so far).
  Each method is a definition over \<open>call\<close>, the recursive calls; \<open>parse_nt\<close> ties them
  together with a fuel that counts nested calls, and running out of it is \<open>P_fuel\<close>. The lemmas
  show that the fuel \<open>parseConditionExpression\<close> starts with is always enough, that every child
  precedes its parent, that the root is the last node, and the declared ceilings.
\<close>

section \<open>Nodes and parser state\<close>

datatype scalar = Sc_null | Sc_bool bool | Sc_num js_number | Sc_str string
datatype comparison = C_eq | C_ne | C_lt | C_lte | C_gt | C_gte
datatype logical = L_and | L_or

datatype expr_node =
    N_literal scalar
  | N_path "string list"
  | N_not nat
  | N_compare comparison nat nat
  | N_logical logical nat nat

definition MAX_EXPRESSION_NODES :: nat where "MAX_EXPRESSION_NODES = 128"
definition MAX_PATH_SEGMENTS :: nat where "MAX_PATH_SEGMENTS = 8"
definition MAX_EXPRESSION_DEPTH :: nat where "MAX_EXPRESSION_DEPTH = 16"

definition COMPARISON_OPERATOR_NAMES :: "(string \<times> comparison) list" where
  "COMPARISON_OPERATOR_NAMES =
     [(''=='', C_eq), (''!='', C_ne), (''<'', C_lt), (''<='', C_lte), (''>'', C_gt), (''>='', C_gte)]"

definition SEGMENT_KINDS :: "token_kind list" where
  "SEGMENT_KINDS = [TK_identifier, TK_true, TK_false, TK_null]"

record parser =
  ps_rest :: "token list"
  ps_nodes :: "expr_node list"

datatype 'a parse = P_fuel | P_err expr_error | P_ok 'a parser

type_synonym 'a parser_fun = "parser \<Rightarrow> 'a parse"

definition pbind :: "'a parse \<Rightarrow> ('a \<Rightarrow> 'b parser_fun) \<Rightarrow> 'b parse" where
  "pbind m f = (case m of P_fuel \<Rightarrow> P_fuel | P_err e \<Rightarrow> P_err e | P_ok x st \<Rightarrow> f x st)"

definition pfail :: "expr_message \<Rightarrow> nat \<Rightarrow> 'a parse" where
  "pfail m offset = P_err (expr_error_at m offset)"

definition peek :: "token parser_fun" where
  "peek st = (case ps_rest st of [] \<Rightarrow> pfail E_incomplete 0 | t # _ \<Rightarrow> P_ok t st)"

definition advance :: "token parser_fun" where
  "advance st = pbind (peek st) (\<lambda>token st.
     if tk_kind token \<noteq> TK_end then P_ok token (st\<lparr>ps_rest := tl (ps_rest st)\<rparr>) else P_ok token st)"

definition emit :: "expr_node \<Rightarrow> nat parser_fun" where
  "emit node st =
     (if MAX_EXPRESSION_NODES \<le> length (ps_nodes st)
      then pbind (peek st) (\<lambda>t _. pfail E_too_many_nodes (tk_offset t))
      else P_ok (length (ps_nodes st)) (st\<lparr>ps_nodes := ps_nodes st @ [node]\<rparr>))"

definition expectEnd :: "unit parser_fun" where
  "expectEnd st = pbind (peek st) (\<lambda>token st.
     if tk_kind token \<noteq> TK_end
     then pfail (if tk_kind token = TK_rparen then E_unmatched_rparen else E_unexpected_after (tk_text token))
            (tk_offset token)
     else P_ok () st)"

section \<open>The methods of the parser\<close>

text \<open>The methods that call one another; the loops carry the node they extend.\<close>

datatype parse_goal = NT_expression | NT_or | NT_or_loop nat | NT_and | NT_and_loop nat
  | NT_comparison | NT_unary | NT_primary

type_synonym parser_call = "parse_goal \<Rightarrow> nat \<Rightarrow> nat parser_fun"

definition parseExpression :: "parser_call \<Rightarrow> nat \<Rightarrow> nat parser_fun" where
  "parseExpression call depth st =
     (if MAX_EXPRESSION_DEPTH < depth then pbind (peek st) (\<lambda>t _. pfail E_depth (tk_offset t))
      else call NT_or depth st)"

definition parseOr :: "parser_call \<Rightarrow> nat \<Rightarrow> nat parser_fun" where
  "parseOr call depth st = pbind (call NT_and depth st) (\<lambda>left. call (NT_or_loop left) depth)"

definition parseOrLoop :: "parser_call \<Rightarrow> nat \<Rightarrow> nat \<Rightarrow> nat parser_fun" where
  "parseOrLoop call left depth st = pbind (peek st) (\<lambda>t st.
     if tk_kind t = TK_or
     then pbind (advance st) (\<lambda>_ st. pbind (call NT_and depth st) (\<lambda>right st.
            pbind (emit (N_logical L_or left right) st) (\<lambda>left'. call (NT_or_loop left') depth)))
     else P_ok left st)"

definition parseAnd :: "parser_call \<Rightarrow> nat \<Rightarrow> nat parser_fun" where
  "parseAnd call depth st = pbind (call NT_comparison depth st) (\<lambda>left. call (NT_and_loop left) depth)"

definition parseAndLoop :: "parser_call \<Rightarrow> nat \<Rightarrow> nat \<Rightarrow> nat parser_fun" where
  "parseAndLoop call left depth st = pbind (peek st) (\<lambda>t st.
     if tk_kind t = TK_and
     then pbind (advance st) (\<lambda>_ st. pbind (call NT_comparison depth st) (\<lambda>right st.
            pbind (emit (N_logical L_and left right) st) (\<lambda>left'. call (NT_and_loop left') depth)))
     else P_ok left st)"

definition parseComparison :: "parser_call \<Rightarrow> nat \<Rightarrow> nat parser_fun" where
  "parseComparison call depth st = pbind (call NT_unary depth st) (\<lambda>left st. pbind (peek st) (\<lambda>token st.
     if tk_kind token \<noteq> TK_operator then P_ok left st
     else pbind (advance st) (\<lambda>_ st.
       case map_of COMPARISON_OPERATOR_NAMES (tk_text token) of
         None \<Rightarrow> pfail (E_unsupported_comparison (tk_text token)) (tk_offset token)
       | Some operator \<Rightarrow>
           pbind (call NT_unary depth st) (\<lambda>right st. pbind (peek st) (\<lambda>following st.
             if tk_kind following = TK_operator then pfail E_chained (tk_offset following)
             else emit (N_compare operator left right) st)))))"

definition parseUnary :: "parser_call \<Rightarrow> nat \<Rightarrow> nat parser_fun" where
  "parseUnary call depth st = pbind (peek st) (\<lambda>t st.
     if tk_kind t = TK_not
     then pbind (advance st) (\<lambda>_ st. pbind (call NT_unary depth st) (\<lambda>operand. emit (N_not operand)))
     else call NT_primary depth st)"

text \<open>The loop of \<open>parsePath\<close> after its first segment.\<close>

fun path_loop :: "string list \<Rightarrow> token list \<Rightarrow> expr_error + (string list \<times> token list)" where
  "path_loop segments [] = Inl (expr_error_at E_incomplete 0)"
| "path_loop segments [d] =
     (if tk_kind d = TK_dot then Inl (expr_error_at E_incomplete 0) else Inr (segments, [d]))"
| "path_loop segments (d # s # rest) =
     (if tk_kind d \<noteq> TK_dot then Inr (segments, d # s # rest)
      else if tk_kind s \<notin> set SEGMENT_KINDS
      then Inl (expr_error_at E_path_segment (if tk_kind s = TK_end then tk_offset d else tk_offset s))
      else if MAX_PATH_SEGMENTS < length (segments @ [tk_text s])
      then Inl (expr_error_at E_path_long (tk_offset s))
      else path_loop (segments @ [tk_text s]) rest)"

definition parsePath :: "nat parser_fun" where
  "parsePath st = pbind (peek st) (\<lambda>first st. pbind (advance st) (\<lambda>_ st.
     case path_loop [tk_text first] (ps_rest st) of
       Inl e \<Rightarrow> P_err e
     | Inr (segments, rest) \<Rightarrow> emit (N_path segments) (st\<lparr>ps_rest := rest\<rparr>)))"

definition next_is_dot :: "parser \<Rightarrow> bool" where
  "next_is_dot st = (case ps_rest st of _ # t # _ \<Rightarrow> tk_kind t = TK_dot | _ \<Rightarrow> False)"

definition parsePrimary :: "parser_call \<Rightarrow> nat \<Rightarrow> nat parser_fun" where
  "parsePrimary call depth st = pbind (peek st) (\<lambda>token st.
     case tk_kind token of
       TK_lparen \<Rightarrow>
         pbind (advance st) (\<lambda>_ st. pbind (call NT_expression (depth + 1) st) (\<lambda>inner st.
           pbind (peek st) (\<lambda>closing st.
             if tk_kind closing \<noteq> TK_rparen then pfail E_missing_rparen (tk_offset closing)
             else pbind (advance st) (\<lambda>_. P_ok inner))))
     | TK_number \<Rightarrow>
         pbind (advance st) (\<lambda>_ st.
           let num = number_of_decimal (tk_text token) in
           if \<not> is_finite_num num then pfail (E_not_finite (tk_text token)) (tk_offset token)
           else emit (N_literal (Sc_num num)) st)
     | TK_string \<Rightarrow> pbind (advance st) (\<lambda>_. emit (N_literal (Sc_str (tk_text token))))
     | TK_true \<Rightarrow> if next_is_dot st then parsePath st
                 else pbind (advance st) (\<lambda>_. emit (N_literal (Sc_bool True)))
     | TK_false \<Rightarrow> if next_is_dot st then parsePath st
                 else pbind (advance st) (\<lambda>_. emit (N_literal (Sc_bool False)))
     | TK_null \<Rightarrow> if next_is_dot st then parsePath st
                 else pbind (advance st) (\<lambda>_. emit (N_literal Sc_null))
     | TK_identifier \<Rightarrow> parsePath st
     | TK_end \<Rightarrow> pfail E_incomplete (tk_offset token)
     | _ \<Rightarrow> pfail (E_unexpected (tk_text token)) (tk_offset token))"

definition parse_method :: "parser_call \<Rightarrow> parse_goal \<Rightarrow> nat \<Rightarrow> nat parser_fun" where
  "parse_method call nt depth st =
     (case nt of
        NT_expression \<Rightarrow> parseExpression call depth st
      | NT_or \<Rightarrow> parseOr call depth st
      | NT_or_loop left \<Rightarrow> parseOrLoop call left depth st
      | NT_and \<Rightarrow> parseAnd call depth st
      | NT_and_loop left \<Rightarrow> parseAndLoop call left depth st
      | NT_comparison \<Rightarrow> parseComparison call depth st
      | NT_unary \<Rightarrow> parseUnary call depth st
      | NT_primary \<Rightarrow> parsePrimary call depth st)"

fun parse_nt :: "nat \<Rightarrow> parser_call" where
  "parse_nt 0 nt depth st = P_fuel"
| "parse_nt (Suc fuel) nt depth st = parse_method (parse_nt fuel) nt depth st"

definition parse_fuel :: "token list \<Rightarrow> nat" where
  "parse_fuel tokens = 8 * length tokens + 8"

text \<open>\<open>parseConditionExpression\<close>: the nodes and the root, or the error.\<close>

definition parseConditionExpression :: "string \<Rightarrow> (expr_error + (expr_node list \<times> nat)) option" where
  "parseConditionExpression source =
     (case lexExpression source of
        Inl e \<Rightarrow> Some (Inl e)
      | Inr tokens \<Rightarrow>
          (case pbind (parse_nt (parse_fuel tokens) NT_expression 0 \<lparr>ps_rest = tokens, ps_nodes = []\<rparr>)
                  (\<lambda>r st. pbind (expectEnd st) (\<lambda>_. P_ok r)) of
             P_fuel \<Rightarrow> None
           | P_err e \<Rightarrow> Some (Inl e)
           | P_ok r st \<Rightarrow> Some (Inr (ps_nodes st, r))))"

section \<open>Compiled conditions are well formed\<close>

text \<open>
  A node of a compiled condition at index \<open>i\<close> refers only to earlier nodes, its path is not
  empty and not longer than the ceiling, and its numbers are finite.
\<close>

fun node_ok :: "nat \<Rightarrow> expr_node \<Rightarrow> bool" where
  "node_ok i (N_literal v) \<longleftrightarrow> (case v of Sc_num x \<Rightarrow> is_finite_num x | _ \<Rightarrow> True)"
| "node_ok i (N_path segments) \<longleftrightarrow> segments \<noteq> [] \<and> length segments \<le> MAX_PATH_SEGMENTS"
| "node_ok i (N_not a) \<longleftrightarrow> a < i"
| "node_ok i (N_compare _ a b) \<longleftrightarrow> a < i \<and> b < i"
| "node_ok i (N_logical _ a b) \<longleftrightarrow> a < i \<and> b < i"

definition wf_nodes :: "expr_node list \<Rightarrow> bool" where
  "wf_nodes nodes \<longleftrightarrow> (\<forall>i < length nodes. node_ok i (nodes ! i))"

lemma wf_nodes_Nil [simp]: "wf_nodes []"
  by (simp add: wf_nodes_def)

lemma wf_nodes_snoc [simp]: "wf_nodes (nodes @ [node]) \<longleftrightarrow> wf_nodes nodes \<and> node_ok (length nodes) node"
  by (auto simp: wf_nodes_def nth_append less_Suc_eq)

section \<open>The parser returns, and what it returns\<close>

text \<open>A call that returns: with an error, or with a result that satisfies \<open>Q\<close>.\<close>

fun pholds :: "('a \<Rightarrow> parser \<Rightarrow> bool) \<Rightarrow> 'a parse \<Rightarrow> bool" where
  "pholds Q P_fuel \<longleftrightarrow> False"
| "pholds Q (P_err e) \<longleftrightarrow> True"
| "pholds Q (P_ok x st) \<longleftrightarrow> Q x st"

lemma pholds_pfail [simp]: "pholds Q (pfail m n)"
  by (simp add: pfail_def)

lemma pholds_bind:
  "pholds R m \<Longrightarrow> (\<And>x st. R x st \<Longrightarrow> pholds Q (f x st)) \<Longrightarrow> pholds Q (pbind m f)"
  by (cases m) (auto simp: pbind_def)

lemma pholds_mono: "pholds R m \<Longrightarrow> (\<And>x st. R x st \<Longrightarrow> Q x st) \<Longrightarrow> pholds Q m"
  by (cases m) auto

lemma pholds_peek:
  "(\<And>t ts. ps_rest st = t # ts \<Longrightarrow> pholds Q (f t st)) \<Longrightarrow> pholds Q (pbind (peek st) f)"
  by (auto simp: peek_def pbind_def pfail_def split: list.split)

lemma pholds_advance:
  assumes "ps_rest st = t # ts" "tk_kind t \<noteq> TK_end" "pholds Q (f t (st\<lparr>ps_rest := ts\<rparr>))"
  shows "pholds Q (pbind (advance st) f)"
  using assms by (simp add: advance_def peek_def pbind_def)

lemma pholds_emit:
  assumes "length (ps_nodes st) < MAX_EXPRESSION_NODES \<Longrightarrow>
    Q (length (ps_nodes st)) (st\<lparr>ps_nodes := ps_nodes st @ [node]\<rparr>)"
  shows "pholds Q (emit node st)"
  using assms by (auto simp: emit_def peek_def pbind_def pfail_def split: list.split)

lemma pholds_emit_bind:
  assumes "length (ps_nodes st) < MAX_EXPRESSION_NODES \<Longrightarrow>
    pholds Q (f (length (ps_nodes st)) (st\<lparr>ps_nodes := ps_nodes st @ [node]\<rparr>))"
  shows "pholds Q (pbind (emit node st) f)"
  using assms by (auto simp: emit_def peek_def pbind_def pfail_def split: list.split)

text \<open>
  The contract of the methods. A loop is entered with the last node emitted; every method
  returns the last node emitted, and all but the loops consume a token.
\<close>

fun is_loop :: "parse_goal \<Rightarrow> bool" where
  "is_loop (NT_or_loop _) = True" | "is_loop (NT_and_loop _) = True" | "is_loop _ = False"

definition last_node :: "nat \<Rightarrow> parser \<Rightarrow> bool" where
  "last_node i st \<longleftrightarrow> Suc i = length (ps_nodes st)"

definition parser_ok :: "parser \<Rightarrow> bool" where
  "parser_ok st \<longleftrightarrow> wf_nodes (ps_nodes st) \<and> length (ps_nodes st) \<le> MAX_EXPRESSION_NODES"

fun goal_pre :: "parse_goal \<Rightarrow> parser \<Rightarrow> bool" where
  "goal_pre (NT_or_loop l) st \<longleftrightarrow> parser_ok st \<and> last_node l st"
| "goal_pre (NT_and_loop l) st \<longleftrightarrow> parser_ok st \<and> last_node l st"
| "goal_pre _ st \<longleftrightarrow> parser_ok st"

definition parsed :: "nat \<Rightarrow> parser \<Rightarrow> nat \<Rightarrow> parser \<Rightarrow> bool" where
  "parsed consumed st i st' \<longleftrightarrow> parser_ok st' \<and> last_node i st' \<and>
     length (ps_nodes st) \<le> length (ps_nodes st') \<and>
     consumed + length (ps_rest st') \<le> length (ps_rest st)"

fun goal_rank :: "parse_goal \<Rightarrow> nat" where
  "goal_rank NT_expression = 7" | "goal_rank NT_or = 6" | "goal_rank NT_and = 5"
| "goal_rank NT_comparison = 4" | "goal_rank NT_unary = 3" | "goal_rank NT_primary = 2"
| "goal_rank (NT_or_loop _) = 1" | "goal_rank (NT_and_loop _) = 1"

definition goal_cost :: "parse_goal \<Rightarrow> parser \<Rightarrow> nat" where
  "goal_cost nt st = 8 * length (ps_rest st) + goal_rank nt"

definition consumes :: "parse_goal \<Rightarrow> nat" where
  "consumes nt = (if is_loop nt then 0 else 1)"

lemmas parser_contract_defs = parsed_def parser_ok_def last_node_def goal_cost_def consumes_def

lemma path_loop_ok:
  "path_loop segments toks = Inr (segs, rest) \<Longrightarrow> segments \<noteq> [] \<Longrightarrow> length segments \<le> MAX_PATH_SEGMENTS \<Longrightarrow>
   segs \<noteq> [] \<and> length segs \<le> MAX_PATH_SEGMENTS \<and> length rest \<le> length toks"
  by (induction segments toks rule: path_loop.induct) (auto split: if_splits)

lemma parsePath_contract:
  assumes "parser_ok st" "ps_rest st = t # ts" "tk_kind t \<noteq> TK_end"
  shows "pholds (parsed 1 st) (parsePath st)"
  unfolding parsePath_def
proof (rule pholds_peek)
  fix first toks assume "ps_rest st = first # toks"
  with assms show "pholds (parsed 1 st) (pbind (advance st) (\<lambda>_ st.
     case path_loop [tk_text first] (ps_rest st) of
       Inl e \<Rightarrow> P_err e
     | Inr (segments, rest) \<Rightarrow> emit (N_path segments) (st\<lparr>ps_rest := rest\<rparr>)))"
    by (intro pholds_advance [of st t ts])
      (auto simp: parser_contract_defs MAX_PATH_SEGMENTS_def split: sum.split intro!: pholds_emit
        dest!: path_loop_ok)
qed

lemma emit_literal_contract:
  assumes "parser_ok st" "ps_rest st = t # ts" "tk_kind t \<noteq> TK_end"
    "case v of Sc_num x \<Rightarrow> is_finite_num x | _ \<Rightarrow> True"
  shows "pholds (parsed 1 st) (pbind (advance st) (\<lambda>_. emit (N_literal v)))"
  using assms by (intro pholds_advance [of st t ts] pholds_emit) (auto simp: parser_contract_defs)

locale parser_contract =
  fixes call :: parser_call and fuel :: nat
  assumes call_ok:
    "goal_pre nt st \<Longrightarrow> goal_cost nt st \<le> fuel \<Longrightarrow> pholds (parsed (consumes nt) st) (call nt depth st)"
begin

lemma call_bind:
  assumes "goal_pre nt st" "goal_cost nt st \<le> fuel"
    and "\<And>i st'. parsed (consumes nt) st i st' \<Longrightarrow> pholds Q (f i st')"
  shows "pholds Q (pbind (call nt depth st) f)"
  using call_ok [OF assms(1,2)] assms(3) by (rule pholds_bind)

lemma call_tail:
  assumes "goal_pre nt st" "goal_cost nt st \<le> fuel"
    and "\<And>i st'. parsed (consumes nt) st i st' \<Longrightarrow> Q i st'"
  shows "pholds Q (call nt depth st)"
  using call_ok [OF assms(1,2)] assms(3) by (rule pholds_mono)

lemma parseExpression_ok:
  "parser_ok st \<Longrightarrow> goal_cost NT_expression st \<le> Suc fuel \<Longrightarrow> pholds (parsed 1 st) (parseExpression call depth st)"
  by (auto simp: parseExpression_def goal_cost_def consumes_def intro!: call_tail pholds_peek)

lemma parseOr_ok:
  "parser_ok st \<Longrightarrow> goal_cost NT_or st \<le> Suc fuel \<Longrightarrow> pholds (parsed 1 st) (parseOr call depth st)"
  unfolding parseOr_def by (intro call_bind call_tail) (auto simp: parser_contract_defs)

lemma parseAnd_ok:
  "parser_ok st \<Longrightarrow> goal_cost NT_and st \<le> Suc fuel \<Longrightarrow> pholds (parsed 1 st) (parseAnd call depth st)"
  unfolding parseAnd_def by (intro call_bind call_tail) (auto simp: parser_contract_defs)

lemma parseOrLoop_ok:
  assumes "parser_ok st" "last_node left st" "goal_cost (NT_or_loop left) st \<le> Suc fuel"
  shows "pholds (parsed 0 st) (parseOrLoop call left depth st)"
  unfolding parseOrLoop_def
proof (rule pholds_peek)
  fix t ts assume rest: "ps_rest st = t # ts"
  show "pholds (parsed 0 st) (if tk_kind t = TK_or
     then pbind (advance st) (\<lambda>_ st. pbind (call NT_and depth st) (\<lambda>right st.
            pbind (emit (N_logical L_or left right) st) (\<lambda>left'. call (NT_or_loop left') depth)))
     else P_ok left st)"
  proof (cases "tk_kind t = TK_or")
    case True
    then show ?thesis using assms rest
      by simp (rule pholds_advance [of st t ts]; (intro call_bind pholds_emit_bind call_tail)?;
        auto simp: parser_contract_defs)
  qed (use assms in \<open>simp add: parser_contract_defs\<close>)
qed

lemma parseAndLoop_ok:
  assumes "parser_ok st" "last_node left st" "goal_cost (NT_and_loop left) st \<le> Suc fuel"
  shows "pholds (parsed 0 st) (parseAndLoop call left depth st)"
  unfolding parseAndLoop_def
proof (rule pholds_peek)
  fix t ts assume rest: "ps_rest st = t # ts"
  show "pholds (parsed 0 st) (if tk_kind t = TK_and
     then pbind (advance st) (\<lambda>_ st. pbind (call NT_comparison depth st) (\<lambda>right st.
            pbind (emit (N_logical L_and left right) st) (\<lambda>left'. call (NT_and_loop left') depth)))
     else P_ok left st)"
  proof (cases "tk_kind t = TK_and")
    case True
    then show ?thesis using assms rest
      by simp (rule pholds_advance [of st t ts]; (intro call_bind pholds_emit_bind call_tail)?;
        auto simp: parser_contract_defs)
  qed (use assms in \<open>simp add: parser_contract_defs\<close>)
qed

text \<open>The tail of \<open>parseComparison\<close> after its operator.\<close>

lemma comparison_tail_ok:
  assumes "parser_ok st" "last_node left st" "goal_cost NT_unary st \<le> fuel"
  shows "pholds (parsed 1 st) (pbind (call NT_unary depth st) (\<lambda>right st. pbind (peek st) (\<lambda>following st.
             if tk_kind following = TK_operator then pfail E_chained (tk_offset following)
             else emit (N_compare operator left right) st)))"
proof (rule call_bind)
  show "goal_pre NT_unary st" "goal_cost NT_unary st \<le> fuel" using assms by simp_all
next
  fix right st' assume "parsed (consumes NT_unary) st right st'"
  with assms show "pholds (parsed 1 st) (pbind (peek st') (\<lambda>following st.
             if tk_kind following = TK_operator then pfail E_chained (tk_offset following)
             else emit (N_compare operator left right) st))"
    by (intro pholds_peek) (auto simp: parser_contract_defs intro!: pholds_emit)
qed

lemma parseComparison_ok:
  assumes "parser_ok st" "goal_cost NT_comparison st \<le> Suc fuel"
  shows "pholds (parsed 1 st) (parseComparison call depth st)"
  unfolding parseComparison_def
proof (rule call_bind)
  show "goal_pre NT_unary st" "goal_cost NT_unary st \<le> fuel" using assms by (simp_all add: goal_cost_def)
next
  fix left st1 assume st1: "parsed (consumes NT_unary) st left st1"
  show "pholds (parsed 1 st) (pbind (peek st1) (\<lambda>token st.
     if tk_kind token \<noteq> TK_operator then P_ok left st
     else pbind (advance st) (\<lambda>_ st.
       case map_of COMPARISON_OPERATOR_NAMES (tk_text token) of
         None \<Rightarrow> pfail (E_unsupported_comparison (tk_text token)) (tk_offset token)
       | Some operator \<Rightarrow>
           pbind (call NT_unary depth st) (\<lambda>right st. pbind (peek st) (\<lambda>following st.
             if tk_kind following = TK_operator then pfail E_chained (tk_offset following)
             else emit (N_compare operator left right) st)))))"
  proof (rule pholds_peek)
    fix t ts assume rest: "ps_rest st1 = t # ts"
    let ?st2 = "st1\<lparr>ps_rest := ts\<rparr>"
    have "parser_ok ?st2" "last_node left ?st2" "goal_cost NT_unary ?st2 \<le> fuel"
      using st1 assms rest by (auto simp: parser_contract_defs)
    note tail = pholds_mono [OF comparison_tail_ok [OF this], of "parsed 1 st"]
    have shorter: "parsed 1 ?st2 i st' \<Longrightarrow> parsed 1 st i st'" for i st'
      using st1 rest by (auto simp: parser_contract_defs)
    show "pholds (parsed 1 st) (if tk_kind t \<noteq> TK_operator then P_ok left st1
     else pbind (advance st1) (\<lambda>_ st.
       case map_of COMPARISON_OPERATOR_NAMES (tk_text t) of
         None \<Rightarrow> pfail (E_unsupported_comparison (tk_text t)) (tk_offset t)
       | Some operator \<Rightarrow>
           pbind (call NT_unary depth st) (\<lambda>right st. pbind (peek st) (\<lambda>following st.
             if tk_kind following = TK_operator then pfail E_chained (tk_offset following)
             else emit (N_compare operator left right) st))))"
      using st1 rest tail shorter
      by (auto simp: consumes_def intro!: pholds_advance [of st1 t ts] split: option.split)
  qed
qed

lemma parseUnary_ok:
  assumes "parser_ok st" "goal_cost NT_unary st \<le> Suc fuel"
  shows "pholds (parsed 1 st) (parseUnary call depth st)"
  unfolding parseUnary_def
proof (rule pholds_peek)
  fix t ts assume rest: "ps_rest st = t # ts"
  show "pholds (parsed 1 st) (if tk_kind t = TK_not
     then pbind (advance st) (\<lambda>_ st. pbind (call NT_unary depth st) (\<lambda>operand. emit (N_not operand)))
     else call NT_primary depth st)"
  proof (cases "tk_kind t = TK_not")
    case True
    then show ?thesis using assms rest
      by simp (rule pholds_advance [of st t ts]; (intro call_bind pholds_emit)?;
        auto simp: parser_contract_defs)
  next
    case False
    with assms rest show ?thesis by (auto simp: goal_cost_def consumes_def intro!: call_tail)
  qed
qed

lemma parenthesis_ok:
  assumes "parser_ok st" "goal_cost NT_primary st \<le> Suc fuel" "ps_rest st = t # ts" "tk_kind t \<noteq> TK_end"
  shows "pholds (parsed 1 st)
    (pbind (advance st) (\<lambda>_ st. pbind (call NT_expression depth st) (\<lambda>inner st.
           pbind (peek st) (\<lambda>closing st.
             if tk_kind closing \<noteq> TK_rparen then pfail E_missing_rparen (tk_offset closing)
             else pbind (advance st) (\<lambda>_. P_ok inner)))))"
proof (rule pholds_advance [OF assms(3,4)], rule call_bind)
  let ?st1 = "st\<lparr>ps_rest := ts\<rparr>"
  show "goal_pre NT_expression ?st1" "goal_cost NT_expression ?st1 \<le> fuel"
    using assms by (auto simp: parser_contract_defs)
  fix i st' assume st': "parsed (consumes NT_expression) ?st1 i st'"
  show "pholds (parsed 1 st) (pbind (peek st') (\<lambda>closing st.
             if tk_kind closing \<noteq> TK_rparen then pfail E_missing_rparen (tk_offset closing)
             else pbind (advance st) (\<lambda>_. P_ok i)))"
  proof (rule pholds_peek)
    fix u us assume "ps_rest st' = u # us"
    with st' assms(3) show "pholds (parsed 1 st)
       (if tk_kind u \<noteq> TK_rparen then pfail E_missing_rparen (tk_offset u)
        else pbind (advance st') (\<lambda>_. P_ok i))"
      by (auto simp: parser_contract_defs intro!: pholds_advance [of st' u us])
  qed
qed

lemma parsePrimary_ok:
  assumes "parser_ok st" "goal_cost NT_primary st \<le> Suc fuel"
  shows "pholds (parsed 1 st) (parsePrimary call depth st)"
  unfolding parsePrimary_def
proof (rule pholds_peek, goal_cases)
  case (1 t ts)
  note path = parsePath_contract [OF assms(1) 1] and literal = emit_literal_contract [OF assms(1) 1]
  note lparen = parenthesis_ok [OF assms 1, of "depth + 1"]
  have number: "pholds (parsed 1 st) (pbind (advance st) (\<lambda>_ st.
           let num = number_of_decimal (tk_text t) in
           if \<not> is_finite_num num then pfail (E_not_finite (tk_text t)) (tk_offset t)
           else emit (N_literal (Sc_num num)) st))" if "tk_kind t \<noteq> TK_end"
  proof (cases "is_finite_num (number_of_decimal (tk_text t))")
    case True
    with literal [OF that, of "Sc_num (number_of_decimal (tk_text t))"] show ?thesis by (simp add: Let_def)
  next
    case False
    then show ?thesis by (auto simp: Let_def intro!: pholds_advance [OF 1 that])
  qed
  show ?case
    by (cases "tk_kind t") (simp_all add: path literal lparen number del: One_nat_def)
qed

lemma parse_method_ok:
  assumes "goal_pre nt st" "goal_cost nt st \<le> Suc fuel"
  shows "pholds (parsed (consumes nt) st) (parse_method call nt depth st)"
  using assms
  by (cases nt)
    (simp_all add: parse_method_def consumes_def parseExpression_ok parseOr_ok parseAnd_ok parseOrLoop_ok
      parseAndLoop_ok parseComparison_ok parseUnary_ok parsePrimary_ok del: One_nat_def)

end

lemma parse_nt_contract: "parser_contract (parse_nt fuel) fuel"
proof (induction fuel)
  case 0
  show ?case
  proof
    fix nt st depth assume "goal_cost nt st \<le> 0"
    moreover have "0 < goal_rank nt" by (cases nt) simp_all
    ultimately show "pholds (parsed (consumes nt) st) (parse_nt 0 nt depth st)" by (simp add: goal_cost_def)
  qed
next
  case (Suc fuel)
  then show ?case by (auto simp: parser_contract_def parser_contract.parse_method_ok)
qed

interpretation pc: parser_contract "parse_nt fuel" fuel
  by (rule parse_nt_contract)

lemma parseConditionExpression_cases:
  obtains (error) e where "parseConditionExpression src = Some (Inl e)"
  | (compiled) nodes where "parseConditionExpression src = Some (Inr (nodes, length nodes - 1))"
      "nodes \<noteq> []" "wf_nodes nodes" "length nodes \<le> MAX_EXPRESSION_NODES"
proof (cases "lexExpression src")
  case (Inl e)
  then show ?thesis by (intro error [of e]) (simp add: parseConditionExpression_def)
next
  case (Inr tokens)
  let ?st = "\<lparr>ps_rest = tokens, ps_nodes = []\<rparr>"
  let ?m = "pbind (parse_nt (parse_fuel tokens) NT_expression 0 ?st) (\<lambda>r st. pbind (expectEnd st) (\<lambda>_. P_ok r))"
  have "pholds (parsed 1 ?st) ?m"
  proof (rule pc.call_bind)
    show "goal_pre NT_expression ?st" "goal_cost NT_expression ?st \<le> parse_fuel tokens"
      by (simp_all add: parser_contract_defs parse_fuel_def)
    fix i st assume "parsed (consumes NT_expression) ?st i st"
    then have "parsed 1 ?st i st" by (simp add: consumes_def)
    then show "pholds (parsed 1 ?st) (pbind (expectEnd st) (\<lambda>_. P_ok i))"
      unfolding expectEnd_def by (auto simp: pbind_def peek_def pfail_def split: list.split)
  qed
  then consider e where "?m = P_err e" | i st where "?m = P_ok i st" "parsed 1 ?st i st"
    by (cases ?m) auto
  then show ?thesis
  proof cases
    case 1
    with Inr show ?thesis by (intro error [of e]) (simp add: parseConditionExpression_def)
  next
    case 2
    then have "i = length (ps_nodes st) - 1" "ps_nodes st \<noteq> []" by (auto simp: parser_contract_defs)
    with 2 Inr show ?thesis
      by (intro compiled [of "ps_nodes st"]) (simp_all add: parseConditionExpression_def parser_contract_defs)
  qed
qed

section \<open>Properties\<close>

text \<open>
  C22: compiling a condition always returns. It returns a syntax error, or a node array that is not
  empty and has at most 128 nodes, whose root is its last index and in which every node refers
  only to earlier nodes, paths have one to eight segments and numbers are finite.
\<close>

theorem parseConditionExpression_total:
  "case parseConditionExpression src of
     None \<Rightarrow> False
   | Some (Inl e) \<Rightarrow> True
   | Some (Inr (nodes, r)) \<Rightarrow>
       0 < length nodes \<and> length nodes \<le> 128 \<and> r = length nodes - 1 \<and> wf_nodes nodes"
  by (rule parseConditionExpression_cases [of src]) (simp_all add: MAX_EXPRESSION_NODES_def)

end
