(* ===== verification/Expression_Eval.thy ===== *)
theory Expression_Eval
  imports Expression_Parse
begin

text \<open>
  The evaluator of compiled conditions (\<open>packages/pipeline/src/expression/evaluate.ts\<close>).
  \<open>evaluate_step\<close> is the body of \<open>evaluateNode\<close> over its recursive calls; \<open>evaluateNode\<close>
  runs it with a fuel that counts nested calls, and \<open>None\<close> is the recursion that never ends
  (a call stack overflow in the program). The lemmas show that one more than the number of
  nodes is always enough fuel, that a compiled condition never overflows, and that evaluating
  the array front to back gives the same result.
\<close>

section \<open>Failures and values\<close>

datatype eval_code = Missing_path | Incompatible_type | Invalid_expression

record eval_failure =
  ef_code :: eval_code
  ef_message :: string
  ef_path :: "string list option"

definition eval_fail :: "eval_code \<Rightarrow> string \<Rightarrow> eval_failure" where
  "eval_fail c m = \<lparr>ef_code = c, ef_message = m, ef_path = None\<rparr>"

type_synonym evaluation = "eval_failure + json"

fun isObject :: "json \<Rightarrow> bool" where
  "isObject (JObj _) = True" | "isObject _ = False"

definition scalar_json :: "scalar \<Rightarrow> json" where
  "scalar_json v = (case v of Sc_null \<Rightarrow> JNull | Sc_bool b \<Rightarrow> JBool b | Sc_num x \<Rightarrow> JNum x | Sc_str s \<Rightarrow> JStr s)"

definition describeType :: "json \<Rightarrow> string" where
  "describeType v = (case v of JNull \<Rightarrow> ''null'' | JArr _ \<Rightarrow> ''array'' | JObj _ \<Rightarrow> ''object''
     | JBool _ \<Rightarrow> ''boolean'' | JNum _ \<Rightarrow> ''number'' | JStr _ \<Rightarrow> ''string'')"

definition scalar_typeof :: "scalar \<Rightarrow> string" where
  "scalar_typeof v = (case v of Sc_null \<Rightarrow> ''object'' | Sc_bool _ \<Rightarrow> ''boolean''
     | Sc_num _ \<Rightarrow> ''number'' | Sc_str _ \<Rightarrow> ''string'')"

text \<open>
  \<open>readPath\<close> at the segments that are left; \<open>seen\<close> are the ones already followed, so the
  path of a failure is the prefix up to the segment that is missing.
\<close>

fun readPath :: "string list \<Rightarrow> json \<Rightarrow> string list \<Rightarrow> string list + json" where
  "readPath seen cur [] = Inr cur"
| "readPath seen cur (segment # rest) =
     (case cur of
        JArr vs \<Rightarrow> if segment = ''length''
                   then readPath (seen @ [segment]) (JNum (Fin (of_nat (length vs)))) rest
                   else Inl (seen @ [segment])
      | JObj kvs \<Rightarrow> (case map_of kvs segment of
                       None \<Rightarrow> Inl (seen @ [segment])
                     | Some v \<Rightarrow> readPath (seen @ [segment]) v rest)
      | _ \<Rightarrow> Inl (seen @ [segment]))"

definition asComparable :: "json \<Rightarrow> scalar option" where
  "asComparable v = (case v of JNull \<Rightarrow> Some Sc_null | JStr s \<Rightarrow> Some (Sc_str s) | JNum x \<Rightarrow> Some (Sc_num x)
     | JBool b \<Rightarrow> Some (Sc_bool b) | _ \<Rightarrow> None)"

definition ordered :: "comparison \<Rightarrow> js_number \<Rightarrow> js_number \<Rightarrow> bool" where
  "ordered operator x y =
     (case operator of C_lt \<Rightarrow> num_less x y | C_lte \<Rightarrow> num_le x y | C_gt \<Rightarrow> num_less y x | _ \<Rightarrow> num_le y x)"

definition compareValues :: "comparison \<Rightarrow> scalar \<Rightarrow> scalar \<Rightarrow> string + bool" where
  "compareValues operator left right =
     (if operator = C_eq then Inr (left = right)
      else if operator = C_ne then Inr (left \<noteq> right)
      else case (left, right) of
          (Sc_num x, Sc_num y) \<Rightarrow>
            if is_finite_num x \<and> is_finite_num y then Inr (ordered operator x y)
            else Inl (''ordered comparison requires finite numbers, got '' @ scalar_typeof left
                      @ '' and '' @ scalar_typeof right)
        | _ \<Rightarrow> Inl (''ordered comparison requires finite numbers, got '' @ scalar_typeof left
                      @ '' and '' @ scalar_typeof right))"

section \<open>Evaluation\<close>

definition ebind :: "evaluation option \<Rightarrow> (json \<Rightarrow> evaluation option) \<Rightarrow> evaluation option" where
  "ebind m f = (case m of None \<Rightarrow> None | Some (Inl e) \<Rightarrow> Some (Inl e) | Some (Inr v) \<Rightarrow> f v)"

definition logical_name :: "logical \<Rightarrow> string" where
  "logical_name operator = (case operator of L_and \<Rightarrow> ''and'' | L_or \<Rightarrow> ''or'')"

definition logical_failure :: "logical \<Rightarrow> json \<Rightarrow> string \<Rightarrow> evaluation" where
  "logical_failure operator v side = Inl (eval_fail Incompatible_type
     (''logical '' @ logical_name operator @ '' requires booleans, got '' @ describeType v @ '' on the '' @ side))"

definition evaluate_compare :: "comparison \<Rightarrow> json \<Rightarrow> json \<Rightarrow> evaluation" where
  "evaluate_compare operator left right =
     (case (asComparable left, asComparable right) of
        (Some l, Some r) \<Rightarrow>
          (case compareValues operator l r of
             Inl message \<Rightarrow> Inl (eval_fail Incompatible_type message)
           | Inr b \<Rightarrow> Inr (JBool b))
      | _ \<Rightarrow> Inl (eval_fail Incompatible_type
               (''comparison requires JSON scalars, got '' @ describeType left @ '' and '' @ describeType right)))"

definition evaluate_step :: "json \<Rightarrow> (nat \<Rightarrow> evaluation option) \<Rightarrow> expr_node \<Rightarrow> evaluation option" where
  "evaluate_step state recur node =
     (case node of
        N_literal v \<Rightarrow> Some (Inr (scalar_json v))
      | N_path path \<Rightarrow>
          (case readPath [] state path of
             Inl missing \<Rightarrow> Some (Inl \<lparr>ef_code = Missing_path,
               ef_message = ''missing state path '' @ join_with ''.'' missing, ef_path = Some missing\<rparr>)
           | Inr v \<Rightarrow> Some (Inr v))
      | N_not operand \<Rightarrow> ebind (recur operand) (\<lambda>v.
          case v of JBool b \<Rightarrow> Some (Inr (JBool (\<not> b)))
          | _ \<Rightarrow> Some (Inl (eval_fail Incompatible_type (''unary ! requires a boolean, got '' @ describeType v))))
      | N_compare operator l r \<Rightarrow>
          ebind (recur l) (\<lambda>left. ebind (recur r) (\<lambda>right. Some (evaluate_compare operator left right)))
      | N_logical operator l r \<Rightarrow> ebind (recur l) (\<lambda>left.
          case left of
            JBool a \<Rightarrow>
              if operator = L_and \<and> \<not> a then Some (Inr (JBool False))
              else if operator = L_or \<and> a then Some (Inr (JBool True))
              else ebind (recur r) (\<lambda>right.
                case right of
                  JBool b \<Rightarrow> Some (Inr (JBool (if operator = L_and then a \<and> b else a \<or> b)))
                | _ \<Rightarrow> Some (logical_failure operator right ''right''))
          | _ \<Rightarrow> Some (logical_failure operator left ''left'')))"

fun evaluateNode :: "nat \<Rightarrow> expr_node list \<Rightarrow> json \<Rightarrow> nat \<Rightarrow> evaluation option" where
  "evaluateNode 0 nodes state index = None"
| "evaluateNode (Suc fuel) nodes state index =
     (if length nodes \<le> index
      then Some (Inl (eval_fail Invalid_expression
             (''expression node index '' @ show_nat index @ '' is out of range'')))
      else evaluate_step state (evaluateNode fuel nodes state) (nodes ! index))"

definition require_boolean :: "json \<Rightarrow> eval_failure + bool" where
  "require_boolean v = (case v of JBool b \<Rightarrow> Inr b
     | _ \<Rightarrow> Inl (eval_fail Incompatible_type (''expression root must be boolean, got '' @ describeType v)))"

definition evaluateExpressionCondition :: "expr_node list \<Rightarrow> nat \<Rightarrow> json \<Rightarrow> (eval_failure + bool) option" where
  "evaluateExpressionCondition nodes r state =
     (case evaluateNode (length nodes + 1) nodes state r of
        None \<Rightarrow> None
      | Some (Inl e) \<Rightarrow> Some (Inl e)
      | Some (Inr v) \<Rightarrow> Some (require_boolean v))"

section \<open>More fuel never changes a result\<close>

lemma ebind_le:
  assumes "m \<noteq> None \<Longrightarrow> m' = m" "\<And>v. f v \<noteq> None \<Longrightarrow> f' v = f v" "ebind m f \<noteq> None"
  shows "ebind m' f' = ebind m f"
  using assms by (auto simp: ebind_def split: option.splits sum.splits)

lemma evaluate_step_mono:
  assumes le: "\<And>i. recur i \<noteq> None \<Longrightarrow> recur' i = recur i"
    and some: "evaluate_step state recur node \<noteq> None"
  shows "evaluate_step state recur' node = evaluate_step state recur node"
  using some le unfolding evaluate_step_def
  by (cases node) (fastforce simp: ebind_def split: option.splits sum.splits json.splits if_splits)+

lemma evaluateNode_mono:
  "evaluateNode n nodes state i \<noteq> None \<Longrightarrow> evaluateNode (Suc n) nodes state i = evaluateNode n nodes state i"
proof (induction n arbitrary: i)
  case (Suc n)
  show ?case
  proof (cases "length nodes \<le> i")
    case False
    have "evaluate_step state (evaluateNode (Suc n) nodes state) (nodes ! i)
        = evaluate_step state (evaluateNode n nodes state) (nodes ! i)"
      by (rule evaluate_step_mono [OF Suc.IH]) (use Suc.prems False in auto)
    with False show ?thesis by (subst (1 2) evaluateNode.simps) (simp del: evaluateNode.simps)
  qed simp
qed simp

lemma evaluateNode_mono_le:
  "n \<le> m \<Longrightarrow> evaluateNode n nodes state i \<noteq> None \<Longrightarrow> evaluateNode m nodes state i = evaluateNode n nodes state i"
proof (induction m rule: dec_induct)
  case (step m)
  then show ?case using evaluateNode_mono [of m nodes state i] by (simp del: evaluateNode.simps)
qed simp

text \<open>The nodes on which the evaluation returns within a nesting of \<open>n\<close> calls.\<close>

definition settled_nodes :: "expr_node list \<Rightarrow> json \<Rightarrow> nat \<Rightarrow> nat set" where
  "settled_nodes nodes state n = {i. i < length nodes \<and> evaluateNode (Suc n) nodes state i \<noteq> None}"

lemma settled_nodes_mono: "m \<le> n \<Longrightarrow> settled_nodes nodes state m \<subseteq> settled_nodes nodes state n"
  unfolding settled_nodes_def using evaluateNode_mono_le [of "Suc m" "Suc n" nodes state] by fastforce

lemma settled_nodes_stable:
  assumes "settled_nodes nodes state n = settled_nodes nodes state (Suc n)"
  shows "evaluateNode (Suc n) nodes state = evaluateNode (Suc (Suc n)) nodes state"
proof
  fix i
  show "evaluateNode (Suc n) nodes state i = evaluateNode (Suc (Suc n)) nodes state i"
  proof (cases "evaluateNode (Suc n) nodes state i")
    case None
    then have "i \<notin> settled_nodes nodes state n" by (simp add: settled_nodes_def)
    then have "i \<notin> settled_nodes nodes state (Suc n)" by (metis assms)
    moreover from None have "i < length nodes" by (auto split: if_splits)
    ultimately show ?thesis unfolding None by (simp add: settled_nodes_def del: evaluateNode.simps)
  next
    case (Some r)
    then show ?thesis using evaluateNode_mono [of "Suc n" nodes state i] by (simp del: evaluateNode.simps)
  qed
qed

lemma settled_nodes_all: "settled_nodes nodes state (length nodes) = (\<Union>n. settled_nodes nodes state n)"
proof -
  let ?S = "settled_nodes nodes state"
  have sub: "?S n \<subseteq> {..<length nodes}" for n by (auto simp: settled_nodes_def)
  then have fin: "finite (range ?S)"
    by (auto intro!: finite_subset [of "range ?S" "Pow {..<length nodes}"])
  have "?S n = ?S (Suc n) \<longrightarrow> ?S (Suc n) = ?S (Suc (Suc n))" for n
  proof
    assume "?S n = ?S (Suc n)"
    from settled_nodes_stable [OF this]
    have "evaluateNode (Suc (Suc n)) nodes state = evaluateNode (Suc (Suc (Suc n))) nodes state"
      by (intro ext) (subst (1 2) evaluateNode.simps, simp del: evaluateNode.simps)
    then show "?S (Suc n) = ?S (Suc (Suc n))" by (simp add: settled_nodes_def del: evaluateNode.simps)
  qed
  then have "\<exists>N. (\<forall>n\<le>N. \<forall>m\<le>N. m < n \<longrightarrow> ?S m \<subset> ?S n) \<and> (\<forall>n\<ge>N. ?S N = ?S n)"
    using fin by (intro finite_mono_remains_stable_implies_strict_prefix) (auto simp: mono_def settled_nodes_mono)
  from finite_mono_strict_prefix_implies_finite_fixpoint [OF sub _ this] show ?thesis by simp
qed

lemma evaluateNode_enough:
  assumes "evaluateNode (length nodes + 1) nodes state i = None"
  shows "evaluateNode n nodes state i = None"
proof (rule ccontr)
  assume some: "evaluateNode n nodes state i \<noteq> None"
  from assms have "i < length nodes" by (auto split: if_splits)
  with some evaluateNode_mono [OF some] have "i \<in> settled_nodes nodes state n"
    by (simp add: settled_nodes_def del: evaluateNode.simps)
  then have "i \<in> settled_nodes nodes state (length nodes)" by (auto simp: settled_nodes_all)
  with assms show False by (simp add: settled_nodes_def)
qed

section \<open>Front-to-back evaluation\<close>

text \<open>
  The evaluation without recursion that the compiler's header promises is possible: one pass
  over the array, each node read from the results of the earlier ones.
\<close>

definition table_lookup :: "evaluation list \<Rightarrow> nat \<Rightarrow> evaluation option" where
  "table_lookup table i = (if i < length table then Some (table ! i) else None)"

definition extend_table :: "json \<Rightarrow> expr_node \<Rightarrow> evaluation list option \<Rightarrow> evaluation list option" where
  "extend_table state node table =
     (case table of None \<Rightarrow> None
      | Some t \<Rightarrow> map_option (\<lambda>v. t @ [v]) (evaluate_step state (table_lookup t) node))"

definition evaluate_table :: "json \<Rightarrow> expr_node list \<Rightarrow> evaluation list option" where
  "evaluate_table state nodes = fold (extend_table state) nodes (Some [])"

lemma evaluate_step_defined:
  assumes "node_ok n node" "\<And>i. i < n \<Longrightarrow> recur i \<noteq> None"
  shows "evaluate_step state recur node \<noteq> None"
  using assms unfolding evaluate_step_def
  by (cases node) (fastforce simp: ebind_def split: option.splits sum.splits json.splits)+

lemma evaluateNode_compiled:
  "wf_nodes nodes \<Longrightarrow> i < length nodes \<Longrightarrow> i < n \<Longrightarrow> evaluateNode n nodes state i \<noteq> None"
proof (induction n arbitrary: i)
  case (Suc n)
  have "evaluate_step state (evaluateNode n nodes state) (nodes ! i) \<noteq> None"
  proof (rule evaluate_step_defined)
    show "node_ok i (nodes ! i)" using Suc.prems by (simp add: wf_nodes_def)
    show "evaluateNode n nodes state j \<noteq> None" if "j < i" for j using Suc that by auto
  qed
  with Suc.prems show ?case by simp
qed simp

lemma evaluate_table_nodes:
  assumes "wf_nodes nodes" "k \<le> length nodes"
  shows "evaluate_table state (take k nodes) =
    Some (map (\<lambda>i. the (evaluateNode (length nodes + 1) nodes state i)) [0..<k])"
  using assms(2)
proof (induction k)
  case 0
  then show ?case by (simp add: evaluate_table_def)
next
  case (Suc k)
  let ?eval = "evaluateNode (length nodes + 1) nodes state"
  let ?t = "map (\<lambda>i. the (?eval i)) [0..<k]"
  have ok: "node_ok k (nodes ! k)" using assms(1) Suc.prems by (simp add: wf_nodes_def)
  have some: "?eval i \<noteq> None" if "i < length nodes" for i
    using evaluateNode_compiled [OF assms(1) that] that by (simp del: evaluateNode.simps)
  have step: "?eval k = evaluate_step state ?eval (nodes ! k)"
    using Suc.prems evaluateNode_mono [OF some [of k]] by simp
  have "evaluate_step state ?eval (nodes ! k) = evaluate_step state (table_lookup ?t) (nodes ! k)"
  proof (rule evaluate_step_mono)
    show "evaluate_step state (table_lookup ?t) (nodes ! k) \<noteq> None"
      by (rule evaluate_step_defined [OF ok]) (simp add: table_lookup_def)
    show "?eval i = table_lookup ?t i" if "table_lookup ?t i \<noteq> None" for i
      using that some [of i] Suc.prems by (auto simp: table_lookup_def simp del: evaluateNode.simps split: if_splits)
  qed
  with step some [of k] Suc.prems
  have "evaluate_step state (table_lookup ?t) (nodes ! k) = Some (the (?eval k))" by (simp del: evaluateNode.simps)
  with Suc show ?case
    by (simp add: take_Suc_conv_app_nth evaluate_table_def extend_table_def del: evaluateNode.simps)
qed

lemma evaluateNode_in_range:
  assumes "wf_nodes nodes" "i < length nodes" "evaluateNode n nodes state i = Some (Inl e)"
  shows "ef_code e \<noteq> Invalid_expression"
  using assms(2,3)
proof (induction n arbitrary: i e)
  case (Suc n)
  have "evaluate_step state (evaluateNode n nodes state) (nodes ! i) = Some (Inl e)"
    using Suc.prems by simp
  moreover have "\<And>j e. j < i \<Longrightarrow> evaluateNode n nodes state j = Some (Inl e) \<Longrightarrow> ef_code e \<noteq> Invalid_expression"
    using Suc.IH Suc.prems(1) less_trans by blast
  moreover have "node_ok i (nodes ! i)" using assms(1) Suc.prems by (simp add: wf_nodes_def)
  ultimately show ?case unfolding evaluate_step_def
    by (cases "nodes ! i")
      (auto simp: ebind_def eval_fail_def logical_failure_def evaluate_compare_def
        split: option.splits sum.splits json.splits if_splits)
qed simp

section \<open>Properties\<close>

text \<open>
  The nesting bound is exact. If the evaluation of a node array does not return within one
  call more than there are nodes, it does not return at any depth, whatever the array is.
\<close>

theorem evaluation_fuel_exact:
  "evaluateExpressionCondition nodes r state = None \<longleftrightarrow> (\<forall>n. evaluateNode n nodes state r = None)"
  using evaluateNode_enough [of nodes state r]
  by (auto simp: evaluateExpressionCondition_def simp del: evaluateNode.simps split: option.splits sum.splits)

text \<open>
  Evaluating a condition the compiler produced always returns, and its failures are missing
  paths or incompatible types of the state, never an invalid expression.
\<close>

theorem compiled_condition_evaluates:
  assumes "parseConditionExpression src = Some (Inr (nodes, r))"
  shows "\<exists>v. evaluateExpressionCondition nodes r state = Some v \<and>
    (\<forall>e. v = Inl e \<longrightarrow> ef_code e \<noteq> Invalid_expression)"
proof (rule parseConditionExpression_cases [of src])
  fix nodes' assume "parseConditionExpression src = Some (Inr (nodes', length nodes' - 1))"
    "nodes' \<noteq> []" and wf: "wf_nodes nodes'"
  with assms have nodes: "wf_nodes nodes" "r < length nodes" by auto
  let ?m = "evaluateNode (length nodes + 1) nodes state r"
  have "?m \<noteq> None" using nodes by (intro evaluateNode_compiled) auto
  then obtain w where w: "?m = Some w" by blast
  then have "ef_code e \<noteq> Invalid_expression" if "w = Inl e" for e
    using evaluateNode_in_range [OF nodes] that by blast
  with w show ?thesis
    by (cases w) (auto simp: evaluateExpressionCondition_def require_boolean_def eval_fail_def
      simp del: evaluateNode.simps split: json.splits)
qed (use assms in simp)

theorem compiled_condition_evaluates_witness:
  "\<exists>nodes r v. parseConditionExpression ''a.n > 0'' = Some (Inr (nodes, r)) \<and>
     evaluateExpressionCondition nodes r (JObj [(''a'', JObj [(''n'', JNum (Fin 1))])]) = Some v \<and>
     (\<forall>e. v = Inl e \<longrightarrow> ef_code e \<noteq> Invalid_expression)"
proof -
  have "parseConditionExpression ''a.n > 0''
      = Some (Inr ([N_path [''a'', ''n''], N_literal (Sc_num (Fin 0)), N_compare C_gt 0 1], 2))"
    by code_simp
  from this compiled_condition_evaluates [OF this] show ?thesis by blast
qed

text \<open>
  C23: a compiled condition can be evaluated front to back with no recursion: one pass over the
  array gives every node a result, and the recursive evaluation of the root is the last of them.
\<close>

theorem front_to_back_equivalent:
  assumes "parseConditionExpression src = Some (Inr (nodes, r))"
  shows "\<exists>table. evaluate_table state nodes = Some table \<and> length table = length nodes \<and>
    evaluateExpressionCondition nodes r state =
      Some (case last table of Inl e \<Rightarrow> Inl e | Inr v \<Rightarrow> require_boolean v)"
proof (rule parseConditionExpression_cases [of src])
  fix nodes' assume "parseConditionExpression src = Some (Inr (nodes', length nodes' - 1))"
    "nodes' \<noteq> []" "wf_nodes nodes'"
  with assms have nodes: "wf_nodes nodes" "r = length nodes - 1" "nodes \<noteq> []" by auto
  let ?eval = "evaluateNode (length nodes + 1) nodes state"
  let ?t = "map (\<lambda>i. the (?eval i)) [0..<length nodes]"
  have "evaluate_table state nodes = Some ?t"
    using evaluate_table_nodes [OF nodes(1) order_refl] by simp
  moreover from nodes have "last ?t = the (?eval r)" by (simp add: last_map del: evaluateNode.simps)
  moreover have "?eval r \<noteq> None" using nodes by (intro evaluateNode_compiled) auto
  ultimately show ?thesis
    by (auto simp: evaluateExpressionCondition_def simp del: evaluateNode.simps split: sum.split)
qed (use assms in simp)

theorem front_to_back_equivalent_witness:
  "\<exists>nodes r table. parseConditionExpression ''!done || n < 3'' = Some (Inr (nodes, r)) \<and>
     evaluate_table (JObj [(''n'', JNum (Fin 1))]) nodes = Some table \<and> length table = length nodes \<and>
     evaluateExpressionCondition nodes r (JObj [(''n'', JNum (Fin 1))]) =
       Some (case last table of Inl e \<Rightarrow> Inl e | Inr v \<Rightarrow> require_boolean v)"
proof -
  have "parseConditionExpression ''!done || n < 3'' = Some (Inr ([N_path [''done''], N_not 0,
      N_path [''n''], N_literal (Sc_num (Fin 3)), N_compare C_lt 2 3, N_logical L_or 1 4], 5))"
    by code_simp
  from this front_to_back_equivalent [OF this] show ?thesis by blast
qed

end
