(* ===== verification/Transitions.thy ===== *)
theory Transitions
  imports Prelude
begin

text \<open>
  The fixed stage state machine of the pipeline scheduler: the stage states and transition
  reasons (\<open>packages/contracts/src/pipeline/state.ts\<close>, \<open>vocabulary.ts\<close>), the table of
  permitted transitions and the functions over it
  (\<open>packages/pipeline/src/scheduler/transitions.ts\<close>), and the identity helpers of
  \<open>scheduler/ids.ts\<close>. The lemmas show that the index the code builds decides the table, that
  terminal states are left only by a manual rerun, and that derived identities are injective
  where the scheduler relies on it.
\<close>

section \<open>Stage states and transition reasons\<close>

datatype stage_state =
    S_pending | S_ready | S_queued | S_running | S_waiting | S_retrying
  | S_succeeded | S_failed | S_cancelled | S_blocked

definition stage_state_values :: "stage_state list" where
  "stage_state_values =
     [S_pending, S_ready, S_queued, S_running, S_waiting, S_retrying,
      S_succeeded, S_failed, S_cancelled, S_blocked]"

fun state_name :: "stage_state \<Rightarrow> string" where
  "state_name S_pending = ''pending''"
| "state_name S_ready = ''ready''"
| "state_name S_queued = ''queued''"
| "state_name S_running = ''running''"
| "state_name S_waiting = ''waiting''"
| "state_name S_retrying = ''retrying''"
| "state_name S_succeeded = ''succeeded''"
| "state_name S_failed = ''failed''"
| "state_name S_cancelled = ''cancelled''"
| "state_name S_blocked = ''blocked''"

fun isTerminalStageState :: "stage_state \<Rightarrow> bool" where
  "isTerminalStageState S_succeeded = True"
| "isTerminalStageState S_failed = True"
| "isTerminalStageState S_cancelled = True"
| "isTerminalStageState S_blocked = True"
| "isTerminalStageState _ = False"

text \<open>Reasons of both contract versions; the last five are the additions of version 2.\<close>

datatype transition_reason =
    R_dependencies_satisfied | R_root_eligible | R_dispatch_intent | R_attempt_started
  | R_attempt_waiting | R_attempt_succeeded | R_attempt_failed | R_retry_scheduled
  | R_retry_exhausted | R_condition_not_selected | R_condition_blocked
  | R_dependency_unsatisfied | R_cancel_requested | R_cancellation_settled
  | R_deadline_exceeded | R_manual_rerun | R_pipeline_cancelled
  | R_recovery_proposed | R_recovery_approved | R_recovery_rejected
  | R_repair_exhausted | R_unchanged_failure_exhausted

fun reason_name :: "transition_reason \<Rightarrow> string" where
  "reason_name R_dependencies_satisfied = ''dependencies_satisfied''"
| "reason_name R_root_eligible = ''root_eligible''"
| "reason_name R_dispatch_intent = ''dispatch_intent''"
| "reason_name R_attempt_started = ''attempt_started''"
| "reason_name R_attempt_waiting = ''attempt_waiting''"
| "reason_name R_attempt_succeeded = ''attempt_succeeded''"
| "reason_name R_attempt_failed = ''attempt_failed''"
| "reason_name R_retry_scheduled = ''retry_scheduled''"
| "reason_name R_retry_exhausted = ''retry_exhausted''"
| "reason_name R_condition_not_selected = ''condition_not_selected''"
| "reason_name R_condition_blocked = ''condition_blocked''"
| "reason_name R_dependency_unsatisfied = ''dependency_unsatisfied''"
| "reason_name R_cancel_requested = ''cancel_requested''"
| "reason_name R_cancellation_settled = ''cancellation_settled''"
| "reason_name R_deadline_exceeded = ''deadline_exceeded''"
| "reason_name R_manual_rerun = ''manual_rerun''"
| "reason_name R_pipeline_cancelled = ''pipeline_cancelled''"
| "reason_name R_recovery_proposed = ''recovery_proposed''"
| "reason_name R_recovery_approved = ''recovery_approved''"
| "reason_name R_recovery_rejected = ''recovery_rejected''"
| "reason_name R_repair_exhausted = ''repair_exhausted''"
| "reason_name R_unchanged_failure_exhausted = ''unchanged_failure_exhausted''"

lemma state_name_inject [simp]: "state_name a = state_name b \<longleftrightarrow> a = b"
  by (cases a; cases b; simp)

lemma in_stage_state_values [simp]: "s \<in> set stage_state_values"
  by (cases s) (simp_all add: stage_state_values_def)

text \<open>States are strings in the source, so \<open>sort()\<close> orders them by name.\<close>

instantiation stage_state :: linorder
begin

definition less_eq_stage_state :: "stage_state \<Rightarrow> stage_state \<Rightarrow> bool" where
  "a \<le> b \<longleftrightarrow> state_name a \<le> state_name b"

definition less_stage_state :: "stage_state \<Rightarrow> stage_state \<Rightarrow> bool" where
  "(a::stage_state) < b \<longleftrightarrow> state_name a < state_name b"

instance
proof
  fix a b c :: stage_state
  show "a < b \<longleftrightarrow> a \<le> b \<and> \<not> b \<le> a"
    by (simp add: less_eq_stage_state_def less_stage_state_def less_le_not_le)
  show "a \<le> a" by (simp add: less_eq_stage_state_def)
  show "a \<le> b \<Longrightarrow> b \<le> c \<Longrightarrow> a \<le> c" by (simp add: less_eq_stage_state_def)
  show "a \<le> b \<Longrightarrow> b \<le> a \<Longrightarrow> a = b" by (simp add: less_eq_stage_state_def)
  show "a \<le> b \<or> b \<le> a" by (auto simp: less_eq_stage_state_def)
qed

end

section \<open>The table of permitted transitions\<close>

record permitted_transition =
  pt_from :: stage_state
  pt_to :: stage_state
  pt_reasons :: "transition_reason list"

definition permitted :: "stage_state \<Rightarrow> stage_state \<Rightarrow> transition_reason list \<Rightarrow> permitted_transition" where
  "permitted a b rs = \<lparr>pt_from = a, pt_to = b, pt_reasons = rs\<rparr>"

definition PERMITTED_TRANSITIONS :: "permitted_transition list" where
  "PERMITTED_TRANSITIONS =
    [permitted S_pending S_ready [R_dependencies_satisfied, R_root_eligible],
     permitted S_pending S_cancelled
       [R_condition_not_selected, R_cancel_requested, R_pipeline_cancelled, R_deadline_exceeded],
     permitted S_pending S_blocked [R_condition_blocked, R_dependency_unsatisfied],
     permitted S_ready S_queued [R_dispatch_intent],
     permitted S_ready S_cancelled
       [R_cancel_requested, R_pipeline_cancelled, R_deadline_exceeded, R_condition_not_selected],
     permitted S_ready S_blocked [R_condition_blocked, R_dependency_unsatisfied, R_deadline_exceeded],
     permitted S_queued S_running [R_attempt_started],
     permitted S_queued S_cancelled [R_cancellation_settled],
     permitted S_running S_waiting [R_attempt_waiting],
     permitted S_running S_succeeded [R_attempt_succeeded],
     permitted S_running S_failed [R_attempt_failed, R_retry_exhausted],
     permitted S_running S_retrying [R_retry_scheduled],
     permitted S_running S_cancelled [R_cancellation_settled],
     permitted S_running S_blocked [R_condition_blocked],
     permitted S_waiting S_running [R_attempt_started],
     permitted S_waiting S_succeeded [R_attempt_succeeded],
     permitted S_waiting S_failed [R_attempt_failed, R_retry_exhausted],
     permitted S_waiting S_retrying [R_retry_scheduled],
     permitted S_waiting S_cancelled [R_cancellation_settled],
     permitted S_waiting S_blocked [R_condition_blocked],
     permitted S_waiting S_waiting [R_attempt_waiting],
     permitted S_retrying S_ready [R_retry_scheduled],
     permitted S_retrying S_failed [R_retry_exhausted],
     permitted S_retrying S_cancelled [R_cancel_requested, R_pipeline_cancelled, R_deadline_exceeded],
     permitted S_succeeded S_pending [R_manual_rerun],
     permitted S_failed S_pending [R_manual_rerun],
     permitted S_cancelled S_pending [R_manual_rerun],
     permitted S_blocked S_pending [R_manual_rerun]]"

text \<open>
  \<open>REASON_INDEX\<close> maps the key \<open>from->to\<close> to the set of its reasons, merging the entries
  of the table that share a key.
\<close>

definition transition_key :: "stage_state \<Rightarrow> stage_state \<Rightarrow> string" where
  "transition_key a b = state_name a @ ''->'' @ state_name b"

definition index_entry ::
  "permitted_transition \<Rightarrow> (string, transition_reason list) jsmap \<Rightarrow> (string, transition_reason list) jsmap" where
  "index_entry e m =
     (let key = transition_key (pt_from e) (pt_to e);
          reasons = (case map_of m key of Some rs \<Rightarrow> rs | None \<Rightarrow> [])
      in AList.update key (fold js_add (pt_reasons e) reasons) m)"

definition REASON_INDEX :: "(string, transition_reason list) jsmap" where
  "REASON_INDEX = fold index_entry PERMITTED_TRANSITIONS []"

definition transitionAdjacency :: "(stage_state, stage_state list) jsmap" where
  "transitionAdjacency =
     (let m0 = js_map_of (map (\<lambda>s. (s, [])) stage_state_values);
          m = fold (\<lambda>e m. AList.update (pt_from e)
                (js_add (pt_to e) (case map_of m (pt_from e) of Some ts \<Rightarrow> ts | None \<Rightarrow> [])) m)
              PERMITTED_TRANSITIONS m0
      in map (\<lambda>s. (s, sort (case map_of m s of Some ts \<Rightarrow> ts | None \<Rightarrow> []))) stage_state_values)"

definition isPermittedTransition :: "stage_state \<Rightarrow> stage_state \<Rightarrow> transition_reason \<Rightarrow> bool" where
  "isPermittedTransition a b r =
     (case map_of REASON_INDEX (transition_key a b) of None \<Rightarrow> False | Some rs \<Rightarrow> r \<in> set rs)"

text \<open>The arrow of the message (U+2192) is written \<open>->\<close> in the model.\<close>

definition assertPermittedTransition ::
  "stage_state \<Rightarrow> stage_state \<Rightarrow> transition_reason \<Rightarrow> unit res" where
  "assertPermittedTransition a b r =
     (if isPermittedTransition a b r then Inr ()
      else Inl (Thrown (''undeclared transition '' @ state_name a @ '' -> '' @ state_name b @
             '' ('' @ reason_name r @ '')'')))"

section \<open>The index decides the table\<close>

lemma state_name_no_dash: "CHR ''-'' \<notin> set (state_name a)"
  by (cases a) simp_all

lemma transition_key_inject [simp]:
  "transition_key a b = transition_key c d \<longleftrightarrow> a = c \<and> b = d"
proof
  assume eq: "transition_key a b = transition_key c d"
  have "takeWhile (\<lambda>ch. ch \<noteq> CHR ''-'') (transition_key a b) = state_name a" for a b
    unfolding transition_key_def
    by (subst takeWhile_append2) (use state_name_no_dash in auto)
  with eq have "a = c" by (metis state_name_inject)
  with eq show "a = c \<and> b = d" by (simp add: transition_key_def)
qed simp

lemma reason_index_fold:
  "r \<in> set (case map_of (fold index_entry es m) (transition_key a b) of None \<Rightarrow> [] | Some rs \<Rightarrow> rs) \<longleftrightarrow>
   r \<in> set (case map_of m (transition_key a b) of None \<Rightarrow> [] | Some rs \<Rightarrow> rs) \<or>
   (\<exists>e \<in> set es. pt_from e = a \<and> pt_to e = b \<and> r \<in> set (pt_reasons e))"
proof (induction es arbitrary: m)
  case Nil
  then show ?case by simp
next
  case (Cons e es)
  show ?case
    unfolding fold_Cons comp_apply Cons.IH
    by (auto simp: index_entry_def Let_def jm.get_put set_fold_js_add split: option.splits)
qed

lemma isPermittedTransition_table:
  "isPermittedTransition a b r \<longleftrightarrow>
   (\<exists>e \<in> set PERMITTED_TRANSITIONS. pt_from e = a \<and> pt_to e = b \<and> r \<in> set (pt_reasons e))"
proof -
  have "isPermittedTransition a b r \<longleftrightarrow>
      r \<in> set (case map_of REASON_INDEX (transition_key a b) of None \<Rightarrow> [] | Some rs \<Rightarrow> rs)"
    by (simp add: isPermittedTransition_def split: option.splits)
  also have "\<dots> \<longleftrightarrow> (\<exists>e \<in> set PERMITTED_TRANSITIONS. pt_from e = a \<and> pt_to e = b \<and> r \<in> set (pt_reasons e))"
    unfolding REASON_INDEX_def reason_index_fold by simp
  finally show ?thesis .
qed

lemma permitted_iff:
  "isPermittedTransition a b r \<longleftrightarrow>
   (a, b, r) \<in> set (concat (map (\<lambda>e. map (\<lambda>r. (pt_from e, pt_to e, r)) (pt_reasons e)) PERMITTED_TRANSITIONS))"
  unfolding isPermittedTransition_table by force

lemma permitted_table:
  "isPermittedTransition a b r \<longleftrightarrow> (a, b, r) \<in>
    {(S_pending, S_ready, R_dependencies_satisfied), (S_pending, S_ready, R_root_eligible),
     (S_pending, S_cancelled, R_condition_not_selected), (S_pending, S_cancelled, R_cancel_requested),
     (S_pending, S_cancelled, R_pipeline_cancelled), (S_pending, S_cancelled, R_deadline_exceeded),
     (S_pending, S_blocked, R_condition_blocked), (S_pending, S_blocked, R_dependency_unsatisfied),
     (S_ready, S_queued, R_dispatch_intent),
     (S_ready, S_cancelled, R_cancel_requested), (S_ready, S_cancelled, R_pipeline_cancelled),
     (S_ready, S_cancelled, R_deadline_exceeded), (S_ready, S_cancelled, R_condition_not_selected),
     (S_ready, S_blocked, R_condition_blocked), (S_ready, S_blocked, R_dependency_unsatisfied),
     (S_ready, S_blocked, R_deadline_exceeded),
     (S_queued, S_running, R_attempt_started), (S_queued, S_cancelled, R_cancellation_settled),
     (S_running, S_waiting, R_attempt_waiting), (S_running, S_succeeded, R_attempt_succeeded),
     (S_running, S_failed, R_attempt_failed), (S_running, S_failed, R_retry_exhausted),
     (S_running, S_retrying, R_retry_scheduled), (S_running, S_cancelled, R_cancellation_settled),
     (S_running, S_blocked, R_condition_blocked),
     (S_waiting, S_running, R_attempt_started), (S_waiting, S_succeeded, R_attempt_succeeded),
     (S_waiting, S_failed, R_attempt_failed), (S_waiting, S_failed, R_retry_exhausted),
     (S_waiting, S_retrying, R_retry_scheduled), (S_waiting, S_cancelled, R_cancellation_settled),
     (S_waiting, S_blocked, R_condition_blocked), (S_waiting, S_waiting, R_attempt_waiting),
     (S_retrying, S_ready, R_retry_scheduled), (S_retrying, S_failed, R_retry_exhausted),
     (S_retrying, S_cancelled, R_cancel_requested), (S_retrying, S_cancelled, R_pipeline_cancelled),
     (S_retrying, S_cancelled, R_deadline_exceeded),
     (S_succeeded, S_pending, R_manual_rerun), (S_failed, S_pending, R_manual_rerun),
     (S_cancelled, S_pending, R_manual_rerun), (S_blocked, S_pending, R_manual_rerun)}"
  unfolding permitted_iff PERMITTED_TRANSITIONS_def permitted_def by simp

lemma assertPermitted_Inr [simp]:
  "assertPermittedTransition a b r = Inr u \<longleftrightarrow> isPermittedTransition a b r"
  by (simp add: assertPermittedTransition_def)

text \<open>
  The lookup in the index agrees with the declared table; a terminal state is left only by
  a manual rerun, back to \<open>pending\<close>, and a manual rerun is permitted from terminal states only.
\<close>

theorem terminal_left_only_by_rerun:
  "(isPermittedTransition a b r \<longleftrightarrow>
     (\<exists>e. e \<in> set PERMITTED_TRANSITIONS \<and> pt_from e = a \<and> pt_to e = b \<and> r \<in> set (pt_reasons e)))
   \<and> (isPermittedTransition a b r \<and> (isTerminalStageState a \<or> b = S_pending \<or> r = R_manual_rerun)
      \<longleftrightarrow> isTerminalStageState a \<and> b = S_pending \<and> r = R_manual_rerun)"
proof
  show "isPermittedTransition a b r \<longleftrightarrow>
     (\<exists>e. e \<in> set PERMITTED_TRANSITIONS \<and> pt_from e = a \<and> pt_to e = b \<and> r \<in> set (pt_reasons e))"
    using isPermittedTransition_table by blast
  show "isPermittedTransition a b r \<and> (isTerminalStageState a \<or> b = S_pending \<or> r = R_manual_rerun)
      \<longleftrightarrow> isTerminalStageState a \<and> b = S_pending \<and> r = R_manual_rerun"
    by (cases a) (auto simp: permitted_table)
qed

section \<open>Derived identities\<close>

text \<open>\<open>scheduler/ids.ts\<close>: every identity is a rendering of its coordinates.\<close>

definition edgeKey :: "string \<Rightarrow> string \<Rightarrow> string" where
  "edgeKey fromStageId toStageId = fromStageId @ ''->'' @ toStageId"

definition deriveAttemptId :: "string \<Rightarrow> nat \<Rightarrow> string \<Rightarrow> nat \<Rightarrow> nat \<Rightarrow> string" where
  "deriveAttemptId runId graphRevision stageId generation attemptOrdinal =
     ''pa:'' @ runId @ '':'' @ show_nat graphRevision @ '':'' @ stageId @ '':'' @
     show_nat generation @ '':'' @ show_nat attemptOrdinal"

definition deriveDecisionId :: "string \<Rightarrow> nat \<Rightarrow> string \<Rightarrow> nat \<Rightarrow> nat \<Rightarrow> string \<Rightarrow> string" where
  "deriveDecisionId runId graphRevision stageId generation attemptOrdinal action =
     ''pd:'' @ runId @ '':'' @ show_nat graphRevision @ '':'' @ stageId @ '':'' @
     show_nat generation @ '':'' @ show_nat attemptOrdinal @ '':'' @ action"

datatype intent_kind = K_dispatch | K_cancel | K_evaluator | K_recovery_dispatch

fun intent_kind_name :: "intent_kind \<Rightarrow> string" where
  "intent_kind_name K_dispatch = ''dispatch''"
| "intent_kind_name K_cancel = ''cancel''"
| "intent_kind_name K_evaluator = ''evaluator''"
| "intent_kind_name K_recovery_dispatch = ''recovery_dispatch''"

definition deriveIntentId :: "string \<Rightarrow> nat \<Rightarrow> intent_kind \<Rightarrow> string \<Rightarrow> string" where
  "deriveIntentId runId graphRevision kind key =
     ''pi:'' @ runId @ '':'' @ show_nat graphRevision @ '':'' @ intent_kind_name kind @ '':'' @ key"

definition deriveRecoveryDecisionId :: "string \<Rightarrow> nat \<Rightarrow> string \<Rightarrow> nat \<Rightarrow> nat \<Rightarrow> string \<Rightarrow> string" where
  "deriveRecoveryDecisionId runId graphRevision stageId generation attemptOrdinal action =
     ''prd:'' @ runId @ '':'' @ show_nat graphRevision @ '':'' @ stageId @ '':'' @
     show_nat generation @ '':'' @ show_nat attemptOrdinal @ '':'' @ action"

definition coordinate_key :: "string \<Rightarrow> nat \<Rightarrow> nat \<Rightarrow> string" where
  "coordinate_key stageId generation attemptOrdinal =
     stageId @ '':'' @ show_nat generation @ '':'' @ show_nat attemptOrdinal"

lemma coordinate_key_inject [simp]:
  "coordinate_key s g a = coordinate_key s' g' a' \<longleftrightarrow> s = s' \<and> g = g' \<and> a = a'"
proof
  assume "coordinate_key s g a = coordinate_key s' g' a'"
  then have "(s @ '':'' @ show_nat g) @ '':'' @ show_nat a =
      (s' @ '':'' @ show_nat g') @ '':'' @ show_nat a'"
    by (simp add: coordinate_key_def)
  from colon_suffix_inject [OF this show_nat_no_colon show_nat_no_colon]
  have "s @ '':'' @ show_nat g = s' @ '':'' @ show_nat g'" "a = a'" by simp_all
  with colon_suffix_inject [OF this(1) show_nat_no_colon show_nat_no_colon]
  show "s = s' \<and> g = g' \<and> a = a'" by simp
qed simp

lemma intent_kind_name_no_colon: "CHR '':'' \<notin> set (intent_kind_name k)"
  by (cases k) simp_all

lemma intent_kind_name_inject [simp]: "intent_kind_name k = intent_kind_name k' \<longleftrightarrow> k = k'"
  by (cases k; cases k') simp_all

lemma deriveIntentId_inject:
  "deriveIntentId runId gr k key = deriveIntentId runId gr k' key' \<longleftrightarrow> k = k' \<and> key = key'"
proof
  assume "deriveIntentId runId gr k key = deriveIntentId runId gr k' key'"
  then have eq: "intent_kind_name k @ CHR '':'' # key = intent_kind_name k' @ CHR '':'' # key'"
    by (simp add: deriveIntentId_def)
  have "takeWhile (\<lambda>c. c \<noteq> CHR '':'') (intent_kind_name k @ CHR '':'' # key) = intent_kind_name k" for k key
    by (subst takeWhile_append2) (use intent_kind_name_no_colon in auto)
  with eq have "k = k'" by (metis intent_kind_name_inject)
  with eq show "k = k' \<and> key = key'" by simp
qed simp

lemma deriveAttemptId_coordinate:
  "deriveAttemptId runId gr s g a = ''pa:'' @ runId @ '':'' @ show_nat gr @ '':'' @ coordinate_key s g a"
  by (simp add: deriveAttemptId_def coordinate_key_def)

lemma deriveAttemptId_inject:
  "deriveAttemptId runId gr s g a = deriveAttemptId runId gr s' g' a' \<longleftrightarrow> s = s' \<and> g = g' \<and> a = a'"
  by (simp add: deriveAttemptId_coordinate)

end
