(* ===== verification/Recovery.thy ===== *)
theory Recovery
  imports Json Transitions "HOL-Library.Multiset"
begin

text \<open>
  The recovery policy of the pipeline package (\<open>packages/pipeline/src/recovery\<close>):
  \<open>classify.ts\<close> maps runner failures to policy categories, \<open>limits.ts\<close> resolves budgets,
  \<open>signature.ts\<close> fingerprints a failure and \<open>decide.ts\<close> turns a failure, the counters and
  the budget into the next action. SHA-256 (\<open>node:crypto\<close>) is a field of the \<open>platform\<close> argument.
  The lemmas give the classification's upper bound on retries, the minimum rule for budgets,
  what a digest identifies, and that repairs are bounded by the budget.
\<close>

section \<open>Failure classification\<close>

datatype failure_category = Transient | Provider | Validation | Conflict | Security | Terminal

fun category_name :: "failure_category \<Rightarrow> string" where
  "category_name Transient = ''transient''"
| "category_name Provider = ''provider''"
| "category_name Validation = ''validation''"
| "category_name Conflict = ''conflict''"
| "category_name Security = ''security''"
| "category_name Terminal = ''terminal''"

record classify_input =
  ci_classification :: string
  ci_phase :: string
  ci_code :: string
  ci_retryable :: bool
  ci_backendClassification :: "string option"
  ci_validationFailures :: "string list option"

record pipeline_failure =
  pf_category :: failure_category
  pf_classification :: string
  pf_phase :: string
  pf_code :: string
  pf_retryable :: bool
  pf_runnerRetryable :: bool
  pf_backendClassification :: "string option"
  pf_validationFailures :: "string list option"

definition PROVIDER_BACKEND :: "string list" where
  "PROVIDER_BACKEND = [''account_unavailable'', ''profile_unavailable'', ''model_unavailable'',
     ''engine_unavailable'', ''provider_throttled'', ''context_capacity_exhausted'']"

definition SECURITY_BACKEND :: "string list" where
  "SECURITY_BACKEND = [''authentication_failed'', ''permission_denied'']"

definition TERMINAL_BACKEND :: "string list" where
  "TERMINAL_BACKEND = [''hard_limit_exceeded'', ''cancelled'', ''invalid_request'', ''ambiguous'', ''unknown'']"

definition CONFLICT_CLASS :: "string list" where
  "CONFLICT_CLASS = [''stale_revision'', ''stale_sha'', ''merge_conflict'', ''reconciliation_required'']"

definition VALIDATION_CLASS :: "string list" where
  "VALIDATION_CLASS = [''validation_failed'', ''collection_failed'', ''finalize_failed'']"

definition TRANSIENT_CLASS :: "string list" where
  "TRANSIENT_CLASS = [''timeout'', ''process_failed'', ''prepare_failed'', ''start_failed'',
     ''workspace_failed'', ''recovery_required'', ''operation_failed'']"

definition TERMINAL_CLASS :: "string list" where
  "TERMINAL_CLASS = [''cancelled'', ''rejected'', ''unknown'', ''malformed_contract'']"

definition backend_in :: "string option \<Rightarrow> string list \<Rightarrow> bool" where
  "backend_in b xs = (case b of None \<Rightarrow> False | Some x \<Rightarrow> x \<in> set xs)"

definition mapCategory :: "classify_input \<Rightarrow> failure_category" where
  "mapCategory input =
     (let backend = ci_backendClassification input; classification = ci_classification input in
      if backend_in backend SECURITY_BACKEND then Security
      else if backend_in backend TERMINAL_BACKEND then Terminal
      else if classification \<in> set TERMINAL_CLASS then Terminal
      else if classification \<in> set CONFLICT_CLASS then Conflict
      else if classification \<in> set VALIDATION_CLASS then Validation
      else if classification = ''profile_failed'' \<or> classification = ''forge_failed''
              \<or> classification = ''backend_failed'' \<and> backend_in backend PROVIDER_BACKEND then Provider
      else if classification \<in> set TRANSIENT_CLASS
              \<or> classification = ''backend_failed'' \<and>
                (backend = None \<or> \<not> backend_in backend PROVIDER_BACKEND \<and> \<not> backend_in backend SECURITY_BACKEND)
           then Transient
      else Terminal)"

definition classifyFailure :: "classify_input \<Rightarrow> pipeline_failure" where
  "classifyFailure input =
     (let category = mapCategory input; runnerRetryable = ci_retryable input in
      \<lparr>pf_category = category,
       pf_classification = ci_classification input,
       pf_phase = ci_phase input,
       pf_code = ci_code input,
       pf_retryable = runnerRetryable \<and> category \<noteq> Security \<and> category \<noteq> Terminal,
       pf_runnerRetryable = runnerRetryable,
       pf_backendClassification = ci_backendClassification input,
       pf_validationFailures = ci_validationFailures input\<rparr>)"

section \<open>Limits\<close>

record repair_budget_input =
  rb_pipelineMaxRepairAttempts :: "nat option"
  rb_stageMaxRepairAttempts :: "nat option"
  rb_validationMaxAttempts :: "nat option"
  rb_effectiveMaxRepairAttempts :: "nat option"

definition opt_list :: "'a option \<Rightarrow> 'a list" where
  "opt_list x = (case x of None \<Rightarrow> [] | Some v \<Rightarrow> [v])"

fun math_min :: "nat list \<Rightarrow> nat" where
  "math_min [] = 0"
| "math_min [x] = x"
| "math_min (x # y # ys) = min x (math_min (y # ys))"

definition resolveRepairBudget :: "repair_budget_input \<Rightarrow> nat" where
  "resolveRepairBudget input =
     (let candidates = opt_list (rb_effectiveMaxRepairAttempts input)
                     @ opt_list (rb_stageMaxRepairAttempts input)
                     @ opt_list (rb_pipelineMaxRepairAttempts input)
                     @ opt_list (rb_validationMaxAttempts input)
      in if candidates = [] then 0 else math_min candidates)"

definition resolveEffectiveConcurrency :: "nat option \<Rightarrow> nat option \<Rightarrow> nat option" where
  "resolveEffectiveConcurrency effectiveMax pipelineMax =
     (let candidates = opt_list effectiveMax @ opt_list pipelineMax
      in if candidates = [] then None else Some (math_min candidates))"

section \<open>Failure signatures\<close>

record failure_signature =
  fs_digest :: string
  fs_category :: failure_category
  fs_classification :: string
  fs_phase :: string
  fs_code :: string
  fs_backendClassification :: "string option"
  fs_validationFailures :: "string list option"

definition signature_payload :: "pipeline_failure \<Rightarrow> string list option \<Rightarrow> json" where
  "signature_payload failure validationFailures =
     JObj ([(''category'', JStr (category_name (pf_category failure))),
            (''classification'', JStr (pf_classification failure)),
            (''phase'', JStr (pf_phase failure)),
            (''code'', JStr (pf_code failure))]
         @ (case pf_backendClassification failure of None \<Rightarrow> []
            | Some b \<Rightarrow> [(''backendClassification'', JStr b)])
         @ (case validationFailures of None \<Rightarrow> []
            | Some vs \<Rightarrow> [(''validationFailures'', JArr (map JStr vs))]))"

definition buildFailureSignature :: "platform \<Rightarrow> pipeline_failure \<Rightarrow> failure_signature" where
  "buildFailureSignature pl failure =
     (let validationFailures = map_option sort (pf_validationFailures failure);
          payload = signature_payload failure validationFailures
      in \<lparr>fs_digest = sha256 pl (canonicalStringify pl payload),
          fs_category = pf_category failure,
          fs_classification = pf_classification failure,
          fs_phase = pf_phase failure,
          fs_code = pf_code failure,
          fs_backendClassification = pf_backendClassification failure,
          fs_validationFailures = validationFailures\<rparr>)"

section \<open>Recovery decisions\<close>

datatype stage_type = T_agent | T_command | T_approval | T_integration | T_verify | T_publish
datatype session_policy = Fresh | Resume
datatype execution_mode = Autonomous | Hitl
datatype retry_mode = M_fresh | M_resume | M_delegate
datatype validation_strategy = V_pause | V_fail | V_repair | V_repair_fresh | V_delegate

record retry_directive =
  rd_mode :: retry_mode
  rd_sessionPolicy :: session_policy
  rd_priorAttemptId :: "string option"
  rd_priorBackendExecutionId :: "string option"
  rd_delegateTo :: "string option"
  rd_recoveryContextDigest :: "string option"

record recovery_counters =
  rc_repairsUsed :: nat
  rc_lastSignatureDigest :: "string option"
  rc_identicalSignatureCount :: nat
  rc_pendingProposalId :: "string option"
  rc_pendingDirective :: "retry_directive option"

record validation_policy =
  vp_strategy :: validation_strategy
  vp_session :: "session_policy option"
  vp_maxAttempts :: "nat option"
  vp_delegateTo :: "string option"

record decide_input =
  di_runId :: string
  di_stageId :: string
  di_graphRevision :: nat
  di_generation :: nat
  di_attemptOrdinal :: nat
  di_now :: string
  di_failure :: pipeline_failure
  di_stageType :: stage_type
  di_sessionPolicy :: "session_policy option"
  di_onValidationFailure :: "validation_policy option"
  di_executionMode :: execution_mode
  di_counters :: recovery_counters
  di_repairBudget :: nat
  di_priorAttemptId :: "string option"
  di_priorBackendExecutionId :: "string option"
  di_resumeAvailable :: bool

datatype recovery_action = RA_propose | RA_approve | RA_reject | RA_dispatch | RA_block | RA_fail | RA_exhaust

fun recovery_action_name :: "recovery_action \<Rightarrow> string" where
  "recovery_action_name RA_propose = ''propose''"
| "recovery_action_name RA_approve = ''approve''"
| "recovery_action_name RA_reject = ''reject''"
| "recovery_action_name RA_dispatch = ''dispatch''"
| "recovery_action_name RA_block = ''block''"
| "recovery_action_name RA_fail = ''fail''"
| "recovery_action_name RA_exhaust = ''exhaust''"

datatype recovery_outcome = OC_pause | OC_fail | OC_repair | OC_repair_fresh | OC_delegate
  | OC_exhausted | OC_unchanged_exhausted | OC_rejected | OC_blocked

record recovery_decision =
  rec_decisionId :: string
  rec_runId :: string
  rec_stageId :: string
  rec_graphRevision :: nat
  rec_generation :: nat
  rec_attemptOrdinal :: nat
  rec_action :: recovery_action
  rec_outcome :: recovery_outcome
  rec_failure :: "pipeline_failure option"
  rec_signature :: "failure_signature option"
  rec_directive :: "retry_directive option"
  rec_proposalId :: "string option"
  rec_repairsUsed :: nat
  rec_repairBudget :: nat
  rec_identicalSignatureCount :: nat
  rec_detail :: "string option"
  rec_recordedAt :: string

datatype fail_reason = FR_attempt_failed | FR_repair_exhausted | FR_unchanged_failure_exhausted | FR_recovery_rejected
datatype block_reason = BR_condition_blocked | BR_resume_unavailable | BR_pause
datatype retry_reason = RR_retry_scheduled | RR_recovery_approved

datatype decide_result =
    D_fail fail_reason recovery_decision recovery_counters
  | D_block block_reason string recovery_decision recovery_counters
  | D_propose retry_directive recovery_decision recovery_counters
  | D_retry retry_reason retry_directive recovery_decision recovery_counters

fun result_decision :: "decide_result \<Rightarrow> recovery_decision" where
  "result_decision (D_fail _ d _) = d"
| "result_decision (D_block _ _ d _) = d"
| "result_decision (D_propose _ d _) = d"
| "result_decision (D_retry _ _ d _) = d"

fun result_counters :: "decide_result \<Rightarrow> recovery_counters" where
  "result_counters (D_fail _ _ c) = c"
| "result_counters (D_block _ _ _ c) = c"
| "result_counters (D_propose _ _ c) = c"
| "result_counters (D_retry _ _ _ c) = c"

definition deriveProposalId :: "decide_input \<Rightarrow> string" where
  "deriveProposalId input =
     ''prp:'' @ di_runId input @ '':'' @ show_nat (di_graphRevision input) @ '':'' @ di_stageId input @ '':'' @
     show_nat (di_generation input) @ '':'' @ show_nat (di_attemptOrdinal input)"

definition updateSignatureCounters :: "recovery_counters \<Rightarrow> string \<Rightarrow> recovery_counters" where
  "updateSignatureCounters counters digest =
     counters\<lparr>rc_lastSignatureDigest := Some digest,
       rc_identicalSignatureCount :=
         (if rc_lastSignatureDigest counters = Some digest
          then rc_identicalSignatureCount counters + 1 else 1)\<rparr>"

definition buildDecision ::
  "decide_input \<Rightarrow> recovery_action \<Rightarrow> recovery_outcome \<Rightarrow> failure_signature \<Rightarrow> recovery_counters \<Rightarrow>
   retry_directive option \<Rightarrow> string option \<Rightarrow> string option \<Rightarrow> recovery_decision" where
  "buildDecision input action outcome signature counters directive proposalId detail =
     \<lparr>rec_decisionId = deriveRecoveryDecisionId (di_runId input) (di_graphRevision input) (di_stageId input)
        (di_generation input) (di_attemptOrdinal input) (recovery_action_name action),
      rec_runId = di_runId input,
      rec_stageId = di_stageId input,
      rec_graphRevision = di_graphRevision input,
      rec_generation = di_generation input,
      rec_attemptOrdinal = di_attemptOrdinal input,
      rec_action = action,
      rec_outcome = outcome,
      rec_failure = Some (di_failure input),
      rec_signature = Some signature,
      rec_directive = directive,
      rec_proposalId = proposalId,
      rec_repairsUsed = rc_repairsUsed counters,
      rec_repairBudget = di_repairBudget input,
      rec_identicalSignatureCount = rc_identicalSignatureCount counters,
      rec_detail = detail,
      rec_recordedAt = di_now input\<rparr>"

record strategy =
  sp_outcome :: recovery_outcome
  sp_mode :: retry_mode
  sp_sessionPolicy :: session_policy
  sp_delegateTo :: "string option"

text \<open>\<open>Inl\<close> is the source's \<open>ok: false\<close> with its result, \<open>Inr\<close> the chosen strategy.\<close>

definition planValidationStrategy ::
  "decide_input \<Rightarrow> failure_signature \<Rightarrow> recovery_counters \<Rightarrow> decide_result + strategy" where
  "planValidationStrategy input signature counters =
     (case di_onValidationFailure input of
        None \<Rightarrow> Inl (D_fail FR_attempt_failed
          (buildDecision input RA_fail OC_fail signature counters None None
             (Some ''missing_on_validation_failure_policy'')) counters)
      | Some policy \<Rightarrow>
         (case vp_strategy policy of
            V_pause \<Rightarrow> Inl (D_block BR_pause ''validation_pause''
              (buildDecision input RA_block OC_pause signature counters None None (Some ''validation_pause'')) counters)
          | V_fail \<Rightarrow> Inl (D_fail FR_attempt_failed
              (buildDecision input RA_fail OC_fail signature counters None None None) counters)
          | V_repair \<Rightarrow> Inr \<lparr>sp_outcome = OC_repair, sp_mode = M_resume,
              sp_sessionPolicy = (case vp_session policy of None \<Rightarrow> Resume | Some s \<Rightarrow> s), sp_delegateTo = None\<rparr>
          | V_repair_fresh \<Rightarrow> Inr \<lparr>sp_outcome = OC_repair_fresh, sp_mode = M_fresh,
              sp_sessionPolicy = Fresh, sp_delegateTo = None\<rparr>
          | V_delegate \<Rightarrow>
             (case vp_delegateTo policy of
                Some target \<Rightarrow>
                  if target = [] then Inl (D_fail FR_attempt_failed
                    (buildDecision input RA_fail OC_fail signature counters None None (Some ''missing_delegate_to'')) counters)
                  else Inr \<lparr>sp_outcome = OC_delegate, sp_mode = M_delegate, sp_sessionPolicy = Fresh,
                    sp_delegateTo = Some target\<rparr>
              | None \<Rightarrow> Inl (D_fail FR_attempt_failed
                  (buildDecision input RA_fail OC_fail signature counters None None (Some ''missing_delegate_to'')) counters))))"

definition planNonValidationStrategy :: "decide_input \<Rightarrow> strategy" where
  "planNonValidationStrategy input =
     (if di_stageType input = T_agent then
        (let sessionPolicy = (case di_sessionPolicy input of None \<Rightarrow> Fresh | Some s \<Rightarrow> s)
         in \<lparr>sp_outcome = (if sessionPolicy = Resume then OC_repair else OC_repair_fresh),
             sp_mode = (if sessionPolicy = Resume then M_resume else M_fresh),
             sp_sessionPolicy = sessionPolicy, sp_delegateTo = None\<rparr>)
      else \<lparr>sp_outcome = OC_repair_fresh, sp_mode = M_fresh, sp_sessionPolicy = Fresh, sp_delegateTo = None\<rparr>)"

definition buildDirective :: "decide_input \<Rightarrow> strategy \<Rightarrow> failure_signature \<Rightarrow> retry_directive" where
  "buildDirective input plan signature =
     \<lparr>rd_mode = sp_mode plan,
      rd_sessionPolicy = sp_sessionPolicy plan,
      rd_priorAttemptId = (if sp_mode plan = M_resume then di_priorAttemptId input else None),
      rd_priorBackendExecutionId = (if sp_mode plan = M_resume then di_priorBackendExecutionId input else None),
      rd_delegateTo = sp_delegateTo plan,
      rd_recoveryContextDigest = Some (fs_digest signature)\<rparr>"

definition decideRecovery :: "platform \<Rightarrow> decide_input \<Rightarrow> decide_result" where
  "decideRecovery pl input =
     (let signature = buildFailureSignature pl (di_failure input);
          counters = updateSignatureCounters (di_counters input) (fs_digest signature);
          failure = di_failure input
      in if pf_category failure = Security \<or> pf_category failure = Terminal \<or> \<not> pf_retryable failure
         then D_fail FR_attempt_failed
           (buildDecision input RA_fail OC_fail signature counters None None None) counters
         else if di_repairBudget input = 0 \<or> di_repairBudget input \<le> rc_repairsUsed counters
         then D_fail FR_repair_exhausted
           (buildDecision input RA_exhaust OC_exhausted signature counters None None (Some ''repair_exhausted'')) counters
         else if di_repairBudget input \<le> rc_identicalSignatureCount counters
         then D_fail FR_unchanged_failure_exhausted
           (buildDecision input RA_exhaust OC_unchanged_exhausted signature counters None None
              (Some ''unchanged_failure_exhausted'')) counters
         else
           (case (if pf_category failure = Validation then planValidationStrategy input signature counters
                  else Inr (planNonValidationStrategy input)) of
              Inl result \<Rightarrow> result
            | Inr strategy \<Rightarrow>
                if sp_mode strategy = M_resume \<and> \<not> di_resumeAvailable input
                then D_block BR_resume_unavailable ''resume_unavailable''
                  (buildDecision input RA_block OC_blocked signature counters None None (Some ''resume_unavailable'')) counters
                else
                  (let directive = buildDirective input strategy signature in
                   if di_executionMode input = Hitl
                   then (let proposalId = deriveProposalId input;
                             nextCounters = counters\<lparr>rc_pendingProposalId := Some proposalId,
                                                     rc_pendingDirective := Some directive\<rparr>
                         in D_propose directive
                              (buildDecision input RA_propose (sp_outcome strategy) signature nextCounters
                                 (Some directive) (Some proposalId) None) nextCounters)
                   else (let nextCounters = counters\<lparr>rc_repairsUsed := rc_repairsUsed counters + 1,
                                                     rc_pendingProposalId := None,
                                                     rc_pendingDirective := Some directive\<rparr>
                         in D_retry RR_retry_scheduled directive
                              (buildDecision input RA_dispatch (sp_outcome strategy) signature nextCounters
                                 (Some directive) None None) nextCounters))))"

section \<open>What the classification allows\<close>

text \<open>
  The runner's \<open>retryable\<close> flag is an upper bound, and only a closed list of
  classifications survives: a failure stays retryable exactly when the runner allows it, the
  backend class is neither a security nor a terminal one, and the classification is a conflict,
  a validation failure, a transient failure or one of the profile, forge and backend failures.
\<close>

theorem classifyFailure_retryable:
  "pf_retryable (classifyFailure i) \<longleftrightarrow>
     ci_retryable i
     \<and> \<not> backend_in (ci_backendClassification i) (SECURITY_BACKEND @ TERMINAL_BACKEND)
     \<and> ci_classification i \<in> set (CONFLICT_CLASS @ VALIDATION_CLASS @ TRANSIENT_CLASS @
          [''profile_failed'', ''forge_failed'', ''backend_failed''])"
proof -
  have disjoint: "c \<notin> set TERMINAL_CLASS"
    if "c \<in> set (CONFLICT_CLASS @ VALIDATION_CLASS @ TRANSIENT_CLASS @
          [''profile_failed'', ''forge_failed'', ''backend_failed''])" for c
    using that by (auto simp: CONFLICT_CLASS_def VALIDATION_CLASS_def TRANSIENT_CLASS_def TERMINAL_CLASS_def)
  have split: "backend_in b (xs @ ys) \<longleftrightarrow> backend_in b xs \<or> backend_in b ys" for b xs ys
    by (auto simp: backend_in_def split: option.splits)
  have category: "mapCategory i \<noteq> Security \<and> mapCategory i \<noteq> Terminal \<longleftrightarrow>
     \<not> backend_in (ci_backendClassification i) (SECURITY_BACKEND @ TERMINAL_BACKEND)
     \<and> ci_classification i \<in> set (CONFLICT_CLASS @ VALIDATION_CLASS @ TRANSIENT_CLASS @
          [''profile_failed'', ''forge_failed'', ''backend_failed''])"
    using disjoint [of "ci_classification i"] by (auto simp: mapCategory_def Let_def split)
  show ?thesis
    unfolding classifyFailure_def Let_def using category by simp
qed

section \<open>Budgets are minima\<close>

lemma math_min_Min: "xs \<noteq> [] \<Longrightarrow> math_min xs = Min (set xs)"
  by (induction xs rule: math_min.induct) auto

definition budget_candidates :: "repair_budget_input \<Rightarrow> nat set" where
  "budget_candidates i = {n. Some n \<in> {rb_pipelineMaxRepairAttempts i, rb_stageMaxRepairAttempts i,
     rb_validationMaxAttempts i, rb_effectiveMaxRepairAttempts i}}"

lemma set_opt_list [simp]: "set (opt_list x) = {n. x = Some n}"
  by (cases x) (auto simp: opt_list_def)

text \<open>
  The repair budget is the least of the declared limits, and zero when none is declared.
\<close>

theorem resolveRepairBudget_Min:
  "resolveRepairBudget i = (if budget_candidates i = {} then 0 else Min (budget_candidates i))"
proof -
  let ?cs = "opt_list (rb_effectiveMaxRepairAttempts i) @ opt_list (rb_stageMaxRepairAttempts i)
    @ opt_list (rb_pipelineMaxRepairAttempts i) @ opt_list (rb_validationMaxAttempts i)"
  have cs: "set ?cs = budget_candidates i"
    by (auto simp: budget_candidates_def)
  then have "?cs = [] \<longleftrightarrow> budget_candidates i = {}" by (metis set_empty)
  moreover have "math_min ?cs = Min (budget_candidates i)" if "?cs \<noteq> []"
    using math_min_Min [OF that] cs by simp
  ultimately show ?thesis by (simp add: resolveRepairBudget_def Let_def)
qed

section \<open>What a digest identifies\<close>

lemma category_name_inject [simp]: "category_name a = category_name b \<longleftrightarrow> a = b"
  by (cases a; cases b; simp)

definition validation_tail :: "string list option \<Rightarrow> string" where
  "validation_tail vs = (case vs of None \<Rightarrow> [CHR 0x7D]
     | Some vs \<Rightarrow> '','' @ json_quote ''validationFailures'' @ '':['' @ join_with '','' (map json_quote vs) @ '']'' @ [CHR 0x7D])"

definition backend_head :: "string option \<Rightarrow> string" where
  "backend_head b = (case b of None \<Rightarrow> []
     | Some b \<Rightarrow> json_quote ''backendClassification'' @ '':'' @ json_quote b @ '','')"

lemma payload_text:
  "canonicalStringify pl (signature_payload f vs) =
     CHR 0x7B # backend_head (pf_backendClassification f)
     @ json_quote ''category'' @ '':'' @ json_quote (category_name (pf_category f)) @ '',''
     @ json_quote ''classification'' @ '':'' @ json_quote (pf_classification f) @ '',''
     @ json_quote ''code'' @ '':'' @ json_quote (pf_code f) @ '',''
     @ json_quote ''phase'' @ '':'' @ json_quote (pf_phase f) @ validation_tail vs"
  by (simp add: signature_payload_def validation_tail_def backend_head_def comp_def split: option.splits)

lemma json_field_inject:
  assumes "json_quote k @ '':'' @ json_quote a @ '','' @ u = json_quote k @ '':'' @ json_quote b @ '','' @ v"
  shows "a = b \<and> u = v"
proof -
  from assms have "json_quote a @ '','' @ u = json_quote b @ '','' @ v" by simp
  from json_quote_inject [OF this] show ?thesis by simp
qed

lemma validation_tail_inject: "validation_tail vs = validation_tail ws \<Longrightarrow> vs = ws"
proof (cases vs; cases ws)
  fix v w
  assume "vs = Some v" "ws = Some w" "validation_tail vs = validation_tail ws"
  then have "join_with '','' (map json_quote v) @ '']'' @ [CHR 0x7D] = join_with '','' (map json_quote w) @ '']'' @ [CHR 0x7D]"
    by (simp add: validation_tail_def)
  from quoted_list_inject [OF this] \<open>vs = Some v\<close> \<open>ws = Some w\<close> show "vs = ws" by simp
qed (simp_all add: validation_tail_def)

lemma backend_head_inject:
  assumes "backend_head b @ json_quote ''category'' @ '':'' @ u = backend_head c @ json_quote ''category'' @ '':'' @ v"
  shows "b = c \<and> u = v"
proof (cases b; cases c)
  fix x y assume "b = Some x" "c = Some y"
  then have "json_quote ''backendClassification'' @ '':'' @ json_quote x @ '','' @ (json_quote ''category'' @ '':'' @ u)
      = json_quote ''backendClassification'' @ '':'' @ json_quote y @ '','' @ (json_quote ''category'' @ '':'' @ v)"
    using assms by (simp add: backend_head_def)
  from json_field_inject [OF this] \<open>b = Some x\<close> \<open>c = Some y\<close> show ?thesis by simp
next
  fix y assume "b = None" "c = Some y"
  then have "json_quote ''category'' @ ('':'' @ u) = json_quote ''backendClassification'' @
      ('':'' @ json_quote y @ '','' @ json_quote ''category'' @ '':'' @ v)"
    using assms by (simp add: backend_head_def)
  from json_quote_inject [OF this] show ?thesis by simp
next
  fix x assume "b = Some x" "c = None"
  then have "json_quote ''backendClassification'' @
      ('':'' @ json_quote x @ '','' @ json_quote ''category'' @ '':'' @ u) = json_quote ''category'' @ ('':'' @ v)"
    using assms by (simp add: backend_head_def)
  from json_quote_inject [OF this] show ?thesis by simp
qed (use assms in \<open>simp add: backend_head_def\<close>)

lemma payload_inject:
  assumes "canonicalStringify pl (signature_payload f vs) = canonicalStringify pl (signature_payload g ws)"
  shows "pf_category f = pf_category g \<and> pf_classification f = pf_classification g \<and> pf_code f = pf_code g
    \<and> pf_phase f = pf_phase g \<and> pf_backendClassification f = pf_backendClassification g \<and> vs = ws"
proof -
  let ?rest3 = "\<lambda>f vs. json_quote ''phase'' @ '':'' @ json_quote (pf_phase f) @ validation_tail vs"
  let ?rest2 = "\<lambda>f vs. json_quote ''code'' @ '':'' @ json_quote (pf_code f) @ '','' @ ?rest3 f vs"
  let ?rest1 = "\<lambda>f vs. json_quote ''classification'' @ '':'' @ json_quote (pf_classification f) @ '','' @ ?rest2 f vs"
  let ?cat = "\<lambda>f vs. json_quote (category_name (pf_category f)) @ '','' @ ?rest1 f vs"
  have "backend_head (pf_backendClassification f) @ json_quote ''category'' @ '':'' @ ?cat f vs
      = backend_head (pf_backendClassification g) @ json_quote ''category'' @ '':'' @ ?cat g ws"
    using assms unfolding payload_text by simp
  from backend_head_inject [OF this]
  have backend: "pf_backendClassification f = pf_backendClassification g" and cat: "?cat f vs = ?cat g ws" by auto
  from json_quote_inject [OF cat] have category: "pf_category f = pf_category g" and "?rest1 f vs = ?rest1 g ws" by auto
  from json_field_inject [OF this(2)] have cls: "pf_classification f = pf_classification g" and "?rest2 f vs = ?rest2 g ws" by auto
  from json_field_inject [OF this(2)] have code: "pf_code f = pf_code g" and "?rest3 f vs = ?rest3 g ws" by auto
  then have "json_quote (pf_phase f) @ validation_tail vs = json_quote (pf_phase g) @ validation_tail ws" by simp
  from json_quote_inject [OF this] backend category cls code show ?thesis
    by (auto dest: validation_tail_inject)
qed

lemma sort_eq_mset: "sort xs = sort ys \<longleftrightarrow> mset xs = mset (ys :: string list)"
  by (metis mset_sort properties_for_sort sorted_sort)

text \<open>
  As long as SHA-256 does not collide, two failures have the same digest exactly when they
  agree on category, classification, phase, code and backend class, and report the same
  validation failures with the same multiplicities in any order. Nothing volatile enters it.
\<close>

theorem digest_identifies_failure:
  assumes "inj (sha256 pl)"
  shows "fs_digest (buildFailureSignature pl f) = fs_digest (buildFailureSignature pl g) \<longleftrightarrow>
     pf_category f = pf_category g \<and> pf_classification f = pf_classification g
     \<and> pf_phase f = pf_phase g \<and> pf_code f = pf_code g
     \<and> pf_backendClassification f = pf_backendClassification g
     \<and> map_option mset (pf_validationFailures f) = map_option mset (pf_validationFailures g)"
proof -
  have sorts: "map_option sort x = map_option sort y \<longleftrightarrow> map_option mset x = map_option mset y"
    for x y :: "string list option"
    by (cases x; cases y) (auto simp: sort_eq_mset)
  have "fs_digest (buildFailureSignature pl f) = fs_digest (buildFailureSignature pl g) \<longleftrightarrow>
      canonicalStringify pl (signature_payload f (map_option sort (pf_validationFailures f))) =
      canonicalStringify pl (signature_payload g (map_option sort (pf_validationFailures g)))"
    using assms by (simp add: buildFailureSignature_def Let_def inj_eq)
  also have "\<dots> \<longleftrightarrow> pf_category f = pf_category g \<and> pf_classification f = pf_classification g
     \<and> pf_phase f = pf_phase g \<and> pf_code f = pf_code g
     \<and> pf_backendClassification f = pf_backendClassification g
     \<and> map_option sort (pf_validationFailures f) = map_option sort (pf_validationFailures g)"
    using payload_inject by (fastforce simp: signature_payload_def)
  finally show ?thesis by (simp only: sorts)
qed

theorem digest_identifies_failure_witness:
  "let pl = \<lparr>sha256 = id, number_text = (\<lambda>_. [])\<rparr>;
       f = classifyFailure \<lparr>ci_classification = ''validation_failed'', ci_phase = ''collect'', ci_code = ''c'',
             ci_retryable = True, ci_backendClassification = None, ci_validationFailures = Some [''b'', ''a'']\<rparr>
   in fs_digest (buildFailureSignature pl f) =
      fs_digest (buildFailureSignature pl (f\<lparr>pf_validationFailures := Some [''a'', ''b'']\<rparr>))"
proof -
  have inj: "inj (sha256 \<lparr>sha256 = id, number_text = (\<lambda>_. [])\<rparr>)" by simp
  show ?thesis
    unfolding Let_def digest_identifies_failure [OF inj]
    by (simp add: classifyFailure_def Let_def)
qed

section \<open>Repairs are bounded\<close>

lemmas decide_unfold = decideRecovery_def Let_def planValidationStrategy_def planNonValidationStrategy_def

lemma planValidation_no_retry:
  "planValidationStrategy i s c \<noteq> Inl (D_retry r d dec c')"
  "planValidationStrategy i s c \<noteq> Inl (D_propose d dec c')"
  by (auto simp: planValidationStrategy_def split: option.splits validation_strategy.splits if_splits)

text \<open>The strategy both branches of the decision end with, when they end with one.\<close>

definition chosen_strategy :: "platform \<Rightarrow> decide_input \<Rightarrow> decide_result + strategy" where
  "chosen_strategy pl i =
     (let signature = buildFailureSignature pl (di_failure i)
      in if pf_category (di_failure i) = Validation
         then planValidationStrategy i signature (updateSignatureCounters (di_counters i) (fs_digest signature))
         else Inr (planNonValidationStrategy i))"

lemma decideRecovery_retryD:
  assumes "decideRecovery pl i = D_retry r d dec c"
  defines "cs \<equiv> updateSignatureCounters (di_counters i) (fs_digest (buildFailureSignature pl (di_failure i)))"
  obtains s where
    "pf_retryable (di_failure i)" "pf_category (di_failure i) \<noteq> Security" "pf_category (di_failure i) \<noteq> Terminal"
    "rc_repairsUsed (di_counters i) < di_repairBudget i"
    "rc_identicalSignatureCount cs < di_repairBudget i"
    "chosen_strategy pl i = Inr s" "sp_mode s = M_resume \<Longrightarrow> di_resumeAvailable i"
    "d = buildDirective i s (buildFailureSignature pl (di_failure i))"
    "di_executionMode i = Autonomous"
    "c = cs\<lparr>rc_repairsUsed := rc_repairsUsed (di_counters i) + 1, rc_pendingProposalId := None,
           rc_pendingDirective := Some d\<rparr>"
    "r = RR_retry_scheduled"
proof -
  note eq = assms(1) [unfolded decideRecovery_def Let_def, folded cs_def]
  have used: "rc_repairsUsed cs = rc_repairsUsed (di_counters i)"
    by (simp add: cs_def updateSignatureCounters_def)
  from eq obtain s where s: "chosen_strategy pl i = Inr s"
    by (auto simp: chosen_strategy_def cs_def Let_def planValidation_no_retry split: if_splits sum.splits)
  from eq s have mode: "di_executionMode i = Autonomous"
    by (cases "di_executionMode i") (auto simp: chosen_strategy_def cs_def Let_def planValidation_no_retry split: if_splits sum.splits)
  from eq s mode show thesis
    by (intro that [of s]) (auto simp: chosen_strategy_def cs_def [symmetric] used Let_def split: if_splits)
qed

lemma decideRecovery_retry_counters:
  assumes "decideRecovery pl i = D_retry r d dec c"
  shows "rc_repairsUsed c = Suc (rc_repairsUsed (di_counters i))"
    and "rc_repairsUsed c \<le> di_repairBudget i"
    and "rc_lastSignatureDigest c = Some (fs_digest (buildFailureSignature pl (di_failure i)))"
    and "rc_identicalSignatureCount c < di_repairBudget i"
    and "rc_lastSignatureDigest (di_counters i) = rc_lastSignatureDigest c \<Longrightarrow>
         rc_identicalSignatureCount c = Suc (rc_identicalSignatureCount (di_counters i))"
    and "rc_lastSignatureDigest (di_counters i) \<noteq> rc_lastSignatureDigest c \<Longrightarrow>
         rc_identicalSignatureCount c = 1"
  using assms by (elim decideRecovery_retryD; simp add: updateSignatureCounters_def)+

text \<open>
  An autonomous stage that keeps failing: each failure is decided with the counters the last
  decision left, until a decision is not a repair. The result is the dispatched directives.
\<close>

fun recovery_run :: "platform \<Rightarrow> recovery_counters \<Rightarrow> decide_input list \<Rightarrow> retry_directive list" where
  "recovery_run pl c [] = []"
| "recovery_run pl c (i # rest) =
     (case decideRecovery pl (i\<lparr>di_counters := c\<rparr>) of
        D_retry _ d _ c' \<Rightarrow> d # recovery_run pl c' rest
      | _ \<Rightarrow> [])"

text \<open>
  C13: however many failures follow one another, the number of repairs the policy dispatches is
  at most what the budget leaves.
\<close>

theorem repairs_bounded:
  assumes "\<forall>i \<in> set failures. di_repairBudget i \<le> budget"
  shows "length (recovery_run pl c failures) \<le> budget - rc_repairsUsed c"
  using assms
proof (induction failures arbitrary: c)
  case Nil
  then show ?case by simp
next
  case (Cons i rest)
  show ?case
  proof (cases "decideRecovery pl (i\<lparr>di_counters := c\<rparr>)")
    case (D_retry r d dec c')
    note used = decideRecovery_retry_counters(1,2) [OF this]
    from Cons have "length (recovery_run pl c' rest) \<le> budget - rc_repairsUsed c'" by simp
    moreover have "rc_repairsUsed c' \<le> budget" using used(2) Cons.prems by fastforce
    ultimately show ?thesis using D_retry used(1) by simp
  qed simp_all
qed

lemma unchanged_run:
  assumes "\<forall>i \<in> set failures. di_repairBudget i \<le> budget
      \<and> fs_digest (buildFailureSignature pl (di_failure i)) = dg"
    and "rc_lastSignatureDigest c = Some dg"
  shows "length (recovery_run pl c failures) \<le> budget - Suc (rc_identicalSignatureCount c)"
  using assms
proof (induction failures arbitrary: c)
  case (Cons i rest)
  show ?case
  proof (cases "decideRecovery pl (i\<lparr>di_counters := c\<rparr>)")
    case (D_retry r d dec c')
    note retry = decideRecovery_retry_counters [OF D_retry]
    from Cons.prems retry(3) have dg: "rc_lastSignatureDigest c' = Some dg" by simp
    with Cons.prems retry(5) have count: "rc_identicalSignatureCount c' = Suc (rc_identicalSignatureCount c)" by simp
    from retry(4) Cons.prems have "rc_identicalSignatureCount c' < budget" by fastforce
    moreover from Cons dg have "length (recovery_run pl c' rest) \<le> budget - Suc (rc_identicalSignatureCount c')" by simp
    ultimately show ?thesis using D_retry count by simp
  qed simp_all
qed simp

text \<open>
  Failures with one and the same digest exhaust the budget one repair early: from counters
  that have not seen the digest, a budget of \<open>n\<close> allows at most \<open>n - 1\<close> repairs, so a budget
  of one allows none.
\<close>

theorem unchanged_failure_bounded:
  assumes "\<forall>i \<in> set failures. di_repairBudget i \<le> budget
      \<and> fs_digest (buildFailureSignature pl (di_failure i)) = dg"
    and "rc_lastSignatureDigest c \<noteq> Some dg"
  shows "length (recovery_run pl c failures) \<le> budget - 1"
proof (cases failures)
  case (Cons i rest)
  show ?thesis
  proof (cases "decideRecovery pl (i\<lparr>di_counters := c\<rparr>)")
    case (D_retry r d dec c')
    note retry = decideRecovery_retry_counters [OF D_retry]
    from assms Cons retry(3) have dg: "rc_lastSignatureDigest c' = Some dg" by simp
    with assms retry(6) have count: "rc_identicalSignatureCount c' = 1" by simp
    from retry(4) count assms Cons have "1 < budget" by fastforce
    moreover from assms Cons dg count have "length (recovery_run pl c' rest) \<le> budget - 2"
      using unchanged_run [of rest budget pl dg c'] by simp
    ultimately show ?thesis using D_retry Cons by simp
  qed (use Cons in simp_all)
qed simp

definition example_platform :: platform where
  "example_platform = \<lparr>sha256 = id, number_text = (\<lambda>_. [])\<rparr>"

definition example_failure :: pipeline_failure where
  "example_failure = classifyFailure \<lparr>ci_classification = ''timeout'', ci_phase = ''run'', ci_code = ''c'',
     ci_retryable = True, ci_backendClassification = None, ci_validationFailures = None\<rparr>"

definition fresh_counters :: recovery_counters where
  "fresh_counters = \<lparr>rc_repairsUsed = 0, rc_lastSignatureDigest = None, rc_identicalSignatureCount = 0,
     rc_pendingProposalId = None, rc_pendingDirective = None\<rparr>"

definition example_input :: "nat \<Rightarrow> decide_input" where
  "example_input budget = \<lparr>di_runId = ''r'', di_stageId = ''s'', di_graphRevision = 1, di_generation = 1,
     di_attemptOrdinal = 1, di_now = ''t'', di_failure = example_failure, di_stageType = T_command,
     di_sessionPolicy = None, di_onValidationFailure = None, di_executionMode = Autonomous,
     di_counters = fresh_counters, di_repairBudget = budget, di_priorAttemptId = None,
     di_priorBackendExecutionId = None, di_resumeAvailable = False\<rparr>"

theorem repairs_bounded_witness:
  "length (recovery_run example_platform fresh_counters (replicate 5 (example_input 3))) = 2
   \<and> length (recovery_run example_platform fresh_counters (replicate 5 (example_input 3))) \<le> 3"
proof
  show "length (recovery_run example_platform fresh_counters (replicate 5 (example_input 3))) = 2"
    by code_simp
  have "\<forall>i \<in> set (replicate 5 (example_input 3)). di_repairBudget i \<le> 3"
    by (simp add: example_input_def)
  from repairs_bounded [OF this, of example_platform fresh_counters]
  show "length (recovery_run example_platform fresh_counters (replicate 5 (example_input 3))) \<le> 3"
    by (simp add: fresh_counters_def)
qed

theorem unchanged_failure_bounded_witness:
  "recovery_run example_platform fresh_counters (replicate 5 (example_input 1)) = []"
proof -
  let ?dg = "fs_digest (buildFailureSignature example_platform example_failure)"
  have "\<forall>i \<in> set (replicate 5 (example_input 1)). di_repairBudget i \<le> 1
      \<and> fs_digest (buildFailureSignature example_platform (di_failure i)) = ?dg"
    by (simp add: example_input_def)
  from unchanged_failure_bounded [OF this, of fresh_counters] show ?thesis
    by (simp add: fresh_counters_def)
qed

text \<open>
  C21: a repair is dispatched without asking only for a retryable failure that is neither a
  security nor a terminal one, in autonomous mode, with budget left; a resumed session only
  where one is available; and the directive it carries names the failure's digest.
\<close>

theorem dispatch_only_when_allowed:
  assumes "decideRecovery pl i = D_retry r d dec c"
  shows "pf_retryable (di_failure i)
    \<and> pf_category (di_failure i) \<noteq> Security \<and> pf_category (di_failure i) \<noteq> Terminal
    \<and> di_executionMode i = Autonomous
    \<and> rc_repairsUsed (di_counters i) < di_repairBudget i
    \<and> (rd_mode d = M_resume \<longrightarrow> di_resumeAvailable i)
    \<and> rd_recoveryContextDigest d = Some (fs_digest (buildFailureSignature pl (di_failure i)))
    \<and> rc_pendingDirective c = Some d \<and> rc_repairsUsed c = rc_repairsUsed (di_counters i) + 1"
  using assms by (elim decideRecovery_retryD) (simp add: buildDirective_def)

theorem dispatch_only_when_allowed_witness:
  "\<exists>r d dec c. decideRecovery example_platform (example_input 3) = D_retry r d dec c
     \<and> pf_retryable (di_failure (example_input 3)) \<and> rc_repairsUsed c = 1"
proof -
  have "case decideRecovery example_platform (example_input 3) of D_retry r d dec c \<Rightarrow> True | _ \<Rightarrow> False"
    by code_simp
  then obtain r d dec c where eq: "decideRecovery example_platform (example_input 3) = D_retry r d dec c"
    by (auto split: decide_result.splits)
  with dispatch_only_when_allowed [OF eq] show ?thesis
    by (simp add: example_input_def fresh_counters_def)
qed

end
