(* ===== verification/Scheduler_Types.thy ===== *)
theory Scheduler_Types
  imports Expression_Eval Recovery "HOL-Library.Product_Lexorder"
begin

text \<open>
  The data of the pipeline scheduler (\<open>packages/pipeline/src/scheduler/tick.ts\<close>, first part, and
  the parts of \<open>PipelineGraph/v1\<close> it reads): the graph, stage snapshots, observations, decisions,
  intents, attempts, the tick's input, plan and context. An optional property of the source is an
  \<open>option\<close>; the scheduler's snapshots and mutable stages have the same fields and share a record.
\<close>

section \<open>The pipeline graph\<close>

record stage_def =
  sd_id :: string
  sd_type :: stage_type
  sd_mode :: execution_mode
  sd_optional :: bool
  sd_session :: "session_policy option"
  sd_maxRepairAttempts :: "nat option"
  sd_onValidationFailure :: "validation_policy option"
  sd_reads :: "string list"
  sd_writes :: "string list"

datatype condition = Cond_expression "expr_node list" nat | Cond_evaluator string string

record pipeline_edge =
  ed_from :: string
  ed_to :: string
  ed_condition :: "condition option"

record pipeline_graph =
  gr_stages :: "stage_def list"
  gr_edges :: "pipeline_edge list"
  gr_maxRepairAttempts :: "nat option"
  gr_maxConcurrentWorkers :: "nat option"

section \<open>Snapshots, observations and the entries of a plan\<close>

record stage_snapshot =
  st_runId :: string
  st_stageId :: string
  st_graphRevision :: nat
  st_generation :: nat
  st_state :: stage_state
  st_attemptOrdinal :: nat
  st_currentAttemptId :: "string option"
  st_lastTransitionReason :: "transition_reason option"
  st_blockReason :: "string option"
  st_selected :: bool
  st_updatedAt :: string

datatype observation_kind = O_attempt_started | O_attempt_waiting | O_attempt_succeeded | O_attempt_failed
  | O_cancellation_settled | O_evaluator_decided | O_cancel_requested | O_manual_rerun
  | O_recovery_proposed | O_recovery_approved | O_recovery_rejected

record observation =
  ob_observationId :: string
  ob_kind :: observation_kind
  ob_stageId :: "string option"
  ob_attemptId :: "string option"
  ob_retryable :: "bool option"
  ob_edgeKey :: "string option"
  ob_selected :: "bool option"
  ob_recordedAt :: string
  ob_failure :: "pipeline_failure option"
  ob_proposalId :: "string option"
  ob_classification :: "string option"
  ob_phase :: "string option"
  ob_code :: "string option"
  ob_backendClassification :: "string option"
  ob_validationFailures :: "string list option"
  ob_resumeAvailable :: "bool option"
  ob_priorBackendExecutionId :: "string option"

datatype decision_action = A_release | A_queue | A_start | A_wait | A_succeed | A_fail | A_retry | A_rearm
  | A_cancel | A_block | A_request_cancel | A_request_evaluator | A_select_edge | A_reject_edge
  | A_rerun | A_terminal | A_propose_recovery | A_approve_recovery | A_reject_recovery

fun action_name :: "decision_action \<Rightarrow> string" where
  "action_name A_release = ''release''"
| "action_name A_queue = ''queue''"
| "action_name A_start = ''start''"
| "action_name A_wait = ''wait''"
| "action_name A_succeed = ''succeed''"
| "action_name A_fail = ''fail''"
| "action_name A_retry = ''retry''"
| "action_name A_rearm = ''rearm''"
| "action_name A_cancel = ''cancel''"
| "action_name A_block = ''block''"
| "action_name A_request_cancel = ''request_cancel''"
| "action_name A_request_evaluator = ''request_evaluator''"
| "action_name A_select_edge = ''select_edge''"
| "action_name A_reject_edge = ''reject_edge''"
| "action_name A_rerun = ''rerun''"
| "action_name A_terminal = ''terminal''"
| "action_name A_propose_recovery = ''propose_recovery''"
| "action_name A_approve_recovery = ''approve_recovery''"
| "action_name A_reject_recovery = ''reject_recovery''"

record sched_decision =
  dc_schemaVersion :: nat
  dc_decisionId :: string
  dc_runId :: string
  dc_stageId :: string
  dc_graphRevision :: nat
  dc_generation :: nat
  dc_attemptOrdinal :: nat
  dc_action :: decision_action
  dc_reason :: transition_reason
  dc_fromState :: "stage_state option"
  dc_toState :: "stage_state option"
  dc_attemptId :: "string option"
  dc_intentId :: "string option"
  dc_detail :: "string option"
  dc_recordedAt :: string
  dc_recoveryDecisionId :: "string option"
  dc_signatureDigest :: "string option"

datatype intent_payload =
    PL_dispatch string stage_type string nat nat "retry_directive option"
  | PL_cancel string string nat nat
  | PL_evaluator string string string string string

record sched_intent =
  it_schemaVersion :: nat
  it_intentId :: string
  it_runId :: string
  it_graphRevision :: nat
  it_kind :: intent_kind
  it_payload :: intent_payload
  it_createdAt :: string

record stage_attempt =
  at_schemaVersion :: nat
  at_attemptId :: string
  at_runId :: string
  at_pipelineId :: string
  at_stageId :: string
  at_graphRevision :: nat
  at_generation :: nat
  at_attemptOrdinal :: nat
  at_stageType :: stage_type
  at_createdAt :: string
  at_sessionPolicy :: "session_policy option"
  at_priorAttemptId :: "string option"
  at_recoveryDecisionId :: "string option"
  at_delegatedProfileId :: "string option"
  at_retryDirective :: "retry_directive option"

record stage_transition =
  tr_stageId :: string
  tr_from :: stage_state
  tr_to :: stage_state
  tr_reason :: transition_reason
  tr_attemptId :: "string option"
  tr_generation :: nat
  tr_blockReason :: "string option"

datatype schedule_outcome = SO_succeeded | SO_failed | SO_cancelled | SO_blocked

record schedule_terminal =
  te_outcome :: schedule_outcome
  te_reason :: string
  te_blockedStageId :: "string option"

text \<open>
  \<open>pendingProposalJson\<close> is untyped in the source and read, without validation, as a retry
  directive when it is an object with a \<open>mode\<close>; the model's field is that reading.
\<close>

record stage_recovery_state =
  rs_stageId :: string
  rs_generation :: nat
  rs_repairsUsed :: nat
  rs_lastSignatureDigest :: "string option"
  rs_identicalSignatureCount :: nat
  rs_pendingProposalId :: "string option"
  rs_pendingProposalJson :: "retry_directive option"
  rs_pendingDirective :: "retry_directive option"

record effective_limits =
  el_maxRepairAttempts :: "nat option"
  el_maxConcurrentWorkers :: "nat option"

record evaluator_decision =
  ev_edgeKey :: string
  ev_selected :: bool

section \<open>Input, plan and tick context\<close>

record sched_input =
  si_schemaVersion :: nat
  si_runId :: string
  si_pipelineId :: string
  si_graphRevision :: nat
  si_scheduleRevision :: nat
  si_graph :: pipeline_graph
  si_now :: string
  si_deadlineAt :: "string option"
  si_stages :: "stage_snapshot list"
  si_observations :: "observation list"
  si_canonicalState :: json
  si_pendingEvaluatorEdgeKeys :: "string list"
  si_evaluatorDecisions :: "evaluator_decision list"
  si_recoveryState :: "stage_recovery_state list option"
  si_effectiveLimits :: "effective_limits option"
  si_executionMode :: "execution_mode option"

record sched_plan =
  pn_schemaVersion :: nat
  pn_runId :: string
  pn_graphRevision :: nat
  pn_expectedScheduleRevision :: nat
  pn_nextScheduleRevision :: nat
  pn_recordedAt :: string
  pn_transitions :: "stage_transition list"
  pn_decisions :: "sched_decision list"
  pn_intents :: "sched_intent list"
  pn_attempts :: "stage_attempt list"
  pn_stagePatches :: "stage_snapshot list"
  pn_consumedObservationIds :: "string list"
  pn_terminal :: "schedule_terminal option"
  pn_recoveryDecisions :: "recovery_decision list option"
  pn_recoveryState :: "stage_recovery_state list option"

text \<open>The counters of a recovery key, with the generation they belong to.\<close>

record keyed_counters =
  kc_generation :: nat
  kc_counters :: recovery_counters

record tick_ctx =
  cx_input :: sched_input
  cx_graph :: pipeline_graph
  cx_stagesById :: "(string, stage_def) jsmap"
  cx_incoming :: "(string, pipeline_edge list) jsmap"
  cx_outgoing :: "(string, pipeline_edge list) jsmap"
  cx_descendants :: "(string, string list) jsmap"
  cx_working :: "(string, stage_snapshot) jsmap"
  cx_evaluatorDecisions :: "(string, bool) jsmap"
  cx_pendingEvaluators :: "string list"
  cx_recoveryByKey :: "(string, keyed_counters) jsmap"
  cx_transitions :: "stage_transition list"
  cx_decisions :: "sched_decision list"
  cx_intents :: "sched_intent list"
  cx_attempts :: "stage_attempt list"
  cx_recoveryDecisions :: "recovery_decision list"
  cx_consumedObservationIds :: "string list"
  cx_v2 :: bool
  cx_cancelRequested :: bool
  cx_deadlineExceeded :: bool

section \<open>Optional values\<close>

text \<open>\<open>a ?? b\<close> with an optional and with a definite right-hand side.\<close>

fun or_else :: "'a option \<Rightarrow> 'a option \<Rightarrow> 'a option" where
  "or_else (Some a) b = Some a"
| "or_else None b = b"

fun or_default :: "'a option \<Rightarrow> 'a \<Rightarrow> 'a" where
  "or_default (Some a) d = a"
| "or_default None d = d"

text \<open>Reading through a value asserted to be present (\<open>x!.p\<close>): a type error when it is not.\<close>

definition demand :: "'a option \<Rightarrow> 'a res" where
  "demand x = (case x of None \<Rightarrow> Inl TypeError | Some v \<Rightarrow> Inr v)"

lemma demand_simps [simp]: "demand (Some v) = Inr v" "demand None = Inl TypeError"
  by (simp_all add: demand_def)

lemma demand_Inr [simp]: "demand x = Inr v \<longleftrightarrow> x = Some v"
  by (cases x) simp_all

end
