(* ===== verification/Scheduler_Ops.thy ===== *)
theory Scheduler_Ops
  imports Scheduler_Types
begin

text \<open>
  The helpers of one scheduler tick (\<open>packages/pipeline/src/scheduler/tick.ts\<close>): recovery counters,
  snapshots, edge maps and descendants, recording a decision, applying a transition, resolving an
  edge, releasing and cancelling stages. A stage object of the source is an entry of the working map
  under its own id: an operation on a stage takes its current value and writes the new value back.
\<close>

section \<open>Recovery counters\<close>

definition recoveryKey :: "string \<Rightarrow> nat \<Rightarrow> string" where
  "recoveryKey stageId generation = stageId @ '':'' @ show_nat generation"

definition no_counters :: recovery_counters where
  "no_counters = \<lparr>rc_repairsUsed = 0, rc_lastSignatureDigest = None, rc_identicalSignatureCount = 0,
     rc_pendingProposalId = None, rc_pendingDirective = None\<rparr>"

definition setRecoveryCounters :: "tick_ctx \<Rightarrow> stage_snapshot \<Rightarrow> recovery_counters \<Rightarrow> tick_ctx" where
  "setRecoveryCounters ctx stage counters =
     ctx\<lparr>cx_recoveryByKey := AList.update (recoveryKey (st_stageId stage) (st_generation stage))
           \<lparr>kc_generation = st_generation stage, kc_counters = counters\<rparr> (cx_recoveryByKey ctx)\<rparr>"

text \<open>The counters of a stage, and the context in which they exist.\<close>

definition getRecoveryCounters :: "tick_ctx \<Rightarrow> stage_snapshot \<Rightarrow> recovery_counters \<times> tick_ctx" where
  "getRecoveryCounters ctx stage =
     (case map_of (cx_recoveryByKey ctx) (recoveryKey (st_stageId stage) (st_generation stage)) of
        Some existing \<Rightarrow> (kc_counters existing, ctx)
      | None \<Rightarrow> (no_counters, setRecoveryCounters ctx stage no_counters))"

text \<open>\<open>key.slice(0, key.lastIndexOf(":"))\<close>; without a colon the slice drops the last unit.\<close>

definition key_stage :: "string \<Rightarrow> string" where
  "key_stage key = (if CHR '':'' \<in> set key
     then rev (tl (dropWhile (\<lambda>c. c \<noteq> CHR '':'') (rev key))) else butlast key)"

definition freeze_counters :: "string \<Rightarrow> keyed_counters \<Rightarrow> stage_recovery_state" where
  "freeze_counters key kc =
     (let counters = kc_counters kc in
      \<lparr>rs_stageId = key_stage key,
       rs_generation = kc_generation kc,
       rs_repairsUsed = rc_repairsUsed counters,
       rs_lastSignatureDigest = rc_lastSignatureDigest counters,
       rs_identicalSignatureCount = rc_identicalSignatureCount counters,
       rs_pendingProposalId = rc_pendingProposalId counters,
       rs_pendingProposalJson = rc_pendingDirective counters,
       rs_pendingDirective = rc_pendingDirective counters\<rparr>)"

definition freezeRecoveryState :: "tick_ctx \<Rightarrow> stage_recovery_state list" where
  "freezeRecoveryState ctx =
     sort_key (\<lambda>s. (rs_stageId s, rs_generation s))
       (map (\<lambda>(key, kc). freeze_counters key kc) (cx_recoveryByKey ctx))"

section \<open>Snapshots\<close>

definition freezeSnapshot :: "stage_snapshot \<Rightarrow> stage_snapshot" where
  "freezeSnapshot stage =
     \<lparr>st_runId = st_runId stage, st_stageId = st_stageId stage, st_graphRevision = st_graphRevision stage,
      st_generation = st_generation stage, st_state = st_state stage,
      st_attemptOrdinal = st_attemptOrdinal stage, st_currentAttemptId = st_currentAttemptId stage,
      st_lastTransitionReason = st_lastTransitionReason stage, st_blockReason = st_blockReason stage,
      st_selected = st_selected stage, st_updatedAt = st_updatedAt stage\<rparr>"

definition cloneStage :: "stage_snapshot \<Rightarrow> stage_snapshot" where
  "cloneStage snapshot =
     \<lparr>st_runId = st_runId snapshot, st_stageId = st_stageId snapshot,
      st_graphRevision = st_graphRevision snapshot, st_generation = st_generation snapshot,
      st_state = st_state snapshot, st_attemptOrdinal = st_attemptOrdinal snapshot,
      st_currentAttemptId = st_currentAttemptId snapshot,
      st_lastTransitionReason = st_lastTransitionReason snapshot,
      st_blockReason = st_blockReason snapshot, st_selected = st_selected snapshot,
      st_updatedAt = st_updatedAt snapshot\<rparr>"

definition pending_snapshot :: "string \<Rightarrow> nat \<Rightarrow> string \<Rightarrow> string \<Rightarrow> stage_snapshot" where
  "pending_snapshot runId graphRevision stageId now =
     \<lparr>st_runId = runId, st_stageId = stageId, st_graphRevision = graphRevision, st_generation = 1,
      st_state = S_pending, st_attemptOrdinal = 0, st_currentAttemptId = None,
      st_lastTransitionReason = None, st_blockReason = None, st_selected = True, st_updatedAt = now\<rparr>"

section \<open>Edge maps and descendants\<close>

text \<open>\<open>map.get(key)!.push(value)\<close>.\<close>

definition push_at :: "string \<Rightarrow> 'v \<Rightarrow> (string, 'v list) jsmap \<Rightarrow> (string, 'v list) jsmap res" where
  "push_at key v m = (case map_of m key of None \<Rightarrow> Inl TypeError | Some vs \<Rightarrow> Inr (AList.update key (vs @ [v]) m))"

definition empty_lists :: "pipeline_graph \<Rightarrow> (string, 'v list) jsmap" where
  "empty_lists graph = js_map_of (map (\<lambda>stage. (sd_id stage, [])) (gr_stages graph))"

definition buildEdgeMaps ::
  "pipeline_graph \<Rightarrow> ((string, pipeline_edge list) jsmap \<times> (string, pipeline_edge list) jsmap) res" where
  "buildEdgeMaps graph =
     rfold (\<lambda>edge (incoming, outgoing).
         rbind (push_at (ed_to edge) edge incoming) (\<lambda>incoming'.
         rbind (push_at (ed_from edge) edge outgoing) (\<lambda>outgoing'. Inr (incoming', outgoing'))))
       (gr_edges graph) (empty_lists graph, empty_lists graph)"

definition successors_of :: "(string, string list) jsmap \<Rightarrow> string \<Rightarrow> string list" where
  "successors_of succ x = or_default (map_of succ x) []"

definition reach_universe :: "(string, string list) jsmap \<Rightarrow> string list \<Rightarrow> string set" where
  "reach_universe succ stack = (\<Union>ys \<in> snd ` set succ. set ys) \<union> set stack"

lemma successors_in_universe: "set (successors_of succ x) \<subseteq> reach_universe succ stack"
proof (cases "map_of succ x")
  case (Some ys)
  then show ?thesis using map_of_SomeD [OF Some] by (force simp: successors_of_def reach_universe_def)
qed (simp add: successors_of_def)

lemma finite_reach_universe [simp]: "finite (reach_universe succ stack)"
  by (simp add: reach_universe_def)

text \<open>The depth-first loop of \<open>buildDescendants\<close>: the last element of \<open>stack\<close> is its top.\<close>

function visit :: "(string, string list) jsmap \<Rightarrow> string list \<Rightarrow> string list \<Rightarrow> string list" where
  "visit succ seen stack =
     (if stack = [] then seen
      else let nxt = last stack; rest = butlast stack in
           if nxt \<in> set seen then visit succ seen rest
           else visit succ (seen @ [nxt]) (rest @ successors_of succ nxt))"
  by pat_completeness auto

termination
proof (relation "measures [\<lambda>(succ, seen, stack). card (reach_universe succ stack - set seen),
    \<lambda>(succ, seen, stack). length stack]")
  fix succ :: "(string, string list) jsmap" and seen stack rest :: "string list" and nxt
  assume ne: "stack \<noteq> []" and nxt: "nxt = last stack" and rest: "rest = butlast stack"
  then have stack: "stack = rest @ [nxt]" by simp
  { assume "nxt \<in> set seen"
    have "card (reach_universe succ rest - set seen) \<le> card (reach_universe succ stack - set seen)"
      by (intro card_mono) (auto simp: stack reach_universe_def)
    then show "((succ, seen, rest), succ, seen, stack) \<in> measures
        [\<lambda>(succ, seen, stack). card (reach_universe succ stack - set seen), \<lambda>(succ, seen, stack). length stack]"
      using ne by (auto simp: rest)
  }
  { assume new: "nxt \<notin> set seen"
    let ?stack' = "rest @ successors_of succ nxt"
    have "reach_universe succ ?stack' \<subseteq> reach_universe succ stack"
      using successors_in_universe [of succ nxt stack] by (auto simp: stack reach_universe_def)
    moreover have "nxt \<in> reach_universe succ stack" by (simp add: stack reach_universe_def)
    ultimately have "card (reach_universe succ ?stack' - set (seen @ [nxt])) < card (reach_universe succ stack - set seen)"
      using new by (intro psubset_card_mono) auto
    then show "((succ, seen @ [nxt], ?stack'), succ, seen, stack) \<in> measures
        [\<lambda>(succ, seen, stack). card (reach_universe succ stack - set seen), \<lambda>(succ, seen, stack). length stack]"
      by auto
  }
qed simp

declare visit.simps [simp del]

definition build_successors :: "pipeline_graph \<Rightarrow> (string, string list) jsmap res" where
  "build_successors graph = rfold (\<lambda>edge. push_at (ed_from edge) (ed_to edge)) (gr_edges graph) (empty_lists graph)"

definition buildDescendants :: "pipeline_graph \<Rightarrow> (string, string list) jsmap res" where
  "buildDescendants graph =
     rbind (build_successors graph) (\<lambda>succ.
       rfold (\<lambda>stage result. rbind (demand (map_of succ (sd_id stage))) (\<lambda>start.
           Inr (AList.update (sd_id stage) (sort (visit succ [] start)) result)))
         (gr_stages graph) [])"

section \<open>Decisions and transitions\<close>

record decision_request =
  dr_stageId :: string
  dr_action :: decision_action
  dr_reason :: transition_reason
  dr_fromState :: "stage_state option"
  dr_toState :: "stage_state option"
  dr_attemptId :: "string option"
  dr_intentId :: "string option"
  dr_detail :: "string option"
  dr_generation :: nat
  dr_attemptOrdinal :: nat
  dr_recoveryDecisionId :: "string option"
  dr_signatureDigest :: "string option"

definition decision_request ::
  "string \<Rightarrow> decision_action \<Rightarrow> transition_reason \<Rightarrow> nat \<Rightarrow> nat \<Rightarrow> decision_request" where
  "decision_request stageId action reason generation attemptOrdinal =
     \<lparr>dr_stageId = stageId, dr_action = action, dr_reason = reason, dr_fromState = None, dr_toState = None,
      dr_attemptId = None, dr_intentId = None, dr_detail = None, dr_generation = generation,
      dr_attemptOrdinal = attemptOrdinal, dr_recoveryDecisionId = None, dr_signatureDigest = None\<rparr>"

definition contract_version :: "tick_ctx \<Rightarrow> nat" where
  "contract_version ctx = (if cx_v2 ctx then 2 else 1)"

definition recordDecision :: "tick_ctx \<Rightarrow> decision_request \<Rightarrow> tick_ctx" where
  "recordDecision ctx req =
     (let input = cx_input ctx;
          decisionId = deriveDecisionId (si_runId input) (si_graphRevision input) (dr_stageId req)
            (dr_generation req) (dr_attemptOrdinal req) (action_name (dr_action req))
      in if list_ex (\<lambda>d. dc_decisionId d = decisionId) (cx_decisions ctx) then ctx
         else ctx\<lparr>cx_decisions := cx_decisions ctx @
           [\<lparr>dc_schemaVersion = contract_version ctx, dc_decisionId = decisionId, dc_runId = si_runId input,
             dc_stageId = dr_stageId req, dc_graphRevision = si_graphRevision input,
             dc_generation = dr_generation req, dc_attemptOrdinal = dr_attemptOrdinal req,
             dc_action = dr_action req, dc_reason = dr_reason req, dc_fromState = dr_fromState req,
             dc_toState = dr_toState req, dc_attemptId = dr_attemptId req, dc_intentId = dr_intentId req,
             dc_detail = dr_detail req, dc_recordedAt = si_now input,
             dc_recoveryDecisionId = dr_recoveryDecisionId req,
             dc_signatureDigest = dr_signatureDigest req\<rparr>]\<rparr>)"

record transition_options =
  to_action :: decision_action
  to_attemptId :: "string option"
  to_intentId :: "string option"
  to_detail :: "string option"
  to_blockReason :: "string option"
  to_clearAttempt :: bool
  to_selected :: "bool option"
  to_decisionReason :: "transition_reason option"
  to_recoveryDecisionId :: "string option"
  to_signatureDigest :: "string option"

definition options :: "decision_action \<Rightarrow> transition_options" where
  "options action = \<lparr>to_action = action, to_attemptId = None, to_intentId = None, to_detail = None,
     to_blockReason = None, to_clearAttempt = False, to_selected = None, to_decisionReason = None,
     to_recoveryDecisionId = None, to_signatureDigest = None\<rparr>"

definition put_stage :: "tick_ctx \<Rightarrow> stage_snapshot \<Rightarrow> tick_ctx" where
  "put_stage ctx stage = ctx\<lparr>cx_working := AList.update (st_stageId stage) stage (cx_working ctx)\<rparr>"

text \<open>The fields of the stage that \<open>applyTransition\<close> assigns.\<close>

definition transitioned ::
  "tick_ctx \<Rightarrow> stage_snapshot \<Rightarrow> stage_state \<Rightarrow> transition_reason \<Rightarrow> transition_options \<Rightarrow> stage_snapshot" where
  "transitioned ctx stage to reason opts =
     stage\<lparr>st_state := to,
       st_lastTransitionReason := Some reason,
       st_updatedAt := si_now (cx_input ctx),
       st_blockReason := (case to_blockReason opts of Some b \<Rightarrow> Some b
         | None \<Rightarrow> if to \<noteq> S_blocked then None else st_blockReason stage),
       st_selected := or_default (to_selected opts) (st_selected stage),
       st_currentAttemptId := (if to_clearAttempt opts then None
         else or_else (to_attemptId opts) (st_currentAttemptId stage))\<rparr>"

definition applyTransition ::
  "tick_ctx \<Rightarrow> stage_snapshot \<Rightarrow> stage_state \<Rightarrow> transition_reason \<Rightarrow> transition_options \<Rightarrow> tick_ctx res" where
  "applyTransition ctx stage to reason opts =
     rbind (assertPermittedTransition (st_state stage) to reason) (\<lambda>_.
       let stage' = transitioned ctx stage to reason opts;
           ctx' = put_stage ctx stage';
           ctx'' = ctx'\<lparr>cx_transitions := cx_transitions ctx' @
             [\<lparr>tr_stageId = st_stageId stage', tr_from = st_state stage, tr_to = to, tr_reason = reason,
               tr_attemptId = to_attemptId opts, tr_generation = st_generation stage',
               tr_blockReason = to_blockReason opts\<rparr>]\<rparr>
       in Inr (recordDecision ctx''
            \<lparr>dr_stageId = st_stageId stage', dr_action = to_action opts,
             dr_reason = or_default (to_decisionReason opts) reason,
             dr_fromState = Some (st_state stage), dr_toState = Some to,
             dr_attemptId = or_else (to_attemptId opts) (st_currentAttemptId stage'),
             dr_intentId = to_intentId opts,
             dr_detail = or_else (to_detail opts) (to_blockReason opts),
             dr_generation = st_generation stage', dr_attemptOrdinal = st_attemptOrdinal stage',
             dr_recoveryDecisionId = to_recoveryDecisionId opts,
             dr_signatureDigest = to_signatureDigest opts\<rparr>))"

definition maxRepairAttemptsFor :: "stage_def \<Rightarrow> pipeline_graph \<Rightarrow> effective_limits option \<Rightarrow> nat" where
  "maxRepairAttemptsFor stage graph limits =
     resolveRepairBudget
       \<lparr>rb_pipelineMaxRepairAttempts = gr_maxRepairAttempts graph,
        rb_stageMaxRepairAttempts = sd_maxRepairAttempts stage,
        rb_validationMaxAttempts = Option.bind (sd_onValidationFailure stage) vp_maxAttempts,
        rb_effectiveMaxRepairAttempts = Option.bind limits el_maxRepairAttempts\<rparr>"

section \<open>Releasing stages\<close>

definition producedWrites :: "tick_ctx \<Rightarrow> string \<Rightarrow> string list" where
  "producedWrites ctx excludingStageId =
     fold (\<lambda>stage writes.
         if sd_id stage = excludingStageId then writes
         else if map_option st_state (map_of (cx_working ctx) (sd_id stage)) = Some S_succeeded
         then fold js_add (sd_writes stage) writes else writes)
       (gr_stages (cx_graph ctx)) []"

datatype edge_resolution = ER_pending | ER_selected | ER_rejected | ER_blocked string | ER_waived

definition code_name :: "eval_code \<Rightarrow> string" where
  "code_name c = (case c of Missing_path \<Rightarrow> ''missing_path'' | Incompatible_type \<Rightarrow> ''incompatible_type''
     | Invalid_expression \<Rightarrow> ''invalid_expression'')"

definition evaluator_intent :: "tick_ctx \<Rightarrow> pipeline_edge \<Rightarrow> string \<Rightarrow> string \<Rightarrow> sched_intent" where
  "evaluator_intent ctx edge profile question =
     (let input = cx_input ctx; key = edgeKey (ed_from edge) (ed_to edge) in
      \<lparr>it_schemaVersion = contract_version ctx,
       it_intentId = deriveIntentId (si_runId input) (si_graphRevision input) K_evaluator key,
       it_runId = si_runId input, it_graphRevision = si_graphRevision input, it_kind = K_evaluator,
       it_payload = PL_evaluator (ed_from edge) (ed_to edge) profile question key,
       it_createdAt = si_now input\<rparr>)"

definition has_intent :: "tick_ctx \<Rightarrow> string \<Rightarrow> bool" where
  "has_intent ctx intentId = list_ex (\<lambda>intent. it_intentId intent = intentId) (cx_intents ctx)"

definition add_intent :: "tick_ctx \<Rightarrow> sched_intent \<Rightarrow> tick_ctx" where
  "add_intent ctx intent = ctx\<lparr>cx_intents := cx_intents ctx @ [intent]\<rparr>"

text \<open>The end of \<open>resolveIncomingEdge\<close>: an evaluator edge without a decision.\<close>

definition request_evaluator :: "tick_ctx \<Rightarrow> pipeline_edge \<Rightarrow> string \<Rightarrow> string \<Rightarrow> tick_ctx res" where
  "request_evaluator ctx edge profile question =
     (let key = edgeKey (ed_from edge) (ed_to edge);
          intent = evaluator_intent ctx edge profile question
      in if has_intent ctx (it_intentId intent) then Inr ctx
         else (let ctx' = add_intent ctx intent;
                   ctx'' = ctx'\<lparr>cx_pendingEvaluators := js_add key (cx_pendingEvaluators ctx')\<rparr>
               in rbind (demand (map_of (cx_working ctx) (ed_to edge))) (\<lambda>target.
                    Inr (recordDecision ctx''
                      ((decision_request (ed_to edge) A_request_evaluator R_dependencies_satisfied
                          (st_generation target) (st_attemptOrdinal target))
                       \<lparr>dr_intentId := Some (it_intentId intent), dr_detail := Some key\<rparr>)))))"

definition resolve_condition :: "tick_ctx \<Rightarrow> pipeline_edge \<Rightarrow> (edge_resolution \<times> tick_ctx) res" where
  "resolve_condition ctx edge =
     (case ed_condition edge of
        None \<Rightarrow> Inr (ER_selected, ctx)
      | Some (Cond_expression nodes r) \<Rightarrow>
          (case evaluateExpressionCondition nodes r (si_canonicalState (cx_input ctx)) of
             None \<Rightarrow> Inl RangeError
           | Some (Inl e) \<Rightarrow> Inr (ER_blocked (code_name (ef_code e) @ '':'' @ ef_message e), ctx)
           | Some (Inr b) \<Rightarrow> Inr (if b then ER_selected else ER_rejected, ctx))
      | Some (Cond_evaluator profile question) \<Rightarrow>
          (let key = edgeKey (ed_from edge) (ed_to edge) in
           case map_of (cx_evaluatorDecisions ctx) key of
             Some b \<Rightarrow> Inr (if b then ER_selected else ER_rejected, ctx)
           | None \<Rightarrow>
               if key \<in> set (cx_pendingEvaluators ctx) then Inr (ER_pending, ctx)
               else rbind (request_evaluator ctx edge profile question) (\<lambda>ctx'. Inr (ER_pending, ctx'))))"

definition resolveIncomingEdge :: "tick_ctx \<Rightarrow> pipeline_edge \<Rightarrow> (edge_resolution \<times> tick_ctx) res" where
  "resolveIncomingEdge ctx edge =
     rbind (demand (map_of (cx_working ctx) (ed_from edge))) (\<lambda>predecessor.
       if \<not> st_selected predecessor \<and> st_state predecessor = S_cancelled then Inr (ER_rejected, ctx)
       else if st_state predecessor = S_blocked
       then Inr (ER_blocked (or_default (st_blockReason predecessor) ''predecessor_blocked''), ctx)
       else if st_state predecessor = S_failed
       then rbind (demand (map_of (cx_stagesById ctx) (ed_from edge))) (\<lambda>predecessorStage.
              if sd_optional predecessorStage then Inr (ER_waived, ctx)
              else Inr (ER_blocked (''required predecessor '' @ ed_from edge @ '' failed''), ctx))
       else if st_state predecessor = S_cancelled
       then (if st_lastTransitionReason predecessor = Some R_condition_not_selected
             then Inr (ER_rejected, ctx)
             else Inr (ER_blocked (''predecessor '' @ ed_from edge @ '' cancelled''), ctx))
       else if st_state predecessor \<noteq> S_succeeded then Inr (ER_pending, ctx)
       else resolve_condition ctx edge)"

fun resolve_edges :: "tick_ctx \<Rightarrow> pipeline_edge list \<Rightarrow> (edge_resolution list \<times> tick_ctx) res" where
  "resolve_edges ctx [] = Inr ([], ctx)"
| "resolve_edges ctx (edge # edges) =
     rbind (resolveIncomingEdge ctx edge) (\<lambda>(r, ctx').
       rbind (resolve_edges ctx' edges) (\<lambda>(rs, ctx''). Inr (r # rs, ctx'')))"

fun first_blocked :: "edge_resolution list \<Rightarrow> string option" where
  "first_blocked [] = None"
| "first_blocked (ER_blocked reason # rs) = Some reason"
| "first_blocked (r # rs) = first_blocked rs"

definition unsatisfiedReads :: "tick_ctx \<Rightarrow> stage_def \<Rightarrow> string option" where
  "unsatisfiedReads ctx stage =
     (let available = producedWrites ctx (sd_id stage) in
      List.find (\<lambda>read.
          list_ex (\<lambda>candidate. sd_id candidate \<noteq> sd_id stage \<and> read \<in> set (sd_writes candidate))
            (gr_stages (cx_graph ctx))
          \<and> read \<notin> set available)
        (sd_reads stage))"

definition stopping :: "tick_ctx \<Rightarrow> bool" where
  "stopping ctx \<longleftrightarrow> cx_cancelRequested ctx \<or> cx_deadlineExceeded ctx"

text \<open>What \<open>maybeReleaseStage\<close> does with the resolutions of the incoming edges.\<close>

definition settle_release :: "tick_ctx \<Rightarrow> stage_snapshot \<Rightarrow> edge_resolution list \<Rightarrow> tick_ctx res" where
  "settle_release ctx stage resolutions =
     (if ER_pending \<in> set resolutions then Inr ctx
      else case first_blocked resolutions of
        Some reason \<Rightarrow> applyTransition ctx stage S_blocked R_dependency_unsatisfied
          ((options A_block)\<lparr>to_blockReason := Some reason\<rparr>)
      | None \<Rightarrow>
          if ER_selected \<notin> set resolutions
          then applyTransition ctx stage S_cancelled R_condition_not_selected
            ((options A_cancel)\<lparr>to_selected := Some False, to_clearAttempt := True\<rparr>)
          else rbind (demand (map_of (cx_stagesById ctx) (st_stageId stage))) (\<lambda>definition.
            case unsatisfiedReads ctx definition of
              Some missing \<Rightarrow> applyTransition ctx stage S_blocked R_dependency_unsatisfied
                ((options A_block)\<lparr>to_blockReason := Some (''unsatisfied read '' @ missing)\<rparr>)
            | None \<Rightarrow> applyTransition ctx stage S_ready R_dependencies_satisfied (options A_release)))"

definition maybeReleaseStage :: "string \<Rightarrow> tick_ctx \<Rightarrow> tick_ctx res" where
  "maybeReleaseStage stageId ctx =
     rbind (demand (map_of (cx_working ctx) stageId)) (\<lambda>stage.
       if \<not> st_selected stage \<or> st_state stage \<noteq> S_pending then Inr ctx
       else if stopping ctx then Inr ctx
       else (let edges = or_default (map_of (cx_incoming ctx) stageId) [] in
             if edges = [] then applyTransition ctx stage S_ready R_root_eligible (options A_release)
             else rbind (resolve_edges ctx edges) (\<lambda>(resolutions, ctx'). settle_release ctx' stage resolutions)))"

section \<open>Cancellation\<close>

definition inactive_state :: "stage_state \<Rightarrow> bool" where
  "inactive_state s \<longleftrightarrow> s = S_pending \<or> s = S_ready \<or> s = S_retrying"

definition active_state :: "stage_state \<Rightarrow> bool" where
  "active_state s \<longleftrightarrow> s = S_queued \<or> s = S_running \<or> s = S_waiting"

definition cancelInactiveStage :: "tick_ctx \<Rightarrow> stage_snapshot \<Rightarrow> transition_reason \<Rightarrow> tick_ctx res" where
  "cancelInactiveStage ctx stage reason =
     (if inactive_state (st_state stage)
      then applyTransition ctx stage S_cancelled reason ((options A_cancel)\<lparr>to_clearAttempt := True\<rparr>)
      else Inr ctx)"

definition cancel_intent :: "tick_ctx \<Rightarrow> stage_snapshot \<Rightarrow> string \<Rightarrow> sched_intent" where
  "cancel_intent ctx stage attemptId =
     (let input = cx_input ctx in
      \<lparr>it_schemaVersion = contract_version ctx,
       it_intentId = deriveIntentId (si_runId input) (si_graphRevision input) K_cancel
         (coordinate_key (st_stageId stage) (st_generation stage) (st_attemptOrdinal stage)),
       it_runId = si_runId input, it_graphRevision = si_graphRevision input, it_kind = K_cancel,
       it_payload = PL_cancel (st_stageId stage) attemptId (st_generation stage) (st_attemptOrdinal stage),
       it_createdAt = si_now input\<rparr>)"

definition requestCancelForActive :: "tick_ctx \<Rightarrow> stage_snapshot \<Rightarrow> tick_ctx" where
  "requestCancelForActive ctx stage =
     (if \<not> active_state (st_state stage) then ctx
      else case st_currentAttemptId stage of
        None \<Rightarrow> ctx
      | Some attemptId \<Rightarrow>
          (let intent = cancel_intent ctx stage attemptId in
           if has_intent ctx (it_intentId intent) then ctx
           else recordDecision (add_intent ctx intent)
             ((decision_request (st_stageId stage) A_request_cancel R_cancel_requested
                 (st_generation stage) (st_attemptOrdinal stage))
              \<lparr>dr_attemptId := Some attemptId, dr_intentId := Some (it_intentId intent)\<rparr>)))"

text \<open>The body of the two cancellation loops of \<open>runTick\<close>.\<close>

definition cancel_stage :: "string \<Rightarrow> tick_ctx \<Rightarrow> tick_ctx res" where
  "cancel_stage stageId ctx =
     rbind (demand (map_of (cx_working ctx) stageId)) (\<lambda>stage.
       rbind (cancelInactiveStage ctx stage
                (if cx_deadlineExceeded ctx then R_deadline_exceeded else R_pipeline_cancelled)) (\<lambda>ctx'.
         rbind (demand (map_of (cx_working ctx') stageId)) (\<lambda>stage'.
           Inr (requestCancelForActive ctx' stage'))))"

end
