(* ===== verification/Scheduler_Tick.thy ===== *)
theory Scheduler_Tick
  imports Scheduler_Ops
begin

text \<open>
  The tick itself (\<open>packages/pipeline/src/scheduler/tick.ts\<close>): the handlers of observations, the
  recovery branch, re-arming, the release loop, dispatch, the terminal outcome, and the entry
  points \<open>tickScheduler\<close>, \<open>tickSchedulerV2\<close> and \<open>initialStageSnapshots\<close>. The release loop runs
  with a fuel of one round per working stage and per edge, plus one.
\<close>

section \<open>Manual reruns\<close>

definition rerun_stage :: "string \<Rightarrow> tick_ctx \<Rightarrow> tick_ctx res" where
  "rerun_stage targetId ctx =
     rbind (demand (map_of (cx_working ctx) targetId)) (\<lambda>stage.
       if \<not> isTerminalStageState (st_state stage) \<and> st_state stage \<noteq> S_pending then Inr ctx
       else
         (let from = st_state stage;
              stage' = stage\<lparr>st_generation := st_generation stage + 1, st_attemptOrdinal := 0,
                st_currentAttemptId := None, st_blockReason := None, st_selected := True,
                st_lastTransitionReason := Some R_manual_rerun, st_updatedAt := si_now (cx_input ctx),
                st_state := S_pending\<rparr>;
              ctx' = setRecoveryCounters (put_stage ctx stage') stage' no_counters
          in rbind (if from \<noteq> S_pending
                    then rbind (assertPermittedTransition from S_pending R_manual_rerun) (\<lambda>_.
                      Inr (ctx'\<lparr>cx_transitions := cx_transitions ctx' @
                        [\<lparr>tr_stageId = st_stageId stage', tr_from = from, tr_to = S_pending,
                          tr_reason = R_manual_rerun, tr_attemptId = None,
                          tr_generation = st_generation stage', tr_blockReason = None\<rparr>]\<rparr>))
                    else Inr ctx') (\<lambda>ctx''.
               Inr (recordDecision ctx''
                 ((decision_request (st_stageId stage') A_rerun R_manual_rerun (st_generation stage') 0)
                  \<lparr>dr_fromState := Some from, dr_toState := Some S_pending\<rparr>)))))"

definition rerun_targets :: "tick_ctx \<Rightarrow> string \<Rightarrow> string list" where
  "rerun_targets ctx stageId = sort (stageId # or_default (map_of (cx_descendants ctx) stageId) [])"

definition processManualRerun :: "tick_ctx \<Rightarrow> string \<Rightarrow> tick_ctx res" where
  "processManualRerun ctx stageId =
     (if map_of (cx_working ctx) stageId = None then Inr ctx
      else rfold rerun_stage (rerun_targets ctx stageId) ctx)"

section \<open>Failures and recovery\<close>

definition resolveFailureFromObservation :: "observation \<Rightarrow> pipeline_failure option" where
  "resolveFailureFromObservation ob =
     (case ob_failure ob of
        Some failure \<Rightarrow> Some failure
      | None \<Rightarrow>
          (case (ob_classification ob, ob_phase ob, ob_code ob) of
             (Some classification, Some phase, Some code) \<Rightarrow>
               Some (classifyFailure
                 \<lparr>ci_classification = classification, ci_phase = phase, ci_code = code,
                  ci_retryable = (ob_retryable ob = Some True),
                  ci_backendClassification = ob_backendClassification ob,
                  ci_validationFailures = ob_validationFailures ob\<rparr>)
           | _ \<Rightarrow> None))"

definition fail_transition_reason :: "fail_reason \<Rightarrow> transition_reason" where
  "fail_transition_reason r =
     (if r = FR_repair_exhausted \<or> r = FR_unchanged_failure_exhausted then R_retry_exhausted else R_attempt_failed)"

definition fail_decision_reason :: "fail_reason \<Rightarrow> transition_reason" where
  "fail_decision_reason r =
     (case r of FR_repair_exhausted \<Rightarrow> R_repair_exhausted
      | FR_unchanged_failure_exhausted \<Rightarrow> R_unchanged_failure_exhausted
      | FR_recovery_rejected \<Rightarrow> R_recovery_rejected | FR_attempt_failed \<Rightarrow> R_attempt_failed)"

definition applyRecoveryDecision ::
  "tick_ctx \<Rightarrow> stage_snapshot \<Rightarrow> observation \<Rightarrow> decide_result \<Rightarrow> tick_ctx res" where
  "applyRecoveryDecision ctx stage ob result =
     (let decision = result_decision result;
          ctx1 = ctx\<lparr>cx_recoveryDecisions := cx_recoveryDecisions ctx @ [decision]\<rparr>;
          ctx2 = setRecoveryCounters ctx1 stage (result_counters result);
          opts = (\<lambda>action reason. (options action)
            \<lparr>to_attemptId := or_else (ob_attemptId ob) (st_currentAttemptId stage),
             to_decisionReason := Some reason,
             to_recoveryDecisionId := Some (rec_decisionId decision),
             to_signatureDigest := map_option fs_digest (rec_signature decision)\<rparr>)
      in case result of
           D_fail reason _ _ \<Rightarrow>
             applyTransition ctx2 stage S_failed (fail_transition_reason reason)
               (opts A_fail (fail_decision_reason reason))
         | D_block _ blockReason _ _ \<Rightarrow>
             applyTransition ctx2 stage S_blocked R_condition_blocked
               ((opts A_block R_condition_blocked)\<lparr>to_blockReason := Some blockReason\<rparr>)
         | D_propose _ _ _ \<Rightarrow>
             applyTransition ctx2 stage S_waiting R_attempt_waiting (opts A_propose_recovery R_recovery_proposed)
         | D_retry reason _ _ _ \<Rightarrow>
             applyTransition ctx2 stage S_retrying R_retry_scheduled
               (if reason = RR_recovery_approved then opts A_approve_recovery R_recovery_approved
                else opts A_retry R_retry_scheduled))"

text \<open>
  The execution mode is \<open>input.executionMode ?? definition.mode ?? graph.mode\<close>; a normalized stage
  always has a mode.
\<close>

definition recovery_input ::
  "tick_ctx \<Rightarrow> stage_snapshot \<Rightarrow> observation \<Rightarrow> stage_def \<Rightarrow> pipeline_failure \<Rightarrow> recovery_counters \<Rightarrow> decide_input" where
  "recovery_input ctx stage ob definition failure counters =
     (let input = cx_input ctx in
      \<lparr>di_runId = si_runId input, di_stageId = st_stageId stage, di_graphRevision = si_graphRevision input,
       di_generation = st_generation stage, di_attemptOrdinal = st_attemptOrdinal stage,
       di_now = si_now input, di_failure = failure, di_stageType = sd_type definition,
       di_sessionPolicy = sd_session definition,
       di_onValidationFailure = sd_onValidationFailure definition,
       di_executionMode = or_default (si_executionMode input) (sd_mode definition),
       di_counters = counters,
       di_repairBudget = maxRepairAttemptsFor definition (cx_graph ctx) (si_effectiveLimits input),
       di_priorAttemptId = or_else (ob_attemptId ob) (st_currentAttemptId stage),
       di_priorBackendExecutionId = ob_priorBackendExecutionId ob,
       di_resumeAvailable = (ob_resumeAvailable ob = Some True)\<rparr>)"

text \<open>The branch of \<open>processAttemptFailed\<close> for an observation without a classified failure.\<close>

definition legacy_failure :: "tick_ctx \<Rightarrow> stage_snapshot \<Rightarrow> observation \<Rightarrow> stage_def \<Rightarrow> tick_ctx res" where
  "legacy_failure ctx stage ob definition =
     (let maxRepairs = maxRepairAttemptsFor definition (cx_graph ctx) (si_effectiveLimits (cx_input ctx));
          repairsUsed = st_attemptOrdinal stage - 1;
          attemptId = or_else (ob_attemptId ob) (st_currentAttemptId stage)
      in if ob_retryable ob = Some True \<and> repairsUsed < maxRepairs
         then applyTransition ctx stage S_retrying R_retry_scheduled ((options A_retry)\<lparr>to_attemptId := attemptId\<rparr>)
         else applyTransition ctx stage S_failed
           (if maxRepairs \<le> repairsUsed \<and> ob_retryable ob = Some True then R_retry_exhausted else R_attempt_failed)
           ((options A_fail)\<lparr>to_attemptId := attemptId\<rparr>))"

definition processAttemptFailed ::
  "platform \<Rightarrow> tick_ctx \<Rightarrow> stage_snapshot \<Rightarrow> observation \<Rightarrow> tick_ctx res" where
  "processAttemptFailed pl ctx stage ob =
     (if st_state stage \<noteq> S_running \<and> st_state stage \<noteq> S_waiting then Inr ctx
      else
        (let definition = map_of (cx_stagesById ctx) (st_stageId stage) in
         case resolveFailureFromObservation ob of
           Some failure \<Rightarrow>
             (let (counters, ctx') = getRecoveryCounters ctx stage in
              rbind (demand definition) (\<lambda>d.
                applyRecoveryDecision ctx' stage ob
                  (decideRecovery pl (recovery_input ctx' stage ob d failure counters))))
         | None \<Rightarrow> rbind (demand definition) (legacy_failure ctx stage ob)))"

definition approved_outcome :: "retry_directive \<Rightarrow> recovery_outcome" where
  "approved_outcome directive =
     (if rd_mode directive = M_delegate then OC_delegate
      else if rd_mode directive = M_resume then OC_repair else OC_repair_fresh)"

definition review_decision ::
  "tick_ctx \<Rightarrow> stage_snapshot \<Rightarrow> recovery_action \<Rightarrow> recovery_outcome \<Rightarrow> retry_directive option \<Rightarrow>
   string option \<Rightarrow> recovery_counters \<Rightarrow> stage_def \<Rightarrow> recovery_decision" where
  "review_decision ctx stage action outcome directive proposalId counters definition =
     (let input = cx_input ctx in
      \<lparr>rec_decisionId = deriveRecoveryDecisionId (si_runId input) (si_graphRevision input) (st_stageId stage)
         (st_generation stage) (st_attemptOrdinal stage) (recovery_action_name action),
       rec_runId = si_runId input, rec_stageId = st_stageId stage, rec_graphRevision = si_graphRevision input,
       rec_generation = st_generation stage, rec_attemptOrdinal = st_attemptOrdinal stage,
       rec_action = action, rec_outcome = outcome, rec_failure = None, rec_signature = None,
       rec_directive = directive, rec_proposalId = proposalId, rec_repairsUsed = rc_repairsUsed counters,
       rec_repairBudget = maxRepairAttemptsFor definition (cx_graph ctx) (si_effectiveLimits input),
       rec_identicalSignatureCount = rc_identicalSignatureCount counters,
       rec_detail = None, rec_recordedAt = si_now input\<rparr>)"

definition processRecoveryApproved :: "tick_ctx \<Rightarrow> stage_snapshot \<Rightarrow> observation \<Rightarrow> tick_ctx res" where
  "processRecoveryApproved ctx stage ob =
     (if st_state stage \<noteq> S_waiting then Inr ctx
      else
        (let (counters, ctx1) = getRecoveryCounters ctx stage in
         if ob_proposalId ob = None \<or> rc_pendingProposalId counters = None
            \<or> ob_proposalId ob \<noteq> rc_pendingProposalId counters then Inr ctx1
         else case rc_pendingDirective counters of
           None \<Rightarrow> Inr ctx1
         | Some directive \<Rightarrow>
             rbind (demand (map_of (cx_stagesById ctx1) (st_stageId stage))) (\<lambda>definition.
               let nextCounters = counters\<lparr>rc_repairsUsed := rc_repairsUsed counters + 1,
                                           rc_pendingProposalId := None\<rparr>;
                   decision = review_decision ctx1 stage RA_approve (approved_outcome directive)
                     (Some directive) (ob_proposalId ob) nextCounters definition;
                   ctx2 = ctx1\<lparr>cx_recoveryDecisions := cx_recoveryDecisions ctx1 @ [decision]\<rparr>;
                   ctx3 = setRecoveryCounters ctx2 stage nextCounters
               in applyTransition ctx3 stage S_retrying R_retry_scheduled
                    ((options A_approve_recovery)
                     \<lparr>to_attemptId := or_else (ob_attemptId ob) (st_currentAttemptId stage),
                      to_decisionReason := Some R_recovery_approved,
                      to_recoveryDecisionId := Some (rec_decisionId decision)\<rparr>))))"

definition processRecoveryRejected :: "tick_ctx \<Rightarrow> stage_snapshot \<Rightarrow> observation \<Rightarrow> tick_ctx res" where
  "processRecoveryRejected ctx stage ob =
     (if st_state stage \<noteq> S_waiting then Inr ctx
      else
        (let (counters, ctx1) = getRecoveryCounters ctx stage in
         if ob_proposalId ob \<noteq> None \<and> rc_pendingProposalId counters \<noteq> None
            \<and> ob_proposalId ob \<noteq> rc_pendingProposalId counters then Inr ctx1
         else
           rbind (demand (map_of (cx_stagesById ctx1) (st_stageId stage))) (\<lambda>definition.
             let decision = review_decision ctx1 stage RA_reject OC_rejected None (ob_proposalId ob)
                   counters definition;
                 ctx2 = ctx1\<lparr>cx_recoveryDecisions := cx_recoveryDecisions ctx1 @ [decision]\<rparr>;
                 ctx3 = setRecoveryCounters ctx2 stage
                   (counters\<lparr>rc_pendingProposalId := None, rc_pendingDirective := None\<rparr>)
             in applyTransition ctx3 stage S_failed R_attempt_failed
                  ((options A_reject_recovery)
                   \<lparr>to_attemptId := or_else (ob_attemptId ob) (st_currentAttemptId stage),
                    to_decisionReason := Some R_recovery_rejected,
                    to_recoveryDecisionId := Some (rec_decisionId decision)\<rparr>))))"

section \<open>Observations\<close>

definition record_evaluator :: "tick_ctx \<Rightarrow> observation \<Rightarrow> tick_ctx" where
  "record_evaluator ctx ob =
     (case (ob_edgeKey ob, ob_selected ob) of
        (Some key, Some selected) \<Rightarrow>
          (let ctx1 = ctx\<lparr>cx_evaluatorDecisions := AList.update key selected (cx_evaluatorDecisions ctx),
                          cx_pendingEvaluators := filter (\<lambda>k. k \<noteq> key) (cx_pendingEvaluators ctx)\<rparr>;
               stageId = or_default (or_else (second_piece key) (ob_stageId ob)) ''unknown'';
               stage = map_of (cx_working ctx1) stageId
           in recordDecision ctx1
                ((decision_request stageId (if selected then A_select_edge else A_reject_edge)
                    (if selected then R_dependencies_satisfied else R_condition_not_selected)
                    (or_default (map_option st_generation stage) 1)
                    (or_default (map_option st_attemptOrdinal stage) 0))
                 \<lparr>dr_detail := Some key\<rparr>))
      | _ \<Rightarrow> ctx)"

text \<open>The second switch of \<open>processObservation\<close>, on the stage the observation is about.\<close>

definition stage_observation :: "platform \<Rightarrow> tick_ctx \<Rightarrow> stage_snapshot \<Rightarrow> observation \<Rightarrow> tick_ctx res" where
  "stage_observation pl ctx stage ob =
     (let attemptId = or_else (ob_attemptId ob) (st_currentAttemptId stage) in
      case ob_kind ob of
        O_attempt_started \<Rightarrow>
          if st_state stage = S_queued \<or> st_state stage = S_waiting
          then applyTransition ctx stage S_running R_attempt_started ((options A_start)\<lparr>to_attemptId := attemptId\<rparr>)
          else Inr ctx
      | O_attempt_waiting \<Rightarrow>
          if st_state stage = S_running
          then applyTransition ctx stage S_waiting R_attempt_waiting ((options A_wait)\<lparr>to_attemptId := attemptId\<rparr>)
          else Inr ctx
      | O_attempt_succeeded \<Rightarrow>
          if st_state stage = S_running \<or> st_state stage = S_waiting
          then applyTransition ctx stage S_succeeded R_attempt_succeeded ((options A_succeed)\<lparr>to_attemptId := attemptId\<rparr>)
          else Inr ctx
      | O_attempt_failed \<Rightarrow> processAttemptFailed pl ctx stage ob
      | O_recovery_approved \<Rightarrow> processRecoveryApproved ctx stage ob
      | O_recovery_rejected \<Rightarrow> processRecoveryRejected ctx stage ob
      | O_cancellation_settled \<Rightarrow>
          if active_state (st_state stage)
          then applyTransition ctx stage S_cancelled R_cancellation_settled ((options A_cancel)\<lparr>to_attemptId := attemptId\<rparr>)
          else Inr ctx
      | _ \<Rightarrow> Inr ctx)"

definition observe_stage :: "platform \<Rightarrow> observation \<Rightarrow> tick_ctx \<Rightarrow> tick_ctx res" where
  "observe_stage pl ob ctx =
     (case Option.bind (ob_stageId ob) (map_of (cx_working ctx)) of
        None \<Rightarrow> Inr ctx
      | Some stage \<Rightarrow> stage_observation pl ctx stage ob)"

definition processObservation :: "platform \<Rightarrow> observation \<Rightarrow> tick_ctx \<Rightarrow> tick_ctx res" where
  "processObservation pl ob ctx0 =
     (let ctx = ctx0\<lparr>cx_consumedObservationIds := cx_consumedObservationIds ctx0 @ [ob_observationId ob]\<rparr> in
      case ob_kind ob of
        O_cancel_requested \<Rightarrow> Inr (ctx\<lparr>cx_cancelRequested := True\<rparr>)
      | O_manual_rerun \<Rightarrow> (case ob_stageId ob of None \<Rightarrow> Inr ctx | Some stageId \<Rightarrow> processManualRerun ctx stageId)
      | O_evaluator_decided \<Rightarrow> Inr (record_evaluator ctx ob)
      | _ \<Rightarrow> observe_stage pl ob ctx)"

section \<open>Re-arming and dispatch\<close>

definition rearm_stage :: "string \<Rightarrow> tick_ctx \<Rightarrow> tick_ctx res" where
  "rearm_stage stageId ctx =
     rbind (demand (map_of (cx_working ctx) stageId)) (\<lambda>stage.
       if st_state stage \<noteq> S_retrying then Inr ctx
       else if stopping ctx then Inr ctx
       else applyTransition ctx stage S_ready R_retry_scheduled ((options A_rearm)\<lparr>to_clearAttempt := True\<rparr>))"

definition rearmRetries :: "tick_ctx \<Rightarrow> string list \<Rightarrow> tick_ctx res" where
  "rearmRetries ctx retryingAtTickStart = rfold rearm_stage (sort retryingAtTickStart) ctx"

definition build_attempt ::
  "tick_ctx \<Rightarrow> stage_snapshot \<Rightarrow> stage_def \<Rightarrow> string \<Rightarrow> retry_directive option \<Rightarrow> stage_attempt" where
  "build_attempt ctx stage definition attemptId directive =
     (let input = cx_input ctx in
      \<lparr>at_schemaVersion = (if cx_v2 ctx \<or> directive \<noteq> None then 2 else 1),
       at_attemptId = attemptId, at_runId = si_runId input, at_pipelineId = si_pipelineId input,
       at_stageId = st_stageId stage, at_graphRevision = si_graphRevision input,
       at_generation = st_generation stage, at_attemptOrdinal = st_attemptOrdinal stage,
       at_stageType = sd_type definition, at_createdAt = si_now input,
       at_sessionPolicy = map_option rd_sessionPolicy directive,
       at_priorAttemptId = Option.bind directive rd_priorAttemptId,
       at_recoveryDecisionId = Option.bind directive (\<lambda>_.
         map_option rec_decisionId (List.find (\<lambda>d. rec_stageId d = st_stageId stage) (rev (cx_recoveryDecisions ctx)))),
       at_delegatedProfileId = Option.bind directive rd_delegateTo,
       at_retryDirective = directive\<rparr>)"

definition dispatch_intent ::
  "tick_ctx \<Rightarrow> stage_snapshot \<Rightarrow> stage_def \<Rightarrow> string \<Rightarrow> retry_directive option \<Rightarrow> sched_intent" where
  "dispatch_intent ctx stage definition attemptId directive =
     (let input = cx_input ctx in
      \<lparr>it_schemaVersion = contract_version ctx,
       it_intentId = deriveIntentId (si_runId input) (si_graphRevision input) K_dispatch
         (coordinate_key (st_stageId stage) (st_generation stage) (st_attemptOrdinal stage)),
       it_runId = si_runId input, it_graphRevision = si_graphRevision input, it_kind = K_dispatch,
       it_payload = PL_dispatch (st_stageId stage) (sd_type definition) attemptId (st_generation stage)
         (st_attemptOrdinal stage) directive,
       it_createdAt = si_now input\<rparr>)"

text \<open>
  The body of the loop of \<open>queueReadyStages\<close> for a stage it dispatches: the pending retry
  directive is taken from the counters, and the stage is queued with its next attempt.
\<close>

definition claim_directive :: "tick_ctx \<Rightarrow> stage_snapshot \<Rightarrow> retry_directive option \<times> tick_ctx" where
  "claim_directive ctx stage =
     (let (counters, ctx1) = getRecoveryCounters ctx stage;
          directive = rc_pendingDirective counters
      in (directive, if directive = None then ctx1
            else setRecoveryCounters ctx1 stage
              (counters\<lparr>rc_pendingProposalId := None, rc_pendingDirective := None\<rparr>)))"

definition next_attempt :: "stage_snapshot \<Rightarrow> stage_snapshot" where
  "next_attempt stage = stage\<lparr>st_attemptOrdinal := st_attemptOrdinal stage + 1\<rparr>"

definition dispatch_stage :: "tick_ctx \<Rightarrow> stage_snapshot \<Rightarrow> retry_directive option \<Rightarrow> stage_def \<Rightarrow> tick_ctx res" where
  "dispatch_stage ctx stage directive definition =
     (let input = cx_input ctx;
          attemptId = deriveAttemptId (si_runId input) (si_graphRevision input) (st_stageId stage)
            (st_generation stage) (st_attemptOrdinal stage);
          attempt = build_attempt ctx stage definition attemptId directive;
          intent = dispatch_intent ctx stage definition attemptId directive;
          ctx' = add_intent (ctx\<lparr>cx_attempts := cx_attempts ctx @ [attempt]\<rparr>) intent
      in applyTransition ctx' stage S_queued R_dispatch_intent
           ((options A_queue)\<lparr>to_attemptId := Some attemptId, to_intentId := Some (it_intentId intent)\<rparr>))"

definition queue_stage :: "tick_ctx \<Rightarrow> stage_snapshot \<Rightarrow> tick_ctx res" where
  "queue_stage ctx stage0 =
     (let stage = next_attempt stage0;
          (directive, ctx') = claim_directive ctx stage
      in rbind (demand (map_of (cx_stagesById ctx) (st_stageId stage0))) (dispatch_stage ctx' stage directive))"

definition at_limit :: "nat option \<Rightarrow> nat \<Rightarrow> bool" where
  "at_limit maxConcurrent inFlight \<longleftrightarrow> (case maxConcurrent of None \<Rightarrow> False | Some m \<Rightarrow> m \<le> inFlight)"

fun queue_loop :: "nat option \<Rightarrow> string list \<Rightarrow> nat \<Rightarrow> tick_ctx \<Rightarrow> tick_ctx res" where
  "queue_loop maxConcurrent [] inFlight ctx = Inr ctx"
| "queue_loop maxConcurrent (stageId # ids) inFlight ctx =
     rbind (demand (map_of (cx_working ctx) stageId)) (\<lambda>stage.
       if st_state stage \<noteq> S_ready \<or> \<not> st_selected stage then queue_loop maxConcurrent ids inFlight ctx
       else if stopping ctx then queue_loop maxConcurrent ids inFlight ctx
       else if at_limit maxConcurrent inFlight then Inr ctx
       else rbind (queue_stage ctx stage) (queue_loop maxConcurrent ids (Suc inFlight)))"

definition in_flight :: "tick_ctx \<Rightarrow> nat" where
  "in_flight ctx = length (filter (\<lambda>(_, stage). active_state (st_state stage)) (cx_working ctx))"

definition sorted_ids :: "tick_ctx \<Rightarrow> string list" where
  "sorted_ids ctx = sort (map fst (cx_working ctx))"

definition max_concurrent :: "tick_ctx \<Rightarrow> nat option" where
  "max_concurrent ctx = resolveEffectiveConcurrency
     (Option.bind (si_effectiveLimits (cx_input ctx)) el_maxConcurrentWorkers)
     (gr_maxConcurrentWorkers (cx_graph ctx))"

definition queueReadyStages :: "tick_ctx \<Rightarrow> tick_ctx res" where
  "queueReadyStages ctx = queue_loop (max_concurrent ctx) (sorted_ids ctx) (in_flight ctx) ctx"

section \<open>The terminal outcome\<close>

fun requiredFailed :: "(string, stage_def) jsmap \<Rightarrow> stage_snapshot list \<Rightarrow> bool res" where
  "requiredFailed defs [] = Inr False"
| "requiredFailed defs (stage # stages) =
     (if st_state stage \<noteq> S_failed then requiredFailed defs stages
      else rbind (demand (map_of defs (st_stageId stage))) (\<lambda>d.
        if \<not> sd_optional d then Inr True else requiredFailed defs stages))"

definition terminal :: "schedule_outcome \<Rightarrow> string \<Rightarrow> schedule_terminal" where
  "terminal outcome reason = \<lparr>te_outcome = outcome, te_reason = reason, te_blockedStageId = None\<rparr>"

definition computeTerminal :: "tick_ctx \<Rightarrow> schedule_terminal option res" where
  "computeTerminal ctx =
     (let stages = map snd (cx_working ctx) in
      if \<exists>stage \<in> set stages. \<not> isTerminalStageState (st_state stage) then Inr None
      else case List.find (\<lambda>stage. st_state stage = S_blocked) stages of
        Some blocked \<Rightarrow> Inr (Some \<lparr>te_outcome = SO_blocked,
          te_reason = or_default (st_blockReason blocked) ''stage_blocked'',
          te_blockedStageId = Some (st_stageId blocked)\<rparr>)
      | None \<Rightarrow>
          if cx_cancelRequested ctx \<or> (\<forall>stage \<in> set stages. st_state stage = S_cancelled)
          then Inr (Some (terminal SO_cancelled
            (if cx_deadlineExceeded ctx then ''deadline_exceeded'' else ''cancel_requested'')))
          else rbind (requiredFailed (cx_stagesById ctx) stages) (\<lambda>failed.
            if failed then Inr (Some (terminal SO_failed ''required_stage_failed''))
            else
              (let anySucceeded = (\<exists>stage \<in> set stages. st_state stage = S_succeeded) in
               if (anySucceeded \<or> (\<forall>stage \<in> set stages. st_state stage = S_cancelled \<or> st_state stage = S_failed))
                  \<and> \<not> anySucceeded \<and> (\<forall>stage \<in> set stages. st_state stage = S_cancelled)
               then Inr (Some (terminal SO_cancelled ''all_stages_cancelled''))
               else Inr (Some (terminal SO_succeeded ''graph_complete'')))))"

definition terminal_reason :: "schedule_outcome \<Rightarrow> transition_reason" where
  "terminal_reason outcome =
     (case outcome of SO_blocked \<Rightarrow> R_dependency_unsatisfied | SO_cancelled \<Rightarrow> R_pipeline_cancelled
      | SO_failed \<Rightarrow> R_attempt_failed | SO_succeeded \<Rightarrow> R_attempt_succeeded)"

definition record_terminal :: "tick_ctx \<Rightarrow> schedule_terminal option \<Rightarrow> tick_ctx res" where
  "record_terminal ctx t =
     (case t of
        None \<Rightarrow> Inr ctx
      | Some t \<Rightarrow>
          rbind (case te_blockedStageId t of Some s \<Rightarrow> Inr s
                 | None \<Rightarrow> (case gr_stages (cx_graph ctx) of [] \<Rightarrow> Inl TypeError | d # _ \<Rightarrow> Inr (sd_id d))) (\<lambda>stageId.
            Inr (recordDecision ctx
              ((decision_request stageId A_terminal (terminal_reason (te_outcome t)) 1 0)
               \<lparr>dr_detail := Some (te_reason t)\<rparr>))))"

section \<open>The tick\<close>

definition sortDecisions :: "sched_decision list \<Rightarrow> sched_decision list" where
  "sortDecisions = sort_key (\<lambda>d. (dc_stageId d, dc_decisionId d))"

definition restore_counters :: "stage_recovery_state \<Rightarrow> keyed_counters" where
  "restore_counters entry =
     \<lparr>kc_generation = rs_generation entry,
      kc_counters = \<lparr>rc_repairsUsed = rs_repairsUsed entry,
        rc_lastSignatureDigest = rs_lastSignatureDigest entry,
        rc_identicalSignatureCount = rs_identicalSignatureCount entry,
        rc_pendingProposalId = rs_pendingProposalId entry,
        rc_pendingDirective = or_else (rs_pendingDirective entry) (rs_pendingProposalJson entry)\<rparr>\<rparr>"

definition initial_working :: "sched_input \<Rightarrow> (string, stage_snapshot) jsmap" where
  "initial_working input =
     (let snapshots = js_map_of (map (\<lambda>s. (st_stageId s, cloneStage s)) (si_stages input)) in
      fold (\<lambda>stage working.
          if map_of working (sd_id stage) \<noteq> None then working
          else AList.update (sd_id stage)
            (pending_snapshot (si_runId input) (si_graphRevision input) (sd_id stage) (si_now input)) working)
        (gr_stages (si_graph input)) snapshots)"

definition createTickContext :: "sched_input \<Rightarrow> bool \<Rightarrow> tick_ctx res" where
  "createTickContext input v2 =
     (let graph = si_graph input in
      rbind (buildEdgeMaps graph) (\<lambda>(incoming, outgoing).
      rbind (buildDescendants graph) (\<lambda>descendants.
        Inr \<lparr>cx_input = input, cx_graph = graph,
          cx_stagesById = js_map_of (map (\<lambda>stage. (sd_id stage, stage)) (gr_stages graph)),
          cx_incoming = incoming, cx_outgoing = outgoing, cx_descendants = descendants,
          cx_working = initial_working input,
          cx_evaluatorDecisions = js_map_of (map (\<lambda>e. (ev_edgeKey e, ev_selected e)) (si_evaluatorDecisions input)),
          cx_pendingEvaluators = js_set_of (si_pendingEvaluatorEdgeKeys input),
          cx_recoveryByKey = js_map_of (map (\<lambda>e. (recoveryKey (rs_stageId e) (rs_generation e), restore_counters e))
            (or_default (si_recoveryState input) [])),
          cx_transitions = [], cx_decisions = [], cx_intents = [], cx_attempts = [],
          cx_recoveryDecisions = [], cx_consumedObservationIds = [], cx_v2 = v2,
          cx_cancelRequested = False,
          cx_deadlineExceeded = (case si_deadlineAt input of None \<Rightarrow> False | Some d \<Rightarrow> d \<le> si_now input)\<rparr>)))"

definition cancel_all :: "tick_ctx \<Rightarrow> tick_ctx res" where
  "cancel_all ctx = (if stopping ctx then rfold cancel_stage (sorted_ids ctx) ctx else Inr ctx)"

definition work_done :: "tick_ctx \<Rightarrow> nat" where
  "work_done ctx = length (cx_transitions ctx) + length (cx_intents ctx)"

fun release_loop :: "nat \<Rightarrow> tick_ctx \<Rightarrow> tick_ctx res" where
  "release_loop 0 ctx = Inl Out_of_fuel"
| "release_loop (Suc fuel) ctx =
     rbind (rfold maybeReleaseStage (sorted_ids ctx) ctx) (\<lambda>ctx'.
       if work_done ctx < work_done ctx' then release_loop fuel ctx' else Inr ctx')"

definition release_fuel :: "tick_ctx \<Rightarrow> nat" where
  "release_fuel ctx = length (cx_working ctx) + length (gr_edges (cx_graph ctx)) + 1"

definition build_plan :: "tick_ctx \<Rightarrow> schedule_terminal option \<Rightarrow> sched_plan" where
  "build_plan ctx t =
     (let input = cx_input ctx; recovery = (cx_v2 ctx \<or> cx_recoveryDecisions ctx \<noteq> []) in
      \<lparr>pn_schemaVersion = contract_version ctx, pn_runId = si_runId input,
       pn_graphRevision = si_graphRevision input, pn_expectedScheduleRevision = si_scheduleRevision input,
       pn_nextScheduleRevision = si_scheduleRevision input + 1, pn_recordedAt = si_now input,
       pn_transitions = cx_transitions ctx,
       pn_decisions = sortDecisions (cx_decisions ctx),
       pn_intents = sort_key it_intentId (cx_intents ctx),
       pn_attempts = sort_key at_attemptId (cx_attempts ctx),
       pn_stagePatches = sort_key st_stageId (map (\<lambda>(_, stage). freezeSnapshot stage) (cx_working ctx)),
       pn_consumedObservationIds = sort (cx_consumedObservationIds ctx),
       pn_terminal = t,
       pn_recoveryDecisions = (if recovery then Some (sort_key rec_decisionId (cx_recoveryDecisions ctx)) else None),
       pn_recoveryState = (if recovery then Some (freezeRecoveryState ctx) else None)\<rparr>)"

definition sorted_observations :: "tick_ctx \<Rightarrow> observation list" where
  "sorted_observations ctx = sort_key (\<lambda>ob. (ob_recordedAt ob, ob_observationId ob)) (si_observations (cx_input ctx))"

definition retrying_ids :: "tick_ctx \<Rightarrow> string list" where
  "retrying_ids ctx = js_set_of (map (st_stageId \<circ> snd)
     (filter (\<lambda>(_, stage). st_state stage = S_retrying) (cx_working ctx)))"

text \<open>\<open>runTick\<close> up to the terminal outcome, and with the plan it returns.\<close>

definition tick_body :: "platform \<Rightarrow> tick_ctx \<Rightarrow> tick_ctx res" where
  "tick_body pl ctx =
     rbind (rfold (processObservation pl) (sorted_observations ctx) ctx) (\<lambda>ctx1.
     rbind (cancel_all ctx1) (\<lambda>ctx2.
     rbind (rearmRetries ctx2 (retrying_ids ctx)) (\<lambda>ctx3.
     rbind (release_loop (release_fuel ctx3) ctx3) (\<lambda>ctx4.
     rbind (queueReadyStages ctx4) cancel_all))))"

definition runTick :: "platform \<Rightarrow> tick_ctx \<Rightarrow> sched_plan res" where
  "runTick pl ctx =
     rbind (tick_body pl ctx) (\<lambda>ctx'.
     rbind (computeTerminal ctx') (\<lambda>t.
     rbind (record_terminal ctx' t) (\<lambda>ctx''. Inr (build_plan ctx'' t))))"

definition wants_v2 :: "sched_input \<Rightarrow> bool" where
  "wants_v2 input \<longleftrightarrow> si_schemaVersion input = 2 \<or> si_recoveryState input \<noteq> None
     \<or> si_effectiveLimits input \<noteq> None \<or> si_executionMode input \<noteq> None
     \<or> list_ex (\<lambda>ob. ob_failure ob \<noteq> None \<or> ob_kind ob = O_recovery_approved
          \<or> ob_kind ob = O_recovery_rejected \<or> ob_kind ob = O_recovery_proposed) (si_observations input)"

definition tickScheduler :: "platform \<Rightarrow> sched_input \<Rightarrow> sched_plan res" where
  "tickScheduler pl input = rbind (createTickContext input (wants_v2 input)) (runTick pl)"

definition tickSchedulerV2 :: "platform \<Rightarrow> sched_input \<Rightarrow> sched_plan res" where
  "tickSchedulerV2 pl input =
     rbind (rbind (createTickContext (input\<lparr>si_schemaVersion := 2\<rparr>) True) (runTick pl)) (\<lambda>plan.
       Inr (plan\<lparr>pn_schemaVersion := 2, pn_recoveryDecisions := Some (or_default (pn_recoveryDecisions plan) [])\<rparr>))"

definition initialStageSnapshots :: "string \<Rightarrow> nat \<Rightarrow> pipeline_graph \<Rightarrow> string \<Rightarrow> stage_snapshot list" where
  "initialStageSnapshots runId graphRevision graph now =
     sort_key st_stageId (map (\<lambda>stage. pending_snapshot runId graphRevision (sd_id stage) now) (gr_stages graph))"

end
