(* ===== verification/Scheduler_Run.thy ===== *)
theory Scheduler_Run
  imports Scheduler_Tick
begin

text \<open>
  What a scheduler tick does to its context, whatever its input: the transitions a tick records are
  a run of the stage state machine (the step relation \<open>stage_run\<close>), from the states the tick
  started with to the states it ends with. The relation \<open>evolves\<close> says so of every operation, and
  the loops of the tick inherit it through the contract \<open>safe_step\<close>.
\<close>

section \<open>Runs of the stage state machine\<close>

type_synonym stage_states = "string \<Rightarrow> stage_state option"

inductive stage_run :: "stage_states \<Rightarrow> stage_transition list \<Rightarrow> stage_states \<Rightarrow> bool" where
  run_done: "stage_run m [] m"
| run_step: "m (tr_stageId t) = Some (tr_from t) \<Longrightarrow>
    isPermittedTransition (tr_from t) (tr_to t) (tr_reason t) \<Longrightarrow>
    stage_run (m(tr_stageId t \<mapsto> tr_to t)) ts m' \<Longrightarrow> stage_run m (t # ts) m'"

inductive_simps stage_run_Nil [simp]: "stage_run m [] m'"
inductive_simps stage_run_Cons [simp]: "stage_run m (t # ts) m'"

lemma stage_run_append: "stage_run m ts m' \<Longrightarrow> stage_run m' us m'' \<Longrightarrow> stage_run m (ts @ us) m''"
  by (induction rule: stage_run.induct) auto

section \<open>Frame facts of the small operations\<close>

lemma recordDecision_frame [simp]:
  "cx_input (recordDecision c d) = cx_input c" "cx_graph (recordDecision c d) = cx_graph c"
  "cx_stagesById (recordDecision c d) = cx_stagesById c" "cx_incoming (recordDecision c d) = cx_incoming c"
  "cx_descendants (recordDecision c d) = cx_descendants c" "cx_working (recordDecision c d) = cx_working c"
  "cx_evaluatorDecisions (recordDecision c d) = cx_evaluatorDecisions c"
  "cx_pendingEvaluators (recordDecision c d) = cx_pendingEvaluators c"
  "cx_recoveryByKey (recordDecision c d) = cx_recoveryByKey c"
  "cx_transitions (recordDecision c d) = cx_transitions c" "cx_intents (recordDecision c d) = cx_intents c"
  "cx_attempts (recordDecision c d) = cx_attempts c" "cx_v2 (recordDecision c d) = cx_v2 c"
  "cx_recoveryDecisions (recordDecision c d) = cx_recoveryDecisions c"
  "cx_consumedObservationIds (recordDecision c d) = cx_consumedObservationIds c"
  "cx_cancelRequested (recordDecision c d) = cx_cancelRequested c"
  "cx_deadlineExceeded (recordDecision c d) = cx_deadlineExceeded c"
  by (simp_all add: recordDecision_def Let_def)

lemma setRecoveryCounters_frame [simp]:
  "cx_input (setRecoveryCounters c s k) = cx_input c" "cx_graph (setRecoveryCounters c s k) = cx_graph c"
  "cx_stagesById (setRecoveryCounters c s k) = cx_stagesById c"
  "cx_incoming (setRecoveryCounters c s k) = cx_incoming c"
  "cx_descendants (setRecoveryCounters c s k) = cx_descendants c"
  "cx_working (setRecoveryCounters c s k) = cx_working c"
  "cx_evaluatorDecisions (setRecoveryCounters c s k) = cx_evaluatorDecisions c"
  "cx_pendingEvaluators (setRecoveryCounters c s k) = cx_pendingEvaluators c"
  "cx_transitions (setRecoveryCounters c s k) = cx_transitions c"
  "cx_decisions (setRecoveryCounters c s k) = cx_decisions c"
  "cx_intents (setRecoveryCounters c s k) = cx_intents c"
  "cx_attempts (setRecoveryCounters c s k) = cx_attempts c" "cx_v2 (setRecoveryCounters c s k) = cx_v2 c"
  "cx_recoveryDecisions (setRecoveryCounters c s k) = cx_recoveryDecisions c"
  "cx_consumedObservationIds (setRecoveryCounters c s k) = cx_consumedObservationIds c"
  "cx_cancelRequested (setRecoveryCounters c s k) = cx_cancelRequested c"
  "cx_deadlineExceeded (setRecoveryCounters c s k) = cx_deadlineExceeded c"
  by (simp_all add: setRecoveryCounters_def)

lemma put_stage_frame [simp]:
  "cx_input (put_stage c s) = cx_input c" "cx_graph (put_stage c s) = cx_graph c"
  "cx_stagesById (put_stage c s) = cx_stagesById c" "cx_incoming (put_stage c s) = cx_incoming c"
  "cx_descendants (put_stage c s) = cx_descendants c"
  "cx_evaluatorDecisions (put_stage c s) = cx_evaluatorDecisions c"
  "cx_pendingEvaluators (put_stage c s) = cx_pendingEvaluators c"
  "cx_recoveryByKey (put_stage c s) = cx_recoveryByKey c"
  "cx_transitions (put_stage c s) = cx_transitions c" "cx_decisions (put_stage c s) = cx_decisions c"
  "cx_intents (put_stage c s) = cx_intents c" "cx_attempts (put_stage c s) = cx_attempts c"
  "cx_v2 (put_stage c s) = cx_v2 c" "cx_recoveryDecisions (put_stage c s) = cx_recoveryDecisions c"
  "cx_consumedObservationIds (put_stage c s) = cx_consumedObservationIds c"
  "cx_cancelRequested (put_stage c s) = cx_cancelRequested c"
  "cx_deadlineExceeded (put_stage c s) = cx_deadlineExceeded c"
  by (simp_all add: put_stage_def)

lemma add_intent_frame [simp]:
  "cx_input (add_intent c i) = cx_input c" "cx_graph (add_intent c i) = cx_graph c"
  "cx_stagesById (add_intent c i) = cx_stagesById c" "cx_incoming (add_intent c i) = cx_incoming c"
  "cx_descendants (add_intent c i) = cx_descendants c" "cx_working (add_intent c i) = cx_working c"
  "cx_evaluatorDecisions (add_intent c i) = cx_evaluatorDecisions c"
  "cx_pendingEvaluators (add_intent c i) = cx_pendingEvaluators c"
  "cx_recoveryByKey (add_intent c i) = cx_recoveryByKey c"
  "cx_transitions (add_intent c i) = cx_transitions c" "cx_decisions (add_intent c i) = cx_decisions c"
  "cx_intents (add_intent c i) = cx_intents c @ [i]" "cx_attempts (add_intent c i) = cx_attempts c"
  "cx_v2 (add_intent c i) = cx_v2 c" "cx_recoveryDecisions (add_intent c i) = cx_recoveryDecisions c"
  "cx_consumedObservationIds (add_intent c i) = cx_consumedObservationIds c"
  "cx_cancelRequested (add_intent c i) = cx_cancelRequested c"
  "cx_deadlineExceeded (add_intent c i) = cx_deadlineExceeded c"
  by (simp_all add: add_intent_def)

lemma transitioned_simps [simp]:
  "st_stageId (transitioned c s to r opts) = st_stageId s" "st_state (transitioned c s to r opts) = to"
  "st_generation (transitioned c s to r opts) = st_generation s"
  "st_attemptOrdinal (transitioned c s to r opts) = st_attemptOrdinal s"
  "st_lastTransitionReason (transitioned c s to r opts) = Some r"
  "st_selected (transitioned c s to r opts) = or_default (to_selected opts) (st_selected s)"
  "st_currentAttemptId (transitioned c s to r opts) =
     (if to_clearAttempt opts then None else or_else (to_attemptId opts) (st_currentAttemptId s))"
  by (simp_all add: transitioned_def)

lemma options_simps [simp]:
  "to_action (options a) = a" "to_attemptId (options a) = None" "to_intentId (options a) = None"
  "to_detail (options a) = None" "to_blockReason (options a) = None" "to_clearAttempt (options a) = False"
  "to_selected (options a) = None" "to_decisionReason (options a) = None"
  "to_recoveryDecisionId (options a) = None" "to_signatureDigest (options a) = None"
  by (simp_all add: options_def)

section \<open>Well-formed contexts and their evolution\<close>

definition keyed :: "tick_ctx \<Rightarrow> bool" where
  "keyed c \<longleftrightarrow> distinct (map fst (cx_working c)) \<and> (\<forall>k s. map_of (cx_working c) k = Some s \<longrightarrow> st_stageId s = k)"

definition states :: "tick_ctx \<Rightarrow> stage_states" where
  "states c k = map_option st_state (map_of (cx_working c) k)"

definition keys :: "tick_ctx \<Rightarrow> string list" where
  "keys c = map fst (cx_working c)"

definition same_static :: "tick_ctx \<Rightarrow> tick_ctx \<Rightarrow> bool" where
  "same_static c c' \<longleftrightarrow> cx_input c' = cx_input c \<and> cx_graph c' = cx_graph c \<and>
     cx_stagesById c' = cx_stagesById c \<and> cx_incoming c' = cx_incoming c \<and>
     cx_descendants c' = cx_descendants c \<and> cx_v2 c' = cx_v2 c \<and>
     cx_deadlineExceeded c' = cx_deadlineExceeded c \<and> keys c' = keys c \<and> (keyed c \<longrightarrow> keyed c')"

definition evolves :: "tick_ctx \<Rightarrow> tick_ctx \<Rightarrow> bool" where
  "evolves c c' \<longleftrightarrow> same_static c c' \<and>
     (keyed c \<longrightarrow> (\<exists>ts. cx_transitions c' = cx_transitions c @ ts \<and> stage_run (states c) ts (states c')))"

lemma same_static_refl [simp]: "same_static c c"
  by (simp add: same_static_def)

lemma same_static_trans: "same_static a b \<Longrightarrow> same_static b c \<Longrightarrow> same_static a c"
  by (simp add: same_static_def)

lemma evolves_refl [simp, intro]: "evolves c c"
  by (auto simp: evolves_def intro: run_done)

lemma evolves_trans:
  assumes "evolves a b" "evolves b c"
  shows "evolves a c"
proof -
  have static: "same_static a c" using assms same_static_trans by (auto simp: evolves_def)
  { assume "keyed a"
    with assms(1) obtain ts where ts: "cx_transitions b = cx_transitions a @ ts" "stage_run (states a) ts (states b)"
      by (auto simp: evolves_def)
    from \<open>keyed a\<close> assms(1) have "keyed b" by (auto simp: evolves_def same_static_def)
    with assms(2) obtain us where us: "cx_transitions c = cx_transitions b @ us" "stage_run (states b) us (states c)"
      by (auto simp: evolves_def)
    from ts us have "cx_transitions c = cx_transitions a @ (ts @ us)" "stage_run (states a) (ts @ us) (states c)"
      by (auto intro: stage_run_append)
    then have "\<exists>ts. cx_transitions c = cx_transitions a @ ts \<and> stage_run (states a) ts (states c)" by blast
  }
  with static show ?thesis by (simp add: evolves_def)
qed

lemma evolves_quiet:
  assumes "cx_input c' = cx_input c" "cx_graph c' = cx_graph c" "cx_stagesById c' = cx_stagesById c"
    "cx_incoming c' = cx_incoming c" "cx_descendants c' = cx_descendants c" "cx_v2 c' = cx_v2 c"
    "cx_deadlineExceeded c' = cx_deadlineExceeded c" "cx_working c' = cx_working c"
    "cx_transitions c' = cx_transitions c"
  shows "evolves c c'"
  using assms by (auto simp: evolves_def same_static_def keys_def keyed_def states_def [abs_def])

lemma keys_put_stage:
  "map_of (cx_working c) (st_stageId s') \<noteq> None \<Longrightarrow> keys (put_stage c s') = keys c"
  by (auto simp: keys_def put_stage_def keys_alist_update map_of_eq_None_iff)

lemma get_put_stage [simp]:
  "map_of (cx_working (put_stage c s)) = (map_of (cx_working c))(st_stageId s \<mapsto> s)"
  by (simp add: put_stage_def jm.get_put)

lemma keyed_put_stage:
  "keyed c \<Longrightarrow> map_of (cx_working c) (st_stageId s) \<noteq> None \<Longrightarrow> keyed (put_stage c s)"
  using keys_put_stage [of c s] by (auto simp: keyed_def keys_def)

lemma evolves_working:
  assumes stage: "map_of (cx_working c) (st_stageId s') \<noteq> None"
    and same: "cx_input c' = cx_input c" "cx_graph c' = cx_graph c" "cx_stagesById c' = cx_stagesById c"
    "cx_incoming c' = cx_incoming c" "cx_descendants c' = cx_descendants c" "cx_v2 c' = cx_v2 c"
    "cx_deadlineExceeded c' = cx_deadlineExceeded c" "cx_working c' = cx_working (put_stage c s')"
    and trs: "cx_transitions c' = cx_transitions c @ ts"
    and run: "stage_run (states c) ts ((states c)(st_stageId s' \<mapsto> st_state s'))"
  shows "evolves c c'"
proof -
  have "keys c' = keys (put_stage c s')" "keyed c' = keyed (put_stage c s')"
    by (simp_all only: keys_def keyed_def same(8))
  then have "keys c' = keys c" "keyed c \<longrightarrow> keyed c'"
    using keys_put_stage [OF stage] keyed_put_stage [OF _ stage] by simp_all
  moreover have "states c' = (states c)(st_stageId s' \<mapsto> st_state s')"
    by (auto simp: states_def same(8))
  ultimately show ?thesis using same trs run by (auto simp: evolves_def same_static_def)
qed

lemma applyTransition_Inr:
  assumes "applyTransition c s to r opts = Inr c'"
  obtains "isPermittedTransition (st_state s) to r"
    "cx_working c' = cx_working (put_stage c (transitioned c s to r opts))"
    "cx_transitions c' = cx_transitions c @ [\<lparr>tr_stageId = st_stageId s, tr_from = st_state s, tr_to = to,
       tr_reason = r, tr_attemptId = to_attemptId opts, tr_generation = st_generation s,
       tr_blockReason = to_blockReason opts\<rparr>]"
    "cx_input c' = cx_input c" "cx_graph c' = cx_graph c" "cx_stagesById c' = cx_stagesById c"
    "cx_incoming c' = cx_incoming c" "cx_descendants c' = cx_descendants c" "cx_v2 c' = cx_v2 c"
    "cx_evaluatorDecisions c' = cx_evaluatorDecisions c" "cx_pendingEvaluators c' = cx_pendingEvaluators c"
    "cx_recoveryByKey c' = cx_recoveryByKey c" "cx_intents c' = cx_intents c"
    "cx_attempts c' = cx_attempts c" "cx_recoveryDecisions c' = cx_recoveryDecisions c"
    "cx_consumedObservationIds c' = cx_consumedObservationIds c"
    "cx_cancelRequested c' = cx_cancelRequested c" "cx_deadlineExceeded c' = cx_deadlineExceeded c"
proof -
  from assms have p: "isPermittedTransition (st_state s) to r"
    by (auto simp: applyTransition_def Let_def elim!: rbind_InrE)
  from assms show ?thesis
    by (intro that) (use p in \<open>auto simp: applyTransition_def Let_def elim!: rbind_InrE\<close>)
qed

lemma applyTransition_defined:
  "isPermittedTransition (st_state s) to r \<Longrightarrow> \<exists>c'. applyTransition c s to r opts = Inr c'"
  by (simp add: applyTransition_def Let_def assertPermittedTransition_def)

lemma applyTransition_evolves:
  assumes "applyTransition c s to r opts = Inr c'"
    and "map_of (cx_working c) (st_stageId s) = Some s0" "st_state s0 = st_state s"
  shows "evolves c c'"
  using assms(1)
proof (rule applyTransition_Inr)
  assume p: "isPermittedTransition (st_state s) to r"
    and w: "cx_working c' = cx_working (put_stage c (transitioned c s to r opts))"
    and t: "cx_transitions c' = cx_transitions c @ [\<lparr>tr_stageId = st_stageId s, tr_from = st_state s, tr_to = to,
       tr_reason = r, tr_attemptId = to_attemptId opts, tr_generation = st_generation s,
       tr_blockReason = to_blockReason opts\<rparr>]"
    and same: "cx_input c' = cx_input c" "cx_graph c' = cx_graph c" "cx_stagesById c' = cx_stagesById c"
    "cx_incoming c' = cx_incoming c" "cx_descendants c' = cx_descendants c" "cx_v2 c' = cx_v2 c"
    "cx_deadlineExceeded c' = cx_deadlineExceeded c"
  show ?thesis
    by (rule evolves_working [OF _ same w t]) (use assms(2,3) p in \<open>auto simp: states_def\<close>)
qed


section \<open>Every operation evolves a keyed context\<close>

lemma keyedD: "keyed c \<Longrightarrow> map_of (cx_working c) k = Some s \<Longrightarrow> st_stageId s = k"
  by (simp add: keyed_def)

lemma getRecoveryCounters_frame:
  assumes "getRecoveryCounters c s = (counters, c')"
  obtains "cx_working c' = cx_working c" "cx_transitions c' = cx_transitions c"
    "cx_input c' = cx_input c" "cx_graph c' = cx_graph c" "cx_stagesById c' = cx_stagesById c"
    "cx_incoming c' = cx_incoming c" "cx_descendants c' = cx_descendants c" "cx_v2 c' = cx_v2 c"
    "cx_evaluatorDecisions c' = cx_evaluatorDecisions c" "cx_pendingEvaluators c' = cx_pendingEvaluators c"
    "cx_intents c' = cx_intents c" "cx_attempts c' = cx_attempts c"
    "cx_decisions c' = cx_decisions c" "cx_recoveryDecisions c' = cx_recoveryDecisions c"
    "cx_consumedObservationIds c' = cx_consumedObservationIds c"
    "cx_cancelRequested c' = cx_cancelRequested c" "cx_deadlineExceeded c' = cx_deadlineExceeded c"
  using assms by (auto simp: getRecoveryCounters_def split: option.splits)

lemma getRecoveryCounters_evolves: "getRecoveryCounters c s = (counters, c') \<Longrightarrow> evolves c c'"
  by (erule getRecoveryCounters_frame) (rule evolves_quiet)

lemma evolves_transition:
  assumes "evolves c c1" "cx_working c1 = cx_working c" "applyTransition c1 s to r opts = Inr c'"
    and "map_of (cx_working c) (st_stageId s) = Some s0" "st_state s0 = st_state s"
  shows "evolves c c'"
  using assms applyTransition_evolves [OF assms(3)] by (auto intro: evolves_trans)

lemma request_evaluator_frame:
  assumes "request_evaluator c e p q = Inr c'"
  shows "cx_working c' = cx_working c" "cx_transitions c' = cx_transitions c" "evolves c c'"
    "cx_evaluatorDecisions c' = cx_evaluatorDecisions c" "cx_attempts c' = cx_attempts c"
    "cx_cancelRequested c' = cx_cancelRequested c" "cx_recoveryByKey c' = cx_recoveryByKey c"
    "cx_recoveryDecisions c' = cx_recoveryDecisions c"
  using assms by (auto simp: request_evaluator_def Let_def elim!: rbind_InrE split: if_splits intro!: evolves_quiet)

lemma resolve_condition_frame:
  assumes "resolve_condition c e = Inr (r, c')"
  shows "cx_working c' = cx_working c \<and> cx_transitions c' = cx_transitions c \<and> evolves c c' \<and>
    cx_evaluatorDecisions c' = cx_evaluatorDecisions c \<and> cx_attempts c' = cx_attempts c \<and>
    cx_cancelRequested c' = cx_cancelRequested c \<and> cx_recoveryByKey c' = cx_recoveryByKey c \<and>
    cx_recoveryDecisions c' = cx_recoveryDecisions c"
  using assms unfolding resolve_condition_def
  by (auto simp: Let_def dest: request_evaluator_frame elim!: rbind_InrE
      split: option.splits condition.splits if_splits sum.splits)

lemma resolveIncomingEdge_frame:
  assumes "resolveIncomingEdge c e = Inr (r, c')"
  shows "cx_working c' = cx_working c \<and> cx_transitions c' = cx_transitions c \<and> evolves c c' \<and>
    cx_evaluatorDecisions c' = cx_evaluatorDecisions c \<and> cx_attempts c' = cx_attempts c \<and>
    cx_cancelRequested c' = cx_cancelRequested c \<and> cx_recoveryByKey c' = cx_recoveryByKey c \<and>
    cx_recoveryDecisions c' = cx_recoveryDecisions c"
proof -
  have "c' = c \<or> resolve_condition c e = Inr (r, c')"
    using assms unfolding resolveIncomingEdge_def by (auto elim!: rbind_InrE split: if_splits)
  then show ?thesis using resolve_condition_frame [of c e r c'] by auto
qed

lemma resolve_edges_frame:
  "resolve_edges c es = Inr (rs, c') \<Longrightarrow>
   cx_working c' = cx_working c \<and> cx_transitions c' = cx_transitions c \<and> evolves c c' \<and>
   cx_evaluatorDecisions c' = cx_evaluatorDecisions c \<and> cx_attempts c' = cx_attempts c \<and>
   cx_cancelRequested c' = cx_cancelRequested c \<and> cx_recoveryByKey c' = cx_recoveryByKey c \<and>
   cx_recoveryDecisions c' = cx_recoveryDecisions c"
proof (induction es arbitrary: c rs)
  case (Cons e es)
  then obtain r c1 rs1 where "resolveIncomingEdge c e = Inr (r, c1)" "resolve_edges c1 es = Inr (rs1, c')"
    by (auto elim!: rbind_InrE)
  with Cons.IH resolveIncomingEdge_frame [of c e r c1] show ?case by (auto intro: evolves_trans)
qed simp

lemma settle_release_cases:
  assumes "settle_release c s rs = Inr c'"
  obtains (pending) "ER_pending \<in> set rs" "c' = c"
  | (blocked) reason where "ER_pending \<notin> set rs"
      "applyTransition c s S_blocked R_dependency_unsatisfied ((options A_block)\<lparr>to_blockReason := Some reason\<rparr>) = Inr c'"
  | (rejected) "ER_pending \<notin> set rs" "ER_selected \<notin> set rs"
      "applyTransition c s S_cancelled R_condition_not_selected
         ((options A_cancel)\<lparr>to_selected := Some False, to_clearAttempt := True\<rparr>) = Inr c'"
  | (ready) d where "ER_pending \<notin> set rs" "first_blocked rs = None" "ER_selected \<in> set rs"
      "map_of (cx_stagesById c) (st_stageId s) = Some d" "unsatisfiedReads c d = None"
      "applyTransition c s S_ready R_dependencies_satisfied (options A_release) = Inr c'"
  using assms unfolding settle_release_def
  by (auto elim!: rbind_InrE split: if_splits option.splits)

lemma settle_release_evolves:
  assumes "settle_release c s rs = Inr c'" "map_of (cx_working c) (st_stageId s) = Some s"
  shows "evolves c c'"
  using assms(1)
  by (cases rule: settle_release_cases) (use assms(2) in \<open>auto intro: applyTransition_evolves\<close>)

lemma maybeReleaseStage_cases:
  assumes "maybeReleaseStage k c = Inr c'"
  obtains (idle) s where "map_of (cx_working c) k = Some s" "c' = c"
      "\<not> st_selected s \<or> st_state s \<noteq> S_pending \<or> stopping c"
  | (first) s where "map_of (cx_working c) k = Some s" "st_selected s" "st_state s = S_pending" "\<not> stopping c"
      "or_default (map_of (cx_incoming c) k) [] = []"
      "applyTransition c s S_ready R_root_eligible (options A_release) = Inr c'"
  | (edges) s rs c1 where "map_of (cx_working c) k = Some s" "st_selected s" "st_state s = S_pending" "\<not> stopping c"
      "or_default (map_of (cx_incoming c) k) [] \<noteq> []"
      "resolve_edges c (or_default (map_of (cx_incoming c) k) []) = Inr (rs, c1)" "settle_release c1 s rs = Inr c'"
  using assms unfolding maybeReleaseStage_def Let_def
  by (fastforce elim!: rbind_InrE split: if_splits)

lemma maybeReleaseStage_evolves:
  assumes "keyed c" "maybeReleaseStage k c = Inr c'"
  shows "evolves c c'"
  using assms(2)
proof (cases rule: maybeReleaseStage_cases)
  case (first s)
  with assms show ?thesis by (auto intro: applyTransition_evolves dest: keyedD)
next
  case (edges s rs c1)
  note f = resolve_edges_frame [OF edges(6)]
  have "evolves c1 c'"
    by (rule settle_release_evolves [OF edges(7)]) (use f edges(1) keyedD [OF assms(1) edges(1)] in auto)
  with f show ?thesis by (auto intro: evolves_trans)
qed simp

lemma cancelInactiveStage_evolves:
  "cancelInactiveStage c s r = Inr c' \<Longrightarrow> map_of (cx_working c) (st_stageId s) = Some s \<Longrightarrow> evolves c c'"
  by (auto simp: cancelInactiveStage_def intro: applyTransition_evolves split: if_splits)

lemma requestCancelForActive_frame [simp]:
  "cx_input (requestCancelForActive c s) = cx_input c" "cx_graph (requestCancelForActive c s) = cx_graph c"
  "cx_stagesById (requestCancelForActive c s) = cx_stagesById c"
  "cx_incoming (requestCancelForActive c s) = cx_incoming c"
  "cx_descendants (requestCancelForActive c s) = cx_descendants c"
  "cx_working (requestCancelForActive c s) = cx_working c"
  "cx_evaluatorDecisions (requestCancelForActive c s) = cx_evaluatorDecisions c"
  "cx_pendingEvaluators (requestCancelForActive c s) = cx_pendingEvaluators c"
  "cx_recoveryByKey (requestCancelForActive c s) = cx_recoveryByKey c"
  "cx_transitions (requestCancelForActive c s) = cx_transitions c"
  "cx_attempts (requestCancelForActive c s) = cx_attempts c" "cx_v2 (requestCancelForActive c s) = cx_v2 c"
  "cx_recoveryDecisions (requestCancelForActive c s) = cx_recoveryDecisions c"
  "cx_cancelRequested (requestCancelForActive c s) = cx_cancelRequested c"
  "cx_deadlineExceeded (requestCancelForActive c s) = cx_deadlineExceeded c"
  by (auto simp: requestCancelForActive_def Let_def split: option.splits)

lemma requestCancelForActive_evolves: "evolves c (requestCancelForActive c s)"
  by (rule evolves_quiet) simp_all

lemma cancel_stage_evolves:
  assumes "keyed c" "cancel_stage k c = Inr c'"
  shows "evolves c c'"
proof -
  from assms(2) obtain s c1 s1 r where
    "map_of (cx_working c) k = Some s" "cancelInactiveStage c s r = Inr c1" "c' = requestCancelForActive c1 s1"
    unfolding cancel_stage_def by (auto elim!: rbind_InrE)
  with keyedD [OF assms(1)] show ?thesis
    by (auto intro: evolves_trans [OF cancelInactiveStage_evolves requestCancelForActive_evolves])
qed

lemma rerun_stage_evolves:
  assumes "keyed c" "rerun_stage k c = Inr c'"
  shows "evolves c c'"
proof -
  from assms(2) obtain s where s: "map_of (cx_working c) k = Some s"
    and body: "rerun_stage k c = Inr c'" by (auto simp: rerun_stage_def elim!: rbind_InrE)
  have id: "st_stageId s = k" using keyedD [OF assms(1) s] .
  show ?thesis
  proof (cases "\<not> isTerminalStageState (st_state s) \<and> st_state s \<noteq> S_pending")
    case True
    with s body show ?thesis by (auto simp: rerun_stage_def)
  next
    case False
    let ?s' = "s\<lparr>st_generation := st_generation s + 1, st_attemptOrdinal := 0,
                st_currentAttemptId := None, st_blockReason := None, st_selected := True,
                st_lastTransitionReason := Some R_manual_rerun, st_updatedAt := si_now (cx_input c),
                st_state := S_pending\<rparr>"
    let ?ts = "if st_state s = S_pending then [] else [\<lparr>tr_stageId = k, tr_from = st_state s, tr_to = S_pending,
                          tr_reason = R_manual_rerun, tr_attemptId = None,
                          tr_generation = st_generation s + 1, tr_blockReason = None\<rparr>]"
    have "stage_run (states c) ?ts ((states c)(st_stageId ?s' \<mapsto> st_state ?s'))"
      using False s id body
      by (auto simp: states_def permitted_table rerun_stage_def Let_def elim!: rbind_InrE)
    with False s id body show ?thesis
      by (intro evolves_working [of c ?s' c' ?ts])
        (auto simp: rerun_stage_def Let_def elim!: rbind_InrE split: if_splits)
  qed
qed


lemma applyRecoveryDecision_transition:
  assumes "applyRecoveryDecision c s ob result = Inr c'"
  obtains to r opts where
    "applyTransition (setRecoveryCounters (c\<lparr>cx_recoveryDecisions := cx_recoveryDecisions c @ [result_decision result]\<rparr>)
       s (result_counters result)) s to r opts = Inr c'"
    "to_selected opts = None" "\<not> to_clearAttempt opts" "to \<in> {S_failed, S_blocked, S_waiting, S_retrying}"
  using assms unfolding applyRecoveryDecision_def Let_def by (cases result) (auto split: if_splits)

lemma recovery_evolves:
  assumes "applyRecoveryDecision c s ob result = Inr c'" "map_of (cx_working c) (st_stageId s) = Some s"
  shows "evolves c c'"
  using assms(1)
proof (rule applyRecoveryDecision_transition)
  fix to r opts assume "applyTransition (setRecoveryCounters
      (c\<lparr>cx_recoveryDecisions := cx_recoveryDecisions c @ [result_decision result]\<rparr>)
       s (result_counters result)) s to r opts = Inr c'"
  then show ?thesis by (rule evolves_transition [rotated 2]) (auto intro: evolves_quiet simp: assms(2))
qed

lemma processAttemptFailed_cases:
  assumes "processAttemptFailed pl c s ob = Inr c'"
  obtains (idle) "c' = c" "st_state s \<noteq> S_running" "st_state s \<noteq> S_waiting"
  | (legacy) to r opts where "applyTransition c s to r opts = Inr c'"
      "to_selected opts = None" "\<not> to_clearAttempt opts" "to \<in> {S_failed, S_retrying}"
  | (recovery) counters c1 result where "getRecoveryCounters c s = (counters, c1)"
      "applyRecoveryDecision c1 s ob result = Inr c'"
proof (cases "st_state s = S_running \<or> st_state s = S_waiting")
  case False
  with assms show ?thesis by (intro idle) (auto simp: processAttemptFailed_def)
next
  case active: True
  obtain counters c1 where g: "getRecoveryCounters c s = (counters, c1)" by (cases "getRecoveryCounters c s")
  show ?thesis
  proof (cases "resolveFailureFromObservation ob")
    case None
    with assms active obtain d where "legacy_failure c s ob d = Inr c'"
      by (auto simp: processAttemptFailed_def Let_def elim!: rbind_InrE)
    then show ?thesis unfolding legacy_failure_def Let_def by (auto split: if_splits intro: legacy)
  next
    case (Some failure)
    with assms active show ?thesis
      unfolding processAttemptFailed_def Let_def g by (auto elim!: rbind_InrE intro: recovery [OF g])
  qed
qed

lemma processAttemptFailed_evolves:
  assumes "processAttemptFailed pl c s ob = Inr c'" "map_of (cx_working c) (st_stageId s) = Some s"
  shows "evolves c c'"
  using assms(1)
proof (cases rule: processAttemptFailed_cases)
  case (legacy to r opts)
  then show ?thesis using assms(2) by (blast intro: applyTransition_evolves)
next
  case (recovery counters c1 result)
  have "cx_working c1 = cx_working c" by (rule getRecoveryCounters_frame [OF recovery(1)])
  then have "evolves c1 c'" by (intro recovery_evolves [OF recovery(2)]) (simp add: assms(2))
  with getRecoveryCounters_evolves [OF recovery(1)] show ?thesis by (rule evolves_trans)
qed simp

lemma review_evolves:
  assumes "applyTransition (setRecoveryCounters (c1\<lparr>cx_recoveryDecisions := ds\<rparr>) s k) s to r opts = Inr c'"
    "getRecoveryCounters c s = (counters, c1)" "map_of (cx_working c) (st_stageId s) = Some s"
  shows "evolves c c'"
proof -
  have w: "cx_working c1 = cx_working c" by (rule getRecoveryCounters_frame [OF assms(2)])
  have "evolves c1 c'"
    using assms(1) by (rule evolves_transition [rotated 2]) (auto intro: evolves_quiet simp: w assms(3))
  with getRecoveryCounters_evolves [OF assms(2)] show ?thesis by (rule evolves_trans)
qed

lemma processRecoveryApproved_evolves:
  assumes "processRecoveryApproved c s ob = Inr c'" "map_of (cx_working c) (st_stageId s) = Some s"
  shows "evolves c c'"
proof -
  obtain counters c1 where g: "getRecoveryCounters c s = (counters, c1)" by (cases "getRecoveryCounters c s")
  from assms(1) getRecoveryCounters_evolves [OF g] show ?thesis unfolding processRecoveryApproved_def Let_def g
    by (auto elim!: rbind_InrE split: if_splits option.splits intro: review_evolves [OF _ g assms(2)])
qed

lemma processRecoveryRejected_evolves:
  assumes "processRecoveryRejected c s ob = Inr c'" "map_of (cx_working c) (st_stageId s) = Some s"
  shows "evolves c c'"
proof -
  obtain counters c1 where g: "getRecoveryCounters c s = (counters, c1)" by (cases "getRecoveryCounters c s")
  from assms(1) getRecoveryCounters_evolves [OF g] show ?thesis unfolding processRecoveryRejected_def Let_def g
    by (auto elim!: rbind_InrE split: if_splits option.splits intro: review_evolves [OF _ g assms(2)])
qed

lemma stage_observation_evolves:
  assumes "stage_observation pl c s ob = Inr c'" "map_of (cx_working c) (st_stageId s) = Some s"
  shows "evolves c c'"
  using assms unfolding stage_observation_def Let_def
  by (cases "ob_kind ob")
    (auto split: if_splits intro: applyTransition_evolves processAttemptFailed_evolves
      processRecoveryApproved_evolves processRecoveryRejected_evolves)

lemma record_evaluator_frame [simp]:
  "cx_input (record_evaluator c ob) = cx_input c" "cx_graph (record_evaluator c ob) = cx_graph c"
  "cx_stagesById (record_evaluator c ob) = cx_stagesById c" "cx_incoming (record_evaluator c ob) = cx_incoming c"
  "cx_descendants (record_evaluator c ob) = cx_descendants c" "cx_working (record_evaluator c ob) = cx_working c"
  "cx_recoveryByKey (record_evaluator c ob) = cx_recoveryByKey c"
  "cx_transitions (record_evaluator c ob) = cx_transitions c"
  "cx_intents (record_evaluator c ob) = cx_intents c"
  "cx_attempts (record_evaluator c ob) = cx_attempts c" "cx_v2 (record_evaluator c ob) = cx_v2 c"
  "cx_recoveryDecisions (record_evaluator c ob) = cx_recoveryDecisions c"
  "cx_cancelRequested (record_evaluator c ob) = cx_cancelRequested c"
  "cx_deadlineExceeded (record_evaluator c ob) = cx_deadlineExceeded c"
  by (auto simp: record_evaluator_def Let_def split: option.splits)

section \<open>The loops of a tick evolve a keyed context\<close>

lemma keyed_evolves: "keyed c \<Longrightarrow> evolves c c' \<Longrightarrow> keyed c'"
  by (simp add: evolves_def same_static_def)

interpretation rerun: guarded_step keyed rerun_stage evolves
  by unfold_locales (auto intro: rerun_stage_evolves keyed_evolves evolves_trans)

lemma processManualRerun_evolves: "keyed c \<Longrightarrow> processManualRerun c k = Inr c' \<Longrightarrow> evolves c c'"
  by (auto simp: processManualRerun_def intro: rerun.fold_rel split: if_splits)

lemma observe_stage_evolves:
  assumes "keyed c" "observe_stage pl ob c = Inr c'"
  shows "evolves c c'"
proof (cases "Option.bind (ob_stageId ob) (map_of (cx_working c))")
  case None
  with assms(2) show ?thesis by (simp add: observe_stage_def)
next
  case (Some s)
  then have "map_of (cx_working c) (st_stageId s) = Some s"
    using keyedD [OF assms(1)] by (auto simp: bind_eq_Some_conv)
  moreover from Some assms(2) have "stage_observation pl c s ob = Inr c'" by (simp add: observe_stage_def)
  ultimately show ?thesis by (rule stage_observation_evolves [rotated])
qed

definition consume :: "observation \<Rightarrow> tick_ctx \<Rightarrow> tick_ctx" where
  "consume ob c = c\<lparr>cx_consumedObservationIds := cx_consumedObservationIds c @ [ob_observationId ob]\<rparr>"

lemma consume_frame [simp]:
  "cx_input (consume ob c) = cx_input c" "cx_graph (consume ob c) = cx_graph c"
  "cx_stagesById (consume ob c) = cx_stagesById c" "cx_incoming (consume ob c) = cx_incoming c"
  "cx_descendants (consume ob c) = cx_descendants c" "cx_working (consume ob c) = cx_working c"
  "cx_evaluatorDecisions (consume ob c) = cx_evaluatorDecisions c"
  "cx_pendingEvaluators (consume ob c) = cx_pendingEvaluators c"
  "cx_recoveryByKey (consume ob c) = cx_recoveryByKey c" "cx_transitions (consume ob c) = cx_transitions c"
  "cx_decisions (consume ob c) = cx_decisions c" "cx_intents (consume ob c) = cx_intents c"
  "cx_attempts (consume ob c) = cx_attempts c" "cx_v2 (consume ob c) = cx_v2 c"
  "cx_recoveryDecisions (consume ob c) = cx_recoveryDecisions c"
  "cx_cancelRequested (consume ob c) = cx_cancelRequested c"
  "cx_deadlineExceeded (consume ob c) = cx_deadlineExceeded c"
  by (simp_all add: consume_def)

lemma processObservation_eq:
  "processObservation pl ob c =
     (case ob_kind ob of
        O_cancel_requested \<Rightarrow> Inr ((consume ob c)\<lparr>cx_cancelRequested := True\<rparr>)
      | O_manual_rerun \<Rightarrow> (case ob_stageId ob of None \<Rightarrow> Inr (consume ob c)
          | Some stageId \<Rightarrow> processManualRerun (consume ob c) stageId)
      | O_evaluator_decided \<Rightarrow> Inr (record_evaluator (consume ob c) ob)
      | _ \<Rightarrow> observe_stage pl ob (consume ob c))"
  unfolding processObservation_def consume_def Let_def by (rule refl)

lemma processObservation_cases:
  assumes "processObservation pl ob c = Inr c'"
  obtains (cancel) "ob_kind ob = O_cancel_requested" "c' = (consume ob c)\<lparr>cx_cancelRequested := True\<rparr>"
  | (nothing) "ob_kind ob = O_manual_rerun" "c' = consume ob c"
  | (rerun) stageId where "ob_kind ob = O_manual_rerun" "ob_stageId ob = Some stageId"
      "processManualRerun (consume ob c) stageId = Inr c'"
  | (evaluator) "ob_kind ob = O_evaluator_decided" "c' = record_evaluator (consume ob c) ob"
  | (stage) "ob_kind ob \<notin> {O_cancel_requested, O_manual_rerun, O_evaluator_decided}"
      "observe_stage pl ob (consume ob c) = Inr c'"
  using assms unfolding processObservation_eq
  by (cases "ob_kind ob"; cases "ob_stageId ob") simp_all

lemma consume_evolves: "evolves c (consume ob c)"
  by (rule evolves_quiet) simp_all

lemma processObservation_evolves:
  assumes "keyed c" "processObservation pl ob c = Inr c'"
  shows "evolves c c'"
proof -
  have k: "keyed (consume ob c)" using keyed_evolves [OF assms(1) consume_evolves] .
  from assms(2) have "evolves (consume ob c) c'"
  proof (cases rule: processObservation_cases)
    case (rerun stageId)
    then show ?thesis by (auto intro: processManualRerun_evolves [OF k])
  next
    case stage
    then show ?thesis by (auto intro: observe_stage_evolves [OF k])
  qed (auto intro!: evolves_quiet)
  then show ?thesis using evolves_trans [OF consume_evolves] by blast
qed

interpretation observe: guarded_step keyed "processObservation pl" evolves
  by unfold_locales (auto intro: processObservation_evolves keyed_evolves evolves_trans)

interpretation cancel: guarded_step keyed cancel_stage evolves
  by unfold_locales (auto intro: cancel_stage_evolves keyed_evolves evolves_trans)

lemma rearm_stage_cases:
  assumes "rearm_stage k c = Inr c'"
  obtains (idle) s where "map_of (cx_working c) k = Some s" "st_state s \<noteq> S_retrying \<or> stopping c" "c' = c"
  | (rearm) s where "map_of (cx_working c) k = Some s" "st_state s = S_retrying" "\<not> stopping c"
      "applyTransition c s S_ready R_retry_scheduled ((options A_rearm)\<lparr>to_clearAttempt := True\<rparr>) = Inr c'"
  using assms unfolding rearm_stage_def by (auto elim!: rbind_InrE split: if_splits)

lemma rearm_stage_evolves:
  assumes "keyed c" "rearm_stage k c = Inr c'"
  shows "evolves c c'"
  using assms(2)
proof (cases rule: rearm_stage_cases)
  case (rearm s)
  then show ?thesis using keyedD [OF assms(1) rearm(1)] by (auto intro: applyTransition_evolves)
qed simp

interpretation rearm: guarded_step keyed rearm_stage evolves
  by unfold_locales (auto intro: rearm_stage_evolves keyed_evolves evolves_trans)

interpretation release: guarded_step keyed maybeReleaseStage evolves
  by unfold_locales (auto intro: maybeReleaseStage_evolves keyed_evolves evolves_trans)

lemma release_loop_evolves: "keyed c \<Longrightarrow> release_loop n c = Inr c' \<Longrightarrow> evolves c c'"
proof (induction n arbitrary: c)
  case (Suc n)
  then obtain c1 where c1: "rfold maybeReleaseStage (sorted_ids c) c = Inr c1"
    and rest: "release_loop n c1 = Inr c' \<or> c1 = c'"
    by (auto elim!: rbind_InrE split: if_splits)
  have "evolves c c1" by (rule release.fold_rel [OF Suc.prems(1) c1])
  with rest Suc show ?case by (auto intro: evolves_trans keyed_evolves)
qed simp

lemma claim_directive_frame:
  assumes "claim_directive c s = (directive, c')"
  obtains "cx_working c' = cx_working c" "cx_transitions c' = cx_transitions c"
    "cx_input c' = cx_input c" "cx_graph c' = cx_graph c" "cx_stagesById c' = cx_stagesById c"
    "cx_incoming c' = cx_incoming c" "cx_descendants c' = cx_descendants c" "cx_v2 c' = cx_v2 c"
    "cx_evaluatorDecisions c' = cx_evaluatorDecisions c" "cx_pendingEvaluators c' = cx_pendingEvaluators c"
    "cx_intents c' = cx_intents c" "cx_attempts c' = cx_attempts c"
    "cx_decisions c' = cx_decisions c" "cx_recoveryDecisions c' = cx_recoveryDecisions c"
    "cx_consumedObservationIds c' = cx_consumedObservationIds c"
    "cx_cancelRequested c' = cx_cancelRequested c" "cx_deadlineExceeded c' = cx_deadlineExceeded c"
proof -
  obtain counters c1 where g: "getRecoveryCounters c s = (counters, c1)" by (cases "getRecoveryCounters c s")
  with assms have "c' = (if rc_pendingDirective counters = None then c1 else setRecoveryCounters c1 s
      (counters\<lparr>rc_pendingProposalId := None, rc_pendingDirective := None\<rparr>))"
    by (auto simp: claim_directive_def Let_def)
  then show ?thesis by (rule_tac getRecoveryCounters_frame [OF g], rule_tac that) simp_all
qed

lemma next_attempt_simps [simp]:
  "st_stageId (next_attempt s) = st_stageId s" "st_state (next_attempt s) = st_state s"
  "st_generation (next_attempt s) = st_generation s"
  "st_attemptOrdinal (next_attempt s) = Suc (st_attemptOrdinal s)"
  "st_selected (next_attempt s) = st_selected s" "st_currentAttemptId (next_attempt s) = st_currentAttemptId s"
  by (simp_all add: next_attempt_def)

lemma queue_stage_cases:
  assumes "queue_stage c s = Inr c'"
  obtains directive c1 d where "claim_directive c (next_attempt s) = (directive, c1)"
    "map_of (cx_stagesById c) (st_stageId s) = Some d" "dispatch_stage c1 (next_attempt s) directive d = Inr c'"
  using assms unfolding queue_stage_def Let_def
  by (cases "claim_directive c (next_attempt s)") (auto elim!: rbind_InrE)

lemma dispatch_stage_evolves:
  assumes "dispatch_stage c s directive d = Inr c'"
    "map_of (cx_working c) (st_stageId s) = Some s0" "st_state s0 = st_state s"
  shows "evolves c c'"
  using assms(1) unfolding dispatch_stage_def Let_def
  by (rule evolves_transition [OF _ _ _ assms(2,3), rotated 2]) (use assms(2,3) in \<open>auto intro!: evolves_quiet\<close>)

lemma queue_stage_evolves:
  assumes "queue_stage c s = Inr c'" "map_of (cx_working c) (st_stageId s) = Some s"
  shows "evolves c c'"
  using assms(1)
proof (rule queue_stage_cases)
  fix directive c1 d assume c: "claim_directive c (next_attempt s) = (directive, c1)"
    and d: "dispatch_stage c1 (next_attempt s) directive d = Inr c'"
  have w: "cx_working c1 = cx_working c" by (rule claim_directive_frame [OF c])
  have "evolves c c1" by (rule claim_directive_frame [OF c]) (rule evolves_quiet)
  moreover have "evolves c1 c'"
    by (rule dispatch_stage_evolves [OF d, of s]) (simp_all add: w assms(2))
  ultimately show ?thesis by (rule evolves_trans)
qed

lemma queue_loop_cases:
  assumes "queue_loop m (k # ks) n c = Inr c'"
  obtains (skip) s where "map_of (cx_working c) k = Some s"
      "st_state s \<noteq> S_ready \<or> \<not> st_selected s \<or> stopping c" "queue_loop m ks n c = Inr c'"
  | (full) s where "map_of (cx_working c) k = Some s" "st_state s = S_ready" "st_selected s" "\<not> stopping c"
      "at_limit m n" "c' = c"
  | (queue) s c1 where "map_of (cx_working c) k = Some s" "st_state s = S_ready" "st_selected s" "\<not> stopping c"
      "\<not> at_limit m n" "queue_stage c s = Inr c1" "queue_loop m ks (Suc n) c1 = Inr c'"
proof -
  from assms obtain s where s: "map_of (cx_working c) k = Some s" by (auto elim!: rbind_InrE)
  show ?thesis
  proof (cases "st_state s \<noteq> S_ready \<or> \<not> st_selected s \<or> stopping c")
    case True
    with assms s show ?thesis by (intro skip [OF s]) (auto split: if_splits)
  next
    case False
    show ?thesis
    proof (cases "at_limit m n")
      case True
      with False assms s show ?thesis by (intro full [OF s]) auto
    next
      case go: False
      with False assms s have "rbind (queue_stage c s) (queue_loop m ks (Suc n)) = Inr c'" by simp
      with False go show ?thesis by (auto elim!: rbind_InrE intro: queue [OF s])
    qed
  qed
qed

lemma queue_loop_evolves: "keyed c \<Longrightarrow> queue_loop m ks n c = Inr c' \<Longrightarrow> evolves c c'"
proof (induction ks arbitrary: n c)
  case (Cons k ks)
  from Cons.prems(2) show ?case
  proof (cases rule: queue_loop_cases)
    case (queue s c1)
    have "evolves c c1"
      by (rule queue_stage_evolves [OF queue(6)]) (use queue keyedD [OF Cons.prems(1) queue(1)] in simp)
    with queue Cons show ?thesis by (blast intro: evolves_trans keyed_evolves)
  qed (use Cons in simp_all)
qed simp

lemma cancel_all_evolves: "keyed c \<Longrightarrow> cancel_all c = Inr c' \<Longrightarrow> evolves c c'"
  by (auto simp: cancel_all_def intro: cancel.fold_rel split: if_splits)

text \<open>The phases of a tick, each from a context that evolved from the first one.\<close>

lemma tick_body_phases:
  assumes "keyed c" "tick_body pl c = Inr c'"
  obtains c1 c2 c3 c4 c5 where
    "rfold (processObservation pl) (sorted_observations c) c = Inr c1" "cancel_all c1 = Inr c2"
    "rearmRetries c2 (retrying_ids c) = Inr c3" "release_loop (release_fuel c3) c3 = Inr c4"
    "queueReadyStages c4 = Inr c5" "cancel_all c5 = Inr c'"
    "evolves c c1" "evolves c1 c2" "evolves c2 c3" "evolves c3 c4" "evolves c4 c5" "evolves c5 c'"
proof -
  from assms(2) obtain c1 c2 c3 c4 c5 where p:
    "rfold (processObservation pl) (sorted_observations c) c = Inr c1" "cancel_all c1 = Inr c2"
    "rearmRetries c2 (retrying_ids c) = Inr c3" "release_loop (release_fuel c3) c3 = Inr c4"
    "queueReadyStages c4 = Inr c5" "cancel_all c5 = Inr c'"
    unfolding tick_body_def by (auto elim!: rbind_InrE)
  have e: "evolves c c1" by (rule observe.fold_rel [OF assms(1) p(1)])
  note k = keyed_evolves [OF assms(1) e]
  have e2: "evolves c1 c2" by (rule cancel_all_evolves [OF k p(2)])
  note k2 = keyed_evolves [OF k e2]
  have e3: "evolves c2 c3" using p(3) unfolding rearmRetries_def by (rule rearm.fold_rel [OF k2])
  note k3 = keyed_evolves [OF k2 e3]
  have e4: "evolves c3 c4" by (rule release_loop_evolves [OF k3 p(4)])
  note k4 = keyed_evolves [OF k3 e4]
  have e5: "evolves c4 c5" using p(5) unfolding queueReadyStages_def by (rule queue_loop_evolves [OF k4])
  note k5 = keyed_evolves [OF k4 e5]
  have e6: "evolves c5 c'" by (rule cancel_all_evolves [OF k5 p(6)])
  show ?thesis by (rule that [OF p e e2 e3 e4 e5 e6])
qed

lemma tick_body_evolves:
  assumes "keyed c" "tick_body pl c = Inr c'"
  shows "evolves c c'"
  using assms by (rule tick_body_phases) (meson evolves_trans)

section \<open>Well-formed contexts\<close>

text \<open>
  A well-formed context: the working map is keyed by stage ids that the graph defines, the sources
  and targets of incoming edges and the descendants are working stages, and conditions evaluate.
\<close>

definition evaluable :: "json \<Rightarrow> pipeline_edge \<Rightarrow> bool" where
  "evaluable state e = (case ed_condition e of
     Some (Cond_expression nodes r) \<Rightarrow> evaluateExpressionCondition nodes r state \<noteq> None | _ \<Rightarrow> True)"

definition wf_ctx :: "tick_ctx \<Rightarrow> bool" where
  "wf_ctx c \<longleftrightarrow> keyed c \<and> gr_stages (cx_graph c) \<noteq> [] \<and>
     set (keys c) \<subseteq> dom (map_of (cx_stagesById c)) \<and>
     (\<forall>k es e. map_of (cx_incoming c) k = Some es \<longrightarrow> e \<in> set es \<longrightarrow>
        ed_to e = k \<and> e \<in> set (gr_edges (cx_graph c)) \<and> ed_from e \<in> set (keys c) \<and> ed_to e \<in> set (keys c) \<and>
        evaluable (si_canonicalState (cx_input c)) e) \<and>
     (\<forall>k ks. map_of (cx_descendants c) k = Some ks \<longrightarrow> set ks \<subseteq> set (keys c))"

lemma wf_ctx_keyed: "wf_ctx c \<Longrightarrow> keyed c"
  by (simp add: wf_ctx_def)

lemma wf_ctx_evolves:
  assumes "wf_ctx c" "evolves c c'"
  shows "wf_ctx c'"
proof -
  from assms(2) have "same_static c c'" by (simp add: evolves_def)
  then have eqs: "cx_input c' = cx_input c" "cx_graph c' = cx_graph c" "cx_stagesById c' = cx_stagesById c"
    "cx_incoming c' = cx_incoming c" "cx_descendants c' = cx_descendants c" "keys c' = keys c"
    and "keyed c \<longrightarrow> keyed c'" by (simp_all add: same_static_def)
  moreover have "keyed c" using assms(1) by (rule wf_ctx_keyed)
  ultimately show ?thesis using assms(1) unfolding wf_ctx_def eqs by blast
qed

lemma evolves_keys: "evolves c c' \<Longrightarrow> keys c' = keys c"
  by (simp add: evolves_def same_static_def)

lemma in_keys: "k \<in> set (keys c) \<longleftrightarrow> (\<exists>s. map_of (cx_working c) k = Some s)"
  using jm.keys_get [of k "cx_working c"] by (simp add: keys_def)

lemma wf_stage:
  assumes "wf_ctx c" "k \<in> set (keys c)"
  obtains s where "map_of (cx_working c) k = Some s" "st_stageId s = k"
  using assms keyedD [OF wf_ctx_keyed] by (auto simp: in_keys)

lemma wf_definition:
  assumes "wf_ctx c" "map_of (cx_working c) k = Some s"
  obtains d where "map_of (cx_stagesById c) k = Some d"
proof -
  have "k \<in> set (keys c)" using assms(2) by (auto simp: in_keys)
  with assms(1) show ?thesis using that by (auto simp: wf_ctx_def)
qed

end
