(* ===== verification/Scheduler_Graph.thy ===== *)
theory Scheduler_Graph
  imports Scheduler_Run
begin

text \<open>
  The tick's view of the graph: the incoming-edge map holds exactly the edges into a stage, the
  descendants of a stage are the stages reachable from it, and the context a tick starts from is
  keyed, and well formed when the input is.
\<close>

section \<open>Edge maps\<close>

definition stage_ids :: "pipeline_graph \<Rightarrow> string set" where
  "stage_ids g = sd_id ` set (gr_stages g)"

lemma get_empty_lists: "map_of (empty_lists g) k = (if k \<in> stage_ids g then Some [] else None)"
proof -
  have "map_of (rev (map (\<lambda>stage. (sd_id stage, [])) (gr_stages g))) k = (if k \<in> stage_ids g then Some [] else None)"
    using map_of_eq_None_iff [of "rev (map (\<lambda>stage. (sd_id stage, [])) (gr_stages g))" k]
      map_of_SomeD [of "rev (map (\<lambda>stage. (sd_id stage, [])) (gr_stages g))" k]
    by (fastforce simp: stage_ids_def image_image)
  then show ?thesis by (simp add: empty_lists_def get_js_map_of)
qed

lemma push_at_get:
  "push_at k v m = Inr m' \<Longrightarrow> map_of m' k' = (if k' = k then map_option (\<lambda>vs. vs @ [v]) (map_of m k) else map_of m k')"
  by (auto simp: push_at_def jm.get_put split: option.splits)

lemma push_at_defined: "map_of m k \<noteq> None \<Longrightarrow> \<exists>m'. push_at k v m = Inr m'"
  by (auto simp: push_at_def)

definition collected :: "(string, 'v list) jsmap \<Rightarrow> ('e \<Rightarrow> string) \<Rightarrow> ('e \<Rightarrow> 'v) \<Rightarrow> 'e list \<Rightarrow> string \<Rightarrow> 'v list option" where
  "collected m key val es k = map_option (\<lambda>vs. vs @ map val (filter (\<lambda>e. key e = k) es)) (map_of m k)"

lemma build_successors_get:
  assumes "rfold (\<lambda>e. push_at (ed_from e) (ed_to e)) es m = Inr m'"
  shows "map_of m' k = collected m ed_from ed_to es k"
  using assms
proof (induction es arbitrary: m)
  case (Cons e es)
  then obtain m1 where m1: "push_at (ed_from e) (ed_to e) m = Inr m1"
    and rest: "rfold (\<lambda>e. push_at (ed_from e) (ed_to e)) es m1 = Inr m'" by (auto elim!: rbind_InrE)
  show ?case unfolding Cons.IH [OF rest] collected_def push_at_get [OF m1] by (auto simp: option.map_comp comp_def)
qed (simp add: collected_def option.map_ident)

lemma build_successors_defined:
  assumes "\<forall>e \<in> set es. map_of m (ed_from e) \<noteq> None"
  shows "\<exists>m'. rfold (\<lambda>e. push_at (ed_from e) (ed_to e)) es m = Inr m'"
  using assms
proof (induction es arbitrary: m)
  case (Cons e es)
  obtain m1 where m1: "push_at (ed_from e) (ed_to e) m = Inr m1"
    using Cons.prems push_at_defined [of m "ed_from e" "ed_to e"] by auto
  from Cons.prems have "\<forall>e \<in> set es. map_of m1 (ed_from e) \<noteq> None" by (auto simp: push_at_get [OF m1])
  from Cons.IH [OF this] m1 show ?case by simp
qed simp

definition push_edge :: "pipeline_edge \<Rightarrow> (string, pipeline_edge list) jsmap \<times> (string, pipeline_edge list) jsmap \<Rightarrow>
    ((string, pipeline_edge list) jsmap \<times> (string, pipeline_edge list) jsmap) res" where
  "push_edge edge = (\<lambda>(incoming, outgoing).
         rbind (push_at (ed_to edge) edge incoming) (\<lambda>incoming'.
         rbind (push_at (ed_from edge) edge outgoing) (\<lambda>outgoing'. Inr (incoming', outgoing'))))"

lemma push_edge_pair:
  "push_edge edge (incoming, outgoing) =
     rbind (push_at (ed_to edge) edge incoming) (\<lambda>incoming'.
     rbind (push_at (ed_from edge) edge outgoing) (\<lambda>outgoing'. Inr (incoming', outgoing')))"
  by (simp add: push_edge_def)

lemma buildEdgeMaps_fold: "buildEdgeMaps g = rfold push_edge (gr_edges g) (empty_lists g, empty_lists g)"
  by (simp add: buildEdgeMaps_def push_edge_def [abs_def])

lemma edge_maps_get:
  assumes "rfold push_edge es (inc, out) = Inr (inc', out')"
  shows "map_of inc' k = collected inc ed_to id es k \<and> map_of out' k = collected out ed_from id es k"
  using assms
proof (induction es arbitrary: inc out)
  case (Cons e es)
  then obtain inc1 out1 where i: "push_at (ed_to e) e inc = Inr inc1" and o: "push_at (ed_from e) e out = Inr out1"
    and rest: "rfold push_edge es (inc1, out1) = Inr (inc', out')"
    by (auto simp: push_edge_pair elim!: rbind_InrE)
  show ?case
    unfolding collected_def Cons.IH [OF rest, THEN conjunct1] Cons.IH [OF rest, THEN conjunct2]
      push_at_get [OF i] push_at_get [OF o]
    by (auto simp: collected_def push_at_get [OF i] push_at_get [OF o] option.map_comp comp_def)
qed (simp add: collected_def option.map_ident)

lemma edge_maps_defined:
  assumes "\<forall>e \<in> set es. map_of inc (ed_to e) \<noteq> None \<and> map_of out (ed_from e) \<noteq> None"
  shows "\<exists>r. rfold push_edge es (inc, out) = Inr r"
  using assms
proof (induction es arbitrary: inc out)
  case (Cons e es)
  obtain inc1 out1 where i: "push_at (ed_to e) e inc = Inr inc1" and o: "push_at (ed_from e) e out = Inr out1"
    using Cons.prems push_at_defined [of inc "ed_to e" e] push_at_defined [of out "ed_from e" e] by auto
  from Cons.prems have "\<forall>e \<in> set es. map_of inc1 (ed_to e) \<noteq> None \<and> map_of out1 (ed_from e) \<noteq> None"
    by (auto simp: push_at_get [OF i] push_at_get [OF o])
  from Cons.IH [OF this] i o show ?case by (simp add: push_edge_pair)
qed simp

lemma buildEdgeMaps_incoming:
  assumes "buildEdgeMaps g = Inr (inc, out)"
  shows "map_of inc k = (if k \<in> stage_ids g then Some (filter (\<lambda>e. ed_to e = k) (gr_edges g)) else None)"
  using edge_maps_get [OF assms [unfolded buildEdgeMaps_fold]]
  by (simp add: collected_def get_empty_lists)

section \<open>Descendants\<close>

definition edge_rel :: "pipeline_graph \<Rightarrow> (string \<times> string) set" where
  "edge_rel g = (\<lambda>e. (ed_from e, ed_to e)) ` set (gr_edges g)"

definition succ_rel :: "(string, string list) jsmap \<Rightarrow> (string \<times> string) set" where
  "succ_rel succ = {(x, y). y \<in> set (successors_of succ x)}"

lemma closed_reachable:
  assumes "r `` A \<subseteq> A"
  shows "r\<^sup>* `` A = A"
proof
  show "r\<^sup>* `` A \<subseteq> A"
  proof
    fix y assume "y \<in> r\<^sup>* `` A"
    then obtain x where "x \<in> A" "(x, y) \<in> r\<^sup>*" by blast
    from this(2,1) show "y \<in> A" by induction (use assms in auto)
  qed
qed auto

lemma reachable_mono: "A \<subseteq> r\<^sup>* `` B \<Longrightarrow> r\<^sup>* `` A \<subseteq> r\<^sup>* `` B"
  by (blast intro: rtrancl_trans)

lemma visit_Nil: "visit succ seen [] = seen"
  by (subst visit.simps) simp

lemma visit_snoc:
  "visit succ seen (rest @ [nxt]) =
     (if nxt \<in> set seen then visit succ seen rest
      else visit succ (seen @ [nxt]) (rest @ successors_of succ nxt))"
  by (subst visit.simps) simp

lemma visit_reachable:
  "succ_rel succ `` set seen \<subseteq> set seen \<union> set stack \<Longrightarrow> distinct seen \<Longrightarrow>
   distinct (visit succ seen stack) \<and> set (visit succ seen stack) = (succ_rel succ)\<^sup>* `` (set seen \<union> set stack)"
proof (induction succ seen stack rule: visit.induct)
  case (1 succ seen stack)
  let ?r = "succ_rel succ"
  show ?case
  proof (cases "stack = []")
    case True
    with "1.prems" show ?thesis by (simp add: visit_Nil closed_reachable)
  next
    case False
    then obtain rest nxt where stack: "stack = rest @ [nxt]" by (metis rev_exhaust)
    show ?thesis
    proof (cases "nxt \<in> set seen")
      case True
      then have un: "set seen \<union> set rest = set seen \<union> set stack" by (auto simp: stack)
      from "1.prems"(1) un have "?r `` set seen \<subseteq> set seen \<union> set rest" by simp
      with "1.IH"(1) [OF False refl refl] "1.prems"(2) True
      have "distinct (visit succ seen rest) \<and> set (visit succ seen rest) = ?r\<^sup>* `` (set seen \<union> set rest)"
        by (simp add: stack)
      with True un show ?thesis by (simp add: stack visit_snoc)
    next
      case new: False
      let ?seen = "seen @ [nxt]" and ?stack = "rest @ successors_of succ nxt"
      have closed: "?r `` set ?seen \<subseteq> set ?seen \<union> set ?stack"
        using "1.prems"(1) by (auto simp: stack succ_rel_def)
      have "?r\<^sup>* `` (set ?seen \<union> set ?stack) = ?r\<^sup>* `` (set seen \<union> set stack)"
      proof
        have "set (successors_of succ nxt) \<subseteq> ?r\<^sup>* `` {nxt}" by (auto simp: succ_rel_def)
        then have "set ?seen \<union> set ?stack \<subseteq> ?r\<^sup>* `` (set seen \<union> set stack)" by (auto simp: stack)
        then show "?r\<^sup>* `` (set ?seen \<union> set ?stack) \<subseteq> ?r\<^sup>* `` (set seen \<union> set stack)"
          by (rule reachable_mono)
      qed (auto simp: stack)
      moreover from "1.IH"(2) [OF False refl refl] closed "1.prems"(2) new
      have "distinct (visit succ ?seen ?stack) \<and>
          set (visit succ ?seen ?stack) = ?r\<^sup>* `` (set ?seen \<union> set ?stack)"
        by (simp add: stack)
      ultimately show ?thesis using new by (simp add: stack visit_snoc)
    qed
  qed
qed

lemma successors_edge_rel:
  assumes "build_successors g = Inr succ"
  shows "succ_rel succ \<subseteq> edge_rel g" "x \<in> stage_ids g \<Longrightarrow> (x, y) \<in> edge_rel g \<Longrightarrow> (x, y) \<in> succ_rel succ"
    "map_of succ x = (if x \<in> stage_ids g then Some (map ed_to (filter (\<lambda>e. ed_from e = x) (gr_edges g))) else None)"
proof -
  have get: "map_of succ x = (if x \<in> stage_ids g then Some (map ed_to (filter (\<lambda>e. ed_from e = x) (gr_edges g))) else None)" for x
    using build_successors_get [OF assms [unfolded build_successors_def]] by (simp add: collected_def get_empty_lists)
  then show "map_of succ x = (if x \<in> stage_ids g then Some (map ed_to (filter (\<lambda>e. ed_from e = x) (gr_edges g))) else None)" .
  show "succ_rel succ \<subseteq> edge_rel g" "x \<in> stage_ids g \<Longrightarrow> (x, y) \<in> edge_rel g \<Longrightarrow> (x, y) \<in> succ_rel succ"
    by (auto simp: succ_rel_def edge_rel_def successors_of_def get split: if_splits)
qed

lemma descendants_fold:
  assumes "\<forall>s \<in> set ss. map_of succ (sd_id s) \<noteq> None"
  shows "\<exists>m'. rfold (\<lambda>stage result. rbind (demand (map_of succ (sd_id stage))) (\<lambda>start.
           Inr (AList.update (sd_id stage) (sort (visit succ [] start)) result))) ss m = Inr m' \<and>
         (\<forall>k. map_of m' k = (if k \<in> sd_id ` set ss then Some (sort (visit succ [] (the (map_of succ k)))) else map_of m k))"
  using assms
proof (induction ss arbitrary: m)
  case (Cons s ss)
  then obtain start where "map_of succ (sd_id s) = Some start" by auto
  with Cons.prems Cons.IH [of "AList.update (sd_id s) (sort (visit succ [] start)) m"] show ?case
    by (auto simp: jm.get_put)
qed simp

lemma buildDescendants_reachable:
  assumes "\<forall>e \<in> set (gr_edges g). ed_from e \<in> stage_ids g"
  obtains m where "buildDescendants g = Inr m" "set (map fst m) \<subseteq> stage_ids g"
    "\<And>k. k \<in> stage_ids g \<Longrightarrow>
       \<exists>xs. map_of m k = Some xs \<and> sorted xs \<and> distinct xs \<and> set xs = (edge_rel g)\<^sup>+ `` {k}"
proof -
  have "\<forall>e \<in> set (gr_edges g). map_of (empty_lists g :: (string, string list) jsmap) (ed_from e) \<noteq> None"
    using assms by (simp add: get_empty_lists)
  then obtain succ where succ: "build_successors g = Inr succ"
    using build_successors_defined unfolding build_successors_def by blast
  note get = successors_edge_rel(3) [OF succ]
  have rel: "succ_rel succ = edge_rel g"
    using successors_edge_rel(1,2) [OF succ] assms by (auto simp: edge_rel_def)
  have "\<forall>s \<in> set (gr_stages g). map_of succ (sd_id s) \<noteq> None" by (simp add: get stage_ids_def)
  from descendants_fold [OF this, of "[]"] obtain m where m: "buildDescendants g = Inr m"
    and val: "\<And>k. map_of m k = (if k \<in> stage_ids g then Some (sort (visit succ [] (the (map_of succ k)))) else None)"
    unfolding buildDescendants_def succ by (auto simp: stage_ids_def)
  show ?thesis
  proof (rule that [OF m])
    show "set (map fst m) \<subseteq> stage_ids g"
    proof
      fix k assume "k \<in> set (map fst m)"
      then have "map_of m k \<noteq> None" by (simp add: map_of_eq_None_iff)
      then show "k \<in> stage_ids g" unfolding val by (simp split: if_splits)
    qed
    fix k assume k: "k \<in> stage_ids g"
    let ?start = "map ed_to (filter (\<lambda>e. ed_from e = k) (gr_edges g))"
    have "set ?start = edge_rel g `` {k}" by (auto simp: edge_rel_def)
    moreover from visit_reachable [of succ "[]" ?start]
    have "distinct (visit succ [] ?start)" "set (visit succ [] ?start) = (edge_rel g)\<^sup>* `` set ?start"
      by (simp_all add: rel)
    moreover have "(edge_rel g)\<^sup>* `` (edge_rel g `` {k}) = (edge_rel g)\<^sup>+ `` {k}"
      by (simp add: trancl_unfold_left relcomp_Image)
    ultimately have "distinct (visit succ [] ?start)" "set (visit succ [] ?start) = (edge_rel g)\<^sup>+ `` {k}"
      by simp_all
    then show "\<exists>xs. map_of m k = Some xs \<and> sorted xs \<and> distinct xs \<and> set xs = (edge_rel g)\<^sup>+ `` {k}"
      using k by (simp add: val get)
  qed
qed

section \<open>The context a tick starts from\<close>

lemma freezeSnapshot_id [simp]: "freezeSnapshot s = s" and cloneStage_id [simp]: "cloneStage s = s"
  by (simp_all add: freezeSnapshot_def cloneStage_def)

definition keyed_map :: "(string, stage_snapshot) jsmap \<Rightarrow> bool" where
  "keyed_map m \<longleftrightarrow> distinct (map fst m) \<and> (\<forall>k s. map_of m k = Some s \<longrightarrow> st_stageId s = k)"

lemma keyed_map_update:
  "keyed_map m \<Longrightarrow> st_stageId s = k \<Longrightarrow> keyed_map (AList.update k s m)"
  by (auto simp: keyed_map_def jm.get_put distinct_update)

lemma keyed_map_snapshots: "keyed_map (js_map_of (map (\<lambda>s. (st_stageId s, s)) ss))"
proof -
  have "st_stageId s = k" if "map_of (js_map_of (map (\<lambda>s. (st_stageId s, s)) ss)) k = Some s" for k s
    using that map_of_SomeD [of "rev (map (\<lambda>s. (st_stageId s, s)) ss)" k s] by (auto simp: get_js_map_of)
  then show ?thesis by (simp add: keyed_map_def distinct_js_map_of)
qed

definition add_missing :: "sched_input \<Rightarrow> stage_def \<Rightarrow> (string, stage_snapshot) jsmap \<Rightarrow> (string, stage_snapshot) jsmap" where
  "add_missing input stage working =
     (if map_of working (sd_id stage) \<noteq> None then working
      else AList.update (sd_id stage)
        (pending_snapshot (si_runId input) (si_graphRevision input) (sd_id stage) (si_now input)) working)"

lemma initial_working_eq:
  "initial_working input = fold (add_missing input) (gr_stages (si_graph input))
     (js_map_of (map (\<lambda>s. (st_stageId s, s)) (si_stages input)))"
  unfolding initial_working_def add_missing_def [abs_def] Let_def by simp

lemma pending_snapshot_simps [simp]:
  "st_stageId (pending_snapshot r g k n) = k" "st_state (pending_snapshot r g k n) = S_pending"
  "st_generation (pending_snapshot r g k n) = 1" "st_attemptOrdinal (pending_snapshot r g k n) = 0"
  "st_selected (pending_snapshot r g k n)"
  by (simp_all add: pending_snapshot_def)

lemma fold_add_missing:
  "keyed_map m \<Longrightarrow> keyed_map (fold (add_missing input) ds m) \<and>
   dom (map_of (fold (add_missing input) ds m)) = dom (map_of m) \<union> sd_id ` set ds"
proof (induction ds arbitrary: m)
  case (Cons d ds)
  have "keyed_map (add_missing input d m)"
    using Cons.prems by (simp add: add_missing_def keyed_map_update)
  moreover have "dom (map_of (add_missing input d m)) = insert (sd_id d) (dom (map_of m))"
    by (auto simp: add_missing_def jm.get_put)
  ultimately show ?case using Cons.IH by (simp add: insert_commute)
qed simp

lemma initial_working_keyed:
  "keyed_map (initial_working input)"
  "dom (map_of (initial_working input)) = st_stageId ` set (si_stages input) \<union> stage_ids (si_graph input)"
proof -
  have "dom (map_of (js_map_of (map (\<lambda>s. (st_stageId s, s)) (si_stages input)))) = st_stageId ` set (si_stages input)"
    by (simp add: dom_map_of_conv_image_fst keys_js_map_of [simplified] image_image)
  with fold_add_missing [OF keyed_map_snapshots, of input "gr_stages (si_graph input)" "si_stages input"]
  show "keyed_map (initial_working input)"
    "dom (map_of (initial_working input)) = st_stageId ` set (si_stages input) \<union> stage_ids (si_graph input)"
    by (simp_all add: initial_working_eq stage_ids_def)
qed

lemma createTickContext_Inr:
  assumes "createTickContext input v2 = Inr c"
  obtains "cx_working c = initial_working input" "keyed c" "cx_transitions c = []" "cx_intents c = []"
    "cx_attempts c = []" "cx_decisions c = []" "cx_recoveryDecisions c = []" "cx_input c = input"
    "cx_graph c = si_graph input" "\<not> cx_cancelRequested c" "cx_consumedObservationIds c = []"
    "cx_deadlineExceeded c = (case si_deadlineAt input of None \<Rightarrow> False | Some d \<Rightarrow> d \<le> si_now input)"
    "cx_stagesById c = js_map_of (map (\<lambda>stage. (sd_id stage, stage)) (gr_stages (si_graph input)))"
    "\<exists>out. buildEdgeMaps (si_graph input) = Inr (cx_incoming c, out)"
    "buildDescendants (si_graph input) = Inr (cx_descendants c)"
    "cx_recoveryByKey c = js_map_of (map (\<lambda>e. (recoveryKey (rs_stageId e) (rs_generation e), restore_counters e))
            (or_default (si_recoveryState input) []))"
proof -
  from assms obtain inc out desc where b: "buildEdgeMaps (si_graph input) = Inr (inc, out)"
    "buildDescendants (si_graph input) = Inr desc"
    by (auto simp: createTickContext_def Let_def elim!: rbind_InrE)
  with assms have w: "cx_working c = initial_working input" by (auto simp: createTickContext_def Let_def)
  then have "keyed c" using initial_working_keyed(1) [of input] by (simp add: keyed_def keyed_map_def)
  then show ?thesis using assms b w by (intro that) (auto simp: createTickContext_def Let_def)
qed

definition wf_condition :: "pipeline_edge \<Rightarrow> bool" where
  "wf_condition e = (case ed_condition e of Some (Cond_expression nodes r) \<Rightarrow> wf_nodes nodes | _ \<Rightarrow> True)"

text \<open>
  What the scheduler relies on of its input: a graph with at least one stage, edges between its
  stages, compiled conditions, and snapshots of the graph's stages.
\<close>

definition well_formed_input :: "sched_input \<Rightarrow> bool" where
  "well_formed_input input \<longleftrightarrow> gr_stages (si_graph input) \<noteq> [] \<and>
     (\<forall>e \<in> set (gr_edges (si_graph input)).
        ed_from e \<in> stage_ids (si_graph input) \<and> ed_to e \<in> stage_ids (si_graph input) \<and> wf_condition e) \<and>
     (\<forall>s \<in> set (si_stages input). st_stageId s \<in> stage_ids (si_graph input))"

lemma wf_condition_evaluable: "wf_condition e \<Longrightarrow> evaluable state e"
proof -
  have "evaluateExpressionCondition nodes r state \<noteq> None" if "wf_nodes nodes" for nodes r
  proof (cases "r < length nodes")
    case True
    with evaluateNode_compiled [OF that, of r "length nodes + 1" state] show ?thesis
      by (auto simp: evaluateExpressionCondition_def simp del: evaluateNode.simps split: sum.splits)
  qed (simp add: evaluateExpressionCondition_def)
  then show "wf_condition e \<Longrightarrow> evaluable state e"
    by (simp add: wf_condition_def evaluable_def split: option.splits condition.splits)
qed

lemma dom_stagesById: "dom (map_of (js_map_of (map (\<lambda>stage. (sd_id stage, stage)) (gr_stages g)))) = stage_ids g"
  by (simp add: dom_map_of_conv_image_fst keys_js_map_of [simplified] image_image stage_ids_def)

lemma set_keys: "set (keys c) = dom (map_of (cx_working c))"
  by (simp add: keys_def dom_map_of_conv_image_fst)

lemma createTickContext_wf:
  assumes "well_formed_input input"
  obtains c where "createTickContext input v2 = Inr c" "wf_ctx c"
proof -
  let ?g = "si_graph input"
  have edges: "\<forall>e \<in> set (gr_edges ?g). ed_from e \<in> stage_ids ?g \<and> ed_to e \<in> stage_ids ?g \<and> wf_condition e"
    using assms by (simp add: well_formed_input_def)
  have "\<forall>e \<in> set (gr_edges ?g). map_of (empty_lists ?g :: (string, pipeline_edge list) jsmap) (ed_to e) \<noteq> None \<and>
      map_of (empty_lists ?g :: (string, pipeline_edge list) jsmap) (ed_from e) \<noteq> None"
    using edges by (simp add: get_empty_lists)
  then obtain inc out where b: "buildEdgeMaps ?g = Inr (inc, out)"
    using edge_maps_defined unfolding buildEdgeMaps_fold by (metis surj_pair)
  obtain desc where d: "buildDescendants ?g = Inr desc" and dk: "set (map fst desc) \<subseteq> stage_ids ?g"
    and dv: "\<And>k. k \<in> stage_ids ?g \<Longrightarrow> \<exists>xs. map_of desc k = Some xs \<and> sorted xs \<and> distinct xs \<and> set xs = (edge_rel ?g)\<^sup>+ `` {k}"
    using buildDescendants_reachable [of ?g] edges by metis
  from b d obtain c where c: "createTickContext input v2 = Inr c"
    by (auto simp: createTickContext_def Let_def)
  have desc: "set xs \<subseteq> stage_ids ?g" if "map_of desc k = Some xs" for k xs
  proof -
    have "k \<in> stage_ids ?g" using dk map_of_SomeD [OF that] by force
    with dv [of k] that have "set xs = (edge_rel ?g)\<^sup>+ `` {k}" by auto
    moreover have range: "y \<in> stage_ids ?g" if "(x, y) \<in> edge_rel ?g" for x y
      using that edges by (auto simp: edge_rel_def)
    have "y \<in> stage_ids ?g" if "(k, y) \<in> (edge_rel ?g)\<^sup>+" for y
      using that by cases (rule range, assumption)+
    ultimately show ?thesis by blast
  qed
  from c have "wf_ctx c"
  proof (rule createTickContext_Inr)
    assume k: "keyed c" and w: "cx_working c = initial_working input" and g: "cx_graph c = ?g" and i: "cx_input c = input"
      and s: "cx_stagesById c = js_map_of (map (\<lambda>stage. (sd_id stage, stage)) (gr_stages ?g))"
      and inc: "\<exists>out. buildEdgeMaps ?g = Inr (cx_incoming c, out)" and dc: "buildDescendants ?g = Inr (cx_descendants c)"
    have keys: "set (keys c) = stage_ids ?g"
      using assms initial_working_keyed(2) [of input] by (auto simp: set_keys w well_formed_input_def)
    from inc have in1: "map_of (cx_incoming c) k = (if k \<in> stage_ids ?g then Some (filter (\<lambda>e. ed_to e = k) (gr_edges ?g)) else None)" for k
      using buildEdgeMaps_incoming by blast
    have inc_ok: "ed_to e = k \<and> e \<in> set (gr_edges ?g) \<and> ed_from e \<in> stage_ids ?g \<and> ed_to e \<in> stage_ids ?g \<and>
        evaluable (si_canonicalState input) e" if "map_of (cx_incoming c) k = Some es" "e \<in> set es" for k es e
    proof -
      from that(1) have "es = filter (\<lambda>e. ed_to e = k) (gr_edges ?g)" by (simp add: in1 split: if_splits)
      with that(2) have "ed_to e = k" "e \<in> set (gr_edges ?g)" by simp_all
      with edges wf_condition_evaluable show ?thesis by blast
    qed
    have "cx_descendants c = desc" using d dc by simp
    with desc have desc_ok: "set ks \<subseteq> stage_ids ?g" if "map_of (cx_descendants c) k = Some ks" for k ks
      using that by simp
    have ne: "gr_stages ?g \<noteq> []" using assms by (simp add: well_formed_input_def)
    show ?thesis unfolding wf_ctx_def keys g s dom_stagesById i using k ne inc_ok desc_ok by blast
  qed
  with c show ?thesis by (rule that)
qed

section \<open>Property\<close>

definition example_stage :: "string \<Rightarrow> stage_def" where
  "example_stage k = \<lparr>sd_id = k, sd_type = T_agent, sd_mode = Autonomous, sd_optional = False, sd_session = None,
     sd_maxRepairAttempts = None, sd_onValidationFailure = None, sd_reads = [], sd_writes = []\<rparr>"

definition example_graph :: pipeline_graph where
  "example_graph = \<lparr>gr_stages = [example_stage ''a'', example_stage ''b''],
     gr_edges = [\<lparr>ed_from = ''a'', ed_to = ''b'', ed_condition = None\<rparr>],
     gr_maxRepairAttempts = Some 2, gr_maxConcurrentWorkers = Some 1\<rparr>"

definition example_run :: sched_input where
  "example_run = \<lparr>si_schemaVersion = 1, si_runId = ''r'', si_pipelineId = ''p'', si_graphRevision = 1,
     si_scheduleRevision = 0, si_graph = example_graph, si_now = ''t1'', si_deadlineAt = None, si_stages = [],
     si_observations = [], si_canonicalState = JNull, si_pendingEvaluatorEdgeKeys = [],
     si_evaluatorDecisions = [], si_recoveryState = None, si_effectiveLimits = None, si_executionMode = None\<rparr>"

lemma example_run_well_formed: "well_formed_input example_run"
  by (auto simp: well_formed_input_def example_run_def example_graph_def example_stage_def stage_ids_def wf_condition_def)

text \<open>
  The descendants the scheduler computes for a rerun are exactly the stages reachable over
  edges: for a graph whose edges start at its stages, the depth-first search returns for every
  stage the sorted, duplicate-free list of the stages a non-empty path leads to.
\<close>

theorem descendants_are_reachable:
  assumes "\<forall>e \<in> set (gr_edges g). ed_from e \<in> stage_ids g"
  shows "\<exists>m. buildDescendants g = Inr m \<and> (\<forall>k \<in> stage_ids g.
    \<exists>xs. map_of m k = Some xs \<and> sorted xs \<and> distinct xs \<and> set xs = (edge_rel g)\<^sup>+ `` {k})"
  using buildDescendants_reachable [OF assms] by metis

theorem descendants_are_reachable_witness:
  "\<exists>m xs. buildDescendants example_graph = Inr m \<and> map_of m ''a'' = Some xs \<and> sorted xs \<and> distinct xs \<and>
     set xs = (edge_rel example_graph)\<^sup>+ `` {''a''} \<and> ''b'' \<in> set xs"
proof -
  have "\<forall>e \<in> set (gr_edges example_graph). ed_from e \<in> stage_ids example_graph" "''a'' \<in> stage_ids example_graph"
    and "(''a'', ''b'') \<in> edge_rel example_graph"
    by (simp_all add: example_graph_def example_stage_def stage_ids_def edge_rel_def)
  with descendants_are_reachable [OF this(1)] show ?thesis by blast
qed

end
