(* ===== verification/Scheduler_Total.thy ===== *)
theory Scheduler_Total
  imports Scheduler_Graph
begin

text \<open>
  A tick returns. Every round of the release loop that makes progress uses up a pending stage or
  an undecided evaluator edge, so the loop's fuel is always enough; and on a well-formed input no
  operation throws, so the tick returns a plan.
\<close>

section \<open>Counting entries\<close>

lemma filter_update_length:
  assumes "distinct (map fst m)" "map_of m k = Some u"
  shows "length (filter P (AList.update k v m)) + (if P (k, u) then 1 else 0) =
    length (filter P m) + (if P (k, v) then 1 else 0)"
  using assms
proof (induction m)
  case (Cons p m)
  show ?case
  proof (cases "fst p = k")
    case True
    with Cons.prems show ?thesis by (cases p) auto
  next
    case False
    with Cons show ?thesis by (cases p) (auto split: if_splits)
  qed
qed simp

definition count_states :: "(stage_state \<Rightarrow> bool) \<Rightarrow> tick_ctx \<Rightarrow> nat" where
  "count_states P c = length (filter (\<lambda>(_, s). P (st_state s)) (cx_working c))"

lemma count_states_put:
  assumes "keyed c" "map_of (cx_working c) (st_stageId s') = Some s"
  shows "count_states P (put_stage c s') + (if P (st_state s) then 1 else 0) =
    count_states P c + (if P (st_state s') then 1 else 0)"
  using filter_update_length [of "cx_working c" "st_stageId s'" s "\<lambda>(_, s). P (st_state s)" s'] assms
  by (simp add: count_states_def put_stage_def keyed_def)

lemma count_states_working: "cx_working c' = cx_working c \<Longrightarrow> count_states P c' = count_states P c"
  by (simp add: count_states_def)

section \<open>The release loop ends\<close>

definition edges_ok :: "tick_ctx \<Rightarrow> bool" where
  "edges_ok c \<longleftrightarrow> (\<forall>k es. map_of (cx_incoming c) k = Some es \<longrightarrow> set es \<subseteq> set (gr_edges (cx_graph c)))"

definition open_edges :: "tick_ctx \<Rightarrow> nat" where
  "open_edges c = length (filter (\<lambda>e. edgeKey (ed_from e) (ed_to e) \<notin> set (cx_pendingEvaluators c)) (gr_edges (cx_graph c)))"

definition potential :: "tick_ctx \<Rightarrow> nat" where
  "potential c = count_states (\<lambda>s. s = S_pending) c + open_edges c"

definition spends :: "tick_ctx \<Rightarrow> tick_ctx \<Rightarrow> bool" where
  "spends c c' \<longleftrightarrow> evolves c c' \<and> (keyed c \<and> edges_ok c \<longrightarrow>
     work_done c \<le> work_done c' \<and> work_done c' + potential c' \<le> work_done c + potential c)"

definition release_inv :: "tick_ctx \<Rightarrow> bool" where
  "release_inv c \<longleftrightarrow> keyed c \<and> edges_ok c"

lemma spends_refl [simp]: "spends c c"
  by (simp add: spends_def)

lemma edges_ok_evolves: "edges_ok c \<Longrightarrow> evolves c c' \<Longrightarrow> edges_ok c'"
  by (simp add: edges_ok_def evolves_def same_static_def)

lemma release_inv_spends: "release_inv c \<Longrightarrow> spends c c' \<Longrightarrow> release_inv c'"
  by (auto simp: release_inv_def spends_def intro: keyed_evolves edges_ok_evolves)

lemma spends_trans: "spends a b \<Longrightarrow> spends b c \<Longrightarrow> spends a c"
  using keyed_evolves [of a b] edges_ok_evolves [of a b]
  by (auto simp: spends_def intro: evolves_trans)

lemma filter_length_less:
  assumes "x \<in> set xs" "P x" "\<not> Q x" "\<And>y. Q y \<Longrightarrow> P y"
  shows "Suc (length (filter Q xs)) \<le> length (filter P xs)"
  using assms(1)
proof (induction xs)
  case (Cons y ys)
  have le: "length (filter Q ys) \<le> length (filter P ys)"
    using assms(4) by (induction ys) auto
  show ?case
  proof (cases "y = x")
    case True
    with le assms show ?thesis by simp
  next
    case False
    with Cons show ?thesis using assms(4) by auto
  qed
qed simp

lemma request_evaluator_spends:
  assumes "request_evaluator c e p q = Inr c'" "e \<in> set (gr_edges (cx_graph c))"
    "edgeKey (ed_from e) (ed_to e) \<notin> set (cx_pendingEvaluators c)"
  shows "spends c c'"
proof (cases "has_intent c (it_intentId (evaluator_intent c e p q))")
  case True
  with assms(1) show ?thesis by (simp add: request_evaluator_def Let_def)
next
  case False
  note f = request_evaluator_frame [OF assms(1)]
  from False assms(1) have i: "length (cx_intents c') = Suc (length (cx_intents c))"
    and p: "set (cx_pendingEvaluators c') = insert (edgeKey (ed_from e) (ed_to e)) (set (cx_pendingEvaluators c))"
    and g: "cx_graph c' = cx_graph c"
    by (auto simp: request_evaluator_def Let_def elim!: rbind_InrE)
  have "Suc (open_edges c') \<le> open_edges c"
    unfolding open_edges_def g by (rule filter_length_less [OF assms(2)]) (use assms(3) in \<open>auto simp: p\<close>)
  with f i show ?thesis
    by (simp add: spends_def work_done_def potential_def count_states_working [OF f(1)])
qed

lemma resolveIncomingEdge_spends:
  assumes "resolveIncomingEdge c e = Inr (r, c')" "e \<in> set (gr_edges (cx_graph c))"
  shows "spends c c'"
proof -
  have "c' = c \<or> (\<exists>p q. request_evaluator c e p q = Inr c' \<and>
      edgeKey (ed_from e) (ed_to e) \<notin> set (cx_pendingEvaluators c))"
    using assms(1) unfolding resolveIncomingEdge_def resolve_condition_def Let_def
    by (auto elim!: rbind_InrE split: if_splits option.splits condition.splits sum.splits)
  then show ?thesis using request_evaluator_spends assms(2) by auto
qed

lemma resolve_edges_spends:
  "resolve_edges c es = Inr (rs, c') \<Longrightarrow> set es \<subseteq> set (gr_edges (cx_graph c)) \<Longrightarrow> spends c c'"
proof (induction es arbitrary: c rs)
  case (Cons e es)
  then obtain r c1 rs1 where c1: "resolveIncomingEdge c e = Inr (r, c1)" and rest: "resolve_edges c1 es = Inr (rs1, c')"
    by (auto elim!: rbind_InrE)
  have s: "spends c c1" using c1 Cons.prems by (auto intro: resolveIncomingEdge_spends)
  then have "cx_graph c1 = cx_graph c" by (simp add: spends_def evolves_def same_static_def)
  with Cons rest have "spends c1 c'" by simp
  with s show ?case by (rule spends_trans)
qed simp

lemma applyTransition_spends:
  assumes "applyTransition c s to r opts = Inr c'" "keyed c" "map_of (cx_working c) (st_stageId s) = Some s"
    "st_state s = S_pending" "to \<noteq> S_pending"
  shows "spends c c'"
  using assms(1)
proof (rule applyTransition_Inr)
  assume w: "cx_working c' = cx_working (put_stage c (transitioned c s to r opts))"
    and rest: "cx_transitions c' = cx_transitions c @ [\<lparr>tr_stageId = st_stageId s, tr_from = st_state s, tr_to = to,
       tr_reason = r, tr_attemptId = to_attemptId opts, tr_generation = st_generation s,
       tr_blockReason = to_blockReason opts\<rparr>]" "cx_intents c' = cx_intents c"
      "cx_pendingEvaluators c' = cx_pendingEvaluators c" "cx_graph c' = cx_graph c"
  have "Suc (count_states (\<lambda>s. s = S_pending) c') = count_states (\<lambda>s. s = S_pending) c"
    using count_states_put [OF assms(2), of "transitioned c s to r opts" s "\<lambda>s. s = S_pending"] assms
    by (simp add: count_states_working [OF w])
  moreover have "evolves c c'" using applyTransition_evolves [OF assms(1,3)] by simp
  ultimately show ?thesis using rest by (simp add: spends_def work_done_def potential_def open_edges_def)
qed

lemma maybeReleaseStage_spends:
  assumes "release_inv c" "maybeReleaseStage k c = Inr c'"
  shows "spends c c'"
  using assms(2)
proof (cases rule: maybeReleaseStage_cases)
  case (first s)
  with assms(1) show ?thesis
    by (intro applyTransition_spends [OF first(6)]) (auto simp: release_inv_def dest: keyedD)
next
  case (edges s rs c1)
  let ?es = "or_default (map_of (cx_incoming c) k) []"
  have "set ?es \<subseteq> set (gr_edges (cx_graph c))"
    using assms(1) by (cases "map_of (cx_incoming c) k") (auto simp: release_inv_def edges_ok_def)
  with edges(6) have s1: "spends c c1" by (rule resolve_edges_spends)
  note f = resolve_edges_frame [OF edges(6)]
  have k: "keyed c1" using release_inv_spends [OF assms(1) s1] by (simp add: release_inv_def)
  have st: "map_of (cx_working c1) (st_stageId s) = Some s"
    using f edges(1) assms(1) by (auto simp: release_inv_def dest: keyedD)
  have "spends c1 c'" using edges(7)
    by (cases rule: settle_release_cases) (auto intro: applyTransition_spends simp: k st edges(3))
  with s1 show ?thesis by (rule spends_trans)
qed simp

interpretation spend: guarded_step release_inv maybeReleaseStage spends
  by unfold_locales (auto intro: maybeReleaseStage_spends release_inv_spends spends_trans)

text \<open>Running out of fuel is not a result of any operation but the release loop itself.\<close>

definition fuel_ok :: "'a res \<Rightarrow> bool" where
  "fuel_ok r \<longleftrightarrow> r \<noteq> Inl Out_of_fuel"

lemma fuel_ok_simps [simp]: "fuel_ok (Inr x)" "fuel_ok (Inl TypeError)" "fuel_ok (Inl RangeError)"
  "fuel_ok (Inl (Thrown m))" "fuel_ok (demand y)"
  by (auto simp: fuel_ok_def demand_def split: option.splits)

lemma fuel_ok_rbind [intro!]: "fuel_ok m \<Longrightarrow> (\<And>x. m = Inr x \<Longrightarrow> fuel_ok (f x)) \<Longrightarrow> fuel_ok (rbind m f)"
  by (cases m) (auto simp: fuel_ok_def)

lemma fuel_ok_rfold [intro!]: "(\<And>x s. fuel_ok (f x s)) \<Longrightarrow> fuel_ok (rfold f xs s)"
  by (induction xs arbitrary: s) auto

lemma fuel_ok_applyTransition [simp]: "fuel_ok (applyTransition c s to r opts)"
  by (auto simp: applyTransition_def Let_def assertPermittedTransition_def)

lemma fuel_ok_resolve_condition [simp]: "fuel_ok (resolve_condition c e)"
  by (auto simp: resolve_condition_def request_evaluator_def Let_def split: option.splits condition.splits sum.splits)

lemma fuel_ok_resolveIncomingEdge [simp]: "fuel_ok (resolveIncomingEdge c e)"
  by (auto simp: resolveIncomingEdge_def)

lemma fuel_ok_resolve_edges [simp]: "fuel_ok (resolve_edges c es)"
  by (induction es arbitrary: c) auto

lemma fuel_ok_maybeReleaseStage [simp]: "fuel_ok (maybeReleaseStage k c)"
  by (auto simp: maybeReleaseStage_def settle_release_def Let_def split: option.splits)

lemma release_loop_fuel: "release_inv c \<Longrightarrow> potential c < n \<Longrightarrow> fuel_ok (release_loop n c)"
proof (induction n arbitrary: c)
  case (Suc n)
  have "fuel_ok (release_loop n c1)"
    if c1: "rfold maybeReleaseStage (sorted_ids c) c = Inr c1" and "work_done c < work_done c1" for c1
  proof (rule Suc.IH)
    have s: "spends c c1" by (rule spend.fold_rel [OF Suc.prems(1) c1])
    then show "release_inv c1" by (rule release_inv_spends [OF Suc.prems(1)])
    show "potential c1 < n" using s Suc.prems that by (auto simp: spends_def release_inv_def)
  qed
  then show ?case by auto
qed simp

lemma potential_le_fuel: "potential c < release_fuel c"
proof -
  have "count_states (\<lambda>s. s = S_pending) c \<le> length (cx_working c)" by (simp add: count_states_def)
  moreover have "open_edges c \<le> length (gr_edges (cx_graph c))" by (simp add: open_edges_def)
  ultimately show ?thesis by (simp add: potential_def release_fuel_def)
qed

lemma fuel_ok_rerun_stage [simp]: "fuel_ok (rerun_stage k c)"
  by (auto simp: rerun_stage_def Let_def assertPermittedTransition_def)

lemma fuel_ok_applyRecoveryDecision [simp]: "fuel_ok (applyRecoveryDecision c s ob r)"
  by (cases r) (auto simp: applyRecoveryDecision_def Let_def)

lemma fuel_ok_processAttemptFailed [simp]: "fuel_ok (processAttemptFailed pl c s ob)"
  by (auto simp: processAttemptFailed_def legacy_failure_def Let_def split: option.splits prod.splits)

lemma fuel_ok_reviews [simp]:
  "fuel_ok (processRecoveryApproved c s ob)" "fuel_ok (processRecoveryRejected c s ob)"
  by (auto simp: processRecoveryApproved_def processRecoveryRejected_def Let_def split: option.splits prod.splits)

lemma fuel_ok_processObservation [simp]: "fuel_ok (processObservation pl ob c)"
proof -
  have "fuel_ok (stage_observation pl c s ob)" for c s
    by (cases "ob_kind ob") (auto simp: stage_observation_def Let_def)
  then have "fuel_ok (observe_stage pl ob c)" for c by (auto simp: observe_stage_def split: option.splits)
  then show ?thesis
    by (cases "ob_kind ob") (auto simp: processObservation_eq processManualRerun_def split: option.splits)
qed

lemma fuel_ok_queue_loop [simp]: "fuel_ok (queue_loop m ks n c)"
  by (induction ks arbitrary: n c) (auto simp: queue_stage_def dispatch_stage_def Let_def split: prod.splits)

lemma fuel_ok_cancel_all [simp]: "fuel_ok (cancel_all c)"
  by (auto simp: cancel_all_def cancel_stage_def cancelInactiveStage_def)

lemma fuel_ok_rearmRetries [simp]: "fuel_ok (rearmRetries c ks)"
  by (auto simp: rearmRetries_def rearm_stage_def)

lemma fuel_ok_tick_body:
  assumes "release_inv c"
  shows "fuel_ok (tick_body pl c)"
proof -
  have "fuel_ok (release_loop (release_fuel c3) c3)"
    if p: "rfold (processObservation pl) (sorted_observations c) c = Inr c1" "cancel_all c1 = Inr c2"
      "rearmRetries c2 (retrying_ids c) = Inr c3" for c1 c2 c3
  proof -
    have k: "keyed c" using assms by (simp add: release_inv_def)
    have e1: "evolves c c1" by (rule observe.fold_rel [OF k p(1)])
    note k1 = keyed_evolves [OF k e1]
    have e2: "evolves c1 c2" by (rule cancel_all_evolves [OF k1 p(2)])
    note k2 = keyed_evolves [OF k1 e2]
    have e3: "evolves c2 c3" using p(3) unfolding rearmRetries_def by (rule rearm.fold_rel [OF k2])
    have "evolves c c3" using e1 e2 e3 by (blast intro: evolves_trans)
    then have "release_inv c3" using assms by (auto simp: release_inv_def intro: keyed_evolves edges_ok_evolves)
    then show ?thesis by (rule release_loop_fuel) (rule potential_le_fuel)
  qed
  then show ?thesis unfolding tick_body_def queueReadyStages_def by (intro fuel_ok_rbind fuel_ok_rfold) simp_all
qed

lemma fuel_ok_computeTerminal [simp]: "fuel_ok (computeTerminal c)"
proof -
  have "fuel_ok (requiredFailed defs ss)" for defs ss by (induction ss) auto
  then show ?thesis by (auto simp: computeTerminal_def Let_def split: option.splits)
qed

lemma fuel_ok_record_terminal [simp]: "fuel_ok (record_terminal c t)"
  by (auto simp: record_terminal_def split: option.splits list.splits)

lemma fuel_ok_createTickContext [simp]: "fuel_ok (createTickContext input v2)"
  by (auto simp: createTickContext_def buildEdgeMaps_def buildDescendants_def build_successors_def push_at_def Let_def
      split: option.splits)

lemma createTickContext_release_inv: "createTickContext input v2 = Inr c \<Longrightarrow> release_inv c"
proof (erule createTickContext_Inr)
  assume "keyed c" and "cx_graph c = si_graph input" and "\<exists>out. buildEdgeMaps (si_graph input) = Inr (cx_incoming c, out)"
  moreover from this(3) have "map_of (cx_incoming c) k =
      (if k \<in> stage_ids (si_graph input) then Some (filter (\<lambda>e. ed_to e = k) (gr_edges (si_graph input))) else None)" for k
    using buildEdgeMaps_incoming by blast
  ultimately show "release_inv c" by (auto simp: release_inv_def edges_ok_def)
qed

lemma fuel_ok_runTick: "release_inv c \<Longrightarrow> fuel_ok (runTick pl c)"
  unfolding runTick_def by (intro fuel_ok_rbind fuel_ok_tick_body) simp_all

section \<open>On a well-formed context no operation throws\<close>

lemma permitted_Inr: "isPermittedTransition (st_state s) to r \<Longrightarrow> \<exists>c'. applyTransition c s to r opts = Inr c'"
  by (rule applyTransition_defined)

lemma resolveIncomingEdge_defined:
  assumes "wf_ctx c" "ed_from e \<in> set (keys c)" "ed_to e \<in> set (keys c)"
    "evaluable (si_canonicalState (cx_input c)) e"
  shows "\<exists>r c'. resolveIncomingEdge c e = Inr (r, c')"
proof -
  obtain p where p: "map_of (cx_working c) (ed_from e) = Some p" using wf_stage [OF assms(1,2)] .
  obtain t where t: "map_of (cx_working c) (ed_to e) = Some t" using wf_stage [OF assms(1,3)] .
  obtain d where d: "map_of (cx_stagesById c) (ed_from e) = Some d" using wf_definition [OF assms(1) p] .
  have "\<exists>r c'. resolve_condition c e = Inr (r, c')"
    using assms(4) t unfolding resolve_condition_def request_evaluator_def evaluable_def Let_def
    by (auto split: option.splits condition.splits sum.splits)
  with p d show ?thesis by (auto simp: resolveIncomingEdge_def)
qed

lemma resolve_edges_defined:
  assumes "wf_ctx c" "\<forall>e \<in> set es. ed_from e \<in> set (keys c) \<and> ed_to e \<in> set (keys c) \<and>
    evaluable (si_canonicalState (cx_input c)) e"
  shows "\<exists>rs c'. resolve_edges c es = Inr (rs, c')"
  using assms
proof (induction es arbitrary: c)
  case (Cons e es)
  then obtain r c1 where c1: "resolveIncomingEdge c e = Inr (r, c1)"
    using resolveIncomingEdge_defined [of c e] by auto
  then have "evolves c c1" using resolveIncomingEdge_frame by blast
  then have "wf_ctx c1" "keys c1 = keys c" "cx_input c1 = cx_input c"
    using Cons.prems by (auto intro: wf_ctx_evolves simp: evolves_def same_static_def)
  moreover from this Cons.prems have "\<exists>rs c'. resolve_edges c1 es = Inr (rs, c')" by (intro Cons.IH) simp_all
  ultimately show ?case using c1 by auto
qed simp

lemma maybeReleaseStage_defined:
  assumes "wf_ctx c" "k \<in> set (keys c)"
  shows "\<exists>c'. maybeReleaseStage k c = Inr c'"
proof -
  obtain s where s: "map_of (cx_working c) k = Some s" "st_stageId s = k" using wf_stage [OF assms] .
  obtain d where d: "map_of (cx_stagesById c) k = Some d" using wf_definition [OF assms(1) s(1)] .
  let ?es = "or_default (map_of (cx_incoming c) k) []"
  have "\<forall>e \<in> set ?es. ed_from e \<in> set (keys c) \<and> ed_to e \<in> set (keys c) \<and>
      evaluable (si_canonicalState (cx_input c)) e"
    using assms(1) by (cases "map_of (cx_incoming c) k") (auto simp: wf_ctx_def)
  from resolve_edges_defined [OF assms(1) this] obtain rs c1 where r: "resolve_edges c ?es = Inr (rs, c1)" by blast
  then have "cx_stagesById c1 = cx_stagesById c"
    using resolve_edges_frame [OF r] by (simp add: evolves_def same_static_def)
  with d s have "\<exists>c'. settle_release c1 s rs = Inr c'" if "st_state s = S_pending"
    unfolding settle_release_def using that
    by (auto intro!: permitted_Inr simp: permitted_table split: option.splits)
  moreover have "\<exists>c'. applyTransition c s S_ready R_root_eligible (options A_release) = Inr c'" if "st_state s = S_pending"
    using that by (intro permitted_Inr) (simp add: permitted_table)
  ultimately show ?thesis using s r by (auto simp: maybeReleaseStage_def Let_def)
qed

lemma cancel_stage_defined:
  assumes "wf_ctx c" "k \<in> set (keys c)"
  shows "\<exists>c'. cancel_stage k c = Inr c'"
proof -
  obtain s where s: "map_of (cx_working c) k = Some s" "st_stageId s = k" using wf_stage [OF assms] .
  let ?r = "if cx_deadlineExceeded c then R_deadline_exceeded else R_pipeline_cancelled"
  have "isPermittedTransition (st_state s) S_cancelled ?r" if "inactive_state (st_state s)"
    using that by (auto simp: inactive_state_def permitted_table)
  then obtain c1 where c1: "cancelInactiveStage c s ?r = Inr c1"
    using applyTransition_defined [of s S_cancelled ?r c "(options A_cancel)\<lparr>to_clearAttempt := True\<rparr>"]
    by (cases "inactive_state (st_state s)") (auto simp: cancelInactiveStage_def simp del: if_split)
  have "evolves c c1" using cancelInactiveStage_evolves [OF c1] s by simp
  then have "k \<in> set (keys c1)" using assms(2) by (simp add: evolves_keys)
  then obtain s1 where "map_of (cx_working c1) k = Some s1" by (auto simp: in_keys)
  with s c1 show ?thesis by (simp add: cancel_stage_def)
qed

lemma rerun_stage_defined:
  assumes "wf_ctx c" "k \<in> set (keys c)"
  shows "\<exists>c'. rerun_stage k c = Inr c'"
proof -
  obtain s where s: "map_of (cx_working c) k = Some s" using wf_stage [OF assms] .
  have "isPermittedTransition (st_state s) S_pending R_manual_rerun" if "isTerminalStageState (st_state s)"
    using that by (cases "st_state s") (simp_all add: permitted_table)
  then show ?thesis using s by (auto simp: rerun_stage_def Let_def assertPermittedTransition_def)
qed

lemma rearm_stage_defined:
  assumes "wf_ctx c" "k \<in> set (keys c)"
  shows "\<exists>c'. rearm_stage k c = Inr c'"
proof -
  obtain s where s: "map_of (cx_working c) k = Some s" using wf_stage [OF assms] .
  then show ?thesis
    using applyTransition_defined [of s S_ready R_retry_scheduled c] by (auto simp: rearm_stage_def permitted_table)
qed

interpretation total_release: safe_step wf_ctx maybeReleaseStage evolves "\<lambda>c k. k \<in> set (keys c)"
  by unfold_locales (auto intro: maybeReleaseStage_evolves wf_ctx_keyed wf_ctx_evolves evolves_trans
      maybeReleaseStage_defined simp: evolves_keys)

interpretation total_cancel: safe_step wf_ctx cancel_stage evolves "\<lambda>c k. k \<in> set (keys c)"
  by unfold_locales (auto intro: cancel_stage_evolves wf_ctx_keyed wf_ctx_evolves evolves_trans
      cancel_stage_defined simp: evolves_keys)

interpretation total_rerun: safe_step wf_ctx rerun_stage evolves "\<lambda>c k. k \<in> set (keys c)"
  by unfold_locales (auto intro: rerun_stage_evolves wf_ctx_keyed wf_ctx_evolves evolves_trans
      rerun_stage_defined simp: evolves_keys)

interpretation total_rearm: safe_step wf_ctx rearm_stage evolves "\<lambda>c k. k \<in> set (keys c)"
  by unfold_locales (auto intro: rearm_stage_evolves wf_ctx_keyed wf_ctx_evolves evolves_trans
      rearm_stage_defined simp: evolves_keys)


lemma rerun_targets_keys:
  assumes "wf_ctx c" "k \<in> set (keys c)"
  shows "set (rerun_targets c k) \<subseteq> set (keys c)"
proof -
  have "set (or_default (map_of (cx_descendants c) k) []) \<subseteq> set (keys c)"
    using assms(1) by (cases "map_of (cx_descendants c) k") (simp_all add: wf_ctx_def)
  then show ?thesis using assms(2) unfolding rerun_targets_def set_sort by simp
qed

lemma processManualRerun_defined:
  assumes "wf_ctx c"
  shows "\<exists>c'. processManualRerun c k = Inr c'"
proof (cases "k \<in> set (keys c)")
  case True
  from rerun_targets_keys [OF assms this] have "\<forall>x \<in> set (rerun_targets c k). x \<in> set (keys c)" by blast
  from total_rerun.fold_safe [OF assms this] show ?thesis by (simp add: processManualRerun_def)
qed (simp add: processManualRerun_def in_keys)

lemma processAttemptFailed_defined:
  assumes "wf_ctx c" "map_of (cx_working c) (st_stageId s) = Some s"
  shows "\<exists>c'. processAttemptFailed pl c s ob = Inr c'"
proof -
  obtain d where d: "map_of (cx_stagesById c) (st_stageId s) = Some d" using wf_definition [OF assms] .
  have legacy: "\<exists>c'. legacy_failure c s ob d = Inr c'" if "st_state s = S_running \<or> st_state s = S_waiting"
    unfolding legacy_failure_def Let_def using that
    by (auto intro!: permitted_Inr simp: permitted_table)
  have "\<exists>c'. applyRecoveryDecision c1 s ob r = Inr c'" if "st_state s = S_running \<or> st_state s = S_waiting" for c1 r
    using that by (cases r) (auto simp: applyRecoveryDecision_def Let_def fail_transition_reason_def
      intro!: permitted_Inr simp: permitted_table)
  with legacy d show ?thesis
    by (auto simp: processAttemptFailed_def Let_def split: option.splits prod.splits)
qed

lemma reviews_defined:
  assumes "wf_ctx c" "map_of (cx_working c) (st_stageId s) = Some s"
  shows "\<exists>c'. processRecoveryApproved c s ob = Inr c'" "\<exists>c'. processRecoveryRejected c s ob = Inr c'"
proof -
  obtain d where d: "map_of (cx_stagesById c) (st_stageId s) = Some d" using wf_definition [OF assms] .
  obtain counters c1 where g: "getRecoveryCounters c s = (counters, c1)" by (cases "getRecoveryCounters c s")
  have d1: "map_of (cx_stagesById c1) (st_stageId s) = Some d" using d by (rule_tac getRecoveryCounters_frame [OF g]) simp
  show "\<exists>c'. processRecoveryApproved c s ob = Inr c'"
    unfolding processRecoveryApproved_def g using d1
    by (auto simp: Let_def intro!: permitted_Inr simp: permitted_table split: option.split)
  show "\<exists>c'. processRecoveryRejected c s ob = Inr c'"
    unfolding processRecoveryRejected_def g using d1
    by (auto simp: Let_def intro!: permitted_Inr simp: permitted_table)
qed

lemma stage_observation_defined:
  assumes "wf_ctx c" "map_of (cx_working c) (st_stageId s) = Some s"
  shows "\<exists>c'. stage_observation pl c s ob = Inr c'"
  using processAttemptFailed_defined [OF assms] reviews_defined [OF assms]
  by (cases "ob_kind ob")
    (auto simp: stage_observation_def Let_def active_state_def intro!: permitted_Inr simp: permitted_table)

lemma processObservation_defined:
  assumes "wf_ctx c"
  shows "\<exists>c'. processObservation pl ob c = Inr c'"
proof -
  have wf: "wf_ctx (consume ob c)" using assms consume_evolves by (rule wf_ctx_evolves)
  have "\<exists>c'. observe_stage pl ob (consume ob c) = Inr c'"
  proof (cases "Option.bind (ob_stageId ob) (map_of (cx_working (consume ob c)))")
    case (Some s)
    then have "map_of (cx_working (consume ob c)) (st_stageId s) = Some s"
      using keyedD [OF wf_ctx_keyed [OF wf]] by (auto simp: bind_eq_Some_conv simp del: consume_frame)
    from stage_observation_defined [OF wf this] Some show ?thesis by (simp add: observe_stage_def)
  qed (simp add: observe_stage_def)
  with processManualRerun_defined [OF wf] show ?thesis
    by (cases "ob_kind ob") (auto simp: processObservation_eq split: option.split)
qed

interpretation total_observe: safe_step wf_ctx "processObservation pl" evolves "\<lambda>c ob. True"
  by unfold_locales (auto intro: processObservation_evolves wf_ctx_keyed wf_ctx_evolves evolves_trans
      processObservation_defined)

lemma queue_stage_defined:
  assumes "wf_ctx c" "map_of (cx_working c) (st_stageId s) = Some s" "st_state s = S_ready"
  shows "\<exists>c'. queue_stage c s = Inr c'"
proof -
  obtain d where d: "map_of (cx_stagesById c) (st_stageId s) = Some d" using wf_definition [OF assms(1,2)] .
  then show ?thesis using assms(3)
    by (auto simp: queue_stage_def dispatch_stage_def Let_def intro!: permitted_Inr simp: permitted_table
        split: prod.split)
qed

lemma queue_loop_defined:
  "wf_ctx c \<Longrightarrow> set ks \<subseteq> set (keys c) \<Longrightarrow> \<exists>c'. queue_loop m ks n c = Inr c'"
proof (induction ks arbitrary: n c)
  case (Cons k ks)
  have "k \<in> set (keys c)" using Cons.prems(2) by simp
  from wf_stage [OF Cons.prems(1) this] obtain s where s: "map_of (cx_working c) k = Some s" "st_stageId s = k" .
  have "\<exists>c'. rbind (queue_stage c s) (queue_loop m ks (Suc n)) = Inr c'" if ready: "st_state s = S_ready"
  proof -
    obtain c1 where c1: "queue_stage c s = Inr c1" using queue_stage_defined [OF Cons.prems(1), of s] s ready by auto
    have "evolves c c1" by (rule queue_stage_evolves [OF c1]) (simp add: s)
    with Cons.prems have "wf_ctx c1" "set ks \<subseteq> set (keys c1)" by (auto intro: wf_ctx_evolves simp: evolves_keys)
    with Cons.IH c1 show ?thesis by simp
  qed
  with s Cons show ?case by simp
qed simp

lemma cancel_all_defined: "wf_ctx c \<Longrightarrow> \<exists>c'. cancel_all c = Inr c'"
  using total_cancel.fold_safe [of c "sorted_ids c"] by (auto simp: cancel_all_def sorted_ids_def keys_def)

lemma release_loop_defined: "wf_ctx c \<Longrightarrow> potential c < n \<Longrightarrow> \<exists>c'. release_loop n c = Inr c'"
proof (induction n arbitrary: c)
  case (Suc n)
  obtain c1 where c1: "rfold maybeReleaseStage (sorted_ids c) c = Inr c1"
    using total_release.fold_safe [OF Suc.prems(1), of "sorted_ids c"] by (auto simp: sorted_ids_def keys_def)
  have inv: "release_inv c" using Suc.prems(1) by (auto simp: release_inv_def edges_ok_def wf_ctx_def)
  have s: "spends c c1" by (rule spend.fold_rel [OF inv c1])
  have "\<exists>c'. release_loop n c1 = Inr c'" if "work_done c < work_done c1"
    using s that inv Suc by (intro Suc.IH) (auto simp: spends_def release_inv_def intro: wf_ctx_evolves)
  with c1 show ?case by simp
qed simp

lemma retrying_ids_keys: "keyed c \<Longrightarrow> set (retrying_ids c) \<subseteq> set (keys c)"
proof
  fix k assume "keyed c" "k \<in> set (retrying_ids c)"
  then obtain k' s where "(k', s) \<in> set (cx_working c)" "k = st_stageId s" by (auto simp: retrying_ids_def)
  then have "map_of (cx_working c) k' = Some s" using \<open>keyed c\<close> by (simp add: keyed_def)
  with \<open>keyed c\<close> \<open>k = st_stageId s\<close> show "k \<in> set (keys c)" using keyedD by (auto simp: in_keys)
qed

lemma tick_body_defined:
  assumes wf: "wf_ctx c"
  shows "\<exists>c'. tick_body pl c = Inr c'"
proof -
  obtain c1 where c1: "rfold (processObservation pl) (sorted_observations c) c = Inr c1"
    using total_observe.fold_safe [OF wf] by blast
  have e1: "evolves c c1" by (rule observe.fold_rel [OF wf_ctx_keyed [OF wf] c1])
  note wf1 = wf_ctx_evolves [OF wf e1]
  obtain c2 where c2: "cancel_all c1 = Inr c2" using cancel_all_defined [OF wf1] by blast
  have e2: "evolves c1 c2" by (rule cancel_all_evolves [OF wf_ctx_keyed [OF wf1] c2])
  note wf2 = wf_ctx_evolves [OF wf1 e2]
  have "keys c2 = keys c" using evolves_keys [OF e1] evolves_keys [OF e2] by simp
  then have "\<forall>k \<in> set (sort (retrying_ids c)). k \<in> set (keys c2)"
    using retrying_ids_keys [OF wf_ctx_keyed [OF wf]] by auto
  from total_rearm.fold_safe [OF wf2 this] obtain c3 where c3: "rearmRetries c2 (retrying_ids c) = Inr c3"
    by (auto simp: rearmRetries_def)
  have e3: "evolves c2 c3" using c3 unfolding rearmRetries_def by (rule rearm.fold_rel [OF wf_ctx_keyed [OF wf2]])
  note wf3 = wf_ctx_evolves [OF wf2 e3]
  obtain c4 where c4: "release_loop (release_fuel c3) c3 = Inr c4"
    using release_loop_defined [OF wf3 potential_le_fuel] by blast
  have e4: "evolves c3 c4" by (rule release_loop_evolves [OF wf_ctx_keyed [OF wf3] c4])
  note wf4 = wf_ctx_evolves [OF wf3 e4]
  have "set (sorted_ids c4) \<subseteq> set (keys c4)" by (simp add: sorted_ids_def keys_def)
  then obtain c5 where c5: "queueReadyStages c4 = Inr c5"
    using queue_loop_defined [OF wf4] unfolding queueReadyStages_def by blast
  have e5: "evolves c4 c5" using c5 unfolding queueReadyStages_def by (rule queue_loop_evolves [OF wf_ctx_keyed [OF wf4]])
  obtain c6 where "cancel_all c5 = Inr c6" using cancel_all_defined [OF wf_ctx_evolves [OF wf4 e5]] by blast
  with c1 c2 c3 c4 c5 show ?thesis by (simp add: tick_body_def)
qed

lemma requiredFailed_defined:
  "\<forall>s \<in> set ss. map_of defs (st_stageId s) \<noteq> None \<Longrightarrow> \<exists>b. requiredFailed defs ss = Inr b"
  by (induction ss) auto

lemma computeTerminal_defined:
  assumes "wf_ctx c"
  shows "\<exists>t. computeTerminal c = Inr t"
proof -
  have "map_of (cx_stagesById c) (st_stageId s) \<noteq> None" if "(k, s) \<in> set (cx_working c)" for k s
  proof -
    have "map_of (cx_working c) k = Some s" using that wf_ctx_keyed [OF assms] by (simp add: keyed_def)
    then show ?thesis using keyedD [OF wf_ctx_keyed [OF assms]] wf_definition [OF assms] by (metis option.distinct(1))
  qed
  then have "\<exists>b. requiredFailed (cx_stagesById c) (map snd (cx_working c)) = Inr b"
    by (intro requiredFailed_defined) force
  then show ?thesis by (auto simp: computeTerminal_def Let_def split: option.split)
qed

lemma runTick_defined:
  assumes "wf_ctx c"
  shows "\<exists>plan. runTick pl c = Inr plan"
proof -
  obtain c1 where c1: "tick_body pl c = Inr c1" using tick_body_defined [OF assms] by blast
  have "wf_ctx c1" using assms tick_body_evolves [OF wf_ctx_keyed [OF assms] c1] by (rule wf_ctx_evolves)
  then have ne: "gr_stages (cx_graph c1) \<noteq> []" by (simp add: wf_ctx_def)
  obtain t where t: "computeTerminal c1 = Inr t" using computeTerminal_defined [OF \<open>wf_ctx c1\<close>] by blast
  from ne have "\<exists>c2. record_terminal c1 t = Inr c2"
    by (auto simp: record_terminal_def neq_Nil_conv split: option.split)
  with c1 t show ?thesis by (auto simp: runTick_def)
qed

section \<open>Properties\<close>

text \<open>
  On a well-formed input a tick returns a plan: the scheduler never throws, in either entry
  point. No transition it makes is undeclared, no stage it looks up is missing and no condition
  overflows the stack.
\<close>

theorem tick_returns_plan:
  assumes "well_formed_input input"
  shows "(\<exists>plan. tickScheduler pl input = Inr plan) \<and> (\<exists>plan. tickSchedulerV2 pl input = Inr plan)"
proof
  from createTickContext_wf [OF assms] obtain c where "createTickContext input (wants_v2 input) = Inr c" "wf_ctx c" .
  with runTick_defined [of c pl] show "\<exists>plan. tickScheduler pl input = Inr plan" by (simp add: tickScheduler_def)
  have "well_formed_input (input\<lparr>si_schemaVersion := 2\<rparr>)" using assms by (simp add: well_formed_input_def)
  from createTickContext_wf [OF this] obtain c where
    "createTickContext (input\<lparr>si_schemaVersion := 2\<rparr>) True = Inr c" "wf_ctx c" .
  with runTick_defined [of c pl] show "\<exists>plan. tickSchedulerV2 pl input = Inr plan"
    by (auto simp: tickSchedulerV2_def)
qed

theorem tick_returns_plan_witness:
  "well_formed_input example_run \<and> (\<exists>plan. tickScheduler example_platform example_run = Inr plan)
   \<and> (\<exists>plan. tickSchedulerV2 example_platform example_run = Inr plan)"
  using example_run_well_formed tick_returns_plan [OF example_run_well_formed] by blast

text \<open>
  C12: the release loop of a tick ends, on every input: one round per working stage and per edge, plus
  one, is enough, so a tick never runs out of the model's fuel.
\<close>

theorem tick_terminates:
  "tickScheduler pl input \<noteq> Inl Out_of_fuel \<and> tickSchedulerV2 pl input \<noteq> Inl Out_of_fuel"
proof -
  have "fuel_ok (tickScheduler pl input)" "fuel_ok (tickSchedulerV2 pl input)"
    unfolding tickScheduler_def tickSchedulerV2_def
    by (intro fuel_ok_rbind fuel_ok_runTick; auto dest: createTickContext_release_inv)+
  then show ?thesis by (simp add: fuel_ok_def)
qed

end
