(* ===== verification/Scheduler_Settle.thy ===== *)
theory Scheduler_Settle
  imports Scheduler_Total
begin

text \<open>
  The phases of a tick after the observations (cancellation, re-arming, release, dispatch) only settle
  stages: the relation \<open>settles\<close> says that they leave finished stages, generations, the cancellation
  flags and the evaluator decisions alone, and that every stage they release was justified by
  its predecessors, whose outcome is still the same at the end of the tick.
\<close>

section \<open>What justifies a release\<close>

text \<open>A predecessor that no longer holds a successor back: succeeded, failed but optional, or not selected.\<close>

definition edge_done :: "tick_ctx \<Rightarrow> pipeline_edge \<Rightarrow> bool" where
  "edge_done c e \<longleftrightarrow> (\<exists>p. map_of (cx_working c) (ed_from e) = Some p \<and>
     (st_state p = S_succeeded \<or>
      st_state p = S_failed \<and> (\<exists>d. map_of (cx_stagesById c) (ed_from e) = Some d \<and> sd_optional d) \<or>
      st_state p = S_cancelled \<and> (\<not> st_selected p \<or> st_lastTransitionReason p = Some R_condition_not_selected)))"

definition edge_succeeded :: "tick_ctx \<Rightarrow> pipeline_edge \<Rightarrow> bool" where
  "edge_succeeded c e \<longleftrightarrow> (\<exists>p. map_of (cx_working c) (ed_from e) = Some p \<and> st_state p = S_succeeded)"

definition incoming_edges :: "tick_ctx \<Rightarrow> string \<Rightarrow> pipeline_edge list" where
  "incoming_edges c k = or_default (map_of (cx_incoming c) k) []"

text \<open>A read that some other stage writes is written by another stage that succeeded.\<close>

definition reads_done :: "tick_ctx \<Rightarrow> string \<Rightarrow> bool" where
  "reads_done c k \<longleftrightarrow> (\<forall>d. map_of (cx_stagesById c) k = Some d \<longrightarrow> sd_id d = k \<longrightarrow>
     (\<forall>r \<in> set (sd_reads d).
        (\<exists>w \<in> set (gr_stages (cx_graph c)). sd_id w \<noteq> k \<and> r \<in> set (sd_writes w)) \<longrightarrow>
        (\<exists>w \<in> set (gr_stages (cx_graph c)). sd_id w \<noteq> k \<and> r \<in> set (sd_writes w) \<and>
           (\<exists>s. map_of (cx_working c) (sd_id w) = Some s \<and> st_state s = S_succeeded))))"

definition justified :: "tick_ctx \<Rightarrow> stage_transition \<Rightarrow> bool" where
  "justified c t \<longleftrightarrow> (tr_reason t = R_dependencies_satisfied \<longrightarrow>
     (\<forall>e \<in> set (incoming_edges c (tr_stageId t)). edge_done c e) \<and>
     (\<exists>e \<in> set (incoming_edges c (tr_stageId t)). edge_succeeded c e) \<and>
     reads_done c (tr_stageId t))"

section \<open>Settling\<close>

definition keeps_finished :: "tick_ctx \<Rightarrow> tick_ctx \<Rightarrow> bool" where
  "keeps_finished c c' \<longleftrightarrow> (\<forall>k s. map_of (cx_working c) k = Some s \<longrightarrow>
     (\<exists>s'. map_of (cx_working c') k = Some s' \<and> st_generation s' = st_generation s \<and>
        st_attemptOrdinal s \<le> st_attemptOrdinal s' \<and>
        (isTerminalStageState (st_state s) \<longrightarrow> s' = s)))"

definition settles :: "tick_ctx \<Rightarrow> tick_ctx \<Rightarrow> bool" where
  "settles c c' \<longleftrightarrow> evolves c c' \<and> (keyed c \<longrightarrow> keeps_finished c c' \<and>
     cx_cancelRequested c' = cx_cancelRequested c \<and> cx_evaluatorDecisions c' = cx_evaluatorDecisions c \<and>
     (\<exists>ts. cx_transitions c' = cx_transitions c @ ts \<and> (\<forall>t \<in> set ts. justified c' t)))"

lemma keeps_finished_refl [simp]: "keeps_finished c c"
  by (simp add: keeps_finished_def)

lemma keeps_finished_trans: "keeps_finished a b \<Longrightarrow> keeps_finished b c \<Longrightarrow> keeps_finished a c"
  unfolding keeps_finished_def by (metis order_trans)

lemma keeps_finishedD:
  "keeps_finished c c' \<Longrightarrow> map_of (cx_working c) k = Some s \<Longrightarrow> isTerminalStageState (st_state s) \<Longrightarrow>
   map_of (cx_working c') k = Some s"
  unfolding keeps_finished_def by fastforce

lemma edge_done_keeps:
  assumes "edge_done c e" "keeps_finished c c'" "cx_stagesById c' = cx_stagesById c"
  shows "edge_done c' e"
proof -
  from assms(1) obtain p where p: "map_of (cx_working c) (ed_from e) = Some p" and
    ok: "st_state p = S_succeeded \<or>
      st_state p = S_failed \<and> (\<exists>d. map_of (cx_stagesById c) (ed_from e) = Some d \<and> sd_optional d) \<or>
      st_state p = S_cancelled \<and> (\<not> st_selected p \<or> st_lastTransitionReason p = Some R_condition_not_selected)"
    by (auto simp: edge_done_def)
  from ok have "isTerminalStageState (st_state p)" by auto
  from keeps_finishedD [OF assms(2) p this] ok show ?thesis by (auto simp: edge_done_def assms(3))
qed

lemma edge_succeeded_keeps: "edge_succeeded c e \<Longrightarrow> keeps_finished c c' \<Longrightarrow> edge_succeeded c' e"
  unfolding edge_succeeded_def by (metis isTerminalStageState.simps(1) keeps_finishedD)

lemma reads_done_keeps:
  assumes "reads_done c k" "keeps_finished c c'" "cx_stagesById c' = cx_stagesById c" "cx_graph c' = cx_graph c"
  shows "reads_done c' k"
proof -
  have "\<exists>s. map_of (cx_working c') x = Some s \<and> st_state s = S_succeeded"
    if "map_of (cx_working c) x = Some s" "st_state s = S_succeeded" for x s
    using keeps_finishedD [OF assms(2) that(1)] that(2) by auto
  with assms(1) show ?thesis unfolding reads_done_def assms(3,4) by blast
qed

lemma justified_keeps:
  assumes "justified c t" "keeps_finished c c'" "same_static c c'"
  shows "justified c' t"
proof -
  from assms(3) have eq: "cx_incoming c' = cx_incoming c" "cx_stagesById c' = cx_stagesById c" "cx_graph c' = cx_graph c"
    by (simp_all add: same_static_def)
  show ?thesis
    using assms(1) edge_done_keeps [OF _ assms(2) eq(2)] edge_succeeded_keeps [OF _ assms(2)]
      reads_done_keeps [OF _ assms(2) eq(2,3)]
    unfolding justified_def incoming_edges_def eq by blast
qed

lemma settles_refl [simp]: "settles c c"
  by (simp add: settles_def)

lemma keyed_settles: "keyed c \<Longrightarrow> settles c c' \<Longrightarrow> keyed c'"
  by (auto simp: settles_def intro: keyed_evolves)

lemma settles_trans:
  assumes "settles a b" "settles b c"
  shows "settles a c"
proof -
  have e: "evolves a c" using assms by (auto simp: settles_def intro: evolves_trans)
  { assume k: "keyed a"
    from assms(1) k obtain ts where ab: "keeps_finished a b" "cx_cancelRequested b = cx_cancelRequested a"
      "cx_evaluatorDecisions b = cx_evaluatorDecisions a" "cx_transitions b = cx_transitions a @ ts"
      "\<forall>t \<in> set ts. justified b t" by (auto simp: settles_def)
    from assms(2) keyed_settles [OF k assms(1)] obtain us where bc: "keeps_finished b c"
      "cx_cancelRequested c = cx_cancelRequested b" "cx_evaluatorDecisions c = cx_evaluatorDecisions b"
      "cx_transitions c = cx_transitions b @ us" "\<forall>t \<in> set us. justified c t" by (auto simp: settles_def)
    have "same_static b c" using assms(2) by (simp add: settles_def evolves_def)
    with ab(5) bc(1) have "\<forall>t \<in> set ts. justified c t" by (blast intro: justified_keeps)
    with ab bc have "\<exists>ts. cx_transitions c = cx_transitions a @ ts \<and> (\<forall>t \<in> set ts. justified c t)"
      by (intro exI [of _ "ts @ us"]) auto
    with ab bc have "keeps_finished a c \<and> cx_cancelRequested c = cx_cancelRequested a \<and>
      cx_evaluatorDecisions c = cx_evaluatorDecisions a \<and>
      (\<exists>ts. cx_transitions c = cx_transitions a @ ts \<and> (\<forall>t \<in> set ts. justified c t))"
      by (auto intro: keeps_finished_trans)
  }
  with e show ?thesis by (simp add: settles_def)
qed

lemma settles_quiet:
  assumes "evolves c c'" "cx_working c' = cx_working c" "cx_transitions c' = cx_transitions c"
    "cx_cancelRequested c' = cx_cancelRequested c" "cx_evaluatorDecisions c' = cx_evaluatorDecisions c"
  shows "settles c c'"
  using assms by (auto simp: settles_def keeps_finished_def)

lemma permitted_nonterminal: "isPermittedTransition a b r \<Longrightarrow> r \<noteq> R_manual_rerun \<Longrightarrow> \<not> isTerminalStageState a"
  by (cases a) (auto simp: permitted_table)

lemma applyTransition_settles:
  assumes t: "applyTransition c s to r opts = Inr c'"
    and s0: "map_of (cx_working c) (st_stageId s) = Some s0" "st_state s0 = st_state s"
      "st_generation s0 = st_generation s" "st_attemptOrdinal s0 \<le> st_attemptOrdinal s"
    and r: "r \<noteq> R_manual_rerun"
    and just: "r = R_dependencies_satisfied \<Longrightarrow>
      (\<forall>e \<in> set (incoming_edges c (st_stageId s)). edge_done c e) \<and>
      (\<exists>e \<in> set (incoming_edges c (st_stageId s)). edge_succeeded c e) \<and> reads_done c (st_stageId s)"
  shows "settles c c'"
  using t
proof (rule applyTransition_Inr)
  let ?t = "\<lparr>tr_stageId = st_stageId s, tr_from = st_state s, tr_to = to, tr_reason = r,
    tr_attemptId = to_attemptId opts, tr_generation = st_generation s, tr_blockReason = to_blockReason opts\<rparr>"
  assume p: "isPermittedTransition (st_state s) to r"
    and w: "cx_working c' = cx_working (put_stage c (transitioned c s to r opts))"
    and tr: "cx_transitions c' = cx_transitions c @ [?t]"
    and f: "cx_cancelRequested c' = cx_cancelRequested c" "cx_evaluatorDecisions c' = cx_evaluatorDecisions c"
  have e: "evolves c c'" by (rule applyTransition_evolves [OF t s0(1,2)])
  have "\<not> isTerminalStageState (st_state s0)" using permitted_nonterminal [OF p r] s0(2) by simp
  then have keeps: "keeps_finished c c'" using s0 by (auto simp: keeps_finished_def w)
  have "justified c ?t" using just by (simp add: justified_def)
  then have "justified c' ?t" by (rule justified_keeps [OF _ keeps]) (use e in \<open>simp add: evolves_def\<close>)
  with e keeps tr f show ?thesis by (simp add: settles_def)
qed

lemma resolve_condition_done:
  "resolve_condition c e = Inr (r, c') \<Longrightarrow> r \<in> {ER_pending, ER_selected, ER_rejected} \<or> (\<exists>b. r = ER_blocked b)"
  by (auto simp: resolve_condition_def Let_def elim!: rbind_InrE split: option.splits condition.splits sum.splits if_splits)

lemma resolveIncomingEdge_done:
  assumes "resolveIncomingEdge c e = Inr (r, c')"
  shows "(r = ER_selected \<longrightarrow> edge_succeeded c e) \<and> (r \<in> {ER_selected, ER_rejected, ER_waived} \<longrightarrow> edge_done c e)"
proof -
  from assms obtain p where p: "map_of (cx_working c) (ed_from e) = Some p"
    by (auto simp: resolveIncomingEdge_def elim!: rbind_InrE)
  show ?thesis
  proof (cases "st_state p = S_succeeded")
    case True
    with p show ?thesis by (simp add: edge_done_def edge_succeeded_def)
  next
    case False
    with assms p show ?thesis
      by (auto simp: resolveIncomingEdge_def edge_done_def elim!: rbind_InrE split: if_splits)
  qed
qed

lemma resolve_edges_done:
  "resolve_edges c es = Inr (rs, c') \<Longrightarrow> ER_pending \<notin> set rs \<Longrightarrow> first_blocked rs = None \<Longrightarrow>
   (\<forall>e \<in> set es. edge_done c e) \<and> (ER_selected \<in> set rs \<longrightarrow> (\<exists>e \<in> set es. edge_succeeded c e))"
proof (induction es arbitrary: c rs)
  case (Cons e es)
  then obtain r c1 rs1 where c1: "resolveIncomingEdge c e = Inr (r, c1)" and rest: "resolve_edges c1 es = Inr (rs1, c')"
    and rs: "rs = r # rs1" by (auto elim!: rbind_InrE)
  have w: "cx_working c1 = cx_working c" "cx_stagesById c1 = cx_stagesById c"
    using resolveIncomingEdge_frame [OF c1] by (auto simp: evolves_def same_static_def)
  have r: "r \<in> {ER_selected, ER_rejected, ER_waived}" "first_blocked rs1 = None"
    using Cons.prems(2,3) by (cases r; simp add: rs)+
  have "(\<forall>e \<in> set es. edge_done c1 e) \<and> (ER_selected \<in> set rs1 \<longrightarrow> (\<exists>e \<in> set es. edge_succeeded c1 e))"
    by (rule Cons.IH [OF rest]) (use Cons.prems r in \<open>simp_all add: rs\<close>)
  then show ?case using resolveIncomingEdge_done [OF c1] r
    by (auto simp: rs edge_done_def edge_succeeded_def w)
qed simp

lemma set_producedWrites:
  "set (producedWrites c k) = {r. \<exists>w \<in> set (gr_stages (cx_graph c)). sd_id w \<noteq> k \<and> r \<in> set (sd_writes w) \<and>
     (\<exists>s. map_of (cx_working c) (sd_id w) = Some s \<and> st_state s = S_succeeded)}"
proof -
  let ?f = "\<lambda>stage writes. if sd_id stage = k then writes
         else if map_option st_state (map_of (cx_working c) (sd_id stage)) = Some S_succeeded
         then fold js_add (sd_writes stage) writes else writes"
  have "set (fold ?f ds ws) = set ws \<union> {r. \<exists>w \<in> set ds. sd_id w \<noteq> k \<and> r \<in> set (sd_writes w) \<and>
     (\<exists>s. map_of (cx_working c) (sd_id w) = Some s \<and> st_state s = S_succeeded)}" for ds ws
    by (induction ds arbitrary: ws) (auto simp: set_fold_js_add)
  from this [of "gr_stages (cx_graph c)" "[]"] show ?thesis unfolding producedWrites_def by simp
qed

lemma unsatisfiedReads_None:
  assumes "unsatisfiedReads c d = None" "map_of (cx_stagesById c) k = Some d"
  shows "reads_done c k"
  using assms unfolding unsatisfiedReads_def Let_def reads_done_def
  by (simp add: find_None_iff set_producedWrites list_ex_iff) blast

lemma settle_release_settles:
  assumes "settle_release c s rs = Inr c'" "map_of (cx_working c) (st_stageId s) = Some s"
    "resolve_edges c0 (incoming_edges c (st_stageId s)) = Inr (rs, c)"
  shows "settles c c'"
  using assms(1)
proof (cases rule: settle_release_cases)
  case (ready d)
  have w: "cx_working c0 = cx_working c" "cx_stagesById c0 = cx_stagesById c"
    using resolve_edges_frame [OF assms(3)] by (auto simp: evolves_def same_static_def)
  have "(\<forall>e \<in> set (incoming_edges c (st_stageId s)). edge_done c e) \<and>
      (\<exists>e \<in> set (incoming_edges c (st_stageId s)). edge_succeeded c e)"
    using resolve_edges_done [OF assms(3) ready(1,2)] ready(3) by (simp add: edge_done_def edge_succeeded_def w)
  moreover have "reads_done c (st_stageId s)" by (rule unsatisfiedReads_None [OF ready(5,4)])
  ultimately show ?thesis using ready assms(2) by (blast intro: applyTransition_settles)
qed (use assms(2) in \<open>auto intro: applyTransition_settles\<close>)

lemma maybeReleaseStage_settles:
  assumes "keyed c" "maybeReleaseStage k c = Inr c'"
  shows "settles c c'"
  using assms(2)
proof (cases rule: maybeReleaseStage_cases)
  case (first s)
  with keyedD [OF assms(1) first(1)] show ?thesis by (auto intro: applyTransition_settles)
next
  case (edges s rs c1)
  note f = resolve_edges_frame [OF edges(6)]
  have id: "st_stageId s = k" by (rule keyedD [OF assms(1) edges(1)])
  have inc: "incoming_edges c1 k = or_default (map_of (cx_incoming c) k) []"
    using f by (simp add: incoming_edges_def evolves_def same_static_def)
  have "settles c c1" using f by (intro settles_quiet) auto
  moreover have "settles c1 c'"
    by (rule settle_release_settles [OF edges(7)]) (use f edges(1,6) id inc in auto)
  ultimately show ?thesis by (rule settles_trans)
qed simp

lemma cancel_stage_cases:
  assumes "keyed c" "cancel_stage k c = Inr c'"
  obtains s c1 s1 where "map_of (cx_working c) k = Some s" "map_of (cx_working c1) k = Some s1"
    "c' = requestCancelForActive c1 s1"
    "if inactive_state (st_state s)
     then applyTransition c s S_cancelled (if cx_deadlineExceeded c then R_deadline_exceeded else R_pipeline_cancelled)
       ((options A_cancel)\<lparr>to_clearAttempt := True\<rparr>) = Inr c1 else c1 = c \<and> s1 = s"
proof -
  from assms(2) obtain s c1 s1 where s: "map_of (cx_working c) k = Some s" "map_of (cx_working c1) k = Some s1"
    "c' = requestCancelForActive c1 s1"
    and c1: "cancelInactiveStage c s (if cx_deadlineExceeded c then R_deadline_exceeded else R_pipeline_cancelled) = Inr c1"
    unfolding cancel_stage_def by (auto elim!: rbind_InrE)
  show ?thesis by (rule that [OF s]) (use s c1 in \<open>auto simp: cancelInactiveStage_def\<close>)
qed

lemma cancel_stage_settles:
  assumes "keyed c" "cancel_stage k c = Inr c'"
  shows "settles c c'"
  using assms
proof (rule cancel_stage_cases)
  fix s c1 s1 assume s: "map_of (cx_working c) k = Some s" and c': "c' = requestCancelForActive c1 s1"
    and c1: "if inactive_state (st_state s)
     then applyTransition c s S_cancelled (if cx_deadlineExceeded c then R_deadline_exceeded else R_pipeline_cancelled)
       ((options A_cancel)\<lparr>to_clearAttempt := True\<rparr>) = Inr c1 else c1 = c \<and> s1 = s"
  have "settles c c1"
  proof (cases "inactive_state (st_state s)")
    case True
    with c1 keyedD [OF assms(1) s] s show ?thesis
      by (intro applyTransition_settles [of c s S_cancelled
          "if cx_deadlineExceeded c then R_deadline_exceeded else R_pipeline_cancelled"]) (auto split: if_splits)
  qed (use c1 in simp)
  moreover have "settles c1 c'" unfolding c' by (intro settles_quiet requestCancelForActive_evolves) simp_all
  ultimately show ?thesis by (rule settles_trans)
qed

lemma rearm_stage_settles:
  assumes "keyed c" "rearm_stage k c = Inr c'"
  shows "settles c c'"
  using assms(2)
proof (cases rule: rearm_stage_cases)
  case (rearm s)
  then show ?thesis using keyedD [OF assms(1) rearm(1)] by (auto intro: applyTransition_settles)
qed simp

lemma dispatch_stage_settles:
  assumes "dispatch_stage c s directive d = Inr c'"
    "map_of (cx_working c) (st_stageId s) = Some s0" "st_state s0 = st_state s"
    "st_generation s0 = st_generation s" "st_attemptOrdinal s0 \<le> st_attemptOrdinal s"
  shows "settles c c'"
proof -
  let ?id = "deriveAttemptId (si_runId (cx_input c)) (si_graphRevision (cx_input c)) (st_stageId s)
      (st_generation s) (st_attemptOrdinal s)"
  let ?c1 = "add_intent (c\<lparr>cx_attempts := cx_attempts c @ [build_attempt c s d ?id directive]\<rparr>)
      (dispatch_intent c s d ?id directive)"
  have "settles c ?c1" by (intro settles_quiet evolves_quiet) simp_all
  moreover have "settles ?c1 c'"
    using assms(1) unfolding dispatch_stage_def Let_def
    by (rule applyTransition_settles) (use assms in simp_all)
  ultimately show ?thesis by (rule settles_trans)
qed

lemma queue_stage_settles:
  assumes "queue_stage c s = Inr c'" "map_of (cx_working c) (st_stageId s) = Some s"
  shows "settles c c'"
  using assms(1)
proof (rule queue_stage_cases)
  fix directive c1 d assume c: "claim_directive c (next_attempt s) = (directive, c1)"
    and d: "dispatch_stage c1 (next_attempt s) directive d = Inr c'"
  have w: "cx_working c1 = cx_working c" by (rule claim_directive_frame [OF c])
  have "settles c c1" by (rule claim_directive_frame [OF c]) (intro settles_quiet evolves_quiet; assumption)
  moreover have "settles c1 c'" by (rule dispatch_stage_settles [OF d, of s]) (simp_all add: w assms(2))
  ultimately show ?thesis by (rule settles_trans)
qed

interpretation settle_release: guarded_step keyed maybeReleaseStage settles
  by unfold_locales (auto intro: maybeReleaseStage_settles keyed_settles settles_trans)

interpretation settle_cancel: guarded_step keyed cancel_stage settles
  by unfold_locales (auto intro: cancel_stage_settles keyed_settles settles_trans)

interpretation settle_rearm: guarded_step keyed rearm_stage settles
  by unfold_locales (auto intro: rearm_stage_settles keyed_settles settles_trans)

lemma queue_loop_settles: "keyed c \<Longrightarrow> queue_loop m ks n c = Inr c' \<Longrightarrow> settles c c'"
proof (induction ks arbitrary: n c)
  case (Cons k ks)
  from Cons.prems(2) show ?case
  proof (cases rule: queue_loop_cases)
    case (queue s c1)
    have "settles c c1"
      by (rule queue_stage_settles [OF queue(6)]) (use queue keyedD [OF Cons.prems(1) queue(1)] in simp)
    with queue Cons show ?thesis by (blast intro: settles_trans keyed_settles)
  qed (use Cons in simp_all)
qed simp

lemma release_loop_settles: "keyed c \<Longrightarrow> release_loop n c = Inr c' \<Longrightarrow> settles c c'"
proof (induction n arbitrary: c)
  case (Suc n)
  then obtain c1 where c1: "rfold maybeReleaseStage (sorted_ids c) c = Inr c1"
    and rest: "release_loop n c1 = Inr c' \<or> c1 = c'"
    by (auto elim!: rbind_InrE split: if_splits)
  have "settles c c1" by (rule settle_release.fold_rel [OF Suc.prems(1) c1])
  with rest Suc show ?case by (auto intro: settles_trans keyed_settles)
qed simp

lemma cancel_all_settles: "keyed c \<Longrightarrow> cancel_all c = Inr c' \<Longrightarrow> settles c c'"
  by (auto simp: cancel_all_def intro: settle_cancel.fold_rel split: if_splits)

text \<open>The phases of a tick, with what each of them settles.\<close>

lemma tick_body_settles:
  assumes "keyed c" "tick_body pl c = Inr c'"
  obtains c1 c2 c3 c4 c5 where
    "rfold (processObservation pl) (sorted_observations c) c = Inr c1" "cancel_all c1 = Inr c2"
    "rearmRetries c2 (retrying_ids c) = Inr c3" "release_loop (release_fuel c3) c3 = Inr c4"
    "queueReadyStages c4 = Inr c5" "cancel_all c5 = Inr c'" "evolves c c1"
    "settles c1 c2" "settles c2 c3" "settles c3 c4" "settles c4 c5" "settles c5 c'"
  using assms
proof (rule tick_body_phases)
  fix c1 c2 c3 c4 c5 assume p:
    "rfold (processObservation pl) (sorted_observations c) c = Inr c1" "cancel_all c1 = Inr c2"
    "rearmRetries c2 (retrying_ids c) = Inr c3" "release_loop (release_fuel c3) c3 = Inr c4"
    "queueReadyStages c4 = Inr c5" "cancel_all c5 = Inr c'"
    and e: "evolves c c1" "evolves c1 c2" "evolves c2 c3" "evolves c3 c4" "evolves c4 c5"
  note k1 = keyed_evolves [OF assms(1) e(1)]
  note k2 = keyed_evolves [OF k1 e(2)]
  note k3 = keyed_evolves [OF k2 e(3)]
  note k4 = keyed_evolves [OF k3 e(4)]
  note k5 = keyed_evolves [OF k4 e(5)]
  show ?thesis
    by (rule that [OF p e(1) cancel_all_settles [OF k1 p(2)]
        settle_rearm.fold_rel [OF k2 p(3) [unfolded rearmRetries_def]]
        release_loop_settles [OF k3 p(4)] queue_loop_settles [OF k4 p(5) [unfolded queueReadyStages_def]]
        cancel_all_settles [OF k5 p(6)]])
qed

end
