(* ===== verification/Scheduler_Dispatch.thy ===== *)
theory Scheduler_Dispatch
  imports Scheduler_Settle
begin

text \<open>
  The bookkeeping of a tick: what the dispatch loop adds (one attempt and one dispatch intent per
  queued stage, within the concurrency limit), that observations add none, and what the
  cancellation loop leaves behind.
\<close>

section \<open>Dispatch\<close>

definition dispatched :: "sched_input \<Rightarrow> stage_snapshot \<Rightarrow> stage_attempt \<Rightarrow> sched_intent \<Rightarrow> bool" where
  "dispatched input s a i \<longleftrightarrow>
     at_stageId a = st_stageId s \<and> at_generation a = st_generation s \<and>
     at_attemptOrdinal a = Suc (st_attemptOrdinal s) \<and>
     at_attemptId a = deriveAttemptId (si_runId input) (si_graphRevision input) (st_stageId s)
       (st_generation s) (Suc (st_attemptOrdinal s)) \<and>
     it_kind i = K_dispatch \<and>
     it_intentId i = deriveIntentId (si_runId input) (si_graphRevision input) K_dispatch
       (coordinate_key (st_stageId s) (st_generation s) (Suc (st_attemptOrdinal s))) \<and>
     it_payload i = PL_dispatch (st_stageId s) (at_stageType a) (at_attemptId a) (st_generation s)
       (Suc (st_attemptOrdinal s)) (at_retryDirective a)"

definition queued_as :: "stage_snapshot \<Rightarrow> stage_attempt \<Rightarrow> stage_snapshot \<Rightarrow> bool" where
  "queued_as s a s' \<longleftrightarrow> st_stageId s' = st_stageId s \<and> st_state s' = S_queued \<and>
     st_generation s' = st_generation s \<and> st_attemptOrdinal s' = Suc (st_attemptOrdinal s) \<and>
     st_currentAttemptId s' = Some (at_attemptId a) \<and> st_selected s' = st_selected s"

lemma dispatch_stage_effect:
  assumes "dispatch_stage c (next_attempt s) directive d = Inr c'"
  obtains a i s' where "cx_attempts c' = cx_attempts c @ [a]" "cx_intents c' = cx_intents c @ [i]"
    "dispatched (cx_input c) s a i" "queued_as s a s'"
    "map_of (cx_working c') = (map_of (cx_working c))(st_stageId s \<mapsto> s')"
  using assms unfolding dispatch_stage_def Let_def
proof (rule applyTransition_Inr)
  let ?id = "deriveAttemptId (si_runId (cx_input c)) (si_graphRevision (cx_input c)) (st_stageId (next_attempt s))
      (st_generation (next_attempt s)) (st_attemptOrdinal (next_attempt s))"
  let ?a = "build_attempt c (next_attempt s) d ?id directive"
  let ?i = "dispatch_intent c (next_attempt s) d ?id directive"
  let ?c1 = "add_intent (c\<lparr>cx_attempts := cx_attempts c @ [?a]\<rparr>) ?i"
  let ?s = "transitioned ?c1 (next_attempt s) S_queued R_dispatch_intent
     ((options A_queue)\<lparr>to_attemptId := Some ?id, to_intentId := Some (it_intentId ?i)\<rparr>)"
  assume w: "cx_working c' = cx_working (put_stage ?c1 ?s)"
    and at: "cx_attempts c' = cx_attempts ?c1" and it: "cx_intents c' = cx_intents ?c1"
  show ?thesis
  proof (rule that)
    show "cx_attempts c' = cx_attempts c @ [?a]" "cx_intents c' = cx_intents c @ [?i]" using at it by simp_all
    show "dispatched (cx_input c) s ?a ?i" by (simp add: dispatched_def build_attempt_def dispatch_intent_def Let_def)
    show "queued_as s ?a ?s" by (simp add: queued_as_def build_attempt_def Let_def)
    show "map_of (cx_working c') = (map_of (cx_working c))(st_stageId s \<mapsto> ?s)" by (simp add: w)
  qed
qed

lemma queue_stage_effect:
  assumes "queue_stage c s = Inr c'"
  obtains a i s' where "cx_attempts c' = cx_attempts c @ [a]" "cx_intents c' = cx_intents c @ [i]"
    "dispatched (cx_input c) s a i" "queued_as s a s'"
    "map_of (cx_working c') = (map_of (cx_working c))(st_stageId s \<mapsto> s')"
  using assms
proof (rule queue_stage_cases)
  fix directive c1 d assume c: "claim_directive c (next_attempt s) = (directive, c1)"
    and d: "dispatch_stage c1 (next_attempt s) directive d = Inr c'"
  have "cx_working c1 = cx_working c" "cx_attempts c1 = cx_attempts c" "cx_intents c1 = cx_intents c"
    "cx_input c1 = cx_input c" by (rule claim_directive_frame [OF c]; assumption)+
  with d that show ?thesis by (metis dispatch_stage_effect)
qed

type_synonym queued = "stage_snapshot \<times> stage_attempt \<times> sched_intent"

definition queue_effect :: "nat option \<Rightarrow> nat \<Rightarrow> string list \<Rightarrow> tick_ctx \<Rightarrow> tick_ctx \<Rightarrow> queued list \<Rightarrow> bool" where
  "queue_effect m n ks c c' qs \<longleftrightarrow>
     cx_attempts c' = cx_attempts c @ map (\<lambda>(s, a, i). a) qs \<and>
     cx_intents c' = cx_intents c @ map (\<lambda>(s, a, i). i) qs \<and>
     distinct (map (\<lambda>(s, a, i). st_stageId s) qs) \<and> set (map (\<lambda>(s, a, i). st_stageId s) qs) \<subseteq> set ks \<and>
     (\<forall>(s, a, i) \<in> set qs. map_of (cx_working c) (st_stageId s) = Some s \<and> st_state s = S_ready \<and> st_selected s \<and>
        dispatched (cx_input c) s a i \<and>
        (\<exists>s'. map_of (cx_working c') (st_stageId s) = Some s' \<and> queued_as s a s')) \<and>
     (\<forall>k. k \<notin> set (map (\<lambda>(s, a, i). st_stageId s) qs) \<longrightarrow> map_of (cx_working c') k = map_of (cx_working c) k) \<and>
     (\<forall>m'. m = Some m' \<longrightarrow> qs \<noteq> [] \<longrightarrow> n + length qs \<le> m') \<and>
     (stopping c \<longrightarrow> qs = []) \<and>
     (\<not> stopping c \<longrightarrow>
        (\<exists>k \<in> set ks. \<exists>s. map_of (cx_working c') k = Some s \<and> st_state s = S_ready \<and> st_selected s) \<longrightarrow>
        at_limit m (n + length qs))"

lemma queue_effect_skip:
  assumes "queue_effect m n ks c c' qs" "map_of (cx_working c) k = Some s"
    "st_state s \<noteq> S_ready \<or> \<not> st_selected s \<or> stopping c" "k \<notin> set ks"
  shows "queue_effect m n (k # ks) c c' qs"
proof -
  have "k \<notin> set (map (\<lambda>(s, a, i). st_stageId s) qs)" using assms(1,4) by (auto simp: queue_effect_def)
  then have "map_of (cx_working c') k = Some s" using assms(1,2) by (simp add: queue_effect_def)
  with assms(1,3) show ?thesis unfolding queue_effect_def by auto
qed

lemma queue_effect_step:
  assumes eff: "queue_effect m (Suc n) ks c1 c' qs" and k: "k \<notin> set ks"
    and s: "map_of (cx_working c) k = Some s" "st_stageId s = k" "st_state s = S_ready" "st_selected s"
    and go: "\<not> stopping c" "\<not> at_limit m n" and same: "stopping c1 = stopping c" "cx_input c1 = cx_input c"
    and q: "cx_attempts c1 = cx_attempts c @ [a]" "cx_intents c1 = cx_intents c @ [i]"
      "dispatched (cx_input c) s a i" "queued_as s a s'"
      "map_of (cx_working c1) = (map_of (cx_working c))(st_stageId s \<mapsto> s')"
  shows "queue_effect m n (k # ks) c c' ((s, a, i) # qs)"
proof -
  have k': "k \<notin> set (map (\<lambda>(s, a, i). st_stageId s) qs)" using eff k by (auto simp: queue_effect_def)
  then have wk: "map_of (cx_working c') k = Some s'" using eff q(5) s(2) by (simp add: queue_effect_def)
  have old: "map_of (cx_working c) (st_stageId t) = Some t" if "(t, b, j) \<in> set qs" for t b j
  proof -
    have "st_stageId t \<noteq> k" using that k' by force
    moreover have "map_of (cx_working c1) (st_stageId t) = Some t" using eff that by (auto simp: queue_effect_def)
    ultimately show ?thesis using q(5) s(2) by simp
  qed
  have lim: "n + length ((s, a, i) # qs) \<le> m'" if "m = Some m'" for m'
    using eff go(2) that by (cases "qs = []") (auto simp: queue_effect_def at_limit_def)
  have left: "at_limit m (n + length ((s, a, i) # qs))"
    if "\<exists>k \<in> set (k # ks). \<exists>s. map_of (cx_working c') k = Some s \<and> st_state s = S_ready \<and> st_selected s"
  proof -
    from that wk q(4) have "\<exists>k \<in> set ks. \<exists>s. map_of (cx_working c') k = Some s \<and> st_state s = S_ready \<and> st_selected s"
      by (auto simp: queued_as_def)
    then have "at_limit m (Suc n + length qs)" using eff go(1) same(1) unfolding queue_effect_def by blast
    then show ?thesis by simp
  qed
  have each: "\<forall>(t, b, j) \<in> set qs. map_of (cx_working c) (st_stageId t) = Some t \<and> st_state t = S_ready \<and> st_selected t \<and>
        dispatched (cx_input c) t b j \<and>
        (\<exists>t'. map_of (cx_working c') (st_stageId t) = Some t' \<and> queued_as t b t')"
    using eff old same(2) by (fastforce simp: queue_effect_def)
  have rest: "map_of (cx_working c') x = map_of (cx_working c) x"
    if "x \<notin> set (map (\<lambda>(s, a, i). st_stageId s) ((s, a, i) # qs))" for x
    using eff that q(5) by (simp add: queue_effect_def)
  have ids: "distinct (map (\<lambda>(s, a, i). st_stageId s) ((s, a, i) # qs))"
    "set (map (\<lambda>(s, a, i). st_stageId s) ((s, a, i) # qs)) \<subseteq> set (k # ks)"
    using eff k' s(2) by (auto simp: queue_effect_def)
  have here: "map_of (cx_working c) (st_stageId s) = Some s \<and> st_state s = S_ready \<and> st_selected s \<and>
      dispatched (cx_input c) s a i \<and> (\<exists>s'. map_of (cx_working c') (st_stageId s) = Some s' \<and> queued_as s a s')"
    using s q wk by auto
  show ?thesis
    unfolding queue_effect_def
    using eff q(1,2) each here rest ids lim left go(1) by (simp add: queue_effect_def)
qed

lemma queue_loop_effect:
  "keyed c \<Longrightarrow> distinct ks \<Longrightarrow> queue_loop m ks n c = Inr c' \<Longrightarrow> \<exists>qs. queue_effect m n ks c c' qs"
proof (induction ks arbitrary: n c)
  case Nil
  then show ?case by (intro exI [of _ "[]"]) (simp add: queue_effect_def)
next
  case (Cons k ks)
  from Cons.prems(3) show ?case
  proof (cases rule: queue_loop_cases)
    case (skip s)
    with Cons obtain qs where "queue_effect m n ks c c' qs" by auto
    with skip Cons.prems(2) show ?thesis by (auto intro: queue_effect_skip)
  next
    case (full s)
    then show ?thesis by (intro exI [of _ "[]"]) (auto simp: queue_effect_def)
  next
    case (queue s c1)
    have id: "st_stageId s = k" by (rule keyedD [OF Cons.prems(1) queue(1)])
    have "settles c c1" by (rule queue_stage_settles [OF queue(6)]) (simp add: id queue(1))
    with Cons.prems(1) have k1: "keyed c1" and same: "stopping c1 = stopping c" "cx_input c1 = cx_input c"
      by (auto intro: keyed_settles simp: settles_def evolves_def same_static_def stopping_def)
    from Cons k1 queue(7) obtain qs where "queue_effect m (Suc n) ks c1 c' qs" by auto
    with queue(6) queue(1-5) id same Cons.prems(2) show ?thesis
      by (rule_tac queue_stage_effect [OF queue(6)]) (auto intro: queue_effect_step)
  qed
qed

section \<open>Intents and attempts of the other phases\<close>

definition intents_ok :: "tick_ctx \<Rightarrow> bool" where
  "intents_ok c \<longleftrightarrow> distinct (map it_intentId (cx_intents c)) \<and>
     (\<forall>i \<in> set (cx_intents c). \<exists>key. it_intentId i =
        deriveIntentId (si_runId (cx_input c)) (si_graphRevision (cx_input c)) (it_kind i) key)"

definition books :: "tick_ctx \<Rightarrow> tick_ctx \<Rightarrow> bool" where
  "books c c' \<longleftrightarrow> cx_input c' = cx_input c \<and> cx_attempts c' = cx_attempts c \<and> (intents_ok c \<longrightarrow> intents_ok c') \<and>
     (\<exists>xs. cx_intents c' = cx_intents c @ xs \<and> (\<forall>i \<in> set xs. it_kind i \<noteq> K_dispatch))"

lemma books_quiet:
  "cx_input c' = cx_input c \<Longrightarrow> cx_attempts c' = cx_attempts c \<Longrightarrow> cx_intents c' = cx_intents c \<Longrightarrow> books c c'"
  by (simp add: books_def intents_ok_def)

lemma books_refl [simp]: "books c c"
  by (rule books_quiet) simp_all

lemma books_trans:
  assumes "books a b" "books b c"
  shows "books a c"
proof -
  from assms obtain xs ys where "cx_intents b = cx_intents a @ xs" "\<forall>i \<in> set xs. it_kind i \<noteq> K_dispatch"
    "cx_intents c = cx_intents b @ ys" "\<forall>i \<in> set ys. it_kind i \<noteq> K_dispatch" by (auto simp: books_def)
  then have "cx_intents c = cx_intents a @ (xs @ ys)" "\<forall>i \<in> set (xs @ ys). it_kind i \<noteq> K_dispatch" by auto
  with assms show ?thesis unfolding books_def by metis
qed

lemma books_new_intent:
  assumes "cx_input c' = cx_input c" "cx_attempts c' = cx_attempts c" "cx_intents c' = cx_intents c @ [i]"
    "\<not> has_intent c (it_intentId i)" "it_kind i \<noteq> K_dispatch"
    "it_intentId i = deriveIntentId (si_runId (cx_input c)) (si_graphRevision (cx_input c)) (it_kind i) key"
  shows "books c c'"
  using assms by (auto simp: books_def intents_ok_def has_intent_def list_ex_iff)

lemma applyTransition_books: "applyTransition c s to r opts = Inr c' \<Longrightarrow> books c c'"
  by (erule applyTransition_Inr) (rule books_quiet)

lemma request_evaluator_books:
  assumes "request_evaluator c e p q = Inr c'"
  shows "books c c'"
proof (cases "has_intent c (it_intentId (evaluator_intent c e p q))")
  case True
  with assms show ?thesis by (simp add: request_evaluator_def Let_def)
next
  case False
  from False assms show ?thesis
    by (intro books_new_intent [of c' c "evaluator_intent c e p q" "edgeKey (ed_from e) (ed_to e)"])
      (auto simp: request_evaluator_def Let_def evaluator_intent_def elim!: rbind_InrE)
qed

lemma resolveIncomingEdge_request:
  assumes "resolveIncomingEdge c e = Inr (r, c')"
  obtains "c' = c" | p q where "request_evaluator c e p q = Inr c'"
  using assms unfolding resolveIncomingEdge_def resolve_condition_def Let_def
  by (auto elim!: rbind_InrE split: if_splits option.splits condition.splits sum.splits)

lemma resolve_edges_books: "resolve_edges c es = Inr (rs, c') \<Longrightarrow> books c c'"
proof (induction es arbitrary: c rs)
  case (Cons e es)
  then obtain r c1 rs1 where c1: "resolveIncomingEdge c e = Inr (r, c1)" and rest: "resolve_edges c1 es = Inr (rs1, c')"
    by (auto elim!: rbind_InrE)
  from c1 have "books c c1" by (rule resolveIncomingEdge_request) (auto intro: request_evaluator_books)
  with Cons.IH [OF rest] show ?case by (blast intro: books_trans)
qed simp

lemma maybeReleaseStage_books:
  assumes "maybeReleaseStage k c = Inr c'"
  shows "books c c'"
  using assms
proof (cases rule: maybeReleaseStage_cases)
  case (first s)
  then show ?thesis by (blast intro: applyTransition_books)
next
  case (edges s rs c1)
  from edges(7) have "books c1 c'"
    by (cases rule: settle_release_cases) (auto intro: applyTransition_books)
  with resolve_edges_books [OF edges(6)] show ?thesis by (rule books_trans)
qed simp

lemma requestCancelForActive_books: "books c (requestCancelForActive c s)"
proof (cases "active_state (st_state s) \<and> (\<exists>a. st_currentAttemptId s = Some a \<and>
    \<not> has_intent c (it_intentId (cancel_intent c s a)))")
  case True
  then obtain a where "active_state (st_state s)" "st_currentAttemptId s = Some a"
    "\<not> has_intent c (it_intentId (cancel_intent c s a))" by blast
  then show ?thesis
    by (intro books_new_intent [of _ _ "cancel_intent c s a"
        "coordinate_key (st_stageId s) (st_generation s) (st_attemptOrdinal s)"])
      (simp_all add: requestCancelForActive_def Let_def, simp_all add: cancel_intent_def Let_def)
next
  case False
  then have "requestCancelForActive c s = c"
    by (auto simp: requestCancelForActive_def Let_def split: option.splits)
  then show ?thesis by simp
qed

lemma cancel_stage_books:
  assumes "cancel_stage k c = Inr c'"
  shows "books c c'"
proof -
  from assms obtain s c1 s1 r where "cancelInactiveStage c s r = Inr c1" and c': "c' = requestCancelForActive c1 s1"
    unfolding cancel_stage_def by (auto elim!: rbind_InrE)
  then have "books c c1" by (auto simp: cancelInactiveStage_def intro: applyTransition_books split: if_splits)
  then show ?thesis unfolding c' by (blast intro: books_trans requestCancelForActive_books)
qed

lemma rearm_stage_books: "rearm_stage k c = Inr c' \<Longrightarrow> books c c'"
  by (erule rearm_stage_cases) (auto intro: applyTransition_books)

interpretation book_release: guarded_step "\<lambda>c. True" maybeReleaseStage books
  by unfold_locales (auto intro: maybeReleaseStage_books books_trans)

interpretation book_cancel: guarded_step "\<lambda>c. True" cancel_stage books
  by unfold_locales (auto intro: cancel_stage_books books_trans)

interpretation book_rearm: guarded_step "\<lambda>c. True" rearm_stage books
  by unfold_locales (auto intro: rearm_stage_books books_trans)

lemma release_loop_books: "release_loop n c = Inr c' \<Longrightarrow> books c c'"
proof (induction n arbitrary: c)
  case (Suc n)
  then obtain c1 where c1: "rfold maybeReleaseStage (sorted_ids c) c = Inr c1"
    and rest: "release_loop n c1 = Inr c' \<or> c1 = c'"
    by (auto elim!: rbind_InrE split: if_splits)
  from book_release.fold_rel [OF TrueI c1] rest Suc.IH show ?case by (auto intro: books_trans)
qed simp

lemma cancel_all_books: "cancel_all c = Inr c' \<Longrightarrow> books c c'"
  by (auto simp: cancel_all_def intro: book_cancel.fold_rel split: if_splits)

section \<open>Observations\<close>

definition releasing :: "transition_reason \<Rightarrow> bool" where
  "releasing r \<longleftrightarrow> r = R_dependencies_satisfied \<or> r = R_root_eligible \<or> r = R_dispatch_intent"

definition observes :: "tick_ctx \<Rightarrow> tick_ctx \<Rightarrow> bool" where
  "observes c c' \<longleftrightarrow> cx_input c' = cx_input c \<and> cx_attempts c' = cx_attempts c \<and> cx_intents c' = cx_intents c \<and>
     cx_cancelRequested c' = cx_cancelRequested c \<and>
     (\<exists>ts. cx_transitions c' = cx_transitions c @ ts \<and> (\<forall>t \<in> set ts. \<not> releasing (tr_reason t)))"

lemma observes_quiet:
  "cx_input c' = cx_input c \<Longrightarrow> cx_attempts c' = cx_attempts c \<Longrightarrow> cx_intents c' = cx_intents c \<Longrightarrow>
   cx_cancelRequested c' = cx_cancelRequested c \<Longrightarrow> cx_transitions c' = cx_transitions c \<Longrightarrow> observes c c'"
  by (simp add: observes_def)

lemma observes_refl [simp]: "observes c c"
  by (rule observes_quiet) simp_all

lemma observes_trans:
  assumes "observes a b" "observes b c"
  shows "observes a c"
proof -
  from assms obtain ts us where "cx_transitions b = cx_transitions a @ ts" "\<forall>t \<in> set ts. \<not> releasing (tr_reason t)"
    "cx_transitions c = cx_transitions b @ us" "\<forall>t \<in> set us. \<not> releasing (tr_reason t)" by (auto simp: observes_def)
  then have "cx_transitions c = cx_transitions a @ (ts @ us)" "\<forall>t \<in> set (ts @ us). \<not> releasing (tr_reason t)" by auto
  moreover have "cx_input c = cx_input a" "cx_attempts c = cx_attempts a" "cx_intents c = cx_intents a"
    "cx_cancelRequested c = cx_cancelRequested a" using assms by (auto simp: observes_def)
  ultimately show ?thesis unfolding observes_def by blast
qed

lemma applyTransition_observes: "applyTransition c s to r opts = Inr c' \<Longrightarrow> \<not> releasing r \<Longrightarrow> observes c c'"
  by (erule applyTransition_Inr) (auto simp: observes_def)

lemma getRecoveryCounters_observes: "getRecoveryCounters c s = (k, c') \<Longrightarrow> observes c c'"
  by (erule getRecoveryCounters_frame) (rule observes_quiet, simp_all)

lemma review_observes:
  assumes "applyTransition (setRecoveryCounters (c1\<lparr>cx_recoveryDecisions := ds\<rparr>) s k) s to r opts = Inr c'" "\<not> releasing r"
  shows "observes c1 c'"
  using applyTransition_observes [OF assms]
  by (rule observes_trans [rotated]) (rule observes_quiet, simp_all)

lemma counted_review_observes:
  assumes "getRecoveryCounters c s = (counters, c1)"
    "applyTransition (setRecoveryCounters (c1\<lparr>cx_recoveryDecisions := ds\<rparr>) s k) s to r opts = Inr c'" "\<not> releasing r"
  shows "observes c c'"
  using getRecoveryCounters_observes [OF assms(1)] review_observes [OF assms(2,3)] by (rule observes_trans)

lemma applyRecoveryDecision_observes: "applyRecoveryDecision c s ob result = Inr c' \<Longrightarrow> observes c c'"
  by (cases result)
    (auto simp: applyRecoveryDecision_def Let_def releasing_def fail_transition_reason_def intro: review_observes
      split: if_splits)

lemma legacy_failure_observes: "legacy_failure c s ob d = Inr c' \<Longrightarrow> observes c c'"
  by (auto simp: legacy_failure_def Let_def releasing_def intro: applyTransition_observes split: if_splits)

lemma processAttemptFailed_observes:
  assumes "processAttemptFailed pl c s ob = Inr c'"
  shows "observes c c'"
proof -
  obtain counters c1 where g: "getRecoveryCounters c s = (counters, c1)" by (cases "getRecoveryCounters c s")
  show ?thesis
  proof (cases "st_state s \<noteq> S_running \<and> st_state s \<noteq> S_waiting")
    case True
    with assms show ?thesis by (simp add: processAttemptFailed_def)
  next
    case False
    show ?thesis
    proof (cases "resolveFailureFromObservation ob")
      case None
      with False assms show ?thesis
        by (auto simp: processAttemptFailed_def Let_def elim!: rbind_InrE intro: legacy_failure_observes)
    next
      case (Some failure)
      with False assms obtain result where "applyRecoveryDecision c1 s ob result = Inr c'"
        by (auto simp: processAttemptFailed_def Let_def g elim!: rbind_InrE)
      then show ?thesis
        using getRecoveryCounters_observes [OF g] by (blast intro: observes_trans applyRecoveryDecision_observes)
    qed
  qed
qed

lemma reviews_observe:
  "processRecoveryApproved c s ob = Inr c' \<Longrightarrow> observes c c'"
  "processRecoveryRejected c s ob = Inr c' \<Longrightarrow> observes c c'"
proof -
  obtain counters c1 where g: "getRecoveryCounters c s = (counters, c1)" by (cases "getRecoveryCounters c s")
  note o = getRecoveryCounters_observes [OF g]
  show "processRecoveryApproved c s ob = Inr c' \<Longrightarrow> observes c c'"
    using o unfolding processRecoveryApproved_def g Let_def
    by (auto elim!: rbind_InrE split: if_splits option.splits
        intro: counted_review_observes [OF g] simp: releasing_def)
  show "processRecoveryRejected c s ob = Inr c' \<Longrightarrow> observes c c'"
    using o unfolding processRecoveryRejected_def g Let_def
    by (auto elim!: rbind_InrE split: if_splits option.splits
        intro: counted_review_observes [OF g] simp: releasing_def)
qed

lemma rerun_stage_observes:
  assumes "rerun_stage k c = Inr c'"
  shows "observes c c'"
  using assms unfolding rerun_stage_def Let_def
  by (auto simp: observes_def releasing_def elim!: rbind_InrE split: if_splits)

interpretation observe_rerun: guarded_step "\<lambda>c. True" rerun_stage observes
  by unfold_locales (auto intro: rerun_stage_observes observes_trans)

lemma stage_observation_observes:
  assumes "stage_observation pl c s ob = Inr c'"
  shows "observes c c'"
  using assms
  by (cases "ob_kind ob")
    (auto simp: stage_observation_def Let_def releasing_def processAttemptFailed_observes reviews_observe
      intro: applyTransition_observes split: if_splits)

text \<open>A cancellation request is the one observation that also sets the cancellation flag.\<close>

definition with_cancel :: "bool \<Rightarrow> tick_ctx \<Rightarrow> tick_ctx" where
  "with_cancel b c = c\<lparr>cx_cancelRequested := cx_cancelRequested c \<or> b\<rparr>"

lemma observes_with_cancel: "observes c c' \<Longrightarrow> observes (with_cancel b c) (with_cancel b c')"
  by (simp add: observes_def with_cancel_def)

lemma with_cancel_False [simp]: "with_cancel False c = c"
  by (simp add: with_cancel_def)

lemma with_cancel_disj: "with_cancel a (with_cancel b c) = with_cancel (a \<or> b) c"
  by (simp add: with_cancel_def disj_commute disj_left_commute)

lemma processObservation_observes:
  assumes "processObservation pl ob c = Inr c'"
  shows "observes (with_cancel (ob_kind ob = O_cancel_requested) c) c'"
proof -
  let ?c = "with_cancel (ob_kind ob = O_cancel_requested) (consume ob c)"
  have "observes (with_cancel (ob_kind ob = O_cancel_requested) c) ?c"
    by (intro observes_with_cancel observes_quiet) simp_all
  moreover from assms have "observes ?c c'"
  proof (cases rule: processObservation_cases)
    case (rerun stageId)
    then show ?thesis by (auto simp: processManualRerun_def intro: observe_rerun.fold_rel split: if_splits)
  next
    case stage
    then show ?thesis by (auto simp: observe_stage_def intro: stage_observation_observes split: option.splits)
  qed (auto intro!: observes_quiet simp: with_cancel_def)
  ultimately show ?thesis by (rule observes_trans)
qed

lemma observations_observe:
  "rfold (processObservation pl) obs c = Inr c' \<Longrightarrow>
   observes (with_cancel (\<exists>ob \<in> set obs. ob_kind ob = O_cancel_requested) c) c'"
proof (induction obs arbitrary: c)
  case (Cons ob obs)
  then obtain c1 where c1: "processObservation pl ob c = Inr c1" and rest: "rfold (processObservation pl) obs c1 = Inr c'"
    by (auto elim!: rbind_InrE)
  let ?b = "\<exists>ob \<in> set obs. ob_kind ob = O_cancel_requested"
  from observes_with_cancel [OF processObservation_observes [OF c1], of ?b] Cons.IH [OF rest]
  have "observes (with_cancel (?b \<or> ob_kind ob = O_cancel_requested) c) c'"
    unfolding with_cancel_disj by (rule observes_trans)
  moreover have "(?b \<or> ob_kind ob = O_cancel_requested) = (\<exists>ob \<in> set (ob # obs). ob_kind ob = O_cancel_requested)" by auto
  ultimately show ?case by (simp only:)
qed simp

end
