(* ===== verification/Scheduler_Loops.thy ===== *)
theory Scheduler_Loops
  imports Scheduler_Dispatch
begin

text \<open>
  How the loops of a tick end: the cancellation loop leaves no inactive stage and asks for the
  cancellation of every attempt in flight, and the release loop stops at a fixpoint, where a
  pending stage is held back by an edge that is still open.
\<close>

section \<open>What the cancellation loop leaves\<close>

definition cancel_key :: "tick_ctx \<Rightarrow> stage_snapshot \<Rightarrow> string" where
  "cancel_key c s = deriveIntentId (si_runId (cx_input c)) (si_graphRevision (cx_input c)) K_cancel
     (coordinate_key (st_stageId s) (st_generation s) (st_attemptOrdinal s))"

definition wound_down :: "tick_ctx \<Rightarrow> string \<Rightarrow> bool" where
  "wound_down c k \<longleftrightarrow> (\<forall>s. map_of (cx_working c) k = Some s \<longrightarrow> \<not> inactive_state (st_state s) \<and>
     (active_state (st_state s) \<and> st_currentAttemptId s \<noteq> None \<longrightarrow> has_intent c (cancel_key c s)))"

lemma requestCancelForActive_has_intent:
  assumes "active_state (st_state s)" "st_currentAttemptId s \<noteq> None"
  shows "has_intent (requestCancelForActive c s) (cancel_key c s)"
proof -
  have "it_intentId (cancel_intent c s a) = cancel_key c s" for a by (simp add: cancel_intent_def cancel_key_def Let_def)
  with assms show ?thesis by (auto simp: requestCancelForActive_def Let_def has_intent_def list_ex_iff split: option.splits)
qed

lemma has_intent_mono: "books c c' \<Longrightarrow> has_intent c x \<Longrightarrow> has_intent c' x"
  by (auto simp: books_def has_intent_def list_ex_iff)

lemma cancel_stage_wound_down:
  assumes "keyed c" "cancel_stage k c = Inr c'"
  shows "wound_down c' k" "k' \<noteq> k \<Longrightarrow> wound_down c k' \<Longrightarrow> wound_down c' k'"
proof -
  obtain s c1 s1 where s: "map_of (cx_working c) k = Some s" "map_of (cx_working c1) k = Some s1"
    and c': "c' = requestCancelForActive c1 s1"
    and c1: "if inactive_state (st_state s)
     then applyTransition c s S_cancelled (if cx_deadlineExceeded c then R_deadline_exceeded else R_pipeline_cancelled)
       ((options A_cancel)\<lparr>to_clearAttempt := True\<rparr>) = Inr c1 else c1 = c \<and> s1 = s"
    using cancel_stage_cases [OF assms] .
  have id: "st_stageId s = k" by (rule keyedD [OF assms(1) s(1)])
  have other: "map_of (cx_working c1) k' = map_of (cx_working c) k'" if "k' \<noteq> k" for k'
  proof (cases "inactive_state (st_state s)")
    case True
    with c1 have "applyTransition c s S_cancelled (if cx_deadlineExceeded c then R_deadline_exceeded else R_pipeline_cancelled)
       ((options A_cancel)\<lparr>to_clearAttempt := True\<rparr>) = Inr c1" by simp
    then show ?thesis by (rule applyTransition_Inr) (use that id in simp)
  qed (use c1 in simp)
  have here: "\<not> inactive_state (st_state s1)"
  proof (cases "inactive_state (st_state s)")
    case True
    with c1 have "applyTransition c s S_cancelled (if cx_deadlineExceeded c then R_deadline_exceeded else R_pipeline_cancelled)
       ((options A_cancel)\<lparr>to_clearAttempt := True\<rparr>) = Inr c1" by simp
    then show ?thesis by (rule applyTransition_Inr) (use s(2) id in \<open>auto simp: inactive_state_def\<close>)
  qed (use c1 in simp)
  have "cx_input c' = cx_input c1" by (simp add: c')
  then have key: "cancel_key c' = cancel_key c1" by (intro ext) (simp add: cancel_key_def)
  show "wound_down c' k"
    using here s(2) requestCancelForActive_has_intent [of s1 c1] by (auto simp: wound_down_def c' key [unfolded c'])
  assume k': "k' \<noteq> k" and w: "wound_down c k'"
  have b: "books c c'" by (rule cancel_stage_books [OF assms(2)])
  then have "cancel_key c' = cancel_key c" by (intro ext) (simp add: cancel_key_def books_def)
  moreover have "map_of (cx_working c') k' = map_of (cx_working c) k'" using other [OF k'] by (simp add: c')
  ultimately show "wound_down c' k'" using w has_intent_mono [OF b] by (simp add: wound_down_def)
qed

lemma cancel_fold_wound_down:
  "keyed c \<Longrightarrow> rfold cancel_stage ks c = Inr c' \<Longrightarrow> k \<in> set ks \<or> wound_down c k \<Longrightarrow> wound_down c' k"
proof (induction ks arbitrary: c)
  case (Cons x ks)
  then obtain c1 where c1: "cancel_stage x c = Inr c1" and rest: "rfold cancel_stage ks c1 = Inr c'"
    by (auto elim!: rbind_InrE)
  have "keyed c1" using Cons.prems(1) cancel_stage_evolves [OF Cons.prems(1) c1] by (rule keyed_evolves)
  moreover have "k \<in> set ks \<or> wound_down c1 k"
    using cancel_stage_wound_down [OF Cons.prems(1) c1] Cons.prems(3) by (cases "k = x") auto
  ultimately show ?case using Cons.IH rest by blast
qed simp

section \<open>The release loop ends at a fixpoint\<close>

lemma request_evaluator_progress:
  "request_evaluator c e p q = Inr c' \<Longrightarrow> c' = c \<or> work_done c < work_done c'"
  by (auto simp: request_evaluator_def Let_def work_done_def elim!: rbind_InrE split: if_splits)

lemma resolve_edges_progress: "resolve_edges c es = Inr (rs, c') \<Longrightarrow> c' = c \<or> work_done c < work_done c'"
proof (induction es arbitrary: c rs)
  case (Cons e es)
  then obtain r c1 rs1 where c1: "resolveIncomingEdge c e = Inr (r, c1)" and rest: "resolve_edges c1 es = Inr (rs1, c')"
    by (auto elim!: rbind_InrE)
  from c1 have "c1 = c \<or> work_done c < work_done c1"
    by (rule resolveIncomingEdge_request) (auto dest: request_evaluator_progress)
  with Cons.IH [OF rest] show ?case by auto
qed simp

lemma applyTransition_progress: "applyTransition c s to r opts = Inr c' \<Longrightarrow> work_done c < work_done c'"
  by (erule applyTransition_Inr) (simp add: work_done_def)

lemma maybeReleaseStage_progress:
  assumes "maybeReleaseStage k c = Inr c'"
  shows "c' = c \<or> work_done c < work_done c'"
  using assms
proof (cases rule: maybeReleaseStage_cases)
  case (first s)
  then show ?thesis by (blast intro: applyTransition_progress)
next
  case (edges s rs c1)
  from edges(7) have "c' = c1 \<or> work_done c1 < work_done c'"
    by (cases rule: settle_release_cases) (auto dest: applyTransition_progress)
  with resolve_edges_progress [OF edges(6)] show ?thesis by auto
qed simp

lemma release_round_progress:
  "rfold maybeReleaseStage ks c = Inr c' \<Longrightarrow>
   (c' = c \<and> (\<forall>k \<in> set ks. maybeReleaseStage k c = Inr c)) \<or> work_done c < work_done c'"
proof (induction ks arbitrary: c)
  case (Cons k ks)
  then obtain c1 where c1: "maybeReleaseStage k c = Inr c1" and rest: "rfold maybeReleaseStage ks c1 = Inr c'"
    by (auto elim!: rbind_InrE)
  from maybeReleaseStage_progress [OF c1] Cons.IH [OF rest] c1 show ?case by auto
qed simp

lemma release_loop_fixpoint:
  "release_loop n c = Inr c' \<Longrightarrow> k \<in> set (sorted_ids c') \<Longrightarrow> maybeReleaseStage k c' = Inr c'"
proof (induction n arbitrary: c)
  case (Suc n)
  then obtain c1 where c1: "rfold maybeReleaseStage (sorted_ids c) c = Inr c1"
    and rest: "(if work_done c < work_done c1 then release_loop n c1 else Inr c1) = Inr c'"
    by (auto elim!: rbind_InrE)
  show ?case
  proof (cases "work_done c < work_done c1")
    case True
    with rest Suc show ?thesis by simp
  next
    case False
    with release_round_progress [OF c1] rest Suc.prems show ?thesis by auto
  qed
qed simp

text \<open>An edge that still holds its target back: an unfinished predecessor, or an undecided evaluator.\<close>

definition edge_open :: "tick_ctx \<Rightarrow> pipeline_edge \<Rightarrow> bool" where
  "edge_open c e \<longleftrightarrow> (\<exists>p. map_of (cx_working c) (ed_from e) = Some p \<and>
     (\<not> isTerminalStageState (st_state p) \<or>
      st_state p = S_succeeded \<and> (\<exists>profile question. ed_condition e = Some (Cond_evaluator profile question)) \<and>
        map_of (cx_evaluatorDecisions c) (edgeKey (ed_from e) (ed_to e)) = None))"

lemma resolveIncomingEdge_pending:
  assumes "resolveIncomingEdge c e = Inr (ER_pending, c')"
  shows "edge_open c e"
proof -
  from assms obtain p where p: "map_of (cx_working c) (ed_from e) = Some p"
    by (auto simp: resolveIncomingEdge_def elim!: rbind_InrE)
  show ?thesis
  proof (cases "st_state p = S_succeeded")
    case True
    with assms p have "resolve_condition c e = Inr (ER_pending, c')" by (simp add: resolveIncomingEdge_def)
    then have "(\<exists>profile question. ed_condition e = Some (Cond_evaluator profile question)) \<and>
        map_of (cx_evaluatorDecisions c) (edgeKey (ed_from e) (ed_to e)) = None"
      by (auto simp: resolve_condition_def Let_def split: option.splits condition.splits sum.splits if_splits)
    with True p show ?thesis by (auto simp: edge_open_def)
  next
    case False
    with assms p have "\<not> isTerminalStageState (st_state p)"
      by (cases "st_state p") (auto simp: resolveIncomingEdge_def elim!: rbind_InrE split: if_splits)
    with p show ?thesis by (auto simp: edge_open_def)
  qed
qed

lemma resolve_edges_pending:
  "resolve_edges c es = Inr (rs, c') \<Longrightarrow> ER_pending \<in> set rs \<Longrightarrow> \<exists>e \<in> set es. edge_open c e"
proof (induction es arbitrary: c rs)
  case (Cons e es)
  then obtain r c1 rs1 where c1: "resolveIncomingEdge c e = Inr (r, c1)" and rest: "resolve_edges c1 es = Inr (rs1, c')"
    and rs: "rs = r # rs1" by (auto elim!: rbind_InrE)
  show ?case
  proof (cases "r = ER_pending")
    case True
    with c1 resolveIncomingEdge_pending show ?thesis by auto
  next
    case False
    with Cons rest rs obtain e' where e': "e' \<in> set es" "edge_open c1 e'" by auto
    have "edge_open c e'" using e'(2) resolveIncomingEdge_frame [OF c1] by (simp add: edge_open_def)
    with e'(1) show ?thesis by auto
  qed
qed simp

lemma fixpoint_open_edge:
  assumes "maybeReleaseStage k c = Inr c" "map_of (cx_working c) k = Some s" "st_selected s"
    "st_state s = S_pending" "\<not> stopping c"
  shows "\<exists>e \<in> set (incoming_edges c k). edge_open c e"
  using assms(1)
proof (cases rule: maybeReleaseStage_cases)
  case (edges s' rs c1)
  have c1: "c1 = c"
  proof (rule ccontr)
    assume "c1 \<noteq> c"
    then have "work_done c < work_done c1" using resolve_edges_progress [OF edges(6)] by simp
    moreover from edges(7) have "work_done c1 \<le> work_done c"
      by (cases rule: settle_release_cases) (auto dest: applyTransition_progress)
    ultimately show False by simp
  qed
  from edges(7) have "ER_pending \<in> set rs"
    by (cases rule: settle_release_cases) (auto dest: applyTransition_progress simp: c1)
  from resolve_edges_pending [OF edges(6) this] show ?thesis by (simp add: incoming_edges_def)
qed (use assms in \<open>auto dest: applyTransition_progress\<close>)

end
