(* ===== verification/Scheduler_Plan.thy ===== *)
theory Scheduler_Plan
  imports Scheduler_Loops
begin

text \<open>
  What a plan promises. The properties are stated over the input of a tick and the plan either entry
  point returns for it: the transition log replays, releases are justified, dispatch respects the
  concurrency limit and is recorded one to one, a stopped run is wound down, no runnable stage is
  left behind, and the terminal outcome is what the stages say.
\<close>

section \<open>Reading a plan\<close>

definition planned :: "platform \<Rightarrow> sched_input \<Rightarrow> sched_plan \<Rightarrow> bool" where
  "planned pl input plan \<longleftrightarrow> tickScheduler pl input = Inr plan \<or> tickSchedulerV2 pl input = Inr plan"

definition patch_of :: "sched_plan \<Rightarrow> string \<Rightarrow> stage_snapshot option" where
  "patch_of plan = map_of (map (\<lambda>s. (st_stageId s, s)) (pn_stagePatches plan))"

definition plan_states :: "sched_plan \<Rightarrow> stage_states" where
  "plan_states plan k = map_option st_state (patch_of plan k)"

definition initial_states :: "sched_input \<Rightarrow> stage_states" where
  "initial_states input k = map_option st_state (map_of (initial_working input) k)"

definition cancel_observed :: "sched_input \<Rightarrow> bool" where
  "cancel_observed input \<longleftrightarrow> (\<exists>ob \<in> set (si_observations input). ob_kind ob = O_cancel_requested)"

definition stop_requested :: "sched_input \<Rightarrow> bool" where
  "stop_requested input \<longleftrightarrow> cancel_observed input \<or>
     (case si_deadlineAt input of None \<Rightarrow> False | Some d \<Rightarrow> d \<le> si_now input)"

definition concurrency_limit :: "sched_input \<Rightarrow> nat option" where
  "concurrency_limit input = resolveEffectiveConcurrency
     (Option.bind (si_effectiveLimits input) el_maxConcurrentWorkers) (gr_maxConcurrentWorkers (si_graph input))"

definition same_input :: "sched_input \<Rightarrow> sched_input \<Rightarrow> bool" where
  "same_input i i' \<longleftrightarrow> i' = i \<or> i' = i\<lparr>si_schemaVersion := 2\<rparr>"

lemma same_input_simps:
  assumes "same_input i i'"
  shows "si_graph i' = si_graph i" "si_runId i' = si_runId i" "si_graphRevision i' = si_graphRevision i"
    "initial_working i' = initial_working i" "stop_requested i' = stop_requested i" "cancel_observed i' = cancel_observed i"
    "concurrency_limit i' = concurrency_limit i" "si_observations i' = si_observations i"
    "si_deadlineAt i' = si_deadlineAt i" "si_now i' = si_now i" "si_recoveryState i' = si_recoveryState i"
  using assms
  by (auto simp: same_input_def initial_working_def stop_requested_def cancel_observed_def concurrency_limit_def
      cong: if_cong option.case_cong)

definition patches :: "tick_ctx \<Rightarrow> stage_snapshot list" where
  "patches c = sort_key st_stageId (map snd (cx_working c))"

lemma keyed_entries: "keyed c \<Longrightarrow> (k, s) \<in> set (cx_working c) \<longleftrightarrow> map_of (cx_working c) k = Some s"
  by (auto simp: keyed_def)

lemma keyed_patches:
  assumes "keyed c"
  shows "map_of (map (\<lambda>s. (st_stageId s, s)) (patches c)) = map_of (cx_working c)"
    "distinct (map st_stageId (patches c))" "set (patches c) = snd ` set (cx_working c)"
proof -
  have key: "st_stageId s = k" if "(k, s) \<in> set (cx_working c)" for k s
    by (rule keyedD [OF assms]) (use that keyed_entries [OF assms] in blast)
  have d: "distinct (map fst (cx_working c))" using assms by (simp add: keyed_def)
  have "inj_on snd (set (cx_working c))"
  proof (rule inj_onI)
    fix x y assume "x \<in> set (cx_working c)" "y \<in> set (cx_working c)" "snd x = snd y"
    then show "x = y" using key by (metis prod.collapse)
  qed
  then have "distinct (map snd (cx_working c))" using d by (simp add: distinct_map)
  moreover show set: "set (patches c) = snd ` set (cx_working c)" by (simp add: patches_def)
  moreover have "inj_on st_stageId (snd ` set (cx_working c))"
  proof (rule inj_onI, elim imageE)
    fix s t x y assume xy: "x \<in> set (cx_working c)" "y \<in> set (cx_working c)" "s = snd x" "t = snd y"
      "st_stageId s = st_stageId t"
    then have "fst x = fst y" using key by (metis prod.collapse)
    with xy d have "x = y" by (auto simp: distinct_map inj_on_def)
    with xy show "s = t" by simp
  qed
  ultimately show dist: "distinct (map st_stageId (patches c))" by (simp add: distinct_map patches_def)
  have "set (map (\<lambda>s. (st_stageId s, s)) (patches c)) = set (cx_working c)"
    using key by (force simp: set)
  then show "map_of (map (\<lambda>s. (st_stageId s, s)) (patches c)) = map_of (cx_working c)"
    using d dist by (subst map_of_inject_set) (simp_all add: comp_def)
qed

lemma map_of_patch: "distinct (map st_stageId ps) \<Longrightarrow> s \<in> set ps \<Longrightarrow>
  map_of (map (\<lambda>s. (st_stageId s, s)) ps) (st_stageId s) = Some s"
  by (rule map_of_is_SomeI) (auto simp: comp_def)

lemma patch_entry: "keyed c \<Longrightarrow> s \<in> set (patches c) \<Longrightarrow> map_of (cx_working c) (st_stageId s) = Some s"
  using map_of_patch [OF keyed_patches(2)] keyed_patches(1) by metis

lemma set_sorted_ids: "set (sorted_ids c) = set (keys c)"
  by (simp add: sorted_ids_def keys_def)

lemma record_terminal_frame:
  assumes "record_terminal c t = Inr c'"
  shows "cx_working c' = cx_working c \<and> cx_transitions c' = cx_transitions c \<and> cx_intents c' = cx_intents c \<and>
    cx_attempts c' = cx_attempts c \<and> cx_input c' = cx_input c \<and> cx_recoveryByKey c' = cx_recoveryByKey c \<and>
    cx_v2 c' = cx_v2 c \<and> cx_recoveryDecisions c' = cx_recoveryDecisions c"
  using assms by (auto simp: record_terminal_def elim!: rbind_InrE split: option.splits)

lemma runTick_plan:
  assumes "keyed c0" "runTick pl c0 = Inr plan"
  obtains c where "tick_body pl c0 = Inr c" "keyed c" "computeTerminal c = Inr (pn_terminal plan)"
    "pn_transitions plan = cx_transitions c" "pn_intents plan = sort_key it_intentId (cx_intents c)"
    "pn_attempts plan = sort_key at_attemptId (cx_attempts c)" "pn_stagePatches plan = patches c"
    "patch_of plan = map_of (cx_working c)"
proof -
  from assms(2) obtain c t c'' where c: "tick_body pl c0 = Inr c" "computeTerminal c = Inr t"
    "record_terminal c t = Inr c''" and plan: "plan = build_plan c'' t"
    unfolding runTick_def by (auto elim!: rbind_InrE)
  have "keyed c" using assms(1) tick_body_evolves [OF assms(1) c(1)] by (rule keyed_evolves)
  moreover have "pn_stagePatches plan = patches c"
    using record_terminal_frame [OF c(3)] by (simp add: plan build_plan_def Let_def patches_def case_prod_beta')
  ultimately show ?thesis
    using c record_terminal_frame [OF c(3)]
    by (intro that [of c]) (simp_all add: plan build_plan_def Let_def patch_of_def keyed_patches)
qed

lemma planned_body:
  assumes "planned pl input plan"
  obtains i' v2 c0 c where "same_input input i'" "createTickContext i' v2 = Inr c0" "keyed c0"
    "tick_body pl c0 = Inr c" "keyed c" "computeTerminal c = Inr (pn_terminal plan)"
    "pn_transitions plan = cx_transitions c" "pn_intents plan = sort_key it_intentId (cx_intents c)"
    "pn_attempts plan = sort_key at_attemptId (cx_attempts c)" "pn_stagePatches plan = patches c"
    "patch_of plan = map_of (cx_working c)"
proof -
  from assms obtain i' v2 c0 plan' where i': "same_input input i'" "createTickContext i' v2 = Inr c0"
    and run: "runTick pl c0 = Inr plan'"
    and eq: "pn_terminal plan' = pn_terminal plan" "pn_transitions plan' = pn_transitions plan"
      "pn_intents plan' = pn_intents plan" "pn_attempts plan' = pn_attempts plan"
      "pn_stagePatches plan' = pn_stagePatches plan"
    unfolding planned_def tickScheduler_def tickSchedulerV2_def same_input_def
    by (elim disjE rbind_InrE) (fastforce+)
  from eq(5) have p: "patch_of plan' = patch_of plan" by (simp add: patch_of_def)
  have k: "keyed c0" by (rule createTickContext_Inr [OF i'(2)])
  from run show ?thesis
    by (rule runTick_plan [OF k]) (rule that [OF i' k]; simp only: eq [symmetric] p [symmetric])
qed

text \<open>The context at the end of a tick, with what its phases guarantee.\<close>

definition tick_result :: "sched_input \<Rightarrow> tick_ctx \<Rightarrow> bool" where
  "tick_result input c \<longleftrightarrow> keyed c \<and> cx_graph c = si_graph input \<and>
     cx_stagesById c = js_map_of (map (\<lambda>d. (sd_id d, d)) (gr_stages (si_graph input))) \<and>
     (\<exists>out. buildEdgeMaps (si_graph input) = Inr (cx_incoming c, out)) \<and>
     si_runId (cx_input c) = si_runId input \<and> si_graphRevision (cx_input c) = si_graphRevision input \<and>
     (stopping c \<longleftrightarrow> stop_requested input) \<and> (cx_cancelRequested c \<longleftrightarrow> cancel_observed input) \<and> max_concurrent c = concurrency_limit input \<and>
     stage_run (initial_states input) (cx_transitions c) (states c) \<and>
     (\<forall>t \<in> set (cx_transitions c). justified c t)"

lemma settles_static:
  assumes "settles c c'" "keyed c"
  shows "stopping c' = stopping c" "max_concurrent c' = max_concurrent c" "cx_input c' = cx_input c"
    "cx_incoming c' = cx_incoming c"
  using assms by (auto simp: settles_def evolves_def same_static_def stopping_def max_concurrent_def)

lemma settles_justified:
  assumes "settles c c'" "keyed c" "\<forall>t \<in> set (cx_transitions c). justified c t"
  shows "\<forall>t \<in> set (cx_transitions c'). justified c' t"
proof -
  from assms(1,2) have k: "keeps_finished c c'" "same_static c c'"
    by (auto simp: settles_def evolves_def)
  with assms(3) have "\<forall>t \<in> set (cx_transitions c). justified c' t" by (blast intro: justified_keeps)
  with assms(1,2) show ?thesis by (auto simp: settles_def)
qed

lemma observed_justified:
  assumes "observes c c'" "cx_transitions c = []"
  shows "\<forall>t \<in> set (cx_transitions c'). justified c' t"
  using assms by (auto simp: observes_def justified_def releasing_def)

lemma start_stopping:
  assumes "createTickContext input v2 = Inr c0" "rfold (processObservation pl) (sorted_observations c0) c0 = Inr c1"
    "evolves c0 c1"
  shows "stopping c1 \<longleftrightarrow> stop_requested input" "cx_cancelRequested c1 \<longleftrightarrow> cancel_observed input"
    "\<forall>t \<in> set (cx_transitions c1). justified c1 t"
proof -
  let ?b = "\<exists>ob \<in> set (sorted_observations c0). ob_kind ob = O_cancel_requested"
  have i: "cx_input c0 = input" "\<not> cx_cancelRequested c0" "cx_transitions c0 = []"
    "cx_deadlineExceeded c0 = (case si_deadlineAt input of None \<Rightarrow> False | Some d \<Rightarrow> d \<le> si_now input)"
    by (rule createTickContext_Inr [OF assms(1)]; assumption)+
  note o = observations_observe [OF assms(2)]
  have "cx_cancelRequested c1 \<longleftrightarrow> ?b" using o i(2) by (simp add: observes_def with_cancel_def)
  moreover have "?b \<longleftrightarrow> cancel_observed input"
    by (simp add: sorted_observations_def i(1) cancel_observed_def)
  ultimately show c: "cx_cancelRequested c1 \<longleftrightarrow> cancel_observed input" by simp
  have "cx_deadlineExceeded c1 = cx_deadlineExceeded c0" using assms(3) by (simp add: evolves_def same_static_def)
  with c show "stopping c1 \<longleftrightarrow> stop_requested input" by (simp add: stopping_def stop_requested_def i(4))
  show "\<forall>t \<in> set (cx_transitions c1). justified c1 t"
    by (rule observed_justified [OF o]) (simp add: with_cancel_def i(3))
qed

lemma tick_body_result:
  assumes create: "createTickContext i' v2 = Inr c0" and i': "same_input input i'" and body: "tick_body pl c0 = Inr c"
  shows "tick_result input c"
proof -
  note same = same_input_simps [OF i']
  have k0: "keyed c0" and i: "cx_input c0 = i'" "cx_graph c0 = si_graph i'" "cx_transitions c0 = []"
    "cx_working c0 = initial_working i'"
    "cx_stagesById c0 = js_map_of (map (\<lambda>stage. (sd_id stage, stage)) (gr_stages (si_graph i')))"
    "\<exists>out. buildEdgeMaps (si_graph i') = Inr (cx_incoming c0, out)"
    by (rule createTickContext_Inr [OF create]; assumption)+
  from k0 body show ?thesis
  proof (rule tick_body_settles)
    fix c1 c2 c3 c4 c5 assume obs: "rfold (processObservation pl) (sorted_observations c0) c0 = Inr c1"
      and e: "evolves c0 c1" and s: "settles c1 c2" "settles c2 c3" "settles c3 c4" "settles c4 c5" "settles c5 c"
    have s1: "settles c1 c" using s by (meson settles_trans)
    have k1: "keyed c1" using k0 e by (rule keyed_evolves)
    have ec: "evolves c0 c" by (rule tick_body_evolves [OF k0 body])
    then have k: "keyed c" by (rule keyed_evolves [OF k0])
    have static: "cx_input c = i'" "cx_graph c = si_graph i'" "cx_incoming c = cx_incoming c0"
      "cx_stagesById c = cx_stagesById c0" using ec i by (simp_all add: evolves_def same_static_def)
    have "stopping c \<longleftrightarrow> stop_requested input"
      using settles_static(1) [OF s1 k1] start_stopping(1) [OF create obs e] same by simp
    moreover have "cx_cancelRequested c \<longleftrightarrow> cancel_observed input"
      using s1 k1 start_stopping(2) [OF create obs e] same by (simp add: settles_def)
    moreover have "\<forall>t \<in> set (cx_transitions c). justified c t"
      by (rule settles_justified [OF s1 k1 start_stopping(3) [OF create obs e]])
    moreover have "states c0 = initial_states input"
      by (intro ext) (simp add: states_def initial_states_def i(4) same)
    then have "stage_run (initial_states input) (cx_transitions c) (states c)"
      using ec k0 i(3) by (auto simp: evolves_def)
    moreover have "max_concurrent c = concurrency_limit input"
      unfolding max_concurrent_def static concurrency_limit_def [of i', symmetric] by (rule same(7))
    ultimately show ?thesis using k static i(5,6) same by (simp add: tick_result_def)
  qed
qed

lemma planned_result:
  assumes "planned pl input plan"
  obtains c where "tick_result input c" "pn_transitions plan = cx_transitions c"
    "pn_intents plan = sort_key it_intentId (cx_intents c)"
    "pn_attempts plan = sort_key at_attemptId (cx_attempts c)" "pn_stagePatches plan = patches c"
    "patch_of plan = map_of (cx_working c)" "computeTerminal c = Inr (pn_terminal plan)"
  using assms by (rule planned_body) (rule that [OF tick_body_result])

lemma planned_exists:
  assumes "well_formed_input input"
  obtains plan where "tickScheduler pl input = Inr plan" "planned pl input plan"
proof -
  from createTickContext_wf [OF assms] obtain c where "createTickContext input (wants_v2 input) = Inr c" "wf_ctx c" .
  with runTick_defined [of c pl] show ?thesis using that by (auto simp: tickScheduler_def planned_def)
qed

section \<open>Releases\<close>

text \<open>What the plan says of the predecessors and the reads of a stage.\<close>

definition predecessor_done :: "pipeline_graph \<Rightarrow> sched_plan \<Rightarrow> pipeline_edge \<Rightarrow> bool" where
  "predecessor_done g plan e =
     (case patch_of plan (ed_from e) of None \<Rightarrow> False
      | Some p \<Rightarrow> st_state p = S_succeeded \<or>
          st_state p = S_failed \<and>
            (case map_of (js_map_of (map (\<lambda>d. (sd_id d, d)) (gr_stages g))) (ed_from e) of
               None \<Rightarrow> False | Some d \<Rightarrow> sd_optional d) \<or>
          st_state p = S_cancelled \<and>
            (\<not> st_selected p \<or> st_lastTransitionReason p = Some R_condition_not_selected))"

definition read_produced :: "pipeline_graph \<Rightarrow> sched_plan \<Rightarrow> string \<Rightarrow> string \<Rightarrow> bool" where
  "read_produced g plan k r \<longleftrightarrow>
     (\<exists>w \<in> set (gr_stages g). sd_id w \<noteq> k \<and> r \<in> set (sd_writes w)) \<longrightarrow>
     (\<exists>w \<in> set (gr_stages g). sd_id w \<noteq> k \<and> r \<in> set (sd_writes w) \<and>
        plan_states plan (sd_id w) = Some S_succeeded)"

lemma js_map_of_key: "map_of (js_map_of (map (\<lambda>d. (f d, d)) ds)) k = Some d \<Longrightarrow> f d = k"
  by (auto simp: get_js_map_of rev_map dest!: map_of_SomeD)

lemma result_edges:
  assumes "tick_result input c" "e \<in> set (incoming_edges c k)"
  shows "incoming_edges c k = filter (\<lambda>e. ed_to e = k) (gr_edges (si_graph input))"
proof -
  from assms(1) obtain out where "buildEdgeMaps (si_graph input) = Inr (cx_incoming c, out)"
    by (auto simp: tick_result_def)
  from buildEdgeMaps_incoming [OF this, of k] assms(2) show ?thesis
    by (auto simp: incoming_edges_def split: if_splits)
qed

lemma result_release:
  assumes r: "tick_result input c" and p: "patch_of plan = map_of (cx_working c)"
    and t: "t \<in> set (cx_transitions c)" "tr_reason t = R_dependencies_satisfied"
  shows "\<forall>e \<in> set (gr_edges (si_graph input)). ed_to e = tr_stageId t \<longrightarrow> predecessor_done (si_graph input) plan e"
    "\<exists>e \<in> set (gr_edges (si_graph input)). ed_to e = tr_stageId t \<and> plan_states plan (ed_from e) = Some S_succeeded"
    "reads_done c (tr_stageId t)"
proof -
  let ?in = "incoming_edges c (tr_stageId t)"
  from r t have j: "\<forall>e \<in> set ?in. edge_done c e" "\<exists>e \<in> set ?in. edge_succeeded c e"
    and reads: "reads_done c (tr_stageId t)" by (auto simp: tick_result_def justified_def)
  then have edges: "?in = filter (\<lambda>e. ed_to e = tr_stageId t) (gr_edges (si_graph input))"
    using result_edges [OF r] by blast
  have "cx_stagesById c = js_map_of (map (\<lambda>d. (sd_id d, d)) (gr_stages (si_graph input)))"
    using r by (simp add: tick_result_def)
  then have "predecessor_done (si_graph input) plan e" if "edge_done c e" for e
    using that by (auto simp: edge_done_def predecessor_done_def p)
  with j(1) edges show "\<forall>e \<in> set (gr_edges (si_graph input)). ed_to e = tr_stageId t \<longrightarrow>
    predecessor_done (si_graph input) plan e" by simp
  from j(2) edges show "\<exists>e \<in> set (gr_edges (si_graph input)). ed_to e = tr_stageId t \<and>
    plan_states plan (ed_from e) = Some S_succeeded"
    by (auto simp: edge_succeeded_def plan_states_def p)
  show "reads_done c (tr_stageId t)" by (rule reads)
qed

section \<open>Dispatch\<close>

lemma count_active:
  assumes "keyed c"
  shows "length (filter (\<lambda>s. P (st_state s)) (patches c)) = card {k. \<exists>s. map_of (cx_working c) k = Some s \<and> P (st_state s)}"
    "length (filter (\<lambda>(_, s). P (st_state s)) (cx_working c)) = card {k. \<exists>s. map_of (cx_working c) k = Some s \<and> P (st_state s)}"
proof -
  have "length (filter (\<lambda>s. P (st_state s)) (patches c)) = length (filter (\<lambda>s. P (st_state s)) (map snd (cx_working c)))"
    unfolding patches_def by (metis filter_sort length_sort)
  also have "\<dots> = length (filter (\<lambda>(_, s). P (st_state s)) (cx_working c))"
    by (simp add: filter_map comp_def case_prod_beta')
  finally have eq: "length (filter (\<lambda>s. P (st_state s)) (patches c)) =
    length (filter (\<lambda>(_, s). P (st_state s)) (cx_working c))" .
  let ?l = "map fst (filter (\<lambda>(_, s). P (st_state s)) (cx_working c))"
  have "distinct ?l" using assms by (simp add: keyed_def distinct_map_filter)
  then have "length ?l = card (set ?l)" by (rule distinct_card [symmetric])
  also have "set ?l = {k. \<exists>s. map_of (cx_working c) k = Some s \<and> P (st_state s)}"
    using keyed_entries [OF assms] by (force simp: image_iff)
  finally show "length (filter (\<lambda>(_, s). P (st_state s)) (cx_working c)) =
    card {k. \<exists>s. map_of (cx_working c) k = Some s \<and> P (st_state s)}" by simp
  with eq show "length (filter (\<lambda>s. P (st_state s)) (patches c)) =
    card {k. \<exists>s. map_of (cx_working c) k = Some s \<and> P (st_state s)}" by simp
qed

lemma queue_effect_queued:
  assumes "queue_effect m n ks c c' qs" "k \<in> set (map (\<lambda>(s, a, i). st_stageId s) qs)"
  obtains s s' where "map_of (cx_working c) k = Some s" "st_state s = S_ready"
    "map_of (cx_working c') k = Some s'" "st_state s' = S_queued"
  using assms by (fastforce simp: queue_effect_def queued_as_def)

lemma queue_effect_count:
  assumes "queue_effect m n ks c c' qs" "keyed c"
  shows "card {k. \<exists>s. map_of (cx_working c') k = Some s \<and> active_state (st_state s)} = in_flight c + length qs"
proof -
  let ?A = "\<lambda>c. {k. \<exists>s. map_of (cx_working c) k = Some s \<and> active_state (st_state s)}"
  let ?Q = "set (map (\<lambda>(s, a, i). st_stageId s) qs)"
  note inq = queue_effect_queued [OF assms(1)]
  have out: "map_of (cx_working c') k = map_of (cx_working c) k" if "k \<notin> ?Q" for k
    using assms(1) that by (simp add: queue_effect_def)
  have "?A c' = ?A c \<union> ?Q"
  proof (intro set_eqI)
    fix k show "k \<in> ?A c' \<longleftrightarrow> k \<in> ?A c \<union> ?Q"
    proof (cases "k \<in> ?Q")
      case True
      then show ?thesis by (rule inq) (use True in \<open>auto simp: active_state_def\<close>)
    qed (use out in auto)
  qed
  moreover have "?A c \<inter> ?Q = {}" by (auto simp: active_state_def simp del: set_map elim!: inq)
  moreover have "finite (?A c)" by (rule finite_subset [OF _ finite_dom_map_of [of "cx_working c"]]) auto
  moreover have "distinct (map (\<lambda>(s, a, i). st_stageId s) qs)" using assms(1) by (simp add: queue_effect_def)
  then have "card ?Q = length qs" by (simp only: distinct_card length_map)
  ultimately show ?thesis using count_active(2) [OF assms(2), of active_state]
    by (simp add: card_Un_disjoint in_flight_def)
qed

text \<open>The dispatch of a tick, seen from its end: what was queued, from which context, and what came after.\<close>

definition tick_dispatch :: "tick_ctx \<Rightarrow> tick_ctx \<Rightarrow> tick_ctx \<Rightarrow> queued list \<Rightarrow> bool" where
  "tick_dispatch c4 c5 c qs \<longleftrightarrow> keyed c4 \<and> keyed c5 \<and> stopping c5 = stopping c \<and> stopping c4 = stopping c \<and>
     cx_incoming c4 = cx_incoming c \<and> max_concurrent c4 = max_concurrent c \<and> cx_input c4 = cx_input c \<and> cx_input c5 = cx_input c \<and>
     cx_attempts c4 = [] \<and> intents_ok c4 \<and> (\<forall>i \<in> set (cx_intents c4). it_kind i \<noteq> K_dispatch) \<and>
     queue_effect (max_concurrent c4) (in_flight c4) (sorted_ids c4) c4 c5 qs \<and>
     cancel_all c5 = Inr c \<and> (\<forall>k \<in> set (sorted_ids c4). maybeReleaseStage k c4 = Inr c4)"

lemma tick_body_dispatch:
  assumes create: "createTickContext i' v2 = Inr c0" and body: "tick_body pl c0 = Inr c"
  obtains c4 c5 qs where "tick_dispatch c4 c5 c qs"
proof -
  have k0: "keyed c0" and e0: "cx_attempts c0 = []" "cx_intents c0 = []"
    by (rule createTickContext_Inr [OF create]; assumption)+
  from k0 body show ?thesis
  proof (rule tick_body_settles)
    fix c1 c2 c3 c4 c5 assume
      ph: "rfold (processObservation pl) (sorted_observations c0) c0 = Inr c1" "cancel_all c1 = Inr c2"
        "rearmRetries c2 (retrying_ids c0) = Inr c3" "release_loop (release_fuel c3) c3 = Inr c4"
        "queueReadyStages c4 = Inr c5" "cancel_all c5 = Inr c"
      and e: "evolves c0 c1" and s: "settles c1 c2" "settles c2 c3" "settles c3 c4" "settles c4 c5" "settles c5 c"
    have k1: "keyed c1" by (rule keyed_evolves [OF k0 e])
    have "settles c1 c4" using s(1-3) by (meson settles_trans)
    from keyed_settles [OF k1 this] have k4: "keyed c4" .
    from keyed_settles [OF k4 s(4)] have k5: "keyed c5" .
    note st = settles_static [OF s(4) k4] settles_static [OF s(5) k5]
    have "distinct (sorted_ids c4)" using k4 by (simp add: sorted_ids_def keyed_def)
    then obtain qs where q: "queue_effect (max_concurrent c4) (in_flight c4) (sorted_ids c4) c4 c5 qs"
      using queue_loop_effect [OF k4 _ ph(5) [unfolded queueReadyStages_def]] by blast
    have c1: "cx_attempts c1 = []" "cx_intents c1 = []"
      using observations_observe [OF ph(1)] e0 by (simp_all add: observes_def with_cancel_def)
    have "books c1 c4"
      using cancel_all_books [OF ph(2)] book_rearm.fold_rel [OF TrueI ph(3) [unfolded rearmRetries_def]]
        release_loop_books [OF ph(4)] by (meson books_trans)
    with c1 have "cx_attempts c4 = []" "intents_ok c4" "\<forall>i \<in> set (cx_intents c4). it_kind i \<noteq> K_dispatch"
      by (auto simp: books_def intents_ok_def)
    then show ?thesis using k4 k5 st q ph(6) release_loop_fixpoint [OF ph(4)]
      by (intro that [of c4 c5 qs]) (simp add: tick_dispatch_def)
  qed
qed

lemma planned_dispatch:
  assumes "planned pl input plan"
  obtains c c4 c5 qs where "tick_dispatch c4 c5 c qs" "tick_result input c"
    "pn_intents plan = sort_key it_intentId (cx_intents c)"
    "pn_attempts plan = sort_key at_attemptId (cx_attempts c)" "pn_stagePatches plan = patches c"
    "patch_of plan = map_of (cx_working c)"
  using assms
proof (rule planned_body)
  fix i' v2 c0 c assume i: "same_input input i'" "createTickContext i' v2 = Inr c0" "tick_body pl c0 = Inr c"
    and plan: "pn_intents plan = sort_key it_intentId (cx_intents c)"
    "pn_attempts plan = sort_key at_attemptId (cx_attempts c)" "pn_stagePatches plan = patches c"
    "patch_of plan = map_of (cx_working c)"
  obtain c4 c5 qs where "tick_dispatch c4 c5 c qs" by (rule tick_body_dispatch [OF i(2,3)])
  then show ?thesis by (rule that [OF _ tick_body_result [OF i(2,1,3)] plan])
qed

text \<open>Without a stop the dispatch is the last thing a tick does; with one nothing is dispatched.\<close>

lemma dispatch_attempts:
  assumes "tick_dispatch c4 c5 c qs"
  shows "cx_attempts c = map (\<lambda>(s, a, i). a) qs" "\<not> stopping c \<Longrightarrow> c5 = c" "stopping c \<Longrightarrow> qs = []"
proof -
  have "cx_attempts c5 = map (\<lambda>(s, a, i). a) qs"
    using assms by (simp add: tick_dispatch_def queue_effect_def)
  moreover have "books c5 c" using assms by (auto simp: tick_dispatch_def intro: cancel_all_books)
  ultimately show "cx_attempts c = map (\<lambda>(s, a, i). a) qs" by (simp add: books_def)
  show "\<not> stopping c \<Longrightarrow> c5 = c" using assms by (auto simp: tick_dispatch_def cancel_all_def)
  show "stopping c \<Longrightarrow> qs = []" using assms by (simp add: tick_dispatch_def queue_effect_def)
qed

lemma dispatch_count:
  assumes "tick_dispatch c4 c5 c qs" "\<not> stopping c"
  shows "length (filter (\<lambda>s. active_state (st_state s)) (patches c)) = in_flight c4 + length qs"
proof -
  have "c5 = c" by (rule dispatch_attempts(2) [OF assms])
  with assms(1) have q: "queue_effect (max_concurrent c4) (in_flight c4) (sorted_ids c4) c4 c qs"
    and k: "keyed c4" "keyed c" by (auto simp: tick_dispatch_def)
  show ?thesis unfolding count_active(1) [OF k(2)] by (rule queue_effect_count [OF q k(1)])
qed

lemma distinct_map_finer:
  "distinct (map f xs) \<Longrightarrow> (\<And>x y. x \<in> set xs \<Longrightarrow> y \<in> set xs \<Longrightarrow> g x = g y \<Longrightarrow> f x = f y) \<Longrightarrow> distinct (map g xs)"
  unfolding distinct_map inj_on_def by blast

lemma dispatched_distinct:
  assumes "queue_effect m n ks c c' qs"
  shows "distinct (map (\<lambda>(s, a, i). at_attemptId a) qs)" "distinct (map (\<lambda>(s, a, i). it_intentId i) qs)"
proof -
  have d: "distinct (map (\<lambda>(s, a, i). st_stageId s) qs)" using assms by (simp add: queue_effect_def)
  have each: "dispatched (cx_input c) s a i" if "(s, a, i) \<in> set qs" for s a i
    using assms that by (auto simp: queue_effect_def)
  have same: "st_stageId s = st_stageId t" if "(s, a, i) \<in> set qs" "(t, b, j) \<in> set qs"
    "at_attemptId a = at_attemptId b \<or> it_intentId i = it_intentId j" for s a i t b j
    using each [OF that(1)] each [OF that(2)] that(3)
    by (auto simp: dispatched_def deriveAttemptId_inject deriveIntentId_inject)
  show "distinct (map (\<lambda>(s, a, i). at_attemptId a) qs)"
    by (rule distinct_map_finer [OF d]) (auto dest: same)
  show "distinct (map (\<lambda>(s, a, i). it_intentId i) qs)"
    by (rule distinct_map_finer [OF d]) (auto dest: same)
qed

lemma dispatch_recorded_once:
  assumes "tick_dispatch c4 c5 c qs"
  shows "distinct (map at_attemptId (cx_attempts c))" "distinct (map it_intentId (cx_intents c))"
    "filter (\<lambda>i. it_kind i = K_dispatch) (cx_intents c) = map (\<lambda>(s, a, i). i) qs"
proof -
  from assms have q: "queue_effect (max_concurrent c4) (in_flight c4) (sorted_ids c4) c4 c5 qs"
    and ok: "intents_ok c4" "\<forall>i \<in> set (cx_intents c4). it_kind i \<noteq> K_dispatch" and b: "books c5 c"
    and i5: "cx_input c5 = cx_input c4"
    by (auto simp: tick_dispatch_def intro: cancel_all_books)
  note dist = dispatched_distinct [OF q]
  from q have i: "cx_intents c5 = cx_intents c4 @ map (\<lambda>(s, a, i). i) qs"
    and each: "\<And>s a i. (s, a, i) \<in> set qs \<Longrightarrow> dispatched (cx_input c4) s a i"
    by (auto simp: queue_effect_def)
  have ids: "\<exists>key. it_intentId i = deriveIntentId (si_runId (cx_input c4)) (si_graphRevision (cx_input c4)) K_dispatch key"
    "it_kind i = K_dispatch" if "i \<in> set (map (\<lambda>(s, a, i). i) qs)" for i
    using that each by (fastforce simp: dispatched_def)+
  show "distinct (map at_attemptId (cx_attempts c))"
    using dist(1) dispatch_attempts(1) [OF assms] by (simp add: comp_def case_prod_beta')
  have "it_intentId i \<noteq> it_intentId j" if "i \<in> set (cx_intents c4)" "j \<in> set (map (\<lambda>(s, a, i). i) qs)" for i j
    using that(1) ok ids [OF that(2)] by (auto simp: intents_ok_def deriveIntentId_inject)
  then have "set (map it_intentId (cx_intents c4)) \<inter> set (map it_intentId (map (\<lambda>(s, a, i). i) qs)) = {}"
    unfolding set_map by blast
  moreover have "distinct (map it_intentId (map (\<lambda>(s, a, i). i) qs))"
    using dist(2) by (simp add: comp_def case_prod_beta')
  ultimately have "distinct (map it_intentId (cx_intents c5))" using ok(1) by (simp add: i intents_ok_def)
  moreover have "\<exists>key. it_intentId j = deriveIntentId (si_runId (cx_input c4)) (si_graphRevision (cx_input c4)) (it_kind j) key"
    if "j \<in> set (cx_intents c5)" for j
    using that ok(1) ids unfolding i set_append intents_ok_def by fastforce
  ultimately have "intents_ok c5" unfolding intents_ok_def i5 by blast
  then show "distinct (map it_intentId (cx_intents c))" using b by (simp add: books_def intents_ok_def)
  have "filter (\<lambda>i. it_kind i = K_dispatch) (cx_intents c5) = map (\<lambda>(s, a, i). i) qs"
    using ok(2) ids(2) by (simp add: i filter_True)
  with b show "filter (\<lambda>i. it_kind i = K_dispatch) (cx_intents c) = map (\<lambda>(s, a, i). i) qs"
    by (auto simp: books_def)
qed

lemma dispatch_each:
  assumes d: "tick_dispatch c4 c5 c qs" and a: "a \<in> set (cx_attempts c)"
  shows "\<exists>s s' i. at_stageId a = st_stageId s \<and> dispatched (cx_input c) s a i \<and> queued_as s a s' \<and> st_selected s \<and>
    map_of (cx_working c) (st_stageId s) = Some s' \<and> i \<in> set (cx_intents c)"
proof -
  have q: "queue_effect (max_concurrent c4) (in_flight c4) (sorted_ids c4) c4 c5 qs" and i4: "cx_input c4 = cx_input c"
    using d by (auto simp: tick_dispatch_def)
  from a dispatch_attempts(1) [OF d] obtain s i where sai: "(s, a, i) \<in> set qs" by auto
  then have c5: "c5 = c" using dispatch_attempts(2,3) [OF d] by fastforce
  have i: "i \<in> set (filter (\<lambda>i. it_kind i = K_dispatch) (cx_intents c))"
    unfolding dispatch_recorded_once(3) [OF d] using sai by force
  from q have "\<forall>(s, a, i) \<in> set qs. st_selected s \<and> dispatched (cx_input c4) s a i \<and>
        (\<exists>s'. map_of (cx_working c5) (st_stageId s) = Some s' \<and> queued_as s a s')"
    by (auto simp: queue_effect_def)
  with sai have "st_selected s" "dispatched (cx_input c) s a i"
    "\<exists>s'. map_of (cx_working c) (st_stageId s) = Some s' \<and> queued_as s a s'" by (auto simp: i4 c5)
  moreover have "at_stageId a = st_stageId s" using \<open>dispatched (cx_input c) s a i\<close> by (simp add: dispatched_def)
  ultimately show ?thesis using i by auto
qed

lemma length_sorted_filter: "length (filter P (sort_key f xs)) = length (filter P xs)"
  by (metis filter_sort length_sort)

lemma distinct_sorted_map: "distinct (map f (sort_key f xs)) \<longleftrightarrow> distinct (map f xs)"
  by (simp add: distinct_map)

section \<open>Liveness and the terminal outcome\<close>

text \<open>An edge that still holds its target back, in the patches of a plan.\<close>

definition holds_back :: "sched_plan \<Rightarrow> pipeline_edge \<Rightarrow> bool" where
  "holds_back plan e = (case patch_of plan (ed_from e) of None \<Rightarrow> False
     | Some p \<Rightarrow> \<not> isTerminalStageState (st_state p) \<or>
         st_state p = S_succeeded \<and> (case ed_condition e of Some (Cond_evaluator _ _) \<Rightarrow> True | _ \<Rightarrow> False))"

lemma dispatch_effect:
  assumes "tick_dispatch c4 c5 c qs" "\<not> stopping c"
  shows "queue_effect (max_concurrent c4) (in_flight c4) (sorted_ids c4) c4 c qs"
  using assms(1) dispatch_attempts(2) [OF assms] by (auto simp: tick_dispatch_def)

lemma dispatch_back:
  assumes "tick_dispatch c4 c5 c qs" "\<not> stopping c" "map_of (cx_working c4) k \<noteq> None \<or> map_of (cx_working c) k \<noteq> None"
  obtains s where "map_of (cx_working c4) k = Some s" "map_of (cx_working c) k = Some s"
  | s s' where "map_of (cx_working c4) k = Some s" "map_of (cx_working c) k = Some s'"
      "st_state s = S_ready" "st_state s' = S_queued"
proof (cases "k \<in> set (map (\<lambda>(s, a, i). st_stageId s) qs)")
  case True
  then show ?thesis by (rule queue_effect_queued [OF dispatch_effect [OF assms(1,2)]]) (rule that(2))
next
  case False
  then have "map_of (cx_working c) k = map_of (cx_working c4) k"
    using dispatch_effect [OF assms(1,2)] by (simp add: queue_effect_def)
  with assms(3) show ?thesis using that(1) by auto
qed

lemma pending_held_back:
  assumes d: "tick_dispatch c4 c5 c qs" and go: "\<not> stopping c" and s: "map_of (cx_working c) k = Some s"
    and pend: "st_selected s" "st_state s = S_pending" and p: "patch_of plan = map_of (cx_working c)"
  shows "\<exists>e \<in> set (incoming_edges c4 k). holds_back plan e"
proof -
  have s4: "map_of (cx_working c4) k = Some s"
    by (rule dispatch_back [OF d go, of k]) (use s pend in auto)
  have "k \<in> set (sorted_ids c4)" using s4 by (auto simp: set_sorted_ids in_keys)
  then have fix4: "maybeReleaseStage k c4 = Inr c4" and go4: "\<not> stopping c4" using d go by (auto simp: tick_dispatch_def)
  obtain e where e: "e \<in> set (incoming_edges c4 k)" "edge_open c4 e"
    using fixpoint_open_edge [OF fix4 s4 pend go4] by blast
  from e(2) obtain x where x: "map_of (cx_working c4) (ed_from e) = Some x"
    and o: "\<not> isTerminalStageState (st_state x) \<or> st_state x = S_succeeded \<and>
      (\<exists>profile question. ed_condition e = Some (Cond_evaluator profile question))" by (auto simp: edge_open_def)
  have "holds_back plan e"
    by (rule dispatch_back [OF d go, of "ed_from e"]) (use o x in \<open>auto simp: holds_back_def p\<close>)
  with e(1) show ?thesis by blast
qed

text \<open>The outcome of a settled run, from its stages.\<close>

definition required_failed :: "pipeline_graph \<Rightarrow> stage_snapshot \<Rightarrow> bool" where
  "required_failed g s \<longleftrightarrow> st_state s = S_failed \<and>
     (case map_of (js_map_of (map (\<lambda>d. (sd_id d, d)) (gr_stages g))) (st_stageId s) of
        None \<Rightarrow> False | Some d \<Rightarrow> \<not> sd_optional d)"

definition run_outcome :: "pipeline_graph \<Rightarrow> bool \<Rightarrow> stage_snapshot list \<Rightarrow> schedule_outcome" where
  "run_outcome g cancelled ps =
     (if \<exists>s \<in> set ps. st_state s = S_blocked then SO_blocked
      else if cancelled \<or> (\<forall>s \<in> set ps. st_state s = S_cancelled) then SO_cancelled
      else if \<exists>s \<in> set ps. required_failed g s then SO_failed
      else SO_succeeded)"

lemma requiredFailed_Inr:
  assumes "defs = js_map_of (map (\<lambda>d. (sd_id d, d)) (gr_stages g))"
  shows "requiredFailed defs ss = Inr b \<Longrightarrow> b \<longleftrightarrow> (\<exists>s \<in> set ss. required_failed g s)"
  by (induction ss) (auto simp: required_failed_def assms elim!: rbind_InrE split: if_splits)

lemma computeTerminal_outcome:
  assumes "computeTerminal c = Inr t" "cx_stagesById c = js_map_of (map (\<lambda>d. (sd_id d, d)) (gr_stages g))"
  shows "map_option te_outcome t =
    (if \<forall>s \<in> set (map snd (cx_working c)). isTerminalStageState (st_state s)
     then Some (run_outcome g (cx_cancelRequested c) (map snd (cx_working c))) else None)"
proof -
  let ?ss = "map snd (cx_working c)"
  show ?thesis
  proof (cases "\<exists>s \<in> set ?ss. \<not> isTerminalStageState (st_state s)")
    case True
    with assms(1) show ?thesis by (auto simp: computeTerminal_def)
  next
    case False
    show ?thesis
    proof (cases "List.find (\<lambda>s. st_state s = S_blocked) ?ss")
      case (Some x)
      then have "\<exists>s \<in> set ?ss. st_state s = S_blocked" by (auto simp: find_Some_iff intro: bexI [OF _ nth_mem])
      with Some False assms(1) show ?thesis by (simp add: computeTerminal_def Let_def run_outcome_def) auto
    next
      case None
      then have nb: "\<not> (\<exists>s \<in> set ?ss. st_state s = S_blocked)" by (auto simp: find_None_iff)
      show ?thesis
      proof (cases "cx_cancelRequested c \<or> (\<forall>s \<in> set ?ss. st_state s = S_cancelled)")
        case True
        with None False nb assms(1) show ?thesis
          by (simp add: computeTerminal_def Let_def run_outcome_def terminal_def) auto
      next
        case nc: False
        with None False assms(1) obtain b where b: "requiredFailed (cx_stagesById c) ?ss = Inr b"
          and t: "t = Some (if b then terminal SO_failed ''required_stage_failed'' else terminal SO_succeeded ''graph_complete'')"
          by (auto simp: computeTerminal_def Let_def elim!: rbind_InrE split: if_splits) fastforce
        from requiredFailed_Inr [OF assms(2) b] nb nc False t show ?thesis
          by (simp add: run_outcome_def terminal_def)
      qed
    qed
  qed
qed

definition example_settled :: sched_input where
  "example_settled = example_run\<lparr>si_stages := [(pending_snapshot ''r'' 1 ''a'' ''t0'')\<lparr>st_state := S_succeeded\<rparr>]\<rparr>"

definition cancel_observation :: observation where
  "cancel_observation = \<lparr>ob_observationId = ''o1'', ob_kind = O_cancel_requested, ob_stageId = None, ob_attemptId = None,
     ob_retryable = None, ob_edgeKey = None, ob_selected = None, ob_recordedAt = ''t1'', ob_failure = None,
     ob_proposalId = None, ob_classification = None, ob_phase = None, ob_code = None, ob_backendClassification = None,
     ob_validationFailures = None, ob_resumeAvailable = None, ob_priorBackendExecutionId = None\<rparr>"

definition example_cancelled :: sched_input where
  "example_cancelled = example_run\<lparr>si_observations := [cancel_observation], si_stages :=
     [(pending_snapshot ''r'' 1 ''a'' ''t0'')\<lparr>st_state := S_running, st_attemptOrdinal := 1, st_currentAttemptId := Some ''x''\<rparr>]\<rparr>"

definition example_deadline :: sched_input where
  "example_deadline = example_settled\<lparr>si_deadlineAt := Some ''t1''\<rparr>"

definition holds_of_plan :: "sched_input \<Rightarrow> (sched_plan \<Rightarrow> bool) \<Rightarrow> bool" where
  "holds_of_plan input P = (case tickScheduler example_platform input of Inl _ \<Rightarrow> False | Inr plan \<Rightarrow> P plan)"

lemma holds_of_planE:
  assumes "holds_of_plan input P"
  obtains plan where "planned example_platform input plan" "P plan"
  using assms that by (auto simp: holds_of_plan_def planned_def split: sum.splits)

lemma example_settled_plan:
  "holds_of_plan example_settled (\<lambda>plan. length (pn_attempts plan) = 1 \<and>
     (\<exists>t \<in> set (pn_transitions plan). tr_stageId t = ''b'' \<and> tr_reason t = R_dependencies_satisfied))"
  by code_simp

lemma example_cancelled_plan:
  "holds_of_plan example_cancelled (\<lambda>plan. \<exists>s \<in> set (pn_stagePatches plan). st_state s = S_running)"
  by code_simp

lemma example_run_plan:
  "holds_of_plan example_run (\<lambda>plan. \<exists>s \<in> set (pn_stagePatches plan). st_state s = S_pending \<and> st_selected s)"
  by code_simp

section \<open>Properties\<close>

text \<open>
  C1: a tick refines the stage state machine: the transitions of the plan, replayed from the
  stages of the input (a stage without a snapshot starts pending), are all permitted by the transition
  table, each from the state the stage is in at that moment, and lead exactly to the states of
  the stage patches.
\<close>

theorem tick_log_replays:
  assumes "planned pl input plan"
  shows "stage_run (initial_states input) (pn_transitions plan) (plan_states plan)"
  using assms
proof (rule planned_result)
  fix c assume r: "tick_result input c" and p: "patch_of plan = map_of (cx_working c)"
    and t: "pn_transitions plan = cx_transitions c"
  have "plan_states plan = states c" by (intro ext) (simp add: plan_states_def states_def p)
  with r t show ?thesis by (simp add: tick_result_def)
qed

theorem tick_log_replays_witness:
  "\<exists>plan. tickScheduler example_platform example_run = Inr plan \<and>
     stage_run (initial_states example_run) (pn_transitions plan) (plan_states plan)"
proof -
  obtain plan where "tickScheduler example_platform example_run = Inr plan" "planned example_platform example_run plan"
    using planned_exists [OF example_run_well_formed] .
  with tick_log_replays [OF this(2)] show ?thesis by blast
qed

text \<open>
  C2: a stage is released on its dependencies only when they hold: every transition the plan makes
  for the reason \<open>dependencies_satisfied\<close> is for a stage each of whose predecessors has, in the plan's
  patches, succeeded, failed while being optional, or been deselected, at least one of them
  having succeeded, and each read that some other stage writes is written by another stage that succeeded.
\<close>

theorem released_only_when_satisfied:
  assumes "planned pl input plan" "t \<in> set (pn_transitions plan)" "tr_reason t = R_dependencies_satisfied"
  shows "(\<forall>e \<in> set (gr_edges (si_graph input)). ed_to e = tr_stageId t \<longrightarrow> predecessor_done (si_graph input) plan e) \<and>
    (\<exists>e \<in> set (gr_edges (si_graph input)). ed_to e = tr_stageId t \<and> plan_states plan (ed_from e) = Some S_succeeded) \<and>
    (\<forall>d. map_of (js_map_of (map (\<lambda>d. (sd_id d, d)) (gr_stages (si_graph input)))) (tr_stageId t) = Some d \<longrightarrow>
      (\<forall>r \<in> set (sd_reads d). read_produced (si_graph input) plan (tr_stageId t) r))"
  using assms(1)
proof (rule planned_result)
  fix c assume r: "tick_result input c" and p: "patch_of plan = map_of (cx_working c)"
    and t: "pn_transitions plan = cx_transitions c"
  note rel = result_release [OF r p assms(2) [unfolded t] assms(3)]
  have g: "cx_graph c = si_graph input"
    "cx_stagesById c = js_map_of (map (\<lambda>d. (sd_id d, d)) (gr_stages (si_graph input)))"
    using r by (simp_all add: tick_result_def)
  have "read_produced (si_graph input) plan (tr_stageId t) x"
    if d: "map_of (cx_stagesById c) (tr_stageId t) = Some d" and x: "x \<in> set (sd_reads d)" for d x
  proof -
    have "sd_id d = tr_stageId t" using d unfolding g(2) by (rule js_map_of_key)
    with rel(3) d x show ?thesis
      by (force simp: reads_done_def read_produced_def plan_states_def p g(1))
  qed
  with rel show ?thesis unfolding g(2) by blast
qed

theorem released_only_when_satisfied_witness:
  "\<exists>plan t. planned example_platform example_settled plan \<and> t \<in> set (pn_transitions plan) \<and> tr_stageId t = ''b'' \<and>
     (\<exists>e \<in> set (gr_edges (si_graph example_settled)). ed_to e = ''b'' \<and> plan_states plan (ed_from e) = Some S_succeeded)"
  using example_settled_plan
proof (rule holds_of_planE)
  fix plan assume p: "planned example_platform example_settled plan" and
    "length (pn_attempts plan) = 1 \<and>
     (\<exists>t \<in> set (pn_transitions plan). tr_stageId t = ''b'' \<and> tr_reason t = R_dependencies_satisfied)"
  then obtain t where t: "t \<in> set (pn_transitions plan)" "tr_reason t = R_dependencies_satisfied" "tr_stageId t = ''b''" by auto
  from p t released_only_when_satisfied [OF p t(1,2)] show ?thesis by auto
qed

text \<open>
  C3: dispatch respects the concurrency limit: when a tick dispatches any attempt and a limit is
  in force (the effective limit, or the graph's), the number of stages queued, running or waiting in
  the plan's patches is at most the limit.
\<close>

theorem dispatch_within_limit:
  assumes "planned pl input plan" "pn_attempts plan \<noteq> []" "concurrency_limit input = Some m"
  shows "length (filter (\<lambda>s. active_state (st_state s)) (pn_stagePatches plan)) \<le> m"
  using assms(1)
proof (rule planned_dispatch)
  fix c c4 c5 qs assume d: "tick_dispatch c4 c5 c qs" and r: "tick_result input c"
    and plan: "pn_attempts plan = sort_key at_attemptId (cx_attempts c)" "pn_stagePatches plan = patches c"
  have qs: "qs \<noteq> []" using assms(2) plan(1) dispatch_attempts(1) [OF d] by (cases "cx_attempts c") auto
  then have go: "\<not> stopping c" using dispatch_attempts(3) [OF d] by blast
  have "max_concurrent c4 = Some m" using d r assms(3) by (simp add: tick_dispatch_def tick_result_def)
  then have "in_flight c4 + length qs \<le> m" using d qs by (simp add: tick_dispatch_def queue_effect_def)
  then show ?thesis using dispatch_count [OF d go] plan(2) by simp
qed

theorem dispatch_within_limit_witness:
  "\<exists>plan. planned example_platform example_settled plan \<and>
     length (filter (\<lambda>s. active_state (st_state s)) (pn_stagePatches plan)) \<le> 1"
  using example_settled_plan
proof (rule holds_of_planE)
  fix plan assume p: "planned example_platform example_settled plan" and
    "length (pn_attempts plan) = 1 \<and>
     (\<exists>t \<in> set (pn_transitions plan). tr_stageId t = ''b'' \<and> tr_reason t = R_dependencies_satisfied)"
  then have "pn_attempts plan \<noteq> []" by auto
  moreover have "concurrency_limit example_settled = Some 1" by code_simp
  ultimately show ?thesis using p dispatch_within_limit [OF p] by blast
qed

text \<open>
  C4: a stopped run is wound down: when cancellation is requested in the tick or the deadline has
  passed, the plan dispatches no attempt, leaves no stage pending, ready or retrying, and every
  stage still queued, running or waiting with an attempt has the intent to cancel that attempt
  in the plan.
\<close>

theorem stop_winds_down:
  assumes "planned pl input plan" "stop_requested input"
  shows "pn_attempts plan = [] \<and> (\<forall>i \<in> set (pn_intents plan). it_kind i \<noteq> K_dispatch) \<and>
    (\<forall>s \<in> set (pn_stagePatches plan). \<not> inactive_state (st_state s) \<and>
      (active_state (st_state s) \<and> st_currentAttemptId s \<noteq> None \<longrightarrow>
        (\<exists>i \<in> set (pn_intents plan). it_intentId i = deriveIntentId (si_runId input) (si_graphRevision input)
           K_cancel (coordinate_key (st_stageId s) (st_generation s) (st_attemptOrdinal s)))))"
  using assms(1)
proof (rule planned_dispatch)
  fix c c4 c5 qs assume d: "tick_dispatch c4 c5 c qs" and r: "tick_result input c"
    and plan: "pn_intents plan = sort_key it_intentId (cx_intents c)"
      "pn_attempts plan = sort_key at_attemptId (cx_attempts c)" "pn_stagePatches plan = patches c"
  have stop: "stopping c" using r assms(2) by (simp add: tick_result_def)
  have qs: "qs = []" by (rule dispatch_attempts(3) [OF d stop])
  have b: "books c5 c" using d by (auto simp: tick_dispatch_def intro: cancel_all_books)
  have "cx_attempts c = []" using dispatch_attempts(1) [OF d] qs by simp
  moreover have "\<forall>i \<in> set (cx_intents c). it_kind i \<noteq> K_dispatch"
    using d b by (auto simp: tick_dispatch_def queue_effect_def books_def qs)
  moreover have "\<not> inactive_state (st_state s) \<and> (active_state (st_state s) \<and> st_currentAttemptId s \<noteq> None \<longrightarrow>
      has_intent c (cancel_key c s))" if "s \<in> set (patches c)" for s
  proof -
    have k5: "keyed c5" and fold: "rfold cancel_stage (sorted_ids c5) c5 = Inr c"
      using d stop by (auto simp: tick_dispatch_def cancel_all_def)
    have w: "map_of (cx_working c) (st_stageId s) = Some s"
      by (rule patch_entry [OF _ that]) (use r in \<open>simp add: tick_result_def\<close>)
    have "keys c = keys c5" using cancel_all_evolves [OF k5] d by (simp add: tick_dispatch_def evolves_keys)
    moreover have "st_stageId s \<in> set (keys c)" using w by (auto simp: in_keys)
    ultimately have "st_stageId s \<in> set (sorted_ids c5)" by (simp add: set_sorted_ids)
    then have "wound_down c (st_stageId s)" using cancel_fold_wound_down [OF k5 fold] by blast
    with w show ?thesis by (simp add: wound_down_def)
  qed
  moreover have "cancel_key c s = deriveIntentId (si_runId input) (si_graphRevision input) K_cancel
      (coordinate_key (st_stageId s) (st_generation s) (st_attemptOrdinal s))" for s
    using r by (simp add: cancel_key_def tick_result_def)
  ultimately show ?thesis by (simp add: plan has_intent_def list_ex_iff)
qed

theorem stop_winds_down_witness:
  "\<exists>plan s. planned example_platform example_cancelled plan \<and> pn_attempts plan = [] \<and>
     s \<in> set (pn_stagePatches plan) \<and> st_state s = S_running"
  using example_cancelled_plan
proof (rule holds_of_planE)
  fix plan assume p: "planned example_platform example_cancelled plan" and
    "\<exists>s \<in> set (pn_stagePatches plan). st_state s = S_running"
  then obtain s where "s \<in> set (pn_stagePatches plan)" "st_state s = S_running" by auto
  moreover have "stop_requested example_cancelled" by code_simp
  ultimately show ?thesis using p stop_winds_down [OF p] by blast
qed

text \<open>
  C5: attempts and dispatch intents of a plan correspond one to one: there are as many of one as of the other, their
  identifiers are distinct, every attempt has a dispatch intent that carries the same stage, attempt, stage type and retry
  directive, and every dispatch intent is that of an attempt. Every attempt belongs to a stage that the patches show
  queued with that attempt, generation and ordinal.
\<close>

theorem dispatch_recorded:
  assumes "planned pl input plan"
  shows "length (filter (\<lambda>i. it_kind i = K_dispatch) (pn_intents plan)) = length (pn_attempts plan) \<and>
    distinct (map at_attemptId (pn_attempts plan)) \<and> distinct (map it_intentId (pn_intents plan)) \<and>
    (\<forall>a \<in> set (pn_attempts plan).
      at_attemptId a = deriveAttemptId (si_runId input) (si_graphRevision input) (at_stageId a) (at_generation a)
        (at_attemptOrdinal a) \<and>
      (\<exists>s. patch_of plan (at_stageId a) = Some s \<and> st_state s = S_queued \<and> st_selected s \<and>
         st_currentAttemptId s = Some (at_attemptId a) \<and> st_generation s = at_generation a \<and>
         st_attemptOrdinal s = at_attemptOrdinal a) \<and>
      (\<exists>i \<in> set (pn_intents plan). it_kind i = K_dispatch \<and>
         it_payload i = PL_dispatch (at_stageId a) (at_stageType a) (at_attemptId a) (at_generation a)
           (at_attemptOrdinal a) (at_retryDirective a))) \<and>
    (\<forall>i \<in> set (pn_intents plan). it_kind i = K_dispatch \<longrightarrow> (\<exists>a \<in> set (pn_attempts plan).
      it_payload i = PL_dispatch (at_stageId a) (at_stageType a) (at_attemptId a) (at_generation a)
        (at_attemptOrdinal a) (at_retryDirective a)))"
  using assms
proof (rule planned_dispatch)
  fix c c4 c5 qs assume d: "tick_dispatch c4 c5 c qs" and r: "tick_result input c"
    and plan: "pn_intents plan = sort_key it_intentId (cx_intents c)"
      "pn_attempts plan = sort_key at_attemptId (cx_attempts c)" "patch_of plan = map_of (cx_working c)"
  note once = dispatch_recorded_once [OF d] and at = dispatch_attempts [OF d]
  have ids: "si_runId (cx_input c) = si_runId input" "si_graphRevision (cx_input c) = si_graphRevision input"
    using r by (simp_all add: tick_result_def)
  have "at_attemptId a = deriveAttemptId (si_runId input) (si_graphRevision input) (at_stageId a) (at_generation a)
        (at_attemptOrdinal a) \<and>
      (\<exists>s. map_of (cx_working c) (at_stageId a) = Some s \<and> st_state s = S_queued \<and> st_selected s \<and>
         st_currentAttemptId s = Some (at_attemptId a) \<and> st_generation s = at_generation a \<and>
         st_attemptOrdinal s = at_attemptOrdinal a) \<and>
      (\<exists>i \<in> set (cx_intents c). it_kind i = K_dispatch \<and>
         it_payload i = PL_dispatch (at_stageId a) (at_stageType a) (at_attemptId a) (at_generation a)
           (at_attemptOrdinal a) (at_retryDirective a))" if "a \<in> set (cx_attempts c)" for a
  proof -
    from dispatch_each [OF d that] obtain s s' i where "at_stageId a = st_stageId s" "dispatched (cx_input c) s a i"
      "queued_as s a s'" "st_selected s" "map_of (cx_working c) (st_stageId s) = Some s'" "i \<in> set (cx_intents c)" by blast
    then show ?thesis by (auto simp: dispatched_def queued_as_def ids intro: bexI [of _ i])
  qed
  moreover have "length (filter (\<lambda>i. it_kind i = K_dispatch) (cx_intents c)) = length (cx_attempts c)"
    by (simp add: once(3) at(1))
  moreover have "\<exists>a \<in> set (cx_attempts c). it_payload i = PL_dispatch (at_stageId a) (at_stageType a) (at_attemptId a) (at_generation a)
        (at_attemptOrdinal a) (at_retryDirective a)" if "i \<in> set (cx_intents c)" "it_kind i = K_dispatch" for i
  proof -
    have "i \<in> set (map (\<lambda>(s, a, i). i) qs)" using that unfolding once(3) [symmetric] by simp
    then obtain s a where q: "(s, a, i) \<in> set qs" by auto
    then have "dispatched (cx_input c4) s a i" using d by (auto simp: tick_dispatch_def queue_effect_def)
    moreover have "a \<in> set (cx_attempts c)" using q unfolding at(1) by force
    ultimately show ?thesis by (intro bexI [of _ a]) (simp_all add: dispatched_def)
  qed
  ultimately show ?thesis using once(1,2) unfolding plan
    by (simp only: length_sorted_filter distinct_sorted_map set_sort length_sort) blast
qed

theorem dispatch_recorded_witness:
  "\<exists>plan. planned example_platform example_settled plan \<and> length (pn_attempts plan) = 1 \<and>
     length (filter (\<lambda>i. it_kind i = K_dispatch) (pn_intents plan)) = 1"
  using example_settled_plan
proof (rule holds_of_planE)
  fix plan assume p: "planned example_platform example_settled plan" and
    "length (pn_attempts plan) = 1 \<and>
     (\<exists>t \<in> set (pn_transitions plan). tr_stageId t = ''b'' \<and> tr_reason t = R_dependencies_satisfied)"
  then have "length (pn_attempts plan) = 1" by simp
  with p dispatch_recorded [OF p] show ?thesis by auto
qed

text \<open>
  C6: no runnable stage is left behind: when the run is not stopping, a selected stage that the plan
  leaves pending has an incoming edge that holds it back (an unfinished predecessor, or an evaluator
  that has to decide), and a selected stage left ready means that the concurrency limit is reached.
\<close>

theorem no_runnable_stage_left:
  assumes "planned pl input plan" "\<not> stop_requested input" "s \<in> set (pn_stagePatches plan)" "st_selected s"
  shows "(st_state s = S_pending \<longrightarrow>
      (\<exists>e \<in> set (gr_edges (si_graph input)). ed_to e = st_stageId s \<and> holds_back plan e)) \<and>
    (st_state s = S_ready \<longrightarrow>
      at_limit (concurrency_limit input) (length (filter (\<lambda>s. active_state (st_state s)) (pn_stagePatches plan))))"
  using assms(1)
proof (rule planned_dispatch)
  fix c c4 c5 qs assume d: "tick_dispatch c4 c5 c qs" and r: "tick_result input c"
    and plan: "pn_stagePatches plan = patches c" "patch_of plan = map_of (cx_working c)"
  have go: "\<not> stopping c" and k: "keyed c" using r assms(2) by (simp_all add: tick_result_def)
  have s: "map_of (cx_working c) (st_stageId s) = Some s" using assms(3) plan(1) patch_entry [OF k] by simp
  have pend: "\<exists>e \<in> set (gr_edges (si_graph input)). ed_to e = st_stageId s \<and> holds_back plan e" if pend: "st_state s = S_pending"
  proof -
    obtain e where e: "e \<in> set (incoming_edges c4 (st_stageId s))" "holds_back plan e"
      using pending_held_back [OF d go s assms(4) pend plan(2)] by blast
    have "incoming_edges c4 = incoming_edges c" using d by (intro ext) (simp add: tick_dispatch_def incoming_edges_def)
    with e result_edges [OF r] show ?thesis by force
  qed
  have ready: "at_limit (concurrency_limit input) (length (filter (\<lambda>s. active_state (st_state s)) (patches c)))"
    if "st_state s = S_ready"
  proof -
    have "map_of (cx_working c4) (st_stageId s) \<noteq> None"
      by (rule dispatch_back [OF d go, of "st_stageId s"]) (use s in auto)
    then have "st_stageId s \<in> set (sorted_ids c4)" by (auto simp: set_sorted_ids in_keys)
    moreover have "\<not> stopping c4" using d go by (simp add: tick_dispatch_def)
    moreover note dispatch_effect [OF d go]
    ultimately have "at_limit (max_concurrent c4) (in_flight c4 + length qs)"
      using s that assms(4) by (auto simp: queue_effect_def)
    then show ?thesis using dispatch_count [OF d go] d r by (simp add: tick_dispatch_def tick_result_def)
  qed
  show ?thesis using pend ready plan(1) by simp
qed

theorem no_runnable_stage_left_witness:
  "\<exists>plan s e. planned example_platform example_run plan \<and> s \<in> set (pn_stagePatches plan) \<and> st_state s = S_pending \<and>
     e \<in> set (gr_edges (si_graph example_run)) \<and> ed_to e = st_stageId s \<and> holds_back plan e"
  using example_run_plan
proof (rule holds_of_planE)
  fix plan assume p: "planned example_platform example_run plan" and
    "\<exists>s \<in> set (pn_stagePatches plan). st_state s = S_pending \<and> st_selected s"
  then obtain s where "s \<in> set (pn_stagePatches plan)" "st_state s = S_pending" "st_selected s" by auto
  moreover have "\<not> stop_requested example_run" by code_simp
  ultimately show ?thesis using p no_runnable_stage_left [OF p] by blast
qed

text \<open>
  The terminal outcome of a plan is what its stages say: it is present exactly when every stage
  is in a terminal state, and then it is blocked when a stage is blocked, else cancelled when a
  cancellation was observed in this tick or every stage is cancelled, else failed when a required
  stage failed, and succeeded otherwise.
\<close>

theorem terminal_outcome_of_stages:
  assumes "planned pl input plan"
  shows "map_option te_outcome (pn_terminal plan) =
    (if \<forall>s \<in> set (pn_stagePatches plan). isTerminalStageState (st_state s)
     then Some (run_outcome (si_graph input) (cancel_observed input) (pn_stagePatches plan)) else None)"
  using assms
proof (rule planned_result)
  fix c assume r: "tick_result input c" and p: "pn_stagePatches plan = patches c"
    and t: "computeTerminal c = Inr (pn_terminal plan)"
  have "set (patches c) = set (map snd (cx_working c))" by (simp add: patches_def)
  then have "run_outcome g b (patches c) = run_outcome g b (map snd (cx_working c))"
    "(\<forall>s \<in> set (patches c). isTerminalStageState (st_state s)) =
      (\<forall>s \<in> set (map snd (cx_working c)). isTerminalStageState (st_state s))" for g b
    by (simp_all only: run_outcome_def)
  with computeTerminal_outcome [OF t] r show ?thesis unfolding p tick_result_def by simp
qed

theorem terminal_outcome_of_stages_witness:
  "\<exists>plan. planned example_platform example_run plan \<and> map_option te_outcome (pn_terminal plan) = None"
  using example_run_plan
proof (rule holds_of_planE)
  fix plan assume p: "planned example_platform example_run plan" and
    "\<exists>s \<in> set (pn_stagePatches plan). st_state s = S_pending \<and> st_selected s"
  then obtain s where "s \<in> set (pn_stagePatches plan)" "st_state s = S_pending" by auto
  then have "\<not> (\<forall>s \<in> set (pn_stagePatches plan). isTerminalStageState (st_state s))" by force
  then have "map_option te_outcome (pn_terminal plan) = None"
    using terminal_outcome_of_stages [OF p] by (simp only: if_False)
  with p show ?thesis by blast
qed

text \<open>
  C24: a run that its deadline cuts short ends as succeeded: when every stage has succeeded or is cancelled, one stage has
  succeeded and no cancellation was asked for in the tick, the terminal outcome is succeeded, whether or not the stages were
  cancelled because the deadline passed.
\<close>

theorem deadline_can_end_succeeded:
  assumes "planned pl input plan" "\<not> cancel_observed input"
    "\<forall>s \<in> set (pn_stagePatches plan). st_state s = S_succeeded \<or> st_state s = S_cancelled"
    "\<exists>s \<in> set (pn_stagePatches plan). st_state s = S_succeeded"
  shows "map_option te_outcome (pn_terminal plan) = Some SO_succeeded"
  using assms
proof (elim planned_result)
  fix c assume r: "tick_result input c" and p: "pn_stagePatches plan = patches c"
    and t: "computeTerminal c = Inr (pn_terminal plan)"
  have "set (patches c) = set (map snd (cx_working c))" by (simp add: patches_def)
  then have same: "(\<forall>s \<in> set (patches c). P s) = (\<forall>s \<in> set (map snd (cx_working c)). P s)"
    "(\<exists>s \<in> set (patches c). P s) = (\<exists>s \<in> set (map snd (cx_working c)). P s)" for P by (simp_all only:)
  note stages = assms(3,4) [unfolded p same]
  have "\<forall>s \<in> set (map snd (cx_working c)). isTerminalStageState (st_state s)" using stages(1) by fastforce
  then have "map_option te_outcome (pn_terminal plan) =
      Some (run_outcome (si_graph input) (cancel_observed input) (map snd (cx_working c)))"
    using computeTerminal_outcome [OF t] r unfolding tick_result_def by simp
  moreover have "run_outcome (si_graph input) False (map snd (cx_working c)) = SO_succeeded"
  proof -
    have "\<not> (\<exists>s \<in> set (map snd (cx_working c)). st_state s = S_blocked)"
      "\<not> (\<exists>s \<in> set (map snd (cx_working c)). required_failed (si_graph input) s)"
      "\<not> (\<forall>s \<in> set (map snd (cx_working c)). st_state s = S_cancelled)"
      using stages unfolding required_failed_def by force+
    then show ?thesis unfolding run_outcome_def by (simp only: if_False simp_thms)
  qed
  ultimately show ?thesis using assms(2) by simp
qed

theorem deadline_can_end_succeeded_witness:
  "\<exists>plan. planned example_platform example_deadline plan \<and>
     map (\<lambda>s. (st_stageId s, st_state s, st_lastTransitionReason s)) (pn_stagePatches plan) =
       [(''a'', S_succeeded, None), (''b'', S_cancelled, Some R_deadline_exceeded)] \<and>
     map_option te_outcome (pn_terminal plan) = Some SO_succeeded"
proof -
  have "case tickScheduler example_platform example_deadline of Inl _ \<Rightarrow> False | Inr plan \<Rightarrow>
     map (\<lambda>s. (st_stageId s, st_state s, st_lastTransitionReason s)) (pn_stagePatches plan) =
       [(''a'', S_succeeded, None), (''b'', S_cancelled, Some R_deadline_exceeded)]"
    by code_simp
  then obtain plan where plan: "tickScheduler example_platform example_deadline = Inr plan"
    "map (\<lambda>s. (st_stageId s, st_state s, st_lastTransitionReason s)) (pn_stagePatches plan) =
       [(''a'', S_succeeded, None), (''b'', S_cancelled, Some R_deadline_exceeded)]" by (auto split: sum.splits)
  then have p: "planned example_platform example_deadline plan" by (simp add: planned_def)
  have "st_state ` set (pn_stagePatches plan) = {S_succeeded, S_cancelled}"
    using arg_cong [OF plan(2), of "\<lambda>xs. (\<lambda>(_, state, _). state) ` set xs"] by (simp add: image_image)
  then have states: "\<forall>x \<in> st_state ` set (pn_stagePatches plan). x = S_succeeded \<or> x = S_cancelled"
    "\<exists>x \<in> st_state ` set (pn_stagePatches plan). x = S_succeeded" by (simp_all only:) simp_all
  moreover have "\<not> cancel_observed example_deadline"
    by (simp add: cancel_observed_def example_deadline_def example_settled_def example_run_def)
  ultimately have "map_option te_outcome (pn_terminal plan) = Some SO_succeeded"
    unfolding ball_simps bex_simps by (intro deadline_can_end_succeeded [OF p])
  with p plan(2) show ?thesis by (intro exI [of _ plan] conjI)
qed

end
