(* ===== verification/Scheduler_Rerun.thy ===== *)
theory Scheduler_Rerun
  imports Scheduler_Plan
begin

text \<open>
  Two properties that reach across ticks: what a manual rerun does to a stage and everything
  downstream of it, and that the recovery state a tick writes is the recovery state the next one reads.
\<close>

section \<open>Manual reruns\<close>

definition rerunnable :: "stage_snapshot \<Rightarrow> bool" where
  "rerunnable s \<longleftrightarrow> isTerminalStageState (st_state s) \<or> st_state s = S_pending"

definition rerun_of :: "string \<Rightarrow> stage_snapshot \<Rightarrow> stage_snapshot" where
  "rerun_of now s = (if rerunnable s
     then s\<lparr>st_generation := st_generation s + 1, st_attemptOrdinal := 0, st_currentAttemptId := None,
       st_blockReason := None, st_selected := True, st_lastTransitionReason := Some R_manual_rerun,
       st_updatedAt := now, st_state := S_pending\<rparr>
     else s)"

lemma rerun_stage_working:
  assumes "keyed c" "rerun_stage k c = Inr c'"
  shows "map_of (cx_working c') = (map_of (cx_working c))(k := map_option (rerun_of (si_now (cx_input c))) (map_of (cx_working c) k))"
    "cx_input c' = cx_input c"
proof -
  from assms(2) obtain s where s: "map_of (cx_working c) k = Some s" by (auto simp: rerun_stage_def elim!: rbind_InrE)
  have id: "st_stageId s = k" by (rule keyedD [OF assms(1) s])
  show "map_of (cx_working c') = (map_of (cx_working c))(k := map_option (rerun_of (si_now (cx_input c))) (map_of (cx_working c) k))"
  proof (cases "rerunnable s")
    case True
    with assms(2) s id show ?thesis
      by (auto simp: rerun_stage_def rerun_of_def rerunnable_def Let_def elim!: rbind_InrE split: if_splits)
  next
    case False
    with assms(2) s show ?thesis
      by (auto simp: rerun_stage_def rerun_of_def rerunnable_def Let_def elim!: rbind_InrE split: if_splits)
  qed
  show "cx_input c' = cx_input c"
    using rerun_stage_evolves [OF assms] by (simp add: evolves_def same_static_def)
qed

lemma rerun_fold_working:
  "keyed c \<Longrightarrow> distinct ks \<Longrightarrow> rfold rerun_stage ks c = Inr c' \<Longrightarrow>
   map_of (cx_working c') k = (if k \<in> set ks
     then map_option (rerun_of (si_now (cx_input c))) (map_of (cx_working c) k) else map_of (cx_working c) k)"
proof (induction ks arbitrary: c)
  case (Cons x ks)
  then obtain c1 where c1: "rerun_stage x c = Inr c1" and rest: "rfold rerun_stage ks c1 = Inr c'"
    by (auto elim!: rbind_InrE)
  note w = rerun_stage_working [OF Cons.prems(1) c1]
  have "keyed c1" by (rule keyed_evolves [OF Cons.prems(1) rerun_stage_evolves [OF Cons.prems(1) c1]])
  with Cons rest have "map_of (cx_working c') k = (if k \<in> set ks
     then map_option (rerun_of (si_now (cx_input c1))) (map_of (cx_working c1) k) else map_of (cx_working c1) k)" by simp
  with w Cons.prems(2) show ?case by auto
qed simp

lemma rerun_targets_reachable:
  assumes "buildDescendants g = Inr (cx_descendants c)" "\<forall>e \<in> set (gr_edges g). ed_from e \<in> stage_ids g"
    "acyclic (edge_rel g)" "k \<in> stage_ids g"
  shows "distinct (rerun_targets c k)" "set (rerun_targets c k) = (edge_rel g)\<^sup>* `` {k}"
proof -
  obtain xs where xs: "map_of (cx_descendants c) k = Some xs" "distinct xs" "set xs = (edge_rel g)\<^sup>+ `` {k}"
    using buildDescendants_reachable [OF assms(2)] assms(1,4) by (metis sum.inject(2))
  have "k \<notin> set xs" using xs(3) assms(3) by (auto simp: acyclic_def)
  with xs show "distinct (rerun_targets c k)" by (simp only: rerun_targets_def or_default.simps distinct_sort distinct.simps) simp
  have "insert k ((edge_rel g)\<^sup>+ `` {k}) = (edge_rel g)\<^sup>* `` {k}" by (auto simp: rtrancl_eq_or_trancl)
  with xs show "set (rerun_targets c k) = (edge_rel g)\<^sup>* `` {k}" by (simp only: rerun_targets_def or_default.simps set_sort list.set)
qed

section \<open>Recovery state\<close>

definition recovery_keyed :: "tick_ctx \<Rightarrow> bool" where
  "recovery_keyed c \<longleftrightarrow> distinct (map fst (cx_recoveryByKey c)) \<and>
     (\<forall>(key, kc) \<in> set (cx_recoveryByKey c). key = recoveryKey (key_stage key) (kc_generation kc))"

lemma key_stage_recoveryKey [simp]: "key_stage (recoveryKey s g) = s"
proof -
  have "dropWhile (\<lambda>c. c \<noteq> CHR '':'') (rev (show_nat g) @ CHR '':'' # rev s) = CHR '':'' # rev s"
    using show_nat_no_colon [of g] by (subst dropWhile_append2) auto
  then show ?thesis by (simp add: key_stage_def recoveryKey_def)
qed

lemma recovery_keyed_create: "createTickContext input v2 = Inr c \<Longrightarrow> recovery_keyed c"
proof (erule createTickContext_Inr)
  let ?kvs = "map (\<lambda>e. (recoveryKey (rs_stageId e) (rs_generation e), restore_counters e)) (or_default (si_recoveryState input) [])"
  assume r: "cx_recoveryByKey c = js_map_of ?kvs"
  have "key = recoveryKey (key_stage key) (kc_generation kc)" if "(key, kc) \<in> set (js_map_of ?kvs)" for key kc
  proof -
    have "map_of (js_map_of ?kvs) key = Some kc" using that distinct_js_map_of by (rule map_of_is_SomeI [rotated])
    then have "(key, kc) \<in> set ?kvs" by (auto simp: get_js_map_of dest: map_of_SomeD)
    then show ?thesis by (auto simp: restore_counters_def)
  qed
  then show "recovery_keyed c" by (auto simp: recovery_keyed_def r distinct_js_map_of)
qed

lemma recovery_keyed_set: "recovery_keyed c \<Longrightarrow> recovery_keyed (setRecoveryCounters c s k)"
proof -
  assume r: "recovery_keyed c"
  let ?key = "recoveryKey (st_stageId s) (st_generation s)" and ?v = "\<lparr>kc_generation = st_generation s, kc_counters = k\<rparr>"
  have d: "distinct (map fst (AList.update ?key ?v (cx_recoveryByKey c)))"
    using r by (auto simp: recovery_keyed_def intro: distinct_update)
  have "key = recoveryKey (key_stage key) (kc_generation kc)"
    if "(key, kc) \<in> set (AList.update ?key ?v (cx_recoveryByKey c))" for key kc
  proof -
    have "map_of (AList.update ?key ?v (cx_recoveryByKey c)) key = Some kc" using d that by (rule map_of_is_SomeI)
    then have "key = ?key \<and> kc = ?v \<or> (key, kc) \<in> set (cx_recoveryByKey c)"
      by (auto simp: jm.get_put dest: map_of_SomeD split: if_splits)
    with r show ?thesis by (auto simp: recovery_keyed_def)
  qed
  with d show ?thesis by (auto simp: recovery_keyed_def setRecoveryCounters_def)
qed

lemma restore_freeze: "restore_counters (freeze_counters key kc) = kc"
  by (cases "rc_pendingDirective (kc_counters kc)") (simp_all add: restore_counters_def freeze_counters_def Let_def)

text \<open>Every step of a tick keeps the counters under their own keys.\<close>

definition keeps :: "tick_ctx \<Rightarrow> tick_ctx \<Rightarrow> bool" where
  "keeps c c' \<longleftrightarrow> (recovery_keyed c \<longrightarrow> recovery_keyed c')"

lemma keeps_refl [simp]: "keeps c c" and keeps_trans: "keeps a b \<Longrightarrow> keeps b c \<Longrightarrow> keeps a c"
  by (simp_all add: keeps_def)

lemma keeps_quiet: "cx_recoveryByKey c' = cx_recoveryByKey c \<Longrightarrow> keeps c c'"
  by (simp add: keeps_def recovery_keyed_def)

lemma keeps_set: "keeps c (setRecoveryCounters (c\<lparr>cx_recoveryDecisions := ds\<rparr>) s k)" "keeps c (setRecoveryCounters c s k)"
  using recovery_keyed_set [of "c\<lparr>cx_recoveryDecisions := ds\<rparr>" s k] recovery_keyed_set [of c s k]
  by (simp_all add: keeps_def recovery_keyed_def [of "c\<lparr>cx_recoveryDecisions := ds\<rparr>"] recovery_keyed_def [of c])

lemma applyTransition_keeps: "applyTransition c s to r opts = Inr c' \<Longrightarrow> keeps c c'"
  by (erule applyTransition_Inr) (rule keeps_quiet)

lemma review_keeps: "applyTransition (setRecoveryCounters (c\<lparr>cx_recoveryDecisions := ds\<rparr>) s k) s to r opts = Inr c' \<Longrightarrow> keeps c c'"
  by (blast intro: keeps_trans keeps_set applyTransition_keeps)

lemma counters_keep: "getRecoveryCounters c s = (k, c') \<Longrightarrow> keeps c c'"
  by (auto simp: getRecoveryCounters_def keeps_set split: option.splits)

lemma counted_review_keeps:
  "getRecoveryCounters c s = (counters, c1) \<Longrightarrow>
   applyTransition (setRecoveryCounters (c1\<lparr>cx_recoveryDecisions := ds\<rparr>) s k) s to r opts = Inr c' \<Longrightarrow> keeps c c'"
  by (blast intro: keeps_trans counters_keep review_keeps)

lemma applyRecoveryDecision_keeps: "applyRecoveryDecision c s ob result = Inr c' \<Longrightarrow> keeps c c'"
  by (cases result) (auto simp: applyRecoveryDecision_def Let_def intro: review_keeps split: if_splits)

lemma processAttemptFailed_keeps:
  assumes "processAttemptFailed pl c s ob = Inr c'"
  shows "keeps c c'"
  using assms
proof (cases rule: processAttemptFailed_cases)
  case (legacy to r opts)
  then show ?thesis by (blast intro: applyTransition_keeps)
next
  case (recovery counters c1 result)
  then show ?thesis by (blast intro: keeps_trans counters_keep applyRecoveryDecision_keeps)
qed simp

lemma reviews_keep:
  "processRecoveryApproved c s ob = Inr c' \<Longrightarrow> keeps c c'"
  "processRecoveryRejected c s ob = Inr c' \<Longrightarrow> keeps c c'"
proof -
  obtain counters c1 where g: "getRecoveryCounters c s = (counters, c1)" by (cases "getRecoveryCounters c s")
  show "processRecoveryApproved c s ob = Inr c' \<Longrightarrow> keeps c c'"
    using counters_keep [OF g] unfolding processRecoveryApproved_def g Let_def
    by (auto elim!: rbind_InrE split: if_splits option.splits intro: counted_review_keeps [OF g])
  show "processRecoveryRejected c s ob = Inr c' \<Longrightarrow> keeps c c'"
    using counters_keep [OF g] unfolding processRecoveryRejected_def g Let_def
    by (auto elim!: rbind_InrE split: if_splits option.splits intro: counted_review_keeps [OF g])
qed

lemma rerun_stage_keeps:
  assumes "rerun_stage k c = Inr c'"
  shows "keeps c c'"
proof -
  have "keeps c d" if "cx_recoveryByKey d = cx_recoveryByKey (setRecoveryCounters (put_stage c s) s no_counters)" for d s
    by (rule keeps_trans [OF keeps_quiet keeps_trans [OF keeps_set(2) keeps_quiet [OF that]]]) simp
  with assms show ?thesis unfolding rerun_stage_def Let_def by (auto elim!: rbind_InrE split: if_splits)
qed

interpretation keep_rerun: guarded_step "\<lambda>c. True" rerun_stage keeps
  by unfold_locales (auto intro: rerun_stage_keeps keeps_trans)

lemma stage_observation_keeps:
  assumes "stage_observation pl c s ob = Inr c'"
  shows "keeps c c'"
  using assms
  by (cases "ob_kind ob")
    (auto simp: stage_observation_def Let_def processAttemptFailed_keeps reviews_keep
      intro: applyTransition_keeps split: if_splits)

lemma processObservation_keeps:
  assumes "processObservation pl ob c = Inr c'"
  shows "keeps c c'"
proof -
  let ?c = "c\<lparr>cx_consumedObservationIds := cx_consumedObservationIds c @ [ob_observationId ob]\<rparr>"
  have start: "keeps c ?c" by (rule keeps_quiet) simp
  have stage: "keeps ?c d" if "observe_stage pl ob ?c = Inr d" for d
    using that by (auto simp: observe_stage_def intro: stage_observation_keeps split: option.splits)
  have rerun: "keeps ?c d" if "processManualRerun ?c k = Inr d" for k d
    using that by (auto simp: processManualRerun_def intro: keep_rerun.fold_rel split: if_splits option.splits)
  have "keeps ?c c'"
    using assms stage rerun
    by (cases "ob_kind ob")
      (auto simp: processObservation_def Let_def record_evaluator_def intro: keeps_quiet split: option.splits)
  with start show ?thesis by (rule keeps_trans)
qed

lemma queue_stage_keeps:
  assumes "queue_stage c s = Inr c'"
  shows "keeps c c'"
proof -
  obtain directive c1 where d: "claim_directive c (next_attempt s) = (directive, c1)" by force
  then have "keeps c c1"
    by (auto simp: claim_directive_def Let_def split: prod.splits if_splits intro: counters_keep keeps_trans [OF counters_keep keeps_set(2)])
  moreover from assms obtain d where "dispatch_stage c1 (next_attempt s) directive d = Inr c'"
    by (auto simp: queue_stage_def Let_def d elim!: rbind_InrE)
  then have "keeps c1 c'"
    unfolding dispatch_stage_def Let_def by (rule keeps_trans [OF keeps_quiet applyTransition_keeps, rotated]) simp
  ultimately show ?thesis by (rule keeps_trans)
qed

lemma queue_loop_keeps: "queue_loop m ks n c = Inr c' \<Longrightarrow> keeps c c'"
proof (induction ks arbitrary: n c)
  case (Cons k ks)
  have "keeps c c'" if "queue_stage c s = Inr c1" "queue_loop m ks (Suc n) c1 = Inr c'" for s c1
    by (rule keeps_trans [OF queue_stage_keeps [OF that(1)] Cons.IH [OF that(2)]])
  with Cons show ?case by (auto elim!: rbind_InrE split: if_splits)
qed simp

lemma resolve_edges_keep: "resolve_edges c es = Inr (rs, c') \<Longrightarrow> keeps c c'"
proof (induction es arbitrary: c rs)
  case (Cons e es)
  then obtain r c1 rs1 where c1: "resolveIncomingEdge c e = Inr (r, c1)" and rest: "resolve_edges c1 es = Inr (rs1, c')"
    by (auto elim!: rbind_InrE)
  from c1 have "keeps c c1"
    by (rule resolveIncomingEdge_request)
      (auto simp: request_evaluator_def Let_def intro: keeps_quiet elim!: rbind_InrE split: if_splits)
  with Cons.IH [OF rest] show ?case by (blast intro: keeps_trans)
qed simp

lemma maybeReleaseStage_keeps:
  assumes "maybeReleaseStage k c = Inr c'"
  shows "keeps c c'"
  using assms
proof (cases rule: maybeReleaseStage_cases)
  case (first s)
  then show ?thesis by (blast intro: applyTransition_keeps)
next
  case (edges s rs c1)
  from edges(7) have "keeps c1 c'"
    by (cases rule: settle_release_cases) (auto intro: applyTransition_keeps)
  with resolve_edges_keep [OF edges(6)] show ?thesis by (rule keeps_trans)
qed simp

lemma cancel_stage_keeps:
  assumes "cancel_stage k c = Inr c'"
  shows "keeps c c'"
proof -
  from assms obtain s c1 s1 r where "cancelInactiveStage c s r = Inr c1" and c': "c' = requestCancelForActive c1 s1"
    unfolding cancel_stage_def by (auto elim!: rbind_InrE)
  then have "keeps c c1" by (auto simp: cancelInactiveStage_def intro: applyTransition_keeps split: if_splits)
  moreover have "keeps c1 (requestCancelForActive c1 s1)"
    by (rule keeps_quiet) (simp add: requestCancelForActive_def Let_def split: option.splits)
  ultimately show ?thesis unfolding c' by (rule keeps_trans)
qed

lemma rearm_stage_keeps: "rearm_stage k c = Inr c' \<Longrightarrow> keeps c c'"
  by (erule rearm_stage_cases) (auto intro: applyTransition_keeps)

interpretation keep_observe: guarded_step "\<lambda>c. True" "processObservation pl" keeps for pl
  by unfold_locales (auto intro: processObservation_keeps keeps_trans)

interpretation keep_release: guarded_step "\<lambda>c. True" maybeReleaseStage keeps
  by unfold_locales (auto intro: maybeReleaseStage_keeps keeps_trans)

interpretation keep_cancel: guarded_step "\<lambda>c. True" cancel_stage keeps
  by unfold_locales (auto intro: cancel_stage_keeps keeps_trans)

interpretation keep_rearm: guarded_step "\<lambda>c. True" rearm_stage keeps
  by unfold_locales (auto intro: rearm_stage_keeps keeps_trans)

lemma release_loop_keeps: "release_loop n c = Inr c' \<Longrightarrow> keeps c c'"
proof (induction n arbitrary: c)
  case (Suc n)
  then obtain c1 where c1: "rfold maybeReleaseStage (sorted_ids c) c = Inr c1"
    and rest: "release_loop n c1 = Inr c' \<or> c1 = c'"
    by (auto elim!: rbind_InrE split: if_splits)
  from keep_release.fold_rel [OF TrueI c1] rest Suc.IH show ?case by (auto intro: keeps_trans)
qed simp

lemma phases_keep:
  "cancel_all c = Inr c' \<Longrightarrow> keeps c c'"
  "rearmRetries c ks = Inr c' \<Longrightarrow> keeps c c'"
  "queueReadyStages c = Inr c' \<Longrightarrow> keeps c c'"
  by (auto simp: cancel_all_def rearmRetries_def queueReadyStages_def Let_def
      intro: keep_cancel.fold_rel keep_rearm.fold_rel queue_loop_keeps split: if_splits)

lemma tick_body_keeps:
  assumes "tick_body pl c = Inr c'"
  shows "keeps c c'"
proof -
  from assms obtain c1 c2 c3 c4 c5 where "rfold (processObservation pl) (sorted_observations c) c = Inr c1"
    "cancel_all c1 = Inr c2" "rearmRetries c2 (retrying_ids c) = Inr c3" "release_loop (release_fuel c3) c3 = Inr c4"
    "queueReadyStages c4 = Inr c5" "cancel_all c5 = Inr c'"
    unfolding tick_body_def by (auto elim!: rbind_InrE)
  then have "keeps c c1" "keeps c1 c2" "keeps c2 c3" "keeps c3 c4" "keeps c4 c5" "keeps c5 c'"
    by (simp_all add: keep_observe.fold_rel phases_keep release_loop_keeps)
  then show ?thesis by (meson keeps_trans)
qed

lemma tick_recovery_keyed:
  "createTickContext input v2 = Inr c0 \<Longrightarrow> tick_body pl c0 = Inr c \<Longrightarrow> recovery_keyed c"
  using recovery_keyed_create tick_body_keeps by (auto simp: keeps_def)

lemma runTick_recovery:
  assumes "tick_body pl c0 = Inr c" "runTick pl c0 = Inr plan" "pn_recoveryState plan = Some frozen"
  shows "frozen = freezeRecoveryState c"
proof -
  from assms(1,2) obtain t c' where "record_terminal c t = Inr c'" "plan = build_plan c' t"
    unfolding runTick_def by (auto elim!: rbind_InrE)
  with assms(3) record_terminal_frame [of c t c'] show ?thesis
    by (auto simp: build_plan_def Let_def freezeRecoveryState_def split: if_splits)
qed

lemma freeze_restored:
  assumes "recovery_keyed c" "createTickContext (input\<lparr>si_recoveryState := Some (freezeRecoveryState c)\<rparr>) v2 = Inr c'"
  shows "map_of (cx_recoveryByKey c') = map_of (cx_recoveryByKey c)"
proof -
  let ?f = "\<lambda>e. (recoveryKey (rs_stageId e) (rs_generation e), restore_counters e)"
  have entry: "?f (freeze_counters key kc) = (key, kc)" if "(key, kc) \<in> set (cx_recoveryByKey c)" for key kc
  proof -
    have "recoveryKey (key_stage key) (kc_generation kc) = key" using assms(1) that by (fastforce simp: recovery_keyed_def)
    moreover have "rs_stageId (freeze_counters key kc) = key_stage key" "rs_generation (freeze_counters key kc) = kc_generation kc"
      by (simp_all add: freeze_counters_def Let_def)
    ultimately show ?thesis by (simp add: restore_freeze)
  qed
  have c': "cx_recoveryByKey c' = js_map_of (map ?f (freezeRecoveryState c))"
    by (rule createTickContext_Inr [OF assms(2)]) simp
  have "mset (map ?f (freezeRecoveryState c)) = mset (map (\<lambda>(key, kc). ?f (freeze_counters key kc)) (cx_recoveryByKey c))"
    by (simp add: freezeRecoveryState_def comp_def case_prod_beta' multiset.map_comp)
  also have "map (\<lambda>(key, kc). ?f (freeze_counters key kc)) (cx_recoveryByKey c) = cx_recoveryByKey c"
    by (rule map_idI) (use entry in auto)
  finally have m: "mset (map ?f (freezeRecoveryState c)) = mset (cx_recoveryByKey c)" .
  have d: "distinct (map fst (cx_recoveryByKey c))" using assms(1) by (simp add: recovery_keyed_def)
  have "mset (map fst (map ?f (freezeRecoveryState c))) = mset (map fst (cx_recoveryByKey c))"
    using m by (metis mset_map)
  then have d': "distinct (map fst (map ?f (freezeRecoveryState c)))" using d mset_eq_imp_distinct_iff by blast
  have "map_of (map ?f (freezeRecoveryState c)) = map_of (cx_recoveryByKey c)"
    using map_of_inject_set [OF d' d] mset_eq_setD [OF m] by blast
  with c' d' show ?thesis by (simp add: js_map_of_distinct)
qed


section \<open>Properties\<close>

lemma example_settled_well_formed: "well_formed_input example_settled"
  using example_run_well_formed
  by (simp add: well_formed_input_def example_settled_def example_run_def example_graph_def example_stage_def stage_ids_def)

text \<open>
  C25: a manual rerun reaches exactly the stage and its descendants. In an acyclic graph each of them
  that is finished or still pending becomes a selected pending stage of the next generation with no
  attempt, each that is in flight is left as it is, and so is every other stage.
\<close>

theorem manual_rerun_effect:
  assumes "keyed c" "buildDescendants g = Inr (cx_descendants c)" "\<forall>e \<in> set (gr_edges g). ed_from e \<in> stage_ids g"
    "acyclic (edge_rel g)" "k \<in> stage_ids g" "map_of (cx_working c) k \<noteq> None" "processManualRerun c k = Inr c'"
  shows "map_of (cx_working c') x =
    (if (k, x) \<in> (edge_rel g)\<^sup>* then map_option (rerun_of (si_now (cx_input c))) (map_of (cx_working c) x)
     else map_of (cx_working c) x)"
proof -
  note t = rerun_targets_reachable [OF assms(2-5)]
  have "rfold rerun_stage (rerun_targets c k) c = Inr c'" using assms(6,7) by (auto simp: processManualRerun_def)
  from rerun_fold_working [OF assms(1) t(1) this, of x] show ?thesis by (simp add: t(2))
qed

theorem manual_rerun_effect_witness:
  "\<exists>c c'. createTickContext example_settled False = Inr c \<and> processManualRerun c ''a'' = Inr c' \<and>
     map_of (cx_working c') ''b'' = map_option (rerun_of (si_now (cx_input c))) (map_of (cx_working c) ''b'')"
proof -
  obtain c where c: "createTickContext example_settled False = Inr c" "wf_ctx c"
    using example_settled_well_formed by (rule createTickContext_wf)
  have k: "keyed c" and w: "cx_working c = initial_working example_settled"
    and d: "buildDescendants (si_graph example_settled) = Inr (cx_descendants c)"
    by (rule createTickContext_Inr [OF c(1)]; assumption)+
  have g: "si_graph example_settled = example_graph" by (simp add: example_settled_def example_run_def)
  have rel: "edge_rel example_graph = {(''a'', ''b'')}" by (simp add: edge_rel_def example_graph_def)
  have ids: "''a'' \<in> stage_ids example_graph" "\<forall>e \<in> set (gr_edges example_graph). ed_from e \<in> stage_ids example_graph"
    by (simp_all add: example_graph_def example_stage_def stage_ids_def)
  have acyc: "acyclic (edge_rel example_graph)" by (simp add: rel acyclic_insert) (simp add: acyclic_def)
  have a: "map_of (cx_working c) ''a'' \<noteq> None"
    using initial_working_keyed(2) [of example_settled] ids(1) by (auto simp: w g)
  obtain c' where c': "processManualRerun c ''a'' = Inr c'" using processManualRerun_defined [OF c(2)] by blast
  have "(''a'', ''b'') \<in> (edge_rel example_graph)\<^sup>*" by (auto simp: rel)
  with manual_rerun_effect [OF k d [unfolded g] ids(2) acyc ids(1) a c', of "''b''"] c(1) c' show ?thesis by auto
qed

text \<open>
  C26: recovery state survives the plan. The recovery state that a tick publishes in its plan, given to
  the next tick, yields the counters with which the first tick ended, for every stage and generation:
  a tick files every counter under the key that the next tick computes for it.
\<close>

theorem recovery_state_round_trip:
  assumes "createTickContext input v2 = Inr c0" "tick_body pl c0 = Inr c" "runTick pl c0 = Inr plan"
    "pn_recoveryState plan = Some frozen" "createTickContext (next\<lparr>si_recoveryState := Some frozen\<rparr>) v2' = Inr c'"
  shows "map_of (cx_recoveryByKey c') = map_of (cx_recoveryByKey c)"
  using freeze_restored [OF tick_recovery_keyed [OF assms(1,2)]] assms(5)
  unfolding runTick_recovery [OF assms(2-4)] .

theorem recovery_state_round_trip_witness:
  "\<exists>c0 c plan frozen c'. createTickContext example_run True = Inr c0 \<and> tick_body example_platform c0 = Inr c \<and>
     runTick example_platform c0 = Inr plan \<and> pn_recoveryState plan = Some frozen \<and> frozen \<noteq> [] \<and>
     createTickContext (example_settled\<lparr>si_recoveryState := Some frozen\<rparr>) True = Inr c' \<and>
     map_of (cx_recoveryByKey c') = map_of (cx_recoveryByKey c)"
proof -
  have "case createTickContext example_run True of Inl _ \<Rightarrow> False | Inr c0 \<Rightarrow>
      (case runTick example_platform c0 of Inl _ \<Rightarrow> False | Inr plan \<Rightarrow>
        (case pn_recoveryState plan of None \<Rightarrow> False | Some frozen \<Rightarrow> frozen \<noteq> []))"
    by code_simp
  then obtain c0 plan frozen where c0: "createTickContext example_run True = Inr c0"
    and plan: "runTick example_platform c0 = Inr plan" "pn_recoveryState plan = Some frozen" and ne: "frozen \<noteq> []"
    by (auto split: sum.splits option.splits)
  obtain c where c: "tick_body example_platform c0 = Inr c" using plan(1) by (auto simp: runTick_def elim!: rbind_InrE)
  have "well_formed_input (example_settled\<lparr>si_recoveryState := Some frozen\<rparr>)"
    using example_settled_well_formed by (simp add: well_formed_input_def)
  then obtain c' where "createTickContext (example_settled\<lparr>si_recoveryState := Some frozen\<rparr>) True = Inr c'"
    by (rule createTickContext_wf)
  with recovery_state_round_trip [OF c0 c plan this] c0 c plan ne show ?thesis by blast
qed

end
