(* ===== verification/Task_Dag.thy ===== *)
theory Task_Dag
  imports Json "HOL-Library.Product_Lexorder"
begin

text \<open>
  Task graphs and their validation (\<open>packages/pipeline/src/task-graph/validate.ts\<close>, and the
  schemas of \<open>packages/contracts/src/task-graph\<close> it reads): Kahn's topological order with a sorted
  ready list, ancestor sets along that order, conflicting writers, and the checks of a planning
  state. The properties of a task that only the revision rules compare are kept as JSON.
\<close>

section \<open>Tasks and graphs\<close>

record exec_task =
  et_taskId :: string
  et_revision :: nat
  et_revisionSha256 :: string
  et_predecessorRevisionSha256 :: "string option"
  et_readSet :: "string list"
  et_writeSet :: "string list"
  et_excludedRepositories :: "json list"
  et_dependencies :: "string list"
  et_artifacts :: "json list"
  et_verification :: "json list"
  et_createdAt :: string
  et_content :: "(string \<times> json) list"

record dag_node =
  dn_task :: exec_task
  dn_pipelineId :: "string option"
  dn_profileId :: string
  dn_accountId :: "string option"

record task_dag =
  dag_graphId :: string
  dag_graphRevision :: nat
  dag_nodes :: "dag_node list"
  dag_createdAt :: string

abbreviation node_id :: "dag_node \<Rightarrow> string" where
  "node_id node \<equiv> et_taskId (dn_task node)"

abbreviation node_deps :: "dag_node \<Rightarrow> string list" where
  "node_deps node \<equiv> et_dependencies (dn_task node)"

datatype task_outcome = TO_not_started | TO_active | TO_succeeded | TO_failed | TO_cancelled | TO_blocked

fun outcome_name :: "task_outcome \<Rightarrow> string" where
  "outcome_name TO_not_started = ''not_started''"
| "outcome_name TO_active = ''active''"
| "outcome_name TO_succeeded = ''succeeded''"
| "outcome_name TO_failed = ''failed''"
| "outcome_name TO_cancelled = ''cancelled''"
| "outcome_name TO_blocked = ''blocked''"

datatype gate = G_pending | G_passed | G_failed
datatype integration_gate = IG_pending | IG_passed | IG_reconciliation_required

record planning_state =
  ps_taskId :: string
  ps_outcome :: task_outcome
  ps_completionContract :: gate
  ps_integration :: integration_gate
  ps_combinedVerification :: gate

record dag_diagnostic =
  dg_code :: string
  dg_message :: string
  dg_taskIds :: "string list"

record dag_validation =
  dv_graphId :: string
  dv_graphRevision :: nat
  dv_valid :: bool
  dv_topologicalOrder :: "string list"
  dv_diagnostics :: "dag_diagnostic list"

section \<open>Diagnostics\<close>

definition quoted :: "string \<Rightarrow> string" where
  "quoted s = CHR 0x22 # s @ [CHR 0x22]"

definition diagnostic :: "string \<Rightarrow> string \<Rightarrow> string list \<Rightarrow> dag_diagnostic" where
  "diagnostic code message taskIds = \<lparr>dg_code = code, dg_message = message, dg_taskIds = sort taskIds\<rparr>"

section \<open>Topological order\<close>

definition insertSorted :: "string list \<Rightarrow> string \<Rightarrow> string list" where
  "insertSorted vs v = takeWhile (\<lambda>candidate. \<not> v < candidate) vs @ v # dropWhile (\<lambda>candidate. \<not> v < candidate) vs"

type_synonym node_map = "(string, dag_node) jsmap"

text \<open>The edges that count: to a known task, and not from a task to itself.\<close>

definition counted_deps :: "node_map \<Rightarrow> dag_node \<Rightarrow> string list" where
  "counted_deps nodes node =
     filter (\<lambda>p. map_of nodes p \<noteq> None \<and> p \<noteq> node_id node) (node_deps node)"

definition count_edge :: "dag_node \<Rightarrow> string \<Rightarrow> (string, int) jsmap \<times> (string, string list) jsmap \<Rightarrow>
    (string, int) jsmap \<times> (string, string list) jsmap" where
  "count_edge node p = (\<lambda>(indegree, successors).
     (AList.update (node_id node) ((case map_of indegree (node_id node) of None \<Rightarrow> 0 | Some n \<Rightarrow> n) + 1) indegree,
      case map_of successors p of None \<Rightarrow> successors
      | Some ss \<Rightarrow> AList.update p (ss @ [node_id node]) successors))"

definition count_node :: "node_map \<Rightarrow> dag_node \<Rightarrow> (string, int) jsmap \<times> (string, string list) jsmap \<Rightarrow>
    (string, int) jsmap \<times> (string, string list) jsmap" where
  "count_node nodes node s =
     (if map_of nodes (node_id node) = None then s
      else fold (count_edge node) (counted_deps nodes node) s)"

definition dag_counts :: "task_dag \<Rightarrow> node_map \<Rightarrow> (string, int) jsmap \<times> (string, string list) jsmap" where
  "dag_counts dag nodes =
     (let (indegree, successors) = fold (count_node nodes) (dag_nodes dag)
            (map (\<lambda>(k, _). (k, 0)) nodes, map (\<lambda>(k, _). (k, [])) nodes)
      in (indegree, map (\<lambda>(k, ss). (k, sort ss)) successors))"

definition relax :: "string \<Rightarrow> (string, int) jsmap \<times> string list \<Rightarrow> (string, int) jsmap \<times> string list" where
  "relax successor = (\<lambda>(indegree, ready).
     (let n = (case map_of indegree successor of None \<Rightarrow> 0 | Some n \<Rightarrow> n) - 1
      in (AList.update successor n indegree, if n = 0 then insertSorted ready successor else ready)))"

definition open_count :: "(string, int) jsmap \<Rightarrow> nat" where
  "open_count indegree = length (filter (\<lambda>(_, n). 0 < n) indegree)"

lemma open_count_update:
  "open_count (AList.update k (case map_of m k of None \<Rightarrow> - 1 | Some n \<Rightarrow> n - 1) m) +
     (if map_of m k = Some 1 then 1 else 0) = open_count m"
  by (induction m) (auto simp: open_count_def)

lemma length_insertSorted [simp]: "length (insertSorted vs v) = Suc (length vs)"
proof -
  have "length (takeWhile P vs) + length (dropWhile P vs) = length vs" for P
    by (metis length_append takeWhile_dropWhile_id)
  then show ?thesis by (simp add: insertSorted_def)
qed

lemma relax_measure:
  "length (snd (relax s (m, ready))) + open_count (fst (relax s (m, ready))) = length ready + open_count m"
proof -
  from open_count_update [of s m] show ?thesis
    by (cases "map_of m s") (auto simp: relax_def Let_def split: if_splits)
qed

lemma relax_all_measure:
  "length (snd (fold relax ss (m, ready))) + open_count (fst (fold relax ss (m, ready))) = length ready + open_count m"
proof (induction ss arbitrary: m ready)
  case (Cons s ss)
  then show ?case using relax_measure [of s m ready] by (cases "relax s (m, ready)") simp
qed simp

function kahn_loop :: "(string, string list) jsmap \<Rightarrow> string list \<Rightarrow> (string, int) jsmap \<Rightarrow> string list \<Rightarrow>
    string list \<times> (string, int) jsmap" where
  "kahn_loop successors [] indegree order = (order, indegree)"
| "kahn_loop successors (taskId # ready) indegree order =
     (let (indegree', ready') = fold relax
            (case map_of successors taskId of None \<Rightarrow> [] | Some ss \<Rightarrow> ss) (indegree, ready)
      in kahn_loop successors ready' indegree' (order @ [taskId]))"
  by pat_completeness auto
termination
proof (relation "measure (\<lambda>(_, ready, indegree, _). length ready + open_count indegree)")
  fix successors :: "(string, string list) jsmap" and taskId ready indegree x y and order :: "string list"
  fix indegree' ready'
  assume x: "x = fold relax (case map_of successors taskId of None \<Rightarrow> [] | Some ss \<Rightarrow> ss) (indegree, ready)"
    and y: "(indegree', ready') = x"
  have "length ready' + open_count indegree' = length ready + open_count indegree"
    using relax_all_measure [of "case map_of successors taskId of None \<Rightarrow> [] | Some ss \<Rightarrow> ss" indegree ready]
    by (simp add: x [symmetric] y [symmetric])
  then show "((successors, ready', indegree', order @ [taskId]), (successors, taskId # ready, indegree, order))
      \<in> measure (\<lambda>(_, ready, indegree, _). length ready + open_count indegree)"
    by simp
qed simp

definition buildTopologicalOrder :: "task_dag \<Rightarrow> node_map \<Rightarrow> string list \<times> string list" where
  "buildTopologicalOrder dag nodes =
     (let (indegree, successors) = dag_counts dag nodes;
          ready = sort (map fst (filter (\<lambda>(_, n). n = 0) indegree));
          (order, indegree') = kahn_loop successors ready indegree []
      in (order, sort (map fst (filter (\<lambda>(_, n). 0 < n) indegree'))))"

definition task_ancestors :: "node_map \<Rightarrow> string \<Rightarrow> (string, string list) jsmap \<Rightarrow> string list" where
  "task_ancestors nodes taskId ancestors =
     fold (\<lambda>p vs. fold js_add (case map_of ancestors p of None \<Rightarrow> [] | Some as \<Rightarrow> as) (js_add p vs))
       (case map_of nodes taskId of None \<Rightarrow> [] | Some node \<Rightarrow> node_deps node) []"

definition computeAncestors :: "string list \<Rightarrow> node_map \<Rightarrow> (string, string list) jsmap" where
  "computeAncestors order nodes =
     fold (\<lambda>taskId ancestors. AList.update taskId (task_ancestors nodes taskId ancestors) ancestors) order []"

section \<open>The checks\<close>

definition settled_state :: "planning_state \<Rightarrow> bool" where
  "settled_state s \<longleftrightarrow> ps_outcome s = TO_succeeded \<and> ps_completionContract s = G_passed \<and>
     ps_integration s = IG_passed \<and> ps_combinedVerification s = G_passed"

text \<open>A prerequisite of a started task that is not fully settled, and all of them for one node.\<close>

definition unsettled_prerequisite :: "node_map \<Rightarrow> (string, planning_state) jsmap \<Rightarrow> dag_node \<Rightarrow> planning_state \<Rightarrow>
    string \<Rightarrow> dag_diagnostic list" where
  "unsettled_prerequisite nodes byTask node state p =
     (if map_of nodes p = None then []
      else if (case map_of byTask p of None \<Rightarrow> False | Some predecessor \<Rightarrow> settled_state predecessor) then []
      else [diagnostic ''task-dag.invalid-terminal-dependency''
        (''Task '' @ quoted (node_id node) @ '' is '' @ outcome_name (ps_outcome state) @
         '' although prerequisite '' @ quoted p @ '' is not fully settled and verified.'')
        [p, node_id node]])"

definition terminal_dependencies :: "node_map \<Rightarrow> (string, planning_state) jsmap \<Rightarrow> dag_node \<Rightarrow> dag_diagnostic list" where
  "terminal_dependencies nodes byTask node =
     (case map_of byTask (node_id node) of
        None \<Rightarrow> []
      | Some state \<Rightarrow>
          if ps_outcome state \<noteq> TO_active \<and> ps_outcome state \<noteq> TO_succeeded then []
          else concat (map (unsettled_prerequisite nodes byTask node state) (node_deps node)))"

definition validateTerminalDependencies :: "task_dag \<Rightarrow> node_map \<Rightarrow> planning_state list \<Rightarrow> dag_diagnostic list" where
  "validateTerminalDependencies dag nodes states =
     (let byTask = js_map_of (map (\<lambda>s. (ps_taskId s, s)) states) in
      concat (map (terminal_dependencies nodes byTask) (dag_nodes dag)))"

text \<open>The nodes by id, first occurrence first, and a diagnostic for each repetition.\<close>

definition add_node :: "dag_node \<Rightarrow> node_map \<times> dag_diagnostic list \<Rightarrow> node_map \<times> dag_diagnostic list" where
  "add_node node = (\<lambda>(nodes, diagnostics).
     if map_of nodes (node_id node) \<noteq> None
     then (nodes, diagnostics @ [diagnostic ''task-dag.duplicate-node''
       (''Task '' @ quoted (node_id node) @ '' appears more than once.'') [node_id node]])
     else (nodes @ [(node_id node, node)], diagnostics))"

fun dependency_diagnostics :: "node_map \<Rightarrow> string \<Rightarrow> string list \<Rightarrow> string list \<Rightarrow> dag_diagnostic list" where
  "dependency_diagnostics nodes taskId seen [] = []"
| "dependency_diagnostics nodes taskId seen (p # ps) =
     (if p = taskId
      then [diagnostic ''task-dag.self-dependency'' (''Task '' @ quoted taskId @ '' depends on itself.'') [taskId]]
      else if map_of nodes p = None
      then [diagnostic ''task-dag.missing-node''
        (''Task '' @ quoted taskId @ '' depends on missing task '' @ quoted p @ ''.'') [p, taskId]]
      else []) @
     (if p \<in> set seen
      then [diagnostic ''task-dag.duplicate-dependency''
        (''Task '' @ quoted taskId @ '' repeats dependency '' @ quoted p @ ''.'') [p, taskId]]
      else []) @
     dependency_diagnostics nodes taskId (js_add p seen) ps"

definition add_writer :: "string \<Rightarrow> string \<Rightarrow> (string, string list) jsmap \<Rightarrow> (string, string list) jsmap" where
  "add_writer taskId repositoryId ws =
     AList.update repositoryId ((case map_of ws repositoryId of None \<Rightarrow> [] | Some ts \<Rightarrow> ts) @ [taskId]) ws"

definition dag_writers :: "node_map \<Rightarrow> (string, string list) jsmap" where
  "dag_writers nodes = fold (\<lambda>(_, node). fold (add_writer (node_id node)) (et_writeSet (dn_task node))) nodes []"

definition is_ancestor :: "(string, string list) jsmap \<Rightarrow> string \<Rightarrow> string \<Rightarrow> bool" where
  "is_ancestor ancestors a t = (case map_of ancestors t of None \<Rightarrow> False | Some as \<Rightarrow> a \<in> set as)"

fun unordered_writers :: "(string, string list) jsmap \<Rightarrow> string \<Rightarrow> string list \<Rightarrow> dag_diagnostic list" where
  "unordered_writers ancestors repositoryId [] = []"
| "unordered_writers ancestors repositoryId (first # rest) =
     concat (map (\<lambda>second.
       if is_ancestor ancestors second first \<or> is_ancestor ancestors first second then []
       else [diagnostic ''task-dag.conflicting-writes''
         (''Tasks '' @ quoted first @ '' and '' @ quoted second @ '' both write repository '' @
          quoted repositoryId @ '' without dependency ordering.'') [first, second]]) rest) @
     unordered_writers ancestors repositoryId rest"

definition writer_diagnostics :: "string list \<Rightarrow> node_map \<Rightarrow> dag_diagnostic list" where
  "writer_diagnostics order nodes =
     (if length order = length nodes
      then concat (map (\<lambda>(repositoryId, taskIds).
          unordered_writers (computeAncestors order nodes) repositoryId (sort taskIds))
        (sort_key fst (dag_writers nodes)))
      else [])"

fun state_diagnostics :: "node_map \<Rightarrow> string list \<Rightarrow> planning_state list \<Rightarrow> dag_diagnostic list" where
  "state_diagnostics nodes stateIds [] = []"
| "state_diagnostics nodes stateIds (state # states) =
     (if ps_taskId state \<in> set stateIds
      then [diagnostic ''task-dag.duplicate-task-state''
        (''Task '' @ quoted (ps_taskId state) @ '' has more than one planning-state observation.'') [ps_taskId state]]
      else []) @
     (if map_of nodes (ps_taskId state) = None
      then [diagnostic ''task-dag.unknown-task-state''
        (''Planning state refers to unknown task '' @ quoted (ps_taskId state) @ ''.'') [ps_taskId state]]
      else []) @
     state_diagnostics nodes (js_add (ps_taskId state) stateIds) states"

definition missing_states :: "node_map \<Rightarrow> planning_state list \<Rightarrow> dag_diagnostic list" where
  "missing_states nodes states =
     concat (map (\<lambda>(taskId, _). if taskId \<in> ps_taskId ` set states then []
       else [diagnostic ''task-dag.missing-task-state''
         (''Task '' @ quoted taskId @ '' has no planning-state observation.'') [taskId]]) nodes)"

definition dag_order_key :: "dag_diagnostic \<Rightarrow> string \<times> string" where
  "dag_order_key d = (dg_code d, join_with [CHR 0x00] (dg_taskIds d))"

definition validateTaskDag :: "task_dag \<Rightarrow> planning_state list option \<Rightarrow> dag_validation" where
  "validateTaskDag dag states =
     (let empty = (if dag_nodes dag = []
            then [diagnostic ''task-dag.empty'' ''Task graph must contain at least one task.'' []] else []);
          (nodes, duplicates) = fold add_node (dag_nodes dag) ([], []);
          dependencies = concat (map (\<lambda>node. dependency_diagnostics nodes (node_id node) [] (node_deps node)) (dag_nodes dag));
          (order, cyclic) = buildTopologicalOrder dag nodes;
          cycle = (if cyclic = [] then []
            else [diagnostic ''task-dag.cycle''
              (''Task graph contains a cycle involving '' @ join_with '', '' (map quoted cyclic) @ ''.'') cyclic]);
          writers = writer_diagnostics order nodes;
          planning = (case states of None \<Rightarrow> []
            | Some ss \<Rightarrow> state_diagnostics nodes [] ss @ missing_states nodes ss @ validateTerminalDependencies dag nodes ss);
          diagnostics = sort_key dag_order_key (empty @ duplicates @ dependencies @ cycle @ writers @ planning)
      in \<lparr>dv_graphId = dag_graphId dag, dv_graphRevision = dag_graphRevision dag,
          dv_valid = (diagnostics = []), dv_topologicalOrder = (if diagnostics = [] then order else []),
          dv_diagnostics = diagnostics\<rparr>)"

end
