(* ===== verification/Task_Order.thy ===== *)
theory Task_Order
  imports Task_Dag "HOL-Library.Multiset"
begin

text \<open>
  Correctness of the task-graph validation: Kahn's loop orders exactly the acyclic graphs, the
  ancestor sets are the transitive dependencies, and a graph passes validation exactly when it is a
  well-formed, acyclic graph in which tasks that write the same repository are ordered.
\<close>

section \<open>Kahn's algorithm\<close>

definition dep_edges :: "string set \<Rightarrow> (string \<Rightarrow> string set) \<Rightarrow> (string \<times> string) set" where
  "dep_edges N D = {(p, t). t \<in> N \<and> p \<in> D t}"

definition topological :: "(string \<Rightarrow> string set) \<Rightarrow> string list \<Rightarrow> bool" where
  "topological D order \<longleftrightarrow> (\<forall>xs t ys. order = xs @ t # ys \<longrightarrow> D t \<subseteq> set xs)"

definition successor_map :: "string set \<Rightarrow> (string \<Rightarrow> string set) \<Rightarrow> (string, string list) jsmap \<Rightarrow> bool" where
  "successor_map N D succ \<longleftrightarrow> (\<forall>p \<in> N. \<exists>ss. map_of succ p = Some ss \<and> distinct ss \<and> set ss = {t \<in> N. p \<in> D t})"

definition kahn_inv :: "string set \<Rightarrow> (string \<Rightarrow> string set) \<Rightarrow> string list \<Rightarrow> (string, int) jsmap \<Rightarrow> string list \<Rightarrow> bool" where
  "kahn_inv N D ready indegree order \<longleftrightarrow>
     distinct (order @ ready) \<and> set (order @ ready) \<subseteq> N \<and> topological D order \<and>
     (\<forall>t \<in> N. map_of indegree t = Some (int (card (D t - set order)))) \<and>
     (\<forall>t \<in> N. t \<in> set (order @ ready) \<longleftrightarrow> D t \<subseteq> set order)"

lemma topological_Nil [simp]: "topological D []"
  by (simp add: topological_def)

lemma topological_snoc: "topological D (order @ [t]) \<longleftrightarrow> topological D order \<and> D t \<subseteq> set order"
proof
  assume l: "topological D (order @ [t])"
  then have "D t \<subseteq> set order" by (auto simp: topological_def)
  moreover have "topological D order"
    unfolding topological_def
  proof (intro allI impI)
    fix xs u ys assume "order = xs @ u # ys"
    then have "order @ [t] = xs @ u # (ys @ [t])" by simp
    with l show "D u \<subseteq> set xs" unfolding topological_def by blast
  qed
  ultimately show "topological D order \<and> D t \<subseteq> set order" by blast
next
  assume r: "topological D order \<and> D t \<subseteq> set order"
  show "topological D (order @ [t])"
    unfolding topological_def
  proof (intro allI impI)
    fix xs u ys assume eq: "order @ [t] = xs @ u # ys"
    show "D u \<subseteq> set xs"
    proof (cases ys rule: rev_cases)
      case Nil
      with eq r show ?thesis by simp
    next
      case (snoc zs z)
      with eq have "order = xs @ u # zs" by simp
      with r show ?thesis by (auto simp: topological_def)
    qed
  qed
qed

lemma mset_insertSorted [simp]: "mset (insertSorted vs v) = add_mset v (mset vs)"
proof -
  have "mset (takeWhile P vs) + mset (dropWhile P vs) = mset vs" for P
    by (metis mset_append takeWhile_dropWhile_id)
  then show ?thesis by (simp add: insertSorted_def)
qed

lemma relax_all:
  "distinct ss \<Longrightarrow> \<forall>s \<in> set ss. map_of m s = Some (c s) \<Longrightarrow> fold relax ss (m, ready) = (m', ready') \<Longrightarrow>
   map_of m' = (\<lambda>k. if k \<in> set ss then Some (c k - 1) else map_of m k) \<and>
   mset ready' = mset ready + mset (filter (\<lambda>s. c s = 1) ss) \<and> map fst m' = map fst m"
proof (induction ss arbitrary: m ready)
  case (Cons s ss)
  let ?m = "AList.update s (c s - 1) m" and ?ready = "if c s = 1 then insertSorted ready s else ready"
  have "relax s (m, ready) = (?m, ?ready)" using Cons.prems(2) by (simp add: relax_def Let_def)
  with Cons.prems(3) have "fold relax ss (?m, ?ready) = (m', ready')" by simp
  moreover have "\<forall>x \<in> set ss. map_of ?m x = Some (c x)" using Cons.prems(1,2) by (auto simp: jm.get_put)
  ultimately have "map_of m' = (\<lambda>k. if k \<in> set ss then Some (c k - 1) else map_of ?m k)"
    "mset ready' = mset ?ready + mset (filter (\<lambda>s. c s = 1) ss)" "map fst m' = map fst ?m"
    using Cons.IH Cons.prems(1) by auto
  moreover have "map fst ?m = map fst m"
    using Cons.prems(2) by (simp add: keys_alist_update) (metis list.set_map map_of_eq_None_iff option.distinct(1))
  ultimately show ?case using Cons.prems(1) by (auto simp: jm.get_put fun_eq_iff)
qed auto

lemma kahn_step:
  assumes inv: "kahn_inv N D (t # ready) indegree order" and fin: "finite N" and D: "\<forall>t \<in> N. D t \<subseteq> N"
    and ss: "distinct ss" "set ss = {s \<in> N. t \<in> D s}" and f: "fold relax ss (indegree, ready) = (indegree', ready')"
  shows "kahn_inv N D ready' indegree' (order @ [t]) \<and> map fst indegree' = map fst indegree"
proof -
  let ?c = "\<lambda>s. int (card (D s - set order))"
  from inv have dist: "distinct (order @ t # ready)" and sub: "set (order @ t # ready) \<subseteq> N"
    and topo: "topological D order" and deg: "\<forall>t \<in> N. map_of indegree t = Some (?c t)"
    and mem: "\<forall>u \<in> N. u \<in> set (order @ t # ready) \<longleftrightarrow> D u \<subseteq> set order" by (auto simp: kahn_inv_def)
  have "\<forall>s \<in> set ss. map_of indegree s = Some (?c s)" using deg ss(2) by auto
  from relax_all [OF ss(1) this f] have m': "map_of indegree' = (\<lambda>k. if k \<in> set ss then Some (?c k - 1) else map_of indegree k)"
    and r': "mset ready' = mset ready + mset (filter (\<lambda>s. ?c s = 1) ss)" and keys: "map fst indegree' = map fst indegree" by auto
  have finD: "finite (D u)" if "u \<in> N" for u using D fin that by (meson bspec finite_subset)
  have one: "?c s = 1 \<longleftrightarrow> D s \<subseteq> set (order @ [t])" if "s \<in> set ss" for s
  proof -
    have "t \<in> D s - set order" using that ss(2) dist by auto
    then have "?c s = 1 \<longleftrightarrow> D s - set order = {t}"
      by (metis One_nat_def card_1_singletonE is_singletonI is_singleton_altdef of_nat_1_eq_iff singletonD)
    with \<open>t \<in> D s - set order\<close> show ?thesis by auto
  qed
  have set': "set ready' = set ready \<union> {s \<in> set ss. D s \<subseteq> set (order @ [t])}"
    using arg_cong [OF r', of set_mset] one by auto
  have new: "s \<notin> set (order @ t # ready)" if "s \<in> set ss" for s
    using mem that ss(2) dist by auto
  have "distinct ready'"
  proof -
    have "distinct (ready @ filter (\<lambda>s. ?c s = 1) ss)" using dist ss(1) new by auto
    moreover have "mset ready' = mset (ready @ filter (\<lambda>s. ?c s = 1) ss)" using r' by simp
    ultimately show ?thesis using mset_eq_imp_distinct_iff by blast
  qed
  then have "distinct ((order @ [t]) @ ready')" using dist new set' by auto
  moreover have "set ((order @ [t]) @ ready') \<subseteq> N" using sub set' ss(2) by auto
  moreover have "topological D (order @ [t])" using topo mem sub by (auto simp: topological_snoc)
  moreover have "map_of indegree' u = Some (int (card (D u - set (order @ [t]))))" if "u \<in> N" for u
  proof (cases "u \<in> set ss")
    case True
    then have t: "t \<in> D u - set order" using ss(2) dist by auto
    have "D u - set (order @ [t]) = (D u - set order) - {t}" by auto
    with t finD [OF that] have "card (D u - set (order @ [t])) = card (D u - set order) - 1" by (simp add: card_Diff_singleton)
    moreover have "card (D u - set order) > 0" using t finD [OF that] by (auto simp: card_gt_0_iff)
    ultimately show ?thesis using m' True by simp
  next
    case False
    then have "D u - set (order @ [t]) = D u - set order" using ss(2) that by auto
    with False m' deg that show ?thesis by simp
  qed
  moreover have "u \<in> set ((order @ [t]) @ ready') \<longleftrightarrow> D u \<subseteq> set (order @ [t])" if "u \<in> N" for u
    using mem [rule_format, OF that] set' ss(2) that by auto
  ultimately show ?thesis using keys by (simp only: kahn_inv_def) blast
qed

lemma kahn_loop_inv:
  "kahn_inv N D ready indegree order \<Longrightarrow> finite N \<Longrightarrow> \<forall>t \<in> N. D t \<subseteq> N \<Longrightarrow> successor_map N D succ \<Longrightarrow>
   kahn_loop succ ready indegree order = (order', indegree') \<Longrightarrow>
   kahn_inv N D [] indegree' order' \<and> map fst indegree' = map fst indegree"
proof (induction succ ready indegree order rule: kahn_loop.induct)
  case (2 succ t ready indegree order)
  have "t \<in> N" using "2.prems"(1) by (simp add: kahn_inv_def)
  with "2.prems"(4) obtain ss where ss: "map_of succ t = Some ss" "distinct ss" "set ss = {s \<in> N. t \<in> D s}"
    by (auto simp: successor_map_def)
  obtain m r where f: "fold relax ss (indegree, ready) = (m, r)" by (cases "fold relax ss (indegree, ready)")
  note step = kahn_step [OF "2.prems"(1-3) ss(2,3) f]
  have "kahn_loop succ r m (order @ [t]) = (order', indegree')" using "2.prems"(5) by (simp add: ss(1) f)
  with "2.IH" [of "(m, r)" m r] step "2.prems"(2-4) show ?case by (simp add: ss(1) f)
qed simp

text \<open>The loop ends with all nodes ordered exactly when the dependencies are acyclic.\<close>

lemma ordered_acyclic:
  assumes "kahn_inv N D [] indegree order" "set order = N"
  shows "acyclic (dep_edges N D)"
proof -
  let ?pos = "\<lambda>t. length (takeWhile (\<lambda>x. x \<noteq> t) order)"
  have "?pos p < ?pos t" if "(p, t) \<in> dep_edges N D" for p t
  proof -
    from that assms(2) have t: "t \<in> set order" and p: "p \<in> D t" by (auto simp: dep_edges_def)
    from split_list_first [OF t] obtain xs ys where o: "order = xs @ t # ys" "t \<notin> set xs" by blast
    then have "?pos t = length xs" by (simp add: takeWhile_append)
    moreover have "p \<in> set xs" using assms(1) o(1) p unfolding kahn_inv_def topological_def by blast
    then have "?pos p < length xs"
    proof -
      from split_list_first [OF \<open>p \<in> set xs\<close>] obtain as bs where "xs = as @ p # bs" "p \<notin> set as" by blast
      then have "takeWhile (\<lambda>x. x \<noteq> p) order = as" using o by (auto simp: takeWhile_append)
      with \<open>xs = as @ p # bs\<close> show ?thesis by simp
    qed
    ultimately show ?thesis by simp
  qed
  then have "dep_edges N D \<subseteq> measure ?pos" by auto
  then show ?thesis by (metis wf_acyclic wf_measure wf_subset)
qed

lemma acyclic_ordered:
  assumes inv: "kahn_inv N D [] indegree order" and fin: "finite N" and D: "\<forall>t \<in> N. D t \<subseteq> N"
    and acyc: "acyclic (dep_edges N D)"
  shows "set order = N"
proof
  show "set order \<subseteq> N" using inv by (simp add: kahn_inv_def)
  have "finite (dep_edges N D)"
    by (rule finite_subset [OF _ finite_SigmaI [of N "\<lambda>_. N"]]) (use D fin in \<open>auto simp: dep_edges_def\<close>)
  then have "wf (dep_edges N D)" using acyc finite_acyclic_wf by blast
  then have "t \<in> N \<longrightarrow> t \<in> set order" for t
  proof (induction t)
    case (less t)
    show ?case
    proof
      assume t: "t \<in> N"
      have "D t \<subseteq> set order" using less t D by (auto simp: dep_edges_def)
      with inv t show "t \<in> set order" by (simp add: kahn_inv_def)
    qed
  qed
  then show "N \<subseteq> set order" by blast
qed

section \<open>Ancestors\<close>

lemma set_task_ancestors:
  "set (task_ancestors nodes t anc) =
   (let ps = (case map_of nodes t of None \<Rightarrow> [] | Some node \<Rightarrow> node_deps node)
    in set ps \<union> (\<Union>p \<in> set ps. set (case map_of anc p of None \<Rightarrow> [] | Some as \<Rightarrow> as)))"
proof -
  have "set (fold (\<lambda>p vs. fold js_add (case map_of anc p of None \<Rightarrow> [] | Some as \<Rightarrow> as) (js_add p vs)) ps vs) =
    set vs \<union> set ps \<union> (\<Union>p \<in> set ps. set (case map_of anc p of None \<Rightarrow> [] | Some as \<Rightarrow> as))" for ps vs
    by (induction ps arbitrary: vs) (auto simp: set_fold_js_add)
  then show ?thesis by (simp add: task_ancestors_def Let_def)
qed

lemma ancestors_correct:
  assumes deps: "\<forall>t \<in> set order. \<exists>node. map_of nodes t = Some node \<and> set (node_deps node) = D t"
    and topo: "topological D order" and sub: "set order \<subseteq> N"
  shows "distinct order \<Longrightarrow> t \<in> set order \<Longrightarrow>
    \<exists>as. map_of (computeAncestors order nodes) t = Some as \<and> set as = {p. (p, t) \<in> (dep_edges N D)\<^sup>+}"
  using assms
proof (induction order arbitrary: t rule: rev_induct)
  case (snoc x xs)
  let ?R = "dep_edges N D" and ?anc = "computeAncestors xs nodes"
  have eq: "computeAncestors (xs @ [x]) nodes = AList.update x (task_ancestors nodes x ?anc) ?anc"
    by (simp add: computeAncestors_def)
  have IH: "\<exists>as. map_of ?anc u = Some as \<and> set as = {p. (p, u) \<in> ?R\<^sup>+}" if "u \<in> set xs" for u
    using snoc.IH [OF _ that] snoc.prems by (auto simp: topological_snoc)
  show ?case
  proof (cases "t = x")
    case False
    with snoc.prems IH show ?thesis by (simp add: eq jm.get_put)
  next
    case True
    from snoc.prems obtain node where node: "map_of nodes x = Some node" "set (node_deps node) = D x" by auto
    have Dx: "D x \<subseteq> set xs" using snoc.prems by (simp add: topological_snoc)
    have "set (task_ancestors nodes x ?anc) = D x \<union> (\<Union>q \<in> D x. {p. (p, q) \<in> ?R\<^sup>+})"
    proof -
      have "set (case map_of ?anc q of None \<Rightarrow> [] | Some as \<Rightarrow> as) = {p. (p, q) \<in> ?R\<^sup>+}" if "q \<in> D x" for q
        using IH Dx that by force
      then show ?thesis by (simp add: set_task_ancestors node)
    qed
    also have "\<dots> = {p. (p, x) \<in> ?R\<^sup>+}"
    proof -
      have e: "(q, x) \<in> ?R \<longleftrightarrow> q \<in> D x" for q using snoc.prems by (auto simp: dep_edges_def)
      show ?thesis using e by (auto intro: trancl_into_trancl elim: tranclE)
    qed
    finally show ?thesis using True by (simp add: eq jm.get_put)
  qed
qed simp

section \<open>Nodes and counts of a well-formed graph\<close>

definition deps_of :: "task_dag \<Rightarrow> string \<Rightarrow> string set" where
  "deps_of dag t = {p. \<exists>n \<in> set (dag_nodes dag). node_id n = t \<and> p \<in> set (node_deps n)}"

definition dag_ids :: "task_dag \<Rightarrow> string set" where
  "dag_ids dag = node_id ` set (dag_nodes dag)"

definition dag_rel :: "task_dag \<Rightarrow> (string \<times> string) set" where
  "dag_rel dag = {(p, t). \<exists>n \<in> set (dag_nodes dag). node_id n = t \<and> p \<in> set (node_deps n)}"

definition basic_dag :: "task_dag \<Rightarrow> bool" where
  "basic_dag dag \<longleftrightarrow> dag_nodes dag \<noteq> [] \<and> distinct (map node_id (dag_nodes dag)) \<and>
     (\<forall>n \<in> set (dag_nodes dag). distinct (node_deps n) \<and> node_id n \<notin> set (node_deps n) \<and>
        set (node_deps n) \<subseteq> dag_ids dag)"

definition node_index :: "dag_node list \<Rightarrow> node_map" where
  "node_index ns = map (\<lambda>n. (node_id n, n)) ns"

lemma dep_edges_dag: "dep_edges (dag_ids dag) (deps_of dag) = dag_rel dag"
  by (auto simp: dep_edges_def dag_ids_def deps_of_def dag_rel_def)

lemma map_of_node_index:
  "distinct (map node_id ns) \<Longrightarrow> map_of (node_index ns) k = Some n \<longleftrightarrow> n \<in> set ns \<and> node_id n = k"
  by (auto simp: node_index_def comp_def)

lemma map_of_node_index_None: "map_of (node_index ns) k = None \<longleftrightarrow> k \<notin> node_id ` set ns"
  by (auto simp: node_index_def map_of_eq_None_iff image_image)

lemma add_nodes_grow: "fold add_node ns (m, ds) = (m', ds') \<Longrightarrow> ds \<noteq> [] \<Longrightarrow> ds' \<noteq> []"
proof (induction ns arbitrary: m ds)
  case (Cons n ns)
  obtain m1 ds1 where a: "add_node n (m, ds) = (m1, ds1)" by (cases "add_node n (m, ds)")
  then have "ds1 \<noteq> []" using Cons.prems(2) by (auto simp: add_node_def split: if_splits)
  with Cons a show ?case by simp
qed simp

lemma add_nodes:
  "fold add_node ns (node_index ms, ds) = (nodes, ds') \<Longrightarrow> distinct (map node_id ms) \<Longrightarrow>
   (if distinct (map node_id (ms @ ns)) then nodes = node_index (ms @ ns) \<and> ds' = ds
    else ds' \<noteq> [])"
proof (induction ns arbitrary: ms ds)
  case (Cons n ns)
  show ?case
  proof (cases "node_id n \<in> node_id ` set ms")
    case True
    from True have "map_of (node_index ms) (node_id n) \<noteq> None" by (simp only: map_of_node_index_None not_not)
    then obtain m d where "add_node n (node_index ms, ds) = (m, ds @ [d])" by (simp add: add_node_def)
    with Cons.prems(1) have "fold add_node ns (m, ds @ [d]) = (nodes, ds')" by simp
    from add_nodes_grow [OF this] have "ds' \<noteq> []" by simp
    moreover have "\<not> distinct (map node_id (ms @ n # ns))" using True by auto
    ultimately show ?thesis by (simp only: if_False not_False_eq_True)
  next
    case False
    then have "map_of (node_index ms) (node_id n) = None" by (simp only: map_of_node_index_None not_False_eq_True)
    then have "add_node n (node_index ms, ds) = (node_index ms @ [(node_id n, n)], ds)" by (simp add: add_node_def)
    also have "node_index ms @ [(node_id n, n)] = node_index (ms @ [n])" by (simp add: node_index_def)
    finally have "add_node n (node_index ms, ds) = (node_index (ms @ [n]), ds)" .
    with Cons.prems False Cons.IH [of "ms @ [n]" ds] show ?thesis by auto
  qed
qed simp

lemma dependency_diagnostics_Nil:
  "dependency_diagnostics nodes t seen ps = [] \<longleftrightarrow>
   t \<notin> set ps \<and> (\<forall>p \<in> set ps. map_of nodes p \<noteq> None) \<and> distinct ps \<and> set ps \<inter> set seen = {}"
  by (induction ps arbitrary: seen) auto

lemma count_edges:
  "distinct ps \<Longrightarrow> \<forall>p \<in> set ps. map_of s p \<noteq> None \<Longrightarrow> map_of i (node_id n) = Some c \<Longrightarrow>
   fold (count_edge n) ps (i, s) = (i', s') \<Longrightarrow>
   map_of i' = (map_of i)(node_id n \<mapsto> c + int (length ps)) \<and> map fst i' = map fst i \<and>
   (\<forall>p. map_of s' p = (if p \<in> set ps then map_option (\<lambda>ss. ss @ [node_id n]) (map_of s p) else map_of s p))"
proof (induction ps arbitrary: i s c)
  case Nil
  then show ?case by auto
next
  case (Cons p ps)
  from Cons.prems(2) obtain ss where ss: "map_of s p = Some ss" by auto
  let ?i = "AList.update (node_id n) (c + 1) i" and ?s = "AList.update p (ss @ [node_id n]) s"
  have "count_edge n p (i, s) = (?i, ?s)" using Cons.prems(3) ss by (simp add: count_edge_def)
  with Cons.prems(4) have f: "fold (count_edge n) ps (?i, ?s) = (i', s')" by simp
  have "map_of i' = (map_of ?i)(node_id n \<mapsto> c + 1 + int (length ps)) \<and> map fst i' = map fst ?i \<and>
   (\<forall>p. map_of s' p = (if p \<in> set ps then map_option (\<lambda>ss. ss @ [node_id n]) (map_of ?s p) else map_of ?s p))"
    by (rule Cons.IH [OF _ _ _ f]) (use Cons.prems in \<open>auto simp: jm.get_put\<close>)
  moreover have "map fst ?i = map fst i"
    using Cons.prems(3) by (simp add: keys_alist_update) (metis list.set_map map_of_eq_None_iff option.distinct(1))
  ultimately show ?case using ss Cons.prems(1) by (auto simp: jm.get_put)
qed

lemma count_nodes:
  "distinct (map node_id ns) \<Longrightarrow>
   (\<forall>n \<in> set ns. distinct (node_deps n) \<and> node_id n \<notin> set (node_deps n) \<and> map_of i (node_id n) \<noteq> None \<and>
      map_of nodes (node_id n) \<noteq> None \<and> (\<forall>p \<in> set (node_deps n). map_of nodes p \<noteq> None \<and> map_of s p \<noteq> None)) \<Longrightarrow>
   fold (count_node nodes) ns (i, s) = (i', s') \<Longrightarrow> map fst i' = map fst i \<and>
   (\<forall>n \<in> set ns. map_of i' (node_id n) = map_option (\<lambda>c. c + int (length (node_deps n))) (map_of i (node_id n))) \<and>
   (\<forall>k. k \<notin> node_id ` set ns \<longrightarrow> map_of i' k = map_of i k) \<and>
   (\<forall>p. map_of s' p = map_option (\<lambda>ss. ss @ map node_id (filter (\<lambda>n. p \<in> set (node_deps n)) ns)) (map_of s p))"
proof (induction ns arbitrary: i s)
  case Nil
  then show ?case by (auto simp: option.map_ident)
next
  case (Cons n ns)
  have "counted_deps nodes n = node_deps n"
    using Cons.prems(2) by (auto simp: counted_deps_def intro: filter_True)
  obtain i1 s1 where e: "fold (count_edge n) (node_deps n) (i, s) = (i1, s1)" by (cases "fold (count_edge n) (node_deps n) (i, s)")
  from Cons.prems(2) obtain c where c: "map_of i (node_id n) = Some c" by auto
  from count_edges [OF _ _ c e] Cons.prems(2)
  have i1: "map_of i1 = (map_of i)(node_id n \<mapsto> c + int (length (node_deps n)))" "map fst i1 = map fst i"
    and s1: "\<And>p. map_of s1 p = (if p \<in> set (node_deps n) then map_option (\<lambda>ss. ss @ [node_id n]) (map_of s p) else map_of s p)"
    by auto
  have "count_node nodes n (i, s) = (i1, s1)"
    using Cons.prems(2) e \<open>counted_deps nodes n = node_deps n\<close> by (auto simp: count_node_def)
  with Cons.prems(3) have f: "fold (count_node nodes) ns (i1, s1) = (i', s')" by simp
  have "map fst i' = map fst i1 \<and>
   (\<forall>n \<in> set ns. map_of i' (node_id n) = map_option (\<lambda>c. c + int (length (node_deps n))) (map_of i1 (node_id n))) \<and>
   (\<forall>k. k \<notin> node_id ` set ns \<longrightarrow> map_of i' k = map_of i1 k) \<and>
   (\<forall>p. map_of s' p = map_option (\<lambda>ss. ss @ map node_id (filter (\<lambda>n. p \<in> set (node_deps n)) ns)) (map_of s1 p))"
    by (rule Cons.IH [OF _ _ f]) (use Cons.prems i1 s1 in auto)
  moreover have "node_id x \<noteq> node_id n" if "x \<in> set ns" for x
  proof
    assume "node_id x = node_id n"
    with imageI [OF that, of node_id] Cons.prems(1) show False by simp
  qed
  ultimately show ?case using Cons.prems(1) i1 s1 c by (simp add: option.map_comp comp_def option.map_ident)
qed

lemma dag_counts_correct:
  assumes basic: "basic_dag dag" and counts: "dag_counts dag (node_index (dag_nodes dag)) = (i, s)"
  shows "map fst i = map node_id (dag_nodes dag)" "successor_map (dag_ids dag) (deps_of dag) s"
    "\<And>t. t \<in> dag_ids dag \<Longrightarrow> map_of i t = Some (int (card (deps_of dag t)))"
proof -
  let ?ns = "dag_nodes dag" and ?nodes = "node_index (dag_nodes dag)"
  let ?i0 = "map (\<lambda>(k, _). (k, 0 :: int)) ?nodes" and ?s0 = "map (\<lambda>(k, _). (k, [] :: string list)) ?nodes"
  have get: "map_of (map (\<lambda>(k, _). (k, v)) (node_index ns)) k = (if k \<in> node_id ` set ns then Some v else None)"
    for v :: 'v and ns k by (induction ns) (auto simp: node_index_def)
  have get0: "map_of ?i0 k = (if k \<in> dag_ids dag then Some 0 else None)"
    "map_of ?s0 k = (if k \<in> dag_ids dag then Some [] else None)" for k
    by (simp_all only: get dag_ids_def)
  obtain i1 s1 where f: "fold (count_node ?nodes) ?ns (?i0, ?s0) = (i1, s1)" by (cases "fold (count_node ?nodes) ?ns (?i0, ?s0)")
  with counts have i: "i = i1" and s: "s = map (\<lambda>(k, ss). (k, sort ss)) s1" by (auto simp: dag_counts_def)
  have dist: "distinct (map node_id ?ns)" using basic by (simp add: basic_dag_def)
  have known: "map_of ?nodes p \<noteq> None" if "p \<in> dag_ids dag" for p
    using that by (simp add: map_of_node_index_None dag_ids_def)
  have "map fst i1 = map fst ?i0 \<and>
   (\<forall>n \<in> set ?ns. map_of i1 (node_id n) = map_option (\<lambda>c. c + int (length (node_deps n))) (map_of ?i0 (node_id n))) \<and>
   (\<forall>k. k \<notin> node_id ` set ?ns \<longrightarrow> map_of i1 k = map_of ?i0 k) \<and>
   (\<forall>p. map_of s1 p = map_option (\<lambda>ss. ss @ map node_id (filter (\<lambda>n. p \<in> set (node_deps n)) ?ns)) (map_of ?s0 p))"
    by (rule count_nodes [OF dist _ f]) (use basic known in \<open>auto simp: basic_dag_def get0 dag_ids_def\<close>)
  then have c: "map fst i1 = map fst ?i0"
    "\<And>n. n \<in> set ?ns \<Longrightarrow> map_of i1 (node_id n) = Some (int (length (node_deps n)))"
    "\<And>p. p \<in> dag_ids dag \<Longrightarrow> map_of s1 p = Some (map node_id (filter (\<lambda>n. p \<in> set (node_deps n)) ?ns))"
    by (auto simp: get0 dag_ids_def)
  show "map fst i = map node_id ?ns" by (simp add: i c(1) node_index_def comp_def)
  have one: "deps_of dag (node_id n) = set (node_deps n)" if "n \<in> set ?ns" for n
    using dist that by (auto simp: deps_of_def distinct_map inj_on_def)
  show "map_of i t = Some (int (card (deps_of dag t)))" if t: "t \<in> dag_ids dag" for t
  proof -
    from t obtain n where n: "n \<in> set ?ns" "t = node_id n" by (auto simp: dag_ids_def)
    then have "distinct (node_deps n)" using basic by (simp add: basic_dag_def)
    then show ?thesis using n c(2) one by (simp add: i distinct_card)
  qed
  show "successor_map (dag_ids dag) (deps_of dag) s"
    unfolding successor_map_def
  proof
    fix p assume p: "p \<in> dag_ids dag"
    let ?ss = "map node_id (filter (\<lambda>n. p \<in> set (node_deps n)) ?ns)"
    have "map_of s p = Some (sort ?ss)" by (simp add: s map_of_map c(3) [OF p])
    moreover have "distinct (sort ?ss)" using dist by (simp add: distinct_map_filter)
    moreover have "set (sort ?ss) = {t \<in> dag_ids dag. p \<in> deps_of dag t}" using one by (auto simp: dag_ids_def)
    ultimately show "\<exists>ss. map_of s p = Some ss \<and> distinct ss \<and> set ss = {t \<in> dag_ids dag. p \<in> deps_of dag t}" by blast
  qed
qed

lemma buildTopologicalOrder_correct:
  assumes basic: "basic_dag dag" and order: "buildTopologicalOrder dag (node_index (dag_nodes dag)) = (order, cyclic)"
  shows "distinct order" "set order \<subseteq> dag_ids dag" "topological (deps_of dag) order"
    "cyclic = [] \<longleftrightarrow> acyclic (dag_rel dag)" "cyclic = [] \<longleftrightarrow> set order = dag_ids dag"
proof -
  let ?N = "dag_ids dag" and ?D = "deps_of dag"
  obtain i s where c: "dag_counts dag (node_index (dag_nodes dag)) = (i, s)" by (cases "dag_counts dag (node_index (dag_nodes dag))")
  note counts = dag_counts_correct [OF basic c]
  let ?ready = "sort (map fst (filter (\<lambda>(_, n). n = 0) i))"
  obtain i' where k: "kahn_loop s ?ready i [] = (order, i')" and cyc: "cyclic = sort (map fst (filter (\<lambda>(_, n). 0 < n) i'))"
    using order by (auto simp: buildTopologicalOrder_def c split: prod.splits)
  have fin: "finite ?N" by (simp add: dag_ids_def)
  have D: "\<forall>t \<in> ?N. ?D t \<subseteq> ?N" using basic by (force simp: basic_dag_def deps_of_def)
  then have finD: "finite (?D t)" if "t \<in> ?N" for t using fin that by (meson bspec finite_subset)
  have di: "distinct (map fst i)" using basic counts(1) by (simp add: basic_dag_def)
  have keys: "fst ` set i = ?N" using arg_cong [OF counts(1), of set] by (simp add: dag_ids_def)
  have entry: "(t, n) \<in> set i \<longleftrightarrow> t \<in> ?N \<and> n = int (card (?D t))" for t n
    using counts(3) keys map_of_eq_Some_iff [OF di] by (metis (no_types, lifting) fst_conv image_eqI option.inject)
  have ready: "set ?ready = {t \<in> ?N. ?D t = {}}" using finD by (force simp: entry)
  have "kahn_inv ?N ?D ?ready i []"
    unfolding kahn_inv_def using ready counts(3) di by (auto simp: distinct_map_filter)
  from kahn_loop_inv [OF this fin D counts(2) k] have inv: "kahn_inv ?N ?D [] i' order" and i': "map fst i' = map fst i" by auto
  then show "distinct order" "set order \<subseteq> ?N" "topological ?D order" by (auto simp: kahn_inv_def)
  have deg: "map_of i' t = Some (int (card (?D t - set order)))" if "t \<in> ?N" for t using inv that by (simp add: kahn_inv_def)
  have mem: "t \<in> set order \<longleftrightarrow> ?D t \<subseteq> set order" if "t \<in> ?N" for t using inv that by (simp add: kahn_inv_def)
  have entry': "(t, n) \<in> set i' \<longleftrightarrow> t \<in> ?N \<and> n = int (card (?D t - set order))" for t n
  proof -
    have "distinct (map fst i')" "fst ` set i' = ?N" using di keys i' by (simp_all) (metis list.set_map)
    then show ?thesis using deg map_of_eq_Some_iff by (metis (no_types, lifting) fst_conv image_eqI option.inject)
  qed
  have pos: "0 < int (card (?D t - set order)) \<longleftrightarrow> t \<notin> set order" if "t \<in> ?N" for t
    using mem [OF that] finD [OF that] by (auto simp: card_gt_0_iff)
  have "set cyclic = {t \<in> ?N. t \<notin> set order}" using pos by (force simp: cyc entry')
  then show all: "cyclic = [] \<longleftrightarrow> set order = ?N"
    using \<open>set order \<subseteq> ?N\<close> by (metis (mono_tags, lifting) empty_Collect_eq set_empty subsetI subset_antisym)
  have "set order = ?N \<longleftrightarrow> acyclic (dag_rel dag)"
    using ordered_acyclic [OF inv] acyclic_ordered [OF inv fin D] unfolding dep_edges_dag by blast
  with all show "cyclic = [] \<longleftrightarrow> acyclic (dag_rel dag)" by simp
qed

section \<open>Writers\<close>

definition writers_of :: "node_map \<Rightarrow> string \<Rightarrow> string list" where
  "writers_of nodes r = concat (map (\<lambda>(_, n). map (\<lambda>_. node_id n) (filter (\<lambda>x. x = r) (et_writeSet (dn_task n)))) nodes)"

definition get_list :: "(string, string list) jsmap \<Rightarrow> string \<Rightarrow> string list" where
  "get_list ws r = (case map_of ws r of None \<Rightarrow> [] | Some ts \<Rightarrow> ts)"

lemma get_add_writer:
  "get_list (add_writer t x ws) r = get_list ws r @ (if x = r then [t] else [])"
  "map_of (add_writer t x ws) r = None \<longleftrightarrow> x \<noteq> r \<and> map_of ws r = None"
  by (auto simp: get_list_def add_writer_def jm.get_put)

lemma get_add_writers:
  "get_list (fold (add_writer t) rs ws) r = get_list ws r @ map (\<lambda>_. t) (filter (\<lambda>x. x = r) rs)"
  by (induction rs arbitrary: ws) (auto simp: get_add_writer)

lemma get_dag_writers: "get_list (dag_writers nodes) r = writers_of nodes r"
proof -
  have "get_list (fold (\<lambda>(_, n). fold (add_writer (node_id n)) (et_writeSet (dn_task n))) nodes ws) r =
    get_list ws r @ writers_of nodes r" for ws
    by (induction nodes arbitrary: ws) (auto simp: get_add_writers writers_of_def)
  then show ?thesis by (simp add: dag_writers_def get_list_def)
qed

lemma distinct_dag_writers: "distinct (map fst (dag_writers nodes))"
proof -
  have "distinct (map fst ws) \<Longrightarrow> distinct (map fst (fold (add_writer t) rs ws))" for t rs ws
    by (induction rs arbitrary: ws) (auto simp: add_writer_def jm.distinct_keys_put)
  then have "distinct (map fst ws) \<Longrightarrow>
      distinct (map fst (fold (\<lambda>(_, n). fold (add_writer (node_id n)) (et_writeSet (dn_task n))) nodes ws))" for ws
    by (induction nodes arbitrary: ws) auto
  then show ?thesis by (simp add: dag_writers_def)
qed

lemma dag_writers_entries:
  "(\<forall>(r, ts) \<in> set (dag_writers nodes). P r ts) \<longleftrightarrow> (\<forall>r. map_of (dag_writers nodes) r \<noteq> None \<longrightarrow> P r (writers_of nodes r))"
proof -
  have "(r, ts) \<in> set (dag_writers nodes) \<longleftrightarrow> map_of (dag_writers nodes) r \<noteq> None \<and> ts = writers_of nodes r" for r ts
    using distinct_dag_writers [of nodes] get_dag_writers [of nodes r] by (force simp: get_list_def)
  then show ?thesis by (simp add: Ball_def split_paired_All)
qed

lemma unordered_writers_Nil:
  "unordered_writers anc r ts = [] \<longleftrightarrow> sorted_wrt (\<lambda>a b. is_ancestor anc b a \<or> is_ancestor anc a b) ts"
  by (induction ts) auto

lemma sorted_wrt_pairs:
  assumes "\<And>a b. Q a b \<Longrightarrow> Q b a"
  shows "\<forall>a \<in> set l. \<not> Q a a \<Longrightarrow>
    sorted_wrt Q l \<longleftrightarrow> distinct l \<and> (\<forall>a \<in> set l. \<forall>b \<in> set l. a \<noteq> b \<longrightarrow> Q a b)"
proof (induction l)
  case (Cons x xs)
  then show ?case using assms by auto
qed simp

lemma sorted_wrt_agree: "\<forall>a \<in> set l. \<forall>b \<in> set l. P a b = Q a b \<Longrightarrow> sorted_wrt P l = sorted_wrt Q l"
  by (induction l) auto

lemma distinct_const: "distinct (map (\<lambda>_. x) l) \<longleftrightarrow> length l \<le> 1"
  by (cases l; cases "tl l") auto

lemma distinct_filters: "(\<forall>r. length (filter (\<lambda>x. x = r) ws) \<le> 1) \<longleftrightarrow> distinct ws"
proof (induction ws)
  case (Cons w ws)
  have "filter (\<lambda>x. x = w) ws = [] \<longleftrightarrow> w \<notin> set ws" by (auto simp: filter_empty_conv)
  then have "(\<forall>r. length (filter (\<lambda>x. x = r) (w # ws)) \<le> 1) \<longleftrightarrow> w \<notin> set ws \<and> (\<forall>r. length (filter (\<lambda>x. x = r) ws) \<le> 1)"
  proof (intro iffI conjI allI)
    assume l: "\<forall>r. length (filter (\<lambda>x. x = r) (w # ws)) \<le> 1"
    from l [rule_format, of w] show "w \<notin> set ws" by (auto simp: filter_empty_conv)
    fix r show "length (filter (\<lambda>x. x = r) ws) \<le> 1" using l [rule_format, of r] by (auto split: if_splits)
  next
    fix r assume r: "w \<notin> set ws \<and> (\<forall>r. length (filter (\<lambda>x. x = r) ws) \<le> 1)"
    show "length (filter (\<lambda>x. x = r) (w # ws)) \<le> 1"
    proof (cases "w = r")
      case True
      then have "filter (\<lambda>x. x = r) ws = []" using r by (auto simp: filter_empty_conv)
      with True show ?thesis by simp
    qed (use r in simp)
  qed
  with Cons.IH show ?case by simp
qed simp

lemma set_writers_of: "set (writers_of (node_index ns) r) = {node_id n |n. n \<in> set ns \<and> r \<in> set (et_writeSet (dn_task n))}"
  by (auto simp: writers_of_def node_index_def)

lemma distinct_writers_of:
  "distinct (map node_id ns) \<Longrightarrow> (\<forall>r. distinct (writers_of (node_index ns) r)) \<longleftrightarrow> (\<forall>n \<in> set ns. distinct (et_writeSet (dn_task n)))"
proof -
  assume d: "distinct (map node_id ns)"
  have "distinct (writers_of (node_index ns) r) \<longleftrightarrow> (\<forall>n \<in> set ns. length (filter (\<lambda>x. x = r) (et_writeSet (dn_task n))) \<le> 1)" for r
    using d
  proof (induction ns)
    case (Cons n ns)
    have eq: "writers_of (node_index (n # ns)) r =
      map (\<lambda>_. node_id n) (filter (\<lambda>x. x = r) (et_writeSet (dn_task n))) @ writers_of (node_index ns) r"
      by (simp add: writers_of_def node_index_def)
    have "node_id n \<notin> set (writers_of (node_index ns) r)" using Cons.prems by (auto simp: set_writers_of)
    then have "set (map (\<lambda>_. node_id n) (filter (\<lambda>x. x = r) (et_writeSet (dn_task n)))) \<inter> set (writers_of (node_index ns) r) = {}" by auto
    with Cons show ?case unfolding eq distinct_append distinct_const by simp
  qed (simp add: writers_of_def node_index_def)
  then show ?thesis using distinct_filters by blast
qed

section \<open>Well-formed graphs\<close>

definition ordered_writers :: "task_dag \<Rightarrow> bool" where
  "ordered_writers dag \<longleftrightarrow> (\<forall>n \<in> set (dag_nodes dag). distinct (et_writeSet (dn_task n))) \<and>
     (\<forall>n \<in> set (dag_nodes dag). \<forall>m \<in> set (dag_nodes dag). node_id n \<noteq> node_id m \<longrightarrow>
        set (et_writeSet (dn_task n)) \<inter> set (et_writeSet (dn_task m)) \<noteq> {} \<longrightarrow>
        (node_id n, node_id m) \<in> (dag_rel dag)\<^sup>+ \<or> (node_id m, node_id n) \<in> (dag_rel dag)\<^sup>+)"

definition well_formed_dag :: "task_dag \<Rightarrow> bool" where
  "well_formed_dag dag \<longleftrightarrow> basic_dag dag \<and> acyclic (dag_rel dag) \<and> ordered_writers dag"

lemma writer_diagnostics_Nil:
  assumes basic: "basic_dag dag" and acyc: "acyclic (dag_rel dag)"
    and order: "buildTopologicalOrder dag (node_index (dag_nodes dag)) = (order, cyclic)"
  shows "writer_diagnostics order (node_index (dag_nodes dag)) = [] \<longleftrightarrow> ordered_writers dag"
proof -
  let ?ns = "dag_nodes dag" and ?R = "dag_rel dag" and ?anc = "computeAncestors order (node_index (dag_nodes dag))"
  note topo = buildTopologicalOrder_correct [OF basic order]
  have all: "set order = dag_ids dag" using topo(4,5) acyc by simp
  have dist: "distinct (map node_id ?ns)" using basic by (simp add: basic_dag_def)
  have len: "length order = length (node_index ?ns)"
    using all topo(1) dist by (metis dag_ids_def distinct_card length_map list.set_map node_index_def)
  have deps: "\<forall>t \<in> set order. \<exists>n. map_of (node_index ?ns) t = Some n \<and> set (node_deps n) = deps_of dag t"
  proof
    fix t assume "t \<in> set order"
    then obtain n where n: "n \<in> set ?ns" "node_id n = t" using all by (auto simp: dag_ids_def)
    moreover have "deps_of dag t = set (node_deps n)" using dist n by (auto simp: deps_of_def distinct_map inj_on_def)
    ultimately show "\<exists>n. map_of (node_index ?ns) t = Some n \<and> set (node_deps n) = deps_of dag t"
      by (intro exI [of _ n]) (simp add: map_of_node_index [OF dist])
  qed
  have anc: "is_ancestor ?anc a t \<longleftrightarrow> (a, t) \<in> ?R\<^sup>+" if "t \<in> dag_ids dag" for a t
    using ancestors_correct [OF deps topo(3,2,1), of t] that all
    by (auto simp: is_ancestor_def dep_edges_dag)
  let ?Q = "\<lambda>a b. (b, a) \<in> ?R\<^sup>+ \<or> (a, b) \<in> ?R\<^sup>+"
  have one: "unordered_writers ?anc r (sort (writers_of (node_index ?ns) r)) = [] \<longleftrightarrow>
      distinct (writers_of (node_index ?ns) r) \<and>
      (\<forall>a \<in> set (writers_of (node_index ?ns) r). \<forall>b \<in> set (writers_of (node_index ?ns) r). a \<noteq> b \<longrightarrow> ?Q a b)" for r
  proof -
    let ?W = "writers_of (node_index ?ns) r"
    have ids: "set ?W \<subseteq> dag_ids dag" by (auto simp: set_writers_of dag_ids_def)
    have "unordered_writers ?anc r (sort ?W) = [] \<longleftrightarrow> sorted_wrt ?Q (sort ?W)"
      unfolding unordered_writers_Nil
      by (rule sorted_wrt_agree) (use ids anc in auto)
    also have "\<dots> \<longleftrightarrow> distinct (sort ?W) \<and> (\<forall>a \<in> set (sort ?W). \<forall>b \<in> set (sort ?W). a \<noteq> b \<longrightarrow> ?Q a b)"
      by (rule sorted_wrt_pairs) (use acyc in \<open>auto simp: acyclic_def\<close>)
    finally show ?thesis by simp
  qed
  have none: "writers_of (node_index ?ns) r = []" if "map_of (dag_writers (node_index ?ns)) r = None" for r
    using that get_dag_writers [of "node_index ?ns" r] by (simp add: get_list_def)
  have "writer_diagnostics order (node_index ?ns) = [] \<longleftrightarrow>
      (\<forall>(r, ts) \<in> set (dag_writers (node_index ?ns)). unordered_writers ?anc r (sort ts) = [])"
    by (auto simp: writer_diagnostics_def len)
  also have "\<dots> \<longleftrightarrow> (\<forall>r. unordered_writers ?anc r (sort (writers_of (node_index ?ns) r)) = [])"
  proof -
    have "unordered_writers ?anc r (sort (writers_of (node_index ?ns) r)) = []"
      if "map_of (dag_writers (node_index ?ns)) r = None" for r
      by (simp only: none [OF that] sort_key_simps unordered_writers.simps)
    then show ?thesis unfolding dag_writers_entries by blast
  qed
  also have "\<dots> \<longleftrightarrow> (\<forall>n \<in> set ?ns. distinct (et_writeSet (dn_task n))) \<and>
      (\<forall>r. \<forall>a \<in> set (writers_of (node_index ?ns) r). \<forall>b \<in> set (writers_of (node_index ?ns) r). a \<noteq> b \<longrightarrow> ?Q a b)"
    unfolding one using distinct_writers_of [OF dist] by blast
  also have "\<dots> \<longleftrightarrow> ordered_writers dag"
    unfolding ordered_writers_def set_writers_of by blast
  finally show ?thesis .
qed

lemma dependency_checks:
  assumes "distinct (map node_id (dag_nodes dag))"
  shows "concat (map (\<lambda>n. dependency_diagnostics (node_index (dag_nodes dag)) (node_id n) [] (node_deps n)) (dag_nodes dag)) = [] \<and>
      dag_nodes dag \<noteq> [] \<longleftrightarrow> basic_dag dag"
  using assms by (auto simp: basic_dag_def dependency_diagnostics_Nil map_of_node_index_None dag_ids_def)

lemma validate_parts:
  assumes nodes: "fold add_node (dag_nodes dag) ([], []) = (nodes, duplicates)"
    and order: "buildTopologicalOrder dag nodes = (order, cyclic)"
  shows "dv_valid (validateTaskDag dag states) \<longleftrightarrow> dag_nodes dag \<noteq> [] \<and> duplicates = [] \<and>
      concat (map (\<lambda>n. dependency_diagnostics nodes (node_id n) [] (node_deps n)) (dag_nodes dag)) = [] \<and>
      cyclic = [] \<and> writer_diagnostics order nodes = [] \<and>
      (case states of None \<Rightarrow> True | Some ss \<Rightarrow>
         state_diagnostics nodes [] ss = [] \<and> missing_states nodes ss = [] \<and> validateTerminalDependencies dag nodes ss = [])"
    "dv_valid (validateTaskDag dag states) \<Longrightarrow> dv_topologicalOrder (validateTaskDag dag states) = order"
proof -
  have nil: "sort_key f xs = [] \<longleftrightarrow> xs = []" for f :: "dag_diagnostic \<Rightarrow> string \<times> string" and xs
    by (metis length_0_conv length_sort)
  show "dv_valid (validateTaskDag dag states) \<longleftrightarrow> dag_nodes dag \<noteq> [] \<and> duplicates = [] \<and>
      concat (map (\<lambda>n. dependency_diagnostics nodes (node_id n) [] (node_deps n)) (dag_nodes dag)) = [] \<and>
      cyclic = [] \<and> writer_diagnostics order nodes = [] \<and>
      (case states of None \<Rightarrow> True | Some ss \<Rightarrow>
         state_diagnostics nodes [] ss = [] \<and> missing_states nodes ss = [] \<and> validateTerminalDependencies dag nodes ss = [])"
    unfolding validateTaskDag_def Let_def nodes order prod.case
    by (cases states) (auto simp: nil)
  show "dv_valid (validateTaskDag dag states) \<Longrightarrow> dv_topologicalOrder (validateTaskDag dag states) = order"
    unfolding validateTaskDag_def Let_def nodes order prod.case by simp
qed

text \<open>What the checks of a planning state amount to on a well-formed graph.\<close>

definition state_of :: "planning_state list \<Rightarrow> string \<Rightarrow> planning_state option" where
  "state_of ss t = map_of (js_map_of (map (\<lambda>s. (ps_taskId s, s)) ss)) t"

definition planning_ok :: "task_dag \<Rightarrow> planning_state list \<Rightarrow> bool" where
  "planning_ok dag ss \<longleftrightarrow> distinct (map ps_taskId ss) \<and> ps_taskId ` set ss = dag_ids dag \<and>
     (\<forall>(p, t) \<in> dag_rel dag. \<forall>s. state_of ss t = Some s \<longrightarrow> ps_outcome s = TO_active \<or> ps_outcome s = TO_succeeded \<longrightarrow>
        (\<exists>q. state_of ss p = Some q \<and> settled_state q))"

lemma state_diagnostics_Nil:
  "state_diagnostics nodes ids ss = [] \<longleftrightarrow> distinct (map ps_taskId ss) \<and> ps_taskId ` set ss \<inter> set ids = {} \<and>
     (\<forall>s \<in> set ss. map_of nodes (ps_taskId s) \<noteq> None)"
  by (induction ss arbitrary: ids) auto

lemma planning_checks:
  assumes "basic_dag dag"
  shows "state_diagnostics (node_index (dag_nodes dag)) [] ss = [] \<and> missing_states (node_index (dag_nodes dag)) ss = [] \<and>
      validateTerminalDependencies dag (node_index (dag_nodes dag)) ss = [] \<longleftrightarrow> planning_ok dag ss"
proof -
  let ?nodes = "node_index (dag_nodes dag)"
  have a: "state_diagnostics ?nodes [] ss = [] \<longleftrightarrow> distinct (map ps_taskId ss) \<and> ps_taskId ` set ss \<subseteq> dag_ids dag"
    by (auto simp: state_diagnostics_Nil map_of_node_index_None dag_ids_def)
  have b: "missing_states ?nodes ss = [] \<longleftrightarrow> dag_ids dag \<subseteq> ps_taskId ` set ss"
    by (auto simp: missing_states_def node_index_def dag_ids_def split: if_splits)
  have known: "map_of ?nodes p \<noteq> None" if "n \<in> set (dag_nodes dag)" "p \<in> set (node_deps n)" for n p
    using assms that by (auto simp: basic_dag_def map_of_node_index_None dag_ids_def)
  have c: "validateTerminalDependencies dag ?nodes ss = [] \<longleftrightarrow>
      (\<forall>n \<in> set (dag_nodes dag). \<forall>s. state_of ss (node_id n) = Some s \<longrightarrow> ps_outcome s = TO_active \<or> ps_outcome s = TO_succeeded \<longrightarrow>
        (\<forall>p \<in> set (node_deps n). \<exists>q. state_of ss p = Some q \<and> settled_state q))"
  proof -
    let ?by = "js_map_of (map (\<lambda>s. (ps_taskId s, s)) ss)"
    have one: "unsettled_prerequisite ?nodes ?by n s p = [] \<longleftrightarrow> (\<exists>q. state_of ss p = Some q \<and> settled_state q)"
      if "n \<in> set (dag_nodes dag)" "p \<in> set (node_deps n)" for n s p
      using known [OF that] by (auto simp: unsettled_prerequisite_def state_of_def split: option.splits)
    have "terminal_dependencies ?nodes ?by n = [] \<longleftrightarrow>
        (\<forall>s. state_of ss (node_id n) = Some s \<longrightarrow> ps_outcome s = TO_active \<or> ps_outcome s = TO_succeeded \<longrightarrow>
          (\<forall>p \<in> set (node_deps n). \<exists>q. state_of ss p = Some q \<and> settled_state q))" if "n \<in> set (dag_nodes dag)" for n
      using one [OF that]
      by (cases "map_of ?by (node_id n)") (auto simp: terminal_dependencies_def state_of_def)
    then show ?thesis unfolding validateTerminalDependencies_def Let_def by simp
  qed
  show ?thesis unfolding a b c planning_ok_def dag_rel_def by blast
qed

lemma valid_well_formed_iff:
  "dv_valid (validateTaskDag dag states) \<longleftrightarrow>
     well_formed_dag dag \<and> (case states of None \<Rightarrow> True | Some ss \<Rightarrow> planning_ok dag ss)"
proof -
  obtain nodes duplicates where nodes: "fold add_node (dag_nodes dag) ([], []) = (nodes, duplicates)"
    by (cases "fold add_node (dag_nodes dag) ([], [])")
  obtain order cyclic where order: "buildTopologicalOrder dag nodes = (order, cyclic)" by (cases "buildTopologicalOrder dag nodes")
  note parts = validate_parts(1) [OF nodes order]
  note add = add_nodes [of "dag_nodes dag" "[]" "[]" nodes duplicates]
  show ?thesis
  proof (cases "distinct (map node_id (dag_nodes dag))")
    case False
    with add nodes have "duplicates \<noteq> []" by (simp add: node_index_def)
    with False parts show ?thesis by (simp add: well_formed_dag_def basic_dag_def)
  next
    case True
    with add nodes have nd: "nodes = node_index (dag_nodes dag)" "duplicates = []" by (simp_all add: node_index_def)
    show ?thesis
    proof (cases "basic_dag dag")
      case False
      with dependency_checks [OF True] parts nd show ?thesis by (auto simp: well_formed_dag_def)
    next
      case basic: True
      note topo = buildTopologicalOrder_correct [OF basic order [unfolded nd(1)]]
      show ?thesis
      proof (cases "acyclic (dag_rel dag)")
        case False
        with topo(4) parts show ?thesis by (simp add: well_formed_dag_def)
      next
        case acyc: True
        have "dag_nodes dag \<noteq> [] \<and> concat (map (\<lambda>n. dependency_diagnostics nodes (node_id n) [] (node_deps n)) (dag_nodes dag)) = []"
          using dependency_checks [OF True] basic by (simp add: nd(1))
        with parts nd topo(4) acyc basic writer_diagnostics_Nil [OF basic acyc order [unfolded nd(1)]] planning_checks [OF basic]
        show ?thesis by (cases states) (simp_all add: well_formed_dag_def)
      qed
    qed
  qed
qed

lemma valid_well_formed: "dv_valid (validateTaskDag dag states) \<Longrightarrow> well_formed_dag dag"
  by (simp add: valid_well_formed_iff)

lemma order_of_valid:
  assumes "dv_valid (validateTaskDag dag states)"
  shows "distinct (dv_topologicalOrder (validateTaskDag dag states)) \<and>
    set (dv_topologicalOrder (validateTaskDag dag states)) = dag_ids dag \<and>
    (\<forall>xs t ys. dv_topologicalOrder (validateTaskDag dag states) = xs @ t # ys \<longrightarrow> deps_of dag t \<subseteq> set xs)"
proof -
  obtain nodes duplicates where nodes: "fold add_node (dag_nodes dag) ([], []) = (nodes, duplicates)"
    by (cases "fold add_node (dag_nodes dag) ([], [])")
  obtain order cyclic where order: "buildTopologicalOrder dag nodes = (order, cyclic)" by (cases "buildTopologicalOrder dag nodes")
  from assms have "well_formed_dag dag" using valid_well_formed by blast
  then have basic: "basic_dag dag" and acyc: "acyclic (dag_rel dag)" by (simp_all add: well_formed_dag_def)
  have "nodes = node_index (dag_nodes dag)"
    using add_nodes [of "dag_nodes dag" "[]" "[]" nodes duplicates] nodes basic by (simp add: node_index_def basic_dag_def)
  from buildTopologicalOrder_correct [OF basic order [unfolded this]] acyc validate_parts(2) [OF nodes order assms]
  show ?thesis by (simp add: topological_def)
qed

section \<open>Properties\<close>

text \<open>
  C27: validation decides well-formedness: a task graph is valid exactly when it has a task, task ids
  are distinct, every dependency is a different, existing task named once, the dependencies are
  acyclic, and any two tasks that write the same repository are ordered by dependencies. With a
  planning state, exactly when in addition there is one state per task and every prerequisite of
  an active or succeeded task is settled and verified.
\<close>

theorem valid_iff_well_formed:
  "dv_valid (validateTaskDag dag states) \<longleftrightarrow>
     well_formed_dag dag \<and> (case states of None \<Rightarrow> True | Some ss \<Rightarrow> planning_ok dag ss)"
  by (rule valid_well_formed_iff)

text \<open>
  The order that validation returns for a valid graph lists every task exactly once, each after
  all the tasks it depends on.
\<close>

theorem topological_order_correct:
  assumes "dv_valid (validateTaskDag dag states)"
  shows "distinct (dv_topologicalOrder (validateTaskDag dag states)) \<and>
    set (dv_topologicalOrder (validateTaskDag dag states)) = dag_ids dag \<and>
    (\<forall>xs t ys. dv_topologicalOrder (validateTaskDag dag states) = xs @ t # ys \<longrightarrow> deps_of dag t \<subseteq> set xs)"
  by (rule order_of_valid [OF assms])

definition example_task :: "string \<Rightarrow> string list \<Rightarrow> dag_node" where
  "example_task k deps = \<lparr>dn_task = \<lparr>et_taskId = k, et_revision = 1, et_revisionSha256 = k, et_predecessorRevisionSha256 = None,
       et_readSet = [''r''], et_writeSet = [''r''], et_excludedRepositories = [], et_dependencies = deps, et_artifacts = [],
       et_verification = [], et_createdAt = ''t0'', et_content = []\<rparr>,
     dn_pipelineId = Some ''p'', dn_profileId = ''f'', dn_accountId = Some ''acc''\<rparr>"

definition example_dag :: task_dag where
  "example_dag = \<lparr>dag_graphId = ''g'', dag_graphRevision = 1,
     dag_nodes = [example_task ''b'' [''a''], example_task ''a'' []], dag_createdAt = ''t0''\<rparr>"

lemma example_dag_valid:
  "dv_valid (validateTaskDag example_dag None)" "dv_topologicalOrder (validateTaskDag example_dag None) = [''a'', ''b'']"
  by code_simp+

theorem topological_order_correct_witness:
  "dv_topologicalOrder (validateTaskDag example_dag None) = [''a''] @ ''b'' # [] \<and> deps_of example_dag ''b'' \<subseteq> {''a''}"
proof
  show eq: "dv_topologicalOrder (validateTaskDag example_dag None) = [''a''] @ ''b'' # []" by (simp add: example_dag_valid(2))
  from topological_order_correct [OF example_dag_valid(1)] eq have "deps_of example_dag ''b'' \<subseteq> set [''a'']" by blast
  then show "deps_of example_dag ''b'' \<subseteq> {''a''}" by simp
qed

end
