(* ===== verification/Task_Wave.thy ===== *)
theory Task_Wave
  imports Task_Order
begin

text \<open>
  Wave planning (\<open>packages/pipeline/src/task-graph/plan.ts\<close>): the reasons that hold a task back,
  inherited through blocked and waiting predecessors, and the selection loop over the topological
  order with its account and worker budgets. A selected task is really runnable, the budgets are
  kept, and no two selected tasks write the same repository.
\<close>

section \<open>Snapshots and plans\<close>

record profile_capacity =
  pc_profileId :: string
  pc_available :: bool

record account_capacity =
  ac_accountId :: string
  ac_activeRuns :: int
  ac_maxConcurrentRuns :: int

record writer_lease =
  wl_repositoryId :: string
  wl_available :: bool

record wave_snapshot =
  ws_dag :: task_dag
  ws_waveOrdinal :: nat
  ws_unresolvedGraphRevision :: bool
  ws_tasks :: "planning_state list"
  ws_profiles :: "profile_capacity list"
  ws_accounts :: "account_capacity list"
  ws_writerLeases :: "writer_lease list"
  ws_activeWorkers :: int
  ws_maxConcurrentWorkers :: int
  ws_recordedAt :: string

record blocking_reason =
  br_code :: string
  br_sourceTaskId :: "string option"
  br_repositoryId :: "string option"
  br_profileId :: "string option"
  br_accountId :: "string option"

datatype classification = Selected | Deferred | Settled | Invalid

record wave_decision =
  wd_taskId :: string
  wd_classification :: classification
  wd_blockingReasons :: "blocking_reason list"

record wave_plan =
  wp_graphId :: string
  wp_graphRevision :: nat
  wp_waveOrdinal :: nat
  wp_validation :: dag_validation
  wp_selectedTaskIds :: "string list"
  wp_decisions :: "wave_decision list"
  wp_plannedAt :: string

section \<open>Reasons\<close>

definition reason :: "string \<Rightarrow> blocking_reason" where
  "reason code = \<lparr>br_code = code, br_sourceTaskId = None, br_repositoryId = None, br_profileId = None, br_accountId = None\<rparr>"

definition source_reason :: "string \<Rightarrow> string \<Rightarrow> blocking_reason" where
  "source_reason code taskId = (reason code)\<lparr>br_sourceTaskId := Some taskId\<rparr>"

definition or_empty :: "string option \<Rightarrow> string" where
  "or_empty x = (case x of None \<Rightarrow> [] | Some s \<Rightarrow> s)"

definition reasonKey :: "blocking_reason \<Rightarrow> string" where
  "reasonKey v = join_with [CHR 0x00] [br_code v, or_empty (br_sourceTaskId v), or_empty (br_repositoryId v),
     or_empty (br_profileId v), or_empty (br_accountId v)]"

definition canonicalReasons :: "blocking_reason list \<Rightarrow> blocking_reason list" where
  "canonicalReasons vs = sort_key reasonKey (map snd (js_map_of (map (\<lambda>v. (reasonKey v, v)) vs)))"

type_synonym state_map = "(string, planning_state) jsmap"

definition deps_in :: "node_map \<Rightarrow> string \<Rightarrow> string list" where
  "deps_in nodes taskId = (case map_of nodes taskId of None \<Rightarrow> [] | Some node \<Rightarrow> node_deps node)"

function terminalReasons :: "string \<Rightarrow> node_map \<Rightarrow> state_map \<Rightarrow> string list \<Rightarrow> blocking_reason list" where
  "terminalReasons taskId nodes states visiting =
     (if taskId \<in> set visiting then []
      else canonicalReasons (concat (map (\<lambda>p.
        case map_of states p of
          None \<Rightarrow> []
        | Some predecessor \<Rightarrow>
            (case ps_outcome predecessor of
               TO_failed \<Rightarrow> [source_reason ''predecessor_failed'' p]
             | TO_cancelled \<Rightarrow> [source_reason ''predecessor_cancelled'' p]
             | TO_blocked \<Rightarrow>
                 (let inherited = terminalReasons p nodes states (taskId # visiting)
                  in if inherited \<noteq> [] then inherited else [source_reason ''predecessor_blocked'' p])
             | TO_not_started \<Rightarrow> terminalReasons p nodes states (taskId # visiting)
             | TO_active \<Rightarrow> []
             | TO_succeeded \<Rightarrow> [])) (deps_in nodes taskId))))"
  by pat_completeness auto
termination
proof (relation "measure (\<lambda>(taskId, nodes, states, visiting). card (set (map fst nodes) - set visiting))")
  fix taskId p :: string and nodes :: node_map and states :: state_map and visiting
  assume new: "taskId \<notin> set visiting" and p: "p \<in> set (deps_in nodes taskId)"
  from p have "taskId \<in> set (map fst nodes)"
    by (cases "map_of nodes taskId") (auto simp: deps_in_def dest: map_of_SomeD intro: rev_image_eqI)
  with new have less: "set (map fst nodes) - set (taskId # visiting) \<subset> set (map fst nodes) - set visiting" by auto
  show "((p, nodes, states, taskId # visiting), (taskId, nodes, states, visiting))
      \<in> measure (\<lambda>(taskId, nodes, states, visiting). card (set (map fst nodes) - set visiting))"
    using psubset_card_mono [OF _ less] by simp
  show "((p, nodes, states, taskId # visiting), (taskId, nodes, states, visiting))
      \<in> measure (\<lambda>(taskId, nodes, states, visiting). card (set (map fst nodes) - set visiting))"
    using psubset_card_mono [OF _ less] by simp
qed simp

declare terminalReasons.simps [simp del]

definition gate_reasons :: "planning_state \<Rightarrow> string \<Rightarrow> blocking_reason list" where
  "gate_reasons s p =
     (if ps_completionContract s \<noteq> G_passed
      then [source_reason (if ps_completionContract s = G_failed then ''completion_contract_failed''
             else ''completion_contract_pending'') p] else []) @
     (if ps_integration s \<noteq> IG_passed
      then [source_reason (if ps_integration s = IG_reconciliation_required then ''integration_reconciliation_required''
             else ''integration_pending'') p] else []) @
     (if ps_combinedVerification s \<noteq> G_passed
      then [source_reason (if ps_combinedVerification s = G_failed then ''combined_verification_failed''
             else ''combined_verification_pending'') p] else [])"

definition pending_reasons :: "state_map \<Rightarrow> string \<Rightarrow> blocking_reason list" where
  "pending_reasons states p =
     (case map_of states p of
        None \<Rightarrow> [source_reason ''predecessor_pending'' p]
      | Some predecessor \<Rightarrow>
          if ps_outcome predecessor \<noteq> TO_succeeded then [source_reason ''predecessor_pending'' p]
          else gate_reasons predecessor p)"

definition dependencyReasons :: "dag_node \<Rightarrow> node_map \<Rightarrow> state_map \<Rightarrow> blocking_reason list" where
  "dependencyReasons node nodes states =
     (let ends = terminalReasons (node_id node) nodes states [] in
      if ends \<noteq> [] then ends
      else canonicalReasons (concat (map (pending_reasons states) (sort (node_deps node)))))"

section \<open>The wave\<close>

fun repeated :: "string list \<Rightarrow> string list \<Rightarrow> string list" where
  "repeated seen [] = []"
| "repeated seen (x # xs) = (if x \<in> set seen then [x] else []) @ repeated (js_add x seen) xs"

definition duplicateResourceIds :: "string \<Rightarrow> string list \<Rightarrow> dag_diagnostic list" where
  "duplicateResourceIds kind ids = map (\<lambda>i.
     \<lparr>dg_code = ''task-wave.duplicate-'' @ kind @ ''-observation'',
      dg_message = ''Wave snapshot contains more than one '' @ kind @ '' observation for '' @ quoted i @ ''.'',
      dg_taskIds = []\<rparr>) (repeated [] ids)"

definition resource_diagnostics :: "wave_snapshot \<Rightarrow> dag_diagnostic list" where
  "resource_diagnostics snapshot = sort_key dg_code
     (duplicateResourceIds ''profile'' (map pc_profileId (ws_profiles snapshot)) @
      duplicateResourceIds ''account'' (map ac_accountId (ws_accounts snapshot)) @
      duplicateResourceIds ''writer-lease'' (map wl_repositoryId (ws_writerLeases snapshot)))"

definition wave_validation :: "wave_snapshot \<Rightarrow> dag_validation" where
  "wave_validation snapshot =
     (let base = validateTaskDag (ws_dag snapshot) (Some (ws_tasks snapshot)); resources = resource_diagnostics snapshot
      in base\<lparr>dv_valid := dv_valid base \<and> resources = [],
           dv_topologicalOrder := (if resources = [] then dv_topologicalOrder base else []),
           dv_diagnostics := dv_diagnostics base @ resources\<rparr>)"

text \<open>The budgets and the results of the selection loop.\<close>

record wave_state =
  wv_accounts :: "(string, int) jsmap"
  wv_slots :: int
  wv_selected :: "string list"
  wv_decisions :: "wave_decision list"

definition decide :: "string \<Rightarrow> classification \<Rightarrow> blocking_reason list \<Rightarrow> wave_state \<Rightarrow> wave_state" where
  "decide taskId c rs st = st\<lparr>wv_decisions := wv_decisions st @
     [\<lparr>wd_taskId = taskId, wd_classification = c, wd_blockingReasons = rs\<rparr>]\<rparr>"

definition snapshot_nodes :: "wave_snapshot \<Rightarrow> node_map" where
  "snapshot_nodes snapshot = js_map_of (map (\<lambda>n. (node_id n, n)) (dag_nodes (ws_dag snapshot)))"

definition snapshot_states :: "wave_snapshot \<Rightarrow> state_map" where
  "snapshot_states snapshot = js_map_of (map (\<lambda>s. (ps_taskId s, s)) (ws_tasks snapshot))"

definition remaining :: "wave_state \<Rightarrow> string \<Rightarrow> int" where
  "remaining st a = (case map_of (wv_accounts st) a of None \<Rightarrow> 0 | Some n \<Rightarrow> n)"

definition profile_available :: "wave_snapshot \<Rightarrow> string \<Rightarrow> bool" where
  "profile_available snapshot k = (case map_of (js_map_of (map (\<lambda>p. (pc_profileId p, p)) (ws_profiles snapshot))) k of
     None \<Rightarrow> False | Some p \<Rightarrow> pc_available p)"

definition lease_available :: "wave_snapshot \<Rightarrow> string \<Rightarrow> bool" where
  "lease_available snapshot k = (case map_of (js_map_of (map (\<lambda>l. (wl_repositoryId l, l)) (ws_writerLeases snapshot))) k of
     None \<Rightarrow> False | Some l \<Rightarrow> wl_available l)"

definition known_account :: "wave_snapshot \<Rightarrow> string \<Rightarrow> bool" where
  "known_account snapshot k \<longleftrightarrow> map_of (js_map_of (map (\<lambda>a. (ac_accountId a, a)) (ws_accounts snapshot))) k \<noteq> None"

definition account_reasons :: "wave_snapshot \<Rightarrow> wave_state \<Rightarrow> dag_node \<Rightarrow> blocking_reason list" where
  "account_reasons snapshot st node =
     (case dn_accountId node of
        None \<Rightarrow> []
      | Some a \<Rightarrow>
          if \<not> known_account snapshot a then [(reason ''account_capacity_unknown'')\<lparr>br_accountId := Some a\<rparr>]
          else if remaining st a \<le> 0 then [(reason ''account_capacity_exhausted'')\<lparr>br_accountId := Some a\<rparr>]
          else [])"

definition blockers :: "wave_snapshot \<Rightarrow> wave_state \<Rightarrow> dag_node \<Rightarrow> blocking_reason list" where
  "blockers snapshot st node =
     (if ws_unresolvedGraphRevision snapshot then [reason ''graph_revision_pending''] else []) @
     dependencyReasons node (snapshot_nodes snapshot) (snapshot_states snapshot) @
     (if \<not> profile_available snapshot (dn_profileId node)
      then [(reason ''profile_unavailable'')\<lparr>br_profileId := Some (dn_profileId node)\<rparr>] else []) @
     concat (map (\<lambda>r. if lease_available snapshot r then []
       else [(reason ''writer_lease_unavailable'')\<lparr>br_repositoryId := Some r\<rparr>]) (sort (et_writeSet (dn_task node)))) @
     account_reasons snapshot st node @
     (if wv_slots st \<le> 0 then [reason ''run_concurrency_exhausted''] else [])"

definition select_task :: "string \<Rightarrow> dag_node \<Rightarrow> wave_state \<Rightarrow> wave_state" where
  "select_task taskId node st =
     (let st' = st\<lparr>wv_selected := wv_selected st @ [taskId], wv_slots := wv_slots st - 1,
            wv_accounts := (case dn_accountId node of None \<Rightarrow> wv_accounts st
              | Some a \<Rightarrow> AList.update a (remaining st a - 1) (wv_accounts st))\<rparr>
      in decide taskId Selected [] st')"

definition plan_task :: "wave_snapshot \<Rightarrow> bool \<Rightarrow> string \<Rightarrow> wave_state \<Rightarrow> wave_state" where
  "plan_task snapshot valid taskId st =
     (case map_of (snapshot_nodes snapshot) taskId of
        None \<Rightarrow> st
      | Some node \<Rightarrow>
          if \<not> valid then decide taskId Invalid [reason ''graph_invalid''] st
          else if map_option ps_outcome (map_of (snapshot_states snapshot) taskId) \<noteq> Some TO_not_started
          then decide taskId Settled [source_reason ''task_not_pending'' taskId] st
          else (let canonical = canonicalReasons (blockers snapshot st node) in
                if canonical \<noteq> [] then decide taskId Deferred canonical st
                else select_task taskId node st))"

definition initial_wave :: "wave_snapshot \<Rightarrow> wave_state" where
  "initial_wave snapshot =
     \<lparr>wv_accounts = js_map_of (map (\<lambda>a. (ac_accountId a, max 0 (ac_maxConcurrentRuns a - ac_activeRuns a))) (ws_accounts snapshot)),
      wv_slots = max 0 (ws_maxConcurrentWorkers snapshot - ws_activeWorkers snapshot),
      wv_selected = [], wv_decisions = []\<rparr>"

definition planTaskWave :: "wave_snapshot \<Rightarrow> wave_plan" where
  "planTaskWave snapshot =
     (let validation = wave_validation snapshot;
          order = (if dv_valid validation then dv_topologicalOrder validation else sort (map fst (snapshot_nodes snapshot)));
          st = fold (plan_task snapshot (dv_valid validation)) order (initial_wave snapshot)
      in \<lparr>wp_graphId = dag_graphId (ws_dag snapshot), wp_graphRevision = dag_graphRevision (ws_dag snapshot),
          wp_waveOrdinal = ws_waveOrdinal snapshot, wp_validation = validation,
          wp_selectedTaskIds = wv_selected st, wp_decisions = wv_decisions st, wp_plannedAt = ws_recordedAt snapshot\<rparr>)"

section \<open>When nothing blocks\<close>

lemma canonicalReasons_Nil [simp]: "canonicalReasons vs = [] \<longleftrightarrow> vs = []"
proof
  assume "canonicalReasons vs = []"
  moreover have "length (canonicalReasons vs) = length (js_map_of (map (\<lambda>v. (reasonKey v, v)) vs))"
    by (simp add: canonicalReasons_def)
  ultimately have "js_map_of (map (\<lambda>v. (reasonKey v, v)) vs) = []" by simp
  with keys_js_map_of [of "map (\<lambda>v. (reasonKey v, v)) vs"] show "vs = []" by simp
qed (simp add: canonicalReasons_def js_map_of_def)

lemma pending_reasons_Nil: "pending_reasons states p = [] \<longleftrightarrow> (\<exists>q. map_of states p = Some q \<and> settled_state q)"
  by (auto simp: pending_reasons_def gate_reasons_def settled_state_def split: option.splits)

lemma dependencyReasons_Nil:
  "dependencyReasons node nodes states = [] \<Longrightarrow> p \<in> set (node_deps node) \<Longrightarrow> \<exists>q. map_of states p = Some q \<and> settled_state q"
  by (auto simp: dependencyReasons_def Let_def pending_reasons_Nil split: if_splits)

text \<open>What a task of the wave satisfies, apart from the budgets.\<close>

definition runnable :: "wave_snapshot \<Rightarrow> string \<Rightarrow> dag_node \<Rightarrow> bool" where
  "runnable snapshot t node \<longleftrightarrow> map_of (snapshot_nodes snapshot) t = Some node \<and>
     map_option ps_outcome (map_of (snapshot_states snapshot) t) = Some TO_not_started \<and>
     \<not> ws_unresolvedGraphRevision snapshot \<and>
     (\<forall>p \<in> set (node_deps node). \<exists>q. map_of (snapshot_states snapshot) p = Some q \<and> settled_state q) \<and>
     profile_available snapshot (dn_profileId node) \<and>
     (\<forall>r \<in> set (et_writeSet (dn_task node)). lease_available snapshot r) \<and>
     (\<forall>a. dn_accountId node = Some a \<longrightarrow> known_account snapshot a)"

lemma blockers_Nil:
  assumes "blockers snapshot st node = []" "map_of (snapshot_nodes snapshot) t = Some node"
    "map_option ps_outcome (map_of (snapshot_states snapshot) t) = Some TO_not_started"
  shows "runnable snapshot t node" "0 < wv_slots st" "\<And>a. dn_accountId node = Some a \<Longrightarrow> 0 < remaining st a"
  using assms
  by (auto simp: runnable_def blockers_def account_reasons_def dependencyReasons_Nil split: if_splits option.splits)

lemma plan_task_cases:
  obtains (absent) "map_of (snapshot_nodes snapshot) t = None" "plan_task snapshot valid t st = st"
  | (selected) node where "valid" "runnable snapshot t node" "0 < wv_slots st"
      "\<And>a. dn_accountId node = Some a \<Longrightarrow> 0 < remaining st a" "plan_task snapshot valid t st = select_task t node st"
  | (left) node c rs where "map_of (snapshot_nodes snapshot) t = Some node" "c \<noteq> Selected" "rs \<noteq> []" "\<not> valid \<Longrightarrow> c = Invalid"
      "plan_task snapshot valid t st = decide t c rs st"
proof (cases "map_of (snapshot_nodes snapshot) t")
  case None
  then show ?thesis by (intro absent) (simp_all add: plan_task_def)
next
  case (Some node)
  consider "\<not> valid" | "valid" "map_option ps_outcome (map_of (snapshot_states snapshot) t) \<noteq> Some TO_not_started"
    | "valid" "map_option ps_outcome (map_of (snapshot_states snapshot) t) = Some TO_not_started" "blockers snapshot st node \<noteq> []"
    | "valid" "map_option ps_outcome (map_of (snapshot_states snapshot) t) = Some TO_not_started" "blockers snapshot st node = []"
    by blast
  then show ?thesis
  proof cases
    case 1
    then show ?thesis by (intro left [OF Some, of Invalid "[reason ''graph_invalid'']"]) (simp_all add: plan_task_def Some)
  next
    case 2
    then show ?thesis by (intro left [OF Some, of Settled "[source_reason ''task_not_pending'' t]"]) (simp_all add: plan_task_def Some)
  next
    case 3
    then show ?thesis
      by (intro left [OF Some, of Deferred "canonicalReasons (blockers snapshot st node)"]) (simp_all add: plan_task_def Some Let_def)
  next
    case 4
    note b = blockers_Nil [OF 4(3) Some 4(2)]
    from 4 show ?thesis by (intro selected [OF 4(1) b]) (simp_all add: plan_task_def Some Let_def)
  qed
qed

section \<open>The invariant of the selection loop\<close>

definition account_of :: "wave_snapshot \<Rightarrow> string \<Rightarrow> string option" where
  "account_of snapshot t = Option.bind (map_of (snapshot_nodes snapshot) t) dn_accountId"

definition wave_inv :: "wave_snapshot \<Rightarrow> bool \<Rightarrow> wave_state \<Rightarrow> bool" where
  "wave_inv snapshot valid st \<longleftrightarrow>
     (\<forall>t \<in> set (wv_selected st). valid \<and> (\<exists>node. runnable snapshot t node)) \<and>
     0 \<le> wv_slots st \<and> int (length (wv_selected st)) + wv_slots st = wv_slots (initial_wave snapshot) \<and>
     (\<forall>a. 0 \<le> remaining st a \<and> int (length (filter (\<lambda>t. account_of snapshot t = Some a) (wv_selected st))) + remaining st a =
        remaining (initial_wave snapshot) a) \<and>
     wv_selected st = map wd_taskId (filter (\<lambda>d. wd_classification d = Selected) (wv_decisions st)) \<and>
     (\<forall>d \<in> set (wv_decisions st). (wd_blockingReasons d = [] \<longleftrightarrow> wd_classification d = Selected) \<and>
        (\<not> valid \<longrightarrow> wd_classification d = Invalid))"

lemma decide_simps [simp]:
  "wv_selected (decide t c rs st) = wv_selected st" "wv_slots (decide t c rs st) = wv_slots st"
  "wv_accounts (decide t c rs st) = wv_accounts st" "remaining (decide t c rs st) a = remaining st a"
  "wv_decisions (decide t c rs st) = wv_decisions st @ [\<lparr>wd_taskId = t, wd_classification = c, wd_blockingReasons = rs\<rparr>]"
  by (simp_all add: decide_def remaining_def)

lemma select_task_simps:
  "wv_selected (select_task t node st) = wv_selected st @ [t]" "wv_slots (select_task t node st) = wv_slots st - 1"
  "remaining (select_task t node st) a = (if dn_accountId node = Some a then remaining st a - 1 else remaining st a)"
  "wv_decisions (select_task t node st) = wv_decisions st @ [\<lparr>wd_taskId = t, wd_classification = Selected, wd_blockingReasons = []\<rparr>]"
  by (auto simp: select_task_def Let_def remaining_def jm.get_put split: option.splits)

lemma remaining_initial: "0 \<le> remaining (initial_wave snapshot) a"
proof -
  have "0 \<le> n" if "map_of (wv_accounts (initial_wave snapshot)) a = Some n" for n
    using that by (auto simp: initial_wave_def get_js_map_of dest!: map_of_SomeD)
  then show ?thesis by (auto simp: remaining_def split: option.splits)
qed

lemma wave_inv_initial: "wave_inv snapshot valid (initial_wave snapshot)"
  using remaining_initial by (simp add: wave_inv_def) (simp add: initial_wave_def)

lemma plan_task_inv:
  assumes "wave_inv snapshot valid st"
  shows "wave_inv snapshot valid (plan_task snapshot valid t st)"
proof (cases rule: plan_task_cases [of snapshot t valid st])
  case absent
  with assms show ?thesis by simp
next
  case (selected node)
  have acc: "account_of snapshot t = dn_accountId node" using selected(2) by (simp add: account_of_def runnable_def)
  have rem: "0 \<le> remaining (select_task t node st) a \<and>
      int (length (filter (\<lambda>t. account_of snapshot t = Some a) (wv_selected (select_task t node st)))) +
        remaining (select_task t node st) a = remaining (initial_wave snapshot) a" for a
  proof -
    from assms have "0 \<le> remaining st a" "int (length (filter (\<lambda>t. account_of snapshot t = Some a) (wv_selected st))) + remaining st a =
        remaining (initial_wave snapshot) a" unfolding wave_inv_def by blast+
    with selected(4) [of a] acc show ?thesis
      by (cases "dn_accountId node = Some a") (simp_all add: select_task_simps)
  qed
  from assms selected(1-3) have "\<forall>t \<in> set (wv_selected (select_task t node st)). valid \<and> (\<exists>node. runnable snapshot t node)"
    "0 \<le> wv_slots (select_task t node st)"
    "int (length (wv_selected (select_task t node st))) + wv_slots (select_task t node st) = wv_slots (initial_wave snapshot)"
    by (auto simp: wave_inv_def select_task_simps)
  with rem assms selected(1) show ?thesis unfolding selected(5) by (simp add: wave_inv_def select_task_simps)
next
  case (left node c rs)
  have "wv_selected st = map wd_taskId (filter (\<lambda>d. wd_classification d = Selected) (wv_decisions st))"
    and ds: "\<forall>d \<in> set (wv_decisions st). (wd_blockingReasons d = [] \<longleftrightarrow> wd_classification d = Selected) \<and>
        (\<not> valid \<longrightarrow> wd_classification d = Invalid)" using assms unfolding wave_inv_def by blast+
  then have "wv_selected st = map wd_taskId (filter (\<lambda>d. wd_classification d = Selected) (wv_decisions (decide t c rs st)))"
    using left(2) by simp
  moreover have "\<forall>d \<in> set (wv_decisions (decide t c rs st)). (wd_blockingReasons d = [] \<longleftrightarrow> wd_classification d = Selected) \<and>
        (\<not> valid \<longrightarrow> wd_classification d = Invalid)" using ds left(2-4) by simp
  ultimately show ?thesis using assms unfolding left(5) wave_inv_def decide_simps(1-4) by blast
qed

lemma plan_fold:
  "wave_inv snapshot valid st \<Longrightarrow> \<forall>t \<in> set ts. map_of (snapshot_nodes snapshot) t \<noteq> None \<Longrightarrow>
   wave_inv snapshot valid (fold (plan_task snapshot valid) ts st) \<and>
   map wd_taskId (wv_decisions (fold (plan_task snapshot valid) ts st)) = map wd_taskId (wv_decisions st) @ ts"
proof (induction ts arbitrary: st)
  case (Cons t ts)
  have "map wd_taskId (wv_decisions (plan_task snapshot valid t st)) = map wd_taskId (wv_decisions st) @ [t]"
    by (cases rule: plan_task_cases [of snapshot t valid st]) (use Cons.prems(2) in \<open>simp_all add: select_task_simps\<close>)
  with Cons plan_task_inv [OF Cons.prems(1), of t] show ?case by simp
qed simp

section \<open>From the loop to the plan\<close>

lemma snapshot_nodes_keys: "map_of (snapshot_nodes snapshot) t \<noteq> None \<longleftrightarrow> t \<in> dag_ids (ws_dag snapshot)"
  using keys_js_map_of [of "map (\<lambda>n. (node_id n, n)) (dag_nodes (ws_dag snapshot))"]
  by (simp add: snapshot_nodes_def map_of_eq_None_iff dag_ids_def image_image)

lemma wave_valid:
  assumes "dv_valid (wave_validation snapshot)"
  shows "well_formed_dag (ws_dag snapshot)" "planning_ok (ws_dag snapshot) (ws_tasks snapshot)"
    "set (dv_topologicalOrder (wave_validation snapshot)) = dag_ids (ws_dag snapshot)"
    "distinct (dv_topologicalOrder (wave_validation snapshot))"
proof -
  let ?v = "validateTaskDag (ws_dag snapshot) (Some (ws_tasks snapshot))"
  from assms have v: "dv_valid ?v" and eq: "dv_topologicalOrder (wave_validation snapshot) = dv_topologicalOrder ?v"
    by (simp_all add: wave_validation_def Let_def)
  then show "well_formed_dag (ws_dag snapshot)" "planning_ok (ws_dag snapshot) (ws_tasks snapshot)"
    by (simp_all add: valid_well_formed_iff)
  show "set (dv_topologicalOrder (wave_validation snapshot)) = dag_ids (ws_dag snapshot)"
    "distinct (dv_topologicalOrder (wave_validation snapshot))"
    unfolding eq using order_of_valid [OF v] by blast+
qed

lemma plan_wave:
  fixes snapshot
  defines "plan \<equiv> planTaskWave snapshot"
  obtains st order where "wp_selectedTaskIds plan = wv_selected st" "wp_decisions plan = wv_decisions st"
    "wp_validation plan = wave_validation snapshot" "wave_inv snapshot (dv_valid (wave_validation snapshot)) st"
    "map wd_taskId (wv_decisions st) = order" "set order = dag_ids (ws_dag snapshot)" "distinct order"
    "dv_valid (wave_validation snapshot) \<Longrightarrow> order = dv_topologicalOrder (wave_validation snapshot)"
proof -
  let ?v = "wave_validation snapshot"
  let ?order = "if dv_valid ?v then dv_topologicalOrder ?v else sort (map fst (snapshot_nodes snapshot))"
  let ?st = "fold (plan_task snapshot (dv_valid ?v)) ?order (initial_wave snapshot)"
  have keys: "set (map fst (snapshot_nodes snapshot)) = dag_ids (ws_dag snapshot)" "distinct (map fst (snapshot_nodes snapshot))"
    unfolding snapshot_nodes_def keys_js_map_of by (simp_all add: dag_ids_def image_image distinct_js_map_of)
  have o: "set ?order = dag_ids (ws_dag snapshot)" "distinct ?order"
    using wave_valid(3,4) [of snapshot] keys by (auto simp del: set_map)
  have "\<forall>t \<in> set ?order. map_of (snapshot_nodes snapshot) t \<noteq> None" using o(1) by (simp only: snapshot_nodes_keys) blast
  from plan_fold [OF wave_inv_initial this]
  have "wave_inv snapshot (dv_valid ?v) ?st" "map wd_taskId (wv_decisions ?st) = ?order"
    by (simp_all add: initial_wave_def)
  with o show ?thesis by (intro that [of ?st ?order]) (simp_all add: plan_def planTaskWave_def Let_def)
qed

text \<open>All transitive prerequisites of a runnable task are settled.\<close>

lemma runnable_ancestors:
  assumes ok: "planning_ok (ws_dag snapshot) (ws_tasks snapshot)" and basic: "basic_dag (ws_dag snapshot)"
    and run: "runnable snapshot t node" and anc: "(p, t) \<in> (dag_rel (ws_dag snapshot))\<^sup>+"
  shows "\<exists>q. map_of (snapshot_states snapshot) p = Some q \<and> settled_state q"
proof -
  let ?R = "dag_rel (ws_dag snapshot)"
  have state: "state_of (ws_tasks snapshot) = map_of (snapshot_states snapshot)"
    by (intro ext) (simp add: state_of_def snapshot_states_def)
  have direct: "\<exists>q. map_of (snapshot_states snapshot) p = Some q \<and> settled_state q" if "(p, t) \<in> ?R" for p
  proof -
    from run have node: "map_of (snapshot_nodes snapshot) t = Some node" by (simp add: runnable_def)
    have dist: "distinct (map node_id (dag_nodes (ws_dag snapshot)))" using basic by (simp add: basic_dag_def)
    then have "snapshot_nodes snapshot = node_index (dag_nodes (ws_dag snapshot))"
      by (simp add: snapshot_nodes_def node_index_def js_map_of_distinct comp_def)
    with node map_of_node_index [OF dist] have "node \<in> set (dag_nodes (ws_dag snapshot))" "node_id node = t" by auto
    with that dist have "p \<in> set (node_deps node)" by (auto simp: dag_rel_def distinct_map inj_on_def)
    with run show ?thesis by (simp add: runnable_def)
  qed
  have step: "\<exists>q. map_of (snapshot_states snapshot) p = Some q \<and> settled_state q"
    if "(p, u) \<in> ?R" "map_of (snapshot_states snapshot) u = Some s" "settled_state s" for p u s
    using ok that unfolding planning_ok_def state by (fastforce simp: settled_state_def)
  show ?thesis using anc
  proof (induction rule: converse_trancl_induct)
    case (base y)
    then show ?case by (rule direct)
  next
    case (step y z)
    then show ?case using \<open>\<And>s u p. (p, u) \<in> ?R \<Longrightarrow> map_of (snapshot_states snapshot) u = Some s \<Longrightarrow> settled_state s \<Longrightarrow>
      \<exists>q. map_of (snapshot_states snapshot) p = Some q \<and> settled_state q\<close> by blast
  qed
qed

text \<open>The runs an account has free.\<close>

definition account_free :: "wave_snapshot \<Rightarrow> string \<Rightarrow> int" where
  "account_free snapshot a = (case map_of (js_map_of (map (\<lambda>x. (ac_accountId x, x)) (ws_accounts snapshot))) a of
     None \<Rightarrow> 0 | Some x \<Rightarrow> max 0 (ac_maxConcurrentRuns x - ac_activeRuns x))"

lemma remaining_free: "remaining (initial_wave snapshot) a = account_free snapshot a"
proof -
  let ?f = "\<lambda>x. max 0 (ac_maxConcurrentRuns x - ac_activeRuns x)"
  have "map_of (rev (map (\<lambda>x. (ac_accountId x, ?f x)) xs)) a = map_option ?f (map_of (rev (map (\<lambda>x. (ac_accountId x, x)) xs)) a)" for xs
    by (induction xs) (auto simp: map_add_def split: option.splits)
  from this [of "ws_accounts snapshot"] show ?thesis
    by (cases "map_of (rev (map (\<lambda>x. (ac_accountId x, x)) (ws_accounts snapshot))) a")
      (simp_all add: remaining_def initial_wave_def account_free_def get_js_map_of)
qed

text \<open>The snapshot's own lists say what a selected task needs: one unambiguous observation of each resource.\<close>

definition unambiguous :: "wave_snapshot \<Rightarrow> bool" where
  "unambiguous snapshot \<longleftrightarrow> distinct (map ps_taskId (ws_tasks snapshot)) \<and> distinct (map pc_profileId (ws_profiles snapshot)) \<and>
     distinct (map ac_accountId (ws_accounts snapshot)) \<and> distinct (map wl_repositoryId (ws_writerLeases snapshot))"

definition succeeded_and_verified :: "wave_snapshot \<Rightarrow> string \<Rightarrow> bool" where
  "succeeded_and_verified snapshot t \<longleftrightarrow> (\<exists>s \<in> set (ws_tasks snapshot). ps_taskId s = t \<and> ps_outcome s = TO_succeeded \<and>
     ps_completionContract s = G_passed \<and> ps_integration s = IG_passed \<and> ps_combinedVerification s = G_passed)"

definition resources_at_hand :: "wave_snapshot \<Rightarrow> dag_node \<Rightarrow> bool" where
  "resources_at_hand snapshot node \<longleftrightarrow>
     (\<exists>p \<in> set (ws_profiles snapshot). pc_profileId p = dn_profileId node \<and> pc_available p) \<and>
     (\<forall>r \<in> set (et_writeSet (dn_task node)). \<exists>l \<in> set (ws_writerLeases snapshot). wl_repositoryId l = r \<and> wl_available l)"

definition ready_to_run :: "wave_snapshot \<Rightarrow> dag_node \<Rightarrow> bool" where
  "ready_to_run snapshot node \<longleftrightarrow> node \<in> set (dag_nodes (ws_dag snapshot)) \<and> \<not> ws_unresolvedGraphRevision snapshot \<and>
     (\<exists>s \<in> set (ws_tasks snapshot). ps_taskId s = node_id node \<and> ps_outcome s = TO_not_started) \<and>
     (\<forall>p \<in> set (node_deps node). succeeded_and_verified snapshot p) \<and> resources_at_hand snapshot node"

definition charged_to :: "wave_snapshot \<Rightarrow> string \<Rightarrow> string \<Rightarrow> bool" where
  "charged_to snapshot a t \<longleftrightarrow> (\<exists>node \<in> set (dag_nodes (ws_dag snapshot)). node_id node = t \<and> dn_accountId node = Some a)"

lemma js_index_SomeD: "map_of (js_map_of (map (\<lambda>x. (f x, x)) xs)) k = Some x \<Longrightarrow> x \<in> set xs \<and> f x = k"
  by (auto simp: get_js_map_of dest!: map_of_SomeD)

lemma repeated_Nil: "repeated seen ids = [] \<longleftrightarrow> distinct ids \<and> set ids \<inter> set seen = {}"
  by (induction ids arbitrary: seen) (auto simp: js_add_def)

lemma sort_key_empty: "sort_key f xs = [] \<longleftrightarrow> xs = []"
  by (metis length_0_conv length_sort)

lemma wave_valid_unambiguous:
  assumes "dv_valid (wave_validation snapshot)"
  shows "unambiguous snapshot"
proof -
  have "resource_diagnostics snapshot = []" using assms by (simp add: wave_validation_def Let_def)
  then have "duplicateResourceIds ''profile'' (map pc_profileId (ws_profiles snapshot)) = []"
    "duplicateResourceIds ''account'' (map ac_accountId (ws_accounts snapshot)) = []"
    "duplicateResourceIds ''writer-lease'' (map wl_repositoryId (ws_writerLeases snapshot)) = []"
    by (simp_all add: resource_diagnostics_def sort_key_empty)
  with wave_valid(2) [OF assms] show ?thesis
    by (simp add: unambiguous_def duplicateResourceIds_def repeated_Nil planning_ok_def)
qed

lemma profile_at_hand:
  assumes "profile_available snapshot k"
  shows "\<exists>p \<in> set (ws_profiles snapshot). pc_profileId p = k \<and> pc_available p"
proof -
  from assms obtain p where "map_of (js_map_of (map (\<lambda>p. (pc_profileId p, p)) (ws_profiles snapshot))) k = Some p" "pc_available p"
    by (auto simp: profile_available_def split: option.splits)
  then show ?thesis by (blast dest: js_index_SomeD)
qed

lemma lease_at_hand:
  assumes "lease_available snapshot k"
  shows "\<exists>l \<in> set (ws_writerLeases snapshot). wl_repositoryId l = k \<and> wl_available l"
proof -
  from assms obtain l where "map_of (js_map_of (map (\<lambda>l. (wl_repositoryId l, l)) (ws_writerLeases snapshot))) k = Some l" "wl_available l"
    by (auto simp: lease_available_def split: option.splits)
  then show ?thesis by (blast dest: js_index_SomeD)
qed

lemma runnable_ready:
  assumes "runnable snapshot t node"
  shows "ready_to_run snapshot node" "node_id node = t"
proof -
  from assms have node: "node \<in> set (dag_nodes (ws_dag snapshot))" "node_id node = t"
    using js_index_SomeD [of node_id "dag_nodes (ws_dag snapshot)" t node] by (simp_all add: runnable_def snapshot_nodes_def)
  have state: "s \<in> set (ws_tasks snapshot)" "ps_taskId s = k" if "map_of (snapshot_states snapshot) k = Some s" for k s
    using that js_index_SomeD [of ps_taskId "ws_tasks snapshot" k s] by (simp_all add: snapshot_states_def)
  from assms have "profile_available snapshot (dn_profileId node)" "\<forall>r \<in> set (et_writeSet (dn_task node)). lease_available snapshot r"
    by (simp_all add: runnable_def)
  then have "resources_at_hand snapshot node"
    using profile_at_hand lease_at_hand by (simp add: resources_at_hand_def)
  moreover have "\<forall>p \<in> set (node_deps node). succeeded_and_verified snapshot p"
    using assms state unfolding runnable_def succeeded_and_verified_def settled_state_def by blast
  moreover have "\<exists>s \<in> set (ws_tasks snapshot). ps_taskId s = node_id node \<and> ps_outcome s = TO_not_started"
    using assms state node(2) unfolding runnable_def map_option_eq_Some by blast
  ultimately show "ready_to_run snapshot node" "node_id node = t" using assms node by (simp_all add: ready_to_run_def runnable_def)
qed

lemma account_of_charged:
  assumes "distinct (map node_id (dag_nodes (ws_dag snapshot)))"
  shows "account_of snapshot t = Some a \<longleftrightarrow> charged_to snapshot a t"
proof -
  have "snapshot_nodes snapshot = node_index (dag_nodes (ws_dag snapshot))"
    using assms by (simp add: snapshot_nodes_def node_index_def js_map_of_distinct comp_def)
  with map_of_node_index [OF assms] show ?thesis
    unfolding account_of_def charged_to_def by (auto simp: bind_eq_Some_conv) 
qed

lemma wave_budgets:
  "int (length (wp_selectedTaskIds (planTaskWave snapshot))) \<le> max 0 (ws_maxConcurrentWorkers snapshot - ws_activeWorkers snapshot) \<and>
   (\<forall>a. int (length (filter (\<lambda>t. account_of snapshot t = Some a) (wp_selectedTaskIds (planTaskWave snapshot)))) \<le>
      account_free snapshot a)"
proof (rule plan_wave [of snapshot])
  fix st assume sel: "wp_selectedTaskIds (planTaskWave snapshot) = wv_selected st"
    and inv: "wave_inv snapshot (dv_valid (wave_validation snapshot)) st"
  from inv have "0 \<le> wv_slots st" "int (length (wv_selected st)) + wv_slots st = wv_slots (initial_wave snapshot)"
    and acc: "\<And>a. 0 \<le> remaining st a" "\<And>a. int (length (filter (\<lambda>t. account_of snapshot t = Some a) (wv_selected st))) + remaining st a =
        remaining (initial_wave snapshot) a" unfolding wave_inv_def by blast+
  moreover have "int (length (filter (\<lambda>t. account_of snapshot t = Some a) (wv_selected st))) \<le> remaining (initial_wave snapshot) a" for a
    using acc(1) [of a] acc(2) [of a] by linarith
  ultimately show ?thesis unfolding sel remaining_free [symmetric] by (simp add: initial_wave_def)
qed

text \<open>Two tasks without prerequisites that write different repositories.\<close>

definition example_pair :: "dag_node list" where
  "example_pair = [example_task ''a'' [], (example_task ''b'' [])\<lparr>dn_task := (dn_task (example_task ''b'' []))\<lparr>et_writeSet := [''s'']\<rparr>\<rparr>]"

definition example_wave :: wave_snapshot where
  "example_wave = \<lparr>ws_dag = example_dag\<lparr>dag_nodes := example_pair\<rparr>, ws_waveOrdinal = 1, ws_unresolvedGraphRevision = False,
     ws_tasks = map (\<lambda>k. \<lparr>ps_taskId = k, ps_outcome = TO_not_started, ps_completionContract = G_pending,
       ps_integration = IG_pending, ps_combinedVerification = G_pending\<rparr>) [''a'', ''b''],
     ws_profiles = [\<lparr>pc_profileId = ''f'', pc_available = True\<rparr>],
     ws_accounts = [\<lparr>ac_accountId = ''acc'', ac_activeRuns = 0, ac_maxConcurrentRuns = 2\<rparr>],
     ws_writerLeases = [\<lparr>wl_repositoryId = ''r'', wl_available = True\<rparr>, \<lparr>wl_repositoryId = ''s'', wl_available = True\<rparr>],
     ws_activeWorkers = 0, ws_maxConcurrentWorkers = 2, ws_recordedAt = ''t1''\<rparr>"

lemma example_wave_selected: "wp_selectedTaskIds (planTaskWave example_wave) = [''a'', ''b'']"
  by code_simp

lemma example_wave_nodes: "snapshot_nodes example_wave = [(''a'', example_pair ! 0), (''b'', example_pair ! 1)]"
  by code_simp

section \<open>Properties\<close>

text \<open>
  C28: a wave selects only runnable tasks. The graph of the snapshot is well formed and every resource is
  observed at most once; a selected task is a task of the graph that has not started, no graph
  revision is pending, each of its dependencies succeeded with its completion contract, integration and
  combined verification passed, its profile and the writer leases of its repositories are
  available; and an account it runs on is in the snapshot with enough free runs for all the tasks
  the wave selects on it.
\<close>

theorem selected_tasks_runnable:
  assumes "t \<in> set (wp_selectedTaskIds (planTaskWave snapshot))"
  shows "well_formed_dag (ws_dag snapshot) \<and> unambiguous snapshot \<and>
    (\<exists>node. node_id node = t \<and> ready_to_run snapshot node \<and>
      (\<forall>a. dn_accountId node = Some a \<longrightarrow> (\<exists>x \<in> set (ws_accounts snapshot). ac_accountId x = a \<and>
        int (length (filter (charged_to snapshot a) (wp_selectedTaskIds (planTaskWave snapshot)))) \<le>
          ac_maxConcurrentRuns x - ac_activeRuns x)))"
proof (rule plan_wave [of snapshot])
  let ?selected = "wp_selectedTaskIds (planTaskWave snapshot)"
  fix st assume "wp_selectedTaskIds (planTaskWave snapshot) = wv_selected st" "wave_inv snapshot (dv_valid (wave_validation snapshot)) st"
  with assms obtain node where valid: "dv_valid (wave_validation snapshot)" and run: "runnable snapshot t node"
    unfolding wave_inv_def by metis
  have wf: "well_formed_dag (ws_dag snapshot)" by (rule wave_valid(1) [OF valid])
  then have dist: "distinct (map node_id (dag_nodes (ws_dag snapshot)))" by (simp add: well_formed_dag_def basic_dag_def)
  note ready = runnable_ready [OF run]
  have "\<exists>x \<in> set (ws_accounts snapshot). ac_accountId x = a \<and>
      int (length (filter (charged_to snapshot a) ?selected)) \<le> ac_maxConcurrentRuns x - ac_activeRuns x"
    if a: "dn_accountId node = Some a" for a
  proof -
    from run a obtain x where x: "map_of (js_map_of (map (\<lambda>x. (ac_accountId x, x)) (ws_accounts snapshot))) a = Some x"
      by (auto simp: runnable_def known_account_def)
    have "charged_to snapshot a t" using ready a by (auto simp: charged_to_def ready_to_run_def)
    then have "filter (charged_to snapshot a) ?selected \<noteq> []" using assms by (auto simp: filter_empty_conv)
    moreover have "int (length (filter (charged_to snapshot a) ?selected)) \<le> account_free snapshot a"
      using wave_budgets [of snapshot] by (simp add: account_of_charged [OF dist])
    ultimately have "int (length (filter (charged_to snapshot a) ?selected)) \<le> ac_maxConcurrentRuns x - ac_activeRuns x"
      by (simp add: account_free_def x max_def split: if_splits)
    with js_index_SomeD [OF x] show ?thesis by blast
  qed
  with wf wave_valid_unambiguous [OF valid] ready show ?thesis by blast
qed

theorem selected_tasks_runnable_witness:
  "wp_selectedTaskIds (planTaskWave example_wave) = [''a'', ''b''] \<and> (\<exists>node. node_id node = ''a'' \<and> ready_to_run example_wave node)"
  using selected_tasks_runnable [of "''a''" example_wave] by (auto simp: example_wave_selected)

text \<open>
  A wave keeps its budgets: it selects at most as many tasks as there are free workers, and for
  every account at most as many as the account has free runs.
\<close>

theorem wave_within_budgets:
  "int (length (wp_selectedTaskIds (planTaskWave snapshot))) \<le> max 0 (ws_maxConcurrentWorkers snapshot - ws_activeWorkers snapshot) \<and>
   (\<forall>a. int (length (filter (\<lambda>t. account_of snapshot t = Some a) (wp_selectedTaskIds (planTaskWave snapshot)))) \<le>
      account_free snapshot a)"
  by (rule wave_budgets)

text \<open>
  C29: the tasks of one wave never write the same repository: two different selected tasks have disjoint
  write sets, because tasks that share a repository are ordered and a prerequisite of a selected
  task has already succeeded.
\<close>

theorem wave_writers_disjoint:
  assumes "t \<in> set (wp_selectedTaskIds (planTaskWave snapshot))" "u \<in> set (wp_selectedTaskIds (planTaskWave snapshot))" "t \<noteq> u"
    "map_of (snapshot_nodes snapshot) t = Some n" "map_of (snapshot_nodes snapshot) u = Some m"
  shows "set (et_writeSet (dn_task n)) \<inter> set (et_writeSet (dn_task m)) = {}"
proof (rule plan_wave [of snapshot], rule ccontr)
  fix st assume sel: "wp_selectedTaskIds (planTaskWave snapshot) = wv_selected st"
    and inv: "wave_inv snapshot (dv_valid (wave_validation snapshot)) st"
    and share: "set (et_writeSet (dn_task n)) \<inter> set (et_writeSet (dn_task m)) \<noteq> {}"
  have run: "dv_valid (wave_validation snapshot) \<and> (\<exists>node. runnable snapshot x node)" if "x \<in> {t, u}" for x
    using inv assms(1,2) that unfolding sel wave_inv_def by blast
  note wf = wave_valid [OF conjunct1 [OF run [of t, simplified]]]
  have basic: "basic_dag (ws_dag snapshot)" and wr: "ordered_writers (ws_dag snapshot)" using wf(1) by (simp_all add: well_formed_dag_def)
  have dist: "distinct (map node_id (dag_nodes (ws_dag snapshot)))" using basic by (simp add: basic_dag_def)
  have "snapshot_nodes snapshot = node_index (dag_nodes (ws_dag snapshot))"
    using dist by (simp add: snapshot_nodes_def node_index_def js_map_of_distinct comp_def)
  with assms(4,5) map_of_node_index [OF dist] have
    nm: "n \<in> set (dag_nodes (ws_dag snapshot))" "node_id n = t" "m \<in> set (dag_nodes (ws_dag snapshot))" "node_id m = u" by auto
  with wr share assms(3) have "(t, u) \<in> (dag_rel (ws_dag snapshot))\<^sup>+ \<or> (u, t) \<in> (dag_rel (ws_dag snapshot))\<^sup>+"
    unfolding ordered_writers_def by blast
  then have "\<exists>x \<in> {t, u}. \<exists>q. map_of (snapshot_states snapshot) x = Some q \<and> settled_state q"
    using run runnable_ancestors [OF wf(2) basic] by blast
  moreover have "map_option ps_outcome (map_of (snapshot_states snapshot) x) = Some TO_not_started" if "x \<in> {t, u}" for x
    using run [OF that] by (auto simp: runnable_def)
  ultimately show False by (fastforce simp: settled_state_def)
qed

theorem wave_writers_disjoint_witness:
  "set (et_writeSet (dn_task (example_pair ! 0))) \<inter> set (et_writeSet (dn_task (example_pair ! 1))) = {}"
  using wave_writers_disjoint [of "''a''" example_wave "''b''" "example_pair ! 0" "example_pair ! 1"]
  by (simp add: example_wave_selected example_wave_nodes)

text \<open>
  The eligibility trace is complete: a plan decides every task of the graph exactly once, in the
  topological order when the snapshot is valid; the selected tasks are the decisions
  classified so, in that order; a decision has blocking reasons exactly when it does not select; and in an
  invalid snapshot every task is classified invalid.
\<close>

theorem wave_trace_complete:
  "(\<exists>order. map wd_taskId (wp_decisions (planTaskWave snapshot)) = order \<and> distinct order \<and> set order = dag_ids (ws_dag snapshot) \<and>
     (dv_valid (wp_validation (planTaskWave snapshot)) \<longrightarrow> order = dv_topologicalOrder (wp_validation (planTaskWave snapshot)))) \<and>
   wp_selectedTaskIds (planTaskWave snapshot) =
     map wd_taskId (filter (\<lambda>d. wd_classification d = Selected) (wp_decisions (planTaskWave snapshot))) \<and>
   (\<forall>d \<in> set (wp_decisions (planTaskWave snapshot)). (wd_blockingReasons d = [] \<longleftrightarrow> wd_classification d = Selected) \<and>
     (\<not> dv_valid (wp_validation (planTaskWave snapshot)) \<longrightarrow> wd_classification d = Invalid))"
proof (rule plan_wave [of snapshot])
  fix st order assume eqs: "wp_selectedTaskIds (planTaskWave snapshot) = wv_selected st"
      "wp_decisions (planTaskWave snapshot) = wv_decisions st" "wp_validation (planTaskWave snapshot) = wave_validation snapshot"
    and inv: "wave_inv snapshot (dv_valid (wave_validation snapshot)) st"
    and o: "map wd_taskId (wv_decisions st) = order" "set order = dag_ids (ws_dag snapshot)" "distinct order"
      "dv_valid (wave_validation snapshot) \<Longrightarrow> order = dv_topologicalOrder (wave_validation snapshot)"
  have "\<exists>order. map wd_taskId (wv_decisions st) = order \<and> distinct order \<and> set order = dag_ids (ws_dag snapshot) \<and>
     (dv_valid (wave_validation snapshot) \<longrightarrow> order = dv_topologicalOrder (wave_validation snapshot))"
    using o by blast
  moreover have "wv_selected st = map wd_taskId (filter (\<lambda>d. wd_classification d = Selected) (wv_decisions st))"
    "\<forall>d \<in> set (wv_decisions st). (wd_blockingReasons d = [] \<longleftrightarrow> wd_classification d = Selected) \<and>
        (\<not> dv_valid (wave_validation snapshot) \<longrightarrow> wd_classification d = Invalid)"
    using inv unfolding wave_inv_def by blast+
  ultimately show ?thesis unfolding eqs by (intro conjI)
qed

theorem wave_trace_complete_witness:
  "wp_selectedTaskIds (planTaskWave example_wave) =
     map wd_taskId (filter (\<lambda>d. wd_classification d = Selected) (wp_decisions (planTaskWave example_wave))) \<and>
   dag_ids (ws_dag example_wave) = {''a'', ''b''}"
  using wave_trace_complete [of example_wave] by (simp add: example_wave_def dag_ids_def example_pair_def example_task_def)

end
