(* ===== verification/Task_Revise.thy ===== *)
theory Task_Revise
  imports Task_Wave
begin

text \<open>
  Revisions of a task graph (\<open>packages/pipeline/src/task-graph/revise.ts\<close>): canonical JSON and the
  digest of a revision, the canonical form of graphs, changes and proposals, structural waves, and the
  validation that decides a proposal and builds the successor record. The records encode
  themselves as JSON objects; \<open>canonicalJson\<close> sorts the keys, so the order of the fields in the
  encoding does not matter.
\<close>

section \<open>Canonical JSON\<close>

fun canonicalValue :: "json \<Rightarrow> json" where
  "canonicalValue (JArr vs) = JArr (map canonicalValue vs)"
| "canonicalValue (JObj kvs) = JObj (sort_key fst (map (\<lambda>(k, v). (k, canonicalValue v)) kvs))"
| "canonicalValue v = v"

definition canonicalJson :: "platform \<Rightarrow> json \<Rightarrow> string" where
  "canonicalJson pl v = json_stringify pl (canonicalValue v)"

definition taskGraphRevisionSha256 :: "platform \<Rightarrow> json \<Rightarrow> string" where
  "taskGraphRevisionSha256 pl v = sha256 pl (canonicalJson pl v)"

definition json_nat :: "nat \<Rightarrow> json" where "json_nat n = JNum (Fin (of_nat n))"
definition json_strs :: "string list \<Rightarrow> json" where "json_strs ss = JArr (map JStr ss)"
definition json_nullable :: "string option \<Rightarrow> json" where
  "json_nullable x = (case x of None \<Rightarrow> JNull | Some s \<Rightarrow> JStr s)"

definition task_json :: "exec_task \<Rightarrow> json" where
  "task_json t = JObj ([(''taskId'', JStr (et_taskId t)), (''revision'', json_nat (et_revision t)),
     (''revisionSha256'', JStr (et_revisionSha256 t)),
     (''predecessorRevisionSha256'', json_nullable (et_predecessorRevisionSha256 t)),
     (''readSet'', json_strs (et_readSet t)), (''writeSet'', json_strs (et_writeSet t)),
     (''excludedRepositories'', JArr (et_excludedRepositories t)), (''dependencies'', json_strs (et_dependencies t)),
     (''artifacts'', JArr (et_artifacts t)), (''verification'', JArr (et_verification t)),
     (''createdAt'', JStr (et_createdAt t))] @ et_content t)"

definition node_fields :: "dag_node \<Rightarrow> json \<Rightarrow> json" where
  "node_fields n task = JObj ([(''task'', task)] @
     (case dn_pipelineId n of None \<Rightarrow> [] | Some p \<Rightarrow> [(''pipelineId'', JStr p)]) @
     [(''profileId'', JStr (dn_profileId n)), (''accountId'', json_nullable (dn_accountId n))])"

definition node_json :: "dag_node \<Rightarrow> json" where
  "node_json n = node_fields n (task_json (dn_task n))"

definition dag_json :: "task_dag \<Rightarrow> json" where
  "dag_json dag = JObj [(''schemaVersion'', json_nat 2), (''graphId'', JStr (dag_graphId dag)),
     (''graphRevision'', json_nat (dag_graphRevision dag)), (''nodes'', JArr (map node_json (dag_nodes dag))),
     (''createdAt'', JStr (dag_createdAt dag))]"

section \<open>Changes, mappings and proposals\<close>

datatype change_kind = CK_add | CK_split | CK_merge | CK_reorder | CK_supersede

fun change_kind_name :: "change_kind \<Rightarrow> string" where
  "change_kind_name CK_add = ''add''"
| "change_kind_name CK_split = ''split''"
| "change_kind_name CK_merge = ''merge''"
| "change_kind_name CK_reorder = ''reorder''"
| "change_kind_name CK_supersede = ''supersede''"

record graph_change =
  gc_kind :: change_kind
  gc_beforeTaskIds :: "string list"
  gc_afterTaskIds :: "string list"
  gc_rationale :: string
  gc_evidenceArtifactIds :: "string list"

record requirement_mapping =
  rm_sourceWorkItemId :: string
  rm_requirementId :: string
  rm_beforeTaskIds :: "string list"
  rm_afterTaskIds :: "string list"
  rm_rationale :: string

record structural_wave =
  sw_ordinal :: nat
  sw_taskIds :: "string list"

record revision_trigger =
  rt_findingId :: string
  rt_interruptedTaskIds :: "string list"

record revision_proposal =
  rp_schemaVersion :: nat
  rp_runId :: string
  rp_graphId :: string
  rp_expectedGraphRevision :: nat
  rp_expectedRevisionSha256 :: string
  rp_proposedDag :: task_dag
  rp_changes :: "graph_change list"
  rp_requirementMappings :: "requirement_mapping list"
  rp_rationale :: string
  rp_evidenceArtifactIds :: "string list"
  rp_proposedAt :: string
  rp_trigger :: "revision_trigger option"

record revision_record =
  rr_schemaVersion :: nat
  rr_runId :: string
  rr_graphId :: string
  rr_graphRevision :: nat
  rr_revisionSha256 :: string
  rr_predecessorRevisionSha256 :: "string option"
  rr_dag :: task_dag
  rr_changes :: "graph_change list"
  rr_requirementMappings :: "requirement_mapping list"
  rr_rationale :: string
  rr_evidenceArtifactIds :: "string list"
  rr_decisionId :: "string option"
  rr_committedAt :: string
  rr_trigger :: "revision_trigger option"

record hidden_finding =
  hf_findingId :: string
  hf_runId :: string
  hf_graphId :: string
  hf_graphRevision :: nat
  hf_revisionSha256 :: string
  hf_affectedTaskIds :: "string list"
  hf_evidenceArtifactIds :: "string list"

record revision_context =
  rx_current :: revision_record
  rx_taskStates :: "planning_state list"
  rx_hiddenDependencyFinding :: "hidden_finding option"
  rx_maxGraphRevisions :: nat
  rx_decisionId :: string
  rx_decidedAt :: string

datatype revision_outcome = RO_accepted | RO_rejected

record revision_decision =
  re_schemaVersion :: nat
  re_decisionId :: string
  re_runId :: string
  re_graphId :: string
  re_proposal :: revision_proposal
  re_proposalSha256 :: string
  re_expectedGraphRevision :: nat
  re_outcome :: revision_outcome
  re_proposedRevisionSha256 :: "string option"
  re_diagnostics :: "dag_diagnostic list"
  re_beforeWaves :: "structural_wave list"
  re_afterWaves :: "structural_wave list"
  re_affectedTaskIds :: "string list"
  re_affectedWaveOrdinals :: "nat list"
  re_taskStates :: "planning_state list"
  re_maxGraphRevisions :: nat
  re_decidedAt :: string
  re_trigger :: "revision_trigger option"

definition change_json :: "graph_change \<Rightarrow> json" where
  "change_json c = JObj [(''kind'', JStr (change_kind_name (gc_kind c))), (''beforeTaskIds'', json_strs (gc_beforeTaskIds c)),
     (''afterTaskIds'', json_strs (gc_afterTaskIds c)), (''rationale'', JStr (gc_rationale c)),
     (''evidenceArtifactIds'', json_strs (gc_evidenceArtifactIds c))]"

definition mapping_json :: "requirement_mapping \<Rightarrow> json" where
  "mapping_json r = JObj [(''sourceWorkItemId'', JStr (rm_sourceWorkItemId r)), (''requirementId'', JStr (rm_requirementId r)),
     (''beforeTaskIds'', json_strs (rm_beforeTaskIds r)), (''afterTaskIds'', json_strs (rm_afterTaskIds r)),
     (''rationale'', JStr (rm_rationale r))]"

definition trigger_fields :: "revision_trigger option \<Rightarrow> (string \<times> json) list" where
  "trigger_fields t = (case t of None \<Rightarrow> [] | Some t \<Rightarrow> [(''trigger'', JObj [(''kind'', JStr ''hidden_dependency''),
     (''findingId'', JStr (rt_findingId t)), (''interruptedTaskIds'', json_strs (rt_interruptedTaskIds t))])])"

definition proposal_json :: "revision_proposal \<Rightarrow> json" where
  "proposal_json p = JObj ([(''schemaVersion'', json_nat (rp_schemaVersion p)), (''runId'', JStr (rp_runId p)),
     (''graphId'', JStr (rp_graphId p)), (''expectedGraphRevision'', json_nat (rp_expectedGraphRevision p)),
     (''expectedRevisionSha256'', JStr (rp_expectedRevisionSha256 p)), (''proposedDag'', dag_json (rp_proposedDag p)),
     (''changes'', JArr (map change_json (rp_changes p))),
     (''requirementMappings'', JArr (map mapping_json (rp_requirementMappings p))), (''rationale'', JStr (rp_rationale p)),
     (''evidenceArtifactIds'', json_strs (rp_evidenceArtifactIds p)), (''proposedAt'', JStr (rp_proposedAt p))] @
     trigger_fields (rp_trigger p))"

text \<open>The part of a record that is hashed: everything but its version and the digest itself.\<close>

definition core_json :: "revision_record \<Rightarrow> json" where
  "core_json r = JObj ([(''runId'', JStr (rr_runId r)), (''graphId'', JStr (rr_graphId r)),
     (''graphRevision'', json_nat (rr_graphRevision r)),
     (''predecessorRevisionSha256'', json_nullable (rr_predecessorRevisionSha256 r)), (''dag'', dag_json (rr_dag r)),
     (''changes'', JArr (map change_json (rr_changes r))),
     (''requirementMappings'', JArr (map mapping_json (rr_requirementMappings r))), (''rationale'', JStr (rr_rationale r)),
     (''evidenceArtifactIds'', json_strs (rr_evidenceArtifactIds r)), (''decisionId'', json_nullable (rr_decisionId r)),
     (''committedAt'', JStr (rr_committedAt r))] @ trigger_fields (rr_trigger r))"

section \<open>Canonical forms\<close>

definition canonical_task :: "platform \<Rightarrow> exec_task \<Rightarrow> exec_task" where
  "canonical_task pl t = t\<lparr>et_readSet := sort (et_readSet t), et_writeSet := sort (et_writeSet t),
     et_dependencies := sort (et_dependencies t),
     et_excludedRepositories := sort_key (canonicalJson pl) (et_excludedRepositories t),
     et_artifacts := sort_key (canonicalJson pl) (et_artifacts t),
     et_verification := sort_key (canonicalJson pl) (et_verification t)\<rparr>"

definition canonicalDag :: "platform \<Rightarrow> task_dag \<Rightarrow> task_dag" where
  "canonicalDag pl dag = dag\<lparr>dag_nodes := sort_key (\<lambda>n. node_id n @ CHR 0x00 # canonicalJson pl (node_json n))
     (map (\<lambda>n. n\<lparr>dn_task := canonical_task pl (dn_task n)\<rparr>) (dag_nodes dag))\<rparr>"

definition canonicalChange :: "graph_change \<Rightarrow> graph_change" where
  "canonicalChange c = c\<lparr>gc_beforeTaskIds := sort (gc_beforeTaskIds c), gc_afterTaskIds := sort (gc_afterTaskIds c),
     gc_evidenceArtifactIds := sort (gc_evidenceArtifactIds c)\<rparr>"

definition mappingKey :: "requirement_mapping \<Rightarrow> string" where
  "mappingKey r = rm_sourceWorkItemId r @ CHR 0x00 # rm_requirementId r"

definition canonicalMapping :: "requirement_mapping \<Rightarrow> requirement_mapping" where
  "canonicalMapping r = r\<lparr>rm_beforeTaskIds := sort (rm_beforeTaskIds r), rm_afterTaskIds := sort (rm_afterTaskIds r)\<rparr>"

definition canonical_mappings :: "platform \<Rightarrow> requirement_mapping list \<Rightarrow> requirement_mapping list" where
  "canonical_mappings pl rs = sort_key (\<lambda>r. mappingKey r @ CHR 0x00 # canonicalJson pl (mapping_json r)) (map canonicalMapping rs)"

definition canonicalProposal :: "platform \<Rightarrow> revision_proposal \<Rightarrow> revision_proposal" where
  "canonicalProposal pl p = p\<lparr>rp_proposedDag := canonicalDag pl (rp_proposedDag p),
     rp_changes := sort_key (\<lambda>c. canonicalJson pl (change_json c)) (map canonicalChange (rp_changes p)),
     rp_requirementMappings := canonical_mappings pl (rp_requirementMappings p),
     rp_evidenceArtifactIds := sort (rp_evidenceArtifactIds p)\<rparr>"

section \<open>Structural waves\<close>

definition dag_node_map :: "task_dag \<Rightarrow> node_map" where
  "dag_node_map dag = js_map_of (map (\<lambda>n. (node_id n, n)) (dag_nodes dag))"

definition wave_ordinal :: "node_map \<Rightarrow> string \<Rightarrow> (string, nat) jsmap \<Rightarrow> nat" where
  "wave_ordinal nodes taskId ordinal =
     fold (\<lambda>p maximum. max maximum (case map_of ordinal p of None \<Rightarrow> 0 | Some n \<Rightarrow> n)) (deps_in nodes taskId) 0 + 1"

definition wave_ordinals :: "node_map \<Rightarrow> string list \<Rightarrow> (string, nat) jsmap" where
  "wave_ordinals nodes order =
     fold (\<lambda>taskId ordinal. AList.update taskId (wave_ordinal nodes taskId ordinal) ordinal) order []"

definition group_waves :: "(string, nat) jsmap \<Rightarrow> (nat, string list) jsmap" where
  "group_waves ordinal = fold (\<lambda>(taskId, wave) grouped.
     AList.update wave ((case map_of grouped wave of None \<Rightarrow> [] | Some ids \<Rightarrow> ids) @ [taskId]) grouped) ordinal []"

definition computeWaves :: "task_dag \<Rightarrow> structural_wave list" where
  "computeWaves dag =
     (let validation = validateTaskDag dag None in
      if \<not> dv_valid validation then []
      else map (\<lambda>(wave, taskIds). \<lparr>sw_ordinal = wave, sw_taskIds = sort taskIds\<rparr>)
        (sort_key fst (group_waves (wave_ordinals (dag_node_map dag) (dv_topologicalOrder validation)))))"

definition waveMembership :: "structural_wave list \<Rightarrow> (string, nat) jsmap" where
  "waveMembership waves = js_map_of (concat (map (\<lambda>w. map (\<lambda>t. (t, sw_ordinal w)) (sw_taskIds w)) waves))"

section \<open>The shape and the meaning of a change\<close>

definition valid_shape :: "graph_change \<Rightarrow> bool" where
  "valid_shape c \<longleftrightarrow>
     (let before = length (gc_beforeTaskIds c); after = length (gc_afterTaskIds c) in
      (case gc_kind c of
         CK_add \<Rightarrow> before = 0 \<and> after = 1
       | CK_split \<Rightarrow> before = 1 \<and> 2 \<le> after
       | CK_merge \<Rightarrow> 2 \<le> before \<and> after = 1
       | CK_reorder \<Rightarrow> before = 1 \<and> after = 1 \<and> hd (gc_beforeTaskIds c) = hd (gc_afterTaskIds c)
       | CK_supersede \<Rightarrow> before = 1 \<and> after \<le> 1))"

definition operationShapeDiagnostic :: "graph_change \<Rightarrow> dag_diagnostic option" where
  "operationShapeDiagnostic c =
     (if valid_shape c then None
      else Some (diagnostic ''task-graph-revision.invalid-change-shape''
        (''Change kind '' @ quoted (change_kind_name (gc_kind c)) @ '' has invalid before/after cardinality.'')
        (gc_beforeTaskIds c @ gc_afterTaskIds c)))"

definition node_text :: "platform \<Rightarrow> dag_node option \<Rightarrow> string option" where
  "node_text pl n = map_option (\<lambda>n. canonicalJson pl (node_json n)) n"

definition changedTaskIds :: "platform \<Rightarrow> task_dag \<Rightarrow> task_dag \<Rightarrow> string list" where
  "changedTaskIds pl before after =
     (let left = dag_node_map before; right = dag_node_map after in
      sort (filter (\<lambda>t. node_text pl (map_of left t) \<noteq> node_text pl (map_of right t))
        (js_set_of (map fst left @ map fst right))))"

text \<open>The node without the parts of its task that a reorder may change.\<close>

definition reorderContent :: "dag_node \<Rightarrow> json" where
  "reorderContent n =
     (let t = dn_task n in node_fields n (JObj ([(''taskId'', JStr (et_taskId t)),
        (''readSet'', json_strs (et_readSet t)), (''writeSet'', json_strs (et_writeSet t)),
        (''excludedRepositories'', JArr (et_excludedRepositories t)),
        (''artifacts'', JArr (et_artifacts t)), (''verification'', JArr (et_verification t))] @ et_content t)))"

definition valid_reorder :: "platform \<Rightarrow> dag_node option \<Rightarrow> dag_node option \<Rightarrow> bool" where
  "valid_reorder pl before after =
     (case (before, after) of
        (Some b, Some a) \<Rightarrow>
          canonicalJson pl (json_strs (node_deps b)) \<noteq> canonicalJson pl (json_strs (node_deps a)) \<and>
          canonicalJson pl (reorderContent b) = canonicalJson pl (reorderContent a)
      | _ \<Rightarrow> False)"

definition valid_semantics :: "platform \<Rightarrow> graph_change \<Rightarrow> node_map \<Rightarrow> node_map \<Rightarrow> bool" where
  "valid_semantics pl c beforeNodes afterNodes \<longleftrightarrow>
     (let beforeExists = (\<forall>t \<in> set (gc_beforeTaskIds c). map_of beforeNodes t \<noteq> None);
          afterExists = (\<forall>t \<in> set (gc_afterTaskIds c). map_of afterNodes t \<noteq> None);
          beforeRemoved = (\<forall>t \<in> set (gc_beforeTaskIds c). map_of afterNodes t = None);
          afterNew = (\<forall>t \<in> set (gc_afterTaskIds c). map_of beforeNodes t = None)
      in beforeExists \<and> afterExists \<and>
         (case gc_kind c of
            CK_add \<Rightarrow> afterNew
          | CK_split \<Rightarrow> beforeRemoved \<and> afterNew
          | CK_merge \<Rightarrow> beforeRemoved \<and> afterNew
          | CK_supersede \<Rightarrow>
              (let beforeTaskId = (case gc_beforeTaskIds c of [] \<Rightarrow> [] | t # _ \<Rightarrow> t) in
               case gc_afterTaskIds c of
                 [] \<Rightarrow> map_of afterNodes beforeTaskId = None
               | afterTaskId # _ \<Rightarrow> afterTaskId = beforeTaskId \<or> (beforeRemoved \<and> afterNew))
          | CK_reorder \<Rightarrow>
              (let taskId = (case gc_beforeTaskIds c of [] \<Rightarrow> [] | t # _ \<Rightarrow> t)
               in valid_reorder pl (map_of beforeNodes taskId) (map_of afterNodes taskId))))"

definition operationSemanticDiagnostics :: "platform \<Rightarrow> graph_change \<Rightarrow> node_map \<Rightarrow> node_map \<Rightarrow> dag_diagnostic list" where
  "operationSemanticDiagnostics pl c beforeNodes afterNodes =
     (if operationShapeDiagnostic c \<noteq> None \<or> valid_semantics pl c beforeNodes afterNodes then []
      else [diagnostic ''task-graph-revision.invalid-change-semantics''
        (''Change kind '' @ quoted (change_kind_name (gc_kind c)) @ '' does not match the derived graph mutation.'')
        (gc_beforeTaskIds c @ gc_afterTaskIds c)])"

section \<open>The checks of a proposal\<close>

text \<open>What every check reads: the context, the canonical proposal and graphs, and the maps over them.\<close>

record revision_view =
  vw_context :: revision_context
  vw_proposal :: revision_proposal
  vw_beforeDag :: task_dag
  vw_beforeNodes :: node_map
  vw_afterNodes :: node_map
  vw_states :: state_map
  vw_trigger :: "revision_trigger option"
  vw_changed :: "string list"

definition view_of :: "platform \<Rightarrow> revision_context \<Rightarrow> revision_proposal \<Rightarrow> revision_view" where
  "view_of pl context proposalInput =
     (let proposal = canonicalProposal pl proposalInput;
          beforeDag = canonicalDag pl (rr_dag (rx_current context));
          afterDag = rp_proposedDag proposal
      in \<lparr>vw_context = context, vw_proposal = proposal, vw_beforeDag = beforeDag,
          vw_beforeNodes = dag_node_map beforeDag, vw_afterNodes = dag_node_map afterDag,
          vw_states = js_map_of (map (\<lambda>s. (ps_taskId s, s)) (rx_taskStates context)),
          vw_trigger = (if rp_schemaVersion proposal = 2 then rp_trigger proposal else None),
          vw_changed = changedTaskIds pl beforeDag afterDag\<rparr>)"

abbreviation outcome_of :: "revision_view \<Rightarrow> string \<Rightarrow> task_outcome option" where
  "outcome_of vw t \<equiv> map_option ps_outcome (map_of (vw_states vw) t)"

definition supersedes_one :: "string \<Rightarrow> graph_change \<Rightarrow> bool" where
  "supersedes_one t c \<longleftrightarrow> gc_kind c = CK_supersede \<and> gc_beforeTaskIds c = [t] \<and> length (gc_afterTaskIds c) = 1"

definition finding_matches :: "revision_view \<Rightarrow> revision_trigger \<Rightarrow> hidden_finding \<Rightarrow> bool" where
  "finding_matches vw trigger f \<longleftrightarrow>
     (let p = vw_proposal vw in
      hf_findingId f = rt_findingId trigger \<and> hf_runId f = rp_runId p \<and> hf_graphId f = rp_graphId p \<and>
      hf_graphRevision f = rp_expectedGraphRevision p \<and> hf_revisionSha256 f = rp_expectedRevisionSha256 p)"

definition evidence_diagnostics :: "revision_view \<Rightarrow> revision_trigger \<Rightarrow> dag_diagnostic list" where
  "evidence_diagnostics vw trigger =
     (case rx_hiddenDependencyFinding (vw_context vw) of
        None \<Rightarrow> [diagnostic ''task-graph-revision.hidden-dependency-evidence-mismatch''
          ''Hidden-dependency revision does not cite matching immutable finding evidence.'' (rt_interruptedTaskIds trigger)]
      | Some f \<Rightarrow>
          if \<not> finding_matches vw trigger f
          then [diagnostic ''task-graph-revision.hidden-dependency-evidence-mismatch''
            ''Hidden-dependency revision does not cite matching immutable finding evidence.'' (rt_interruptedTaskIds trigger)]
          else if length (rt_interruptedTaskIds trigger) \<noteq> length (hf_affectedTaskIds f) \<or>
            (\<exists>t \<in> set (rt_interruptedTaskIds trigger). t \<notin> set (hf_affectedTaskIds f)) \<or>
            (\<exists>a \<in> set (hf_evidenceArtifactIds f). a \<notin> set (rp_evidenceArtifactIds (vw_proposal vw)))
          then [diagnostic ''task-graph-revision.hidden-dependency-evidence-incomplete''
            ''Hidden-dependency revision omits affected tasks or evidence from its finding.'' (rt_interruptedTaskIds trigger)]
          else [])"

definition quiesced :: "revision_view \<Rightarrow> string \<Rightarrow> bool" where
  "quiesced vw t \<longleftrightarrow> map_of (vw_beforeNodes vw) t \<noteq> None \<and> map_of (vw_afterNodes vw) t = None \<and>
     outcome_of vw t = Some TO_cancelled \<and> list_ex (supersedes_one t) (rp_changes (vw_proposal vw))"

definition authorized_supersede :: "revision_view \<Rightarrow> revision_trigger \<Rightarrow> graph_change \<Rightarrow> bool" where
  "authorized_supersede vw trigger c \<longleftrightarrow>
     (case gc_beforeTaskIds c of
        [t] \<Rightarrow> length (gc_afterTaskIds c) = 1 \<and> t \<in> set (rt_interruptedTaskIds trigger) \<and>
          outcome_of vw t = Some TO_cancelled \<and>
          (case rx_hiddenDependencyFinding (vw_context vw) of None \<Rightarrow> False
           | Some f \<Rightarrow> t \<in> set (hf_affectedTaskIds f) \<and>
               (\<forall>a \<in> set (hf_evidenceArtifactIds f). a \<in> set (gc_evidenceArtifactIds c)))
      | _ \<Rightarrow> False)"

definition hidden_diagnostics :: "revision_view \<Rightarrow> dag_diagnostic list" where
  "hidden_diagnostics vw =
     (case vw_trigger vw of
        None \<Rightarrow> []
      | Some trigger \<Rightarrow>
          evidence_diagnostics vw trigger @
          concat (map (\<lambda>t. if quiesced vw t then []
            else [diagnostic ''task-graph-revision.hidden-dependency-task-not-quiesced''
              (''Interrupted task '' @ quoted t @ '' must be cancelled and explicitly superseded.'') [t]])
            (rt_interruptedTaskIds trigger)) @
          concat (map (\<lambda>c. if authorized_supersede vw trigger c then []
            else [diagnostic ''task-graph-revision.hidden-dependency-supersede-unauthorized''
              ''V2 supersede operations may replace only cancelled tasks linked to the finding.'' (gc_beforeTaskIds c)])
            (filter (\<lambda>c. gc_kind c = CK_supersede) (rp_changes (vw_proposal vw)))))"

definition identity_diagnostics :: "revision_view \<Rightarrow> dag_diagnostic list" where
  "identity_diagnostics vw =
     (let p = vw_proposal vw; current = rx_current (vw_context vw); afterDag = rp_proposedDag p in
      (if rp_runId p \<noteq> rr_runId current
       then [diagnostic ''task-graph-revision.wrong-run'' ''Proposal run does not match the canonical graph.'' []] else []) @
      (if rp_graphId p \<noteq> rr_graphId current \<or> dag_graphId afterDag \<noteq> rr_graphId current
       then [diagnostic ''task-graph-revision.wrong-graph'' ''Proposal graph identity does not match the canonical graph.'' []] else []) @
      (if rp_expectedGraphRevision p \<noteq> rr_graphRevision current \<or> rp_expectedRevisionSha256 p \<noteq> rr_revisionSha256 current
       then [diagnostic ''task-graph-revision.stale'' ''Proposal does not cite the active graph revision and hash.'' []] else []) @
      (if dag_graphRevision afterDag \<noteq> rr_graphRevision current + 1
       then [diagnostic ''task-graph-revision.non-sequential'' ''Proposed graph revision must advance by exactly one.'' []] else []) @
      (if rx_maxGraphRevisions (vw_context vw) < dag_graphRevision afterDag
       then [diagnostic ''task-graph-revision.limit-exceeded'' ''Proposed graph exceeds max_graph_revisions.'' []] else []))"

definition proposed_states :: "revision_view \<Rightarrow> planning_state list" where
  "proposed_states vw = map (\<lambda>n. case map_of (vw_states vw) (node_id n) of Some s \<Rightarrow> s
     | None \<Rightarrow> \<lparr>ps_taskId = node_id n, ps_outcome = TO_not_started, ps_completionContract = G_pending,
         ps_integration = IG_pending, ps_combinedVerification = G_pending\<rparr>) (dag_nodes (rp_proposedDag (vw_proposal vw)))"

definition graph_diagnostics :: "revision_view \<Rightarrow> dag_diagnostic list" where
  "graph_diagnostics vw =
     (if dv_valid (validateTaskDag (vw_beforeDag vw) (Some (rx_taskStates (vw_context vw)))) then []
      else [diagnostic ''task-graph-revision.invalid-baseline'' ''Canonical graph or task-state snapshot is invalid.'' []]) @
     dv_diagnostics (validateTaskDag (rp_proposedDag (vw_proposal vw)) (Some (proposed_states vw)))"

definition interrupted_removal :: "revision_view \<Rightarrow> string \<Rightarrow> bool" where
  "interrupted_removal vw t \<longleftrightarrow> map_of (vw_afterNodes vw) t = None \<and> outcome_of vw t = Some TO_cancelled \<and>
     (case vw_trigger vw of None \<Rightarrow> False | Some trigger \<Rightarrow> t \<in> set (rt_interruptedTaskIds trigger)) \<and>
     (case rx_hiddenDependencyFinding (vw_context vw) of None \<Rightarrow> False
      | Some f \<Rightarrow> t \<in> set (hf_affectedTaskIds f) \<and>
          (case List.find (supersedes_one t) (rp_changes (vw_proposal vw)) of None \<Rightarrow> False
           | Some c \<Rightarrow> (\<forall>a \<in> set (hf_evidenceArtifactIds f). a \<in> set (gc_evidenceArtifactIds c))))"

definition started_diagnostics :: "platform \<Rightarrow> revision_view \<Rightarrow> dag_diagnostic list" where
  "started_diagnostics pl vw = concat (map (\<lambda>(t, node).
     if outcome_of vw t \<noteq> None \<and> outcome_of vw t \<noteq> Some TO_not_started \<and>
        node_text pl (Some node) \<noteq> node_text pl (map_of (vw_afterNodes vw) t) \<and> \<not> interrupted_removal vw t
     then [diagnostic ''task-graph-revision.started-task'' (''Started or settled task '' @ quoted t @ '' is immutable.'') [t]]
     else []) (vw_beforeNodes vw))"

definition chain_diagnostics :: "platform \<Rightarrow> revision_view \<Rightarrow> dag_diagnostic list" where
  "chain_diagnostics pl vw = concat (map (\<lambda>(t, node).
     case map_of (vw_beforeNodes vw) t of
       None \<Rightarrow>
         if et_revision (dn_task node) \<noteq> 1 \<or> et_predecessorRevisionSha256 (dn_task node) \<noteq> None
         then [diagnostic ''task-graph-revision.invalid-new-task-revision''
           (''New task '' @ quoted t @ '' must start at revision 1.'') [t]] else []
     | Some predecessor \<Rightarrow>
         if node_text pl (Some predecessor) \<noteq> node_text pl (Some node) \<and>
           (et_revision (dn_task node) \<noteq> et_revision (dn_task predecessor) + 1 \<or>
            et_predecessorRevisionSha256 (dn_task node) \<noteq> Some (et_revisionSha256 (dn_task predecessor)))
         then [diagnostic ''task-graph-revision.invalid-task-revision-chain''
           (''Task '' @ quoted t @ '' does not continue its exact revision chain.'') [t]] else []) (vw_afterNodes vw))"

definition change_ids :: "graph_change \<Rightarrow> string list" where
  "change_ids c = js_set_of (gc_beforeTaskIds c @ gc_afterTaskIds c)"

definition change_diagnostics :: "platform \<Rightarrow> revision_view \<Rightarrow> dag_diagnostic list" where
  "change_diagnostics pl vw = concat (map (\<lambda>c.
     (case operationShapeDiagnostic c of None \<Rightarrow> [] | Some d \<Rightarrow> [d]) @
     operationSemanticDiagnostics pl c (vw_beforeNodes vw) (vw_afterNodes vw) @
     concat (map (\<lambda>t. if t \<in> set (vw_changed vw) then []
       else [diagnostic ''task-graph-revision.unchanged-task-declared''
         (''Change declares unchanged task '' @ quoted t @ ''.'') [t]]) (change_ids c))) (rp_changes (vw_proposal vw)))"

definition accounted :: "graph_change list \<Rightarrow> string \<Rightarrow> nat" where
  "accounted cs t = length (filter (\<lambda>c. t \<in> set (change_ids c)) cs)"

definition account_diagnostics :: "revision_view \<Rightarrow> dag_diagnostic list" where
  "account_diagnostics vw = concat (map (\<lambda>t.
     if accounted (rp_changes (vw_proposal vw)) t \<noteq> 1
     then [diagnostic ''task-graph-revision.unaccounted-change''
       (''Changed task '' @ quoted t @ '' must be accounted for exactly once.'') [t]] else []) (vw_changed vw))"

definition mapping_map :: "requirement_mapping list \<Rightarrow> (string, requirement_mapping) jsmap" where
  "mapping_map rs = js_map_of (map (\<lambda>r. (mappingKey r, r)) rs)"

text \<open>One mapping of the proposal, with the mappings that came before it.\<close>

definition mapping_check :: "revision_view \<Rightarrow> (string, requirement_mapping) jsmap \<Rightarrow> requirement_mapping list \<Rightarrow>
    requirement_mapping \<Rightarrow> dag_diagnostic list" where
  "mapping_check vw currentMappings earlier r =
     (let key = mappingKey r in
      (if key \<in> mappingKey ` set earlier
       then [diagnostic ''task-graph-revision.duplicate-requirement'' (''Requirement '' @ quoted key @ '' appears more than once.'') []] else []) @
      (case map_of currentMappings key of
         None \<Rightarrow> [diagnostic ''task-graph-revision.unknown-requirement''
           (''Requirement '' @ quoted key @ '' is not in the frozen source catalog.'') []]
       | Some previous \<Rightarrow>
           if sort (rm_afterTaskIds previous) \<noteq> rm_beforeTaskIds r
           then [diagnostic ''task-graph-revision.requirement-baseline-mismatch''
             (''Requirement '' @ quoted key @ '' does not cite its current task mapping.'') []] else []) @
      concat (map (\<lambda>t. if map_of (vw_afterNodes vw) t \<noteq> None then []
        else [diagnostic ''task-graph-revision.requirement-target-missing''
          (''Requirement '' @ quoted key @ '' maps to missing task '' @ quoted t @ ''.'') [t]]) (rm_afterTaskIds r)))"

fun mapping_checks :: "revision_view \<Rightarrow> (string, requirement_mapping) jsmap \<Rightarrow> requirement_mapping list \<Rightarrow>
    requirement_mapping list \<Rightarrow> dag_diagnostic list" where
  "mapping_checks vw currentMappings earlier [] = []"
| "mapping_checks vw currentMappings earlier (r # rs) =
     mapping_check vw currentMappings earlier r @ mapping_checks vw currentMappings (earlier @ [r]) rs"

definition lost_diagnostics :: "(string, requirement_mapping) jsmap \<Rightarrow> (string, requirement_mapping) jsmap \<Rightarrow> dag_diagnostic list" where
  "lost_diagnostics currentMappings proposedMappings = concat (map (\<lambda>(key, _).
     if map_of proposedMappings key \<noteq> None then []
     else [diagnostic ''task-graph-revision.requirement-lost''
       (''Requirement '' @ quoted key @ '' disappeared from the proposal.'') []]) currentMappings)"

definition narrowing_diagnostics :: "revision_view \<Rightarrow> (string, requirement_mapping) jsmap \<Rightarrow>
    (string, requirement_mapping) jsmap \<Rightarrow> dag_diagnostic list" where
  "narrowing_diagnostics vw currentMappings proposedMappings =
     concat (map (\<lambda>c.
       case gc_beforeTaskIds c of
         [] \<Rightarrow> []
       | superseded # _ \<Rightarrow>
           concat (map (\<lambda>(key, previous).
             if superseded \<notin> set (rm_afterTaskIds previous) then []
             else if (case map_of proposedMappings key of None \<Rightarrow> True
                | Some proposed \<Rightarrow> (\<forall>t \<in> set (rm_afterTaskIds proposed). map_of (vw_afterNodes vw) t = None))
             then [diagnostic ''task-graph-revision.commitment-narrowing''
               (''Superseding task '' @ quoted superseded @ '' removes active coverage for requirement '' @ quoted key @ ''.'')
               [superseded]]
             else []) currentMappings))
       (filter (\<lambda>c. gc_kind c = CK_supersede) (rp_changes (vw_proposal vw))))"

definition requirement_diagnostics :: "revision_view \<Rightarrow> dag_diagnostic list" where
  "requirement_diagnostics vw =
     (let currentMappings = mapping_map (rr_requirementMappings (rx_current (vw_context vw)));
          proposed = rp_requirementMappings (vw_proposal vw)
      in mapping_checks vw currentMappings [] proposed @ lost_diagnostics currentMappings (mapping_map proposed) @
         narrowing_diagnostics vw currentMappings (mapping_map proposed))"

definition revision_order_key :: "dag_diagnostic \<Rightarrow> string" where
  "revision_order_key d = dg_code d @ CHR 0x00 # join_with [CHR 0x00] (dg_taskIds d) @ CHR 0x00 # dg_message d"

definition revision_diagnostics :: "platform \<Rightarrow> revision_view \<Rightarrow> dag_diagnostic list" where
  "revision_diagnostics pl vw = sort_key revision_order_key
     (hidden_diagnostics vw @ identity_diagnostics vw @ graph_diagnostics vw @ started_diagnostics pl vw @
      chain_diagnostics pl vw @ change_diagnostics pl vw @ account_diagnostics vw @ requirement_diagnostics vw)"

section \<open>Decisions and records\<close>

definition affected_tasks :: "(string, nat) jsmap \<Rightarrow> (string, nat) jsmap \<Rightarrow> string list \<Rightarrow> string list" where
  "affected_tasks before after changed =
     sort (filter (\<lambda>t. map_of before t \<noteq> map_of after t \<or> t \<in> set changed) (js_set_of (map fst before @ map fst after)))"

definition affected_ordinals :: "(string, nat) jsmap \<Rightarrow> (string, nat) jsmap \<Rightarrow> string list \<Rightarrow> nat list" where
  "affected_ordinals before after ts =
     sort (js_set_of (concat (map (\<lambda>t. (case map_of before t of None \<Rightarrow> [] | Some n \<Rightarrow> [n]) @
       (case map_of after t of None \<Rightarrow> [] | Some n \<Rightarrow> [n])) ts)))"

text \<open>A record with its digest filled in.\<close>

definition seal :: "platform \<Rightarrow> revision_record \<Rightarrow> revision_record" where
  "seal pl r = r\<lparr>rr_revisionSha256 := taskGraphRevisionSha256 pl (core_json r)\<rparr>"

definition successor_record :: "platform \<Rightarrow> revision_view \<Rightarrow> revision_record" where
  "successor_record pl vw =
     (let p = vw_proposal vw; context = vw_context vw in
      seal pl \<lparr>rr_schemaVersion = rp_schemaVersion p, rr_runId = rp_runId p, rr_graphId = rp_graphId p,
        rr_graphRevision = dag_graphRevision (rp_proposedDag p), rr_revisionSha256 = [],
        rr_predecessorRevisionSha256 = Some (rr_revisionSha256 (rx_current context)), rr_dag = rp_proposedDag p,
        rr_changes = rp_changes p, rr_requirementMappings = rp_requirementMappings p, rr_rationale = rp_rationale p,
        rr_evidenceArtifactIds = rp_evidenceArtifactIds p, rr_decisionId = Some (rx_decisionId context),
        rr_committedAt = rx_decidedAt context, rr_trigger = vw_trigger vw\<rparr>)"

definition validateTaskGraphRevision :: "platform \<Rightarrow> revision_context \<Rightarrow> revision_proposal \<Rightarrow>
    revision_decision \<times> revision_record option" where
  "validateTaskGraphRevision pl context proposalInput =
     (let vw = view_of pl context proposalInput;
          proposal = vw_proposal vw;
          diagnostics = revision_diagnostics pl vw;
          beforeWaves = computeWaves (vw_beforeDag vw);
          afterWaves = computeWaves (rp_proposedDag proposal);
          before = waveMembership beforeWaves; after = waveMembership afterWaves;
          affected = affected_tasks before after (vw_changed vw);
          record = (if diagnostics = [] then Some (successor_record pl vw) else None)
      in (\<lparr>re_schemaVersion = rp_schemaVersion proposal, re_decisionId = rx_decisionId context,
           re_runId = rp_runId proposal, re_graphId = rp_graphId proposal, re_proposal = proposal,
           re_proposalSha256 = taskGraphRevisionSha256 pl (proposal_json proposal),
           re_expectedGraphRevision = rp_expectedGraphRevision proposal,
           re_outcome = (if diagnostics = [] then RO_accepted else RO_rejected),
           re_proposedRevisionSha256 = map_option rr_revisionSha256 record, re_diagnostics = diagnostics,
           re_beforeWaves = beforeWaves, re_afterWaves = afterWaves, re_affectedTaskIds = affected,
           re_affectedWaveOrdinals = affected_ordinals before after affected,
           re_taskStates = sort_key ps_taskId (rx_taskStates context), re_maxGraphRevisions = rx_maxGraphRevisions context,
           re_decidedAt = rx_decidedAt context, re_trigger = vw_trigger vw\<rparr>, record))"

record initial_input =
  ii_runId :: string
  ii_dag :: task_dag
  ii_requirementMappings :: "requirement_mapping list"
  ii_rationale :: string
  ii_evidenceArtifactIds :: "string list"
  ii_committedAt :: string

definition createInitialTaskGraphRevision :: "platform \<Rightarrow> initial_input \<Rightarrow> revision_record res" where
  "createInitialTaskGraphRevision pl input =
     (let dag = canonicalDag pl (ii_dag input); validation = validateTaskDag dag None;
          mappings = canonical_mappings pl (ii_requirementMappings input)
      in if dag_graphRevision dag \<noteq> 1 then Inl (Thrown ''initial task graph revision must be 1'')
         else if \<not> dv_valid validation
         then Inl (Thrown (''initial task graph is invalid: '' @
           (case dv_diagnostics validation of [] \<Rightarrow> ''unknown'' | d # _ \<Rightarrow> dg_code d)))
         else if mappings = [] \<or> list_ex (\<lambda>r. rm_beforeTaskIds r \<noteq> []) mappings
         then Inl (Thrown ''initial requirement mappings must cover requirements without predecessor tasks'')
         else if list_ex (\<lambda>r. list_ex (\<lambda>t. t \<notin> node_id ` set (dag_nodes dag)) (rm_afterTaskIds r)) mappings
         then Inl (Thrown ''initial requirement mapping refers to an unknown task'')
         else Inr (seal pl \<lparr>rr_schemaVersion = 1, rr_runId = ii_runId input, rr_graphId = dag_graphId dag, rr_graphRevision = 1,
             rr_revisionSha256 = [], rr_predecessorRevisionSha256 = None, rr_dag = dag, rr_changes = [],
             rr_requirementMappings = mappings, rr_rationale = ii_rationale input,
             rr_evidenceArtifactIds = sort (ii_evidenceArtifactIds input), rr_decisionId = None,
             rr_committedAt = ii_committedAt input, rr_trigger = None\<rparr>))"

end
