(* ===== verification/Task_Revision_Safety.thy ===== *)
theory Task_Revision_Safety
  imports Task_Revise
begin

text \<open>
  What an accepted revision guarantees, and the structural waves: the empty list of diagnostics is
  split into the checks it consists of, and each check is read back as a statement on the current
  record, the task states and the successor record.
\<close>

section \<open>Structural waves\<close>

lemma fold_max_bounds:
  fixes f :: "'a \<Rightarrow> nat"
  shows "a \<le> fold (\<lambda>p m. max m (f p)) ps a"
    "p \<in> set ps \<Longrightarrow> f p \<le> fold (\<lambda>p m. max m (f p)) ps a"
    "fold (\<lambda>p m. max m (f p)) ps a = a \<or> (\<exists>p \<in> set ps. fold (\<lambda>p m. max m (f p)) ps a = f p)"
proof (induction ps arbitrary: a)
  case (Cons q ps)
  { case 1 show ?case using Cons(1) [of "max a (f q)"] by simp }
  { case 2 then show ?case using Cons(1,2) [of "max a (f q)"] by (auto intro: order_trans) }
  { case 3 show ?case using Cons(3) [of "max a (f q)"] by (auto simp: max_def) }
qed auto

definition layered :: "(string \<Rightarrow> string set) \<Rightarrow> (string, nat) jsmap \<Rightarrow> bool" where
  "layered D ord \<longleftrightarrow> (\<forall>t k. map_of ord t = Some k \<longrightarrow> 0 < k \<and>
     (\<forall>p \<in> D t. \<exists>j < k. map_of ord p = Some j) \<and> (1 < k \<longrightarrow> (\<exists>p \<in> D t. map_of ord p = Some (k - 1))))"

lemma wave_ordinal_layer:
  assumes deps: "\<forall>p \<in> set (deps_in nodes t). map_of ord p \<noteq> None"
  defines "k \<equiv> wave_ordinal nodes t ord"
  shows "0 < k" "\<forall>p \<in> set (deps_in nodes t). \<exists>j < k. map_of ord p = Some j"
    "1 < k \<longrightarrow> (\<exists>p \<in> set (deps_in nodes t). map_of ord p = Some (k - 1))"
proof -
  let ?f = "\<lambda>p. case map_of ord p of None \<Rightarrow> 0 | Some n \<Rightarrow> n"
  have k: "k = fold (\<lambda>p m. max m (?f p)) (deps_in nodes t) 0 + 1" by (simp add: k_def wave_ordinal_def)
  show "0 < k" by (simp add: k)
  show "\<forall>p \<in> set (deps_in nodes t). \<exists>j < k. map_of ord p = Some j"
  proof
    fix p assume p: "p \<in> set (deps_in nodes t)"
    with deps obtain j where "map_of ord p = Some j" by blast
    with fold_max_bounds(2) [OF p, of ?f 0] show "\<exists>j < k. map_of ord p = Some j" by (simp add: k)
  qed
  show "1 < k \<longrightarrow> (\<exists>p \<in> set (deps_in nodes t). map_of ord p = Some (k - 1))"
  proof
    assume "1 < k"
    then obtain p where p: "p \<in> set (deps_in nodes t)" "k - 1 = ?f p"
      using fold_max_bounds(3) [of ?f "deps_in nodes t" 0] by (auto simp: k)
    with deps show "\<exists>p \<in> set (deps_in nodes t). map_of ord p = Some (k - 1)" by fastforce
  qed
qed

lemma layered_update:
  assumes "layered D ord" "map_of ord t = None" "0 < k" "\<forall>p \<in> D t. \<exists>j < k. map_of ord p = Some j"
    "1 < k \<longrightarrow> (\<exists>p \<in> D t. map_of ord p = Some (k - 1))"
  shows "layered D (AList.update t k ord)"
proof -
  have keep: "map_of (AList.update t k ord) p = Some j" if "map_of ord p = Some j" for p j
    using that assms(2) by (auto simp: jm.get_put)
  show ?thesis unfolding layered_def
  proof (intro allI impI)
    fix s n assume s: "map_of (AList.update t k ord) s = Some n"
    have "0 < n \<and> (\<forall>p \<in> D s. \<exists>j < n. map_of ord p = Some j) \<and> (1 < n \<longrightarrow> (\<exists>p \<in> D s. map_of ord p = Some (n - 1)))"
    proof (cases "s = t")
      case True
      with s assms(3-5) show ?thesis by (simp add: jm.get_put)
    next
      case False
      with s assms(1) show ?thesis by (simp add: jm.get_put layered_def)
    qed
    with keep show "0 < n \<and> (\<forall>p \<in> D s. \<exists>j < n. map_of (AList.update t k ord) p = Some j) \<and>
        (1 < n \<longrightarrow> (\<exists>p \<in> D s. map_of (AList.update t k ord) p = Some (n - 1)))" by blast
  qed
qed

lemma wave_ordinals_layered:
  assumes "\<forall>t \<in> set order. set (deps_in nodes t) = D t" "topological D order" "distinct order"
  shows "map fst (wave_ordinals nodes order) = order \<and> layered D (wave_ordinals nodes order)"
  using assms
proof (induction order rule: rev_induct)
  case (snoc t order)
  let ?ord = "wave_ordinals nodes order"
  from snoc have keys: "map fst ?ord = order" and lay: "layered D ?ord" by (simp_all add: topological_snoc)
  have new: "map_of ?ord t = None" and deps: "set (deps_in nodes t) = D t"
    using snoc.prems keys by (auto simp: map_of_eq_None_iff simp flip: set_map)
  have "\<forall>p \<in> set (deps_in nodes t). map_of ?ord p \<noteq> None"
    using snoc.prems deps by (auto simp: topological_snoc map_of_eq_None_iff keys simp flip: set_map)
  from layered_update [OF lay new] wave_ordinal_layer [OF this]
  have "layered D (AList.update t (wave_ordinal nodes t ?ord) ?ord)" unfolding deps by blast
  moreover have "map fst (AList.update t (wave_ordinal nodes t ?ord) ?ord) = order @ [t]"
    using snoc.prems by (simp add: keys_alist_update keys del: set_map)
  ultimately show ?case by (simp add: wave_ordinals_def)
qed (simp add: wave_ordinals_def layered_def)

definition members :: "(nat, string list) jsmap \<Rightarrow> nat \<Rightarrow> string list" where
  "members g w = (case map_of g w of None \<Rightarrow> [] | Some ts \<Rightarrow> ts)"

lemma group_waves_members:
  "members (group_waves ord) w = map fst (filter (\<lambda>(_, n). n = w) ord) \<and>
   set (map fst (group_waves ord)) = snd ` set ord \<and> distinct (map fst (group_waves ord))"
proof (induction ord rule: rev_induct)
  case (snoc e ord)
  obtain t n where e: "e = (t, n)" by (cases e)
  have g: "group_waves (ord @ [e]) = AList.update n (members (group_waves ord) n @ [t]) (group_waves ord)"
    by (simp add: group_waves_def members_def e)
  from snoc have IH: "members (group_waves ord) w = map fst (filter (\<lambda>(_, n). n = w) ord)"
    "set (map fst (group_waves ord)) = snd ` set ord" "distinct (map fst (group_waves ord))" by blast+
  have "members (group_waves (ord @ [e])) w = (if w = n then members (group_waves ord) n @ [t] else members (group_waves ord) w)"
    by (simp add: g members_def jm.get_put)
  moreover have "set (map fst (group_waves (ord @ [e]))) = snd ` set (ord @ [e])"
    unfolding g keys_alist_update using IH(2) by (auto simp: e)
  moreover have "distinct (map fst (group_waves (ord @ [e])))" unfolding g by (rule jm.distinct_keys_put [OF IH(3)])
  ultimately show ?case using IH(1) by (auto simp: e)
qed (simp add: group_waves_def members_def)

lemma group_waves_entry:
  assumes "distinct (map fst ord)"
  shows "(w, ts) \<in> set (group_waves ord) \<longleftrightarrow> ts = map fst (filter (\<lambda>(_, n). n = w) ord) \<and> w \<in> snd ` set ord"
    and "t \<in> fst ` set (filter (\<lambda>(_, n). n = w) ord) \<longleftrightarrow> map_of ord t = Some w"
proof -
  from group_waves_members [of ord w] have d: "distinct (map fst (group_waves ord))"
    and m: "members (group_waves ord) w = map fst (filter (\<lambda>(_, n). n = w) ord)"
    and k: "set (map fst (group_waves ord)) = snd ` set ord" by blast+
  have "(w, ts) \<in> set (group_waves ord) \<longleftrightarrow> map_of (group_waves ord) w = Some ts" using d by simp
  also have "\<dots> \<longleftrightarrow> ts = members (group_waves ord) w \<and> w \<in> set (map fst (group_waves ord))"
    using jm.keys_get [of w "group_waves ord"] by (auto simp: members_def)
  finally show "(w, ts) \<in> set (group_waves ord) \<longleftrightarrow> ts = map fst (filter (\<lambda>(_, n). n = w) ord) \<and> w \<in> snd ` set ord"
    using m k by simp
  show "t \<in> fst ` set (filter (\<lambda>(_, n). n = w) ord) \<longleftrightarrow> map_of ord t = Some w"
    using assms by (auto simp: image_iff)
qed

lemma dag_node_map_index: "well_formed_dag dag \<Longrightarrow> dag_node_map dag = node_index (dag_nodes dag)"
  unfolding dag_node_map_def node_index_def
  by (rule js_map_of_distinct) (simp add: well_formed_dag_def basic_dag_def comp_def)

lemma deps_in_index:
  assumes "well_formed_dag dag" "t \<in> dag_ids dag"
  shows "set (deps_in (node_index (dag_nodes dag)) t) = deps_of dag t"
proof -
  from assms have d: "distinct (map node_id (dag_nodes dag))" by (simp add: well_formed_dag_def basic_dag_def)
  from assms(2) obtain n where n: "n \<in> set (dag_nodes dag)" "node_id n = t" by (auto simp: dag_ids_def)
  then have "map_of (node_index (dag_nodes dag)) t = Some n" by (simp add: map_of_node_index [OF d])
  then have "deps_in (node_index (dag_nodes dag)) t = node_deps n" by (simp add: deps_in_def)
  moreover have "m = n" if "m \<in> set (dag_nodes dag)" "node_id m = t" for m
    using inj_onD [OF conjunct2 [OF d [unfolded distinct_map]], of m n] that n by simp
  then have "deps_of dag t = set (node_deps n)" unfolding deps_of_def using n by blast
  ultimately show ?thesis by (simp only:)
qed

text \<open>The waves of a valid graph, by the ordinal each task got.\<close>

lemma computeWaves_layers:
  assumes v: "dv_valid (validateTaskDag dag None)"
  obtains ord where "layered (deps_of dag) ord" "set (map fst ord) = dag_ids dag" "distinct (map fst ord)"
    "\<And>w. w \<in> set (computeWaves dag) \<longleftrightarrow> sw_ordinal w \<in> snd ` set ord \<and>
        sw_taskIds w = sort (map fst (filter (\<lambda>(_, n). n = sw_ordinal w) ord))"
    "sorted_wrt (<) (map sw_ordinal (computeWaves dag))"
proof -
  define order where "order = dv_topologicalOrder (validateTaskDag dag None)"
  define ord where "ord = wave_ordinals (dag_node_map dag) order"
  from v have wf: "well_formed_dag dag" by (rule valid_well_formed)
  from order_of_valid [OF v] have o: "distinct order" "set order = dag_ids dag" "topological (deps_of dag) order"
    by (simp_all add: order_def topological_def)
  have "\<forall>t \<in> set order. set (deps_in (dag_node_map dag) t) = deps_of dag t"
    using deps_in_index [OF wf] o(2) by (simp add: dag_node_map_index [OF wf])
  from wave_ordinals_layered [OF this o(3,1)] have l: "map fst ord = order" "layered (deps_of dag) ord"
    by (simp_all add: ord_def)
  have d: "distinct (map fst ord)" using l(1) o(1) by simp
  have waves: "computeWaves dag = map (\<lambda>(w, ts). \<lparr>sw_ordinal = w, sw_taskIds = sort ts\<rparr>) (sort_key fst (group_waves ord))"
    using v by (simp add: computeWaves_def ord_def order_def)
  have "w \<in> set (computeWaves dag) \<longleftrightarrow> (\<exists>ts. (sw_ordinal w, ts) \<in> set (group_waves ord) \<and> sw_taskIds w = sort ts)" for w
    by (cases w) (auto simp: waves)
  then have "w \<in> set (computeWaves dag) \<longleftrightarrow> sw_ordinal w \<in> snd ` set ord \<and>
      sw_taskIds w = sort (map fst (filter (\<lambda>(_, n). n = sw_ordinal w) ord))" for w
    by (auto simp: group_waves_entry(1) [OF d])
  moreover have "sorted_wrt (<) (map sw_ordinal (computeWaves dag))"
    using sorted_keys_distinct [of fst "group_waves ord"] group_waves_members [of ord]
    by (simp add: waves case_prod_beta comp_def)
  ultimately show thesis using that [OF l(2) _ d] l(1) o(2) by simp
qed

text \<open>The specification: strictly increasing ordinals, every task in one wave, after its dependencies and as early as they allow.\<close>

definition earliest_layer :: "task_dag \<Rightarrow> structural_wave list \<Rightarrow> structural_wave \<Rightarrow> string \<Rightarrow> bool" where
  "earliest_layer dag waves w t \<longleftrightarrow>
     (\<forall>p \<in> deps_of dag t. \<exists>v \<in> set waves. p \<in> set (sw_taskIds v) \<and> sw_ordinal v < sw_ordinal w) \<and>
     (1 < sw_ordinal w \<longrightarrow> (\<exists>p \<in> deps_of dag t. \<exists>v \<in> set waves. p \<in> set (sw_taskIds v) \<and> sw_ordinal v + 1 = sw_ordinal w))"

definition layering :: "task_dag \<Rightarrow> structural_wave list \<Rightarrow> bool" where
  "layering dag waves \<longleftrightarrow> sorted_wrt (<) (map sw_ordinal waves) \<and>
     (\<forall>t \<in> dag_ids dag. \<exists>!w. w \<in> set waves \<and> t \<in> set (sw_taskIds w)) \<and>
     (\<forall>w \<in> set waves. 0 < sw_ordinal w \<and> sw_taskIds w \<noteq> [] \<and> set (sw_taskIds w) \<subseteq> dag_ids dag \<and>
        (\<forall>t \<in> set (sw_taskIds w). earliest_layer dag waves w t))"

lemma computeWaves_layering:
  assumes "dv_valid (validateTaskDag dag None)"
  shows "layering dag (computeWaves dag)"
proof -
  let ?W = "computeWaves dag"
  from computeWaves_layers [OF assms] obtain ord where lay: "layered (deps_of dag) ord"
    and keys: "set (map fst ord) = dag_ids dag" and d: "distinct (map fst ord)"
    and W: "\<And>w. w \<in> set ?W \<longleftrightarrow> sw_ordinal w \<in> snd ` set ord \<and> sw_taskIds w = sort (map fst (filter (\<lambda>(_, n). n = sw_ordinal w) ord))"
    and sw: "sorted_wrt (<) (map sw_ordinal ?W)" by blast
  have mem: "t \<in> set (sw_taskIds w) \<longleftrightarrow> map_of ord t = Some (sw_ordinal w)" if "w \<in> set ?W" for t w
    using that group_waves_entry(2) [OF d, of t "sw_ordinal w"] unfolding W by simp
  have wave: "\<exists>w \<in> set ?W. sw_ordinal w = n \<and> t \<in> set (sw_taskIds w)" if "map_of ord t = Some n" for t n
  proof (rule bexI)
    let ?w = "\<lparr>sw_ordinal = n, sw_taskIds = sort (map fst (filter (\<lambda>(_, m). m = n) ord))\<rparr>"
    show w: "?w \<in> set ?W" unfolding W using map_of_SomeD [OF that] by (simp add: rev_image_eqI)
    show "sw_ordinal ?w = n \<and> t \<in> set (sw_taskIds ?w)" unfolding mem [OF w] using that by simp
  qed
  have same: "v = w" if "v \<in> set ?W" "w \<in> set ?W" "sw_ordinal v = sw_ordinal w" for v w
    using that unfolding W by simp
  have unique: "\<exists>!w. w \<in> set ?W \<and> t \<in> set (sw_taskIds w)" if t: "t \<in> dag_ids dag" for t
  proof -
    from t keys obtain n where n: "map_of ord t = Some n" using jm.keys_get [of t ord] by auto
    from wave [OF this] obtain w where w: "w \<in> set ?W" "t \<in> set (sw_taskIds w)" by blast
    have "v = w" if "v \<in> set ?W" "t \<in> set (sw_taskIds v)" for v
      using same [OF that(1) w(1)] mem [OF that(1)] mem [OF w(1)] that(2) w(2) by simp
    with w show ?thesis by blast
  qed
  have early: "earliest_layer dag ?W w t" and pos: "0 < sw_ordinal w" if "w \<in> set ?W" "t \<in> set (sw_taskIds w)" for w t
  proof -
    from that mem have k: "map_of ord t = Some (sw_ordinal w)" by blast
    with lay have l: "0 < sw_ordinal w" "\<forall>p \<in> deps_of dag t. \<exists>j < sw_ordinal w. map_of ord p = Some j"
      "1 < sw_ordinal w \<longrightarrow> (\<exists>p \<in> deps_of dag t. map_of ord p = Some (sw_ordinal w - 1))" unfolding layered_def by blast+
    show "0 < sw_ordinal w" by (rule l(1))
    show "earliest_layer dag ?W w t" unfolding earliest_layer_def
    proof (intro conjI ballI impI)
      fix p assume "p \<in> deps_of dag t"
      with l(2) obtain j where "j < sw_ordinal w" "map_of ord p = Some j" by blast
      with wave show "\<exists>v \<in> set ?W. p \<in> set (sw_taskIds v) \<and> sw_ordinal v < sw_ordinal w" by blast
    next
      assume "1 < sw_ordinal w"
      with l(3) obtain p where p: "p \<in> deps_of dag t" "map_of ord p = Some (sw_ordinal w - 1)" by blast
      from wave [OF p(2)] obtain v where "v \<in> set ?W" "sw_ordinal v = sw_ordinal w - 1" "p \<in> set (sw_taskIds v)" by blast
      with p(1) \<open>1 < sw_ordinal w\<close>
      show "\<exists>p \<in> deps_of dag t. \<exists>v \<in> set ?W. p \<in> set (sw_taskIds v) \<and> sw_ordinal v + 1 = sw_ordinal w" by force
    qed
  qed
  have ne: "sw_taskIds w \<noteq> []" if "w \<in> set ?W" for w
  proof -
    from that obtain t where "(t, sw_ordinal w) \<in> set ord" unfolding W by force
    then have "map_of ord t = Some (sw_ordinal w)" using d by simp
    with mem [OF that] show ?thesis by force
  qed
  have sub: "set (sw_taskIds w) \<subseteq> dag_ids dag" if "w \<in> set ?W" for w
    using mem [OF that] keys jm.keys_get [of _ ord] by fastforce
  have "0 < sw_ordinal w" if "w \<in> set ?W" for w using pos [OF that hd_in_set [OF ne [OF that]]] .
  with sw unique early ne sub show ?thesis unfolding layering_def by blast
qed

section \<open>Reading back the diagnostics\<close>

lemma revision_result:
  "validateTaskGraphRevision pl cx p = (d, r) \<Longrightarrow>
   re_diagnostics d = revision_diagnostics pl (view_of pl cx p) \<and>
   re_outcome d = (if revision_diagnostics pl (view_of pl cx p) = [] then RO_accepted else RO_rejected) \<and>
   re_proposedRevisionSha256 d = map_option rr_revisionSha256 r \<and>
   r = (if revision_diagnostics pl (view_of pl cx p) = [] then Some (successor_record pl (view_of pl cx p)) else None)"
  unfolding validateTaskGraphRevision_def Let_def by auto

lemma sort_key_Nil [simp]: "sort_key f xs = [] \<longleftrightarrow> xs = []"
  by (metis length_0_conv length_sort)

lemma valid_diagnostics: "dv_diagnostics (validateTaskDag dag ss) = [] \<longleftrightarrow> dv_valid (validateTaskDag dag ss)"
  by (simp add: validateTaskDag_def Let_def split: prod.splits)

lemma accepted_record:
  assumes "validateTaskGraphRevision pl cx p = (d, Some r)"
  shows "r = successor_record pl (view_of pl cx p)" "re_outcome d = RO_accepted"
    "revision_diagnostics pl (view_of pl cx p) = []"
  using revision_result [OF assms] by (simp_all split: if_splits)

lemma accepted_checks:
  assumes "revision_diagnostics pl vw = []"
  shows "hidden_diagnostics vw = []" "identity_diagnostics vw = []" "graph_diagnostics vw = []"
    "started_diagnostics pl vw = []" "chain_diagnostics pl vw = []" "change_diagnostics pl vw = []"
    "account_diagnostics vw = []" "requirement_diagnostics vw = []"
  using assms by (simp_all add: revision_diagnostics_def)

lemma view_fields [simp]:
  "vw_context (view_of pl cx p) = cx" "vw_proposal (view_of pl cx p) = canonicalProposal pl p"
  "vw_beforeDag (view_of pl cx p) = canonicalDag pl (rr_dag (rx_current cx))"
  "vw_beforeNodes (view_of pl cx p) = dag_node_map (canonicalDag pl (rr_dag (rx_current cx)))"
  "vw_afterNodes (view_of pl cx p) = dag_node_map (rp_proposedDag (canonicalProposal pl p))"
  "vw_states (view_of pl cx p) = js_map_of (map (\<lambda>s. (ps_taskId s, s)) (rx_taskStates cx))"
  "vw_changed (view_of pl cx p) = changedTaskIds pl (canonicalDag pl (rr_dag (rx_current cx))) (rp_proposedDag (canonicalProposal pl p))"
  by (simp_all add: view_of_def Let_def)

lemma successor_fields [simp]:
  "rr_graphRevision (successor_record pl vw) = dag_graphRevision (rp_proposedDag (vw_proposal vw))"
  "rr_runId (successor_record pl vw) = rp_runId (vw_proposal vw)"
  "rr_graphId (successor_record pl vw) = rp_graphId (vw_proposal vw)"
  "rr_predecessorRevisionSha256 (successor_record pl vw) = Some (rr_revisionSha256 (rx_current (vw_context vw)))"
  "rr_dag (successor_record pl vw) = rp_proposedDag (vw_proposal vw)"
  "rr_changes (successor_record pl vw) = rp_changes (vw_proposal vw)"
  "rr_requirementMappings (successor_record pl vw) = rp_requirementMappings (vw_proposal vw)"
  "rr_decisionId (successor_record pl vw) = Some (rx_decisionId (vw_context vw))"
  "rr_trigger (successor_record pl vw) = vw_trigger vw"
  by (simp_all add: successor_record_def seal_def Let_def)

lemma successor_sealed: "rr_revisionSha256 (successor_record pl vw) = taskGraphRevisionSha256 pl (core_json (successor_record pl vw))"
  by (simp add: successor_record_def seal_def core_json_def Let_def)

lemma graph_checks:
  assumes "graph_diagnostics vw = []"
  shows "well_formed_dag (vw_beforeDag vw)" "planning_ok (vw_beforeDag vw) (rx_taskStates (vw_context vw))"
    "well_formed_dag (rp_proposedDag (vw_proposal vw))" "planning_ok (rp_proposedDag (vw_proposal vw)) (proposed_states vw)"
  using assms by (simp_all add: graph_diagnostics_def valid_diagnostics valid_well_formed_iff split: if_splits)


text \<open>A started task is in the new graph with the same text, or was interrupted and explicitly superseded.\<close>

definition superseded_interrupted :: "revision_record \<Rightarrow> planning_state \<Rightarrow> bool" where
  "superseded_interrupted r s \<longleftrightarrow> ps_outcome s = TO_cancelled \<and> ps_taskId s \<notin> dag_ids (rr_dag r) \<and>
     (case rr_trigger r of None \<Rightarrow> False | Some trigger \<Rightarrow> ps_taskId s \<in> set (rt_interruptedTaskIds trigger)) \<and>
     list_ex (supersedes_one (ps_taskId s)) (rr_changes r)"

lemma state_lookup:
  assumes "distinct (map ps_taskId ss)" "s \<in> set ss"
  shows "map_of (js_map_of (map (\<lambda>s. (ps_taskId s, s)) ss)) (ps_taskId s) = Some s"
  using assms by (subst js_map_of_distinct) (auto simp: comp_def intro!: map_of_is_SomeI)

lemma find_ex: "(case List.find P xs of None \<Rightarrow> False | Some x \<Rightarrow> Q x) \<Longrightarrow> list_ex P xs"
  by (cases "List.find P xs") (auto simp: list_ex_iff find_Some_iff)

lemma started_kept:
  assumes acc: "validateTaskGraphRevision pl cx p = (d, Some r)"
    and n: "n \<in> set (dag_nodes (canonicalDag pl (rr_dag (rx_current cx))))"
    and s: "s \<in> set (rx_taskStates cx)" "ps_taskId s = node_id n" "ps_outcome s \<noteq> TO_not_started"
  shows "(\<exists>m \<in> set (dag_nodes (rr_dag r)). node_id m = node_id n \<and> canonicalJson pl (node_json m) = canonicalJson pl (node_json n)) \<or>
    superseded_interrupted r s"
proof -
  let ?vw = "view_of pl cx p" and ?t = "node_id n"
  note r = accepted_record [OF acc]
  note checks = accepted_checks [OF r(3)] note g = graph_checks [OF checks(3)]
  have before: "vw_beforeNodes ?vw = node_index (dag_nodes (vw_beforeDag ?vw))"
    and after: "vw_afterNodes ?vw = node_index (dag_nodes (rr_dag r))"
    using dag_node_map_index [OF g(1)] dag_node_map_index [OF g(3)] by (simp_all add: r(1))
  have da: "distinct (map node_id (dag_nodes (rr_dag r)))" using g(3) by (simp add: r(1) well_formed_dag_def basic_dag_def)
  have "distinct (map ps_taskId (rx_taskStates cx))" using g(2) by (simp add: planning_ok_def)
  then have st: "map_of (vw_states ?vw) ?t = Some s" using state_lookup [OF _ s(1)] s(2) by simp
  have "(?t, n) \<in> set (vw_beforeNodes ?vw)" unfolding before using n by (simp add: node_index_def)
  then have "node_text pl (Some n) = node_text pl (map_of (vw_afterNodes ?vw) ?t) \<or> interrupted_removal ?vw ?t"
    using checks(4) st s(3) unfolding started_diagnostics_def concat_eq_Nil_conv by (auto simp del: view_fields split: if_splits)
  then show ?thesis
  proof
    assume "node_text pl (Some n) = node_text pl (map_of (vw_afterNodes ?vw) ?t)"
    then obtain m where "map_of (node_index (dag_nodes (rr_dag r))) ?t = Some m" "canonicalJson pl (node_json m) = canonicalJson pl (node_json n)"
      unfolding after node_text_def by (cases "map_of (node_index (dag_nodes (rr_dag r))) ?t") auto
    then show ?thesis unfolding map_of_node_index [OF da] by blast
  next
    assume "interrupted_removal ?vw ?t"
    then have i: "map_of (vw_afterNodes ?vw) ?t = None" "ps_outcome s = TO_cancelled"
      "case vw_trigger ?vw of None \<Rightarrow> False | Some trigger \<Rightarrow> ?t \<in> set (rt_interruptedTaskIds trigger)"
      "list_ex (supersedes_one ?t) (rp_changes (vw_proposal ?vw))"
      unfolding interrupted_removal_def st by (auto simp del: view_fields split: option.splits intro: find_ex)
    then have "superseded_interrupted r s"
      unfolding superseded_interrupted_def after map_of_node_index_None dag_ids_def s(2) by (simp add: r(1))
    then show ?thesis ..
  qed
qed

text \<open>The changes of an accepted revision name every changed task once, and no other task.\<close>

lemma changes_account:
  assumes acc: "validateTaskGraphRevision pl cx p = (d, Some r)"
  shows "accounted (rr_changes r) t =
    (if t \<in> set (changedTaskIds pl (canonicalDag pl (rr_dag (rx_current cx))) (rr_dag r)) then 1 else 0)"
proof -
  let ?vw = "view_of pl cx p"
  note r = accepted_record [OF acc]
  note checks = accepted_checks [OF r(3)]
  have "\<forall>c \<in> set (rr_changes r). set (change_ids c) \<subseteq> set (vw_changed ?vw)"
    using checks(6) by (auto simp: change_diagnostics_def r(1) simp del: view_fields split: if_splits)
  then have "t \<notin> set (vw_changed ?vw) \<Longrightarrow> accounted (rr_changes r) t = 0"
    by (auto simp: accounted_def filter_empty_conv)
  moreover have "t \<in> set (vw_changed ?vw) \<Longrightarrow> accounted (rr_changes r) t = 1"
    using checks(7) by (auto simp: account_diagnostics_def r(1) simp del: view_fields split: if_splits)
  ultimately show ?thesis by (simp add: r(1))
qed

lemma changes_meaningful:
  assumes acc: "validateTaskGraphRevision pl cx p = (d, Some r)" and c: "c \<in> set (rr_changes r)"
  shows "valid_shape c \<and> valid_semantics pl c (dag_node_map (canonicalDag pl (rr_dag (rx_current cx)))) (dag_node_map (rr_dag r))"
proof -
  note r = accepted_record [OF acc]
  from accepted_checks(6) [OF r(3)] c show ?thesis
    by (auto simp: change_diagnostics_def operationShapeDiagnostic_def operationSemanticDiagnostics_def r(1) split: if_splits)
qed

text \<open>
  The changes of a revision, read on the graphs: which tasks differ, and what each kind of change says about
  the tasks it names.
\<close>

definition differs :: "platform \<Rightarrow> task_dag \<Rightarrow> task_dag \<Rightarrow> string \<Rightarrow> bool" where
  "differs pl B A t \<longleftrightarrow> t \<in> dag_ids B - dag_ids A \<or> t \<in> dag_ids A - dag_ids B \<or>
     (\<exists>n \<in> set (dag_nodes B). \<exists>m \<in> set (dag_nodes A). node_id n = t \<and> node_id m = t \<and>
        canonicalJson pl (node_json n) \<noteq> canonicalJson pl (node_json m))"

definition mentions :: "graph_change \<Rightarrow> string \<Rightarrow> bool" where
  "mentions c t \<longleftrightarrow> t \<in> set (gc_beforeTaskIds c) \<union> set (gc_afterTaskIds c)"

text \<open>What a reorder must leave alone: everything but the dependencies and the revision of the task.\<close>

definition fixed_part :: "dag_node \<Rightarrow> json" where
  "fixed_part n = JObj ([(''task'', JObj ([(''taskId'', JStr (node_id n)), (''readSet'', JArr (map JStr (et_readSet (dn_task n)))),
       (''writeSet'', JArr (map JStr (et_writeSet (dn_task n)))),
       (''excludedRepositories'', JArr (et_excludedRepositories (dn_task n))), (''artifacts'', JArr (et_artifacts (dn_task n))),
       (''verification'', JArr (et_verification (dn_task n)))] @ et_content (dn_task n)))] @
     (case dn_pipelineId n of None \<Rightarrow> [] | Some p \<Rightarrow> [(''pipelineId'', JStr p)]) @
     [(''profileId'', JStr (dn_profileId n)),
      (''accountId'', (case dn_accountId n of None \<Rightarrow> JNull | Some a \<Rightarrow> JStr a))])"

definition only_reordered :: "platform \<Rightarrow> dag_node \<Rightarrow> dag_node \<Rightarrow> bool" where
  "only_reordered pl n m \<longleftrightarrow> node_deps n \<noteq> node_deps m \<and> canonicalJson pl (fixed_part n) = canonicalJson pl (fixed_part m)"

definition has_effect :: "platform \<Rightarrow> task_dag \<Rightarrow> task_dag \<Rightarrow> graph_change \<Rightarrow> bool" where
  "has_effect pl B A c \<longleftrightarrow>
     (let old = dag_ids B - dag_ids A; new = dag_ids A - dag_ids B; before = gc_beforeTaskIds c; after = gc_afterTaskIds c in
      case gc_kind c of
        CK_add \<Rightarrow> before = [] \<and> (\<exists>t \<in> new. after = [t])
      | CK_split \<Rightarrow> (\<exists>t \<in> old. before = [t]) \<and> 2 \<le> length after \<and> set after \<subseteq> new
      | CK_merge \<Rightarrow> 2 \<le> length before \<and> set before \<subseteq> old \<and> (\<exists>t \<in> new. after = [t])
      | CK_supersede \<Rightarrow>
          (\<exists>t \<in> old. before = [t] \<and> (after = [] \<or> (\<exists>u \<in> new. after = [u]))) \<or>
          (\<exists>t \<in> dag_ids B \<inter> dag_ids A. before = [t] \<and> after = [t])
      | CK_reorder \<Rightarrow> (\<exists>n \<in> set (dag_nodes B). \<exists>m \<in> set (dag_nodes A).
          before = [node_id n] \<and> after = [node_id m] \<and> node_id n = node_id m \<and> only_reordered pl n m))"

lemma dag_node_map_None: "map_of (dag_node_map dag) t = None \<longleftrightarrow> t \<notin> dag_ids dag"
  using keys_js_map_of [of "map (\<lambda>n. (node_id n, n)) (dag_nodes dag)"]
  by (simp add: dag_node_map_def map_of_eq_None_iff dag_ids_def image_image)

lemma dag_node_map_Some:
  assumes "well_formed_dag dag"
  shows "map_of (dag_node_map dag) t = Some n \<longleftrightarrow> n \<in> set (dag_nodes dag) \<and> node_id n = t"
proof -
  have "distinct (map node_id (dag_nodes dag))" using assms by (simp add: well_formed_dag_def basic_dag_def)
  from map_of_node_index [OF this] show ?thesis by (simp only: dag_node_map_index [OF assms])
qed

lemma changed_differs:
  assumes "well_formed_dag B" "well_formed_dag A"
  shows "t \<in> set (changedTaskIds pl B A) \<longleftrightarrow> differs pl B A t"
proof -
  have keys: "t \<in> set (map fst (dag_node_map dag)) \<longleftrightarrow> t \<in> dag_ids dag" for dag
    unfolding dag_node_map_def keys_js_map_of by (simp add: dag_ids_def image_image)
  have mem: "t \<in> set (changedTaskIds pl B A) \<longleftrightarrow> (t \<in> dag_ids B \<or> t \<in> dag_ids A) \<and>
      node_text pl (map_of (dag_node_map B) t) \<noteq> node_text pl (map_of (dag_node_map A) t)"
    using keys [of B] keys [of A] by (auto simp: changedTaskIds_def Let_def)
  note none = dag_node_map_None and some = dag_node_map_Some [OF assms(1)] dag_node_map_Some [OF assms(2)]
  show ?thesis
  proof (cases "map_of (dag_node_map B) t")
    case None
    then show ?thesis
      using none [of B t] none [of A t] by (cases "map_of (dag_node_map A) t") (auto simp: mem differs_def node_text_def dag_ids_def)
  next
    case B: (Some n)
    show ?thesis
    proof (cases "map_of (dag_node_map A) t")
      case None
      with B show ?thesis using none [of B t] none [of A t] by (auto simp: mem differs_def node_text_def)
    next
      case A: (Some m)
      have "n' = n" if "n' \<in> set (dag_nodes B)" "node_id n' = t" for n' using B some(1) [of t n'] that by simp
      moreover have "m' = m" if "m' \<in> set (dag_nodes A)" "node_id m' = t" for m' using A some(2) [of t m'] that by simp
      ultimately have "differs pl B A t \<longleftrightarrow> canonicalJson pl (node_json n) \<noteq> canonicalJson pl (node_json m)"
        using A B none [of B t] none [of A t] some(1) [of t n] some(2) [of t m] unfolding differs_def by auto
      with A B show ?thesis using none [of B t] by (simp add: mem node_text_def)
    qed
  qed
qed

lemma accounted_mentions: "accounted cs t = length (filter (\<lambda>c. mentions c t) cs)"
  by (simp add: accounted_def change_ids_def mentions_def set_js_set_of)

lemma reorderContent_fixed: "reorderContent n = fixed_part n"
  by (simp add: reorderContent_def fixed_part_def node_fields_def json_strs_def json_nullable_def Let_def split: option.splits)

lemma meaningful_effect:
  assumes wf: "well_formed_dag B" "well_formed_dag A" and c: "valid_shape c" "valid_semantics pl c (dag_node_map B) (dag_node_map A)"
  shows "has_effect pl B A c"
proof -
  have B: "map_of (dag_node_map B) t \<noteq> None \<longleftrightarrow> t \<in> dag_ids B" and A: "map_of (dag_node_map A) t \<noteq> None \<longleftrightarrow> t \<in> dag_ids A" for t
    by (simp_all only: dag_node_map_None not_not)
  have reorder: "\<exists>n \<in> set (dag_nodes B). \<exists>m \<in> set (dag_nodes A). node_id n = t \<and> node_id m = t \<and> only_reordered pl n m"
    if "valid_reorder pl (map_of (dag_node_map B) t) (map_of (dag_node_map A) t)" for t
  proof -
    from that obtain n m where nm: "map_of (dag_node_map B) t = Some n" "map_of (dag_node_map A) t = Some m"
      "canonicalJson pl (json_strs (node_deps n)) \<noteq> canonicalJson pl (json_strs (node_deps m))"
      "canonicalJson pl (reorderContent n) = canonicalJson pl (reorderContent m)"
      by (auto simp: valid_reorder_def split: option.splits)
    then have "only_reordered pl n m" by (auto simp: only_reordered_def reorderContent_fixed)
    with nm(1,2) show ?thesis using dag_node_map_Some [OF wf(1)] dag_node_map_Some [OF wf(2)] by blast
  qed
  note sem = c(2) [unfolded valid_semantics_def Let_def B A dag_node_map_None]
  show ?thesis
    using c(1) sem unfolding has_effect_def valid_shape_def Let_def
    by (cases "gc_kind c") (auto simp: length_Suc_conv le_Suc_eq numeral_2_eq_2 dest!: reorder, metis)
qed

text \<open>Requirements: same keys, each once, continued from the current mapping and onto tasks that exist.\<close>

lemma all_checked: "concat (map (\<lambda>x. if P x then [] else [d x]) xs) = [] \<longleftrightarrow> (\<forall>x \<in> set xs. P x)"
  by (induction xs) auto

lemma mapping_check_Nil:
  "mapping_check vw cur earlier m = [] \<longleftrightarrow> mappingKey m \<notin> mappingKey ` set earlier \<and>
   (\<exists>prev. map_of cur (mappingKey m) = Some prev \<and> rm_beforeTaskIds m = sort (rm_afterTaskIds prev)) \<and>
   (\<forall>t \<in> set (rm_afterTaskIds m). map_of (vw_afterNodes vw) t \<noteq> None)"
  unfolding mapping_check_def Let_def append_is_Nil_conv all_checked by (auto split: option.splits)

lemma mapping_checks_Nil:
  "mapping_checks vw cur earlier rs = [] \<longleftrightarrow> distinct (map mappingKey rs) \<and> mappingKey ` set earlier \<inter> mappingKey ` set rs = {} \<and>
   (\<forall>m \<in> set rs. (\<exists>prev. map_of cur (mappingKey m) = Some prev \<and> rm_beforeTaskIds m = sort (rm_afterTaskIds prev)) \<and>
      (\<forall>t \<in> set (rm_afterTaskIds m). map_of (vw_afterNodes vw) t \<noteq> None))"
  by (induction rs arbitrary: earlier) (auto simp: mapping_check_Nil)

lemma mapping_lookup: "map_of (mapping_map rs) k = Some m \<Longrightarrow> m \<in> set rs \<and> mappingKey m = k"
  by (auto simp: mapping_map_def js_simps dest!: map_of_SomeD)

lemma mapping_keys: "set (map fst (mapping_map rs)) = mappingKey ` set rs"
  unfolding mapping_map_def keys_js_map_of by (auto simp: image_image)

definition requirements_continued :: "revision_record \<Rightarrow> revision_record \<Rightarrow> bool" where
  "requirements_continued current r \<longleftrightarrow>
     distinct (map mappingKey (rr_requirementMappings r)) \<and>
     mappingKey ` set (rr_requirementMappings r) = mappingKey ` set (rr_requirementMappings current) \<and>
     (\<forall>m \<in> set (rr_requirementMappings r). set (rm_afterTaskIds m) \<subseteq> dag_ids (rr_dag r) \<and>
        (\<exists>prev \<in> set (rr_requirementMappings current). mappingKey prev = mappingKey m \<and> rm_beforeTaskIds m = sort (rm_afterTaskIds prev)))"

lemma requirements_kept:
  assumes acc: "validateTaskGraphRevision pl cx p = (d, Some r)"
  shows "requirements_continued (rx_current cx) r"
proof -
  let ?vw = "view_of pl cx p" and ?cur = "mapping_map (rr_requirementMappings (rx_current cx))"
  note r = accepted_record [OF acc]
  note checks = accepted_checks [OF r(3)]
  have after: "map_of (vw_afterNodes ?vw) t = None \<longleftrightarrow> t \<notin> dag_ids (rr_dag r)" for t
    using dag_node_map_index [OF graph_checks(3) [OF checks(3)]] by (simp add: r(1) map_of_node_index_None dag_ids_def)
  from checks(8) have m: "mapping_checks ?vw ?cur [] (rr_requirementMappings r) = []"
    and l: "lost_diagnostics ?cur (mapping_map (rr_requirementMappings r)) = []"
    by (simp_all add: requirement_diagnostics_def Let_def r(1))
  have dist: "distinct (map mappingKey (rr_requirementMappings r))"
    and each: "\<And>m. m \<in> set (rr_requirementMappings r) \<Longrightarrow> set (rm_afterTaskIds m) \<subseteq> dag_ids (rr_dag r) \<and>
      (\<exists>prev. map_of ?cur (mappingKey m) = Some prev \<and> rm_beforeTaskIds m = sort (rm_afterTaskIds prev))"
    using m unfolding mapping_checks_Nil after by blast+
  have "mappingKey ` set (rr_requirementMappings (rx_current cx)) \<subseteq> mappingKey ` set (rr_requirementMappings r)"
  proof
    fix k assume "k \<in> mappingKey ` set (rr_requirementMappings (rx_current cx))"
    then have "k \<in> fst ` set ?cur" using mapping_keys [of "rr_requirementMappings (rx_current cx)"] by (simp del: set_map add: set_map [symmetric])
    with l have "map_of (mapping_map (rr_requirementMappings r)) k \<noteq> None"
      by (auto simp: lost_diagnostics_def split: if_splits)
    then show "k \<in> mappingKey ` set (rr_requirementMappings r)" unfolding jm.keys_get [symmetric] mapping_keys .
  qed
  moreover have prev: "\<exists>prev \<in> set (rr_requirementMappings (rx_current cx)). mappingKey prev = mappingKey m \<and>
      rm_beforeTaskIds m = sort (rm_afterTaskIds prev)" if "m \<in> set (rr_requirementMappings r)" for m
    using each [OF that] mapping_lookup by blast
  moreover have "mappingKey m \<in> mappingKey ` set (rr_requirementMappings (rx_current cx))" if "m \<in> set (rr_requirementMappings r)" for m
    using prev [OF that] by (metis imageI)
  ultimately show ?thesis using dist each unfolding requirements_continued_def by blast
qed


section \<open>Canonical graphs\<close>

text \<open>Sorting the nodes and the lists inside a task changes neither the tasks nor their dependencies.\<close>

definition canonical_node :: "platform \<Rightarrow> dag_node \<Rightarrow> dag_node" where
  "canonical_node pl n = n\<lparr>dn_task := canonical_task pl (dn_task n)\<rparr>"

lemma canonical_node_simps [simp]:
  "node_id (canonical_node pl n) = node_id n" "set (node_deps (canonical_node pl n)) = set (node_deps n)"
  "distinct (node_deps (canonical_node pl n)) = distinct (node_deps n)"
  "set (et_writeSet (dn_task (canonical_node pl n))) = set (et_writeSet (dn_task n))"
  "distinct (et_writeSet (dn_task (canonical_node pl n))) = distinct (et_writeSet (dn_task n))"
  by (simp_all add: canonical_node_def canonical_task_def)

lemma mset_canonical_nodes: "mset (dag_nodes (canonicalDag pl dag)) = mset (map (canonical_node pl) (dag_nodes dag))"
  by (simp add: canonicalDag_def canonical_node_def [abs_def])

lemma canonical_nodes: "set (dag_nodes (canonicalDag pl dag)) = canonical_node pl ` set (dag_nodes dag)"
  by (simp add: canonicalDag_def canonical_node_def)

lemma distinct_canonical: "distinct (map node_id (dag_nodes (canonicalDag pl dag))) = distinct (map node_id (dag_nodes dag))"
proof -
  have "mset (map node_id (dag_nodes (canonicalDag pl dag))) = mset (map node_id (dag_nodes dag))"
    by (simp add: mset_canonical_nodes comp_def multiset.map_comp)
  then show ?thesis by (rule mset_eq_imp_distinct_iff)
qed

lemma canonical_same [simp]:
  "dag_ids (canonicalDag pl dag) = dag_ids dag" "dag_rel (canonicalDag pl dag) = dag_rel dag"
  "dag_graphRevision (canonicalDag pl dag) = dag_graphRevision dag" "dag_graphId (canonicalDag pl dag) = dag_graphId dag"
proof -
  show "dag_ids (canonicalDag pl dag) = dag_ids dag" by (simp add: dag_ids_def canonical_nodes image_image)
  show "dag_rel (canonicalDag pl dag) = dag_rel dag" by (simp add: dag_rel_def canonical_nodes)
qed (simp_all add: canonicalDag_def)

lemma canonical_well_formed: "well_formed_dag (canonicalDag pl dag) = well_formed_dag dag"
proof -
  have "dag_nodes (canonicalDag pl dag) = [] \<longleftrightarrow> dag_nodes dag = []" by (metis canonical_nodes image_is_empty set_empty)
  then have "basic_dag (canonicalDag pl dag) = basic_dag dag"
    unfolding basic_dag_def distinct_canonical canonical_same by (simp add: canonical_nodes)
  moreover have "ordered_writers (canonicalDag pl dag) = ordered_writers dag"
    unfolding ordered_writers_def canonical_same by (simp add: canonical_nodes)
  ultimately show ?thesis by (simp add: well_formed_dag_def)
qed

section \<open>An accepted revision\<close>

text \<open>A graph with one active task, and a proposal that adds a task after it.\<close>

definition example_change :: graph_change where
  "example_change = \<lparr>gc_kind = CK_add, gc_beforeTaskIds = [], gc_afterTaskIds = [''b''], gc_rationale = ''n'', gc_evidenceArtifactIds = []\<rparr>"

definition example_mapping :: "string list \<Rightarrow> requirement_mapping" where
  "example_mapping before = \<lparr>rm_sourceWorkItemId = ''w'', rm_requirementId = ''q'', rm_beforeTaskIds = before, rm_afterTaskIds = [''a''],
     rm_rationale = ''n''\<rparr>"

definition example_graph :: "nat \<Rightarrow> dag_node list \<Rightarrow> task_dag" where
  "example_graph n ns = \<lparr>dag_graphId = ''g'', dag_graphRevision = n, dag_nodes = ns, dag_createdAt = ''t0''\<rparr>"

definition example_current :: revision_record where
  "example_current = \<lparr>rr_schemaVersion = 1, rr_runId = ''u'', rr_graphId = ''g'', rr_graphRevision = 1, rr_revisionSha256 = ''h'',
     rr_predecessorRevisionSha256 = None, rr_dag = example_graph 1 [example_task ''a'' []], rr_changes = [],
     rr_requirementMappings = [example_mapping []], rr_rationale = ''n'', rr_evidenceArtifactIds = [], rr_decisionId = None,
     rr_committedAt = ''t0'', rr_trigger = None\<rparr>"

definition example_context :: revision_context where
  "example_context = \<lparr>rx_current = example_current, rx_taskStates = [\<lparr>ps_taskId = ''a'', ps_outcome = TO_active,
       ps_completionContract = G_pending, ps_integration = IG_pending, ps_combinedVerification = G_pending\<rparr>],
     rx_hiddenDependencyFinding = None, rx_maxGraphRevisions = 2, rx_decisionId = ''d'', rx_decidedAt = ''t1''\<rparr>"

definition example_proposal :: revision_proposal where
  "example_proposal = \<lparr>rp_schemaVersion = 1, rp_runId = ''u'', rp_graphId = ''g'', rp_expectedGraphRevision = 1,
     rp_expectedRevisionSha256 = ''h'', rp_proposedDag = example_graph 2 [example_task ''b'' [''a''], example_task ''a'' []],
     rp_changes = [example_change], rp_requirementMappings = [example_mapping [''a'']], rp_rationale = ''n'',
     rp_evidenceArtifactIds = [], rp_proposedAt = ''t1'', rp_trigger = None\<rparr>"


definition example_after :: "dag_node list" where
  "example_after = [example_task ''a'' [], example_task ''b'' [''a'']]"

definition example_view :: revision_view where
  "example_view = \<lparr>vw_context = example_context, vw_proposal = example_proposal\<lparr>rp_proposedDag := example_graph 2 example_after\<rparr>,
     vw_beforeDag = example_graph 1 [example_task ''a'' []], vw_beforeNodes = [(''a'', example_task ''a'' [])],
     vw_afterNodes = [(''a'', example_task ''a'' []), (''b'', example_task ''b'' [''a''])],
     vw_states = [(''a'', hd (rx_taskStates example_context))], vw_trigger = None, vw_changed = [''b'']\<rparr>"

lemma canonical_example_dag:
  "canonicalDag pl (example_graph 1 [example_task ''a'' []]) = example_graph 1 [example_task ''a'' []]"
  "canonicalDag pl (example_graph 2 [example_task ''b'' [''a''], example_task ''a'' []]) = example_graph 2 example_after"
  by (simp_all add: canonicalDag_def example_graph_def canonical_task_def example_task_def example_after_def)

lemma canonical_example_proposal: "canonicalProposal pl example_proposal = vw_proposal example_view"
  by (simp add: canonicalProposal_def example_proposal_def example_view_def canonical_example_dag canonicalChange_def canonical_mappings_def
    example_mapping_def example_change_def canonicalMapping_def)

lemma example_changed:
  "changedTaskIds pl (example_graph 1 [example_task ''a'' []]) (example_graph 2 example_after) = [''b'']"
  by (simp add: changedTaskIds_def Let_def dag_node_map_def js_map_of_def js_set_of_def js_add_def example_graph_def example_after_def
    node_text_def example_task_def)

lemma example_parts:
  "rr_dag (rx_current example_context) = example_graph 1 [example_task ''a'' []]"
  "rp_proposedDag (vw_proposal example_view) = example_graph 2 example_after"
  "rp_schemaVersion (vw_proposal example_view) = 1"
  "dag_node_map (example_graph 1 [example_task ''a'' []]) = vw_beforeNodes example_view"
  "dag_node_map (example_graph 2 example_after) = vw_afterNodes example_view"
  "js_map_of (map (\<lambda>s. (ps_taskId s, s)) (rx_taskStates example_context)) = vw_states example_view"
  by (simp_all add: example_context_def example_current_def example_view_def example_proposal_def dag_node_map_def js_map_of_def
    example_graph_def example_after_def example_task_def)

lemma example_view_of: "view_of pl example_context example_proposal = example_view"
  unfolding view_of_def Let_def canonical_example_proposal example_parts canonical_example_dag example_changed
  by (simp add: example_view_def)

lemma example_diagnostics: "revision_diagnostics pl example_view = []"
proof -
  have "hidden_diagnostics example_view = []" by code_simp
  moreover have "identity_diagnostics example_view = []" by code_simp
  moreover have "graph_diagnostics example_view = []" by code_simp
  moreover have "started_diagnostics pl example_view = []"
    by (simp add: started_diagnostics_def example_view_def)
  moreover have "chain_diagnostics pl example_view = []"
    by (simp add: chain_diagnostics_def example_view_def example_task_def)
  moreover have "change_diagnostics pl example_view = []"
    by (simp add: change_diagnostics_def example_view_def example_proposal_def example_change_def operationShapeDiagnostic_def 
      valid_shape_def operationSemanticDiagnostics_def valid_semantics_def change_ids_def js_set_of_def js_add_def)
  moreover have "account_diagnostics example_view = []" by code_simp
  moreover have "requirement_diagnostics example_view = []" by code_simp
  ultimately show ?thesis by (simp add: revision_diagnostics_def)
qed


definition example_hasher :: platform where
  "example_hasher = \<lparr>sha256 = rev, number_text = (\<lambda>_. ''1'')\<rparr>"

definition example_successor :: revision_record where
  "example_successor = successor_record example_hasher example_view"

lemma example_accepted:
  "validateTaskGraphRevision example_hasher example_context example_proposal =
     (fst (validateTaskGraphRevision example_hasher example_context example_proposal), Some example_successor)"
  by (simp add: validateTaskGraphRevision_def Let_def example_view_of example_diagnostics example_successor_def)

section \<open>Properties\<close>

text \<open>
  C32: an accepted revision extends the chain: the successor record belongs to the same run and graph,
  its revision is the current one plus one and within the limit, it names the digest of the current record as its
  predecessor and carries the digest of its own content, and its graph is well formed and fits the task states.
\<close>

theorem accepted_revision_extends_chain:
  assumes "validateTaskGraphRevision pl cx p = (d, Some r)"
  shows "re_outcome d = RO_accepted \<and> rr_runId r = rr_runId (rx_current cx) \<and> rr_graphId r = rr_graphId (rx_current cx) \<and>
    rr_graphRevision r = rr_graphRevision (rx_current cx) + 1 \<and> rr_graphRevision r \<le> rx_maxGraphRevisions cx \<and>
    rr_predecessorRevisionSha256 r = Some (rr_revisionSha256 (rx_current cx)) \<and>
    rr_revisionSha256 r = taskGraphRevisionSha256 pl (core_json r) \<and> re_proposedRevisionSha256 d = Some (rr_revisionSha256 r) \<and>
    well_formed_dag (rr_dag r) \<and> planning_ok (rr_dag r) (proposed_states (view_of pl cx p))"
proof -
  note r = accepted_record [OF assms]
  note checks = accepted_checks [OF r(3)]
  have "re_proposedRevisionSha256 d = Some (rr_revisionSha256 r)" using revision_result [OF assms] by simp
  moreover have "rr_revisionSha256 r = taskGraphRevisionSha256 pl (core_json r)" unfolding r(1) by (rule successor_sealed)
  ultimately show ?thesis using graph_checks(3,4) [OF checks(3)] checks(2) r(2)
    by (auto simp: r(1) identity_diagnostics_def Let_def split: if_splits)
qed

theorem accepted_revision_extends_chain_witness:
  "rr_graphRevision example_successor = 2 \<and> rr_predecessorRevisionSha256 example_successor = Some ''h''"
  using accepted_revision_extends_chain [OF example_accepted] by (simp add: example_context_def example_current_def)

text \<open>
  C30: started work is immutable: a task of the current graph whose state is anything but not started is in the accepted
  graph with exactly the same content, unless it was cancelled, named as interrupted by the hidden-dependency
  trigger, removed, and replaced by an explicit supersede operation.
\<close>

theorem started_tasks_immutable:
  assumes "validateTaskGraphRevision pl cx p = (d, Some r)"
    "n \<in> set (dag_nodes (canonicalDag pl (rr_dag (rx_current cx))))"
    "s \<in> set (rx_taskStates cx)" "ps_taskId s = node_id n" "ps_outcome s \<noteq> TO_not_started"
  shows "(\<exists>m \<in> set (dag_nodes (rr_dag r)). node_id m = node_id n \<and> canonicalJson pl (node_json m) = canonicalJson pl (node_json n)) \<or>
    superseded_interrupted r s"
  by (rule started_kept [OF assms])

theorem started_tasks_immutable_witness:
  "(\<exists>m \<in> set (dag_nodes (rr_dag example_successor)). node_id m = ''a'' \<and>
     canonicalJson example_hasher (node_json m) = canonicalJson example_hasher (node_json (example_task ''a'' []))) \<or>
   superseded_interrupted example_successor (hd (rx_taskStates example_context))"
proof -
  have "example_task ''a'' [] \<in> set (dag_nodes (canonicalDag example_hasher (rr_dag (rx_current example_context))))"
    unfolding example_parts canonical_example_dag by (simp add: example_graph_def)
  from started_tasks_immutable [OF example_accepted this, of "hd (rx_taskStates example_context)"]
  show ?thesis by (simp add: example_context_def example_task_def)
qed

text \<open>
  C31: no requirement is lost: the accepted record has exactly the requirement keys of the current record, each once, every
  mapping starts from the tasks the current record maps its requirement to, and every task it maps to is in the new graph.
\<close>

theorem requirements_preserved:
  assumes "validateTaskGraphRevision pl cx p = (d, Some r)"
  shows "requirements_continued (rx_current cx) r"
  by (rule requirements_kept [OF assms])

theorem requirements_preserved_witness: "requirements_continued example_current example_successor"
  using requirements_preserved [OF example_accepted] by (simp add: example_context_def)

text \<open>
  C33: every difference is declared. Between the canonical form of the current graph and the graph of an
  accepted record, exactly one change mentions each task that was added, removed or altered, and no
  change mentions another task. Every change has the effect of its kind: an add introduces one
  new task, a split replaces one task by at least two new ones, a merge replaces at least two by one new one, a supersede
  removes a task, replaces it by a new one or alters it, and a reorder alters only the
  dependencies and the revision of a task.
\<close>

theorem changes_account_for_differences:
  assumes "validateTaskGraphRevision pl cx p = (d, Some r)"
  defines "B \<equiv> canonicalDag pl (rr_dag (rx_current cx))"
  shows "(\<forall>t. length (filter (\<lambda>c. mentions c t) (rr_changes r)) = (if differs pl B (rr_dag r) t then 1 else 0)) \<and>
    (\<forall>c \<in> set (rr_changes r). has_effect pl B (rr_dag r) c)"
proof -
  note r = accepted_record [OF assms(1)]
  note g = graph_checks [OF accepted_checks(3) [OF r(3)]]
  have wf: "well_formed_dag B" "well_formed_dag (rr_dag r)" using g(1,3) by (simp_all add: B_def r(1))
  have "length (filter (\<lambda>c. mentions c t) (rr_changes r)) = (if differs pl B (rr_dag r) t then 1 else 0)" for t
    using changes_account [OF assms(1), of t] by (simp add: accounted_mentions changed_differs [OF wf] flip: B_def)
  moreover have "has_effect pl B (rr_dag r) c" if "c \<in> set (rr_changes r)" for c
    using changes_meaningful [OF assms(1) that] meaningful_effect [OF wf] by (simp flip: B_def)
  ultimately show ?thesis by blast
qed

theorem changes_account_for_differences_witness:
  "length (filter (\<lambda>c. mentions c ''b'') (rr_changes example_successor)) = 1 \<and>
   length (filter (\<lambda>c. mentions c ''a'') (rr_changes example_successor)) = 0"
proof -
  have "differs example_hasher (canonicalDag example_hasher (rr_dag (rx_current example_context))) (rr_dag example_successor) t \<longleftrightarrow> t = ''b''" for t
    unfolding example_parts canonical_example_dag example_successor_def successor_fields
    by (auto simp: differs_def dag_ids_def example_graph_def example_after_def example_task_def)
  then show ?thesis using changes_account_for_differences [OF example_accepted] by simp
qed

text \<open>
  C34: structural waves are the layers of the graph: for a valid graph the wave ordinals increase strictly, every task is in exactly one
  wave, every dependency of a task is in an earlier wave, and a task beyond the first wave has a dependency in the wave just before.
\<close>

theorem waves_are_layers:
  assumes "dv_valid (validateTaskDag dag None)"
  shows "layering dag (computeWaves dag)"
  by (rule computeWaves_layering [OF assms])

theorem waves_are_layers_witness: "layering example_dag (computeWaves example_dag)"
  using waves_are_layers example_dag_valid(1) by blast

text \<open>
  An initial record is created exactly when the graph's revision is 1, the graph is well formed, there is at least one
  requirement mapping, none of them names predecessor tasks and all map to tasks of the graph; the record then starts the
  chain at revision 1 without a predecessor, and carries the digest of its content.
\<close>

theorem initial_revision_correct:
  "case createInitialTaskGraphRevision pl i of
     Inl e \<Rightarrow> \<not> (dag_graphRevision (ii_dag i) = 1 \<and> well_formed_dag (ii_dag i) \<and> ii_requirementMappings i \<noteq> [] \<and>
       list_all (\<lambda>m. rm_beforeTaskIds m = [] \<and> set (rm_afterTaskIds m) \<subseteq> dag_ids (ii_dag i)) (ii_requirementMappings i))
   | Inr r \<Rightarrow> dag_graphRevision (ii_dag i) = 1 \<and> well_formed_dag (ii_dag i) \<and> ii_requirementMappings i \<noteq> [] \<and>
       list_all (\<lambda>m. rm_beforeTaskIds m = [] \<and> set (rm_afterTaskIds m) \<subseteq> dag_ids (ii_dag i)) (ii_requirementMappings i) \<and>
       rr_graphRevision r = 1 \<and> rr_predecessorRevisionSha256 r = None \<and> rr_dag r = canonicalDag pl (ii_dag i) \<and>
       rr_revisionSha256 r = taskGraphRevisionSha256 pl (core_json r)"
proof -
  let ?M = "canonical_mappings pl (ii_requirementMappings i)" and ?D = "canonicalDag pl (ii_dag i)"
  have M: "set ?M = canonicalMapping ` set (ii_requirementMappings i)" by (simp add: canonical_mappings_def)
  have empty: "?M = [] \<longleftrightarrow> ii_requirementMappings i = []" by (simp add: canonical_mappings_def)
  have before: "list_ex (\<lambda>r. rm_beforeTaskIds r \<noteq> []) ?M \<longleftrightarrow> \<not> list_all (\<lambda>m. rm_beforeTaskIds m = []) (ii_requirementMappings i)"
    by (simp add: list_ex_iff list_all_iff M canonicalMapping_def)
  have target: "list_ex (\<lambda>r. list_ex (\<lambda>t. t \<notin> node_id ` set (dag_nodes ?D)) (rm_afterTaskIds r)) ?M \<longleftrightarrow>
      \<not> list_all (\<lambda>m. set (rm_afterTaskIds m) \<subseteq> dag_ids (ii_dag i)) (ii_requirementMappings i)"
    unfolding dag_ids_def [of ?D, symmetric] canonical_same by (auto simp: list_ex_iff list_all_iff M canonicalMapping_def)
  have both: "list_all (\<lambda>m. rm_beforeTaskIds m = [] \<and> set (rm_afterTaskIds m) \<subseteq> dag_ids (ii_dag i)) (ii_requirementMappings i) \<longleftrightarrow>
      list_all (\<lambda>m. rm_beforeTaskIds m = []) (ii_requirementMappings i) \<and>
      list_all (\<lambda>m. set (rm_afterTaskIds m) \<subseteq> dag_ids (ii_dag i)) (ii_requirementMappings i)"
    by (auto simp: list_all_iff)
  have wf: "dv_valid (validateTaskDag ?D None) \<longleftrightarrow> well_formed_dag (ii_dag i)" by (simp add: valid_well_formed_iff canonical_well_formed)
  show ?thesis unfolding createInitialTaskGraphRevision_def Let_def before target both empty wf canonical_same
    by (auto simp: seal_def core_json_def)
qed

end
