(* ===== verification/Text16.thy ===== *)
theory Text16
  imports Js_Number "HOL-Library.Word"
begin

text \<open>
  JavaScript strings at full width, for the continuation capsules that cut text by its UTF-8 size: a text is a
  list of 16-bit code units. \<open>for (const char of text)\<close> walks its code points (a high surrogate followed by
  a low one is one step), \<open>Buffer.byteLength(text, "utf8")\<close> adds up their encoded sizes (a lone surrogate is
  written as the replacement character, three bytes), \<open>trim\<close> drops white space at both ends, and
  \<open>JSON.stringify\<close> escapes a lone surrogate. Equality and the order of texts are those of the lists.
\<close>

type_synonym text16 = "16 word list"

definition lit :: "string \<Rightarrow> text16" where
  "lit s = map (\<lambda>c. word_of_nat (of_char c)) s"

definition is_high :: "16 word \<Rightarrow> bool" where "is_high w \<longleftrightarrow> 0xD800 \<le> w \<and> w \<le> 0xDBFF"
definition is_low :: "16 word \<Rightarrow> bool" where "is_low w \<longleftrightarrow> 0xDC00 \<le> w \<and> w \<le> 0xDFFF"

fun code_points :: "text16 \<Rightarrow> text16 list" where
  "code_points (w # v # ws) = (if is_high w \<and> is_low v then [w, v] # code_points ws else [w] # code_points (v # ws))"
| "code_points [w] = [[w]]"
| "code_points [] = []"

fun point_size :: "text16 \<Rightarrow> nat" where
  "point_size [w] = (if w < 0x80 then 1 else if w < 0x800 then 2 else 3)"
| "point_size _ = 4"

definition utf8ByteLength :: "text16 \<Rightarrow> nat" where
  "utf8ByteLength s = sum_list (map point_size (code_points s))"

definition js_space :: "16 word \<Rightarrow> bool" where
  "js_space w \<longleftrightarrow> w \<in> {9, 10, 11, 12, 13, 32, 0xA0, 0x1680, 0x2028, 0x2029, 0x202F, 0x205F, 0x3000, 0xFEFF} \<or>
     (0x2000 \<le> w \<and> w \<le> 0x200A)"

definition js_trim :: "text16 \<Rightarrow> text16" where
  "js_trim s = rev (dropWhile js_space (rev (dropWhile js_space s)))"

definition text_of_nat :: "nat \<Rightarrow> text16" where "text_of_nat n = lit (show_nat n)"

fun text_join :: "text16 \<Rightarrow> text16 list \<Rightarrow> text16" where
  "text_join sep [] = []"
| "text_join sep [x] = x"
| "text_join sep (x # y # xs) = x @ sep @ text_join sep (y # xs)"

section \<open>JSON over texts\<close>

datatype text_json = TNull | TBool bool | TNum js_number | TStr text16
  | TArr "text_json list" | TObj "(text16 \<times> text_json) list"

text \<open>The platform functions of this part: the hash of the UTF-8 encoding, in hex, and the text of a number.\<close>

record text_platform =
  sha256_hex :: "text16 \<Rightarrow> text16"
  number16 :: "js_number \<Rightarrow> text16"

definition hex16 :: "nat \<Rightarrow> 16 word" where
  "hex16 n = (if n < 10 then word_of_nat (48 + n) else word_of_nat (87 + n))"

definition unicode_escape :: "16 word \<Rightarrow> text16" where
  "unicode_escape w = (let n = unat w in
     [0x5C, 0x75, hex16 (n div 4096), hex16 (n div 256 mod 16), hex16 (n div 16 mod 16), hex16 (n mod 16)])"

fun escape_point :: "text16 \<Rightarrow> text16" where
  "escape_point [w] =
     (if w = 0x22 then [0x5C, 0x22] else if w = 0x5C then [0x5C, 0x5C]
      else if w = 8 then [0x5C, 0x62] else if w = 12 then [0x5C, 0x66] else if w = 10 then [0x5C, 0x6E]
      else if w = 13 then [0x5C, 0x72] else if w = 9 then [0x5C, 0x74]
      else if w < 32 \<or> is_high w \<or> is_low w then unicode_escape w else [w])"
| "escape_point p = p"

definition text_quote :: "text16 \<Rightarrow> text16" where
  "text_quote s = [0x22] @ concat (map escape_point (code_points s)) @ [0x22]"

fun canonicalText :: "text_platform \<Rightarrow> text_json \<Rightarrow> text16" where
  "canonicalText pl TNull = lit ''null''"
| "canonicalText pl (TBool b) = lit (if b then ''true'' else ''false'')"
| "canonicalText pl (TNum n) = (case n of NaN \<Rightarrow> lit ''null'' | Infinity _ \<Rightarrow> lit ''null'' | _ \<Rightarrow> number16 pl n)"
| "canonicalText pl (TStr s) = text_quote s"
| "canonicalText pl (TArr vs) = lit ''['' @ text_join (lit '','') (map (canonicalText pl) vs) @ lit '']''"
| "canonicalText pl (TObj kvs) =
     [0x7B] @ text_join (lit '','') (map snd (sort_key fst
       (map (\<lambda>(k, v). (k, text_quote k @ lit '':'' @ canonicalText pl v)) kvs))) @ [0x7D]"

section \<open>Walking the code points\<close>

lemma concat_code_points [simp]: "concat (code_points s) = s"
  by (induction s rule: code_points.induct) auto

lemma point_size_pos: "0 < point_size p"
  by (cases p rule: point_size.cases) auto

lemma utf8_Nil [simp]: "utf8ByteLength [] = 0"
  by (simp add: utf8ByteLength_def)

text \<open>A prefix that ends between two code points is cut at the same places as the whole text.\<close>

lemma code_points_cut:
  "code_points s = ps @ qs \<Longrightarrow> code_points (concat ps) = ps \<and> code_points (concat qs) = qs"
proof (induction s arbitrary: ps rule: code_points.induct)
  case (1 w v ws)
  show ?case
  proof (cases ps)
    case Nil
    with 1 show ?thesis by (metis append_Nil code_points.simps(3) concat.simps(1) concat_code_points)
  next
    case (Cons p ps')
    show ?thesis
    proof (cases "is_high w \<and> is_low v")
      case True
      with 1 Cons show ?thesis by auto
    next
      case False
      then have p: "p = [w]" "code_points (v # ws) = ps' @ qs" using 1 Cons by auto
      with 1 False have IH: "code_points (concat ps') = ps' \<and> code_points (concat qs) = qs" by blast
      have "code_points (w # concat ps') = [w] # ps'"
      proof (cases "concat ps'")
        case Nil
        with IH show ?thesis by simp
      next
        case (Cons x xs)
        have "concat (code_points (v # ws)) = concat ps' @ concat qs" by (simp only: p(2) concat_append)
        with Cons have "x = v" by (simp only: concat_code_points) simp
        with IH Cons False show ?thesis by auto
      qed
      with IH p Cons show ?thesis by simp
    qed
  qed
next
  case (2 w)
  then show ?case by (cases ps) auto
qed simp

end
