(* ===== verification/Fusion.thy ===== *)
theory Fusion
  imports Text16
begin

text \<open>
  Segment fusion (\<open>packages/pipeline/src/fusion/evaluate.ts\<close>, \<open>pressure.ts\<close> and \<open>ids.ts\<close>): whether the session
  of a finished stage may go on with its successor. The context pressure compares a measured ratio with the soft and the hard
  threshold as binary64 numbers; the evaluation is the chain of guards of the source, in its order. The property gives
  the guards a fused transition has passed.
\<close>

section \<open>Identities\<close>

definition digest32 :: "text_platform \<Rightarrow> text16 list \<Rightarrow> text16" where
  "digest32 pl parts = take 32 (sha256_hex pl (text_join [0] parts))"

definition deriveSegmentId :: "text_platform \<Rightarrow> text16 \<Rightarrow> text16 \<Rightarrow> nat \<Rightarrow> text16" where
  "deriveSegmentId pl runId profileId ordinal =
     lit ''seg:'' @ runId @ lit '':'' @ digest32 pl [runId, profileId, text_of_nat ordinal]"

definition deriveFusionDecisionId :: "text_platform \<Rightarrow> text16 \<Rightarrow> text16 \<Rightarrow> text16 \<Rightarrow> text16 option \<Rightarrow> text16 \<Rightarrow> text16" where
  "deriveFusionDecisionId pl runId fromStageId toStageId fromAttemptId recordedAt =
     lit ''fuse:'' @ runId @ lit '':'' @
     digest32 pl [runId, fromStageId, toStageId, case fromAttemptId of None \<Rightarrow> [] | Some a \<Rightarrow> a, recordedAt]"

definition deriveCapsuleId :: "text_platform \<Rightarrow> text16 \<Rightarrow> text16 \<Rightarrow> text16 \<Rightarrow> text16 \<Rightarrow> nat \<Rightarrow> text16" where
  "deriveCapsuleId pl runId stageId attemptId segmentId segmentOrdinal =
     lit ''cap:'' @ runId @ lit '':'' @ digest32 pl [runId, stageId, attemptId, segmentId, text_of_nat segmentOrdinal]"

definition deriveVerificationId :: "text_platform \<Rightarrow> text16 \<Rightarrow> text16 \<Rightarrow> text16" where
  "deriveVerificationId pl capsuleId recordedAt = lit ''ver:'' @ digest32 pl [capsuleId, recordedAt]"

section \<open>Context pressure\<close>

definition DEFAULT_HANDOFF_SOFT_THRESHOLD :: js_number where
  "DEFAULT_HANDOFF_SOFT_THRESHOLD = number_of_decimal ''0.65''"

definition DEFAULT_HANDOFF_HARD_THRESHOLD :: js_number where
  "DEFAULT_HANDOFF_HARD_THRESHOLD = number_of_decimal ''0.8''"

datatype pressure_confidence = PC_exact | PC_estimated | PC_unavailable
datatype pressure_state = PS_measured | PS_exhausted | PS_unavailable
datatype pressure_action = PA_continue | PA_soft_boundary | PA_hard_checkpoint | PA_forbid_fusion

datatype split_reason = SR_explicit_fresh | SR_profile_mismatch | SR_fingerprint_mismatch | SR_permissions_mismatch
  | SR_workspace_mismatch | SR_lease_mismatch | SR_backend_no_continuation | SR_fresh_review_required
  | SR_retry_requires_fresh | SR_delegated_recovery | SR_branching_ambiguity | SR_pressure_unavailable
  | SR_pressure_contradictory | SR_pressure_soft_threshold | SR_pressure_hard_threshold | SR_capacity_exhausted
  | SR_non_agent_stage | SR_not_adjacent

record pressure_observation =
  po_state :: pressure_state
  po_ratio :: "js_number option"
  po_confidence :: pressure_confidence
  po_softThreshold :: "js_number option"
  po_hardThreshold :: "js_number option"
  po_telemetryCursor :: "text16 option"

record pressure_evaluation =
  pe_action :: pressure_action
  pe_softThreshold :: js_number
  pe_hardThreshold :: js_number
  pe_ratio :: "js_number option"
  pe_confidence :: pressure_confidence
  pe_state :: pressure_state
  pe_telemetryCursor :: "text16 option"
  pe_splitReason :: "split_reason option"

definition resolveThresholds :: "pressure_observation \<Rightarrow> js_number \<times> js_number" where
  "resolveThresholds i =
     ((case po_softThreshold i of None \<Rightarrow> DEFAULT_HANDOFF_SOFT_THRESHOLD | Some t \<Rightarrow> t),
      (case po_hardThreshold i of None \<Rightarrow> DEFAULT_HANDOFF_HARD_THRESHOLD | Some t \<Rightarrow> t))"

definition evaluateContextPressure :: "pressure_observation \<Rightarrow> pressure_evaluation" where
  "evaluateContextPressure i =
     (let (soft, hard) = resolveThresholds i;
          result = (\<lambda>action reason. \<lparr>pe_action = action, pe_softThreshold = soft, pe_hardThreshold = hard, pe_ratio = po_ratio i,
            pe_confidence = po_confidence i, pe_state = po_state i, pe_telemetryCursor = po_telemetryCursor i, pe_splitReason = reason\<rparr>)
      in if po_state i = PS_unavailable \<or> po_confidence i = PC_unavailable
         then result PA_forbid_fusion (Some SR_pressure_unavailable)
         else if po_state i = PS_exhausted then result PA_hard_checkpoint (Some SR_capacity_exhausted)
         else (case po_ratio i of
             None \<Rightarrow> result PA_forbid_fusion (Some SR_pressure_unavailable)
           | Some ratio \<Rightarrow>
               if \<not> is_finite_num ratio then result PA_forbid_fusion (Some SR_pressure_unavailable)
               else if num_le hard ratio then result PA_hard_checkpoint (Some SR_pressure_hard_threshold)
               else if num_le soft ratio then result PA_soft_boundary (Some SR_pressure_soft_threshold)
               else result PA_continue None))"

definition pressureAllowsFusion :: "pressure_evaluation \<Rightarrow> bool" where
  "pressureAllowsFusion e \<longleftrightarrow> pe_action e = PA_continue"

section \<open>Eligibility\<close>

datatype session_policy = SP_fresh | SP_resume
datatype retry_mode = RM_fresh | RM_resume | RM_delegate

record stage_view =
  sv_stageId :: text16
  sv_stageType :: text16
  sv_profileId :: "text16 option"
  sv_profileFingerprint :: "text16 option"
  sv_roleId :: "text16 option"
  sv_sessionPolicy :: "session_policy option"
  sv_permissionsDigest :: "text16 option"

record workspace_view =
  wv_workspaceId :: "text16 option"
  wv_leaseId :: "text16 option"

record fusion_input =
  fi_runId :: text16
  fi_from :: stage_view
  fi_to :: stage_view
  fi_fromWorkspace :: workspace_view
  fi_toWorkspace :: workspace_view
  fi_adjacent :: bool
  fi_successorCount :: nat
  fi_backendSupportsContinuation :: bool
  fi_retryMode :: "retry_mode option"
  fi_pressure :: "pressure_observation option"
  fi_fromAttemptId :: "text16 option"
  fi_toAttemptId :: "text16 option"
  fi_segmentId :: "text16 option"
  fi_now :: text16

datatype fusion_outcome = FO_fuse | FO_split

record decision_pressure =
  dp_ratio :: "js_number option"
  dp_confidence :: pressure_confidence
  dp_state :: pressure_state
  dp_softThreshold :: js_number
  dp_hardThreshold :: js_number
  dp_telemetryCursor :: "text16 option"

record fusion_decision =
  fd_decisionId :: text16
  fd_runId :: text16
  fd_fromStageId :: text16
  fd_toStageId :: text16
  fd_fromAttemptId :: "text16 option"
  fd_toAttemptId :: "text16 option"
  fd_outcome :: fusion_outcome
  fd_splitReason :: "split_reason option"
  fd_segmentId :: "text16 option"
  fd_pressure :: "decision_pressure option"
  fd_detail :: "text16 option"
  fd_recordedAt :: text16

datatype fusion_result = Fuse fusion_decision pressure_evaluation
  | Split fusion_decision split_reason "pressure_evaluation option"

text \<open>The role test is a case-insensitive search; without the unicode flag only ASCII letters fold.\<close>

definition fold_case :: "16 word \<Rightarrow> 16 word" where
  "fold_case w = (if 0x41 \<le> w \<and> w \<le> 0x5A then w + 0x20 else w)"

fun contains_text :: "text16 \<Rightarrow> text16 \<Rightarrow> bool" where
  "contains_text p s \<longleftrightarrow> take (length p) s = p \<or> (case s of [] \<Rightarrow> False | _ # s' \<Rightarrow> contains_text p s')"

definition FRESH_REVIEW_ROLE_PATTERN :: "text16 \<Rightarrow> bool" where
  "FRESH_REVIEW_ROLE_PATTERN roleId \<longleftrightarrow>
     list_ex (\<lambda>p. contains_text (lit p) (map fold_case roleId)) [''critic'', ''reviewer'', ''review'']"

definition requiresFreshReview :: "stage_view \<Rightarrow> bool" where
  "requiresFreshReview s =
     (if sv_sessionPolicy s = Some SP_fresh then True
      else case sv_roleId s of None \<Rightarrow> False | Some r \<Rightarrow> FRESH_REVIEW_ROLE_PATTERN r)"

definition pressure_fields :: "pressure_evaluation \<Rightarrow> decision_pressure" where
  "pressure_fields e = \<lparr>dp_ratio = pe_ratio e, dp_confidence = pe_confidence e, dp_state = pe_state e,
     dp_softThreshold = pe_softThreshold e, dp_hardThreshold = pe_hardThreshold e, dp_telemetryCursor = pe_telemetryCursor e\<rparr>"

definition buildDecision :: "text_platform \<Rightarrow> fusion_input \<Rightarrow> fusion_outcome \<Rightarrow> split_reason option \<Rightarrow>
    pressure_evaluation option \<Rightarrow> text16 option \<Rightarrow> fusion_decision" where
  "buildDecision pl i outcome reason pressure detail =
     \<lparr>fd_decisionId = deriveFusionDecisionId pl (fi_runId i) (sv_stageId (fi_from i)) (sv_stageId (fi_to i)) (fi_fromAttemptId i) (fi_now i),
      fd_runId = fi_runId i, fd_fromStageId = sv_stageId (fi_from i), fd_toStageId = sv_stageId (fi_to i),
      fd_fromAttemptId = fi_fromAttemptId i, fd_toAttemptId = fi_toAttemptId i, fd_outcome = outcome, fd_splitReason = reason,
      fd_segmentId = (if outcome = FO_fuse then fi_segmentId i else None), fd_pressure = map_option pressure_fields pressure, fd_detail = detail,
      fd_recordedAt = fi_now i\<rparr>"

definition split_fusion :: "text_platform \<Rightarrow> fusion_input \<Rightarrow> split_reason \<Rightarrow> pressure_evaluation option \<Rightarrow> text16 option \<Rightarrow> fusion_result" where
  "split_fusion pl i reason pressure detail = Split (buildDecision pl i FO_split (Some reason) pressure detail) reason pressure"

text \<open>Two optional values contradict each other only when both are known and differ.\<close>

definition both_differ :: "'a option \<Rightarrow> 'a option \<Rightarrow> bool" where
  "both_differ a b \<longleftrightarrow> a \<noteq> None \<and> b \<noteq> None \<and> a \<noteq> b"

definition fusion_pressure :: "fusion_input \<Rightarrow> pressure_evaluation" where
  "fusion_pressure i = evaluateContextPressure (case fi_pressure i of Some p \<Rightarrow> p
     | None \<Rightarrow> \<lparr>po_state = PS_unavailable, po_ratio = None, po_confidence = PC_unavailable, po_softThreshold = None,
         po_hardThreshold = None, po_telemetryCursor = None\<rparr>)"

definition evaluateFusion :: "text_platform \<Rightarrow> fusion_input \<Rightarrow> fusion_result" where
  "evaluateFusion pl i =
     (let split = (\<lambda>reason. split_fusion pl i reason None None) in
      if sv_stageType (fi_from i) \<noteq> lit ''agent'' \<or> sv_stageType (fi_to i) \<noteq> lit ''agent'' then split SR_non_agent_stage
      else if \<not> fi_adjacent i then split SR_not_adjacent
      else if fi_successorCount i \<noteq> 1
      then split_fusion pl i SR_branching_ambiguity None (Some (lit ''successorCount='' @ text_of_nat (fi_successorCount i)))
      else if sv_sessionPolicy (fi_to i) = Some SP_fresh then split SR_explicit_fresh
      else if requiresFreshReview (fi_to i) \<or> requiresFreshReview (fi_from i) then split SR_fresh_review_required
      else if fi_retryMode i = Some RM_fresh then split SR_retry_requires_fresh
      else if fi_retryMode i = Some RM_delegate then split SR_delegated_recovery
      else if \<not> fi_backendSupportsContinuation i then split SR_backend_no_continuation
      else if sv_profileId (fi_from i) = None \<or> sv_profileId (fi_to i) = None \<or> sv_profileId (fi_from i) \<noteq> sv_profileId (fi_to i)
      then split SR_profile_mismatch
      else if both_differ (sv_profileFingerprint (fi_from i)) (sv_profileFingerprint (fi_to i)) then split SR_fingerprint_mismatch
      else if both_differ (sv_permissionsDigest (fi_from i)) (sv_permissionsDigest (fi_to i)) then split SR_permissions_mismatch
      else if both_differ (wv_workspaceId (fi_fromWorkspace i)) (wv_workspaceId (fi_toWorkspace i)) then split SR_workspace_mismatch
      else if both_differ (wv_leaseId (fi_fromWorkspace i)) (wv_leaseId (fi_toWorkspace i)) then split SR_lease_mismatch
      else (let pressure = fusion_pressure i in
        if \<not> pressureAllowsFusion pressure
        then split_fusion pl i (case pe_splitReason pressure of None \<Rightarrow> SR_pressure_unavailable | Some r \<Rightarrow> r) (Some pressure) None
        else Fuse (buildDecision pl i FO_fuse None (Some pressure) None) pressure))"

section \<open>What a fused transition has passed\<close>

text \<open>
  The conditions of fusion, stated on the input alone: a role asks for a fresh review when its name has a critic or a
  review in it, in any case of the letters; the thresholds are those observed, or 0.65 and 0.8.
\<close>

definition fresh_review :: "stage_view \<Rightarrow> bool" where
  "fresh_review s \<longleftrightarrow> sv_sessionPolicy s = Some SP_fresh \<or>
     (\<exists>before word after. sv_roleId s = Some (before @ word @ after) \<and> map fold_case word \<in> {lit ''critic'', lit ''review''})"

definition below_threshold :: "pressure_observation \<Rightarrow> bool" where
  "below_threshold p \<longleftrightarrow> po_state p = PS_measured \<and> po_confidence p \<noteq> PC_unavailable \<and>
     (\<exists>ratio. po_ratio p = Some ratio \<and> is_finite_num ratio \<and>
        \<not> num_le (case po_softThreshold p of Some t \<Rightarrow> t | None \<Rightarrow> number_of_decimal ''0.65'') ratio \<and>
        \<not> num_le (case po_hardThreshold p of Some t \<Rightarrow> t | None \<Rightarrow> number_of_decimal ''0.8'') ratio)"

definition agent_pair :: "fusion_input \<Rightarrow> bool" where
  "agent_pair i \<longleftrightarrow> sv_stageType (fi_from i) = lit ''agent'' \<and> sv_stageType (fi_to i) = lit ''agent'' \<and> fi_adjacent i \<and>
     fi_successorCount i = 1 \<and> fi_backendSupportsContinuation i \<and> fi_retryMode i \<notin> {Some RM_fresh, Some RM_delegate} \<and>
     \<not> fresh_review (fi_from i) \<and> \<not> fresh_review (fi_to i)"

text \<open>The values that describe the posture of a stage, on both sides: equal, or at least not known to differ.\<close>

definition postures :: "fusion_input \<Rightarrow> (text16 option \<times> text16 option) list" where
  "postures i = [(sv_profileFingerprint (fi_from i), sv_profileFingerprint (fi_to i)),
     (sv_permissionsDigest (fi_from i), sv_permissionsDigest (fi_to i)),
     (wv_workspaceId (fi_fromWorkspace i), wv_workspaceId (fi_toWorkspace i)),
     (wv_leaseId (fi_fromWorkspace i), wv_leaseId (fi_toWorkspace i))]"

definition posture_known :: "fusion_input \<Rightarrow> bool" where
  "posture_known i \<longleftrightarrow> (\<forall>(a, b) \<in> set (postures i). a \<noteq> None \<and> b \<noteq> None)"

definition same_profile :: "fusion_input \<Rightarrow> bool" where
  "same_profile i \<longleftrightarrow> (\<exists>k. sv_profileId (fi_from i) = Some k \<and> sv_profileId (fi_to i) = Some k)"

definition same_posture :: "fusion_input \<Rightarrow> bool" where
  "same_posture i \<longleftrightarrow> same_profile i \<and> (\<forall>(a, b) \<in> set (postures i). a = b)"

definition compatible_posture :: "fusion_input \<Rightarrow> bool" where
  "compatible_posture i \<longleftrightarrow> same_profile i \<and> (\<forall>(a, b) \<in> set (postures i). \<not> both_differ a b)"

lemma contains_text_iff: "contains_text p s \<longleftrightarrow> (\<exists>a b. s = a @ p @ b)"
proof (induction s)
  case Nil
  show ?case by auto
next
  case (Cons x s)
  have "(\<exists>a b. x # s = a @ p @ b) \<longleftrightarrow> take (length p) (x # s) = p \<or> (\<exists>a b. s = a @ p @ b)"
  proof
    assume "\<exists>a b. x # s = a @ p @ b"
    then obtain a b where ab: "x # s = a @ p @ b" by blast
    then show "take (length p) (x # s) = p \<or> (\<exists>a b. s = a @ p @ b)" by (cases a) auto
  next
    assume "take (length p) (x # s) = p \<or> (\<exists>a b. s = a @ p @ b)"
    then show "\<exists>a b. x # s = a @ p @ b"
    proof
      assume "take (length p) (x # s) = p"
      then have "x # s = [] @ p @ drop (length p) (x # s)" by (metis append_Nil append_take_drop_id)
      then show ?thesis by blast
    next
      assume "\<exists>a b. s = a @ p @ b"
      then show ?thesis by (metis append_Cons)
    qed
  qed
  with Cons.IH show ?case by simp
qed

declare contains_text.simps [simp del]

lemma contains_folded: "contains_text p (map fold_case r) \<longleftrightarrow> (\<exists>a w b. r = a @ w @ b \<and> map fold_case w = p)"
proof
  assume "contains_text p (map fold_case r)"
  then obtain a b where "map fold_case r = a @ p @ b" by (auto simp: contains_text_iff)
  then show "\<exists>a w b. r = a @ w @ b \<and> map fold_case w = p" by (metis map_eq_append_conv)
next
  assume "\<exists>a w b. r = a @ w @ b \<and> map fold_case w = p"
  then show "contains_text p (map fold_case r)" unfolding contains_text_iff by (metis map_append)
qed

lemma contains_reviewer: "contains_text (lit ''reviewer'') s \<Longrightarrow> contains_text (lit ''review'') s"
proof -
  have "lit ''reviewer'' = lit ''review'' @ lit ''er''" by code_simp
  then show "contains_text (lit ''reviewer'') s \<Longrightarrow> contains_text (lit ''review'') s" by (auto simp: contains_text_iff)
qed

lemma requiresFreshReview_iff: "requiresFreshReview s \<longleftrightarrow> fresh_review s"
proof (cases "sv_roleId s")
  case (Some r)
  have "FRESH_REVIEW_ROLE_PATTERN r \<longleftrightarrow>
      contains_text (lit ''critic'') (map fold_case r) \<or> contains_text (lit ''review'') (map fold_case r)"
    using contains_reviewer [of "map fold_case r"] by (auto simp: FRESH_REVIEW_ROLE_PATTERN_def)
  also have "\<dots> \<longleftrightarrow> (\<exists>a w b. r = a @ w @ b \<and> map fold_case w \<in> {lit ''critic'', lit ''review''})"
    unfolding contains_folded by blast
  finally show ?thesis using Some by (auto simp: requiresFreshReview_def fresh_review_def)
qed (simp add: requiresFreshReview_def fresh_review_def)

lemma pressure_continue: "pe_action (evaluateContextPressure p) = PA_continue \<longleftrightarrow> below_threshold p"
  unfolding evaluateContextPressure_def below_threshold_def resolveThresholds_def DEFAULT_HANDOFF_SOFT_THRESHOLD_def
    DEFAULT_HANDOFF_HARD_THRESHOLD_def Let_def
  by (cases "po_state p"; cases "po_ratio p"; simp; blast?)

lemma fusion_pressure_continue:
  "pe_action (fusion_pressure i) = PA_continue \<longleftrightarrow> (\<exists>p. fi_pressure i = Some p \<and> below_threshold p)"
  by (cases "fi_pressure i") (auto simp: fusion_pressure_def pressure_continue below_threshold_def)

lemma requires_fresh_policy: "sv_sessionPolicy s = Some SP_fresh \<Longrightarrow> requiresFreshReview s"
  by (simp add: requiresFreshReview_def)

lemma guards_passed:
  assumes "agent_pair i" "compatible_posture i"
  shows "evaluateFusion pl i = (let pressure = fusion_pressure i in
      if \<not> pressureAllowsFusion pressure
      then split_fusion pl i (case pe_splitReason pressure of None \<Rightarrow> SR_pressure_unavailable | Some r \<Rightarrow> r) (Some pressure) None
      else Fuse (buildDecision pl i FO_fuse None (Some pressure) None) pressure)"
  using assms requires_fresh_policy [of "fi_to i"]
  unfolding evaluateFusion_def agent_pair_def compatible_posture_def same_profile_def postures_def requiresFreshReview_iff Let_def
  by auto

lemma guard_failed:
  assumes "\<not> (agent_pair i \<and> compatible_posture i)"
  shows "\<exists>d r p. evaluateFusion pl i = Split d r p"
  using assms
  unfolding evaluateFusion_def split_fusion_def agent_pair_def compatible_posture_def same_profile_def postures_def
    requiresFreshReview_iff Let_def
  by auto

lemma known_posture: "posture_known i \<Longrightarrow> compatible_posture i \<longleftrightarrow> same_posture i"
  by (auto simp: posture_known_def compatible_posture_def same_posture_def both_differ_def postures_def)

text \<open>A transition between two stages of the same posture.\<close>

definition example_stage_view :: "string \<Rightarrow> stage_view" where
  "example_stage_view k = \<lparr>sv_stageId = lit k, sv_stageType = lit ''agent'', sv_profileId = Some (lit ''p''),
     sv_profileFingerprint = Some (lit ''f''), sv_roleId = Some (lit ''builder''), sv_sessionPolicy = None,
     sv_permissionsDigest = Some (lit ''d'')\<rparr>"

definition example_fusion :: fusion_input where
  "example_fusion =
     (let workspace = \<lparr>wv_workspaceId = Some (lit ''w''), wv_leaseId = Some (lit ''l'')\<rparr> in
      \<lparr>fi_runId = lit ''r'', fi_from = example_stage_view ''a'', fi_to = example_stage_view ''b'', fi_fromWorkspace = workspace,
       fi_toWorkspace = workspace, fi_adjacent = True, fi_successorCount = 1, fi_backendSupportsContinuation = True,
       fi_retryMode = None,
       fi_pressure = Some \<lparr>po_state = PS_measured, po_ratio = Some (number_of_decimal ''0.5''), po_confidence = PC_exact,
         po_softThreshold = None, po_hardThreshold = None, po_telemetryCursor = None\<rparr>,
       fi_fromAttemptId = None, fi_toAttemptId = None, fi_segmentId = Some (lit ''s''), fi_now = lit ''t0''\<rparr>)"

definition example_digest :: text_platform where
  "example_digest = \<lparr>sha256_hex = rev, number16 = (\<lambda>_. lit ''1'')\<rparr>"

section \<open>Properties\<close>

text \<open>
  C35: when the fingerprint, the permission digest, the workspace and the lease of both stages are known, a transition is
  fused exactly when both are adjacent agent stages with a single successor edge, neither asks for a fresh review or
  session, no retry asks for a fresh or delegated session, the backend continues sessions, the profile and all those values are
  equal, and a measured, finite context pressure is below both thresholds; the decision then records the outcome, the open
  segment and the pressure that was judged.
\<close>

theorem fused_exactly_when_safe:
  assumes "posture_known i"
  shows "(\<exists>d pressure. evaluateFusion pl i = Fuse d pressure \<and> fd_outcome d = FO_fuse \<and> fd_splitReason d = None \<and>
      fd_segmentId d = fi_segmentId i \<and> fd_pressure d = Some (pressure_fields pressure)) \<longleftrightarrow>
    agent_pair i \<and> same_posture i \<and> (\<exists>p. fi_pressure i = Some p \<and> below_threshold p)"
proof (cases "agent_pair i \<and> compatible_posture i")
  case True
  note guards = guards_passed [OF conjunct1 [OF True] conjunct2 [OF True], of pl]
  show ?thesis
  proof (cases "pressureAllowsFusion (fusion_pressure i)")
    case p: True
    then show ?thesis using True unfolding guards
      by (simp add: Let_def buildDecision_def pressureAllowsFusion_def fusion_pressure_continue known_posture [OF assms])
  next
    case p: False
    then show ?thesis unfolding guards
      by (simp add: Let_def split_fusion_def pressureAllowsFusion_def fusion_pressure_continue)
  qed
next
  case False
  with guard_failed [OF False, of pl] show ?thesis by (auto simp: known_posture [OF assms])
qed

theorem fused_exactly_when_safe_witness:
  "posture_known example_fusion \<and>
   (\<exists>d pressure. evaluateFusion example_digest example_fusion = Fuse d pressure \<and> fd_segmentId d = Some (lit ''s''))"
proof -
  have k: "posture_known example_fusion" "same_posture example_fusion"
    by (simp_all add: posture_known_def same_posture_def same_profile_def postures_def example_fusion_def example_stage_view_def Let_def)
  have "\<not> requiresFreshReview (example_stage_view ''a'')" "\<not> requiresFreshReview (example_stage_view ''b'')" by code_simp+
  then have a: "agent_pair example_fusion"
    by (simp add: agent_pair_def requiresFreshReview_iff example_fusion_def Let_def) (simp add: example_stage_view_def)
  have "pe_action (fusion_pressure example_fusion) = PA_continue" by code_simp
  then have p: "\<exists>p. fi_pressure example_fusion = Some p \<and> below_threshold p" by (simp only: fusion_pressure_continue)
  have "fi_segmentId example_fusion = Some (lit ''s'')" by (simp add: example_fusion_def Let_def)
  with fused_exactly_when_safe [OF k(1), of example_digest] k a p show ?thesis by metis
qed

end
