(* ===== verification/Capsule.thy ===== *)
theory Capsule
  imports Fusion
begin

text \<open>
  Continuation capsules (\<open>packages/pipeline/src/fusion/capsule.ts\<close>) and the verification of an incoming one
  (\<open>verify.ts\<close>): what a fresh session needs to go on, bounded and with a digest, and the comparison of the live workspace
  with it. Texts are cut between code points by their UTF-8 size.
\<close>

section \<open>Bounds\<close>

definition CONTINUATION_NARRATIVE_MAX_BYTES :: nat where "CONTINUATION_NARRATIVE_MAX_BYTES = 32 * 1024"
definition CONTINUATION_DESCRIPTION_MAX_BYTES :: nat where "CONTINUATION_DESCRIPTION_MAX_BYTES = 1024"
definition CONTINUATION_REFERENCE_COLLECTION_MAX :: nat where "CONTINUATION_REFERENCE_COLLECTION_MAX = 64"
definition CONTINUATION_PLAN_ITEMS_MAX :: nat where "CONTINUATION_PLAN_ITEMS_MAX = 256"

text \<open>The walk over the code points: the bytes used and the code units kept.\<close>

fun cut_loop :: "nat \<Rightarrow> text16 list \<Rightarrow> nat \<Rightarrow> nat \<Rightarrow> nat \<times> nat" where
  "cut_loop budget [] used stop = (used, stop)"
| "cut_loop budget (c # cs) used stop =
     (if used + point_size c > budget then (used, stop)
      else cut_loop budget cs (used + point_size c) (stop + length c))"

definition omission_marker :: "nat \<Rightarrow> text16" where
  "omission_marker n = [10, 10] @ lit ''['' @ [0x2026] @ lit ''omitted '' @ text_of_nat n @ lit '' bytes]'' @ [10]"

definition truncateNarrative :: "text16 \<Rightarrow> nat \<Rightarrow> text16 \<times> nat" where
  "truncateNarrative narrative maxBytes =
     (let total = utf8ByteLength narrative in
      if total \<le> maxBytes then (narrative, 0)
      else let marker = omission_marker (total - maxBytes);
               budget = maxBytes - utf8ByteLength marker;
               (used, stop) = cut_loop budget (code_points narrative) 0 0
           in (take stop narrative @ marker, total - used))"

definition truncateDescription :: "text16 \<Rightarrow> nat \<Rightarrow> text16 \<times> bool" where
  "truncateDescription value maxBytes =
     (if utf8ByteLength value \<le> maxBytes then (value, False)
      else let (used, stop) = cut_loop maxBytes (code_points value) 0 0 in (take stop value, True))"

definition sortUnique :: "text16 list \<Rightarrow> text16 list" where
  "sortUnique vs = sort (js_set_of vs)"

definition boundCollection :: "'a list \<Rightarrow> nat \<Rightarrow> 'a list \<times> bool" where
  "boundCollection vs bound = (if length vs \<le> bound then (vs, False) else (take bound vs, True))"

section \<open>Capsules\<close>

record artifact_ref =
  ar_artifactId :: text16
  ar_contentHash :: text16
  ar_name :: "text16 option"

record context_ref =
  cr_path :: text16
  cr_contentHash :: "text16 option"

record repository_head =
  rh_repositoryId :: text16
  rh_head :: text16

record capsule_input =
  ci_runId :: text16
  ci_stageId :: text16
  ci_attemptId :: text16
  ci_segmentId :: text16
  ci_segmentOrdinal :: nat
  ci_completedPlanItems :: "text16 list"
  ci_activePlanItem :: "text16 option"
  ci_remainingPlanItems :: "text16 list option"
  ci_nextAction :: text16
  ci_repositoryHeads :: "repository_head list"
  ci_dirtyFiles :: "text16 list"
  ci_artifactRefs :: "artifact_ref list"
  ci_contextFileRefs :: "context_ref list"
  ci_decisionIds :: "text16 list"
  ci_unresolvedQuestionIds :: "text16 list"
  ci_riskRefs :: "text16 list"
  ci_telemetryCursor :: "text16 option"
  ci_outgoingSessionId :: text16
  ci_narrativeMarkdown :: "text16 option"
  ci_createdAt :: text16

record capsule =
  ca_schemaVersion :: nat
  ca_capsuleId :: text16
  ca_runId :: text16
  ca_stageId :: text16
  ca_attemptId :: text16
  ca_segmentId :: text16
  ca_segmentOrdinal :: nat
  ca_completedPlanItems :: "text16 list"
  ca_activePlanItem :: "text16 option"
  ca_remainingPlanItems :: "text16 list option"
  ca_nextAction :: text16
  ca_repositoryHeads :: "repository_head list"
  ca_dirtyFiles :: "text16 list"
  ca_artifactRefs :: "artifact_ref list"
  ca_contextFileRefs :: "context_ref list"
  ca_decisionIds :: "text16 list"
  ca_unresolvedQuestionIds :: "text16 list"
  ca_riskRefs :: "text16 list"
  ca_telemetryCursor :: "text16 option"
  ca_outgoingSessionId :: text16
  ca_narrativeDigest :: "text16 option"
  ca_omittedNarrativeBytes :: "nat option"
  ca_omittedDescriptionCount :: "nat option"
  ca_digest :: text16
  ca_createdAt :: text16

datatype capsule_blocker = CB_artifact_refs_overflow | CB_plan_items_overflow | CB_required_state_overflow
  | CB_empty_next_action | CB_empty_outgoing_session

datatype capsule_result = Capsule_ok capsule text16 | Capsule_blocked capsule_blocker text16

definition text_nat :: "nat \<Rightarrow> text_json" where "text_nat n = TNum (Fin (of_nat n))"
definition text_strs :: "text16 list \<Rightarrow> text_json" where "text_strs ss = TArr (map TStr ss)"

definition optional_entry :: "string \<Rightarrow> ('a \<Rightarrow> text_json) \<Rightarrow> 'a option \<Rightarrow> (text16 \<times> text_json) list" where
  "optional_entry k f x = (case x of None \<Rightarrow> [] | Some v \<Rightarrow> [(lit k, f v)])"

definition head_json :: "repository_head \<Rightarrow> text_json" where
  "head_json h = TObj [(lit ''repositoryId'', TStr (rh_repositoryId h)), (lit ''head'', TStr (rh_head h))]"

definition artifact_json :: "artifact_ref \<Rightarrow> text_json" where
  "artifact_json r = TObj ([(lit ''artifactId'', TStr (ar_artifactId r)), (lit ''contentHash'', TStr (ar_contentHash r))] @
     optional_entry ''name'' TStr (ar_name r))"

definition context_json :: "context_ref \<Rightarrow> text_json" where
  "context_json r = TObj ([(lit ''path'', TStr (cr_path r))] @ optional_entry ''contentHash'' TStr (cr_contentHash r))"

text \<open>The payload reads every field but the digest, so a capsule stands for the source's record without it.\<close>

definition capsulePayloadForDigest :: "capsule \<Rightarrow> text_json" where
  "capsulePayloadForDigest c = TObj ([(lit ''schemaVersion'', text_nat (ca_schemaVersion c)), (lit ''capsuleId'', TStr (ca_capsuleId c)),
     (lit ''runId'', TStr (ca_runId c)), (lit ''stageId'', TStr (ca_stageId c)), (lit ''attemptId'', TStr (ca_attemptId c)),
     (lit ''segmentId'', TStr (ca_segmentId c)), (lit ''segmentOrdinal'', text_nat (ca_segmentOrdinal c)),
     (lit ''completedPlanItems'', text_strs (ca_completedPlanItems c)), (lit ''nextAction'', TStr (ca_nextAction c)),
     (lit ''repositoryHeads'', TArr (map head_json (ca_repositoryHeads c))), (lit ''dirtyFiles'', text_strs (ca_dirtyFiles c)),
     (lit ''artifactRefs'', TArr (map artifact_json (ca_artifactRefs c))),
     (lit ''contextFileRefs'', TArr (map context_json (ca_contextFileRefs c))), (lit ''decisionIds'', text_strs (ca_decisionIds c)),
     (lit ''unresolvedQuestionIds'', text_strs (ca_unresolvedQuestionIds c)), (lit ''riskRefs'', text_strs (ca_riskRefs c)),
     (lit ''outgoingSessionId'', TStr (ca_outgoingSessionId c)), (lit ''createdAt'', TStr (ca_createdAt c))] @
     optional_entry ''activePlanItem'' TStr (ca_activePlanItem c) @
     optional_entry ''remainingPlanItems'' text_strs (ca_remainingPlanItems c) @
     optional_entry ''telemetryCursor'' TStr (ca_telemetryCursor c) @
     optional_entry ''narrativeDigest'' TStr (ca_narrativeDigest c) @
     optional_entry ''omittedNarrativeBytes'' text_nat (ca_omittedNarrativeBytes c) @
     optional_entry ''omittedDescriptionCount'' text_nat (ca_omittedDescriptionCount c))"

definition digestCapsulePayload :: "text_platform \<Rightarrow> capsule \<Rightarrow> text16" where
  "digestCapsulePayload pl c = sha256_hex pl (canonicalText pl (capsulePayloadForDigest c))"

definition capsule_of :: "text_platform \<Rightarrow> capsule_input \<Rightarrow> text16 \<Rightarrow> nat \<Rightarrow> text16 \<Rightarrow> bool \<Rightarrow> capsule" where
  "capsule_of pl i narrative omitted nextAction truncated =
     \<lparr>ca_schemaVersion = 1,
      ca_capsuleId = deriveCapsuleId pl (ci_runId i) (ci_stageId i) (ci_attemptId i) (ci_segmentId i) (ci_segmentOrdinal i),
      ca_runId = ci_runId i, ca_stageId = ci_stageId i, ca_attemptId = ci_attemptId i, ca_segmentId = ci_segmentId i,
      ca_segmentOrdinal = ci_segmentOrdinal i,
      ca_completedPlanItems = fst (boundCollection (ci_completedPlanItems i) CONTINUATION_PLAN_ITEMS_MAX),
      ca_activePlanItem = ci_activePlanItem i,
      ca_remainingPlanItems = map_option (\<lambda>r. fst (boundCollection r CONTINUATION_PLAN_ITEMS_MAX)) (ci_remainingPlanItems i),
      ca_nextAction = nextAction,
      ca_repositoryHeads = fst (boundCollection (ci_repositoryHeads i) CONTINUATION_REFERENCE_COLLECTION_MAX),
      ca_dirtyFiles = fst (boundCollection (sortUnique (ci_dirtyFiles i)) CONTINUATION_REFERENCE_COLLECTION_MAX),
      ca_artifactRefs = fst (boundCollection (ci_artifactRefs i) CONTINUATION_REFERENCE_COLLECTION_MAX),
      ca_contextFileRefs = fst (boundCollection (ci_contextFileRefs i) CONTINUATION_REFERENCE_COLLECTION_MAX),
      ca_decisionIds = fst (boundCollection (sortUnique (ci_decisionIds i)) CONTINUATION_REFERENCE_COLLECTION_MAX),
      ca_unresolvedQuestionIds = fst (boundCollection (sortUnique (ci_unresolvedQuestionIds i)) CONTINUATION_REFERENCE_COLLECTION_MAX),
      ca_riskRefs = fst (boundCollection (sortUnique (ci_riskRefs i)) CONTINUATION_REFERENCE_COLLECTION_MAX),
      ca_telemetryCursor = ci_telemetryCursor i, ca_outgoingSessionId = ci_outgoingSessionId i,
      ca_narrativeDigest = (if narrative = [] then None else Some (sha256_hex pl narrative)),
      ca_omittedNarrativeBytes = (if omitted > 0 then Some omitted else None),
      ca_omittedDescriptionCount = (if truncated then Some 1 else None), ca_digest = [], ca_createdAt = ci_createdAt i\<rparr>"

definition state_overflow :: "capsule_input \<Rightarrow> bool" where
  "state_overflow i \<longleftrightarrow>
     snd (boundCollection (ci_repositoryHeads i) CONTINUATION_REFERENCE_COLLECTION_MAX) \<or>
     snd (boundCollection (sortUnique (ci_dirtyFiles i)) CONTINUATION_REFERENCE_COLLECTION_MAX) \<or>
     snd (boundCollection (ci_contextFileRefs i) CONTINUATION_REFERENCE_COLLECTION_MAX) \<or>
     snd (boundCollection (sortUnique (ci_decisionIds i)) CONTINUATION_REFERENCE_COLLECTION_MAX) \<or>
     snd (boundCollection (sortUnique (ci_unresolvedQuestionIds i)) CONTINUATION_REFERENCE_COLLECTION_MAX) \<or>
     snd (boundCollection (sortUnique (ci_riskRefs i)) CONTINUATION_REFERENCE_COLLECTION_MAX)"

definition plan_overflow :: "capsule_input \<Rightarrow> bool" where
  "plan_overflow i \<longleftrightarrow> snd (boundCollection (ci_completedPlanItems i) CONTINUATION_PLAN_ITEMS_MAX) \<or>
     (case ci_remainingPlanItems i of None \<Rightarrow> False | Some r \<Rightarrow> snd (boundCollection r CONTINUATION_PLAN_ITEMS_MAX))"

definition buildContinuationCapsule :: "text_platform \<Rightarrow> capsule_input \<Rightarrow> capsule_result" where
  "buildContinuationCapsule pl i =
     (let nextActionRaw = js_trim (ci_nextAction i) in
      if nextActionRaw = [] then Capsule_blocked CB_empty_next_action (lit ''nextAction is required'')
      else if js_trim (ci_outgoingSessionId i) = [] then Capsule_blocked CB_empty_outgoing_session (lit ''outgoingSessionId is required'')
      else if plan_overflow i
      then Capsule_blocked CB_plan_items_overflow (lit ''plan items exceed '' @ text_of_nat CONTINUATION_PLAN_ITEMS_MAX)
      else if snd (boundCollection (ci_artifactRefs i) CONTINUATION_REFERENCE_COLLECTION_MAX)
      then Capsule_blocked CB_artifact_refs_overflow (lit ''artifactRefs exceed '' @ text_of_nat CONTINUATION_REFERENCE_COLLECTION_MAX)
      else if state_overflow i
      then Capsule_blocked CB_required_state_overflow (lit ''a required witness or reference collection exceeded its bound'')
      else (let (nextAction, truncated) = truncateDescription nextActionRaw CONTINUATION_DESCRIPTION_MAX_BYTES;
                (narrative, omitted) = truncateNarrative (case ci_narrativeMarkdown i of None \<Rightarrow> [] | Some n \<Rightarrow> n) CONTINUATION_NARRATIVE_MAX_BYTES;
                withoutDigest = capsule_of pl i narrative omitted nextAction truncated
            in Capsule_ok (withoutDigest\<lparr>ca_digest := digestCapsulePayload pl withoutDigest\<rparr>) narrative))"

definition verifyCapsuleDigest :: "text_platform \<Rightarrow> capsule \<Rightarrow> bool" where
  "verifyCapsuleDigest pl c \<longleftrightarrow> digestCapsulePayload pl c = ca_digest c"

section \<open>Incoming verification\<close>

datatype incoming_blocker = IB_schema_invalid | IB_digest_mismatch | IB_missing_artifact | IB_artifact_hash_mismatch
  | IB_missing_context_file | IB_context_file_hash_mismatch | IB_stale_head | IB_dirty_set_mismatch
  | IB_contradictory_completion | IB_cheap_check_failed | IB_tampered_capsule

fun incoming_blocker_name :: "incoming_blocker \<Rightarrow> string" where
  "incoming_blocker_name IB_schema_invalid = ''schema_invalid''"
| "incoming_blocker_name IB_digest_mismatch = ''digest_mismatch''"
| "incoming_blocker_name IB_missing_artifact = ''missing_artifact''"
| "incoming_blocker_name IB_artifact_hash_mismatch = ''artifact_hash_mismatch''"
| "incoming_blocker_name IB_missing_context_file = ''missing_context_file''"
| "incoming_blocker_name IB_context_file_hash_mismatch = ''context_file_hash_mismatch''"
| "incoming_blocker_name IB_stale_head = ''stale_head''"
| "incoming_blocker_name IB_dirty_set_mismatch = ''dirty_set_mismatch''"
| "incoming_blocker_name IB_contradictory_completion = ''contradictory_completion''"
| "incoming_blocker_name IB_cheap_check_failed = ''cheap_check_failed''"
| "incoming_blocker_name IB_tampered_capsule = ''tampered_capsule''"

record observed_artifact =
  oa_artifactId :: text16
  oa_contentHash :: text16
  oa_exists :: bool

record observed_context =
  oc_path :: text16
  oc_exists :: bool
  oc_contentHash :: "text16 option"

record verify_input =
  vi_capsule :: capsule
  vi_observedHeads :: "repository_head list"
  vi_observedDirtyFiles :: "text16 list"
  vi_observedArtifacts :: "observed_artifact list"
  vi_observedContextFiles :: "observed_context list"
  vi_contradictoryCompletion :: "bool option"
  vi_cheapChecksPassed :: "bool option"
  vi_segmentId :: "text16 option"
  vi_recordedAt :: text16

datatype verdict = VD_pass | VD_block

record incoming_verification =
  iv_verificationId :: text16
  iv_capsuleId :: text16
  iv_runId :: text16
  iv_segmentId :: "text16 option"
  iv_verdict :: verdict
  iv_blockers :: "incoming_blocker list"
  iv_observedHeads :: "repository_head list"
  iv_observedDirtyFiles :: "text16 list"
  iv_detail :: "text16 option"
  iv_recordedAt :: text16

fun sameSorted :: "text16 list \<Rightarrow> text16 list \<Rightarrow> bool" where
  "sameSorted left right \<longleftrightarrow> length left = length right \<and> (\<forall>index < length left. left ! index = right ! index)"

definition headMap :: "repository_head list \<Rightarrow> (text16, text16) jsmap" where
  "headMap heads = js_map_of (map (\<lambda>h. (rh_repositoryId h, rh_head h)) heads)"

definition checkArtifacts :: "artifact_ref list \<Rightarrow> observed_artifact list \<Rightarrow> incoming_blocker list" where
  "checkArtifacts required observed =
     (let byId = js_map_of (map (\<lambda>e. (oa_artifactId e, e)) observed) in
      concat (map (\<lambda>ref. case map_of byId (ar_artifactId ref) of
          None \<Rightarrow> [IB_missing_artifact]
        | Some found \<Rightarrow> if \<not> oa_exists found then [IB_missing_artifact]
            else if oa_contentHash found \<noteq> ar_contentHash ref then [IB_artifact_hash_mismatch] else []) required))"

definition checkContextFiles :: "context_ref list \<Rightarrow> observed_context list \<Rightarrow> incoming_blocker list" where
  "checkContextFiles required observed =
     (let byPath = js_map_of (map (\<lambda>e. (oc_path e, e)) observed) in
      concat (map (\<lambda>ref. case map_of byPath (cr_path ref) of
          None \<Rightarrow> [IB_missing_context_file]
        | Some found \<Rightarrow> if \<not> oc_exists found then [IB_missing_context_file]
            else if cr_contentHash ref \<noteq> None \<and> oc_contentHash found \<noteq> cr_contentHash ref
            then [IB_context_file_hash_mismatch] else []) required))"

definition stale_heads :: "capsule \<Rightarrow> repository_head list \<Rightarrow> bool" where
  "stale_heads c observed \<longleftrightarrow>
     list_ex (\<lambda>(repositoryId, head). map_of (headMap observed) repositoryId \<noteq> Some head) (headMap (ca_repositoryHeads c))"

definition incoming_blockers :: "text_platform \<Rightarrow> verify_input \<Rightarrow> incoming_blocker list" where
  "incoming_blockers pl i =
     (let c = vi_capsule i in
      (if ca_schemaVersion c \<noteq> 1 then [IB_schema_invalid] else []) @
      (if \<not> verifyCapsuleDigest pl c then [IB_digest_mismatch, IB_tampered_capsule] else []) @
      (if stale_heads c (vi_observedHeads i) then [IB_stale_head] else []) @
      (if \<not> sameSorted (sort (ca_dirtyFiles c)) (sort (vi_observedDirtyFiles i)) then [IB_dirty_set_mismatch] else []) @
      checkArtifacts (ca_artifactRefs c) (vi_observedArtifacts i) @
      checkContextFiles (ca_contextFileRefs c) (vi_observedContextFiles i) @
      (if vi_contradictoryCompletion i = Some True then [IB_contradictory_completion] else []) @
      (if vi_cheapChecksPassed i = Some False then [IB_cheap_check_failed] else []))"

definition verifyIncomingContinuation :: "text_platform \<Rightarrow> verify_input \<Rightarrow> incoming_verification" where
  "verifyIncomingContinuation pl i =
     (let c = vi_capsule i; uniqueBlockers = js_set_of (incoming_blockers pl i) in
      \<lparr>iv_verificationId = deriveVerificationId pl (ca_capsuleId c) (vi_recordedAt i), iv_capsuleId = ca_capsuleId c,
       iv_runId = ca_runId c, iv_segmentId = vi_segmentId i,
       iv_verdict = (if uniqueBlockers = [] then VD_pass else VD_block), iv_blockers = uniqueBlockers,
       iv_observedHeads = vi_observedHeads i, iv_observedDirtyFiles = sort (vi_observedDirtyFiles i),
       iv_detail = (if uniqueBlockers = [] then None
         else Some (lit ''blocked:'' @ text_join (lit '','') (map (\<lambda>b. lit (incoming_blocker_name b)) uniqueBlockers))),
       iv_recordedAt = vi_recordedAt i\<rparr>)"

end
