(* ===== verification/Capsule_Safety.thy ===== *)
theory Capsule_Safety
  imports Capsule "HOL-Library.Multiset"
begin

text \<open>
  What the capsules guarantee: where a text is cut and how much is dropped, when the verification of an incoming capsule
  passes, and that a capsule that was built passes in the workspace it describes.
\<close>

section \<open>Cutting text\<close>

lemma cut_loop_spec:
  assumes "cut_loop budget ps u e = (used, stop)"
  shows "\<exists>qs rs. ps = qs @ rs \<and> used = u + sum_list (map point_size qs) \<and> stop = e + length (concat qs) \<and>
    (u \<le> budget \<longrightarrow> used \<le> budget) \<and> (rs = [] \<or> budget < used + point_size (hd rs))"
  using assms
proof (induction ps arbitrary: u e)
  case (Cons c cs)
  show ?case
  proof (cases "budget < u + point_size c")
    case True
    with Cons.prems show ?thesis by (intro exI [of _ "[]"] exI [of _ "c # cs"]) auto
  next
    case False
    with Cons.prems have "cut_loop budget cs (u + point_size c) (e + length c) = (used, stop)" by simp
    from Cons.IH [OF this] obtain qs rs where "cs = qs @ rs" "used = u + point_size c + sum_list (map point_size qs)"
      "stop = e + length c + length (concat qs)" "u + point_size c \<le> budget \<longrightarrow> used \<le> budget"
      "rs = [] \<or> budget < used + point_size (hd rs)" by blast
    with False show ?thesis by (intro exI [of _ "c # qs"] exI [of _ rs]) simp
  qed
qed simp

text \<open>The text cut at a budget: the two parts, at a boundary between code points, and the first as long as it can be.\<close>

lemma cut_text:
  assumes "cut_loop budget (code_points s) 0 0 = (used, stop)"
  obtains kept dropped where "s = kept @ dropped" "take stop s = kept" "code_points s = code_points kept @ code_points dropped"
    "used = utf8ByteLength kept" "utf8ByteLength s = used + utf8ByteLength dropped" "used \<le> budget"
    "dropped = [] \<or> budget < used + point_size (hd (code_points dropped))"
proof -
  from cut_loop_spec [OF assms] obtain qs rs where ps: "code_points s = qs @ rs" and used: "used = sum_list (map point_size qs)"
    and stop: "stop = length (concat qs)" and le: "used \<le> budget" and mx: "rs = [] \<or> budget < used + point_size (hd rs)" by auto
  from code_points_cut [OF ps] have cp: "code_points (concat qs) = qs" "code_points (concat rs) = rs" by simp_all
  have s: "s = concat qs @ concat rs" by (metis concat_append concat_code_points ps)
  show thesis
  proof (rule that)
    show "s = concat qs @ concat rs" by (rule s)
    show "take stop s = concat qs" using s stop by simp
    show "code_points s = code_points (concat qs) @ code_points (concat rs)" by (simp only: cp ps)
    show "used = utf8ByteLength (concat qs)" by (simp only: utf8ByteLength_def cp used)
    show "utf8ByteLength s = used + utf8ByteLength (concat rs)" by (simp add: utf8ByteLength_def cp ps used)
    show "used \<le> budget" by (rule le)
    show "concat rs = [] \<or> budget < used + point_size (hd (code_points (concat rs)))"
      using mx unfolding cp by auto
  qed
qed

text \<open>Two texts may be joined without merging surrogates when the second starts with no low surrogate.\<close>

lemma code_points_append:
  "t = [] \<or> \<not> is_low (hd t) \<Longrightarrow> code_points (s @ t) = code_points s @ code_points t"
proof (induction s rule: code_points.induct)
  case (2 w)
  then show ?case by (cases t) auto
qed auto

lemma utf8_append: "t = [] \<or> \<not> is_low (hd t) \<Longrightarrow> utf8ByteLength (s @ t) = utf8ByteLength s + utf8ByteLength t"
  by (simp add: utf8ByteLength_def code_points_append)

lemma marker_starts: "omission_marker n = 10 # tl (omission_marker n)" "\<not> is_low 10"
  by (simp_all add: omission_marker_def is_low_def)

lemma marker_size: "0 < utf8ByteLength (omission_marker n)"
proof -
  have "code_points (omission_marker n) \<noteq> []"
    using concat_code_points [of "omission_marker n"] marker_starts(1) [of n] by force
  then show ?thesis unfolding utf8ByteLength_def using point_size_pos by (cases "code_points (omission_marker n)") auto
qed

lemma description_cut:
  assumes "truncateDescription v m = (text, truncated)"
  shows "utf8ByteLength text \<le> m \<and> truncated = (m < utf8ByteLength v) \<and> (\<exists>dropped. v = text @ dropped \<and> (\<not> truncated \<longrightarrow> dropped = []))"
proof (cases "utf8ByteLength v \<le> m")
  case False
  obtain used stop where cut: "cut_loop m (code_points v) 0 0 = (used, stop)" by (cases "cut_loop m (code_points v) 0 0")
  from cut_text [OF cut] obtain kept dropped where "v = kept @ dropped" "take stop v = kept" "used = utf8ByteLength kept" "used \<le> m"
    by metis
  with False assms cut show ?thesis by (auto simp: truncateDescription_def)
qed (use assms in \<open>auto simp: truncateDescription_def\<close>)

text \<open>
  C36: a narrative within the limit is kept as it is. A longer one is cut between two code points and followed by the
  omission marker; what is dropped is a suffix, its exact UTF-8 size is reported as omitted, the next code point would no
  longer have fitted, and the result stays within the limit (or is the bare marker, when the limit is smaller than the marker).
  The number written into the marker is always smaller than the number of omitted bytes, because
  it does not count the bytes that made room for the marker.
\<close>

theorem narrative_cut_exact:
  "case truncateNarrative n m of (text, omitted) \<Rightarrow>
     if utf8ByteLength n \<le> m then text = n \<and> omitted = 0
     else let marker = omission_marker (utf8ByteLength n - m) in
       \<exists>kept dropped. n = kept @ dropped \<and> code_points n = code_points kept @ code_points dropped \<and> text = kept @ marker \<and>
         omitted = utf8ByteLength dropped \<and> utf8ByteLength text \<le> max m (utf8ByteLength marker) \<and>
         (dropped = [] \<or> m < utf8ByteLength text + point_size (hd (code_points dropped))) \<and>
         (m = 0 \<or> utf8ByteLength n - m < omitted)"
proof (cases "utf8ByteLength n \<le> m")
  case False
  let ?marker = "omission_marker (utf8ByteLength n - m)"
  let ?budget = "m - utf8ByteLength ?marker"
  obtain used stop where cut: "cut_loop ?budget (code_points n) 0 0 = (used, stop)" by (cases "cut_loop ?budget (code_points n) 0 0")
  from cut_text [OF cut] obtain kept dropped where k: "n = kept @ dropped" "take stop n = kept"
    "code_points n = code_points kept @ code_points dropped" "used = utf8ByteLength kept"
    "utf8ByteLength n = used + utf8ByteLength dropped" "used \<le> ?budget"
    "dropped = [] \<or> ?budget < used + point_size (hd (code_points dropped))" .
  have size: "utf8ByteLength (kept @ ?marker) = used + utf8ByteLength ?marker"
    using utf8_append [of ?marker kept] marker_starts k(4) by (metis list.sel(1))
  have t: "truncateNarrative n m = (kept @ ?marker, utf8ByteLength n - used)"
    using False cut k(2) by (simp add: truncateNarrative_def Let_def)
  have "utf8ByteLength n - used = utf8ByteLength dropped" using k(5) by simp
  moreover have "used + utf8ByteLength ?marker \<le> max m (utf8ByteLength ?marker)" using k(6) by linarith
  moreover have "dropped = [] \<or> m < used + utf8ByteLength ?marker + point_size (hd (code_points dropped))" using k(7) by linarith
  moreover have "m = 0 \<or> utf8ByteLength n - m < utf8ByteLength n - used" using k(6) marker_size [of "utf8ByteLength n - m"] False by linarith
  ultimately show ?thesis unfolding t prod.case Let_def using False k(1,3) by (metis size)
qed (simp add: truncateNarrative_def)

section \<open>Incoming verification\<close>

lemma sameSorted_iff: "sameSorted xs ys \<longleftrightarrow> xs = ys"
  by (auto simp: list_eq_iff_nth_eq)

lemma sort_eq_iff: "sort xs = sort ys \<longleftrightarrow> mset xs = mset (ys :: 'a :: linorder list)"
  by (metis mset_sort properties_for_sort sorted_sort)

definition artifact_present :: "observed_artifact list \<Rightarrow> artifact_ref \<Rightarrow> bool" where
  "artifact_present observed ref \<longleftrightarrow> (\<exists>found. map_of (rev (map (\<lambda>e. (oa_artifactId e, e)) observed)) (ar_artifactId ref) = Some found \<and>
     oa_exists found \<and> oa_contentHash found = ar_contentHash ref)"

definition context_present :: "observed_context list \<Rightarrow> context_ref \<Rightarrow> bool" where
  "context_present observed ref \<longleftrightarrow> (\<exists>found. map_of (rev (map (\<lambda>e. (oc_path e, e)) observed)) (cr_path ref) = Some found \<and>
     oc_exists found \<and> (cr_contentHash ref = None \<or> oc_contentHash found = cr_contentHash ref))"

definition heads_current :: "repository_head list \<Rightarrow> repository_head list \<Rightarrow> bool" where
  "heads_current expected observed \<longleftrightarrow>
     map_of (rev (map (\<lambda>h. (rh_repositoryId h, rh_head h)) expected)) \<subseteq>\<^sub>m map_of (rev (map (\<lambda>h. (rh_repositoryId h, rh_head h)) observed))"

lemma concat_map_Nil: "(\<And>x. f x = [] \<longleftrightarrow> P x) \<Longrightarrow> concat (map f xs) = [] \<longleftrightarrow> (\<forall>x \<in> set xs. P x)"
  by simp

lemma checkArtifacts_Nil: "checkArtifacts required observed = [] \<longleftrightarrow> (\<forall>ref \<in> set required. artifact_present observed ref)"
  unfolding checkArtifacts_def Let_def get_js_map_of
proof (rule concat_map_Nil)
  fix ref :: artifact_ref
  let ?o = "map_of (rev (map (\<lambda>e. (oa_artifactId e, e)) observed)) (ar_artifactId ref)"
  show "(case ?o of None \<Rightarrow> [IB_missing_artifact] | Some found \<Rightarrow> if \<not> oa_exists found then [IB_missing_artifact]
      else if oa_contentHash found \<noteq> ar_contentHash ref then [IB_artifact_hash_mismatch] else []) = [] \<longleftrightarrow> artifact_present observed ref"
    by (cases ?o) (simp_all add: artifact_present_def)
qed

lemma checkContextFiles_Nil: "checkContextFiles required observed = [] \<longleftrightarrow> (\<forall>ref \<in> set required. context_present observed ref)"
  unfolding checkContextFiles_def Let_def get_js_map_of
proof (rule concat_map_Nil)
  fix ref :: context_ref
  let ?o = "map_of (rev (map (\<lambda>e. (oc_path e, e)) observed)) (cr_path ref)"
  show "(case ?o of None \<Rightarrow> [IB_missing_context_file] | Some found \<Rightarrow> if \<not> oc_exists found then [IB_missing_context_file]
      else if cr_contentHash ref \<noteq> None \<and> oc_contentHash found \<noteq> cr_contentHash ref then [IB_context_file_hash_mismatch] else []) = []
      \<longleftrightarrow> context_present observed ref"
    by (cases ?o) (simp_all add: context_present_def)
qed

lemma headMap_lookup: "map_of (headMap hs) = map_of (rev (map (\<lambda>h. (rh_repositoryId h, rh_head h)) hs))"
  by (rule ext) (simp add: headMap_def get_js_map_of)

lemma map_le_entries:
  assumes "distinct (map fst m)"
  shows "map_of m \<subseteq>\<^sub>m f \<longleftrightarrow> (\<forall>(k, v) \<in> set m. f k = Some v)"
proof
  assume l: "map_of m \<subseteq>\<^sub>m f"
  show "\<forall>(k, v) \<in> set m. f k = Some v"
  proof safe
    fix k v assume "(k, v) \<in> set m"
    with assms have "map_of m k = Some v" by simp
    with l show "f k = Some v" by (metis domI map_le_def)
  qed
next
  assume r: "\<forall>(k, v) \<in> set m. f k = Some v"
  show "map_of m \<subseteq>\<^sub>m f" unfolding map_le_def
  proof
    fix k assume "k \<in> dom (map_of m)"
    then obtain v where v: "map_of m k = Some v" by blast
    with r map_of_SomeD show "map_of m k = f k" by fastforce
  qed
qed

lemma stale_heads_iff: "\<not> stale_heads c observed \<longleftrightarrow> heads_current (ca_repositoryHeads c) observed"
proof -
  have d: "distinct (map fst (headMap (ca_repositoryHeads c)))" by (simp add: headMap_def distinct_js_map_of)
  show ?thesis unfolding heads_current_def headMap_lookup [symmetric] map_le_entries [OF d] stale_heads_def list_ex_iff by blast
qed

definition workspace_matches :: "text_platform \<Rightarrow> verify_input \<Rightarrow> bool" where
  "workspace_matches pl i \<longleftrightarrow> (let c = vi_capsule i in
     ca_schemaVersion c = 1 \<and> ca_digest c = digestCapsulePayload pl c \<and> heads_current (ca_repositoryHeads c) (vi_observedHeads i) \<and>
     mset (ca_dirtyFiles c) = mset (vi_observedDirtyFiles i) \<and>
     (\<forall>ref \<in> set (ca_artifactRefs c). artifact_present (vi_observedArtifacts i) ref) \<and>
     (\<forall>ref \<in> set (ca_contextFileRefs c). context_present (vi_observedContextFiles i) ref) \<and>
     vi_contradictoryCompletion i \<noteq> Some True \<and> vi_cheapChecksPassed i \<noteq> Some False)"

lemma no_blockers_iff: "incoming_blockers pl i = [] \<longleftrightarrow> workspace_matches pl i"
  unfolding incoming_blockers_def workspace_matches_def Let_def verifyCapsuleDigest_def append_is_Nil_conv
    checkArtifacts_Nil checkContextFiles_Nil sameSorted_iff sort_eq_iff stale_heads_iff [symmetric]
  by (simp split: if_splits)

lemma js_set_of_Nil [simp]: "js_set_of xs = [] \<longleftrightarrow> xs = []"
  by (metis set_empty set_js_set_of)

text \<open>
  An incoming capsule passes exactly when its schema version is known, its digest is that of its content, every repository it
  names is observed at the recorded head, the observed dirty files are the recorded ones, every artifact and every context
  file it names is observed with the recorded hash, and neither a contradicting completion nor a failed cheap check is
  reported; the blockers listed are without repetition, and empty exactly then.
\<close>

theorem incoming_passes_iff:
  "(iv_verdict (verifyIncomingContinuation pl i) = VD_pass \<longleftrightarrow> workspace_matches pl i) \<and>
   (iv_blockers (verifyIncomingContinuation pl i) = [] \<longleftrightarrow> workspace_matches pl i) \<and>
   distinct (iv_blockers (verifyIncomingContinuation pl i))"
  by (simp add: verifyIncomingContinuation_def Let_def no_blockers_iff)

section \<open>Built capsules\<close>

lemma bounded_kept: "\<not> snd (boundCollection xs k) \<Longrightarrow> fst (boundCollection xs k) = xs \<and> length xs \<le> k"
  by (simp add: boundCollection_def split: if_splits)

lemma digest_ignores_digest: "digestCapsulePayload pl (c\<lparr>ca_digest := d\<rparr>) = digestCapsulePayload pl c"
  by (simp add: digestCapsulePayload_def capsulePayloadForDigest_def)

definition nothing_dropped :: "capsule_input \<Rightarrow> capsule \<Rightarrow> bool" where
  "nothing_dropped i c \<longleftrightarrow> ca_completedPlanItems c = ci_completedPlanItems i \<and> ca_remainingPlanItems c = ci_remainingPlanItems i \<and>
     ca_activePlanItem c = ci_activePlanItem i \<and> ca_artifactRefs c = ci_artifactRefs i \<and> ca_repositoryHeads c = ci_repositoryHeads i \<and>
     ca_contextFileRefs c = ci_contextFileRefs i \<and> ca_dirtyFiles c = sortUnique (ci_dirtyFiles i) \<and>
     ca_decisionIds c = sortUnique (ci_decisionIds i) \<and> ca_unresolvedQuestionIds c = sortUnique (ci_unresolvedQuestionIds i) \<and>
     ca_riskRefs c = sortUnique (ci_riskRefs i)"

lemma built_capsule:
  assumes "buildContinuationCapsule pl i = Capsule_ok c text"
  shows "nothing_dropped i c" "ca_schemaVersion c = 1" "ca_digest c = digestCapsulePayload pl c"
    "utf8ByteLength (ca_nextAction c) \<le> CONTINUATION_DESCRIPTION_MAX_BYTES"
proof -
  obtain na tr where td: "truncateDescription (js_trim (ci_nextAction i)) CONTINUATION_DESCRIPTION_MAX_BYTES = (na, tr)" by force
  obtain nt om where tn: "truncateNarrative (case ci_narrativeMarkdown i of None \<Rightarrow> [] | Some n \<Rightarrow> n) CONTINUATION_NARRATIVE_MAX_BYTES = (nt, om)"
    by force
  let ?w = "capsule_of pl i nt om na tr"
  from assms have po: "\<not> plan_overflow i" and so: "\<not> state_overflow i"
    and ao: "\<not> snd (boundCollection (ci_artifactRefs i) CONTINUATION_REFERENCE_COLLECTION_MAX)"
    and c: "c = ?w\<lparr>ca_digest := digestCapsulePayload pl ?w\<rparr>"
    by (auto simp: buildContinuationCapsule_def Let_def td tn split: if_splits)
  show "ca_schemaVersion c = 1" by (simp add: c capsule_of_def)
  show "ca_digest c = digestCapsulePayload pl c" by (simp add: c digest_ignores_digest)
  show "utf8ByteLength (ca_nextAction c) \<le> CONTINUATION_DESCRIPTION_MAX_BYTES"
    using description_cut [OF td] by (simp add: c capsule_of_def)
  have "ca_remainingPlanItems c = ci_remainingPlanItems i"
    using po bounded_kept by (cases "ci_remainingPlanItems i") (auto simp: c capsule_of_def plan_overflow_def)
  then show "nothing_dropped i c"
    using po so ao unfolding plan_overflow_def state_overflow_def nothing_dropped_def by (simp add: c capsule_of_def bounded_kept)
qed

lemma mset_sortUnique:
  assumes "distinct ys" "set ys = set xs"
  shows "mset (sortUnique xs) = mset ys"
proof -
  have "mset (js_set_of xs) = mset ys" using assms by (simp flip: set_eq_iff_mset_eq_distinct)
  then show ?thesis by (simp add: sortUnique_def)
qed

text \<open>
  C37: a capsule that is built drops no plan item, artifact, head, dirty file or reference, keeps its next action within the
  limit, and passes verification in every workspace that is as it was described: the same heads, the same set of dirty files, and
  every named artifact and context file present with its hash.
\<close>

theorem built_capsule_passes:
  assumes "buildContinuationCapsule pl i = Capsule_ok c text"
    and "vi_capsule v = c" "vi_observedHeads v = ci_repositoryHeads i"
    and "distinct (vi_observedDirtyFiles v)" "set (vi_observedDirtyFiles v) = set (ci_dirtyFiles i)"
    and "\<forall>ref \<in> set (ci_artifactRefs i). artifact_present (vi_observedArtifacts v) ref"
    and "\<forall>ref \<in> set (ci_contextFileRefs i). context_present (vi_observedContextFiles v) ref"
    and "vi_contradictoryCompletion v \<noteq> Some True" "vi_cheapChecksPassed v \<noteq> Some False"
  shows "nothing_dropped i c \<and> utf8ByteLength (ca_nextAction c) \<le> CONTINUATION_DESCRIPTION_MAX_BYTES \<and>
    iv_verdict (verifyIncomingContinuation pl v) = VD_pass"
proof -
  note b = built_capsule [OF assms(1)]
  have "mset (ca_dirtyFiles c) = mset (vi_observedDirtyFiles v)"
    using b(1) assms(4,5) by (simp add: nothing_dropped_def mset_sortUnique)
  moreover have "heads_current (ci_repositoryHeads i) (ci_repositoryHeads i)" by (simp add: heads_current_def)
  ultimately have "workspace_matches pl v"
    using b(1-3) assms unfolding workspace_matches_def Let_def nothing_dropped_def by simp
  then show ?thesis using b by (simp add: verifyIncomingContinuation_def Let_def no_blockers_iff)
qed

definition example_hash :: text_platform where
  "example_hash = \<lparr>sha256_hex = rev, number16 = (\<lambda>_. lit ''1'')\<rparr>"

definition example_capsule_input :: capsule_input where
  "example_capsule_input = \<lparr>ci_runId = lit ''r'', ci_stageId = lit ''s'', ci_attemptId = lit ''a'', ci_segmentId = lit ''g'',
     ci_segmentOrdinal = 1, ci_completedPlanItems = [lit ''one''], ci_activePlanItem = None, ci_remainingPlanItems = None,
     ci_nextAction = lit '' go '', ci_repositoryHeads = [\<lparr>rh_repositoryId = lit ''x'', rh_head = lit ''h''\<rparr>],
     ci_dirtyFiles = [lit ''b'', lit ''a'', lit ''b''], ci_artifactRefs = [\<lparr>ar_artifactId = lit ''t'', ar_contentHash = lit ''u'', ar_name = None\<rparr>],
     ci_contextFileRefs = [], ci_decisionIds = [], ci_unresolvedQuestionIds = [], ci_riskRefs = [], ci_telemetryCursor = None,
     ci_outgoingSessionId = lit ''o'', ci_narrativeMarkdown = None, ci_createdAt = lit ''t0''\<rparr>"

definition example_capsule :: capsule where
  "example_capsule = (let w = capsule_of example_hash example_capsule_input [] 0 (lit ''go'') False
     in w\<lparr>ca_digest := digestCapsulePayload example_hash w\<rparr>)"

lemma example_capsule_built: "buildContinuationCapsule example_hash example_capsule_input = Capsule_ok example_capsule []"
proof -
  have "js_trim (ci_nextAction example_capsule_input) = lit ''go''" "js_trim (ci_outgoingSessionId example_capsule_input) = lit ''o''"
    by code_simp+
  moreover have "plan_overflow example_capsule_input = False" "state_overflow example_capsule_input = False" by code_simp+
  moreover have "truncateDescription (lit ''go'') CONTINUATION_DESCRIPTION_MAX_BYTES = (lit ''go'', False)" by code_simp
  moreover have "truncateNarrative [] CONTINUATION_NARRATIVE_MAX_BYTES = ([], 0)" by (simp add: truncateNarrative_def)
  moreover have "snd (boundCollection (ci_artifactRefs example_capsule_input) CONTINUATION_REFERENCE_COLLECTION_MAX) = False" by code_simp
  moreover have "ci_narrativeMarkdown example_capsule_input = None" by (simp add: example_capsule_input_def)
  ultimately show ?thesis by (simp add: buildContinuationCapsule_def Let_def example_capsule_def lit_def)
qed

definition example_workspace :: verify_input where
  "example_workspace = \<lparr>vi_capsule = example_capsule, vi_observedHeads = ci_repositoryHeads example_capsule_input,
     vi_observedDirtyFiles = [lit ''a'', lit ''b''],
     vi_observedArtifacts = [\<lparr>oa_artifactId = lit ''t'', oa_contentHash = lit ''u'', oa_exists = True\<rparr>], vi_observedContextFiles = [],
     vi_contradictoryCompletion = None, vi_cheapChecksPassed = Some True, vi_segmentId = None, vi_recordedAt = lit ''t1''\<rparr>"

theorem built_capsule_passes_witness:
  "iv_verdict (verifyIncomingContinuation example_hash example_workspace) = VD_pass"
proof -
  have "set (vi_observedDirtyFiles example_workspace) = set (ci_dirtyFiles example_capsule_input)"
    by (auto simp: example_workspace_def example_capsule_input_def)
  moreover have "distinct (vi_observedDirtyFiles example_workspace)" by code_simp
  moreover have "\<forall>ref \<in> set (ci_artifactRefs example_capsule_input). artifact_present (vi_observedArtifacts example_workspace) ref"
    by (simp add: example_workspace_def example_capsule_input_def artifact_present_def)
  ultimately show ?thesis
    using built_capsule_passes [OF example_capsule_built, of example_workspace] by (simp add: example_workspace_def example_capsule_input_def)
qed

end
