(* ===== verification/Json_Text.thy ===== *)
theory Json_Text
  imports Json
begin

text \<open>
  JSON text: \<open>JSON.parse\<close> as a recursive-descent reader, the property order of JavaScript objects,
  and the round trip with \<open>JSON.stringify\<close>. The reading of a number token is the argument
  \<open>num\<close>, the counterpart of the platform's \<open>number_text\<close>. Characters are code units below 256, so
  an escape \<open>\\uXXXX\<close> above that range is outside the model and read as a syntax error.
\<close>

section \<open>Property order\<close>

text \<open>
  An object enumerates its array-index keys first, in ascending order, and then the others in
  insertion order; defining a present key again keeps its place.
\<close>

definition array_index :: "string \<Rightarrow> bool" where
  "array_index k \<longleftrightarrow> k = show_nat (read_nat k 0) \<and> read_nat k 0 < 4294967295"

text \<open>For evaluation: a key with another character than a digit is no index, whatever number it would read as.\<close>

lemma array_index_code [code]:
  "array_index k = (if list_all is_digit k then k = show_nat (read_nat k 0) \<and> read_nat k 0 < 4294967295 else False)"
  using show_nat_digits by (auto simp: array_index_def list_all_iff) metis

definition js_object :: "(string \<times> 'v) list \<Rightarrow> (string \<times> 'v) list" where
  "js_object kvs =
     (let m = js_map_of kvs
      in sort_key (\<lambda>p. read_nat (fst p) 0) (filter (\<lambda>p. array_index (fst p)) m)
         @ filter (\<lambda>p. \<not> array_index (fst p)) m)"

text \<open>The objects that can occur: their members are in property order, and numbers are binary64.\<close>

definition double_value :: "js_number \<Rightarrow> bool" where
  "double_value x \<longleftrightarrow>
     (case x of Fin q \<Rightarrow> (let (n, d) = quotient_of \<bar>q\<bar> in round_double (q < 0) n d = Fin q) | _ \<Rightarrow> True)"

fun wf_json :: "json \<Rightarrow> bool" where
  "wf_json (JNum x) = double_value x"
| "wf_json (JArr vs) = (\<forall>v \<in> set vs. wf_json v)"
| "wf_json (JObj kvs) = (js_object kvs = kvs \<and> (\<forall>p \<in> set kvs. wf_json (snd p)))"
| "wf_json v = True"

lemma keys_sort_filter:
  "distinct (map fst m) \<Longrightarrow> distinct (map fst (sort_key f (filter P m) @ filter (\<lambda>p. \<not> P p) m))"
  by (auto simp: distinct_map inj_on_def)

lemma map_of_sort_filter:
  assumes "distinct (map fst m)"
  shows "map_of (sort_key f (filter P m) @ filter (\<lambda>p. \<not> P p) m) = map_of m"
proof -
  have "set (sort_key f (filter P m) @ filter (\<lambda>p. \<not> P p) m) = set m" by auto
  with assms keys_sort_filter [OF assms] show ?thesis by (metis map_of_inject_set)
qed

lemma distinct_js_object: "distinct (map fst (js_object kvs))"
  unfolding js_object_def Let_def by (rule keys_sort_filter) (rule distinct_js_map_of)

lemma map_of_js_object: "distinct (map fst kvs) \<Longrightarrow> map_of (js_object kvs) = map_of kvs"
  unfolding js_object_def Let_def by (simp only: js_map_of_distinct map_of_sort_filter)

lemma js_object_idem: "js_object (js_object kvs) = js_object kvs"
proof -
  define m where "m = js_map_of kvs"
  let ?f = "\<lambda>p. read_nat (fst p) 0" and ?P = "\<lambda>p. array_index (fst p)"
  have obj: "js_object kvs = sort_key ?f (filter ?P m) @ filter (\<lambda>p. \<not> ?P p) m"
    by (simp add: js_object_def m_def Let_def)
  have "js_map_of (js_object kvs) = js_object kvs" by (rule js_map_of_distinct) (rule distinct_js_object)
  then have "js_object (js_object kvs) =
      sort_key ?f (filter ?P (js_object kvs)) @ filter (\<lambda>p. \<not> ?P p) (js_object kvs)"
    by (simp only: js_object_def [of "js_object kvs"] Let_def)
  also have "\<dots> = js_object kvs"
    by (simp add: obj filter_sort sort_key_id_if_sorted)
  finally show ?thesis .
qed

section \<open>Reading JSON text\<close>

definition json_ws :: "char \<Rightarrow> bool" where
  "json_ws c \<longleftrightarrow> c \<in> {CHR 0x20, CHR 0x09, CHR 0x0A, CHR 0x0D}"

definition skip_ws :: "string \<Rightarrow> string" where "skip_ws s = dropWhile json_ws s"

definition number_char :: "char \<Rightarrow> bool" where
  "number_char c \<longleftrightarrow> is_digit c \<or> c \<in> {CHR ''-'', CHR ''+'', CHR ''.'', CHR ''e'', CHR ''E''}"

definition hex_of :: "char \<Rightarrow> nat option" where
  "hex_of c =
     (if is_digit c then Some (of_char c - 48)
      else if CHR ''a'' \<le> c \<and> c \<le> CHR ''f'' then Some (of_char c - 87)
      else if CHR ''A'' \<le> c \<and> c \<le> CHR ''F'' then Some (of_char c - 55) else None)"

text \<open>The escape after a backslash: the code unit it stands for, and the rest.\<close>

definition read_escape :: "string \<Rightarrow> (char \<times> string) option" where
  "read_escape r =
     (case r of [] \<Rightarrow> None
      | k # r' \<Rightarrow>
          if k = CHR ''/'' then Some (k, r')
          else case read_short_escape k of Some c \<Rightarrow> Some (c, r')
          | None \<Rightarrow>
              if k \<noteq> CHR ''u'' then None
              else case r' of
                a # b # h # l # r'' \<Rightarrow>
                  (case (hex_of a, hex_of b, hex_of h, hex_of l) of
                     (Some 0, Some 0, Some x, Some y) \<Rightarrow> Some (char_of (16 * x + y), r'')
                   | _ \<Rightarrow> None)
              | _ \<Rightarrow> None)"

lemma read_escape_shorter: "read_escape r = Some (c, r') \<Longrightarrow> length r' < length r"
  by (auto simp: read_escape_def split: list.splits option.splits if_splits nat.splits)

text \<open>The characters of a string literal after its opening quote.\<close>

function parse_chars :: "string \<Rightarrow> (string \<times> string) option" where
  "parse_chars [] = None"
| "parse_chars (c # r) =
     (if c = CHR 0x22 then Some ([], r)
      else if c = CHR 0x5C then
        (case read_escape r of None \<Rightarrow> None
         | Some (d, r') \<Rightarrow> map_option (apfst (Cons d)) (parse_chars r'))
      else if (of_char c :: nat) < 32 then None
      else map_option (apfst (Cons c)) (parse_chars r))"
  by pat_completeness auto
termination
  by (relation "measure length") (auto dest: read_escape_shorter)

fun parse_value :: "(string \<Rightarrow> js_number option) \<Rightarrow> nat \<Rightarrow> string \<Rightarrow> (json \<times> string) option"
and parse_elems :: "(string \<Rightarrow> js_number option) \<Rightarrow> nat \<Rightarrow> string \<Rightarrow> (json list \<times> string) option"
and parse_members ::
  "(string \<Rightarrow> js_number option) \<Rightarrow> nat \<Rightarrow> string \<Rightarrow> ((string \<times> json) list \<times> string) option" where
  "parse_value num 0 s = None"
| "parse_value num (Suc n) s =
     (case skip_ws s of [] \<Rightarrow> None
      | c # r \<Rightarrow>
          if c = CHR 0x22 then map_option (apfst JStr) (parse_chars r)
          else if c = CHR ''['' then
            (if take 1 (skip_ws r) = '']'' then Some (JArr [], drop 1 (skip_ws r))
             else map_option (apfst JArr) (parse_elems num n r))
          else if c = CHR 0x7B then
            (if take 1 (skip_ws r) = [CHR 0x7D] then Some (JObj [], drop 1 (skip_ws r))
             else map_option (apfst (JObj \<circ> js_object)) (parse_members num n r))
          else if take 4 (c # r) = ''null'' then Some (JNull, drop 3 r)
          else if take 4 (c # r) = ''true'' then Some (JBool True, drop 3 r)
          else if take 5 (c # r) = ''false'' then Some (JBool False, drop 4 r)
          else map_option (\<lambda>x. (JNum x, dropWhile number_char (c # r)))
                 (num (takeWhile number_char (c # r))))"
| "parse_elems num 0 s = None"
| "parse_elems num (Suc n) s =
     (case parse_value num n s of None \<Rightarrow> None
      | Some (v, r) \<Rightarrow>
          if take 1 (skip_ws r) = '','' then
            map_option (apfst (Cons v)) (parse_elems num n (drop 1 (skip_ws r)))
          else if take 1 (skip_ws r) = '']'' then Some ([v], drop 1 (skip_ws r)) else None)"
| "parse_members num 0 s = None"
| "parse_members num (Suc n) s =
     (if take 1 (skip_ws s) \<noteq> [CHR 0x22] then None
      else case parse_chars (drop 1 (skip_ws s)) of None \<Rightarrow> None
      | Some (k, r) \<Rightarrow>
          if take 1 (skip_ws r) \<noteq> '':'' then None
          else case parse_value num n (drop 1 (skip_ws r)) of None \<Rightarrow> None
          | Some (v, q) \<Rightarrow>
              if take 1 (skip_ws q) = '','' then
                map_option (apfst (Cons (k, v))) (parse_members num n (drop 1 (skip_ws q)))
              else if take 1 (skip_ws q) = [CHR 0x7D] then Some ([(k, v)], drop 1 (skip_ws q))
              else None)"

declare parse_value.simps [simp del] parse_elems.simps [simp del] parse_members.simps [simp del]

text \<open>Every call reads at least one character, so the length of the text is fuel enough.\<close>

definition json_parse :: "(string \<Rightarrow> js_number option) \<Rightarrow> string \<Rightarrow> json option" where
  "json_parse num s =
     (case parse_value num (Suc (length s)) s of
        Some (v, r) \<Rightarrow> (if skip_ws r = [] then Some v else None) | None \<Rightarrow> None)"

section \<open>The round trip\<close>

text \<open>
  What is relied on of \<open>Number::toString\<close> and of the reading of a number token: a finite number
  is printed as one token, not empty, and that token is read back as the number.
\<close>

definition numbers_read_back :: "platform \<Rightarrow> (string \<Rightarrow> js_number option) \<Rightarrow> bool" where
  "numbers_read_back pl num \<longleftrightarrow>
     (\<forall>q. double_value (Fin q) \<longrightarrow>
        (\<forall>c \<in> set (number_text pl (Fin q)). number_char c) \<and> number_text pl (Fin q) \<noteq> [] \<and>
        num (number_text pl (Fin q)) = Some (Fin q))"

lemma numbers_read_backD:
  assumes "numbers_read_back pl num" "double_value (Fin q)"
  shows "c \<in> set (number_text pl (Fin q)) \<Longrightarrow> number_char c"
    and "number_text pl (Fin q) \<noteq> []" and "num (number_text pl (Fin q)) = Some (Fin q)"
  using assms by (auto simp: numbers_read_back_def)

lemma hex_of_digit: "n < 16 \<Longrightarrow> hex_of (hex_digit n) = Some n"
proof -
  assume "n < 16"
  then have "n \<in> set [0..<16]" by simp
  moreover have "list_all (\<lambda>n. hex_of (hex_digit n) = Some n) [0..<16]"
    by (simp add: upt_rec hex_of_def hex_digit_def is_digit_def less_eq_char_def)
  ultimately show ?thesis by (simp only: list_all_iff)
qed

lemma read_escape_u:
  assumes "a < 16" "b < 16"
  shows "read_escape (CHR ''u'' # CHR ''0'' # CHR ''0'' # hex_digit a # hex_digit b # u) = Some (char_of (16 * a + b), u)"
proof -
  have "hex_of (CHR ''0'') = Some 0" by (simp add: hex_of_def is_digit_def)
  then show ?thesis using assms by (simp add: read_escape_def hex_of_digit)
qed

lemma read_escape_short:
  "read_short_escape k = Some c \<Longrightarrow> k \<noteq> CHR ''/'' \<Longrightarrow> read_escape (k # u) = Some (c, u)"
  by (simp add: read_escape_def)

lemma parse_escape_char:
  "parse_chars (escape_char c @ u) = map_option (apfst (Cons c)) (parse_chars u)"
proof (cases "short_escape c")
  case True
  then show ?thesis
    by (auto simp: short_escape_def escape_char_def read_escape_short)
next
  case long: False
  show ?thesis
  proof (cases "(of_char c :: nat) < 32")
    case True
    then have lt: "(of_char c div 16 :: nat) < 16" "(of_char c mod 16 :: nat) < 16" by auto
    have "escape_char c = [CHR 0x5C, CHR ''u'', CHR ''0'', CHR ''0'', hex_digit (of_char c div 16), hex_digit (of_char c mod 16)]"
      using long True unfolding escape_char_def short_escape_def by simp
    then show ?thesis
      using read_escape_u [OF lt, of u] by simp
  next
    case False
    with long have "escape_char c = [c]" "c \<noteq> CHR 0x5C" "c \<noteq> CHR 0x22"
      by (simp_all add: escape_char_def short_escape_def)
    with False show ?thesis by simp
  qed
qed

lemma parse_escaped: "parse_chars (concat (map escape_char s) @ CHR 0x22 # u) = Some (s, u)"
  by (induction s) (simp_all add: parse_escape_char)

lemma skip_ws_quote [simp]: "skip_ws (CHR 0x22 # u) = CHR 0x22 # u"
  by (simp add: skip_ws_def json_ws_def)

lemma parse_quoted: "parse_value num (Suc n) (json_quote s @ u) = Some (JStr s, u)"
  by (simp add: json_quote_starts parse_escaped parse_value.simps)

text \<open>What may follow a value: nothing, a comma, or a closing bracket or brace.\<close>

definition delimited :: "string \<Rightarrow> bool" where
  "delimited u \<longleftrightarrow> u = [] \<or> hd u \<in> {CHR '','', CHR '']'', CHR 0x7D}"

lemma delimited_Cons [simp]:
  "delimited []" "delimited (CHR '','' # u)" "delimited (CHR '']'' # u)" "delimited (CHR 0x7D # u)"
  by (simp_all add: delimited_def)

lemma skip_ws_delim [simp]:
  "skip_ws (CHR '','' # u) = CHR '','' # u" "skip_ws (CHR '']'' # u) = CHR '']'' # u"
  "skip_ws (CHR 0x7D # u) = CHR 0x7D # u" "skip_ws (CHR '':'' # u) = CHR '':'' # u"
  "skip_ws (CHR ''['' # u) = CHR ''['' # u" "skip_ws (CHR 0x7B # u) = CHR 0x7B # u"
  by (simp_all add: skip_ws_def json_ws_def)

lemma number_char_code: "number_char c \<Longrightarrow> (of_char c :: nat) \<in> {48..57} \<union> {45, 43, 46, 101, 69}"
  by (auto simp: number_char_def is_digit_of_char)

lemma number_char_other:
  "number_char c \<Longrightarrow> c \<notin> {CHR 0x22, CHR ''['', CHR 0x7B, CHR ''n'', CHR ''t'', CHR ''f'', CHR '','', CHR '']'', CHR 0x7D}
     \<and> \<not> json_ws c"
  by (drule number_char_code) (auto simp: json_ws_def)

lemma take_while_number:
  assumes "\<And>c. c \<in> set t \<Longrightarrow> number_char c" "delimited u"
  shows "takeWhile number_char (t @ u) = t" "dropWhile number_char (t @ u) = u"
proof -
  have "u = [] \<or> \<not> number_char (hd u)"
    using assms(2) number_char_other [of "hd u"] by (auto simp: delimited_def)
  then have "takeWhile number_char u = []" "dropWhile number_char u = u"
    by (cases u; simp)+
  with assms(1) show "takeWhile number_char (t @ u) = t" "dropWhile number_char (t @ u) = u"
    by simp_all
qed

lemma parse_number:
  assumes nums: "numbers_read_back pl num" and q: "double_value (Fin q)" and u: "delimited u"
  shows "parse_value num (Suc n) (number_text pl (Fin q) @ u) = Some (JNum (Fin q), u)"
proof -
  let ?t = "number_text pl (Fin q)"
  obtain c r where t: "?t = c # r" using numbers_read_backD(2) [OF nums q] by (cases ?t) auto
  have nc: "\<And>c. c \<in> set ?t \<Longrightarrow> number_char c" using numbers_read_backD(1) [OF nums q] by blast
  then have "number_char c" by (simp add: t)
  then have c: "c \<notin> {CHR 0x22, CHR ''['', CHR 0x7B, CHR ''n'', CHR ''t'', CHR ''f''}" "\<not> json_ws c"
    using number_char_other by blast+
  have "skip_ws (?t @ u) = c # (r @ u)" using c(2) by (simp add: skip_ws_def t)
  moreover have "takeWhile number_char (c # (r @ u)) = ?t" "dropWhile number_char (c # (r @ u)) = u"
    using take_while_number [of ?t u] nc u by (simp_all add: t)
  ultimately show ?thesis
    using c(1) numbers_read_backD(3) [OF nums q] by (simp add: parse_value.simps)
qed

text \<open>A list of texts, each read back as its value, is read back as the array.\<close>

lemma parse_elems_join:
  assumes "\<And>v n u. v \<in> set vs \<Longrightarrow> length (g v) \<le> n \<Longrightarrow> delimited u \<Longrightarrow>
      parse_value num (Suc n) (g v @ u) = Some (v, u)"
    and "vs \<noteq> []" "length (join_with '','' (map g vs)) < n"
  shows "parse_elems num (Suc n) (join_with '','' (map g vs) @ CHR '']'' # u) = Some (vs, u)"
  using assms
proof (induction vs arbitrary: n)
  case (Cons v vs)
  obtain k where n: "n = Suc k" using Cons.prems(3) by (cases n) auto
  show ?case
  proof (cases vs)
    case Nil
    then show ?thesis using Cons.prems(1) [of v k "CHR '']'' # u"] Cons.prems(3) by (subst parse_elems.simps(2)) (simp add: n)
  next
    case vs: (Cons w ws)
    let ?rest = "join_with '','' (map g vs) @ CHR '']'' # u"
    have txt_eq: "join_with '','' (map g (v # vs)) @ CHR '']'' # u = g v @ CHR '','' # ?rest"
      by (simp add: vs)
    have "length (g v) \<le> k" "length (join_with '','' (map g vs)) < k"
      using Cons.prems(3) by (simp_all add: vs n)
    then have "parse_value num (Suc k) (g v @ CHR '','' # ?rest) = Some (v, CHR '','' # ?rest)"
      and "parse_elems num (Suc k) ?rest = Some (vs, u)"
      using Cons.prems(1) [of v k] Cons.IH [of k] Cons.prems(1) vs by auto
    then show ?thesis unfolding txt_eq by (subst parse_elems.simps(2)) (simp add: n)
  qed
qed simp

lemma parse_members_join:
  assumes "\<And>p n u. p \<in> set kvs \<Longrightarrow> length (g (snd p)) \<le> n \<Longrightarrow> delimited u \<Longrightarrow>
      parse_value num (Suc n) (g (snd p) @ u) = Some (snd p, u)"
    and "kvs \<noteq> []"
    and "length (join_with '','' (map (\<lambda>(k, v). json_quote k @ '':'' @ g v) kvs)) < n"
  shows "parse_members num (Suc n) (join_with '','' (map (\<lambda>(k, v). json_quote k @ '':'' @ g v) kvs) @ CHR 0x7D # u) =
    Some (kvs, u)"
  using assms
proof (induction kvs arbitrary: n)
  case (Cons p kvs)
  obtain k v where p: "p = (k, v)" by (cases p)
  obtain m where n: "n = Suc m" using Cons.prems(3) by (cases n) auto
  show ?case
  proof (cases kvs)
    case Nil
    then show ?thesis
      using Cons.prems(1) [of p m "CHR 0x7D # u"] Cons.prems(3)
      by (subst parse_members.simps(2)) (simp add: n p json_quote_starts parse_escaped)
  next
    case kvs: (Cons w ws)
    let ?rest = "join_with '','' (map (\<lambda>(k, v). json_quote k @ '':'' @ g v) kvs) @ CHR 0x7D # u"
    have txt_eq: "join_with '','' (map (\<lambda>(k, v). json_quote k @ '':'' @ g v) (p # kvs)) @ CHR 0x7D # u =
        CHR 0x22 # concat (map escape_char k) @ CHR 0x22 # CHR '':'' # g v @ CHR '','' # ?rest"
      by (simp add: kvs p json_quote_starts)
    have "length (g v) \<le> m"
      "length (join_with '','' (map (\<lambda>(k, v). json_quote k @ '':'' @ g v) kvs)) < m"
      using Cons.prems(3) by (simp_all add: kvs n p)
    then have "parse_value num (Suc m) (g v @ CHR '','' # ?rest) = Some (v, CHR '','' # ?rest)"
      and "parse_members num (Suc m) ?rest = Some (kvs, u)"
      using Cons.prems(1) [of p m] Cons.IH [of m] Cons.prems(1) kvs by (auto simp: p)
    then show ?thesis unfolding txt_eq by (subst parse_members.simps(2)) (simp add: n p parse_escaped)
  qed
qed simp

lemma join_with_length: "x \<in> set xs \<Longrightarrow> length x \<le> length (join_with sep xs)"
  by (induction sep xs rule: join_with.induct) auto

text \<open>The values whose text determines them: in property order, with finite numbers that are not \<open>-0\<close>.\<close>

fun plain_json :: "json \<Rightarrow> bool" where
  "plain_json (JNum x) = (double_value x \<and> (\<exists>q. x = Fin q))"
| "plain_json (JArr vs) = (\<forall>v \<in> set vs. plain_json v)"
| "plain_json (JObj kvs) = (js_object kvs = kvs \<and> (\<forall>p \<in> set kvs. plain_json (snd p)))"
| "plain_json v = True"

lemma text_starts:
  assumes "numbers_read_back pl num" "plain_json v"
  obtains c r where "json_stringify pl v = c # r" "c \<notin> {CHR '']'', CHR 0x7D}" "\<not> json_ws c"
proof (cases v)
  case (JNum x)
  with assms(2) obtain q where q: "x = Fin q" "double_value (Fin q)" by auto
  then obtain c r where t: "number_text pl (Fin q) = c # r"
    using numbers_read_backD(2) [OF assms(1)] by (cases "number_text pl (Fin q)") auto
  then have "number_char c" using numbers_read_backD(1) [OF assms(1) q(2)] by simp
  then show ?thesis using that t JNum q number_char_other by auto
next
  case (JBool b)
  then show ?thesis using that by (cases b) (auto simp: json_ws_def)
qed (use that in \<open>auto simp: json_ws_def json_quote_starts\<close>)

lemma skip_ws_nonblank: "\<not> json_ws c \<Longrightarrow> skip_ws (c # r) = c # r"
  by (simp add: skip_ws_def)

lemma parse_stringify:
  assumes nums: "numbers_read_back pl num"
  shows "plain_json v \<Longrightarrow> length (json_stringify pl v) \<le> n \<Longrightarrow> delimited u \<Longrightarrow>
   parse_value num (Suc n) (json_stringify pl v @ u) = Some (v, u)"
proof (induction v arbitrary: n u)
  case JNull
  then show ?case by (simp add: skip_ws_def json_ws_def parse_value.simps)
next
  case (JBool b)
  then show ?case by (simp add: skip_ws_def json_ws_def parse_value.simps)
next
  case (JNum x)
  then obtain q where "x = Fin q" "double_value (Fin q)" by auto
  with JNum parse_number [OF nums] show ?case by simp
next
  case (JStr s)
  then show ?case by (simp add: parse_quoted)
next
  case (JArr vs)
  show ?case
  proof (cases vs)
    case Nil
    then show ?thesis by (simp add: parse_value.simps)
  next
    case vs: (Cons w ws)
    let ?j = "join_with '','' (map (json_stringify pl) vs)"
    obtain m where n: "n = Suc m" "length ?j < m" using JArr.prems(2) by (cases n) auto
    have "plain_json w" using JArr.prems(1) vs by simp
    then obtain c r where w: "json_stringify pl w = c # r" "c \<notin> {CHR '']'', CHR 0x7D}" "\<not> json_ws c"
      using text_starts [OF nums] by blast
    have "\<exists>r'. ?j = c # r'" by (cases ws) (simp_all add: vs w)
    then have "take 1 (skip_ws (?j @ CHR '']'' # u)) \<noteq> '']''" using w by (auto simp: skip_ws_nonblank)
    moreover have "parse_elems num (Suc m) (?j @ CHR '']'' # u) = Some (vs, u)"
      using JArr vs n(2) by (intro parse_elems_join) auto
    ultimately show ?thesis by (subst parse_value.simps(2)) (simp add: n)
  qed
next
  case (JObj kvs)
  show ?case
  proof (cases kvs)
    case Nil
    then show ?thesis by (simp add: parse_value.simps)
  next
    case kvs: (Cons w ws)
    let ?j = "join_with '','' (map (\<lambda>(k, v). json_quote k @ '':'' @ json_stringify pl v) kvs)"
    obtain m where n: "n = Suc m" "length ?j < m" using JObj.prems(2) by (cases n) auto
    have "\<exists>r'. ?j = CHR 0x22 # r'" by (cases w; cases ws) (simp_all add: kvs json_quote_starts)
    then have "take 1 (skip_ws (?j @ CHR 0x7D # u)) \<noteq> [CHR 0x7D]" by auto
    moreover have "parse_members num (Suc m) (?j @ CHR 0x7D # u) = Some (kvs, u)"
      using JObj.prems(1) kvs n(2)
      by (intro parse_members_join) (auto simp: snds.simps intro!: JObj.IH)
    moreover have "js_object kvs = kvs" using JObj.prems(1) by simp
    ultimately show ?thesis by (subst parse_value.simps(2)) (simp add: n)
  qed
qed

lemma json_parse_stringify:
  "numbers_read_back pl num \<Longrightarrow> plain_json v \<Longrightarrow> json_parse num (json_stringify pl v) = Some v"
  using parse_stringify [of pl num v "length (json_stringify pl v)" "[]"]
  by (simp add: json_parse_def skip_ws_def)

end
