(* ===== verification/State_Json.thy ===== *)
theory State_Json
  imports Json_Text "HOL-Library.Multiset"
begin

text \<open>
  The JSON layer of the durable state store (\<open>packages/state/src/json.ts\<close>): canonical values, their
  text, the narrowing of parsed text, and byte lengths. The lemmas show that what is stored as
  canonical text is read back as the canonical value, and that canonicalising is idempotent.
\<close>

section \<open>Canonical values\<close>

fun rseq :: "'a res list \<Rightarrow> 'a list res" where
  "rseq [] = Inr []"
| "rseq (r # rs) = rbind r (\<lambda>x. rbind (rseq rs) (\<lambda>xs. Inr (x # xs)))"

definition MAX_DEPTH :: nat where "MAX_DEPTH = 64"

definition non_finite_text :: "js_number \<Rightarrow> string" where
  "non_finite_text x = (case x of Infinity neg \<Rightarrow> (if neg then ''-Infinity'' else ''Infinity'') | _ \<Rightarrow> ''NaN'')"

definition depth_error :: "json res" where
  "depth_error = Inl (Thrown (''canonicalize: recursion depth exceeded '' @ show_nat MAX_DEPTH))"

fun canonicalize :: "json \<Rightarrow> nat \<Rightarrow> json res" where
  "canonicalize (JArr vs) depth =
     (if MAX_DEPTH \<le> depth then depth_error
      else rbind (rseq (map (\<lambda>v. canonicalize v (depth + 1)) vs)) (\<lambda>ws. Inr (JArr ws)))"
| "canonicalize (JObj kvs) depth =
     (if MAX_DEPTH \<le> depth then depth_error
      else rbind (rseq (map (\<lambda>(k, r). rbind r (\<lambda>v. Inr (k, v)))
                     (sort_key fst (map (\<lambda>(k, v). (k, canonicalize v (depth + 1))) kvs))))
             (\<lambda>out. Inr (JObj (js_object out))))"
| "canonicalize (JNum x) depth =
     (if MAX_DEPTH \<le> depth then depth_error
      else if \<not> is_finite_num x then
        Inl (Thrown (''canonicalize: value is not a finite number ('' @ non_finite_text x @ '')''))
      else if x = NegZero then Inr (JNum (Fin 0)) else Inr (JNum x))"
| "canonicalize v depth = (if MAX_DEPTH \<le> depth then depth_error else Inr v)"

definition stringifyCanonical :: "platform \<Rightarrow> json \<Rightarrow> string res" where
  "stringifyCanonical pl v = rbind (canonicalize v 0) (\<lambda>c. Inr (json_stringify pl c))"

text \<open>The bytes of a text in UTF-8: two for a code unit between 128 and 255.\<close>

definition utf8ByteLength :: "string \<Rightarrow> nat" where
  "utf8ByteLength s = sum_list (map (\<lambda>c. if (of_char c :: nat) < 128 then 1 else 2) s)"

fun assertJsonValue :: "string \<Rightarrow> json \<Rightarrow> nat \<Rightarrow> json res" where
  "assertJsonValue what (JArr vs) depth =
     (if MAX_DEPTH \<le> depth then Inl (Thrown (what @ '': recursion depth exceeded '' @ show_nat MAX_DEPTH))
      else rbind (rseq (map (\<lambda>v. assertJsonValue what v (depth + 1)) vs)) (\<lambda>ws. Inr (JArr ws)))"
| "assertJsonValue what (JObj kvs) depth =
     (if MAX_DEPTH \<le> depth then Inl (Thrown (what @ '': recursion depth exceeded '' @ show_nat MAX_DEPTH))
      else rbind (rseq (map (\<lambda>(k, v). rbind (assertJsonValue what v (depth + 1)) (\<lambda>w. Inr (k, w))) kvs))
             (\<lambda>out. Inr (JObj (js_object out))))"
| "assertJsonValue what v depth =
     (if MAX_DEPTH \<le> depth then Inl (Thrown (what @ '': recursion depth exceeded '' @ show_nat MAX_DEPTH))
      else Inr v)"

definition parseJsonValue :: "(string \<Rightarrow> js_number option) \<Rightarrow> string \<Rightarrow> string \<Rightarrow> json res" where
  "parseJsonValue num txt what =
     (case json_parse num txt of
        None \<Rightarrow> Inl (Thrown (what @ '' is not valid JSON ('' @ show_nat (utf8ByteLength txt) @ '' bytes)''))
      | Some v \<Rightarrow> assertJsonValue what v 0)"

section \<open>Sequences of results\<close>

lemma rseq_Inr: "rseq rs = Inr xs \<longleftrightarrow> rs = map Inr xs"
  by (induction rs arbitrary: xs) (auto simp: rbind_eq_Inr Cons_eq_map_conv)

lemma rseq_map_Inr [simp]: "rseq (map Inr xs) = Inr xs"
  by (simp add: rseq_Inr)

lemma rseq_map: "rseq (map f xs) = Inr ys \<longleftrightarrow> list_all2 (\<lambda>x y. f x = Inr y) xs ys"
proof (induction xs arbitrary: ys)
  case (Cons x xs)
  then show ?case by (auto simp: rbind_eq_Inr list_all2_Cons1)
qed auto

section \<open>Canonicalising is idempotent and its text is read back\<close>

lemma mset_js_object: "distinct (map fst kvs) \<Longrightarrow> mset (js_object kvs) = mset kvs"
  by (simp add: js_object_def Let_def js_map_of_distinct multiset_partition [symmetric])

lemma set_js_object: "distinct (map fst kvs) \<Longrightarrow> set (js_object kvs) = set kvs"
  by (metis mset_js_object set_mset_mset)

lemma sort_js_object:
  assumes "distinct (map fst kvs)" "sorted (map fst kvs)"
  shows "sort_key fst (js_object kvs) = kvs"
  using assms by (intro sort_key_inj_key_eq) (simp_all add: mset_js_object set_js_object distinct_map)

text \<open>The members of a canonicalised object, in the order of their keys.\<close>

definition keyed_res :: "string \<times> 'v res \<Rightarrow> (string \<times> 'v) res" where
  "keyed_res p = (case p of (k, r) \<Rightarrow> rbind r (\<lambda>v. Inr (k, v)))"

lemma keyed_res_Inr: "keyed_res p = Inr q \<longleftrightarrow> fst p = fst q \<and> snd p = Inr (snd q)"
  by (cases p; cases q) (auto simp: keyed_res_def rbind_eq_Inr)

lemma list_all2_keyed:
  "list_all2 (\<lambda>x y. keyed_res x = Inr y) xs ys \<longleftrightarrow> xs = map (\<lambda>q. (fst q, Inr (snd q))) ys"
  by (induction ys arbitrary: xs) (auto simp: list_all2_Cons2 keyed_res_Inr prod_eq_iff)

lemma canonicalize_obj:
  assumes "canonicalize (JObj kvs) d = Inr c" "distinct (map fst kvs)"
  obtains out where "c = JObj (js_object out)" "distinct (map fst out)" "sorted (map fst out)"
    "\<And>k w. (k, w) \<in> set out \<Longrightarrow> \<exists>v. (k, v) \<in> set kvs \<and> canonicalize v (d + 1) = Inr w"
    "d < MAX_DEPTH"
proof -
  let ?m = "map (\<lambda>(k, v). (k, canonicalize v (d + 1))) kvs"
  from assms(1) obtain out where
    out: "sort_key fst ?m = map (\<lambda>q. (fst q, Inr (snd q))) out"
    and c: "c = JObj (js_object out)" "d < MAX_DEPTH"
    by (auto simp: rbind_eq_Inr rseq_map depth_error_def keyed_res_def [symmetric, abs_def]
        list_all2_keyed split: if_splits)
  have keys: "map fst (sort_key fst ?m) = map fst out" unfolding out by (simp add: comp_def)
  have fst_m: "map fst ?m = map fst kvs" by (simp add: case_prod_unfold comp_def)
  have "distinct (map fst ?m)" using assms(2) unfolding fst_m .
  then have "sorted_wrt (<) (map fst (sort_key fst ?m))" by (rule sorted_keys_distinct)
  then have 1: "distinct (map fst out)" "sorted (map fst out)"
    unfolding keys by (simp_all add: strict_sorted_iff)
  have "\<exists>v. (k, v) \<in> set kvs \<and> canonicalize v (d + 1) = Inr w" if "(k, w) \<in> set out" for k w
  proof -
    from that have "(k, Inr w :: json res) \<in> set (map (\<lambda>q. (fst q, Inr (snd q))) out)" by force
    then have "(k, Inr w) \<in> set ?m" by (simp only: out [symmetric] set_sort)
    then show ?thesis by auto
  qed
  with c 1 that show ?thesis by blast
qed

lemma canonicalize_arr:
  assumes "canonicalize (JArr vs) d = Inr c"
  obtains ws where "c = JArr ws" "list_all2 (\<lambda>v w. canonicalize v (d + 1) = Inr w) vs ws" "d < MAX_DEPTH"
  using assms by (auto simp: rbind_eq_Inr rseq_map depth_error_def split: if_splits)

lemma list_all2_source: "list_all2 P vs ws \<Longrightarrow> w \<in> set ws \<Longrightarrow> \<exists>v \<in> set vs. P v w"
  by (induction vs ws rule: list_all2_induct) auto

lemma wf_json_distinct: "wf_json (JObj kvs) \<Longrightarrow> distinct (map fst kvs)"
  by (metis distinct_js_object wf_json.simps(3))

lemma map_sort_key_fst:
  "sort_key fst (map (\<lambda>p. (fst p, f (snd p))) xs) = map (\<lambda>p. (fst p, f (snd p))) (sort_key fst xs)"
proof -
  have "insort_key fst (fst x, f (snd x)) (map (\<lambda>p. (fst p, f (snd p))) ys) =
      map (\<lambda>p. (fst p, f (snd p))) (insort_key fst x ys)" for x ys
    by (induction ys) auto
  note ins = this
  show ?thesis
  proof (induction xs)
    case (Cons x xs)
    then show ?case using ins [of x "sort_key fst xs"] by simp
  qed simp
qed

lemma double_zero: "double_value (Fin 0)"
  by code_simp

lemma canonical_plain: "wf_json v \<Longrightarrow> canonicalize v d = Inr c \<Longrightarrow> plain_json c"
proof (induction v arbitrary: d c)
  case (JNum x)
  then show ?case
    by (cases x) (auto simp: depth_error_def is_finite_num_def double_zero split: if_splits)
next
  case (JArr vs)
  from JArr.prems(2) obtain ws where "c = JArr ws" "list_all2 (\<lambda>v w. canonicalize v (d + 1) = Inr w) vs ws"
    by (rule canonicalize_arr)
  with JArr.IH JArr.prems(1) show ?case
    by (auto dest!: list_all2_source)
next
  case (JObj kvs)
  obtain out where out: "c = JObj (js_object out)" "distinct (map fst out)"
    "\<And>k w. (k, w) \<in> set out \<Longrightarrow> \<exists>v. (k, v) \<in> set kvs \<and> canonicalize v (d + 1) = Inr w"
    using canonicalize_obj [OF JObj.prems(2) wf_json_distinct [OF JObj.prems(1)]] by blast
  have "plain_json (snd p)" if "p \<in> set out" for p
  proof -
    from that out(3) obtain v where v: "(fst p, v) \<in> set kvs" "canonicalize v (d + 1) = Inr (snd p)"
      by (metis prod.collapse)
    with JObj.prems(1) have "wf_json v" by auto
    with JObj.IH v show ?thesis by (metis snds.intros snd_conv)
  qed
  with out show ?case by (simp add: js_object_idem set_js_object)
qed (auto simp: depth_error_def split: if_splits)

lemma canonical_idem: "wf_json v \<Longrightarrow> canonicalize v d = Inr c \<Longrightarrow> canonicalize c d = Inr c"
proof (induction v arbitrary: d c)
  case (JNum x)
  then show ?case by (cases x) (auto simp: depth_error_def is_finite_num_def split: if_splits)
next
  case (JArr vs)
  from JArr.prems(2) obtain ws where c: "c = JArr ws" "list_all2 (\<lambda>v w. canonicalize v (d + 1) = Inr w) vs ws" "d < MAX_DEPTH"
    by (rule canonicalize_arr)
  have eq: "map (\<lambda>v. canonicalize v (d + 1)) ws = map Inr ws"
    using JArr list_all2_source [OF c(2)] by fastforce
  show ?case unfolding c(1) canonicalize.simps eq using c(3) by simp
next
  case (JObj kvs)
  obtain out where out: "c = JObj (js_object out)" "distinct (map fst out)" "sorted (map fst out)"
    "\<And>k w. (k, w) \<in> set out \<Longrightarrow> \<exists>v. (k, v) \<in> set kvs \<and> canonicalize v (d + 1) = Inr w" "d < MAX_DEPTH"
    using canonicalize_obj [OF JObj.prems(2) wf_json_distinct [OF JObj.prems(1)]] by blast
  have fixed: "canonicalize (snd p) (d + 1) = Inr (snd p)" if "p \<in> set out" for p
  proof -
    from that out(4) obtain v where v: "(fst p, v) \<in> set kvs" "canonicalize v (d + 1) = Inr (snd p)"
      by (metis prod.collapse)
    with JObj.prems(1) have "wf_json v" by auto
    with JObj.IH v show ?thesis by (metis snds.intros snd_conv)
  qed
  let ?f = "\<lambda>(k, v). (k, canonicalize v (d + 1))"
  have "map ?f (js_object out) = map (\<lambda>p. (fst p, Inr (snd p))) (js_object out)"
    using fixed by (auto simp: set_js_object [OF out(2)])
  moreover have "sort_key fst (map (\<lambda>p. (fst p, Inr (snd p) :: json res)) (js_object out)) =
      map (\<lambda>p. (fst p, Inr (snd p))) (sort_key fst (js_object out))"
    by (simp add: map_sort_key_fst)
  ultimately have "sort_key fst (map ?f (js_object out)) = map (\<lambda>p. (fst p, Inr (snd p))) out"
    using sort_js_object [OF out(2,3)] by (simp only:)
  then have eq: "map keyed_res (sort_key fst (map ?f (js_object out))) = map Inr out"
    by (simp add: comp_def keyed_res_def)
  show ?case
    unfolding out(1) canonicalize.simps keyed_res_def [symmetric, abs_def] eq using out(5) by simp
qed (auto simp: depth_error_def split: if_splits)

lemma canonical_asserted: "wf_json v \<Longrightarrow> canonicalize v d = Inr c \<Longrightarrow> assertJsonValue what c d = Inr c"
proof (induction v arbitrary: d c)
  case (JNum x)
  then show ?case by (cases x) (auto simp: depth_error_def is_finite_num_def split: if_splits)
next
  case (JArr vs)
  from JArr.prems(2) obtain ws where c: "c = JArr ws" "list_all2 (\<lambda>v w. canonicalize v (d + 1) = Inr w) vs ws" "d < MAX_DEPTH"
    by (rule canonicalize_arr)
  have eq: "map (\<lambda>v. assertJsonValue what v (d + 1)) ws = map Inr ws"
    using JArr list_all2_source [OF c(2)] by fastforce
  show ?case unfolding c(1) assertJsonValue.simps eq using c(3) by simp
next
  case (JObj kvs)
  obtain out where out: "c = JObj (js_object out)" "distinct (map fst out)"
    "\<And>k w. (k, w) \<in> set out \<Longrightarrow> \<exists>v. (k, v) \<in> set kvs \<and> canonicalize v (d + 1) = Inr w" "d < MAX_DEPTH"
    using canonicalize_obj [OF JObj.prems(2) wf_json_distinct [OF JObj.prems(1)]] by blast
  have fixed: "assertJsonValue what (snd p) (d + 1) = Inr (snd p)" if "p \<in> set out" for p
  proof -
    from that out(3) obtain v where v: "(fst p, v) \<in> set kvs" "canonicalize v (d + 1) = Inr (snd p)"
      by (metis prod.collapse)
    with JObj.prems(1) have "wf_json v" by auto
    with JObj.IH v show ?thesis by (metis snds.intros snd_conv)
  qed
  have eq: "map (\<lambda>(k, v). rbind (assertJsonValue what v (d + 1)) (\<lambda>w. Inr (k, w))) (js_object out) =
      map Inr (js_object out)"
    using fixed by (auto simp: set_js_object [OF out(2)])
  show ?case unfolding out(1) assertJsonValue.simps eq using out(4) by (simp add: js_object_idem)
qed (auto simp: depth_error_def split: if_splits)

text \<open>What the store keeps of a payload: its canonical value, through its text.\<close>

lemma stored_text_read:
  assumes "numbers_read_back pl num" "wf_json v" "stringifyCanonical pl v = Inr txt"
  obtains c where "canonicalize v 0 = Inr c" "parseJsonValue num txt what = Inr c"
    "canonicalize c 0 = Inr c" "stringifyCanonical pl c = Inr txt"
proof -
  from assms(3) obtain c where c: "canonicalize v 0 = Inr c" and t: "txt = json_stringify pl c"
    by (auto simp: stringifyCanonical_def rbind_eq_Inr)
  have idem: "canonicalize c 0 = Inr c" using canonical_idem [OF assms(2) c] .
  have "json_parse num txt = Some c"
    unfolding t using json_parse_stringify [OF assms(1) canonical_plain [OF assms(2) c]] .
  then have "parseJsonValue num txt what = Inr c"
    using canonical_asserted [OF assms(2) c] by (simp add: parseJsonValue_def)
  with c idem t that show ?thesis by (simp add: stringifyCanonical_def)
qed

end
