(* ===== verification/Projection.thy ===== *)
theory Projection
  imports State_Json
begin

text \<open>
  The projection of the durable state store: the rows of its seven tables and the in-memory value
  the reducer folds (\<open>packages/state/src/projection/state.ts\<close>), journal events
  (\<open>journal/event.ts\<close>), and the pure reducer with the scope of an event
  (\<open>projection/reducer.ts\<close>), one function per case of its switch.

  The tables are plain objects keyed by identifier; identifiers that name a property of
  \<open>Object.prototype\<close> are outside the model. A \<open>ReducerError\<close> is \<^const>\<open>Thrown\<close> with its message.
  Revisions, sequences and sizes are integers; \<open>pl\<close> renders the numbers of a payload.
\<close>

section \<open>Rows and the projection\<close>

record run_state =
  rn_runId :: string
  rn_status :: string
  rn_revision :: int
  rn_lastEventSequence :: int
  rn_workspaceId :: "string option"
  rn_codebaseId :: string
  rn_updatedAt :: string
  rn_instructionSnapshotSha256 :: "string option"
  rn_instructionSnapshotJson :: "string option"
  rn_capabilityLandingJson :: "string option"

record codebase_state =
  cb_codebaseId :: string
  cb_revision :: int
  cb_lastEventSequence :: int
  cb_updatedAt :: string
  cb_name :: "string option"
  cb_rootPath :: "string option"
  cb_topologySha256 :: "string option"
  cb_configurationSha256 :: "string option"
  cb_registrationJson :: "string option"
  cb_instructionSnapshotJson :: "string option"

record repository_state =
  ry_repositoryId :: string
  ry_codebaseId :: string
  ry_revision :: int
  ry_lastEventSequence :: int
  ry_updatedAt :: string
  ry_name :: "string option"
  ry_repositoryPath :: "string option"
  ry_gitCommonDirectory :: "string option"
  ry_remotesJson :: "string option"
  ry_defaultRemote :: "string option"
  ry_defaultBranch :: "string option"

record workspace_state =
  wk_workspaceId :: string
  wk_codebaseId :: string
  wk_repositoryId :: "string option"
  wk_lifecycleStatus :: "string option"
  wk_checkoutPath :: "string option"
  wk_configurationSha256 :: "string option"
  wk_manifestJson :: "string option"
  wk_revision :: int
  wk_lastEventSequence :: int
  wk_updatedAt :: string

record lease_state =
  ls_checkoutPath :: string
  ls_workspaceId :: string
  ls_repositoryId :: string
  ls_leaseId :: string
  ls_ownerId :: string
  ls_bootWitness :: "string option"
  ls_processWitnessesJson :: string
  ls_expectedSha :: string
  ls_fencingRevision :: int
  ls_leaseState :: string
  ls_acquiredAt :: string
  ls_renewedAt :: string
  ls_expiresAt :: string
  ls_releasedAt :: "string option"
  ls_revision :: int
  ls_lastEventSequence :: int
  ls_updatedAt :: string

record artifact_state =
  af_artifactId :: string
  af_runId :: string
  af_stageId :: string
  af_name :: string
  af_contentHash :: string
  af_byteLength :: int
  af_mediaType :: string
  af_contentSchemaId :: string
  af_producer :: string
  af_sourceLineage :: "string list"
  af_relativePath :: string
  af_createdAt :: string
  af_revision :: int
  af_lastEventSequence :: int

record alias_state =
  al_runId :: string
  al_stageId :: string
  al_name :: string
  al_artifactId :: string
  al_revision :: int
  al_lastEventSequence :: int
  al_updatedAt :: string

definition stageArtifactAliasKey :: "string \<Rightarrow> string \<Rightarrow> string \<Rightarrow> string" where
  "stageArtifactAliasKey runId stageId name = runId @ [CHR 0x00] @ stageId @ [CHR 0x00] @ name"

record projection =
  pj_runs :: "(string, run_state) jsmap"
  pj_codebases :: "(string, codebase_state) jsmap"
  pj_repositories :: "(string, repository_state) jsmap"
  pj_workspaces :: "(string, workspace_state) jsmap"
  pj_workspaceLeases :: "(string, lease_state) jsmap"
  pj_artifacts :: "(string, artifact_state) jsmap"
  pj_aliases :: "(string, alias_state) jsmap"

definition EMPTY_PROJECTION_STATE :: projection where
  "EMPTY_PROJECTION_STATE =
     \<lparr>pj_runs = [], pj_codebases = [], pj_repositories = [], pj_workspaces = [],
      pj_workspaceLeases = [], pj_artifacts = [], pj_aliases = []\<rparr>"

record state_event =
  se_sequence :: int
  se_eventId :: string
  se_runId :: "string option"
  se_correlationId :: string
  se_causationEventId :: "string option"
  se_type :: string
  se_recordedAt :: string
  se_payload :: json

type_synonym members = "(string \<times> json) list"

section \<open>Narrowing a payload\<close>

definition reducer_error :: "state_event \<Rightarrow> string \<Rightarrow> 'a res" where
  "reducer_error e reason =
     Inl (Thrown (''reducer error for event '' @ se_eventId e @ '' (type '' @ [CHR 0x22] @ se_type e
       @ [CHR 0x22] @ ''): '' @ reason))"

definition payloadObject :: "state_event \<Rightarrow> members res" where
  "payloadObject e =
     (case se_payload e of JObj kvs \<Rightarrow> Inr kvs | _ \<Rightarrow> reducer_error e ''payload must be a JSON object'')"

definition requireString :: "state_event \<Rightarrow> members \<Rightarrow> string \<Rightarrow> string res" where
  "requireString e payload field =
     (case map_of payload field of
        Some (JStr s) \<Rightarrow>
          if s = [] then reducer_error e (''payload.'' @ field @ '' must be a non-empty string'') else Inr s
      | _ \<Rightarrow> reducer_error e (''payload.'' @ field @ '' must be a non-empty string''))"

definition nullableString :: "json option \<Rightarrow> string option" where
  "nullableString v = (case v of Some (JStr s) \<Rightarrow> Some s | _ \<Rightarrow> None)"

record registration_repository =
  rr_repositoryId :: string
  rr_name :: string
  rr_path :: string
  rr_gitCommonDirectory :: string
  rr_remotesJson :: string
  rr_defaultRemote :: "string option"
  rr_defaultBranch :: "string option"

record registration =
  rg_codebaseId :: string
  rg_name :: string
  rg_rootPath :: string
  rg_topologySha256 :: string
  rg_configurationSha256 :: string
  rg_instructionSnapshotJson :: string
  rg_registrationJson :: string
  rg_repositories :: "registration_repository list"

definition registration_repository_of :: "platform \<Rightarrow> state_event \<Rightarrow> json \<Rightarrow> registration_repository res" where
  "registration_repository_of pl e repository =
     (case repository of
        JObj r \<Rightarrow>
          (case map_of r ''remotes'' of
             Some (JArr remotes) \<Rightarrow>
               (case (map_of r ''repositoryId'', map_of r ''name'', map_of r ''path'', map_of r ''gitCommonDirectory'') of
                  (Some (JStr repositoryId), Some (JStr name), Some (JStr path), Some (JStr gitCommonDirectory)) \<Rightarrow>
                    Inr \<lparr>rr_repositoryId = repositoryId, rr_name = name, rr_path = path,
                         rr_gitCommonDirectory = gitCommonDirectory,
                         rr_remotesJson = json_stringify pl (JArr remotes),
                         rr_defaultRemote = nullableString (map_of r ''defaultRemote''),
                         rr_defaultBranch = nullableString (map_of r ''defaultBranch'')\<rparr>
                | _ \<Rightarrow> reducer_error e ''registration repository identity is invalid'')
           | _ \<Rightarrow> reducer_error e ''registration repository must be an object'')
      | _ \<Rightarrow> reducer_error e ''registration repository must be an object'')"

definition requireRegistration :: "platform \<Rightarrow> state_event \<Rightarrow> members \<Rightarrow> registration res" where
  "requireRegistration pl e payload =
     (case map_of payload ''registration'' of
        Some (JObj v) \<Rightarrow>
          (case (map_of v ''repositories'', map_of v ''instructionSnapshot'') of
             (Some (JArr repos), Some (JObj snapshot)) \<Rightarrow>
               rbind (rseq (map (registration_repository_of pl e) repos)) (\<lambda>repositories.
                 case (map_of v ''codebaseId'', map_of v ''name'', map_of v ''rootPath'',
                       map_of v ''topologySha256'', map_of v ''configurationSha256'') of
                   (Some (JStr codebaseId), Some (JStr name), Some (JStr rootPath),
                    Some (JStr topologySha256), Some (JStr configurationSha256)) \<Rightarrow>
                     Inr \<lparr>rg_codebaseId = codebaseId, rg_name = name, rg_rootPath = rootPath,
                          rg_topologySha256 = topologySha256, rg_configurationSha256 = configurationSha256,
                          rg_instructionSnapshotJson = json_stringify pl (JObj snapshot),
                          rg_registrationJson = json_stringify pl (JObj v),
                          rg_repositories = repositories\<rparr>
                 | _ \<Rightarrow> reducer_error e ''registration identity is invalid'')
           | _ \<Rightarrow> reducer_error e ''registration must be a complete object'')
      | _ \<Rightarrow> reducer_error e ''registration must be a complete object'')"

definition requireInstructionSnapshot :: "platform \<Rightarrow> state_event \<Rightarrow> members \<Rightarrow> (string \<times> string) res" where
  "requireInstructionSnapshot pl e payload =
     (case map_of payload ''instructionSnapshot'' of
        Some (JObj v) \<Rightarrow>
          (case map_of v ''snapshotSha256'' of
             Some (JStr sha) \<Rightarrow> Inr (sha, json_stringify pl (JObj v))
           | _ \<Rightarrow> reducer_error e ''instructionSnapshot must be a versioned snapshot'')
      | _ \<Rightarrow> reducer_error e ''instructionSnapshot must be a versioned snapshot'')"

definition requireCapabilityLanding :: "platform \<Rightarrow> state_event \<Rightarrow> members \<Rightarrow> string res" where
  "requireCapabilityLanding pl e payload =
     (case map_of payload ''landing'' of
        Some (JObj v) \<Rightarrow> Inr (json_stringify pl (JObj v))
      | _ \<Rightarrow> reducer_error e ''payload.landing must be a JSON object'')"

definition optionalWorkspaceId :: "state_event \<Rightarrow> members \<Rightarrow> string option res" where
  "optionalWorkspaceId e payload =
     (let bad = reducer_error e ''payload.workspaceId must be a non-empty string, null, or omitted''
      in case map_of payload ''workspaceId'' of
           None \<Rightarrow> Inr None
         | Some JNull \<Rightarrow> Inr None
         | Some (JStr s) \<Rightarrow> (if s = [] then bad else Inr (Some s))
         | _ \<Rightarrow> bad)"

definition requireNoNul :: "state_event \<Rightarrow> string \<Rightarrow> string \<Rightarrow> string res" where
  "requireNoNul e field value =
     (if CHR 0x00 \<in> set value then
        reducer_error e (''payload.'' @ field @ '' must not contain a NUL character'')
      else Inr value)"

definition requireRunId :: "state_event \<Rightarrow> members \<Rightarrow> string res" where
  "requireRunId e payload =
     rbind (rbind (requireString e payload ''runId'') (requireNoNul e ''runId'')) (\<lambda>runId.
       if se_runId e \<noteq> Some runId then
         reducer_error e ''payload.runId does not match the event's run_id''
       else Inr runId)"

definition requireStageId :: "state_event \<Rightarrow> members \<Rightarrow> string res" where
  "requireStageId e payload = rbind (requireString e payload ''stageId'') (requireNoNul e ''stageId'')"

definition requireName :: "state_event \<Rightarrow> members \<Rightarrow> string res" where
  "requireName e payload = rbind (requireString e payload ''name'') (requireNoNul e ''name'')"

definition content_hash :: "string \<Rightarrow> bool" where
  "content_hash s \<longleftrightarrow> length s = 64 \<and> (\<forall>c \<in> set s. is_digit c \<or> (CHR ''a'' \<le> c \<and> c \<le> CHR ''f''))"

definition requireContentHash :: "state_event \<Rightarrow> members \<Rightarrow> string \<Rightarrow> string res" where
  "requireContentHash e payload field =
     rbind (requireString e payload field) (\<lambda>value.
       if content_hash value then Inr value
       else reducer_error e (''payload.'' @ field @ '' must be exactly 64 lowercase hex characters''))"

definition run_statuses :: "string list" where
  "run_statuses =
     [''queued'', ''running'', ''waiting_on_user'', ''waiting_for_parent_session'', ''recovery_required'',
      ''succeeded'', ''failed'', ''cancelled'']"

definition isRunStatus :: "string \<Rightarrow> bool" where
  "isRunStatus candidate \<longleftrightarrow> candidate \<in> set run_statuses"

text \<open>A number of the payload that is an integer and not negative; \<open>-0\<close> is zero.\<close>

definition non_negative_integer :: "json option \<Rightarrow> int option" where
  "non_negative_integer v =
     (case v of
        Some (JNum NegZero) \<Rightarrow> Some 0
      | Some (JNum (Fin q)) \<Rightarrow> (if snd (quotient_of q) = 1 \<and> 0 \<le> q then Some \<lfloor>q\<rfloor> else None)
      | _ \<Rightarrow> None)"

definition requireNonNegativeInteger :: "state_event \<Rightarrow> members \<Rightarrow> string \<Rightarrow> int res" where
  "requireNonNegativeInteger e payload field =
     (case non_negative_integer (map_of payload field) of
        Some n \<Rightarrow> Inr n
      | None \<Rightarrow> reducer_error e (''payload.'' @ field @ '' must be a non-negative integer''))"

fun strings_of :: "json list \<Rightarrow> string list option" where
  "strings_of [] = Some []"
| "strings_of (JStr s # vs) = map_option (Cons s) (strings_of vs)"
| "strings_of (v # vs) = None"

definition requireStringArray :: "state_event \<Rightarrow> members \<Rightarrow> string \<Rightarrow> string list res" where
  "requireStringArray e payload field =
     (let bad = reducer_error e (''payload.'' @ field @ '' must be an array of strings'')
      in case map_of payload field of
           Some (JArr vs) \<Rightarrow> (case strings_of vs of Some ss \<Rightarrow> Inr ss | None \<Rightarrow> bad)
         | _ \<Rightarrow> bad)"

definition MAX_SOURCE_LINEAGE_ITEMS :: nat where "MAX_SOURCE_LINEAGE_ITEMS = 64"

definition requireSourceLineage :: "state_event \<Rightarrow> members \<Rightarrow> string \<Rightarrow> string list res" where
  "requireSourceLineage e payload field =
     rbind (requireStringArray e payload field) (\<lambda>values.
       if MAX_SOURCE_LINEAGE_ITEMS < length values then
         reducer_error e (''payload.'' @ field @ '' must not exceed '' @ show_nat MAX_SOURCE_LINEAGE_ITEMS
           @ '' entries (got '' @ show_nat (length values) @ '')'')
       else if \<not> distinct values then
         reducer_error e (''payload.'' @ field @ '' must not contain duplicate entries'')
       else Inr values)"

record artifact_ref_payload =
  ap_artifactId :: string
  ap_name :: string
  ap_contentHash :: string
  ap_byteLength :: int
  ap_mediaType :: string
  ap_contentSchemaId :: string
  ap_producer :: string
  ap_sourceLineage :: "string list"
  ap_path :: string

definition toArtifactRefPayload :: "state_event \<Rightarrow> json \<Rightarrow> nat \<Rightarrow> artifact_ref_payload res" where
  "toArtifactRefPayload e v index =
     (case v of
        JObj value \<Rightarrow>
          rbind (requireString e value ''artifactId'') (\<lambda>artifactId.
          rbind (requireName e value) (\<lambda>name.
          rbind (requireContentHash e value ''contentHash'') (\<lambda>contentHash.
          rbind (requireNonNegativeInteger e value ''byteLength'') (\<lambda>byteLength.
          rbind (requireString e value ''mediaType'') (\<lambda>mediaType.
          rbind (requireString e value ''contentSchemaId'') (\<lambda>contentSchemaId.
          rbind (requireString e value ''producer'') (\<lambda>producer.
          rbind (requireSourceLineage e value ''sourceLineage'') (\<lambda>sourceLineage.
          rbind (requireString e value ''path'') (\<lambda>path.
            Inr \<lparr>ap_artifactId = artifactId, ap_name = name, ap_contentHash = contentHash,
                 ap_byteLength = byteLength, ap_mediaType = mediaType,
                 ap_contentSchemaId = contentSchemaId, ap_producer = producer,
                 ap_sourceLineage = sourceLineage, ap_path = path\<rparr>)))))))))
      | _ \<Rightarrow> reducer_error e (''payload.artifacts['' @ show_nat index @ ''] must be a JSON object''))"

definition artifactMismatchField :: "artifact_state \<Rightarrow> string \<Rightarrow> string \<Rightarrow> artifact_ref_payload \<Rightarrow> string option" where
  "artifactMismatchField existing runId stageId ref =
     (if af_runId existing \<noteq> runId then Some ''runId''
      else if af_stageId existing \<noteq> stageId then Some ''stageId''
      else if af_name existing \<noteq> ap_name ref then Some ''name''
      else if af_contentHash existing \<noteq> ap_contentHash ref then Some ''contentHash''
      else if af_byteLength existing \<noteq> ap_byteLength ref then Some ''byteLength''
      else if af_mediaType existing \<noteq> ap_mediaType ref then Some ''mediaType''
      else if af_contentSchemaId existing \<noteq> ap_contentSchemaId ref then Some ''contentSchemaId''
      else if af_producer existing \<noteq> ap_producer ref then Some ''producer''
      else if af_sourceLineage existing \<noteq> ap_sourceLineage ref then Some ''sourceLineage''
      else if af_relativePath existing \<noteq> ap_path ref then Some ''relativePath''
      else None)"

definition requireArtifactRefs :: "state_event \<Rightarrow> members \<Rightarrow> string \<Rightarrow> artifact_ref_payload list res" where
  "requireArtifactRefs e payload field =
     (case map_of payload field of
        Some (JArr vs) \<Rightarrow>
          rseq (map (\<lambda>(index, entry). toArtifactRefPayload e entry index) (zip [0..<length vs] vs))
      | _ \<Rightarrow> reducer_error e (''payload.'' @ field @ '' must be an array''))"

end
