(* ===== verification/Reducer.thy ===== *)
theory Reducer
  imports Projection
begin

text \<open>
  The reducer of the durable state store (\<open>packages/state/src/projection/reducer.ts\<close>):
  \<open>eventScope\<close>, the rows an event may read or write, and \<open>applyEvent\<close>, one function per case of its
  switch. Event types that share a case share a constructor of \<open>event_case\<close>.
\<close>

section \<open>Event types\<close>

datatype event_case =
    Run_Created | Run_Status_Changed | Run_Touched | Run_Workspace_Assigned
  | Run_Instructions_Snapshotted | Run_Capability_Landed | Registration_Committed
  | Codebase_Registered | Repository_Registered | Workspace_Registered | Provisioning_Recorded
  | Lease_Changed | Artifact_Published | Stage_Completed

definition case_labels :: "(string \<times> event_case) list" where
  "case_labels =
     [(''run.created'', Run_Created),
      (''run.status_changed'', Run_Status_Changed),
      (''interaction.created'', Run_Touched),
      (''interaction.answer_accepted'', Run_Touched),
      (''interaction.cancelled'', Run_Touched),
      (''interaction.answer_delivered'', Run_Touched),
      (''run.resume_requested'', Run_Touched),
      (''run.resume_delivered'', Run_Touched),
      (''native_question.raised'', Run_Touched),
      (''native_question.answered'', Run_Touched),
      (''native_question.cancelled'', Run_Touched),
      (''native_question.delivered'', Run_Touched),
      (''run.workspace_assigned'', Run_Workspace_Assigned),
      (''run.instructions_snapshotted'', Run_Instructions_Snapshotted),
      (''run.capability_degraded'', Run_Capability_Landed),
      (''run.capability_blocked'', Run_Capability_Landed),
      (''codebase.registration_committed'', Registration_Committed),
      (''codebase.registered'', Codebase_Registered),
      (''repository.registered'', Repository_Registered),
      (''workspace.registered'', Workspace_Registered),
      (''workspace.provisioning_recorded'', Provisioning_Recorded),
      (''workspace.lease_acquired'', Lease_Changed),
      (''workspace.lease_recovered'', Lease_Changed),
      (''workspace.lease_renewed'', Lease_Changed),
      (''workspace.lease_expected_sha_advanced'', Lease_Changed),
      (''workspace.lease_released'', Lease_Changed),
      (''workspace.lease_recovery_required'', Lease_Changed),
      (''artifact.published'', Artifact_Published),
      (''stage.completed'', Stage_Completed)]"

definition RUN_SCOPED_TYPES :: "string list" where
  "RUN_SCOPED_TYPES =
     [''run.created'', ''run.status_changed'', ''run.workspace_assigned'', ''run.resume_requested'',
      ''run.resume_delivered'', ''interaction.created'', ''interaction.answer_accepted'',
      ''interaction.cancelled'', ''interaction.answer_delivered'', ''native_question.raised'',
      ''native_question.answered'', ''native_question.cancelled'', ''native_question.delivered'',
      ''run.capability_degraded'', ''run.capability_blocked'']"

definition STAGE_SCOPED_TYPES :: "string list" where
  "STAGE_SCOPED_TYPES = [''artifact.published'', ''stage.completed'']"

section \<open>The scope of an event\<close>

record projection_scope =
  sc_runs :: "string list"
  sc_codebases :: "string list"
  sc_repositories :: "string list"
  sc_workspaces :: "string list"
  sc_workspaceLeases :: "string list"
  sc_artifacts :: "string list"
  sc_aliases :: "(string \<times> string \<times> string) list"

definition empty_scope :: projection_scope where
  "empty_scope =
     \<lparr>sc_runs = [], sc_codebases = [], sc_repositories = [], sc_workspaces = [],
      sc_workspaceLeases = [], sc_artifacts = [], sc_aliases = []\<rparr>"

definition scope_of_case :: "platform \<Rightarrow> event_case \<Rightarrow> state_event \<Rightarrow> members \<Rightarrow> projection_scope res" where
  "scope_of_case pl c e payload =
     (case c of
        Run_Created \<Rightarrow>
          rbind (optionalWorkspaceId e payload) (\<lambda>workspaceId.
          rbind (requireRunId e payload) (\<lambda>runId.
          rbind (requireString e payload ''codebaseId'') (\<lambda>codebaseId.
            Inr (empty_scope\<lparr>sc_runs := [runId], sc_codebases := [codebaseId],
                             sc_workspaces := (case workspaceId of None \<Rightarrow> [] | Some w \<Rightarrow> [w])\<rparr>))))
      | Run_Workspace_Assigned \<Rightarrow>
          rbind (requireRunId e payload) (\<lambda>runId.
          rbind (requireString e payload ''workspaceId'') (\<lambda>workspaceId.
            Inr (empty_scope\<lparr>sc_runs := [runId], sc_workspaces := [workspaceId]\<rparr>)))
      | Registration_Committed \<Rightarrow>
          rbind (requireRegistration pl e payload) (\<lambda>registration.
            Inr (empty_scope\<lparr>sc_codebases := [rg_codebaseId registration],
                             sc_repositories := map rr_repositoryId (rg_repositories registration)\<rparr>))
      | Codebase_Registered \<Rightarrow>
          rbind (requireString e payload ''codebaseId'') (\<lambda>codebaseId.
            Inr (empty_scope\<lparr>sc_codebases := [codebaseId]\<rparr>))
      | Repository_Registered \<Rightarrow>
          rbind (requireString e payload ''codebaseId'') (\<lambda>codebaseId.
          rbind (requireString e payload ''repositoryId'') (\<lambda>repositoryId.
            Inr (empty_scope\<lparr>sc_codebases := [codebaseId], sc_repositories := [repositoryId]\<rparr>)))
      | Workspace_Registered \<Rightarrow>
          rbind (requireString e payload ''codebaseId'') (\<lambda>codebaseId.
          rbind (requireString e payload ''workspaceId'') (\<lambda>workspaceId.
            Inr (empty_scope\<lparr>sc_codebases := [codebaseId], sc_workspaces := [workspaceId]\<rparr>)))
      | Provisioning_Recorded \<Rightarrow>
          rbind (requireString e payload ''codebaseId'') (\<lambda>codebaseId.
          rbind (requireString e payload ''repositoryId'') (\<lambda>repositoryId.
          rbind (requireString e payload ''workspaceId'') (\<lambda>workspaceId.
            Inr (empty_scope\<lparr>sc_codebases := [codebaseId], sc_repositories := [repositoryId],
                             sc_workspaces := [workspaceId]\<rparr>))))
      | Lease_Changed \<Rightarrow>
          rbind (requireString e payload ''checkoutPath'') (\<lambda>checkoutPath.
          rbind (requireString e payload ''repositoryId'') (\<lambda>repositoryId.
          rbind (requireString e payload ''workspaceId'') (\<lambda>workspaceId.
            Inr (empty_scope\<lparr>sc_repositories := [repositoryId], sc_workspaces := [workspaceId],
                             sc_workspaceLeases := [checkoutPath]\<rparr>))))
      | Artifact_Published \<Rightarrow>
          rbind (requireRunId e payload) (\<lambda>runId.
          rbind (requireStageId e payload) (\<lambda>stageId.
          rbind (requireString e payload ''artifactId'') (\<lambda>artifactId.
            Inr (empty_scope\<lparr>sc_runs := [runId], sc_artifacts := [artifactId]\<rparr>))))
      | Stage_Completed \<Rightarrow>
          rbind (requireRunId e payload) (\<lambda>runId.
          rbind (requireStageId e payload) (\<lambda>stageId.
          rbind (requireArtifactRefs e payload ''artifacts'') (\<lambda>refs.
            Inr (empty_scope\<lparr>sc_runs := [runId], sc_artifacts := map ap_artifactId refs,
                             sc_aliases := map (\<lambda>ref. (runId, stageId, ap_name ref)) refs\<rparr>))))
      | _ \<Rightarrow>
          rbind (requireRunId e payload) (\<lambda>runId. Inr (empty_scope\<lparr>sc_runs := [runId]\<rparr>)))"

definition eventScope :: "platform \<Rightarrow> state_event \<Rightarrow> projection_scope res" where
  "eventScope pl e =
     rbind (payloadObject e) (\<lambda>payload.
       case map_of case_labels (se_type e) of
         Some c \<Rightarrow> scope_of_case pl c e payload
       | None \<Rightarrow> reducer_error e ''unknown event type'')"

section \<open>Runs\<close>

definition put_run :: "string \<Rightarrow> run_state \<Rightarrow> projection \<Rightarrow> projection" where
  "put_run k r s = s\<lparr>pj_runs := AList.update k r (pj_runs s)\<rparr>"

definition existing_run :: "projection \<Rightarrow> state_event \<Rightarrow> string \<Rightarrow> run_state res" where
  "existing_run s e runId =
     (case map_of (pj_runs s) runId of
        None \<Rightarrow> reducer_error e (''run does not exist: '' @ runId) | Some r \<Rightarrow> Inr r)"

text \<open>A new revision of a row, citing the event.\<close>

definition next_run :: "state_event \<Rightarrow> run_state \<Rightarrow> run_state" where
  "next_run e r = r\<lparr>rn_revision := rn_revision r + 1, rn_lastEventSequence := se_sequence e,
                    rn_updatedAt := se_recordedAt e\<rparr>"

definition apply_run_created :: "projection \<Rightarrow> state_event \<Rightarrow> members \<Rightarrow> projection res" where
  "apply_run_created s e payload =
     rbind (requireRunId e payload) (\<lambda>runId.
       if map_of (pj_runs s) runId \<noteq> None then reducer_error e (''run already exists: '' @ runId)
       else
         rbind (optionalWorkspaceId e payload) (\<lambda>workspaceId.
         rbind (requireString e payload ''codebaseId'') (\<lambda>codebaseId.
           Inr (put_run runId
             \<lparr>rn_runId = runId, rn_status = ''queued'', rn_revision = 1,
              rn_lastEventSequence = se_sequence e, rn_workspaceId = workspaceId,
              rn_codebaseId = codebaseId, rn_updatedAt = se_recordedAt e,
              rn_instructionSnapshotSha256 = None, rn_instructionSnapshotJson = None,
              rn_capabilityLandingJson = None\<rparr> s))))"

definition apply_run_status_changed :: "projection \<Rightarrow> state_event \<Rightarrow> members \<Rightarrow> projection res" where
  "apply_run_status_changed s e payload =
     rbind (requireRunId e payload) (\<lambda>runId.
     rbind (existing_run s e runId) (\<lambda>previous.
     rbind (requireString e payload ''status'') (\<lambda>status.
       if \<not> isRunStatus status then reducer_error e (''unknown run status: '' @ status)
       else Inr (put_run runId ((next_run e previous)\<lparr>rn_status := status\<rparr>) s))))"

definition apply_run_touched :: "projection \<Rightarrow> state_event \<Rightarrow> members \<Rightarrow> projection res" where
  "apply_run_touched s e payload =
     rbind (requireRunId e payload) (\<lambda>runId.
     rbind (existing_run s e runId) (\<lambda>previous.
       Inr (put_run runId (next_run e previous) s)))"

definition apply_run_workspace_assigned :: "projection \<Rightarrow> state_event \<Rightarrow> members \<Rightarrow> projection res" where
  "apply_run_workspace_assigned s e payload =
     rbind (requireRunId e payload) (\<lambda>runId.
     rbind (existing_run s e runId) (\<lambda>previous.
     rbind (requireString e payload ''workspaceId'') (\<lambda>workspaceId.
       if map_of (pj_workspaces s) workspaceId = None then
         reducer_error e (''workspace is not registered: '' @ workspaceId)
       else Inr (put_run runId ((next_run e previous)\<lparr>rn_workspaceId := Some workspaceId\<rparr>) s))))"

definition apply_instructions_snapshotted :: "platform \<Rightarrow> projection \<Rightarrow> state_event \<Rightarrow> members \<Rightarrow> projection res" where
  "apply_instructions_snapshotted pl s e payload =
     rbind (requireRunId e payload) (\<lambda>runId.
     rbind (existing_run s e runId) (\<lambda>previous.
       if rn_instructionSnapshotJson previous \<noteq> None then
         reducer_error e (''run instruction snapshot is immutable: '' @ runId)
       else
         rbind (requireInstructionSnapshot pl e payload) (\<lambda>(sha, txt).
           Inr (put_run runId ((next_run e previous)\<lparr>rn_instructionSnapshotSha256 := Some sha,
             rn_instructionSnapshotJson := Some txt\<rparr>) s))))"

definition apply_capability_landed :: "platform \<Rightarrow> projection \<Rightarrow> state_event \<Rightarrow> members \<Rightarrow> projection res" where
  "apply_capability_landed pl s e payload =
     rbind (requireRunId e payload) (\<lambda>runId.
     rbind (existing_run s e runId) (\<lambda>previous.
     rbind (requireCapabilityLanding pl e payload) (\<lambda>landingJson.
       case rn_capabilityLandingJson previous of
         Some landed \<Rightarrow>
           if landed = landingJson then Inr s
           else reducer_error e (''run capability landing is immutable: '' @ runId)
       | None \<Rightarrow>
           Inr (put_run runId ((next_run e previous)\<lparr>rn_capabilityLandingJson := Some landingJson\<rparr>) s))))"

section \<open>Codebases, repositories and workspaces\<close>

definition put_codebase :: "string \<Rightarrow> codebase_state \<Rightarrow> projection \<Rightarrow> projection" where
  "put_codebase k r s = s\<lparr>pj_codebases := AList.update k r (pj_codebases s)\<rparr>"

definition put_repository :: "string \<Rightarrow> repository_state \<Rightarrow> projection \<Rightarrow> projection" where
  "put_repository k r s = s\<lparr>pj_repositories := AList.update k r (pj_repositories s)\<rparr>"

definition put_workspace :: "string \<Rightarrow> workspace_state \<Rightarrow> projection \<Rightarrow> projection" where
  "put_workspace k r s = s\<lparr>pj_workspaces := AList.update k r (pj_workspaces s)\<rparr>"

definition apply_codebase_registered :: "projection \<Rightarrow> state_event \<Rightarrow> members \<Rightarrow> projection res" where
  "apply_codebase_registered s e payload =
     rbind (requireString e payload ''codebaseId'') (\<lambda>codebaseId.
       if map_of (pj_codebases s) codebaseId \<noteq> None then
         reducer_error e (''codebase already exists: '' @ codebaseId)
       else Inr (put_codebase codebaseId
         \<lparr>cb_codebaseId = codebaseId, cb_revision = 1, cb_lastEventSequence = se_sequence e,
          cb_updatedAt = se_recordedAt e, cb_name = None, cb_rootPath = None,
          cb_topologySha256 = None, cb_configurationSha256 = None, cb_registrationJson = None,
          cb_instructionSnapshotJson = None\<rparr> s))"

definition apply_repository_registered :: "projection \<Rightarrow> state_event \<Rightarrow> members \<Rightarrow> projection res" where
  "apply_repository_registered s e payload =
     rbind (requireString e payload ''repositoryId'') (\<lambda>repositoryId.
     rbind (requireString e payload ''codebaseId'') (\<lambda>codebaseId.
       if map_of (pj_repositories s) repositoryId \<noteq> None then
         reducer_error e (''repository already exists: '' @ repositoryId)
       else if map_of (pj_codebases s) codebaseId = None then
         reducer_error e (''codebase is not registered: '' @ codebaseId)
       else Inr (put_repository repositoryId
         \<lparr>ry_repositoryId = repositoryId, ry_codebaseId = codebaseId, ry_revision = 1,
          ry_lastEventSequence = se_sequence e, ry_updatedAt = se_recordedAt e, ry_name = None,
          ry_repositoryPath = None, ry_gitCommonDirectory = None, ry_remotesJson = None,
          ry_defaultRemote = None, ry_defaultBranch = None\<rparr> s)))"

definition registered_repository :: "state_event \<Rightarrow> registration \<Rightarrow> registration_repository \<Rightarrow> repository_state" where
  "registered_repository e registration repository =
     \<lparr>ry_repositoryId = rr_repositoryId repository, ry_codebaseId = rg_codebaseId registration,
      ry_revision = 1, ry_lastEventSequence = se_sequence e, ry_updatedAt = se_recordedAt e,
      ry_name = Some (rr_name repository), ry_repositoryPath = Some (rr_path repository),
      ry_gitCommonDirectory = Some (rr_gitCommonDirectory repository),
      ry_remotesJson = Some (rr_remotesJson repository),
      ry_defaultRemote = rr_defaultRemote repository, ry_defaultBranch = rr_defaultBranch repository\<rparr>"

definition apply_registration_committed :: "platform \<Rightarrow> projection \<Rightarrow> state_event \<Rightarrow> members \<Rightarrow> projection res" where
  "apply_registration_committed pl s e payload =
     rbind (requireRegistration pl e payload) (\<lambda>registration.
       case map_of (pj_codebases s) (rg_codebaseId registration) of
         Some existing \<Rightarrow>
           if cb_configurationSha256 existing = Some (rg_configurationSha256 registration) then Inr s
           else reducer_error e (''codebase already exists: '' @ rg_codebaseId registration)
       | None \<Rightarrow>
           (case find (\<lambda>repository. map_of (pj_repositories s) (rr_repositoryId repository) \<noteq> None)
                  (rg_repositories registration) of
              Some repository \<Rightarrow>
                reducer_error e (''repository already exists: '' @ rr_repositoryId repository)
            | None \<Rightarrow>
                Inr (fold (\<lambda>repository. put_repository (rr_repositoryId repository)
                        (registered_repository e registration repository)) (rg_repositories registration)
                  (put_codebase (rg_codebaseId registration)
                     \<lparr>cb_codebaseId = rg_codebaseId registration, cb_revision = 1,
                      cb_lastEventSequence = se_sequence e, cb_updatedAt = se_recordedAt e,
                      cb_name = Some (rg_name registration), cb_rootPath = Some (rg_rootPath registration),
                      cb_topologySha256 = Some (rg_topologySha256 registration),
                      cb_configurationSha256 = Some (rg_configurationSha256 registration),
                      cb_registrationJson = Some (rg_registrationJson registration),
                      cb_instructionSnapshotJson = Some (rg_instructionSnapshotJson registration)\<rparr> s))))"

definition apply_workspace_registered :: "projection \<Rightarrow> state_event \<Rightarrow> members \<Rightarrow> projection res" where
  "apply_workspace_registered s e payload =
     rbind (requireString e payload ''workspaceId'') (\<lambda>workspaceId.
     rbind (requireString e payload ''codebaseId'') (\<lambda>codebaseId.
       if map_of (pj_workspaces s) workspaceId \<noteq> None then
         reducer_error e (''workspace already exists: '' @ workspaceId)
       else if map_of (pj_codebases s) codebaseId = None then
         reducer_error e (''codebase is not registered: '' @ codebaseId)
       else Inr (put_workspace workspaceId
         \<lparr>wk_workspaceId = workspaceId, wk_codebaseId = codebaseId, wk_repositoryId = None,
          wk_lifecycleStatus = None, wk_checkoutPath = None, wk_configurationSha256 = None,
          wk_manifestJson = None, wk_revision = 1, wk_lastEventSequence = se_sequence e,
          wk_updatedAt = se_recordedAt e\<rparr> s)))"

definition apply_provisioning_recorded :: "projection \<Rightarrow> state_event \<Rightarrow> members \<Rightarrow> projection res" where
  "apply_provisioning_recorded s e payload =
     rbind (requireString e payload ''workspaceId'') (\<lambda>workspaceId.
     rbind (requireString e payload ''codebaseId'') (\<lambda>codebaseId.
     rbind (requireString e payload ''repositoryId'') (\<lambda>repositoryId.
     rbind (requireString e payload ''lifecycleStatus'') (\<lambda>lifecycleStatus.
     rbind (requireString e payload ''checkoutPath'') (\<lambda>checkoutPath.
     rbind (requireString e payload ''configurationSha256'') (\<lambda>configurationSha256.
     rbind (requireString e payload ''manifestJson'') (\<lambda>manifestJson.
       if map_of (pj_codebases s) codebaseId = None then
         reducer_error e (''codebase is not registered: '' @ codebaseId)
       else if map_option ry_codebaseId (map_of (pj_repositories s) repositoryId) \<noteq> Some codebaseId then
         reducer_error e (''repository is not registered to codebase: '' @ repositoryId)
       else
         (let previous = map_of (pj_workspaces s) workspaceId
          in if previous \<noteq> None \<and> map_option wk_codebaseId previous \<noteq> Some codebaseId then
               reducer_error e (''workspace belongs to another codebase: '' @ workspaceId)
             else Inr (put_workspace workspaceId
               \<lparr>wk_workspaceId = workspaceId, wk_codebaseId = codebaseId,
                wk_repositoryId = Some repositoryId, wk_lifecycleStatus = Some lifecycleStatus,
                wk_checkoutPath = Some checkoutPath, wk_configurationSha256 = Some configurationSha256,
                wk_manifestJson = Some manifestJson,
                wk_revision = (case previous of None \<Rightarrow> 0 | Some w \<Rightarrow> wk_revision w) + 1,
                wk_lastEventSequence = se_sequence e, wk_updatedAt = se_recordedAt e\<rparr> s)))))))))"

section \<open>Writer leases\<close>

definition put_lease :: "string \<Rightarrow> lease_state \<Rightarrow> projection \<Rightarrow> projection" where
  "put_lease k r s = s\<lparr>pj_workspaceLeases := AList.update k r (pj_workspaceLeases s)\<rparr>"

text \<open>The fencing rules of the six lease events, given the lease they replace.\<close>

definition lease_violation ::
  "string \<Rightarrow> lease_state option \<Rightarrow> int \<Rightarrow> string \<Rightarrow> string \<Rightarrow> string \<Rightarrow> string \<Rightarrow> string option" where
  "lease_violation type previous fencingRevision leaseId leaseState workspaceId repositoryId =
     (if type = ''workspace.lease_acquired'' then
        (if previous \<noteq> None \<or> fencingRevision \<noteq> 1 \<or> leaseState \<noteq> ''active'' then
           Some ''initial lease must create fence 1 in active state'' else None)
      else if type = ''workspace.lease_recovered'' then
        (case previous of
           Some p \<Rightarrow>
             if fencingRevision \<noteq> ls_fencingRevision p + 1 \<or> leaseId = ls_leaseId p \<or> leaseState \<noteq> ''active'' then
               Some ''lease recovery must replace the lease and advance its fence by 1'' else None
         | None \<Rightarrow> Some ''lease recovery must replace the lease and advance its fence by 1'')
      else
        (case previous of
           Some p \<Rightarrow>
             if fencingRevision \<noteq> ls_fencingRevision p \<or> leaseId \<noteq> ls_leaseId p \<or>
                workspaceId \<noteq> ls_workspaceId p \<or> repositoryId \<noteq> ls_repositoryId p \<or>
                ls_leaseState p \<noteq> ''active'' then
               Some ''lease mutation must target the current active identity and fence'' else None
         | None \<Rightarrow> Some ''lease mutation must target the current active identity and fence''))"

definition expected_lease_state :: "string \<Rightarrow> string" where
  "expected_lease_state type =
     (if type = ''workspace.lease_released'' then ''released''
      else if type = ''workspace.lease_recovery_required'' then ''recovery-required''
      else ''active'')"

definition lease_row ::
  "state_event \<Rightarrow> members \<Rightarrow> lease_state option \<Rightarrow> string \<Rightarrow> string \<Rightarrow> string \<Rightarrow> int \<Rightarrow> string \<Rightarrow> string \<Rightarrow> lease_state res" where
  "lease_row e payload previous checkoutPath workspaceId repositoryId fencingRevision leaseId leaseState =
     rbind (requireString e payload ''ownerId'') (\<lambda>ownerId.
     rbind (requireString e payload ''processWitnessesJson'') (\<lambda>processWitnessesJson.
     rbind (requireString e payload ''expectedSha'') (\<lambda>expectedSha.
     rbind (requireString e payload ''acquiredAt'') (\<lambda>acquiredAt.
     rbind (requireString e payload ''renewedAt'') (\<lambda>renewedAt.
     rbind (requireString e payload ''expiresAt'') (\<lambda>expiresAt.
       Inr \<lparr>ls_checkoutPath = checkoutPath, ls_workspaceId = workspaceId,
            ls_repositoryId = repositoryId, ls_leaseId = leaseId, ls_ownerId = ownerId,
            ls_bootWitness = nullableString (map_of payload ''bootWitness''),
            ls_processWitnessesJson = processWitnessesJson, ls_expectedSha = expectedSha,
            ls_fencingRevision = fencingRevision, ls_leaseState = leaseState,
            ls_acquiredAt = acquiredAt, ls_renewedAt = renewedAt, ls_expiresAt = expiresAt,
            ls_releasedAt = nullableString (map_of payload ''releasedAt''),
            ls_revision = (case previous of None \<Rightarrow> 0 | Some p \<Rightarrow> ls_revision p) + 1,
            ls_lastEventSequence = se_sequence e, ls_updatedAt = se_recordedAt e\<rparr>))))))"

definition apply_lease_changed :: "projection \<Rightarrow> state_event \<Rightarrow> members \<Rightarrow> projection res" where
  "apply_lease_changed s e payload =
     rbind (requireString e payload ''checkoutPath'') (\<lambda>checkoutPath.
     rbind (requireString e payload ''workspaceId'') (\<lambda>workspaceId.
     rbind (requireString e payload ''repositoryId'') (\<lambda>repositoryId.
       if map_of (pj_workspaces s) workspaceId = None then
         reducer_error e (''workspace is not registered: '' @ workspaceId)
       else if map_of (pj_repositories s) repositoryId = None then
         reducer_error e (''repository is not registered: '' @ repositoryId)
       else
         (let previous = map_of (pj_workspaceLeases s) checkoutPath
          in
         rbind (requireNonNegativeInteger e payload ''fencingRevision'') (\<lambda>fencingRevision.
         rbind (requireString e payload ''leaseId'') (\<lambda>leaseId.
         rbind (requireString e payload ''leaseState'') (\<lambda>leaseState.
           if fencingRevision < 1 then reducer_error e ''payload.fencingRevision must be positive''
           else
             (case lease_violation (se_type e) previous fencingRevision leaseId leaseState workspaceId repositoryId of
                Some reason \<Rightarrow> reducer_error e reason
              | None \<Rightarrow>
                  if leaseState \<noteq> expected_lease_state (se_type e) then
                    reducer_error e (''lease event must produce '' @ expected_lease_state (se_type e) @ '' state'')
                  else
                    rbind (lease_row e payload previous checkoutPath workspaceId repositoryId fencingRevision leaseId leaseState)
                      (\<lambda>row. Inr (put_lease checkoutPath row s))))))))))"

section \<open>Artifacts\<close>

definition put_artifact :: "string \<Rightarrow> artifact_state \<Rightarrow> projection \<Rightarrow> projection" where
  "put_artifact k r s = s\<lparr>pj_artifacts := AList.update k r (pj_artifacts s)\<rparr>"

definition put_alias :: "string \<Rightarrow> alias_state \<Rightarrow> projection \<Rightarrow> projection" where
  "put_alias k r s = s\<lparr>pj_aliases := AList.update k r (pj_aliases s)\<rparr>"

definition artifact_row_of :: "state_event \<Rightarrow> string \<Rightarrow> string \<Rightarrow> artifact_ref_payload \<Rightarrow> artifact_state" where
  "artifact_row_of e runId stageId ref =
     \<lparr>af_artifactId = ap_artifactId ref, af_runId = runId, af_stageId = stageId, af_name = ap_name ref,
      af_contentHash = ap_contentHash ref, af_byteLength = ap_byteLength ref,
      af_mediaType = ap_mediaType ref, af_contentSchemaId = ap_contentSchemaId ref,
      af_producer = ap_producer ref, af_sourceLineage = ap_sourceLineage ref,
      af_relativePath = ap_path ref, af_createdAt = se_recordedAt e, af_revision = 1,
      af_lastEventSequence = se_sequence e\<rparr>"

text \<open>The case reads the fields of the payload itself, in the order of \<open>ArtifactRefPayload\<close>.\<close>

definition apply_artifact_published :: "projection \<Rightarrow> state_event \<Rightarrow> members \<Rightarrow> projection res" where
  "apply_artifact_published s e payload =
     rbind (requireRunId e payload) (\<lambda>runId.
     rbind (existing_run s e runId) (\<lambda>previousRun.
     rbind (requireStageId e payload) (\<lambda>stageId.
     rbind (requireString e payload ''artifactId'') (\<lambda>artifactId.
       if map_of (pj_artifacts s) artifactId \<noteq> None then
         reducer_error e (''artifact already exists: '' @ artifactId)
       else
         rbind (toArtifactRefPayload e (JObj payload) 0) (\<lambda>ref.
           Inr (put_artifact artifactId (artifact_row_of e runId stageId ref) s))))))"

text \<open>
  One entry of \<open>payload.artifacts\<close>: a row that is already there is adopted when it is identical,
  then the alias is pointed at the artifact. The loop keeps the names seen so far.
\<close>

definition adopt_artifact :: "state_event \<Rightarrow> string \<Rightarrow> string \<Rightarrow> artifact_ref_payload \<Rightarrow> projection \<Rightarrow> projection res" where
  "adopt_artifact e runId stageId ref s =
     (case map_of (pj_artifacts s) (ap_artifactId ref) of
        None \<Rightarrow> Inr (put_artifact (ap_artifactId ref) (artifact_row_of e runId stageId ref) s)
      | Some existing \<Rightarrow>
          (case artifactMismatchField existing runId stageId ref of
             Some mismatch \<Rightarrow>
               reducer_error e (''artifact already exists with a different '' @ mismatch @ '': '' @ ap_artifactId ref)
           | None \<Rightarrow> Inr s))"

definition point_alias :: "state_event \<Rightarrow> string \<Rightarrow> string \<Rightarrow> artifact_ref_payload \<Rightarrow> projection \<Rightarrow> projection" where
  "point_alias e runId stageId ref s =
     (let aliasKey = stageArtifactAliasKey runId stageId (ap_name ref);
          previousAlias = map_of (pj_aliases s) aliasKey
      in put_alias aliasKey
           \<lparr>al_runId = runId, al_stageId = stageId, al_name = ap_name ref,
            al_artifactId = ap_artifactId ref,
            al_revision = (case previousAlias of None \<Rightarrow> 0 | Some a \<Rightarrow> al_revision a) + 1,
            al_lastEventSequence = se_sequence e, al_updatedAt = se_recordedAt e\<rparr> s)"

definition complete_ref ::
  "state_event \<Rightarrow> string \<Rightarrow> string \<Rightarrow> artifact_ref_payload \<Rightarrow> string list \<times> projection \<Rightarrow> (string list \<times> projection) res" where
  "complete_ref e runId stageId ref acc =
     (case acc of (seenNames, s) \<Rightarrow>
       if ap_name ref \<in> set seenNames then
         reducer_error e (''payload.artifacts has more than one entry named '' @ [CHR 0x22] @ ap_name ref @ [CHR 0x22])
       else
         rbind (adopt_artifact e runId stageId ref s) (\<lambda>s1.
           Inr (seenNames @ [ap_name ref], point_alias e runId stageId ref s1)))"

definition apply_stage_completed :: "projection \<Rightarrow> state_event \<Rightarrow> members \<Rightarrow> projection res" where
  "apply_stage_completed s e payload =
     rbind (requireRunId e payload) (\<lambda>runId.
     rbind (existing_run s e runId) (\<lambda>previousRun.
     rbind (requireStageId e payload) (\<lambda>stageId.
     rbind (requireArtifactRefs e payload ''artifacts'') (\<lambda>refs.
     rbind (rfold (complete_ref e runId stageId) refs ([], s)) (\<lambda>(seenNames, s1).
       let terminalRunStatus = map_of payload ''terminalRunStatus''
       in if terminalRunStatus \<noteq> None \<and> terminalRunStatus \<noteq> Some (JStr ''succeeded'') then
            reducer_error e ''payload.terminalRunStatus must be succeeded when present''
          else if terminalRunStatus = Some (JStr ''succeeded'') then
            Inr (put_run runId ((next_run e previousRun)\<lparr>rn_status := ''succeeded''\<rparr>) s1)
          else Inr s1)))))"

section \<open>The reducer\<close>

definition apply_case :: "platform \<Rightarrow> event_case \<Rightarrow> projection \<Rightarrow> state_event \<Rightarrow> members \<Rightarrow> projection res" where
  "apply_case pl c s e payload =
     (case c of
        Run_Created \<Rightarrow> apply_run_created s e payload
      | Run_Status_Changed \<Rightarrow> apply_run_status_changed s e payload
      | Run_Touched \<Rightarrow> apply_run_touched s e payload
      | Run_Workspace_Assigned \<Rightarrow> apply_run_workspace_assigned s e payload
      | Run_Instructions_Snapshotted \<Rightarrow> apply_instructions_snapshotted pl s e payload
      | Run_Capability_Landed \<Rightarrow> apply_capability_landed pl s e payload
      | Registration_Committed \<Rightarrow> apply_registration_committed pl s e payload
      | Codebase_Registered \<Rightarrow> apply_codebase_registered s e payload
      | Repository_Registered \<Rightarrow> apply_repository_registered s e payload
      | Workspace_Registered \<Rightarrow> apply_workspace_registered s e payload
      | Provisioning_Recorded \<Rightarrow> apply_provisioning_recorded s e payload
      | Lease_Changed \<Rightarrow> apply_lease_changed s e payload
      | Artifact_Published \<Rightarrow> apply_artifact_published s e payload
      | Stage_Completed \<Rightarrow> apply_stage_completed s e payload)"

definition applyEvent :: "platform \<Rightarrow> projection \<Rightarrow> state_event \<Rightarrow> projection res" where
  "applyEvent pl s e =
     rbind (payloadObject e) (\<lambda>payload.
       if se_type e \<in> set RUN_SCOPED_TYPES \<and> se_runId e = None then
         reducer_error e ''a run.* event must carry a run_id''
       else if se_type e \<in> set STAGE_SCOPED_TYPES \<and> se_runId e = None then
         reducer_error e ''an artifact/stage event must carry a run_id''
       else
         case map_of case_labels (se_type e) of
           Some c \<Rightarrow> apply_case pl c s e payload
         | None \<Rightarrow> reducer_error e ''unknown event type'')"

end
