(* ===== verification/Projection_Change.thy ===== *)
theory Projection_Change
  imports Reducer
begin

text \<open>
  How an event changes the projection. The seven tables are seen through one lookup \<open>look\<close>, so that
  the rules every case of the reducer obeys are stated once: a row changes only inside the scope of
  the event, a changed row cites the event and has the next revision, artifact rows never change,
  and the outcome depends only on the rows in scope.
\<close>

section \<open>One view of the tables\<close>

datatype ProjectionTable =
    T_artifact | T_codebase | T_repository | T_run_projection | T_stage_artifact_alias
  | T_workspace | T_workspace_lease

datatype prow =
    RunRow run_state | CodebaseRow codebase_state | RepositoryRow repository_state
  | WorkspaceRow workspace_state | LeaseRow lease_state | ArtifactRow artifact_state
  | AliasRow alias_state

fun look :: "projection \<Rightarrow> ProjectionTable \<Rightarrow> string \<Rightarrow> prow option" where
  "look s T_run_projection k = map_option RunRow (map_of (pj_runs s) k)"
| "look s T_codebase k = map_option CodebaseRow (map_of (pj_codebases s) k)"
| "look s T_repository k = map_option RepositoryRow (map_of (pj_repositories s) k)"
| "look s T_workspace k = map_option WorkspaceRow (map_of (pj_workspaces s) k)"
| "look s T_workspace_lease k = map_option LeaseRow (map_of (pj_workspaceLeases s) k)"
| "look s T_artifact k = map_option ArtifactRow (map_of (pj_artifacts s) k)"
| "look s T_stage_artifact_alias k = map_option AliasRow (map_of (pj_aliases s) k)"

fun row_table :: "prow \<Rightarrow> ProjectionTable" where
  "row_table (RunRow r) = T_run_projection"
| "row_table (CodebaseRow r) = T_codebase"
| "row_table (RepositoryRow r) = T_repository"
| "row_table (WorkspaceRow r) = T_workspace"
| "row_table (LeaseRow r) = T_workspace_lease"
| "row_table (ArtifactRow r) = T_artifact"
| "row_table (AliasRow r) = T_stage_artifact_alias"

fun row_key :: "prow \<Rightarrow> string" where
  "row_key (RunRow r) = rn_runId r"
| "row_key (CodebaseRow r) = cb_codebaseId r"
| "row_key (RepositoryRow r) = ry_repositoryId r"
| "row_key (WorkspaceRow r) = wk_workspaceId r"
| "row_key (LeaseRow r) = ls_checkoutPath r"
| "row_key (ArtifactRow r) = af_artifactId r"
| "row_key (AliasRow r) = stageArtifactAliasKey (al_runId r) (al_stageId r) (al_name r)"

fun row_revision :: "prow \<Rightarrow> int" where
  "row_revision (RunRow r) = rn_revision r"
| "row_revision (CodebaseRow r) = cb_revision r"
| "row_revision (RepositoryRow r) = ry_revision r"
| "row_revision (WorkspaceRow r) = wk_revision r"
| "row_revision (LeaseRow r) = ls_revision r"
| "row_revision (ArtifactRow r) = af_revision r"
| "row_revision (AliasRow r) = al_revision r"

fun row_sequence :: "prow \<Rightarrow> int" where
  "row_sequence (RunRow r) = rn_lastEventSequence r"
| "row_sequence (CodebaseRow r) = cb_lastEventSequence r"
| "row_sequence (RepositoryRow r) = ry_lastEventSequence r"
| "row_sequence (WorkspaceRow r) = wk_lastEventSequence r"
| "row_sequence (LeaseRow r) = ls_lastEventSequence r"
| "row_sequence (ArtifactRow r) = af_lastEventSequence r"
| "row_sequence (AliasRow r) = al_lastEventSequence r"

fun row_time :: "prow \<Rightarrow> string" where
  "row_time (RunRow r) = rn_updatedAt r"
| "row_time (CodebaseRow r) = cb_updatedAt r"
| "row_time (RepositoryRow r) = ry_updatedAt r"
| "row_time (WorkspaceRow r) = wk_updatedAt r"
| "row_time (LeaseRow r) = ls_updatedAt r"
| "row_time (ArtifactRow r) = af_createdAt r"
| "row_time (AliasRow r) = al_updatedAt r"

fun in_scope :: "projection_scope \<Rightarrow> ProjectionTable \<Rightarrow> string \<Rightarrow> bool" where
  "in_scope sc T_run_projection k \<longleftrightarrow> k \<in> set (sc_runs sc)"
| "in_scope sc T_codebase k \<longleftrightarrow> k \<in> set (sc_codebases sc)"
| "in_scope sc T_repository k \<longleftrightarrow> k \<in> set (sc_repositories sc)"
| "in_scope sc T_workspace k \<longleftrightarrow> k \<in> set (sc_workspaces sc)"
| "in_scope sc T_workspace_lease k \<longleftrightarrow> k \<in> set (sc_workspaceLeases sc)"
| "in_scope sc T_artifact k \<longleftrightarrow> k \<in> set (sc_artifacts sc)"
| "in_scope sc T_stage_artifact_alias k \<longleftrightarrow>
     k \<in> set (map (\<lambda>(runId, stageId, name). stageArtifactAliasKey runId stageId name) (sc_aliases sc))"

lemma look_put:
  "look (put_run k r s) = (look s)(T_run_projection := (look s T_run_projection)(k \<mapsto> RunRow r))"
  "look (put_codebase k cb s) = (look s)(T_codebase := (look s T_codebase)(k \<mapsto> CodebaseRow cb))"
  "look (put_repository k ry s) = (look s)(T_repository := (look s T_repository)(k \<mapsto> RepositoryRow ry))"
  "look (put_workspace k wk s) = (look s)(T_workspace := (look s T_workspace)(k \<mapsto> WorkspaceRow wk))"
  "look (put_lease k ls s) = (look s)(T_workspace_lease := (look s T_workspace_lease)(k \<mapsto> LeaseRow ls))"
  "look (put_artifact k af s) = (look s)(T_artifact := (look s T_artifact)(k \<mapsto> ArtifactRow af))"
  "look (put_alias k al s) =
     (look s)(T_stage_artifact_alias := (look s T_stage_artifact_alias)(k \<mapsto> AliasRow al))"
  by (rule ext, rule ext, case_tac x,
      simp_all add: put_run_def put_codebase_def put_repository_def put_workspace_def put_lease_def
        put_artifact_def put_alias_def js_simps)+

lemma look_artifact_run [simp]:
  "map_of (pj_runs (put_artifact k a s)) = map_of (pj_runs s)"
  "map_of (pj_runs (put_alias k al s)) = map_of (pj_runs s)"
  "pj_aliases (put_artifact k a s) = pj_aliases s"
  by (simp_all add: put_artifact_def put_alias_def)

section \<open>What a change is allowed to be\<close>

definition row_step :: "state_event \<Rightarrow> prow option \<Rightarrow> prow \<Rightarrow> bool" where
  "row_step e old new \<longleftrightarrow>
     row_sequence new = se_sequence e \<and> row_time new = se_recordedAt e \<and>
     (case old of None \<Rightarrow> row_revision new = 1
      | Some r \<Rightarrow> row_revision new = row_revision r + 1 \<and> row_table new \<noteq> T_artifact)"

definition advances :: "state_event \<Rightarrow> projection_scope \<Rightarrow> projection \<Rightarrow> projection \<Rightarrow> bool" where
  "advances e sc s s' \<longleftrightarrow>
     (\<forall>t k. look s' t k = look s t k \<or>
        (in_scope sc t k \<and>
         (\<exists>new. look s' t k = Some new \<and> row_step e (look s t k) new \<and> row_table new = t \<and> row_key new = k)))"

definition agree :: "projection_scope \<Rightarrow> projection \<Rightarrow> projection \<Rightarrow> bool" where
  "agree sc s t \<longleftrightarrow> (\<forall>T k. in_scope sc T k \<longrightarrow> look s T k = look t T k)"

fun res_agree :: "projection_scope \<Rightarrow> projection res \<Rightarrow> projection res \<Rightarrow> bool" where
  "res_agree sc (Inl a) (Inl b) \<longleftrightarrow> a = b"
| "res_agree sc (Inr s) (Inr t) \<longleftrightarrow> agree sc s t"
| "res_agree sc x y \<longleftrightarrow> False"

lemma advances_refl: "advances e sc s s"
  by (simp add: advances_def)

lemma agree_put:
  assumes "agree sc s t"
  shows "agree sc (put_run k r s) (put_run k r t)"
    "agree sc (put_codebase k cb s) (put_codebase k cb t)"
    "agree sc (put_repository k ry s) (put_repository k ry t)"
    "agree sc (put_workspace k wk s) (put_workspace k wk t)"
    "agree sc (put_lease k ls s) (put_lease k ls t)"
    "agree sc (put_artifact k af s) (put_artifact k af t)"
    "agree sc (put_alias k al s) (put_alias k al t)"
  using assms by (simp_all add: agree_def look_put del: look.simps in_scope.simps)

lemma agree_lookup:
  assumes "agree sc s t"
  shows "k \<in> set (sc_runs sc) \<Longrightarrow> map_of (pj_runs s) k = map_of (pj_runs t) k"
    "k \<in> set (sc_codebases sc) \<Longrightarrow> map_of (pj_codebases s) k = map_of (pj_codebases t) k"
    "k \<in> set (sc_repositories sc) \<Longrightarrow> map_of (pj_repositories s) k = map_of (pj_repositories t) k"
    "k \<in> set (sc_workspaces sc) \<Longrightarrow> map_of (pj_workspaces s) k = map_of (pj_workspaces t) k"
    "k \<in> set (sc_workspaceLeases sc) \<Longrightarrow> map_of (pj_workspaceLeases s) k = map_of (pj_workspaceLeases t) k"
    "k \<in> set (sc_artifacts sc) \<Longrightarrow> map_of (pj_artifacts s) k = map_of (pj_artifacts t) k"
    "(runId, stageId, name) \<in> set (sc_aliases sc) \<Longrightarrow>
       map_of (pj_aliases s) (stageArtifactAliasKey runId stageId name) =
       map_of (pj_aliases t) (stageArtifactAliasKey runId stageId name)"
proof -
  have look_eq: "look s T k = look t T k" if "in_scope sc T k" for T k
    using assms that by (simp add: agree_def)
  show "k \<in> set (sc_runs sc) \<Longrightarrow> map_of (pj_runs s) k = map_of (pj_runs t) k"
    using look_eq [of T_run_projection k] by (cases "map_of (pj_runs s) k"; cases "map_of (pj_runs t) k") auto
  show "k \<in> set (sc_codebases sc) \<Longrightarrow> map_of (pj_codebases s) k = map_of (pj_codebases t) k"
    using look_eq [of T_codebase k] by (cases "map_of (pj_codebases s) k"; cases "map_of (pj_codebases t) k") auto
  show "k \<in> set (sc_repositories sc) \<Longrightarrow> map_of (pj_repositories s) k = map_of (pj_repositories t) k"
    using look_eq [of T_repository k]
    by (cases "map_of (pj_repositories s) k"; cases "map_of (pj_repositories t) k") auto
  show "k \<in> set (sc_workspaces sc) \<Longrightarrow> map_of (pj_workspaces s) k = map_of (pj_workspaces t) k"
    using look_eq [of T_workspace k] by (cases "map_of (pj_workspaces s) k"; cases "map_of (pj_workspaces t) k") auto
  show "k \<in> set (sc_workspaceLeases sc) \<Longrightarrow> map_of (pj_workspaceLeases s) k = map_of (pj_workspaceLeases t) k"
    using look_eq [of T_workspace_lease k]
    by (cases "map_of (pj_workspaceLeases s) k"; cases "map_of (pj_workspaceLeases t) k") auto
  show "k \<in> set (sc_artifacts sc) \<Longrightarrow> map_of (pj_artifacts s) k = map_of (pj_artifacts t) k"
    using look_eq [of T_artifact k] by (cases "map_of (pj_artifacts s) k"; cases "map_of (pj_artifacts t) k") auto
  let ?a = "stageArtifactAliasKey runId stageId name"
  show "(runId, stageId, name) \<in> set (sc_aliases sc) \<Longrightarrow> map_of (pj_aliases s) ?a = map_of (pj_aliases t) ?a"
    using look_eq [of T_stage_artifact_alias ?a]
    by (cases "map_of (pj_aliases s) ?a"; cases "map_of (pj_aliases t) ?a") force+
qed

section \<open>The outcome depends on the rows in scope\<close>

lemma res_agree_same: "(\<And>s. x = Inr s \<Longrightarrow> agree sc s s) \<Longrightarrow> res_agree sc x x"
  by (cases x) (simp_all add: agree_def)

lemma res_agree_error [simp, intro]: "res_agree sc (reducer_error e m) (reducer_error e m)"
  by (simp add: reducer_error_def)

lemma rbind_error [simp]: "rbind (reducer_error e m) f = reducer_error e m"
  by (simp add: reducer_error_def)

lemma res_agree_rbind [intro]:
  "(\<And>x. m = Inr x \<Longrightarrow> res_agree sc (f x) (g x)) \<Longrightarrow> res_agree sc (rbind m f) (rbind m g)"
  by (cases m) simp_all

lemma res_agree_if [intro]:
  "(c \<Longrightarrow> res_agree sc a b) \<Longrightarrow> (\<not> c \<Longrightarrow> res_agree sc a' b') \<Longrightarrow>
   res_agree sc (if c then a else a') (if c then b else b')"
  by simp

lemmas apply_defs =
  apply_run_created_def apply_run_status_changed_def apply_run_touched_def
  apply_run_workspace_assigned_def apply_instructions_snapshotted_def apply_capability_landed_def
  apply_codebase_registered_def apply_repository_registered_def apply_workspace_registered_def
  apply_provisioning_recorded_def

lemma existing_run_agree: "agree sc s t \<Longrightarrow> k \<in> set (sc_runs sc) \<Longrightarrow> existing_run s e k = existing_run t e k"
  by (simp add: existing_run_def agree_lookup(1))

lemma scoped_run:
  assumes "scope_of_case pl c e payload = Inr sc"
    "c \<notin> {Registration_Committed, Codebase_Registered, Repository_Registered, Workspace_Registered,
          Provisioning_Recorded, Lease_Changed}"
  obtains runId where "requireRunId e payload = Inr runId" "sc_runs sc = [runId]"
  using assms by (cases c) (auto simp: scope_of_case_def empty_scope_def rbind_eq_Inr)

lemma agree_case_simple:
  assumes "agree sc s t" "scope_of_case pl c e payload = Inr sc"
    "c \<notin> {Registration_Committed, Lease_Changed, Artifact_Published, Stage_Completed}"
  shows "res_agree sc (apply_case pl c s e payload) (apply_case pl c t e payload)"
proof (cases "c \<in> {Codebase_Registered, Repository_Registered, Workspace_Registered, Provisioning_Recorded}")
  case True
  then show ?thesis
    using assms agree_lookup(2,3,4) [OF assms(1)]
    by (auto simp: apply_case_def apply_defs scope_of_case_def empty_scope_def rbind_eq_Inr Let_def
        intro!: res_agree_rbind res_agree_if agree_put)
next
  case False
  with assms(3) scoped_run [OF assms(2)] obtain runId where
    run: "requireRunId e payload = Inr runId" "sc_runs sc = [runId]" by auto
  note eqs = agree_lookup(1) [OF assms(1)] existing_run_agree [OF assms(1), of runId e]
  have ws: "map_of (pj_workspaces s) w = map_of (pj_workspaces t) w"
    if "c = Run_Workspace_Assigned" "requireString e payload ''workspaceId'' = Inr w" for w
    using assms(2) that agree_lookup(4) [OF assms(1), of w]
    by (auto simp: scope_of_case_def empty_scope_def rbind_eq_Inr)
  from False assms(1,3) run eqs ws show ?thesis
    by (cases c) (auto simp: apply_case_def apply_defs split: option.splits
        intro!: res_agree_rbind res_agree_if agree_put)
qed

lemma agree_fold_repositories:
  "agree sc s t \<Longrightarrow>
   agree sc (fold (\<lambda>r. put_repository (rr_repositoryId r) (f r)) rs s)
     (fold (\<lambda>r. put_repository (rr_repositoryId r) (f r)) rs t)"
  by (induction rs arbitrary: s t) (simp_all add: agree_put)

lemma agree_registration:
  assumes "agree sc s t" "scope_of_case pl Registration_Committed e payload = Inr sc"
  shows "res_agree sc (apply_registration_committed pl s e payload) (apply_registration_committed pl t e payload)"
proof -
  from assms(2) obtain rg where rg: "requireRegistration pl e payload = Inr rg"
    and sc: "sc_codebases sc = [rg_codebaseId rg]" "sc_repositories sc = map rr_repositoryId (rg_repositories rg)"
    by (auto simp: scope_of_case_def empty_scope_def rbind_eq_Inr)
  have cb: "map_of (pj_codebases s) (rg_codebaseId rg) = map_of (pj_codebases t) (rg_codebaseId rg)"
    using agree_lookup(2) [OF assms(1)] sc by simp
  have "find (\<lambda>r. map_of (pj_repositories s) (rr_repositoryId r) \<noteq> None) (rg_repositories rg) =
      find (\<lambda>r. map_of (pj_repositories t) (rr_repositoryId r) \<noteq> None) (rg_repositories rg)"
    using agree_lookup(3) [OF assms(1)] sc by (intro find_cong) auto
  then show ?thesis
    unfolding apply_registration_committed_def rg rbind_simps cb using assms(1)
    by (auto split: option.splits intro!: agree_fold_repositories agree_put)
qed

lemma agree_lease:
  assumes "agree sc s t" "scope_of_case pl Lease_Changed e payload = Inr sc"
  shows "res_agree sc (apply_lease_changed s e payload) (apply_lease_changed t e payload)"
proof -
  from assms(2) obtain cp ry wk where
    req: "requireString e payload ''checkoutPath'' = Inr cp" "requireString e payload ''repositoryId'' = Inr ry"
      "requireString e payload ''workspaceId'' = Inr wk"
    and sc: "sc_repositories sc = [ry]" "sc_workspaces sc = [wk]" "sc_workspaceLeases sc = [cp]"
    by (auto simp: scope_of_case_def empty_scope_def rbind_eq_Inr)
  have eqs: "map_of (pj_workspaces s) wk = map_of (pj_workspaces t) wk"
    "map_of (pj_repositories s) ry = map_of (pj_repositories t) ry"
    "map_of (pj_workspaceLeases s) cp = map_of (pj_workspaceLeases t) cp"
    using agree_lookup(3,4,5) [OF assms(1)] sc by simp_all
  show ?thesis
    unfolding apply_lease_changed_def req rbind_simps eqs Let_def using assms(1)
    by (auto split: option.split intro!: res_agree_rbind res_agree_if agree_put)
qed

lemma agree_published:
  assumes "agree sc s t" "scope_of_case pl Artifact_Published e payload = Inr sc"
  shows "res_agree sc (apply_artifact_published s e payload) (apply_artifact_published t e payload)"
proof -
  from assms(2) obtain runId stageId a where
    req: "requireRunId e payload = Inr runId" "requireStageId e payload = Inr stageId"
      "requireString e payload ''artifactId'' = Inr a"
    and sc: "sc_runs sc = [runId]" "sc_artifacts sc = [a]"
    by (auto simp: scope_of_case_def empty_scope_def rbind_eq_Inr)
  have eqs: "existing_run s e runId = existing_run t e runId" "map_of (pj_artifacts s) a = map_of (pj_artifacts t) a"
    using existing_run_agree [OF assms(1)] agree_lookup(6) [OF assms(1)] sc by simp_all
  show ?thesis
    unfolding apply_artifact_published_def req rbind_simps eqs using assms(1)
    by (auto intro!: res_agree_rbind res_agree_if agree_put)
qed

text \<open>The loop over the entries of a completed stage, on two states that agree.\<close>

fun loop_agree :: "projection_scope \<Rightarrow> (string list \<times> projection) res \<Rightarrow> (string list \<times> projection) res \<Rightarrow> bool" where
  "loop_agree sc (Inl a) (Inl b) \<longleftrightarrow> a = b"
| "loop_agree sc (Inr (n, s)) (Inr (m, t)) \<longleftrightarrow> n = m \<and> agree sc s t"
| "loop_agree sc x y \<longleftrightarrow> False"

lemma loop_agree_error [simp]: "loop_agree sc (reducer_error e m) (reducer_error e m)"
  by (simp add: reducer_error_def)

lemma agree_complete_ref:
  assumes "agree sc s t" "ap_artifactId ref \<in> set (sc_artifacts sc)" "(runId, stageId, ap_name ref) \<in> set (sc_aliases sc)"
  shows "loop_agree sc (complete_ref e runId stageId ref (n, s)) (complete_ref e runId stageId ref (n, t))"
proof -
  have art: "map_of (pj_artifacts s) (ap_artifactId ref) = map_of (pj_artifacts t) (ap_artifactId ref)"
    using agree_lookup(6) [OF assms(1)] assms(2) by simp
  have al: "map_of (pj_aliases s') (stageArtifactAliasKey runId stageId (ap_name ref)) =
      map_of (pj_aliases t') (stageArtifactAliasKey runId stageId (ap_name ref))" if "agree sc s' t'" for s' t'
    using agree_lookup(7) [OF that assms(3)] .
  have "map_of (pj_aliases s) (stageArtifactAliasKey runId stageId (ap_name ref)) =
      map_of (pj_aliases t) (stageArtifactAliasKey runId stageId (ap_name ref))" using al [OF assms(1)] .
  then show ?thesis
    unfolding complete_ref_def prod.case adopt_artifact_def art point_alias_def using assms(1)
    by (auto simp: Let_def split: option.split intro!: agree_put)
qed

lemma agree_complete_refs:
  assumes "agree sc s t"
    "\<And>ref. ref \<in> set refs \<Longrightarrow> ap_artifactId ref \<in> set (sc_artifacts sc) \<and> (runId, stageId, ap_name ref) \<in> set (sc_aliases sc)"
  shows "loop_agree sc (rfold (complete_ref e runId stageId) refs (n, s)) (rfold (complete_ref e runId stageId) refs (n, t))"
  using assms
proof (induction refs arbitrary: n s t)
  case (Cons ref refs)
  have "loop_agree sc (complete_ref e runId stageId ref (n, s)) (complete_ref e runId stageId ref (n, t))"
    using Cons.prems by (intro agree_complete_ref) auto
  then show ?case
    using Cons.IH Cons.prems(2)
    by (cases "complete_ref e runId stageId ref (n, s)"; cases "complete_ref e runId stageId ref (n, t)") auto
qed simp

lemma agree_completed:
  assumes "agree sc s t" "scope_of_case pl Stage_Completed e payload = Inr sc"
  shows "res_agree sc (apply_stage_completed s e payload) (apply_stage_completed t e payload)"
proof -
  from assms(2) obtain runId stageId refs where
    req: "requireRunId e payload = Inr runId" "requireStageId e payload = Inr stageId"
      "requireArtifactRefs e payload ''artifacts'' = Inr refs"
    and sc: "sc_runs sc = [runId]" "sc_artifacts sc = map ap_artifactId refs"
      "sc_aliases sc = map (\<lambda>ref. (runId, stageId, ap_name ref)) refs"
    by (auto simp: scope_of_case_def empty_scope_def rbind_eq_Inr)
  have eqs: "existing_run s e runId = existing_run t e runId"
    using existing_run_agree [OF assms(1)] sc by simp
  have loop: "loop_agree sc (rfold (complete_ref e runId stageId) refs ([], s)) (rfold (complete_ref e runId stageId) refs ([], t))"
    by (rule agree_complete_refs [OF assms(1)]) (simp add: sc)
  show ?thesis
    unfolding apply_stage_completed_def req rbind_simps eqs
    using loop
    by (cases "rfold (complete_ref e runId stageId) refs ([], s)"; cases "rfold (complete_ref e runId stageId) refs ([], t)")
       (auto simp: Let_def intro!: res_agree_rbind agree_put)
qed

lemma apply_agree:
  assumes "agree sc s t" "eventScope pl e = Inr sc"
  shows "res_agree sc (applyEvent pl s e) (applyEvent pl t e)"
proof -
  from assms(2) obtain payload c where pl: "payloadObject e = Inr payload" "map_of case_labels (se_type e) = Some c"
    and sc: "scope_of_case pl c e payload = Inr sc"
    by (auto simp: eventScope_def rbind_eq_Inr reducer_error_def split: option.splits)
  have "res_agree sc (apply_case pl c s e payload) (apply_case pl c t e payload)"
  proof (cases "c \<in> {Registration_Committed, Lease_Changed, Artifact_Published, Stage_Completed}")
    case True
    then show ?thesis
      using sc agree_registration [OF assms(1)] agree_lease [OF assms(1)] agree_published [OF assms(1)]
        agree_completed [OF assms(1)]
      by (auto simp: apply_case_def)
  next
    case False
    then show ?thesis using agree_case_simple [OF assms(1) sc] by simp
  qed
  then show ?thesis by (auto simp: applyEvent_def pl)
qed

section \<open>Every changed row cites the event and has the next revision\<close>

definition wf_keys :: "projection \<Rightarrow> bool" where
  "wf_keys s \<longleftrightarrow> (\<forall>t k r. look s t k = Some r \<longrightarrow> row_key r = k)"

lemma advances_put:
  assumes "advances e sc s s1"
  shows "in_scope sc T_run_projection k \<Longrightarrow> row_step e (look s T_run_projection k) (RunRow r) \<Longrightarrow>
      rn_runId r = k \<Longrightarrow> advances e sc s (put_run k r s1)"
    "in_scope sc T_codebase k \<Longrightarrow> row_step e (look s T_codebase k) (CodebaseRow cb) \<Longrightarrow>
      cb_codebaseId cb = k \<Longrightarrow> advances e sc s (put_codebase k cb s1)"
    "in_scope sc T_repository k \<Longrightarrow> row_step e (look s T_repository k) (RepositoryRow ry) \<Longrightarrow>
      ry_repositoryId ry = k \<Longrightarrow> advances e sc s (put_repository k ry s1)"
    "in_scope sc T_workspace k \<Longrightarrow> row_step e (look s T_workspace k) (WorkspaceRow wk) \<Longrightarrow>
      wk_workspaceId wk = k \<Longrightarrow> advances e sc s (put_workspace k wk s1)"
    "in_scope sc T_workspace_lease k \<Longrightarrow> row_step e (look s T_workspace_lease k) (LeaseRow ls) \<Longrightarrow>
      ls_checkoutPath ls = k \<Longrightarrow> advances e sc s (put_lease k ls s1)"
    "in_scope sc T_artifact k \<Longrightarrow> row_step e (look s T_artifact k) (ArtifactRow af) \<Longrightarrow>
      af_artifactId af = k \<Longrightarrow> advances e sc s (put_artifact k af s1)"
    "in_scope sc T_stage_artifact_alias k \<Longrightarrow> row_step e (look s T_stage_artifact_alias k) (AliasRow al) \<Longrightarrow>
      stageArtifactAliasKey (al_runId al) (al_stageId al) (al_name al) = k \<Longrightarrow> advances e sc s (put_alias k al s1)"
  using assms by (simp_all add: advances_def look_put del: look.simps in_scope.simps)

lemma existing_run_Inr: "existing_run s e k = Inr r \<longleftrightarrow> map_of (pj_runs s) k = Some r"
  by (simp add: existing_run_def reducer_error_def split: option.splits)

lemma reducer_error_Inr [simp]: "reducer_error e m \<noteq> Inr x"
  by (simp add: reducer_error_def)

lemma wf_run_id: "wf_keys s \<Longrightarrow> map_of (pj_runs s) k = Some r \<Longrightarrow> rn_runId r = k"
  unfolding wf_keys_def by (metis look.simps(1) option.simps(9) row_key.simps(1))

lemma next_run_step:
  "map_of (pj_runs s) k = Some r \<Longrightarrow>
   rn_revision r' = rn_revision r + 1 \<Longrightarrow> rn_lastEventSequence r' = se_sequence e \<Longrightarrow> rn_updatedAt r' = se_recordedAt e \<Longrightarrow>
   row_step e (look s T_run_projection k) (RunRow r')"
  by (simp add: row_step_def)

lemma advances_run:
  assumes "wf_keys s" "scope_of_case pl c e payload = Inr sc" "apply_case pl c s e payload = Inr s'"
    "c \<in> {Run_Created, Run_Status_Changed, Run_Touched, Run_Workspace_Assigned, Run_Instructions_Snapshotted,
          Run_Capability_Landed}"
  shows "advances e sc s s'"
proof -
  from scoped_run [OF assms(2)] assms(4) obtain runId where
    run: "requireRunId e payload = Inr runId" "sc_runs sc = [runId]" by auto
  show ?thesis
  proof (cases "c = Run_Created")
    case True
    with assms(3) run show ?thesis
      by (auto simp: apply_case_def apply_run_created_def rbind_eq_Inr row_step_def split: if_splits
          intro!: advances_put advances_refl)
  next
    case False
    with assms(3,4) run obtain r where r: "map_of (pj_runs s) runId = Some r"
      by (auto simp: apply_case_def apply_defs rbind_eq_Inr existing_run_Inr)
    have key: "rn_runId r = runId" using wf_run_id [OF assms(1) r] .
    from assms(3,4) False run r key show ?thesis
      by (cases "rn_capabilityLandingJson r")
        (auto simp: apply_case_def apply_defs rbind_eq_Inr existing_run_def next_run_def row_step_def
          split: if_splits intro!: advances_put(1) advances_refl)
  qed
qed

lemma advances_identity:
  assumes "scope_of_case pl c e payload = Inr sc" "apply_case pl c s e payload = Inr s'"
    "c \<in> {Codebase_Registered, Repository_Registered, Workspace_Registered, Provisioning_Recorded}"
  shows "advances e sc s s'"
  using assms
  by (auto simp: apply_case_def apply_defs scope_of_case_def empty_scope_def rbind_eq_Inr row_step_def Let_def
      split: if_splits option.splits intro!: advances_put advances_refl)

lemma lease_row_fields:
  assumes "lease_row e payload previous cp wk ry fence lid st = Inr l"
  shows "ls_checkoutPath l = cp" "ls_workspaceId l = wk" "ls_repositoryId l = ry" "ls_fencingRevision l = fence"
    "ls_leaseId l = lid" "ls_leaseState l = st" "ls_lastEventSequence l = se_sequence e" "ls_updatedAt l = se_recordedAt e"
    "ls_revision l = (case previous of None \<Rightarrow> 0 | Some p \<Rightarrow> ls_revision p) + 1"
  using assms by (auto simp: lease_row_def rbind_eq_Inr)

text \<open>What the reducer checks of a lease event and what it writes.\<close>

lemma lease_changed:
  assumes "apply_lease_changed s e payload = Inr s'"
  obtains k l where "requireString e payload ''checkoutPath'' = Inr k" "s' = put_lease k l s"
    "lease_row e payload (map_of (pj_workspaceLeases s) k) k (ls_workspaceId l) (ls_repositoryId l)
       (ls_fencingRevision l) (ls_leaseId l) (ls_leaseState l) = Inr l"
    "1 \<le> ls_fencingRevision l"
    "lease_violation (se_type e) (map_of (pj_workspaceLeases s) k) (ls_fencingRevision l) (ls_leaseId l)
       (ls_leaseState l) (ls_workspaceId l) (ls_repositoryId l) = None"
    "ls_leaseState l = expected_lease_state (se_type e)"
    "map_of (pj_workspaces s) (ls_workspaceId l) \<noteq> None" "map_of (pj_repositories s) (ls_repositoryId l) \<noteq> None"
proof -
  from assms obtain k wk ry fence lid lst l where
    req: "requireString e payload ''checkoutPath'' = Inr k"
      "map_of (pj_workspaces s) wk \<noteq> None" "map_of (pj_repositories s) ry \<noteq> None" "\<not> fence < 1"
      "lease_violation (se_type e) (map_of (pj_workspaceLeases s) k) fence lid lst wk ry = None"
      "lst = expected_lease_state (se_type e)"
    and l: "lease_row e payload (map_of (pj_workspaceLeases s) k) k wk ry fence lid lst = Inr l"
    and s': "s' = put_lease k l s"
    by (auto simp: apply_lease_changed_def Let_def rbind_eq_Inr split: if_splits option.splits) blast
  show ?thesis
    by (rule that [OF req(1) s']) (use req l in \<open>simp_all add: lease_row_fields [OF l]\<close>)
qed

lemma advances_lease:
  assumes "scope_of_case pl Lease_Changed e payload = Inr sc" "apply_lease_changed s e payload = Inr s'"
  shows "advances e sc s s'"
  using assms(2)
proof (rule lease_changed)
  fix k l
  assume k: "requireString e payload ''checkoutPath'' = Inr k" and s': "s' = put_lease k l s"
    and l: "lease_row e payload (map_of (pj_workspaceLeases s) k) k (ls_workspaceId l) (ls_repositoryId l)
       (ls_fencingRevision l) (ls_leaseId l) (ls_leaseState l) = Inr l"
  have "in_scope sc T_workspace_lease k"
    using assms(1) k by (auto simp: scope_of_case_def empty_scope_def rbind_eq_Inr)
  then show ?thesis
    unfolding s' using lease_row_fields [OF l]
    by (intro advances_put(5) advances_refl) (auto simp: row_step_def split: option.split)
qed

lemma advances_never_removes: "advances e sc s s1 \<Longrightarrow> look s1 t k = None \<Longrightarrow> look s t k = None"
  unfolding advances_def by (metis option.distinct(1))

lemma advances_repositories:
  assumes "advances e sc s s1" "\<And>r. r \<in> set rs \<Longrightarrow> in_scope sc T_repository (rr_repositoryId r) \<and> look s T_repository (rr_repositoryId r) = None"
  shows "advances e sc s (fold (\<lambda>r. put_repository (rr_repositoryId r) (registered_repository e rg r)) rs s1)"
  using assms
proof (induction rs arbitrary: s1)
  case (Cons r rs)
  have "advances e sc s (put_repository (rr_repositoryId r) (registered_repository e rg r) s1)"
    using Cons.prems(1) Cons.prems(2) [of r]
    by (intro advances_put(3)) (auto simp: row_step_def registered_repository_def simp del: look.simps)
  with Cons.IH Cons.prems(2) show ?case by simp
qed simp

lemma advances_registration:
  assumes "scope_of_case pl Registration_Committed e payload = Inr sc"
    "apply_registration_committed pl s e payload = Inr s'"
  shows "advances e sc s s'"
proof -
  from assms(1) obtain rg where rg: "requireRegistration pl e payload = Inr rg"
    and sc: "sc_codebases sc = [rg_codebaseId rg]" "sc_repositories sc = map rr_repositoryId (rg_repositories rg)"
    by (auto simp: scope_of_case_def empty_scope_def rbind_eq_Inr)
  show ?thesis
  proof (cases "map_of (pj_codebases s) (rg_codebaseId rg)")
    case Some
    with assms(2) rg show ?thesis
      by (auto simp: apply_registration_committed_def advances_refl split: if_splits)
  next
    case None
    from assms(2) rg None have
      fresh: "find (\<lambda>r. map_of (pj_repositories s) (rr_repositoryId r) \<noteq> None) (rg_repositories rg) = None"
      by (auto simp: apply_registration_committed_def split: option.splits)
    then have "in_scope sc T_repository (rr_repositoryId r) \<and> look s T_repository (rr_repositoryId r) = None"
      if "r \<in> set (rg_repositories rg)" for r
      using that sc by (auto simp: find_None_iff)
    note repos = advances_repositories [OF _ this]
    from assms(2) rg None fresh show ?thesis
      by (auto simp: apply_registration_committed_def sc row_step_def intro!: repos advances_put(2) advances_refl)
  qed
qed

lemma advances_published:
  assumes "scope_of_case pl Artifact_Published e payload = Inr sc" "apply_artifact_published s e payload = Inr s'"
  shows "advances e sc s s'"
proof -
  from assms(2) obtain runId stageId a ref where
    req: "requireString e payload ''artifactId'' = Inr a" "map_of (pj_artifacts s) a = None"
    and ref: "toArtifactRefPayload e (JObj payload) 0 = Inr ref"
    and s': "s' = put_artifact a (artifact_row_of e runId stageId ref) s"
    by (auto simp: apply_artifact_published_def rbind_eq_Inr split: if_splits)
  have "ap_artifactId ref = a" using ref req(1) by (auto simp: toArtifactRefPayload_def rbind_eq_Inr)
  moreover have "in_scope sc T_artifact a"
    using assms(1) req(1) by (auto simp: scope_of_case_def empty_scope_def rbind_eq_Inr)
  ultimately show ?thesis
    unfolding s' using req(2)
    by (intro advances_put(6)) (simp_all add: advances_refl row_step_def artifact_row_of_def)
qed

text \<open>The loop over the entries of a completed stage: names not seen yet still have their old alias.\<close>

definition complete_inv ::
  "state_event \<Rightarrow> projection_scope \<Rightarrow> string \<Rightarrow> string \<Rightarrow> projection \<Rightarrow> string list \<times> projection \<Rightarrow> bool" where
  "complete_inv e sc runId stageId s acc \<longleftrightarrow>
     advances e sc s (snd acc) \<and> pj_runs (snd acc) = pj_runs s \<and>
     (\<forall>name. name \<notin> set (fst acc) \<longrightarrow>
        map_of (pj_aliases (snd acc)) (stageArtifactAliasKey runId stageId name) =
        map_of (pj_aliases s) (stageArtifactAliasKey runId stageId name))"

lemma alias_key_name: "stageArtifactAliasKey r st n = stageArtifactAliasKey r st m \<longleftrightarrow> n = m"
  by (simp add: stageArtifactAliasKey_def)

lemma complete_ref_inv:
  assumes inv: "complete_inv e sc runId stageId s (seen, s1)"
    and scope: "ap_artifactId ref \<in> set (sc_artifacts sc)" "(runId, stageId, ap_name ref) \<in> set (sc_aliases sc)"
    and step: "complete_ref e runId stageId ref (seen, s1) = Inr acc"
  shows "complete_inv e sc runId stageId s acc"
proof -
  from step obtain s2 where new: "ap_name ref \<notin> set seen"
    and adopt: "adopt_artifact e runId stageId ref s1 = Inr s2"
    and acc: "acc = (seen @ [ap_name ref], point_alias e runId stageId ref s2)"
    by (auto simp: complete_ref_def rbind_eq_Inr split: if_splits)
  from adopt have s2: "s2 = s1 \<or> map_of (pj_artifacts s1) (ap_artifactId ref) = None \<and>
      s2 = put_artifact (ap_artifactId ref) (artifact_row_of e runId stageId ref) s1"
    by (auto simp: adopt_artifact_def split: option.splits)
  from inv have adv: "advances e sc s s1" and runs: "pj_runs s1 = pj_runs s"
    and als: "\<And>n. n \<notin> set seen \<Longrightarrow> map_of (pj_aliases s1) (stageArtifactAliasKey runId stageId n) =
        map_of (pj_aliases s) (stageArtifactAliasKey runId stageId n)"
    by (simp_all add: complete_inv_def)
  have none: "map_of (pj_artifacts s) k = None" if "map_of (pj_artifacts s1) k = None" for k
    using advances_never_removes [OF adv, of T_artifact k] that by simp
  have adv2: "advances e sc s s2"
    using s2 adv scope(1) none
    by (auto simp: row_step_def artifact_row_of_def intro!: advances_put(6))
  have als2: "pj_aliases s2 = pj_aliases s1" "pj_runs s2 = pj_runs s1" using s2 by (auto simp: put_artifact_def)
  have "advances e sc s (snd acc)"
    unfolding acc snd_conv point_alias_def Let_def using scope(2) als [OF new]
    by (intro advances_put(7) [OF adv2]) (force simp: row_step_def als2 split: option.split)+
  then show ?thesis
    using als runs by (simp add: complete_inv_def acc als2 point_alias_def Let_def put_alias_def js_simps alias_key_name)
qed

lemma complete_refs_inv:
  assumes "complete_inv e sc runId stageId s acc0"
    "\<And>ref. ref \<in> set refs \<Longrightarrow> ap_artifactId ref \<in> set (sc_artifacts sc) \<and> (runId, stageId, ap_name ref) \<in> set (sc_aliases sc)"
    "rfold (complete_ref e runId stageId) refs acc0 = Inr acc"
  shows "complete_inv e sc runId stageId s acc"
  using assms
proof (induction refs arbitrary: acc0)
  case (Cons ref refs)
  then obtain acc1 where "complete_ref e runId stageId ref acc0 = Inr acc1" "rfold (complete_ref e runId stageId) refs acc1 = Inr acc"
    by (auto simp: rbind_eq_Inr)
  moreover have "complete_inv e sc runId stageId s acc1"
    using complete_ref_inv [of e sc runId stageId s "fst acc0" "snd acc0" ref acc1] Cons.prems calculation(1) by simp
  ultimately show ?case using Cons.IH Cons.prems(2) by simp
qed simp

lemma advances_completed:
  assumes "wf_keys s" "scope_of_case pl Stage_Completed e payload = Inr sc" "apply_stage_completed s e payload = Inr s'"
  shows "advances e sc s s'"
proof -
  from assms(3) obtain runId r stageId refs seen s1 where
    req: "requireRunId e payload = Inr runId" "map_of (pj_runs s) runId = Some r" "requireStageId e payload = Inr stageId"
      "requireArtifactRefs e payload ''artifacts'' = Inr refs"
    and loop: "rfold (complete_ref e runId stageId) refs ([], s) = Inr (seen, s1)"
    and s': "s' = s1 \<or> s' = put_run runId ((next_run e r)\<lparr>rn_status := ''succeeded''\<rparr>) s1"
    by (auto simp: apply_stage_completed_def rbind_eq_Inr existing_run_Inr Let_def split: if_splits)
  from assms(2) req have sc: "sc_runs sc = [runId]" "sc_artifacts sc = map ap_artifactId refs"
      "sc_aliases sc = map (\<lambda>ref. (runId, stageId, ap_name ref)) refs"
    by (auto simp: scope_of_case_def empty_scope_def rbind_eq_Inr)
  have "complete_inv e sc runId stageId s ([], s)" by (simp add: complete_inv_def advances_refl)
  then have "complete_inv e sc runId stageId s (seen, s1)"
    by (rule complete_refs_inv [OF _ _ loop]) (simp add: sc)
  then have "advances e sc s s1" by (simp add: complete_inv_def)
  moreover have "row_step e (look s T_run_projection runId) (RunRow ((next_run e r)\<lparr>rn_status := ''succeeded''\<rparr>))"
    by (rule next_run_step [OF req(2)]) (simp_all add: next_run_def)
  ultimately show ?thesis
    using s' wf_run_id [OF assms(1) req(2)] sc(1)
    by (auto simp: next_run_def simp del: look.simps intro!: advances_put(1))
qed

lemma apply_advances:
  assumes "wf_keys s" "eventScope pl e = Inr sc" "applyEvent pl s e = Inr s'"
  shows "advances e sc s s'"
proof -
  from assms(2) obtain payload c where pl: "payloadObject e = Inr payload" "map_of case_labels (se_type e) = Some c"
    and sc: "scope_of_case pl c e payload = Inr sc"
    by (auto simp: eventScope_def rbind_eq_Inr split: option.splits)
  from assms(3) pl have ap: "apply_case pl c s e payload = Inr s'"
    by (auto simp: applyEvent_def split: if_splits)
  show ?thesis
    using sc ap advances_run [OF assms(1) sc ap] advances_identity [OF sc ap]
      advances_lease [of pl e payload sc s s'] advances_registration [of pl e payload sc s s']
      advances_published [of pl e payload sc s s'] advances_completed [OF assms(1), of pl e payload sc s']
    by (cases c) (simp_all add: apply_case_def)
qed

lemma advances_wf: "advances e sc s s' \<Longrightarrow> wf_keys s \<Longrightarrow> wf_keys s'"
proof -
  assume adv: "advances e sc s s'" and wf: "wf_keys s"
  have "row_key r = k" if "look s' t k = Some r" for t k r
  proof (cases "look s' t k = look s t k")
    case True
    with that wf show ?thesis by (simp add: wf_keys_def)
  next
    case False
    with adv that show ?thesis unfolding advances_def by (metis option.inject)
  qed
  then show ?thesis by (simp add: wf_keys_def)
qed

end
