(* ===== verification/Projection_Rows.thy ===== *)
theory Projection_Rows
  imports Projection_Change
begin

text \<open>
  The rows of the projection as SQLite columns: the encoders of
  \<open>packages/state/src/projection/state.ts\<close>, the narrowing decoders of \<open>identity.ts\<close>, \<open>run.ts\<close>,
  \<open>workspace-lease.ts\<close> and \<open>state.ts\<close> over \<open>database/pragma.ts\<close>, and the diff of two projections
  into explicit writes. A raw row maps a column name to a value; a missing column is \<open>undefined\<close>.
\<close>

section \<open>Column values\<close>

datatype sqlval = SNull | SInt int | SText string

type_synonym rawrow = "string \<Rightarrow> sqlval option"

definition show_integer :: "int \<Rightarrow> string" where
  "show_integer n = (if n < 0 then ''-'' @ show_nat (nat (- n)) else show_nat (nat n))"

definition type_of :: "sqlval option \<Rightarrow> string" where
  "type_of v = (case v of None \<Rightarrow> ''undefined'' | Some SNull \<Rightarrow> ''object'' | Some (SInt _) \<Rightarrow> ''number''
     | Some (SText _) \<Rightarrow> ''string'')"

definition MAX_SAFE_INTEGER :: int where "MAX_SAFE_INTEGER = 9007199254740991"

definition toSafeInteger :: "sqlval option \<Rightarrow> string \<Rightarrow> int res" where
  "toSafeInteger v what =
     (case v of
        Some (SInt n) \<Rightarrow>
          if \<bar>n\<bar> \<le> MAX_SAFE_INTEGER then Inr n
          else Inl (Thrown (what @ '' is not a safe integer: '' @ show_integer n))
      | _ \<Rightarrow> Inl (Thrown (what @ '' is not a number or bigint (got '' @ type_of v @ '')'')))"

definition toText :: "sqlval option \<Rightarrow> string \<Rightarrow> string res" where
  "toText v what =
     (case v of Some (SText s) \<Rightarrow> Inr s
      | _ \<Rightarrow> Inl (Thrown (what @ '' is not a string (got '' @ type_of v @ '')'')))"

definition toNullableText :: "sqlval option \<Rightarrow> string \<Rightarrow> string option res" where
  "toNullableText v what =
     (if v = Some SNull then Inr None else rbind (toText v what) (\<lambda>s. Inr (Some s)))"

definition nullable_val :: "string option \<Rightarrow> sqlval" where
  "nullable_val x = (case x of None \<Rightarrow> SNull | Some s \<Rightarrow> SText s)"

section \<open>Encoders\<close>

definition runRow :: "run_state \<Rightarrow> rawrow" where
  "runRow st = map_of
     [(''run_id'', SText (rn_runId st)), (''status'', SText (rn_status st)),
      (''revision'', SInt (rn_revision st)), (''last_event_sequence'', SInt (rn_lastEventSequence st)),
      (''codebase_id'', SText (rn_codebaseId st)), (''updated_at'', SText (rn_updatedAt st)),
      (''workspace_id'', nullable_val (rn_workspaceId st)),
      (''instruction_snapshot_sha256'', nullable_val (rn_instructionSnapshotSha256 st)),
      (''instruction_snapshot_json'', nullable_val (rn_instructionSnapshotJson st)),
      (''capability_landing_json'', nullable_val (rn_capabilityLandingJson st))]"

definition codebaseRow :: "codebase_state \<Rightarrow> rawrow" where
  "codebaseRow st = map_of
     [(''codebase_id'', SText (cb_codebaseId st)), (''revision'', SInt (cb_revision st)),
      (''last_event_sequence'', SInt (cb_lastEventSequence st)), (''updated_at'', SText (cb_updatedAt st)),
      (''name'', nullable_val (cb_name st)), (''root_path'', nullable_val (cb_rootPath st)),
      (''topology_sha256'', nullable_val (cb_topologySha256 st)),
      (''configuration_sha256'', nullable_val (cb_configurationSha256 st)),
      (''registration_json'', nullable_val (cb_registrationJson st)),
      (''instruction_snapshot_json'', nullable_val (cb_instructionSnapshotJson st))]"

definition repositoryRow :: "repository_state \<Rightarrow> rawrow" where
  "repositoryRow st = map_of
     [(''repository_id'', SText (ry_repositoryId st)), (''codebase_id'', SText (ry_codebaseId st)),
      (''revision'', SInt (ry_revision st)), (''last_event_sequence'', SInt (ry_lastEventSequence st)),
      (''updated_at'', SText (ry_updatedAt st)), (''name'', nullable_val (ry_name st)),
      (''repository_path'', nullable_val (ry_repositoryPath st)),
      (''git_common_directory'', nullable_val (ry_gitCommonDirectory st)),
      (''remotes_json'', nullable_val (ry_remotesJson st)),
      (''default_remote'', nullable_val (ry_defaultRemote st)),
      (''default_branch'', nullable_val (ry_defaultBranch st))]"

definition workspaceRow :: "workspace_state \<Rightarrow> rawrow" where
  "workspaceRow st = map_of
     [(''workspace_id'', SText (wk_workspaceId st)), (''codebase_id'', SText (wk_codebaseId st)),
      (''repository_id'', nullable_val (wk_repositoryId st)),
      (''lifecycle_status'', nullable_val (wk_lifecycleStatus st)),
      (''checkout_path'', nullable_val (wk_checkoutPath st)),
      (''configuration_sha256'', nullable_val (wk_configurationSha256 st)),
      (''manifest_json'', nullable_val (wk_manifestJson st)),
      (''revision'', SInt (wk_revision st)), (''last_event_sequence'', SInt (wk_lastEventSequence st)),
      (''updated_at'', SText (wk_updatedAt st))]"

definition workspaceLeaseRow :: "lease_state \<Rightarrow> rawrow" where
  "workspaceLeaseRow st = map_of
     [(''checkout_path'', SText (ls_checkoutPath st)), (''workspace_id'', SText (ls_workspaceId st)),
      (''repository_id'', SText (ls_repositoryId st)), (''lease_id'', SText (ls_leaseId st)),
      (''owner_id'', SText (ls_ownerId st)), (''boot_witness'', nullable_val (ls_bootWitness st)),
      (''process_witnesses_json'', SText (ls_processWitnessesJson st)),
      (''expected_sha'', SText (ls_expectedSha st)),
      (''fencing_revision'', SInt (ls_fencingRevision st)), (''lease_state'', SText (ls_leaseState st)),
      (''acquired_at'', SText (ls_acquiredAt st)), (''renewed_at'', SText (ls_renewedAt st)),
      (''expires_at'', SText (ls_expiresAt st)), (''released_at'', nullable_val (ls_releasedAt st)),
      (''revision'', SInt (ls_revision st)), (''last_event_sequence'', SInt (ls_lastEventSequence st)),
      (''updated_at'', SText (ls_updatedAt st))]"

definition artifact_columns :: "artifact_state \<Rightarrow> string \<Rightarrow> rawrow" where
  "artifact_columns st lineage = map_of
     [(''artifact_id'', SText (af_artifactId st)), (''run_id'', SText (af_runId st)),
      (''stage_id'', SText (af_stageId st)), (''name'', SText (af_name st)),
      (''content_hash'', SText (af_contentHash st)), (''byte_length'', SInt (af_byteLength st)),
      (''media_type'', SText (af_mediaType st)), (''content_schema_id'', SText (af_contentSchemaId st)),
      (''producer'', SText (af_producer st)), (''source_lineage'', SText lineage),
      (''relative_path'', SText (af_relativePath st)), (''created_at'', SText (af_createdAt st)),
      (''revision'', SInt (af_revision st)), (''last_event_sequence'', SInt (af_lastEventSequence st))]"

definition artifactRow :: "platform \<Rightarrow> artifact_state \<Rightarrow> rawrow res" where
  "artifactRow pl st =
     rbind (stringifyCanonical pl (JArr (map JStr (af_sourceLineage st)))) (\<lambda>lineage.
       Inr (artifact_columns st lineage))"

definition stageArtifactAliasRow :: "alias_state \<Rightarrow> rawrow" where
  "stageArtifactAliasRow st = map_of
     [(''run_id'', SText (al_runId st)), (''stage_id'', SText (al_stageId st)), (''name'', SText (al_name st)),
      (''artifact_id'', SText (al_artifactId st)), (''revision'', SInt (al_revision st)),
      (''last_event_sequence'', SInt (al_lastEventSequence st)), (''updated_at'', SText (al_updatedAt st))]"

section \<open>Decoders\<close>

definition toRunProjectionRow :: "rawrow \<Rightarrow> run_state res" where
  "toRunProjectionRow raw =
     rbind (toText (raw ''status'') ''run_projection.status'') (\<lambda>status.
       if \<not> isRunStatus status then
         Inl (Thrown (''run_projection.status is not a known RunStatus: '' @ status))
       else
         rbind (toText (raw ''run_id'') ''run_projection.run_id'') (\<lambda>runId.
         rbind (toSafeInteger (raw ''revision'') ''run_projection.revision'') (\<lambda>revision.
         rbind (toSafeInteger (raw ''last_event_sequence'') ''run_projection.last_event_sequence'') (\<lambda>lastEventSequence.
         rbind (toNullableText (raw ''workspace_id'') ''run_projection.workspace_id'') (\<lambda>workspaceId.
         rbind (toText (raw ''codebase_id'') ''run_projection.codebase_id'') (\<lambda>codebaseId.
         rbind (toText (raw ''updated_at'') ''run_projection.updated_at'') (\<lambda>updatedAt.
         rbind (toNullableText (raw ''instruction_snapshot_sha256'') ''run_projection.instruction_snapshot_sha256'') (\<lambda>sha.
         rbind (toNullableText (raw ''instruction_snapshot_json'') ''run_projection.instruction_snapshot_json'') (\<lambda>snapshot.
         rbind (case raw ''capability_landing_json'' of None \<Rightarrow> Inr None
                | Some v \<Rightarrow> toNullableText (Some v) ''run_projection.capability_landing_json'') (\<lambda>landing.
           Inr \<lparr>rn_runId = runId, rn_status = status, rn_revision = revision,
                rn_lastEventSequence = lastEventSequence, rn_workspaceId = workspaceId,
                rn_codebaseId = codebaseId, rn_updatedAt = updatedAt, rn_instructionSnapshotSha256 = sha,
                rn_instructionSnapshotJson = snapshot, rn_capabilityLandingJson = landing\<rparr>))))))))))"

definition toCodebaseRow :: "rawrow \<Rightarrow> codebase_state res" where
  "toCodebaseRow raw =
     rbind (toText (raw ''codebase_id'') ''codebase.codebase_id'') (\<lambda>codebaseId.
     rbind (toSafeInteger (raw ''revision'') ''codebase.revision'') (\<lambda>revision.
     rbind (toSafeInteger (raw ''last_event_sequence'') ''codebase.last_event_sequence'') (\<lambda>lastEventSequence.
     rbind (toText (raw ''updated_at'') ''codebase.updated_at'') (\<lambda>updatedAt.
     rbind (toNullableText (raw ''name'') ''codebase.name'') (\<lambda>name.
     rbind (toNullableText (raw ''root_path'') ''codebase.root_path'') (\<lambda>rootPath.
     rbind (toNullableText (raw ''topology_sha256'') ''codebase.topology_sha256'') (\<lambda>topologySha256.
     rbind (toNullableText (raw ''configuration_sha256'') ''codebase.configuration_sha256'') (\<lambda>configurationSha256.
     rbind (toNullableText (raw ''registration_json'') ''codebase.registration_json'') (\<lambda>registrationJson.
     rbind (toNullableText (raw ''instruction_snapshot_json'') ''codebase.instruction_snapshot_json'') (\<lambda>snapshot.
       Inr \<lparr>cb_codebaseId = codebaseId, cb_revision = revision, cb_lastEventSequence = lastEventSequence,
            cb_updatedAt = updatedAt, cb_name = name, cb_rootPath = rootPath,
            cb_topologySha256 = topologySha256, cb_configurationSha256 = configurationSha256,
            cb_registrationJson = registrationJson, cb_instructionSnapshotJson = snapshot\<rparr>))))))))))"

definition toRepositoryRow :: "rawrow \<Rightarrow> repository_state res" where
  "toRepositoryRow raw =
     rbind (toText (raw ''repository_id'') ''repository.repository_id'') (\<lambda>repositoryId.
     rbind (toText (raw ''codebase_id'') ''repository.codebase_id'') (\<lambda>codebaseId.
     rbind (toSafeInteger (raw ''revision'') ''repository.revision'') (\<lambda>revision.
     rbind (toSafeInteger (raw ''last_event_sequence'') ''repository.last_event_sequence'') (\<lambda>lastEventSequence.
     rbind (toText (raw ''updated_at'') ''repository.updated_at'') (\<lambda>updatedAt.
     rbind (toNullableText (raw ''name'') ''repository.name'') (\<lambda>name.
     rbind (toNullableText (raw ''repository_path'') ''repository.repository_path'') (\<lambda>repositoryPath.
     rbind (toNullableText (raw ''git_common_directory'') ''repository.git_common_directory'') (\<lambda>gitCommonDirectory.
     rbind (toNullableText (raw ''remotes_json'') ''repository.remotes_json'') (\<lambda>remotesJson.
     rbind (toNullableText (raw ''default_remote'') ''repository.default_remote'') (\<lambda>defaultRemote.
     rbind (toNullableText (raw ''default_branch'') ''repository.default_branch'') (\<lambda>defaultBranch.
       Inr \<lparr>ry_repositoryId = repositoryId, ry_codebaseId = codebaseId, ry_revision = revision,
            ry_lastEventSequence = lastEventSequence, ry_updatedAt = updatedAt, ry_name = name,
            ry_repositoryPath = repositoryPath, ry_gitCommonDirectory = gitCommonDirectory,
            ry_remotesJson = remotesJson, ry_defaultRemote = defaultRemote,
            ry_defaultBranch = defaultBranch\<rparr>)))))))))))"

definition toWorkspaceRow :: "rawrow \<Rightarrow> workspace_state res" where
  "toWorkspaceRow raw =
     rbind (toText (raw ''workspace_id'') ''workspace.workspace_id'') (\<lambda>workspaceId.
     rbind (toText (raw ''codebase_id'') ''workspace.codebase_id'') (\<lambda>codebaseId.
     rbind (toNullableText (raw ''repository_id'') ''workspace.repository_id'') (\<lambda>repositoryId.
     rbind (toNullableText (raw ''lifecycle_status'') ''workspace.lifecycle_status'') (\<lambda>lifecycleStatus.
     rbind (toNullableText (raw ''checkout_path'') ''workspace.checkout_path'') (\<lambda>checkoutPath.
     rbind (toNullableText (raw ''configuration_sha256'') ''workspace.configuration_sha256'') (\<lambda>configurationSha256.
     rbind (toNullableText (raw ''manifest_json'') ''workspace.manifest_json'') (\<lambda>manifestJson.
     rbind (toSafeInteger (raw ''revision'') ''workspace.revision'') (\<lambda>revision.
     rbind (toSafeInteger (raw ''last_event_sequence'') ''workspace.last_event_sequence'') (\<lambda>lastEventSequence.
     rbind (toText (raw ''updated_at'') ''workspace.updated_at'') (\<lambda>updatedAt.
       Inr \<lparr>wk_workspaceId = workspaceId, wk_codebaseId = codebaseId, wk_repositoryId = repositoryId,
            wk_lifecycleStatus = lifecycleStatus, wk_checkoutPath = checkoutPath,
            wk_configurationSha256 = configurationSha256, wk_manifestJson = manifestJson,
            wk_revision = revision, wk_lastEventSequence = lastEventSequence,
            wk_updatedAt = updatedAt\<rparr>))))))))))"

definition toWorkspaceLeaseRow :: "rawrow \<Rightarrow> lease_state res" where
  "toWorkspaceLeaseRow raw =
     rbind (toText (raw ''checkout_path'') ''workspace_lease.checkout_path'') (\<lambda>checkoutPath.
     rbind (toText (raw ''workspace_id'') ''workspace_lease.workspace_id'') (\<lambda>workspaceId.
     rbind (toText (raw ''repository_id'') ''workspace_lease.repository_id'') (\<lambda>repositoryId.
     rbind (toText (raw ''lease_id'') ''workspace_lease.lease_id'') (\<lambda>leaseId.
     rbind (toText (raw ''owner_id'') ''workspace_lease.owner_id'') (\<lambda>ownerId.
     rbind (toNullableText (raw ''boot_witness'') ''workspace_lease.boot_witness'') (\<lambda>bootWitness.
     rbind (toText (raw ''process_witnesses_json'') ''workspace_lease.process_witnesses_json'') (\<lambda>processWitnessesJson.
     rbind (toText (raw ''expected_sha'') ''workspace_lease.expected_sha'') (\<lambda>expectedSha.
     rbind (toSafeInteger (raw ''fencing_revision'') ''workspace_lease.fencing_revision'') (\<lambda>fencingRevision.
     rbind (toText (raw ''lease_state'') ''workspace_lease.lease_state'') (\<lambda>leaseState.
     rbind (toText (raw ''acquired_at'') ''workspace_lease.acquired_at'') (\<lambda>acquiredAt.
     rbind (toText (raw ''renewed_at'') ''workspace_lease.renewed_at'') (\<lambda>renewedAt.
     rbind (toText (raw ''expires_at'') ''workspace_lease.expires_at'') (\<lambda>expiresAt.
     rbind (toNullableText (raw ''released_at'') ''workspace_lease.released_at'') (\<lambda>releasedAt.
     rbind (toSafeInteger (raw ''revision'') ''workspace_lease.revision'') (\<lambda>revision.
     rbind (toSafeInteger (raw ''last_event_sequence'') ''workspace_lease.last_event_sequence'') (\<lambda>lastEventSequence.
     rbind (toText (raw ''updated_at'') ''workspace_lease.updated_at'') (\<lambda>updatedAt.
       Inr \<lparr>ls_checkoutPath = checkoutPath, ls_workspaceId = workspaceId, ls_repositoryId = repositoryId,
            ls_leaseId = leaseId, ls_ownerId = ownerId, ls_bootWitness = bootWitness,
            ls_processWitnessesJson = processWitnessesJson, ls_expectedSha = expectedSha,
            ls_fencingRevision = fencingRevision, ls_leaseState = leaseState, ls_acquiredAt = acquiredAt,
            ls_renewedAt = renewedAt, ls_expiresAt = expiresAt, ls_releasedAt = releasedAt,
            ls_revision = revision, ls_lastEventSequence = lastEventSequence,
            ls_updatedAt = updatedAt\<rparr>)))))))))))))))))"

definition toArtifactIdArray :: "(string \<Rightarrow> js_number option) \<Rightarrow> sqlval option \<Rightarrow> string \<Rightarrow> string list res" where
  "toArtifactIdArray num raw what =
     rbind (toText raw what) (\<lambda>txt.
     rbind (parseJsonValue num txt what) (\<lambda>parsed.
       case parsed of
         JArr entries \<Rightarrow>
           rseq (map (\<lambda>(index, entry). case entry of JStr s \<Rightarrow> Inr s
                  | _ \<Rightarrow> Inl (Thrown (what @ ''['' @ show_nat index @ ''] is not a string'')))
             (zip [0..<length entries] entries))
       | _ \<Rightarrow> Inl (Thrown (what @ '' is not a JSON array''))))"

definition toArtifactRow :: "(string \<Rightarrow> js_number option) \<Rightarrow> rawrow \<Rightarrow> artifact_state res" where
  "toArtifactRow num raw =
     rbind (toText (raw ''artifact_id'') ''artifact.artifact_id'') (\<lambda>artifactId.
     rbind (toText (raw ''run_id'') ''artifact.run_id'') (\<lambda>runId.
     rbind (toText (raw ''stage_id'') ''artifact.stage_id'') (\<lambda>stageId.
     rbind (toText (raw ''name'') ''artifact.name'') (\<lambda>name.
     rbind (toText (raw ''content_hash'') ''artifact.content_hash'') (\<lambda>contentHash.
     rbind (toSafeInteger (raw ''byte_length'') ''artifact.byte_length'') (\<lambda>byteLength.
     rbind (toText (raw ''media_type'') ''artifact.media_type'') (\<lambda>mediaType.
     rbind (toText (raw ''content_schema_id'') ''artifact.content_schema_id'') (\<lambda>contentSchemaId.
     rbind (toText (raw ''producer'') ''artifact.producer'') (\<lambda>producer.
     rbind (toArtifactIdArray num (raw ''source_lineage'') ''artifact.source_lineage'') (\<lambda>sourceLineage.
     rbind (toText (raw ''relative_path'') ''artifact.relative_path'') (\<lambda>relativePath.
     rbind (toText (raw ''created_at'') ''artifact.created_at'') (\<lambda>createdAt.
     rbind (toSafeInteger (raw ''revision'') ''artifact.revision'') (\<lambda>revision.
     rbind (toSafeInteger (raw ''last_event_sequence'') ''artifact.last_event_sequence'') (\<lambda>lastEventSequence.
       Inr \<lparr>af_artifactId = artifactId, af_runId = runId, af_stageId = stageId, af_name = name,
            af_contentHash = contentHash, af_byteLength = byteLength, af_mediaType = mediaType,
            af_contentSchemaId = contentSchemaId, af_producer = producer, af_sourceLineage = sourceLineage,
            af_relativePath = relativePath, af_createdAt = createdAt, af_revision = revision,
            af_lastEventSequence = lastEventSequence\<rparr>))))))))))))))"

definition toStageArtifactAliasRow :: "rawrow \<Rightarrow> alias_state res" where
  "toStageArtifactAliasRow raw =
     rbind (toText (raw ''run_id'') ''stage_artifact_alias.run_id'') (\<lambda>runId.
     rbind (toText (raw ''stage_id'') ''stage_artifact_alias.stage_id'') (\<lambda>stageId.
     rbind (toText (raw ''name'') ''stage_artifact_alias.name'') (\<lambda>name.
     rbind (toText (raw ''artifact_id'') ''stage_artifact_alias.artifact_id'') (\<lambda>artifactId.
     rbind (toSafeInteger (raw ''revision'') ''stage_artifact_alias.revision'') (\<lambda>revision.
     rbind (toSafeInteger (raw ''last_event_sequence'') ''stage_artifact_alias.last_event_sequence'') (\<lambda>lastEventSequence.
     rbind (toText (raw ''updated_at'') ''stage_artifact_alias.updated_at'') (\<lambda>updatedAt.
       Inr \<lparr>al_runId = runId, al_stageId = stageId, al_name = name, al_artifactId = artifactId,
            al_revision = revision, al_lastEventSequence = lastEventSequence, al_updatedAt = updatedAt\<rparr>)))))))"

section \<open>Reading a row back\<close>

text \<open>The columns of each row.\<close>

lemma run_columns:
  "runRow st ''run_id'' = Some (SText (rn_runId st))"
  "runRow st ''status'' = Some (SText (rn_status st))"
  "runRow st ''revision'' = Some (SInt (rn_revision st))"
  "runRow st ''last_event_sequence'' = Some (SInt (rn_lastEventSequence st))"
  "runRow st ''codebase_id'' = Some (SText (rn_codebaseId st))"
  "runRow st ''updated_at'' = Some (SText (rn_updatedAt st))"
  "runRow st ''workspace_id'' = Some (nullable_val (rn_workspaceId st))"
  "runRow st ''instruction_snapshot_sha256'' = Some (nullable_val (rn_instructionSnapshotSha256 st))"
  "runRow st ''instruction_snapshot_json'' = Some (nullable_val (rn_instructionSnapshotJson st))"
  "runRow st ''capability_landing_json'' = Some (nullable_val (rn_capabilityLandingJson st))"
  by (simp_all add: runRow_def)

lemma codebase_columns:
  "codebaseRow st ''codebase_id'' = Some (SText (cb_codebaseId st))"
  "codebaseRow st ''revision'' = Some (SInt (cb_revision st))"
  "codebaseRow st ''last_event_sequence'' = Some (SInt (cb_lastEventSequence st))"
  "codebaseRow st ''updated_at'' = Some (SText (cb_updatedAt st))"
  "codebaseRow st ''name'' = Some (nullable_val (cb_name st))"
  "codebaseRow st ''root_path'' = Some (nullable_val (cb_rootPath st))"
  "codebaseRow st ''topology_sha256'' = Some (nullable_val (cb_topologySha256 st))"
  "codebaseRow st ''configuration_sha256'' = Some (nullable_val (cb_configurationSha256 st))"
  "codebaseRow st ''registration_json'' = Some (nullable_val (cb_registrationJson st))"
  "codebaseRow st ''instruction_snapshot_json'' = Some (nullable_val (cb_instructionSnapshotJson st))"
  by (simp_all add: codebaseRow_def)

lemma repository_columns:
  "repositoryRow st ''repository_id'' = Some (SText (ry_repositoryId st))"
  "repositoryRow st ''codebase_id'' = Some (SText (ry_codebaseId st))"
  "repositoryRow st ''revision'' = Some (SInt (ry_revision st))"
  "repositoryRow st ''last_event_sequence'' = Some (SInt (ry_lastEventSequence st))"
  "repositoryRow st ''updated_at'' = Some (SText (ry_updatedAt st))"
  "repositoryRow st ''name'' = Some (nullable_val (ry_name st))"
  "repositoryRow st ''repository_path'' = Some (nullable_val (ry_repositoryPath st))"
  "repositoryRow st ''git_common_directory'' = Some (nullable_val (ry_gitCommonDirectory st))"
  "repositoryRow st ''remotes_json'' = Some (nullable_val (ry_remotesJson st))"
  "repositoryRow st ''default_remote'' = Some (nullable_val (ry_defaultRemote st))"
  "repositoryRow st ''default_branch'' = Some (nullable_val (ry_defaultBranch st))"
  by (simp_all add: repositoryRow_def)

lemma workspace_columns:
  "workspaceRow st ''workspace_id'' = Some (SText (wk_workspaceId st))"
  "workspaceRow st ''codebase_id'' = Some (SText (wk_codebaseId st))"
  "workspaceRow st ''repository_id'' = Some (nullable_val (wk_repositoryId st))"
  "workspaceRow st ''lifecycle_status'' = Some (nullable_val (wk_lifecycleStatus st))"
  "workspaceRow st ''checkout_path'' = Some (nullable_val (wk_checkoutPath st))"
  "workspaceRow st ''configuration_sha256'' = Some (nullable_val (wk_configurationSha256 st))"
  "workspaceRow st ''manifest_json'' = Some (nullable_val (wk_manifestJson st))"
  "workspaceRow st ''revision'' = Some (SInt (wk_revision st))"
  "workspaceRow st ''last_event_sequence'' = Some (SInt (wk_lastEventSequence st))"
  "workspaceRow st ''updated_at'' = Some (SText (wk_updatedAt st))"
  by (simp_all add: workspaceRow_def)

lemma lease_columns:
  "workspaceLeaseRow st ''checkout_path'' = Some (SText (ls_checkoutPath st))"
  "workspaceLeaseRow st ''workspace_id'' = Some (SText (ls_workspaceId st))"
  "workspaceLeaseRow st ''repository_id'' = Some (SText (ls_repositoryId st))"
  "workspaceLeaseRow st ''lease_id'' = Some (SText (ls_leaseId st))"
  "workspaceLeaseRow st ''owner_id'' = Some (SText (ls_ownerId st))"
  "workspaceLeaseRow st ''boot_witness'' = Some (nullable_val (ls_bootWitness st))"
  "workspaceLeaseRow st ''process_witnesses_json'' = Some (SText (ls_processWitnessesJson st))"
  "workspaceLeaseRow st ''expected_sha'' = Some (SText (ls_expectedSha st))"
  "workspaceLeaseRow st ''fencing_revision'' = Some (SInt (ls_fencingRevision st))"
  "workspaceLeaseRow st ''lease_state'' = Some (SText (ls_leaseState st))"
  "workspaceLeaseRow st ''acquired_at'' = Some (SText (ls_acquiredAt st))"
  "workspaceLeaseRow st ''renewed_at'' = Some (SText (ls_renewedAt st))"
  "workspaceLeaseRow st ''expires_at'' = Some (SText (ls_expiresAt st))"
  "workspaceLeaseRow st ''released_at'' = Some (nullable_val (ls_releasedAt st))"
  "workspaceLeaseRow st ''revision'' = Some (SInt (ls_revision st))"
  "workspaceLeaseRow st ''last_event_sequence'' = Some (SInt (ls_lastEventSequence st))"
  "workspaceLeaseRow st ''updated_at'' = Some (SText (ls_updatedAt st))"
  by (simp_all add: workspaceLeaseRow_def)

lemma artifact_row_columns:
  "artifact_columns st lineage ''artifact_id'' = Some (SText (af_artifactId st))"
  "artifact_columns st lineage ''run_id'' = Some (SText (af_runId st))"
  "artifact_columns st lineage ''stage_id'' = Some (SText (af_stageId st))"
  "artifact_columns st lineage ''name'' = Some (SText (af_name st))"
  "artifact_columns st lineage ''content_hash'' = Some (SText (af_contentHash st))"
  "artifact_columns st lineage ''byte_length'' = Some (SInt (af_byteLength st))"
  "artifact_columns st lineage ''media_type'' = Some (SText (af_mediaType st))"
  "artifact_columns st lineage ''content_schema_id'' = Some (SText (af_contentSchemaId st))"
  "artifact_columns st lineage ''producer'' = Some (SText (af_producer st))"
  "artifact_columns st lineage ''source_lineage'' = Some (SText lineage)"
  "artifact_columns st lineage ''relative_path'' = Some (SText (af_relativePath st))"
  "artifact_columns st lineage ''created_at'' = Some (SText (af_createdAt st))"
  "artifact_columns st lineage ''revision'' = Some (SInt (af_revision st))"
  "artifact_columns st lineage ''last_event_sequence'' = Some (SInt (af_lastEventSequence st))"
  by (simp_all add: artifact_columns_def)

lemma alias_columns:
  "stageArtifactAliasRow st ''run_id'' = Some (SText (al_runId st))"
  "stageArtifactAliasRow st ''stage_id'' = Some (SText (al_stageId st))"
  "stageArtifactAliasRow st ''name'' = Some (SText (al_name st))"
  "stageArtifactAliasRow st ''artifact_id'' = Some (SText (al_artifactId st))"
  "stageArtifactAliasRow st ''revision'' = Some (SInt (al_revision st))"
  "stageArtifactAliasRow st ''last_event_sequence'' = Some (SInt (al_lastEventSequence st))"
  "stageArtifactAliasRow st ''updated_at'' = Some (SText (al_updatedAt st))"
  by (simp_all add: stageArtifactAliasRow_def)

lemma toText_Some [simp]: "toText (Some (SText s)) what = Inr s"
  by (simp add: toText_def)

lemma toNullableText_val [simp]: "toNullableText (Some (nullable_val x)) what = Inr x"
  by (cases x) (simp_all add: toNullableText_def nullable_val_def)

lemma toSafeInteger_Inr [simp]: "toSafeInteger (Some (SInt n)) what = Inr m \<longleftrightarrow> m = n \<and> \<bar>n\<bar> \<le> MAX_SAFE_INTEGER"
  by (auto simp: toSafeInteger_def)

lemma toSafeInteger_safe: "\<bar>n\<bar> \<le> MAX_SAFE_INTEGER \<Longrightarrow> toSafeInteger (Some (SInt n)) what = Inr n"
  by simp

lemma run_row_read:
  "toRunProjectionRow (runRow st) = Inr st' \<longleftrightarrow>
   st' = st \<and> isRunStatus (rn_status st) \<and> \<bar>rn_revision st\<bar> \<le> MAX_SAFE_INTEGER \<and> \<bar>rn_lastEventSequence st\<bar> \<le> MAX_SAFE_INTEGER"
  by (auto simp: toRunProjectionRow_def run_columns rbind_eq_Inr)

lemma codebase_row_read:
  "toCodebaseRow (codebaseRow st) = Inr st' \<longleftrightarrow>
   st' = st \<and> \<bar>cb_revision st\<bar> \<le> MAX_SAFE_INTEGER \<and> \<bar>cb_lastEventSequence st\<bar> \<le> MAX_SAFE_INTEGER"
  by (auto simp: toCodebaseRow_def codebase_columns rbind_eq_Inr)

lemma repository_row_read:
  "toRepositoryRow (repositoryRow st) = Inr st' \<longleftrightarrow>
   st' = st \<and> \<bar>ry_revision st\<bar> \<le> MAX_SAFE_INTEGER \<and> \<bar>ry_lastEventSequence st\<bar> \<le> MAX_SAFE_INTEGER"
  by (auto simp: toRepositoryRow_def repository_columns rbind_eq_Inr)

lemma workspace_row_read:
  "toWorkspaceRow (workspaceRow st) = Inr st' \<longleftrightarrow>
   st' = st \<and> \<bar>wk_revision st\<bar> \<le> MAX_SAFE_INTEGER \<and> \<bar>wk_lastEventSequence st\<bar> \<le> MAX_SAFE_INTEGER"
  by (auto simp: toWorkspaceRow_def workspace_columns rbind_eq_Inr)

lemma lease_row_read:
  "toWorkspaceLeaseRow (workspaceLeaseRow st) = Inr st' \<longleftrightarrow>
   st' = st \<and> \<bar>ls_fencingRevision st\<bar> \<le> MAX_SAFE_INTEGER \<and> \<bar>ls_revision st\<bar> \<le> MAX_SAFE_INTEGER \<and>
   \<bar>ls_lastEventSequence st\<bar> \<le> MAX_SAFE_INTEGER"
  by (auto simp: toWorkspaceLeaseRow_def lease_columns rbind_eq_Inr)

lemma alias_row_read:
  "toStageArtifactAliasRow (stageArtifactAliasRow st) = Inr st' \<longleftrightarrow>
   st' = st \<and> \<bar>al_revision st\<bar> \<le> MAX_SAFE_INTEGER \<and> \<bar>al_lastEventSequence st\<bar> \<le> MAX_SAFE_INTEGER"
  by (auto simp: toStageArtifactAliasRow_def alias_columns rbind_eq_Inr)

text \<open>The text of a list of strings, and reading it back.\<close>

lemma string_array_canonical: "canonicalize (JArr (map JStr ss)) 0 = Inr (JArr (map JStr ss))"
proof -
  have "map (\<lambda>v. canonicalize v (0 + 1)) (map JStr ss) = map Inr (map JStr ss)" by (simp add: MAX_DEPTH_def)
  then show ?thesis unfolding canonicalize.simps by (simp only: rseq_map_Inr) (simp add: MAX_DEPTH_def)
qed

lemma string_array_text:
  "stringifyCanonical pl (JArr (map JStr ss)) = Inr (json_stringify pl (JArr (map JStr ss)))"
  by (simp only: stringifyCanonical_def string_array_canonical rbind_simps)

lemma string_array_entries:
  "rseq (map (\<lambda>(index, entry). case entry of JStr s \<Rightarrow> Inr s | _ \<Rightarrow> f index) (zip is (map JStr ss))) =
   (Inr (take (length is) ss) :: string list res)"
proof (induction ss arbitrary: "is")
  case (Cons s ss)
  then show ?case by (cases "is") auto
qed simp

lemma string_array_read:
  assumes "numbers_read_back pl num"
  shows "toArtifactIdArray num (Some (SText (json_stringify pl (JArr (map JStr ss))))) what = Inr ss"
proof -
  have "wf_json (JArr (map JStr ss))" by simp
  then obtain c where c: "canonicalize (JArr (map JStr ss)) 0 = Inr c"
    "parseJsonValue num (json_stringify pl (JArr (map JStr ss))) what = Inr c"
    using stored_text_read [OF assms _ string_array_text] by metis
  have "c = JArr (map JStr ss)" using c(1) by (simp only: string_array_canonical sum.inject)
  with c(2) show ?thesis
    by (simp add: toArtifactIdArray_def string_array_entries del: json_stringify.simps)
qed

lemma artifact_row_text: "artifactRow pl st = Inr (artifact_columns st (json_stringify pl (JArr (map JStr (af_sourceLineage st)))))"
  by (simp add: artifactRow_def string_array_text del: json_stringify.simps)

lemma artifact_row_read:
  assumes "numbers_read_back pl num"
  shows "toArtifactRow num (artifact_columns st (json_stringify pl (JArr (map JStr (af_sourceLineage st))))) = Inr st' \<longleftrightarrow>
   st' = st \<and> \<bar>af_byteLength st\<bar> \<le> MAX_SAFE_INTEGER \<and> \<bar>af_revision st\<bar> \<le> MAX_SAFE_INTEGER \<and>
   \<bar>af_lastEventSequence st\<bar> \<le> MAX_SAFE_INTEGER"
  by (auto simp: toArtifactRow_def artifact_row_columns rbind_eq_Inr string_array_read [OF assms] simp del: json_stringify.simps)

section \<open>Writes\<close>

record ProjectionWrite =
  pw_table :: ProjectionTable
  pw_key :: string
  pw_previousRevision :: "int option"
  pw_row :: rawrow

record 'r table_view =
  tv_table :: ProjectionTable
  tv_select :: "projection \<Rightarrow> (string, 'r) jsmap"
  tv_revisionOf :: "'r \<Rightarrow> int"
  tv_toRow :: "'r \<Rightarrow> rawrow res"

definition RUN_VIEW :: "run_state table_view" where
  "RUN_VIEW = \<lparr>tv_table = T_run_projection, tv_select = pj_runs, tv_revisionOf = rn_revision, tv_toRow = Inr \<circ> runRow\<rparr>"

definition CODEBASE_VIEW :: "codebase_state table_view" where
  "CODEBASE_VIEW = \<lparr>tv_table = T_codebase, tv_select = pj_codebases, tv_revisionOf = cb_revision, tv_toRow = Inr \<circ> codebaseRow\<rparr>"

definition REPOSITORY_VIEW :: "repository_state table_view" where
  "REPOSITORY_VIEW = \<lparr>tv_table = T_repository, tv_select = pj_repositories, tv_revisionOf = ry_revision, tv_toRow = Inr \<circ> repositoryRow\<rparr>"

definition WORKSPACE_VIEW :: "workspace_state table_view" where
  "WORKSPACE_VIEW = \<lparr>tv_table = T_workspace, tv_select = pj_workspaces, tv_revisionOf = wk_revision, tv_toRow = Inr \<circ> workspaceRow\<rparr>"

definition WORKSPACE_LEASE_VIEW :: "lease_state table_view" where
  "WORKSPACE_LEASE_VIEW = \<lparr>tv_table = T_workspace_lease, tv_select = pj_workspaceLeases, tv_revisionOf = ls_revision,
     tv_toRow = Inr \<circ> workspaceLeaseRow\<rparr>"

definition ARTIFACT_VIEW :: "platform \<Rightarrow> artifact_state table_view" where
  "ARTIFACT_VIEW pl = \<lparr>tv_table = T_artifact, tv_select = pj_artifacts, tv_revisionOf = af_revision, tv_toRow = artifactRow pl\<rparr>"

definition STAGE_ARTIFACT_ALIAS_VIEW :: "alias_state table_view" where
  "STAGE_ARTIFACT_ALIAS_VIEW = \<lparr>tv_table = T_stage_artifact_alias, tv_select = pj_aliases, tv_revisionOf = al_revision,
     tv_toRow = Inr \<circ> stageArtifactAliasRow\<rparr>"

text \<open>\<open>Object.keys(o).sort()\<close>: the keys of an object are distinct.\<close>

definition sorted_keys :: "(string, 'v) jsmap \<Rightarrow> string list" where
  "sorted_keys m = sort (remdups (map fst m))"

definition diff_row :: "'r table_view \<Rightarrow> projection \<Rightarrow> projection \<Rightarrow> string \<Rightarrow> ProjectionWrite list res" where
  "diff_row view before after key =
     (case map_of (tv_select view after) key of
        None \<Rightarrow> Inr []
      | Some next_row \<Rightarrow>
          (case map_of (tv_select view before) key of
             None \<Rightarrow>
               rbind (tv_toRow view next_row) (\<lambda>row.
                 Inr [\<lparr>pw_table = tv_table view, pw_key = key, pw_previousRevision = None, pw_row = row\<rparr>])
           | Some previous \<Rightarrow>
               if tv_revisionOf view previous = tv_revisionOf view next_row then Inr []
               else
                 rbind (tv_toRow view next_row) (\<lambda>row.
                   Inr [\<lparr>pw_table = tv_table view, pw_key = key,
                         pw_previousRevision = Some (tv_revisionOf view previous), pw_row = row\<rparr>])))"

definition diffTable :: "'r table_view \<Rightarrow> projection \<Rightarrow> projection \<Rightarrow> ProjectionWrite list res" where
  "diffTable view before after =
     rbind (rseq (map (diff_row view before after) (sorted_keys (tv_select view after)))) (\<lambda>writes. Inr (concat writes))"

text \<open>The tables in the order of \<open>TABLE_ORDER\<close>; the writes of each are computed in that order too.\<close>

definition diffProjectionState :: "platform \<Rightarrow> projection \<Rightarrow> projection \<Rightarrow> ProjectionWrite list res" where
  "diffProjectionState pl before after =
     rbind (rseq [diffTable (ARTIFACT_VIEW pl) before after, diffTable CODEBASE_VIEW before after,
                  diffTable REPOSITORY_VIEW before after, diffTable RUN_VIEW before after,
                  diffTable STAGE_ARTIFACT_ALIAS_VIEW before after, diffTable WORKSPACE_VIEW before after,
                  diffTable WORKSPACE_LEASE_VIEW before after]) (\<lambda>writes. Inr (concat writes))"

section \<open>Rows of any table\<close>

text \<open>The columns of a row of any table, and reading a raw row of a table.\<close>

fun encode :: "platform \<Rightarrow> prow \<Rightarrow> rawrow" where
  "encode pl (RunRow r) = runRow r"
| "encode pl (CodebaseRow r) = codebaseRow r"
| "encode pl (RepositoryRow r) = repositoryRow r"
| "encode pl (WorkspaceRow r) = workspaceRow r"
| "encode pl (LeaseRow r) = workspaceLeaseRow r"
| "encode pl (ArtifactRow r) = artifact_columns r (json_stringify pl (JArr (map JStr (af_sourceLineage r))))"
| "encode pl (AliasRow r) = stageArtifactAliasRow r"

fun decode :: "(string \<Rightarrow> js_number option) \<Rightarrow> ProjectionTable \<Rightarrow> rawrow \<Rightarrow> prow res" where
  "decode num T_run_projection raw = rbind (toRunProjectionRow raw) (Inr \<circ> RunRow)"
| "decode num T_codebase raw = rbind (toCodebaseRow raw) (Inr \<circ> CodebaseRow)"
| "decode num T_repository raw = rbind (toRepositoryRow raw) (Inr \<circ> RepositoryRow)"
| "decode num T_workspace raw = rbind (toWorkspaceRow raw) (Inr \<circ> WorkspaceRow)"
| "decode num T_workspace_lease raw = rbind (toWorkspaceLeaseRow raw) (Inr \<circ> LeaseRow)"
| "decode num T_artifact raw = rbind (toArtifactRow num raw) (Inr \<circ> ArtifactRow)"
| "decode num T_stage_artifact_alias raw = rbind (toStageArtifactAliasRow raw) (Inr \<circ> AliasRow)"

text \<open>The rows whose numbers are safe integers and whose status is known.\<close>

definition safe_row :: "prow \<Rightarrow> bool" where
  "safe_row r \<longleftrightarrow>
     \<bar>row_revision r\<bar> \<le> MAX_SAFE_INTEGER \<and> \<bar>row_sequence r\<bar> \<le> MAX_SAFE_INTEGER \<and>
     (case r of RunRow x \<Rightarrow> isRunStatus (rn_status x)
      | LeaseRow x \<Rightarrow> \<bar>ls_fencingRevision x\<bar> \<le> MAX_SAFE_INTEGER
      | ArtifactRow x \<Rightarrow> \<bar>af_byteLength x\<bar> \<le> MAX_SAFE_INTEGER
      | _ \<Rightarrow> True)"

lemma decode_encode:
  assumes "numbers_read_back pl num"
  shows "decode num (row_table r) (encode pl r) = Inr r' \<longleftrightarrow> r' = r \<and> safe_row r"
  by (cases r) (auto simp: rbind_eq_Inr run_row_read codebase_row_read repository_row_read workspace_row_read
      lease_row_read alias_row_read artifact_row_read [OF assms] safe_row_def simp del: json_stringify.simps)

text \<open>
  What a view contributes to the diff: its rows are the rows of its table, with their revision and
  their columns. The writes of a table follow from that alone.
\<close>

definition row_write :: "platform \<Rightarrow> projection \<Rightarrow> projection \<Rightarrow> ProjectionTable \<Rightarrow> string \<Rightarrow> ProjectionWrite list" where
  "row_write pl before after t k =
     (case look after t k of
        None \<Rightarrow> []
      | Some new \<Rightarrow>
          (case look before t k of
             None \<Rightarrow> [\<lparr>pw_table = t, pw_key = k, pw_previousRevision = None, pw_row = encode pl new\<rparr>]
           | Some old \<Rightarrow>
               if row_revision old = row_revision new then []
               else [\<lparr>pw_table = t, pw_key = k, pw_previousRevision = Some (row_revision old), pw_row = encode pl new\<rparr>]))"

locale row_view =
  fixes pl :: platform and v :: "'r table_view" and con :: "'r \<Rightarrow> prow"
  assumes look_view: "look s (tv_table v) k = map_option con (map_of (tv_select v s) k)"
    and revision_view: "tv_revisionOf v r = row_revision (con r)"
    and columns_view: "tv_toRow v r = Inr (encode pl (con r))"
begin

lemma diff_row_view: "diff_row v before after k = Inr (row_write pl before after (tv_table v) k)"
  by (simp add: diff_row_def row_write_def look_view revision_view columns_view split: option.split)

lemma diffTable_view:
  "diffTable v before after =
   Inr (concat (map (row_write pl before after (tv_table v)) (sorted_keys (tv_select v after))))"
proof -
  have "map (diff_row v before after) ks = map Inr (map (row_write pl before after (tv_table v)) ks)" for ks
    by (simp add: diff_row_view)
  then show ?thesis unfolding diffTable_def by (simp only: rseq_map_Inr rbind_simps)
qed

lemma sorted_keys_view: "k \<in> set (sorted_keys (tv_select v s)) \<longleftrightarrow> look s (tv_table v) k \<noteq> None"
  by (auto simp: sorted_keys_def look_view map_of_eq_None_iff)

end

interpretation run_view: row_view pl RUN_VIEW RunRow for pl
  by unfold_locales (simp_all add: RUN_VIEW_def)

interpretation codebase_view: row_view pl CODEBASE_VIEW CodebaseRow for pl
  by unfold_locales (simp_all add: CODEBASE_VIEW_def)

interpretation repository_view: row_view pl REPOSITORY_VIEW RepositoryRow for pl
  by unfold_locales (simp_all add: REPOSITORY_VIEW_def)

interpretation workspace_view: row_view pl WORKSPACE_VIEW WorkspaceRow for pl
  by unfold_locales (simp_all add: WORKSPACE_VIEW_def)

interpretation lease_view: row_view pl WORKSPACE_LEASE_VIEW LeaseRow for pl
  by unfold_locales (simp_all add: WORKSPACE_LEASE_VIEW_def)

interpretation artifact_view: row_view pl "ARTIFACT_VIEW pl" ArtifactRow for pl
  by unfold_locales (simp_all add: ARTIFACT_VIEW_def artifact_row_text del: json_stringify.simps)

interpretation alias_view: row_view pl STAGE_ARTIFACT_ALIAS_VIEW AliasRow for pl
  by unfold_locales (simp_all add: STAGE_ARTIFACT_ALIAS_VIEW_def)

section \<open>The writes of a change\<close>

definition table_order :: "ProjectionTable list" where
  "table_order = [T_artifact, T_codebase, T_repository, T_run_projection, T_stage_artifact_alias,
     T_workspace, T_workspace_lease]"

fun table_keys :: "projection \<Rightarrow> ProjectionTable \<Rightarrow> string list" where
  "table_keys s T_artifact = sorted_keys (pj_artifacts s)"
| "table_keys s T_codebase = sorted_keys (pj_codebases s)"
| "table_keys s T_repository = sorted_keys (pj_repositories s)"
| "table_keys s T_run_projection = sorted_keys (pj_runs s)"
| "table_keys s T_stage_artifact_alias = sorted_keys (pj_aliases s)"
| "table_keys s T_workspace = sorted_keys (pj_workspaces s)"
| "table_keys s T_workspace_lease = sorted_keys (pj_workspaceLeases s)"

lemma distinct_table_keys: "distinct (table_keys s t)"
  by (cases t) (simp_all add: sorted_keys_def)

lemma set_table_keys: "k \<in> set (table_keys s t) \<longleftrightarrow> look s t k \<noteq> None"
  by (cases t) (auto simp: sorted_keys_def map_of_eq_None_iff)

definition state_writes :: "platform \<Rightarrow> projection \<Rightarrow> projection \<Rightarrow> ProjectionWrite list" where
  "state_writes pl before after =
     concat (map (\<lambda>t. concat (map (row_write pl before after t) (table_keys after t))) table_order)"

lemma diff_state_writes: "diffProjectionState pl before after = Inr (state_writes pl before after)"
  unfolding diffProjectionState_def run_view.diffTable_view [where pl = pl] codebase_view.diffTable_view [where pl = pl]
    repository_view.diffTable_view [where pl = pl] workspace_view.diffTable_view [where pl = pl] lease_view.diffTable_view [where pl = pl]
    artifact_view.diffTable_view alias_view.diffTable_view [where pl = pl]
  by (simp add: state_writes_def table_order_def RUN_VIEW_def CODEBASE_VIEW_def REPOSITORY_VIEW_def
      WORKSPACE_VIEW_def WORKSPACE_LEASE_VIEW_def ARTIFACT_VIEW_def STAGE_ARTIFACT_ALIAS_VIEW_def)

definition write_id :: "ProjectionWrite \<Rightarrow> ProjectionTable \<times> string" where
  "write_id w = (pw_table w, pw_key w)"

lemma row_write_ids: "map write_id (row_write pl before after t k) = (if row_write pl before after t k = [] then [] else [(t, k)])"
  by (simp add: row_write_def write_id_def split: option.split)

lemma row_write_mem: "w \<in> set (row_write pl before after t k) \<Longrightarrow> write_id w = (t, k)"
  by (auto simp: row_write_def write_id_def split: option.splits if_splits)

lemma distinct_concat_ids:
  assumes "distinct ks" "\<And>k. distinct (f k)" "\<And>k x. x \<in> set (f k) \<Longrightarrow> g x = k"
  shows "distinct (concat (map f ks))"
  using assms(1)
proof (induction ks)
  case (Cons k ks)
  have "set (f k) \<inter> set (concat (map f ks)) = {}"
    using Cons.prems assms(3) [of _ k] assms(3) by (auto simp: disjoint_iff)
  with Cons assms(2) show ?case by simp
qed simp

lemma distinct_writes: "distinct (map write_id (state_writes pl before after))"
proof -
  have one: "distinct (map write_id (row_write pl before after t k))" for t k
    by (simp only: row_write_ids) simp
  have tbl: "distinct (concat (map (\<lambda>k. map write_id (row_write pl before after t k)) (table_keys after t)))" for t
    by (rule distinct_concat_ids [where g = snd, OF distinct_table_keys one]) (auto dest: row_write_mem)
  have "distinct (concat (map (\<lambda>t. concat (map (\<lambda>k. map write_id (row_write pl before after t k)) (table_keys after t))) table_order))"
    by (rule distinct_concat_ids [where g = fst, OF _ tbl]) (auto simp: table_order_def dest: row_write_mem)
  then show ?thesis by (simp add: state_writes_def map_concat comp_def)
qed

lemma set_writes: "w \<in> set (state_writes pl before after) \<longleftrightarrow> w \<in> set (row_write pl before after (pw_table w) (pw_key w))"
proof
  assume "w \<in> set (state_writes pl before after)"
  then obtain t k where "w \<in> set (row_write pl before after t k)" by (auto simp: state_writes_def)
  moreover from this have "pw_table w = t" "pw_key w = k" by (auto dest: row_write_mem simp: write_id_def)
  ultimately show "w \<in> set (row_write pl before after (pw_table w) (pw_key w))" by simp
next
  assume w: "w \<in> set (row_write pl before after (pw_table w) (pw_key w))"
  then have "pw_key w \<in> set (table_keys after (pw_table w))"
    unfolding set_table_keys by (cases "look after (pw_table w) (pw_key w)") (simp_all add: row_write_def)
  moreover have "pw_table w \<in> set table_order" by (cases "pw_table w") (simp_all add: table_order_def)
  ultimately show "w \<in> set (state_writes pl before after)" using w by (auto simp: state_writes_def)
qed

text \<open>After a change of the reducer, exactly the rows that differ are written.\<close>

lemma change_writes:
  assumes "advances e sc before after"
  shows "row_write pl before after t k =
    (if look after t k = look before t k then []
     else [\<lparr>pw_table = t, pw_key = k, pw_previousRevision = map_option row_revision (look before t k),
            pw_row = encode pl (the (look after t k))\<rparr>])"
proof (cases "look after t k = look before t k")
  case True
  then show ?thesis by (simp add: row_write_def split: option.split)
next
  case False
  with assms obtain new where "look after t k = Some new" "row_step e (look before t k) new"
    unfolding advances_def by blast
  with False show ?thesis by (auto simp: row_write_def row_step_def split: option.splits)
qed

end
