(* ===== verification/State_Store.thy ===== *)
theory State_Store
  imports Projection_Rows
begin

text \<open>
  The durable store over SQLite: appending to and reading the journal (\<open>journal/append.ts\<close>,
  \<open>journal/read.ts\<close>, \<open>journal/event.ts\<close>), loading the projection (\<open>projection/state.ts\<close>), and the one
  mutation path (\<open>command/commit.ts\<close>), all of \<open>packages/state/src\<close>.

  SQLite is the record \<open>sqlite\<close> of statements the code runs, an argument of every definition; what
  is relied on of it is the locale \<open>sql_store\<close> of theory \<open>State_Convergence\<close>. A statement that fails
  changes nothing and leaves the transaction open; whatever throws inside a transaction carries the
  database as it is at that moment, with all the statements that went before, and it is the \<open>ROLLBACK\<close> of the
  \<open>catch\<close> block that takes them back. The values the injected clock and id
  generator deliver to a command are its \<open>commit_inputs\<close>. The dash in two messages of
  \<open>StageAssertionFailedError\<close> is a code unit above 255 and is written as a hyphen.
\<close>

section \<open>Statements\<close>

record 'db sqlite =
  sq_isTransaction :: "'db \<Rightarrow> bool"
  sq_begin :: "'db \<Rightarrow> 'db res"
  sq_commit :: "'db \<Rightarrow> 'db res"
  sq_rollback :: "'db \<Rightarrow> 'db res"
  sq_userVersion :: "'db \<Rightarrow> int"
  sq_select :: "ProjectionTable \<Rightarrow> string list \<Rightarrow> sqlval list \<Rightarrow> 'db \<Rightarrow> rawrow option"
  sq_selectAll :: "ProjectionTable \<Rightarrow> string list \<Rightarrow> 'db \<Rightarrow> rawrow list"
  sq_insert :: "ProjectionTable \<Rightarrow> string list \<Rightarrow> sqlval list \<Rightarrow> 'db \<Rightarrow> 'db res"
  sq_update :: "ProjectionTable \<Rightarrow> string list \<Rightarrow> sqlval list \<Rightarrow> sqlval list \<Rightarrow> int \<Rightarrow> 'db \<Rightarrow> (int \<times> 'db) res"
  sq_insertEvent :: "string list \<Rightarrow> sqlval list \<Rightarrow> 'db \<Rightarrow> (int \<times> 'db) res"
  sq_selectEvents :: "int \<Rightarrow> 'db \<Rightarrow> rawrow list"
  sq_selectEvent :: "string \<Rightarrow> 'db \<Rightarrow> rawrow option"
  sq_maxSequence :: "'db \<Rightarrow> int"

text \<open>
  A step of a transaction returns, or throws with the database of that moment; \<open>at_db\<close> runs a
  computation that does not write.
\<close>

type_synonym ('a, 'db) step = "(js_error \<times> 'db) + 'a"

definition at_db :: "'db \<Rightarrow> 'a res \<Rightarrow> ('a, 'db) step" where
  "at_db db m = (case m of Inl e \<Rightarrow> Inl (e, db) | Inr x \<Rightarrow> Inr x)"

definition tbind :: "('a, 'db) step \<Rightarrow> ('a \<Rightarrow> ('b, 'db) step) \<Rightarrow> ('b, 'db) step" where
  "tbind m f = (case m of Inl e \<Rightarrow> Inl e | Inr x \<Rightarrow> f x)"

fun tfold :: "('a \<Rightarrow> 's \<Rightarrow> ('s, 'db) step) \<Rightarrow> 'a list \<Rightarrow> 's \<Rightarrow> ('s, 'db) step" where
  "tfold f [] s = Inr s"
| "tfold f (x # xs) s = tbind (f x s) (tfold f xs)"

lemma at_db_simps [simp]:
  "at_db db (Inr x) = Inr x" "at_db db (Inl e) = Inl (e, db)" "at_db db m = Inr x \<longleftrightarrow> m = Inr x"
  "at_db db m = Inl y \<longleftrightarrow> (\<exists>e. m = Inl e \<and> y = (e, db))"
  by (auto simp: at_db_def split: sum.splits)

lemma tbind_simps [simp]: "tbind (Inl e) f = Inl e" "tbind (Inr x) f = f x"
  by (simp_all add: tbind_def)

lemma tbind_eq_Inr: "tbind m f = Inr y \<longleftrightarrow> (\<exists>x. m = Inr x \<and> f x = Inr y)"
  by (cases m) simp_all

lemma tbind_eq_Inl: "tbind m f = Inl e \<longleftrightarrow> m = Inl e \<or> (\<exists>x. m = Inr x \<and> f x = Inl e)"
  by (cases m) simp_all

fun table_name :: "ProjectionTable \<Rightarrow> string" where
  "table_name T_artifact = ''artifact''"
| "table_name T_codebase = ''codebase''"
| "table_name T_repository = ''repository''"
| "table_name T_run_projection = ''run_projection''"
| "table_name T_stage_artifact_alias = ''stage_artifact_alias''"
| "table_name T_workspace = ''workspace''"
| "table_name T_workspace_lease = ''workspace_lease''"

section \<open>The journal\<close>

definition event_segment :: "string \<Rightarrow> bool" where
  "event_segment s \<longleftrightarrow>
     s \<noteq> [] \<and> CHR ''a'' \<le> hd s \<and> hd s \<le> CHR ''z'' \<and>
     (\<forall>c \<in> set (tl s). (CHR ''a'' \<le> c \<and> c \<le> CHR ''z'') \<or> is_digit c \<or> c = CHR ''_'')"

definition event_type_pattern :: "string \<Rightarrow> bool" where
  "event_type_pattern s \<longleftrightarrow>
     (let rest = dropWhile (\<lambda>c. c \<noteq> CHR ''.'') s
      in event_segment (takeWhile (\<lambda>c. c \<noteq> CHR ''.'') s) \<and> rest \<noteq> [] \<and> event_segment (tl rest))"

definition MAX_PAYLOAD_BYTES :: nat where "MAX_PAYLOAD_BYTES = 65536"
definition MAX_RUN_ID_BYTES :: nat where "MAX_RUN_ID_BYTES = 256"

record append_fields =
  ae_runId :: "string option"
  ae_type :: string
  ae_payload :: json
  ae_correlationId :: string
  ae_causationEventId :: "string option"
  ae_recordedAt :: string

definition event_insert_columns :: "string list" where
  "event_insert_columns =
     [''event_id'', ''run_id'', ''correlation_id'', ''causation_event_id'', ''type'', ''recorded_at'', ''payload'']"

definition check_run_id :: "string option \<Rightarrow> unit res" where
  "check_run_id runId =
     (case runId of
        None \<Rightarrow> Inr ()
      | Some r \<Rightarrow>
          if r = [] then Inl (Thrown ''appendEvent: runId must not be empty'')
          else if MAX_RUN_ID_BYTES < utf8ByteLength r then
            Inl (Thrown (''appendEvent: runId is '' @ show_nat (utf8ByteLength r) @ '' bytes, exceeding the ''
              @ show_nat MAX_RUN_ID_BYTES @ ''-byte bound''))
          else Inr ())"

definition appendEvent ::
  "'db sqlite \<Rightarrow> platform \<Rightarrow> string \<Rightarrow> append_fields \<Rightarrow> 'db \<Rightarrow> (state_event \<times> 'db, 'db) step" where
  "appendEvent sq pl eventId input db =
     (if \<not> sq_isTransaction sq db then
        Inl (Thrown ''appendEvent: must be called inside an open transaction'', db)
      else if \<not> event_type_pattern (ae_type input) then
        Inl (Thrown (''appendEvent: event type must match ^[a-z][a-z0-9_]*'' @ [CHR 0x5C] @ ''.[a-z][a-z0-9_]*$ (got ''
          @ [CHR 0x22] @ ae_type input @ [CHR 0x22] @ '')''), db)
      else
        tbind (at_db db (check_run_id (ae_runId input))) (\<lambda>_.
        tbind (at_db db (stringifyCanonical pl (ae_payload input))) (\<lambda>txt.
          if MAX_PAYLOAD_BYTES < utf8ByteLength txt then
            Inl (Thrown (''event payload for type '' @ [CHR 0x22] @ ae_type input @ [CHR 0x22] @ '' is ''
              @ show_nat (utf8ByteLength txt) @ '' bytes, exceeding the cap''), db)
          else
            tbind (at_db db (sq_insertEvent sq event_insert_columns
                     [SText eventId, nullable_val (ae_runId input), SText (ae_correlationId input),
                      nullable_val (ae_causationEventId input), SText (ae_type input),
                      SText (ae_recordedAt input), SText txt] db)) (\<lambda>(rowid, db1).
            tbind (at_db db1 (toSafeInteger (Some (SInt rowid)) ''state_event.sequence'')) (\<lambda>seqn.
              Inr (\<lparr>se_sequence = seqn, se_eventId = eventId, se_runId = ae_runId input,
                    se_correlationId = ae_correlationId input,
                    se_causationEventId = ae_causationEventId input, se_type = ae_type input,
                    se_recordedAt = ae_recordedAt input, se_payload = ae_payload input\<rparr>, db1))))))"

definition toStateEvent :: "(string \<Rightarrow> js_number option) \<Rightarrow> rawrow \<Rightarrow> state_event res" where
  "toStateEvent num raw =
     rbind (toNullableText (raw ''causation_event_id'') ''state_event.causation_event_id'') (\<lambda>causationEventId.
     rbind (toSafeInteger (raw ''sequence'') ''state_event.sequence'') (\<lambda>seqn.
     rbind (toText (raw ''event_id'') ''state_event.event_id'') (\<lambda>eventId.
     rbind (toNullableText (raw ''run_id'') ''state_event.run_id'') (\<lambda>runId.
     rbind (toText (raw ''correlation_id'') ''state_event.correlation_id'') (\<lambda>correlationId.
     rbind (toText (raw ''type'') ''state_event.type'') (\<lambda>type.
     rbind (toText (raw ''recorded_at'') ''state_event.recorded_at'') (\<lambda>recordedAt.
     rbind (toText (raw ''payload'') ''state_event.payload'') (\<lambda>txt.
     rbind (parseJsonValue num txt ''state_event.payload'') (\<lambda>payload.
       Inr \<lparr>se_sequence = seqn, se_eventId = eventId, se_runId = runId, se_correlationId = correlationId,
            se_causationEventId = causationEventId, se_type = type, se_recordedAt = recordedAt,
            se_payload = payload\<rparr>)))))))))"

definition readEvents :: "'db sqlite \<Rightarrow> (string \<Rightarrow> js_number option) \<Rightarrow> int \<Rightarrow> 'db \<Rightarrow> state_event list res" where
  "readEvents sq num throughSequence db = rseq (map (toStateEvent num) (sq_selectEvents sq throughSequence db))"

definition readEventById :: "'db sqlite \<Rightarrow> (string \<Rightarrow> js_number option) \<Rightarrow> string \<Rightarrow> 'db \<Rightarrow> state_event option res" where
  "readEventById sq num eventId db =
     (case sq_selectEvent sq eventId db of
        None \<Rightarrow> Inr None | Some raw \<Rightarrow> rbind (toStateEvent num raw) (\<lambda>e. Inr (Some e)))"

definition latestSequence :: "'db sqlite \<Rightarrow> 'db \<Rightarrow> int res" where
  "latestSequence sq db = toSafeInteger (Some (SInt (sq_maxSequence sq db))) ''latestSequence''"

section \<open>Loading the projection\<close>

definition CAPABILITY_LANDING_SCHEMA_VERSION :: int where "CAPABILITY_LANDING_SCHEMA_VERSION = 19"

definition runProjectionSelectColumns :: "int \<Rightarrow> string list" where
  "runProjectionSelectColumns schemaVersion =
     [''run_id'', ''status'', ''revision'', ''last_event_sequence'', ''workspace_id'', ''codebase_id'',
      ''updated_at'', ''instruction_snapshot_sha256'', ''instruction_snapshot_json''] @
     (if CAPABILITY_LANDING_SCHEMA_VERSION \<le> schemaVersion then [''capability_landing_json''] else [])"

definition CODEBASE_COLUMNS :: "string list" where
  "CODEBASE_COLUMNS =
     [''codebase_id'', ''revision'', ''last_event_sequence'', ''updated_at'', ''name'', ''root_path'',
      ''topology_sha256'', ''configuration_sha256'', ''registration_json'', ''instruction_snapshot_json'']"

definition REPOSITORY_COLUMNS :: "string list" where
  "REPOSITORY_COLUMNS =
     [''repository_id'', ''codebase_id'', ''revision'', ''last_event_sequence'', ''updated_at'', ''name'',
      ''repository_path'', ''git_common_directory'', ''remotes_json'', ''default_remote'', ''default_branch'']"

definition WORKSPACE_COLUMNS :: "string list" where
  "WORKSPACE_COLUMNS =
     [''workspace_id'', ''codebase_id'', ''repository_id'', ''lifecycle_status'', ''checkout_path'',
      ''configuration_sha256'', ''manifest_json'', ''revision'', ''last_event_sequence'', ''updated_at'']"

definition WORKSPACE_LEASE_COLUMNS :: "string list" where
  "WORKSPACE_LEASE_COLUMNS =
     [''checkout_path'', ''workspace_id'', ''repository_id'', ''lease_id'', ''owner_id'', ''boot_witness'',
      ''process_witnesses_json'', ''expected_sha'', ''fencing_revision'', ''lease_state'', ''acquired_at'',
      ''renewed_at'', ''expires_at'', ''released_at'', ''revision'', ''last_event_sequence'', ''updated_at'']"

definition ARTIFACT_COLUMNS :: "string list" where
  "ARTIFACT_COLUMNS =
     [''artifact_id'', ''run_id'', ''stage_id'', ''name'', ''content_hash'', ''byte_length'', ''media_type'',
      ''content_schema_id'', ''producer'', ''source_lineage'', ''relative_path'', ''created_at'', ''revision'',
      ''last_event_sequence'']"

definition STAGE_ARTIFACT_ALIAS_COLUMNS :: "string list" where
  "STAGE_ARTIFACT_ALIAS_COLUMNS =
     [''run_id'', ''stage_id'', ''name'', ''artifact_id'', ''revision'', ''last_event_sequence'', ''updated_at'']"

text \<open>The rows of one table: for each key that is stored, the row, under its name in the object.\<close>

definition load_keys ::
  "('k \<Rightarrow> rawrow option) \<Rightarrow> (rawrow \<Rightarrow> 'r res) \<Rightarrow> ('k \<Rightarrow> string) \<Rightarrow> 'k list \<Rightarrow> (string, 'r) jsmap res" where
  "load_keys get narrow name keys =
     rfold (\<lambda>k m. case get k of None \<Rightarrow> Inr m
              | Some raw \<Rightarrow> rbind (narrow raw) (\<lambda>row. Inr (AList.update (name k) row m))) keys []"

definition loadScopedProjectionState ::
  "'db sqlite \<Rightarrow> (string \<Rightarrow> js_number option) \<Rightarrow> projection_scope \<Rightarrow> 'db \<Rightarrow> projection res" where
  "loadScopedProjectionState sq num scope db =
     (let one = (\<lambda>t cols k. sq_select sq t cols [SText k] db)
      in
     rbind (load_keys (one T_run_projection (runProjectionSelectColumns (sq_userVersion sq db)))
              toRunProjectionRow id (sc_runs scope)) (\<lambda>runs.
     rbind (load_keys (one T_codebase CODEBASE_COLUMNS) toCodebaseRow id (sc_codebases scope)) (\<lambda>codebases.
     rbind (load_keys (one T_repository REPOSITORY_COLUMNS) toRepositoryRow id (sc_repositories scope)) (\<lambda>repositories.
     rbind (load_keys (one T_workspace WORKSPACE_COLUMNS) toWorkspaceRow id (sc_workspaces scope)) (\<lambda>workspaces.
     rbind (load_keys (one T_workspace_lease WORKSPACE_LEASE_COLUMNS) toWorkspaceLeaseRow id
              (sc_workspaceLeases scope)) (\<lambda>workspaceLeases.
     rbind (load_keys (one T_artifact ARTIFACT_COLUMNS) (toArtifactRow num) id (sc_artifacts scope)) (\<lambda>artifacts.
     rbind (load_keys (\<lambda>(runId, stageId, name).
                sq_select sq T_stage_artifact_alias STAGE_ARTIFACT_ALIAS_COLUMNS
                  [SText runId, SText stageId, SText name] db)
              toStageArtifactAliasRow (\<lambda>(runId, stageId, name). stageArtifactAliasKey runId stageId name)
              (sc_aliases scope)) (\<lambda>aliases.
       Inr \<lparr>pj_runs = runs, pj_codebases = codebases, pj_repositories = repositories,
            pj_workspaces = workspaces, pj_workspaceLeases = workspaceLeases, pj_artifacts = artifacts,
            pj_aliases = aliases\<rparr>))))))))"

definition load_all :: "rawrow list \<Rightarrow> (rawrow \<Rightarrow> 'r res) \<Rightarrow> ('r \<Rightarrow> string) \<Rightarrow> (string, 'r) jsmap res" where
  "load_all raws narrow name =
     rfold (\<lambda>raw m. rbind (narrow raw) (\<lambda>row. Inr (AList.update (name row) row m))) raws []"

definition loadStoredProjectionState :: "'db sqlite \<Rightarrow> (string \<Rightarrow> js_number option) \<Rightarrow> 'db \<Rightarrow> projection res" where
  "loadStoredProjectionState sq num db =
     rbind (load_all (sq_selectAll sq T_run_projection (runProjectionSelectColumns (sq_userVersion sq db)) db)
              toRunProjectionRow rn_runId) (\<lambda>runs.
     rbind (load_all (sq_selectAll sq T_codebase CODEBASE_COLUMNS db) toCodebaseRow cb_codebaseId) (\<lambda>codebases.
     rbind (load_all (sq_selectAll sq T_repository REPOSITORY_COLUMNS db) toRepositoryRow ry_repositoryId) (\<lambda>repositories.
     rbind (load_all (sq_selectAll sq T_workspace WORKSPACE_COLUMNS db) toWorkspaceRow wk_workspaceId) (\<lambda>workspaces.
     rbind (load_all (sq_selectAll sq T_workspace_lease WORKSPACE_LEASE_COLUMNS db) toWorkspaceLeaseRow
              ls_checkoutPath) (\<lambda>workspaceLeases.
     rbind (load_all (sq_selectAll sq T_artifact ARTIFACT_COLUMNS db) (toArtifactRow num) af_artifactId) (\<lambda>artifacts.
     rbind (load_all (sq_selectAll sq T_stage_artifact_alias STAGE_ARTIFACT_ALIAS_COLUMNS db)
              toStageArtifactAliasRow (\<lambda>row. stageArtifactAliasKey (al_runId row) (al_stageId row) (al_name row))) (\<lambda>aliases.
       Inr \<lparr>pj_runs = runs, pj_codebases = codebases, pj_repositories = repositories,
            pj_workspaces = workspaces, pj_workspaceLeases = workspaceLeases, pj_artifacts = artifacts,
            pj_aliases = aliases\<rparr>)))))))"

section \<open>Committing a state change\<close>

record table_sql =
  ts_insertColumns :: "string list"
  ts_updateColumns :: "string list"
  ts_updateKeyColumns :: "string list"

definition RUN_PROJECTION_SQL_BEFORE_LANDING :: table_sql where
  "RUN_PROJECTION_SQL_BEFORE_LANDING =
     \<lparr>ts_insertColumns = [''run_id'', ''status'', ''revision'', ''last_event_sequence'', ''codebase_id'',
        ''updated_at'', ''workspace_id'', ''instruction_snapshot_sha256'', ''instruction_snapshot_json''],
      ts_updateColumns = [''status'', ''revision'', ''last_event_sequence'', ''codebase_id'', ''updated_at'',
        ''workspace_id'', ''instruction_snapshot_sha256'', ''instruction_snapshot_json''],
      ts_updateKeyColumns = [''run_id'']\<rparr>"

definition RUN_PROJECTION_SQL :: table_sql where
  "RUN_PROJECTION_SQL =
     \<lparr>ts_insertColumns = [''run_id'', ''status'', ''revision'', ''last_event_sequence'', ''codebase_id'',
        ''updated_at'', ''workspace_id'', ''instruction_snapshot_sha256'', ''instruction_snapshot_json'',
        ''capability_landing_json''],
      ts_updateColumns = [''status'', ''revision'', ''last_event_sequence'', ''codebase_id'', ''updated_at'',
        ''workspace_id'', ''instruction_snapshot_sha256'', ''instruction_snapshot_json'',
        ''capability_landing_json''],
      ts_updateKeyColumns = [''run_id'']\<rparr>"

fun TABLE_SQL :: "ProjectionTable \<Rightarrow> table_sql" where
  "TABLE_SQL T_run_projection = RUN_PROJECTION_SQL"
| "TABLE_SQL T_codebase =
     \<lparr>ts_insertColumns = [''codebase_id'', ''revision'', ''last_event_sequence'', ''updated_at'', ''name'',
        ''root_path'', ''topology_sha256'', ''configuration_sha256'', ''registration_json'',
        ''instruction_snapshot_json''],
      ts_updateColumns = [''revision'', ''last_event_sequence'', ''updated_at'', ''name'', ''root_path'',
        ''topology_sha256'', ''configuration_sha256'', ''registration_json'', ''instruction_snapshot_json''],
      ts_updateKeyColumns = [''codebase_id'']\<rparr>"
| "TABLE_SQL T_repository =
     \<lparr>ts_insertColumns = [''repository_id'', ''codebase_id'', ''revision'', ''last_event_sequence'',
        ''updated_at'', ''name'', ''repository_path'', ''git_common_directory'', ''remotes_json'',
        ''default_remote'', ''default_branch''],
      ts_updateColumns = [''codebase_id'', ''revision'', ''last_event_sequence'', ''updated_at'', ''name'',
        ''repository_path'', ''git_common_directory'', ''remotes_json'', ''default_remote'', ''default_branch''],
      ts_updateKeyColumns = [''repository_id'']\<rparr>"
| "TABLE_SQL T_workspace =
     \<lparr>ts_insertColumns = [''workspace_id'', ''codebase_id'', ''repository_id'', ''lifecycle_status'',
        ''checkout_path'', ''configuration_sha256'', ''manifest_json'', ''revision'', ''last_event_sequence'',
        ''updated_at''],
      ts_updateColumns = [''codebase_id'', ''repository_id'', ''lifecycle_status'', ''checkout_path'',
        ''configuration_sha256'', ''manifest_json'', ''revision'', ''last_event_sequence'', ''updated_at''],
      ts_updateKeyColumns = [''workspace_id'']\<rparr>"
| "TABLE_SQL T_workspace_lease =
     \<lparr>ts_insertColumns = [''checkout_path'', ''workspace_id'', ''repository_id'', ''lease_id'', ''owner_id'',
        ''boot_witness'', ''process_witnesses_json'', ''expected_sha'', ''fencing_revision'', ''lease_state'',
        ''acquired_at'', ''renewed_at'', ''expires_at'', ''released_at'', ''revision'', ''last_event_sequence'',
        ''updated_at''],
      ts_updateColumns = [''workspace_id'', ''repository_id'', ''lease_id'', ''owner_id'', ''boot_witness'',
        ''process_witnesses_json'', ''expected_sha'', ''fencing_revision'', ''lease_state'', ''acquired_at'',
        ''renewed_at'', ''expires_at'', ''released_at'', ''revision'', ''last_event_sequence'', ''updated_at''],
      ts_updateKeyColumns = [''checkout_path'']\<rparr>"
| "TABLE_SQL T_artifact =
     \<lparr>ts_insertColumns = [''artifact_id'', ''run_id'', ''stage_id'', ''name'', ''content_hash'',
        ''byte_length'', ''media_type'', ''content_schema_id'', ''producer'', ''source_lineage'',
        ''relative_path'', ''created_at'', ''revision'', ''last_event_sequence''],
      ts_updateColumns = [''revision'', ''last_event_sequence''],
      ts_updateKeyColumns = [''artifact_id'']\<rparr>"
| "TABLE_SQL T_stage_artifact_alias =
     \<lparr>ts_insertColumns = [''run_id'', ''stage_id'', ''name'', ''artifact_id'', ''revision'',
        ''last_event_sequence'', ''updated_at''],
      ts_updateColumns = [''artifact_id'', ''revision'', ''last_event_sequence'', ''updated_at''],
      ts_updateKeyColumns = [''run_id'', ''stage_id'', ''name'']\<rparr>"

definition tableSql :: "ProjectionTable \<Rightarrow> int \<Rightarrow> table_sql" where
  "tableSql t schemaVersion =
     (if t = T_run_projection \<and> schemaVersion < CAPABILITY_LANDING_SCHEMA_VERSION
      then RUN_PROJECTION_SQL_BEFORE_LANDING else TABLE_SQL t)"

definition boundValues :: "ProjectionWrite \<Rightarrow> string list \<Rightarrow> sqlval list res" where
  "boundValues w columns =
     rseq (map (\<lambda>column. case pw_row w column of
         Some v \<Rightarrow> Inr v
       | None \<Rightarrow> Inl (Thrown (''commitStateChange: projection row for '' @ table_name (pw_table w)
                   @ '' is missing column '' @ column))) columns)"

definition writtenRevision :: "ProjectionWrite \<Rightarrow> int res" where
  "writtenRevision w =
     (case pw_row w ''revision'' of
        Some (SInt n) \<Rightarrow> Inr n
      | _ \<Rightarrow> Inl (Thrown (''commitStateChange: projection row for '' @ table_name (pw_table w)
               @ '' has a non-numeric revision'')))"

record state_command =
  cm_runId :: "string option"
  cm_type :: string
  cm_payload :: json
  cm_causationEventId :: "string option"

record commit_options =
  co_primaryTable :: "ProjectionTable option"
  co_artifactRelativePaths :: "string list"
  co_assertions :: "(string \<times> unit res) list"

record commit_inputs =
  ci_correlationId :: string
  ci_eventId :: string
  ci_recordedAt :: string
  ci_committedAt :: string

record commit_report =
  cr_eventId :: string
  cr_sequence :: int
  cr_correlationId :: string
  cr_revision :: int
  cr_writes :: "(ProjectionTable \<times> string \<times> int) list"
  cr_committedAt :: string

definition MAX_ARTIFACTS_PER_COMMAND :: nat where "MAX_ARTIFACTS_PER_COMMAND = 64"

definition assertion_failed :: "string \<Rightarrow> string \<Rightarrow> 'a res" where
  "assertion_failed relativePath reason =
     Inl (Thrown (''stage artifact assertion failed for '' @ relativePath @ '': '' @ reason))"

definition count_path :: "string \<Rightarrow> (string, nat) jsmap \<Rightarrow> (string, nat) jsmap" where
  "count_path p m = AList.update p ((case map_of m p of None \<Rightarrow> 0 | Some n \<Rightarrow> n) + 1) m"

definition spend_path :: "string \<times> unit res \<Rightarrow> (string, nat) jsmap \<Rightarrow> (string, nat) jsmap res" where
  "spend_path a m =
     (let count = (case map_of m (fst a) of None \<Rightarrow> 0 | Some n \<Rightarrow> n)
      in if count = 0 then
           assertion_failed (fst a) ''assertion does not correspond to any payload artifact (S3 bijection)''
         else Inr (AList.update (fst a) (count - 1) m))"

definition assertBijection :: "string list \<Rightarrow> (string \<times> unit res) list \<Rightarrow> unit res" where
  "assertBijection paths assertions =
     (if length paths \<noteq> length assertions then
        assertion_failed ''<multiple>'' (''expected exactly one assertion per payload artifact: ''
          @ show_nat (length paths) @ '' artifact(s), '' @ show_nat (length assertions) @ '' assertion(s)'')
      else rbind (rfold spend_path assertions (fold count_path paths [])) (\<lambda>_. Inr ()))"

definition verify_write :: "projection \<Rightarrow> string list \<Rightarrow> ProjectionWrite \<Rightarrow> unit \<Rightarrow> unit res" where
  "verify_write after asserted w u =
     (if pw_table w = T_artifact then
        (case pw_row w ''relative_path'' of
           Some (SText p) \<Rightarrow>
             if p \<in> set asserted then Inr ()
             else assertion_failed p (''writing an artifact row requires a verified publication assertion for its ''
                    @ ''relativePath - use completeStage, not commitStateChange, to write this table'')
         | _ \<Rightarrow> assertion_failed ''<unknown>'' (''writing an artifact row requires a verified publication assertion for its ''
                    @ ''relativePath - use completeStage, not commitStateChange, to write this table''))
      else if pw_table w = T_stage_artifact_alias then
        (let artifactState = (case pw_row w ''artifact_id'' of Some (SText a) \<Rightarrow> map_of (pj_artifacts after) a | _ \<Rightarrow> None);
             reason = ''writing a stage_artifact_alias row requires a verified publication assertion for its ''
                    @ ''artifact's relativePath - use completeStage, not commitStateChange, to write this table''
         in case artifactState of
              None \<Rightarrow> assertion_failed ''<unknown>'' reason
            | Some a \<Rightarrow> if af_relativePath a \<in> set asserted then Inr () else assertion_failed (af_relativePath a) reason)
      else Inr ())"

definition assertGuardedWritesAreVerified :: "ProjectionWrite list \<Rightarrow> projection \<Rightarrow> string list \<Rightarrow> unit res" where
  "assertGuardedWritesAreVerified writes after asserted = rfold (verify_write after asserted) writes ()"

definition exec_write ::
  "'db sqlite \<Rightarrow> int \<Rightarrow> ProjectionWrite \<Rightarrow> (ProjectionTable \<times> string \<times> int) list \<times> 'db \<Rightarrow>
   ((ProjectionTable \<times> string \<times> int) list \<times> 'db, 'db) step" where
  "exec_write sq schemaVersion w acc =
     (case acc of (reported, db) \<Rightarrow>
       let sql = tableSql (pw_table w) schemaVersion
       in
       tbind (at_db db (writtenRevision w)) (\<lambda>revision.
       tbind (case pw_previousRevision w of
                None \<Rightarrow>
                  tbind (at_db db (boundValues w (ts_insertColumns sql))) (\<lambda>values.
                    at_db db (sq_insert sq (pw_table w) (ts_insertColumns sql) values db))
              | Some previousRevision \<Rightarrow>
                  tbind (at_db db (boundValues w (ts_updateColumns sql))) (\<lambda>values.
                  tbind (at_db db (boundValues w (ts_updateKeyColumns sql))) (\<lambda>keys.
                  tbind (at_db db (sq_update sq (pw_table w) (ts_updateColumns sql) values keys previousRevision db)) (\<lambda>(changes, db1).
                  tbind (at_db db1 (toSafeInteger (Some (SInt changes)) ''projection update changes'')) (\<lambda>n.
                    if n \<noteq> 1 then
                      Inl (Thrown (''commitStateChange: projection row '' @ table_name (pw_table w) @ ''/'' @ pw_key w
                        @ '' was not at revision '' @ show_integer previousRevision), db1)
                    else Inr db1))))) (\<lambda>db2.
         Inr (reported @ [(pw_table w, pw_key w, revision)], db2))))"

definition correlation_of ::
  "'db sqlite \<Rightarrow> (string \<Rightarrow> js_number option) \<Rightarrow> commit_inputs \<Rightarrow> state_command \<Rightarrow> 'db \<Rightarrow> string res" where
  "correlation_of sq num ci command db =
     (case cm_causationEventId command of
        None \<Rightarrow> Inr (ci_correlationId ci)
      | Some cause \<Rightarrow>
          rbind (readEventById sq num cause db) (\<lambda>parent.
            case parent of
              None \<Rightarrow> Inl (Thrown (''commitStateChange: causation event does not exist: '' @ cause))
            | Some p \<Rightarrow> Inr (se_correlationId p)))"

text \<open>The transaction between \<open>BEGIN IMMEDIATE\<close> and the end of the \<open>try\<close> block.\<close>

definition commit_body ::
  "'db sqlite \<Rightarrow> platform \<Rightarrow> (string \<Rightarrow> js_number option) \<Rightarrow> commit_inputs \<Rightarrow> state_command \<Rightarrow> commit_options \<Rightarrow>
   'db \<Rightarrow> (commit_report \<times> 'db, 'db) step" where
  "commit_body sq pl num ci command options db =
     tbind (at_db db (correlation_of sq num ci command db)) (\<lambda>correlationId.
     tbind (appendEvent sq pl (ci_eventId ci)
              \<lparr>ae_runId = cm_runId command, ae_type = cm_type command, ae_payload = cm_payload command,
               ae_correlationId = correlationId, ae_causationEventId = cm_causationEventId command,
               ae_recordedAt = ci_recordedAt ci\<rparr> db) (\<lambda>(event, db1).
     tbind (at_db db1 (rbind (eventScope pl event) (\<lambda>scope. loadScopedProjectionState sq num scope db1))) (\<lambda>before.
     tbind (at_db db1 (applyEvent pl before event)) (\<lambda>after.
     tbind (at_db db1 (diffProjectionState pl before after)) (\<lambda>writes.
     tbind (at_db db1 (assertGuardedWritesAreVerified writes after (co_artifactRelativePaths options))) (\<lambda>_.
     tbind (tfold (exec_write sq (sq_userVersion sq db1)) writes ([], db1)) (\<lambda>(reported, db2).
     tbind (at_db db2 (rfold (\<lambda>assertion u. snd assertion) (co_assertions options) ())) (\<lambda>_.
     tbind (at_db db2 (sq_commit sq db2)) (\<lambda>db3.
       let primary = (case co_primaryTable options of
                        Some t \<Rightarrow> find (\<lambda>(t', _). t' = t) reported
                      | None \<Rightarrow> (case reported of [] \<Rightarrow> None | w # _ \<Rightarrow> Some w))
       in Inr (\<lparr>cr_eventId = se_eventId event, cr_sequence = se_sequence event,
                cr_correlationId = correlationId,
                cr_revision = (case primary of None \<Rightarrow> 0 | Some (_, _, r) \<Rightarrow> r),
                cr_writes = reported, cr_committedAt = ci_committedAt ci\<rparr>, db3))))))))))"

text \<open>The \<open>catch\<close> block: a guarded \<open>ROLLBACK\<close>, whose own failure would replace the error, and the error again.\<close>

definition commit_catch :: "'db sqlite \<Rightarrow> js_error \<Rightarrow> 'db \<Rightarrow> commit_report res \<times> 'db" where
  "commit_catch sq error db =
     (if sq_isTransaction sq db then
        (case sq_rollback sq db of Inl error' \<Rightarrow> (Inl error', db) | Inr db' \<Rightarrow> (Inl error, db'))
      else (Inl error, db))"

definition commitStateChangeInternal ::
  "'db sqlite \<Rightarrow> platform \<Rightarrow> (string \<Rightarrow> js_number option) \<Rightarrow> commit_inputs \<Rightarrow> state_command \<Rightarrow> commit_options \<Rightarrow>
   'db \<Rightarrow> commit_report res \<times> 'db" where
  "commitStateChangeInternal sq pl num ci command options db =
     (if sq_isTransaction sq db then
        (Inl (Thrown ''commitStateChange: refusing to run inside a transaction opened by the caller''), db)
      else
        case rbind (assertBijection (co_artifactRelativePaths options) (co_assertions options)) (\<lambda>_.
               if MAX_ARTIFACTS_PER_COMMAND < length (co_artifactRelativePaths options) then
                 Inl (Thrown (''artifact count '' @ show_nat (length (co_artifactRelativePaths options))
                   @ '' exceeds the per-completeStage limit of '' @ show_nat MAX_ARTIFACTS_PER_COMMAND))
               else sq_begin sq db) of
          Inl error \<Rightarrow> (Inl error, db)
        | Inr db1 \<Rightarrow>
            (case commit_body sq pl num ci command options db1 of
               Inl (error, db2) \<Rightarrow> commit_catch sq error db2
             | Inr (report, db2) \<Rightarrow> (Inr report, db2)))"

definition commitStateChange ::
  "'db sqlite \<Rightarrow> platform \<Rightarrow> (string \<Rightarrow> js_number option) \<Rightarrow> commit_inputs \<Rightarrow> state_command \<Rightarrow> 'db \<Rightarrow>
   commit_report res \<times> 'db" where
  "commitStateChange sq pl num ci command db =
     commitStateChangeInternal sq pl num ci command
       \<lparr>co_primaryTable = None, co_artifactRelativePaths = [], co_assertions = []\<rparr> db"

end
