(* ===== verification/State_Replay.thy ===== *)
theory State_Replay
  imports State_Store "HOL-Library.Option_ord" "HOL-Library.Product_Lexorder"
begin

text \<open>
  Replay and the divergence report (\<open>packages/state/src/replay/replay.ts\<close>, \<open>replay/compare.ts\<close>) with
  the JSON view and digest of a projection (\<open>projection/state.ts\<close>). The schema fingerprint a report
  carries is not part of the comparison and is left out.
\<close>

section \<open>Replay\<close>

record replay_result =
  rp_state :: projection
  rp_eventsReplayed :: nat
  rp_throughSequence :: int

definition replayJournal ::
  "'db sqlite \<Rightarrow> (string \<Rightarrow> js_number option) \<Rightarrow> (projection \<Rightarrow> state_event \<Rightarrow> projection res) \<Rightarrow> int option \<Rightarrow>
   'db \<Rightarrow> replay_result res" where
  "replayJournal sq num reducer through db =
     rbind (case through of Some n \<Rightarrow> Inr n | None \<Rightarrow> latestSequence sq db) (\<lambda>throughSequence.
     rbind (readEvents sq num throughSequence db) (\<lambda>events.
     rbind (rfold (\<lambda>event state. reducer state event) events EMPTY_PROJECTION_STATE) (\<lambda>state.
       Inr \<lparr>rp_state = state, rp_eventsReplayed = length events, rp_throughSequence = throughSequence\<rparr>)))"

section \<open>The JSON view of a projection\<close>

definition json_int :: "int \<Rightarrow> json" where "json_int n = JNum (Fin (of_int n))"

definition json_text_or_null :: "string option \<Rightarrow> json" where
  "json_text_or_null x = (case x of None \<Rightarrow> JNull | Some s \<Rightarrow> JStr s)"

definition run_json :: "run_state \<Rightarrow> members" where
  "run_json row =
     [(''runId'', JStr (rn_runId row)), (''status'', JStr (rn_status row)),
      (''revision'', json_int (rn_revision row)), (''lastEventSequence'', json_int (rn_lastEventSequence row)),
      (''workspaceId'', json_text_or_null (rn_workspaceId row)), (''codebaseId'', JStr (rn_codebaseId row)),
      (''updatedAt'', JStr (rn_updatedAt row)),
      (''instructionSnapshotSha256'', json_text_or_null (rn_instructionSnapshotSha256 row)),
      (''instructionSnapshotJson'', json_text_or_null (rn_instructionSnapshotJson row)),
      (''capabilityLandingJson'', json_text_or_null (rn_capabilityLandingJson row))]"

definition codebase_json :: "codebase_state \<Rightarrow> members" where
  "codebase_json row =
     [(''codebaseId'', JStr (cb_codebaseId row)), (''revision'', json_int (cb_revision row)),
      (''lastEventSequence'', json_int (cb_lastEventSequence row)), (''updatedAt'', JStr (cb_updatedAt row)),
      (''name'', json_text_or_null (cb_name row)), (''rootPath'', json_text_or_null (cb_rootPath row)),
      (''topologySha256'', json_text_or_null (cb_topologySha256 row)),
      (''configurationSha256'', json_text_or_null (cb_configurationSha256 row)),
      (''registrationJson'', json_text_or_null (cb_registrationJson row)),
      (''instructionSnapshotJson'', json_text_or_null (cb_instructionSnapshotJson row))]"

definition repository_json :: "repository_state \<Rightarrow> members" where
  "repository_json row =
     [(''repositoryId'', JStr (ry_repositoryId row)), (''codebaseId'', JStr (ry_codebaseId row)),
      (''revision'', json_int (ry_revision row)), (''lastEventSequence'', json_int (ry_lastEventSequence row)),
      (''updatedAt'', JStr (ry_updatedAt row)), (''name'', json_text_or_null (ry_name row)),
      (''repositoryPath'', json_text_or_null (ry_repositoryPath row)),
      (''gitCommonDirectory'', json_text_or_null (ry_gitCommonDirectory row)),
      (''remotesJson'', json_text_or_null (ry_remotesJson row)),
      (''defaultRemote'', json_text_or_null (ry_defaultRemote row)),
      (''defaultBranch'', json_text_or_null (ry_defaultBranch row))]"

definition workspace_json :: "workspace_state \<Rightarrow> members" where
  "workspace_json row =
     [(''workspaceId'', JStr (wk_workspaceId row)), (''codebaseId'', JStr (wk_codebaseId row)),
      (''repositoryId'', json_text_or_null (wk_repositoryId row)),
      (''lifecycleStatus'', json_text_or_null (wk_lifecycleStatus row)),
      (''checkoutPath'', json_text_or_null (wk_checkoutPath row)),
      (''configurationSha256'', json_text_or_null (wk_configurationSha256 row)),
      (''manifestJson'', json_text_or_null (wk_manifestJson row)), (''revision'', json_int (wk_revision row)),
      (''lastEventSequence'', json_int (wk_lastEventSequence row)), (''updatedAt'', JStr (wk_updatedAt row))]"

definition lease_json :: "lease_state \<Rightarrow> members" where
  "lease_json row =
     [(''checkoutPath'', JStr (ls_checkoutPath row)), (''workspaceId'', JStr (ls_workspaceId row)),
      (''repositoryId'', JStr (ls_repositoryId row)), (''leaseId'', JStr (ls_leaseId row)),
      (''ownerId'', JStr (ls_ownerId row)), (''bootWitness'', json_text_or_null (ls_bootWitness row)),
      (''processWitnessesJson'', JStr (ls_processWitnessesJson row)),
      (''expectedSha'', JStr (ls_expectedSha row)), (''fencingRevision'', json_int (ls_fencingRevision row)),
      (''leaseState'', JStr (ls_leaseState row)), (''acquiredAt'', JStr (ls_acquiredAt row)),
      (''renewedAt'', JStr (ls_renewedAt row)), (''expiresAt'', JStr (ls_expiresAt row)),
      (''releasedAt'', json_text_or_null (ls_releasedAt row)), (''revision'', json_int (ls_revision row)),
      (''lastEventSequence'', json_int (ls_lastEventSequence row)), (''updatedAt'', JStr (ls_updatedAt row))]"

definition artifact_json :: "artifact_state \<Rightarrow> members" where
  "artifact_json row =
     [(''artifactId'', JStr (af_artifactId row)), (''runId'', JStr (af_runId row)),
      (''stageId'', JStr (af_stageId row)), (''name'', JStr (af_name row)),
      (''contentHash'', JStr (af_contentHash row)), (''byteLength'', json_int (af_byteLength row)),
      (''mediaType'', JStr (af_mediaType row)), (''contentSchemaId'', JStr (af_contentSchemaId row)),
      (''producer'', JStr (af_producer row)), (''sourceLineage'', JArr (map JStr (af_sourceLineage row))),
      (''relativePath'', JStr (af_relativePath row)), (''createdAt'', JStr (af_createdAt row)),
      (''revision'', json_int (af_revision row)), (''lastEventSequence'', json_int (af_lastEventSequence row))]"

definition alias_json :: "alias_state \<Rightarrow> members" where
  "alias_json row =
     [(''runId'', JStr (al_runId row)), (''stageId'', JStr (al_stageId row)), (''name'', JStr (al_name row)),
      (''artifactId'', JStr (al_artifactId row)), (''revision'', json_int (al_revision row)),
      (''lastEventSequence'', json_int (al_lastEventSequence row)), (''updatedAt'', JStr (al_updatedAt row))]"

definition table_json :: "('r \<Rightarrow> members) \<Rightarrow> (string, 'r) jsmap \<Rightarrow> json" where
  "table_json to m =
     JObj (js_object (concat (map (\<lambda>k. case map_of m k of None \<Rightarrow> [] | Some row \<Rightarrow> [(k, JObj (to row))])
       (sorted_keys m))))"

definition projectionStateToJson :: "projection \<Rightarrow> json" where
  "projectionStateToJson s =
     JObj [(''artifacts'', table_json artifact_json (pj_artifacts s)),
           (''codebases'', table_json codebase_json (pj_codebases s)),
           (''repositories'', table_json repository_json (pj_repositories s)),
           (''runs'', table_json run_json (pj_runs s)),
           (''stageArtifactAliases'', table_json alias_json (pj_aliases s)),
           (''workspaces'', table_json workspace_json (pj_workspaces s)),
           (''workspaceLeases'', table_json lease_json (pj_workspaceLeases s))]"

definition projectionDigest :: "platform \<Rightarrow> projection \<Rightarrow> string res" where
  "projectionDigest pl s = rbind (stringifyCanonical pl (projectionStateToJson s)) (\<lambda>txt. Inr (sha256 pl txt))"

section \<open>The divergence report\<close>

record divergence =
  dv_table :: ProjectionTable
  dv_key :: string
  dv_field :: "string option"
  dv_stored :: json
  dv_replayed :: json

text \<open>The fields of a row that differ: the canonical texts of the two values are compared.\<close>

definition compare_field ::
  "platform \<Rightarrow> ProjectionTable \<Rightarrow> string \<Rightarrow> members \<Rightarrow> members \<Rightarrow> string \<Rightarrow> divergence list res" where
  "compare_field pl t key storedJson replayedJson field =
     (let left = (case map_of storedJson field of None \<Rightarrow> JNull | Some v \<Rightarrow> v);
          right = (case map_of replayedJson field of None \<Rightarrow> JNull | Some v \<Rightarrow> v)
      in
      rbind (stringifyCanonical pl left) (\<lambda>a.
      rbind (stringifyCanonical pl right) (\<lambda>b.
        Inr (if a \<noteq> b then [\<lparr>dv_table = t, dv_key = key, dv_field = Some field, dv_stored = left, dv_replayed = right\<rparr>]
             else []))))"

definition compare_row ::
  "platform \<Rightarrow> ProjectionTable \<Rightarrow> ('r \<Rightarrow> members) \<Rightarrow> string \<Rightarrow> 'r option \<Rightarrow> 'r option \<Rightarrow> divergence list res" where
  "compare_row pl t to key storedRow replayedRow =
     (case (storedRow, replayedRow) of
        (Some a, Some b) \<Rightarrow>
          rbind (rseq (map (compare_field pl t key (to a) (to b)) (sorted_keys (to a)))) (\<lambda>ds. Inr (concat ds))
      | _ \<Rightarrow>
          Inr [\<lparr>dv_table = t, dv_key = key, dv_field = None,
                dv_stored = (case storedRow of None \<Rightarrow> JNull | Some a \<Rightarrow> JObj (to a)),
                dv_replayed = (case replayedRow of None \<Rightarrow> JNull | Some b \<Rightarrow> JObj (to b))\<rparr>])"

definition compareTable ::
  "platform \<Rightarrow> ProjectionTable \<Rightarrow> ('r \<Rightarrow> members) \<Rightarrow> (projection \<Rightarrow> (string, 'r) jsmap) \<Rightarrow>
   projection \<Rightarrow> projection \<Rightarrow> divergence list res" where
  "compareTable pl t to select stored replayed =
     (let keys = sort (remdups (map fst (select stored) @ map fst (select replayed)))
      in rbind (rseq (map (\<lambda>key. compare_row pl t to key (map_of (select stored) key) (map_of (select replayed) key)) keys))
           (\<lambda>ds. Inr (concat ds)))"

record divergence_report =
  dr_converged :: bool
  dr_eventsReplayed :: nat
  dr_throughSequence :: int
  dr_divergences :: "divergence list"
  dr_storedDigest :: string
  dr_replayedDigest :: string

definition compareProjectionToReplay ::
  "'db sqlite \<Rightarrow> platform \<Rightarrow> (string \<Rightarrow> js_number option) \<Rightarrow> (projection \<Rightarrow> state_event \<Rightarrow> projection res) \<Rightarrow> int option \<Rightarrow>
   'db \<Rightarrow> divergence_report res" where
  "compareProjectionToReplay sq pl num reducer through db =
     rbind (replayJournal sq num reducer through db) (\<lambda>replay.
     rbind (loadStoredProjectionState sq num db) (\<lambda>stored.
     rbind (rseq
       [compareTable pl T_artifact artifact_json pj_artifacts stored (rp_state replay),
        compareTable pl T_codebase codebase_json pj_codebases stored (rp_state replay),
        compareTable pl T_repository repository_json pj_repositories stored (rp_state replay),
        compareTable pl T_run_projection run_json pj_runs stored (rp_state replay),
        compareTable pl T_stage_artifact_alias alias_json pj_aliases stored (rp_state replay),
        compareTable pl T_workspace workspace_json pj_workspaces stored (rp_state replay),
        compareTable pl T_workspace_lease lease_json pj_workspaceLeases stored (rp_state replay)]) (\<lambda>ds.
     rbind (projectionDigest pl stored) (\<lambda>storedDigest.
     rbind (projectionDigest pl (rp_state replay)) (\<lambda>replayedDigest.
       let divergences = sort_key (\<lambda>d. (table_name (dv_table d), dv_key d, dv_field d)) (concat ds)
       in Inr \<lparr>dr_converged = (divergences = []), dr_eventsReplayed = rp_eventsReplayed replay,
               dr_throughSequence = rp_throughSequence replay, dr_divergences = divergences,
               dr_storedDigest = storedDigest, dr_replayedDigest = replayedDigest\<rparr>)))))"

end
