(* ===== verification/State_Values.thy ===== *)
theory State_Values
  imports State_Replay
begin

text \<open>
  Invariants of the values the reducer writes: run statuses are known, the fence of a lease never
  exceeds its revision, the parts of an alias key hold no NUL character (so the joined key determines
  them), and revisions never exceed the sequence of the event that wrote them.
\<close>

section \<open>Rows the reducer writes\<close>

definition nul_free :: "string \<Rightarrow> bool" where "nul_free s \<longleftrightarrow> CHR 0x00 \<notin> set s"

fun row_ok :: "prow \<Rightarrow> bool" where
  "row_ok (RunRow r) \<longleftrightarrow> isRunStatus (rn_status r)"
| "row_ok (LeaseRow l) \<longleftrightarrow> 1 \<le> ls_fencingRevision l \<and> ls_fencingRevision l \<le> ls_revision l"
| "row_ok (AliasRow a) \<longleftrightarrow> nul_free (al_runId a) \<and> nul_free (al_stageId a) \<and> nul_free (al_name a)"
| "row_ok r \<longleftrightarrow> True"

definition values_ok :: "projection \<Rightarrow> bool" where
  "values_ok s \<longleftrightarrow> (\<forall>t k r. look s t k = Some r \<longrightarrow> row_ok r)"

lemma values_ok_put:
  assumes "values_ok s"
  shows "row_ok (RunRow r) \<Longrightarrow> values_ok (put_run k r s)"
    "values_ok (put_codebase k cb s)" "values_ok (put_repository k ry s)" "values_ok (put_workspace k wk s)"
    "row_ok (LeaseRow ls) \<Longrightarrow> values_ok (put_lease k ls s)" "values_ok (put_artifact k af s)"
    "row_ok (AliasRow al) \<Longrightarrow> values_ok (put_alias k al s)"
  using assms by (simp_all add: values_ok_def look_put del: look.simps)

lemma values_ok_run: "values_ok s \<Longrightarrow> map_of (pj_runs s) k = Some r \<Longrightarrow> isRunStatus (rn_status r)"
  unfolding values_ok_def by (metis look.simps(1) option.simps(9) row_ok.simps(1))

lemma values_ok_lease:
  "values_ok s \<Longrightarrow> map_of (pj_workspaceLeases s) k = Some l \<Longrightarrow>
   1 \<le> ls_fencingRevision l \<and> ls_fencingRevision l \<le> ls_revision l"
  unfolding values_ok_def by (metis look.simps(5) option.simps(9) row_ok.simps(2))

lemma requireNoNul_Inr: "requireNoNul e f s = Inr x \<longleftrightarrow> x = s \<and> nul_free s"
  by (auto simp: requireNoNul_def nul_free_def)

lemma require_nul_free:
  "requireRunId e p = Inr x \<Longrightarrow> nul_free x" "requireStageId e p = Inr x \<Longrightarrow> nul_free x"
  "requireName e p = Inr x \<Longrightarrow> nul_free x"
  by (auto simp: requireRunId_def requireStageId_def requireName_def rbind_eq_Inr requireNoNul_Inr split: if_splits)

lemma ref_name_nul_free: "toArtifactRefPayload e v i = Inr ref \<Longrightarrow> nul_free (ap_name ref)"
  by (cases v) (auto simp: toArtifactRefPayload_def rbind_eq_Inr require_nul_free)

lemma refs_nul_free: "requireArtifactRefs e p f = Inr refs \<Longrightarrow> ref \<in> set refs \<Longrightarrow> nul_free (ap_name ref)"
  by (auto simp: requireArtifactRefs_def rseq_map split: option.splits json.splits dest!: list_all2_source ref_name_nul_free)

lemma status_ok: "isRunStatus ''queued''" "isRunStatus ''succeeded''"
  by (simp_all add: isRunStatus_def run_statuses_def)

lemma values_run:
  assumes "values_ok s" "apply_case pl c s e payload = Inr s'"
    "c \<in> {Run_Created, Run_Status_Changed, Run_Touched, Run_Workspace_Assigned, Run_Instructions_Snapshotted,
          Run_Capability_Landed}"
  shows "values_ok s'"
proof (cases "c = Run_Created")
  case True
  with assms show ?thesis
    by (auto simp: apply_case_def apply_run_created_def rbind_eq_Inr status_ok split: if_splits intro!: values_ok_put)
next
  case False
  with assms(2,3) obtain runId r where r: "requireRunId e payload = Inr runId" "map_of (pj_runs s) runId = Some r"
    by (auto simp: apply_case_def apply_defs rbind_eq_Inr existing_run_Inr)
  have "isRunStatus (rn_status r)" using values_ok_run [OF assms(1) r(2)] .
  with False assms r show ?thesis
    by (cases "rn_capabilityLandingJson r")
       (auto simp: apply_case_def apply_defs rbind_eq_Inr existing_run_def next_run_def split: if_splits intro!: values_ok_put)
qed

lemma values_identity:
  assumes "values_ok s" "apply_case pl c s e payload = Inr s'"
    "c \<in> {Codebase_Registered, Repository_Registered, Workspace_Registered, Provisioning_Recorded}"
  shows "values_ok s'"
  using assms by (auto simp: apply_case_def apply_defs rbind_eq_Inr Let_def split: if_splits intro!: values_ok_put)

lemma values_registration:
  assumes "values_ok s" "apply_registration_committed pl s e payload = Inr s'"
  shows "values_ok s'"
proof -
  have rs: "values_ok (fold (\<lambda>r. put_repository (rr_repositoryId r) (f r)) rs t)" if "values_ok t" for f rs t
    using that by (induction rs arbitrary: t) (simp_all add: values_ok_put)
  from assms show ?thesis
    by (auto simp: apply_registration_committed_def rbind_eq_Inr split: option.splits if_splits intro!: rs values_ok_put)
qed

lemma values_lease:
  assumes "values_ok s" "apply_lease_changed s e payload = Inr s'"
  shows "values_ok s'"
  using assms(2)
proof (rule lease_changed)
  fix k l
  assume s': "s' = put_lease k l s" and f: "1 \<le> ls_fencingRevision l"
    and viol: "lease_violation (se_type e) (map_of (pj_workspaceLeases s) k) (ls_fencingRevision l) (ls_leaseId l)
       (ls_leaseState l) (ls_workspaceId l) (ls_repositoryId l) = None"
    and row: "lease_row e payload (map_of (pj_workspaceLeases s) k) k (ls_workspaceId l) (ls_repositoryId l)
       (ls_fencingRevision l) (ls_leaseId l) (ls_leaseState l) = Inr l"
  note rev = lease_row_fields(9) [OF row]
  have "ls_fencingRevision l \<le> ls_revision l"
  proof (cases "map_of (pj_workspaceLeases s) k")
    case None
    with viol rev show ?thesis by (simp add: lease_violation_def split: if_splits)
  next
    case (Some p)
    with values_ok_lease [OF assms(1) Some] viol rev show ?thesis
      by (auto simp: lease_violation_def split: if_splits)
  qed
  with f s' assms(1) show ?thesis by (simp add: values_ok_put)
qed

lemma values_completed:
  assumes "values_ok s" "apply_stage_completed s e payload = Inr s'"
  shows "values_ok s'"
proof -
  from assms(2) obtain runId r stageId refs seen s1 where
    req: "requireRunId e payload = Inr runId" "map_of (pj_runs s) runId = Some r" "requireStageId e payload = Inr stageId"
      "requireArtifactRefs e payload ''artifacts'' = Inr refs"
    and loop: "rfold (complete_ref e runId stageId) refs ([], s) = Inr (seen, s1)"
    and s': "s' = s1 \<or> s' = put_run runId ((next_run e r)\<lparr>rn_status := ''succeeded''\<rparr>) s1"
    by (auto simp: apply_stage_completed_def rbind_eq_Inr existing_run_Inr Let_def split: if_splits)
  have step: "values_ok (snd acc')"
    if "complete_ref e runId stageId ref acc = Inr acc'" "values_ok (snd acc)" "nul_free (ap_name ref)" for ref acc acc'
  proof -
    from that(1) obtain s2 where "adopt_artifact e runId stageId ref (snd acc) = Inr s2"
      and acc': "snd acc' = point_alias e runId stageId ref s2"
      by (cases acc) (auto simp: complete_ref_def rbind_eq_Inr split: if_splits)
    then have "values_ok s2"
      using that(2) by (auto simp: adopt_artifact_def split: option.splits intro!: values_ok_put)
    then show ?thesis
      unfolding acc' point_alias_def Let_def using that(3) require_nul_free req by (intro values_ok_put(7)) auto
  qed
  have "values_ok (snd acc')" if "rfold (complete_ref e runId stageId) rs acc = Inr acc'" "values_ok (snd acc)"
    "\<And>ref. ref \<in> set rs \<Longrightarrow> nul_free (ap_name ref)" for rs acc acc'
    using that
  proof (induction rs arbitrary: acc)
    case (Cons ref rs)
    then obtain acc1 where "complete_ref e runId stageId ref acc = Inr acc1" "rfold (complete_ref e runId stageId) rs acc1 = Inr acc'"
      by (auto simp: rbind_eq_Inr)
    with Cons step show ?case by simp
  qed simp
  from this [OF loop] assms(1) refs_nul_free [OF req(4)] have "values_ok s1" by simp
  then show ?thesis using s' by (auto simp: status_ok intro!: values_ok_put(1))
qed

lemma apply_values:
  assumes "values_ok s" "applyEvent pl s e = Inr s'"
  shows "values_ok s'"
proof -
  from assms(2) obtain payload c where ap: "apply_case pl c s e payload = Inr s'"
    by (auto simp: applyEvent_def rbind_eq_Inr split: if_splits option.splits)
  have pub: "values_ok s'" if "apply_artifact_published s e payload = Inr s'"
    using that assms(1) by (auto simp: apply_artifact_published_def rbind_eq_Inr split: if_splits intro!: values_ok_put)
  show ?thesis
    using ap values_run [OF assms(1) ap] values_identity [OF assms(1) ap] values_lease [OF assms(1)]
      values_registration [OF assms(1)] values_completed [OF assms(1)] pub
    by (cases c) (auto simp: apply_case_def)
qed

section \<open>Revisions and sequences\<close>

definition bounded_rows :: "projection \<Rightarrow> int \<Rightarrow> bool" where
  "bounded_rows s n \<longleftrightarrow>
     (\<forall>t k r. look s t k = Some r \<longrightarrow> 1 \<le> row_revision r \<and> row_revision r \<le> row_sequence r \<and> row_sequence r \<le> n)"

lemma advances_bounded:
  assumes "advances e sc s s'" "bounded_rows s n" "n < se_sequence e" "1 \<le> se_sequence e"
  shows "bounded_rows s' (se_sequence e)"
proof -
  have "1 \<le> row_revision r \<and> row_revision r \<le> row_sequence r \<and> row_sequence r \<le> se_sequence e"
    if r: "look s' t k = Some r" for t k r
  proof (cases "look s' t k = look s t k")
    case True
    with r assms(2,3) show ?thesis by (force simp: bounded_rows_def)
  next
    case False
    with assms(1) r have step: "row_step e (look s t k) r" unfolding advances_def by (metis option.inject)
    show ?thesis
    proof (cases "look s t k")
      case None
      with step assms(4) show ?thesis by (simp add: row_step_def)
    next
      case (Some old)
      with assms(2) have "1 \<le> row_revision old" "row_revision old \<le> row_sequence old" "row_sequence old \<le> n"
        by (auto simp: bounded_rows_def)
      with step Some assms(3) show ?thesis by (simp add: row_step_def)
    qed
  qed
  then show ?thesis by (simp add: bounded_rows_def)
qed

text \<open>A joined alias key determines its parts, because they hold no NUL character.\<close>

lemma nul_split:
  assumes "a @ CHR 0x00 # b = c @ CHR 0x00 # d" "nul_free a" "nul_free c"
  shows "a = c \<and> b = d"
proof -
  have "takeWhile (\<lambda>x. x \<noteq> CHR 0x00) (a @ CHR 0x00 # b) = a" "takeWhile (\<lambda>x. x \<noteq> CHR 0x00) (c @ CHR 0x00 # d) = c"
    using assms(2,3) by (subst takeWhile_append2; auto simp: nul_free_def)+
  with assms(1) show ?thesis by simp
qed

lemma alias_key_inject:
  assumes "stageArtifactAliasKey a b c = stageArtifactAliasKey a' b' c'" "nul_free a" "nul_free a'" "nul_free b" "nul_free b'"
  shows "a = a' \<and> b = b' \<and> c = c'"
proof -
  from assms(1) have "a @ CHR 0x00 # (b @ CHR 0x00 # c) = a' @ CHR 0x00 # (b' @ CHR 0x00 # c')"
    by (simp add: stageArtifactAliasKey_def)
  then have "a = a'" "b @ CHR 0x00 # c = b' @ CHR 0x00 # c'" using nul_split assms(2,3) by blast+
  with nul_split assms(4,5) show ?thesis by blast
qed

fun pk_values :: "prow \<Rightarrow> sqlval list" where
  "pk_values (AliasRow a) = [SText (al_runId a), SText (al_stageId a), SText (al_name a)]"
| "pk_values r = [SText (row_key r)]"

lemma pk_key: "row_table r = row_table r' \<Longrightarrow> pk_values r = pk_values r' \<Longrightarrow> row_key r = row_key r'"
  by (cases r; cases r') auto

lemma key_pk: "row_table r = row_table r' \<Longrightarrow> row_key r = row_key r' \<Longrightarrow> row_ok r \<Longrightarrow> row_ok r' \<Longrightarrow> pk_values r = pk_values r'"
  by (cases r; cases r') (auto dest: alias_key_inject)

lemma look_table: "look s t k = Some r \<Longrightarrow> row_table r = t"
  by (cases t) auto

end
