(* ===== verification/State_Canonical.thy ===== *)
theory State_Canonical
  imports Projection_Change
begin

text \<open>
  Replay reads canonical payloads, the live path applies the payloads callers built. The reducer does not
  notice the difference, except in the three cases that keep the text of a member of the payload: there
  the member has to be canonical itself.
\<close>

section \<open>The members of a canonical object\<close>

definition canon_opt :: "json option \<Rightarrow> json option \<Rightarrow> bool" where
  "canon_opt x y \<longleftrightarrow> rel_option (\<lambda>v w. \<exists>d. canonicalize v d = Inr w \<and> wf_json v) x y"

definition canon_members :: "members \<Rightarrow> members \<Rightarrow> bool" where
  "canon_members kvs kvs' \<longleftrightarrow> (\<forall>f. canon_opt (map_of kvs f) (map_of kvs' f))"

lemma canonicalize_cases:
  assumes "canonicalize v d = Inr w"
  shows "(\<exists>s. v = JStr s \<and> w = JStr s) \<or> (v = JNull \<and> w = JNull) \<or> (\<exists>b. v = JBool b \<and> w = JBool b) \<or>
    (\<exists>x y. v = JNum x \<and> w = JNum y \<and> (y = x \<or> x = NegZero \<and> y = Fin 0)) \<or> (\<exists>vs ws. v = JArr vs \<and> w = JArr ws \<and> list_all2 (\<lambda>v w. canonicalize v (d + 1) = Inr w) vs ws) \<or>
    (\<exists>kvs kvs'. v = JObj kvs \<and> w = JObj kvs')"
proof (cases v)
  case (JArr vs)
  obtain ws where "w = JArr ws" "list_all2 (\<lambda>v w. canonicalize v (d + 1) = Inr w) vs ws"
    using canonicalize_arr [OF assms [unfolded JArr]] .
  with JArr show ?thesis by blast
next
  case (JObj kvs)
  with assms show ?thesis by (auto simp: rbind_eq_Inr depth_error_def split: if_splits)
qed (use assms in \<open>auto simp: depth_error_def split: if_splits\<close>)

lemma map_of_same: "distinct (map fst xs) \<Longrightarrow> distinct (map fst ys) \<Longrightarrow> set xs = set ys \<Longrightarrow> map_of xs = map_of ys"
  by (metis map_of_inject_set)

lemma canonicalize_members:
  assumes c: "canonicalize (JObj kvs) d = Inr c" and wf: "wf_json (JObj kvs)"
  obtains kvs' where "c = JObj kvs'" "canon_members kvs kvs'"
proof -
  have dist: "distinct (map fst kvs)" by (rule wf_json_distinct [OF wf])
  let ?m = "map (\<lambda>(k, v). (k, canonicalize v (d + 1))) kvs"
  from c obtain out where out: "sort_key fst ?m = map (\<lambda>q. (fst q, Inr (snd q))) out" and c': "c = JObj (js_object out)"
    by (auto simp: rbind_eq_Inr rseq_map depth_error_def keyed_res_def [symmetric, abs_def] list_all2_keyed split: if_splits)
  have fst_m: "map fst ?m = map fst kvs" by (simp add: case_prod_unfold comp_def)
  have dm: "distinct (map fst ?m)" using dist unfolding fst_m .
  then have ds: "distinct (map fst (sort_key fst ?m))"
    using sorted_keys_distinct [OF dm] by (simp only: strict_sorted_iff)
  then have dout: "distinct (map fst out)" unfolding out by (simp add: comp_def)
  have "map_of (js_object out) = map_of out"
    using set_js_object [OF dout] dout by (intro map_of_same) (simp_all add: distinct_js_object)
  moreover have "map_of ?m = map_of (map (\<lambda>q. (fst q, Inr (snd q))) out)"
    unfolding out [symmetric] using dm ds by (rule map_of_same) (simp only: set_sort)
  moreover have "map_of ?m f = map_option (\<lambda>v. canonicalize v (d + 1)) (map_of kvs f)" for f
    by (induction kvs) auto
  moreover have "map_of (map (\<lambda>q. (fst q, Inr (snd q) :: json res)) out) f = map_option Inr (map_of out f)" for f
    by (induction out) auto
  ultimately have eq: "map_option (\<lambda>v. canonicalize v (d + 1)) (map_of kvs f) = map_option Inr (map_of (js_object out) f)" for f
    by metis
  have "canon_opt (map_of kvs f) (map_of (js_object out) f)" for f
  proof (cases "map_of kvs f")
    case None
    with eq [of f] show ?thesis by (simp add: canon_opt_def)
  next
    case (Some v)
    have "wf_json v" using wf map_of_SomeD [OF Some] by auto
    with Some eq [of f] show ?thesis by (cases "map_of (js_object out) f") (auto simp: canon_opt_def)
  qed
  with that c' show ?thesis by (simp add: canon_members_def)
qed

section \<open>What the reducer reads of them\<close>

lemma canon_optE:
  assumes "canon_opt x y"
  obtains "x = None" "y = None" | v w d where "x = Some v" "y = Some w" "canonicalize v d = Inr w" "wf_json v"
  using assms by (auto simp: canon_opt_def option_rel_Some1 elim!: option.rel_cases)

lemma canon_read:
  assumes "canon_opt x y"
  shows "nullableString y = nullableString x" "non_negative_integer y = non_negative_integer x"
    "y = None \<longleftrightarrow> x = None" "y = Some (JStr s) \<longleftrightarrow> x = Some (JStr s)"
  using assms
  by (rule canon_optE, simp, force simp: nullableString_def non_negative_integer_def dest!: canonicalize_cases)+

lemma canon_case:
  assumes "canon_opt x y"
  shows "(case y of Some (JStr s) \<Rightarrow> f s | _ \<Rightarrow> z) = (case x of Some (JStr s) \<Rightarrow> f s | _ \<Rightarrow> z)"
  using assms by (rule canon_optE) (auto dest!: canonicalize_cases)

lemma canon_strings: "list_all2 (\<lambda>v w. canonicalize v d = Inr w) vs ws \<Longrightarrow> strings_of ws = strings_of vs"
proof (induction vs ws rule: list_all2_induct)
  case (Cons v vs w ws)
  from canonicalize_cases [OF Cons.hyps(1)] Cons.IH show ?case by auto
qed simp

lemma canon_require:
  assumes "canon_members kvs kvs'"
  shows "requireString e kvs' f = requireString e kvs f"
    "optionalWorkspaceId e kvs' = optionalWorkspaceId e kvs"
    "requireRunId e kvs' = requireRunId e kvs" "requireStageId e kvs' = requireStageId e kvs" "requireName e kvs' = requireName e kvs"
    "requireContentHash e kvs' f = requireContentHash e kvs f"
    "requireNonNegativeInteger e kvs' f = requireNonNegativeInteger e kvs f"
    "requireSourceLineage e kvs' f = requireSourceLineage e kvs f"
    "nullableString (map_of kvs' f) = nullableString (map_of kvs f)"
proof -
  note opt = assms [unfolded canon_members_def, rule_format]
  have str: "requireString e kvs' f = requireString e kvs f" for f
    unfolding requireString_def by (rule canon_case [OF opt])
  then show "requireString e kvs' f = requireString e kvs f" .
  show "optionalWorkspaceId e kvs' = optionalWorkspaceId e kvs"
    using opt [of "''workspaceId''"] by (rule canon_optE) (auto simp: optionalWorkspaceId_def dest!: canonicalize_cases)
  show "requireRunId e kvs' = requireRunId e kvs" "requireStageId e kvs' = requireStageId e kvs" "requireName e kvs' = requireName e kvs"
    "requireContentHash e kvs' f = requireContentHash e kvs f"
    by (simp_all only: requireRunId_def requireStageId_def requireName_def requireContentHash_def str)
  show "requireNonNegativeInteger e kvs' f = requireNonNegativeInteger e kvs f"
    by (simp only: requireNonNegativeInteger_def canon_read(2) [OF opt])
  have "requireStringArray e kvs' f = requireStringArray e kvs f"
    using opt [of f] by (rule canon_optE) (auto simp: requireStringArray_def Let_def canon_strings dest!: canonicalize_cases)
  then show "requireSourceLineage e kvs' f = requireSourceLineage e kvs f" by (simp only: requireSourceLineage_def)
  show "nullableString (map_of kvs' f) = nullableString (map_of kvs f)" by (rule canon_read(1) [OF opt])
qed

lemma canon_ref:
  assumes "canonicalize v d = Inr w" "wf_json v"
  shows "toArtifactRefPayload e w i = toArtifactRefPayload e v i"
proof (cases v)
  case (JObj kvs)
  from canonicalize_members [OF assms(1) [unfolded JObj] assms(2) [unfolded JObj]] obtain kvs' where
    w: "w = JObj kvs'" "canon_members kvs kvs'" .
  show ?thesis by (simp only: JObj w(1) toArtifactRefPayload_def json.case canon_require [OF w(2)])
qed (use canonicalize_cases [OF assms(1)] in \<open>auto simp: toArtifactRefPayload_def\<close>)

lemma canon_refs:
  assumes "canon_members kvs kvs'"
  shows "requireArtifactRefs e kvs' f = requireArtifactRefs e kvs f"
  using assms [unfolded canon_members_def, rule_format, of f]
proof (rule canon_optE)
  fix v w d
  assume vw: "map_of kvs f = Some v" "map_of kvs' f = Some w" "canonicalize v d = Inr w" "wf_json v"
  show ?thesis
  proof (cases v)
    case (JArr vs)
    obtain ws where ws: "w = JArr ws" "list_all2 (\<lambda>v w. canonicalize v (d + 1) = Inr w) vs ws"
      using canonicalize_arr [OF vw(3) [unfolded JArr]] .
    have len: "length ws = length vs" using list_all2_lengthD [OF ws(2)] by simp
    have "toArtifactRefPayload e (ws ! i) i = toArtifactRefPayload e (vs ! i) i" if "i < length vs" for i
      using canon_ref [of "vs ! i" "d + 1" "ws ! i"] list_all2_nthD [OF ws(2) that] vw(4) JArr that by simp
    then have "map (\<lambda>(i, v). toArtifactRefPayload e v i) (zip [0..<length ws] ws) = map (\<lambda>(i, v). toArtifactRefPayload e v i) (zip [0..<length vs] vs)"
      by (intro nth_equalityI) (simp_all add: len)
    with vw JArr ws(1) show ?thesis by (simp add: requireArtifactRefs_def)
  qed (use vw canonicalize_cases [OF vw(3)] in \<open>auto simp: requireArtifactRefs_def\<close>)
qed (simp add: requireArtifactRefs_def)

section \<open>The reducer on a canonical payload\<close>

definition kept_text :: "event_case \<Rightarrow> string option" where
  "kept_text c =
     (case c of Registration_Committed \<Rightarrow> Some ''registration''
      | Run_Instructions_Snapshotted \<Rightarrow> Some ''instructionSnapshot''
      | Run_Capability_Landed \<Rightarrow> Some ''landing''
      | _ \<Rightarrow> None)"

definition replayable :: "string \<Rightarrow> json \<Rightarrow> bool" where
  "replayable type payload \<longleftrightarrow>
     wf_json payload \<and>
     (\<forall>c f kvs v. map_of case_labels type = Some c \<and> kept_text c = Some f \<and> payload = JObj kvs \<and> map_of kvs f = Some v \<longrightarrow>
        (\<forall>d w. canonicalize v d = Inr w \<longrightarrow> w = v))"

lemma apply_case_canonical:
  assumes m: "canon_members kvs kvs'" and kept: "\<And>f. kept_text c = Some f \<Longrightarrow> map_of kvs' f = map_of kvs f"
  shows "apply_case pl c s e kvs' = apply_case pl c s e kvs"
proof -
  note req = canon_require [OF m] canon_refs [OF m]
  note opt = m [unfolded canon_members_def, rule_format]
  have lease: "lease_row e kvs' = lease_row e kvs" by (intro ext) (simp only: lease_row_def req)
  have pub: "toArtifactRefPayload e (JObj kvs') 0 = toArtifactRefPayload e (JObj kvs) 0"
    by (simp only: toArtifactRefPayload_def json.case req)
  have "(case c of Registration_Committed \<Rightarrow> requireRegistration pl e kvs' = requireRegistration pl e kvs
      | Run_Instructions_Snapshotted \<Rightarrow> requireInstructionSnapshot pl e kvs' = requireInstructionSnapshot pl e kvs
      | Run_Capability_Landed \<Rightarrow> requireCapabilityLanding pl e kvs' = requireCapabilityLanding pl e kvs | _ \<Rightarrow> True)"
    using kept by (cases c) (simp_all only: event_case.case kept_text_def requireRegistration_def requireInstructionSnapshot_def requireCapabilityLanding_def)
  moreover have "map_of kvs' ''terminalRunStatus'' = None \<longleftrightarrow> map_of kvs ''terminalRunStatus'' = None"
    "map_of kvs' ''terminalRunStatus'' = Some (JStr ''succeeded'') \<longleftrightarrow> map_of kvs ''terminalRunStatus'' = Some (JStr ''succeeded'')"
    by (rule canon_read [OF opt])+
  ultimately show ?thesis
    by (cases c) (simp_all only: event_case.case apply_case_def apply_defs apply_registration_committed_def apply_lease_changed_def
        apply_artifact_published_def apply_stage_completed_def req lease pub Let_def)
qed

text \<open>Only \<open>payloadObject\<close> looks at the payload of the event itself.\<close>

lemma payload_unused:
  "reducer_error (e\<lparr>se_payload := p\<rparr>) = reducer_error e" "se_runId (e\<lparr>se_payload := p\<rparr>) = se_runId e"
  "se_sequence (e\<lparr>se_payload := p\<rparr>) = se_sequence e" "se_recordedAt (e\<lparr>se_payload := p\<rparr>) = se_recordedAt e"
  "se_type (e\<lparr>se_payload := p\<rparr>) = se_type e"
  by (rule ext, simp add: reducer_error_def) simp_all

lemma payload_unused_require:
  "requireString (e\<lparr>se_payload := p\<rparr>) = requireString e" "optionalWorkspaceId (e\<lparr>se_payload := p\<rparr>) = optionalWorkspaceId e"
  "requireNoNul (e\<lparr>se_payload := p\<rparr>) = requireNoNul e"
  "requireNonNegativeInteger (e\<lparr>se_payload := p\<rparr>) = requireNonNegativeInteger e"
  "requireStringArray (e\<lparr>se_payload := p\<rparr>) = requireStringArray e"
  "registration_repository_of pl (e\<lparr>se_payload := p\<rparr>) = registration_repository_of pl e"
  "requireInstructionSnapshot pl (e\<lparr>se_payload := p\<rparr>) = requireInstructionSnapshot pl e"
  "requireCapabilityLanding pl (e\<lparr>se_payload := p\<rparr>) = requireCapabilityLanding pl e"
  "existing_run s (e\<lparr>se_payload := p\<rparr>) = existing_run s e"
  "next_run (e\<lparr>se_payload := p\<rparr>) = next_run e" "artifact_row_of (e\<lparr>se_payload := p\<rparr>) = artifact_row_of e"
  "registered_repository (e\<lparr>se_payload := p\<rparr>) = registered_repository e"
  "point_alias (e\<lparr>se_payload := p\<rparr>) = point_alias e"
  unfolding requireString_def optionalWorkspaceId_def requireNoNul_def requireNonNegativeInteger_def
      requireStringArray_def registration_repository_of_def requireInstructionSnapshot_def requireCapabilityLanding_def existing_run_def
      next_run_def artifact_row_of_def registered_repository_def point_alias_def payload_unused
  by (rule refl)+

lemma payload_unused_more:
  "requireRunId (e\<lparr>se_payload := p\<rparr>) = requireRunId e" "requireStageId (e\<lparr>se_payload := p\<rparr>) = requireStageId e"
  "requireName (e\<lparr>se_payload := p\<rparr>) = requireName e" "requireContentHash (e\<lparr>se_payload := p\<rparr>) = requireContentHash e"
  "requireSourceLineage (e\<lparr>se_payload := p\<rparr>) = requireSourceLineage e"
  "requireRegistration pl (e\<lparr>se_payload := p\<rparr>) = requireRegistration pl e"
  "adopt_artifact (e\<lparr>se_payload := p\<rparr>) = adopt_artifact e"
  "lease_row (e\<lparr>se_payload := p\<rparr>) = lease_row e"
  unfolding requireRunId_def requireStageId_def requireName_def requireContentHash_def requireSourceLineage_def
      requireRegistration_def adopt_artifact_def lease_row_def payload_unused payload_unused_require
  by (rule refl)+

lemma payload_unused_refs:
  "toArtifactRefPayload (e\<lparr>se_payload := p\<rparr>) = toArtifactRefPayload e" "complete_ref (e\<lparr>se_payload := p\<rparr>) = complete_ref e"
  unfolding toArtifactRefPayload_def complete_ref_def payload_unused payload_unused_require payload_unused_more
  by (rule refl)+

lemma payload_unused_case: "apply_case pl c s (e\<lparr>se_payload := p\<rparr>) kvs = apply_case pl c s e kvs"
  unfolding apply_case_def apply_defs apply_registration_committed_def apply_lease_changed_def
    apply_artifact_published_def apply_stage_completed_def requireArtifactRefs_def
    payload_unused payload_unused_require payload_unused_more payload_unused_refs ..

lemma apply_canonical:
  assumes "replayable (se_type e) (se_payload e)" "canonicalize (se_payload e) 0 = Inr c"
  shows "applyEvent pl s (e\<lparr>se_payload := c\<rparr>) = applyEvent pl s e"
proof (cases "se_payload e")
  case (JObj kvs)
  have wf: "wf_json (JObj kvs)" using assms(1) JObj by (simp add: replayable_def)
  obtain kvs' where c: "c = JObj kvs'" "canon_members kvs kvs'"
    using canonicalize_members [OF assms(2) [unfolded JObj] wf] .
  have "map_of kvs' f = map_of kvs f" if "map_of case_labels (se_type e) = Some ec" "kept_text ec = Some f" for ec f
    using c(2) [unfolded canon_members_def, rule_format, of f]
  proof (rule canon_optE)
    fix v w d
    assume vw: "map_of kvs f = Some v" "map_of kvs' f = Some w" "canonicalize v d = Inr w"
    with assms(1) that JObj have "w = v" unfolding replayable_def by metis
    with vw show ?thesis by simp
  qed simp
  then have "apply_case pl ec s e kvs' = apply_case pl ec s e kvs" if "map_of case_labels (se_type e) = Some ec" for ec
    using apply_case_canonical [OF c(2)] that by blast
  then show ?thesis
    by (simp add: applyEvent_def payloadObject_def JObj c(1) payload_unused payload_unused_case split: option.split)
next
  case (JArr vs)
  then show ?thesis using canonicalize_cases [OF assms(2)] by (auto simp: applyEvent_def payloadObject_def payload_unused)
qed (use canonicalize_cases [OF assms(2)] in \<open>auto simp: applyEvent_def payloadObject_def payload_unused\<close>)

end
