(* ===== verification/State_Convergence.thy ===== *)
theory State_Convergence
  imports State_Values State_Canonical
begin

text \<open>
  Commits and replay agree: whatever sequence of commands is committed, folding the journal again
  reproduces the stored projection, so the comparison of \<open>replay/compare.ts\<close> reports convergence.
  What is relied on of SQLite is the locale \<open>sql_store\<close>: the stored rows by primary key and the
  journal, and how each statement the code runs changes them when it succeeds. A statement may
  always fail instead (constraints, triggers, a busy or full database), and then the command fails.
\<close>

section \<open>What is relied on of SQLite\<close>

definition primary_key :: "ProjectionTable \<Rightarrow> string list" where
  "primary_key t = ts_updateKeyColumns (TABLE_SQL t)"

definition raw_sequence :: "rawrow \<Rightarrow> int" where
  "raw_sequence r = (case r ''sequence'' of Some (SInt n) \<Rightarrow> n | _ \<Rightarrow> 0)"

text \<open>
  The databases between \<open>BEGIN IMMEDIATE\<close> on \<open>db0\<close> and the end of the transaction: what a sequence of
  writing statements, each of them successful, leads to.
\<close>

inductive in_transaction :: "'db sqlite \<Rightarrow> 'db \<Rightarrow> 'db \<Rightarrow> bool" for sq :: "'db sqlite" and db0 :: 'db where
  tx_begin: "sq_begin sq db0 = Inr db \<Longrightarrow> in_transaction sq db0 db"
| tx_insert: "in_transaction sq db0 db \<Longrightarrow> sq_insert sq t cols vals db = Inr db' \<Longrightarrow> in_transaction sq db0 db'"
| tx_update: "in_transaction sq db0 db \<Longrightarrow> sq_update sq t cols vals key prev db = Inr (n, db') \<Longrightarrow> in_transaction sq db0 db'"
| tx_event: "in_transaction sq db0 db \<Longrightarrow> sq_insertEvent sq cols vals db = Inr (n, db') \<Longrightarrow> in_transaction sq db0 db'"

locale sql_store =
  fixes sq :: "'db sqlite"
    and rows :: "'db \<Rightarrow> ProjectionTable \<Rightarrow> sqlval list \<Rightarrow> rawrow option"
    and journal :: "'db \<Rightarrow> rawrow list"
  assumes sq_begin_keeps: "sq_begin sq db = Inr db' \<Longrightarrow>
      rows db' = rows db \<and> journal db' = journal db \<and> sq_userVersion sq db' = sq_userVersion sq db"
    and sq_commit_keeps: "sq_commit sq db = Inr db' \<Longrightarrow>
      rows db' = rows db \<and> journal db' = journal db \<and> sq_userVersion sq db' = sq_userVersion sq db"
    and sq_rollback_restores: "in_transaction sq db db' \<Longrightarrow> sq_isTransaction sq db' \<and> sq_rollback sq db' = Inr db"
    and sq_select_row: "sq_select sq t cols key db = map_option (\<lambda>r. r |` set cols) (rows db t key)"
    and sq_selectAll_rows: "set (sq_selectAll sq t cols db) = {r |` set cols | r. \<exists>key. rows db t key = Some r}"
    and sq_insert_row: "sq_insert sq t cols vals db = Inr db' \<Longrightarrow>
      rows db' = (rows db)(t := (rows db t)(map (\<lambda>c. the (map_of (zip cols vals) c)) (primary_key t) \<mapsto> map_of (zip cols vals)))
      \<and> journal db' = journal db \<and> sq_userVersion sq db' = sq_userVersion sq db"
    and sq_update_row: "sq_update sq t cols vals key prev db = Inr (n, db') \<Longrightarrow>
      journal db' = journal db \<and> sq_userVersion sq db' = sq_userVersion sq db \<and>
      (case rows db t key of
         Some r \<Rightarrow>
           if r ''revision'' = Some (SInt prev)
           then n = 1 \<and> rows db' = (rows db)(t := (rows db t)(key \<mapsto> r ++ map_of (zip cols vals)))
           else n = 0 \<and> rows db' = rows db
       | None \<Rightarrow> n = 0 \<and> rows db' = rows db)"
    and sq_insertEvent_row: "sq_insertEvent sq cols vals db = Inr (n, db') \<Longrightarrow>
      rows db' = rows db \<and> sq_userVersion sq db' = sq_userVersion sq db \<and>
      journal db' = journal db @ [(map_of (zip cols vals))(''sequence'' \<mapsto> SInt n)] \<and>
      0 < n \<and> (\<forall>r \<in> set (journal db). raw_sequence r < n)"
    and sq_selectEvents_rows: "sq_selectEvents sq n db = filter (\<lambda>r. raw_sequence r \<le> n) (journal db)"
    and sq_maxSequence_rows: "sq_maxSequence sq db = Max (insert 0 (raw_sequence ` set (journal db)))"

section \<open>Inside the transaction\<close>

lemma appendEvent_transaction:
  assumes "in_transaction sq db0 db"
  shows "appendEvent sq pl eid input db = Inl (e, db') \<Longrightarrow> in_transaction sq db0 db'"
    "appendEvent sq pl eid input db = Inr (ev, db') \<Longrightarrow> in_transaction sq db0 db'"
  using assms by (auto simp: appendEvent_def tbind_eq_Inl tbind_eq_Inr intro: tx_event split: if_splits)

lemma exec_write_transaction:
  assumes "in_transaction sq db0 db"
  shows "exec_write sq v w (reported, db) = Inl (e, db') \<Longrightarrow> in_transaction sq db0 db'"
    "exec_write sq v w (reported, db) = Inr (reported', db') \<Longrightarrow> in_transaction sq db0 db'"
  using assms by (auto simp: exec_write_def Let_def tbind_eq_Inl tbind_eq_Inr intro: tx_insert tx_update split: if_splits option.splits)

lemma exec_writes_transaction:
  "in_transaction sq db0 db \<Longrightarrow> tfold (exec_write sq v) ws (reported, db) = Inl (e, db') \<Longrightarrow> in_transaction sq db0 db'"
  "in_transaction sq db0 db \<Longrightarrow> tfold (exec_write sq v) ws (reported, db) = Inr (reported', db') \<Longrightarrow> in_transaction sq db0 db'"
proof (induction ws arbitrary: reported db)
  case (Cons w ws)
  {
    case 1
    from 1(2) consider "exec_write sq v w (reported, db) = Inl (e, db')"
      | r1 db1 where "exec_write sq v w (reported, db) = Inr (r1, db1)" "tfold (exec_write sq v) ws (r1, db1) = Inl (e, db')"
      by (auto simp: tbind_eq_Inl)
    then show ?case by cases (blast intro: exec_write_transaction [OF 1(1)] Cons.IH(1))+
  next
    case 2
    from 2(2) obtain r1 db1 where "exec_write sq v w (reported, db) = Inr (r1, db1)" "tfold (exec_write sq v) ws (r1, db1) = Inr (reported', db')"
      by (auto simp: tbind_eq_Inr)
    then show ?case by (blast intro: exec_write_transaction [OF 2(1)] Cons.IH(2))
  }
qed simp_all

lemma commit_body_transaction:
  assumes "in_transaction sq db0 db" "commit_body sq pl num ci command options db = Inl (e, db')"
  shows "in_transaction sq db0 db'"
  using assms unfolding commit_body_def Let_def
  by (auto simp: tbind_eq_Inl dest: appendEvent_transaction [OF assms(1)] exec_writes_transaction [rotated])

section \<open>Columns\<close>

definition full_row :: "ProjectionTable \<Rightarrow> rawrow \<Rightarrow> bool" where
  "full_row t raw \<longleftrightarrow> dom raw = set (ts_insertColumns (TABLE_SQL t))"

lemmas columns_defs = runRow_def codebaseRow_def repositoryRow_def workspaceRow_def workspaceLeaseRow_def
  artifact_columns_def stageArtifactAliasRow_def

lemma encode_full: "full_row (row_table r) (encode pl r)"
  by (cases r) (simp_all add: full_row_def columns_defs dom_map_of_conv_image_fst RUN_PROJECTION_SQL_def
      del: map_of.simps json_stringify.simps)

lemma update_columns: "t \<noteq> T_artifact \<Longrightarrow>
    set (ts_insertColumns (TABLE_SQL t)) = set (ts_updateColumns (TABLE_SQL t)) \<union> set (primary_key t)"
  by (cases t) (auto simp: primary_key_def RUN_PROJECTION_SQL_def)

lemma encode_primary_key: "map (\<lambda>c. the (encode pl r c)) (primary_key (row_table r)) = pk_values r"
  by (cases r) (simp_all add: primary_key_def RUN_PROJECTION_SQL_def run_columns codebase_columns repository_columns
      workspace_columns lease_columns artifact_row_columns alias_columns)

lemma primary_key_columns: "set (primary_key t) \<subseteq> set (ts_insertColumns (TABLE_SQL t))"
  by (cases t) (simp_all add: primary_key_def RUN_PROJECTION_SQL_def)

lemma encode_revision: "encode pl r ''revision'' = Some (SInt (row_revision r))"
  by (cases r) (simp_all add: run_columns codebase_columns repository_columns
      workspace_columns lease_columns artifact_row_columns alias_columns)

lemma map_of_zip_row: "set cols \<subseteq> dom raw \<Longrightarrow> map_of (zip cols (map (\<lambda>c. the (raw c)) cols)) = raw |` set cols"
  by (induction cols) (auto simp: fun_eq_iff restrict_map_def)

lemma boundValues_full: "set cols \<subseteq> dom (pw_row w) \<Longrightarrow> boundValues w cols = Inr (map (\<lambda>c. the (pw_row w c)) cols)"
proof -
  assume "set cols \<subseteq> dom (pw_row w)"
  then have "map (\<lambda>column. case pw_row w column of Some v \<Rightarrow> Inr v
       | None \<Rightarrow> Inl (Thrown (''commitStateChange: projection row for '' @ table_name (pw_table w)
                   @ '' is missing column '' @ column))) cols = map Inr (map (\<lambda>c. the (pw_row w c)) cols)"
    by (auto split: option.split)
  then show ?thesis unfolding boundValues_def by (simp only: rseq_map_Inr)
qed

lemma restrict_map_self_dom: "dom m = A \<Longrightarrow> m |` A = m"
  by (auto simp: fun_eq_iff restrict_map_def)

lemma restrict_full: "full_row t raw \<Longrightarrow> raw |` set (ts_insertColumns (TABLE_SQL t)) = raw"
  unfolding full_row_def by (metis restrict_map_self_dom)

section \<open>One write\<close>

text \<open>The write of a row: its columns are complete, and an update targets the row it replaces.\<close>

definition write_key :: "ProjectionWrite \<Rightarrow> sqlval list" where
  "write_key w = map (\<lambda>c. the (pw_row w c)) (primary_key (pw_table w))"

definition good_write :: "ProjectionWrite \<Rightarrow> rawrow option \<Rightarrow> bool" where
  "good_write w old \<longleftrightarrow>
     full_row (pw_table w) (pw_row w) \<and>
     (pw_previousRevision w \<noteq> None \<longrightarrow>
        pw_table w \<noteq> T_artifact \<and>
        (\<exists>r. old = Some r \<and> full_row (pw_table w) r \<and> (\<forall>c \<in> set (primary_key (pw_table w)). r c = pw_row w c)))"

context sql_store
begin

lemma exec_write_row:
  assumes w: "good_write w (rows db (pw_table w) (write_key w))"
    and version: "CAPABILITY_LANDING_SCHEMA_VERSION \<le> version"
    and exec: "exec_write sq version w (reported, db) = Inr (reported', db')"
  shows "rows db' = (rows db)(pw_table w := (rows db (pw_table w))(write_key w \<mapsto> pw_row w))"
    "journal db' = journal db" "sq_userVersion sq db' = sq_userVersion sq db"
proof -
  let ?t = "pw_table w"
  have sql: "tableSql ?t version = TABLE_SQL ?t" using version by (simp add: tableSql_def)
  have full: "full_row ?t (pw_row w)" using w by (simp add: good_write_def)
  have "rows db' = (rows db)(?t := (rows db ?t)(write_key w \<mapsto> pw_row w)) \<and> journal db' = journal db \<and>
      sq_userVersion sq db' = sq_userVersion sq db"
  proof (cases "pw_previousRevision w")
    case None
    let ?cols = "ts_insertColumns (TABLE_SQL ?t)"
    have cols: "set ?cols \<subseteq> dom (pw_row w)" using full by (simp add: full_row_def)
    from exec None have "sq_insert sq ?t ?cols (map (\<lambda>c. the (pw_row w c)) ?cols) db = Inr db'"
      by (auto simp: exec_write_def Let_def sql tbind_eq_Inr boundValues_full [OF cols])
    note ins = sq_insert_row [OF this]
    have "map_of (zip ?cols (map (\<lambda>c. the (pw_row w c)) ?cols)) = pw_row w"
      using map_of_zip_row [OF cols] restrict_full [OF full] by simp
    with ins show ?thesis by (simp add: write_key_def)
  next
    case (Some prev)
    let ?cols = "ts_updateColumns (TABLE_SQL ?t)"
    from w Some obtain r where na: "?t \<noteq> T_artifact" and r: "rows db ?t (write_key w) = Some r" "full_row ?t r"
      "\<And>c. c \<in> set (primary_key ?t) \<Longrightarrow> r c = pw_row w c"
      by (auto simp: good_write_def)
    have cols: "set ?cols \<subseteq> dom (pw_row w)" "set (primary_key ?t) \<subseteq> dom (pw_row w)"
      using full update_columns [OF na] by (auto simp: full_row_def)
    from exec Some obtain n where
      upd: "sq_update sq ?t ?cols (map (\<lambda>c. the (pw_row w c)) ?cols) (write_key w) prev db = Inr (n, db')" "n = 1"
      by (auto simp: exec_write_def Let_def sql tbind_eq_Inr boundValues_full [OF cols(1)]
          boundValues_full [OF cols(2), unfolded primary_key_def] write_key_def primary_key_def split: if_splits)
    have "r ++ map_of (zip ?cols (map (\<lambda>c. the (pw_row w c)) ?cols)) = pw_row w"
    proof
      fix c
      have doms: "dom r = dom (pw_row w)" "dom r = set ?cols \<union> set (primary_key ?t)"
        using r(2) full update_columns [OF na] by (simp_all add: full_row_def)
      show "(r ++ map_of (zip ?cols (map (\<lambda>c. the (pw_row w c)) ?cols))) c = pw_row w c"
        unfolding map_of_zip_row [OF cols(1)]
      proof (cases "c \<in> set ?cols")
        case True
        with cols(1) have "c \<in> dom (pw_row w)" by blast
        then obtain v where "pw_row w c = Some v" by blast
        with True show "(r ++ pw_row w |` set ?cols) c = pw_row w c" by (simp add: map_add_def restrict_map_def)
      next
        case False
        then have "(r ++ pw_row w |` set ?cols) c = r c" by (simp add: map_add_def restrict_map_def)
        moreover have "r c = pw_row w c"
          using r(3) [of c] doms False by (cases "c \<in> set (primary_key ?t)") (simp, metis Un_iff domIff)
        ultimately show "(r ++ pw_row w |` set ?cols) c = pw_row w c" by simp
      qed
    qed
    with sq_update_row [OF upd(1)] r(1) upd(2) show ?thesis by (auto split: if_splits)
  qed
  then show "rows db' = (rows db)(?t := (rows db ?t)(write_key w \<mapsto> pw_row w))"
    "journal db' = journal db" "sq_userVersion sq db' = sq_userVersion sq db" by blast+
qed

lemma exec_writes_rows:
  assumes "tfold (exec_write sq version) ws (reported, db) = Inr (reported', db')"
    "CAPABILITY_LANDING_SCHEMA_VERSION \<le> version"
    "distinct (map (\<lambda>w. (pw_table w, write_key w)) ws)"
    "\<And>w. w \<in> set ws \<Longrightarrow> good_write w (rows db (pw_table w) (write_key w))"
  shows "rows db' t key = (case find (\<lambda>w. pw_table w = t \<and> write_key w = key) ws of Some w \<Rightarrow> Some (pw_row w) | None \<Rightarrow> rows db t key)
    \<and> journal db' = journal db \<and> sq_userVersion sq db' = sq_userVersion sq db"
  using assms
proof (induction ws arbitrary: reported db)
  case (Cons w ws)
  from Cons.prems(1) obtain reported1 db1 where
    one: "exec_write sq version w (reported, db) = Inr (reported1, db1)"
    and rest: "tfold (exec_write sq version) ws (reported1, db1) = Inr (reported', db')"
    by (auto simp: tbind_eq_Inr)
  note db1 = exec_write_row [OF Cons.prems(4) [OF list.set_intros(1)] Cons.prems(2) one]
  have good: "good_write w' (rows db1 (pw_table w') (write_key w'))" if "w' \<in> set ws" for w'
  proof -
    have "(pw_table w', write_key w') \<noteq> (pw_table w, write_key w)" using Cons.prems(3) that by (force simp: image_iff)
    then have "rows db1 (pw_table w') (write_key w') = rows db (pw_table w') (write_key w')" by (auto simp: db1(1))
    with Cons.prems(4) that show ?thesis by simp
  qed
  have other: "find (\<lambda>w'. pw_table w' = pw_table w \<and> write_key w' = write_key w) ws = None"
    using Cons.prems(3) by (auto simp: find_None_iff image_iff)
  have IH: "rows db' t key = (case find (\<lambda>w. pw_table w = t \<and> write_key w = key) ws of Some w \<Rightarrow> Some (pw_row w) | None \<Rightarrow> rows db1 t key)
    \<and> journal db' = journal db1 \<and> sq_userVersion sq db' = sq_userVersion sq db1"
    using Cons.IH [OF rest Cons.prems(2)] Cons.prems(3) good by simp
  then show ?case using db1 other by (auto split: option.split)
qed simp

end

section \<open>Stored rows that represent a projection\<close>

definition represents ::
  "platform \<Rightarrow> (ProjectionTable \<Rightarrow> sqlval list \<Rightarrow> rawrow option) \<Rightarrow> projection \<Rightarrow> bool" where
  "represents pl stored s \<longleftrightarrow>
     (\<forall>t k r. look s t k = Some r \<longrightarrow> stored t (pk_values r) = Some (encode pl r)) \<and>
     (\<forall>t key raw. stored t key = Some raw \<longrightarrow> (\<exists>k r. look s t k = Some r \<and> pk_values r = key))"

lemma wf_keysD: "wf_keys s \<Longrightarrow> look s t k = Some r \<Longrightarrow> row_key r = k"
  unfolding wf_keys_def by blast

lemma pk_simple: "row_table r \<noteq> T_stage_artifact_alias \<Longrightarrow> pk_values r = [SText (row_key r)]"
  by (cases r) simp_all

lemma represents_key:
  assumes "represents pl stored s" "wf_keys s" "t \<noteq> T_stage_artifact_alias"
  shows "stored t [SText k] = map_option (encode pl) (look s t k)"
proof -
  have pk: "pk_values r = [SText k]" if "look s t k = Some r" for r k
    using pk_simple [of r] look_table [OF that] wf_keysD [OF assms(2) that] assms(3) by simp
  show ?thesis
  proof (cases "look s t k")
    case None
    have "stored t [SText k] \<noteq> Some raw" for raw
    proof
      assume "stored t [SText k] = Some raw"
      with assms(1) obtain k' r where r: "look s t k' = Some r" "pk_values r = [SText k]"
        unfolding represents_def by metis
      with pk [OF r(1)] None show False by simp
    qed
    with None show ?thesis by (cases "stored t [SText k]") auto
  next
    case (Some r)
    with assms(1) pk [OF Some] show ?thesis unfolding represents_def by (metis option.simps(9))
  qed
qed

lemma represents_alias:
  assumes "represents pl stored s" "wf_keys s" "values_ok s" "nul_free a" "nul_free b" "nul_free c"
  shows "stored T_stage_artifact_alias [SText a, SText b, SText c] =
    map_option (encode pl) (look s T_stage_artifact_alias (stageArtifactAliasKey a b c))"
proof (cases "look s T_stage_artifact_alias (stageArtifactAliasKey a b c)")
  case None
  have "stored T_stage_artifact_alias [SText a, SText b, SText c] \<noteq> Some raw" for raw
  proof
    assume "stored T_stage_artifact_alias [SText a, SText b, SText c] = Some raw"
    with assms(1) obtain k r where r: "look s T_stage_artifact_alias k = Some r" "pk_values r = [SText a, SText b, SText c]"
      unfolding represents_def by metis
    then obtain al where "r = AliasRow al" by (cases r) auto
    with r(2) wf_keysD [OF assms(2) r(1)] have "k = stageArtifactAliasKey a b c" by simp
    with r None show False by simp
  qed
  with None show ?thesis by (cases "stored T_stage_artifact_alias [SText a, SText b, SText c]") auto
next
  case (Some r)
  then obtain al where al: "r = AliasRow al" by auto
  have "row_key r = stageArtifactAliasKey a b c" "row_ok r"
    using wf_keysD [OF assms(2) Some] assms(3) Some unfolding values_ok_def by blast+
  then have "pk_values r = [SText a, SText b, SText c]"
    using alias_key_inject [of "al_runId al" "al_stageId al" "al_name al" a b c] assms(4-6) by (simp add: al)
  with Some assms(1) show ?thesis unfolding represents_def by (metis option.simps(9))
qed

lemma load_keys_look:
  assumes "load_keys get narrow name keys = Inr m"
    "\<And>k. k \<in> set keys \<Longrightarrow> get k = map_option enc (L (name k))"
    "\<And>r r'. narrow (enc r) = Inr r' \<Longrightarrow> r' = r"
  shows "map_of m x = (if x \<in> name ` set keys then L x else None)"
proof -
  let ?f = "\<lambda>k m. case get k of None \<Rightarrow> Inr m | Some raw \<Rightarrow> rbind (narrow raw) (\<lambda>row. Inr (AList.update (name k) row m))"
  have "map_of m x = (if x \<in> name ` set ks \<and> L x \<noteq> None then L x else map_of m0 x)"
    if "rfold ?f ks m0 = Inr m" "set ks \<subseteq> set keys" for ks m0
    using that
  proof (induction ks arbitrary: m0)
    case (Cons k ks)
    from Cons.prems(1) obtain m1 where m1: "?f k m0 = Inr m1" and rest: "rfold ?f ks m1 = Inr m"
      by (auto simp: rbind_eq_Inr)
    have "map_of m1 y = (if y = name k \<and> L y \<noteq> None then L y else map_of m0 y)" for y
    proof (cases "L (name k)")
      case None
      with assms(2) [of k] Cons.prems(2) m1 show ?thesis by auto
    next
      case (Some r)
      with assms(2) [of k] Cons.prems(2) m1 obtain r' where "narrow (enc r) = Inr r'" "m1 = AList.update (name k) r' m0"
        by (auto simp: rbind_eq_Inr)
      with assms(3) Some show ?thesis by (auto simp: js_simps)
    qed
    with Cons.IH [OF rest] Cons.prems(2) show ?case by auto
  qed simp
  from this [of keys "[]"] assms(1) show ?thesis by (auto simp: load_keys_def)
qed

lemma select_columns:
  "CAPABILITY_LANDING_SCHEMA_VERSION \<le> v \<Longrightarrow>
     set (runProjectionSelectColumns v) = set (ts_insertColumns (TABLE_SQL T_run_projection))"
  "set CODEBASE_COLUMNS = set (ts_insertColumns (TABLE_SQL T_codebase))"
  "set REPOSITORY_COLUMNS = set (ts_insertColumns (TABLE_SQL T_repository))"
  "set WORKSPACE_COLUMNS = set (ts_insertColumns (TABLE_SQL T_workspace))"
  "set WORKSPACE_LEASE_COLUMNS = set (ts_insertColumns (TABLE_SQL T_workspace_lease))"
  "set ARTIFACT_COLUMNS = set (ts_insertColumns (TABLE_SQL T_artifact))"
  "set STAGE_ARTIFACT_ALIAS_COLUMNS = set (ts_insertColumns (TABLE_SQL T_stage_artifact_alias))"
  by (auto simp: runProjectionSelectColumns_def RUN_PROJECTION_SQL_def CODEBASE_COLUMNS_def REPOSITORY_COLUMNS_def
      WORKSPACE_COLUMNS_def WORKSPACE_LEASE_COLUMNS_def ARTIFACT_COLUMNS_def STAGE_ARTIFACT_ALIAS_COLUMNS_def)

lemma encode_restrict: "row_table r = t \<Longrightarrow> encode pl r |` set (ts_insertColumns (TABLE_SQL t)) = encode pl r"
  using restrict_full [OF encode_full] by blast

lemma map_restrict_look:
  "map_option (\<lambda>raw. raw |` set (ts_insertColumns (TABLE_SQL t))) (map_option (encode pl) (look s t k)) =
   map_option (encode pl) (look s t k)"
  by (cases "look s t k") (simp_all add: encode_restrict [OF look_table])

context sql_store
begin

lemma load_scoped:
  assumes rep: "represents pl (rows db) s" and wf: "wf_keys s" and vals: "values_ok s"
    and nums: "numbers_read_back pl num" and version: "CAPABILITY_LANDING_SCHEMA_VERSION \<le> sq_userVersion sq db"
    and nuls: "\<And>a b c. (a, b, c) \<in> set (sc_aliases sc) \<Longrightarrow> nul_free a \<and> nul_free b \<and> nul_free c"
    and load: "loadScopedProjectionState sq num sc db = Inr before"
  shows "look before t k = (if in_scope sc t k then look s t k else None)"
proof -
  have sel: "sq_select sq t cols [SText k] db = map_option (encode pl) (look s t k)"
    if "t \<noteq> T_stage_artifact_alias" "set cols = set (ts_insertColumns (TABLE_SQL t))" for t cols k
    unfolding sq_select_row represents_key [OF rep wf that(1)] that(2) by (rule map_restrict_look)
  have sel_alias: "(\<lambda>(a, b, c). sq_select sq T_stage_artifact_alias STAGE_ARTIFACT_ALIAS_COLUMNS [SText a, SText b, SText c] db) x =
      map_option (encode pl) (look s T_stage_artifact_alias ((\<lambda>(a, b, c). stageArtifactAliasKey a b c) x))"
    if "x \<in> set (sc_aliases sc)" for x
  proof -
    obtain a b c where x: "x = (a, b, c)" by (cases x)
    with nuls that have n: "nul_free a" "nul_free b" "nul_free c" by auto
    show ?thesis
      unfolding x prod.case sq_select_row represents_alias [OF rep wf vals n] select_columns(7) by (rule map_restrict_look)
  qed
  from load have
    runs: "load_keys (\<lambda>k. sq_select sq T_run_projection (runProjectionSelectColumns (sq_userVersion sq db)) [SText k] db)
        toRunProjectionRow id (sc_runs sc) = Inr (pj_runs before)" and
    cbs: "load_keys (\<lambda>k. sq_select sq T_codebase CODEBASE_COLUMNS [SText k] db) toCodebaseRow id (sc_codebases sc) =
        Inr (pj_codebases before)" and
    rys: "load_keys (\<lambda>k. sq_select sq T_repository REPOSITORY_COLUMNS [SText k] db) toRepositoryRow id (sc_repositories sc) =
        Inr (pj_repositories before)" and
    wks: "load_keys (\<lambda>k. sq_select sq T_workspace WORKSPACE_COLUMNS [SText k] db) toWorkspaceRow id (sc_workspaces sc) =
        Inr (pj_workspaces before)" and
    lss: "load_keys (\<lambda>k. sq_select sq T_workspace_lease WORKSPACE_LEASE_COLUMNS [SText k] db) toWorkspaceLeaseRow id
        (sc_workspaceLeases sc) = Inr (pj_workspaceLeases before)" and
    afs: "load_keys (\<lambda>k. sq_select sq T_artifact ARTIFACT_COLUMNS [SText k] db) (toArtifactRow num) id (sc_artifacts sc) =
        Inr (pj_artifacts before)" and
    als: "load_keys (\<lambda>(a, b, c). sq_select sq T_stage_artifact_alias STAGE_ARTIFACT_ALIAS_COLUMNS [SText a, SText b, SText c] db)
        toStageArtifactAliasRow (\<lambda>(a, b, c). stageArtifactAliasKey a b c) (sc_aliases sc) = Inr (pj_aliases before)"
    by (auto simp: loadScopedProjectionState_def Let_def rbind_eq_Inr)
  have "map_of (pj_runs before) k = (if k \<in> id ` set (sc_runs sc) then map_of (pj_runs s) k else None)"
    by (rule load_keys_look [OF runs, where enc = runRow])
       (simp_all add: sel select_columns version option.map_comp comp_def run_row_read)
  moreover have "map_of (pj_codebases before) k = (if k \<in> id ` set (sc_codebases sc) then map_of (pj_codebases s) k else None)"
    by (rule load_keys_look [OF cbs, where enc = codebaseRow])
       (simp_all add: sel select_columns option.map_comp comp_def codebase_row_read)
  moreover have "map_of (pj_repositories before) k = (if k \<in> id ` set (sc_repositories sc) then map_of (pj_repositories s) k else None)"
    by (rule load_keys_look [OF rys, where enc = repositoryRow])
       (simp_all add: sel select_columns option.map_comp comp_def repository_row_read)
  moreover have "map_of (pj_workspaces before) k = (if k \<in> id ` set (sc_workspaces sc) then map_of (pj_workspaces s) k else None)"
    by (rule load_keys_look [OF wks, where enc = workspaceRow])
       (simp_all add: sel select_columns option.map_comp comp_def workspace_row_read)
  moreover have "map_of (pj_workspaceLeases before) k =
      (if k \<in> id ` set (sc_workspaceLeases sc) then map_of (pj_workspaceLeases s) k else None)"
    by (rule load_keys_look [OF lss, where enc = workspaceLeaseRow])
       (simp_all add: sel select_columns option.map_comp comp_def lease_row_read)
  moreover have "map_of (pj_artifacts before) k = (if k \<in> id ` set (sc_artifacts sc) then map_of (pj_artifacts s) k else None)"
    by (rule load_keys_look [OF afs, where enc = "\<lambda>r. encode pl (ArtifactRow r)"])
       (simp_all add: sel select_columns option.map_comp comp_def artifact_row_read [OF nums] del: json_stringify.simps)
  moreover have "map_of (pj_aliases before) k =
      (if k \<in> (\<lambda>(a, b, c). stageArtifactAliasKey a b c) ` set (sc_aliases sc) then map_of (pj_aliases s) k else None)"
    by (rule load_keys_look [OF als, where enc = stageArtifactAliasRow])
       (simp_all add: sel_alias option.map_comp comp_def alias_row_read del: split_paired_All)
  ultimately show ?thesis by (cases t) simp_all
qed

end

section \<open>One commit\<close>

lemma scope_nul_free:
  assumes "eventScope pl e = Inr sc" "(a, b, c) \<in> set (sc_aliases sc)"
  shows "nul_free a \<and> nul_free b \<and> nul_free c"
proof -
  from assms(1) obtain payload ca where sc: "scope_of_case pl ca e payload = Inr sc"
    by (auto simp: eventScope_def rbind_eq_Inr split: option.splits)
  show ?thesis
    using sc assms(2)
    by (cases ca) (auto simp: scope_of_case_def empty_scope_def rbind_eq_Inr require_nul_free dest: refs_nul_free)
qed

lemma row_write_some: "w \<in> set (row_write pl before after t k) \<Longrightarrow> \<exists>new. look after t k = Some new"
  by (cases "look after t k") (simp_all add: row_write_def)

lemma values_okD: "values_ok s \<Longrightarrow> look s t k = Some r \<Longrightarrow> row_ok r"
  unfolding values_ok_def by blast

lemma wf_keys_sub: "wf_keys s \<Longrightarrow> (\<And>t k. look t0 t k = look s t k \<or> look t0 t k = None) \<Longrightarrow> wf_keys t0"
  unfolding wf_keys_def by (metis option.distinct(1))

lemma values_ok_sub: "values_ok s \<Longrightarrow> (\<And>t k. look t0 t k = look s t k \<or> look t0 t k = None) \<Longrightarrow> values_ok t0"
  unfolding values_ok_def by (metis option.distinct(1))

text \<open>
  The change an event makes to the rows it loaded is the change it makes to the whole projection:
  if the stored rows represented the projection, they represent the next one.
\<close>

lemma change_represents:
  assumes rep: "represents pl stored s"
    and wf: "wf_keys after" "wf_keys s'" and vals: "values_ok after" "values_ok s'" "values_ok s" and wfs: "wf_keys s"
    and before: "\<And>t k. look before t k = (if in_scope sc t k then look s t k else None)"
    and agr: "agree sc s' after" and adv: "advances e sc s s'" "advances e sc before after"
    and stored': "\<And>t key. stored' t key =
      (case find (\<lambda>w. pw_table w = t \<and> write_key w = key) (state_writes pl before after) of
         Some w \<Rightarrow> Some (pw_row w) | None \<Rightarrow> stored t key)"
  shows "represents pl stored' s'"
proof -
  have w_key: "write_key w = pk_values new \<and> pw_row w = encode pl new"
    if "w \<in> set (row_write pl before after t k)" "look after t k = Some new" for w t k new
    using that change_writes [OF adv(2), of pl t k] encode_primary_key [of pl new] look_table [OF that(2)]
    by (auto simp: write_key_def split: if_splits)
  have changed: "in_scope sc t k \<and> look s' t k = look after t k" if "look after t k \<noteq> look before t k" for t k
    using that adv(2) agr unfolding advances_def agree_def by metis
  have unchanged: "look s' t k = look s t k" if "look after t k = look before t k" for t k
  proof (cases "in_scope sc t k")
    case True
    with agr that before show ?thesis by (simp add: agree_def)
  next
    case False
    with adv(1) show ?thesis unfolding advances_def by metis
  qed
  have written: "stored' t (pk_values new) = Some (encode pl new)"
    if c: "look after t k \<noteq> look before t k" and new: "look after t k = Some new" for t k new
  proof -
    let ?P = "\<lambda>w. pw_table w = t \<and> write_key w = pk_values new"
    obtain w where w: "w \<in> set (row_write pl before after t k)" using change_writes [OF adv(2), of pl t k] c by auto
    then have "w \<in> set (state_writes pl before after)" using row_write_mem [OF w] by (simp add: set_writes write_id_def)
    moreover have "?P w" using w_key [OF w new] row_write_mem [OF w] by (simp add: write_id_def)
    ultimately have "find ?P (state_writes pl before after) \<noteq> None" unfolding find_None_iff by blast
    then obtain w' where w': "find ?P (state_writes pl before after) = Some w'" by blast
    then have "w' \<in> set (state_writes pl before after)" "?P w'" by (auto simp: find_Some_iff)
    then have r': "w' \<in> set (row_write pl before after t (pw_key w'))" by (simp add: set_writes)
    then obtain new' where new': "look after t (pw_key w') = Some new'" using row_write_some by blast
    have "pk_values new' = pk_values new" using w_key [OF r' new'] \<open>?P w'\<close> by simp
    then have "row_key new' = row_key new" by (intro pk_key) (simp_all add: look_table [OF new] look_table [OF new'])
    then have "pw_key w' = k" using wf_keysD [OF wf(1) new] wf_keysD [OF wf(1) new'] by simp
    with new new' w_key [OF r' new'] w' show ?thesis by (simp add: stored')
  qed
  have kept: "stored' t (pk_values r) = stored t (pk_values r)"
    if c: "look after t k = look before t k" and r: "look s t k = Some r" for t k r
  proof -
    have "find (\<lambda>w. pw_table w = t \<and> write_key w = pk_values r) (state_writes pl before after) = None"
    proof (rule ccontr)
      assume "\<not> ?thesis"
      then obtain w where "w \<in> set (state_writes pl before after)" "pw_table w = t" "write_key w = pk_values r"
        by (auto simp: find_None_iff)
      then have w: "w \<in> set (row_write pl before after t (pw_key w))" by (simp add: set_writes)
      then obtain new where new: "look after t (pw_key w) = Some new" using row_write_some by blast
      have "pk_values new = pk_values r" using w_key [OF w new] \<open>write_key w = pk_values r\<close> by simp
      then have "row_key new = row_key r" by (intro pk_key) (simp_all add: look_table [OF new] look_table [OF r])
      then have "pw_key w = k" using wf_keysD [OF wf(1) new] wf_keysD [OF wfs r] by simp
      with w c change_writes [OF adv(2), of pl t k] show False by simp
    qed
    then show ?thesis by (simp add: stored')
  qed
  show ?thesis
    unfolding represents_def
  proof (intro conjI allI impI)
    fix t k r assume r: "look s' t k = Some r"
    show "stored' t (pk_values r) = Some (encode pl r)"
    proof (cases "look after t k = look before t k")
      case True
      with unchanged r have "look s t k = Some r" by simp
      with kept [OF True] rep show ?thesis by (simp add: represents_def)
    next
      case False
      with changed r written show ?thesis by simp
    qed
  next
    fix t key raw assume raw: "stored' t key = Some raw"
    show "\<exists>k r. look s' t k = Some r \<and> pk_values r = key"
    proof (cases "find (\<lambda>w. pw_table w = t \<and> write_key w = key) (state_writes pl before after)")
      case (Some w)
      then have "w \<in> set (state_writes pl before after)" "pw_table w = t" "write_key w = key" by (auto simp: find_Some_iff)
      then have w: "w \<in> set (row_write pl before after t (pw_key w))" by (simp add: set_writes)
      then obtain new where new: "look after t (pw_key w) = Some new" using row_write_some by blast
      have "look after t (pw_key w) \<noteq> look before t (pw_key w)" using w change_writes [OF adv(2), of pl t "pw_key w"] by auto
      with changed new have "look s' t (pw_key w) = Some new" by simp
      with w_key [OF w new] \<open>write_key w = key\<close> show ?thesis by auto
    next
      case None
      with raw have "stored t key = Some raw" by (simp add: stored')
      with rep obtain k r where r: "look s t k = Some r" "pk_values r = key" unfolding represents_def by blast
      have "look after t k = look before t k"
      proof (rule ccontr)
        assume c: "look after t k \<noteq> look before t k"
        with adv(2) obtain new where new: "look after t k = Some new" unfolding advances_def by blast
        have "row_key new = row_key r" using wf_keysD [OF wf(1) new] wf_keysD [OF wfs r(1)] by simp
        then have "pk_values new = key"
          using key_pk [of new r] look_table [OF new] look_table [OF r(1)] values_okD [OF vals(1) new]
            values_okD [OF vals(3) r(1)] r(2) by simp
        moreover obtain w where w: "w \<in> set (row_write pl before after t k)" using change_writes [OF adv(2), of pl t k] c by auto
        moreover from this have "w \<in> set (state_writes pl before after)" using row_write_mem [OF w] by (simp add: set_writes write_id_def)
        ultimately show False using None w_key [OF w new] row_write_mem [OF w] by (auto simp: find_None_iff write_id_def)
      qed
      with unchanged r show ?thesis by metis
    qed
  qed
qed

text \<open>Every write of a change targets its own row, and finds there the row it replaces.\<close>

lemma change_write:
  assumes "advances e sc before after" "w \<in> set (state_writes pl before after)"
  obtains new where "look after (pw_table w) (pw_key w) = Some new" "row_step e (look before (pw_table w) (pw_key w)) new"
    "pw_row w = encode pl new" "write_key w = pk_values new"
    "pw_previousRevision w = map_option row_revision (look before (pw_table w) (pw_key w))"
    "in_scope sc (pw_table w) (pw_key w)"
proof -
  let ?t = "pw_table w" and ?k = "pw_key w"
  have w: "w \<in> set (row_write pl before after ?t ?k)" using assms(2) set_writes by blast
  then have c: "look after ?t ?k \<noteq> look before ?t ?k" and
    weq: "w = \<lparr>pw_table = ?t, pw_key = ?k, pw_previousRevision = map_option row_revision (look before ?t ?k),
            pw_row = encode pl (the (look after ?t ?k))\<rparr>"
    unfolding change_writes [OF assms(1)] by (simp_all split: if_splits)
  from c assms(1) obtain new where new: "look after ?t ?k = Some new" "row_step e (look before ?t ?k) new" "in_scope sc ?t ?k"
    unfolding advances_def by blast
  have row: "pw_row w = encode pl new" "pw_previousRevision w = map_option row_revision (look before ?t ?k)"
    using weq new(1) by (metis ProjectionWrite.select_convs(4) option.sel, metis ProjectionWrite.select_convs(3))
  have "write_key w = pk_values new"
    using encode_primary_key [of pl new] look_table [OF new(1)] row(1) by (simp add: write_key_def)
  with that new row show ?thesis by blast
qed

lemma same_key_columns:
  assumes "pk_values r = pk_values r'" "row_table r = row_table r'" "c \<in> set (primary_key (row_table r))"
  shows "encode pl r c = encode pl r' c"
proof -
  have "c \<in> dom (encode pl r)" "c \<in> dom (encode pl r')"
    using encode_full [of r pl] encode_full [of r' pl] assms(2,3) primary_key_columns [of "row_table r"]
    by (auto simp: full_row_def)
  moreover have "the (encode pl r c) = the (encode pl r' c)"
    using assms encode_primary_key [of pl r] encode_primary_key [of pl r'] by (metis map_eq_conv)
  ultimately show ?thesis by force
qed

lemma good_writes:
  assumes adv: "advances e sc before after" and w: "w \<in> set (state_writes pl before after)"
    and vals: "values_ok after" and wfb: "wf_keys before" "values_ok before"
    and rep: "represents pl stored s" and before: "\<And>t k. look before t k = (if in_scope sc t k then look s t k else None)"
    and wfa: "wf_keys after"
  shows "good_write w (stored (pw_table w) (write_key w))"
  using adv w
proof (rule change_write)
  fix new
  let ?t = "pw_table w" and ?k = "pw_key w"
  assume new: "look after ?t ?k = Some new" "row_step e (look before ?t ?k) new"
    and row: "pw_row w = encode pl new" "write_key w = pk_values new"
    and prev: "pw_previousRevision w = map_option row_revision (look before ?t ?k)" and sc: "in_scope sc ?t ?k"
  note tbl = look_table [OF new(1)]
  have full: "full_row ?t (pw_row w)" using encode_full [of new pl] tbl row(1) by simp
  show ?thesis
  proof (cases "look before ?t ?k")
    case None
    with full prev show ?thesis by (simp add: good_write_def)
  next
    case (Some old)
    with before sc have "look s ?t ?k = Some old" by simp
    with rep have stored: "stored ?t (pk_values old) = Some (encode pl old)" unfolding represents_def by blast
    note tbl' = look_table [OF Some]
    have pk: "pk_values new = pk_values old"
      using key_pk [of new old] tbl tbl' wf_keysD [OF wfa new(1)] wf_keysD [OF wfb(1) Some]
        values_okD [OF vals new(1)] values_okD [OF wfb(2) Some] by simp
    have "?t \<noteq> T_artifact" using new(2) Some tbl by (simp add: row_step_def)
    then show ?thesis
      using full stored pk row encode_full [of old pl] tbl tbl' same_key_columns [of old new _ pl]
      by (simp add: good_write_def)
  qed
qed

lemma distinct_write_keys:
  assumes "advances e sc before after" "wf_keys after"
  shows "distinct (map (\<lambda>w. (pw_table w, write_key w)) (state_writes pl before after))"
proof -
  have "w = w'" if w: "w \<in> set (state_writes pl before after)" "w' \<in> set (state_writes pl before after)"
    "pw_table w = pw_table w'" "write_key w = write_key w'" for w w'
  proof -
    obtain new where new: "look after (pw_table w) (pw_key w) = Some new" "write_key w = pk_values new"
      using change_write [OF assms(1) w(1)] by metis
    obtain new' where new': "look after (pw_table w') (pw_key w') = Some new'" "write_key w' = pk_values new'"
      using change_write [OF assms(1) w(2)] by metis
    have "row_key new = row_key new'"
      using pk_key [of new new'] new new' w(3,4) look_table by metis
    then have "write_id w = write_id w'"
      using wf_keysD [OF assms(2) new(1)] wf_keysD [OF assms(2) new'(1)] w(3) by (simp add: write_id_def)
    with distinct_writes [of pl before after] w(1,2) show ?thesis by (auto simp: distinct_map inj_on_def)
  qed
  moreover have "distinct (state_writes pl before after)" using distinct_writes [of pl before after] by (simp add: distinct_map)
  ultimately show ?thesis by (auto simp: distinct_map inj_on_def)
qed

section \<open>The journal\<close>

text \<open>What a journal and stored rows have to do with each other after any number of commits.\<close>

definition consistent ::
  "platform \<Rightarrow> (string \<Rightarrow> js_number option) \<Rightarrow> (ProjectionTable \<Rightarrow> sqlval list \<Rightarrow> rawrow option) \<Rightarrow> rawrow list \<Rightarrow> projection \<Rightarrow> bool" where
  "consistent pl num stored jr s \<longleftrightarrow>
     wf_keys s \<and> values_ok s \<and> represents pl stored s \<and>
     (\<exists>evs. map (toStateEvent num) jr = map Inr evs \<and> rfold (\<lambda>e s. applyEvent pl s e) evs EMPTY_PROJECTION_STATE = Inr s) \<and>
     bounded_rows s (Max (insert 0 (raw_sequence ` set jr))) \<and> Max (insert 0 (raw_sequence ` set jr)) \<le> MAX_SAFE_INTEGER"

lemma event_columns:
  "toStateEvent num ((map_of (zip event_insert_columns [SText eid, nullable_val run, SText cor, nullable_val cause, SText ty, SText time, SText txt]))(''sequence'' \<mapsto> SInt n)) =
   rbind (toSafeInteger (Some (SInt n)) ''state_event.sequence'') (\<lambda>seqn.
   rbind (parseJsonValue num txt ''state_event.payload'') (\<lambda>payload.
     Inr \<lparr>se_sequence = seqn, se_eventId = eid, se_runId = run, se_correlationId = cor,
          se_causationEventId = cause, se_type = ty, se_recordedAt = time, se_payload = payload\<rparr>))"
  by (simp add: toStateEvent_def event_insert_columns_def)

context sql_store
begin

lemma appended_event:
  assumes app: "appendEvent sq pl eid input db = Inr (e, db1)" and nums: "numbers_read_back pl num"
    and wf: "wf_json (ae_payload input)"
  obtains raw c where "rows db1 = rows db" "sq_userVersion sq db1 = sq_userVersion sq db" "journal db1 = journal db @ [raw]"
    "canonicalize (ae_payload input) 0 = Inr c" "toStateEvent num raw = Inr (e\<lparr>se_payload := c\<rparr>)"
    "se_payload e = ae_payload input" "raw_sequence raw = se_sequence e"
    "0 < se_sequence e" "se_sequence e \<le> MAX_SAFE_INTEGER" "\<And>r. r \<in> set (journal db) \<Longrightarrow> raw_sequence r < se_sequence e"
proof -
  from app obtain tx n where
    tx_eq: "stringifyCanonical pl (ae_payload input) = Inr tx"
    and ins: "sq_insertEvent sq event_insert_columns
       [SText eid, nullable_val (ae_runId input), SText (ae_correlationId input), nullable_val (ae_causationEventId input),
        SText (ae_type input), SText (ae_recordedAt input), SText tx] db = Inr (n, db1)"
    and safe: "\<bar>n\<bar> \<le> MAX_SAFE_INTEGER"
    and e: "e = \<lparr>se_sequence = n, se_eventId = eid, se_runId = ae_runId input, se_correlationId = ae_correlationId input,
       se_causationEventId = ae_causationEventId input, se_type = ae_type input,
       se_recordedAt = ae_recordedAt input, se_payload = ae_payload input\<rparr>"
    by (auto simp: appendEvent_def tbind_eq_Inr split: if_splits)
  obtain c where c: "canonicalize (ae_payload input) 0 = Inr c" "parseJsonValue num tx ''state_event.payload'' = Inr c"
    using stored_text_read [OF nums wf tx_eq] by blast
  note db1 = sq_insertEvent_row [OF ins]
  show ?thesis
  proof (rule that [OF _ _ _ c(1)])
    show "toStateEvent num ((map_of (zip event_insert_columns
       [SText eid, nullable_val (ae_runId input), SText (ae_correlationId input), nullable_val (ae_causationEventId input),
        SText (ae_type input), SText (ae_recordedAt input), SText tx]))(''sequence'' \<mapsto> SInt n)) = Inr (e\<lparr>se_payload := c\<rparr>)"
      unfolding event_columns using c(2) safe by (simp add: e toSafeInteger_safe)
  qed (use db1 safe in \<open>simp_all add: e raw_sequence_def\<close>)
qed

lemma commit_consistent:
  assumes cons: "consistent pl num (rows db) (journal db) s"
    and nums: "numbers_read_back pl num" and version: "CAPABILITY_LANDING_SCHEMA_VERSION \<le> sq_userVersion sq db"
    and payload: "replayable (cm_type command) (cm_payload command)"
    and body: "commit_body sq pl num ci command options db = Inr (report, db')"
  obtains e s' where "consistent pl num (rows db') (journal db') s'" "sq_userVersion sq db' = sq_userVersion sq db"
    "applyEvent pl s e = Inr s'" "se_type e = cm_type command" "se_payload e = cm_payload command" "se_runId e = cm_runId command"
    "se_recordedAt e = ci_recordedAt ci"
proof -
  from body obtain cor e db1 sc before after reported db2 where
    app: "appendEvent sq pl (ci_eventId ci)
      \<lparr>ae_runId = cm_runId command, ae_type = cm_type command, ae_payload = cm_payload command,
       ae_correlationId = cor, ae_causationEventId = cm_causationEventId command, ae_recordedAt = ci_recordedAt ci\<rparr> db = Inr (e, db1)"
    and sc: "eventScope pl e = Inr sc" and load: "loadScopedProjectionState sq num sc db1 = Inr before"
    and ap: "applyEvent pl before e = Inr after"
    and exec: "tfold (exec_write sq (sq_userVersion sq db1)) (state_writes pl before after) ([], db1) = Inr (reported, db2)"
    and com: "sq_commit sq db2 = Inr db'"
    by (auto simp: commit_body_def tbind_eq_Inr rbind_eq_Inr diff_state_writes Let_def)
  from app nums obtain raw c where db1: "rows db1 = rows db" "sq_userVersion sq db1 = sq_userVersion sq db" "journal db1 = journal db @ [raw]"
    and c: "canonicalize (cm_payload command) 0 = Inr c" "toStateEvent num raw = Inr (e\<lparr>se_payload := c\<rparr>)" "se_payload e = cm_payload command"
    and seqn: "raw_sequence raw = se_sequence e" "0 < se_sequence e" "se_sequence e \<le> MAX_SAFE_INTEGER"
      "\<And>r. r \<in> set (journal db) \<Longrightarrow> raw_sequence r < se_sequence e"
    by (rule appended_event) (use payload in \<open>simp_all add: replayable_def\<close>)
  have fields: "se_type e = cm_type command" "se_runId e = cm_runId command" "se_recordedAt e = ci_recordedAt ci"
    using app by (auto simp: appendEvent_def tbind_eq_Inr split: if_splits)
  let ?e = "e\<lparr>se_payload := c\<rparr>"
  have same: "applyEvent pl s ?e = applyEvent pl s e"
    by (rule apply_canonical) (use payload c fields in \<open>simp_all\<close>)
  note ev = c(2)
  let ?last = "Max (insert 0 (raw_sequence ` set (journal db)))"
  from cons obtain evs where wf: "wf_keys s" and vals: "values_ok s" and rep: "represents pl (rows db) s"
    and evs: "map (toStateEvent num) (journal db) = map Inr evs" "rfold (\<lambda>e s. applyEvent pl s e) evs EMPTY_PROJECTION_STATE = Inr s"
    and bnd: "bounded_rows s ?last" by (auto simp: consistent_def)
  have rep1: "represents pl (rows db1) s" using rep by (simp add: db1)
  have before: "look before t k = (if in_scope sc t k then look s t k else None)" for t k
    using load_scoped [OF rep1 wf vals nums _ scope_nul_free [OF sc] load] version by (simp add: db1)
  have wfb: "wf_keys before" "values_ok before" using wf_keys_sub [OF wf] values_ok_sub [OF vals] before by metis+
  have "agree sc s before" using before by (simp add: agree_def)
  from apply_agree [OF this sc] ap obtain s' where s': "applyEvent pl s e = Inr s'" "agree sc s' after"
    by (cases "applyEvent pl s e") auto
  note adv = apply_advances [OF wf sc s'(1)] apply_advances [OF wfb(1) sc ap]
  note vals' = apply_values [OF vals s'(1)] apply_values [OF wfb(2) ap]
  have rows2: "rows db2 t key = (case find (\<lambda>w. pw_table w = t \<and> write_key w = key) (state_writes pl before after) of
         Some w \<Rightarrow> Some (pw_row w) | None \<Rightarrow> rows db1 t key) \<and> journal db2 = journal db1 \<and> sq_userVersion sq db2 = sq_userVersion sq db1" for t key
  proof -
    have "good_write w (rows db1 (pw_table w) (write_key w))" if "w \<in> set (state_writes pl before after)" for w
      using good_writes [OF adv(2) that vals'(2) wfb _ _ advances_wf [OF adv(2) wfb(1)]] rep1 before by simp
    with exec_writes_rows [OF exec _ distinct_write_keys [OF adv(2) advances_wf [OF adv(2) wfb(1)]]] version db1(2)
    show ?thesis by simp
  qed
  have rep': "represents pl (rows db2) s'"
    using change_represents [OF rep1 advances_wf [OF adv(2) wfb(1)] advances_wf [OF adv(1) wf] vals'(2,1) vals wf before s'(2) adv] rows2
    by blast
  note db' = sq_commit_keeps [OF com]
  have last': "Max (insert 0 (raw_sequence ` set (journal db'))) = se_sequence e"
    using seqn db1(3) rows2 db' by (intro Max_eqI) force+
  have "?last < se_sequence e" using seqn by simp
  then have "bounded_rows s' (se_sequence e)" using advances_bounded [OF adv(1) bnd] seqn(2) by simp
  then have "consistent pl num (rows db') (journal db') s'"
    unfolding consistent_def last'
    using db' rows2 db1 rep' advances_wf [OF adv(1) wf] vals' seqn(3) evs ev s'(1) same
    by (auto intro!: exI [of _ "evs @ [?e]"] simp: rfold_append)
  with that db' rows2 db1 s'(1) fields c(3) show ?thesis by simp
qed

end

end
