(* ===== verification/State_Report.thy ===== *)
theory State_Report
  imports State_Convergence
begin

text \<open>
  The report of \<open>replay/compare.ts\<close> after any sequence of commits: the stored projection is read back
  as the projection the journal folds to, and the comparison of a projection with itself finds nothing.
\<close>

section \<open>Reading all rows\<close>

lemma load_all_look:
  assumes raws: "set raws = {enc r | r. \<exists>k. L k = Some r}"
    and name: "\<And>k r. L k = Some r \<Longrightarrow> name r = k" and narrow: "\<And>k r. L k = Some r \<Longrightarrow> narrow (enc r) = Inr r"
  shows "\<exists>m. load_all raws narrow name = Inr m \<and> (\<forall>x. map_of m x = L x)"
proof -
  let ?f = "\<lambda>raw m. rbind (narrow raw) (\<lambda>row. Inr (AList.update (name row) row m))"
  have "\<exists>m. rfold ?f rs m0 = Inr m \<and> (\<forall>x. map_of m x = (if \<exists>r. L x = Some r \<and> enc r \<in> set rs then L x else map_of m0 x))"
    if "set rs \<subseteq> {enc r | r. \<exists>k. L k = Some r}" for rs m0
    using that
  proof (induction rs arbitrary: m0)
    case (Cons raw rs)
    then obtain r k where r: "raw = enc r" "L k = Some r" by auto
    with narrow name have step: "?f raw m0 = Inr (AList.update k r m0)" by simp
    from Cons obtain m where m: "rfold ?f rs (AList.update k r m0) = Inr m"
      "\<And>x. map_of m x = (if \<exists>r. L x = Some r \<and> enc r \<in> set rs then L x else map_of (AList.update k r m0) x)"
      by (metis (no_types, lifting) insert_subset list.simps(15))
    have "map_of m x = (if \<exists>r. L x = Some r \<and> enc r \<in> set (raw # rs) then L x else map_of m0 x)" for x
    proof (cases "x = k")
      case True
      have "\<exists>r'. L x = Some r' \<and> enc r' \<in> set (raw # rs)" using True r by auto
      moreover have "map_of m x = L x" using m(2) [of x] True r(2) by (simp add: js_simps)
      ultimately show ?thesis by (simp only: if_True)
    next
      case False
      have "\<not> (L x = Some r' \<and> enc r' = raw)" for r'
      proof
        assume r': "L x = Some r' \<and> enc r' = raw"
        then have "narrow (enc r') = Inr r'" "narrow (enc r) = Inr r" using narrow r by blast+
        moreover have "enc r' = enc r" using r' r(1) by simp
        ultimately have "r' = r" by (metis sum.inject(2))
        moreover have "name r' = x" "name r = k" using name r r' by blast+
        ultimately show False using False by simp
      qed
      then have "(\<exists>r'. L x = Some r' \<and> enc r' \<in> set (raw # rs)) \<longleftrightarrow> (\<exists>r'. L x = Some r' \<and> enc r' \<in> set rs)"
        by (metis set_ConsD list.set_intros(2))
      with m(2) [of x] False show ?thesis by (simp only: js_simps if_False fun_upd_apply)
    qed
    moreover have "rfold ?f (raw # rs) m0 = Inr m" using m(1) step by (simp only: rfold.simps rbind_simps)
    ultimately show ?case by blast
  qed simp
  then obtain m where m: "rfold ?f raws [] = Inr m"
    "\<And>x. map_of m x = (if \<exists>r. L x = Some r \<and> enc r \<in> set raws then L x else map_of [] x)"
    using raws by blast
  have "map_of m x = L x" for x
    using m(2) [of x] raws by (cases "L x") auto
  with m(1) show ?thesis unfolding load_all_def by blast
qed

context sql_store
begin

lemma stored_rows:
  assumes "represents pl (rows db) s" "set cols = set (ts_insertColumns (TABLE_SQL t))"
  shows "set (sq_selectAll sq t cols db) = {encode pl r | r. \<exists>k. look s t k = Some r}"
proof -
  have "rows db t key = Some raw \<Longrightarrow> \<exists>k r. look s t k = Some r \<and> raw = encode pl r" for key raw
    using assms(1) unfolding represents_def by (metis option.inject)
  moreover have "look s t k = Some r \<Longrightarrow> rows db t (pk_values r) = Some (encode pl r)" for k r
    using assms(1) unfolding represents_def by blast
  ultimately show ?thesis
    unfolding sq_selectAll_rows assms(2) by (auto simp: encode_restrict [OF look_table]) (metis encode_restrict look_table)+
qed

lemma load_table:
  assumes rep: "represents pl (rows db) s" and wf: "wf_keys s"
    and safe: "\<And>k r. look s t k = Some r \<Longrightarrow> safe_row r"
    and cols: "set cols = set (ts_insertColumns (TABLE_SQL t))"
    and view: "\<And>k. look s t k = map_option con (L k)" "\<And>r. encode pl (con r) = enc r" "\<And>r. row_key (con r) = name r"
    and narrow: "\<And>r. safe_row (con r) \<Longrightarrow> narrow (enc r) = Inr r"
  obtains m where "load_all (sq_selectAll sq t cols db) narrow name = Inr m" "\<And>x. map_of m x = L x"
proof -
  have "set (sq_selectAll sq t cols db) = {enc r | r. \<exists>k. L k = Some r}"
    unfolding stored_rows [OF rep cols] view(1) by (auto simp: view(2)) (metis view(2))
  moreover have "name r = k" if "L k = Some r" for k r
    using wf_keysD [OF wf, of t k "con r"] that view(1,3) by simp
  moreover have "narrow (enc r) = Inr r" if "L k = Some r" for k r
    using safe [of k "con r"] that view(1) by (intro narrow) simp
  ultimately have "\<exists>m. load_all (sq_selectAll sq t cols db) narrow name = Inr m \<and> (\<forall>x. map_of m x = L x)"
    by (rule load_all_look)
  with that show ?thesis by blast
qed

lemma load_stored:
  assumes rep: "represents pl (rows db) s" and wf: "wf_keys s" and nums: "numbers_read_back pl num"
    and version: "CAPABILITY_LANDING_SCHEMA_VERSION \<le> sq_userVersion sq db"
    and safe: "\<And>t k r. look s t k = Some r \<Longrightarrow> safe_row r"
  obtains stored where "loadStoredProjectionState sq num db = Inr stored" "\<And>t k. look stored t k = look s t k"
proof -
  obtain runs where runs: "load_all (sq_selectAll sq T_run_projection (runProjectionSelectColumns (sq_userVersion sq db)) db) toRunProjectionRow rn_runId = Inr runs"
      "\<And>x. map_of runs x = map_of (pj_runs s) x"
    by (rule load_table [OF rep wf, where t = T_run_projection and con = RunRow and L = "map_of (pj_runs s)" and enc = runRow
          and name = rn_runId and narrow = toRunProjectionRow and cols = "(runProjectionSelectColumns (sq_userVersion sq db))"])
      (rule safe, assumption, rule select_columns(1) [OF version], simp_all add: run_row_read safe_row_def del: json_stringify.simps)
  obtain cbs where cbs: "load_all (sq_selectAll sq T_codebase CODEBASE_COLUMNS db) toCodebaseRow cb_codebaseId = Inr cbs"
      "\<And>x. map_of cbs x = map_of (pj_codebases s) x"
    by (rule load_table [OF rep wf, where t = T_codebase and con = CodebaseRow and L = "map_of (pj_codebases s)" and enc = codebaseRow
          and name = cb_codebaseId and narrow = toCodebaseRow and cols = CODEBASE_COLUMNS])
      (rule safe, assumption, rule select_columns(2), simp_all add: codebase_row_read safe_row_def del: json_stringify.simps)
  obtain rys where rys: "load_all (sq_selectAll sq T_repository REPOSITORY_COLUMNS db) toRepositoryRow ry_repositoryId = Inr rys"
      "\<And>x. map_of rys x = map_of (pj_repositories s) x"
    by (rule load_table [OF rep wf, where t = T_repository and con = RepositoryRow and L = "map_of (pj_repositories s)" and enc = repositoryRow
          and name = ry_repositoryId and narrow = toRepositoryRow and cols = REPOSITORY_COLUMNS])
      (rule safe, assumption, rule select_columns(3), simp_all add: repository_row_read safe_row_def del: json_stringify.simps)
  obtain wks where wks: "load_all (sq_selectAll sq T_workspace WORKSPACE_COLUMNS db) toWorkspaceRow wk_workspaceId = Inr wks"
      "\<And>x. map_of wks x = map_of (pj_workspaces s) x"
    by (rule load_table [OF rep wf, where t = T_workspace and con = WorkspaceRow and L = "map_of (pj_workspaces s)" and enc = workspaceRow
          and name = wk_workspaceId and narrow = toWorkspaceRow and cols = WORKSPACE_COLUMNS])
      (rule safe, assumption, rule select_columns(4), simp_all add: workspace_row_read safe_row_def del: json_stringify.simps)
  obtain lss where lss: "load_all (sq_selectAll sq T_workspace_lease WORKSPACE_LEASE_COLUMNS db) toWorkspaceLeaseRow ls_checkoutPath = Inr lss"
      "\<And>x. map_of lss x = map_of (pj_workspaceLeases s) x"
    by (rule load_table [OF rep wf, where t = T_workspace_lease and con = LeaseRow and L = "map_of (pj_workspaceLeases s)" and enc = workspaceLeaseRow
          and name = ls_checkoutPath and narrow = toWorkspaceLeaseRow and cols = WORKSPACE_LEASE_COLUMNS])
      (rule safe, assumption, rule select_columns(5), simp_all add: lease_row_read safe_row_def del: json_stringify.simps)
  obtain afs where afs: "load_all (sq_selectAll sq T_artifact ARTIFACT_COLUMNS db) (toArtifactRow num) af_artifactId = Inr afs"
      "\<And>x. map_of afs x = map_of (pj_artifacts s) x"
    by (rule load_table [OF rep wf, where t = T_artifact and con = ArtifactRow and L = "map_of (pj_artifacts s)" and enc = "\<lambda>r. encode pl (ArtifactRow r)"
          and name = af_artifactId and narrow = "(toArtifactRow num)" and cols = ARTIFACT_COLUMNS])
      (rule safe, assumption, rule select_columns(6), simp_all add: artifact_row_read [OF nums] safe_row_def del: json_stringify.simps)
  obtain als where als: "load_all (sq_selectAll sq T_stage_artifact_alias STAGE_ARTIFACT_ALIAS_COLUMNS db) toStageArtifactAliasRow (\<lambda>row. stageArtifactAliasKey (al_runId row) (al_stageId row) (al_name row)) = Inr als"
      "\<And>x. map_of als x = map_of (pj_aliases s) x"
    by (rule load_table [OF rep wf, where t = T_stage_artifact_alias and con = AliasRow and L = "map_of (pj_aliases s)" and enc = stageArtifactAliasRow
          and name = "(\<lambda>row. stageArtifactAliasKey (al_runId row) (al_stageId row) (al_name row))" and narrow = toStageArtifactAliasRow and cols = STAGE_ARTIFACT_ALIAS_COLUMNS])
      (rule safe, assumption, rule select_columns(7), simp_all add: alias_row_read safe_row_def del: json_stringify.simps)
  let ?st = "\<lparr>pj_runs = runs, pj_codebases = cbs, pj_repositories = rys, pj_workspaces = wks, pj_workspaceLeases = lss,
     pj_artifacts = afs, pj_aliases = als\<rparr>"
  have "loadStoredProjectionState sq num db = Inr ?st"
    by (simp add: loadStoredProjectionState_def runs cbs rys wks lss afs als)
  moreover have "look ?st t k = look s t k" for t k
    by (cases t) (simp_all add: runs cbs rys wks lss afs als)
  ultimately show ?thesis using that by blast
qed

end

section \<open>A projection compared with itself\<close>

text \<open>Values that canonicalise at every depth a projection puts them at.\<close>

definition flat :: "json \<Rightarrow> bool" where
  "flat v \<longleftrightarrow> (\<forall>d < MAX_DEPTH - 1. \<exists>c. canonicalize v d = Inr c)"

lemma flat_simps:
  "flat (JStr s)" "flat (json_int n)" "flat (json_text_or_null x)" "flat (JArr (map JStr xs))" "flat JNull"
proof -
  show "flat (JArr (map JStr xs))"
  proof -
    have "rseq (map (\<lambda>v. canonicalize v (d + 1)) (map JStr xs)) = Inr (map JStr xs)" if "d < MAX_DEPTH - 1" for d
      using that by (simp add: MAX_DEPTH_def comp_def rseq_Inr)
    then show ?thesis by (simp add: flat_def MAX_DEPTH_def)
  qed
qed (auto simp: flat_def MAX_DEPTH_def json_int_def json_text_or_null_def is_finite_num_def split: option.split)

definition flat_members :: "members \<Rightarrow> bool" where
  "flat_members kvs \<longleftrightarrow> (\<forall>p \<in> set kvs. flat (snd p))"

lemma flat_rows:
  "flat_members (run_json r)" "flat_members (codebase_json c)" "flat_members (repository_json y)"
  "flat_members (workspace_json w)" "flat_members (lease_json l)" "flat_members (artifact_json a)"
  "flat_members (alias_json i)"
  by (simp_all add: flat_members_def run_json_def codebase_json_def repository_json_def workspace_json_def
      lease_json_def artifact_json_def alias_json_def flat_simps)

lemma rseq_empty: "(\<And>x. x \<in> set xs \<Longrightarrow> f x = Inr []) \<Longrightarrow> rbind (rseq (map f xs)) (\<lambda>ds. Inr (concat ds)) = Inr []"
  by (induction xs) (auto simp: rbind_eq_Inr)

lemma compare_same_field:
  assumes "flat_members kvs"
  shows "compare_field pl t key kvs kvs f = Inr []"
proof -
  let ?v = "case map_of kvs f of None \<Rightarrow> JNull | Some v \<Rightarrow> v"
  have "flat ?v" using assms by (auto simp: flat_members_def flat_simps split: option.split dest!: map_of_SomeD)
  then obtain tx where "stringifyCanonical pl ?v = Inr tx"
    by (fastforce simp: flat_def MAX_DEPTH_def stringifyCanonical_def)
  then show ?thesis by (simp add: compare_field_def)
qed

lemma compare_same_table:
  assumes eq: "\<And>k. map_of (sel a) k = map_of (sel b) k" and flat: "\<And>row. flat_members (to row)"
  shows "compareTable pl t to sel a b = Inr []"
  unfolding compareTable_def Let_def
proof (rule rseq_empty)
  fix key
  assume "key \<in> set (sort (remdups (map fst (sel a) @ map fst (sel b))))"
  then have "key \<in> fst ` set (sel a) \<union> fst ` set (sel b)" by simp
  then have "map_of (sel b) key \<noteq> None" using eq [of key] map_of_eq_None_iff [of "sel a" key] map_of_eq_None_iff [of "sel b" key] by auto
  then obtain row where row: "map_of (sel b) key = Some row" by blast
  show "compare_row pl t to key (map_of (sel a) key) (map_of (sel b) key) = Inr []"
    using rseq_empty [of "sorted_keys (to row)" "compare_field pl t key (to row) (to row)"]
    by (simp add: eq row compare_row_def compare_same_field [OF flat])
qed

lemma set_js_object_sub: "set (js_object kvs) \<subseteq> set kvs"
proof -
  have "set (AList.update k v m) \<subseteq> insert (k, v) (set m)" for k v and m :: "(string \<times> 'a) list"
    by (induction m) auto
  then have "set (fold (\<lambda>(k, v). AList.update k v) kvs m) \<subseteq> set kvs \<union> set m" for m
    by (induction kvs arbitrary: m) (force simp: case_prod_unfold)+
  from this [of "[]"] show ?thesis by (auto simp: js_object_def js_map_of_def Let_def)
qed

lemma rseq_total: "(\<And>x. x \<in> set xs \<Longrightarrow> \<exists>y. f x = Inr y) \<Longrightarrow> \<exists>ys. rseq (map f xs) = Inr ys"
  by (induction xs) (fastforce simp: rbind_eq_Inr)+

lemma canonicalize_object_total:
  assumes "\<And>k v. (k, v) \<in> set kvs \<Longrightarrow> \<exists>c. canonicalize v (d + 1) = Inr c" "d < MAX_DEPTH"
  shows "\<exists>c. canonicalize (JObj kvs) d = Inr c"
proof -
  have "\<exists>ys. rseq (map (\<lambda>(k, r). rbind r (\<lambda>v. Inr (k, v))) (sort_key fst (map (\<lambda>(k, v). (k, canonicalize v (d + 1))) kvs))) = Inr ys"
  proof (rule rseq_total)
    fix x
    assume "x \<in> set (sort_key fst (map (\<lambda>(k, v). (k, canonicalize v (d + 1))) kvs))"
    then obtain k v where kv: "(k, v) \<in> set kvs" "x = (k, canonicalize v (d + 1))" by auto
    from assms(1) [OF kv(1)] obtain c where "canonicalize v (d + 1) = Inr c" by blast
    then show "\<exists>y. (case x of (k, r) \<Rightarrow> rbind r (\<lambda>v. Inr (k, v))) = Inr y" by (simp add: kv(2))
  qed
  then obtain ys where ys: "rseq (map (\<lambda>(k, r). rbind r (\<lambda>v. Inr (k, v))) (sort_key fst (map (\<lambda>(k, v). (k, canonicalize v (d + 1))) kvs))) = Inr ys" ..
  show ?thesis unfolding canonicalize.simps ys using assms(2) by simp
qed

lemma table_json_total:
  assumes "\<And>row. flat_members (to row)"
  shows "\<exists>c. canonicalize (table_json to m) 1 = Inr c"
  unfolding table_json_def
proof (rule canonicalize_object_total)
  fix k v
  let ?kvs = "concat (map (\<lambda>k. case map_of m k of None \<Rightarrow> [] | Some row \<Rightarrow> [(k, JObj (to row))]) (sorted_keys m))"
  assume "(k, v) \<in> set (js_object ?kvs)"
  then have "(k, v) \<in> set ?kvs" using set_js_object_sub by blast
  then obtain row where v: "v = JObj (to row)" by (auto split: option.splits)
  have "flat w" if "(f, w) \<in> set (to row)" for f w using assms that by (force simp: flat_members_def)
  then show "\<exists>c. canonicalize v (1 + 1) = Inr c"
    unfolding v by (intro canonicalize_object_total) (simp_all add: flat_def MAX_DEPTH_def)
qed (simp add: MAX_DEPTH_def)

lemma digest_total: "\<exists>digest. projectionDigest pl s = Inr digest"
proof -
  have "\<exists>c. canonicalize (projectionStateToJson s) 0 = Inr c"
    unfolding projectionStateToJson_def
  proof (rule canonicalize_object_total)
    fix k v
    assume "(k, v) \<in> set [(''artifacts'', table_json artifact_json (pj_artifacts s)),
           (''codebases'', table_json codebase_json (pj_codebases s)),
           (''repositories'', table_json repository_json (pj_repositories s)),
           (''runs'', table_json run_json (pj_runs s)),
           (''stageArtifactAliases'', table_json alias_json (pj_aliases s)),
           (''workspaces'', table_json workspace_json (pj_workspaces s)),
           (''workspaceLeases'', table_json lease_json (pj_workspaceLeases s))]"
    then show "\<exists>c. canonicalize v (0 + 1) = Inr c"
      by (auto intro!: table_json_total [simplified] flat_rows)
  qed (simp add: MAX_DEPTH_def)
  then obtain c where "canonicalize (projectionStateToJson s) 0 = Inr c" ..
  then show ?thesis by (simp add: projectionDigest_def stringifyCanonical_def)
qed

lemma same_keys: "(\<And>k. map_of a k = map_of b k) \<Longrightarrow> sorted_keys a = sorted_keys b"
proof -
  assume eq: "\<And>k. map_of a k = map_of b k"
  have "k \<in> set (map fst a) \<longleftrightarrow> k \<in> set (map fst b)" for k
    using eq [of k] map_of_eq_None_iff [of a k] map_of_eq_None_iff [of b k] by simp
  then have "set (map fst a) = set (map fst b)" by blast
  then show ?thesis
    unfolding sorted_keys_def by (intro sorted_distinct_set_unique) simp_all
qed

lemma same_table_json: "(\<And>k. map_of a k = map_of b k) \<Longrightarrow> table_json to a = table_json to b"
proof -
  assume eq: "\<And>k. map_of a k = map_of b k"
  show ?thesis unfolding table_json_def same_keys [OF eq] eq ..
qed

lemma same_look:
  assumes "\<And>t k. look a t k = look b t k"
  shows "map_of (pj_runs a) k = map_of (pj_runs b) k" "map_of (pj_codebases a) k = map_of (pj_codebases b) k"
    "map_of (pj_repositories a) k = map_of (pj_repositories b) k" "map_of (pj_workspaces a) k = map_of (pj_workspaces b) k"
    "map_of (pj_workspaceLeases a) k = map_of (pj_workspaceLeases b) k" "map_of (pj_artifacts a) k = map_of (pj_artifacts b) k"
    "map_of (pj_aliases a) k = map_of (pj_aliases b) k"
proof -
  have inj: "inj RunRow" "inj CodebaseRow" "inj RepositoryRow" "inj WorkspaceRow" "inj LeaseRow" "inj ArtifactRow" "inj AliasRow"
    by (simp_all add: inj_def)
  note inj = inj [THEN option.inj_map, THEN injD]
  show "map_of (pj_runs a) k = map_of (pj_runs b) k" using assms [of T_run_projection k] by (intro inj(1)) simp
  show "map_of (pj_codebases a) k = map_of (pj_codebases b) k" using assms [of T_codebase k] by (intro inj(2)) simp
  show "map_of (pj_repositories a) k = map_of (pj_repositories b) k" using assms [of T_repository k] by (intro inj(3)) simp
  show "map_of (pj_workspaces a) k = map_of (pj_workspaces b) k" using assms [of T_workspace k] by (intro inj(4)) simp
  show "map_of (pj_workspaceLeases a) k = map_of (pj_workspaceLeases b) k" using assms [of T_workspace_lease k] by (intro inj(5)) simp
  show "map_of (pj_artifacts a) k = map_of (pj_artifacts b) k" using assms [of T_artifact k] by (intro inj(6)) simp
  show "map_of (pj_aliases a) k = map_of (pj_aliases b) k" using assms [of T_stage_artifact_alias k] by (intro inj(7)) simp
qed

lemma same_digest: "(\<And>t k. look a t k = look b t k) \<Longrightarrow> projectionDigest pl a = projectionDigest pl b"
proof -
  assume "\<And>t k. look a t k = look b t k"
  note eq = same_look [OF this, THEN same_table_json]
  show ?thesis unfolding projectionDigest_def projectionStateToJson_def eq ..
qed

lemma compare_same:
  assumes replay: "replayJournal sq num reducer through db = Inr replay"
    and stored: "loadStoredProjectionState sq num db = Inr stored" and same: "\<And>t k. look stored t k = look (rp_state replay) t k"
  obtains digest where "compareProjectionToReplay sq pl num reducer through db =
    Inr \<lparr>dr_converged = True, dr_eventsReplayed = rp_eventsReplayed replay, dr_throughSequence = rp_throughSequence replay,
         dr_divergences = [], dr_storedDigest = digest, dr_replayedDigest = digest\<rparr>"
proof -
  note eq = same_look [OF same]
  obtain digest where digest: "projectionDigest pl stored = Inr digest" using digest_total by blast
  then have digest': "projectionDigest pl (rp_state replay) = Inr digest" using same_digest [OF same, of pl] by simp
  show ?thesis
    by (rule that) (simp add: compareProjectionToReplay_def replay stored digest digest' compare_same_table flat_rows eq)
qed

section \<open>Any sequence of commits\<close>

text \<open>
  The databases that commands lead to from \<open>db0\<close>, whether the commands succeed or fail. Payloads are
  values a caller can hold; where the reducer keeps the text of a member of the payload, that member is
  canonical, with sorted keys; theory \<open>State_Examples\<close> shows that replay does not reproduce the
  stored rows without that.
\<close>

inductive committed :: "'db sqlite \<Rightarrow> platform \<Rightarrow> (string \<Rightarrow> js_number option) \<Rightarrow> 'db \<Rightarrow> 'db \<Rightarrow> bool"
  for sq pl num db0 where
  committed_none: "committed sq pl num db0 db0"
| committed_one: "committed sq pl num db0 db \<Longrightarrow> replayable (cm_type command) (cm_payload command) \<Longrightarrow>
    commitStateChangeInternal sq pl num ci command options db = (result, db') \<Longrightarrow> committed sq pl num db0 db'"

lemma consistent_empty:
  assumes "\<And>t key. stored t key = None"
  shows "consistent pl num stored [] EMPTY_PROJECTION_STATE"
proof -
  have "look EMPTY_PROJECTION_STATE t k = None" for t k by (cases t) (simp_all add: EMPTY_PROJECTION_STATE_def)
  then show ?thesis
    by (simp add: consistent_def assms wf_keys_def values_ok_def represents_def bounded_rows_def MAX_SAFE_INTEGER_def)
qed

context sql_store
begin

text \<open>A command either lands, or throws and the database is the one it was given: its \<open>ROLLBACK\<close> sees to that.\<close>

lemma commit_catch_restores:
  assumes "sq_begin sq db = Inr db1" "commit_body sq pl num ci command options db1 = Inl (error, db2)"
  shows "commit_catch sq error db2 = (Inl error, db)"
  using sq_rollback_restores [OF commit_body_transaction [OF tx_begin [OF assms(1)] assms(2)]]
  by (simp add: commit_catch_def)

lemma commit_internal_cases:
  assumes "commitStateChangeInternal sq pl num ci command options db = (result, db')"
  obtains (refused) error where "result = Inl error" "db' = db"
    | (landed) db1 report where "sq_begin sq db = Inr db1" "commit_body sq pl num ci command options db1 = Inr (report, db')"
        "result = Inr report"
  using assms
  by (auto simp: commitStateChangeInternal_def rbind_eq_Inr commit_catch_restores split: if_splits sum.splits)

lemma committed_consistent:
  assumes "committed sq pl num db0 db" and empty: "\<And>t key. rows db0 t key = None" "journal db0 = []"
    and nums: "numbers_read_back pl num" and version: "CAPABILITY_LANDING_SCHEMA_VERSION \<le> sq_userVersion sq db0"
  shows "(\<exists>s. consistent pl num (rows db) (journal db) s) \<and> sq_userVersion sq db = sq_userVersion sq db0"
  using assms(1)
proof (induction rule: committed.induct)
  case committed_none
  have "consistent pl num (rows db0) (journal db0) EMPTY_PROJECTION_STATE"
    unfolding empty(2) by (rule consistent_empty) (rule empty(1))
  then show ?case by blast
next
  case (committed_one db command ci options result db')
  from committed_one.IH obtain s where s: "consistent pl num (rows db) (journal db) s"
    and v: "sq_userVersion sq db = sq_userVersion sq db0" by blast
  from committed_one.hyps(3) show ?case
  proof (cases rule: commit_internal_cases)
    case refused
    with s v show ?thesis by blast
  next
    case (landed db1 report)
    note keeps = sq_begin_keeps [OF landed(1)]
    have "consistent pl num (rows db1) (journal db1) s" "CAPABILITY_LANDING_SCHEMA_VERSION \<le> sq_userVersion sq db1"
      using keeps s v version by simp_all
    from commit_consistent [OF this(1) nums this(2) committed_one.hyps(2) landed(2)]
    show ?thesis using keeps v by metis
  qed
qed

lemma consistent_replay:
  assumes "consistent pl num (rows db) (journal db) s"
  shows "replayJournal sq num (applyEvent pl) None db = Inr \<lparr>rp_state = s, rp_eventsReplayed = length (journal db),
    rp_throughSequence = sq_maxSequence sq db\<rparr>"
proof -
  let ?last = "Max (insert 0 (raw_sequence ` set (journal db)))"
  from assms obtain evs where evs: "map (toStateEvent num) (journal db) = map Inr evs"
    "rfold (\<lambda>e s. applyEvent pl s e) evs EMPTY_PROJECTION_STATE = Inr s" and last: "?last \<le> MAX_SAFE_INTEGER"
    by (auto simp: consistent_def)
  have "0 \<le> ?last" by (intro Max_ge) simp_all
  with last have seqn: "latestSequence sq db = Inr ?last"
    by (simp add: latestSequence_def sq_maxSequence_rows toSafeInteger_def)
  have "raw_sequence r \<le> ?last" if "r \<in> set (journal db)" for r using that by (intro Max_ge) auto
  then have "sq_selectEvents sq ?last db = journal db" by (simp add: sq_selectEvents_rows)
  then have "readEvents sq num ?last db = Inr evs" by (simp add: readEvents_def evs(1))
  moreover have "length evs = length (journal db)" using evs(1) by (metis length_map)
  ultimately show ?thesis
    by (simp add: replayJournal_def seqn evs(2) sq_maxSequence_rows)
qed

lemma consistent_safe:
  assumes cons: "consistent pl num (rows db) (journal db) s"
    and lengths: "\<And>key raw n. rows db T_artifact key = Some raw \<Longrightarrow> raw ''byte_length'' = Some (SInt n) \<Longrightarrow> \<bar>n\<bar> \<le> MAX_SAFE_INTEGER"
    and r: "look s t k = Some r"
  shows "safe_row r"
proof -
  from cons have b: "bounded_rows s (Max (insert 0 (raw_sequence ` set (journal db))))"
    "Max (insert 0 (raw_sequence ` set (journal db))) \<le> MAX_SAFE_INTEGER" and vals: "values_ok s"
    and rep: "represents pl (rows db) s" by (auto simp: consistent_def)
  have num: "1 \<le> row_revision r" "row_revision r \<le> row_sequence r"
    "row_sequence r \<le> Max (insert 0 (raw_sequence ` set (journal db)))"
    using b(1) r unfolding bounded_rows_def by blast+
  have ok: "row_ok r" using values_okD [OF vals r] .
  have "\<bar>af_byteLength a\<bar> \<le> MAX_SAFE_INTEGER" if "r = ArtifactRow a" for a
  proof -
    have "rows db t (pk_values r) = Some (encode pl r)" using rep r unfolding represents_def by blast
    with lengths look_table [OF r] that show ?thesis by (auto simp: artifact_row_columns)
  qed
  moreover have "row_sequence r \<le> MAX_SAFE_INTEGER" using num(3) b(2) by (rule order_trans)
  ultimately show ?thesis using num(1,2) ok by (cases r) (simp_all add: safe_row_def)
qed

lemma committed_converges:
  assumes "committed sq pl num db0 db" "\<And>t key. rows db0 t key = None" "journal db0 = []"
    and nums: "numbers_read_back pl num" and version: "CAPABILITY_LANDING_SCHEMA_VERSION \<le> sq_userVersion sq db0"
    and lengths: "\<And>key raw n. rows db T_artifact key = Some raw \<Longrightarrow> raw ''byte_length'' = Some (SInt n) \<Longrightarrow> \<bar>n\<bar> \<le> MAX_SAFE_INTEGER"
  obtains digest where "compareProjectionToReplay sq pl num (applyEvent pl) None db =
    Inr \<lparr>dr_converged = True, dr_eventsReplayed = length (journal db), dr_throughSequence = sq_maxSequence sq db,
         dr_divergences = [], dr_storedDigest = digest, dr_replayedDigest = digest\<rparr>"
proof -
  from committed_consistent [OF assms(1-5)] obtain s where s: "consistent pl num (rows db) (journal db) s"
    and v: "sq_userVersion sq db = sq_userVersion sq db0" by blast
  note replay = consistent_replay [OF s]
  from s have wf: "wf_keys s" and rep: "represents pl (rows db) s" by (simp_all add: consistent_def)
  have ver: "CAPABILITY_LANDING_SCHEMA_VERSION \<le> sq_userVersion sq db" using version v by simp
  obtain stored where stored: "loadStoredProjectionState sq num db = Inr stored" "\<And>t k. look stored t k = look s t k"
    using load_stored [OF rep wf nums ver] consistent_safe [OF s] lengths by metis
  have same: "look stored t k = look (rp_state \<lparr>rp_state = s, rp_eventsReplayed = length (journal db),
    rp_throughSequence = sq_maxSequence sq db\<rparr>) t k" for t k by (simp add: stored(2))
  show ?thesis by (rule compare_same [OF replay stored(1) same, of pl]) (rule that, simp)
qed

end

end
