(* ===== verification/State_Schema.thy ===== *)
theory State_Schema
  imports State_Report
begin

text \<open>
  The tables of the durable store as \<open>packages/state/src/migrations/list.ts\<close> declares them: the
  triggers, \<open>CHECK\<close> and \<open>REFERENCES\<close> clauses of the projection tables and of the journal. A database
  with these declarations is an instance of the locale \<open>sql_store\<close>. Column types, \<open>NOT NULL\<close> and
  \<open>json_valid\<close> are not part of it.

  The rows the reducer writes respect the declarations: every reference leads to a row, inserted
  rows have revision 1, and an update raises the revision by 1 and cites a newer event.
\<close>

section \<open>Triggers and checks\<close>

definition raise_abort :: "string \<Rightarrow> 'a res" where "raise_abort message = Inl (Thrown message)"

fun before_insert :: "ProjectionTable \<Rightarrow> rawrow \<Rightarrow> unit res" where
  "before_insert T_artifact new = Inr ()"
| "before_insert T_workspace_lease new =
     (if new ''revision'' \<noteq> Some (SInt 1) \<or> new ''fencing_revision'' \<noteq> Some (SInt 1)
      then raise_abort ''first workspace lease revision and fence must be 1'' else Inr ())"
| "before_insert t new =
     (if new ''revision'' \<noteq> Some (SInt 1) then raise_abort ''first projection revision must be 1'' else Inr ())"

definition int_column :: "rawrow \<Rightarrow> string \<Rightarrow> int" where
  "int_column raw column = (case raw column of Some (SInt n) \<Rightarrow> n | _ \<Rightarrow> 0)"

fun before_update :: "ProjectionTable \<Rightarrow> rawrow \<Rightarrow> rawrow \<Rightarrow> unit res" where
  "before_update T_artifact old new = raise_abort ''artifact is append-only''"
| "before_update t old new =
     (if int_column new ''last_event_sequence'' \<le> int_column old ''last_event_sequence''
         \<or> int_column new ''revision'' \<noteq> int_column old ''revision'' + 1
      then raise_abort ''projection update must advance revision by 1 and cite a newer event'' else Inr ())"

definition artifact_check :: "rawrow \<Rightarrow> bool" where
  "artifact_check new \<longleftrightarrow>
     (case (new ''content_hash'', new ''relative_path'') of
        (Some (SText hash), Some (SText path)) \<Rightarrow> content_hash hash \<and> path = ''blobs/sha256/'' @ hash
      | _ \<Rightarrow> False) \<and>
     0 \<le> int_column new ''byte_length'' \<and> new ''revision'' = Some (SInt 1)"

fun foreign_keys :: "ProjectionTable \<Rightarrow> (string \<times> ProjectionTable) list" where
  "foreign_keys T_repository = [(''codebase_id'', T_codebase)]"
| "foreign_keys T_workspace = [(''codebase_id'', T_codebase), (''repository_id'', T_repository)]"
| "foreign_keys T_workspace_lease = [(''workspace_id'', T_workspace), (''repository_id'', T_repository)]"
| "foreign_keys T_artifact = [(''run_id'', T_run_projection)]"
| "foreign_keys T_stage_artifact_alias = [(''artifact_id'', T_artifact)]"
| "foreign_keys t = []"

section \<open>A database with these declarations\<close>

record reference_db =
  rf_version :: int
  rf_saved :: "((ProjectionTable \<Rightarrow> (sqlval list \<times> rawrow) list) \<times> rawrow list) option"
  rf_tables :: "ProjectionTable \<Rightarrow> (sqlval list \<times> rawrow) list"
  rf_events :: "rawrow list"

definition reference_ok :: "reference_db \<Rightarrow> rawrow \<Rightarrow> string \<times> ProjectionTable \<Rightarrow> bool" where
  "reference_ok db new fk =
     (case new (fst fk) of
        Some SNull \<Rightarrow> True
      | Some v \<Rightarrow> map_of (rf_tables db (snd fk)) [v] \<noteq> None
      | None \<Rightarrow> True)"

definition references_ok :: "reference_db \<Rightarrow> ProjectionTable \<Rightarrow> rawrow \<Rightarrow> bool" where
  "references_ok db t new \<longleftrightarrow>
     (\<exists>event \<in> set (rf_events db). event ''sequence'' = new ''last_event_sequence'') \<and>
     (\<forall>fk \<in> set (foreign_keys t). reference_ok db new fk)"

definition checkout_path_taken :: "reference_db \<Rightarrow> ProjectionTable \<Rightarrow> sqlval list \<Rightarrow> rawrow \<Rightarrow> bool" where
  "checkout_path_taken db t key new \<longleftrightarrow>
     t = T_workspace \<and> new ''checkout_path'' \<notin> {None, Some SNull} \<and>
     (\<exists>(key', old) \<in> set (rf_tables db T_workspace). key' \<noteq> key \<and> old ''checkout_path'' = new ''checkout_path'')"

definition put_row :: "reference_db \<Rightarrow> ProjectionTable \<Rightarrow> sqlval list \<Rightarrow> rawrow \<Rightarrow> reference_db" where
  "put_row db t key new = db\<lparr>rf_tables := (rf_tables db)(t := AList.update key new (rf_tables db t))\<rparr>"

definition reference_insert :: "ProjectionTable \<Rightarrow> string list \<Rightarrow> sqlval list \<Rightarrow> reference_db \<Rightarrow> reference_db res" where
  "reference_insert t cols vals db =
     (let new = map_of (zip cols vals);
          key = map (\<lambda>c. the (new c)) (primary_key t)
      in
      rbind (before_insert t new) (\<lambda>_.
        if map_of (rf_tables db t) key \<noteq> None \<or> checkout_path_taken db t key new then raise_abort ''UNIQUE constraint failed''
        else if t = T_artifact \<and> \<not> artifact_check new then raise_abort ''CHECK constraint failed''
        else if \<not> references_ok db t new then raise_abort ''FOREIGN KEY constraint failed''
        else Inr (put_row db t key new)))"

definition reference_update ::
  "ProjectionTable \<Rightarrow> string list \<Rightarrow> sqlval list \<Rightarrow> sqlval list \<Rightarrow> int \<Rightarrow> reference_db \<Rightarrow> (int \<times> reference_db) res" where
  "reference_update t cols vals key previousRevision db =
     (case map_of (rf_tables db t) key of
        None \<Rightarrow> Inr (0, db)
      | Some old \<Rightarrow>
          if old ''revision'' \<noteq> Some (SInt previousRevision) then Inr (0, db)
          else
            (let new = old ++ map_of (zip cols vals)
             in
             rbind (before_update t old new) (\<lambda>_.
               if checkout_path_taken db t key new then raise_abort ''UNIQUE constraint failed''
               else if \<not> references_ok db t new then raise_abort ''FOREIGN KEY constraint failed''
               else Inr (1, put_row db t key new))))"

definition last_sequence :: "reference_db \<Rightarrow> int" where
  "last_sequence db = Max (insert 0 (raw_sequence ` set (rf_events db)))"

definition reference_insertEvent :: "string list \<Rightarrow> sqlval list \<Rightarrow> reference_db \<Rightarrow> (int \<times> reference_db) res" where
  "reference_insertEvent cols vals db =
     (let new = map_of (zip cols vals);
          n = last_sequence db + 1
      in
      if \<exists>event \<in> set (rf_events db). event ''event_id'' = new ''event_id'' then raise_abort ''UNIQUE constraint failed''
      else if new ''causation_event_id'' \<notin> {None, Some SNull} \<and>
              \<not> (\<exists>event \<in> set (rf_events db). event ''event_id'' = new ''causation_event_id'')
           then raise_abort ''FOREIGN KEY constraint failed''
      else Inr (n, db\<lparr>rf_events := rf_events db @ [new(''sequence'' \<mapsto> SInt n)]\<rparr>))"

text \<open>A transaction keeps what the database held when it began; \<open>ROLLBACK\<close> puts it back.\<close>

definition reference_begin :: "reference_db \<Rightarrow> reference_db res" where
  "reference_begin db =
     (if rf_saved db \<noteq> None then raise_abort ''cannot start a transaction within a transaction''
      else Inr (db\<lparr>rf_saved := Some (rf_tables db, rf_events db)\<rparr>))"

definition reference_commit :: "reference_db \<Rightarrow> reference_db res" where
  "reference_commit db =
     (if rf_saved db = None then raise_abort ''cannot commit - no transaction is active'' else Inr (db\<lparr>rf_saved := None\<rparr>))"

definition reference_rollback :: "reference_db \<Rightarrow> reference_db res" where
  "reference_rollback db =
     (case rf_saved db of
        None \<Rightarrow> raise_abort ''cannot rollback - no transaction is active''
      | Some (tables, events) \<Rightarrow> Inr (db\<lparr>rf_saved := None, rf_tables := tables, rf_events := events\<rparr>))"

definition reference_sql :: "reference_db sqlite" where
  "reference_sql =
     \<lparr>sq_isTransaction = (\<lambda>db. rf_saved db \<noteq> None), sq_begin = reference_begin, sq_commit = reference_commit,
      sq_rollback = reference_rollback,
      sq_userVersion = rf_version,
      sq_select = (\<lambda>t cols key db. map_option (\<lambda>r. r |` set cols) (map_of (rf_tables db t) key)),
      sq_selectAll = (\<lambda>t cols db. map (\<lambda>r. r |` set cols)
                        (List.map_filter (\<lambda>key. map_of (rf_tables db t) key) (map fst (rf_tables db t)))),
      sq_insert = reference_insert,
      sq_update = reference_update,
      sq_insertEvent = reference_insertEvent,
      sq_selectEvents = (\<lambda>n db. filter (\<lambda>r. raw_sequence r \<le> n) (rf_events db)),
      sq_selectEvent = (\<lambda>eventId db. find (\<lambda>event. event ''event_id'' = Some (SText eventId)) (rf_events db)),
      sq_maxSequence = last_sequence\<rparr>"

definition empty_reference :: "int \<Rightarrow> reference_db" where
  "empty_reference version = \<lparr>rf_version = version, rf_saved = None, rf_tables = (\<lambda>_. []), rf_events = []\<rparr>"

lemma raise_abort_Inr [simp]: "raise_abort m \<noteq> Inr x" "rbind (raise_abort m) f = raise_abort m"
  by (simp_all add: raise_abort_def)

lemma insert_reference:
  assumes "reference_insert t cols vals db = Inr db'"
  shows "db' = put_row db t (map (\<lambda>c. the (map_of (zip cols vals) c)) (primary_key t)) (map_of (zip cols vals))"
  using assms by (auto simp: reference_insert_def Let_def rbind_eq_Inr split: if_splits)

lemma update_reference:
  assumes "reference_update t cols vals key prev db = Inr (n, db')"
  shows "case map_of (rf_tables db t) key of
         Some r \<Rightarrow>
           if r ''revision'' = Some (SInt prev) then n = 1 \<and> db' = put_row db t key (r ++ map_of (zip cols vals))
           else n = 0 \<and> db' = db
       | None \<Rightarrow> n = 0 \<and> db' = db"
  using assms by (auto simp: reference_update_def Let_def rbind_eq_Inr split: option.splits if_splits)

lemma reference_event:
  assumes "reference_insertEvent cols vals db = Inr (n, db')"
  shows "n = last_sequence db + 1" "db' = db\<lparr>rf_events := rf_events db @ [(map_of (zip cols vals))(''sequence'' \<mapsto> SInt n)]\<rparr>"
  using assms by (auto simp: reference_insertEvent_def Let_def split: if_splits)

lemma last_sequence_bound: "0 \<le> last_sequence db" "r \<in> set (rf_events db) \<Longrightarrow> raw_sequence r \<le> last_sequence db"
  unfolding last_sequence_def by (intro Max_ge; simp)+

lemma put_row_tables: "map_of (rf_tables (put_row db t key new) t') =
    (if t' = t then (map_of (rf_tables db t))(key \<mapsto> new) else map_of (rf_tables db t'))"
  by (simp add: put_row_def js_simps fun_eq_iff)

lemma set_map_filter_of: "set (List.map_filter (map_of m) (map fst m)) = ran (map_of m)"
proof -
  have "y \<in> set (List.map_filter (map_of m) ks) \<longleftrightarrow> (\<exists>k \<in> set ks. map_of m k = Some y)" for y ks
    by (induction ks) (auto simp: map_filter_simps split: option.split)
  then show ?thesis unfolding ran_def by (auto dest: map_of_SomeD intro: rev_image_eqI) (metis (no_types, lifting) image_eqI fst_conv map_of_SomeD)
qed

lemma reference_transaction:
  assumes "in_transaction reference_sql db0 db"
  shows "rf_saved db0 = None \<and> rf_saved db = Some (rf_tables db0, rf_events db0) \<and> rf_version db = rf_version db0"
  using assms
proof (induction rule: in_transaction.induct)
  case (tx_begin db)
  then show ?case by (cases "rf_saved db0") (auto simp: reference_sql_def reference_begin_def)
next
  case (tx_insert db t cols vals db')
  then have "reference_insert t cols vals db = Inr db'" by (simp add: reference_sql_def)
  from insert_reference [OF this] tx_insert.IH show ?case by (simp add: put_row_def)
next
  case (tx_update db t cols vals key prev n db')
  then have "reference_update t cols vals key prev db = Inr (n, db')" by (simp add: reference_sql_def)
  from update_reference [OF this] tx_update.IH show ?case by (auto simp: put_row_def split: option.splits if_splits)
next
  case (tx_event db cols vals n db')
  then have "reference_insertEvent cols vals db = Inr (n, db')" by (simp add: reference_sql_def)
  from reference_event [OF this] tx_event.IH show ?case by simp
qed

interpretation ref: sql_store reference_sql "\<lambda>db t. map_of (rf_tables db t)" rf_events
proof
  fix db db' :: reference_db
  show "sq_begin reference_sql db = Inr db' \<Longrightarrow>
      (\<lambda>t. map_of (rf_tables db' t)) = (\<lambda>t. map_of (rf_tables db t)) \<and> rf_events db' = rf_events db \<and>
      sq_userVersion reference_sql db' = sq_userVersion reference_sql db"
    by (auto simp: reference_sql_def reference_begin_def split: if_splits)
  show "sq_commit reference_sql db = Inr db' \<Longrightarrow>
      (\<lambda>t. map_of (rf_tables db' t)) = (\<lambda>t. map_of (rf_tables db t)) \<and> rf_events db' = rf_events db \<and>
      sq_userVersion reference_sql db' = sq_userVersion reference_sql db"
    by (auto simp: reference_sql_def reference_commit_def split: if_splits)
  show "in_transaction reference_sql db db' \<Longrightarrow> sq_isTransaction reference_sql db' \<and> sq_rollback reference_sql db' = Inr db"
    using reference_transaction [of db db'] by (auto simp: reference_sql_def reference_rollback_def)
next
  fix t cols key and db :: reference_db
  show "sq_select reference_sql t cols key db = map_option (\<lambda>r. r |` set cols) (map_of (rf_tables db t) key)"
    by (simp add: reference_sql_def)
  show "set (sq_selectAll reference_sql t cols db) = {r |` set cols | r. \<exists>key. map_of (rf_tables db t) key = Some r}"
    by (simp add: reference_sql_def set_map_filter_of ran_def image_Collect)
next
  fix t cols vals and db db' :: reference_db
  assume "sq_insert reference_sql t cols vals db = Inr db'"
  then have "reference_insert t cols vals db = Inr db'" by (simp add: reference_sql_def)
  from insert_reference [OF this]
  show "(\<lambda>t. map_of (rf_tables db' t)) = (\<lambda>t. map_of (rf_tables db t))
      (t := (map_of (rf_tables db t))(map (\<lambda>c. the (map_of (zip cols vals) c)) (primary_key t) \<mapsto> map_of (zip cols vals))) \<and>
      rf_events db' = rf_events db \<and> sq_userVersion reference_sql db' = sq_userVersion reference_sql db"
    by (auto simp: put_row_tables fun_eq_iff) (simp_all add: put_row_def reference_sql_def)
next
  fix t cols vals key prev n and db db' :: reference_db
  assume "sq_update reference_sql t cols vals key prev db = Inr (n, db')"
  then have "reference_update t cols vals key prev db = Inr (n, db')" by (simp add: reference_sql_def)
  note upd = update_reference [OF this]
  have put: "(\<lambda>t'. map_of (rf_tables (put_row db t key new) t')) = (\<lambda>t. map_of (rf_tables db t))(t := (map_of (rf_tables db t))(key \<mapsto> new))"
    "rf_events (put_row db t key new) = rf_events db" "rf_version (put_row db t key new) = rf_version db" for new
    by (simp add: put_row_tables fun_eq_iff) (simp_all add: put_row_def)
  show "rf_events db' = rf_events db \<and> sq_userVersion reference_sql db' = sq_userVersion reference_sql db \<and>
      (case map_of (rf_tables db t) key of
         Some r \<Rightarrow>
           if r ''revision'' = Some (SInt prev)
           then n = 1 \<and> (\<lambda>t. map_of (rf_tables db' t)) = (\<lambda>t. map_of (rf_tables db t))(t := (map_of (rf_tables db t))(key \<mapsto> r ++ map_of (zip cols vals)))
           else n = 0 \<and> (\<lambda>t. map_of (rf_tables db' t)) = (\<lambda>t. map_of (rf_tables db t))
       | None \<Rightarrow> n = 0 \<and> (\<lambda>t. map_of (rf_tables db' t)) = (\<lambda>t. map_of (rf_tables db t)))"
    using upd by (cases "map_of (rf_tables db t) key") (auto simp: reference_sql_def put split: if_splits)
next
  fix cols vals n and db db' :: reference_db
  assume "sq_insertEvent reference_sql cols vals db = Inr (n, db')"
  then have "reference_insertEvent cols vals db = Inr (n, db')" by (simp add: reference_sql_def)
  note ev = reference_event [OF this]
  show "(\<lambda>t. map_of (rf_tables db' t)) = (\<lambda>t. map_of (rf_tables db t)) \<and>
      sq_userVersion reference_sql db' = sq_userVersion reference_sql db \<and>
      rf_events db' = rf_events db @ [(map_of (zip cols vals))(''sequence'' \<mapsto> SInt n)] \<and>
      0 < n \<and> (\<forall>r \<in> set (rf_events db). raw_sequence r < n)"
    using last_sequence_bound(1) [of db] last_sequence_bound(2) [where db = db] by (force simp: ev reference_sql_def)
next
  fix n and db :: reference_db
  show "sq_selectEvents reference_sql n db = filter (\<lambda>r. raw_sequence r \<le> n) (rf_events db)"
    by (simp add: reference_sql_def)
  show "sq_maxSequence reference_sql db = Max (insert 0 (raw_sequence ` set (rf_events db)))"
    by (simp add: reference_sql_def last_sequence_def)
qed

end
