(* ===== verification/State_Integrity.thy ===== *)
theory State_Integrity
  imports State_Schema
begin

text \<open>
  Integrity of what the reducer writes, against the declarations of theory \<open>State_Schema\<close>: every
  \<open>REFERENCES\<close> clause leads to a row of the projection after any sequence of events, and the
  triggers of the tables never fire on a write of the commit path.
\<close>

section \<open>References between rows\<close>

fun row_refs :: "prow \<Rightarrow> (ProjectionTable \<times> string) list" where
  "row_refs (RepositoryRow r) = [(T_codebase, ry_codebaseId r)]"
| "row_refs (WorkspaceRow w) =
     (T_codebase, wk_codebaseId w) # (case wk_repositoryId w of None \<Rightarrow> [] | Some r \<Rightarrow> [(T_repository, r)])"
| "row_refs (LeaseRow l) = [(T_workspace, ls_workspaceId l), (T_repository, ls_repositoryId l)]"
| "row_refs (ArtifactRow a) = [(T_run_projection, af_runId a)]"
| "row_refs (AliasRow a) = [(T_artifact, al_artifactId a)]"
| "row_refs r = []"

definition refs_ok :: "projection \<Rightarrow> bool" where
  "refs_ok s \<longleftrightarrow> (\<forall>t k r. look s t k = Some r \<longrightarrow> (\<forall>(t', k') \<in> set (row_refs r). look s t' k' \<noteq> None))"

lemma column_refs:
  "(column, t') \<in> set (foreign_keys (row_table r)) \<Longrightarrow> encode pl r column = Some (SText k') \<Longrightarrow> (t', k') \<in> set (row_refs r)"
  by (cases r) (auto simp: repository_columns workspace_columns lease_columns artifact_row_columns alias_columns nullable_val_def
      split: option.splits)

lemma refs_ok_put_row:
  assumes "refs_ok s" "look s' = (look s)(t := (look s t)(k \<mapsto> r))"
    "\<And>t' k'. (t', k') \<in> set (row_refs r) \<Longrightarrow> look s' t' k' \<noteq> None"
  shows "refs_ok s'"
proof -
  have mono: "look s' t' k' \<noteq> None" if "look s t' k' \<noteq> None" for t' k' using that by (auto simp: assms(2))
  have "look s' t2 k2 \<noteq> None" if "look s' t1 k1 = Some r1" "(t2, k2) \<in> set (row_refs r1)" for t1 k1 r1 t2 k2
  proof (cases "t1 = t \<and> k1 = k")
    case True
    with that assms(2,3) show ?thesis by simp
  next
    case False
    with that(1) assms(2) have "look s t1 k1 = Some r1" by (auto split: if_splits)
    with assms(1) that(2) have "look s t2 k2 \<noteq> None" unfolding refs_ok_def by blast
    then show ?thesis by (rule mono)
  qed
  then show ?thesis unfolding refs_ok_def by blast
qed

lemma refs_ok_put:
  assumes "refs_ok s"
  shows "refs_ok (put_run k r s)" "refs_ok (put_codebase k cb s)"
    "map_of (pj_codebases s) (ry_codebaseId ry) \<noteq> None \<Longrightarrow> refs_ok (put_repository k ry s)"
    "map_of (pj_codebases s) (wk_codebaseId wk) \<noteq> None \<Longrightarrow>
       (\<And>x. wk_repositoryId wk = Some x \<Longrightarrow> map_of (pj_repositories s) x \<noteq> None) \<Longrightarrow> refs_ok (put_workspace k wk s)"
    "map_of (pj_workspaces s) (ls_workspaceId ls) \<noteq> None \<Longrightarrow> map_of (pj_repositories s) (ls_repositoryId ls) \<noteq> None \<Longrightarrow>
       refs_ok (put_lease k ls s)"
    "map_of (pj_runs s) (af_runId af) \<noteq> None \<Longrightarrow> refs_ok (put_artifact k af s)"
    "map_of (pj_artifacts s) (al_artifactId al) \<noteq> None \<Longrightarrow> refs_ok (put_alias k al s)"
proof -
  note put = refs_ok_put_row [OF assms look_put(1)] refs_ok_put_row [OF assms look_put(2)] refs_ok_put_row [OF assms look_put(3)]
    refs_ok_put_row [OF assms look_put(4)] refs_ok_put_row [OF assms look_put(5)] refs_ok_put_row [OF assms look_put(6)]
    refs_ok_put_row [OF assms look_put(7)]
  show "refs_ok (put_run k r s)" "refs_ok (put_codebase k cb s)" by (rule put(1), simp) (rule put(2), simp)
  show "map_of (pj_codebases s) (ry_codebaseId ry) \<noteq> None \<Longrightarrow> refs_ok (put_repository k ry s)"
    by (rule put(3)) (auto simp: look_put simp del: look.simps simp add: look.simps(2))
  show "map_of (pj_codebases s) (wk_codebaseId wk) \<noteq> None \<Longrightarrow>
       (\<And>x. wk_repositoryId wk = Some x \<Longrightarrow> map_of (pj_repositories s) x \<noteq> None) \<Longrightarrow> refs_ok (put_workspace k wk s)"
    by (rule put(4)) (auto simp: look_put split: option.splits)
  show "map_of (pj_workspaces s) (ls_workspaceId ls) \<noteq> None \<Longrightarrow> map_of (pj_repositories s) (ls_repositoryId ls) \<noteq> None \<Longrightarrow>
       refs_ok (put_lease k ls s)"
    by (rule put(5)) (auto simp: look_put)
  show "map_of (pj_runs s) (af_runId af) \<noteq> None \<Longrightarrow> refs_ok (put_artifact k af s)"
    by (rule put(6)) (auto simp: look_put)
  show "map_of (pj_artifacts s) (al_artifactId al) \<noteq> None \<Longrightarrow> refs_ok (put_alias k al s)"
    by (rule put(7)) (auto simp: look_put)
qed

lemma refs_run:
  assumes "refs_ok s" "apply_case pl c s e payload = Inr s'"
    "c \<in> {Run_Created, Run_Status_Changed, Run_Touched, Run_Workspace_Assigned, Run_Instructions_Snapshotted,
          Run_Capability_Landed, Codebase_Registered}"
  shows "refs_ok s'"
  using assms by (auto simp: apply_case_def apply_defs rbind_eq_Inr split: if_splits option.splits intro!: refs_ok_put(1,2))

lemma refs_identity:
  assumes "refs_ok s" "apply_case pl c s e payload = Inr s'"
    "c \<in> {Repository_Registered, Workspace_Registered, Provisioning_Recorded}"
  shows "refs_ok s'"
  using assms
  by (auto simp: apply_case_def apply_defs rbind_eq_Inr Let_def split: if_splits intro!: refs_ok_put(3,4))

lemma refs_registration:
  assumes "refs_ok s" "apply_registration_committed pl s e payload = Inr s'"
  shows "refs_ok s'"
proof -
  have rs: "refs_ok (fold (\<lambda>r. put_repository (rr_repositoryId r) (registered_repository e rg r)) rs t)"
    if "refs_ok t" "map_of (pj_codebases t) (rg_codebaseId rg) \<noteq> None" for rg rs t
    using that
  proof (induction rs arbitrary: t)
    case (Cons r rs)
    have "refs_ok (put_repository (rr_repositoryId r) (registered_repository e rg r) t)"
      using Cons.prems by (intro refs_ok_put(3)) (simp_all add: registered_repository_def)
    moreover have "pj_codebases (put_repository (rr_repositoryId r) (registered_repository e rg r) t) = pj_codebases t"
      by (simp add: put_repository_def)
    ultimately show ?case using Cons by simp
  qed simp
  from assms show ?thesis
    by (auto simp: apply_registration_committed_def rbind_eq_Inr put_codebase_def js_simps
        split: option.splits if_splits intro!: rs refs_ok_put(2) [unfolded put_codebase_def])
qed

lemma refs_lease:
  assumes "refs_ok s" "apply_lease_changed s e payload = Inr s'"
  shows "refs_ok s'"
  by (rule lease_changed [OF assms(2)]) (simp add: refs_ok_put(5) [OF assms(1)])

lemma refs_completed:
  assumes "refs_ok s" "apply_stage_completed s e payload = Inr s'"
  shows "refs_ok s'"
proof -
  from assms(2) obtain runId r stageId refs seen s1 where run: "map_of (pj_runs s) runId = Some r"
    and loop: "rfold (complete_ref e runId stageId) refs ([], s) = Inr (seen, s1)"
    and s': "s' = s1 \<or> s' = put_run runId ((next_run e r)\<lparr>rn_status := ''succeeded''\<rparr>) s1"
    by (auto simp: apply_stage_completed_def rbind_eq_Inr existing_run_Inr Let_def split: if_splits)
  have step: "refs_ok (snd acc') \<and> pj_runs (snd acc') = pj_runs (snd acc)"
    if "complete_ref e runId stageId ref acc = Inr acc'" "refs_ok (snd acc)" "map_of (pj_runs (snd acc)) runId = Some r" for ref acc acc'
  proof -
    from that(1) obtain s2 where s2: "adopt_artifact e runId stageId ref (snd acc) = Inr s2"
      and acc': "snd acc' = point_alias e runId stageId ref s2"
      by (cases acc) (auto simp: complete_ref_def rbind_eq_Inr split: if_splits)
    have "refs_ok s2" "map_of (pj_artifacts s2) (ap_artifactId ref) \<noteq> None" "pj_runs s2 = pj_runs (snd acc)"
      using s2 that(2,3)
      by (auto simp: adopt_artifact_def artifact_row_of_def put_artifact_def js_simps
          split: option.splits intro!: refs_ok_put(6) [unfolded put_artifact_def])
    then show ?thesis
      unfolding acc' point_alias_def Let_def by (auto simp: put_alias_def intro!: refs_ok_put(7) [unfolded put_alias_def])
  qed
  have "refs_ok (snd acc')" if "rfold (complete_ref e runId stageId) rs acc = Inr acc'" "refs_ok (snd acc)"
    "map_of (pj_runs (snd acc)) runId = Some r" for rs acc acc'
    using that
  proof (induction rs arbitrary: acc)
    case (Cons ref rs)
    then obtain acc1 where "complete_ref e runId stageId ref acc = Inr acc1" "rfold (complete_ref e runId stageId) rs acc1 = Inr acc'"
      by (auto simp: rbind_eq_Inr)
    with Cons step show ?case by simp
  qed simp
  from this [OF loop] assms(1) run have "refs_ok s1" by simp
  then show ?thesis using s' refs_ok_put(1) by blast
qed

lemma apply_refs:
  assumes "refs_ok s" "applyEvent pl s e = Inr s'"
  shows "refs_ok s'"
proof -
  from assms(2) obtain payload c where ap: "apply_case pl c s e payload = Inr s'"
    by (auto simp: applyEvent_def rbind_eq_Inr split: if_splits option.splits)
  have pub: "refs_ok s'" if "apply_artifact_published s e payload = Inr s'"
    using that assms(1)
    by (auto simp: apply_artifact_published_def rbind_eq_Inr existing_run_Inr artifact_row_of_def split: if_splits intro!: refs_ok_put(6))
  show ?thesis
    using ap refs_run [OF assms(1) ap] refs_identity [OF assms(1) ap] refs_lease [OF assms(1)]
      refs_registration [OF assms(1)] refs_completed [OF assms(1)] pub
    by (cases c) (auto simp: apply_case_def)
qed

lemma empty_look: "look EMPTY_PROJECTION_STATE t k = None"
  by (cases t) (simp_all add: EMPTY_PROJECTION_STATE_def)

lemma refs_ok_empty: "refs_ok EMPTY_PROJECTION_STATE"
  by (simp add: refs_ok_def empty_look)

section \<open>What later events keep of a row\<close>

text \<open>
  Artifact, codebase and repository rows never change; a run keeps its codebase, its instruction
  snapshot and its landing evidence; a workspace keeps its codebase; the fence of a lease never goes
  back, and with the same fence the lease is the same.
\<close>

fun row_history :: "prow \<Rightarrow> prow \<Rightarrow> bool" where
  "row_history (ArtifactRow a) new \<longleftrightarrow> new = ArtifactRow a"
| "row_history (CodebaseRow c) new \<longleftrightarrow> new = CodebaseRow c"
| "row_history (RepositoryRow r) new \<longleftrightarrow> new = RepositoryRow r"
| "row_history (RunRow r) (RunRow r') \<longleftrightarrow>
     rn_revision r \<le> rn_revision r' \<and> rn_codebaseId r' = rn_codebaseId r \<and>
     (rn_instructionSnapshotJson r \<noteq> None \<longrightarrow>
        rn_instructionSnapshotJson r' = rn_instructionSnapshotJson r \<and>
        rn_instructionSnapshotSha256 r' = rn_instructionSnapshotSha256 r) \<and>
     (rn_capabilityLandingJson r \<noteq> None \<longrightarrow> rn_capabilityLandingJson r' = rn_capabilityLandingJson r)"
| "row_history (WorkspaceRow w) (WorkspaceRow w') \<longleftrightarrow> wk_revision w \<le> wk_revision w' \<and> wk_codebaseId w' = wk_codebaseId w"
| "row_history (LeaseRow l) (LeaseRow l') \<longleftrightarrow>
     ls_revision l \<le> ls_revision l' \<and> ls_fencingRevision l \<le> ls_fencingRevision l' \<and>
     (ls_fencingRevision l' = ls_fencingRevision l \<longrightarrow> ls_leaseId l' = ls_leaseId l)"
| "row_history (AliasRow a) (AliasRow a') \<longleftrightarrow> al_revision a \<le> al_revision a'"
| "row_history old new \<longleftrightarrow> False"

definition history :: "projection \<Rightarrow> projection \<Rightarrow> bool" where
  "history s s' \<longleftrightarrow> (\<forall>t k r. look s t k = Some r \<longrightarrow> (\<exists>r'. look s' t k = Some r' \<and> row_history r r'))"

lemma row_history_refl: "row_history r r"
  by (cases r) simp_all

lemma row_history_trans: "row_history a b \<Longrightarrow> row_history b c \<Longrightarrow> row_history a c"
  by (cases a; cases b; cases c) auto

lemma history_refl: "history s s"
  by (simp add: history_def row_history_refl)

lemma history_trans: "history s t \<Longrightarrow> history t u \<Longrightarrow> history s u"
  unfolding history_def by (meson row_history_trans)

lemma history_put_row:
  assumes "history s0 s" "look s' = (look s)(t := (look s t)(k \<mapsto> r))" "\<And>old. look s t k = Some old \<Longrightarrow> row_history old r"
  shows "history s0 s'"
proof -
  have "\<exists>r2. look s' t1 k1 = Some r2 \<and> row_history r1 r2" if "look s t1 k1 = Some r1" for t1 k1 r1
    using that assms(2,3) row_history_refl by (cases "t1 = t \<and> k1 = k") auto
  then have "history s s'" unfolding history_def by blast
  with assms(1) show ?thesis by (rule history_trans)
qed

lemmas history_put = history_put_row [OF _ look_put(1)] history_put_row [OF _ look_put(2)] history_put_row [OF _ look_put(3)]
  history_put_row [OF _ look_put(4)] history_put_row [OF _ look_put(5)] history_put_row [OF _ look_put(6)]
  history_put_row [OF _ look_put(7)]

lemma history_run:
  assumes "apply_case pl c s e payload = Inr s'"
    "c \<in> {Run_Created, Run_Status_Changed, Run_Touched, Run_Workspace_Assigned, Run_Instructions_Snapshotted,
          Run_Capability_Landed}"
  shows "history s s'"
proof (cases "c = Run_Capability_Landed")
  case True
  with assms(1) obtain x r where "map_of (pj_runs s) x = Some r" "requireRunId e payload = Inr x"
    by (auto simp: apply_case_def apply_capability_landed_def rbind_eq_Inr existing_run_Inr)
  with True assms(1) show ?thesis
    by (cases "rn_capabilityLandingJson r")
       (auto simp: apply_case_def apply_capability_landed_def rbind_eq_Inr existing_run_def next_run_def
          split: if_splits intro!: history_put(1) history_refl)
next
  case False
  with assms show ?thesis
    by (auto simp: apply_case_def apply_defs rbind_eq_Inr existing_run_Inr next_run_def
        split: if_splits intro!: history_put(1) history_refl)
qed

lemma history_identity:
  assumes "apply_case pl c s e payload = Inr s'"
    "c \<in> {Codebase_Registered, Repository_Registered, Workspace_Registered, Provisioning_Recorded}"
  shows "history s s'"
  using assms
  by (auto simp: apply_case_def apply_defs rbind_eq_Inr Let_def split: if_splits intro!: history_put(2-4) history_refl)

lemma history_registration:
  assumes "apply_registration_committed pl s e payload = Inr s'"
  shows "history s s'"
proof -
  from assms obtain rg where rg: "requireRegistration pl e payload = Inr rg"
    by (auto simp: apply_registration_committed_def rbind_eq_Inr)
  have repos: "history s (fold (\<lambda>r. put_repository (rr_repositoryId r) (registered_repository e rg r)) rs t)"
    if "history s t" "\<And>r. r \<in> set rs \<Longrightarrow> look s T_repository (rr_repositoryId r) = None" for rs t
    using that
  proof (induction rs arbitrary: t)
    case (Cons r rs)
    have "history s (put_repository (rr_repositoryId r) (registered_repository e rg r) t)"
      using Cons.prems(1) Cons.prems(2) [of r] unfolding history_def look_put by (fastforce simp del: look.simps)
    with Cons show ?case by simp
  qed simp
  from assms rg show ?thesis
    by (auto simp: apply_registration_committed_def find_None_iff
        split: option.splits if_splits intro!: repos history_put(2) history_refl)
qed

lemma history_lease:
  assumes "apply_lease_changed s e payload = Inr s'"
  shows "history s s'"
  using assms
proof (rule lease_changed)
  fix k l
  assume s': "s' = put_lease k l s"
    and viol: "lease_violation (se_type e) (map_of (pj_workspaceLeases s) k) (ls_fencingRevision l) (ls_leaseId l)
       (ls_leaseState l) (ls_workspaceId l) (ls_repositoryId l) = None"
    and row: "lease_row e payload (map_of (pj_workspaceLeases s) k) k (ls_workspaceId l) (ls_repositoryId l)
       (ls_fencingRevision l) (ls_leaseId l) (ls_leaseState l) = Inr l"
  from viol show ?thesis
    unfolding s' by (intro history_put(5) history_refl)
      (auto simp: lease_violation_def lease_row_fields(9) [OF row] split: if_splits)
qed

lemma history_completed:
  assumes "apply_stage_completed s e payload = Inr s'"
  shows "history s s'"
proof -
  from assms obtain runId r stageId refs seen s1 where run: "map_of (pj_runs s) runId = Some r"
    and loop: "rfold (complete_ref e runId stageId) refs ([], s) = Inr (seen, s1)"
    and s': "s' = s1 \<or> s' = put_run runId ((next_run e r)\<lparr>rn_status := ''succeeded''\<rparr>) s1"
    by (auto simp: apply_stage_completed_def rbind_eq_Inr existing_run_Inr Let_def split: if_splits)
  have step: "history (snd acc) (snd acc') \<and> pj_runs (snd acc') = pj_runs (snd acc)"
    if "complete_ref e runId stageId ref acc = Inr acc'" for ref acc acc'
  proof -
    from that obtain s2 where s2: "adopt_artifact e runId stageId ref (snd acc) = Inr s2"
      and acc': "snd acc' = point_alias e runId stageId ref s2"
      by (cases acc) (auto simp: complete_ref_def rbind_eq_Inr split: if_splits)
    have "history (snd acc) s2" "pj_runs s2 = pj_runs (snd acc)"
      using s2 by (auto simp: adopt_artifact_def put_artifact_def split: option.splits
          intro!: history_put(6) [unfolded put_artifact_def] history_refl)
    moreover have "history s2 (point_alias e runId stageId ref s2)"
      unfolding point_alias_def Let_def by (auto intro!: history_put(7) history_refl)
    moreover have "pj_runs (point_alias e runId stageId ref s2) = pj_runs s2" by (simp add: point_alias_def Let_def put_alias_def)
    ultimately show ?thesis unfolding acc' using history_trans by auto
  qed
  have "history (snd acc) (snd acc') \<and> pj_runs (snd acc') = pj_runs (snd acc)"
    if "rfold (complete_ref e runId stageId) rs acc = Inr acc'" for rs acc acc'
    using that
  proof (induction rs arbitrary: acc)
    case (Cons ref rs)
    then obtain acc1 where acc1: "complete_ref e runId stageId ref acc = Inr acc1" "rfold (complete_ref e runId stageId) rs acc1 = Inr acc'"
      by (auto simp: rbind_eq_Inr)
    with Cons.IH step [OF acc1(1)] show ?case using history_trans by metis
  qed (simp add: history_refl)
  from this [OF loop] run have "history s s1" "map_of (pj_runs s1) runId = Some r" by simp_all
  then show ?thesis using s' by (auto simp: next_run_def intro!: history_put(1))
qed

lemma apply_history:
  assumes "applyEvent pl s e = Inr s'"
  shows "history s s'"
proof -
  from assms obtain payload c where ap: "apply_case pl c s e payload = Inr s'"
    by (auto simp: applyEvent_def rbind_eq_Inr split: if_splits option.splits)
  have pub: "history s s'" if "apply_artifact_published s e payload = Inr s'"
    using that by (auto simp: apply_artifact_published_def rbind_eq_Inr split: if_splits intro!: history_put(6) history_refl)
  show ?thesis
    using ap history_run [OF ap] history_identity [OF ap] history_lease history_registration history_completed pub
    by (cases c) (auto simp: apply_case_def)
qed

interpretation replay: guarded_step refs_ok "\<lambda>e s. applyEvent pl s e" "\<lambda>s s'. history s s' \<and> (refs_ok s \<longrightarrow> refs_ok s')" for pl
proof
  show "refs_ok s \<Longrightarrow> applyEvent pl s e = Inr s' \<Longrightarrow> history s s' \<and> (refs_ok s \<longrightarrow> refs_ok s')" for s e s'
    using apply_history apply_refs by blast
qed (auto simp: history_refl intro: history_trans)

section \<open>The triggers\<close>

lemma encode_sequence: "encode pl r ''last_event_sequence'' = Some (SInt (row_sequence r))"
  by (cases r) (simp_all add: run_columns codebase_columns repository_columns
      workspace_columns lease_columns artifact_row_columns alias_columns)

lemma triggers_silent:
  assumes adv: "advances e sc s s'" and bnd: "bounded_rows s n" "n < se_sequence e" and vals: "values_ok s'"
    and w: "w \<in> set (state_writes pl s s')"
  shows "case look s (pw_table w) (pw_key w) of
      None \<Rightarrow> pw_previousRevision w = None \<and> before_insert (pw_table w) (pw_row w) = Inr ()
    | Some old \<Rightarrow> pw_previousRevision w = Some (row_revision old) \<and> before_update (pw_table w) (encode pl old) (pw_row w) = Inr ()"
  using adv w
proof (rule change_write)
  fix new
  let ?t = "pw_table w" and ?k = "pw_key w"
  assume new: "look s' ?t ?k = Some new" "row_step e (look s ?t ?k) new" and row: "pw_row w = encode pl new"
    and prev: "pw_previousRevision w = map_option row_revision (look s ?t ?k)"
  note cols = encode_revision encode_sequence
  note tbl = look_table [OF new(1)]
  show ?thesis
  proof (cases "look s ?t ?k")
    case None
    have fence: "ls_fencingRevision l = 1" if "new = LeaseRow l" "ls_revision l = 1" for l
      using values_okD [OF vals new(1)] that by simp
    have "row_revision new = 1" using new(2) None by (simp add: row_step_def)
    then have "before_insert (row_table new) (encode pl new) = Inr ()"
      using cols(1) [of pl new] fence by (cases new) (auto simp: lease_columns)
    with None prev row tbl show ?thesis by simp
  next
    case (Some old)
    have seqs: "row_sequence old < row_sequence new" "row_revision new = row_revision old + 1" "row_table new \<noteq> T_artifact"
      using new(2) Some bnd unfolding bounded_rows_def row_step_def by force+
    then have "before_update (row_table new) (encode pl old) (encode pl new) = Inr ()"
      using cols by (cases "row_table new") (simp_all add: int_column_def)
    with Some prev row tbl show ?thesis by simp
  qed
qed

end
