(* ===== verification/State_Examples.thy ===== *)
theory State_Examples
  imports State_Integrity
begin

text \<open>
  Properties of the durable store, on any database with the laws of \<open>sql_store\<close>, and what they say of
  a concrete one: the database of theory \<open>State_Schema\<close>, with a rendering of numbers that is read
  back (\<open>numbers_read_back\<close>).
\<close>

section \<open>A concrete platform\<close>

definition sample_number_text :: "js_number \<Rightarrow> string" where
  "sample_number_text x =
     (case x of Fin q \<Rightarrow> show_integer (fst (quotient_of q)) @ ''e'' @ show_integer (snd (quotient_of q)) | _ \<Rightarrow> ''NaN'')"

definition read_integer :: "string \<Rightarrow> int" where
  "read_integer s = (if take 1 s = ''-'' then - int (read_nat (tl s) 0) else int (read_nat s 0))"

definition sample_num :: "string \<Rightarrow> js_number option" where
  "sample_num s =
     Some (Fin (of_int (read_integer (takeWhile (\<lambda>c. c \<noteq> CHR ''e'') s))
                / of_int (read_integer (tl (dropWhile (\<lambda>c. c \<noteq> CHR ''e'') s)))))"

definition sample_platform :: platform where
  "sample_platform = \<lparr>sha256 = (\<lambda>_. ''digest''), number_text = sample_number_text\<rparr>"

lemma show_nat_not_empty: "show_nat n \<noteq> []"
  by (subst show_nat.simps) simp

lemma read_show_integer: "read_integer (show_integer n) = n"
proof (cases "n < 0")
  case False
  have "take 1 (show_nat (nat n)) \<noteq> ''-''"
  proof
    assume "take 1 (show_nat (nat n)) = ''-''"
    then have "CHR ''-'' \<in> set (show_nat (nat n))" by (metis in_set_takeD list.set_intros(1))
    then show False using show_nat_digits by (force simp: is_digit_of_char)
  qed
  with False show ?thesis by (simp add: read_integer_def show_integer_def read_show_nat)
qed (simp add: read_integer_def show_integer_def read_show_nat)

lemma show_integer_chars: "c \<in> set (show_integer n) \<Longrightarrow> number_char c \<and> c \<noteq> CHR ''e''"
  using show_nat_digits [of c] by (auto simp: show_integer_def number_char_def is_digit_of_char split: if_splits)

lemma show_integer_e:
  "takeWhile (\<lambda>c. c \<noteq> CHR ''e'') (show_integer n @ CHR ''e'' # r) = show_integer n"
  "dropWhile (\<lambda>c. c \<noteq> CHR ''e'') (show_integer n @ CHR ''e'' # r) = CHR ''e'' # r"
  using show_integer_chars by (force simp: takeWhile_append dropWhile_append)+

lemma sample_numbers: "numbers_read_back sample_platform sample_num"
  unfolding numbers_read_back_def
proof (intro allI impI conjI)
  fix q
  let ?t = "number_text sample_platform (Fin q)"
  have t: "?t = show_integer (fst (quotient_of q)) @ CHR ''e'' # show_integer (snd (quotient_of q))"
    by (simp add: sample_platform_def sample_number_text_def)
  show "\<forall>c \<in> set ?t. number_char c" using show_integer_chars by (auto simp: t number_char_def)
  show "?t \<noteq> []" by (simp add: t)
  have "of_int (fst (quotient_of q)) / of_int (snd (quotient_of q)) = q"
    using quotient_of_div [of q "fst (quotient_of q)" "snd (quotient_of q)"] by simp
  then show "sample_num ?t = Some (Fin q)"
    by (simp add: sample_num_def t show_integer_e read_show_integer)
qed

definition sample_inputs :: "string \<Rightarrow> commit_inputs" where
  "sample_inputs eventId =
     \<lparr>ci_correlationId = ''cor'', ci_eventId = eventId, ci_recordedAt = ''2026-01-01'', ci_committedAt = ''2026-01-01''\<rparr>"

definition no_options :: commit_options where
  "no_options = \<lparr>co_primaryTable = None, co_artifactRelativePaths = [], co_assertions = []\<rparr>"

definition register_codebase :: state_command where
  "register_codebase =
     \<lparr>cm_runId = None, cm_type = ''codebase.registered'', cm_payload = JObj [(''codebaseId'', JStr ''cb'')],
      cm_causationEventId = None\<rparr>"

definition sample_commit :: "string \<Rightarrow> state_command \<Rightarrow> reference_db \<Rightarrow> commit_report res \<times> reference_db" where
  "sample_commit eventId command db =
     commitStateChangeInternal reference_sql sample_platform sample_num (sample_inputs eventId) command no_options db"

section \<open>One commit, evaluated\<close>

definition opened :: reference_db where "opened = (empty_reference 27)\<lparr>rf_saved := Some (\<lambda>_. [], [])\<rparr>"

definition codebase_event :: state_event where
  "codebase_event =
     \<lparr>se_sequence = 1, se_eventId = ''ev-1'', se_runId = None, se_correlationId = ''cor'', se_causationEventId = None,
      se_type = ''codebase.registered'', se_recordedAt = ''2026-01-01'', se_payload = JObj [(''codebaseId'', JStr ''cb'')]\<rparr>"

definition codebase_raw :: rawrow where
  "codebase_raw = (map_of (zip event_insert_columns
     [SText ''ev-1'', SNull, SText ''cor'', SNull, SText ''codebase.registered'', SText ''2026-01-01'',
      SText (json_stringify sample_platform (JObj [(''codebaseId'', JStr ''cb'')]))]))(''sequence'' \<mapsto> SInt 1)"

lemma canonical_codebase: "canonicalize (JObj [(''codebaseId'', JStr ''cb'')]) 0 = Inr (JObj [(''codebaseId'', JStr ''cb'')])"
  by code_simp

lemma codebase_bytes: "utf8ByteLength (json_stringify sample_platform (JObj [(''codebaseId'', JStr ''cb'')])) = 19"
  by code_simp

lemma codebase_type: "event_type_pattern ''codebase.registered''" by code_simp

lemma append_codebase: "appendEvent reference_sql sample_platform ''ev-1''
   \<lparr>ae_runId = None, ae_type = ''codebase.registered'', ae_payload = JObj [(''codebaseId'', JStr ''cb'')],
    ae_correlationId = ''cor'', ae_causationEventId = None, ae_recordedAt = ''2026-01-01''\<rparr> opened =
   Inr (codebase_event, opened\<lparr>rf_events := [codebase_raw]\<rparr>)"
  by (simp add: appendEvent_def codebase_type check_run_id_def stringifyCanonical_def canonical_codebase codebase_bytes MAX_PAYLOAD_BYTES_def
    reference_sql_def opened_def empty_reference_def reference_insertEvent_def last_sequence_def toSafeInteger_def MAX_SAFE_INTEGER_def
    codebase_event_def codebase_raw_def nullable_val_def Let_def event_insert_columns_def raise_abort_def del: json_stringify.simps canonicalize.simps)

lemma scope_codebase: "eventScope sample_platform codebase_event = Inr (empty_scope\<lparr>sc_codebases := [''cb'']\<rparr>)"
  by (simp add: eventScope_def codebase_event_def payloadObject_def case_labels_def scope_of_case_def requireString_def)


definition codebase_row :: codebase_state where
  "codebase_row = \<lparr>cb_codebaseId = ''cb'', cb_revision = 1, cb_lastEventSequence = 1,
          cb_updatedAt = ''2026-01-01'', cb_name = None, cb_rootPath = None,
          cb_topologySha256 = None, cb_configurationSha256 = None, cb_registrationJson = None,
          cb_instructionSnapshotJson = None\<rparr>"

lemma load_codebase: "loadScopedProjectionState reference_sql sample_num (empty_scope\<lparr>sc_codebases := [''cb'']\<rparr>) (opened\<lparr>rf_events := [codebase_raw]\<rparr>)
  = Inr EMPTY_PROJECTION_STATE"
  by (simp add: loadScopedProjectionState_def empty_scope_def load_keys_def reference_sql_def opened_def empty_reference_def EMPTY_PROJECTION_STATE_def)

lemma apply_codebase: "applyEvent sample_platform EMPTY_PROJECTION_STATE codebase_event = Inr (put_codebase ''cb'' codebase_row EMPTY_PROJECTION_STATE)"
  by (simp add: applyEvent_def codebase_event_def payloadObject_def case_labels_def apply_case_def requireString_def apply_codebase_registered_def
    EMPTY_PROJECTION_STATE_def codebase_row_def RUN_SCOPED_TYPES_def STAGE_SCOPED_TYPES_def)

definition codebase_write :: ProjectionWrite where
  "codebase_write = \<lparr>pw_table = T_codebase, pw_key = ''cb'', pw_previousRevision = None, pw_row = codebaseRow codebase_row\<rparr>"

lemma diff_codebase: "diffProjectionState sample_platform EMPTY_PROJECTION_STATE (put_codebase ''cb'' codebase_row EMPTY_PROJECTION_STATE) = Inr [codebase_write]"
  unfolding diff_state_writes
  by (simp add: state_writes_def table_order_def EMPTY_PROJECTION_STATE_def put_codebase_def sorted_keys_def row_write_def codebase_write_def codebase_row_def)


lemma verify_codebase: "assertGuardedWritesAreVerified [codebase_write] after [] = Inr ()"
  by (simp add: assertGuardedWritesAreVerified_def verify_write_def codebase_write_def)

definition codebase_db :: reference_db where
  "codebase_db = put_row (opened\<lparr>rf_events := [codebase_raw]\<rparr>) T_codebase [SText ''cb''] (codebaseRow codebase_row)"

lemma insert_codebase:
  "reference_insert T_codebase (ts_insertColumns (TABLE_SQL T_codebase)) (map (\<lambda>c. the (codebaseRow codebase_row c)) (ts_insertColumns (TABLE_SQL T_codebase)))
     (opened\<lparr>rf_events := [codebase_raw]\<rparr>) = Inr codebase_db"
proof -
  have row: "map_of (zip (ts_insertColumns (TABLE_SQL T_codebase)) (map (\<lambda>c. the (codebaseRow codebase_row c)) (ts_insertColumns (TABLE_SQL T_codebase)))) = codebaseRow codebase_row"
    using map_of_zip_row [of "ts_insertColumns (TABLE_SQL T_codebase)" "codebaseRow codebase_row"]
      restrict_full [of T_codebase "codebaseRow codebase_row"] encode_full [of "CodebaseRow codebase_row" sample_platform]
    by (simp add: full_row_def del: TABLE_SQL.simps)
  show ?thesis
    unfolding reference_insert_def Let_def row
    by (simp add: codebase_columns codebase_row_def primary_key_def checkout_path_taken_def references_ok_def codebase_raw_def
        opened_def empty_reference_def codebase_db_def)
qed

lemma exec_codebase: "exec_write reference_sql 27 codebase_write ([], opened\<lparr>rf_events := [codebase_raw]\<rparr>) = Inr ([(T_codebase, ''cb'', 1)], codebase_db)"
proof -
  have "set (ts_insertColumns (TABLE_SQL T_codebase)) \<subseteq> dom (pw_row codebase_write)"
    using encode_full [of "CodebaseRow codebase_row" sample_platform] by (simp add: full_row_def codebase_write_def del: TABLE_SQL.simps)
  note vals = boundValues_full [OF this]
  have "writtenRevision codebase_write = Inr 1" by (simp add: writtenRevision_def codebase_write_def codebase_columns codebase_row_def)
  moreover have "sq_insert reference_sql = reference_insert" by (simp add: reference_sql_def)
  ultimately show ?thesis
    using insert_codebase vals by (simp add: exec_write_def tableSql_def codebase_write_def Let_def del: TABLE_SQL.simps)
qed

lemma commit_codebase: "sample_commit ''ev-1'' register_codebase (empty_reference 27) =
  (Inr \<lparr>cr_eventId = ''ev-1'', cr_sequence = 1, cr_correlationId = ''cor'', cr_revision = 1,
        cr_writes = [(T_codebase, ''cb'', 1)], cr_committedAt = ''2026-01-01''\<rparr>, codebase_db\<lparr>rf_saved := None\<rparr>)"
proof -
  have start: "sq_begin reference_sql (empty_reference 27) = Inr opened" "sq_isTransaction reference_sql (empty_reference 27) = False"
    by (simp_all add: reference_sql_def reference_begin_def empty_reference_def opened_def)
  have version: "sq_userVersion reference_sql (opened\<lparr>rf_events := [codebase_raw]\<rparr>) = 27"
    by (simp add: reference_sql_def opened_def empty_reference_def)
  have commit: "sq_commit reference_sql codebase_db = Inr (codebase_db\<lparr>rf_saved := None\<rparr>)"
    by (simp add: reference_sql_def reference_commit_def codebase_db_def opened_def put_row_def empty_reference_def)
  have "commit_body reference_sql sample_platform sample_num (sample_inputs ''ev-1'') register_codebase no_options opened =
    Inr (\<lparr>cr_eventId = ''ev-1'', cr_sequence = 1, cr_correlationId = ''cor'', cr_revision = 1,
        cr_writes = [(T_codebase, ''cb'', 1)], cr_committedAt = ''2026-01-01''\<rparr>, codebase_db\<lparr>rf_saved := None\<rparr>)"
    unfolding commit_body_def
    by (simp add: correlation_of_def register_codebase_def sample_inputs_def no_options_def append_codebase scope_codebase load_codebase apply_codebase diff_codebase verify_codebase
        exec_codebase version commit codebase_event_def [THEN arg_cong, of se_eventId] codebase_event_def [THEN arg_cong, of se_sequence])
  then show ?thesis
    by (simp add: sample_commit_def commitStateChangeInternal_def start assertBijection_def no_options_def MAX_ARTIFACTS_PER_COMMAND_def)
qed

lemma sample_committed:
  "committed reference_sql sample_platform sample_num (empty_reference 27) (codebase_db\<lparr>rf_saved := None\<rparr>)"
proof (rule committed_one [OF committed_none])
  have "wf_json (cm_payload register_codebase)" by code_simp
  then show "replayable (cm_type register_codebase) (cm_payload register_codebase)"
    by (simp add: replayable_def register_codebase_def case_labels_def kept_text_def del: wf_json.simps)
  show "commitStateChangeInternal reference_sql sample_platform sample_num (sample_inputs ''ev-1'') register_codebase no_options (empty_reference 27) =
      (fst (sample_commit ''ev-1'' register_codebase (empty_reference 27)), codebase_db\<lparr>rf_saved := None\<rparr>)"
    using commit_codebase by (simp add: sample_commit_def)
qed

lemma sample_tables:
  "rf_tables (codebase_db\<lparr>rf_saved := None\<rparr>) T_artifact = []" "rf_events (codebase_db\<lparr>rf_saved := None\<rparr>) = [codebase_raw]"
  "sq_maxSequence reference_sql (codebase_db\<lparr>rf_saved := None\<rparr>) = 1"
  by (simp_all add: codebase_db_def put_row_def opened_def empty_reference_def reference_sql_def last_sequence_def
      codebase_raw_def raw_sequence_def)

section \<open>Replay\<close>

text \<open>
  C7: whatever commands are committed to an empty store, successfully or not, the divergence check finds the
  stored rows equal to the replay of the journal: it returns a report that is converged, lists no divergence,
  has the same digest for both sides and covers every event.
\<close>
theorem replay_converges:
  assumes "sql_store sq rows journal" "numbers_read_back pl num"
    and "\<forall>t key. rows db0 t key = None" "journal db0 = []" "CAPABILITY_LANDING_SCHEMA_VERSION \<le> sq_userVersion sq db0"
    and "committed sq pl num db0 db"
    and "\<forall>key raw n. rows db T_artifact key = Some raw \<and> raw ''byte_length'' = Some (SInt n) \<longrightarrow> \<bar>n\<bar> \<le> MAX_SAFE_INTEGER"
  shows "\<exists>digest. compareProjectionToReplay sq pl num (applyEvent pl) None db =
    Inr \<lparr>dr_converged = True, dr_eventsReplayed = length (journal db), dr_throughSequence = sq_maxSequence sq db,
         dr_divergences = [], dr_storedDigest = digest, dr_replayedDigest = digest\<rparr>"
  by (rule sql_store.committed_converges [OF assms(1,6) _ assms(4,2,5)]) (use assms(3,7) in blast)+

theorem replay_converges_witness:
  "\<exists>digest. compareProjectionToReplay reference_sql sample_platform sample_num (applyEvent sample_platform) None
      (snd (sample_commit ''ev-1'' register_codebase (empty_reference 27))) =
    Inr \<lparr>dr_converged = True, dr_eventsReplayed = 1, dr_throughSequence = 1,
         dr_divergences = [], dr_storedDigest = digest, dr_replayedDigest = digest\<rparr>"
proof -
  have "\<exists>digest. compareProjectionToReplay reference_sql sample_platform sample_num (applyEvent sample_platform) None
      (codebase_db\<lparr>rf_saved := None\<rparr>) =
    Inr \<lparr>dr_converged = True, dr_eventsReplayed = length (rf_events (codebase_db\<lparr>rf_saved := None\<rparr>)),
         dr_throughSequence = sq_maxSequence reference_sql (codebase_db\<lparr>rf_saved := None\<rparr>),
         dr_divergences = [], dr_storedDigest = digest, dr_replayedDigest = digest\<rparr>"
    by (rule replay_converges [OF ref.sql_store_axioms sample_numbers _ _ _ sample_committed])
      (simp_all add: empty_reference_def reference_sql_def CAPABILITY_LANDING_SCHEMA_VERSION_def sample_tables [simplified])
  then show ?thesis by (simp add: commit_codebase sample_tables)
qed

text \<open>Events that are applied have a scope, and what a replay reaches is in order.\<close>

lemma apply_scope:
  assumes "applyEvent pl s e = Inr s'"
  obtains sc where "eventScope pl e = Inr sc"
proof -
  from assms obtain payload c where pl: "payloadObject e = Inr payload" "map_of case_labels (se_type e) = Some c"
    and ap: "apply_case pl c s e payload = Inr s'"
    by (auto simp: applyEvent_def rbind_eq_Inr split: if_splits option.splits)
  have "\<exists>sc. scope_of_case pl c e payload = Inr sc"
    using ap
    by (cases c) (auto simp: apply_case_def scope_of_case_def apply_defs apply_registration_committed_def
        apply_lease_changed_def apply_artifact_published_def apply_stage_completed_def rbind_eq_Inr split: if_splits)
  with pl that show ?thesis by (auto simp: eventScope_def)
qed

definition journal_order :: "state_event list \<Rightarrow> bool" where
  "journal_order evs \<longleftrightarrow> sorted_wrt (<) (0 # map se_sequence evs)"

abbreviation replayed :: "platform \<Rightarrow> state_event list \<Rightarrow> projection \<Rightarrow> bool" where
  "replayed pl evs s \<equiv> rfold (\<lambda>e s. applyEvent pl s e) evs EMPTY_PROJECTION_STATE = Inr s"

lemma order_snoc:
  assumes "journal_order (evs @ [e])"
  shows "journal_order evs" "last (0 # map se_sequence evs) < se_sequence e" "1 \<le> se_sequence e"
proof -
  have all: "\<forall>x \<in> set (0 # map se_sequence evs). x < se_sequence e" and ord: "journal_order evs"
    using assms by (auto simp: journal_order_def sorted_wrt_append)
  show "journal_order evs" by (rule ord)
  show "last (0 # map se_sequence evs) < se_sequence e" using all last_in_set [of "0 # map se_sequence evs"] by blast
  show "1 \<le> se_sequence e" using all by simp
qed

lemma replayed_ok:
  assumes "replayed pl evs s" "journal_order evs"
  shows "wf_keys s \<and> values_ok s \<and> refs_ok s \<and> bounded_rows s (last (0 # map se_sequence evs))"
  using assms
proof (induction evs arbitrary: s rule: rev_induct)
  case Nil
  then show ?case by (simp add: wf_keys_def values_ok_def refs_ok_def bounded_rows_def empty_look)
next
  case (snoc e evs)
  from snoc.prems(1) obtain s0 where s0: "replayed pl evs s0" "applyEvent pl s0 e = Inr s"
    by (auto simp: rfold_append rbind_eq_Inr)
  note ord = order_snoc [OF snoc.prems(2)]
  note IH = snoc.IH [OF s0(1) ord(1)]
  obtain sc where sc: "eventScope pl e = Inr sc" using apply_scope [OF s0(2)] .
  have "bounded_rows s (se_sequence e)"
    using advances_bounded [OF apply_advances [OF _ sc s0(2)]] IH ord(2,3) by blast
  with IH apply_values [OF _ s0(2)] apply_refs [OF _ s0(2)] advances_wf [OF apply_advances [OF _ sc s0(2)]]
  show ?case by simp
qed

text \<open>
  C38: in every projection the replay of a journal reaches, each row is stored under its own key in its own
  table, has a known status if it is a run and a fence between 1 and its revision if it is a lease, and its
  revision is between 1 and the sequence of the event it cites.
\<close>
theorem replayed_rows_typed:
  assumes "replayed pl evs s" "journal_order evs" "look s t k = Some r"
  shows "row_table r = t \<and> row_key r = k \<and> row_ok r \<and> 1 \<le> row_revision r \<and> row_revision r \<le> row_sequence r
    \<and> row_sequence r \<le> last (0 # map se_sequence evs)"
proof -
  note ok = replayed_ok [OF assms(1,2)]
  have "1 \<le> row_revision r \<and> row_revision r \<le> row_sequence r \<and> row_sequence r \<le> last (0 # map se_sequence evs)"
    using ok assms(3) unfolding bounded_rows_def by blast
  with ok assms(3) look_table [OF assms(3)] show ?thesis using wf_keysD values_okD by blast
qed

lemma sample_replayed: "replayed sample_platform [codebase_event] (put_codebase ''cb'' codebase_row EMPTY_PROJECTION_STATE)"
  by (simp add: apply_codebase)

lemma sample_look: "look (put_codebase ''cb'' codebase_row EMPTY_PROJECTION_STATE) T_codebase ''cb'' = Some (CodebaseRow codebase_row)"
  by (simp add: look_put)

lemma sample_order: "journal_order [codebase_event]"
  by (simp add: journal_order_def codebase_event_def)

theorem replayed_rows_typed_witness:
  "row_key (CodebaseRow codebase_row) = ''cb'' \<and> row_revision (CodebaseRow codebase_row) = 1 \<and>
   row_sequence (CodebaseRow codebase_row) \<le> last (0 # map se_sequence [codebase_event])"
  using replayed_rows_typed [OF sample_replayed sample_order sample_look] by (simp add: codebase_row_def)

text \<open>
  C16: every \<open>REFERENCES\<close> clause between projection tables holds after the replay of any journal: where a column of a
  row is declared to reference a table (the codebase of a repository or workspace, the repository of a
  workspace, the workspace and repository of a lease, the run of an artifact, the artifact of an alias) and holds
  a key, that table has a row for the key. The codebase and the workspace of a run are declared without such a clause.
\<close>
theorem references_resolve:
  assumes "replayed pl evs s" "look s t k = Some r" "(column, t') \<in> set (foreign_keys t)" "encode pl r column = Some (SText k')"
  shows "look s t' k' \<noteq> None"
proof -
  have "refs_ok s" using replay.fold_inv [OF refs_ok_empty assms(1)] .
  moreover have "(t', k') \<in> set (row_refs r)" using column_refs assms(3,4) look_table [OF assms(2)] by metis
  ultimately show ?thesis using assms(2) unfolding refs_ok_def by blast
qed

definition repository_event :: state_event where
  "repository_event =
     \<lparr>se_sequence = 2, se_eventId = ''ev-2'', se_runId = None, se_correlationId = ''cor'', se_causationEventId = None,
      se_type = ''repository.registered'', se_recordedAt = ''2026-01-02'',
      se_payload = JObj [(''codebaseId'', JStr ''cb''), (''repositoryId'', JStr ''repo'')]\<rparr>"

definition repository_row :: repository_state where
  "repository_row =
     \<lparr>ry_repositoryId = ''repo'', ry_codebaseId = ''cb'', ry_revision = 1, ry_lastEventSequence = 2, ry_updatedAt = ''2026-01-02'',
      ry_name = None, ry_repositoryPath = None, ry_gitCommonDirectory = None, ry_remotesJson = None,
      ry_defaultRemote = None, ry_defaultBranch = None\<rparr>"

lemma apply_repository:
  "applyEvent sample_platform (put_codebase ''cb'' codebase_row EMPTY_PROJECTION_STATE) repository_event =
   Inr (put_repository ''repo'' repository_row (put_codebase ''cb'' codebase_row EMPTY_PROJECTION_STATE))"
  by (simp add: applyEvent_def repository_event_def payloadObject_def case_labels_def apply_case_def requireString_def
      apply_repository_registered_def EMPTY_PROJECTION_STATE_def put_codebase_def repository_row_def
      RUN_SCOPED_TYPES_def STAGE_SCOPED_TYPES_def)

lemma repository_replayed: "replayed sample_platform [codebase_event, repository_event]
    (put_repository ''repo'' repository_row (put_codebase ''cb'' codebase_row EMPTY_PROJECTION_STATE))"
  by (simp add: apply_codebase apply_repository)

theorem references_resolve_witness:
  "look (put_repository ''repo'' repository_row (put_codebase ''cb'' codebase_row EMPTY_PROJECTION_STATE)) T_codebase ''cb'' \<noteq> None"
  by (rule references_resolve [OF repository_replayed, of T_repository "''repo''" "RepositoryRow repository_row" "''codebase_id''"])
     (simp_all add: look_put repository_columns repository_row_def)

text \<open>
  C17: rows are never removed, and later events keep what is final of them: artifact, codebase and repository
  rows stay as they are, a run keeps its codebase, its instruction snapshot and its landing evidence once
  they are recorded, the fence of a lease never goes back, and the lease id changes only with the fence.
\<close>
theorem replay_keeps_history:
  assumes "replayed pl evs s" "replayed pl (evs @ later) s'" "look s t k = Some r"
  shows "\<exists>r'. look s' t k = Some r' \<and> row_history r r'"
proof -
  have "refs_ok s" using replay.fold_inv [OF refs_ok_empty assms(1)] .
  moreover have "rfold (\<lambda>e s. applyEvent pl s e) later s = Inr s'" using assms(1,2) by (simp add: rfold_append)
  ultimately have "history s s'" using replay.fold_rel by blast
  with assms(3) show ?thesis unfolding history_def by blast
qed

theorem replay_keeps_history_witness:
  "\<exists>r'. look (put_repository ''repo'' repository_row (put_codebase ''cb'' codebase_row EMPTY_PROJECTION_STATE)) T_codebase ''cb'' = Some r'
     \<and> row_history (CodebaseRow codebase_row) r'"
  using replay_keeps_history [OF sample_replayed _ sample_look, of "[repository_event]"] repository_replayed by simp

text \<open>
  C14: the triggers of the schema never fire on what a commit writes: of the rows in which the projections
  before and after an event differ, new ones have the revision (and fence) the insert triggers require, and
  changed ones advance revision and event as the update triggers require; the write expects the stored revision.
\<close>
theorem triggers_never_fire:
  assumes "replayed pl evs s" "journal_order (evs @ [e])" "applyEvent pl s e = Inr s'"
    "diffProjectionState pl s s' = Inr writes" "w \<in> set writes"
  shows "case look s (pw_table w) (pw_key w) of
      None \<Rightarrow> pw_previousRevision w = None \<and> before_insert (pw_table w) (pw_row w) = Inr ()
    | Some old \<Rightarrow> pw_previousRevision w = Some (row_revision old) \<and> before_update (pw_table w) (encode pl old) (pw_row w) = Inr ()"
proof -
  note ord = order_snoc [OF assms(2)]
  note ok = replayed_ok [OF assms(1) ord(1)]
  obtain sc where sc: "eventScope pl e = Inr sc" using apply_scope [OF assms(3)] .
  have w: "w \<in> set (state_writes pl s s')" using assms(4,5) by (simp add: diff_state_writes)
  show ?thesis
    using triggers_silent [OF apply_advances [OF _ sc assms(3)] _ ord(2) apply_values [OF _ assms(3)] w] ok by blast
qed

theorem triggers_never_fire_witness:
  "pw_previousRevision codebase_write = None \<and> before_insert (pw_table codebase_write) (pw_row codebase_write) = Inr ()"
proof -
  have "replayed sample_platform [] EMPTY_PROJECTION_STATE" "journal_order ([] @ [codebase_event])" using sample_order by simp_all
  from triggers_never_fire [OF this apply_codebase diff_codebase, of codebase_write] show ?thesis by (simp add: empty_look)
qed

text \<open>
  C15: applying an event to the rows its scope names gives the same outcome as applying it to the whole
  projection: the same error, or the same rows in the scope and no change outside it.
\<close>
theorem scoped_apply_equivalent:
  assumes "wf_keys s" "eventScope pl e = Inr sc"
    "\<forall>t k. look loaded t k = (if in_scope sc t k then look s t k else None)"
  shows "case (applyEvent pl s e, applyEvent pl loaded e) of
      (Inl error, Inl error') \<Rightarrow> error = error'
    | (Inr s', Inr loaded') \<Rightarrow>
        \<forall>t k. if in_scope sc t k then look s' t k = look loaded' t k
              else look s' t k = look s t k \<and> look loaded' t k = None
    | _ \<Rightarrow> False"
proof -
  have wf: "wf_keys loaded" using wf_keys_sub [OF assms(1)] assms(3) by metis
  have agr: "agree sc s loaded" using assms(3) by (simp add: agree_def)
  have res: "res_agree sc (applyEvent pl s e) (applyEvent pl loaded e)" by (rule apply_agree [OF agr assms(2)])
  show ?thesis
  proof (cases "applyEvent pl s e")
    case (Inl a)
    with res show ?thesis by (cases "applyEvent pl loaded e") simp_all
  next
    case (Inr s')
    with res obtain l' where l': "applyEvent pl loaded e = Inr l'" "agree sc s' l'" by (cases "applyEvent pl loaded e") auto
    have "look s' t k = look s t k" "look l' t k = None" if "\<not> in_scope sc t k" for t k
      using apply_advances [OF assms(1,2) Inr] apply_advances [OF wf assms(2) l'(1)] assms(3) that
      unfolding advances_def by metis+
    with l' Inr show ?thesis by (simp add: agree_def)
  qed
qed

theorem scoped_apply_equivalent_witness:
  "look (put_repository ''repo'' repository_row (put_codebase ''cb'' codebase_row EMPTY_PROJECTION_STATE)) T_run_projection ''run'' = None
   \<and> eventScope sample_platform repository_event = Inr (empty_scope\<lparr>sc_codebases := [''cb''], sc_repositories := [''repo'']\<rparr>)"
proof -
  let ?s = "put_codebase ''cb'' codebase_row EMPTY_PROJECTION_STATE"
  have sc: "eventScope sample_platform repository_event = Inr (empty_scope\<lparr>sc_codebases := [''cb''], sc_repositories := [''repo'']\<rparr>)"
    by (simp add: eventScope_def repository_event_def payloadObject_def case_labels_def scope_of_case_def requireString_def)
  have wf: "wf_keys ?s" by (simp add: wf_keys_def look_put empty_look codebase_row_def del: look.simps)
  have "\<forall>t k. look ?s t k = (if in_scope (empty_scope\<lparr>sc_codebases := [''cb''], sc_repositories := [''repo'']\<rparr>) t k then look ?s t k else None)"
    by (simp add: look_put empty_look del: look.simps)
  note eq = scoped_apply_equivalent [OF wf sc this, unfolded apply_repository prod.case sum.case]
  have "look (put_repository ''repo'' repository_row ?s) T_run_projection ''run'' = look ?s T_run_projection ''run''"
    using eq [rule_format, of T_run_projection "''run''"] by (simp add: empty_scope_def del: look.simps)
  with sc show ?thesis by (simp add: look_put empty_look del: look.simps)
qed

section \<open>The text of payloads and rows\<close>

text \<open>
  The canonical text of a payload is read back as the canonical payload, and writing that payload again
  gives the same text.
\<close>
theorem stored_payload_roundtrip:
  assumes "numbers_read_back pl num" "wf_json v" "stringifyCanonical pl v = Inr tx"
  shows "\<exists>c. canonicalize v 0 = Inr c \<and> parseJsonValue num tx what = Inr c \<and> stringifyCanonical pl c = Inr tx"
  by (rule stored_text_read [OF assms, of what]) blast

theorem stored_payload_roundtrip_witness:
  "\<exists>c. canonicalize (JObj [(''b'', JNum (Fin 2)), (''a'', JNull)]) 0 = Inr c \<and>
     parseJsonValue sample_num (json_stringify sample_platform (JObj [(''a'', JNull), (''b'', JNum (Fin 2))])) ''payload'' = Inr c"
proof -
  have "wf_json (JObj [(''b'', JNum (Fin 2)), (''a'', JNull)])" by code_simp
  moreover have "canonicalize (JObj [(''b'', JNum (Fin 2)), (''a'', JNull)]) 0 = Inr (JObj [(''a'', JNull), (''b'', JNum (Fin 2))])"
    by code_simp
  then have "stringifyCanonical sample_platform (JObj [(''b'', JNum (Fin 2)), (''a'', JNull)]) =
      Inr (json_stringify sample_platform (JObj [(''a'', JNull), (''b'', JNum (Fin 2))]))"
    by (simp add: stringifyCanonical_def del: canonicalize.simps json_stringify.simps)
  ultimately show ?thesis using stored_payload_roundtrip [OF sample_numbers, of _ _ "''payload''"] by blast
qed

text \<open>
  The columns of a projection row are read back as that row, and are refused exactly when a number of the
  row is not a safe integer or its run status is unknown.
\<close>
theorem row_roundtrip:
  assumes "numbers_read_back pl num"
  shows "decode num (row_table r) (encode pl r) = Inr r' \<longleftrightarrow> r' = r \<and> safe_row r"
  using decode_encode [OF assms] .

theorem row_roundtrip_witness: "decode sample_num T_codebase (encode sample_platform (CodebaseRow codebase_row)) = Inr (CodebaseRow codebase_row)"
  using row_roundtrip [OF sample_numbers, of "CodebaseRow codebase_row" "CodebaseRow codebase_row"]
  by (simp add: safe_row_def codebase_row_def MAX_SAFE_INTEGER_def)

section \<open>The public command\<close>

lemma unverified_writes:
  "rfold (verify_write after []) ws () = Inr () \<Longrightarrow> w \<in> set ws \<Longrightarrow> pw_table w \<notin> {T_artifact, T_stage_artifact_alias}"
  by (induction ws) (auto simp: verify_write_def assertion_failed_def rbind_eq_Inr Let_def split: if_splits option.splits sqlval.splits)

context sql_store
begin

lemma exec_write_tables:
  assumes "exec_write sq v w (reported, db) = Inr (reported', db')" "t \<noteq> pw_table w"
  shows "rows db' t = rows db t"
proof (cases "pw_previousRevision w")
  case None
  with assms(1) obtain vals where "sq_insert sq (pw_table w) (ts_insertColumns (tableSql (pw_table w) v)) vals db = Inr db'"
    by (auto simp: exec_write_def Let_def tbind_eq_Inr)
  from sq_insert_row [OF this] assms(2) show ?thesis by simp
next
  case (Some prev)
  with assms(1) obtain vals keys n where
    "sq_update sq (pw_table w) (ts_updateColumns (tableSql (pw_table w) v)) vals keys prev db = Inr (n, db')"
    by (auto simp: exec_write_def Let_def tbind_eq_Inr split: if_splits)
  from sq_update_row [OF this] assms(2) show ?thesis by (auto split: option.splits if_splits)
qed

lemma exec_writes_tables:
  "tfold (exec_write sq v) ws (reported, db) = Inr (reported', db') \<Longrightarrow> t \<notin> pw_table ` set ws \<Longrightarrow> rows db' t = rows db t"
proof (induction ws arbitrary: reported db)
  case (Cons w ws)
  from Cons.prems(1) obtain r1 db1 where one: "exec_write sq v w (reported, db) = Inr (r1, db1)"
    "tfold (exec_write sq v) ws (r1, db1) = Inr (reported', db')" by (auto simp: tbind_eq_Inr)
  from Cons.IH [OF one(2)] exec_write_tables [OF one(1)] Cons.prems(2) show ?case by simp
qed simp

lemma appendEvent_rows:
  assumes "appendEvent sq pl eid input db = Inr (e, db1)"
  shows "rows db1 = rows db"
proof -
  from assms obtain cols vals n where "sq_insertEvent sq cols vals db = Inr (n, db1)"
    by (auto simp: appendEvent_def tbind_eq_Inr split: if_splits)
  from sq_insertEvent_row [OF this] show ?thesis by blast
qed

lemma unasserted_commit_tables:
  assumes begun: "sq_begin sq db = Inr db1" and body: "commit_body sq pl num ci command options db1 = Inr (report, db')"
    and none: "co_artifactRelativePaths options = []" and t: "t \<in> {T_artifact, T_stage_artifact_alias}"
  shows "rows db' t = rows db t"
proof -
  from body obtain cor e db2 after ws v reported db3 where
    app: "appendEvent sq pl (ci_eventId ci) \<lparr>ae_runId = cm_runId command, ae_type = cm_type command, ae_payload = cm_payload command,
       ae_correlationId = cor, ae_causationEventId = cm_causationEventId command, ae_recordedAt = ci_recordedAt ci\<rparr> db1 = Inr (e, db2)"
    and ver: "rfold (verify_write after []) ws () = Inr ()"
    and exec: "tfold (exec_write sq v) ws ([], db2) = Inr (reported, db3)" and com: "sq_commit sq db3 = Inr db'"
    by (auto simp: commit_body_def tbind_eq_Inr Let_def assertGuardedWritesAreVerified_def none)
  have "t \<notin> pw_table ` set ws" using unverified_writes [OF ver] t by auto
  from exec_writes_tables [OF exec this] appendEvent_rows [OF app] sq_begin_keeps [OF begun] sq_commit_keeps [OF com]
  show ?thesis by simp
qed

end

text \<open>A command whose event is appended before its payload is found to name no codebase.\<close>

definition nameless_codebase :: state_command where
  "nameless_codebase = register_codebase\<lparr>cm_payload := JObj []\<rparr>"

lemma nameless_refused:
  "fst (commitStateChange reference_sql sample_platform sample_num (sample_inputs ''ev-1'') nameless_codebase (empty_reference 27)) \<noteq> Inr report"
proof
  assume "fst (commitStateChange reference_sql sample_platform sample_num (sample_inputs ''ev-1'') nameless_codebase (empty_reference 27)) = Inr report"
  then obtain db1 db' where "commit_body reference_sql sample_platform sample_num (sample_inputs ''ev-1'') nameless_codebase no_options db1 = Inr (report, db')"
    unfolding commitStateChange_def no_options_def [symmetric]
    by (cases "commitStateChangeInternal reference_sql sample_platform sample_num (sample_inputs ''ev-1'') nameless_codebase no_options (empty_reference 27)")
      (auto elim!: ref.commit_internal_cases)
  then obtain input event db2 scope where "appendEvent reference_sql sample_platform ''ev-1'' input db1 = Inr (event, db2)"
    "ae_type input = ''codebase.registered''" "ae_payload input = JObj []" and scope: "eventScope sample_platform event = Inr scope"
    unfolding commit_body_def
    by (auto simp: tbind_eq_Inr rbind_eq_Inr nameless_codebase_def register_codebase_def sample_inputs_def)
  then have "se_type event = ''codebase.registered''" "se_payload event = JObj []"
    by (auto simp: appendEvent_def tbind_eq_Inr split: if_splits)
  with scope show False by (simp add: eventScope_def payloadObject_def case_labels_def scope_of_case_def requireString_def)
qed

text \<open>
  C18: a public command that fails leaves the database as it was, because its \<open>ROLLBACK\<close> takes back the event and
  every row it wrote; and one that succeeds leaves the artifact and the alias table as they were: these are
  written only with verified publication assertions.
\<close>
theorem public_commit_guarded:
  assumes "sql_store sq rows journal" "commitStateChange sq pl num ci command db = (result, db')"
  shows "case result of Inl error \<Rightarrow> db' = db
    | Inr report \<Rightarrow> rows db' T_artifact = rows db T_artifact \<and> rows db' T_stage_artifact_alias = rows db T_stage_artifact_alias"
  using assms(2) unfolding commitStateChange_def
proof (cases rule: sql_store.commit_internal_cases [OF assms(1), consumes 1, case_names refused landed])
  case (landed db1 report)
  from sql_store.unasserted_commit_tables [OF assms(1) landed(1,2)] landed(3) show ?thesis by simp
qed simp

theorem public_commit_guarded_witness:
  "(\<exists>error. commitStateChange reference_sql sample_platform sample_num (sample_inputs ''ev-1'') nameless_codebase (empty_reference 27) =
      (Inl error, empty_reference 27)) \<and>
   (\<exists>report db'. commitStateChange reference_sql sample_platform sample_num (sample_inputs ''ev-1'') register_codebase (empty_reference 27) =
      (Inr report, db') \<and> map_of (rf_tables db' T_artifact) = map_of (rf_tables (empty_reference 27) T_artifact))"
proof
  obtain result db' where c: "commitStateChange reference_sql sample_platform sample_num (sample_inputs ''ev-1'') nameless_codebase
      (empty_reference 27) = (result, db')" by fastforce
  obtain error where "result = Inl error" using nameless_refused c by (cases result) auto
  with public_commit_guarded [OF ref.sql_store_axioms c] c
  show "\<exists>error. commitStateChange reference_sql sample_platform sample_num (sample_inputs ''ev-1'') nameless_codebase (empty_reference 27) =
      (Inl error, empty_reference 27)" by simp
next
  obtain report db' where c: "commitStateChange reference_sql sample_platform sample_num (sample_inputs ''ev-1'') register_codebase
      (empty_reference 27) = (Inr report, db')"
    using commit_codebase by (simp add: commitStateChange_def sample_commit_def no_options_def)
  from public_commit_guarded [OF ref.sql_store_axioms c] c
  show "\<exists>report db'. commitStateChange reference_sql sample_platform sample_num (sample_inputs ''ev-1'') register_codebase (empty_reference 27) =
      (Inr report, db') \<and> map_of (rf_tables db' T_artifact) = map_of (rf_tables (empty_reference 27) T_artifact)" by simp
qed

section \<open>Payloads with unsorted keys\<close>

text \<open>
  The row a registration writes holds the text of the payload as the caller built it, while the journal keeps
  the canonical text, with sorted keys. A registration whose keys are not sorted:
\<close>

definition registration_payload :: json where
  "registration_payload =
     JObj [(''registration'', JObj [(''codebaseId'', JStr ''cb''), (''name'', JStr ''n''), (''rootPath'', JStr ''/r''),
        (''topologySha256'', JStr ''t''), (''configurationSha256'', JStr ''c''), (''repositories'', JArr []),
        (''instructionSnapshot'', JObj [])])]"

definition registration_event :: state_event where
  "registration_event = codebase_event\<lparr>se_type := ''codebase.registration_committed'', se_payload := registration_payload\<rparr>"

definition sorted_payload :: json where
  "sorted_payload =
     JObj [(''registration'', JObj [(''codebaseId'', JStr ''cb''), (''configurationSha256'', JStr ''c''), (''instructionSnapshot'', JObj []),
        (''name'', JStr ''n''), (''repositories'', JArr []), (''rootPath'', JStr ''/r''), (''topologySha256'', JStr ''t'')])]"

lemma payload_sorted: "canonicalize registration_payload 0 = Inr sorted_payload" "wf_json registration_payload"
  by code_simp+

definition registration_json_of :: "projection res \<Rightarrow> string option" where
  "registration_json_of r = (case r of Inr s \<Rightarrow> Option.bind (map_of (pj_codebases s) ''cb'') cb_registrationJson | Inl _ \<Rightarrow> None)"

lemma registration_applied:
  "registration_json_of (applyEvent sample_platform EMPTY_PROJECTION_STATE registration_event) =
     Some (json_stringify sample_platform (JObj [(''codebaseId'', JStr ''cb''), (''name'', JStr ''n''), (''rootPath'', JStr ''/r''),
        (''topologySha256'', JStr ''t''), (''configurationSha256'', JStr ''c''), (''repositories'', JArr []),
        (''instructionSnapshot'', JObj [])]))"
  "registration_json_of (applyEvent sample_platform EMPTY_PROJECTION_STATE (registration_event\<lparr>se_payload := sorted_payload\<rparr>)) =
     Some (json_stringify sample_platform (JObj [(''codebaseId'', JStr ''cb''), (''configurationSha256'', JStr ''c''), (''instructionSnapshot'', JObj []),
        (''name'', JStr ''n''), (''repositories'', JArr []), (''rootPath'', JStr ''/r''), (''topologySha256'', JStr ''t'')]))"
  by (simp_all add: registration_event_def codebase_event_def applyEvent_def payloadObject_def registration_payload_def sorted_payload_def
      RUN_SCOPED_TYPES_def STAGE_SCOPED_TYPES_def case_labels_def apply_case_def apply_registration_committed_def requireRegistration_def
      EMPTY_PROJECTION_STATE_def put_codebase_def registration_json_of_def del: json_stringify.simps)

text \<open>
  Replay does not reproduce the row of such a registration: the event as it was committed and the event as
  it is read back from its stored text are both applied, and the registration texts they leave differ.
\<close>
theorem unsorted_registration_diverges:
  "\<exists>live replayed stored. wf_json (se_payload registration_event) \<and>
     stringifyCanonical sample_platform (se_payload registration_event) = Inr stored \<and>
     parseJsonValue sample_num stored ''state_event.payload'' = Inr sorted_payload \<and>
     registration_json_of (applyEvent sample_platform EMPTY_PROJECTION_STATE registration_event) = Some live \<and>
     registration_json_of (applyEvent sample_platform EMPTY_PROJECTION_STATE (registration_event\<lparr>se_payload := sorted_payload\<rparr>)) = Some replayed \<and>
     live \<noteq> replayed"
proof -
  have p: "se_payload registration_event = registration_payload" by (simp add: registration_event_def)
  have tx: "stringifyCanonical sample_platform registration_payload = Inr (json_stringify sample_platform sorted_payload)"
    by (simp add: stringifyCanonical_def payload_sorted del: json_stringify.simps)
  have read: "parseJsonValue sample_num (json_stringify sample_platform sorted_payload) ''state_event.payload'' = Inr sorted_payload"
    by (rule stored_text_read [OF sample_numbers payload_sorted(2) tx]) (simp add: payload_sorted)
  have "registration_json_of (applyEvent sample_platform EMPTY_PROJECTION_STATE registration_event) \<noteq>
      registration_json_of (applyEvent sample_platform EMPTY_PROJECTION_STATE (registration_event\<lparr>se_payload := sorted_payload\<rparr>))"
    unfolding registration_applied by code_simp
  with p tx read payload_sorted(2) registration_applied show ?thesis by auto
qed

end
