(* ===== verification/Workspace_Lease.thy ===== *)
theory Workspace_Lease
  imports State_Examples
begin

text \<open>
  Writer leases on checkouts: \<open>packages/workspace/src/lease.ts\<close> over the lease part of
  \<open>packages/workspace/src/state.ts\<close>. The service uses the store through the record
  \<open>workspace_state_store\<close>; what it relies on is the locale \<open>lease_store\<close>, which the durable store
  fulfils because of the fencing rules of the reducer.

  \<open>Date\<close> is the record \<open>dates\<close> (an unparsable date compares with nothing, as \<open>NaN\<close> does); the
  clock readings, the lease id and the store's own inputs are arguments of the operations.
  \<open>JSON.parse(JSON.stringify(v))\<close> is the identity on the values stored here. A \<open>WorkspaceError\<close> is its
  code and message. Witnesses that do not parse as an array are an error when the lease is read.
\<close>

section \<open>Leases and their store\<close>

record writer_lease =
  wl_workspaceId :: string
  wl_repositoryId :: string
  wl_checkoutPath :: string
  wl_leaseId :: string
  wl_ownerId :: string
  wl_bootWitness :: "string option"
  wl_processWitnesses :: "json list"
  wl_expectedSha :: string
  wl_fencingRevision :: int
  wl_state :: string
  wl_acquiredAt :: string
  wl_renewedAt :: string
  wl_expiresAt :: string
  wl_releasedAt :: "string option"

record ('c, 'st) workspace_state_store =
  ws_lease :: "string \<Rightarrow> 'st \<Rightarrow> writer_lease option res"
  ws_recordLease :: "'c \<Rightarrow> string \<Rightarrow> writer_lease \<Rightarrow> 'st \<Rightarrow> unit res \<times> 'st"

definition leaseFromRow :: "(string \<Rightarrow> js_number option) \<Rightarrow> lease_state \<Rightarrow> writer_lease res" where
  "leaseFromRow num row =
     (case json_parse num (ls_processWitnessesJson row) of
        Some (JArr witnesses) \<Rightarrow>
          Inr \<lparr>wl_workspaceId = ls_workspaceId row, wl_repositoryId = ls_repositoryId row,
               wl_checkoutPath = ls_checkoutPath row, wl_leaseId = ls_leaseId row, wl_ownerId = ls_ownerId row,
               wl_bootWitness = ls_bootWitness row, wl_processWitnesses = witnesses,
               wl_expectedSha = ls_expectedSha row, wl_fencingRevision = ls_fencingRevision row,
               wl_state = ls_leaseState row, wl_acquiredAt = ls_acquiredAt row, wl_renewedAt = ls_renewedAt row,
               wl_expiresAt = ls_expiresAt row, wl_releasedAt = ls_releasedAt row\<rparr>
      | _ \<Rightarrow> Inl TypeError)"

definition readWorkspaceLease :: "'db sqlite \<Rightarrow> string \<Rightarrow> 'db \<Rightarrow> lease_state option res" where
  "readWorkspaceLease sq checkoutPath db =
     (case sq_select sq T_workspace_lease WORKSPACE_LEASE_COLUMNS [SText checkoutPath] db of
        None \<Rightarrow> Inr None
      | Some raw \<Rightarrow> rbind (toWorkspaceLeaseRow raw) (\<lambda>row. Inr (Some row)))"

definition stored_lease :: "'db sqlite \<Rightarrow> (string \<Rightarrow> js_number option) \<Rightarrow> string \<Rightarrow> 'db \<Rightarrow> writer_lease option res" where
  "stored_lease sq num checkoutPath db =
     rbind (readWorkspaceLease sq checkoutPath db) (\<lambda>row.
       case row of None \<Rightarrow> Inr None | Some r \<Rightarrow> rbind (leaseFromRow num r) (\<lambda>l. Inr (Some l)))"

definition lease_payload :: "platform \<Rightarrow> writer_lease \<Rightarrow> members" where
  "lease_payload pl lease =
     [(''schemaVersion'', json_int 1), (''workspaceId'', JStr (wl_workspaceId lease)),
      (''repositoryId'', JStr (wl_repositoryId lease)), (''checkoutPath'', JStr (wl_checkoutPath lease)),
      (''leaseId'', JStr (wl_leaseId lease)), (''ownerId'', JStr (wl_ownerId lease)),
      (''bootWitness'', json_text_or_null (wl_bootWitness lease)),
      (''processWitnesses'', JArr (wl_processWitnesses lease)), (''expectedSha'', JStr (wl_expectedSha lease)),
      (''fencingRevision'', json_int (wl_fencingRevision lease)), (''state'', JStr (wl_state lease)),
      (''acquiredAt'', JStr (wl_acquiredAt lease)), (''renewedAt'', JStr (wl_renewedAt lease)),
      (''expiresAt'', JStr (wl_expiresAt lease)), (''releasedAt'', json_text_or_null (wl_releasedAt lease)),
      (''processWitnessesJson'', JStr (json_stringify pl (JArr (wl_processWitnesses lease)))),
      (''leaseState'', JStr (wl_state lease))]"

definition recordLease ::
  "'db sqlite \<Rightarrow> platform \<Rightarrow> (string \<Rightarrow> js_number option) \<Rightarrow> commit_inputs \<Rightarrow> string \<Rightarrow> writer_lease \<Rightarrow> 'db \<Rightarrow> unit res \<times> 'db" where
  "recordLease sq pl num ci eventType lease db =
     (case commitStateChange sq pl num ci
             \<lparr>cm_runId = None, cm_type = eventType, cm_payload = JObj (lease_payload pl lease), cm_causationEventId = None\<rparr> db of
        (Inl error, db') \<Rightarrow> (Inl error, db') | (Inr report, db') \<Rightarrow> (Inr (), db'))"

definition createWorkspaceStateStore ::
  "'db sqlite \<Rightarrow> platform \<Rightarrow> (string \<Rightarrow> js_number option) \<Rightarrow> (commit_inputs, 'db) workspace_state_store" where
  "createWorkspaceStateStore sq pl num = \<lparr>ws_lease = stored_lease sq num, ws_recordLease = recordLease sq pl num\<rparr>"

section \<open>The service\<close>

record dates =
  dt_parse :: "string \<Rightarrow> int option"
  dt_iso :: "int \<Rightarrow> string res"

record acquire_input =
  ai_workspaceId :: string
  ai_repositoryId :: string
  ai_checkoutPath :: string
  ai_ownerId :: string
  ai_bootWitness :: "string option"
  ai_processWitnesses :: "json list"
  ai_expectedSha :: string
  ai_ttlMilliseconds :: int

record lease_owner =
  lo_ownerId :: string
  lo_bootWitness :: "string option"
  lo_processWitnesses :: "json list"

definition workspace_error :: "string \<Rightarrow> string \<Rightarrow> 'a res" where
  "workspace_error code message = Inl (Thrown (code @ '': '' @ message))"

definition plusMilliseconds :: "dates \<Rightarrow> string \<Rightarrow> int \<Rightarrow> string res" where
  "plusMilliseconds d time milliseconds =
     (case dt_parse d time of None \<Rightarrow> Inl RangeError | Some t \<Rightarrow> dt_iso d (t + milliseconds))"

definition time_after :: "dates \<Rightarrow> string \<Rightarrow> string \<Rightarrow> bool" where
  "time_after d a b = (case (dt_parse d a, dt_parse d b) of (Some x, Some y) \<Rightarrow> y < x | _ \<Rightarrow> False)"

definition time_reached :: "dates \<Rightarrow> string \<Rightarrow> string \<Rightarrow> bool" where
  "time_reached d a b = (case (dt_parse d a, dt_parse d b) of (Some x, Some y) \<Rightarrow> x \<le> y | _ \<Rightarrow> False)"

definition sameOwner :: "writer_lease \<Rightarrow> acquire_input \<Rightarrow> bool" where
  "sameOwner lease input \<longleftrightarrow> wl_ownerId lease = ai_ownerId input \<and> wl_workspaceId lease = ai_workspaceId input"

definition record_lease ::
  "('c, 'st) workspace_state_store \<Rightarrow> 'c \<Rightarrow> string \<Rightarrow> writer_lease \<Rightarrow> 'st \<Rightarrow> writer_lease res \<times> 'st" where
  "record_lease store c type lease st =
     (case ws_recordLease store c type lease st of
        (Inl error, st') \<Rightarrow> (Inl error, st')
      | (Inr _, st') \<Rightarrow>
          (rbind (ws_lease store (wl_checkoutPath lease) st') (\<lambda>stored.
             case stored of None \<Rightarrow> workspace_error ''LEASE_NOT_CURRENT'' ''Lease was not stored.'' | Some l \<Rightarrow> Inr l), st'))"

definition assertIdentity :: "dates \<Rightarrow> string \<Rightarrow> writer_lease option \<Rightarrow> writer_lease \<Rightarrow> writer_lease res" where
  "assertIdentity d now current lease =
     (case current of
        Some l \<Rightarrow>
          if wl_state l \<noteq> ''active'' \<or> time_reached d (wl_expiresAt l) now \<or> wl_leaseId l \<noteq> wl_leaseId lease
             \<or> wl_ownerId l \<noteq> wl_ownerId lease \<or> wl_fencingRevision l \<noteq> wl_fencingRevision lease
          then workspace_error ''LEASE_NOT_CURRENT'' ''Writer lease is no longer current.''
          else Inr l
      | None \<Rightarrow> workspace_error ''LEASE_NOT_CURRENT'' ''Writer lease is no longer current.'')"

fun check_witnesses :: "(json \<Rightarrow> string) \<Rightarrow> json list \<Rightarrow> unit res" where
  "check_witnesses witnessState [] = Inr ()"
| "check_witnesses witnessState (w # ws) =
     (if witnessState w = ''alive'' then workspace_error ''LEASE_OWNER_ALIVE'' ''Expired lease owner is still alive.''
      else if witnessState w = ''unknown'' then
        workspace_error ''LEASE_OWNER_UNKNOWN'' ''Expired lease owner liveness cannot be proven.''
      else check_witnesses witnessState ws)"

text \<open>The lease that is already held, or \<open>None\<close> when a new one may be taken.\<close>

definition takeover ::
  "dates \<Rightarrow> (string option \<Rightarrow> json \<Rightarrow> string) \<Rightarrow> string \<Rightarrow> acquire_input \<Rightarrow> writer_lease option \<Rightarrow> writer_lease option res" where
  "takeover d witnessState now input previous =
     (case previous of
        None \<Rightarrow> Inr None
      | Some p \<Rightarrow>
          if wl_state p = ''released'' then Inr None
          else
            (let sameOwnerRecovery =
                   wl_state p = ''recovery-required'' \<and> sameOwner p input \<and> wl_expectedSha p = ai_expectedSha input
             in if wl_state p = ''active'' \<and> time_after d (wl_expiresAt p) now \<and> sameOwner p input
                   \<and> wl_expectedSha p = ai_expectedSha input then Inr (Some p)
                else if \<not> sameOwnerRecovery \<and> time_after d (wl_expiresAt p) now then
                  workspace_error ''LEASE_CONTENDED'' ''Checkout already has a live writer lease.''
                else rbind (check_witnesses (witnessState (wl_bootWitness p)) (if sameOwnerRecovery then [] else wl_processWitnesses p))
                       (\<lambda>_. Inr None)))"

definition acquire ::
  "('c, 'st) workspace_state_store \<Rightarrow> dates \<Rightarrow> (string option \<Rightarrow> json \<Rightarrow> string) \<Rightarrow> string \<Rightarrow> string \<Rightarrow> 'c \<Rightarrow> acquire_input \<Rightarrow>
   'st \<Rightarrow> writer_lease res \<times> 'st" where
  "acquire store d witnessState now newId c input st =
     (if ai_ttlMilliseconds input < 1 then (workspace_error ''INVALID_CONFIGURATION'' ''Lease TTL must be positive.'', st)
      else
        case rbind (ws_lease store (ai_checkoutPath input) st) (\<lambda>previous.
             rbind (takeover d witnessState now input previous) (\<lambda>held.
               case held of
                 Some l \<Rightarrow> Inr (Inl l)
               | None \<Rightarrow>
                   rbind (plusMilliseconds d now (ai_ttlMilliseconds input)) (\<lambda>expiresAt.
                     Inr (Inr (previous,
                       \<lparr>wl_workspaceId = ai_workspaceId input, wl_repositoryId = ai_repositoryId input,
                        wl_checkoutPath = ai_checkoutPath input, wl_leaseId = newId, wl_ownerId = ai_ownerId input,
                        wl_bootWitness = ai_bootWitness input, wl_processWitnesses = ai_processWitnesses input,
                        wl_expectedSha = ai_expectedSha input,
                        wl_fencingRevision = (case previous of None \<Rightarrow> 0 | Some p \<Rightarrow> wl_fencingRevision p) + 1,
                        wl_state = ''active'', wl_acquiredAt = now, wl_renewedAt = now, wl_expiresAt = expiresAt,
                        wl_releasedAt = None\<rparr>))))) of
          Inl error \<Rightarrow> (Inl error, st)
        | Inr (Inl held) \<Rightarrow> (Inr held, st)
        | Inr (Inr (previous, lease)) \<Rightarrow>
            record_lease store c (if previous \<noteq> None then ''workspace.lease_recovered'' else ''workspace.lease_acquired'') lease st)"

text \<open>The operations on a held lease differ in the event they record and in what they change.\<close>

definition mutate ::
  "('c, 'st) workspace_state_store \<Rightarrow> dates \<Rightarrow> string \<Rightarrow> 'c \<Rightarrow> string \<Rightarrow> (writer_lease \<Rightarrow> writer_lease res) \<Rightarrow> writer_lease \<Rightarrow>
   'st \<Rightarrow> writer_lease res \<times> 'st" where
  "mutate store d now c type change lease st =
     (case rbind (ws_lease store (wl_checkoutPath lease) st) (\<lambda>found.
           rbind (assertIdentity d now found lease) change) of
        Inl error \<Rightarrow> (Inl error, st)
      | Inr next \<Rightarrow> record_lease store c type next st)"

definition renew ::
  "('c, 'st) workspace_state_store \<Rightarrow> dates \<Rightarrow> string \<Rightarrow> string \<Rightarrow> 'c \<Rightarrow> writer_lease \<Rightarrow> int \<Rightarrow> lease_owner option \<Rightarrow>
   'st \<Rightarrow> writer_lease res \<times> 'st" where
  "renew store d checkedAt now c lease ttlMilliseconds owner st =
     mutate store d checkedAt c ''workspace.lease_renewed'' (\<lambda>l.
       rbind (plusMilliseconds d now ttlMilliseconds) (\<lambda>expiresAt.
         Inr ((case owner of None \<Rightarrow> l
               | Some w \<Rightarrow> l\<lparr>wl_ownerId := lo_ownerId w, wl_bootWitness := lo_bootWitness w,
                            wl_processWitnesses := lo_processWitnesses w\<rparr>)
              \<lparr>wl_renewedAt := now, wl_expiresAt := expiresAt\<rparr>))) lease st"

definition assertCurrent ::
  "('c, 'st) workspace_state_store \<Rightarrow> dates \<Rightarrow> string \<Rightarrow> writer_lease \<Rightarrow> string \<Rightarrow> 'st \<Rightarrow> unit res" where
  "assertCurrent store d now lease actualSha st =
     rbind (ws_lease store (wl_checkoutPath lease) st) (\<lambda>found.
     rbind (assertIdentity d now found lease) (\<lambda>l.
       if wl_expectedSha l \<noteq> actualSha then
         workspace_error ''CHECKOUT_CHANGED'' ''Checkout HEAD no longer matches the lease expected SHA.''
       else Inr ()))"

definition advanceExpectedSha ::
  "('c, 'st) workspace_state_store \<Rightarrow> dates \<Rightarrow> string \<Rightarrow> 'c \<Rightarrow> writer_lease \<Rightarrow> string \<Rightarrow> 'st \<Rightarrow> writer_lease res \<times> 'st" where
  "advanceExpectedSha store d now c lease nextSha st =
     mutate store d now c ''workspace.lease_expected_sha_advanced'' (\<lambda>l. Inr (l\<lparr>wl_expectedSha := nextSha\<rparr>)) lease st"

definition release ::
  "('c, 'st) workspace_state_store \<Rightarrow> dates \<Rightarrow> string \<Rightarrow> string \<Rightarrow> 'c \<Rightarrow> writer_lease \<Rightarrow> 'st \<Rightarrow> writer_lease res \<times> 'st" where
  "release store d checkedAt now c lease st =
     mutate store d checkedAt c ''workspace.lease_released''
       (\<lambda>l. Inr (l\<lparr>wl_state := ''released'', wl_releasedAt := Some now, wl_renewedAt := now, wl_expiresAt := now\<rparr>)) lease st"

definition markRecoveryRequired ::
  "('c, 'st) workspace_state_store \<Rightarrow> dates \<Rightarrow> string \<Rightarrow> 'c \<Rightarrow> writer_lease \<Rightarrow> 'st \<Rightarrow> writer_lease res \<times> 'st" where
  "markRecoveryRequired store d now c lease st =
     mutate store d now c ''workspace.lease_recovery_required'' (\<lambda>l. Inr (l\<lparr>wl_state := ''recovery-required''\<rparr>)) lease st"

section \<open>What the service relies on\<close>

text \<open>The fencing rules: which lease an event may put in the place of another.\<close>

definition lease_rules :: "string \<Rightarrow> writer_lease option \<Rightarrow> writer_lease \<Rightarrow> bool" where
  "lease_rules type previous l \<longleftrightarrow>
     wl_state l = expected_lease_state type \<and> 1 \<le> wl_fencingRevision l \<and>
     (if type = ''workspace.lease_acquired'' then previous = None \<and> wl_fencingRevision l = 1
      else if type = ''workspace.lease_recovered'' then
        (\<exists>p. previous = Some p \<and> wl_fencingRevision l = wl_fencingRevision p + 1 \<and> wl_leaseId l \<noteq> wl_leaseId p)
      else
        (\<exists>p. previous = Some p \<and> wl_fencingRevision l = wl_fencingRevision p \<and> wl_leaseId l = wl_leaseId p \<and>
             wl_workspaceId l = wl_workspaceId p \<and> wl_repositoryId l = wl_repositoryId p \<and> wl_state p = ''active''))"

definition lease_types :: "string set" where
  "lease_types = {''workspace.lease_acquired'', ''workspace.lease_recovered'', ''workspace.lease_renewed'',
     ''workspace.lease_expected_sha_advanced'', ''workspace.lease_released'', ''workspace.lease_recovery_required''}"

text \<open>Witnesses are values that survive their text, and fences are not negative.\<close>

definition plain_lease :: "writer_lease \<Rightarrow> bool" where
  "plain_lease l \<longleftrightarrow> plain_json (JArr (wl_processWitnesses l)) \<and> 0 \<le> wl_fencingRevision l"

locale lease_store =
  fixes store :: "('c, 'st) workspace_state_store" and ok :: "'st \<Rightarrow> bool"
  assumes lease_read: "ok st \<Longrightarrow> \<exists>found. ws_lease store p st = Inr found \<and> (\<forall>l. found = Some l \<longrightarrow>
        plain_lease l \<and> wl_checkoutPath l = p \<and> wl_fencingRevision l \<le> MAX_SAFE_INTEGER)"
    and record_failed: "ws_recordLease store c type l st = (Inl error, st') \<Longrightarrow> st' = st"
    and record_stored: "ok st \<Longrightarrow> plain_lease l \<Longrightarrow> wl_fencingRevision l \<le> MAX_SAFE_INTEGER + 1 \<Longrightarrow> type \<in> lease_types \<Longrightarrow>
        ws_recordLease store c type l st = (Inr u, st') \<Longrightarrow>
        ok st' \<and> (\<exists>previous. ws_lease store (wl_checkoutPath l) st = Inr previous \<and> lease_rules type previous l) \<and>
        (\<forall>p. ws_lease store p st' = (if p = wl_checkoutPath l then Inr (Some l) else ws_lease store p st))"

text \<open>The operations of the service, with any arguments, and what they make of the store.\<close>

inductive lease_step ::
  "('c, 'st) workspace_state_store \<Rightarrow> dates \<Rightarrow> 'st \<Rightarrow> 'st \<Rightarrow> bool" for store d where
  step_acquire: "plain_json (JArr (ai_processWitnesses input)) \<Longrightarrow>
     acquire store d witnessState now newId c input st = (result, st') \<Longrightarrow> lease_step store d st st'"
| step_renew: "(\<And>w. owner = Some w \<Longrightarrow> plain_json (JArr (lo_processWitnesses w))) \<Longrightarrow>
     renew store d checkedAt now c lease ttl owner st = (result, st') \<Longrightarrow> lease_step store d st st'"
| step_advance: "advanceExpectedSha store d now c lease sha st = (result, st') \<Longrightarrow> lease_step store d st st'"
| step_release: "release store d checkedAt now c lease st = (result, st') \<Longrightarrow> lease_step store d st st'"
| step_recovery: "markRecoveryRequired store d now c lease st = (result, st') \<Longrightarrow> lease_step store d st st'"

abbreviation lease_run :: "('c, 'st) workspace_state_store \<Rightarrow> dates \<Rightarrow> 'st \<Rightarrow> 'st \<Rightarrow> bool" where
  "lease_run store d \<equiv> (lease_step store d)\<^sup>*\<^sup>*"

definition fenced :: "writer_lease \<Rightarrow> writer_lease \<Rightarrow> bool" where
  "fenced l l' \<longleftrightarrow> wl_fencingRevision l \<le> wl_fencingRevision l' \<and>
     (wl_fencingRevision l' = wl_fencingRevision l \<longrightarrow> wl_leaseId l' = wl_leaseId l)"

lemma fenced_refl: "fenced l l"
  by (simp add: fenced_def)

lemma fenced_trans: "fenced a b \<Longrightarrow> fenced b c \<Longrightarrow> fenced a c"
  unfolding fenced_def by (metis antisym order_trans)

lemma rules_fenced: "lease_rules type (Some p) l \<Longrightarrow> fenced p l"
  by (auto simp: lease_rules_def fenced_def split: if_splits)

lemma assertIdentity_Inr:
  "assertIdentity d now found lease = Inr l \<longleftrightarrow>
     found = Some l \<and> wl_state l = ''active'' \<and> \<not> time_reached d (wl_expiresAt l) now \<and> wl_leaseId l = wl_leaseId lease \<and>
     wl_ownerId l = wl_ownerId lease \<and> wl_fencingRevision l = wl_fencingRevision lease"
  by (auto simp: assertIdentity_def workspace_error_def split: option.splits if_splits)

lemma check_witnesses_Inr:
  "check_witnesses witnessState ws = Inr u \<longleftrightarrow> (\<forall>w \<in> set ws. witnessState w \<noteq> ''alive'' \<and> witnessState w \<noteq> ''unknown'')"
  by (induction ws) (auto simp: workspace_error_def)

text \<open>What a change of a held lease keeps of it.\<close>

definition keeps_lease :: "(writer_lease \<Rightarrow> writer_lease res) \<Rightarrow> bool" where
  "keeps_lease change \<longleftrightarrow>
     (\<forall>l l'. change l = Inr l' \<and> plain_lease l \<longrightarrow>
        plain_lease l' \<and> wl_checkoutPath l' = wl_checkoutPath l \<and> wl_fencingRevision l' = wl_fencingRevision l)"

context lease_store
begin

lemma record_outcome:
  assumes "ok st" "plain_lease l" "wl_fencingRevision l \<le> MAX_SAFE_INTEGER + 1" "type \<in> lease_types"
    "record_lease store c type l st = (result, st')"
  obtains (refused) error where "result = Inl error" "st' = st"
    | (stored) previous where "result = Inr l" "ok st'" "ws_lease store (wl_checkoutPath l) st = Inr previous"
        "lease_rules type previous l"
        "\<And>p. ws_lease store p st' = (if p = wl_checkoutPath l then Inr (Some l) else ws_lease store p st)"
proof (cases "ws_recordLease store c type l st")
  case (Pair r st1)
  show ?thesis
  proof (cases r)
    case (Inl error)
    with Pair assms(5) record_failed [of c type l st error st1] show ?thesis by (auto simp: record_lease_def intro: refused)
  next
    case (Inr u)
    from record_stored [OF assms(1-4) Pair [unfolded Inr]] obtain previous where st1: "ok st1"
      "ws_lease store (wl_checkoutPath l) st = Inr previous" "lease_rules type previous l"
      "\<And>p. ws_lease store p st1 = (if p = wl_checkoutPath l then Inr (Some l) else ws_lease store p st)" by blast
    have "result = Inr l" "st' = st1" using assms(5) Pair Inr st1(4) [of "wl_checkoutPath l"] by (auto simp: record_lease_def)
    with st1 stored show ?thesis by simp
  qed
qed

lemma mutate_outcome:
  assumes "ok st" "keeps_lease change" "type \<in> lease_types" "mutate store d now c type change lease st = (result, st')"
  obtains (refused) error where "result = Inl error" "st' = st"
    | (changed) l l' where "ws_lease store (wl_checkoutPath lease) st = Inr (Some l)" "assertIdentity d now (Some l) lease = Inr l"
        "change l = Inr l'" "result = Inr l'" "ok st'" "lease_rules type (Some l) l'"
        "\<And>p. ws_lease store p st' = (if p = wl_checkoutPath lease then Inr (Some l') else ws_lease store p st)"
proof -
  obtain found where found: "ws_lease store (wl_checkoutPath lease) st = Inr found"
    "\<And>l. found = Some l \<Longrightarrow> plain_lease l \<and> wl_checkoutPath l = wl_checkoutPath lease \<and> wl_fencingRevision l \<le> MAX_SAFE_INTEGER"
    using lease_read [OF assms(1)] by metis
  show ?thesis
  proof (cases "rbind (assertIdentity d now found lease) change")
    case (Inl error)
    then have "mutate store d now c type change lease st = (Inl error, st)" by (simp add: mutate_def found(1))
    with assms(4) refused [of error] show ?thesis by simp
  next
    case (Inr l')
    then obtain l where l: "assertIdentity d now found lease = Inr l" "change l = Inr l'" by (auto simp: rbind_eq_Inr)
    then have f: "found = Some l" by (simp add: assertIdentity_Inr)
    have l': "plain_lease l'" "wl_checkoutPath l' = wl_checkoutPath lease" "wl_fencingRevision l' \<le> MAX_SAFE_INTEGER + 1"
      using found(2) [OF f] assms(2) l(2) unfolding keeps_lease_def by force+
    have rec: "record_lease store c type l' st = (result, st')" using assms(4) found(1) Inr by (simp add: mutate_def)
    from assms(1) l'(1,3) assms(3) rec show ?thesis
    proof (cases rule: record_outcome)
      case refused
      then show ?thesis by (rule that(1))
    next
      case (stored previous)
      with found(1) f l l'(2) show ?thesis by (intro that(2) [of l l']) simp_all
    qed
  qed
qed

lemma acquire_outcome:
  assumes "ok st" "plain_json (JArr (ai_processWitnesses input))"
    "acquire store d witnessState now newId c input st = (result, st')"
  obtains (refused) error where "result = Inl error" "st' = st"
    | (held) p where "ws_lease store (ai_checkoutPath input) st = Inr (Some p)" "takeover d witnessState now input (Some p) = Inr (Some p)"
        "result = Inr p" "st' = st"
    | (taken) previous l where "ws_lease store (ai_checkoutPath input) st = Inr previous" "takeover d witnessState now input previous = Inr None"
        "result = Inr l" "ok st'" "wl_leaseId l = newId" "wl_ownerId l = ai_ownerId input" "wl_expectedSha l = ai_expectedSha input"
        "wl_state l = ''active''" "wl_checkoutPath l = ai_checkoutPath input"
        "lease_rules (if previous \<noteq> None then ''workspace.lease_recovered'' else ''workspace.lease_acquired'') previous l"
        "\<And>p. ws_lease store p st' = (if p = ai_checkoutPath input then Inr (Some l) else ws_lease store p st)"
proof -
  obtain previous where prev: "ws_lease store (ai_checkoutPath input) st = Inr previous"
    "\<And>l. previous = Some l \<Longrightarrow> plain_lease l \<and> wl_fencingRevision l \<le> MAX_SAFE_INTEGER"
    using lease_read [OF assms(1)] by metis
  consider (invalid) "ai_ttlMilliseconds input < 1" | (check) error where "\<not> ai_ttlMilliseconds input < 1" "takeover d witnessState now input previous = Inl error"
    | (held) l where "\<not> ai_ttlMilliseconds input < 1" "takeover d witnessState now input previous = Inr (Some l)"
    | (late) error where "\<not> ai_ttlMilliseconds input < 1" "takeover d witnessState now input previous = Inr None"
        "plusMilliseconds d now (ai_ttlMilliseconds input) = Inl error"
    | (taken) expiresAt where "\<not> ai_ttlMilliseconds input < 1" "takeover d witnessState now input previous = Inr None"
        "plusMilliseconds d now (ai_ttlMilliseconds input) = Inr expiresAt"
    by (cases "takeover d witnessState now input previous"; cases "plusMilliseconds d now (ai_ttlMilliseconds input)") (metis option.exhaust)+
  then show ?thesis
  proof cases
    case (held l)
    then have "previous = Some l" by (auto simp: takeover_def Let_def workspace_error_def rbind_eq_Inr split: option.splits if_splits)
    with held prev assms(3) show ?thesis by (intro that(2)) (auto simp: acquire_def)
  next
    case (taken expiresAt)
    let ?type = "if previous \<noteq> None then ''workspace.lease_recovered'' else ''workspace.lease_acquired''"
    let ?l = "\<lparr>wl_workspaceId = ai_workspaceId input, wl_repositoryId = ai_repositoryId input,
                wl_checkoutPath = ai_checkoutPath input, wl_leaseId = newId, wl_ownerId = ai_ownerId input,
                wl_bootWitness = ai_bootWitness input, wl_processWitnesses = ai_processWitnesses input,
                wl_expectedSha = ai_expectedSha input,
                wl_fencingRevision = (case previous of None \<Rightarrow> 0 | Some p \<Rightarrow> wl_fencingRevision p) + 1,
                wl_state = ''active'', wl_acquiredAt = now, wl_renewedAt = now, wl_expiresAt = expiresAt,
                wl_releasedAt = None\<rparr>"
    have rec: "record_lease store c ?type ?l st = (result, st')" using assms(3) prev(1) taken by (simp add: acquire_def)
    have ok_l: "plain_lease ?l" "wl_fencingRevision ?l \<le> MAX_SAFE_INTEGER + 1" "?type \<in> lease_types"
      using assms(2) prev(2) by (auto simp: plain_lease_def MAX_SAFE_INTEGER_def lease_types_def split: option.split)
    from assms(1) ok_l rec show ?thesis
    proof (cases rule: record_outcome)
      case (stored previous')
      then show ?thesis using prev(1) taken by (intro that(3) [of previous ?l]) simp_all
    next
      case refused
      then show ?thesis by (rule that(1))
    qed
  qed (use assms(3) prev(1) in \<open>auto simp: acquire_def workspace_error_def intro: that(1)\<close>)
qed

lemma mutate_fenced:
  assumes "ok st" "keeps_lease change" "type \<in> lease_types" "mutate store d now c type change lease st = (result, st')"
    "ws_lease store p st = Inr (Some a)"
  shows "ok st' \<and> (\<exists>b. ws_lease store p st' = Inr (Some b) \<and> fenced a b)"
  using assms(1-4)
proof (cases rule: mutate_outcome)
  case refused
  with assms(1,5) fenced_refl show ?thesis by auto
next
  case (changed l l')
  with assms(5) rules_fenced [OF changed(6)] fenced_refl show ?thesis by auto
qed

lemma keeps_changes:
  "keeps_lease (\<lambda>l. Inr (l\<lparr>wl_expectedSha := sha\<rparr>))"
  "keeps_lease (\<lambda>l. Inr (l\<lparr>wl_state := ''released'', wl_releasedAt := Some now, wl_renewedAt := now, wl_expiresAt := now\<rparr>))"
  "keeps_lease (\<lambda>l. Inr (l\<lparr>wl_state := ''recovery-required''\<rparr>))"
  "(\<And>w. owner = Some w \<Longrightarrow> plain_json (JArr (lo_processWitnesses w))) \<Longrightarrow>
   keeps_lease (\<lambda>l. rbind (plusMilliseconds d now ttl) (\<lambda>expiresAt.
         Inr ((case owner of None \<Rightarrow> l
               | Some w \<Rightarrow> l\<lparr>wl_ownerId := lo_ownerId w, wl_bootWitness := lo_bootWitness w,
                            wl_processWitnesses := lo_processWitnesses w\<rparr>)
              \<lparr>wl_renewedAt := now, wl_expiresAt := expiresAt\<rparr>)))"
  by (auto simp: keeps_lease_def plain_lease_def rbind_eq_Inr split: option.splits)

lemma mutations_typed:
  "''workspace.lease_renewed'' \<in> lease_types" "''workspace.lease_expected_sha_advanced'' \<in> lease_types"
  "''workspace.lease_released'' \<in> lease_types" "''workspace.lease_recovery_required'' \<in> lease_types"
  by (simp_all add: lease_types_def)

lemma step_fenced:
  assumes "lease_step store d st st'" "ok st" "ws_lease store p st = Inr (Some a)"
  shows "ok st' \<and> (\<exists>b. ws_lease store p st' = Inr (Some b) \<and> fenced a b)"
  using assms(1)
proof cases
  case (step_acquire input witnessState now newId c result)
  from assms(2) step_acquire show ?thesis
  proof (cases rule: acquire_outcome)
    case (taken previous l)
    then have "fenced q l" if "previous = Some q" for q using that rules_fenced by simp
    with taken assms(3) fenced_refl show ?thesis by auto
  qed (use assms(2,3) fenced_refl in auto)
next
  case (step_renew owner checkedAt now c lease ttl result)
  show ?thesis
    using mutate_fenced [OF assms(2) keeps_changes(4) [OF step_renew(1)] mutations_typed(1) step_renew(2) [unfolded renew_def] assms(3)] .
next
  case (step_advance now c lease sha result)
  show ?thesis using mutate_fenced [OF assms(2) keeps_changes(1) mutations_typed(2) step_advance [unfolded advanceExpectedSha_def] assms(3)] .
next
  case (step_release checkedAt now c lease result)
  show ?thesis using mutate_fenced [OF assms(2) keeps_changes(2) mutations_typed(3) step_release [unfolded release_def] assms(3)] .
next
  case (step_recovery now c lease result)
  show ?thesis using mutate_fenced [OF assms(2) keeps_changes(3) mutations_typed(4) step_recovery [unfolded markRecoveryRequired_def] assms(3)] .
qed

lemma run_fenced:
  assumes "lease_run store d st st'" "ok st" "ws_lease store p st = Inr (Some a)"
  shows "ok st' \<and> (\<exists>b. ws_lease store p st' = Inr (Some b) \<and> fenced a b)"
  using assms(1)
proof (induction rule: rtranclp_induct)
  case base
  with assms(2,3) fenced_refl show ?case by blast
next
  case (step y z)
  then obtain b where b: "ok y" "ws_lease store p y = Inr (Some b)" "fenced a b" by blast
  from step_fenced [OF step.hyps(2) b(1,2)] b(3) fenced_trans show ?case by blast
qed

lemma superseded_refused:
  assumes "ok st" "lease_run store d st st'" "ws_lease store (wl_checkoutPath h) st = Inr (Some a)"
    "wl_fencingRevision h < wl_fencingRevision a"
  shows "mutate store d now c type change h st' = (workspace_error ''LEASE_NOT_CURRENT'' ''Writer lease is no longer current.'', st')"
    "assertCurrent store d now h sha st' = workspace_error ''LEASE_NOT_CURRENT'' ''Writer lease is no longer current.''"
proof -
  obtain b where b: "ws_lease store (wl_checkoutPath h) st' = Inr (Some b)" "fenced a b"
    using run_fenced [OF assms(2,1,3)] by blast
  have "wl_fencingRevision b \<noteq> wl_fencingRevision h" using b(2) assms(4) by (simp add: fenced_def)
  then have id: "assertIdentity d now (Some b) h = workspace_error ''LEASE_NOT_CURRENT'' ''Writer lease is no longer current.''"
    by (simp add: assertIdentity_def)
  show "mutate store d now c type change h st' = (workspace_error ''LEASE_NOT_CURRENT'' ''Writer lease is no longer current.'', st')"
    "assertCurrent store d now h sha st' = workspace_error ''LEASE_NOT_CURRENT'' ''Writer lease is no longer current.''"
    unfolding mutate_def assertCurrent_def b(1) rbind_simps id by (simp_all add: workspace_error_def)
qed

lemma acquire_exclusive:
  assumes "ok st" "plain_json (JArr (ai_processWitnesses input))"
    "acquire store d witnessState now newId c input st = (Inr l, st')"
  shows "\<exists>previous. ws_lease store (ai_checkoutPath input) st = Inr previous \<and>
    ws_lease store (ai_checkoutPath input) st' = Inr (Some l) \<and> wl_ownerId l = ai_ownerId input \<and> wl_state l = ''active'' \<and>
    (case previous of
       None \<Rightarrow> wl_fencingRevision l = 1
     | Some p \<Rightarrow>
         if st' = st \<and> l = p then time_after d (wl_expiresAt p) now
         else wl_fencingRevision l = wl_fencingRevision p + 1 \<and>
           (wl_state p = ''released'' \<or>
            wl_state p = ''recovery-required'' \<and> wl_ownerId p = ai_ownerId input \<or>
            \<not> time_after d (wl_expiresAt p) now \<and>
              (\<forall>w \<in> set (wl_processWitnesses p). witnessState (wl_bootWitness p) w \<notin> {''alive'', ''unknown''})))"
  using assms
proof (cases rule: acquire_outcome)
  case (held p)
  then show ?thesis
    by (intro exI [of _ "Some p"])
       (auto simp: takeover_def Let_def sameOwner_def workspace_error_def rbind_eq_Inr split: if_splits)
next
  case (taken previous l')
  show ?thesis
  proof (cases previous)
    case None
    with taken show ?thesis by (intro exI [of _ None]) (auto simp: lease_rules_def)
  next
    case (Some p)
    then have fence: "wl_fencingRevision l = wl_fencingRevision p + 1" using taken by (simp add: lease_rules_def)
    then have "l \<noteq> p" by auto
    moreover from Some taken(2) have "wl_state p = ''released'' \<or>
        wl_state p = ''recovery-required'' \<and> wl_ownerId p = ai_ownerId input \<or>
        \<not> time_after d (wl_expiresAt p) now \<and>
          (\<forall>w \<in> set (wl_processWitnesses p). witnessState (wl_bootWitness p) w \<notin> {''alive'', ''unknown''})"
      by (auto simp: takeover_def Let_def sameOwner_def workspace_error_def rbind_eq_Inr check_witnesses_Inr split: if_splits)
    ultimately show ?thesis using taken Some fence by (intro exI [of _ "Some p"]) simp
  qed
qed simp

end

end
