(* ===== verification/Lease_Provider.thy ===== *)
theory Lease_Provider
  imports Workspace_Lease
begin

text \<open>
  The durable store as a store of writer leases: what \<open>createWorkspaceStateStore\<close> gives on a database
  whose rows are the replay of its journal fulfils the locale \<open>lease_store\<close>. The properties of the
  lease service follow for that store.
\<close>

section \<open>Integers as JSON numbers\<close>

lemma round_double_integer:
  assumes "0 \<le> n" "n \<le> 9007199254740992"
  shows "round_double False n 1 = Fin (of_int n)"
proof (cases "n < 9007199254740992")
  case True
  have "bitlen n \<le> 53"
  proof -
    have "n < 2 ^ 53" using True by simp
    then show ?thesis using assms(1) by (simp add: bitlen_le_iff_power)
  qed
  moreover have "bitlen (1 :: int) = 1" by code_simp
  ultimately have e: "double_exponent n 1 \<le> 0" by (simp add: double_exponent_def Let_def)
  have half: "round_half_even a 1 = a" for a by (simp add: round_half_even_def)
  let ?e = "double_exponent n 1"
  show ?thesis
  proof (cases "?e < 0")
    case neg: True
    have q: "(of_int (n * 2 ^ nat (- ?e)) / of_int (2 ^ nat (- ?e)) :: rat) = of_int n" by simp
    show ?thesis using neg q by (simp add: round_double_def Let_def scale_num_def scale_den_def half)
  next
    case False
    with e have e0: "?e = 0" by simp
    show ?thesis using \<open>bitlen n \<le> 53\<close> by (simp add: round_double_def Let_def scale_num_def scale_den_def half e0)
  qed
next
  case False
  with assms have "n = 9007199254740992" by simp
  moreover have "round_double False 9007199254740992 1 = Fin (of_int 9007199254740992)" by code_simp
  ultimately show ?thesis by simp
qed

lemma json_int_double: "0 \<le> n \<Longrightarrow> n \<le> MAX_SAFE_INTEGER + 1 \<Longrightarrow> wf_json (json_int n)"
proof -
  assume "0 \<le> n" "n \<le> MAX_SAFE_INTEGER + 1"
  then have "round_double False n 1 = Fin (of_int n)" by (intro round_double_integer) (simp_all add: MAX_SAFE_INTEGER_def)
  moreover have "quotient_of (of_int n) = (n, 1)" by (simp add: quotient_of_int)
  moreover have "\<bar>of_int n :: rat\<bar> = of_int n" using \<open>0 \<le> n\<close> by simp
  moreover have "\<not> (of_int n :: rat) < 0" using \<open>0 \<le> n\<close> by simp
  ultimately show ?thesis by (simp only: json_int_def wf_json.simps double_value_def js_number.case Let_def prod.case)
qed

lemma non_negative_json_int: "non_negative_integer (Some (json_int n)) = (if 0 \<le> n then Some n else None)"
  by (simp add: non_negative_integer_def json_int_def quotient_of_int)

section \<open>The payload of a lease event\<close>

lemma js_object_plain:
  assumes "distinct (map fst kvs)" "\<forall>k \<in> set (map fst kvs). \<not> array_index k"
  shows "js_object kvs = kvs"
proof -
  have "filter (\<lambda>p. array_index (fst p)) kvs = []" "filter (\<lambda>p. \<not> array_index (fst p)) kvs = kvs"
    using assms(2) by (simp_all add: filter_empty_conv)
  then show ?thesis by (simp add: js_object_def Let_def js_map_of_distinct [OF assms(1)])
qed

lemma plain_wf: "plain_json v \<Longrightarrow> wf_json v"
  by (induction v) auto

lemma lease_payload_wf:
  assumes "plain_lease l" "wl_fencingRevision l \<le> MAX_SAFE_INTEGER + 1"
  shows "wf_json (JObj (lease_payload pl l))"
proof -
  let ?keys = "[''schemaVersion'', ''workspaceId'', ''repositoryId'', ''checkoutPath'', ''leaseId'', ''ownerId'', ''bootWitness'',
    ''processWitnesses'', ''expectedSha'', ''fencingRevision'', ''state'', ''acquiredAt'', ''renewedAt'', ''expiresAt'', ''releasedAt'',
    ''processWitnessesJson'', ''leaseState'']"
  have keys: "map fst (lease_payload pl l) = ?keys" by (simp add: lease_payload_def)
  have "distinct ?keys" "\<forall>k \<in> set ?keys. \<not> array_index k" by code_simp+
  then have obj: "js_object (lease_payload pl l) = lease_payload pl l" by (intro js_object_plain) (simp_all only: keys)
  have w: "wf_json (JArr (wl_processWitnesses l))" using assms(1) plain_wf by (simp only: plain_lease_def)
  have n: "wf_json (json_int 1)" "wf_json (json_int (wl_fencingRevision l))"
    using assms by (auto intro!: json_int_double simp: MAX_SAFE_INTEGER_def plain_lease_def)
  have t: "wf_json (json_text_or_null x)" for x by (simp add: json_text_or_null_def split: option.split)
  have "\<forall>p \<in> set (lease_payload pl l). wf_json (snd p)"
    using w n t by (simp add: lease_payload_def del: wf_json.simps(2))
  with obj show ?thesis by simp
qed

definition row_of_lease :: "platform \<Rightarrow> state_event \<Rightarrow> int \<Rightarrow> writer_lease \<Rightarrow> lease_state" where
  "row_of_lease pl e revision l =
     \<lparr>ls_checkoutPath = wl_checkoutPath l, ls_workspaceId = wl_workspaceId l, ls_repositoryId = wl_repositoryId l,
      ls_leaseId = wl_leaseId l, ls_ownerId = wl_ownerId l, ls_bootWitness = wl_bootWitness l,
      ls_processWitnessesJson = json_stringify pl (JArr (wl_processWitnesses l)), ls_expectedSha = wl_expectedSha l,
      ls_fencingRevision = wl_fencingRevision l, ls_leaseState = wl_state l, ls_acquiredAt = wl_acquiredAt l,
      ls_renewedAt = wl_renewedAt l, ls_expiresAt = wl_expiresAt l, ls_releasedAt = wl_releasedAt l, ls_revision = revision,
      ls_lastEventSequence = se_sequence e, ls_updatedAt = se_recordedAt e\<rparr>"

lemma payload_members:
  "map_of (lease_payload pl l) ''workspaceId'' = Some (JStr (wl_workspaceId l))"
  "map_of (lease_payload pl l) ''repositoryId'' = Some (JStr (wl_repositoryId l))"
  "map_of (lease_payload pl l) ''checkoutPath'' = Some (JStr (wl_checkoutPath l))"
  "map_of (lease_payload pl l) ''leaseId'' = Some (JStr (wl_leaseId l))"
  "map_of (lease_payload pl l) ''ownerId'' = Some (JStr (wl_ownerId l))"
  "map_of (lease_payload pl l) ''bootWitness'' = Some (json_text_or_null (wl_bootWitness l))"
  "map_of (lease_payload pl l) ''expectedSha'' = Some (JStr (wl_expectedSha l))"
  "map_of (lease_payload pl l) ''fencingRevision'' = Some (json_int (wl_fencingRevision l))"
  "map_of (lease_payload pl l) ''acquiredAt'' = Some (JStr (wl_acquiredAt l))"
  "map_of (lease_payload pl l) ''renewedAt'' = Some (JStr (wl_renewedAt l))"
  "map_of (lease_payload pl l) ''expiresAt'' = Some (JStr (wl_expiresAt l))"
  "map_of (lease_payload pl l) ''releasedAt'' = Some (json_text_or_null (wl_releasedAt l))"
  "map_of (lease_payload pl l) ''processWitnessesJson'' = Some (JStr (json_stringify pl (JArr (wl_processWitnesses l))))"
  "map_of (lease_payload pl l) ''leaseState'' = Some (JStr (wl_state l))"
  by (simp_all add: lease_payload_def del: json_stringify.simps)

lemma require_payload: "map_of kvs f = Some (JStr v) \<Longrightarrow> requireString e kvs f = Inr x \<longleftrightarrow> x = v \<and> v \<noteq> []"
  by (auto simp: requireString_def)

lemma nullable_text: "nullableString (Some (json_text_or_null x)) = x"
  by (simp add: nullableString_def json_text_or_null_def split: option.split)

lemma lease_row_payload:
  "lease_row e (lease_payload pl l) previous (wl_checkoutPath l) (wl_workspaceId l) (wl_repositoryId l) (wl_fencingRevision l)
      (wl_leaseId l) (wl_state l) = Inr r \<Longrightarrow>
   r = row_of_lease pl e ((case previous of None \<Rightarrow> 0 | Some p \<Rightarrow> ls_revision p) + 1) l"
  by (auto simp: lease_row_def rbind_eq_Inr require_payload [OF payload_members(5)] require_payload [OF payload_members(7)]
      require_payload [OF payload_members(9)] require_payload [OF payload_members(10)] require_payload [OF payload_members(11)]
      require_payload [OF payload_members(13)] payload_members(6,12) nullable_text row_of_lease_def simp del: json_stringify.simps)

lemma lease_applied:
  assumes "apply_lease_changed s e (lease_payload pl l) = Inr s'"
  defines "previous \<equiv> map_of (pj_workspaceLeases s) (wl_checkoutPath l)"
  shows "s' = put_lease (wl_checkoutPath l) (row_of_lease pl e ((case previous of None \<Rightarrow> 0 | Some p \<Rightarrow> ls_revision p) + 1) l) s"
    "1 \<le> wl_fencingRevision l"
    "lease_violation (se_type e) previous (wl_fencingRevision l) (wl_leaseId l) (wl_state l) (wl_workspaceId l) (wl_repositoryId l) = None"
    "wl_state l = expected_lease_state (se_type e)"
proof -
  from assms(1) obtain r where fence: "1 \<le> wl_fencingRevision l"
    and viol: "lease_violation (se_type e) previous (wl_fencingRevision l) (wl_leaseId l) (wl_state l) (wl_workspaceId l) (wl_repositoryId l) = None"
    and state: "wl_state l = expected_lease_state (se_type e)"
    and r: "lease_row e (lease_payload pl l) previous (wl_checkoutPath l) (wl_workspaceId l) (wl_repositoryId l) (wl_fencingRevision l)
      (wl_leaseId l) (wl_state l) = Inr r" and s': "s' = put_lease (wl_checkoutPath l) r s"
    unfolding apply_lease_changed_def previous_def
    by (auto simp: rbind_eq_Inr Let_def requireNonNegativeInteger_def payload_members(8) non_negative_json_int
        require_payload [OF payload_members(1)] require_payload [OF payload_members(2)] require_payload [OF payload_members(3)]
        require_payload [OF payload_members(4)] require_payload [OF payload_members(14)] split: if_splits option.splits)
  show "s' = put_lease (wl_checkoutPath l) (row_of_lease pl e ((case previous of None \<Rightarrow> 0 | Some p \<Rightarrow> ls_revision p) + 1) l) s"
    using s' lease_row_payload [OF r] by simp
  show "1 \<le> wl_fencingRevision l" "wl_state l = expected_lease_state (se_type e)"
    "lease_violation (se_type e) previous (wl_fencingRevision l) (wl_leaseId l) (wl_state l) (wl_workspaceId l) (wl_repositoryId l) = None"
    by fact+
qed

lemma leaseFromRow_of:
  assumes "numbers_read_back pl num" "plain_lease l"
  shows "leaseFromRow num (row_of_lease pl e n l) = Inr l"
  using json_parse_stringify [OF assms(1) assms(2) [unfolded plain_lease_def, THEN conjunct1]]
  by (simp add: leaseFromRow_def row_of_lease_def del: json_stringify.simps)

section \<open>The provider\<close>

definition lease_ready ::
  "platform \<Rightarrow> (string \<Rightarrow> js_number option) \<Rightarrow> int \<Rightarrow> (ProjectionTable \<Rightarrow> sqlval list \<Rightarrow> rawrow option) \<Rightarrow> rawrow list \<Rightarrow> bool" where
  "lease_ready pl num version stored jr \<longleftrightarrow>
     CAPABILITY_LANDING_SCHEMA_VERSION \<le> version \<and>
     (\<exists>s. consistent pl num stored jr s \<and>
        (\<forall>k r. map_of (pj_workspaceLeases s) k = Some r \<longrightarrow> (\<exists>l. leaseFromRow num r = Inr l \<and> plain_lease l)))"

lemma lease_replayable:
  assumes "type \<in> lease_types" "wf_json (JObj (lease_payload pl l))"
  shows "replayable type (JObj (lease_payload pl l))"
proof -
  have "map_of case_labels type = Some Lease_Changed" using assms(1) by (auto simp: lease_types_def case_labels_def)
  with assms(2) show ?thesis by (simp add: replayable_def kept_text_def del: wf_json.simps)
qed

lemma apply_lease_event:
  assumes "applyEvent pl s e = Inr s'" "se_type e \<in> lease_types" "se_payload e = JObj kvs"
  shows "apply_lease_changed s e kvs = Inr s'"
proof -
  have "map_of case_labels (se_type e) = Some Lease_Changed" using assms(2) by (auto simp: lease_types_def case_labels_def)
  with assms(1,3) show ?thesis by (auto simp: applyEvent_def payloadObject_def apply_case_def split: if_splits)
qed

lemma lease_fields: "leaseFromRow num r = Inr l \<Longrightarrow>
    wl_checkoutPath l = ls_checkoutPath r \<and> wl_fencingRevision l = ls_fencingRevision r \<and> wl_leaseId l = ls_leaseId r \<and>
    wl_workspaceId l = ls_workspaceId r \<and> wl_repositoryId l = ls_repositoryId r \<and> wl_state l = ls_leaseState r"
  by (auto simp: leaseFromRow_def split: option.splits json.splits)

lemma violation_rules:
  assumes "lease_violation type previous (wl_fencingRevision l) (wl_leaseId l) (wl_state l) (wl_workspaceId l) (wl_repositoryId l) = None"
    "wl_state l = expected_lease_state type" "1 \<le> wl_fencingRevision l"
    "rel_option (\<lambda>r q. leaseFromRow num r = Inr q) previous found"
  shows "lease_rules type found l"
proof (cases previous)
  case None
  with assms show ?thesis by (auto simp: lease_rules_def lease_violation_def split: if_splits)
next
  case (Some r)
  with assms(4) obtain q where "found = Some q" "leaseFromRow num r = Inr q" by (auto simp: option_rel_Some1)
  with Some assms(1-3) lease_fields [of num r q] show ?thesis
    by (auto simp: lease_rules_def lease_violation_def split: if_splits)
qed

context sql_store
begin

lemma select_lease:
  assumes "represents pl (rows db) s" "wf_keys s"
  shows "sq_select sq T_workspace_lease WORKSPACE_LEASE_COLUMNS [SText p] db = map_option (encode pl) (look s T_workspace_lease p)"
proof -
  have "T_workspace_lease \<noteq> T_stage_artifact_alias" by simp
  note key = represents_key [OF assms this]
  show ?thesis unfolding sq_select_row key select_columns(5) by (rule map_restrict_look)
qed

lemma read_lease:
  assumes "consistent pl num (rows db) (journal db) s"
  shows "readWorkspaceLease sq p db = Inr (map_of (pj_workspaceLeases s) p)"
proof -
  from assms have rep: "represents pl (rows db) s" "wf_keys s" "values_ok s"
    and b: "bounded_rows s (Max (insert 0 (raw_sequence ` set (journal db))))" "Max (insert 0 (raw_sequence ` set (journal db))) \<le> MAX_SAFE_INTEGER"
    by (auto simp: consistent_def)
  note sel = select_lease [OF rep(1,2)]
  show ?thesis
  proof (cases "map_of (pj_workspaceLeases s) p")
    case None
    then show ?thesis by (simp add: readWorkspaceLease_def sel)
  next
    case (Some r)
    then have look: "look s T_workspace_lease p = Some (LeaseRow r)" by simp
    have "row_revision (LeaseRow r) \<le> row_sequence (LeaseRow r)" "1 \<le> row_revision (LeaseRow r)"
      "row_sequence (LeaseRow r) \<le> Max (insert 0 (raw_sequence ` set (journal db)))"
      using b(1) look unfolding bounded_rows_def by blast+
    moreover have "1 \<le> ls_fencingRevision r \<and> ls_fencingRevision r \<le> ls_revision r" using values_okD [OF rep(3) look] by simp
    moreover have "row_sequence (LeaseRow r) \<le> MAX_SAFE_INTEGER" using calculation(3) b(2) by (rule order_trans)
    ultimately have "toWorkspaceLeaseRow (workspaceLeaseRow r) = Inr r" unfolding lease_row_read by simp
    then show ?thesis by (simp add: readWorkspaceLease_def sel Some)
  qed
qed

lemma lease_bounds:
  assumes "consistent pl num (rows db) (journal db) s" "map_of (pj_workspaceLeases s) p = Some r"
  shows "ls_checkoutPath r = p" "ls_fencingRevision r \<le> MAX_SAFE_INTEGER"
proof -
  have read: "readWorkspaceLease sq p db = Inr (Some r)" using read_lease [OF assms(1)] assms(2) by simp
  from assms have rep: "represents pl (rows db) s" "wf_keys s" by (auto simp: consistent_def)
  have look: "look s T_workspace_lease p = Some (LeaseRow r)" using assms(2) by simp
  show "ls_checkoutPath r = p" using wf_keysD [OF rep(2) look] by simp
  have "sq_select sq T_workspace_lease WORKSPACE_LEASE_COLUMNS [SText p] db = Some (workspaceLeaseRow r)"
    using look by (simp add: select_lease [OF rep])
  with read show "ls_fencingRevision r \<le> MAX_SAFE_INTEGER"
    by (auto simp: readWorkspaceLease_def rbind_eq_Inr lease_row_read)
qed

lemma stored_lease_of:
  assumes "consistent pl num (rows db) (journal db) s"
    "\<And>k r. map_of (pj_workspaceLeases s) k = Some r \<Longrightarrow> \<exists>l. leaseFromRow num r = Inr l \<and> plain_lease l"
  obtains found where "stored_lease sq num p db = Inr found"
    "rel_option (\<lambda>r q. leaseFromRow num r = Inr q \<and> plain_lease q) (map_of (pj_workspaceLeases s) p) found"
proof (cases "map_of (pj_workspaceLeases s) p")
  case None
  then show ?thesis using that [of None] by (simp add: stored_lease_def read_lease [OF assms(1)])
next
  case (Some r)
  then obtain l where "leaseFromRow num r = Inr l" "plain_lease l" using assms(2) by blast
  then show ?thesis using that [of "Some l"] Some by (simp add: stored_lease_def read_lease [OF assms(1)])
qed

lemma recordLease_landed:
  assumes "recordLease sq pl num ci type l db = (Inr u, db')"
  obtains db1 report where "sq_begin sq db = Inr db1"
    "commit_body sq pl num ci \<lparr>cm_runId = None, cm_type = type, cm_payload = JObj (lease_payload pl l), cm_causationEventId = None\<rparr>
       \<lparr>co_primaryTable = None, co_artifactRelativePaths = [], co_assertions = []\<rparr> db1 = Inr (report, db')"
proof -
  obtain report where c: "commitStateChange sq pl num ci
      \<lparr>cm_runId = None, cm_type = type, cm_payload = JObj (lease_payload pl l), cm_causationEventId = None\<rparr> db = (Inr report, db')"
    using assms by (auto simp: recordLease_def split: prod.splits sum.splits)
  from c [unfolded commitStateChange_def] show ?thesis
    by (cases rule: commit_internal_cases) (auto intro: that)
qed

lemma recordLease_stored:
  assumes nums: "numbers_read_back pl num" and ready: "lease_ready pl num (sq_userVersion sq db) (rows db) (journal db)"
    and l: "plain_lease l" "wl_fencingRevision l \<le> MAX_SAFE_INTEGER + 1" "type \<in> lease_types"
    and rec: "recordLease sq pl num ci type l db = (Inr u, db')"
  shows "lease_ready pl num (sq_userVersion sq db') (rows db') (journal db') \<and>
    (\<exists>previous. stored_lease sq num (wl_checkoutPath l) db = Inr previous \<and> lease_rules type previous l) \<and>
    (\<forall>p. stored_lease sq num p db' = (if p = wl_checkoutPath l then Inr (Some l) else stored_lease sq num p db))"
proof -
  from ready obtain s where s: "consistent pl num (rows db) (journal db) s" and ver: "CAPABILITY_LANDING_SCHEMA_VERSION \<le> sq_userVersion sq db"
    and plain: "\<And>k r. map_of (pj_workspaceLeases s) k = Some r \<Longrightarrow> \<exists>l. leaseFromRow num r = Inr l \<and> plain_lease l"
    unfolding lease_ready_def by blast
  obtain db1 report where begun: "sq_begin sq db = Inr db1" and body: "commit_body sq pl num ci
      \<lparr>cm_runId = None, cm_type = type, cm_payload = JObj (lease_payload pl l), cm_causationEventId = None\<rparr>
      \<lparr>co_primaryTable = None, co_artifactRelativePaths = [], co_assertions = []\<rparr> db1 = Inr (report, db')"
    using recordLease_landed [OF rec] .
  note keeps = sq_begin_keeps [OF begun]
  have cons1: "consistent pl num (rows db1) (journal db1) s" "CAPABILITY_LANDING_SCHEMA_VERSION \<le> sq_userVersion sq db1"
    using keeps s ver by simp_all
  have "replayable type (JObj (lease_payload pl l))"
    using lease_replayable [OF l(3) lease_payload_wf [OF l(1,2)]] .
  then obtain e s' where s': "consistent pl num (rows db') (journal db') s'" "sq_userVersion sq db' = sq_userVersion sq db1"
    "applyEvent pl s e = Inr s'" "se_type e = type" "se_payload e = JObj (lease_payload pl l)"
    using commit_consistent [OF cons1(1) nums cons1(2) _ body, simplified] by metis
  have "apply_lease_changed s e (lease_payload pl l) = Inr s'"
    using apply_lease_event [OF s'(3) _ s'(5)] s'(4) l(3) by simp
  note ap = lease_applied [OF this]
  let ?row = "row_of_lease pl e ((case map_of (pj_workspaceLeases s) (wl_checkoutPath l) of None \<Rightarrow> 0 | Some p \<Rightarrow> ls_revision p) + 1) l"
  have leases: "map_of (pj_workspaceLeases s') k = (if k = wl_checkoutPath l then Some ?row else map_of (pj_workspaceLeases s) k)" for k
    by (simp add: ap(1) put_lease_def js_simps)
  have row: "leaseFromRow num ?row = Inr l" by (rule leaseFromRow_of [OF nums l(1)])
  have "\<exists>q. leaseFromRow num r = Inr q \<and> plain_lease q" if "map_of (pj_workspaceLeases s') k = Some r" for k r
    using that plain [of k r] row l(1) unfolding leases by (cases "k = wl_checkoutPath l") auto
  then have "lease_ready pl num (sq_userVersion sq db') (rows db') (journal db')"
    unfolding lease_ready_def using s'(1,2) cons1(2) by metis
  moreover obtain previous where prev: "stored_lease sq num (wl_checkoutPath l) db = Inr previous"
    "rel_option (\<lambda>r q. leaseFromRow num r = Inr q \<and> plain_lease q) (map_of (pj_workspaceLeases s) (wl_checkoutPath l)) previous"
    using stored_lease_of [OF s plain] .
  moreover have "lease_rules type previous l"
  proof -
    have "rel_option (\<lambda>r q. leaseFromRow num r = Inr q) (map_of (pj_workspaceLeases s) (wl_checkoutPath l)) previous"
      by (rule option.rel_mono_strong [OF prev(2)]) blast
    from violation_rules [OF ap(3,4,2) this] show ?thesis unfolding s'(4) .
  qed
  moreover have "stored_lease sq num p db' = (if p = wl_checkoutPath l then Inr (Some l) else stored_lease sq num p db)" for p
    by (simp add: stored_lease_def read_lease [OF s'(1)] read_lease [OF s] leases row)
  ultimately show ?thesis by blast
qed

end

theorem durable_lease_store:
  assumes "sql_store sq rows journal" "numbers_read_back pl num"
  shows "lease_store (createWorkspaceStateStore sq pl num) (\<lambda>db. lease_ready pl num (sq_userVersion sq db) (rows db) (journal db))"
proof
  fix db p
  assume "lease_ready pl num (sq_userVersion sq db) (rows db) (journal db)"
  then obtain s where s: "consistent pl num (rows db) (journal db) s"
    and plain: "\<And>k r. map_of (pj_workspaceLeases s) k = Some r \<Longrightarrow> \<exists>l. leaseFromRow num r = Inr l \<and> plain_lease l"
    unfolding lease_ready_def by blast
  obtain found where found: "stored_lease sq num p db = Inr found"
    "rel_option (\<lambda>r q. leaseFromRow num r = Inr q \<and> plain_lease q) (map_of (pj_workspaceLeases s) p) found"
    by (rule sql_store.stored_lease_of [OF assms(1) s, where p = p]) (erule plain, rule that)
  have "plain_lease l \<and> wl_checkoutPath l = p \<and> wl_fencingRevision l \<le> MAX_SAFE_INTEGER" if "found = Some l" for l
  proof -
    from found(2) that obtain r where r: "map_of (pj_workspaceLeases s) p = Some r" "leaseFromRow num r = Inr l" "plain_lease l"
      by (auto simp: option_rel_Some2)
    with lease_fields [OF r(2)] sql_store.lease_bounds [OF assms(1) s r(1)] show ?thesis by simp
  qed
  with found(1) show "\<exists>found. ws_lease (createWorkspaceStateStore sq pl num) p db = Inr found \<and> (\<forall>l. found = Some l \<longrightarrow>
        plain_lease l \<and> wl_checkoutPath l = p \<and> wl_fencingRevision l \<le> MAX_SAFE_INTEGER)"
    by (simp add: createWorkspaceStateStore_def)
next
  fix c type l db error db'
  assume "ws_recordLease (createWorkspaceStateStore sq pl num) c type l db = (Inl error, db')"
  then have "recordLease sq pl num c type l db = (Inl error, db')" by (simp add: createWorkspaceStateStore_def)
  then obtain error' where "commitStateChange sq pl num c
      \<lparr>cm_runId = None, cm_type = type, cm_payload = JObj (lease_payload pl l), cm_causationEventId = None\<rparr> db = (Inl error', db')"
    by (auto simp: recordLease_def split: prod.splits sum.splits)
  then show "db' = db" unfolding commitStateChange_def by (cases rule: sql_store.commit_internal_cases [OF assms(1)]) auto
next
  fix db l type c u db'
  assume "lease_ready pl num (sq_userVersion sq db) (rows db) (journal db)" "plain_lease l"
    "wl_fencingRevision l \<le> MAX_SAFE_INTEGER + 1" "type \<in> lease_types"
    "ws_recordLease (createWorkspaceStateStore sq pl num) c type l db = (Inr u, db')"
  then show "lease_ready pl num (sq_userVersion sq db') (rows db') (journal db') \<and>
      (\<exists>previous. ws_lease (createWorkspaceStateStore sq pl num) (wl_checkoutPath l) db = Inr previous \<and> lease_rules type previous l) \<and>
      (\<forall>p. ws_lease (createWorkspaceStateStore sq pl num) p db' =
        (if p = wl_checkoutPath l then Inr (Some l) else ws_lease (createWorkspaceStateStore sq pl num) p db))"
    using sql_store.recordLease_stored [OF assms(1,2)] by (simp add: createWorkspaceStateStore_def)
qed

interpretation reference_leases: lease_store "createWorkspaceStateStore reference_sql sample_platform sample_num"
    "\<lambda>db. lease_ready sample_platform sample_num (sq_userVersion reference_sql db) (\<lambda>t. map_of (rf_tables db t)) (rf_events db)"
  by (rule durable_lease_store [OF ref.sql_store_axioms sample_numbers])

end
