(* ===== verification/Lease_Safety.thy ===== *)
theory Lease_Safety
  imports Lease_Provider
begin

text \<open>
  The properties of the writer-lease service on the durable store, and a store with one lease on which
  they are evaluated.
\<close>

section \<open>A store with one lease\<close>

definition raw_of :: "state_event \<Rightarrow> rawrow" where
  "raw_of e = (map_of (zip event_insert_columns
     [SText (se_eventId e), nullable_val (se_runId e), SText (se_correlationId e), nullable_val (se_causationEventId e),
      SText (se_type e), SText (se_recordedAt e), SText (json_stringify sample_platform (se_payload e))]))(''sequence'' \<mapsto> SInt (se_sequence e))"

lemma raw_read:
  assumes "wf_json (se_payload e)" "canonicalize (se_payload e) 0 = Inr (se_payload e)" "\<bar>se_sequence e\<bar> \<le> MAX_SAFE_INTEGER"
  shows "toStateEvent sample_num (raw_of e) = Inr e"
proof -
  have "stringifyCanonical sample_platform (se_payload e) = Inr (json_stringify sample_platform (se_payload e))"
    using assms(2) by (simp add: stringifyCanonical_def del: json_stringify.simps)
  from stored_text_read [OF sample_numbers assms(1) this, of "''state_event.payload''"] assms(2)
  have "parseJsonValue sample_num (json_stringify sample_platform (se_payload e)) ''state_event.payload'' = Inr (se_payload e)" by auto
  then show ?thesis unfolding raw_of_def event_columns using assms(3) by (simp add: toSafeInteger_safe del: json_stringify.simps)
qed

definition workspace_event :: state_event where
  "workspace_event =
     \<lparr>se_sequence = 3, se_eventId = ''ev-3'', se_runId = None, se_correlationId = ''cor'', se_causationEventId = None,
      se_type = ''workspace.registered'', se_recordedAt = ''2026-01-03'',
      se_payload = JObj [(''codebaseId'', JStr ''cb''), (''workspaceId'', JStr ''ws'')]\<rparr>"

definition workspace_row :: workspace_state where
  "workspace_row =
     \<lparr>wk_workspaceId = ''ws'', wk_codebaseId = ''cb'', wk_repositoryId = None, wk_lifecycleStatus = None, wk_checkoutPath = None,
      wk_configurationSha256 = None, wk_manifestJson = None, wk_revision = 1, wk_lastEventSequence = 3, wk_updatedAt = ''2026-01-03''\<rparr>"

definition sample_lease :: writer_lease where
  "sample_lease =
     \<lparr>wl_workspaceId = ''ws'', wl_repositoryId = ''repo'', wl_checkoutPath = ''/co'', wl_leaseId = ''lease-1'', wl_ownerId = ''me'',
      wl_bootWitness = None, wl_processWitnesses = [], wl_expectedSha = ''sha'', wl_fencingRevision = 1, wl_state = ''active'',
      wl_acquiredAt = ''10'', wl_renewedAt = ''10'', wl_expiresAt = ''20'', wl_releasedAt = None\<rparr>"

definition lease_event :: state_event where
  "lease_event =
     \<lparr>se_sequence = 4, se_eventId = ''ev-4'', se_runId = None, se_correlationId = ''cor'', se_causationEventId = None,
      se_type = ''workspace.lease_acquired'', se_recordedAt = ''2026-01-04'',
      se_payload = JObj [(''acquiredAt'', JStr ''10''), (''bootWitness'', JNull), (''checkoutPath'', JStr ''/co''), (''expectedSha'', JStr ''sha''),
        (''expiresAt'', JStr ''20''), (''fencingRevision'', JNum (Fin 1)), (''leaseId'', JStr ''lease-1''), (''leaseState'', JStr ''active''),
        (''ownerId'', JStr ''me''), (''processWitnessesJson'', JStr (json_stringify sample_platform (JArr []))), (''releasedAt'', JNull),
        (''renewedAt'', JStr ''10''), (''repositoryId'', JStr ''repo''), (''workspaceId'', JStr ''ws'')]\<rparr>"

definition sample_projection :: projection where
  "sample_projection =
     put_lease ''/co'' (row_of_lease sample_platform lease_event 1 sample_lease)
       (put_workspace ''ws'' workspace_row (put_repository ''repo'' repository_row (put_codebase ''cb'' codebase_row EMPTY_PROJECTION_STATE)))"

definition sample_journal :: "state_event list" where
  "sample_journal = [codebase_event, repository_event, workspace_event, lease_event]"

definition lease_db :: reference_db where
  "lease_db =
     \<lparr>rf_version = 27, rf_saved = None,
      rf_tables = (\<lambda>t. case t of
          T_codebase \<Rightarrow> [([SText ''cb''], codebaseRow codebase_row)]
        | T_repository \<Rightarrow> [([SText ''repo''], repositoryRow repository_row)]
        | T_workspace \<Rightarrow> [([SText ''ws''], workspaceRow workspace_row)]
        | T_workspace_lease \<Rightarrow> [([SText ''/co''], workspaceLeaseRow (row_of_lease sample_platform lease_event 1 sample_lease))]
        | _ \<Rightarrow> []),
      rf_events = map raw_of sample_journal\<rparr>"

lemma journal_payloads:
  "wf_json (se_payload codebase_event)" "wf_json (se_payload repository_event)" "wf_json (se_payload workspace_event)"
  "wf_json (se_payload lease_event)"
  "canonicalize (se_payload codebase_event) 0 = Inr (se_payload codebase_event)"
  "canonicalize (se_payload repository_event) 0 = Inr (se_payload repository_event)"
  "canonicalize (se_payload workspace_event) 0 = Inr (se_payload workspace_event)"
  "canonicalize (se_payload lease_event) 0 = Inr (se_payload lease_event)"
  by code_simp+

lemma journal_sequences:
  "se_sequence codebase_event = 1" "se_sequence repository_event = 2" "se_sequence workspace_event = 3" "se_sequence lease_event = 4"
  by (simp_all add: codebase_event_def repository_event_def workspace_event_def lease_event_def)

lemma journal_read: "map (toStateEvent sample_num) (rf_events lease_db) = map Inr sample_journal"
  using raw_read [of codebase_event] raw_read [of repository_event] raw_read [of workspace_event] raw_read [of lease_event]
  by (simp add: lease_db_def sample_journal_def journal_payloads journal_sequences MAX_SAFE_INTEGER_def)

lemma apply_workspace:
  "applyEvent sample_platform (put_repository ''repo'' repository_row (put_codebase ''cb'' codebase_row EMPTY_PROJECTION_STATE)) workspace_event =
   Inr (put_workspace ''ws'' workspace_row (put_repository ''repo'' repository_row (put_codebase ''cb'' codebase_row EMPTY_PROJECTION_STATE)))"
  by (simp add: applyEvent_def workspace_event_def payloadObject_def case_labels_def apply_case_def requireString_def
      apply_workspace_registered_def EMPTY_PROJECTION_STATE_def put_codebase_def put_repository_def workspace_row_def
      RUN_SCOPED_TYPES_def STAGE_SCOPED_TYPES_def)

lemma apply_lease:
  "applyEvent sample_platform
     (put_workspace ''ws'' workspace_row (put_repository ''repo'' repository_row (put_codebase ''cb'' codebase_row EMPTY_PROJECTION_STATE))) lease_event =
   Inr sample_projection"
proof -
  have str: "json_stringify sample_platform (JArr []) \<noteq> []" by simp
  show ?thesis
    using str
    by (simp add: applyEvent_def lease_event_def payloadObject_def case_labels_def apply_case_def requireString_def
      apply_lease_changed_def EMPTY_PROJECTION_STATE_def put_codebase_def put_repository_def put_workspace_def
      RUN_SCOPED_TYPES_def STAGE_SCOPED_TYPES_def Let_def requireNonNegativeInteger_def non_negative_integer_def lease_violation_def
      expected_lease_state_def lease_row_def nullableString_def sample_projection_def row_of_lease_def sample_lease_def
      del: json_stringify.simps)
qed

lemma journal_replayed: "replayed sample_platform sample_journal sample_projection"
  by (simp add: sample_journal_def apply_codebase apply_repository apply_workspace apply_lease)

lemma journal_last: "Max (insert 0 (raw_sequence ` set (rf_events lease_db))) = 4"
  by (simp add: lease_db_def sample_journal_def raw_of_def raw_sequence_def journal_sequences)

lemma sample_rows:
  "look sample_projection t k =
     (case t of
        T_codebase \<Rightarrow> if k = ''cb'' then Some (CodebaseRow codebase_row) else None
      | T_repository \<Rightarrow> if k = ''repo'' then Some (RepositoryRow repository_row) else None
      | T_workspace \<Rightarrow> if k = ''ws'' then Some (WorkspaceRow workspace_row) else None
      | T_workspace_lease \<Rightarrow> if k = ''/co'' then Some (LeaseRow (row_of_lease sample_platform lease_event 1 sample_lease)) else None
      | _ \<Rightarrow> None)"
  by (cases t) (simp_all add: sample_projection_def look_put empty_look del: look.simps)

lemma sample_keys: "cb_codebaseId codebase_row = ''cb''" "ry_repositoryId repository_row = ''repo''" "wk_workspaceId workspace_row = ''ws''"
  "ls_checkoutPath (row_of_lease sample_platform lease_event 1 sample_lease) = ''/co''"
  by (simp_all add: codebase_row_def repository_row_def workspace_row_def row_of_lease_def sample_lease_def)

lemma lease_db_represents: "represents sample_platform (\<lambda>t. map_of (rf_tables lease_db t)) sample_projection"
  unfolding represents_def
proof (intro conjI allI impI)
  fix t k r
  assume "look sample_projection t k = Some r"
  then show "map_of (rf_tables lease_db t) (pk_values r) = Some (encode sample_platform r)"
    by (auto simp: sample_rows lease_db_def sample_keys split: ProjectionTable.splits if_splits)
next
  fix t key raw
  assume "map_of (rf_tables lease_db t) key = Some raw"
  then show "\<exists>k r. look sample_projection t k = Some r \<and> pk_values r = key"
    by (cases t) (auto simp: sample_rows lease_db_def sample_keys split: if_splits simp del: look.simps)
qed

lemma lease_db_ready:
  "lease_ready sample_platform sample_num (sq_userVersion reference_sql lease_db) (\<lambda>t. map_of (rf_tables lease_db t)) (rf_events lease_db)"
proof -
  have "journal_order sample_journal" by (simp add: journal_order_def sample_journal_def journal_sequences)
  note ok = replayed_ok [OF journal_replayed this]
  have last: "last (0 # map se_sequence sample_journal) = 4" by (simp add: sample_journal_def journal_sequences)
  have cons: "consistent sample_platform sample_num (\<lambda>t. map_of (rf_tables lease_db t)) (rf_events lease_db) sample_projection"
    unfolding consistent_def journal_last
    using ok [unfolded last] lease_db_represents journal_read journal_replayed by (auto simp: MAX_SAFE_INTEGER_def)
  have plain: "plain_lease sample_lease" by (simp add: plain_lease_def sample_lease_def)
  have leases: "map_of (pj_workspaceLeases sample_projection) k =
      (if k = ''/co'' then Some (row_of_lease sample_platform lease_event 1 sample_lease) else None)" for k
    by (simp add: sample_projection_def put_lease_def put_workspace_def put_repository_def put_codebase_def EMPTY_PROJECTION_STATE_def)
  have "\<exists>l. leaseFromRow sample_num r = Inr l \<and> plain_lease l" if "map_of (pj_workspaceLeases sample_projection) k = Some r" for k r
    using that plain leaseFromRow_of [OF sample_numbers plain] unfolding leases by (auto split: if_splits)
  with cons show ?thesis
    unfolding lease_ready_def by (auto simp: reference_sql_def lease_db_def CAPABILITY_LANDING_SCHEMA_VERSION_def)
qed

lemma lease_db_lease: "stored_lease reference_sql sample_num ''/co'' lease_db = Inr (Some sample_lease)"
proof -
  have plain: "plain_lease sample_lease" by (simp add: plain_lease_def sample_lease_def)
  have "toWorkspaceLeaseRow (workspaceLeaseRow (row_of_lease sample_platform lease_event 1 sample_lease)) =
      Inr (row_of_lease sample_platform lease_event 1 sample_lease)"
    unfolding lease_row_read by (simp add: row_of_lease_def sample_lease_def MAX_SAFE_INTEGER_def journal_sequences)
  moreover have "sq_select reference_sql T_workspace_lease WORKSPACE_LEASE_COLUMNS [SText ''/co''] lease_db =
      Some (workspaceLeaseRow (row_of_lease sample_platform lease_event 1 sample_lease))"
    unfolding ref.sq_select_row select_columns(5)
    using encode_restrict [of "LeaseRow (row_of_lease sample_platform lease_event 1 sample_lease)" T_workspace_lease sample_platform]
    by (simp add: lease_db_def del: TABLE_SQL.simps)
  ultimately show ?thesis
    using leaseFromRow_of [OF sample_numbers plain] by (simp add: stored_lease_def readWorkspaceLease_def)
qed

definition sample_dates :: dates where
  "sample_dates = \<lparr>dt_parse = (\<lambda>s. Some (int (read_nat s 0))), dt_iso = (\<lambda>n. Inr (show_integer n))\<rparr>"

definition sample_input :: acquire_input where
  "sample_input =
     \<lparr>ai_workspaceId = ''ws'', ai_repositoryId = ''repo'', ai_checkoutPath = ''/co'', ai_ownerId = ''me'', ai_bootWitness = None,
      ai_processWitnesses = [], ai_expectedSha = ''sha'', ai_ttlMilliseconds = 5\<rparr>"

section \<open>Exclusion and fencing\<close>

text \<open>
  C8: a checkout has one writer: when a lease is acquired, the store then holds that lease, active and of the
  requesting owner. Either it is the unexpired lease the same owner already held, or its fence is one higher
  than the last one and the last lease was released, was its own marked for recovery, or had expired with
  every process that witnessed it known to be gone. The first lease of a checkout has fence 1.
\<close>
theorem writer_lease_exclusive:
  assumes "sql_store sq rows journal" "numbers_read_back pl num" "lease_ready pl num (sq_userVersion sq db) (rows db) (journal db)"
    "plain_json (JArr (ai_processWitnesses input))"
    "acquire (createWorkspaceStateStore sq pl num) d witnessState now newId ci input db = (Inr l, db')"
  shows "\<exists>previous. stored_lease sq num (ai_checkoutPath input) db = Inr previous \<and>
    stored_lease sq num (ai_checkoutPath input) db' = Inr (Some l) \<and> wl_ownerId l = ai_ownerId input \<and> wl_state l = ''active'' \<and>
    (case previous of
       None \<Rightarrow> wl_fencingRevision l = 1
     | Some p \<Rightarrow>
         if db' = db \<and> l = p then time_after d (wl_expiresAt p) now
         else wl_fencingRevision l = wl_fencingRevision p + 1 \<and>
           (wl_state p = ''released'' \<or>
            wl_state p = ''recovery-required'' \<and> wl_ownerId p = ai_ownerId input \<or>
            \<not> time_after d (wl_expiresAt p) now \<and>
              (\<forall>w \<in> set (wl_processWitnesses p). witnessState (wl_bootWitness p) w \<notin> {''alive'', ''unknown''})))"
  using lease_store.acquire_exclusive [OF durable_lease_store [OF assms(1,2)] assms(3-5)]
  by (simp add: createWorkspaceStateStore_def)

theorem writer_lease_exclusive_witness:
  "\<exists>previous. stored_lease reference_sql sample_num ''/co'' lease_db = Inr (Some previous) \<and>
     acquire (createWorkspaceStateStore reference_sql sample_platform sample_num) sample_dates (\<lambda>_ _. ''alive'') ''15'' ''lease-2''
       (sample_inputs ''ev-5'') sample_input lease_db = (Inr previous, lease_db) \<and> wl_ownerId previous = ''me'' \<and> wl_state previous = ''active''"
proof -
  have acq: "acquire (createWorkspaceStateStore reference_sql sample_platform sample_num) sample_dates (\<lambda>_ _. ''alive'') ''15'' ''lease-2''
       (sample_inputs ''ev-5'') sample_input lease_db = (Inr sample_lease, lease_db)"
    using lease_db_lease
    by (simp add: acquire_def createWorkspaceStateStore_def sample_input_def takeover_def sample_lease_def sameOwner_def
        time_after_def sample_dates_def Let_def)
  have "plain_json (JArr (ai_processWitnesses sample_input))" by (simp add: sample_input_def)
  from writer_lease_exclusive [OF ref.sql_store_axioms sample_numbers lease_db_ready this acq] acq lease_db_lease show ?thesis
    by (auto simp: sample_input_def)
qed

text \<open>
  C9: a writer that has been superseded stays out: once the store holds a lease with a higher fence for a
  checkout, then after any further operations of the service every operation with the old lease fails with
  LEASE_NOT_CURRENT and changes nothing.
\<close>
theorem superseded_writer_refused:
  assumes "sql_store sq rows journal" "numbers_read_back pl num" "lease_ready pl num (sq_userVersion sq db) (rows db) (journal db)"
    "stored_lease sq num (wl_checkoutPath old) db = Inr (Some current)" "wl_fencingRevision old < wl_fencingRevision current"
    "lease_run (createWorkspaceStateStore sq pl num) d db db'"
  shows "renew (createWorkspaceStateStore sq pl num) d checkedAt now ci old ttl owner db' =
      (workspace_error ''LEASE_NOT_CURRENT'' ''Writer lease is no longer current.'', db') \<and>
    advanceExpectedSha (createWorkspaceStateStore sq pl num) d checkedAt ci old sha db' =
      (workspace_error ''LEASE_NOT_CURRENT'' ''Writer lease is no longer current.'', db') \<and>
    release (createWorkspaceStateStore sq pl num) d checkedAt now ci old db' =
      (workspace_error ''LEASE_NOT_CURRENT'' ''Writer lease is no longer current.'', db') \<and>
    markRecoveryRequired (createWorkspaceStateStore sq pl num) d checkedAt ci old db' =
      (workspace_error ''LEASE_NOT_CURRENT'' ''Writer lease is no longer current.'', db') \<and>
    assertCurrent (createWorkspaceStateStore sq pl num) d checkedAt old sha db' =
      workspace_error ''LEASE_NOT_CURRENT'' ''Writer lease is no longer current.''"
proof -
  have cur: "ws_lease (createWorkspaceStateStore sq pl num) (wl_checkoutPath old) db = Inr (Some current)"
    using assms(4) by (simp add: createWorkspaceStateStore_def)
  note refused = lease_store.superseded_refused [OF durable_lease_store [OF assms(1,2)] assms(3,6) cur assms(5)]
  show ?thesis
    unfolding renew_def advanceExpectedSha_def release_def markRecoveryRequired_def refused by simp
qed

theorem superseded_writer_refused_witness:
  "release (createWorkspaceStateStore reference_sql sample_platform sample_num) sample_dates ''15'' ''15'' (sample_inputs ''ev-5'')
      (sample_lease\<lparr>wl_fencingRevision := 0\<rparr>) lease_db =
    (workspace_error ''LEASE_NOT_CURRENT'' ''Writer lease is no longer current.'', lease_db)"
proof -
  have "stored_lease reference_sql sample_num (wl_checkoutPath (sample_lease\<lparr>wl_fencingRevision := 0\<rparr>)) lease_db = Inr (Some sample_lease)"
    using lease_db_lease by (simp add: sample_lease_def)
  moreover have "wl_fencingRevision (sample_lease\<lparr>wl_fencingRevision := 0\<rparr>) < wl_fencingRevision sample_lease" by (simp add: sample_lease_def)
  ultimately show ?thesis
    using superseded_writer_refused [OF ref.sql_store_axioms sample_numbers lease_db_ready _ _ rtranclp.rtrancl_refl] by blast
qed

end
