(* ===== verification/Pipeline_Document.thy ===== *)
theory Pipeline_Document
  imports Scheduler_Types
begin

text \<open>
  Pipeline documents and their normalization to a graph (\<open>packages/pipeline/src/graph/normalize.ts\<close>,
  \<open>graph/canonical.ts\<close>, the document and graph contracts of \<open>contracts/src/pipeline/schemas.ts\<close>, and the
  pointer, text and duration helpers of \<open>packages/config/src\<close>). A document is what the schema accepts; its
  reading from YAML is not modelled. A diagnostic is a constructor of \<open>graph_problem\<close>, one per call of the
  reporter with the values its texts interpolate, and the pointer it is reported at.
\<close>

section \<open>Diagnostics\<close>

datatype graph_problem =
    P_expression_invalid expr_message nat
  | P_duplicate_stage_id string nat
  | P_profile_required stage_type | P_profile_not_allowed stage_type
  | P_command_required | P_command_not_allowed stage_type
  | P_profile_not_declared string | P_evaluator_not_declared string
  | P_delegate_target_required | P_delegate_target_not_allowed validation_strategy
  | P_context_thresholds_inverted js_number js_number
  | P_repair_limit_not_stricter string nat nat | P_duration_limit_not_stricter string js_number js_number
  | P_repair_attempts_exceed_limit string nat nat
  | P_unknown_stage_reference bool string | P_self_edge string | P_duplicate_edge string string
  | P_cycle "string list" | P_no_entry_stage | P_unreachable_stage string
  | P_unknown_state_namespace bool string string | P_write_not_allowed string
  | P_read_nowhere_produced string | P_read_not_upstream string "string list" string
  | P_conflicting_writes string string string

fun diagnostic_code :: "graph_problem \<Rightarrow> string" where
  "diagnostic_code (P_expression_invalid _ _) = ''pipeline.expression-invalid''"
| "diagnostic_code (P_duplicate_stage_id _ _) = ''pipeline.duplicate-stage-id''"
| "diagnostic_code (P_profile_required _) = ''pipeline.profile-required''"
| "diagnostic_code (P_profile_not_allowed _) = ''pipeline.profile-not-allowed''"
| "diagnostic_code P_command_required = ''pipeline.command-required''"
| "diagnostic_code (P_command_not_allowed _) = ''pipeline.command-not-allowed''"
| "diagnostic_code (P_profile_not_declared _) = ''pipeline.profile-not-declared''"
| "diagnostic_code (P_evaluator_not_declared _) = ''pipeline.profile-not-declared''"
| "diagnostic_code P_delegate_target_required = ''pipeline.delegate-target-required''"
| "diagnostic_code (P_delegate_target_not_allowed _) = ''pipeline.delegate-target-not-allowed''"
| "diagnostic_code (P_context_thresholds_inverted _ _) = ''pipeline.context-thresholds-inverted''"
| "diagnostic_code (P_repair_limit_not_stricter _ _ _) = ''pipeline.limit-not-stricter''"
| "diagnostic_code (P_duration_limit_not_stricter _ _ _) = ''pipeline.limit-not-stricter''"
| "diagnostic_code (P_repair_attempts_exceed_limit _ _ _) = ''pipeline.repair-attempts-exceed-limit''"
| "diagnostic_code (P_unknown_stage_reference _ _) = ''pipeline.unknown-stage-reference''"
| "diagnostic_code (P_self_edge _) = ''pipeline.self-edge''"
| "diagnostic_code (P_duplicate_edge _ _) = ''pipeline.duplicate-edge''"
| "diagnostic_code (P_cycle _) = ''pipeline.cycle''"
| "diagnostic_code P_no_entry_stage = ''pipeline.no-entry-stage''"
| "diagnostic_code (P_unreachable_stage _) = ''pipeline.unreachable-stage''"
| "diagnostic_code (P_unknown_state_namespace _ _ _) = ''pipeline.unknown-state-namespace''"
| "diagnostic_code (P_write_not_allowed _) = ''pipeline.write-not-allowed''"
| "diagnostic_code (P_read_nowhere_produced _) = ''pipeline.read-not-produced''"
| "diagnostic_code (P_read_not_upstream _ _ _) = ''pipeline.read-not-produced''"
| "diagnostic_code (P_conflicting_writes _ _ _) = ''pipeline.conflicting-writes''"

record graph_diagnostic =
  gd_problem :: graph_problem
  gd_pointer :: string

definition report :: "graph_problem \<Rightarrow> string \<Rightarrow> graph_diagnostic list" where
  "report problem pointer = [\<lparr>gd_problem = problem, gd_pointer = pointer\<rparr>]"

lemma report_not_Nil [simp]: "report problem pointer \<noteq> []"
  by (simp add: report_def)

section \<open>Pointers, canonical text and durations\<close>

definition escapePointerSegment :: "string \<Rightarrow> string" where
  "escapePointerSegment segment =
     concat (map (\<lambda>c. if c = CHR ''/'' then ''~1'' else [c])
       (concat (map (\<lambda>c. if c = CHR ''~'' then ''~0'' else [c]) segment)))"

definition joinPointer :: "string \<Rightarrow> string \<Rightarrow> string" where
  "joinPointer base segment = base @ ''/'' @ escapePointerSegment segment"

definition indent_text :: "nat \<Rightarrow> string" where
  "indent_text depth = concat (replicate depth ''  '')"

definition not_finite_error :: "js_number \<Rightarrow> 'a res" where
  "not_finite_error n = Inl (Thrown (''canonicalJsonStringify: cannot represent a non-finite number ('' @
     (case n of Infinity neg \<Rightarrow> (if neg then ''-Infinity'' else ''Infinity'') | _ \<Rightarrow> ''NaN'') @ '') as JSON.''))"

fun res_list :: "'a res list \<Rightarrow> 'a list res" where
  "res_list [] = Inr []"
| "res_list (r # rs) = rbind r (\<lambda>x. rbind (res_list rs) (\<lambda>xs. Inr (x # xs)))"

fun stringifyIndented :: "platform \<Rightarrow> json \<Rightarrow> nat \<Rightarrow> string res" where
  "stringifyIndented pl JNull depth = Inr ''null''"
| "stringifyIndented pl (JBool b) depth = Inr (if b then ''true'' else ''false'')"
| "stringifyIndented pl (JNum n) depth = (if is_finite_num n then Inr (number_text pl n) else not_finite_error n)"
| "stringifyIndented pl (JStr s) depth = Inr (json_quote s)"
| "stringifyIndented pl (JArr vs) depth =
     (if vs = [] then Inr ''[]''
      else rbind (res_list (map (\<lambda>v. rbind (stringifyIndented pl v (depth + 1)) (\<lambda>t. Inr (indent_text (depth + 1) @ t))) vs))
             (\<lambda>items. Inr (''['' @ [CHR 0x0A] @ join_with ('','' @ [CHR 0x0A]) items @ [CHR 0x0A] @ indent_text depth @ '']'')))"
| "stringifyIndented pl (JObj kvs) depth =
     (if kvs = [] then Inr [CHR 0x7B, CHR 0x7D]
      else rbind (res_list (map snd (sort_key fst
               (map (\<lambda>(k, v). (k, rbind (stringifyIndented pl v (depth + 1))
                                  (\<lambda>t. Inr (indent_text (depth + 1) @ json_quote k @ '': '' @ t)))) kvs))))
             (\<lambda>entries. Inr ([CHR 0x7B, CHR 0x0A] @ join_with ('','' @ [CHR 0x0A]) entries @ [CHR 0x0A] @ indent_text depth @ [CHR 0x7D])))"

definition canonicalJsonStringify :: "platform \<Rightarrow> json \<Rightarrow> string res" where
  "canonicalJsonStringify pl value = rbind (stringifyIndented pl value 0) (\<lambda>t. Inr (t @ [CHR 0x0A]))"

definition canonicalText :: "platform \<Rightarrow> json \<Rightarrow> string res" where
  "canonicalText pl value = canonicalJsonStringify pl value"

definition DURATION_UNIT_MS :: "(string \<times> nat) list" where
  "DURATION_UNIT_MS = [(''ms'', 1), (''s'', 1000), (''m'', 60000), (''h'', 3600000), (''d'', 86400000)]"

text \<open>\<open>DURATION_PATTERN\<close>: digits and a unit, the whole text. The product is one of binary64 numbers.\<close>

definition hardLimitMagnitude :: "string \<Rightarrow> js_number option" where
  "hardLimitMagnitude value =
     (let digits = takeWhile is_digit value; unit = dropWhile is_digit value
      in case map_of DURATION_UNIT_MS unit of
           None \<Rightarrow> None
         | Some ms \<Rightarrow>
             if digits = [] then None
             else (case number_of_decimal digits of
                     Fin amount \<Rightarrow> Some (round_double False (fst (quotient_of amount) * int ms) (snd (quotient_of amount)))
                   | _ \<Rightarrow> None))"

section \<open>Documents and graphs\<close>

record command_document =
  cd_argv :: "string list"
  cd_cwd :: "string option"
  cd_env :: "(string \<times> string) list option"

datatype requirement_document =
    D_valid_result_envelope | D_non_empty_diff | D_artifact string | D_schema_check string
  | D_sections "string list" | D_command "string list" "int option" | D_repository_state string | D_verdict string

datatype completion_requirement =
    R_result_envelope | R_non_empty_diff | R_artifact string | R_schema_check string
  | R_sections "string list" | R_command "string list" "int option" | R_repository_state string | R_verdict string

datatype condition_document = When_evaluator string string | When_expression string

record stage_limits_document =
  ld_max_duration :: "string option"
  ld_max_repair_attempts :: "nat option"

record transition_document =
  td_when :: condition_document
  td_then :: string

record stage_document =
  sc_id :: string
  sc_type :: stage_type
  sc_profile :: "string option"
  sc_optional :: "bool option"
  sc_mode :: "execution_mode option"
  sc_needs :: "string list option"
  sc_reads :: "string list option"
  sc_writes :: "string list option"
  sc_overridable :: "string list option"
  sc_session :: "session_policy option"
  sc_limits :: "stage_limits_document option"
  sc_command :: "command_document option"
  sc_completion :: "requirement_document list option"
  sc_on_validation_failure :: "validation_policy option"
  sc_transitions :: "transition_document list option"

record edge_document =
  ec_from :: string
  ec_to :: string
  ec_when :: "condition_document option"

record pipeline_document =
  pd_id :: string
  pd_name :: "string option"
  pd_description :: "string option"
  pd_mode :: "execution_mode option"
  pd_max_pipeline_duration :: "string option"
  pd_max_concurrent_workers :: "nat option"
  pd_max_repair_attempts :: "nat option"
  pd_max_graph_revisions :: "nat option"
  pd_handoff_soft_threshold :: "js_number option"
  pd_handoff_hard_threshold :: "js_number option"
  pd_stages :: "stage_document list"
  pd_edges :: "edge_document list option"

record stage_limits =
  sl_maxDurationMs :: "js_number option"
  sl_maxRepairAttempts :: "nat option"

record graph_stage =
  gs_id :: string
  gs_type :: stage_type
  gs_mode :: execution_mode
  gs_optional :: bool
  gs_profile :: "string option"
  gs_session :: "session_policy option"
  gs_limits :: "stage_limits option"
  gs_command :: "command_document option"
  gs_completion :: "completion_requirement list option"
  gs_onValidationFailure :: "validation_policy option"
  gs_reads :: "string list"
  gs_writes :: "string list"
  gs_overridable :: "string list"

record full_graph =
  fg_pipelineId :: string
  fg_name :: "string option"
  fg_description :: "string option"
  fg_mode :: execution_mode
  fg_maxPipelineDurationMs :: "js_number option"
  fg_maxConcurrentWorkers :: "nat option"
  fg_maxRepairAttempts :: "nat option"
  fg_maxGraphRevisions :: "nat option"
  fg_handoffSoftThreshold :: "js_number option"
  fg_handoffHardThreshold :: "js_number option"
  fg_stages :: "graph_stage list"
  fg_edges :: "pipeline_edge list"

record located_edge =
  le_edge :: pipeline_edge
  le_pointer :: string

record normalized_pipeline =
  np_graph :: full_graph
  np_edgePointers :: "string list"
  np_stagePointers :: "(string, string) jsmap"

section \<open>The JSON shape of requirements and conditions\<close>

definition json_nat :: "nat \<Rightarrow> json" where "json_nat n = JNum (Fin (of_nat n))"

fun requirement_json :: "completion_requirement \<Rightarrow> json" where
  "requirement_json R_result_envelope = JObj [(''kind'', JStr ''result_envelope'')]"
| "requirement_json R_non_empty_diff = JObj [(''kind'', JStr ''non_empty_diff'')]"
| "requirement_json (R_artifact name) = JObj [(''kind'', JStr ''artifact''), (''name'', JStr name)]"
| "requirement_json (R_schema_check name) = JObj [(''kind'', JStr ''schema_check''), (''name'', JStr name)]"
| "requirement_json (R_sections names) = JObj [(''kind'', JStr ''sections''), (''names'', JArr (map JStr names))]"
| "requirement_json (R_command argv exitCode) =
     JObj ([(''kind'', JStr ''command''), (''argv'', JArr (map JStr argv))] @
           (case exitCode of None \<Rightarrow> [] | Some n \<Rightarrow> [(''exitCode'', JNum (Fin (of_int n)))]))"
| "requirement_json (R_repository_state state) = JObj [(''kind'', JStr ''repository_state''), (''state'', JStr state)]"
| "requirement_json (R_verdict profile) = JObj [(''kind'', JStr ''verdict''), (''profile'', JStr profile)]"

fun comparison_name :: "comparison \<Rightarrow> string" where
  "comparison_name C_eq = ''eq''" | "comparison_name C_ne = ''ne''" | "comparison_name C_lt = ''lt''"
| "comparison_name C_lte = ''lte''" | "comparison_name C_gt = ''gt''" | "comparison_name C_gte = ''gte''"

fun node_json :: "expr_node \<Rightarrow> json" where
  "node_json (N_literal value) = JObj [(''kind'', JStr ''literal''), (''value'', scalar_json value)]"
| "node_json (N_path path) = JObj [(''kind'', JStr ''path''), (''path'', JArr (map JStr path))]"
| "node_json (N_not operand) = JObj [(''kind'', JStr ''not''), (''operand'', json_nat operand)]"
| "node_json (N_compare operator left right) =
     JObj [(''kind'', JStr ''compare''), (''operator'', JStr (comparison_name operator)), (''left'', json_nat left), (''right'', json_nat right)]"
| "node_json (N_logical operator left right) =
     JObj [(''kind'', JStr ''logical''), (''operator'', JStr (logical_name operator)), (''left'', json_nat left), (''right'', json_nat right)]"

fun condition_json :: "condition \<Rightarrow> json" where
  "condition_json (Cond_expression nodes r) =
     JObj [(''kind'', JStr ''expression''), (''nodes'', JArr (map node_json nodes)), (''root'', json_nat r)]"
| "condition_json (Cond_evaluator profile question) =
     JObj [(''kind'', JStr ''evaluator''), (''profile'', JStr profile), (''question'', JStr question)]"

section \<open>Normalization\<close>

text \<open>\<open>sortUnique\<close>: the first value of each key, by key.\<close>

definition sortUnique :: "('a \<Rightarrow> string) \<Rightarrow> 'a list \<Rightarrow> 'a list" where
  "sortUnique key values =
     map snd (sort_key fst
       (fold (\<lambda>value byKey. if map_of byKey (key value) = None then byKey @ [(key value, value)] else byKey) values []))"

fun normalizeCompletionRequirement :: "requirement_document \<Rightarrow> completion_requirement" where
  "normalizeCompletionRequirement D_valid_result_envelope = R_result_envelope"
| "normalizeCompletionRequirement D_non_empty_diff = R_non_empty_diff"
| "normalizeCompletionRequirement (D_artifact name) = R_artifact name"
| "normalizeCompletionRequirement (D_schema_check name) = R_schema_check name"
| "normalizeCompletionRequirement (D_sections names) = R_sections names"
| "normalizeCompletionRequirement (D_command argv exit_code) = R_command argv exit_code"
| "normalizeCompletionRequirement (D_repository_state state) = R_repository_state state"
| "normalizeCompletionRequirement (D_verdict profile) = R_verdict profile"

definition optionalDuration :: "string option \<Rightarrow> js_number option" where
  "optionalDuration value = (case value of None \<Rightarrow> None | Some v \<Rightarrow> hardLimitMagnitude v)"

definition normalizeStageLimits :: "stage_document \<Rightarrow> stage_limits option" where
  "normalizeStageLimits stage = map_option (\<lambda>limits.
     \<lparr>sl_maxDurationMs = optionalDuration (ld_max_duration limits), sl_maxRepairAttempts = ld_max_repair_attempts limits\<rparr>)
     (sc_limits stage)"

text \<open>The text of a requirement is that of a finite value, so it is always there.\<close>

definition requirement_key :: "platform \<Rightarrow> completion_requirement \<Rightarrow> string" where
  "requirement_key pl requirement = (case canonicalText pl (requirement_json requirement) of Inr t \<Rightarrow> t | Inl _ \<Rightarrow> [])"

definition listed :: "'a list option \<Rightarrow> 'a list" where
  "listed values = (case values of None \<Rightarrow> [] | Some vs \<Rightarrow> vs)"

definition normalizeStage :: "platform \<Rightarrow> stage_document \<Rightarrow> execution_mode \<Rightarrow> graph_stage" where
  "normalizeStage pl stage pipelineMode =
     \<lparr>gs_id = sc_id stage, gs_type = sc_type stage,
      gs_mode = (case sc_mode stage of None \<Rightarrow> pipelineMode | Some mode \<Rightarrow> mode),
      gs_optional = (case sc_optional stage of None \<Rightarrow> False | Some b \<Rightarrow> b),
      gs_profile = sc_profile stage, gs_session = sc_session stage,
      gs_limits = normalizeStageLimits stage, gs_command = sc_command stage,
      gs_completion = map_option (\<lambda>require. sortUnique (requirement_key pl) (map normalizeCompletionRequirement require)) (sc_completion stage),
      gs_onValidationFailure = sc_on_validation_failure stage,
      gs_reads = sortUnique id (listed (sc_reads stage)),
      gs_writes = sortUnique id (listed (sc_writes stage)),
      gs_overridable = sortUnique id (listed (sc_overridable stage))\<rparr>"

text \<open>
  A condition that does not compile gives a diagnostic and an edge without condition; the compiler always
  returns (theorem \<open>parseConditionExpression_total\<close>), so the third case does not occur.
\<close>

definition normalizeCondition :: "condition_document \<Rightarrow> string \<Rightarrow> condition option \<times> graph_diagnostic list" where
  "normalizeCondition when pointer =
     (case when of
        When_evaluator profile question \<Rightarrow> (Some (Cond_evaluator profile question), [])
      | When_expression expression \<Rightarrow>
          (case parseConditionExpression expression of
             Some (Inr (nodes, r)) \<Rightarrow> (Some (Cond_expression nodes r), [])
           | Some (Inl error) \<Rightarrow>
               (None, report (P_expression_invalid (ee_message error) (ee_offset error))
                        (joinPointer (joinPointer pointer ''when'') ''expression''))
           | None \<Rightarrow> (None, [])))"

definition buildEdge :: "string \<Rightarrow> string \<Rightarrow> condition_document option \<Rightarrow> string \<Rightarrow> pipeline_edge \<times> graph_diagnostic list" where
  "buildEdge source target when pointer =
     (case when of
        None \<Rightarrow> (\<lparr>ed_from = source, ed_to = target, ed_condition = None\<rparr>, [])
      | Some w \<Rightarrow>
          (let (condition, diagnostics) = normalizeCondition w pointer
           in (\<lparr>ed_from = source, ed_to = target, ed_condition = condition\<rparr>, diagnostics)))"

definition located :: "string \<Rightarrow> pipeline_edge \<times> graph_diagnostic list \<Rightarrow> located_edge \<times> graph_diagnostic list" where
  "located pointer built = (\<lparr>le_edge = fst built, le_pointer = pointer\<rparr>, snd built)"

definition indexed :: "'a list \<Rightarrow> (nat \<times> 'a) list" where
  "indexed xs = zip [0..<length xs] xs"

definition stage_edges :: "nat \<times> stage_document \<Rightarrow> (located_edge \<times> graph_diagnostic list) list" where
  "stage_edges numbered =
     (case numbered of (stageIndex, stage) \<Rightarrow>
        let stagePointer = joinPointer ''/stages'' (show_nat stageIndex)
        in map (\<lambda>(needIndex, dependency).
                  located (joinPointer (joinPointer stagePointer ''needs'') (show_nat needIndex))
                    (buildEdge dependency (sc_id stage) None []))
             (indexed (listed (sc_needs stage)))
         @ map (\<lambda>(transitionIndex, transition).
                  let pointer = joinPointer (joinPointer stagePointer ''transitions'') (show_nat transitionIndex)
                  in located pointer (buildEdge (sc_id stage) (td_then transition) (Some (td_when transition)) pointer))
             (indexed (listed (sc_transitions stage))))"

definition collectEdges :: "pipeline_document \<Rightarrow> located_edge list \<times> graph_diagnostic list" where
  "collectEdges document =
     (let found = concat (map stage_edges (indexed (pd_stages document)))
                @ map (\<lambda>(edgeIndex, edge).
                    let pointer = joinPointer ''/edges'' (show_nat edgeIndex)
                    in located pointer (buildEdge (ec_from edge) (ec_to edge) (ec_when edge) pointer))
                    (indexed (listed (pd_edges document)))
      in (map fst found, concat (map snd found)))"

definition conditionKey :: "platform \<Rightarrow> pipeline_edge \<Rightarrow> string res" where
  "conditionKey pl edge = (case ed_condition edge of None \<Rightarrow> Inr [] | Some c \<Rightarrow> canonicalText pl (condition_json c))"

text \<open>
  The edges with their keys. The sort and the removal of duplicates compute the key of every edge, so a
  condition without text makes the whole normalization throw.
\<close>

definition keyed_edge :: "platform \<Rightarrow> located_edge \<Rightarrow> (string \<times> located_edge) res" where
  "keyed_edge pl entry = rbind (conditionKey pl (le_edge entry)) (\<lambda>key. Inr (key, entry))"

definition edge_order :: "string \<times> located_edge \<Rightarrow> string \<times> string \<times> string" where
  "edge_order keyed = (ed_from (le_edge (snd keyed)), ed_to (le_edge (snd keyed)), fst keyed)"

text \<open>The three parts are joined by NUL characters.\<close>

definition edge_identity :: "string \<times> located_edge \<Rightarrow> string" where
  "edge_identity keyed = ed_from (le_edge (snd keyed)) @ [CHR 0x00] @ ed_to (le_edge (snd keyed)) @ [CHR 0x00] @ fst keyed"

fun dedupeEdges :: "string list \<Rightarrow> (string \<times> located_edge) list \<Rightarrow> located_edge list" where
  "dedupeEdges seen [] = []"
| "dedupeEdges seen (entry # edges) =
     (if edge_identity entry \<in> set seen then dedupeEdges seen edges
      else snd entry # dedupeEdges (edge_identity entry # seen) edges)"

definition stage_pointers :: "stage_document list \<Rightarrow> (string, string) jsmap" where
  "stage_pointers stages = fold (\<lambda>(index, stage) pointers.
     if map_of pointers (sc_id stage) = None
     then AList.update (sc_id stage) (joinPointer ''/stages'' (show_nat index)) pointers else pointers)
     (indexed stages) []"

definition normalizePipelineDocument :: "platform \<Rightarrow> pipeline_document \<Rightarrow> (normalized_pipeline \<times> graph_diagnostic list) res" where
  "normalizePipelineDocument pl document =
     (let pipelineMode = (case pd_mode document of None \<Rightarrow> Autonomous | Some mode \<Rightarrow> mode);
          stages = sort_key gs_id (map (\<lambda>stage. normalizeStage pl stage pipelineMode) (pd_stages document));
          (edges, diagnostics) = collectEdges document
      in rbind (res_list (map (keyed_edge pl) edges)) (\<lambda>keyed.
           let deduped = dedupeEdges [] (sort_key edge_order keyed)
           in Inr (\<lparr>np_graph =
                 \<lparr>fg_pipelineId = pd_id document, fg_name = pd_name document, fg_description = pd_description document,
                  fg_mode = pipelineMode,
                  fg_maxPipelineDurationMs = optionalDuration (pd_max_pipeline_duration document),
                  fg_maxConcurrentWorkers = pd_max_concurrent_workers document,
                  fg_maxRepairAttempts = pd_max_repair_attempts document,
                  fg_maxGraphRevisions = pd_max_graph_revisions document,
                  fg_handoffSoftThreshold = pd_handoff_soft_threshold document,
                  fg_handoffHardThreshold = pd_handoff_hard_threshold document,
                  fg_stages = stages, fg_edges = map le_edge deduped\<rparr>,
               np_edgePointers = map le_pointer deduped,
               np_stagePointers = stage_pointers (pd_stages document)\<rparr>, diagnostics)))"

end
