(* ===== verification/Pipeline_Graph.thy ===== *)
theory Pipeline_Graph
  imports Pipeline_Document
begin

text \<open>
  The rules a pipeline graph must satisfy as a whole (\<open>packages/pipeline/src/graph/validate.ts\<close>). Each rule
  returns the diagnostics it reports, in the order of the source. The three graph walks (search for a cycle,
  reachability, ancestors) are loops over explicit stacks and queues; each is a total function with its
  termination measure.
\<close>

section \<open>Stages\<close>

definition STATE_NAMESPACES :: "string list" where "STATE_NAMESPACES = [''task'', ''artifacts'', ''decisions'']"
definition WRITABLE_NAMESPACES :: "string list" where "WRITABLE_NAMESPACES = [''artifacts'', ''decisions'']"
definition PROFILE_STAGE_TYPES :: "stage_type list" where "PROFILE_STAGE_TYPES = [T_agent, T_verify]"
definition PROFILE_FREE_STAGE_TYPES :: "stage_type list" where "PROFILE_FREE_STAGE_TYPES = [T_command, T_approval]"

definition pointer_of :: "(string, string) jsmap \<Rightarrow> string \<Rightarrow> string" where
  "pointer_of stagePointers stageId = (case map_of stagePointers stageId of None \<Rightarrow> ''/stages'' | Some p \<Rightarrow> p)"

definition validateStageIds :: "normalized_pipeline \<Rightarrow> graph_diagnostic list" where
  "validateStageIds normalized =
     (let counts = fold (\<lambda>stage counts. AList.update (gs_id stage)
                       ((case map_of counts (gs_id stage) of None \<Rightarrow> 0 | Some n \<Rightarrow> n) + (1::nat)) counts)
                     (fg_stages (np_graph normalized)) []
      in concat (map (\<lambda>(id, count). if 1 < count
           then report (P_duplicate_stage_id id count) (pointer_of (np_stagePointers normalized) id) else []) counts))"

definition validateStageProfiles :: "graph_stage \<Rightarrow> string \<Rightarrow> string list option \<Rightarrow> graph_diagnostic list" where
  "validateStageProfiles stage pointer known =
     (let references =
        (case gs_profile stage of None \<Rightarrow> [] | Some profile \<Rightarrow> [(profile, joinPointer pointer ''profile'')])
        @ (case Option.bind (gs_onValidationFailure stage) vp_delegateTo of None \<Rightarrow> []
           | Some profile \<Rightarrow> [(profile, joinPointer (joinPointer pointer ''on_validation_failure'') ''delegate_to'')])
        @ concat (map (\<lambda>(index, requirement). case requirement of
             R_verdict profile \<Rightarrow> [(profile, joinPointer (joinPointer (joinPointer pointer ''completion'') ''require'') (show_nat index))]
           | _ \<Rightarrow> []) (indexed (listed (gs_completion stage))))
      in case known of None \<Rightarrow> []
         | Some ids \<Rightarrow> concat (map (\<lambda>(profile, place). if profile \<in> set ids then [] else report (P_profile_not_declared profile) place) references))"

definition validateValidationFailurePolicy :: "graph_stage \<Rightarrow> string \<Rightarrow> graph_diagnostic list" where
  "validateValidationFailurePolicy stage pointer =
     (case gs_onValidationFailure stage of
        None \<Rightarrow> []
      | Some policy \<Rightarrow>
          (let policyPointer = joinPointer pointer ''on_validation_failure''
           in (if vp_strategy policy = V_delegate \<and> vp_delegateTo policy = None
               then report P_delegate_target_required (joinPointer policyPointer ''delegate_to'') else [])
            @ (if vp_strategy policy \<noteq> V_delegate \<and> vp_delegateTo policy \<noteq> None
               then report (P_delegate_target_not_allowed (vp_strategy policy)) (joinPointer policyPointer ''delegate_to'') else [])))"

definition stage_shape :: "string list option \<Rightarrow> graph_stage \<Rightarrow> string \<Rightarrow> graph_diagnostic list" where
  "stage_shape known stage pointer =
     (if gs_type stage \<in> set PROFILE_STAGE_TYPES \<and> gs_profile stage = None
      then report (P_profile_required (gs_type stage)) (joinPointer pointer ''profile'') else [])
   @ (if gs_type stage \<in> set PROFILE_FREE_STAGE_TYPES \<and> gs_profile stage \<noteq> None
      then report (P_profile_not_allowed (gs_type stage)) (joinPointer pointer ''profile'') else [])
   @ (if gs_type stage = T_command \<and> gs_command stage = None
      then report P_command_required (joinPointer pointer ''command'') else [])
   @ (if gs_type stage \<noteq> T_command \<and> gs_command stage \<noteq> None
      then report (P_command_not_allowed (gs_type stage)) (joinPointer pointer ''command'') else [])
   @ validateStageProfiles stage pointer known
   @ validateValidationFailurePolicy stage pointer"

definition validateStageShapes :: "full_graph \<Rightarrow> (string, string) jsmap \<Rightarrow> string list option \<Rightarrow> graph_diagnostic list" where
  "validateStageShapes graph stagePointers known =
     concat (map (\<lambda>stage. stage_shape known stage (pointer_of stagePointers (gs_id stage))) (fg_stages graph))"

section \<open>Context and limits\<close>

definition validateContext :: "full_graph \<Rightarrow> graph_diagnostic list" where
  "validateContext graph =
     (case (fg_handoffSoftThreshold graph, fg_handoffHardThreshold graph) of
        (Some soft, Some hard) \<Rightarrow>
          if num_less hard soft then report (P_context_thresholds_inverted soft hard) ''/context/handoff_soft_threshold'' else []
      | _ \<Rightarrow> [])"

definition exceeds :: "nat option \<Rightarrow> nat option \<Rightarrow> bool" where
  "exceeds value limit = (case (value, limit) of (Some v, Some l) \<Rightarrow> l < v | _ \<Rightarrow> False)"

definition exceeds_duration :: "js_number option \<Rightarrow> js_number option \<Rightarrow> bool" where
  "exceeds_duration value limit = (case (value, limit) of (Some v, Some l) \<Rightarrow> num_less l v | _ \<Rightarrow> False)"

definition effective_repairs :: "full_graph \<Rightarrow> graph_stage \<Rightarrow> nat option" where
  "effective_repairs graph stage =
     (case Option.bind (gs_limits stage) sl_maxRepairAttempts of None \<Rightarrow> fg_maxRepairAttempts graph | Some n \<Rightarrow> Some n)"

definition stage_limits_check :: "full_graph \<Rightarrow> graph_stage \<Rightarrow> string \<Rightarrow> graph_diagnostic list" where
  "stage_limits_check graph stage pointer =
     (let stageRepairs = Option.bind (gs_limits stage) sl_maxRepairAttempts;
          stageDuration = Option.bind (gs_limits stage) sl_maxDurationMs;
          attempts = Option.bind (gs_onValidationFailure stage) vp_maxAttempts
      in (if exceeds stageRepairs (fg_maxRepairAttempts graph)
          then report (P_repair_limit_not_stricter (gs_id stage) (the stageRepairs) (the (fg_maxRepairAttempts graph)))
                 (joinPointer (joinPointer pointer ''limits'') ''max_repair_attempts'') else [])
       @ (if exceeds_duration stageDuration (fg_maxPipelineDurationMs graph)
          then report (P_duration_limit_not_stricter (gs_id stage) (the stageDuration) (the (fg_maxPipelineDurationMs graph)))
                 (joinPointer (joinPointer pointer ''limits'') ''max_duration'') else [])
       @ (if exceeds attempts (effective_repairs graph stage)
          then report (P_repair_attempts_exceed_limit (gs_id stage) (the attempts) (the (effective_repairs graph stage)))
                 (joinPointer (joinPointer pointer ''on_validation_failure'') ''max_attempts'') else []))"

definition validateLimits :: "full_graph \<Rightarrow> (string, string) jsmap \<Rightarrow> graph_diagnostic list" where
  "validateLimits graph stagePointers =
     concat (map (\<lambda>stage. stage_limits_check graph stage (pointer_of stagePointers (gs_id stage))) (fg_stages graph))"

section \<open>Edges\<close>

definition edge_pointer :: "string list \<Rightarrow> nat \<Rightarrow> string" where
  "edge_pointer edgePointers index = (if index < length edgePointers then edgePointers ! index else ''/edges'')"

definition edge_endpoints :: "string list \<Rightarrow> pipeline_edge \<Rightarrow> string \<Rightarrow> graph_diagnostic list" where
  "edge_endpoints ids edge pointer =
     (if ed_from edge \<in> set ids then [] else report (P_unknown_stage_reference True (ed_from edge)) pointer)
   @ (if ed_to edge \<in> set ids then [] else report (P_unknown_stage_reference False (ed_to edge)) pointer)
   @ (if ed_from edge = ed_to edge then report (P_self_edge (ed_from edge)) pointer else [])"

definition validateEdgeEndpoints :: "full_graph \<Rightarrow> string list \<Rightarrow> string list \<Rightarrow> graph_diagnostic list" where
  "validateEdgeEndpoints graph edgePointers ids =
     concat (map (\<lambda>(index, edge). edge_endpoints ids edge (edge_pointer edgePointers index)) (indexed (fg_edges graph)))"

definition endpoints_key :: "pipeline_edge \<Rightarrow> string" where
  "endpoints_key edge = ed_from edge @ '' '' @ ed_to edge"

definition push_bucket :: "string \<Rightarrow> 'a \<Rightarrow> (string, 'a list) jsmap \<Rightarrow> (string, 'a list) jsmap" where
  "push_bucket key value buckets =
     AList.update key ((case map_of buckets key of None \<Rightarrow> [] | Some bucket \<Rightarrow> bucket) @ [value]) buckets"

text \<open>The diagnostic names the first two parts of the key between spaces (\<open>key.split(" ")\<close>).\<close>

definition first_part :: "string \<Rightarrow> string" where
  "first_part s = takeWhile (\<lambda>c. c \<noteq> CHR '' '') s"

definition second_part :: "string \<Rightarrow> string" where
  "second_part s = first_part (drop 1 (dropWhile (\<lambda>c. c \<noteq> CHR '' '') s))"

definition validateDuplicateEdges :: "full_graph \<Rightarrow> string list \<Rightarrow> graph_diagnostic list" where
  "validateDuplicateEdges graph edgePointers =
     (let byEndpoints = fold (\<lambda>(index, edge). push_bucket (endpoints_key edge) index) (indexed (fg_edges graph)) []
      in concat (map (\<lambda>(key, indices).
           concat (map (\<lambda>index. report (P_duplicate_edge (first_part key) (second_part key)) (edge_pointer edgePointers index))
             (tl indices))) byEndpoints))"

definition validateConditionProfiles :: "full_graph \<Rightarrow> string list \<Rightarrow> string list option \<Rightarrow> graph_diagnostic list" where
  "validateConditionProfiles graph edgePointers known =
     (case known of
        None \<Rightarrow> []
      | Some ids \<Rightarrow>
          concat (map (\<lambda>(index, edge). case ed_condition edge of
              Some (Cond_evaluator profile question) \<Rightarrow>
                if profile \<in> set ids then []
                else report (P_evaluator_not_declared profile)
                       (joinPointer (joinPointer (edge_pointer edgePointers index) ''when'') ''evaluator'')
            | _ \<Rightarrow> []) (indexed (fg_edges graph))))"

section \<open>Graph walks\<close>

definition adjacent :: "(string, string list) jsmap \<Rightarrow> string \<Rightarrow> string list" where
  "adjacent neighbours stageId = (case map_of neighbours stageId of None \<Rightarrow> [] | Some ids \<Rightarrow> ids)"

definition link_edge :: "string \<Rightarrow> string \<Rightarrow> (string, string list) jsmap \<Rightarrow> (string, string list) jsmap" where
  "link_edge source target neighbours =
     (case map_of neighbours source of None \<Rightarrow> neighbours | Some ids \<Rightarrow> AList.update source (ids @ [target]) neighbours)"

definition no_neighbours :: "full_graph \<Rightarrow> (string, string list) jsmap" where
  "no_neighbours graph = fold (\<lambda>stage. AList.update (gs_id stage) []) (fg_stages graph) []"

definition buildSuccessors :: "full_graph \<Rightarrow> (string, string list) jsmap" where
  "buildSuccessors graph =
     map (\<lambda>(id, children). (id, sort children))
       (fold (\<lambda>edge. link_edge (ed_from edge) (ed_to edge)) (fg_edges graph) (no_neighbours graph))"

datatype visit_state = Visiting | Finished

text \<open>\<open>path.slice(path.indexOf(child))\<close>: the whole path from \<open>child\<close> on, or its last entry when it is not there.\<close>

definition path_from :: "string \<Rightarrow> string list \<Rightarrow> string list" where
  "path_from child path =
     (if child \<in> set path then dropWhile (\<lambda>id. id \<noteq> child) path else drop (length path - 1) path)"

definition open_targets :: "(string, string list) jsmap \<Rightarrow> (string, visit_state) jsmap \<Rightarrow> nat" where
  "open_targets successors state = card (\<Union> (set ` snd ` set successors) - fst ` set state)"

lemma adjacent_targets: "set (adjacent successors node) \<subseteq> \<Union> (set ` snd ` set successors)"
proof (cases "map_of successors node")
  case (Some ids)
  then have "(node, ids) \<in> set successors" by (rule map_of_SomeD)
  then show ?thesis by (force simp: adjacent_def Some)
qed (simp add: adjacent_def)

lemma finite_targets [simp]: "finite (\<Union> (set ` snd ` set (successors :: (string, string list) jsmap)))"
  by auto

lemma open_targets_visit:
  assumes "child \<in> set (adjacent successors node)" "map_of state child = None"
  shows "open_targets successors (AList.update child v state) < open_targets successors state"
proof -
  have "child \<in> \<Union> (set ` snd ` set successors)" using assms(1) adjacent_targets by blast
  moreover have "child \<notin> fst ` set state" using assms(2) by (simp add: map_of_eq_None_iff)
  ultimately have "\<Union> (set ` snd ` set successors) - fst ` set (AList.update child v state)
      \<subset> \<Union> (set ` snd ` set successors) - fst ` set state"
    by (auto simp: dom_update)
  then show ?thesis unfolding open_targets_def by (intro psubset_card_mono) auto
qed

lemma open_targets_update: "open_targets successors (AList.update node v state) \<le> open_targets successors state"
  unfolding open_targets_def by (intro card_mono) (auto simp: dom_update)

lemma open_targets_child:
  "\<not> length (adjacent successors node) \<le> index \<Longrightarrow> map_of state (adjacent successors node ! index) = None \<Longrightarrow>
   open_targets successors (AList.update (adjacent successors node ! index) v state) < open_targets successors state"
  by (rule open_targets_visit [of _ _ node]) (simp_all add: not_le)

definition pending_frames :: "(string, string list) jsmap \<Rightarrow> (string \<times> nat) list \<Rightarrow> nat" where
  "pending_frames successors stack = (\<Sum>(node, index)\<leftarrow>stack. Suc (length (adjacent successors node) - index))"

text \<open>
  The loop of \<open>findCycle\<close>, with the top of the stack first: \<open>Inl\<close> is a cycle, \<open>Inr\<close> the state after the
  stack is empty. Either a stage is visited for the first time or the frames have less left to do.
\<close>

function cycle_loop :: "(string, string list) jsmap \<Rightarrow> (string, visit_state) jsmap \<Rightarrow> string list \<Rightarrow> (string \<times> nat) list \<Rightarrow>
    string list + (string, visit_state) jsmap \<times> string list" where
  "cycle_loop successors state path [] = Inr (state, path)"
| "cycle_loop successors state path ((node, index) # stack) =
     (let children = adjacent successors node
      in if length children \<le> index
         then cycle_loop successors (AList.update node Finished state) (butlast path) stack
         else let child = children ! index
           in case map_of state child of
                Some Visiting \<Rightarrow> Inl (path_from child path @ [child])
              | Some Finished \<Rightarrow> cycle_loop successors state path ((node, Suc index) # stack)
              | None \<Rightarrow> cycle_loop successors (AList.update child Visiting state) (path @ [child])
                         ((child, 0) # (node, Suc index) # stack))"
  by pat_completeness auto
termination
  by (relation "measures [\<lambda>(successors, state, path, stack). open_targets successors state,
                          \<lambda>(successors, state, path, stack). pending_frames successors stack]")
     (auto simp: pending_frames_def open_targets_child le_imp_less_or_eq [OF open_targets_update])

fun cycle_roots :: "(string, string list) jsmap \<Rightarrow> (string, visit_state) jsmap \<Rightarrow> string list \<Rightarrow> string list \<Rightarrow> string list option" where
  "cycle_roots successors state path [] = None"
| "cycle_roots successors state path (start # roots) =
     (if map_of state start = Some Finished then cycle_roots successors state path roots
      else case cycle_loop successors (AList.update start Visiting state) (path @ [start]) [(start, 0)] of
             Inl cycle \<Rightarrow> Some cycle
           | Inr (state', path') \<Rightarrow> cycle_roots successors state' path' roots)"

definition findCycle :: "full_graph \<Rightarrow> string list option" where
  "findCycle graph = cycle_roots (buildSuccessors graph) [] [] (map gs_id (fg_stages graph))"

definition validateAcyclic :: "full_graph \<Rightarrow> (string, string) jsmap \<Rightarrow> graph_diagnostic list" where
  "validateAcyclic graph stagePointers =
     (case findCycle graph of
        None \<Rightarrow> []
      | Some cycle \<Rightarrow> report (P_cycle cycle) (pointer_of stagePointers (case cycle of [] \<Rightarrow> [] | entry # _ \<Rightarrow> entry)))"

text \<open>Reachability: breadth first from the stages without incoming edge.\<close>

definition reach_child :: "string \<Rightarrow> string list \<times> string list \<Rightarrow> string list \<times> string list" where
  "reach_child child acc =
     (case acc of (reached, queue) \<Rightarrow> if child \<in> set reached then acc else (child # reached, queue @ [child]))"

lemma reach_children_eq:
  "\<exists>new. fold reach_child children (reached, queue) = (rev new @ reached, queue @ new) \<and> distinct new \<and>
     set new = set children - set reached"
proof (induction children arbitrary: reached queue)
  case (Cons child children)
  show ?case
  proof (cases "child \<in> set reached")
    case True
    with Cons.IH [of reached queue] show ?thesis by (auto simp: reach_child_def)
  next
    case False
    from Cons.IH [of "child # reached" "queue @ [child]"] obtain new where new:
      "fold reach_child children (child # reached, queue @ [child]) = (rev new @ child # reached, queue @ [child] @ new)"
      "distinct new" "set new = set children - set (child # reached)" by auto
    have "fold reach_child (child # children) (reached, queue) = (rev (child # new) @ reached, queue @ child # new)"
      using False new(1) by (simp add: reach_child_def)
    moreover have "distinct (child # new)" "set (child # new) = set (child # children) - set reached"
      using False new(2,3) by auto
    ultimately show ?thesis by blast
  qed
qed simp

definition unreached :: "(string, string list) jsmap \<Rightarrow> string list \<Rightarrow> nat" where
  "unreached successors reached = card (\<Union> (set ` snd ` set successors) - set reached)"

function reach_loop :: "(string, string list) jsmap \<Rightarrow> string list \<Rightarrow> string list \<Rightarrow> string list" where
  "reach_loop successors reached [] = reached"
| "reach_loop successors reached (current # queue) =
     (case fold reach_child (adjacent successors current) (reached, queue) of
        (reached', queue') \<Rightarrow> reach_loop successors reached' queue')"
  by pat_completeness auto
termination
proof (relation "measures [\<lambda>(successors, reached, queue). unreached successors reached, \<lambda>(successors, reached, queue). length queue]")
  fix successors :: "(string, string list) jsmap" and reached queue current reached' queue'
  assume x: "(reached', queue') = fold reach_child (adjacent successors current) (reached, queue)"
  obtain new where new: "reached' = rev new @ reached" "queue' = queue @ new" "set new = set (adjacent successors current) - set reached"
    using reach_children_eq [of "adjacent successors current" reached queue] x by auto
  have "unreached successors reached' < unreached successors reached" if "new \<noteq> []"
    unfolding unreached_def
  proof (rule psubset_card_mono)
    from that obtain c where c: "c \<in> set new" by (cases new) auto
    then have "c \<in> \<Union> (set ` snd ` set successors)"
      using new(3) adjacent_targets [of successors current] by blast
    then show "\<Union> (set ` snd ` set successors) - set reached' \<subset> \<Union> (set ` snd ` set successors) - set reached"
      using c new by auto
  qed auto
  then show "((successors, reached', queue'), successors, reached, current # queue)
      \<in> measures [\<lambda>(successors, reached, queue). unreached successors reached, \<lambda>(successors, reached, queue). length queue]"
    using new by (cases "new = []") auto
qed simp

definition validateStageReachability :: "full_graph \<Rightarrow> (string, string) jsmap \<Rightarrow> graph_diagnostic list" where
  "validateStageReachability graph stagePointers =
     (let entries = filter (\<lambda>stage. gs_id stage \<notin> ed_to ` set (fg_edges graph)) (fg_stages graph)
      in if entries = [] then report P_no_entry_stage ''/stages''
         else
           (let start = map gs_id entries;
                reached = reach_loop (buildSuccessors graph) start start
            in concat (map (\<lambda>stage. if gs_id stage \<in> set reached then []
                 else report (P_unreachable_stage (gs_id stage)) (pointer_of stagePointers (gs_id stage))) (fg_stages graph))))"

section \<open>Ancestors\<close>

definition buildPredecessors :: "full_graph \<Rightarrow> (string, string list) jsmap" where
  "buildPredecessors graph = fold (\<lambda>edge. link_edge (ed_to edge) (ed_from edge)) (fg_edges graph) (no_neighbours graph)"

function ancestor_loop :: "(string, string list) jsmap \<Rightarrow> string list \<Rightarrow> string list \<Rightarrow> string list" where
  "ancestor_loop predecessors collected [] = collected"
| "ancestor_loop predecessors collected (current # queue) =
     (if current \<in> set collected then ancestor_loop predecessors collected queue
      else ancestor_loop predecessors (collected @ [current]) (queue @ adjacent predecessors current))"
  by pat_completeness auto
termination
proof (relation "measures [\<lambda>(predecessors, collected, queue). card ((\<Union> (set ` snd ` set predecessors) \<union> set queue) - set collected),
    \<lambda>(predecessors, collected, queue). length queue]")
  fix predecessors :: "(string, string list) jsmap" and collected current queue
  let ?U = "\<Union> (set ` snd ` set predecessors)"
  show "((predecessors, collected, queue), predecessors, collected, current # queue)
      \<in> measures [\<lambda>(predecessors, collected, queue). card ((\<Union> (set ` snd ` set predecessors) \<union> set queue) - set collected),
           \<lambda>(predecessors, collected, queue). length queue]" if "current \<in> set collected"
  proof -
    have "(?U \<union> set (current # queue)) - set collected = (?U \<union> set queue) - set collected" using that by auto
    then show ?thesis by simp
  qed
  show "((predecessors, collected @ [current], queue @ adjacent predecessors current), predecessors, collected, current # queue)
      \<in> measures [\<lambda>(predecessors, collected, queue). card ((\<Union> (set ` snd ` set predecessors) \<union> set queue) - set collected),
           \<lambda>(predecessors, collected, queue). length queue]" if "current \<notin> set collected"
  proof -
    have "(?U \<union> set (queue @ adjacent predecessors current)) - set (collected @ [current]) \<subset> (?U \<union> set (current # queue)) - set collected"
      using that adjacent_targets [of predecessors current] by auto
    then have "card ((?U \<union> set (queue @ adjacent predecessors current)) - set (collected @ [current]))
        < card ((?U \<union> set (current # queue)) - set collected)"
      by (intro psubset_card_mono) auto
    then show ?thesis by simp
  qed
qed simp

definition computeAncestors :: "full_graph \<Rightarrow> (string, string list) jsmap" where
  "computeAncestors graph =
     fold (\<lambda>stage. AList.update (gs_id stage)
             (ancestor_loop (buildPredecessors graph) [] (adjacent (buildPredecessors graph) (gs_id stage))))
       (fg_stages graph) []"

section \<open>Reads and writes\<close>

definition namespaceOf :: "string \<Rightarrow> string" where
  "namespaceOf reference = takeWhile (\<lambda>c. c \<noteq> CHR ''.'') reference"

fun split_dots :: "string \<Rightarrow> string list" where
  "split_dots [] = [[]]"
| "split_dots (c # cs) =
     (if c = CHR ''.'' then [] # split_dots cs
      else (case split_dots cs of [] \<Rightarrow> [[c]] | segment # segments \<Rightarrow> (c # segment) # segments))"

text \<open>All prefixes of at least two segments, the longest first.\<close>

definition prefixesOf :: "string \<Rightarrow> string list" where
  "prefixesOf reference =
     (let segments = split_dots reference
      in map (\<lambda>len. join_with ''.'' (take len segments)) (rev [2..<Suc (length segments)]))"

definition check_read_namespace :: "string \<Rightarrow> nat \<times> string \<Rightarrow> graph_diagnostic list" where
  "check_read_namespace pointer numbered =
     (case numbered of (index, reference) \<Rightarrow>
        if namespaceOf reference \<in> set STATE_NAMESPACES then []
        else report (P_unknown_state_namespace True reference (namespaceOf reference))
               (joinPointer (joinPointer pointer ''reads'') (show_nat index)))"

definition check_write_namespace :: "string \<Rightarrow> nat \<times> string \<Rightarrow> graph_diagnostic list" where
  "check_write_namespace pointer numbered =
     (case numbered of (index, reference) \<Rightarrow>
        let place = joinPointer (joinPointer pointer ''writes'') (show_nat index)
        in if namespaceOf reference \<notin> set STATE_NAMESPACES
           then report (P_unknown_state_namespace False reference (namespaceOf reference)) place
           else if namespaceOf reference \<notin> set WRITABLE_NAMESPACES then report (P_write_not_allowed reference) place
           else [])"

text \<open>The writers of each reference, in the order of the stages; writes that are refused are left out.\<close>

definition add_producer :: "string \<Rightarrow> string \<Rightarrow> (string, string list) jsmap \<Rightarrow> (string, string list) jsmap" where
  "add_producer stageId reference producers =
     (if namespaceOf reference \<in> set STATE_NAMESPACES \<and> namespaceOf reference \<in> set WRITABLE_NAMESPACES
      then push_bucket reference stageId producers else producers)"

definition collect_producers :: "full_graph \<Rightarrow> (string, string list) jsmap" where
  "collect_producers graph =
     fold (\<lambda>stage producers. fold (add_producer (gs_id stage)) (gs_writes stage) producers) (fg_stages graph) []"

definition check_read :: "graph_stage \<Rightarrow> string \<Rightarrow> string list \<Rightarrow> (string, string list) jsmap \<Rightarrow> nat \<times> string \<Rightarrow> graph_diagnostic list" where
  "check_read stage pointer upstream producers numbered =
     (case numbered of (index, reference) \<Rightarrow>
        if namespaceOf reference \<notin> set STATE_NAMESPACES \<or> namespaceOf reference = ''task'' then []
        else
          (let producedBy = concat (map (adjacent producers) (prefixesOf reference));
               place = joinPointer (joinPointer pointer ''reads'') (show_nat index)
           in if producedBy = [] then report (P_read_nowhere_produced reference) place
              else if \<exists>producer \<in> set producedBy. producer \<in> set upstream then []
              else report (P_read_not_upstream reference (sort (remdups producedBy)) (gs_id stage)) place))"

definition validateReadsAreProduced :: "full_graph \<Rightarrow> (string, string) jsmap \<Rightarrow> (string, string list) jsmap \<Rightarrow>
    (string, string list) jsmap \<Rightarrow> graph_diagnostic list" where
  "validateReadsAreProduced graph stagePointers ancestors producers =
     concat (map (\<lambda>stage. concat (map (check_read stage (pointer_of stagePointers (gs_id stage)) (adjacent ancestors (gs_id stage)) producers)
       (indexed (gs_reads stage)))) (fg_stages graph))"

definition ordered_writers :: "(string, string list) jsmap \<Rightarrow> string \<Rightarrow> string \<Rightarrow> bool" where
  "ordered_writers ancestors first second \<longleftrightarrow> first \<in> set (adjacent ancestors second) \<or> second \<in> set (adjacent ancestors first)"

definition index_of :: "'a \<Rightarrow> 'a list \<Rightarrow> nat option" where
  "index_of x xs = map_option fst (find (\<lambda>(_, y). y = x) (indexed xs))"

definition conflict_pointer :: "full_graph \<Rightarrow> (string, string) jsmap \<Rightarrow> string \<Rightarrow> string \<Rightarrow> string" where
  "conflict_pointer graph stagePointers reference second =
     (let pointer = pointer_of stagePointers second
      in case Option.bind (find (\<lambda>candidate. gs_id candidate = second) (fg_stages graph)) (\<lambda>stage. index_of reference (gs_writes stage)) of
           None \<Rightarrow> pointer
         | Some index \<Rightarrow> joinPointer (joinPointer pointer ''writes'') (show_nat index))"

text \<open>The two loops over a sorted list of writers: every pair, the earlier writer first.\<close>

fun writer_conflicts :: "full_graph \<Rightarrow> (string, string) jsmap \<Rightarrow> (string, string list) jsmap \<Rightarrow> string \<Rightarrow> string list \<Rightarrow> graph_diagnostic list" where
  "writer_conflicts graph stagePointers ancestors reference [] = []"
| "writer_conflicts graph stagePointers ancestors reference (first # writers) =
     concat (map (\<lambda>second. if ordered_writers ancestors first second then []
       else report (P_conflicting_writes first second reference) (conflict_pointer graph stagePointers reference second)) writers)
     @ writer_conflicts graph stagePointers ancestors reference writers"

definition validateWriteConflicts :: "full_graph \<Rightarrow> (string, string) jsmap \<Rightarrow> (string, string list) jsmap \<Rightarrow>
    (string, string list) jsmap \<Rightarrow> graph_diagnostic list" where
  "validateWriteConflicts graph stagePointers ancestors producers =
     concat (map (\<lambda>(reference, writers). if length writers < 2 then []
       else writer_conflicts graph stagePointers ancestors reference (sort writers)) (sort_key fst producers))"

definition validateStateFlow :: "full_graph \<Rightarrow> (string, string) jsmap \<Rightarrow> (string, string list) jsmap \<Rightarrow> graph_diagnostic list" where
  "validateStateFlow graph stagePointers ancestors =
     concat (map (\<lambda>stage.
         concat (map (check_read_namespace (pointer_of stagePointers (gs_id stage))) (indexed (gs_reads stage)))
       @ concat (map (check_write_namespace (pointer_of stagePointers (gs_id stage))) (indexed (gs_writes stage))))
       (fg_stages graph))
     @ validateReadsAreProduced graph stagePointers ancestors (collect_producers graph)
     @ validateWriteConflicts graph stagePointers ancestors (collect_producers graph)"

section \<open>All rules\<close>

text \<open>The walks run only when every endpoint resolves; \<open>known\<close> is the caller's list of profiles, if any.\<close>

definition validatePipelineGraph :: "normalized_pipeline \<Rightarrow> string list option \<Rightarrow> graph_diagnostic list" where
  "validatePipelineGraph normalized known =
     (let graph = np_graph normalized; stagePointers = np_stagePointers normalized; edgePointers = np_edgePointers normalized;
          endpoints = validateEdgeEndpoints graph edgePointers (map gs_id (fg_stages graph))
      in validateStageIds normalized @ validateStageShapes graph stagePointers known @ validateContext graph
         @ validateLimits graph stagePointers @ endpoints @ validateDuplicateEdges graph edgePointers
         @ validateConditionProfiles graph edgePointers known
         @ (if endpoints \<noteq> [] then []
            else validateAcyclic graph stagePointers @ validateStageReachability graph stagePointers
                 @ validateStateFlow graph stagePointers (computeAncestors graph)))"

text \<open>
  What \<open>parsePipelineDocument\<close> does with a loaded document: the graph is returned exactly when no error was
  reported. The diagnostics inherited from loading, the source positions and the final sort of the report are left out.
\<close>

definition parse_loaded :: "platform \<Rightarrow> pipeline_document \<Rightarrow> string list option \<Rightarrow> (full_graph option \<times> graph_diagnostic list) res" where
  "parse_loaded pl document known =
     rbind (normalizePipelineDocument pl document) (\<lambda>(normalized, diagnostics).
       let all = diagnostics @ validatePipelineGraph normalized known
       in Inr (if all = [] then Some (np_graph normalized) else None, all))"

end
