(* ===== verification/Pipeline_Walks.thy ===== *)
theory Pipeline_Walks
  imports Pipeline_Graph
begin

text \<open>
  What the graph walks of \<open>Pipeline_Graph\<close> compute: the search for a cycle returns a closed walk exactly when
  the edges have a cycle, the reachability queue collects the stages reachable from its start, and the ancestor
  queue the stages a stage can be reached from.
\<close>

section \<open>Successors and predecessors\<close>

definition stage_id_set :: "full_graph \<Rightarrow> string set" where
  "stage_id_set graph = gs_id ` set (fg_stages graph)"

text \<open>The edges of a graph that leave a declared stage: what \<open>buildSuccessors\<close> keeps.\<close>

definition link_rel :: "full_graph \<Rightarrow> (string \<times> string) set" where
  "link_rel graph = {(ed_from e, ed_to e) | e. e \<in> set (fg_edges graph) \<and> ed_from e \<in> stage_id_set graph}"

lemma no_neighbours_of: "map_of (no_neighbours graph) node = (if node \<in> stage_id_set graph then Some [] else None)"
proof -
  have "map_of (fold (\<lambda>stage. AList.update (gs_id stage) []) stages m) node =
      (if node \<in> gs_id ` set stages then Some [] else map_of m node)" for stages :: "graph_stage list" and m :: "(string, string list) jsmap"
    by (induction stages arbitrary: m) (auto simp: update_conv')
  then show ?thesis by (simp add: no_neighbours_def stage_id_set_def)
qed

lemma link_edges_of:
  "map_of (fold (\<lambda>e. link_edge (f e) (g e)) es m) node =
     map_option (\<lambda>ids. ids @ map g (filter (\<lambda>e. f e = node) es)) (map_of m node)"
proof (induction es arbitrary: m)
  case (Cons e es)
  then show ?case by (cases "map_of m (f e)") (auto simp: link_edge_def update_conv' option.map_comp)
qed (simp add: option.map_ident)

lemma map_of_map_snd: "map_of (map (\<lambda>(k, v). (k, h v)) m) k = map_option h (map_of m k)"
  by (induction m) auto

lemma set_successors: "set (adjacent (buildSuccessors graph) node) = link_rel graph `` {node}"
  by (auto simp: adjacent_def buildSuccessors_def map_of_map_snd link_edges_of no_neighbours_of link_rel_def)

text \<open>The edges that enter a declared stage, backwards: what \<open>computeAncestors\<close> keeps.\<close>

definition pred_rel :: "full_graph \<Rightarrow> (string \<times> string) set" where
  "pred_rel graph = {(ed_to e, ed_from e) | e. e \<in> set (fg_edges graph) \<and> ed_to e \<in> stage_id_set graph}"

lemma set_predecessors: "set (adjacent (buildPredecessors graph) node) = pred_rel graph `` {node}"
  by (auto simp: adjacent_def buildPredecessors_def link_edges_of no_neighbours_of pred_rel_def)

definition resolved :: "full_graph \<Rightarrow> bool" where
  "resolved graph \<longleftrightarrow> (\<forall>e \<in> set (fg_edges graph). ed_from e \<in> stage_id_set graph \<and> ed_to e \<in> stage_id_set graph)"

lemma resolved_pred: "resolved graph \<Longrightarrow> pred_rel graph = (link_rel graph)\<inverse>"
  by (auto simp: pred_rel_def link_rel_def resolved_def)

section \<open>Reachability\<close>

lemma reach_loop_set:
  assumes "\<forall>a. set (adjacent successors a) = E `` {a}" "set queue \<subseteq> set reached"
    and "\<forall>a \<in> set reached - set queue. E `` {a} \<subseteq> set reached"
  shows "set (reach_loop successors reached queue) = E\<^sup>* `` set reached"
  using assms
proof (induction successors reached queue rule: reach_loop.induct)
  case (1 successors reached)
  then have "E `` set reached \<subseteq> set reached" by auto
  then have "E\<^sup>* `` set reached = set reached" by (rule Image_closed_trancl)
  then show ?case by simp
next
  case (2 successors reached current queue)
  obtain new where new: "fold reach_child (adjacent successors current) (reached, queue) = (rev new @ reached, queue @ new)"
    "set new = set (adjacent successors current) - set reached"
    using reach_children_eq by blast
  have current: "set new = E `` {current} - set reached" "current \<in> set reached" using new(2) "2.prems" by auto
  have "set (reach_loop successors (rev new @ reached) (queue @ new)) = E\<^sup>* `` set (rev new @ reached)"
  proof (rule "2.IH" [OF new(1) [symmetric] "2.prems"(1)])
    show "set (queue @ new) \<subseteq> set (rev new @ reached)" using "2.prems"(2) by auto
    show "\<forall>a \<in> set (rev new @ reached) - set (queue @ new). E `` {a} \<subseteq> set (rev new @ reached)"
      using "2.prems"(3) current by auto
  qed
  moreover have "E\<^sup>* `` set (rev new @ reached) = E\<^sup>* `` set reached"
    using current by (auto intro: converse_rtrancl_into_rtrancl)
  ultimately show ?case by (simp add: new(1))
qed

lemma ancestor_loop_set:
  assumes "\<forall>a. set (adjacent predecessors a) = E `` {a}"
    and "\<forall>a \<in> set collected. E `` {a} \<subseteq> set collected \<union> set queue"
  shows "set (ancestor_loop predecessors collected queue) = set collected \<union> E\<^sup>* `` set queue"
  using assms
proof (induction predecessors collected queue rule: ancestor_loop.induct)
  case (2 predecessors collected current queue)
  show ?case
  proof (cases "current \<in> set collected")
    case True
    have "E\<^sup>* `` {current} \<subseteq> set collected \<union> E\<^sup>* `` set queue"
    proof -
      have "b \<in> set collected \<union> E\<^sup>* `` set queue" if "(current, b) \<in> E\<^sup>*" for b
        using that
      proof (induction rule: rtrancl_induct)
        case (step b c)
        then show ?case using "2.prems"(2) True by (auto intro: rtrancl_into_rtrancl)
      qed (simp add: True)
      then show ?thesis by auto
    qed
    moreover have "\<forall>a \<in> set collected. E `` {a} \<subseteq> set collected \<union> set queue" using "2.prems"(2) True by auto
    then have "set (ancestor_loop predecessors collected queue) = set collected \<union> E\<^sup>* `` set queue"
      by (rule "2.IH"(1) [OF True "2.prems"(1)])
    ultimately show ?thesis using True by auto
  next
    case False
    have "set (ancestor_loop predecessors (collected @ [current]) (queue @ adjacent predecessors current)) =
        set (collected @ [current]) \<union> E\<^sup>* `` set (queue @ adjacent predecessors current)"
      using "2.IH"(2) [OF False "2.prems"(1)] "2.prems" by auto
    also have "\<dots> = set collected \<union> E\<^sup>* `` set (current # queue)"
      using "2.prems"(1) by (auto intro: converse_rtrancl_into_rtrancl elim: converse_rtranclE)
    finally show ?thesis using False by simp
  qed
qed simp

section \<open>The search for a cycle\<close>

definition closed_walk :: "(string \<times> string) set \<Rightarrow> string list \<Rightarrow> bool" where
  "closed_walk E walk \<longleftrightarrow> 2 \<le> length walk \<and> hd walk = last walk \<and> (\<forall>i. Suc i < length walk \<longrightarrow> (walk ! i, walk ! Suc i) \<in> E)"

definition finished :: "(string, visit_state) jsmap \<Rightarrow> string set" where
  "finished state = {a. map_of state a = Some Finished}"

text \<open>
  Finished stages are closed under edges and on no cycle; the frames are a path, each with its earlier
  children finished or next on the path; a stage is being visited exactly when it is on the path.
\<close>

definition settled_stages :: "(string \<times> string) set \<Rightarrow> string set \<Rightarrow> bool" where
  "settled_stages E F \<longleftrightarrow> E `` F \<subseteq> F \<and> (\<forall>a \<in> F. (a, a) \<notin> E\<^sup>+)"

fun frames_ok :: "(string \<times> string) set \<Rightarrow> (string \<Rightarrow> string list) \<Rightarrow> string set \<Rightarrow> string set \<Rightarrow> (string \<times> nat) list \<Rightarrow> bool" where
  "frames_ok E ch F upper [] = True"
| "frames_ok E ch F upper ((node, index) # stack) \<longleftrightarrow>
     set (take index (ch node)) \<subseteq> F \<union> upper \<and> upper \<subseteq> E `` {node} \<and> frames_ok E ch F {node} stack"

definition search_ok :: "(string \<times> string) set \<Rightarrow> (string, string list) jsmap \<Rightarrow> (string, visit_state) jsmap \<Rightarrow> string list \<Rightarrow> (string \<times> nat) list \<Rightarrow> bool" where
  "search_ok E successors state path stack \<longleftrightarrow>
     settled_stages E (finished state) \<and> frames_ok E (adjacent successors) (finished state) {} stack \<and>
     path = rev (map fst stack) \<and> distinct path \<and> {a. map_of state a = Some Visiting} = set path"

lemma settled_insert:
  assumes "settled_stages E F" "E `` {a} \<subseteq> F" "a \<notin> F"
  shows "settled_stages E (insert a F)"
proof -
  have "E\<^sup>* `` F = F" using assms(1) by (intro Image_closed_trancl) (simp add: settled_stages_def)
  then have stays: "E\<^sup>+ `` F \<subseteq> F" by (auto dest: trancl_into_rtrancl)
  have "(a, a) \<notin> E\<^sup>+"
  proof
    assume "(a, a) \<in> E\<^sup>+"
    then obtain b where "(a, b) \<in> E" "(b, a) \<in> E\<^sup>*" by (meson tranclD)
    then have "b \<in> F" "b = a \<or> (b, a) \<in> E\<^sup>+" using assms(2) by (auto simp: rtrancl_eq_or_trancl)
    with stays assms(3) show False by auto
  qed
  with assms(1,2) show ?thesis by (auto simp: settled_stages_def)
qed

lemma frames_mono: "frames_ok E ch F upper stack \<Longrightarrow> F \<subseteq> F' \<Longrightarrow> frames_ok E ch F' upper stack"
  by (induction E ch F upper stack rule: frames_ok.induct) auto

lemma frames_pop:
  "frames_ok E ch F {node} stack \<Longrightarrow> frames_ok E ch (insert node F) {} stack"
  by (cases stack) (auto intro: frames_mono)

lemma frames_path:
  "frames_ok E ch F upper stack \<Longrightarrow> Suc i < length stack \<Longrightarrow> (fst (stack ! Suc i), fst (stack ! i)) \<in> E"
proof (induction E ch F upper stack arbitrary: i rule: frames_ok.induct)
  case (2 E ch F upper node index stack)
  then show ?case
    by (cases i; cases stack) auto
qed simp

lemma walk_found:
  assumes ok: "search_ok E successors state path ((node, index) # stack)"
    and child: "child \<in> E `` {node}" "child \<in> set path"
  shows "closed_walk E (path_from child path @ [child])"
proof -
  let ?w = "dropWhile (\<lambda>x. x \<noteq> child) path"
  have path: "path = rev (map fst ((node, index) # stack))" using ok by (simp add: search_ok_def)
  have w: "?w \<noteq> []" "hd ?w = child" "last ?w = node"
  proof -
    show ne: "?w \<noteq> []" using child(2) by (auto simp: dropWhile_eq_Nil_conv)
    then show "hd ?w = child" using hd_dropWhile by blast
    have "last path = last (takeWhile (\<lambda>x. x \<noteq> child) path @ ?w)" by simp
    also have "\<dots> = last ?w" using ne by (rule last_appendR)
    finally show "last ?w = node" using path by simp
  qed
  obtain k where k: "?w = drop k path" using dropWhile_eq_drop by blast
  have step: "(path ! j, path ! Suc j) \<in> E" if "Suc j < length path" for j
  proof -
    let ?s = "(node, index) # stack"
    have "path ! j = fst (?s ! (length ?s - Suc j))" "path ! Suc j = fst (?s ! (length ?s - Suc (Suc j)))"
      using that unfolding path by (simp_all add: rev_nth del: list.map)
    moreover have "length ?s - Suc j = Suc (length ?s - Suc (Suc j))" using that path by simp
    moreover have "Suc (length ?s - Suc (Suc j)) < length ?s" using that path by simp
    ultimately show ?thesis
      using frames_path [of E "adjacent successors" "finished state" "{}" ?s "length ?s - Suc (Suc j)"] ok
      by (simp add: search_ok_def del: list.map)
  qed
  have "((?w @ [child]) ! i, (?w @ [child]) ! Suc i) \<in> E" if "Suc i < length (?w @ [child])" for i
  proof (cases "Suc i < length ?w")
    case True
    then have "Suc (k + i) < length path" unfolding k by simp
    with step [of "k + i"] True show ?thesis unfolding k by (simp add: nth_append)
  next
    case False
    with that have "i = length ?w - 1" "Suc i = length ?w" using w(1) by auto
    then have "(?w @ [child]) ! i = node" "(?w @ [child]) ! Suc i = child"
      using w by (simp_all add: nth_append last_conv_nth)
    with child(1) show ?thesis by simp
  qed
  moreover have "2 \<le> length (?w @ [child])" "hd (?w @ [child]) = last (?w @ [child])" using w by (cases ?w; simp)+
  ultimately show ?thesis using child(2) by (simp add: closed_walk_def path_from_def)
qed

lemma finished_update: "finished (AList.update a v state) = (if v = Finished then insert a (finished state) else finished state - {a})"
  by (auto simp: finished_def update_conv')

lemma visiting_update:
  "{b. map_of (AList.update a v state) b = Some Visiting} =
     (if v = Visiting then insert a {b. map_of state b = Some Visiting} else {b. map_of state b = Some Visiting} - {a})"
  by (auto simp: update_conv')

lemma search_visiting: "search_ok E successors state path stack \<Longrightarrow> map_of state a = Some Visiting \<longleftrightarrow> a \<in> set path"
  unfolding search_ok_def by (metis (mono_tags) mem_Collect_eq)

lemma search_top: "search_ok E successors state path ((node, index) # stack) \<Longrightarrow> node \<in> set path"
  by (simp add: search_ok_def)

lemma search_pop:
  assumes "search_ok E successors state path ((node, index) # stack)" "length (adjacent successors node) \<le> index"
    and "\<forall>a. set (adjacent successors a) = E `` {a}"
  shows "search_ok E successors (AList.update node Finished state) (butlast path) stack"
proof -
  have "node \<notin> finished state"
    using search_visiting [OF assms(1), of node] search_top [OF assms(1)] by (auto simp: finished_def)
  moreover have "E `` {node} \<subseteq> finished state" using assms by (simp add: search_ok_def)
  ultimately have "settled_stages E (insert node (finished state))"
    using assms(1) by (intro settled_insert) (auto simp: search_ok_def)
  moreover have "frames_ok E (adjacent successors) (insert node (finished state)) {} stack"
    using assms(1) by (intro frames_pop) (simp add: search_ok_def)
  ultimately show ?thesis
    using assms(1) by (auto simp: search_ok_def finished_update visiting_update dest: image_eqI [of _ fst, OF fst_conv [symmetric]])
qed

lemma search_push:
  assumes "search_ok E successors state path ((node, index) # stack)" "index < length (adjacent successors node)"
    and "map_of state (adjacent successors node ! index) = None" "\<forall>a. set (adjacent successors a) = E `` {a}"
  shows "search_ok E successors (AList.update (adjacent successors node ! index) Visiting state)
    (path @ [adjacent successors node ! index]) ((adjacent successors node ! index, 0) # (node, Suc index) # stack)"
proof -
  let ?child = "adjacent successors node ! index"
  have "?child \<in> E `` {node}" using assms(2,4) nth_mem by blast
  moreover have "?child \<notin> finished state" "?child \<notin> set path"
    using search_visiting [OF assms(1), of ?child] assms(3) by (auto simp: finished_def)
  moreover have "set (take (Suc index) (adjacent successors node)) = insert ?child (set (take index (adjacent successors node)))"
    using assms(2) by (simp add: take_Suc_conv_app_nth)
  ultimately show ?thesis
    using assms(1) by (auto simp: search_ok_def finished_update visiting_update dest: image_eqI [of _ fst, OF fst_conv [symmetric]])
qed

lemma search_skip:
  assumes "search_ok E successors state path ((node, index) # stack)" "index < length (adjacent successors node)"
    and "map_of state (adjacent successors node ! index) = Some Finished"
  shows "search_ok E successors state path ((node, Suc index) # stack)"
  using assms by (auto simp: search_ok_def finished_def take_Suc_conv_app_nth dest: image_eqI [of _ fst, OF fst_conv [symmetric]])

lemma cycle_loop_correct:
  assumes "\<forall>a. set (adjacent successors a) = E `` {a}" "search_ok E successors state path stack"
  shows "case cycle_loop successors state path stack of
      Inl walk \<Rightarrow> closed_walk E walk
    | Inr (state', path') \<Rightarrow> path' = [] \<and> search_ok E successors state' [] [] \<and> finished state \<union> fst ` set stack \<subseteq> finished state'"
  using assms
proof (induction successors state path stack rule: cycle_loop.induct)
  case (1 successors state path)
  then show ?case using search_visiting [OF "1.prems"(2)] by (auto simp: search_ok_def)
next
  case (2 successors state path node index stack)
  let ?ch = "adjacent successors node"
  note ok = "2.prems"(2)
  show ?case
  proof (cases "length ?ch \<le> index")
    case True
    show ?thesis
      using "2.IH"(1) [OF refl True "2.prems"(1) search_pop [OF ok True "2.prems"(1)]] True
      by (auto simp: finished_update split: sum.splits)
  next
    case False
    let ?child = "?ch ! index"
    have less: "index < length ?ch" using False by simp
    consider (visiting) "map_of state ?child = Some Visiting" | (finished) "map_of state ?child = Some Finished"
      | (fresh) "map_of state ?child = None" by (cases "map_of state ?child") (auto intro: visit_state.exhaust)
    then show ?thesis
    proof cases
      case visiting
      have "?child \<in> set path" using search_visiting [OF ok] visiting by simp
      moreover have "?child \<in> E `` {node}" using "2.prems"(1) less nth_mem by blast
      ultimately show ?thesis using walk_found [OF ok] False visiting by (simp add: Let_def)
    next
      case finished
      show ?thesis
        using "2.IH"(3) [OF refl False refl finished refl "2.prems"(1) search_skip [OF ok less finished]] False finished
        by (auto simp: Let_def split: sum.splits)
    next
      case fresh
      have "?child \<notin> finished state" using fresh by (simp add: finished_def)
      then show ?thesis
        using "2.IH"(2) [OF refl False refl fresh "2.prems"(1) search_push [OF ok less fresh "2.prems"(1)]] False fresh
        by (auto simp: Let_def finished_update split: sum.splits)
    qed
  qed
qed

lemma search_start:
  assumes "search_ok E successors state [] []" "map_of state start \<noteq> Some Finished"
  shows "search_ok E successors (AList.update start Visiting state) [start] [(start, 0)]"
  using assms by (auto simp: search_ok_def finished_update visiting_update) (simp add: finished_def)

lemma cycle_roots_correct:
  assumes "\<forall>a. set (adjacent successors a) = E `` {a}" "search_ok E successors state [] []"
  shows "case cycle_roots successors state [] roots of
      Some walk \<Rightarrow> closed_walk E walk
    | None \<Rightarrow> \<exists>F. settled_stages E F \<and> finished state \<union> set roots \<subseteq> F"
  using assms(2)
proof (induction roots arbitrary: state)
  case Nil
  then show ?case by (auto simp: search_ok_def)
next
  case (Cons start roots)
  show ?case
  proof (cases "map_of state start = Some Finished")
    case True
    then have "start \<in> finished state" by (simp add: finished_def)
    with True Cons.IH [OF Cons.prems] show ?thesis by (auto split: option.splits)
  next
    case False
    note run = cycle_loop_correct [OF assms(1) search_start [OF Cons.prems False]]
    have keep: "finished state \<subseteq> finished (AList.update start Visiting state)"
      using False by (auto simp: finished_update) (simp add: finished_def)
    show ?thesis
    proof (cases "cycle_loop successors (AList.update start Visiting state) [start] [(start, 0)]")
      case (Inl walk)
      with run False show ?thesis by simp
    next
      case (Inr r)
      obtain state' path' where r: "r = (state', path')" by (cases r)
      from run Inr r have *: "path' = []" "search_ok E successors state' [] []" "start \<in> finished state'"
        "finished (AList.update start Visiting state) \<subseteq> finished state'" by auto
      show ?thesis using Cons.IH [OF *(2)] False Inr r *(1,3,4) keep by (auto split: option.splits)
    qed
  qed
qed

section \<open>Walks over a neighbour map\<close>

text \<open>What the three walks need of the map they run on, and what they compute then.\<close>

locale adjacency =
  fixes neighbours :: "(string, string list) jsmap" and E :: "(string \<times> string) set"
  assumes neighbours_of: "set (adjacent neighbours a) = E `` {a}"
begin

lemma reached_from: "set (reach_loop neighbours start start) = E\<^sup>* `` set start"
  by (rule reach_loop_set) (auto simp: neighbours_of)

lemma collected_from: "set (ancestor_loop neighbours [] start) = E\<^sup>* `` set start"
  using ancestor_loop_set [of neighbours E "[]"] by (simp add: neighbours_of)

lemma searched_from:
  "case cycle_roots neighbours [] [] roots of
     Some walk \<Rightarrow> closed_walk E walk | None \<Rightarrow> \<exists>F. settled_stages E F \<and> set roots \<subseteq> F"
proof -
  have "search_ok E neighbours [] [] []" by (simp add: search_ok_def settled_stages_def finished_def)
  from cycle_roots_correct [OF _ this, of roots] show ?thesis by (auto simp: neighbours_of split: option.splits)
qed

end

interpretation successors: adjacency "buildSuccessors graph" "link_rel graph" for graph
  by unfold_locales (rule set_successors)

interpretation predecessors: adjacency "buildPredecessors graph" "pred_rel graph" for graph
  by unfold_locales (rule set_predecessors)

lemma computeAncestors_of:
  assumes "resolved graph" "node \<in> stage_id_set graph"
  shows "set (adjacent (computeAncestors graph) node) = {a. (a, node) \<in> (link_rel graph)\<^sup>+}"
proof -
  let ?f = "\<lambda>i. ancestor_loop (buildPredecessors graph) [] (adjacent (buildPredecessors graph) i)"
  have "map_of (fold (\<lambda>stage. AList.update (gs_id stage) (?f (gs_id stage))) stages m) node =
      (if node \<in> gs_id ` set stages then Some (?f node) else map_of m node)"
    for stages :: "graph_stage list" and m :: "(string, string list) jsmap"
    by (induction stages arbitrary: m) (auto simp: update_conv')
  then have "adjacent (computeAncestors graph) node = ?f node"
    using assms(2) by (simp add: adjacent_def computeAncestors_def stage_id_set_def)
  moreover have "set (?f node) = ((link_rel graph)\<inverse>)\<^sup>* `` ((link_rel graph)\<inverse> `` {node})"
    by (simp add: predecessors.collected_from set_predecessors resolved_pred [OF assms(1)])
  moreover have "\<dots> = {a. (a, node) \<in> (link_rel graph)\<^sup>+}"
    by (auto simp: rtrancl_converse trancl_unfold_right relcomp_unfold)
  ultimately show ?thesis by simp
qed

lemma closed_walk_cycle:
  assumes "closed_walk E walk"
  shows "(hd walk, hd walk) \<in> E\<^sup>+"
proof -
  have "(walk ! 0, walk ! Suc i) \<in> E\<^sup>+" if "Suc i < length walk" for i
    using that
  proof (induction i)
    case 0
    with assms show ?case by (auto simp: closed_walk_def)
  next
    case (Suc i)
    then have "(walk ! Suc i, walk ! Suc (Suc i)) \<in> E" using assms by (auto simp: closed_walk_def)
    with Suc show ?case by (auto intro: trancl_into_trancl)
  qed
  moreover have "walk \<noteq> []" "Suc (length walk - 2) = length walk - 1" "Suc (length walk - 2) < length walk" "last walk = hd walk"
    using assms by (auto simp: closed_walk_def)
  then have "Suc (length walk - 2) < length walk" "walk ! 0 = hd walk" "walk ! Suc (length walk - 2) = hd walk"
    using hd_conv_nth [of walk] last_conv_nth [of walk] by simp_all
  ultimately show ?thesis by metis
qed

lemma findCycle_correct:
  "case findCycle graph of None \<Rightarrow> acyclic (link_rel graph) | Some walk \<Rightarrow> closed_walk (link_rel graph) walk"
proof -
  from successors.searched_from [of graph "map gs_id (fg_stages graph)"]
  have search: "case findCycle graph of
      Some walk \<Rightarrow> closed_walk (link_rel graph) walk
    | None \<Rightarrow> \<exists>F. settled_stages (link_rel graph) F \<and> stage_id_set graph \<subseteq> F"
    unfolding findCycle_def stage_id_set_def by (auto split: option.splits)
  have "acyclic (link_rel graph)" if "settled_stages (link_rel graph) F" "stage_id_set graph \<subseteq> F" for F
  proof -
    have "a \<in> F" if "(a, a) \<in> (link_rel graph)\<^sup>+" for a
      using tranclD [OF that] \<open>stage_id_set graph \<subseteq> F\<close> by (auto simp: link_rel_def)
    with that(1) show ?thesis by (auto simp: acyclic_def settled_stages_def)
  qed
  with search show ?thesis by (auto split: option.splits)
qed

lemma findCycle_None: "findCycle graph = None \<longleftrightarrow> acyclic (link_rel graph)"
  using findCycle_correct [of graph] closed_walk_cycle by (fastforce simp: acyclic_def split: option.splits)

section \<open>Reachability of an acyclic graph\<close>

lemma finite_link_rel: "finite (link_rel graph)"
proof -
  have "link_rel graph \<subseteq> (\<lambda>e. (ed_from e, ed_to e)) ` set (fg_edges graph)" by (auto simp: link_rel_def)
  then show ?thesis by (rule finite_subset) simp
qed

text \<open>Going back along edges from any stage ends at one without incoming edge.\<close>

lemma entry_above:
  assumes "resolved graph" "acyclic (link_rel graph)" "node \<in> stage_id_set graph"
  shows "\<exists>entry \<in> stage_id_set graph. entry \<notin> ed_to ` set (fg_edges graph) \<and> (entry, node) \<in> (link_rel graph)\<^sup>*"
proof -
  have "wf (link_rel graph)" using finite_link_rel assms(2) by (rule finite_acyclic_wf)
  then show ?thesis using assms(3)
  proof (induction node rule: wf_induct_rule)
    case (less node)
    show ?case
    proof (cases "node \<in> ed_to ` set (fg_edges graph)")
      case True
      then obtain e where "e \<in> set (fg_edges graph)" "ed_to e = node" by auto
      then have e: "(ed_from e, node) \<in> link_rel graph" "ed_from e \<in> stage_id_set graph"
        using assms(1) by (auto simp: link_rel_def resolved_def)
      from less.IH [OF e] e(1) show ?thesis by (meson rtrancl.rtrancl_into_rtrancl)
    qed (use less.prems in auto)
  qed
qed

end
