(* ===== verification/Pipeline_Validity.thy ===== *)
theory Pipeline_Validity
  imports Pipeline_Walks
begin

text \<open>
  The rules of \<open>Pipeline_Graph\<close> decide a declarative notion of a valid graph: one lemma per rule says when it
  reports nothing, and together they give the equivalence of \<open>validatePipelineGraph\<close> with \<open>valid_graph\<close>.
\<close>

section \<open>Valid graphs\<close>

definition stage_profiles :: "graph_stage \<Rightarrow> string set" where
  "stage_profiles stage = set_option (gs_profile stage) \<union> set_option (Option.bind (gs_onValidationFailure stage) vp_delegateTo)
     \<union> {profile. R_verdict profile \<in> set (listed (gs_completion stage))}"

definition valid_stage :: "string list option \<Rightarrow> graph_stage \<Rightarrow> bool" where
  "valid_stage known stage \<longleftrightarrow>
     (gs_type stage \<in> {T_agent, T_verify} \<longrightarrow> gs_profile stage \<noteq> None) \<and>
     (gs_type stage \<in> {T_command, T_approval} \<longrightarrow> gs_profile stage = None) \<and>
     (gs_type stage = T_command \<longleftrightarrow> gs_command stage \<noteq> None) \<and>
     (\<forall>ids. known = Some ids \<longrightarrow> stage_profiles stage \<subseteq> set ids) \<and>
     (\<forall>policy. gs_onValidationFailure stage = Some policy \<longrightarrow> (vp_strategy policy = V_delegate \<longleftrightarrow> vp_delegateTo policy \<noteq> None))"

text \<open>A stage's own limit is at most the pipeline's; its repairs after a failed validation stay within the limit that holds for it.\<close>

definition within_limits :: "full_graph \<Rightarrow> graph_stage \<Rightarrow> bool" where
  "within_limits graph stage \<longleftrightarrow>
     (\<forall>limits. gs_limits stage = Some limits \<longrightarrow>
        (\<forall>n m. sl_maxRepairAttempts limits = Some n \<longrightarrow> fg_maxRepairAttempts graph = Some m \<longrightarrow> n \<le> m) \<and>
        (\<forall>d e. sl_maxDurationMs limits = Some d \<longrightarrow> fg_maxPipelineDurationMs graph = Some e \<longrightarrow> \<not> num_less e d)) \<and>
     (\<forall>policy n. gs_onValidationFailure stage = Some policy \<longrightarrow> vp_maxAttempts policy = Some n \<longrightarrow>
        (\<forall>limits m. gs_limits stage = Some limits \<longrightarrow> sl_maxRepairAttempts limits = Some m \<longrightarrow> n \<le> m) \<and>
        (\<forall>m. (\<forall>limits. gs_limits stage = Some limits \<longrightarrow> sl_maxRepairAttempts limits = None) \<longrightarrow>
           fg_maxRepairAttempts graph = Some m \<longrightarrow> n \<le> m))"

definition thresholds_ordered :: "full_graph \<Rightarrow> bool" where
  "thresholds_ordered graph \<longleftrightarrow> (\<forall>soft hard. fg_handoffSoftThreshold graph = Some soft \<longrightarrow>
     fg_handoffHardThreshold graph = Some hard \<longrightarrow> \<not> num_less hard soft)"

definition evaluators_known :: "string list option \<Rightarrow> full_graph \<Rightarrow> bool" where
  "evaluators_known known graph \<longleftrightarrow> (\<forall>ids e profile question. known = Some ids \<longrightarrow> e \<in> set (fg_edges graph) \<longrightarrow>
     ed_condition e = Some (Cond_evaluator profile question) \<longrightarrow> profile \<in> set ids)"

definition before :: "full_graph \<Rightarrow> graph_stage \<Rightarrow> graph_stage \<Rightarrow> bool" where
  "before graph s t \<longleftrightarrow> (gs_id s, gs_id t) \<in> (link_rel graph)\<^sup>+"

text \<open>
  A reference is a dotted name whose first segment is its namespace. A written reference covers a read one when it is the
  whole of it or all of it up to a dot, and has at least two segments.
\<close>

definition in_namespace :: "string \<Rightarrow> string \<Rightarrow> bool" where
  "in_namespace n reference \<longleftrightarrow> reference = n \<or> (\<exists>rest. reference = n @ CHR ''.'' # rest)"

definition writable :: "string \<Rightarrow> bool" where
  "writable reference \<longleftrightarrow> in_namespace ''artifacts'' reference \<or> in_namespace ''decisions'' reference"

definition covers :: "string \<Rightarrow> string \<Rightarrow> bool" where
  "covers written reference \<longleftrightarrow> CHR ''.'' \<in> set written \<and> in_namespace written reference"

text \<open>Every read outside the task comes from an earlier stage that writes a reference that covers it.\<close>

definition reads_produced :: "full_graph \<Rightarrow> bool" where
  "reads_produced graph \<longleftrightarrow> (\<forall>s \<in> set (fg_stages graph). \<forall>reference \<in> set (gs_reads s).
     in_namespace ''task'' reference \<or>
     writable reference \<and> (\<exists>w \<in> set (fg_stages graph). before graph w s \<and> (\<exists>written \<in> set (gs_writes w). covers written reference)))"

definition writes_ordered :: "full_graph \<Rightarrow> bool" where
  "writes_ordered graph \<longleftrightarrow> (\<forall>s \<in> set (fg_stages graph). distinct (gs_writes s)) \<and>
     (\<forall>s \<in> set (fg_stages graph). \<forall>reference \<in> set (gs_writes s). writable reference \<and>
     (\<forall>t \<in> set (fg_stages graph). reference \<in> set (gs_writes t) \<longrightarrow> gs_id s \<noteq> gs_id t \<longrightarrow> before graph s t \<or> before graph t s))"

definition valid_graph :: "string list option \<Rightarrow> full_graph \<Rightarrow> bool" where
  "valid_graph known graph \<longleftrightarrow>
     fg_stages graph \<noteq> [] \<and> distinct (map gs_id (fg_stages graph)) \<and>
     (\<forall>s \<in> set (fg_stages graph). valid_stage known s \<and> within_limits graph s) \<and>
     thresholds_ordered graph \<and> resolved graph \<and> distinct (map (\<lambda>e. (ed_from e, ed_to e)) (fg_edges graph)) \<and>
     evaluators_known known graph \<and> acyclic (link_rel graph) \<and> reads_produced graph \<and> writes_ordered graph"

section \<open>Dotted names\<close>

lemma namespace_of: "CHR ''.'' \<notin> set n \<Longrightarrow> namespaceOf reference = n \<longleftrightarrow> in_namespace n reference"
proof (induction reference arbitrary: n)
  case Nil
  then show ?case by (cases n) (auto simp: namespaceOf_def in_namespace_def)
next
  case (Cons c reference)
  then show ?case by (cases n) (auto simp: namespaceOf_def in_namespace_def)
qed

lemma writable_namespace: "namespaceOf reference \<in> set WRITABLE_NAMESPACES \<longleftrightarrow> writable reference"
  by (simp add: WRITABLE_NAMESPACES_def writable_def namespace_of)

lemma split_dots_not_Nil [simp]: "split_dots a \<noteq> []"
  by (induction a) (auto split: list.splits)

lemma split_dots_append: "split_dots (a @ CHR ''.'' # b) = split_dots a @ split_dots b"
proof (induction a)
  case (Cons c a)
  then show ?case by (cases "split_dots a") (simp_all split: list.splits)
qed simp

lemma join_cons: "xs \<noteq> [] \<Longrightarrow> join_with sep (x # xs) = x @ sep @ join_with sep xs"
  by (cases xs) auto

lemma join_append: "xs \<noteq> [] \<Longrightarrow> ys \<noteq> [] \<Longrightarrow> join_with sep (xs @ ys) = join_with sep xs @ sep @ join_with sep ys"
proof (induction xs)
  case (Cons x xs)
  then show ?case by (cases "xs = []") (simp_all add: join_cons)
qed simp

lemma join_head: "join_with sep ((c # x) # xs) = c # join_with sep (x # xs)"
  by (cases xs) auto

lemma join_split_dots: "join_with ''.'' (split_dots a) = a"
proof (induction a)
  case (Cons c a)
  then show ?case by (cases "split_dots a") (auto simp: join_cons join_head)
qed simp

lemma dots_segments: "CHR ''.'' \<in> set a \<longleftrightarrow> 2 \<le> length (split_dots a)"
proof (induction a)
  case (Cons c a)
  then show ?case by (cases "split_dots a") (auto simp: Suc_le_eq)
qed simp

lemma prefixes_cover: "written \<in> set (prefixesOf reference) \<longleftrightarrow> covers written reference"
proof
  assume "written \<in> set (prefixesOf reference)"
  then obtain n where n: "2 \<le> n" "n \<le> length (split_dots reference)" "written = join_with ''.'' (take n (split_dots reference))"
    by (auto simp: prefixesOf_def Let_def)
  let ?a = "take n (split_dots reference)" and ?b = "drop n (split_dots reference)"
  have "length ?a = n" using n(2) by simp
  with n(1) obtain x y ys where a: "?a = x # y # ys" by (cases ?a; cases "tl ?a") auto
  then have "CHR ''.'' \<in> set written" by (simp add: n(3))
  moreover have "in_namespace written reference"
  proof (cases "?b = []")
    case True
    then show ?thesis using n(3) join_split_dots [of reference] by (simp add: in_namespace_def)
  next
    case False
    then have "join_with ''.'' (?a @ ?b) = written @ ''.'' @ join_with ''.'' ?b" using a n(3) by (subst join_append) auto
    then show ?thesis using join_split_dots [of reference] by (auto simp: in_namespace_def)
  qed
  ultimately show "covers written reference" by (simp add: covers_def)
next
  assume "covers written reference"
  then have dot: "2 \<le> length (split_dots written)" and "in_namespace written reference" by (simp_all add: covers_def dots_segments)
  then obtain more where "split_dots reference = split_dots written @ more"
    by (auto simp: in_namespace_def split_dots_append)
  then have "take (length (split_dots written)) (split_dots reference) = split_dots written"
    "length (split_dots written) \<le> length (split_dots reference)" by simp_all
  with dot show "written \<in> set (prefixesOf reference)"
    using join_split_dots [of written] unfolding prefixesOf_def Let_def set_map set_rev set_upt
    by (intro image_eqI [of _ _ "length (split_dots written)"]) simp_all
qed

section \<open>Lists with their indices, and buckets\<close>

lemma map_snd_indexed [simp]: "map snd (indexed xs) = xs"
  by (simp add: indexed_def)

lemma concat_silent: "concat (map f xs) = [] \<longleftrightarrow> (\<forall>x \<in> set xs. f x = [])"
  by (induction xs) auto

lemma all_indexed: "(\<forall>p \<in> set (indexed xs). P (snd p)) \<longleftrightarrow> (\<forall>x \<in> set xs. P x)"
proof -
  have "set xs = snd ` set (indexed xs)" by (metis map_snd_indexed set_map)
  then show ?thesis by simp
qed

lemma distinct_buckets: "distinct (map k xs) \<longleftrightarrow> (\<forall>key. length (filter (\<lambda>x. k x = key) xs) \<le> 1)"
proof (induction xs)
  case (Cons x xs)
  have "filter (\<lambda>y. k y = k x) xs = [] \<longleftrightarrow> k x \<notin> k ` set xs"
    unfolding filter_empty_conv image_iff by metis
  with Cons show ?case by (auto split: if_splits)
qed simp

lemma push_bucket_of:
  "map_of (fold (\<lambda>x. push_bucket (k x) (v x)) xs m) key =
     (if map_of m key = None \<and> key \<notin> k ` set xs then None
      else Some ((case map_of m key of None \<Rightarrow> [] | Some b \<Rightarrow> b) @ map v (filter (\<lambda>x. k x = key) xs)))"
  by (induction xs arbitrary: m) (auto simp: push_bucket_def update_conv' split: option.splits)

lemma push_bucket_distinct: "distinct (map fst m) \<Longrightarrow> distinct (map fst (fold (\<lambda>x. push_bucket (k x) (v x)) xs m))"
  by (induction xs arbitrary: m) (auto simp: push_bucket_def distinct_update)

lemma all_entries: "distinct (map fst m) \<Longrightarrow> (\<forall>p \<in> set m. P (fst p) (snd p)) \<longleftrightarrow> (\<forall>key v. map_of m key = Some v \<longrightarrow> P key v)"
  by (auto dest: map_of_SomeD intro: map_of_is_SomeI)

text \<open>The buckets of a list: every bucket satisfies \<open>P\<close> exactly when the entries with each key do.\<close>

lemma all_buckets:
  assumes "\<And>key. P key []"
  shows "(\<forall>p \<in> set (fold (\<lambda>x. push_bucket (k x) (v x)) xs []). P (fst p) (snd p)) \<longleftrightarrow>
     (\<forall>key. P key (map v (filter (\<lambda>x. k x = key) xs)))"
proof -
  have "P key (map v (filter (\<lambda>x. k x = key) xs))" if "key \<notin> k ` set xs" for key
  proof -
    have "filter (\<lambda>x. k x = key) xs = []" using that by (auto simp: filter_empty_conv)
    then show ?thesis by (simp add: assms)
  qed
  then show ?thesis by (auto simp: all_entries push_bucket_distinct push_bucket_of)
qed

section \<open>When each rule reports nothing\<close>

lemma stage_ids_silent: "validateStageIds normalized = [] \<longleftrightarrow> distinct (map gs_id (fg_stages (np_graph normalized)))"
proof -
  let ?count = "\<lambda>stage counts. AList.update (gs_id stage) ((case map_of counts (gs_id stage) of None \<Rightarrow> 0 | Some n \<Rightarrow> n) + (1::nat)) counts"
  have counts: "map_of (fold ?count stages m) key =
      (if map_of m key = None \<and> key \<notin> gs_id ` set stages then None
       else Some ((case map_of m key of None \<Rightarrow> 0 | Some n \<Rightarrow> n) + length (filter (\<lambda>s. gs_id s = key) stages)))"
    for stages :: "graph_stage list" and m key
    by (induction stages arbitrary: m) (auto simp: update_conv' split: option.splits)
  have dist: "distinct (map fst m) \<Longrightarrow> distinct (map fst (fold ?count stages m))" for stages :: "graph_stage list" and m
    by (induction stages arbitrary: m) (auto simp: distinct_update)
  let ?stages = "fg_stages (np_graph normalized)"
  have "validateStageIds normalized = [] \<longleftrightarrow> (\<forall>p \<in> set (fold ?count ?stages []). \<not> 1 < snd p)"
    unfolding validateStageIds_def Let_def concat_silent by (auto simp: case_prod_beta')
  also have "\<dots> \<longleftrightarrow> (\<forall>key. length (filter (\<lambda>s. gs_id s = key) ?stages) \<le> 1)"
  proof -
    have "length (filter (\<lambda>s. gs_id s = key) ?stages) = 0" if "key \<notin> gs_id ` set ?stages" for key
      using that by (auto simp: filter_empty_conv)
    moreover have "(\<forall>p \<in> set (fold ?count ?stages []). \<not> 1 < snd p) \<longleftrightarrow> (\<forall>key n. map_of (fold ?count ?stages []) key = Some n \<longrightarrow> \<not> 1 < n)"
      by (rule all_entries [where P = "\<lambda>key n. \<not> 1 < n"], rule dist) simp
    moreover have "(\<forall>n. map_of (fold ?count ?stages []) key = Some n \<longrightarrow> \<not> 1 < n) \<longleftrightarrow> length (filter (\<lambda>s. gs_id s = key) ?stages) \<le> 1" for key
      using calculation(1) [of key] unfolding counts by (cases "key \<in> gs_id ` set ?stages") auto
    ultimately show ?thesis by (simp only:)
  qed
  finally show ?thesis by (simp add: distinct_buckets)
qed

lemma verdict_references:
  "fst ` set (concat (map (\<lambda>(index, requirement). case requirement of R_verdict profile \<Rightarrow> [(profile, place index)] | _ \<Rightarrow> []) (indexed requirements)))
     = {profile. R_verdict profile \<in> set requirements}"
proof (rule set_eqI)
  fix profile
  have "profile \<in> fst ` set (concat (map (\<lambda>(index, requirement). case requirement of R_verdict profile \<Rightarrow> [(profile, place index)] | _ \<Rightarrow> []) (indexed requirements)))
      \<longleftrightarrow> \<not> (\<forall>p \<in> set (indexed requirements). snd p \<noteq> R_verdict profile)"
    by (force simp: case_prod_beta' image_iff split: completion_requirement.splits)
  also have "\<dots> \<longleftrightarrow> \<not> (\<forall>requirement \<in> set requirements. requirement \<noteq> R_verdict profile)"
    using all_indexed [of requirements "\<lambda>requirement. requirement \<noteq> R_verdict profile"] by simp
  finally show "profile \<in> fst ` set (concat (map (\<lambda>(index, requirement). case requirement of R_verdict profile \<Rightarrow> [(profile, place index)] | _ \<Rightarrow> []) (indexed requirements)))
      \<longleftrightarrow> profile \<in> {profile. R_verdict profile \<in> set requirements}" by auto
qed

lemma profiles_silent:
  "validateStageProfiles stage pointer known = [] \<longleftrightarrow> (\<forall>ids. known = Some ids \<longrightarrow> stage_profiles stage \<subseteq> set ids)"
proof (cases known)
  case (Some ids)
  have check: "concat (map (\<lambda>(profile, place). if profile \<in> set ids then [] else report (P_profile_not_declared profile) place) references) = []
      \<longleftrightarrow> fst ` set references \<subseteq> set ids" for references
    unfolding concat_silent by (auto simp: case_prod_beta' image_subset_iff)
  show ?thesis
    unfolding validateStageProfiles_def stage_profiles_def Some Let_def option.case check set_append image_Un verdict_references
    by (cases "gs_profile stage"; cases "Option.bind (gs_onValidationFailure stage) vp_delegateTo") auto
qed (simp add: validateStageProfiles_def)

lemma policy_silent:
  "validateValidationFailurePolicy stage pointer = [] \<longleftrightarrow>
     (\<forall>policy. gs_onValidationFailure stage = Some policy \<longrightarrow> (vp_strategy policy = V_delegate \<longleftrightarrow> vp_delegateTo policy \<noteq> None))"
  by (auto simp: validateValidationFailurePolicy_def Let_def split: option.splits)

lemma shapes_silent: "validateStageShapes graph pointers known = [] \<longleftrightarrow> (\<forall>s \<in> set (fg_stages graph). valid_stage known s)"
proof -
  have "stage_shape known s pointer = [] \<longleftrightarrow> valid_stage known s" for s pointer
    unfolding stage_shape_def valid_stage_def append_is_Nil_conv profiles_silent policy_silent
      PROFILE_STAGE_TYPES_def PROFILE_FREE_STAGE_TYPES_def
    by auto
  then show ?thesis by (simp only: validateStageShapes_def concat_silent)
qed

lemma context_silent: "validateContext graph = [] \<longleftrightarrow> thresholds_ordered graph"
  by (auto simp: validateContext_def thresholds_ordered_def split: option.splits)

lemma limits_silent: "validateLimits graph pointers = [] \<longleftrightarrow> (\<forall>s \<in> set (fg_stages graph). within_limits graph s)"
proof -
  have "stage_limits_check graph s pointer = [] \<longleftrightarrow> within_limits graph s" for s pointer
    unfolding stage_limits_check_def within_limits_def Let_def append_is_Nil_conv exceeds_def exceeds_duration_def effective_repairs_def
    by (cases "gs_limits s"; cases "gs_onValidationFailure s") (auto simp: not_less split: option.splits)
  then show ?thesis by (simp only: validateLimits_def concat_silent)
qed

lemma endpoints_silent:
  "validateEdgeEndpoints graph pointers (map gs_id (fg_stages graph)) = [] \<longleftrightarrow>
     resolved graph \<and> (\<forall>e \<in> set (fg_edges graph). ed_from e \<noteq> ed_to e)"
proof -
  have "validateEdgeEndpoints graph pointers (map gs_id (fg_stages graph)) = [] \<longleftrightarrow>
      (\<forall>p \<in> set (indexed (fg_edges graph)). ed_from (snd p) \<in> stage_id_set graph \<and> ed_to (snd p) \<in> stage_id_set graph
         \<and> ed_from (snd p) \<noteq> ed_to (snd p))"
    unfolding validateEdgeEndpoints_def concat_silent by (simp add: edge_endpoints_def stage_id_set_def case_prod_beta') blast
  also have "\<dots> \<longleftrightarrow> (\<forall>e \<in> set (fg_edges graph). ed_from e \<in> stage_id_set graph \<and> ed_to e \<in> stage_id_set graph \<and> ed_from e \<noteq> ed_to e)"
    by (rule all_indexed)
  finally show ?thesis by (simp add: resolved_def) blast
qed

lemma duplicates_silent: "validateDuplicateEdges graph pointers = [] \<longleftrightarrow> distinct (map endpoints_key (fg_edges graph))"
proof -
  let ?buckets = "fold (\<lambda>p. push_bucket (endpoints_key (snd p)) (fst p)) (indexed (fg_edges graph)) []"
  have "validateDuplicateEdges graph pointers = [] \<longleftrightarrow> (\<forall>p \<in> set ?buckets. tl (snd p) = [])"
    unfolding validateDuplicateEdges_def Let_def concat_silent case_prod_beta' by (auto simp: concat_silent)
  also have "\<dots> \<longleftrightarrow> (\<forall>key. tl (map fst (filter (\<lambda>p. endpoints_key (snd p) = key) (indexed (fg_edges graph)))) = [])"
    by (rule all_buckets) simp
  also have "\<dots> \<longleftrightarrow> distinct (map (\<lambda>p. endpoints_key (snd p)) (indexed (fg_edges graph)))"
    unfolding distinct_buckets by (auto simp: length_0_conv [symmetric] simp del: length_0_conv)
  finally show ?thesis by (metis (no_types, lifting) map_map map_snd_indexed comp_apply map_eq_conv)
qed

lemma evaluators_silent: "validateConditionProfiles graph pointers known = [] \<longleftrightarrow> evaluators_known known graph"
proof (cases known)
  case (Some ids)
  have "validateConditionProfiles graph pointers known = [] \<longleftrightarrow>
      (\<forall>p \<in> set (indexed (fg_edges graph)). \<forall>profile question. ed_condition (snd p) = Some (Cond_evaluator profile question) \<longrightarrow> profile \<in> set ids)"
    unfolding validateConditionProfiles_def Some option.case concat_silent
    by (simp add: case_prod_beta' split: option.splits condition.splits) blast
  also have "\<dots> \<longleftrightarrow> evaluators_known known graph"
    by (subst all_indexed) (auto simp: evaluators_known_def Some)
  finally show ?thesis .
qed (simp add: validateConditionProfiles_def evaluators_known_def)

lemma acyclic_silent: "validateAcyclic graph pointers = [] \<longleftrightarrow> acyclic (link_rel graph)"
  by (auto simp: validateAcyclic_def findCycle_None [symmetric] split: option.splits)

lemma reachability_silent:
  assumes "resolved graph" "acyclic (link_rel graph)"
  shows "validateStageReachability graph pointers = [] \<longleftrightarrow> fg_stages graph \<noteq> []"
proof -
  let ?entries = "filter (\<lambda>stage. gs_id stage \<notin> ed_to ` set (fg_edges graph)) (fg_stages graph)"
  let ?start = "map gs_id ?entries"
  have "set (reach_loop (buildSuccessors graph) ?start ?start) = (link_rel graph)\<^sup>* `` set ?start"
    by (rule successors.reached_from)
  moreover have "\<exists>entry \<in> set ?start. (entry, gs_id s) \<in> (link_rel graph)\<^sup>*" if "s \<in> set (fg_stages graph)" for s
    using entry_above [OF assms, of "gs_id s"] that by (auto simp: stage_id_set_def)
  ultimately have reached: "gs_id s \<in> set (reach_loop (buildSuccessors graph) ?start ?start)" "?start \<noteq> []"
    if "s \<in> set (fg_stages graph)" for s
    using that by (metis ImageI, metis empty_iff list.set(1))
  show ?thesis
  proof (cases "fg_stages graph")
    case (Cons s stages)
    then have "?entries \<noteq> []" using reached(2) [of s] by (simp del: filter.simps)
    then have "validateStageReachability graph pointers = concat (map (\<lambda>stage.
        if gs_id stage \<in> set (reach_loop (buildSuccessors graph) ?start ?start) then []
        else report (P_unreachable_stage (gs_id stage)) (pointer_of pointers (gs_id stage))) (fg_stages graph))"
      unfolding validateStageReachability_def Let_def by (simp only: if_False)
    then show ?thesis using reached(1) Cons by (simp only: concat_silent) auto
  qed (simp add: validateStageReachability_def)
qed

section \<open>Reads and writes\<close>

definition allowed :: "string \<Rightarrow> bool" where
  "allowed reference \<longleftrightarrow> namespaceOf reference \<in> set WRITABLE_NAMESPACES"

lemma allowed_writable: "allowed = writable"
  by (auto simp: allowed_def writable_namespace)

lemma allowed_state: "allowed reference \<Longrightarrow> namespaceOf reference \<in> set STATE_NAMESPACES"
  by (auto simp: allowed_def WRITABLE_NAMESPACES_def STATE_NAMESPACES_def)

definition writer_pairs :: "graph_stage list \<Rightarrow> (string \<times> string) list" where
  "writer_pairs stages = concat (map (\<lambda>s. map (\<lambda>reference. (reference, gs_id s)) (filter allowed (gs_writes s))) stages)"

definition writers_of :: "full_graph \<Rightarrow> string \<Rightarrow> string list" where
  "writers_of graph reference = map snd (filter (\<lambda>p. fst p = reference) (writer_pairs (fg_stages graph)))"

lemma collect_producers_pairs:
  "collect_producers graph = fold (\<lambda>p. push_bucket (fst p) (snd p)) (writer_pairs (fg_stages graph)) []"
proof -
  have inner: "fold (add_producer node) writes m =
      fold (\<lambda>p. push_bucket (fst p) (snd p)) (map (\<lambda>reference. (reference, node)) (filter allowed writes)) m" for node writes m
    by (induction writes arbitrary: m) (auto simp: add_producer_def allowed_def [symmetric] allowed_state)
  have "fold (\<lambda>stage. fold (add_producer (gs_id stage)) (gs_writes stage)) stages m =
      fold (\<lambda>p. push_bucket (fst p) (snd p)) (writer_pairs stages) m" for stages m
    by (induction stages arbitrary: m) (auto simp: writer_pairs_def inner)
  then show ?thesis by (simp add: collect_producers_def)
qed

lemma adjacent_producers: "adjacent (collect_producers graph) reference = writers_of graph reference"
proof -
  have "filter (\<lambda>p. fst p = reference) (writer_pairs (fg_stages graph)) = []" if "reference \<notin> fst ` set (writer_pairs (fg_stages graph))"
    using that by (auto simp: filter_empty_conv)
  then show ?thesis
    by (auto simp: adjacent_def collect_producers_pairs push_bucket_of writers_of_def)
qed

lemma set_writers: "set (writers_of graph reference) = {gs_id s | s. s \<in> set (fg_stages graph) \<and> reference \<in> set (gs_writes s) \<and> allowed reference}"
  by (force simp: writers_of_def writer_pairs_def)

lemma distinct_replicate: "distinct (replicate n x) \<longleftrightarrow> n \<le> 1"
  by (cases n; cases "n - 1") auto

lemma distinct_writers:
  assumes "distinct (map gs_id (fg_stages graph))" "\<forall>s \<in> set (fg_stages graph). \<forall>reference \<in> set (gs_writes s). allowed reference"
  shows "(\<forall>reference. distinct (writers_of graph reference)) \<longleftrightarrow> (\<forall>s \<in> set (fg_stages graph). distinct (gs_writes s))"
proof -
  have "distinct (map snd (filter (\<lambda>p. fst p = reference) (writer_pairs stages))) \<longleftrightarrow>
      (\<forall>s \<in> set stages. length (filter (\<lambda>x. x = reference) (gs_writes s)) \<le> 1)"
    if "distinct (map gs_id stages)" "\<forall>s \<in> set stages. \<forall>reference \<in> set (gs_writes s). allowed reference" for stages reference
    using that
  proof (induction stages)
    case (Cons s stages)
    have all: "filter allowed (gs_writes s) = gs_writes s" using Cons.prems(2) by (simp add: filter_id_conv)
    have "map snd (filter (\<lambda>p. fst p = reference) (map (\<lambda>r. (r, gs_id s)) ws)) = replicate (length (filter (\<lambda>x. x = reference) ws)) (gs_id s)" for ws
      by (induction ws) auto
    moreover have "gs_id s \<notin> snd ` set (writer_pairs stages)" using Cons.prems(1) by (auto simp: writer_pairs_def)
    then have "distinct (replicate n (gs_id s) @ map snd (filter (\<lambda>p. fst p = reference) (writer_pairs stages))) \<longleftrightarrow>
        n \<le> 1 \<and> distinct (map snd (filter (\<lambda>p. fst p = reference) (writer_pairs stages)))" for n
      by (auto simp: set_replicate_conv_if distinct_replicate)
    moreover have "writer_pairs (s # stages) = map (\<lambda>r. (r, gs_id s)) (gs_writes s) @ writer_pairs stages"
      by (simp add: writer_pairs_def all)
    ultimately show ?case using Cons by simp
  qed (simp add: writer_pairs_def)
  from this [OF assms] show ?thesis
    unfolding writers_of_def using distinct_buckets [of "\<lambda>x. x", simplified] by (simp only: One_nat_def) blast
qed

lemma conflicts_silent:
  "writer_conflicts graph pointers ancestors reference writers = [] \<longleftrightarrow> sorted_wrt (ordered_writers ancestors) writers"
  by (induction writers) (auto simp: concat_silent simp del: concat_eq_Nil_conv)

lemma sorted_wrt_symmetric:
  assumes "\<And>a b. R a b \<longleftrightarrow> R b a" "\<And>a. a \<in> set xs \<Longrightarrow> \<not> R a a"
  shows "sorted_wrt R xs \<longleftrightarrow> distinct xs \<and> (\<forall>a \<in> set xs. \<forall>b \<in> set xs. a \<noteq> b \<longrightarrow> R a b)"
  using assms(2)
proof (induction xs)
  case (Cons x xs)
  then show ?case using assms(1) by auto
qed simp

lemma ordered_writers_iff:
  assumes "resolved graph" "a \<in> stage_id_set graph" "b \<in> stage_id_set graph"
  shows "ordered_writers (computeAncestors graph) a b \<longleftrightarrow> (a, b) \<in> (link_rel graph)\<^sup>+ \<or> (b, a) \<in> (link_rel graph)\<^sup>+"
  using assms by (simp add: ordered_writers_def computeAncestors_of)

lemma write_conflicts_silent:
  assumes graph: "resolved graph" "acyclic (link_rel graph)" "distinct (map gs_id (fg_stages graph))"
    and all: "\<forall>s \<in> set (fg_stages graph). \<forall>reference \<in> set (gs_writes s). allowed reference"
  shows "validateWriteConflicts graph pointers (computeAncestors graph) (collect_producers graph) = [] \<longleftrightarrow> writes_ordered graph"
proof -
  let ?R = "ordered_writers (computeAncestors graph)"
  have ids: "a \<in> stage_id_set graph" if "a \<in> set (writers_of graph reference)" for a reference
    using that by (auto simp: set_writers stage_id_set_def)
  have R: "sorted_wrt ?R (sort (writers_of graph reference)) \<longleftrightarrow> distinct (writers_of graph reference) \<and>
      (\<forall>a \<in> set (writers_of graph reference). \<forall>b \<in> set (writers_of graph reference). a \<noteq> b \<longrightarrow> ?R a b)" for reference
  proof -
    have "\<not> ?R a a" if "a \<in> set (sort (writers_of graph reference))" for a
      using that ids [of a reference] graph(2) by (simp add: ordered_writers_iff [OF graph(1)] acyclic_def)
    moreover have "?R a b \<longleftrightarrow> ?R b a" for a b by (auto simp: ordered_writers_def)
    ultimately have "sorted_wrt ?R (sort (writers_of graph reference)) \<longleftrightarrow> distinct (sort (writers_of graph reference)) \<and>
        (\<forall>a \<in> set (sort (writers_of graph reference)). \<forall>b \<in> set (sort (writers_of graph reference)). a \<noteq> b \<longrightarrow> ?R a b)"
      by (intro sorted_wrt_symmetric) blast+
    then show ?thesis by (simp only: distinct_sort set_sort)
  qed
  have "validateWriteConflicts graph pointers (computeAncestors graph) (collect_producers graph) = [] \<longleftrightarrow>
      (\<forall>p \<in> set (collect_producers graph). sorted_wrt ?R (sort (snd p)))"
    unfolding validateWriteConflicts_def concat_silent set_sort
    by (intro ball_cong refl) (auto simp: conflicts_silent case_prod_beta' intro: sorted_wrt01 split: if_splits)
  also have "\<dots> \<longleftrightarrow> (\<forall>reference. sorted_wrt ?R (sort (writers_of graph reference)))"
    unfolding collect_producers_pairs writers_of_def by (rule all_buckets) simp
  also have "\<dots> \<longleftrightarrow> (\<forall>s \<in> set (fg_stages graph). distinct (gs_writes s)) \<and>
      (\<forall>reference. \<forall>a \<in> set (writers_of graph reference). \<forall>b \<in> set (writers_of graph reference). a \<noteq> b \<longrightarrow> ?R a b)"
    unfolding R using distinct_writers [OF graph(3) all] by blast
  also have "\<dots> \<longleftrightarrow> writes_ordered graph"
  proof -
    have "(\<forall>reference. \<forall>a \<in> set (writers_of graph reference). \<forall>b \<in> set (writers_of graph reference). a \<noteq> b \<longrightarrow> ?R a b) \<longleftrightarrow>
        (\<forall>s \<in> set (fg_stages graph). \<forall>reference \<in> set (gs_writes s). \<forall>t \<in> set (fg_stages graph).
           reference \<in> set (gs_writes t) \<longrightarrow> gs_id s \<noteq> gs_id t \<longrightarrow> ?R (gs_id s) (gs_id t))"
      using all unfolding set_writers by blast
    also have "\<dots> \<longleftrightarrow> (\<forall>s \<in> set (fg_stages graph). \<forall>reference \<in> set (gs_writes s). \<forall>t \<in> set (fg_stages graph).
           reference \<in> set (gs_writes t) \<longrightarrow> gs_id s \<noteq> gs_id t \<longrightarrow> before graph s t \<or> before graph t s)"
      by (intro ball_cong refl imp_cong) (simp add: ordered_writers_iff [OF graph(1)] before_def stage_id_set_def)
    finally show ?thesis using all by (simp add: writes_ordered_def allowed_writable)
  qed
  finally show ?thesis .
qed

lemma check_read_silent:
  assumes "namespaceOf (snd p) \<in> set STATE_NAMESPACES"
  shows "check_read s pointer upstream producers p = [] \<longleftrightarrow> namespaceOf (snd p) = ''task'' \<or>
    (\<exists>producer \<in> set (concat (map (adjacent producers) (prefixesOf (snd p)))). producer \<in> set upstream)"
proof -
  define producedBy where "producedBy = concat (map (adjacent producers) (prefixesOf (snd p)))"
  show ?thesis
    using assms unfolding check_read_def Let_def case_prod_beta' producedBy_def [symmetric] by auto
qed

lemma reads_silent:
  assumes graph: "resolved graph"
    and all: "\<forall>s \<in> set (fg_stages graph). \<forall>reference \<in> set (gs_writes s). allowed reference"
    and known: "\<forall>s \<in> set (fg_stages graph). \<forall>reference \<in> set (gs_reads s). namespaceOf reference \<in> set STATE_NAMESPACES"
  shows "validateReadsAreProduced graph pointers (computeAncestors graph) (collect_producers graph) = [] \<longleftrightarrow> reads_produced graph"
proof -
  have one: "check_read s pointer (adjacent (computeAncestors graph) (gs_id s)) (collect_producers graph) p = [] \<longleftrightarrow>
      namespaceOf (snd p) = ''task'' \<or>
      namespaceOf (snd p) \<in> set WRITABLE_NAMESPACES \<and>
      (\<exists>w \<in> set (fg_stages graph). before graph w s \<and> (\<exists>written \<in> set (gs_writes w). written \<in> set (prefixesOf (snd p))))"
    if s: "s \<in> set (fg_stages graph)" and p: "namespaceOf (snd p) \<in> set STATE_NAMESPACES" for s pointer p
  proof -
    let ?by = "concat (map (adjacent (collect_producers graph)) (prefixesOf (snd p)))"
    have "gs_id s \<in> stage_id_set graph" using s by (simp add: stage_id_set_def)
    then have up: "set (adjacent (computeAncestors graph) (gs_id s)) = {a. (a, gs_id s) \<in> (link_rel graph)\<^sup>+}"
      by (rule computeAncestors_of [OF graph])
    have "(\<exists>producer \<in> set ?by. producer \<in> set (adjacent (computeAncestors graph) (gs_id s))) \<longleftrightarrow>
        (\<exists>w \<in> set (fg_stages graph). before graph w s \<and> (\<exists>written \<in> set (gs_writes w). written \<in> set (prefixesOf (snd p))))"
      using all unfolding up before_def by (simp add: adjacent_producers set_writers) blast
    moreover have "namespaceOf (snd p) = ''task'' \<or> namespaceOf (snd p) \<in> set WRITABLE_NAMESPACES"
      using p by (auto simp: STATE_NAMESPACES_def WRITABLE_NAMESPACES_def)
    moreover have "check_read s pointer (adjacent (computeAncestors graph) (gs_id s)) (collect_producers graph) p = [] \<longleftrightarrow>
        namespaceOf (snd p) = ''task'' \<or> (\<exists>producer \<in> set ?by. producer \<in> set (adjacent (computeAncestors graph) (gs_id s)))"
      using p by (rule check_read_silent)
    ultimately show ?thesis by blast
  qed
  have "validateReadsAreProduced graph pointers (computeAncestors graph) (collect_producers graph) = [] \<longleftrightarrow>
      (\<forall>s \<in> set (fg_stages graph). \<forall>p \<in> set (indexed (gs_reads s)).
         check_read s (pointer_of pointers (gs_id s)) (adjacent (computeAncestors graph) (gs_id s)) (collect_producers graph) p = [])"
    unfolding validateReadsAreProduced_def concat_silent ..
  also have "\<dots> \<longleftrightarrow> (\<forall>s \<in> set (fg_stages graph). \<forall>p \<in> set (indexed (gs_reads s)). namespaceOf (snd p) = ''task'' \<or>
      namespaceOf (snd p) \<in> set WRITABLE_NAMESPACES \<and>
      (\<exists>w \<in> set (fg_stages graph). before graph w s \<and> (\<exists>written \<in> set (gs_writes w). written \<in> set (prefixesOf (snd p)))))"
  proof (intro ball_cong refl one)
    fix s p assume "s \<in> set (fg_stages graph)" "p \<in> set (indexed (gs_reads s))"
    then show "namespaceOf (snd p) \<in> set STATE_NAMESPACES"
      using known all_indexed [of "gs_reads s" "\<lambda>r. namespaceOf r \<in> set STATE_NAMESPACES"] by blast
  qed
  also have "\<dots> \<longleftrightarrow> reads_produced graph"
    unfolding reads_produced_def namespace_of [of "''task''", simplified, symmetric] writable_namespace [symmetric] prefixes_cover [symmetric]
    by (intro ball_cong refl, rule all_indexed)
  finally show ?thesis .
qed

lemma state_flow_silent:
  assumes "resolved graph" "acyclic (link_rel graph)" "distinct (map gs_id (fg_stages graph))"
  shows "validateStateFlow graph pointers (computeAncestors graph) = [] \<longleftrightarrow> reads_produced graph \<and> writes_ordered graph"
proof -
  let ?reads = "\<forall>s \<in> set (fg_stages graph). \<forall>reference \<in> set (gs_reads s). namespaceOf reference \<in> set STATE_NAMESPACES"
  let ?writes = "\<forall>s \<in> set (fg_stages graph). \<forall>reference \<in> set (gs_writes s). allowed reference"
  have reading: "check_read_namespace pointer p = [] \<longleftrightarrow> namespaceOf (snd p) \<in> set STATE_NAMESPACES" for pointer p
    by (simp add: check_read_namespace_def case_prod_beta')
  have writing: "check_write_namespace pointer p = [] \<longleftrightarrow> allowed (snd p)" for pointer p
    using allowed_state [of "snd p"] by (auto simp: check_write_namespace_def Let_def case_prod_beta' allowed_def)
  have "validateStateFlow graph pointers (computeAncestors graph) = [] \<longleftrightarrow> (?reads \<and> ?writes) \<and>
      validateReadsAreProduced graph pointers (computeAncestors graph) (collect_producers graph) = [] \<and>
      validateWriteConflicts graph pointers (computeAncestors graph) (collect_producers graph) = []"
    unfolding validateStateFlow_def append_is_Nil_conv concat_silent reading writing
    using all_indexed [of _ allowed] all_indexed [of _ "\<lambda>r. namespaceOf r \<in> set STATE_NAMESPACES"] by (simp only: ball_conj_distrib)
  moreover have "reads_produced graph \<Longrightarrow> ?reads"
    unfolding reads_produced_def namespace_of [of "''task''", simplified, symmetric] writable_namespace [symmetric]
    by (auto simp: STATE_NAMESPACES_def WRITABLE_NAMESPACES_def)
  moreover have "writes_ordered graph \<Longrightarrow> ?writes" by (auto simp: writes_ordered_def allowed_writable)
  ultimately show ?thesis using reads_silent [OF assms(1)] write_conflicts_silent [OF assms] by blast
qed

lemma keys_apart: "distinct (map endpoints_key es) \<Longrightarrow> distinct (map (\<lambda>e. (ed_from e, ed_to e)) es)"
  by (induction es) (auto simp: endpoints_key_def)

text \<open>
  The duplicates are told by their endpoints joined with a space, so two edges with different endpoints can be taken for
  one another when an id contains a space; without spaces the keys are as good as the endpoints.
\<close>

lemma validation_valid:
  "validatePipelineGraph normalized known = [] \<longleftrightarrow>
     valid_graph known (np_graph normalized) \<and> distinct (map endpoints_key (fg_edges (np_graph normalized)))"
proof -
  let ?g = "np_graph normalized"
  note apart = keys_apart [of "fg_edges ?g"]
  have self: "ed_from e \<noteq> ed_to e" if "resolved ?g" "acyclic (link_rel ?g)" "e \<in> set (fg_edges ?g)" for e
  proof
    assume "ed_from e = ed_to e"
    with that have "(ed_from e, ed_from e) \<in> link_rel ?g" by (force simp: link_rel_def resolved_def)
    with that(2) show False by (auto simp: acyclic_def)
  qed
  show ?thesis
  proof (cases "validateEdgeEndpoints ?g (np_edgePointers normalized) (map gs_id (fg_stages ?g)) = []")
    case False
    then have "\<not> valid_graph known ?g" using self unfolding endpoints_silent valid_graph_def by blast
    with False show ?thesis by (simp add: validatePipelineGraph_def Let_def)
  next
    case True
    then have "resolved ?g" by (simp add: endpoints_silent)
    with True show ?thesis
      unfolding validatePipelineGraph_def Let_def valid_graph_def append_is_Nil_conv if_not_P [OF not_not [THEN iffD2]]
        stage_ids_silent shapes_silent context_silent limits_silent duplicates_silent evaluators_silent acyclic_silent
      using reachability_silent [of ?g] state_flow_silent [of ?g] apart by (simp add: acyclic_silent) blast
  qed
qed

lemma plain_keys:
  assumes "\<forall>e \<in> set es. CHR '' '' \<notin> set (ed_from e)"
  shows "distinct (map endpoints_key es) \<longleftrightarrow> distinct (map (\<lambda>e. (ed_from e, ed_to e)) es)"
proof -
  have split: "a @ CHR '' '' # b = c @ CHR '' '' # d \<longleftrightarrow> a = c \<and> b = d" if "CHR '' '' \<notin> set a" "CHR '' '' \<notin> set c" for a b c d :: string
    using that
  proof (induction a arbitrary: c)
    case Nil
    then show ?case by (cases c) auto
  next
    case (Cons x a)
    then show ?case by (cases c) auto
  qed
  then show ?thesis using assms by (induction es) (auto simp: endpoints_key_def image_iff)
qed

end
