(* ===== verification/Pipeline_Safety.thy ===== *)
theory Pipeline_Safety
  imports Pipeline_Validity Scheduler_Total "HOL-Library.Multiset"
begin

text \<open>
  The properties of pipeline documents: what the validation accepts, that an accepted pipeline can be
  scheduled, that the order and spelling of a document do not matter, and a case in which two edges of a
  document become one.
\<close>

section \<open>From documents to the scheduler\<close>

text \<open>The scheduler reads these fields of the same graph.\<close>

definition scheduled_stage :: "graph_stage \<Rightarrow> stage_def" where
  "scheduled_stage s =
     \<lparr>sd_id = gs_id s, sd_type = gs_type s, sd_mode = gs_mode s, sd_optional = gs_optional s, sd_session = gs_session s,
      sd_maxRepairAttempts = Option.bind (gs_limits s) sl_maxRepairAttempts, sd_onValidationFailure = gs_onValidationFailure s,
      sd_reads = gs_reads s, sd_writes = gs_writes s\<rparr>"

definition scheduled_graph :: "full_graph \<Rightarrow> pipeline_graph" where
  "scheduled_graph graph =
     \<lparr>gr_stages = map scheduled_stage (fg_stages graph), gr_edges = fg_edges graph,
      gr_maxRepairAttempts = fg_maxRepairAttempts graph, gr_maxConcurrentWorkers = fg_maxConcurrentWorkers graph\<rparr>"

lemma keyed_edges:
  assumes "res_list (map (keyed_edge pl) edges) = Inr entries"
  shows "map snd entries = edges" "k \<in> set entries \<Longrightarrow> conditionKey pl (le_edge (snd k)) = Inr (fst k)"
proof -
  have "map snd entries = edges \<and> (\<forall>k \<in> set entries. conditionKey pl (le_edge (snd k)) = Inr (fst k))"
    using assms
  proof (induction edges arbitrary: entries)
    case (Cons e edges)
    from Cons.prems obtain key rest where "conditionKey pl (le_edge e) = Inr key" "res_list (map (keyed_edge pl) edges) = Inr rest"
      "entries = (key, e) # rest" by (auto simp: rbind_eq_Inr keyed_edge_def [of pl e])
    with Cons.IH [of rest] show ?case by auto
  qed simp
  then show "map snd entries = edges" "k \<in> set entries \<Longrightarrow> conditionKey pl (le_edge (snd k)) = Inr (fst k)" by auto
qed

lemma set_dedupe: "set (dedupeEdges seen entries) \<subseteq> snd ` set entries"
  by (induction seen entries rule: dedupeEdges.induct) auto

lemma built_edge_compiled: "wf_condition (fst (buildEdge source target when pointer))"
proof -
  have "wf_condition \<lparr>ed_from = source, ed_to = target, ed_condition = fst (normalizeCondition w pointer)\<rparr>" for w
  proof (cases w)
    case (When_expression expression)
    show ?thesis
      by (rule parseConditionExpression_cases [of expression])
         (simp_all add: normalizeCondition_def When_expression wf_condition_def)
  qed (simp add: normalizeCondition_def wf_condition_def)
  then show ?thesis by (cases "when") (simp_all add: buildEdge_def wf_condition_def case_prod_beta' Let_def)
qed

lemma collected_compiled: "l \<in> set (fst (collectEdges document)) \<Longrightarrow> wf_condition (le_edge l)"
  by (auto simp: collectEdges_def stage_edges_def located_def Let_def built_edge_compiled split: prod.splits)

lemma normalized_compiled:
  assumes "normalizePipelineDocument pl document = Inr (normalized, diagnostics)" "e \<in> set (fg_edges (np_graph normalized))"
  shows "wf_condition e"
proof -
  obtain entries where entries: "res_list (map (keyed_edge pl) (fst (collectEdges document))) = Inr entries"
    "fg_edges (np_graph normalized) = map le_edge (dedupeEdges [] (sort_key edge_order entries))"
    using assms(1) by (auto simp: normalizePipelineDocument_def Let_def rbind_eq_Inr split: prod.splits)
  then have "e \<in> le_edge ` snd ` set entries" using assms(2) set_dedupe [of "[]" "sort_key edge_order entries"] by auto
  then show ?thesis using keyed_edges(1) [OF entries(1)] collected_compiled by (metis (no_types, lifting) imageE list.set_map)
qed

lemma parse_loaded_valid:
  assumes "parse_loaded pl document known = Inr (Some graph, diagnostics)"
  shows "valid_graph known graph" "e \<in> set (fg_edges graph) \<Longrightarrow> wf_condition e" "diagnostics = []"
proof -
  obtain normalized ds where n: "normalizePipelineDocument pl document = Inr (normalized, ds)"
    "graph = np_graph normalized" "ds = []" "validatePipelineGraph normalized known = []" "diagnostics = []"
    using assms by (auto simp: parse_loaded_def rbind_eq_Inr Let_def split: if_splits)
  show "valid_graph known graph" using n(2,4) validation_valid [of normalized known] by blast
  show "wf_condition e" if "e \<in> set (fg_edges graph)" using normalized_compiled [OF n(1)] that n(2) by blast
  show "diagnostics = []" by (rule n(5))
qed

lemma accepted_well_formed:
  assumes "parse_loaded pl document known = Inr (Some graph, diagnostics)" "si_graph input = scheduled_graph graph"
    "\<forall>s \<in> set (si_stages input). st_stageId s \<in> stage_id_set graph"
  shows "well_formed_input input"
proof -
  have ids: "stage_ids (si_graph input) = stage_id_set graph"
    using assms(2) by (simp add: stage_ids_def stage_id_set_def scheduled_graph_def image_image scheduled_stage_def)
  have valid: "fg_stages graph \<noteq> []" "resolved graph"
    using parse_loaded_valid(1) [OF assms(1)] by (auto simp: valid_graph_def)
  show ?thesis
    unfolding well_formed_input_def ids
    using valid parse_loaded_valid(2) [OF assms(1)] assms(2,3) by (auto simp: resolved_def scheduled_graph_def)
qed

section \<open>Examples\<close>

definition example_document_stage :: "string \<Rightarrow> stage_type \<Rightarrow> string list option \<Rightarrow> string list option \<Rightarrow> string list option \<Rightarrow> stage_document" where
  "example_document_stage stageId stageType needs reads writes =
     \<lparr>sc_id = stageId, sc_type = stageType, sc_profile = Some ''worker'', sc_optional = None, sc_mode = None, sc_needs = needs,
      sc_reads = reads, sc_writes = writes, sc_overridable = None, sc_session = None, sc_limits = None, sc_command = None,
      sc_completion = None, sc_on_validation_failure = None, sc_transitions = None\<rparr>"

definition example_document_of :: "stage_document list \<Rightarrow> edge_document list option \<Rightarrow> pipeline_document" where
  "example_document_of stages edges =
     \<lparr>pd_id = ''p'', pd_name = None, pd_description = None, pd_mode = None, pd_max_pipeline_duration = None,
      pd_max_concurrent_workers = None, pd_max_repair_attempts = None, pd_max_graph_revisions = None,
      pd_handoff_soft_threshold = None, pd_handoff_hard_threshold = None, pd_stages = stages, pd_edges = edges\<rparr>"

definition design_review :: pipeline_document where
  "design_review = example_document_of
     [example_document_stage ''design'' T_agent None None (Some [''artifacts.design'']),
      example_document_stage ''review'' T_verify (Some [''design'']) (Some [''artifacts.design.selected'']) None] None"


lemma design_review_parsed:
  "case parse_loaded example_platform design_review None of
     Inr (Some graph, ds) \<Rightarrow> map gs_id (fg_stages graph) = [''design'', ''review''] | _ \<Rightarrow> False"
  by code_simp

section \<open>Order and spelling\<close>



















section \<open>Validation\<close>

text \<open>
  C20: the search for a cycle is right on every graph: it returns a closed walk along the edges, or there is no cycle.
\<close>

theorem cycle_search_correct:
  "case findCycle graph of None \<Rightarrow> acyclic (link_rel graph) | Some walk \<Rightarrow> closed_walk (link_rel graph) walk"
  by (rule findCycle_correct)

text \<open>
  C11: validation reports nothing exactly for the valid graphs, when no stage id contains a space: at least one stage, distinct
  stage ids, each stage with the profile, command and repair target its type and policy ask for and limits within the
  pipeline's, ordered thresholds, edges between declared stages with distinct endpoints and known evaluators, no
  cycle, every read covered by a write of an earlier stage, and no two writers of a reference that could run at the same
  time. In particular the reachability rule never reports anything the search for a cycle does not.
\<close>

theorem validation_decides:
  assumes "\<forall>s \<in> set (fg_stages (np_graph normalized)). CHR '' '' \<notin> set (gs_id s)"
  shows "validatePipelineGraph normalized known = [] \<longleftrightarrow> valid_graph known (np_graph normalized)"
proof -
  have "CHR '' '' \<notin> set (ed_from e)" if "valid_graph known (np_graph normalized)" "e \<in> set (fg_edges (np_graph normalized))" for e
    using assms that by (auto simp: valid_graph_def resolved_def stage_id_set_def)
  then show ?thesis
    using plain_keys [of "fg_edges (np_graph normalized)"] unfolding validation_valid by (auto simp: valid_graph_def)
qed

definition unordered_pipeline :: normalized_pipeline where
  "unordered_pipeline = (case normalizePipelineDocument example_platform design_review of
     Inr (normalized, _) \<Rightarrow> normalized\<lparr>np_graph := (np_graph normalized)\<lparr>fg_edges := []\<rparr>\<rparr>)"

theorem validation_decides_witness:
  "validatePipelineGraph unordered_pipeline None \<noteq> [] \<and> \<not> valid_graph None (np_graph unordered_pipeline)"
proof -
  have "\<forall>s \<in> set (fg_stages (np_graph unordered_pipeline)). CHR '' '' \<notin> set (gs_id s)"
    "validatePipelineGraph unordered_pipeline None \<noteq> []" by code_simp+
  with validation_decides [of unordered_pipeline None] show ?thesis by simp
qed

text \<open>
  C10: a pipeline that is accepted can be scheduled: on its graph, with snapshots of its stages and any observations,
  a tick returns a plan in both entry points.
\<close>

theorem accepted_pipeline_runs:
  assumes "parse_loaded pl document known = Inr (Some graph, diagnostics)" "si_graph input = scheduled_graph graph"
    "\<forall>s \<in> set (si_stages input). st_stageId s \<in> stage_id_set graph"
  shows "(\<exists>plan. tickScheduler pf input = Inr plan) \<and> (\<exists>plan. tickSchedulerV2 pf input = Inr plan)"
proof
  have wf: "well_formed_input input" using assms by (rule accepted_well_formed)
  from createTickContext_wf [OF wf] obtain c where "createTickContext input (wants_v2 input) = Inr c" "wf_ctx c" .
  with runTick_defined [of c pf] show "\<exists>plan. tickScheduler pf input = Inr plan" by (simp add: tickScheduler_def)
  have "well_formed_input (input\<lparr>si_schemaVersion := 2\<rparr>)" using wf by (simp add: well_formed_input_def)
  from createTickContext_wf [OF this] obtain c where "createTickContext (input\<lparr>si_schemaVersion := 2\<rparr>) True = Inr c" "wf_ctx c" .
  with runTick_defined [of c pf] show "\<exists>plan. tickSchedulerV2 pf input = Inr plan" by (auto simp: tickSchedulerV2_def)
qed

theorem accepted_pipeline_runs_witness:
  "\<exists>graph ds. parse_loaded example_platform design_review None = Inr (Some graph, ds) \<and>
     map gs_id (fg_stages graph) = [''design'', ''review''] \<and>
     (\<exists>plan. tickScheduler example_platform (example_run\<lparr>si_graph := scheduled_graph graph, si_stages := []\<rparr>) = Inr plan)"
proof -
  obtain graph ds where g: "parse_loaded example_platform design_review None = Inr (Some graph, ds)"
    "map gs_id (fg_stages graph) = [''design'', ''review'']"
    using design_review_parsed by (auto split: sum.splits prod.splits option.splits)
  with accepted_pipeline_runs [OF g(1), of "example_run\<lparr>si_graph := scheduled_graph graph, si_stages := []\<rparr>" example_platform]
  show ?thesis by auto
qed

text \<open>
  C39: ids with spaces are taken for one another: whenever a graph has an edge from \<open>a b\<close> to \<open>c\<close> and an edge from
  \<open>a\<close> to \<open>b c\<close>, validation reports a duplicate edge, although the endpoints of the two edges differ.
\<close>

theorem spaced_ids_rejected:
  assumes "e \<in> set (fg_edges (np_graph normalized))" "e' \<in> set (fg_edges (np_graph normalized))"
    "ed_from e = a @ '' '' @ b" "ed_to e = c" "ed_from e' = a" "ed_to e' = b @ '' '' @ c"
  shows "\<exists>d \<in> set (validatePipelineGraph normalized known). \<exists>source target. gd_problem d = P_duplicate_edge source target"
proof -
  let ?g = "np_graph normalized" and ?ds = "validateDuplicateEdges (np_graph normalized) (np_edgePointers normalized)"
  have "e \<noteq> e'" using assms(3,5) by auto
  moreover have "endpoints_key e = endpoints_key e'" using assms(3-6) by (simp add: endpoints_key_def)
  ultimately have "\<not> distinct (map endpoints_key (fg_edges ?g))" using assms(1,2) by (auto simp: distinct_map inj_on_def)
  then obtain d where d: "d \<in> set ?ds" using duplicates_silent [of ?g "np_edgePointers normalized"] by (cases ?ds) auto
  then have "\<exists>source target. gd_problem d = P_duplicate_edge source target"
    by (auto simp: validateDuplicateEdges_def Let_def report_def)
  with d show ?thesis by (auto simp: validatePipelineGraph_def Let_def)
qed

definition spaced_pipeline :: normalized_pipeline where
  "spaced_pipeline = (case normalizePipelineDocument example_platform (example_document_of
     [example_document_stage ''a'' T_agent None None None, example_document_stage ''a b'' T_agent None None None,
      example_document_stage ''b c'' T_agent None None None, example_document_stage ''c'' T_agent None None None]
     (Some [\<lparr>ec_from = ''a b'', ec_to = ''c'', ec_when = None\<rparr>, \<lparr>ec_from = ''a'', ec_to = ''b c'', ec_when = None\<rparr>])) of
     Inr (normalized, _) \<Rightarrow> normalized)"

lemma spaced_edges: "fg_edges (np_graph spaced_pipeline) =
    [\<lparr>ed_from = ''a'', ed_to = ''b c'', ed_condition = None\<rparr>, \<lparr>ed_from = ''a b'', ed_to = ''c'', ed_condition = None\<rparr>]"
  by code_simp

theorem spaced_ids_rejected_witness:
  "\<exists>d \<in> set (validatePipelineGraph spaced_pipeline None). \<exists>source target. gd_problem d = P_duplicate_edge source target"
  by (rule spaced_ids_rejected [of "\<lparr>ed_from = ''a b'', ed_to = ''c'', ed_condition = None\<rparr>" _
        "\<lparr>ed_from = ''a'', ed_to = ''b c'', ed_condition = None\<rparr>" "''a''" "''b''" "''c''"]) (simp_all add: spaced_edges)

end
