(* ===== verification/Config_Layers.thy ===== *)
theory Config_Layers
  imports Pipeline_Document
begin

text \<open>
  Configuration layers (\<open>packages/config/src/layers/layer.ts\<close>, \<open>policy.ts\<close>, \<open>defaults.ts\<close>, \<open>merge.ts\<close>): the fold of
  the layer documents into one, the chain of layers behind every leaf, the three policy rules, and the report.
  An object is an association list of its own properties in insertion order. What a document may hold before it
  is sanitized is a \<open>js_value\<close>; after that it is JSON. A diagnostic keeps the values its message renders (the
  rendering redacts them) and is reported where the code pushes it: the final \<open>sortDiagnostics\<close> is left out.
\<close>

section \<open>Layers and documents\<close>

datatype configuration_layer = L_built_in_defaults | L_global_defaults | L_codebase | L_repository
  | L_pipeline_template | L_profile_or_stage | L_invocation_override

definition CONFIGURATION_LAYERS :: "configuration_layer list" where
  "CONFIGURATION_LAYERS = [L_built_in_defaults, L_global_defaults, L_codebase, L_repository,
     L_pipeline_template, L_profile_or_stage, L_invocation_override]"

definition INVOCATION_OVERRIDE_LAYER :: configuration_layer where
  "INVOCATION_OVERRIDE_LAYER = L_invocation_override"

text \<open>What a document built in memory can hold: functions, symbols and big integers are \<open>V_other\<close> with their \<open>typeof\<close>.\<close>

datatype js_value = V_undefined | V_null | V_bool bool | V_num js_number | V_str string
  | V_arr "js_value list" | V_obj "(string \<times> js_value) list" | V_other string

record 'v layer_document =
  cfg_layer :: configuration_layer
  cfg_sourcePath :: "string option"
  cfg_values :: 'v

definition configurationLayerRank :: "configuration_layer \<Rightarrow> nat" where
  "configurationLayerRank l = the (map_of (zip CONFIGURATION_LAYERS [0..<length CONFIGURATION_LAYERS]) l)"

definition sortConfigurationDocuments :: "'v layer_document list \<Rightarrow> 'v layer_document list" where
  "sortConfigurationDocuments documents = sort_key (\<lambda>d. configurationLayerRank (cfg_layer d)) documents"

section \<open>Policy\<close>

datatype strictest = Lower | Higher

datatype configuration_rule =
  Rule_hard_limit string strictest
| Rule_ordered_privacy string "json list"
| Rule_overridable string

record indexed_policy =
  ip_hardLimits :: "(string, strictest) jsmap"
  ip_privacy :: "(string, json list) jsmap"
  ip_overridable :: "string list"

fun index_rule :: "configuration_rule \<Rightarrow> indexed_policy \<Rightarrow> indexed_policy" where
  "index_rule (Rule_hard_limit pointer s) ip = ip\<lparr>ip_hardLimits := AList.update pointer s (ip_hardLimits ip)\<rparr>"
| "index_rule (Rule_ordered_privacy pointer order) ip = ip\<lparr>ip_privacy := AList.update pointer order (ip_privacy ip)\<rparr>"
| "index_rule (Rule_overridable pointer) ip = ip\<lparr>ip_overridable := List.insert pointer (ip_overridable ip)\<rparr>"

definition indexConfigurationPolicy :: "configuration_rule list \<Rightarrow> indexed_policy" where
  "indexConfigurationPolicy rules =
     fold index_rule rules \<lparr>ip_hardLimits = [], ip_privacy = [], ip_overridable = []\<rparr>"

text \<open>The duration branch is \<^const>\<open>hardLimitMagnitude\<close>, shared with the pipeline limits.\<close>

definition limit_magnitude :: "json \<Rightarrow> js_number option" where
  "limit_magnitude value =
     (case value of
        JNum n \<Rightarrow> if is_finite_num n then Some n else None
      | JStr s \<Rightarrow> hardLimitMagnitude s
      | _ \<Rightarrow> None)"

text \<open>Strict equality of numbers: not a number equals nothing, and the two zeros are equal.\<close>

definition same_number :: "js_number \<Rightarrow> js_number \<Rightarrow> bool" where
  "same_number x y \<longleftrightarrow> num_le x y \<and> num_le y x"

fun strict_equal :: "json \<Rightarrow> json \<Rightarrow> bool" where
  "strict_equal JNull JNull = True"
| "strict_equal (JBool a) (JBool b) = (a = b)"
| "strict_equal (JNum a) (JNum b) = same_number a b"
| "strict_equal (JStr a) (JStr b) = (a = b)"
| "strict_equal _ _ = False"

definition privacyRank :: "json \<Rightarrow> json list \<Rightarrow> nat option" where
  "privacyRank value strictestFirst =
     (case value of
        JArr _ \<Rightarrow> None
      | JObj _ \<Rightarrow> None
      | _ \<Rightarrow> map_option fst (find (\<lambda>(_, candidate). strict_equal candidate value) (indexed strictestFirst)))"

definition HENIEK_BUILT_IN_CONFIGURATION_POLICY :: "configuration_rule list" where
  "HENIEK_BUILT_IN_CONFIGURATION_POLICY =
     [Rule_hard_limit ''/limits/max_pipeline_duration'' Lower,
      Rule_hard_limit ''/limits/max_concurrent_workers'' Lower,
      Rule_hard_limit ''/limits/max_repair_attempts'' Lower,
      Rule_hard_limit ''/limits/max_graph_revisions'' Lower,
      Rule_ordered_privacy ''/privacy/mode'' [JStr ''confidential'', JStr ''internal'', JStr ''open''],
      Rule_ordered_privacy ''/privacy/telemetry'' [JStr ''off'', JStr ''anonymous''],
      Rule_ordered_privacy ''/privacy/crash_reports'' [JStr ''local'', JStr ''upload''],
      Rule_ordered_privacy ''/privacy/include_repository_content'' [JBool False, JBool True],
      Rule_ordered_privacy ''/privacy/include_prompts'' [JBool False, JBool True],
      Rule_ordered_privacy ''/privacy/include_paths'' [JBool False, JBool True],
      Rule_ordered_privacy ''/privacy/diagnostics_export'' [JStr ''explicit'', JStr ''automatic''],
      Rule_overridable ''/limits/max_pipeline_duration'',
      Rule_overridable ''/limits/max_concurrent_workers'',
      Rule_overridable ''/limits/max_repair_attempts'',
      Rule_overridable ''/limits/max_graph_revisions'']"

definition HENIEK_BUILT_IN_PRIVACY_DEFAULTS :: js_value where
  "HENIEK_BUILT_IN_PRIVACY_DEFAULTS = V_obj
     [(''mode'', V_str ''confidential''), (''telemetry'', V_str ''off''), (''crash_reports'', V_str ''local''),
      (''include_repository_content'', V_bool False), (''include_prompts'', V_bool False), (''include_paths'', V_bool False),
      (''diagnostics_export'', V_str ''explicit'')]"

definition HENIEK_BUILT_IN_LIMIT_DEFAULTS :: js_value where
  "HENIEK_BUILT_IN_LIMIT_DEFAULTS = V_obj
     [(''max_pipeline_duration'', V_str ''4h''), (''max_concurrent_workers'', V_num (Fin 4)),
      (''max_repair_attempts'', V_num (Fin 3)), (''max_graph_revisions'', V_num (Fin 5))]"

definition HENIEK_BUILT_IN_DEFAULTS :: "js_value layer_document" where
  "HENIEK_BUILT_IN_DEFAULTS =
     \<lparr>cfg_layer = L_built_in_defaults, cfg_sourcePath = None,
      cfg_values = V_obj [(''limits'', HENIEK_BUILT_IN_LIMIT_DEFAULTS), (''privacy'', HENIEK_BUILT_IN_PRIVACY_DEFAULTS)]\<rparr>"

section \<open>Provenance and diagnostics\<close>

record provenance_entry =
  ent_layer :: configuration_layer
  ent_sourcePath :: "string option"
  ent_value :: json

record provenance =
  pv_pointer :: string
  pv_winner :: provenance_entry
  pv_overridden :: "provenance_entry list"

datatype invalid_reason = IR_undefined | IR_not_finite js_number | IR_array_element | IR_type string

datatype config_problem =
  CP_hard_limit_incomparable provenance_entry
| CP_hard_limit_clamped provenance_entry provenance_entry
| CP_privacy_incomparable provenance_entry
| CP_privacy_weakening_blocked provenance_entry provenance_entry
| CP_value_overridden provenance_entry provenance_entry
| CP_replaced_by_object configuration_layer provenance_entry
| CP_invalid_value configuration_layer invalid_reason
| CP_override_not_permitted json

datatype config_severity = CS_error | CS_warning | CS_info

fun problem_code :: "config_problem \<Rightarrow> string" where
  "problem_code (CP_hard_limit_incomparable _) = ''configuration.hard-limit-incomparable''"
| "problem_code (CP_hard_limit_clamped _ _) = ''configuration.hard-limit-clamped''"
| "problem_code (CP_privacy_incomparable _) = ''configuration.privacy-incomparable''"
| "problem_code (CP_privacy_weakening_blocked _ _) = ''configuration.privacy-weakening-blocked''"
| "problem_code (CP_value_overridden _ _) = ''configuration.value-overridden''"
| "problem_code (CP_replaced_by_object _ _) = ''configuration.value-overridden''"
| "problem_code (CP_invalid_value _ _) = ''configuration.invalid-value''"
| "problem_code (CP_override_not_permitted _) = ''configuration.override-not-permitted''"

fun problem_severity :: "config_problem \<Rightarrow> config_severity" where
  "problem_severity (CP_hard_limit_incomparable _) = CS_warning"
| "problem_severity (CP_hard_limit_clamped _ _) = CS_warning"
| "problem_severity (CP_privacy_incomparable _) = CS_warning"
| "problem_severity (CP_privacy_weakening_blocked _ _) = CS_error"
| "problem_severity (CP_value_overridden _ _) = CS_info"
| "problem_severity (CP_replaced_by_object _ _) = CS_info"
| "problem_severity (CP_invalid_value _ _) = CS_error"
| "problem_severity (CP_override_not_permitted _) = CS_error"

record config_diagnostic =
  cdg_problem :: config_problem
  cdg_pointer :: string
  cdg_sourcePath :: "string option"

definition config_report :: "config_problem \<Rightarrow> string \<Rightarrow> string option \<Rightarrow> config_diagnostic" where
  "config_report problem pointer sourcePath = \<lparr>cdg_problem = problem, cdg_pointer = pointer, cdg_sourcePath = sourcePath\<rparr>"

record resolved_configuration =
  rcf_layers :: "configuration_layer list"
  rcf_values :: json
  rcf_provenance :: "provenance list"
  rcf_diagnostics :: "config_diagnostic list"

section \<open>Merging and reading documents\<close>

fun isPlainObject :: "json \<Rightarrow> bool" where
  "isPlainObject (JObj _) = True"
| "isPlainObject _ = False"

text \<open>The loop over the keys of \<open>incoming\<close> reads what it has already written; \<open>base\<close> is the copy it starts from.\<close>

fun mergeJsonValue :: "json option \<Rightarrow> json \<Rightarrow> json"
and merge_members :: "(string \<times> json) list \<Rightarrow> (string \<times> json) list \<Rightarrow> (string \<times> json) list" where
  "mergeJsonValue (Some (JObj base)) (JObj incoming) = JObj (merge_members base incoming)"
| "mergeJsonValue base incoming = incoming"
| "merge_members merged [] = merged"
| "merge_members merged ((key, child) # incoming) =
     merge_members (AList.update key (mergeJsonValue (map_of merged key) child) merged) incoming"

definition pathToPointer :: "string list \<Rightarrow> string" where
  "pathToPointer path = foldl joinPointer '''' path"

fun collectLeafPaths :: "json \<Rightarrow> string list \<Rightarrow> string list list"
and member_leaf_paths :: "(string \<times> json) list \<Rightarrow> string list \<Rightarrow> string list list" where
  "collectLeafPaths (JObj members) path = member_leaf_paths members path"
| "collectLeafPaths value path = [path]"
| "member_leaf_paths [] path = []"
| "member_leaf_paths ((key, child) # members) path = collectLeafPaths child (path @ [key]) @ member_leaf_paths members path"

fun lookupPath :: "json \<Rightarrow> string list \<Rightarrow> json option" where
  "lookupPath current [] = Some current"
| "lookupPath (JObj members) (segment # path) = Option.bind (map_of members segment) (\<lambda>child. lookupPath child path)"
| "lookupPath current (segment # path) = None"

fun jsonEquals :: "json \<Rightarrow> json \<Rightarrow> bool"
and items_equal :: "json list \<Rightarrow> json list \<Rightarrow> bool"
and members_equal :: "(string \<times> json) list \<Rightarrow> (string \<times> json) list \<Rightarrow> bool" where
  "jsonEquals (JArr a) (JArr b) = items_equal a b"
| "jsonEquals (JObj a) (JObj b) = (length a = length b \<and> members_equal a b)"
| "jsonEquals a b = strict_equal a b"
| "items_equal [] [] = True"
| "items_equal (x # a) (y # b) = (jsonEquals x y \<and> items_equal a b)"
| "items_equal _ _ = False"
| "members_equal [] b = True"
| "members_equal ((key, x) # a) b =
     ((case map_of b key of None \<Rightarrow> False | Some y \<Rightarrow> jsonEquals x y) \<and> members_equal a b)"

definition entryOf :: "json layer_document \<Rightarrow> json \<Rightarrow> provenance_entry" where
  "entryOf document value =
     \<lparr>ent_layer = cfg_layer document, ent_sourcePath = cfg_sourcePath document, ent_value = value\<rparr>"

section \<open>Policy edits\<close>

datatype leaf_edit = Edit_set json | Edit_delete

text \<open>\<open>None\<close> is the marker \<open>REMOVED\<close>.\<close>

fun applyEdits :: "json \<Rightarrow> string list \<Rightarrow> (string, leaf_edit) jsmap \<Rightarrow> json option"
and edit_members :: "(string \<times> json) list \<Rightarrow> string list \<Rightarrow> (string, leaf_edit) jsmap \<Rightarrow> (string \<times> json) list" where
  "applyEdits (JObj members) path edits = Some (JObj (edit_members members path edits))"
| "applyEdits value path edits =
     (case map_of edits (pathToPointer path) of
        None \<Rightarrow> Some value
      | Some Edit_delete \<Rightarrow> None
      | Some (Edit_set v) \<Rightarrow> Some v)"
| "edit_members [] path edits = []"
| "edit_members ((key, value) # members) path edits =
     (case applyEdits value (path @ [key]) edits of
        None \<Rightarrow> edit_members members path edits
      | Some child \<Rightarrow> (key, child) # edit_members members path edits)"

section \<open>The winner of a chain\<close>

text \<open>
  The two loops of \<open>resolveChain\<close>: entries that cannot be compared are reported, and the first of the strictest
  comparable entries is kept with its index.
\<close>

fun scan_chain :: "(json \<Rightarrow> 'm option) \<Rightarrow> ('m \<Rightarrow> 'm \<Rightarrow> bool) \<Rightarrow> (provenance_entry \<Rightarrow> config_diagnostic) \<Rightarrow> nat \<Rightarrow>
    (nat \<times> 'm) option \<Rightarrow> provenance_entry list \<Rightarrow> (nat \<times> 'm) option \<times> config_diagnostic list" where
  "scan_chain measured stricter incomparable index best [] = (best, [])"
| "scan_chain measured stricter incomparable index best (entry # chain) =
     (case measured (ent_value entry) of
        None \<Rightarrow>
          let (result, ds) = scan_chain measured stricter incomparable (Suc index) best chain
          in (result, incomparable entry # ds)
      | Some m \<Rightarrow>
          scan_chain measured stricter incomparable (Suc index)
            (case best of
               None \<Rightarrow> Some (index, m)
             | Some (_, n) \<Rightarrow> if stricter m n then Some (index, m) else best) chain)"

definition strictest_rule :: "(json \<Rightarrow> 'm option) \<Rightarrow> ('m \<Rightarrow> 'm \<Rightarrow> bool) \<Rightarrow> (provenance_entry \<Rightarrow> config_diagnostic) \<Rightarrow>
    (provenance_entry \<Rightarrow> provenance_entry \<Rightarrow> config_diagnostic) \<Rightarrow> provenance_entry list \<Rightarrow> nat \<Rightarrow> nat \<times> config_diagnostic list" where
  "strictest_rule measured stricter incomparable blocked chain winnerIndex =
     (let (best, ds) = scan_chain measured stricter incomparable 0 None chain
      in case best of
           None \<Rightarrow> (winnerIndex, ds)
         | Some (strictestIndex, _) \<Rightarrow>
             if strictestIndex = winnerIndex then (winnerIndex, ds)
             else (strictestIndex,
                   ds @ (if measured (ent_value (last chain)) \<noteq> None
                         then [blocked (chain ! strictestIndex) (last chain)] else [])))"

definition stricter_limit :: "strictest \<Rightarrow> js_number \<Rightarrow> js_number \<Rightarrow> bool" where
  "stricter_limit s m n = (case s of Lower \<Rightarrow> num_less m n | Higher \<Rightarrow> num_less n m)"

definition limit_rule :: "string \<Rightarrow> indexed_policy \<Rightarrow> provenance_entry list \<Rightarrow> nat \<Rightarrow> nat \<times> config_diagnostic list" where
  "limit_rule pointer policy chain winnerIndex =
     (case map_of (ip_hardLimits policy) pointer of
        None \<Rightarrow> (winnerIndex, [])
      | Some s \<Rightarrow> strictest_rule limit_magnitude (stricter_limit s)
          (\<lambda>entry. config_report (CP_hard_limit_incomparable entry) pointer (ent_sourcePath entry))
          (\<lambda>kept relaxed. config_report (CP_hard_limit_clamped kept relaxed) pointer (ent_sourcePath relaxed))
          chain winnerIndex)"

definition privacy_rule :: "string \<Rightarrow> indexed_policy \<Rightarrow> provenance_entry list \<Rightarrow> nat \<Rightarrow> nat \<times> config_diagnostic list" where
  "privacy_rule pointer policy chain winnerIndex =
     (case map_of (ip_privacy policy) pointer of
        None \<Rightarrow> (winnerIndex, [])
      | Some strictestFirst \<Rightarrow> strictest_rule (\<lambda>value. privacyRank value strictestFirst) (<)
          (\<lambda>entry. config_report (CP_privacy_incomparable entry) pointer (ent_sourcePath entry))
          (\<lambda>kept weakened. config_report (CP_privacy_weakening_blocked kept weakened) pointer (ent_sourcePath weakened))
          chain winnerIndex)"

record chain_resolution =
  cr_winner :: provenance_entry
  cr_overridden :: "provenance_entry list"
  cr_diagnostics :: "config_diagnostic list"

definition resolveChain :: "string \<Rightarrow> provenance_entry list \<Rightarrow> indexed_policy \<Rightarrow> chain_resolution" where
  "resolveChain pointer chain policy =
     (let (limited, limitDiagnostics) = limit_rule pointer policy chain (length chain - 1);
          (winnerIndex, privacyDiagnostics) = privacy_rule pointer policy chain limited;
          winner = chain ! winnerIndex;
          overridden = map snd (filter (\<lambda>(index, _). index \<noteq> winnerIndex) (indexed chain))
      in \<lparr>cr_winner = winner, cr_overridden = overridden,
          cr_diagnostics = limitDiagnostics @ privacyDiagnostics
            @ map (\<lambda>entry. config_report (CP_value_overridden winner entry) pointer (ent_sourcePath entry))
                (filter (\<lambda>entry. \<not> jsonEquals (ent_value entry) (ent_value winner)) overridden)\<rparr>)"

section \<open>Sanitizing a document\<close>

fun isJsonRepresentable :: "js_value \<Rightarrow> bool" where
  "isJsonRepresentable V_undefined = False"
| "isJsonRepresentable (V_num n) = is_finite_num n"
| "isJsonRepresentable (V_arr items) = list_all isJsonRepresentable items"
| "isJsonRepresentable (V_obj members) = list_all (\<lambda>(_, v). isJsonRepresentable v) members"
| "isJsonRepresentable (V_other _) = False"
| "isJsonRepresentable _ = True"

text \<open>A representable value seen as JSON; it is only used on those.\<close>

fun as_json :: "js_value \<Rightarrow> json" where
  "as_json (V_bool b) = JBool b"
| "as_json (V_num n) = JNum n"
| "as_json (V_str s) = JStr s"
| "as_json (V_arr items) = JArr (map as_json items)"
| "as_json (V_obj members) = JObj (map (\<lambda>(k, v). (k, as_json v)) members)"
| "as_json _ = JNull"

definition invalidValueDiagnostic :: "string list \<Rightarrow> 'v layer_document \<Rightarrow> invalid_reason \<Rightarrow> config_diagnostic" where
  "invalidValueDiagnostic path document reason =
     config_report (CP_invalid_value (cfg_layer document) reason) (pathToPointer path) (cfg_sourcePath document)"

fun sanitizeConfigurationValue :: "js_value \<Rightarrow> string list \<Rightarrow> 'v layer_document \<Rightarrow> json option \<times> config_diagnostic list"
and sanitize_members :: "(string \<times> js_value) list \<Rightarrow> string list \<Rightarrow> 'v layer_document \<Rightarrow> (string \<times> json) list \<times> config_diagnostic list" where
  "sanitizeConfigurationValue V_undefined path document = (None, [invalidValueDiagnostic path document IR_undefined])"
| "sanitizeConfigurationValue (V_num n) path document =
     (if is_finite_num n then (Some (JNum n), []) else (None, [invalidValueDiagnostic path document (IR_not_finite n)]))"
| "sanitizeConfigurationValue V_null path document = (Some JNull, [])"
| "sanitizeConfigurationValue (V_bool b) path document = (Some (JBool b), [])"
| "sanitizeConfigurationValue (V_str s) path document = (Some (JStr s), [])"
| "sanitizeConfigurationValue (V_arr items) path document =
     (if list_all isJsonRepresentable items then (Some (as_json (V_arr items)), [])
      else (None, [invalidValueDiagnostic path document IR_array_element]))"
| "sanitizeConfigurationValue (V_obj members) path document =
     (let (out, ds) = sanitize_members members path document in (Some (JObj out), ds))"
| "sanitizeConfigurationValue (V_other t) path document = (None, [invalidValueDiagnostic path document (IR_type t)])"
| "sanitize_members [] path document = ([], [])"
| "sanitize_members ((key, value) # members) path document =
     (let (sanitized, ds) = sanitizeConfigurationValue value (path @ [key]) document;
          (out, ds') = sanitize_members members path document
      in ((case sanitized of None \<Rightarrow> out | Some child \<Rightarrow> (key, child) # out), ds @ ds'))"

definition sanitize_document :: "js_value layer_document \<Rightarrow> json layer_document \<times> config_diagnostic list" where
  "sanitize_document document =
     (let (sanitizedValues, ds) = sanitizeConfigurationValue (cfg_values document) [] document
      in (\<lparr>cfg_layer = cfg_layer document, cfg_sourcePath = cfg_sourcePath document,
           cfg_values = (case sanitizedValues of None \<Rightarrow> JObj [] | Some values \<Rightarrow> values)\<rparr>, ds))"

section \<open>Scalars replaced by objects\<close>

definition gate_open :: "indexed_policy \<Rightarrow> string \<Rightarrow> json layer_document \<Rightarrow> bool" where
  "gate_open policy pointer document \<longleftrightarrow>
     cfg_layer document \<noteq> INVOCATION_OVERRIDE_LAYER \<or> pointer \<in> set (ip_overridable policy)"

definition holds_object :: "string list \<Rightarrow> json layer_document \<Rightarrow> bool" where
  "holds_object path document = (case lookupPath (cfg_values document) path of None \<Rightarrow> False | Some v \<Rightarrow> isPlainObject v)"

definition shadowed_here :: "string list \<Rightarrow> json layer_document list \<Rightarrow> indexed_policy \<Rightarrow> config_diagnostic list" where
  "shadowed_here path documents policy =
     (let pointer = pathToPointer path; candidates = filter (gate_open policy pointer) documents
      in case filter (holds_object path) candidates of
           [] \<Rightarrow> []
         | winners \<Rightarrow> concat (map (\<lambda>document.
             case lookupPath (cfg_values document) path of
               None \<Rightarrow> []
             | Some value \<Rightarrow>
                 if isPlainObject value then []
                 else [config_report (CP_replaced_by_object (cfg_layer (last winners)) (entryOf document value))
                         pointer (cfg_sourcePath document)]) candidates))"

fun collectShadowedByObjectDiagnostics :: "json \<Rightarrow> string list \<Rightarrow> json layer_document list \<Rightarrow> indexed_policy \<Rightarrow> config_diagnostic list"
and shadowed_members :: "(string \<times> json) list \<Rightarrow> string list \<Rightarrow> json layer_document list \<Rightarrow> indexed_policy \<Rightarrow> config_diagnostic list" where
  "collectShadowedByObjectDiagnostics (JObj members) path documents policy =
     (if members = [] then []
      else shadowed_here path documents policy @ shadowed_members members path documents policy)"
| "collectShadowedByObjectDiagnostics merged path documents policy = []"
| "shadowed_members [] path documents policy = []"
| "shadowed_members ((key, child) # members) path documents policy =
     collectShadowedByObjectDiagnostics child (path @ [key]) documents policy @ shadowed_members members path documents policy"

section \<open>Resolution\<close>

definition hasBlockingDiagnostics :: "resolved_configuration \<Rightarrow> bool" where
  "hasBlockingDiagnostics resolved = list_ex (\<lambda>d. problem_severity (cdg_problem d) = CS_error) (rcf_diagnostics resolved)"

definition merge_documents :: "json layer_document list \<Rightarrow> json" where
  "merge_documents documents = foldl (\<lambda>merged document. mergeJsonValue (Some merged) (cfg_values document)) (JObj []) documents"

text \<open>The documents that hold a value at a leaf: the chain, and the overrides the policy drops.\<close>

fun leaf_chain :: "indexed_policy \<Rightarrow> string list \<Rightarrow> json layer_document list \<Rightarrow> provenance_entry list \<times> config_diagnostic list" where
  "leaf_chain policy path [] = ([], [])"
| "leaf_chain policy path (document # documents) =
     (let (chain, ds) = leaf_chain policy path documents
      in case lookupPath (cfg_values document) path of
           None \<Rightarrow> (chain, ds)
         | Some value \<Rightarrow>
             if cfg_layer document = INVOCATION_OVERRIDE_LAYER \<and> pathToPointer path \<notin> set (ip_overridable policy)
             then (chain, config_report (CP_override_not_permitted value) (pathToPointer path) (cfg_sourcePath document) # ds)
             else (entryOf document value # chain, ds))"

record leaf_resolution =
  lr_edit :: leaf_edit
  lr_provenance :: "provenance list"
  lr_diagnostics :: "config_diagnostic list"

definition resolve_leaf :: "indexed_policy \<Rightarrow> json layer_document list \<Rightarrow> string list \<Rightarrow> leaf_resolution" where
  "resolve_leaf policy documents path =
     (let pointer = pathToPointer path; (chain, dropped) = leaf_chain policy path documents
      in if chain = [] then \<lparr>lr_edit = Edit_delete, lr_provenance = [], lr_diagnostics = dropped\<rparr>
         else let resolution = resolveChain pointer chain policy; winner = cr_winner resolution
           in \<lparr>lr_edit = Edit_set (ent_value winner),
               lr_provenance = [\<lparr>pv_pointer = pointer, pv_winner = winner, pv_overridden = cr_overridden resolution\<rparr>],
               lr_diagnostics = dropped @ cr_diagnostics resolution\<rparr>)"

definition leaf_edits :: "indexed_policy \<Rightarrow> json layer_document list \<Rightarrow> string list list \<Rightarrow> (string, leaf_edit) jsmap" where
  "leaf_edits policy documents leafPaths =
     js_map_of (map (\<lambda>path. (pathToPointer path, lr_edit (resolve_leaf policy documents path))) leafPaths)"

definition resolveConfiguration :: "js_value layer_document list \<Rightarrow> configuration_rule list \<Rightarrow> resolved_configuration" where
  "resolveConfiguration inputs rules =
     (let sortedDocuments = sortConfigurationDocuments inputs;
          policy = indexConfigurationPolicy rules;
          documents = map (fst \<circ> sanitize_document) sortedDocuments;
          merged = merge_documents documents;
          leafPaths = collectLeafPaths merged [];
          leaves = map (resolve_leaf policy documents) leafPaths;
          edited = applyEdits merged [] (leaf_edits policy documents leafPaths)
      in \<lparr>rcf_layers = filter (\<lambda>layer. layer \<in> cfg_layer ` set documents) CONFIGURATION_LAYERS,
          rcf_values = (case edited of None \<Rightarrow> JObj [] | Some values \<Rightarrow> values),
          rcf_provenance = sort_key pv_pointer (concat (map lr_provenance leaves)),
          rcf_diagnostics = concat (map (snd \<circ> sanitize_document) sortedDocuments)
            @ concat (map lr_diagnostics leaves)
            @ collectShadowedByObjectDiagnostics merged [] documents policy\<rparr>)"

end
