(* ===== verification/Config_Merge.thy ===== *)
theory Config_Merge
  imports Config_Layers
begin

text \<open>
  The structure of merged documents: pointers identify paths, the leaves of an object are what \<open>lookupPath\<close> finds, a
  leaf of the fold is the value of the last document that holds one there, and edits of leaves are read back.
\<close>

section \<open>Pointers identify paths\<close>

definition escaped :: "char \<Rightarrow> string" where
  "escaped c = (if c = CHR ''~'' then ''~0'' else if c = CHR ''/'' then ''~1'' else [c])"

lemma escape_characters: "escapePointerSegment s = concat (map escaped s)"
  unfolding escapePointerSegment_def by (induction s) (auto simp: escaped_def)

lemma escaped_clean: "CHR ''/'' \<notin> set (escapePointerSegment s)"
  by (auto simp: escape_characters escaped_def split: if_splits)

lemma escape_injective: "escapePointerSegment s = escapePointerSegment t \<Longrightarrow> s = t"
proof (induction s arbitrary: t)
  case Nil
  then show ?case by (cases t) (auto simp: escape_characters escaped_def split: if_splits)
next
  case (Cons c s)
  then obtain d t' where t: "t = d # t'" by (cases t) (auto simp: escape_characters escaped_def split: if_splits)
  with Cons.prems have "c = d \<and> escapePointerSegment s = escapePointerSegment t'"
    by (auto simp: escape_characters escaped_def split: if_splits)
  with Cons.IH t show ?case by blast
qed

lemma pointer_append: "foldl joinPointer base path = base @ concat (map (\<lambda>s. CHR ''/'' # escapePointerSegment s) path)"
  by (induction path arbitrary: base) (simp_all add: joinPointer_def)

lemma pointer_segments: "pathToPointer path = concat (map (\<lambda>s. CHR ''/'' # escapePointerSegment s) path)"
  by (simp add: pathToPointer_def pointer_append)

lemma clean_prefix:
  assumes "x @ r = y @ t" "CHR ''/'' \<notin> set x" "CHR ''/'' \<notin> set y" "r = [] \<or> hd r = CHR ''/''" "t = [] \<or> hd t = CHR ''/''"
  shows "x = y \<and> r = t"
  using assms
proof (induction x arbitrary: y)
  case Nil
  then show ?case by (cases y; cases r) auto
next
  case (Cons c x)
  then show ?case by (cases y; cases t) auto
qed

lemma pointer_injective: "pathToPointer p = pathToPointer q \<Longrightarrow> p = q"
proof (induction p arbitrary: q)
  case Nil
  then show ?case by (cases q) (auto simp: pointer_segments)
next
  case (Cons s p)
  then obtain t q' where q: "q = t # q'" by (cases q) (auto simp: pointer_segments)
  have start: "pathToPointer r = [] \<or> hd (pathToPointer r) = CHR ''/''" for r by (cases r) (auto simp: pointer_segments)
  from Cons.prems q have "escapePointerSegment s @ pathToPointer p = escapePointerSegment t @ pathToPointer q'"
    by (simp add: pointer_segments)
  from clean_prefix [OF this escaped_clean escaped_clean start start]
  have "s = t" "pathToPointer p = pathToPointer q'" by (auto dest: escape_injective)
  with Cons.IH q show ?case by blast
qed

lemma pointer_eq_iff [simp]: "pathToPointer p = pathToPointer q \<longleftrightarrow> p = q"
  using pointer_injective by blast

section \<open>Objects with distinct keys\<close>

text \<open>An object of the language has each own property once.\<close>

fun distinct_keys :: "json \<Rightarrow> bool"
and distinct_member_keys :: "(string \<times> json) list \<Rightarrow> bool" where
  "distinct_keys (JObj members) = (distinct (map fst members) \<and> distinct_member_keys members)"
| "distinct_keys value = True"
| "distinct_member_keys [] = True"
| "distinct_member_keys ((key, child) # members) = (distinct_keys child \<and> distinct_member_keys members)"

fun own_keys_distinct :: "js_value \<Rightarrow> bool"
and own_member_keys_distinct :: "(string \<times> js_value) list \<Rightarrow> bool" where
  "own_keys_distinct (V_obj members) = (distinct (map fst members) \<and> own_member_keys_distinct members)"
| "own_keys_distinct value = True"
| "own_member_keys_distinct [] = True"
| "own_member_keys_distinct ((key, child) # members) = (own_keys_distinct child \<and> own_member_keys_distinct members)"

lemma distinct_members_all: "distinct_member_keys members \<longleftrightarrow> (\<forall>(key, child) \<in> set members. distinct_keys child)"
  by (induction members) auto

lemma distinct_member: "distinct_member_keys members \<Longrightarrow> map_of members key = Some child \<Longrightarrow> distinct_keys child"
  by (auto simp: distinct_members_all dest: map_of_SomeD)

lemma member_keys_update: "distinct_member_keys members \<Longrightarrow> distinct_keys child \<Longrightarrow> distinct_member_keys (AList.update key child members)"
  by (induction members) auto

lemma sanitized_keys:
  "own_keys_distinct value \<Longrightarrow> fst (sanitizeConfigurationValue value path document) = Some j \<Longrightarrow> distinct_keys j"
  "own_member_keys_distinct members \<Longrightarrow>
     distinct_member_keys (fst (sanitize_members members path document)) \<and>
     set (map fst (fst (sanitize_members members path document))) \<subseteq> set (map fst members) \<and>
     (distinct (map fst members) \<longrightarrow> distinct (map fst (fst (sanitize_members members path document))))"
proof (induction "value" path document and members path document arbitrary: j
    rule: sanitizeConfigurationValue_sanitize_members.induct)
  case (10 key v members path document)
  obtain s ds where s: "sanitizeConfigurationValue v (path @ [key]) document = (s, ds)" by force
  obtain out ds' where out: "sanitize_members members path document = (out, ds')" by force
  from 10(1) [of "the s"] 10(2) [of "(s, ds)" s ds] 10(3) s out show ?case by (auto split: option.splits)
qed (auto split: if_splits prod.splits)

lemma sanitized_document_keys:
  "own_keys_distinct (cfg_values document) \<Longrightarrow> distinct_keys (cfg_values (fst (sanitize_document document)))"
  using sanitized_keys(1) [of "cfg_values document" "[]" document]
  by (auto simp: sanitize_document_def split: prod.splits option.splits)

section \<open>The merge\<close>

lemma map_of_merge:
  "distinct (map fst incoming) \<Longrightarrow>
   map_of (merge_members base incoming) key =
     (case map_of incoming key of None \<Rightarrow> map_of base key | Some child \<Rightarrow> Some (mergeJsonValue (map_of base key) child))"
proof (induction incoming arbitrary: base)
  case (Cons kv incoming)
  obtain k v where kv: "kv = (k, v)" by force
  with Cons show ?case by (auto simp: update_conv' map_of_eq_None_iff image_iff split: option.splits)
qed simp

lemma merge_plain: "\<not> isPlainObject incoming \<or> base = None \<or> \<not> isPlainObject (the base) \<Longrightarrow> mergeJsonValue base incoming = incoming"
  by (cases base; cases incoming; cases "the base") auto

lemma isPlainObjectE: assumes "isPlainObject v" obtains members where "v = JObj members"
  using assms by (cases v) auto

lemma merge_keys:
  "(\<forall>b. base = Some b \<longrightarrow> distinct_keys b) \<Longrightarrow> distinct_keys incoming \<Longrightarrow> distinct_keys (mergeJsonValue base incoming)"
  "distinct (map fst merged) \<Longrightarrow> distinct_member_keys merged \<Longrightarrow> distinct_member_keys members \<Longrightarrow>
     distinct (map fst (merge_members merged members)) \<and> distinct_member_keys (merge_members merged members)"
proof (induction base incoming and merged members rule: mergeJsonValue_merge_members.induct)
  case (4 merged key child incoming)
  have "distinct_keys (mergeJsonValue (map_of merged key) child)" using "4.IH"(1) "4.prems" distinct_member by fastforce
  with 4 show ?case by (simp add: distinct_update member_keys_update)
qed auto

lemma lookup_plain: "\<not> isPlainObject j \<Longrightarrow> path \<noteq> [] \<Longrightarrow> lookupPath j path = None"
  by (cases j; cases path) auto

text \<open>A leaf of a merge is a leaf of the later document, or of the earlier one where the later holds nothing.\<close>

lemma merged_leaf:
  assumes "lookupPath (mergeJsonValue base incoming) path = Some v" "\<not> isPlainObject v" "distinct_keys incoming"
  shows "lookupPath incoming path = Some v \<or>
    lookupPath incoming path = None \<and> (\<exists>b. base = Some b \<and> lookupPath b path = Some v)"
  using assms
proof (induction path arbitrary: base incoming)
  case Nil
  then show ?case by (cases "\<not> isPlainObject incoming \<or> base = None \<or> \<not> isPlainObject (the base)")
    (auto simp: merge_plain elim!: isPlainObjectE)
next
  case (Cons key path)
  show ?case
  proof (cases "\<not> isPlainObject incoming \<or> base = None \<or> \<not> isPlainObject (the base)")
    case True
    with Cons.prems show ?thesis by (simp add: merge_plain)
  next
    case False
    then obtain b i where objects: "base = Some (JObj b)" "incoming = JObj i" by (auto elim!: isPlainObjectE)
    with Cons.prems have found: "Option.bind (map_of (merge_members b i) key) (\<lambda>child. lookupPath child path) = Some v"
      and keys: "distinct (map fst i)" by auto
    show ?thesis
    proof (cases "map_of i key")
      case None
      with found keys objects show ?thesis by (simp add: map_of_merge)
    next
      case (Some child)
      with found keys have "lookupPath (mergeJsonValue (map_of b key) child) path = Some v" by (simp add: map_of_merge)
      from Cons.IH [OF this] Cons.prems(2,3) objects Some distinct_member [of i key child] show ?thesis
        by auto
    qed
  qed
qed

lemma merge_documents_snoc:
  "merge_documents (documents @ [d]) = mergeJsonValue (Some (merge_documents documents)) (cfg_values d)"
  by (simp add: merge_documents_def)

lemma merge_documents_keys:
  "\<forall>d \<in> set documents. distinct_keys (cfg_values d) \<Longrightarrow> distinct_keys (merge_documents documents)"
proof (induction documents rule: rev_induct)
  case Nil
  then show ?case by (simp add: merge_documents_def)
next
  case (snoc d documents)
  then show ?case by (simp add: merge_documents_snoc merge_keys(1))
qed

text \<open>The documents that hold a value at a path, least specific first.\<close>

definition holders :: "string list \<Rightarrow> json layer_document list \<Rightarrow> json layer_document list" where
  "holders path documents = filter (\<lambda>d. lookupPath (cfg_values d) path \<noteq> None) documents"

lemma merged_leaf_last:
  assumes "\<forall>d \<in> set documents. distinct_keys (cfg_values d)"
    "lookupPath (merge_documents documents) path = Some v" "\<not> isPlainObject v"
  shows "holders path documents \<noteq> [] \<and> lookupPath (cfg_values (last (holders path documents))) path = Some v"
  using assms
proof (induction documents rule: rev_induct)
  case Nil
  then show ?case by (cases path) (auto simp: merge_documents_def)
next
  case (snoc d documents)
  from merged_leaf [OF snoc.prems(2) [unfolded merge_documents_snoc] snoc.prems(3)] snoc show ?case
    by (auto simp: holders_def)
qed

section \<open>Leaves\<close>

lemma leaf_paths:
  "distinct_keys j \<Longrightarrow> path \<in> set (collectLeafPaths j start) \<longleftrightarrow>
     (\<exists>p v. path = start @ p \<and> lookupPath j p = Some v \<and> \<not> isPlainObject v)"
  "distinct (map fst members) \<Longrightarrow> distinct_member_keys members \<Longrightarrow> path \<in> set (member_leaf_paths members start) \<longleftrightarrow>
     (\<exists>key p child v. map_of members key = Some child \<and> path = start @ key # p \<and> lookupPath child p = Some v \<and> \<not> isPlainObject v)"
proof (induction j start and members start rule: collectLeafPaths_member_leaf_paths.induct)
  case (1 members start)
  have split: "(\<exists>p v. path = start @ p \<and> lookupPath (JObj members) p = Some v \<and> \<not> isPlainObject v) \<longleftrightarrow>
    (\<exists>key p child v. map_of members key = Some child \<and> path = start @ key # p \<and> lookupPath child p = Some v \<and> \<not> isPlainObject v)"
    (is "?l = ?r")
  proof
    assume ?l
    then obtain p v where p: "path = start @ p" "lookupPath (JObj members) p = Some v" "\<not> isPlainObject v" by blast
    then show ?r by (cases p) (auto simp: Option.bind_eq_Some_conv)
  next
    assume ?r
    then obtain key p child v where "map_of members key = Some child" "path = start @ key # p"
      "lookupPath child p = Some v" "\<not> isPlainObject v" by blast
    then show ?l by (intro exI [of _ "key # p"]) auto
  qed
  with 1 show ?case by simp
next
  case (4 key child members start)
  from "4.prems" have fresh: "map_of members key = None" by (simp add: map_of_eq_None_iff)
  with 4 show ?case by (fastforce split: if_splits)
qed (auto simp: lookup_plain elim: list.exhaust dest: lookup_plain [rotated] intro: ccontr)

section \<open>Edits\<close>

lemma apply_plain:
  "\<not> isPlainObject j \<Longrightarrow> applyEdits j start edits =
     (case map_of edits (pathToPointer start) of None \<Rightarrow> Some j | Some Edit_delete \<Rightarrow> None | Some (Edit_set v) \<Rightarrow> Some v)"
  by (cases j) auto

lemma map_of_edit_members:
  "distinct (map fst members) \<Longrightarrow> map_of (edit_members members start edits) key =
     Option.bind (map_of members key) (\<lambda>child. applyEdits child (start @ [key]) edits)"
proof (induction members)
  case (Cons kv members)
  obtain k v where kv: "kv = (k, v)" by force
  with Cons.prems have "map_of members k = None" by (simp add: map_of_eq_None_iff)
  with Cons kv show ?case by (auto split: option.splits)
qed simp

lemma edit_read_back:
  assumes "distinct_keys j" "lookupPath j path = Some v" "\<not> isPlainObject v"
    "map_of edits (pathToPointer (start @ path)) = Some (Edit_set w)"
  shows "\<exists>r. applyEdits j start edits = Some r \<and> lookupPath r path = Some w"
  using assms
proof (induction path arbitrary: j start)
  case Nil
  then show ?case by (simp add: apply_plain)
next
  case (Cons key path)
  then obtain members child where child: "j = JObj members" "map_of members key = Some child" "lookupPath child path = Some v"
    by (cases j) (auto simp: Option.bind_eq_Some_conv)
  with Cons.prems have "distinct_keys child" by (auto intro: distinct_member)
  from Cons.IH [OF this child(3) Cons.prems(3), of "start @ [key]"] Cons.prems(4)
  obtain r where "applyEdits child (start @ [key]) edits = Some r" "lookupPath r path = Some w" by auto
  with child Cons.prems(1) show ?case by (simp add: map_of_edit_members)
qed

lemma edited_leaf:
  assumes "distinct_keys j" "\<forall>p v. lookupPath j p = Some v \<longrightarrow> \<not> isPlainObject v \<longrightarrow> map_of edits (pathToPointer (start @ p)) \<noteq> None"
    "applyEdits j start edits = Some r" "lookupPath r q = Some u" "\<not> isPlainObject u"
  shows "\<exists>p s v w. q = p @ s \<and> lookupPath j p = Some v \<and> \<not> isPlainObject v \<and>
    map_of edits (pathToPointer (start @ p)) = Some (Edit_set w) \<and> lookupPath w s = Some u"
  using assms
proof (induction q arbitrary: j start r)
  case Nil
  show ?case
  proof (cases "isPlainObject j")
    case True
    with Nil show ?thesis by (auto elim!: isPlainObjectE)
  next
    case False
    with Nil(2) [rule_format, of "[]" j] Nil(3,4) show ?thesis
      by (intro exI [of _ "[]"]) (auto simp: apply_plain split: option.splits leaf_edit.splits)
  qed
next
  case (Cons key q)
  show ?case
  proof (cases "isPlainObject j")
    case False
    with Cons.prems(2) [rule_format, of "[]" j] Cons.prems(3,4) show ?thesis
      by (intro exI [of _ "[]"] exI [of _ "key # q"]) (auto simp: apply_plain split: option.splits leaf_edit.splits)
  next
    case True
    then obtain members where j: "j = JObj members" by (rule isPlainObjectE)
    with Cons.prems(1,3,4) obtain child r' where child: "map_of members key = Some child"
      "applyEdits child (start @ [key]) edits = Some r'" "lookupPath r' q = Some u"
      by (auto simp: map_of_edit_members Option.bind_eq_Some_conv)
    from j child(1) Cons.prems(1) have "distinct_keys child" by (auto intro: distinct_member)
    moreover from Cons.prems(2) [rule_format, of "key # _"] j child(1)
    have "\<forall>p v. lookupPath child p = Some v \<longrightarrow> \<not> isPlainObject v \<longrightarrow> map_of edits (pathToPointer ((start @ [key]) @ p)) \<noteq> None"
      by auto
    ultimately obtain p s v w where "q = p @ s" "lookupPath child p = Some v" "\<not> isPlainObject v"
      "map_of edits (pathToPointer ((start @ [key]) @ p)) = Some (Edit_set w)" "lookupPath w s = Some u"
      using Cons.IH [OF _ _ child(2,3) Cons.prems(5)] by blast
    with j child(1) show ?thesis by (intro exI [of _ "key # p"] exI [of _ s]) auto
  qed
qed

end
