(* ===== verification/Config_Policy.thy ===== *)
theory Config_Policy
  imports Config_Merge
begin

text \<open>
  The winner of a chain: a rule that compares measured values keeps one that no other value of the chain beats.
\<close>

section \<open>Rules that keep the strictest value\<close>

definition strictest_at :: "(json \<Rightarrow> 'm option) \<Rightarrow> ('m \<Rightarrow> 'm \<Rightarrow> bool) \<Rightarrow> provenance_entry list \<Rightarrow> (nat \<times> 'm) option \<Rightarrow> bool" where
  "strictest_at measured stricter chain best =
     (case best of
        None \<Rightarrow> (\<forall>entry \<in> set chain. measured (ent_value entry) = None)
      | Some (i, m) \<Rightarrow> i < length chain \<and> measured (ent_value (chain ! i)) = Some m \<and>
          (\<forall>entry \<in> set chain. \<forall>n. measured (ent_value entry) = Some n \<longrightarrow> \<not> stricter n m))"

locale strictness =
  fixes measured :: "json \<Rightarrow> 'm option" and stricter :: "'m \<Rightarrow> 'm \<Rightarrow> bool"
  assumes irreflexive: "\<not> stricter m m"
    and transitive: "stricter l m \<Longrightarrow> stricter m n \<Longrightarrow> stricter l n"
begin

lemma strictest_step:
  assumes "strictest_at measured stricter before best" "measured (ent_value entry) = Some m"
  shows "strictest_at measured stricter (before @ [entry])
    (case best of None \<Rightarrow> Some (length before, m) | Some (_, n) \<Rightarrow> if stricter m n then Some (length before, m) else best)"
proof (cases best)
  case None
  with assms show ?thesis by (auto simp: strictest_at_def irreflexive)
next
  case (Some im)
  obtain i n where best: "best = Some (i, n)" using Some by (cases im) simp
  with assms(1) have i: "i < length before" "measured (ent_value (before ! i)) = Some n"
    and least: "\<forall>e \<in> set before. \<forall>l. measured (ent_value e) = Some l \<longrightarrow> \<not> stricter l n" by (auto simp: strictest_at_def)
  show ?thesis
  proof (cases "stricter m n")
    case False
    with best i least assms(2) show ?thesis by (auto simp: strictest_at_def nth_append)
  next
    case True
    with least have "\<forall>e \<in> set before. \<forall>l. measured (ent_value e) = Some l \<longrightarrow> \<not> stricter l m" using transitive by blast
    with True best assms(2) show ?thesis by (auto simp: strictest_at_def irreflexive)
  qed
qed

lemma scan_strictest:
  "strictest_at measured stricter before best \<Longrightarrow>
   strictest_at measured stricter (before @ chain) (fst (scan_chain measured stricter incomparable (length before) best chain))"
proof (induction chain arbitrary: before best)
  case (Cons entry chain)
  show ?case
  proof (cases "measured (ent_value entry)")
    case None
    with Cons.prems have "strictest_at measured stricter (before @ [entry]) best"
      by (auto simp: strictest_at_def nth_append split: option.splits)
    from Cons.IH [OF this] None show ?thesis by (auto split: prod.splits)
  next
    case (Some m)
    from Cons.IH [OF strictest_step [OF Cons.prems Some]] Some show ?thesis by simp
  qed
qed simp

lemma rule_within: "w < length chain \<Longrightarrow> fst (strictest_rule measured stricter incomparable blocked chain w) < length chain"
  using scan_strictest [of "[]" None chain incomparable]
  by (auto simp: strictest_rule_def strictest_at_def split: prod.splits option.splits)

lemma rule_strictest:
  assumes "entry \<in> set chain" "measured (ent_value entry) = Some n"
  shows "\<exists>m. measured (ent_value (chain ! fst (strictest_rule measured stricter incomparable blocked chain w))) = Some m \<and> \<not> stricter n m"
  using scan_strictest [of "[]" None chain incomparable] assms
  by (auto simp: strictest_rule_def strictest_at_def split: prod.splits option.splits)

end

interpretation limits: strictness limit_magnitude "stricter_limit s" for s
proof unfold_locales
  show "\<not> stricter_limit s m m" for m by (simp add: stricter_limit_def split: strictest.splits)
  show "stricter_limit s l n" if "stricter_limit s l m" "stricter_limit s m n" for l m n
    using that by (auto simp: stricter_limit_def intro: num_less_trans split: strictest.splits)
qed

interpretation ranks: strictness "\<lambda>v. privacyRank v strictestFirst" "(<) :: nat \<Rightarrow> nat \<Rightarrow> bool" for strictestFirst
  by unfold_locales auto

section \<open>The winner of a chain\<close>

lemma limit_rule_within: "w < length chain \<Longrightarrow> fst (limit_rule pointer policy chain w) < length chain"
  by (auto simp: limit_rule_def limits.rule_within split: option.splits)

lemma privacy_rule_within: "w < length chain \<Longrightarrow> fst (privacy_rule pointer policy chain w) < length chain"
  by (auto simp: privacy_rule_def ranks.rule_within split: option.splits)

lemma winner_of:
  "cr_winner (resolveChain pointer chain policy) =
     chain ! fst (privacy_rule pointer policy chain (fst (limit_rule pointer policy chain (length chain - 1))))"
  by (simp add: resolveChain_def Let_def split: prod.splits)

lemma winner_in_chain: "chain \<noteq> [] \<Longrightarrow> cr_winner (resolveChain pointer chain policy) \<in> set chain"
  by (simp add: winner_of privacy_rule_within limit_rule_within)

lemma winner_private:
  assumes "map_of (ip_privacy policy) pointer = Some order" "entry \<in> set chain" "privacyRank (ent_value entry) order = Some n"
  shows "\<exists>m. privacyRank (ent_value (cr_winner (resolveChain pointer chain policy))) order = Some m \<and> m \<le> n"
  using ranks.rule_strictest [of entry chain order n] assms by (simp add: winner_of privacy_rule_def not_less)

lemma winner_limited:
  assumes "map_of (ip_hardLimits policy) pointer = Some s" "map_of (ip_privacy policy) pointer = None"
    "entry \<in> set chain" "limit_magnitude (ent_value entry) = Some n"
  shows "\<exists>m. limit_magnitude (ent_value (cr_winner (resolveChain pointer chain policy))) = Some m \<and> \<not> stricter_limit s n m"
  using limits.rule_strictest [of entry chain n s] assms by (simp add: winner_of privacy_rule_def limit_rule_def)

lemma winner_last:
  "map_of (ip_hardLimits policy) pointer = None \<Longrightarrow> map_of (ip_privacy policy) pointer = None \<Longrightarrow> chain \<noteq> [] \<Longrightarrow>
   cr_winner (resolveChain pointer chain policy) = last chain"
  by (simp add: winner_of privacy_rule_def limit_rule_def last_conv_nth)

section \<open>The chain of a leaf\<close>

lemma leaf_chain_entries:
  "fst (leaf_chain policy path documents) =
     map (\<lambda>d. entryOf d (the (lookupPath (cfg_values d) path)))
       (filter (gate_open policy (pathToPointer path)) (holders path documents))"
  by (induction documents) (auto simp: holders_def gate_open_def split: prod.splits)

lemma chain_entry:
  "entry \<in> set (fst (leaf_chain policy path documents)) \<longleftrightarrow>
     (\<exists>d v. d \<in> set documents \<and> gate_open policy (pathToPointer path) d \<and> lookupPath (cfg_values d) path = Some v \<and> entry = entryOf d v)"
  by (force simp: leaf_chain_entries holders_def)

end
