(* ===== verification/Config_Safety.thy ===== *)
theory Config_Safety
  imports Config_Policy
begin

text \<open>
  What a resolved configuration guarantees: every leaf of it was written by a permitted layer that is credited for
  it, privacy settings and hard limits keep their strictest value, and without rules the result is the plain merge.
\<close>

definition layer_documents :: "js_value layer_document list \<Rightarrow> json layer_document list" where
  "layer_documents inputs = map (fst \<circ> sanitize_document) (sortConfigurationDocuments inputs)"

abbreviation winner_at :: "indexed_policy \<Rightarrow> json layer_document list \<Rightarrow> string list \<Rightarrow> provenance_entry" where
  "winner_at policy documents path \<equiv>
     cr_winner (resolveChain (pathToPointer path) (fst (leaf_chain policy path documents)) policy)"

section \<open>Resolved leaves\<close>

lemma resolve_leaf_deleted: "fst (leaf_chain policy path documents) = [] \<Longrightarrow>
    lr_edit (resolve_leaf policy documents path) = Edit_delete \<and> lr_provenance (resolve_leaf policy documents path) = []"
  by (cases "leaf_chain policy path documents") (simp add: resolve_leaf_def Let_def)

lemma resolve_leaf_set: "fst (leaf_chain policy path documents) \<noteq> [] \<Longrightarrow>
    lr_edit (resolve_leaf policy documents path) = Edit_set (ent_value (winner_at policy documents path)) \<and>
    (\<exists>credit. lr_provenance (resolve_leaf policy documents path) = [credit] \<and>
       pv_pointer credit = pathToPointer path \<and> pv_winner credit = winner_at policy documents path)"
  by (cases "leaf_chain policy path documents") (simp add: resolve_leaf_def Let_def)

lemma leaf_edit_at:
  "map_of (leaf_edits policy documents paths) (pathToPointer path) =
     (if path \<in> set paths then Some (lr_edit (resolve_leaf policy documents path)) else None)"
proof -
  have "map_of (map (\<lambda>p. (pathToPointer p, f p)) ps) (pathToPointer path) = (if path \<in> set ps then Some (f path) else None)"
    for f :: "string list \<Rightarrow> leaf_edit" and ps by (induction ps) auto
  from this [of _ "rev paths"] show ?thesis by (simp add: leaf_edits_def get_js_map_of rev_map)
qed

definition well_keyed :: "js_value layer_document list \<Rightarrow> bool" where
  "well_keyed inputs \<longleftrightarrow> list_all (\<lambda>d. own_keys_distinct (cfg_values d)) inputs"

abbreviation merged_input :: "js_value layer_document list \<Rightarrow> json" where
  "merged_input inputs \<equiv> merge_documents (layer_documents inputs)"

lemma document_keys: "well_keyed inputs \<Longrightarrow> \<forall>d \<in> set (layer_documents inputs). distinct_keys (cfg_values d)"
  by (auto simp: layer_documents_def sortConfigurationDocuments_def well_keyed_def list_all_iff sanitized_document_keys)

lemmas merged_keys = merge_documents_keys [OF document_keys]

lemma merged_leaf_paths:
  "well_keyed inputs \<Longrightarrow> path \<in> set (collectLeafPaths (merged_input inputs) []) \<longleftrightarrow>
     (\<exists>v. lookupPath (merged_input inputs) path = Some v \<and> \<not> isPlainObject v)"
  using leaf_paths(1) [OF merged_keys, of inputs path "[]"] by auto

lemma resolved_values:
  "rcf_values (resolveConfiguration inputs rules) =
     (case applyEdits (merged_input inputs) []
             (leaf_edits (indexConfigurationPolicy rules) (layer_documents inputs) (collectLeafPaths (merged_input inputs) [])) of
        None \<Rightarrow> JObj [] | Some values \<Rightarrow> values)"
  by (simp add: resolveConfiguration_def Let_def layer_documents_def)

lemma resolved_provenance:
  "credit \<in> set (rcf_provenance (resolveConfiguration inputs rules)) \<longleftrightarrow>
     (\<exists>path \<in> set (collectLeafPaths (merged_input inputs) []).
        credit \<in> set (lr_provenance (resolve_leaf (indexConfigurationPolicy rules) (layer_documents inputs) path)))"
  by (auto simp: resolveConfiguration_def Let_def layer_documents_def)

text \<open>A record stands for one leaf of the merge, and the resolved document holds the winner there.\<close>

lemma recorded_leaf:
  assumes "well_keyed inputs" "credit \<in> set (rcf_provenance (resolveConfiguration inputs rules))" "pv_pointer credit = pathToPointer path"
  shows "fst (leaf_chain (indexConfigurationPolicy rules) path (layer_documents inputs)) \<noteq> [] \<and>
    pv_winner credit = winner_at (indexConfigurationPolicy rules) (layer_documents inputs) path \<and>
    lookupPath (rcf_values (resolveConfiguration inputs rules)) path = Some (ent_value (pv_winner credit))"
proof -
  let ?policy = "indexConfigurationPolicy rules" and ?documents = "layer_documents inputs"
  let ?chain = "fst (leaf_chain ?policy path ?documents)" and ?paths = "collectLeafPaths (merged_input inputs) []"
  from assms(2) obtain q where q: "q \<in> set ?paths"
    "credit \<in> set (lr_provenance (resolve_leaf ?policy ?documents q))" by (auto simp: resolved_provenance)
  with assms(3) have nonempty: "?chain \<noteq> []" and "q = path"
    using resolve_leaf_deleted [of ?policy q ?documents] resolve_leaf_set [of ?policy q ?documents]
    by (cases "fst (leaf_chain ?policy q ?documents) = []"; auto)+
  with q resolve_leaf_set [OF nonempty] have winner: "pv_winner credit = winner_at ?policy ?documents path"
    and edit: "map_of (leaf_edits ?policy ?documents ?paths) (pathToPointer path) = Some (Edit_set (ent_value (pv_winner credit)))"
    by (auto simp: leaf_edit_at)
  from q(1) \<open>q = path\<close> merged_leaf_paths [OF assms(1)] obtain v
    where "lookupPath (merged_input inputs) path = Some v" "\<not> isPlainObject v" by blast
  from edit_read_back [OF merged_keys [OF assms(1)] this, of "leaf_edits ?policy ?documents ?paths" "[]"] edit nonempty winner
  show ?thesis by (auto simp: resolved_values)
qed

lemma resolved_leaf:
  assumes keys: "well_keyed inputs" and leaf: "lookupPath (rcf_values (resolveConfiguration inputs rules)) path = Some v" "\<not> isPlainObject v"
  obtains credit p s where "credit \<in> set (rcf_provenance (resolveConfiguration inputs rules))" "path = p @ s"
    "pv_pointer credit = pathToPointer p" "lookupPath (ent_value (pv_winner credit)) s = Some v"
proof -
  let ?policy = "indexConfigurationPolicy rules" and ?documents = "layer_documents inputs"
  let ?paths = "collectLeafPaths (merged_input inputs) []"
  obtain r where r: "applyEdits (merged_input inputs) [] (leaf_edits ?policy ?documents ?paths) = Some r"
    "lookupPath r path = Some v"
    using leaf by (cases path) (auto simp: resolved_values split: option.splits)
  have edits: "\<forall>p v. lookupPath (merged_input inputs) p = Some v \<longrightarrow> \<not> isPlainObject v \<longrightarrow>
      map_of (leaf_edits ?policy ?documents ?paths) (pathToPointer ([] @ p)) \<noteq> None"
    using merged_leaf_paths [OF keys] by (simp add: leaf_edit_at)
  from edited_leaf [OF merged_keys [OF keys] edits r leaf(2)] obtain p s w where p: "path = p @ s"
    "p \<in> set ?paths" "lr_edit (resolve_leaf ?policy ?documents p) = Edit_set w" "lookupPath w s = Some v"
    by (auto simp: leaf_edit_at split: if_splits)
  then have "fst (leaf_chain ?policy p ?documents) \<noteq> []" using resolve_leaf_deleted by fastforce
  from resolve_leaf_set [OF this] p(3) obtain credit where "lr_provenance (resolve_leaf ?policy ?documents p) = [credit]"
    "pv_pointer credit = pathToPointer p" "ent_value (pv_winner credit) = w" by auto
  with p that [of credit p s] show thesis by (fastforce simp: resolved_provenance)
qed

section \<open>Without rules\<close>

lemma apply_same:
  "distinct_keys j \<Longrightarrow> \<forall>p v. lookupPath j p = Some v \<longrightarrow> \<not> isPlainObject v \<longrightarrow>
     map_of edits (pathToPointer (start @ p)) = Some (Edit_set v) \<Longrightarrow> applyEdits j start edits = Some j"
  "distinct (map fst members) \<Longrightarrow> distinct_member_keys members \<Longrightarrow>
     \<forall>key child p v. map_of members key = Some child \<longrightarrow> lookupPath child p = Some v \<longrightarrow> \<not> isPlainObject v \<longrightarrow>
       map_of edits (pathToPointer (start @ key # p)) = Some (Edit_set v) \<Longrightarrow> edit_members members start edits = members"
proof (induction j start edits and members start edits rule: applyEdits_edit_members.induct)
  case (1 members start edits)
  from "1.prems"(2) have "\<forall>key child p v. map_of members key = Some child \<longrightarrow> lookupPath child p = Some v \<longrightarrow>
      \<not> isPlainObject v \<longrightarrow> map_of edits (pathToPointer (start @ key # p)) = Some (Edit_set v)"
    by (auto dest: spec [of _ "_ # _"])
  with 1 show ?case by simp
next
  case (4 key child members start edits)
  from "4.prems"(1) have fresh: "map_of members key = None" by (simp add: map_of_eq_None_iff)
  from "4.prems"(3) [rule_format, of key child] have "applyEdits child (start @ [key]) edits = Some child"
    using "4.prems"(2) by (intro "4.IH"(1)) auto
  moreover from "4.prems"(3) fresh have "\<forall>k child p v. map_of members k = Some child \<longrightarrow> lookupPath child p = Some v \<longrightarrow>
      \<not> isPlainObject v \<longrightarrow> map_of edits (pathToPointer (start @ k # p)) = Some (Edit_set v)" by (metis map_of_Cons_code(2) option.distinct(1))
  ultimately show ?case using 4 by simp
qed (auto dest: spec [of _ "[]"])

lemma unruled_winner:
  assumes "well_keyed inputs" "\<forall>d \<in> set inputs. cfg_layer d \<noteq> L_invocation_override"
    "lookupPath (merged_input inputs) path = Some v" "\<not> isPlainObject v"
  shows "fst (leaf_chain (indexConfigurationPolicy []) path (layer_documents inputs)) \<noteq> [] \<and>
    ent_value (winner_at (indexConfigurationPolicy []) (layer_documents inputs) path) = v"
proof -
  let ?chain = "fst (leaf_chain (indexConfigurationPolicy []) path (layer_documents inputs))"
  have "cfg_layer (fst (sanitize_document d)) = cfg_layer d" for d by (simp add: sanitize_document_def split: prod.splits)
  with assms(2) have "\<forall>d \<in> set (layer_documents inputs). gate_open (indexConfigurationPolicy []) (pathToPointer path) d"
    by (auto simp: layer_documents_def sortConfigurationDocuments_def gate_open_def INVOCATION_OVERRIDE_LAYER_def)
  then have "?chain = map (\<lambda>d. entryOf d (the (lookupPath (cfg_values d) path))) (holders path (layer_documents inputs))"
    by (auto simp: leaf_chain_entries holders_def intro!: arg_cong [of _ _ "map _"] filter_cong)
  with merged_leaf_last [OF document_keys [OF assms(1)] assms(3,4)]
  have "?chain \<noteq> [] \<and> ent_value (last ?chain) = v" by (simp add: last_map entryOf_def)
  then show ?thesis by (simp add: winner_last indexConfigurationPolicy_def)
qed

lemma resolved_without_rules:
  assumes keys: "well_keyed inputs" and layers: "\<forall>d \<in> set inputs. cfg_layer d \<noteq> L_invocation_override"
  shows "rcf_values (resolveConfiguration inputs []) = merged_input inputs"
proof -
  have "applyEdits (merged_input inputs) [] (leaf_edits (indexConfigurationPolicy []) (layer_documents inputs)
      (collectLeafPaths (merged_input inputs) [])) = Some (merged_input inputs)"
    using merged_leaf_paths [OF keys] unruled_winner [OF keys layers]
    by (intro apply_same(1) merged_keys [OF keys]) (auto simp: leaf_edit_at resolve_leaf_set)
  then show ?thesis by (simp add: resolved_values)
qed

section \<open>The rules, read on their list\<close>

text \<open>
  What a rule asks for, stated on the list of rules and on the values: a later rule replaces an earlier one of the
  same kind for the same pointer; a value stands at a place of a privacy order; a limit amounts to a number,
  written as one or as a duration.
\<close>

definition may_write :: "configuration_rule list \<Rightarrow> string list \<Rightarrow> json layer_document \<Rightarrow> bool" where
  "may_write rules path d \<longleftrightarrow> cfg_layer d \<noteq> L_invocation_override \<or> Rule_overridable (pathToPointer path) \<in> set rules"

definition privacy_ordered :: "configuration_rule list \<Rightarrow> string list \<Rightarrow> json list \<Rightarrow> bool" where
  "privacy_ordered rules path order \<longleftrightarrow> (\<exists>earlier later. rules = earlier @ Rule_ordered_privacy (pathToPointer path) order # later \<and>
     (\<forall>other. Rule_ordered_privacy (pathToPointer path) other \<notin> set later))"

definition limited :: "configuration_rule list \<Rightarrow> string list \<Rightarrow> strictest \<Rightarrow> bool" where
  "limited rules path s \<longleftrightarrow> (\<exists>earlier later. rules = earlier @ Rule_hard_limit (pathToPointer path) s # later \<and>
     (\<forall>other. Rule_hard_limit (pathToPointer path) other \<notin> set later))"

definition stands_at :: "json list \<Rightarrow> json \<Rightarrow> nat \<Rightarrow> bool" where
  "stands_at order v i \<longleftrightarrow> i < length order \<and> strict_equal (order ! i) v \<and> (\<forall>j < i. \<not> strict_equal (order ! j) v)"

definition amounts_to :: "json \<Rightarrow> js_number \<Rightarrow> bool" where
  "amounts_to v n \<longleftrightarrow> v = JNum n \<and> is_finite_num n \<or>
     (\<exists>digits unit ms q. v = JStr (digits @ unit) \<and> digits \<noteq> [] \<and> list_all is_digit digits \<and>
        (unit, ms) \<in> {(''ms'', 1), (''s'', 1000), (''m'', 60000), (''h'', 3600000), (''d'', 86400000)} \<and>
        number_of_decimal digits = Fin q \<and> n = round_double False (fst (quotient_of q) * int ms) (snd (quotient_of q)))"

definition laxer :: "strictest \<Rightarrow> js_number \<Rightarrow> js_number \<Rightarrow> bool" where
  "laxer s m n \<longleftrightarrow> (s = Lower \<and> num_less n m) \<or> (s = Higher \<and> num_less m n)"

lemma index_kept:
  "(\<forall>order. Rule_ordered_privacy p order \<notin> set rules) \<Longrightarrow> map_of (ip_privacy (fold index_rule rules ip)) p = map_of (ip_privacy ip) p"
  "(\<forall>s. Rule_hard_limit p s \<notin> set rules) \<Longrightarrow> map_of (ip_hardLimits (fold index_rule rules ip)) p = map_of (ip_hardLimits ip) p"
proof (induction rules arbitrary: ip)
  case (Cons r rules)
  { case 1 then show ?case using Cons.IH(1) [of "index_rule r ip"] by (cases r) (auto simp: js_simps) }
  { case 2 then show ?case using Cons.IH(2) [of "index_rule r ip"] by (cases r) (auto simp: js_simps) }
qed simp_all

lemma index_overridable: "set (ip_overridable (fold index_rule rules ip)) = set (ip_overridable ip) \<union> {p. Rule_overridable p \<in> set rules}"
proof (induction rules arbitrary: ip)
  case (Cons r rules)
  then show ?case by (cases r) auto
qed simp

lemma gate_may_write: "gate_open (indexConfigurationPolicy rules) (pathToPointer path) d \<longleftrightarrow> may_write rules path d"
  by (auto simp: gate_open_def may_write_def INVOCATION_OVERRIDE_LAYER_def indexConfigurationPolicy_def index_overridable)

lemma privacy_indexed:
  "privacy_ordered rules path order \<Longrightarrow> map_of (ip_privacy (indexConfigurationPolicy rules)) (pathToPointer path) = Some order"
  by (auto simp: privacy_ordered_def indexConfigurationPolicy_def index_kept(1) js_simps)

lemma unordered_indexed:
  "(\<forall>order. Rule_ordered_privacy (pathToPointer path) order \<notin> set rules) \<Longrightarrow>
   map_of (ip_privacy (indexConfigurationPolicy rules)) (pathToPointer path) = None"
  by (simp add: indexConfigurationPolicy_def index_kept(1))

lemma limit_indexed:
  "limited rules path s \<Longrightarrow> map_of (ip_hardLimits (indexConfigurationPolicy rules)) (pathToPointer path) = Some s"
  by (auto simp: limited_def indexConfigurationPolicy_def index_kept(2) js_simps)

lemma rank_stands: "privacyRank v order = Some i \<longleftrightarrow> stands_at order v i"
proof -
  have f: "map_option fst (find (\<lambda>(_, c). strict_equal c v) (indexed order)) = Some i \<longleftrightarrow> stands_at order v i"
    by (auto simp: indexed_def find_Some_iff stands_at_def) (rule exI [of _ "order ! i"], rule exI [of _ i], simp)
  have "\<not> strict_equal c v" if "isPlainObject v \<or> (\<exists>vs. v = JArr vs)" for c using that by (cases c; cases v) auto
  then show ?thesis using f by (cases v) (auto simp: privacyRank_def stands_at_def)
qed

lemma duration_split:
  assumes "list_all is_digit digits" "(unit, ms) \<in> set DURATION_UNIT_MS"
  shows "takeWhile is_digit (digits @ unit) = digits" "dropWhile is_digit (digits @ unit) = unit" "map_of DURATION_UNIT_MS unit = Some ms"
proof -
  have "unit \<noteq> []" "\<not> is_digit (hd unit)" "map_of DURATION_UNIT_MS unit = Some ms"
    using assms(2) by (auto simp: DURATION_UNIT_MS_def is_digit_def)
  then show "takeWhile is_digit (digits @ unit) = digits" "dropWhile is_digit (digits @ unit) = unit" "map_of DURATION_UNIT_MS unit = Some ms"
    using assms(1) by (cases unit; simp add: list_all_iff)+
qed

lemma duration_amounts:
  "hardLimitMagnitude value = Some n \<longleftrightarrow> (\<exists>digits unit ms q. value = digits @ unit \<and> digits \<noteq> [] \<and> list_all is_digit digits \<and>
     (unit, ms) \<in> set DURATION_UNIT_MS \<and> number_of_decimal digits = Fin q \<and>
     n = round_double False (fst (quotient_of q) * int ms) (snd (quotient_of q)))"
  (is "_ \<longleftrightarrow> ?r")
proof
  assume "hardLimitMagnitude value = Some n"
  then obtain ms q where "map_of DURATION_UNIT_MS (dropWhile is_digit value) = Some ms" "takeWhile is_digit value \<noteq> []"
    "number_of_decimal (takeWhile is_digit value) = Fin q" "n = round_double False (fst (quotient_of q) * int ms) (snd (quotient_of q))"
    by (auto simp: hardLimitMagnitude_def Let_def split: option.splits if_splits js_number.splits)
  moreover have "list_all is_digit (takeWhile is_digit value)" by (auto simp: list_all_iff dest: set_takeWhileD)
  ultimately show ?r
    by (intro exI [of _ "takeWhile is_digit value"] exI [of _ "dropWhile is_digit value"] exI [of _ ms] exI [of _ q])
      (simp add: map_of_SomeD)
next
  assume ?r
  then obtain digits unit ms q where d: "value = digits @ unit" "digits \<noteq> []" "list_all is_digit digits" "(unit, ms) \<in> set DURATION_UNIT_MS"
    "number_of_decimal digits = Fin q" "n = round_double False (fst (quotient_of q) * int ms) (snd (quotient_of q))" by blast
  with duration_split [OF d(3,4)] show "hardLimitMagnitude value = Some n" by (simp add: hardLimitMagnitude_def Let_def)
qed

lemma magnitude_amounts: "limit_magnitude v = Some n \<longleftrightarrow> amounts_to v n"
proof (cases v)
  case (JStr s)
  have "set DURATION_UNIT_MS = {(''ms'', 1), (''s'', 1000), (''m'', 60000), (''h'', 3600000), (''d'', 86400000)}"
    by (simp add: DURATION_UNIT_MS_def)
  with JStr show ?thesis by (simp only: limit_magnitude_def amounts_to_def json.case json.inject json.distinct duration_amounts simp_thms)
qed (auto simp: limit_magnitude_def amounts_to_def)

lemma stricter_laxer: "\<not> stricter_limit s n m \<longleftrightarrow> \<not> laxer s m n"
  by (cases s) (simp_all add: stricter_limit_def laxer_def)

section \<open>Documents of the same shape\<close>

text \<open>Objects all along the path and a leaf at its end, as far as the document goes there at all.\<close>

fun leaf_shaped :: "json \<Rightarrow> string list \<Rightarrow> bool" where
  "leaf_shaped j [] = (\<not> isPlainObject j)"
| "leaf_shaped (JObj members) (key # path) = (case map_of members key of None \<Rightarrow> True | Some child \<Rightarrow> leaf_shaped child path)"
| "leaf_shaped j (key # path) = False"

lemma merge_shaped:
  "leaf_shaped base path \<Longrightarrow> leaf_shaped incoming path \<Longrightarrow> distinct_keys incoming \<Longrightarrow>
   leaf_shaped (mergeJsonValue (Some base) incoming) path \<and>
   lookupPath (mergeJsonValue (Some base) incoming) path =
     (case lookupPath incoming path of None \<Rightarrow> lookupPath base path | Some v \<Rightarrow> Some v)"
proof (induction path arbitrary: base incoming)
  case Nil
  then show ?case by (simp add: merge_plain)
next
  case (Cons key path)
  then obtain b i where objects: "base = JObj b" "incoming = JObj i" by (cases base; cases incoming) auto
  with Cons.prems have keys: "distinct (map fst i)" by simp
  show ?case
  proof (cases "map_of i key")
    case None
    with Cons.prems keys objects show ?thesis by (simp add: map_of_merge)
  next
    case child: (Some c)
    show ?thesis
    proof (cases "map_of b key")
      case None
      with child Cons.prems keys objects show ?thesis by (simp add: map_of_merge split: option.splits)
    next
      case (Some a)
      with child Cons.prems objects have "leaf_shaped a path" "leaf_shaped c path" "distinct_keys c" by (auto intro: distinct_member)
      from Cons.IH [OF this] have IH: "leaf_shaped (mergeJsonValue (Some a) c) path"
        "lookupPath (mergeJsonValue (Some a) c) path = (case lookupPath c path of None \<Rightarrow> lookupPath a path | Some v \<Rightarrow> Some v)" by blast+
      show ?thesis unfolding objects using Some child keys IH by (cases "lookupPath c path") (simp_all add: map_of_merge)
    qed
  qed
qed

lemma merged_shaped:
  assumes "\<forall>d \<in> set documents. distinct_keys (cfg_values d) \<and> leaf_shaped (cfg_values d) path" "path \<noteq> []"
  shows "leaf_shaped (merge_documents documents) path \<and>
    ((\<exists>d \<in> set documents. lookupPath (cfg_values d) path \<noteq> None) \<longrightarrow> lookupPath (merge_documents documents) path \<noteq> None)"
  using assms(1)
proof (induction documents rule: rev_induct)
  case Nil
  then show ?case using assms(2) by (cases path) (simp_all add: merge_documents_def)
next
  case (snoc d documents)
  with merge_shaped [of "merge_documents documents" path "cfg_values d"] show ?case
    by (auto simp: merge_documents_snoc split: option.splits)
qed

lemma shaped_leaf: "leaf_shaped j path \<Longrightarrow> lookupPath j path = Some v \<Longrightarrow> \<not> isPlainObject v"
  by (induction j path rule: leaf_shaped.induct) (auto simp: Option.bind_eq_Some_conv split: option.splits)

section \<open>Properties\<close>

definition settings :: "configuration_layer \<Rightarrow> (string \<times> js_value) list \<Rightarrow> js_value layer_document" where
  "settings layer members = \<lparr>cfg_layer = layer, cfg_sourcePath = None, cfg_values = V_obj members\<rparr>"

definition relaxing_inputs :: "js_value layer_document list" where
  "relaxing_inputs =
     [settings L_repository [(''privacy'', V_obj [(''mode'', V_str ''open'')]), (''limits'', V_obj [(''max_repair_attempts'', V_num (Fin 9))])],
      settings L_built_in_defaults [(''privacy'', V_obj [(''mode'', V_str ''confidential'')]),
        (''limits'', V_obj [(''max_repair_attempts'', V_num (Fin 3))])]]"

text \<open>
  Every setting of a resolved configuration was written by a layer: each leaf has a provenance record, the document
  of the credited layer holds that very value at that very path, and the policy lets that layer write the recorded
  pointer (an invocation override is credited only where the pointer is declared overridable).
\<close>

theorem configuration_attributed:
  assumes "well_keyed inputs" "lookupPath (rcf_values (resolveConfiguration inputs rules)) path = Some v" "\<not> isPlainObject v"
  shows "\<exists>credit p s d. credit \<in> set (rcf_provenance (resolveConfiguration inputs rules)) \<and> path = p @ s \<and>
    pv_pointer credit = pathToPointer p \<and> d \<in> set (layer_documents inputs) \<and>
    may_write rules p d \<and> ent_layer (pv_winner credit) = cfg_layer d \<and>
    lookupPath (cfg_values d) p = Some (ent_value (pv_winner credit)) \<and> lookupPath (cfg_values d) path = Some v"
proof -
  from resolved_leaf [OF assms] obtain credit p s where credit: "credit \<in> set (rcf_provenance (resolveConfiguration inputs rules))"
    "path = p @ s" "pv_pointer credit = pathToPointer p" "lookupPath (ent_value (pv_winner credit)) s = Some v" .
  note rec = recorded_leaf [OF assms(1) credit(1,3)]
  then have "pv_winner credit \<in> set (fst (leaf_chain (indexConfigurationPolicy rules) p (layer_documents inputs)))"
    using winner_in_chain by simp
  then obtain d u where d: "d \<in> set (layer_documents inputs)" "may_write rules p d"
    "lookupPath (cfg_values d) p = Some u" "pv_winner credit = entryOf d u" by (auto simp: chain_entry gate_may_write)
  have "lookupPath j (p @ s) = lookupPath u s" if "lookupPath j p = Some u" for j
    using that by (induction j p rule: lookupPath.induct) (auto simp: Option.bind_eq_Some_conv)
  with credit d show ?thesis by (intro exI [of _ credit] exI [of _ p] exI [of _ s] exI [of _ d]) (auto simp: entryOf_def)
qed

theorem configuration_attributed_witness:
  "\<exists>credit p s d. credit \<in> set (rcf_provenance (resolveConfiguration relaxing_inputs HENIEK_BUILT_IN_CONFIGURATION_POLICY)) \<and>
    [''limits'', ''max_repair_attempts''] = p @ s \<and> pv_pointer credit = pathToPointer p \<and> d \<in> set (layer_documents relaxing_inputs) \<and>
    may_write HENIEK_BUILT_IN_CONFIGURATION_POLICY p d \<and>
    ent_layer (pv_winner credit) = cfg_layer d \<and> lookupPath (cfg_values d) p = Some (ent_value (pv_winner credit)) \<and>
    lookupPath (cfg_values d) [''limits'', ''max_repair_attempts''] = Some (JNum (Fin 3))"
proof (rule configuration_attributed)
  show "well_keyed relaxing_inputs" by code_simp
  show "lookupPath (rcf_values (resolveConfiguration relaxing_inputs HENIEK_BUILT_IN_CONFIGURATION_POLICY))
    [''limits'', ''max_repair_attempts''] = Some (JNum (Fin 3))" by code_simp
qed simp

text \<open>
  C40: the strictest setting wins. Where all layers agree that a path leads through objects to a leaf, and a layer that may
  write there holds a value, the resolved configuration has a value there: under a privacy rule one that stands no later
  in the order than any ranked value of a permitted layer, and under a hard limit (without a privacy rule on
  the same pointer) one that is no laxer than any comparable value of a permitted layer.
\<close>

theorem strictest_setting_wins:
  assumes "well_keyed inputs" "path \<noteq> []" "\<forall>d \<in> set (layer_documents inputs). leaf_shaped (cfg_values d) path"
    "d \<in> set (layer_documents inputs)" "may_write rules path d" "lookupPath (cfg_values d) path = Some w"
  shows "\<exists>v. lookupPath (rcf_values (resolveConfiguration inputs rules)) path = Some v \<and>
    (\<forall>order n. privacy_ordered rules path order \<longrightarrow> stands_at order w n \<longrightarrow> (\<exists>m \<le> n. stands_at order v m)) \<and>
    (\<forall>s n. limited rules path s \<longrightarrow> (\<forall>order. Rule_ordered_privacy (pathToPointer path) order \<notin> set rules) \<longrightarrow>
       amounts_to w n \<longrightarrow> (\<exists>m. amounts_to v m \<and> \<not> laxer s m n))"
proof -
  let ?policy = "indexConfigurationPolicy rules" and ?documents = "layer_documents inputs"
  from assms(4-6) have entry: "entryOf d w \<in> set (fst (leaf_chain ?policy path ?documents))" by (auto simp: chain_entry gate_may_write)
  then have "fst (leaf_chain ?policy path ?documents) \<noteq> []" by auto
  from resolve_leaf_set [OF this] obtain credit where credit: "lr_provenance (resolve_leaf ?policy ?documents path) = [credit]"
    and pointer: "pv_pointer credit = pathToPointer path" by blast
  from merged_shaped [of ?documents path] document_keys [OF assms(1)] assms(2-4,6)
  obtain u where "lookupPath (merged_input inputs) path = Some u" "\<not> isPlainObject u" using shaped_leaf by (metis not_None_eq)
  then have "path \<in> set (collectLeafPaths (merged_input inputs) [])" using merged_leaf_paths [OF assms(1)] by blast
  with credit have "credit \<in> set (rcf_provenance (resolveConfiguration inputs rules))" unfolding resolved_provenance by force
  from recorded_leaf [OF assms(1) this pointer]
  have resolved: "lookupPath (rcf_values (resolveConfiguration inputs rules)) path = Some (ent_value (winner_at ?policy ?documents path))" by simp
  have w: "ent_value (entryOf d w) = w" by (simp add: entryOf_def)
  have "\<exists>m \<le> n. stands_at order (ent_value (winner_at ?policy ?documents path)) m"
    if "privacy_ordered rules path order" "stands_at order w n" for order n
    using winner_private [OF privacy_indexed [OF that(1)] entry] that(2) unfolding w rank_stands by blast
  moreover have "\<exists>m. amounts_to (ent_value (winner_at ?policy ?documents path)) m \<and> \<not> laxer s m n"
    if "limited rules path s" "\<forall>order. Rule_ordered_privacy (pathToPointer path) order \<notin> set rules" "amounts_to w n" for s n
    using winner_limited [OF limit_indexed [OF that(1)] unordered_indexed [OF that(2)] entry] that(3)
    unfolding w magnitude_amounts stricter_laxer by blast
  ultimately show ?thesis using resolved by blast
qed

theorem strictest_setting_wins_witness:
  "\<exists>v m. lookupPath (rcf_values (resolveConfiguration relaxing_inputs HENIEK_BUILT_IN_CONFIGURATION_POLICY)) [''privacy'', ''mode''] = Some v \<and>
     m \<le> 0 \<and> stands_at [JStr ''confidential'', JStr ''internal'', JStr ''open''] v m"
proof -
  let ?rules = HENIEK_BUILT_IN_CONFIGURATION_POLICY and ?path = "[''privacy'', ''mode'']"
    and ?order = "[JStr ''confidential'', JStr ''internal'', JStr ''open'']"
  let ?d = "\<lparr>cfg_layer = L_built_in_defaults, cfg_sourcePath = None, cfg_values = JObj [(''privacy'', JObj [(''mode'', JStr ''confidential'')]),
        (''limits'', JObj [(''max_repair_attempts'', JNum (Fin 3))])]\<rparr>"
  have docs: "layer_documents relaxing_inputs = [?d, \<lparr>cfg_layer = L_repository, cfg_sourcePath = None,
      cfg_values = JObj [(''privacy'', JObj [(''mode'', JStr ''open'')]), (''limits'', JObj [(''max_repair_attempts'', JNum (Fin 9))])]\<rparr>]"
    by code_simp
  have keyed: "well_keyed relaxing_inputs" by code_simp
  have "?rules = take 4 ?rules @ Rule_ordered_privacy (pathToPointer ?path) ?order # drop 5 ?rules" by code_simp
  moreover have "Rule_ordered_privacy (pathToPointer ?path) other \<notin> set (drop 5 ?rules)" for other
    by (simp add: HENIEK_BUILT_IN_CONFIGURATION_POLICY_def pathToPointer_def joinPointer_def escapePointerSegment_def)
  ultimately have p: "privacy_ordered ?rules ?path ?order" unfolding privacy_ordered_def by blast
  have w: "stands_at ?order (JStr ''confidential'') 0" by (simp add: stands_at_def)
  from strictest_setting_wins [of relaxing_inputs ?path ?d ?rules "JStr ''confidential''"] keyed p w show ?thesis
    by (auto simp: docs may_write_def)
qed

text \<open>
  Without rules and without invocation overrides, resolution is the plain merge of the documents in the order of
  their layers: recovering the provenance of every leaf afterwards and writing it back changes nothing.
\<close>

theorem resolution_is_merge:
  assumes "well_keyed inputs" "\<forall>d \<in> set inputs. cfg_layer d \<noteq> L_invocation_override"
  shows "rcf_values (resolveConfiguration inputs []) = merge_documents (layer_documents inputs)"
  using assms by (rule resolved_without_rules)

theorem resolution_is_merge_witness:
  "rcf_values (resolveConfiguration relaxing_inputs []) = merge_documents (layer_documents relaxing_inputs)"
  by (rule resolution_is_merge) (code_simp, simp add: relaxing_inputs_def settings_def)

end
