(* ===== verification/Spec2Isabelle.thy ===== *)
theory Spec2Isabelle
  imports Scheduler_Rerun Task_Revision_Safety Capsule_Safety Lease_Safety Pipeline_Safety Config_Safety
begin

text \<open>
  A verification of Heniek's control-plane core.

  Heniek runs task pipelines over coding-agent sessions. A pipeline is a graph of stages with
  conditions on its edges; a scheduler advances the stages from durable observations; failed
  attempts go through a recovery policy; a run's tasks form a dependency graph that is validated,
  planned in waves and revised; adjacent stages may share a live session, and a session hands
  over to the next through a verified capsule. What a run does is recorded in a journal: a command is one transaction that appends
  an event and writes the rows in which the projection changes, the projection can be rebuilt from the journal, and the writers of a
  checkout hold fenced leases in it. Its settings are the merge of layers of configuration under a policy. The decisions and the journal's operations are modelled here as HOL functions, definition by
  definition, with the source's names.

  \<^bold>\<open>Conventions.\<close> A struct is a record, a tagged union a datatype, an optional property an \<open>option\<close>. A JavaScript \<open>Map\<close> is
  an association list in insertion order (\<open>Prelude\<close>, locale \<open>key_map\<close>), a \<open>Set\<close> a list without repetitions, a stable sort
  \<^const>\<open>sort_key\<close>. An exception is a value: \<open>Inl\<close> of an error in the type \<open>res\<close> (\<open>Prelude\<close>).
  Numbers of the condition language and of the pressure policy are binary64 values (\<open>Js_Number\<close>); counters are natural numbers. Strings are character lists,
  whose code units are below 256, except in the capsules, where text is cut by its UTF-8 size and strings are lists of 16-bit words
  (\<open>Text16\<close>). The hash function and the text of a number are arguments of the definitions that use them
  (records \<open>platform\<close> and \<open>text_platform\<close>). The properties assume of them at most that the text of a number is a JSON
  number that is read back as that number (\<open>numbers_read_back\<close>, satisfied by the platform of \<open>State_Examples\<close>).

  The SQLite handle is an argument too: the record \<open>sqlite\<close> of the statements the sources prepare, with the laws of the locale
  \<open>sql_store\<close>, among them that a \<open>ROLLBACK\<close> gives back the database at the beginning of its transaction. \<open>State_Schema\<close> builds a store from the schema's own tables, triggers, checks and references, and
  interprets the locale on it; the \<open>json_valid\<close> checks are left out there. Clocks, identifiers and the liveness of processes are
  arguments of the operations that ask for them; \<open>Date\<close> is the record \<open>dates\<close>. A projection's plain objects are maps, so identifiers
  that are properties of every JavaScript object (such as \<open>constructor\<close>) are outside the model, and so are object keys that are
  integers, which JavaScript enumerates before all others whatever the order of insertion. Error messages are ASCII: a hyphen stands for a dash.

  \<^bold>\<open>Theories.\<close>

  \<^item> \<open>Prelude\<close>, \<open>Js_Number\<close>, \<open>Json\<close>, \<open>Text16\<close>: thrown errors, folds that may throw (with the locales for
    their invariants), decimal text, ordered maps and sets, numbers, JSON text and its unique readability.

  \<^item> \<open>Transitions\<close> (\<open>scheduler/transitions.ts\<close>): stage states, the transition table, and the lifecycle of a stage as a step relation.

  \<^item> \<open>Recovery\<close> (\<open>recovery/*.ts\<close>): failure classification, signatures, limits and the recovery decision; repairs are bounded.

  \<^item> \<open>Expression_Lex\<close>, \<open>Expression_Parse\<close>, \<open>Expression_Eval\<close> (\<open>expression/*.ts\<close>): the condition language. The lexer and the parser are total;
    the parser carries a call-depth argument, and the theorem on \<open>parseConditionExpression\<close> shows the bound it is given suffices.
    A compiled condition evaluates to the same value front to back and recursively.

  \<^item> \<open>Scheduler_Types\<close> to \<open>Scheduler_Rerun\<close> (\<open>scheduler/tick.ts\<close>, \<open>scheduler/ids.ts\<close>): the data, every handler and loop of a tick, and its
    theorems: the log of a plan replays on the transition table, releases respect dependencies, dispatch respects the concurrency limit, stopping
    winds down, the recovery state of a plan is restored by the next tick, a well-formed input always gives a plan, the release loop ends (its fuel is one round per stage and per edge plus one), and
    a manual rerun resets exactly the stage and its descendants.

  \<^item> \<open>Pipeline_Document\<close>, \<open>Pipeline_Graph\<close> (\<open>graph/normalize.ts\<close>, \<open>graph/validate.ts\<close>): normalization of a loaded document, with every rule a
    pipeline graph must satisfy. \<open>Pipeline_Walks\<close>, \<open>Pipeline_Validity\<close>, \<open>Pipeline_Safety\<close>: what the three graph walks compute (locale
    \<open>adjacency\<close>), that validation decides a declarative validity (for stage ids without spaces, which the duplicate check confuses), that the order of a document does not matter, and that an accepted
    pipeline can be scheduled.

  \<^item> \<open>Task_Dag\<close>, \<open>Task_Order\<close> (\<open>task-graph/validate.ts\<close>): validation of a task graph; it accepts exactly the well-formed graphs, and its order is topological.

  \<^item> \<open>Task_Wave\<close> (\<open>task-graph/plan.ts\<close>): the tasks selected for a wave are runnable, within the budgets, and write disjoint repositories.

  \<^item> \<open>Task_Revise\<close>, \<open>Task_Revision_Safety\<close> (\<open>task-graph/revise.ts\<close>): canonical forms, structural waves, every check of a proposed revision, and
    what an accepted one guarantees for started tasks, requirements and declared changes.

  \<^item> \<open>Config_Layers\<close> (\<open>config/src/layers/*.ts\<close>): sanitizing, merging and resolving configuration documents under the policy rules.
    \<open>Config_Merge\<close>, \<open>Config_Policy\<close>, \<open>Config_Safety\<close>: pointers and leaves of a merge, the rules that keep the strictest value (locale
    \<open>strictness\<close>), that every resolved leaf is credited to a layer that may write it, and that the strictest setting wins.

  \<^item> \<open>Fusion\<close> (\<open>fusion/evaluate.ts\<close>, \<open>fusion/pressure.ts\<close>, \<open>fusion/ids.ts\<close>): when a session may go on with the next stage.

  \<^item> \<open>Capsule\<close>, \<open>Capsule_Safety\<close> (\<open>fusion/capsule.ts\<close>, \<open>fusion/verify.ts\<close>, \<open>fusion/canonical.ts\<close>): continuation capsules and their verification.

  \<^item> \<open>Json_Text\<close>, \<open>State_Json\<close> (\<open>state/src/json.ts\<close>): the JSON parser as a recursive descent with a depth argument (the length of the text is
    enough), canonical values and texts, and their round trip.

  \<^item> \<open>Projection\<close>, \<open>Reducer\<close> (\<open>projection/reducer.ts\<close>): the payload readers, the scope of an event and every event type of \<open>applyEvent\<close>.

  \<^item> \<open>Projection_Change\<close>, \<open>Projection_Rows\<close> (\<open>projection/state.ts\<close>): how an event changes rows; encoding, decoding and the differences of two projections.

  \<^item> \<open>State_Store\<close>, \<open>State_Replay\<close> (\<open>command/commit.ts\<close>, \<open>journal/*.ts\<close>, \<open>replay/*.ts\<close>): the journal, the scoped reads, the statements of each
    table, the commit with its checks, replay and the divergence report (without its schema fingerprint). What throws in a transaction
    keeps the database of that moment; the \<open>catch\<close> block of the commit (\<open>commit_catch\<close>) rolls it back.

  \<^item> \<open>State_Values\<close>, \<open>State_Canonical\<close>, \<open>State_Convergence\<close>, \<open>State_Report\<close>: the values rows take, which payloads keep their text in the journal,
    the simulation of a commit on the stored rows by \<open>applyEvent\<close> on the projection, and from it that the divergence check
    of every reachable database is converged.

  \<^item> \<open>State_Schema\<close>, \<open>State_Integrity\<close>, \<open>State_Examples\<close> (\<open>migrations/list.ts\<close>): the schema's guards and the store built from them, references,
    history and triggers of a replayed projection, and the properties with their evaluated examples.

  \<^item> \<open>Workspace_Lease\<close>, \<open>Lease_Provider\<close>, \<open>Lease_Safety\<close> (\<open>workspace/src/lease.ts\<close>, \<open>workspace/src/state.ts\<close>): the writer-lease service over a
    lease store given by its laws (a locale), the proof that the durable store satisfies them, and exclusion and fencing of writers.

  \<^bold>\<open>Not modelled.\<close> The scheduling, pipeline, interaction and native-bridge stores of \<open>packages/state\<close>, the opening and
  migration of databases, processes, sockets and the file system (daemon, runner, workspace provisioning, client,
  execution backends), the GitHub adapters, the secret store, the conformance suites and the scripts: they are input and output around the decisions
  above. YAML and schema validation rest on third-party parsers.
\<close>

end
